(* ===== verification/Prelude.thy ===== *)
theory Prelude
  imports Main "HOL-Library.AList" "HOL-Library.List_Lexorder" "HOL-Library.Char_ord"
    "HOL-Library.Product_Lexorder"
begin

text \<open>
  Shared vocabulary of the development: instants, JSON values, decimal rendering, tables of
  rows keyed by a primary key, and the interfaces (locales) that the components rely on.

  \<^item> An instant is an \<open>int\<close> count of microseconds, the resolution of Python's
    \<open>datetime\<close>; \<open>secs n\<close> is \<open>timedelta(seconds=n)\<close>.
  \<^item> A JSON object is an association list: \<open>dict\<close> keeps insertion order.
  \<^item> A database table is the list of its rows in insertion order.
\<close>

named_theorems row_simps \<open>lookups in tables and stores after an update\<close>
named_theorems frame_simps \<open>fields and rows an operation leaves alone\<close>
named_theorems status_simps \<open>membership of statuses in the sets of the state machines\<close>

section \<open>Instants and durations\<close>

type_synonym instant = int

definition secs :: "int \<Rightarrow> int" where
  "secs n = n * 1000000"

lemma secs_mono [simp]: "secs a \<le> secs b \<longleftrightarrow> a \<le> b"
  by (simp add: secs_def)

lemma secs_nonneg [simp]: "0 \<le> secs a \<longleftrightarrow> 0 \<le> a"
  by (simp add: secs_def)

lemma secs_pos [simp]: "0 < secs a \<longleftrightarrow> 0 < a"
  by (simp add: secs_def)

lemma secs_zero [simp]: "secs 0 = 0"
  by (simp add: secs_def)

section \<open>JSON values and Python's truth tests\<close>

datatype json =
    JNull
  | JBool bool
  | JInt int
  | JStr string
  | JList "json list"
  | JObj "(string \<times> json) list"

type_synonym obj = "(string \<times> json) list"

definition obj_get :: "obj \<Rightarrow> string \<Rightarrow> json" where
  \<comment> \<open>\<open>d.get(k)\<close>: a missing key reads as \<open>None\<close>.\<close>
  "obj_get d k = (case map_of d k of None \<Rightarrow> JNull | Some v \<Rightarrow> v)"

fun truthy :: "json \<Rightarrow> bool" where
  "truthy JNull = False"
| "truthy (JBool b) = b"
| "truthy (JInt n) = (n \<noteq> 0)"
| "truthy (JStr s) = (s \<noteq> [])"
| "truthy (JList xs) = (xs \<noteq> [])"
| "truthy (JObj d) = (d \<noteq> [])"

fun as_dict :: "json \<Rightarrow> obj option" where
  \<comment> \<open>\<open>v if isinstance(v, dict) else None\<close>\<close>
  "as_dict (JObj d) = Some d"
| "as_dict _ = None"

definition truthy_str :: "string option \<Rightarrow> bool" where
  \<comment> \<open>truth of a nullable string: neither \<open>None\<close> nor \<open>""\<close>\<close>
  "truthy_str s = (s \<noteq> None \<and> s \<noteq> Some [])"

definition or_default :: "'a option \<Rightarrow> 'a \<Rightarrow> 'a" where
  \<comment> \<open>\<open>x or d\<close> where a present \<open>x\<close> is always true\<close>
  "or_default x d = (case x of None \<Rightarrow> d | Some v \<Rightarrow> v)"

lemma or_default_simps [simp]: "or_default None d = d" "or_default (Some v) d = v"
  by (simp_all add: or_default_def)

definition first_some :: "'a option \<Rightarrow> 'a option \<Rightarrow> 'a option" where
  \<comment> \<open>\<open>x or y\<close> on nullable values that are never falsy when present\<close>
  "first_some x y = (case x of None \<Rightarrow> y | Some v \<Rightarrow> Some v)"

lemma first_some_simps [simp]: "first_some None y = y" "first_some (Some v) y = Some v"
  by (simp_all add: first_some_def)

section \<open>Decimal rendering of integers, and fresh identifiers\<close>

definition digit :: "nat \<Rightarrow> char" where
  "digit d = char_of (48 + d)"

fun show_nat :: "nat \<Rightarrow> string" where
  "show_nat n = (if n < 10 then [digit n] else show_nat (n div 10) @ [digit (n mod 10)])"

declare show_nat.simps [simp del]

definition digit_val :: "char \<Rightarrow> nat" where
  "digit_val c = of_char c - 48"

definition read_nat :: "string \<Rightarrow> nat" where
  "read_nat s = foldl (\<lambda>n c. 10 * n + digit_val c) 0 s"

lemma digit_val_digit [simp]: "d < 10 \<Longrightarrow> digit_val (digit d) = d"
  by (simp add: digit_val_def digit_def)

lemma read_show_nat [simp]: "read_nat (show_nat n) = n"
proof (induction n rule: show_nat.induct)
  case (1 n)
  show ?case
  proof (cases "n < 10")
    case True
    then show ?thesis by (simp add: show_nat.simps [of n] read_nat_def)
  next
    case False
    with 1 have "read_nat (show_nat (n div 10)) = n div 10" by simp
    with False show ?thesis
      by (simp add: show_nat.simps [of n] read_nat_def)
  qed
qed

lemma show_nat_inject [simp]: "show_nat m = show_nat n \<longleftrightarrow> m = n"
  by (metis read_show_nat)

lemma show_nat_nonempty [simp]: "show_nat n \<noteq> []"
  by (simp add: show_nat.simps [of n])

definition show_int :: "int \<Rightarrow> string" where
  "show_int i = (if i < 0 then ''-'' @ show_nat (nat (- i)) else show_nat (nat i))"

definition fresh_id :: "nat \<Rightarrow> string" where
  \<comment> \<open>\<open>uuid.uuid4().hex\<close>, of which the code only uses that every call returns a new value:
    the \<open>n\<close>-th identifier of a run\<close>
  "fresh_id n = ''u'' @ show_nat n"

lemma fresh_id_inject [simp]: "fresh_id m = fresh_id n \<longleftrightarrow> m = n"
  by (simp add: fresh_id_def)

section \<open>Tables of rows\<close>

definition find_row :: "('r \<Rightarrow> 'k) \<Rightarrow> 'r list \<Rightarrow> 'k \<Rightarrow> 'r option" where
  "find_row key rows k = find (\<lambda>r. key r = k) rows"

definition set_row :: "('r \<Rightarrow> 'k) \<Rightarrow> 'r list \<Rightarrow> 'r \<Rightarrow> 'r list" where
  "set_row key rows r = map (\<lambda>r'. if key r' = key r then r else r') rows"

lemma find_row_Nil [simp]: "find_row key [] k = None"
  by (simp add: find_row_def)

lemma find_row_Cons [simp]:
  "find_row key (r # rs) k = (if key r = k then Some r else find_row key rs k)"
  by (simp add: find_row_def)

lemma find_row_key: "find_row key rows k = Some r \<Longrightarrow> key r = k"
  by (induction rows) (auto split: if_splits)

lemma find_row_mem: "find_row key rows k = Some r \<Longrightarrow> r \<in> set rows"
  by (induction rows) (auto split: if_splits)

lemma find_row_append:
  "find_row key (rows @ rows') k = (case find_row key rows k of
     Some r \<Rightarrow> Some r | None \<Rightarrow> find_row key rows' k)"
  by (induction rows) auto

lemma find_row_set_row:
  "find_row key (set_row key rows r) k =
     (if k = key r \<and> find_row key rows k \<noteq> None then Some r else find_row key rows k)"
  by (induction rows) (auto simp: set_row_def)

lemma find_row_none_iff: "find_row key rows k = None \<longleftrightarrow> k \<notin> key ` set rows"
  by (induction rows) auto

lemma map_key_set_row [simp]: "map key (set_row key rows r) = map key rows"
  by (induction rows) (auto simp: set_row_def)

lemma find_row_distinct:
  "distinct (map key rows) \<Longrightarrow> r \<in> set rows \<Longrightarrow> find_row key rows (key r) = Some r"
  by (induction rows) (auto simp: rev_image_eqI)

lemma mem_set_row:
  "r' \<in> set (set_row key rows r) \<Longrightarrow> r' = r \<or> (r' \<in> set rows \<and> key r' \<noteq> key r)"
  by (auto simp: set_row_def split: if_splits)

lemma length_set_row [simp]: "length (set_row key rows r) = length rows"
  by (simp add: set_row_def)

section \<open>JSON objects as dictionaries\<close>

definition obj_set :: "obj \<Rightarrow> string \<Rightarrow> json \<Rightarrow> obj" where
  \<comment> \<open>\<open>d[k] = v\<close>\<close>
  "obj_set d k v = AList.update k v d"

definition obj_update :: "obj \<Rightarrow> obj \<Rightarrow> obj" where
  \<comment> \<open>\<open>d.update(e)\<close>\<close>
  "obj_update d e = fold (\<lambda>(k, v) d. obj_set d k v) e d"

lemma obj_get_set [simp]: "obj_get (obj_set d k v) k' = (if k' = k then v else obj_get d k')"
  by (simp add: obj_get_def obj_set_def update_conv)

definition max_option :: "int list \<Rightarrow> int option" where
  "max_option xs = (if xs = [] then None else Some (Max (set xs)))"

definition min_option :: "int list \<Rightarrow> int option" where
  "min_option xs = (if xs = [] then None else Some (Min (set xs)))"

section \<open>Interfaces\<close>

text \<open>
  A place that holds rows under their own key: the tables of the server's database and the
  agent's state directory. Reading is the least one needs.
\<close>

locale row_reader =
  fixes lookup :: "'s \<Rightarrow> 'k \<Rightarrow> 'v option"
    and key :: "'v \<Rightarrow> 'k"
  assumes lookup_key: "lookup s k = Some v \<Longrightarrow> key v = k"

text \<open>An \<open>UPDATE\<close> of an existing row: it never creates one.\<close>

locale row_updater = row_reader lookup key
  for lookup :: "'s \<Rightarrow> 'k \<Rightarrow> 'v option" and key :: "'v \<Rightarrow> 'k" +
  fixes update :: "'s \<Rightarrow> 'v \<Rightarrow> 's"
  assumes lookup_update:
    "lookup (update s v) k = (if k = key v \<and> lookup s k \<noteq> None then Some v else lookup s k)"
begin

lemma lookup_update_same: "lookup s (key v) \<noteq> None \<Longrightarrow> lookup (update s v) (key v) = Some v"
  by (simp add: lookup_update)

lemma lookup_update_other: "k \<noteq> key v \<Longrightarrow> lookup (update s v) k = lookup s k"
  by (simp add: lookup_update)

lemma update_keeps_keys: "(lookup (update s v) k = None) = (lookup s k = None)"
  by (auto simp: lookup_update)

text \<open>A read-modify-write relates old and new row of every key by any reflexive relation
  that relates the old and the new row of the key written.\<close>

lemma update_pointwise:
  assumes "lookup s (key v) = Some w" and "R w v" and "\<And>u. R u u"
    and "lookup s k = Some r"
  shows "\<exists>r'. lookup (update s v) k = Some r' \<and> R r r'"
  using assms by (cases "k = key v") (auto simp: lookup_update)

end

definition modify_row :: "('s \<Rightarrow> 'k \<Rightarrow> 'v option) \<Rightarrow> ('s \<Rightarrow> 'v \<Rightarrow> 's) \<Rightarrow> 's \<Rightarrow> 'k \<Rightarrow> ('v \<Rightarrow> 'v) \<Rightarrow> 's" where
  \<comment> \<open>the read-modify-write of one value\<close>
  "modify_row lookup put s k f = (case lookup s k of None \<Rightarrow> s | Some v \<Rightarrow> put s (f v))"

text \<open>A directory of files, each holding a value that names its own file: a write also creates, a
  delete removes, and the invariant is that every readable value is under its own name.\<close>

locale keyed_store =
  fixes lookup :: "'s \<Rightarrow> 'k \<Rightarrow> 'v option" and key :: "'v \<Rightarrow> 'k"
    and put :: "'s \<Rightarrow> 'v \<Rightarrow> 's" and del :: "'s \<Rightarrow> 'k \<Rightarrow> 's" and inv :: "'s \<Rightarrow> bool"
  assumes lookup_put: "lookup (put s v) k = (if k = key v then Some v else lookup s k)"
    and lookup_del: "lookup (del s k') k = (if k = k' then None else lookup s k)"
    and lookup_key: "inv s \<Longrightarrow> lookup s k = Some v \<Longrightarrow> key v = k"
    and inv_put: "inv s \<Longrightarrow> inv (put s v)"
    and inv_del: "inv s \<Longrightarrow> inv (del s k)"
begin

lemma lookup_modify:
  assumes "inv s" and "\<And>v. key (f v) = key v"
  shows "lookup (modify_row lookup put s k f) k' = (if k' = k then map_option f (lookup s k) else lookup s k')"
  using lookup_key [OF assms(1)]
  by (auto simp: modify_row_def lookup_put assms(2) split: option.splits)

lemma inv_modify: "inv s \<Longrightarrow> inv (modify_row lookup put s k f)"
  by (auto simp: modify_row_def inv_put split: option.splits)

text \<open>A predicate of single values that every read-modify-write of a run keeps holds of every
  value after the run.\<close>

lemma all_modify:
  assumes "inv s" and "\<And>v. key (f v) = key v" and "\<And>v. P v \<Longrightarrow> P (f v)"
    and "\<And>k v. lookup s k = Some v \<Longrightarrow> P v" and "lookup (modify_row lookup put s k f) k' = Some w"
  shows "P w"
  using assms(3,4,5) lookup_modify [where f = f, OF assms(1,2)] by (auto split: if_splits)

end

text \<open>A state machine given by its table of allowed moves, with states that are final.\<close>

locale status_machine =
  fixes valid :: "'a \<Rightarrow> 'a \<Rightarrow> bool" and hard :: "'a \<Rightarrow> bool"
  assumes valid_refl: "valid a a"
    and hard_stuck: "hard a \<Longrightarrow> valid a b \<Longrightarrow> b = a"
begin

lemma hard_chain: "valid\<^sup>*\<^sup>* a b \<Longrightarrow> hard a \<Longrightarrow> b = a"
proof (induction rule: rtranclp_induct)
  case base
  show ?case ..
next
  case (step b c)
  then show ?case using hard_stuck by auto
qed

end

text \<open>A family of atomic operations on a state that keep an invariant and relate the old
  state to the new one by a preorder; what then holds of any interleaving of them.\<close>

locale atomic_steps =
  fixes step :: "'e \<Rightarrow> 's \<Rightarrow> 's" and inv :: "'s \<Rightarrow> bool" and rel :: "'s \<Rightarrow> 's \<Rightarrow> bool"
  assumes step_inv: "inv s \<Longrightarrow> inv (step e s)"
    and step_rel: "inv s \<Longrightarrow> rel s (step e s)"
    and rel_refl: "rel s s"
    and rel_trans: "rel s t \<Longrightarrow> rel t u \<Longrightarrow> rel s u"
begin

lemma steps_inv: "inv s \<Longrightarrow> inv (fold step es s)"
  by (induction es arbitrary: s) (auto intro: step_inv)

lemma steps_rel: "inv s \<Longrightarrow> rel s (fold step es s)"
proof (induction es arbitrary: s)
  case Nil
  show ?case by (simp add: rel_refl)
next
  case (Cons e es)
  have "rel s (step e s)" using Cons.prems by (rule step_rel)
  moreover have "rel (step e s) (fold step es (step e s))"
    by (rule Cons.IH) (rule step_inv [OF Cons.prems])
  ultimately show ?case by (simp add: rel_trans)
qed

end

end
