(* ===== verification/Protocol.thy ===== *)
theory Protocol
  imports Prelude
begin

text \<open>
  The wire vocabulary shared by server and agent
  (\<^verbatim>\<open>packages/protocol/dopilot_protocol/streams.py\<close>, \<^verbatim>\<open>agent.py\<close>): command and event
  types, lost reasons, and the messages of the command, event and log streams.

  The JSON codec of the messages (pydantic) is not under src/: a stream entry is modelled as
  the message it decodes to, or \<open>None\<close> for an entry that does not decode. Log content is the
  list of raw bytes, that is, \<open>content_b64\<close> after \<open>b64decode\<close>.
\<close>

section \<open>Stream topology\<close>

definition EVENT_STREAM :: string where
  "EVENT_STREAM = ''dopilot:server:agent-events''"

definition LOG_STREAM :: string where
  "LOG_STREAM = ''dopilot:server:logs''"

definition command_stream :: "string \<Rightarrow> string" where
  "command_stream agent_id = ''dopilot:agent:'' @ agent_id @ '':commands''"

section \<open>Enumerations\<close>

datatype agent_command_type = Cmd_run | Cmd_stop | Cmd_cleanup_logs | Cmd_stop_logs

datatype stop_intent = Intent_cancel | Intent_reclaim

datatype agent_event_type =
  Ev_accepted | Ev_running | Ev_finished | Ev_failed | Ev_canceled | Ev_lost | Ev_heartbeat

fun event_value :: "agent_event_type \<Rightarrow> string" where
  "event_value Ev_accepted = ''attempt.accepted''"
| "event_value Ev_running = ''attempt.running''"
| "event_value Ev_finished = ''attempt.finished''"
| "event_value Ev_failed = ''attempt.failed''"
| "event_value Ev_canceled = ''attempt.canceled''"
| "event_value Ev_lost = ''attempt.lost''"
| "event_value Ev_heartbeat = ''attempt.heartbeat''"

definition event_short :: "agent_event_type \<Rightarrow> string" where
  \<comment> \<open>\<open>self.value.split(".", 1)[1]\<close>\<close>
  "event_short t = tl (dropWhile (\<lambda>c. c \<noteq> CHR ''.'') (event_value t))"

definition is_terminal :: "agent_event_type \<Rightarrow> bool" where
  "is_terminal t = (t \<in> {Ev_finished, Ev_failed, Ev_canceled, Ev_lost})"

definition is_authoritative_terminal :: "agent_event_type \<Rightarrow> bool" where
  "is_authoritative_terminal t = (t \<in> {Ev_finished, Ev_failed, Ev_canceled})"

datatype lost_reason =
    Lost_heartbeat_timeout | Lost_event_stall
  | Lost_state_missing | Lost_process_missing | Lost_runner_recovered_unknown | Lost_spawn_aborted

fun lost_value :: "lost_reason \<Rightarrow> string" where
  "lost_value Lost_heartbeat_timeout = ''heartbeat_timeout''"
| "lost_value Lost_event_stall = ''event_stall''"
| "lost_value Lost_state_missing = ''state_missing''"
| "lost_value Lost_process_missing = ''process_missing''"
| "lost_value Lost_runner_recovered_unknown = ''runner_recovered_unknown''"
| "lost_value Lost_spawn_aborted = ''spawn_aborted''"

definition all_lost_reasons :: "lost_reason list" where
  "all_lost_reasons = [Lost_heartbeat_timeout, Lost_event_stall, Lost_state_missing,
     Lost_process_missing, Lost_runner_recovered_unknown, Lost_spawn_aborted]"

definition lost_of_value :: "string \<Rightarrow> lost_reason option" where
  \<comment> \<open>\<open>LostReason(s) if s in {r.value for r in LostReason} else None\<close>\<close>
  "lost_of_value s = find (\<lambda>r. lost_value r = s) all_lost_reasons"

definition lost_from_agent :: "lost_reason \<Rightarrow> bool" where
  \<comment> \<open>\<open>LostReason.source == "agent"\<close>\<close>
  "lost_from_agent r = (r \<notin> {Lost_heartbeat_timeout, Lost_event_stall})"

datatype attempt_status =
  St_pending | St_running | St_finished | St_failed | St_canceled | St_unknown

section \<open>Messages\<close>

record agent_command =
  cmd_command_id :: string
  cmd_type :: agent_command_type
  cmd_agent_id :: string
  cmd_task_id :: string
  cmd_execution_id :: string
  cmd_task_type :: string
  cmd_intent :: "stop_intent option"
  cmd_payload :: obj

record agent_event =
  ev_event_id :: string
  ev_agent_id :: string
  ev_task_id :: string
  ev_execution_id :: string
  ev_type :: agent_event_type
  ev_remote_job_id :: "string option"
  ev_exit_code :: "int option"
  ev_error_code :: "string option"
  ev_error_detail :: obj
  ev_lost_reason :: "lost_reason option"
  ev_error_count :: "int option"
  ev_finish_reason :: "string option"
  ev_log_bytes :: "int option"
  ev_outcome_class :: "string option"

datatype log_stream = Stream_log | Stream_stdout | Stream_stderr | Stream_system

record agent_log_event =
  le_agent_id :: string
  le_task_id :: string
  le_execution_id :: string
  le_stream :: log_stream
  le_offset :: int
  le_content :: string
  le_size_bytes :: int
  le_eof :: bool

section \<open>Facts\<close>

lemma authoritative_is_terminal: "is_authoritative_terminal t \<Longrightarrow> is_terminal t"
  by (auto simp: is_authoritative_terminal_def is_terminal_def)

lemma terminal_not_authoritative: "is_terminal t \<Longrightarrow> \<not> is_authoritative_terminal t \<longleftrightarrow> t = Ev_lost"
  by (cases t) (simp_all add: is_authoritative_terminal_def is_terminal_def)

lemma event_short_terminal [simp]:
  "event_short Ev_finished = ''finished''" "event_short Ev_failed = ''failed''"
  "event_short Ev_canceled = ''canceled''" "event_short Ev_lost = ''lost''"
  by (simp_all add: event_short_def)

lemma lost_of_value_lost_value [simp]: "lost_of_value (lost_value r) = Some r"
  by (cases r) (simp_all add: lost_of_value_def all_lost_reasons_def)

lemma lost_of_value_Some: "lost_of_value s = Some r \<Longrightarrow> lost_value r = s"
  by (auto simp: lost_of_value_def find_Some_iff)

end
