(* ===== verification/PyLib.thy ===== *)
theory PyLib
  imports Prelude
begin

text \<open>
  The parts of Python's standard library the program computes with: white space and case of
  strings, \<open>str()\<close> of a JSON value, and the UTC calendar behind \<open>datetime\<close>. Characters are code
  points below 256, as in the rest of the development.
\<close>

section \<open>Characters and strings\<close>

definition ord_of :: "char \<Rightarrow> nat" where
  "ord_of c = of_char c"

definition py_isspace :: "char \<Rightarrow> bool" where
  \<comment> \<open>\<open>str.isspace\<close> of one code point below 256\<close>
  "py_isspace c = ((9 \<le> ord_of c \<and> ord_of c \<le> 13) \<or> (28 \<le> ord_of c \<and> ord_of c \<le> 32)
     \<or> ord_of c = 133 \<or> ord_of c = 160)"

definition py_strip :: "string \<Rightarrow> string" where
  "py_strip s = rev (dropWhile py_isspace (rev (dropWhile py_isspace s)))"

definition is_alnum :: "char \<Rightarrow> bool" where
  \<comment> \<open>\<open>[A-Za-z0-9]\<close>\<close>
  "is_alnum c = ((48 \<le> ord_of c \<and> ord_of c \<le> 57) \<or> (65 \<le> ord_of c \<and> ord_of c \<le> 90)
     \<or> (97 \<le> ord_of c \<and> ord_of c \<le> 122))"

definition is_letter :: "char \<Rightarrow> bool" where
  "is_letter c = ((65 \<le> ord_of c \<and> ord_of c \<le> 90) \<or> (97 \<le> ord_of c \<and> ord_of c \<le> 122))"

definition lower_char :: "char \<Rightarrow> char" where
  \<comment> \<open>\<open>lower\<close> on ASCII letters\<close>
  "lower_char c = (if 65 \<le> ord_of c \<and> ord_of c \<le> 90 then char_of (ord_of c + 32) else c)"

definition lower :: "string \<Rightarrow> string" where
  "lower = map lower_char"

lemma strip_nonempty: "c \<in> set s \<Longrightarrow> \<not> py_isspace c \<Longrightarrow> py_strip s \<noteq> []"
proof -
  assume c: "c \<in> set s" "\<not> py_isspace c"
  then have "c \<in> set (dropWhile py_isspace s)"
    by (metis Un_iff set_append set_takeWhileD takeWhile_dropWhile_id)
  with c(2) have "dropWhile py_isspace (rev (dropWhile py_isspace s)) \<noteq> []"
    by (metis dropWhile_eq_Nil_conv set_rev)
  then show ?thesis by (simp add: py_strip_def)
qed

section \<open>\<open>str()\<close>\<close>

definition hex_digit :: "nat \<Rightarrow> char" where
  "hex_digit n = (if n < 10 then char_of (48 + n) else char_of (87 + n))"

definition repr_char :: "char \<Rightarrow> char \<Rightarrow> string" where
  \<comment> \<open>one character of a string literal delimited by \<open>q\<close>\<close>
  "repr_char q c =
     (if c = q \<or> c = CHR 0x5C then [CHR 0x5C, c]
      else if c = CHR 0x0A then CHR 0x5C # ''n''
      else if c = CHR 0x0D then CHR 0x5C # ''r''
      else if c = CHR 0x09 then CHR 0x5C # ''t''
      else if ord_of c < 32 \<or> (127 \<le> ord_of c \<and> ord_of c \<le> 160) \<or> ord_of c = 173
        then CHR 0x5C # ''x'' @ [hex_digit (ord_of c div 16), hex_digit (ord_of c mod 16)]
      else [c])"

definition repr_str :: "string \<Rightarrow> string" where
  "repr_str s =
     (let q = (if CHR 0x27 \<in> set s \<and> CHR 0x22 \<notin> set s then CHR 0x22 else CHR 0x27)
      in [q] @ concat (map (repr_char q) s) @ [q])"

fun join_with :: "string \<Rightarrow> string list \<Rightarrow> string" where
  \<comment> \<open>\<open>sep.join(parts)\<close>\<close>
  "join_with sep [] = []"
| "join_with sep [p] = p"
| "join_with sep (p # q # ps) = p @ sep @ join_with sep (q # ps)"

fun py_repr :: "json \<Rightarrow> string" where
  "py_repr JNull = ''None''"
| "py_repr (JBool b) = (if b then ''True'' else ''False'')"
| "py_repr (JInt n) = show_int n"
| "py_repr (JStr s) = repr_str s"
| "py_repr (JList xs) = ''['' @ join_with '', '' (map py_repr xs) @ '']''"
| "py_repr (JObj d) =
     ''{'' @ join_with '', '' (map (\<lambda>(k, v). repr_str k @ '': '' @ py_repr v) d) @ ''}''"

fun py_str :: "json \<Rightarrow> string" where
  "py_str (JStr s) = s"
| "py_str v = py_repr v"

section \<open>Optional values as JSON\<close>

definition jstr :: "string option \<Rightarrow> json" where
  "jstr x = (case x of None \<Rightarrow> JNull | Some s \<Rightarrow> JStr s)"

definition jint :: "int option \<Rightarrow> json" where
  "jint x = (case x of None \<Rightarrow> JNull | Some n \<Rightarrow> JInt n)"

section \<open>The calendar\<close>

definition civil :: "int \<Rightarrow> int \<times> int \<times> int" where
  \<comment> \<open>year, month and day of a count of days since 1970-01-01 (proleptic Gregorian)\<close>
  "civil z =
     (let z = z + 719468;
          era = z div 146097;
          doe = z mod 146097;
          yoe = (doe - doe div 1460 + doe div 36524 - doe div 146096) div 365;
          doy = doe - (365 * yoe + yoe div 4 - yoe div 100);
          mp = (5 * doy + 2) div 153;
          d = doy - (153 * mp + 2) div 5 + 1;
          m = (if mp < 10 then mp + 3 else mp - 9);
          y = yoe + era * 400 + (if m \<le> 2 then 1 else 0)
      in (y, m, d))"

definition pad :: "nat \<Rightarrow> int \<Rightarrow> string" where
  \<comment> \<open>a decimal with leading zeros to the given width\<close>
  "pad w n = (let s = show_int n in replicate (w - length s) (CHR ''0'') @ s)"

definition year_of :: "instant \<Rightarrow> int" where
  "year_of t = fst (civil (t div secs 86400))"

definition month_of :: "instant \<Rightarrow> int" where
  "month_of t = fst (snd (civil (t div secs 86400)))"

definition iso_date :: "instant \<Rightarrow> string" where
  \<comment> \<open>\<open>strftime("%Y-%m-%d")\<close>\<close>
  "iso_date t = (case civil (t div secs 86400) of (y, m, d) \<Rightarrow>
     pad 4 y @ ''-'' @ pad 2 m @ ''-'' @ pad 2 d)"

definition isoformat :: "instant \<Rightarrow> string" where
  \<comment> \<open>\<open>datetime.isoformat()\<close> of a UTC instant\<close>
  "isoformat t =
     (let us = t mod secs 86400; s = us div 1000000; f = us mod 1000000
      in iso_date t @ ''T'' @ pad 2 (s div 3600) @ '':'' @ pad 2 (s div 60 mod 60) @ '':''
         @ pad 2 (s mod 60) @ (if f = 0 then [] else ''.'' @ pad 6 f) @ ''+00:00'')"

definition iso :: "instant option \<Rightarrow> json" where
  "iso t = (case t of None \<Rightarrow> JNull | Some v \<Rightarrow> JStr (isoformat v))"

section \<open>Splitting and reading numbers\<close>

definition is_digit :: "char \<Rightarrow> bool" where
  "is_digit c = (48 \<le> ord_of c \<and> ord_of c \<le> 57)"

fun split_at :: "(char \<Rightarrow> bool) \<Rightarrow> string \<Rightarrow> string \<Rightarrow> string list" where
  "split_at p acc [] = [rev acc]"
| "split_at p acc (c # s) = (if p c then rev acc # split_at p [] s else split_at p (c # acc) s)"

definition py_int :: "string \<Rightarrow> int option" where
  \<comment> \<open>\<open>int(s)\<close> on decimals\<close>
  "py_int s =
     (let (neg, ds) = (case s of c # r \<Rightarrow> if c = CHR ''-'' then (True, r) else (False, s) | [] \<Rightarrow> (False, []))
      in if ds = [] \<or> \<not> list_all is_digit ds then None
         else Some (if neg then - int (read_nat ds) else int (read_nat ds)))"

definition ends_with :: "string \<Rightarrow> string \<Rightarrow> bool" where
  "ends_with suffix s = (length suffix \<le> length s \<and> drop (length s - length suffix) s = suffix)"

definition contains :: "string \<Rightarrow> string \<Rightarrow> bool" where
  \<comment> \<open>\<open>pat in s\<close>\<close>
  "contains pat s = list_ex (\<lambda>n. take (length pat) (drop n s) = pat) [0..<Suc (length s)]"

section \<open>Paths\<close>

definition path_parts :: "string \<Rightarrow> string list" where
  \<comment> \<open>\<open>Path(p).parts\<close> without the root\<close>
  "path_parts p = filter (\<lambda>x. x \<noteq> [] \<and> x \<noteq> ''.'') (split_at (\<lambda>c. c = CHR ''/'') [] p)"

definition path_stem :: "string \<Rightarrow> string" where
  \<comment> \<open>\<open>Path(p).stem\<close>\<close>
  "path_stem p =
     (let n = (if path_parts p = [] then [] else List.last (path_parts p));
          i = length n - Suc (length (takeWhile (\<lambda>c. c \<noteq> CHR ''.'') (rev n)))
      in if CHR ''.'' \<in> set n \<and> 0 < i \<and> i < length n - 1 then take i n else n)"

end
