(* ===== verification/ServerModels.thy ===== *)
theory ServerModels
  imports Protocol PyLib
begin

text \<open>
  The server's rows (\<^verbatim>\<open>apps/server/dopilot_server/models/*.py\<close>) and its database: one
  list of rows per table. A status column holds one of the values its module declares, so it
  is a datatype here; nullable columns are \<open>option\<close>s, JSON columns are JSON objects.

  An ORM session is modelled by the database as the session sees it: an attribute assignment
  on a row is visible to the session's later queries (SQLAlchemy flushes before a query), and
  a commit makes the state permanent. A \<open>FOR UPDATE\<close> read with \<open>populate_existing\<close> returns
  the row of this state.
\<close>

section \<open>API errors\<close>

record api_error =
  ae_status :: int
  ae_code :: string
  ae_message_key :: string
  ae_detail :: obj

definition ApiError :: "int \<Rightarrow> string \<Rightarrow> string \<Rightarrow> obj \<Rightarrow> api_error" where
  "ApiError status code message_key detail =
     \<lparr>ae_status = status, ae_code = code, ae_message_key = message_key, ae_detail = detail\<rparr>"

section \<open>Status columns\<close>

datatype task_status =
  TASK_QUEUED | TASK_RUNNING | TASK_FINALIZING | TASK_COMPLETE
| TASK_FAILED | TASK_CANCELED | TASK_LOST | TASK_NO_TARGET

datatype exec_status =
  EXEC_PENDING | EXEC_RUNNING | EXEC_FINISHED | EXEC_FAILED | EXEC_CANCELED | EXEC_LOST

datatype log_status = LOG_ACTIVE | LOG_FINALIZING | LOG_COMPLETE | LOG_MISSING | LOG_EXPIRED

datatype log_integrity =
  INTEGRITY_COMPLETE | INTEGRITY_PARTIAL | INTEGRITY_TRUNCATED | INTEGRITY_MISSING | INTEGRITY_EXPIRED

datatype truncation_reason = TRUNCATION_SIZE_CAP | TRUNCATION_DIR_BUDGET | TRUNCATION_MAINTENANCE

datatype outbox_status =
  OUTBOX_PENDING | OUTBOX_DISPATCHING | OUTBOX_SENT | OUTBOX_FAILED_RETRYABLE | OUTBOX_FAILED
| OUTBOX_CANCELED

datatype task_source =
  TASK_SOURCE_MANUAL | TASK_SOURCE_DIRECT | TASK_SOURCE_TEMPLATE | TASK_SOURCE_TRIGGER_NOW
| TASK_SOURCE_TIMER

datatype audit_outcome =
  OUTCOME_APPLIED | OUTCOME_SKIPPED_DUP | OUTCOME_SKIPPED_TERMINAL | OUTCOME_OVERRIDE_LOST
| OUTCOME_RECLAIM_REQUESTED | OUTCOME_SKIPPED_NO_ATTEMPT | OUTCOME_HEARTBEAT

datatype outcome_class = OUTCOME_OK | OUTCOME_NEUTRAL | OUTCOME_TRANSIENT | OUTCOME_BROKEN

datatype breaker_state = BREAKER_CLOSED | BREAKER_OPEN | BREAKER_HALF_OPEN | BREAKER_HELD

datatype severity = SEVERITY_INFO | SEVERITY_WARNING | SEVERITY_ERROR

fun task_status_value :: "task_status \<Rightarrow> string" where
  "task_status_value TASK_QUEUED = ''queued''"
| "task_status_value TASK_RUNNING = ''running''"
| "task_status_value TASK_FINALIZING = ''finalizing''"
| "task_status_value TASK_COMPLETE = ''complete''"
| "task_status_value TASK_FAILED = ''failed''"
| "task_status_value TASK_CANCELED = ''canceled''"
| "task_status_value TASK_LOST = ''lost''"
| "task_status_value TASK_NO_TARGET = ''no_target''"

fun exec_status_value :: "exec_status \<Rightarrow> string" where
  "exec_status_value EXEC_PENDING = ''pending''"
| "exec_status_value EXEC_RUNNING = ''running''"
| "exec_status_value EXEC_FINISHED = ''finished''"
| "exec_status_value EXEC_FAILED = ''failed''"
| "exec_status_value EXEC_CANCELED = ''canceled''"
| "exec_status_value EXEC_LOST = ''lost''"

fun task_source_value :: "task_source \<Rightarrow> string" where
  "task_source_value TASK_SOURCE_MANUAL = ''manual''"
| "task_source_value TASK_SOURCE_DIRECT = ''direct_artifact''"
| "task_source_value TASK_SOURCE_TEMPLATE = ''template''"
| "task_source_value TASK_SOURCE_TRIGGER_NOW = ''schedule_trigger_now''"
| "task_source_value TASK_SOURCE_TIMER = ''schedule_timer''"

fun outcome_class_value :: "outcome_class \<Rightarrow> string" where
  "outcome_class_value OUTCOME_OK = ''ok''"
| "outcome_class_value OUTCOME_NEUTRAL = ''neutral''"
| "outcome_class_value OUTCOME_TRANSIENT = ''transient''"
| "outcome_class_value OUTCOME_BROKEN = ''broken''"

section \<open>Rows\<close>

record task =
  t_id :: string
  t_artifact_type :: string
  t_target :: string
  t_node_strategy :: string
  t_spider :: "string option"
  t_params :: obj
  t_source :: task_source
  t_execution_template_id :: "string option"
  t_schedule_id :: "string option"
  t_template_snapshot :: json
  t_status :: task_status
  t_status_reason :: "string option"
  t_status_detail :: obj
  t_schedule_generation :: "int option"
  t_outcome_recorded_at :: "instant option"
  t_outcome_erroneous :: "bool option"
  t_created_at :: instant
  t_started_at :: "instant option"
  t_finished_at :: "instant option"
  t_updated_at :: instant

record execution =
  x_id :: string
  x_task_id :: string
  x_agent_id :: "string option"
  x_node_id :: "string option"
  x_endpoint :: "string option"
  x_remote_job_id :: "string option"
  x_status :: exec_status
  x_started_at :: "instant option"
  x_finished_at :: "instant option"
  x_exit_code :: "int option"
  x_error_code :: "string option"
  x_error_detail :: obj
  x_error_count :: "int option"
  x_finish_reason :: "string option"
  x_log_bytes :: "int option"
  x_outcome_class :: "string option"
  x_reconciled_from :: "string option"
  x_lost_reason :: "string option"
  x_last_event_at :: "instant option"
  x_stalled_at :: "instant option"
  x_last_progress_at :: "instant option"
  x_last_progress_sample_at :: "instant option"
  x_no_progress_at :: "instant option"
  x_created_at :: instant

record log_file =
  lf_task_id :: string
  lf_execution_id :: string
  lf_stream :: log_stream
  lf_storage_path :: string
  lf_size_bytes :: int
  lf_last_pulled_offset :: int
  lf_final_offset :: "int option"
  lf_status :: log_status
  lf_log_integrity :: log_integrity
  lf_truncation_reason :: "truncation_reason option"
  lf_gap_count :: int
  lf_first_gap_expected_offset :: "int option"
  lf_first_gap_actual_offset :: "int option"
  lf_started_at :: "instant option"
  lf_finished_at :: "instant option"
  lf_retained_until :: "instant option"

record command_outbox =
  o_command_id :: string
  o_agent_id :: string
  o_task_id :: string
  o_execution_id :: string
  o_type :: agent_command_type
  o_intent :: "stop_intent option"
  o_payload :: obj
  o_status :: outbox_status
  o_retry_count :: int
  o_max_retry :: int
  o_last_error :: "string option"
  o_redis_msg_id :: "string option"
  o_expire_at :: "instant option"
  o_give_up_at :: "instant option"
  o_created_at :: instant
  o_updated_at :: instant

record event_audit =
  a_redis_msg_id :: string
  a_event_id :: string
  a_execution_id :: string
  a_event_type :: agent_event_type
  a_outcome :: audit_outcome
  a_processed_at :: instant

record notification =
  n_id :: string
  n_type :: string
  n_severity :: severity
  n_payload :: obj
  n_dedupe_key :: "string option"
  n_count :: int
  n_read_at :: "instant option"
  n_created_at :: instant
  n_last_seen_at :: instant

record schedule =
  s_id :: string
  s_name :: string
  s_description :: json
  s_enabled :: bool
  s_max_concurrency :: int
  s_execution_template_id :: string
  s_trigger_type :: string
  s_interval_seconds :: "int option"
  s_cron :: "string option"
  s_overrides :: obj
  s_consecutive_error_count :: int
  s_auto_disabled_at :: "instant option"
  s_auto_disabled_reason :: "obj option"
  s_outcome_generation :: int
  s_breaker_state :: breaker_state
  s_breaker_level :: int
  s_breaker_opened_at :: "instant option"
  s_breaker_retry_at :: "instant option"
  s_breaker_escalated_at :: "instant option"
  s_breaker_reason :: "obj option"
  s_breaker_artifact_id :: "string option"
  s_created_at :: instant

record ledger_row =
  g_id :: string
  g_schedule_id :: string
  g_task_id :: string
  g_generation :: int
  g_finished_at :: instant
  g_erroneous :: bool
  g_outcome_class :: "outcome_class option"
  g_recorded_at :: instant

record node =
  nd_id :: string
  nd_agent_id :: "string option"
  nd_endpoint :: string
  nd_status :: string
  nd_capabilities :: obj
  nd_health :: obj
  nd_last_seen_at :: "instant option"
  nd_scheduling_enabled :: bool
  nd_scheduling_disabled_at :: "instant option"
  nd_deleted_at :: "instant option"

record execution_template =
  et_id :: string
  et_name :: string
  et_description :: json
  et_build_artifact_id :: "string option"
  et_project :: json
  et_version :: json
  et_command :: "string option"
  et_node_strategy :: string
  et_node_ids :: "string list"
  et_created_at :: instant

record build_artifact =
  ba_id :: string
  ba_artifact_type :: string
  ba_package_format :: string
  ba_name :: string
  ba_filename :: "string option"
  ba_content_hash :: "string option"
  ba_size_bytes :: int
  ba_artifact_metadata :: obj
  ba_archived_at :: "instant option"
  ba_created_at :: instant

section \<open>The database\<close>

record db =
  db_tasks :: "task list"
  db_executions :: "execution list"
  db_log_files :: "log_file list"
  db_outbox :: "command_outbox list"
  db_audit :: "event_audit list"
  db_notifications :: "notification list"
  db_schedules :: "schedule list"
  db_ledger :: "ledger_row list"
  db_nodes :: "node list"
  db_templates :: "execution_template list"
  db_artifacts :: "build_artifact list"
  db_next_id :: nat \<comment> \<open>how many identifiers \<open>_new_id\<close> has returned\<close>

definition empty_db :: db where
  "empty_db = \<lparr>db_tasks = [], db_executions = [], db_log_files = [], db_outbox = [], db_audit = [],
     db_notifications = [], db_schedules = [], db_ledger = [], db_nodes = [], db_templates = [],
     db_artifacts = [], db_next_id = 0\<rparr>"

definition new_id :: "db \<Rightarrow> string \<times> db" where
  "new_id d = (fresh_id (db_next_id d), d\<lparr>db_next_id := Suc (db_next_id d)\<rparr>)"

definition find_task :: "db \<Rightarrow> string \<Rightarrow> task option" where
  "find_task d k = find_row t_id (db_tasks d) k"

definition save_task :: "db \<Rightarrow> task \<Rightarrow> db" where
  "save_task d t = d\<lparr>db_tasks := set_row t_id (db_tasks d) t\<rparr>"

definition find_execution :: "db \<Rightarrow> string \<Rightarrow> execution option" where
  "find_execution d k = find_row x_id (db_executions d) k"

definition save_execution :: "db \<Rightarrow> execution \<Rightarrow> db" where
  "save_execution d x = d\<lparr>db_executions := set_row x_id (db_executions d) x\<rparr>"

definition log_key :: "log_file \<Rightarrow> string \<times> string \<times> log_stream" where
  "log_key lf = (lf_task_id lf, lf_execution_id lf, lf_stream lf)"

definition find_log :: "db \<Rightarrow> string \<times> string \<times> log_stream \<Rightarrow> log_file option" where
  "find_log d k = find_row log_key (db_log_files d) k"

definition save_log :: "db \<Rightarrow> log_file \<Rightarrow> db" where
  "save_log d lf = d\<lparr>db_log_files := set_row log_key (db_log_files d) lf\<rparr>"

definition find_command :: "db \<Rightarrow> string \<Rightarrow> command_outbox option" where
  "find_command d k = find_row o_command_id (db_outbox d) k"

definition save_command :: "db \<Rightarrow> command_outbox \<Rightarrow> db" where
  "save_command d r = d\<lparr>db_outbox := set_row o_command_id (db_outbox d) r\<rparr>"

definition find_schedule :: "db \<Rightarrow> string \<Rightarrow> schedule option" where
  "find_schedule d k = find_row s_id (db_schedules d) k"

definition save_schedule :: "db \<Rightarrow> schedule \<Rightarrow> db" where
  "save_schedule d s = d\<lparr>db_schedules := set_row s_id (db_schedules d) s\<rparr>"

definition find_node :: "db \<Rightarrow> string \<Rightarrow> node option" where
  "find_node d k = find_row nd_id (db_nodes d) k"

definition save_node :: "db \<Rightarrow> node \<Rightarrow> db" where
  "save_node d n = d\<lparr>db_nodes := set_row nd_id (db_nodes d) n\<rparr>"

definition find_template :: "db \<Rightarrow> string \<Rightarrow> execution_template option" where
  "find_template d k = find_row et_id (db_templates d) k"

definition save_template :: "db \<Rightarrow> execution_template \<Rightarrow> db" where
  "save_template d t = d\<lparr>db_templates := set_row et_id (db_templates d) t\<rparr>"

definition find_artifact :: "db \<Rightarrow> string \<Rightarrow> build_artifact option" where
  "find_artifact d k = find_row ba_id (db_artifacts d) k"

definition save_artifact :: "db \<Rightarrow> build_artifact \<Rightarrow> db" where
  "save_artifact d a = d\<lparr>db_artifacts := set_row ba_id (db_artifacts d) a\<rparr>"

section \<open>The tables as row stores\<close>

interpretation tasks: row_updater find_task t_id save_task
  by unfold_locales
    (auto simp: find_task_def save_task_def find_row_set_row dest: find_row_key)

interpretation executions: row_updater find_execution x_id save_execution
  by unfold_locales
    (auto simp: find_execution_def save_execution_def find_row_set_row dest: find_row_key)

interpretation logs: row_updater find_log log_key save_log
  by unfold_locales (auto simp: find_log_def save_log_def find_row_set_row dest: find_row_key)

interpretation commands: row_updater find_command o_command_id save_command
  by unfold_locales
    (auto simp: find_command_def save_command_def find_row_set_row dest: find_row_key)

interpretation schedules: row_updater find_schedule s_id save_schedule
  by unfold_locales
    (auto simp: find_schedule_def save_schedule_def find_row_set_row dest: find_row_key)

interpretation nodes: row_updater find_node nd_id save_node
  by unfold_locales
    (auto simp: find_node_def save_node_def find_row_set_row dest: find_row_key)

interpretation templates: row_updater find_template et_id save_template
  by unfold_locales
    (auto simp: find_template_def save_template_def find_row_set_row dest: find_row_key)

interpretation artifacts: row_updater find_artifact ba_id save_artifact
  by unfold_locales
    (auto simp: find_artifact_def save_artifact_def find_row_set_row dest: find_row_key)

lemmas table_updates [row_simps] =
  templates.lookup_update artifacts.lookup_update
  nodes.lookup_update
  tasks.lookup_update executions.lookup_update logs.lookup_update commands.lookup_update
  schedules.lookup_update

lemma save_task_frame [frame_simps, simp]:
  "db_executions (save_task d t) = db_executions d" "db_log_files (save_task d t) = db_log_files d"
  "db_outbox (save_task d t) = db_outbox d" "db_audit (save_task d t) = db_audit d"
  "db_notifications (save_task d t) = db_notifications d" "db_nodes (save_task d t) = db_nodes d"
  "db_schedules (save_task d t) = db_schedules d" "db_ledger (save_task d t) = db_ledger d"
  "db_next_id (save_task d t) = db_next_id d" "db_templates (save_task d t) = db_templates d"
  "db_artifacts (save_task d t) = db_artifacts d"
  by (simp_all add: save_task_def)

lemma save_execution_frame [frame_simps, simp]:
  "db_tasks (save_execution d x) = db_tasks d" "db_log_files (save_execution d x) = db_log_files d"
  "db_outbox (save_execution d x) = db_outbox d" "db_audit (save_execution d x) = db_audit d"
  "db_notifications (save_execution d x) = db_notifications d"
  "db_nodes (save_execution d x) = db_nodes d"
  "db_schedules (save_execution d x) = db_schedules d" "db_ledger (save_execution d x) = db_ledger d"
  "db_next_id (save_execution d x) = db_next_id d" "db_templates (save_execution d x) = db_templates d"
  "db_artifacts (save_execution d x) = db_artifacts d"
  by (simp_all add: save_execution_def)

lemma save_log_frame [frame_simps, simp]:
  "db_tasks (save_log d l) = db_tasks d" "db_executions (save_log d l) = db_executions d"
  "db_outbox (save_log d l) = db_outbox d" "db_audit (save_log d l) = db_audit d"
  "db_notifications (save_log d l) = db_notifications d" "db_nodes (save_log d l) = db_nodes d"
  "db_schedules (save_log d l) = db_schedules d" "db_ledger (save_log d l) = db_ledger d"
  "db_next_id (save_log d l) = db_next_id d" "db_templates (save_log d l) = db_templates d"
  "db_artifacts (save_log d l) = db_artifacts d"
  by (simp_all add: save_log_def)

lemma save_command_frame [frame_simps, simp]:
  "db_tasks (save_command d r) = db_tasks d" "db_executions (save_command d r) = db_executions d"
  "db_log_files (save_command d r) = db_log_files d" "db_audit (save_command d r) = db_audit d"
  "db_notifications (save_command d r) = db_notifications d" "db_nodes (save_command d r) = db_nodes d"
  "db_schedules (save_command d r) = db_schedules d" "db_ledger (save_command d r) = db_ledger d"
  "db_next_id (save_command d r) = db_next_id d" "db_templates (save_command d r) = db_templates d"
  "db_artifacts (save_command d r) = db_artifacts d"
  by (simp_all add: save_command_def)

lemma save_schedule_frame [frame_simps, simp]:
  "db_tasks (save_schedule d s) = db_tasks d" "db_executions (save_schedule d s) = db_executions d"
  "db_log_files (save_schedule d s) = db_log_files d" "db_audit (save_schedule d s) = db_audit d"
  "db_notifications (save_schedule d s) = db_notifications d"
  "db_nodes (save_schedule d s) = db_nodes d"
  "db_outbox (save_schedule d s) = db_outbox d" "db_ledger (save_schedule d s) = db_ledger d"
  "db_next_id (save_schedule d s) = db_next_id d" "db_templates (save_schedule d s) = db_templates d"
  "db_artifacts (save_schedule d s) = db_artifacts d"
  by (simp_all add: save_schedule_def)

lemma find_frame [frame_simps, simp]:
  "find_execution (save_task d t) k = find_execution d k"
  "find_task (save_execution d x) k = find_task d k"
  "find_task (save_log d l) k = find_task d k"
  "find_execution (save_log d l) k = find_execution d k"
  "find_log (save_task d t) lk = find_log d lk"
  "find_log (save_execution d x) lk = find_log d lk"
  by (simp_all add: find_task_def find_execution_def find_log_def)

text \<open>Primary keys and the key of \<open>event_audit\<close> are unique.\<close>

definition keys_unique :: "db \<Rightarrow> bool" where
  "keys_unique d \<longleftrightarrow> distinct (map t_id (db_tasks d)) \<and> distinct (map x_id (db_executions d))
     \<and> distinct (map log_key (db_log_files d)) \<and> distinct (map s_id (db_schedules d))"

lemma keys_unique_save [simp]:
  "keys_unique (save_task d t) = keys_unique d" "keys_unique (save_execution d x) = keys_unique d"
  "keys_unique (save_log d l) = keys_unique d" "keys_unique (save_schedule d s) = keys_unique d"
  "keys_unique (save_command d r) = keys_unique d"
  by (simp_all add: keys_unique_def save_task_def save_execution_def save_log_def
      save_schedule_def save_command_def)

end
