(* ===== verification/States.thy ===== *)
theory States
  imports ServerModels
begin

text \<open>
  The task / execution state machines and the outcome judgement
  (\<^verbatim>\<open>apps/server/dopilot_server/services/states.py\<close>): the allowed transitions, the roll-up
  of execution terminals into the task terminal, and the classification of an erroneous run
  that drives the schedule circuit breaker. The lemmas show that hard terminals are final, that
  the roll-up implements its documented precedence, and how the outcome class relates to the
  erroneous flag.
\<close>

section \<open>Status sets and transitions\<close>

definition TASK_ACTIVE :: "task_status set" where
  "TASK_ACTIVE = {TASK_QUEUED, TASK_RUNNING, TASK_FINALIZING}"

definition TASK_TERMINAL :: "task_status set" where
  "TASK_TERMINAL = {TASK_COMPLETE, TASK_FAILED, TASK_CANCELED, TASK_LOST, TASK_NO_TARGET}"

definition EXEC_ACTIVE :: "exec_status set" where
  "EXEC_ACTIVE = {EXEC_PENDING, EXEC_RUNNING}"

definition EXEC_TERMINAL :: "exec_status set" where
  "EXEC_TERMINAL = {EXEC_FINISHED, EXEC_FAILED, EXEC_CANCELED, EXEC_LOST}"

fun task_edges :: "task_status \<Rightarrow> task_status set" where
  "task_edges TASK_QUEUED = {TASK_QUEUED, TASK_RUNNING, TASK_FAILED, TASK_CANCELED, TASK_LOST}"
| "task_edges TASK_RUNNING =
     {TASK_RUNNING, TASK_FINALIZING, TASK_COMPLETE, TASK_FAILED, TASK_CANCELED, TASK_LOST}"
| "task_edges TASK_FINALIZING =
     {TASK_FINALIZING, TASK_COMPLETE, TASK_FAILED, TASK_CANCELED, TASK_LOST}"
| "task_edges TASK_LOST = {TASK_LOST, TASK_COMPLETE, TASK_FAILED, TASK_CANCELED}"
| "task_edges _ = {}"

fun exec_edges :: "exec_status \<Rightarrow> exec_status set" where
  "exec_edges EXEC_PENDING =
     {EXEC_PENDING, EXEC_RUNNING, EXEC_FINISHED, EXEC_FAILED, EXEC_CANCELED, EXEC_LOST}"
| "exec_edges EXEC_RUNNING =
     {EXEC_RUNNING, EXEC_FINISHED, EXEC_FAILED, EXEC_CANCELED, EXEC_LOST}"
| "exec_edges EXEC_LOST = {EXEC_LOST, EXEC_FINISHED, EXEC_FAILED, EXEC_CANCELED}"
| "exec_edges _ = {}"

definition is_valid_task_transition :: "task_status \<Rightarrow> task_status \<Rightarrow> bool" where
  "is_valid_task_transition old new =
     (if old \<in> TASK_TERMINAL \<and> old \<noteq> TASK_LOST then old = new else new \<in> task_edges old)"

definition is_valid_execution_transition :: "exec_status \<Rightarrow> exec_status \<Rightarrow> bool" where
  "is_valid_execution_transition old new =
     (if old \<in> EXEC_TERMINAL \<and> old \<noteq> EXEC_LOST then old = new else new \<in> exec_edges old)"

definition rollup_task_status :: "exec_status list \<Rightarrow> task_status option" where
  "rollup_task_status ss =
     (if ss = [] \<or> \<not> list_all (\<lambda>s. s \<in> EXEC_TERMINAL) ss then None
      else if list_ex (\<lambda>s. s = EXEC_FAILED) ss then Some TASK_FAILED
      else if list_ex (\<lambda>s. s = EXEC_LOST) ss then Some TASK_LOST
      else if list_ex (\<lambda>s. s = EXEC_CANCELED) ss then Some TASK_CANCELED
      else Some TASK_COMPLETE)"

section \<open>Outcome judgement\<close>

definition LOG_FLOOD_ERROR_CODE :: string where
  "LOG_FLOOD_ERROR_CODE = ''log_flood''"

definition ERRONEOUS_TRUNCATION_REASONS :: "truncation_reason set" where
  "ERRONEOUS_TRUNCATION_REASONS = {TRUNCATION_SIZE_CAP, TRUNCATION_DIR_BUDGET}"

definition log_cut :: "log_file option \<Rightarrow> bool" where
  \<comment> \<open>the log file was truncated for one of the erroneous reasons\<close>
  "log_cut lf = (case lf of None \<Rightarrow> False | Some f \<Rightarrow>
     lf_log_integrity f = INTEGRITY_TRUNCATED
     \<and> (case lf_truncation_reason f of None \<Rightarrow> False
        | Some r \<Rightarrow> r \<in> ERRONEOUS_TRUNCATION_REASONS))"

definition log_bytes_at_cap :: "execution \<Rightarrow> int \<Rightarrow> bool" where
  "log_bytes_at_cap x max_file_bytes =
     (max_file_bytes > 0 \<and> (case x_log_bytes x of None \<Rightarrow> False | Some n \<Rightarrow> n \<ge> max_file_bytes))"

definition execution_is_erroneous :: "execution \<Rightarrow> log_file option \<Rightarrow> int \<Rightarrow> bool" where
  "execution_is_erroneous x lf max_file_bytes =
     (if x_status x \<in> {EXEC_FAILED, EXEC_LOST} then True
      else if x_error_code x = Some LOG_FLOOD_ERROR_CODE then True
      else if x_status x = EXEC_FINISHED
        \<and> (case x_error_count x of None \<Rightarrow> False | Some n \<Rightarrow> n > 0) then True
      else if x_status x = EXEC_FINISHED
        \<and> (case x_finish_reason x of None \<Rightarrow> False | Some r \<Rightarrow> r \<noteq> ''finished'') then True
      else if log_cut lf then True
      else log_bytes_at_cap x max_file_bytes)"

definition task_is_erroneous ::
    "task \<Rightarrow> execution list \<Rightarrow> (string \<rightharpoonup> log_file) \<Rightarrow> int \<Rightarrow> bool" where
  "task_is_erroneous t xs files max_file_bytes =
     (if t_status t \<in> {TASK_FAILED, TASK_LOST} then True
      else list_ex (\<lambda>x. execution_is_erroneous x (files (x_id x)) max_file_bytes) xs)"

definition TRANSIENT_ERROR_CODES :: "string set" where
  "TRANSIENT_ERROR_CODES = {''dispatch_unavailable'', ''dispatch_timeout''}"

definition server_judged_broken :: "execution \<Rightarrow> log_file option \<Rightarrow> int \<Rightarrow> bool" where
  "server_judged_broken x lf max_file_bytes =
     (if x_error_code x = Some LOG_FLOOD_ERROR_CODE then True
      else if log_cut lf then True
      else log_bytes_at_cap x max_file_bytes)"

definition execution_outcome_class ::
    "execution \<Rightarrow> log_file option \<Rightarrow> int \<Rightarrow> outcome_class option" where
  "execution_outcome_class x lf max_file_bytes =
     (if \<not> execution_is_erroneous x lf max_file_bytes then None
      else if server_judged_broken x lf max_file_bytes then Some OUTCOME_BROKEN
      else if x_status x = EXEC_LOST then Some OUTCOME_TRANSIENT
      else if (case x_error_code x of None \<Rightarrow> False | Some c \<Rightarrow> c \<in> TRANSIENT_ERROR_CODES)
        then Some OUTCOME_TRANSIENT
      else if x_outcome_class x = Some ''transient'' then Some OUTCOME_TRANSIENT
      else Some OUTCOME_BROKEN)"

definition execution_classes ::
    "execution list \<Rightarrow> (string \<rightharpoonup> log_file) \<Rightarrow> int \<Rightarrow> outcome_class list" where
  "execution_classes xs files max_file_bytes =
     List.map_filter (\<lambda>x. execution_outcome_class x (files (x_id x)) max_file_bytes) xs"

definition task_outcome_class ::
    "task \<Rightarrow> execution list \<Rightarrow> (string \<rightharpoonup> log_file) \<Rightarrow> int \<Rightarrow> outcome_class" where
  "task_outcome_class t xs files max_file_bytes =
     (if \<not> task_is_erroneous t xs files max_file_bytes then
        (if t_status t = TASK_COMPLETE then OUTCOME_OK else OUTCOME_NEUTRAL)
      else (let classes = execution_classes xs files max_file_bytes in
        if OUTCOME_BROKEN \<in> set classes then OUTCOME_BROKEN
        else if classes \<noteq> [] then OUTCOME_TRANSIENT
        else if t_status t = TASK_LOST then OUTCOME_TRANSIENT
        else OUTCOME_BROKEN))"

section \<open>Facts about the state machines\<close>

lemmas status_set_defs [status_simps] =
  TASK_ACTIVE_def TASK_TERMINAL_def EXEC_ACTIVE_def EXEC_TERMINAL_def

definition exec_hard :: "exec_status \<Rightarrow> bool" where
  \<comment> \<open>the agent-authoritative terminals: every terminal but the soft \<open>lost\<close>\<close>
  "exec_hard s = (s \<in> {EXEC_FINISHED, EXEC_FAILED, EXEC_CANCELED})"

definition task_hard :: "task_status \<Rightarrow> bool" where
  "task_hard s = (s \<in> {TASK_COMPLETE, TASK_FAILED, TASK_CANCELED, TASK_NO_TARGET})"

interpretation exec_sm: status_machine is_valid_execution_transition exec_hard
  by unfold_locales
    (auto simp: is_valid_execution_transition_def exec_hard_def EXEC_TERMINAL_def
      split: if_splits elim: exec_edges.elims, case_tac a, auto)

interpretation task_sm: status_machine is_valid_task_transition task_hard
  by unfold_locales
    (auto simp: is_valid_task_transition_def task_hard_def TASK_TERMINAL_def
      split: if_splits elim: task_edges.elims, case_tac a, auto)

lemma exec_active_or_terminal: "s \<in> EXEC_ACTIVE \<longleftrightarrow> s \<notin> EXEC_TERMINAL"
  by (cases s) (simp_all add: status_simps)

lemma task_active_or_terminal: "s \<in> TASK_ACTIVE \<longleftrightarrow> s \<notin> TASK_TERMINAL"
  by (cases s) (simp_all add: status_simps)

lemma exec_terminal_cases: "s \<in> EXEC_TERMINAL \<longleftrightarrow> exec_hard s \<or> s = EXEC_LOST"
  by (cases s) (simp_all add: EXEC_TERMINAL_def exec_hard_def)

lemma exec_not_hard_moves: "\<not> exec_hard a \<Longrightarrow> exec_hard b \<Longrightarrow> is_valid_execution_transition a b"
  by (cases a; cases b) (simp_all add: is_valid_execution_transition_def exec_hard_def EXEC_TERMINAL_def)

lemma active_to_terminal_valid:
  "a \<in> EXEC_ACTIVE \<Longrightarrow> b \<in> EXEC_TERMINAL \<Longrightarrow> is_valid_execution_transition a b"
  by (cases a; cases b) (simp_all add: is_valid_execution_transition_def status_simps)

lemma rollup_is_terminal: "rollup_task_status ss = Some s \<Longrightarrow> s \<in> TASK_TERMINAL"
  by (auto simp: rollup_task_status_def TASK_TERMINAL_def split: if_splits)

lemma rollup_None_iff:
  "rollup_task_status ss = None \<longleftrightarrow> ss = [] \<or> (\<exists>s \<in> set ss. s \<in> EXEC_ACTIVE)"
  by (auto simp: rollup_task_status_def list_all_iff exec_active_or_terminal)

lemma rollup_not_no_target: "rollup_task_status ss \<noteq> Some TASK_NO_TARGET"
  by (auto simp: rollup_task_status_def)

text \<open>From every active status but \<open>queued\<close>, and from \<open>lost\<close>, any roll-up is an edge.\<close>

lemma rollup_valid_from:
  assumes "rollup_task_status ss = Some s" and "a \<in> {TASK_RUNNING, TASK_FINALIZING, TASK_LOST}"
  shows "is_valid_task_transition a s"
  using assms
  by (auto simp: rollup_task_status_def is_valid_task_transition_def TASK_TERMINAL_def
      split: if_splits)

lemma execution_outcome_class_None:
  "execution_outcome_class x lf m = None \<longleftrightarrow> \<not> execution_is_erroneous x lf m"
  by (simp add: execution_outcome_class_def)

lemma execution_outcome_class_range:
  "execution_outcome_class x lf m \<in> {None, Some OUTCOME_TRANSIENT, Some OUTCOME_BROKEN}"
  by (simp add: execution_outcome_class_def)

lemma execution_classes_range: "set (execution_classes xs f m) \<subseteq> {OUTCOME_TRANSIENT, OUTCOME_BROKEN}"
  by (auto simp: execution_classes_def map_filter_def execution_outcome_class_def split: if_splits)

lemma execution_classes_Nil:
  "execution_classes xs f m = [] \<longleftrightarrow> (\<forall>x \<in> set xs. \<not> execution_is_erroneous x (f (x_id x)) m)"
  by (induction xs)
    (auto simp: execution_classes_def map_filter_def execution_outcome_class_def)

section \<open>Properties\<close>

text \<open>The task roll-up: \<open>None\<close> exactly while some execution is active or there is none, and
  otherwise the documented precedence failed, lost, canceled, complete.
\<close>

theorem rollup_precedence:
  "(rollup_task_status ss = None \<longleftrightarrow> ss = [] \<or> set ss \<inter> EXEC_ACTIVE \<noteq> {})
   \<and> (ss \<noteq> [] \<and> set ss \<inter> EXEC_ACTIVE = {} \<longrightarrow>
      rollup_task_status ss = Some (
        if EXEC_FAILED \<in> set ss then TASK_FAILED
        else if EXEC_LOST \<in> set ss then TASK_LOST
        else if EXEC_CANCELED \<in> set ss then TASK_CANCELED
        else TASK_COMPLETE))"
  by (auto simp: rollup_task_status_def list_all_iff list_ex_iff exec_active_or_terminal
      disjoint_iff)

theorem rollup_precedence_witness:
  "rollup_task_status [EXEC_CANCELED, EXEC_LOST, EXEC_FINISHED] = Some TASK_LOST"
  using rollup_precedence [of "[EXEC_CANCELED, EXEC_LOST, EXEC_FINISHED]"]
  by (simp add: EXEC_ACTIVE_def)

text \<open>The breaker's classification is total and sound: a task that is not erroneous is \<open>ok\<close>
  iff it is complete and otherwise \<open>neutral\<close>; an erroneous one is \<open>transient\<close> or \<open>broken\<close>, and it
  is \<open>broken\<close> whenever the server's own signals (flood code, log cut at a cap, log size at the
  cap) condemn any of its executions, whatever class the crawler reported.
\<close>

theorem task_outcome_class_sound:
  "(\<not> task_is_erroneous t xs f m \<longrightarrow>
      task_outcome_class t xs f m = (if t_status t = TASK_COMPLETE then OUTCOME_OK else OUTCOME_NEUTRAL))
   \<and> (task_is_erroneous t xs f m \<longrightarrow>
      task_outcome_class t xs f m \<in> {OUTCOME_TRANSIENT, OUTCOME_BROKEN})
   \<and> ((\<exists>x \<in> set xs. server_judged_broken x (f (x_id x)) m) \<longrightarrow>
      task_outcome_class t xs f m = OUTCOME_BROKEN)"
proof (intro conjI impI)
  assume "\<exists>x \<in> set xs. server_judged_broken x (f (x_id x)) m"
  then obtain x where x: "x \<in> set xs" "server_judged_broken x (f (x_id x)) m" by blast
  then have "execution_is_erroneous x (f (x_id x)) m"
    by (auto simp: server_judged_broken_def execution_is_erroneous_def split: if_splits)
  with x have "OUTCOME_BROKEN \<in> set (execution_classes xs f m)" and "task_is_erroneous t xs f m"
    by (force simp: execution_classes_def map_filter_def execution_outcome_class_def,
        auto simp: task_is_erroneous_def list_ex_iff)
  then show "task_outcome_class t xs f m = OUTCOME_BROKEN"
    by (simp add: task_outcome_class_def)
qed (simp_all add: task_outcome_class_def Let_def)

definition sample_task :: task where
  "sample_task = \<lparr>t_id = ''t1'', t_artifact_type = ''scrapy'', t_target = [], t_node_strategy = ''all'',
     t_spider = None, t_params = [], t_source = TASK_SOURCE_TIMER, t_execution_template_id = None,
     t_schedule_id = Some ''s1'', t_template_snapshot = JNull, t_status = TASK_QUEUED,
     t_status_reason = None, t_status_detail = [], t_schedule_generation = Some 0,
     t_outcome_recorded_at = None, t_outcome_erroneous = None, t_created_at = 0,
     t_started_at = None, t_finished_at = None, t_updated_at = 0\<rparr>"

definition sample_execution :: execution where
  "sample_execution = \<lparr>x_id = ''x1'', x_task_id = ''t1'', x_agent_id = Some ''a1'', x_node_id = None, x_endpoint = None,
     x_remote_job_id = None, x_status = EXEC_PENDING, x_started_at = None, x_finished_at = None,
     x_exit_code = None, x_error_code = None, x_error_detail = [], x_error_count = None,
     x_finish_reason = None, x_log_bytes = None, x_outcome_class = None, x_reconciled_from = None,
     x_lost_reason = None, x_last_event_at = None, x_stalled_at = None, x_last_progress_at = None,
     x_last_progress_sample_at = None, x_no_progress_at = None, x_created_at = 0\<rparr>"

lemma sample_simps [simp]:
  "t_id sample_task = ''t1''" "t_status sample_task = TASK_QUEUED" "t_started_at sample_task = None"
  "t_schedule_id sample_task = Some ''s1''" "t_schedule_generation sample_task = Some 0"
  "t_outcome_recorded_at sample_task = None" "t_finished_at sample_task = None"
  "t_source sample_task = TASK_SOURCE_TIMER"
  "x_id sample_execution = ''x1''" "x_task_id sample_execution = ''t1''"
  "x_status sample_execution = EXEC_PENDING" "x_agent_id sample_execution = Some ''a1''"
  "x_started_at sample_execution = None" "x_created_at sample_execution = 0"
  "x_last_event_at sample_execution = None" "x_lost_reason sample_execution = None"
  "x_finished_at sample_execution = None" "x_error_code sample_execution = None"
  "x_no_progress_at sample_execution = None" "x_log_bytes sample_execution = None"
  by (simp_all add: sample_task_def sample_execution_def)

theorem task_outcome_class_sound_witness:
  "let x = sample_execution\<lparr>x_status := EXEC_FINISHED, x_log_bytes := Some 70,
       x_outcome_class := Some ''transient''\<rparr>;
       t = sample_task\<lparr>t_status := TASK_COMPLETE\<rparr>
   in task_outcome_class t [x] (\<lambda>_. None) 64 = OUTCOME_BROKEN"
  unfolding Let_def
  by (rule task_outcome_class_sound [THEN conjunct2, THEN conjunct2, THEN mp])
    (simp add: server_judged_broken_def log_bytes_at_cap_def log_cut_def)

end
