(* ===== verification/Outbox.thy ===== *)
theory Outbox
  imports States
begin

text \<open>
  The command outbox (\<^verbatim>\<open>apps/server/dopilot_server/services/outbox.py\<close>,
  \<^verbatim>\<open>models/command_outbox.py\<close>).

  Every operation takes the clock reading \<open>now\<close> of \<open>datetime.now(UTC)\<close>. The columns
  \<open>created_at\<close> / \<open>updated_at\<close> are stamped with it where the database's \<open>func.now()\<close> would.
\<close>

section \<open>Outbox rows\<close>

definition OUTBOX_UNRESOLVED :: "outbox_status set" where
  "OUTBOX_UNRESOLVED = {OUTBOX_PENDING, OUTBOX_DISPATCHING, OUTBOX_FAILED_RETRYABLE}"

definition OUTBOX_DISPATCHABLE :: "outbox_status set" where
  "OUTBOX_DISPATCHABLE = {OUTBOX_PENDING, OUTBOX_FAILED_RETRYABLE}"

definition MANUAL_GIVE_UP_SECONDS :: int where
  "MANUAL_GIVE_UP_SECONDS = 120"

definition SCHEDULED_GIVE_UP_SECONDS :: int where
  "SCHEDULED_GIVE_UP_SECONDS = 900"

definition windows :: "instant \<Rightarrow> bool \<Rightarrow> instant \<times> instant" where
  "windows now manual =
     (let seconds = if manual then MANUAL_GIVE_UP_SECONDS else SCHEDULED_GIVE_UP_SECONDS;
          deadline = now + secs seconds
      in (deadline, deadline))"

definition add_command :: "db \<Rightarrow> command_outbox \<Rightarrow> db" where
  \<comment> \<open>\<open>session.add(row)\<close>\<close>
  "add_command d r = d\<lparr>db_outbox := db_outbox d @ [r]\<rparr>"

definition new_command ::
    "db \<Rightarrow> instant \<Rightarrow> bool \<Rightarrow> string \<Rightarrow> string \<Rightarrow> string \<Rightarrow> agent_command_type \<Rightarrow> stop_intent option
      \<Rightarrow> obj \<Rightarrow> db \<times> command_outbox" where
  \<comment> \<open>the construction the four \<open>create_*_outbox\<close> functions share, column defaults included\<close>
  "new_command d now manual task_id execution_id agent_id typ intent payload =
     (let (expire_at, give_up_at) = windows now manual;
          (command_id, d) = new_id d;
          row = \<lparr>o_command_id = command_id, o_agent_id = agent_id, o_task_id = task_id,
                 o_execution_id = execution_id, o_type = typ, o_intent = intent,
                 o_payload = payload, o_status = OUTBOX_PENDING, o_retry_count = 0,
                 o_max_retry = 10, o_last_error = None, o_redis_msg_id = None,
                 o_expire_at = Some expire_at, o_give_up_at = Some give_up_at,
                 o_created_at = now, o_updated_at = now\<rparr>
      in (add_command d row, row))"

definition create_run_outbox ::
    "db \<Rightarrow> instant \<Rightarrow> string \<Rightarrow> string \<Rightarrow> string \<Rightarrow> obj \<Rightarrow> bool \<Rightarrow> db \<times> command_outbox" where
  "create_run_outbox d now task_id execution_id agent_id payload manual =
     new_command d now manual task_id execution_id agent_id Cmd_run None payload"

definition create_stop_outbox ::
    "db \<Rightarrow> instant \<Rightarrow> string \<Rightarrow> string \<Rightarrow> string \<Rightarrow> stop_intent \<Rightarrow> db \<times> command_outbox" where
  "create_stop_outbox d now task_id execution_id agent_id intent =
     new_command d now False task_id execution_id agent_id Cmd_stop (Some intent) []"

definition create_cleanup_outbox ::
    "db \<Rightarrow> instant \<Rightarrow> string \<Rightarrow> string \<Rightarrow> string \<Rightarrow> db \<times> command_outbox" where
  "create_cleanup_outbox d now task_id execution_id agent_id =
     new_command d now False task_id execution_id agent_id Cmd_cleanup_logs None []"

definition create_stop_logs_outbox ::
    "db \<Rightarrow> instant \<Rightarrow> string \<Rightarrow> string \<Rightarrow> string \<Rightarrow> db \<times> command_outbox option" where
  "create_stop_logs_outbox d now task_id execution_id agent_id =
     (if list_ex (\<lambda>r. o_execution_id r = execution_id \<and> o_type r = Cmd_stop_logs
          \<and> o_status r \<in> OUTBOX_UNRESOLVED \<union> {OUTBOX_SENT}) (db_outbox d)
      then (d, None)
      else (let (d, row) = new_command d now False task_id execution_id agent_id Cmd_stop_logs None []
        in (d, Some row)))"

definition reclaim_ever_issued :: "db \<Rightarrow> string \<Rightarrow> bool" where
  "reclaim_ever_issued d execution_id =
     list_ex (\<lambda>r. o_execution_id r = execution_id \<and> o_type r = Cmd_stop
       \<and> o_intent r = Some Intent_reclaim) (db_outbox d)"

definition cancel_unsent_outbox :: "db \<Rightarrow> instant \<Rightarrow> string \<Rightarrow> db \<times> nat" where
  "cancel_unsent_outbox d now task_id =
     (let hit = (\<lambda>r. o_task_id r = task_id \<and> o_status r \<in> OUTBOX_UNRESOLVED)
      in (d\<lparr>db_outbox := map (\<lambda>r. if hit r
               then r\<lparr>o_status := OUTBOX_CANCELED, o_updated_at := now\<rparr> else r) (db_outbox d)\<rparr>,
          length (filter hit (db_outbox d))))"

definition has_undispatched_backlog_for_schedule :: "db \<Rightarrow> string \<Rightarrow> bool" where
  "has_undispatched_backlog_for_schedule d schedule_id =
     list_ex (\<lambda>t. t_schedule_id t = Some schedule_id \<and> t_status t = TASK_QUEUED
       \<and> list_ex (\<lambda>r. o_task_id r = t_id t \<and> o_status r \<in> OUTBOX_UNRESOLVED) (db_outbox d))
       (db_tasks d)"

end
