(* ===== verification/Nodes.thy ===== *)
theory Nodes
  imports Outbox
begin

text \<open>
  Worker nodes (\<^verbatim>\<open>apps/server/dopilot_server/nodes/service.py\<close>, \<^verbatim>\<open>nodes/strategy.py\<close>): the
  heartbeat upsert, the scheduling flags, and target selection. A node's \<open>last_seen_at\<close> is
  written by agent heartbeats only. \<open>random.choice\<close> and \<open>uuid.UUID\<close> are arguments of the
  definitions that call them. The lemmas show that a heartbeat never resurrects or re-enables a
  node and that only live, schedulable, capable nodes are ever selected.
\<close>

section \<open>Strategies\<close>

datatype node_strategy = Strategy_all | Strategy_random | Strategy_specified

definition to_strategy :: "string \<Rightarrow> api_error + node_strategy" where
  "to_strategy strategy =
     (if strategy = ''selected'' \<or> strategy = ''specified'' then Inr Strategy_specified
      else if strategy = ''random'' then Inr Strategy_random
      else if strategy = ''all'' then Inr Strategy_all
      else Inl (ApiError 400 ''execution.invalid_node_strategy'' ''errors.invalidNodeStrategy''
        [(''node_strategy'', JStr strategy)]))"

definition node_matches :: "string set \<Rightarrow> node \<Rightarrow> bool" where
  "node_matches wanted n =
     ((case nd_agent_id n of None \<Rightarrow> False | Some a \<Rightarrow> a \<in> wanted) \<or> nd_id n \<in> wanted)"

definition reduce_nodes ::
    "(node list \<Rightarrow> node) \<Rightarrow> node_strategy \<Rightarrow> node list \<Rightarrow> string list \<Rightarrow> node list" where
  "reduce_nodes choice strategy items node_ids =
     (case strategy of
        Strategy_all \<Rightarrow> items
      | Strategy_random \<Rightarrow> (if items \<noteq> [] then [choice items] else [])
      | Strategy_specified \<Rightarrow> filter (node_matches (set node_ids)) items)"

section \<open>Health\<close>

definition DEFAULT_HEARTBEAT_TIMEOUT_SECONDS :: int where
  "DEFAULT_HEARTBEAT_TIMEOUT_SECONDS = 30"

definition heartbeat_fresh :: "node \<Rightarrow> instant \<Rightarrow> int \<Rightarrow> bool" where
  "heartbeat_fresh n now timeout_seconds =
     (case nd_last_seen_at n of None \<Rightarrow> False | Some t \<Rightarrow> t \<ge> now - secs timeout_seconds)"

definition redis_transport_healthy :: "obj \<Rightarrow> bool" where
  "redis_transport_healthy health =
     (case as_dict (obj_get health ''redis'') of None \<Rightarrow> False
      | Some redis \<Rightarrow> obj_get redis ''connected'' = JBool True
          \<and> (case as_dict (obj_get redis ''command_consumer'') of None \<Rightarrow> False
             | Some command \<Rightarrow> obj_get command ''running'' = JBool True))"

definition aggregate_node_status :: "node \<Rightarrow> instant \<Rightarrow> int \<Rightarrow> string" where
  "aggregate_node_status n now timeout_seconds =
     (if \<not> heartbeat_fresh n now timeout_seconds then
        (if nd_last_seen_at n = None then ''unknown'' else ''unhealthy'')
      else if \<not> redis_transport_healthy (nd_health n) then ''degraded''
      else ''healthy'')"

section \<open>Heartbeats\<close>

record heartbeat =
  hb_endpoint :: "string option"
  hb_capabilities :: obj
  hb_detail :: obj

definition get_node_by_endpoint :: "db \<Rightarrow> string \<Rightarrow> node option" where
  "get_node_by_endpoint d endpoint = find (\<lambda>n. nd_endpoint n = endpoint) (db_nodes d)"

definition get_node_by_agent_id :: "db \<Rightarrow> string \<Rightarrow> node option" where
  "get_node_by_agent_id d agent_id = find (\<lambda>n. nd_agent_id n = Some agent_id) (db_nodes d)"

definition new_node :: "string \<Rightarrow> string \<Rightarrow> node" where
  "new_node k endpoint = \<lparr>nd_id = k, nd_agent_id = None, nd_endpoint = endpoint,
     nd_status = ''unknown'', nd_capabilities = [], nd_health = [], nd_last_seen_at = None,
     nd_scheduling_enabled = True, nd_scheduling_disabled_at = None, nd_deleted_at = None\<rparr>"

definition apply_heartbeat :: "node \<Rightarrow> string \<Rightarrow> heartbeat \<Rightarrow> instant \<Rightarrow> node" where
  \<comment> \<open>the attribute assignments at the end of \<open>upsert_node_heartbeat\<close>\<close>
  "apply_heartbeat n agent_id hb now =
     (let n = n\<lparr>nd_agent_id := Some agent_id\<rparr>;
          n = (if truthy_str (hb_endpoint hb) then n\<lparr>nd_endpoint := the (hb_endpoint hb)\<rparr> else n);
          n = n\<lparr>nd_last_seen_at := Some now, nd_capabilities := hb_capabilities hb,
                nd_health := hb_detail hb\<rparr>
      in n\<lparr>nd_status := aggregate_node_status n now DEFAULT_HEARTBEAT_TIMEOUT_SECONDS\<rparr>)"

definition upsert_node_heartbeat :: "db \<Rightarrow> string \<Rightarrow> heartbeat \<Rightarrow> instant \<Rightarrow> db \<times> node" where
  "upsert_node_heartbeat d agent_id hb now =
     (let known = (case get_node_by_agent_id d agent_id of Some n \<Rightarrow> Some n
            | None \<Rightarrow> if truthy_str (hb_endpoint hb)
                then get_node_by_endpoint d (the (hb_endpoint hb)) else None)
      in case known of
           Some n \<Rightarrow> (let n = apply_heartbeat n agent_id hb now in (save_node d n, n))
         | None \<Rightarrow> (let (k, d) = new_id d;
               endpoint = (if truthy_str (hb_endpoint hb) then the (hb_endpoint hb)
                           else ''agent://'' @ agent_id);
               n = apply_heartbeat (new_node k endpoint) agent_id hb now
             in (d\<lparr>db_nodes := db_nodes d @ [n]\<rparr>, n)))"

section \<open>Target selection\<close>

definition healthy_capable_nodes :: "db \<Rightarrow> string \<Rightarrow> int \<Rightarrow> instant \<Rightarrow> node list" where
  "healthy_capable_nodes d capability timeout_seconds now =
     (let cutoff = now - secs timeout_seconds;
          nodes = filter (\<lambda>n. (case nd_last_seen_at n of None \<Rightarrow> False | Some t \<Rightarrow> t \<ge> cutoff)
            \<and> nd_scheduling_enabled n \<and> nd_deleted_at n = None) (db_nodes d)
      in filter (\<lambda>n. truthy (obj_get (nd_capabilities n) capability)
            \<and> aggregate_node_status n now timeout_seconds = ''healthy'') nodes)"

definition resolve_target_nodes ::
    "(node list \<Rightarrow> node) \<Rightarrow> db \<Rightarrow> string \<Rightarrow> string list \<Rightarrow> string \<Rightarrow> int \<Rightarrow> instant
      \<Rightarrow> api_error + node list \<times> nat" where
  "resolve_target_nodes choice d strategy node_ids capability timeout_seconds now =
     (let candidates = healthy_capable_nodes d capability timeout_seconds now
      in case to_strategy strategy of
           Inl e \<Rightarrow> Inl e
         | Inr s \<Rightarrow> Inr (reduce_nodes choice s candidates node_ids, length candidates))"

definition select_target_nodes ::
    "(node list \<Rightarrow> node) \<Rightarrow> db \<Rightarrow> string \<Rightarrow> string list \<Rightarrow> string \<Rightarrow> int \<Rightarrow> instant
      \<Rightarrow> api_error + node list" where
  "select_target_nodes choice d strategy node_ids capability timeout_seconds now =
     (case resolve_target_nodes choice d strategy node_ids capability timeout_seconds now of
        Inl e \<Rightarrow> Inl e
      | Inr (selected, healthy_count) \<Rightarrow>
          if selected = [] then
            Inl (ApiError 409 ''execution.no_healthy_nodes'' ''errors.noHealthyNodes''
              [(''node_strategy'', JStr strategy), (''node_ids'', JList (map JStr node_ids)),
               (''healthy_count'', JInt (int healthy_count))])
          else Inr selected)"

section \<open>Scheduling state and soft deletion\<close>

definition get_node_or_404 :: "(string \<Rightarrow> string option) \<Rightarrow> db \<Rightarrow> string \<Rightarrow> api_error + node" where
  \<comment> \<open>\<open>uuid\<close> reads the id as a UUID, \<open>None\<close> when it is not one\<close>
  "get_node_or_404 uuid d node_id =
     (let missing = Inl (ApiError 404 ''node.not_found'' ''errors.nodeNotFound''
            [(''node_id'', JStr node_id)])
      in case uuid node_id of None \<Rightarrow> missing
         | Some k \<Rightarrow> (case find_node d k of None \<Rightarrow> missing | Some n \<Rightarrow> Inr n))"

definition offline_node :: "(string \<Rightarrow> string option) \<Rightarrow> db \<Rightarrow> string \<Rightarrow> instant \<Rightarrow> api_error + db \<times> node" where
  "offline_node uuid d node_id now =
     (case get_node_or_404 uuid d node_id of Inl e \<Rightarrow> Inl e
      | Inr n \<Rightarrow>
          let n = (if nd_scheduling_enabled n
                then n\<lparr>nd_scheduling_enabled := False, nd_scheduling_disabled_at := Some now\<rparr> else n)
          in Inr (save_node d n, n))"

definition online_node :: "(string \<Rightarrow> string option) \<Rightarrow> db \<Rightarrow> string \<Rightarrow> api_error + db \<times> node" where
  "online_node uuid d node_id =
     (case get_node_or_404 uuid d node_id of Inl e \<Rightarrow> Inl e
      | Inr n \<Rightarrow>
          let n = n\<lparr>nd_scheduling_enabled := True, nd_scheduling_disabled_at := None\<rparr>
          in Inr (save_node d n, n))"

definition soft_delete_node :: "(string \<Rightarrow> string option) \<Rightarrow> db \<Rightarrow> string \<Rightarrow> instant \<Rightarrow> api_error + db \<times> node" where
  "soft_delete_node uuid d node_id now =
     (case get_node_or_404 uuid d node_id of Inl e \<Rightarrow> Inl e
      | Inr n \<Rightarrow>
          let n = (if nd_deleted_at n = None then n\<lparr>nd_deleted_at := Some now\<rparr> else n)
          in Inr (save_node d n, n))"

section \<open>Facts\<close>

lemma aggregate_healthy:
  "aggregate_node_status n now t = ''healthy'' \<longleftrightarrow>
     heartbeat_fresh n now t \<and> redis_transport_healthy (nd_health n)"
  by (simp add: aggregate_node_status_def)

lemma reduce_subset:
  assumes "\<And>xs. xs \<noteq> [] \<Longrightarrow> choice xs \<in> set xs"
  shows "set (reduce_nodes choice s items ids) \<subseteq> set items"
  using assms by (cases s) (auto simp: reduce_nodes_def)

lemma apply_heartbeat_frame [simp]:
  "nd_id (apply_heartbeat n a hb now) = nd_id n"
  "nd_deleted_at (apply_heartbeat n a hb now) = nd_deleted_at n"
  "nd_scheduling_enabled (apply_heartbeat n a hb now) = nd_scheduling_enabled n"
  "nd_scheduling_disabled_at (apply_heartbeat n a hb now) = nd_scheduling_disabled_at n"
  "nd_agent_id (apply_heartbeat n a hb now) = Some a"
  "nd_last_seen_at (apply_heartbeat n a hb now) = Some now"
  by (simp_all add: apply_heartbeat_def Let_def)

definition same_scheduling :: "node \<Rightarrow> node \<Rightarrow> bool" where
  "same_scheduling n n' \<longleftrightarrow> nd_id n' = nd_id n \<and> nd_deleted_at n' = nd_deleted_at n
     \<and> nd_scheduling_enabled n' = nd_scheduling_enabled n"

lemma map_set_row_keep:
  assumes "distinct (map nd_id ns)" and "n \<in> set ns" and "same_scheduling n n'"
  shows "list_all2 same_scheduling ns (set_row nd_id ns n')"
  using assms
  by (auto simp: set_row_def same_scheduling_def list_all2_conv_all_nth distinct_conv_nth in_set_conv_nth)

section \<open>Properties\<close>

text \<open>Dispatch targets: whatever the strategy, a selected node is a row whose heartbeat is within
  the window, that is schedulable and not deleted, advertises the capability and reports a
  healthy Redis transport; \<open>all\<close> selects every such node.
\<close>

theorem targets_are_dispatchable:
  assumes "\<And>xs. xs \<noteq> [] \<Longrightarrow> choice xs \<in> set xs"
    and "resolve_target_nodes choice d strategy node_ids capability timeout_seconds now
         = Inr (selected, healthy_count)"
  shows "(\<forall>n \<in> set selected. n \<in> set (db_nodes d)
      \<and> (\<exists>t. nd_last_seen_at n = Some t \<and> now - t \<le> secs timeout_seconds)
      \<and> nd_scheduling_enabled n \<and> nd_deleted_at n = None
      \<and> truthy (obj_get (nd_capabilities n) capability) \<and> redis_transport_healthy (nd_health n))
    \<and> (strategy = ''all'' \<longrightarrow> length selected = healthy_count)"
proof -
  obtain s where s: "to_strategy strategy = Inr s"
    and sel: "selected = reduce_nodes choice s (healthy_capable_nodes d capability timeout_seconds now) node_ids"
    and cnt: "healthy_count = length (healthy_capable_nodes d capability timeout_seconds now)"
    using assms(2) by (auto simp: resolve_target_nodes_def Let_def split: sum.splits)
  have "set selected \<subseteq> set (healthy_capable_nodes d capability timeout_seconds now)"
    unfolding sel by (rule reduce_subset) (rule assms(1))
  moreover have "strategy = ''all'' \<Longrightarrow> s = Strategy_all"
    using s by (auto simp: to_strategy_def)
  ultimately show ?thesis
    by (fastforce simp: healthy_capable_nodes_def Let_def aggregate_healthy sel cnt reduce_nodes_def
        split: option.splits)
qed

definition sample_node :: node where
  "sample_node = \<lparr>nd_id = ''n1'', nd_agent_id = Some ''a1'', nd_endpoint = ''h:1'',
     nd_status = ''healthy'', nd_capabilities = [(''scrapy'', JBool True)],
     nd_health = [(''redis'', JObj [(''connected'', JBool True),
        (''command_consumer'', JObj [(''running'', JBool True)])])],
     nd_last_seen_at = Some (secs 100), nd_scheduling_enabled = True,
     nd_scheduling_disabled_at = None, nd_deleted_at = None\<rparr>"

theorem targets_are_dispatchable_witness:
  "\<exists>ns. resolve_target_nodes hd (empty_db\<lparr>db_nodes := [sample_node,
        sample_node\<lparr>nd_id := ''n2'', nd_deleted_at := Some 5\<rparr>]\<rparr>) ''random'' [] ''scrapy'' 30 (secs 110)
      = Inr (ns, 1) \<and> ns \<noteq> [] \<and> (\<forall>n \<in> set ns. nd_deleted_at n = None)"
proof -
  let ?d = "empty_db\<lparr>db_nodes := [sample_node, sample_node\<lparr>nd_id := ''n2'', nd_deleted_at := Some 5\<rparr>]\<rparr>"
  have r: "resolve_target_nodes hd ?d ''random'' [] ''scrapy'' 30 (secs 110) = Inr ([sample_node], 1)"
    by (simp add: resolve_target_nodes_def to_strategy_def reduce_nodes_def healthy_capable_nodes_def
        Let_def sample_node_def aggregate_node_status_def heartbeat_fresh_def obj_get_def
        redis_transport_healthy_def secs_def)
  from targets_are_dispatchable [OF _ r] r show ?thesis by fastforce
qed

text \<open>A heartbeat refreshes one row and never changes any node's scheduling state: it neither
  resurrects a soft-deleted node nor re-enables an offline one, and the row it returns carries
  the agent's id and the new \<open>last_seen_at\<close>.
\<close>

theorem heartbeat_keeps_scheduling:
  assumes "distinct (map nd_id (db_nodes d))"
    and "upsert_node_heartbeat d agent_id hb now = (d', n)"
  shows "(\<exists>ns fresh. db_nodes d' = ns @ fresh \<and> list_all2 same_scheduling (db_nodes d) ns
      \<and> length fresh \<le> 1 \<and> (fresh \<noteq> [] \<longrightarrow> get_node_by_agent_id d agent_id = None))
    \<and> n \<in> set (db_nodes d') \<and> nd_agent_id n = Some agent_id \<and> nd_last_seen_at n = Some now"
proof -
  have refl: "list_all2 same_scheduling ns ns" for ns
    by (simp add: list_all2_refl same_scheduling_def)
  define known where "known = (case get_node_by_agent_id d agent_id of Some n \<Rightarrow> Some n
      | None \<Rightarrow> if truthy_str (hb_endpoint hb) then get_node_by_endpoint d (the (hb_endpoint hb)) else None)"
  show ?thesis
  proof (cases known)
    case None
    then have "get_node_by_agent_id d agent_id = None"
      by (auto simp: known_def split: option.splits)
    moreover obtain k ep where n: "n = apply_heartbeat (new_node k ep) agent_id hb now"
      and d': "db_nodes d' = db_nodes d @ [n]"
      using None assms(2)
      by (auto simp: upsert_node_heartbeat_def known_def [symmetric] new_id_def Let_def)
    ultimately show ?thesis
      using refl [of "db_nodes d"]
      by (intro conjI exI [of _ "db_nodes d"] exI [of _ "[n]"]) (simp_all add: d' n)
  next
    case (Some m)
    then have m: "m \<in> set (db_nodes d)"
      by (auto simp: known_def get_node_by_agent_id_def get_node_by_endpoint_def find_Some_iff
          split: option.splits if_splits)
    have n: "n = apply_heartbeat m agent_id hb now" "d' = save_node d n"
      using Some assms(2) by (auto simp: upsert_node_heartbeat_def known_def [symmetric] Let_def)
    have "list_all2 same_scheduling (db_nodes d) (set_row nd_id (db_nodes d) n)"
      by (rule map_set_row_keep [OF assms(1) m]) (simp add: n same_scheduling_def)
    moreover have "n \<in> set (set_row nd_id (db_nodes d) n)"
      using m by (auto simp: set_row_def n intro!: rev_image_eqI)
    ultimately show ?thesis
      by (intro conjI exI [of _ "set_row nd_id (db_nodes d) n"] exI [of _ "[]"])
        (simp_all add: n(2) save_node_def, simp_all add: n(1))
  qed
qed

theorem heartbeat_keeps_scheduling_witness:
  "\<exists>d' n. upsert_node_heartbeat (empty_db\<lparr>db_nodes := [sample_node\<lparr>nd_deleted_at := Some 5\<rparr>]\<rparr>)
      ''a1'' \<lparr>hb_endpoint = None, hb_capabilities = [], hb_detail = []\<rparr> 9 = (d', n)
     \<and> nd_last_seen_at n = Some 9"
proof -
  let ?d = "empty_db\<lparr>db_nodes := [sample_node\<lparr>nd_deleted_at := Some 5\<rparr>]\<rparr>"
  let ?hb = "\<lparr>hb_endpoint = None, hb_capabilities = [], hb_detail = []\<rparr>"
  obtain d' n where u: "upsert_node_heartbeat ?d ''a1'' ?hb 9 = (d', n)" by (meson surj_pair)
  from heartbeat_keeps_scheduling [OF _ u] u show ?thesis by auto
qed

end
