(* ===== verification/ScrapyCommand.thy ===== *)
theory ScrapyCommand
  imports PyLib
begin

text \<open>
  The shared \<open>scrapy crawl\<close> command grammar
  (\<^verbatim>\<open>packages/protocol/dopilot_protocol/scrapy_command.py\<close>), with the part of Python's
  \<open>shlex.split(.., posix=True)\<close> it relies on written out as the character automaton it is.
  Characters are code points below 256. A failure is a reason with its detail object.

  The lemmas follow the synthesised command through the metacharacter check, the tokenizer and
  the pair loop, and end in the round trip of \<open>build_scrapy_command\<close> and
  \<open>parse_scrapy_command\<close>.
\<close>

section \<open>Character classes\<close>

definition DQ :: char where "DQ = CHR 0x22"
definition SQ :: char where "SQ = CHR 0x27"
definition BS :: char where "BS = CHR 0x5C"
definition NL :: char where "NL = CHR 0x0A"
definition CR :: char where "CR = CHR 0x0D"
definition TAB :: char where "TAB = CHR 0x09"

definition UNQUOTED_META :: string where
  "UNQUOTED_META = '';&|<>`$(){}!*?[]#~'' @ [BS, NL, CR]"

definition matches_dollar :: "(string \<Rightarrow> bool) \<Rightarrow> string \<Rightarrow> bool" where
  \<comment> \<open>a pattern \<open>^..$\<close>: \<open>$\<close> also matches just before a newline that ends the string\<close>
  "matches_dollar p s = (p s \<or> (s \<noteq> [] \<and> last s = NL \<and> p (butlast s)))"

definition SPIDER_RE :: "string \<Rightarrow> bool" where
  "SPIDER_RE = matches_dollar (\<lambda>s. case s of [] \<Rightarrow> False
     | c # cs \<Rightarrow> is_alnum c \<and> list_all (\<lambda>c. is_alnum c \<or> c \<in> set ''._-'') cs)"

definition KEY_RE :: "string \<Rightarrow> bool" where
  "KEY_RE = matches_dollar (\<lambda>s. case s of [] \<Rightarrow> False
     | c # cs \<Rightarrow> (is_letter c \<or> c = CHR ''_'') \<and> list_all (\<lambda>c. is_alnum c \<or> c \<in> set ''_.-'') cs)"

definition is_control :: "char \<Rightarrow> bool" where
  "is_control c = (ord_of c \<le> 8 \<or> ord_of c = 11 \<or> ord_of c = 12 \<or> (14 \<le> ord_of c \<and> ord_of c \<le> 31) \<or> ord_of c = 127)"

section \<open>Errors and results\<close>

type_synonym command_error = "string \<times> obj" \<comment> \<open>reason and extra detail\<close>

record parsed_command =
  pc_spider :: string
  pc_args :: "(string \<times> string) list"
  pc_settings :: "(string \<times> string) list"

section \<open>The metacharacter check\<close>

fun reject_unquoted_metacharacters :: "char option \<Rightarrow> string \<Rightarrow> command_error option" where
  "reject_unquoted_metacharacters None [] = None"
| "reject_unquoted_metacharacters (Some q) [] = Some (''unbalanced_quote'', [])"
| "reject_unquoted_metacharacters (Some q) (ch # s) =
     (if ch = q then reject_unquoted_metacharacters None s
      else reject_unquoted_metacharacters (Some q) s)"
| "reject_unquoted_metacharacters None (ch # s) =
     (if ch = SQ \<or> ch = DQ then reject_unquoted_metacharacters (Some ch) s
      else if ch \<in> set UNQUOTED_META then Some (''shell_metacharacter'', [(''char'', JStr [ch])])
      else reject_unquoted_metacharacters None s)"

section \<open>\<open>shlex.split\<close> in POSIX mode, whitespace split, no comments\<close>

datatype lex_state = Lex_space | Lex_word | Lex_quote char | Lex_escape "char option"
  \<comment> \<open>\<open>Lex_escape e\<close>: after a backslash, to return to the word (\<open>None\<close>) or the quote\<close>

definition lex_whitespace :: string where
  "lex_whitespace = [CHR '' '', TAB, CR, NL]"

definition emit :: "string \<Rightarrow> bool \<Rightarrow> (string + string list) \<Rightarrow> string + string list" where
  \<comment> \<open>end of a token: an empty one counts only when it was quoted\<close>
  "emit token quoted rest =
     (if token \<noteq> [] \<or> quoted then map_sum id (\<lambda>ts. token # ts) rest else rest)"

fun shlex :: "lex_state \<Rightarrow> string \<Rightarrow> bool \<Rightarrow> string \<Rightarrow> string + string list" where
  "shlex Lex_space token quoted [] = emit token quoted (Inr [])"
| "shlex Lex_word token quoted [] = emit token quoted (Inr [])"
| "shlex (Lex_quote q) token quoted [] = Inl ''No closing quotation''"
| "shlex (Lex_escape e) token quoted [] = Inl ''No escaped character''"
| "shlex Lex_space token quoted (c # s) =
     (if c \<in> set lex_whitespace then emit token quoted (shlex Lex_space [] False s)
      else if c = BS then shlex (Lex_escape None) token quoted s
      else if c = SQ \<or> c = DQ then shlex (Lex_quote c) token quoted s
      else shlex Lex_word [c] quoted s)"
| "shlex (Lex_quote q) token quoted (c # s) =
     (if c = q then shlex Lex_word token True s
      else if c = BS \<and> q = DQ then shlex (Lex_escape (Some q)) token True s
      else shlex (Lex_quote q) (token @ [c]) True s)"
| "shlex (Lex_escape e) token quoted (c # s) =
     (let token = (case e of None \<Rightarrow> token
                   | Some q \<Rightarrow> if c \<noteq> BS \<and> c \<noteq> q then token @ [BS] else token)
      in shlex (case e of None \<Rightarrow> Lex_word | Some q \<Rightarrow> Lex_quote q) (token @ [c]) quoted s)"
| "shlex Lex_word token quoted (c # s) =
     (if c \<in> set lex_whitespace then emit token quoted (shlex Lex_space [] False s)
      else if c = SQ \<or> c = DQ then shlex (Lex_quote c) token quoted s
      else if c = BS then shlex (Lex_escape None) token quoted s
      else shlex Lex_word (token @ [c]) quoted s)"

definition tokenize :: "string \<Rightarrow> command_error + string list" where
  "tokenize command =
     (case reject_unquoted_metacharacters None command of
        Some e \<Rightarrow> Inl e
      | None \<Rightarrow> (case shlex Lex_space [] False command of
          Inl e \<Rightarrow> Inl (''unbalanced_quote'', [(''error'', JStr e)])
        | Inr tokens \<Rightarrow> Inr tokens))"

section \<open>The grammar\<close>

definition partition_eq :: "string \<Rightarrow> string \<times> string" where
  \<comment> \<open>\<open>pair.partition("=")\<close>, key and value\<close>
  "partition_eq pair = (takeWhile (\<lambda>c. c \<noteq> CHR ''='') pair, tl (dropWhile (\<lambda>c. c \<noteq> CHR ''='') pair))"

fun parse_pairs ::
    "string list \<Rightarrow> (string \<times> string) list \<Rightarrow> (string \<times> string) list
      \<Rightarrow> command_error + (string \<times> string) list \<times> (string \<times> string) list" where
  "parse_pairs [] args settings = Inr (args, settings)"
| "parse_pairs [flag] args settings =
     (if flag = ''-a'' \<or> flag = ''-s'' then Inl (''missing_value'', [(''flag'', JStr flag)])
      else Inl (''unsupported_flag'', [(''flag'', JStr flag)]))"
| "parse_pairs (flag # pair # rest) args settings =
     (if flag \<noteq> ''-a'' \<and> flag \<noteq> ''-s'' then Inl (''unsupported_flag'', [(''flag'', JStr flag)])
      else if CHR ''='' \<notin> set pair then
        Inl (''malformed_pair'', [(''flag'', JStr flag), (''pair'', JStr pair)])
      else (let (key, value) = partition_eq pair in
        if key = [] \<or> \<not> KEY_RE key then
          Inl (''invalid_key'', [(''flag'', JStr flag), (''key'', JStr key)])
        else if list_ex is_control value then Inl (''invalid_value'', [])
        else if flag = ''-a'' then parse_pairs rest (AList.update key value args) settings
        else parse_pairs rest args (AList.update key value settings)))"

definition parse_scrapy_command :: "string option \<Rightarrow> command_error + parsed_command" where
  "parse_scrapy_command command =
     (case command of None \<Rightarrow> Inl (''empty'', [])
      | Some s \<Rightarrow>
        if py_strip s = [] then Inl (''empty'', [])
        else (case tokenize s of Inl e \<Rightarrow> Inl e
          | Inr tokens \<Rightarrow>
            if length tokens < 2 \<or> tokens ! 0 \<noteq> ''scrapy'' \<or> tokens ! 1 \<noteq> ''crawl''
              then Inl (''not_scrapy_crawl'', [])
            else if length tokens < 3 then Inl (''missing_spider'', [])
            else (let spider = tokens ! 2 in
              if take 1 spider = ''-'' \<or> \<not> SPIDER_RE spider
                then Inl (''missing_spider'', [(''spider'', JStr spider)])
              else (case parse_pairs (drop 3 tokens) [] [] of Inl e \<Rightarrow> Inl e
                | Inr (args, settings) \<Rightarrow>
                    Inr \<lparr>pc_spider = spider, pc_args = args, pc_settings = settings\<rparr>))))"

definition is_valid_scrapy_command :: "string option \<Rightarrow> bool" where
  "is_valid_scrapy_command command =
     (case parse_scrapy_command command of Inl _ \<Rightarrow> False | Inr _ \<Rightarrow> True)"

section \<open>Synthesis\<close>

definition quote_value :: "string \<Rightarrow> string" where
  "quote_value v =
     (if v = [] \<or> list_ex (\<lambda>c. py_isspace c \<or> c \<in> set UNQUOTED_META) v
      then [DQ] @ concat (map (\<lambda>c. if c = DQ then [BS, DQ] else [c]) v) @ [DQ] else v)"

abbreviation join_space :: "string list \<Rightarrow> string" where
  \<comment> \<open>\<open>" ".join(parts)\<close>\<close>
  "join_space \<equiv> join_with '' ''"

definition flag_parts :: "string \<Rightarrow> (string \<times> string) list \<Rightarrow> string list" where
  "flag_parts flag kvs = concat (map (\<lambda>(k, v). [flag, k @ ''='' @ quote_value v]) kvs)"

definition build_scrapy_command ::
    "string \<Rightarrow> (string \<times> string) list \<Rightarrow> (string \<times> string) list \<Rightarrow> string" where
  "build_scrapy_command spider args settings =
     join_space ([''scrapy'', ''crawl'', spider] @ flag_parts ''-a'' args @ flag_parts ''-s'' settings)"

section \<open>The tokenizer on synthesised words\<close>

lemmas char_defs = DQ_def SQ_def BS_def NL_def CR_def TAB_def

definition plain :: "char \<Rightarrow> bool" where
  \<comment> \<open>a character that neither the check nor the tokenizer treats specially\<close>
  "plain c = (c \<notin> set UNQUOTED_META \<and> c \<notin> set lex_whitespace \<and> c \<noteq> DQ \<and> c \<noteq> SQ)"

definition quotable :: "char \<Rightarrow> bool" where
  \<comment> \<open>a character that may stand between double quotes\<close>
  "quotable c = (c \<noteq> DQ \<and> c \<noteq> BS)"

lemma plainD:
  "plain c \<Longrightarrow> c \<notin> set lex_whitespace \<and> c \<notin> set UNQUOTED_META \<and> c \<noteq> DQ \<and> c \<noteq> SQ \<and> c \<noteq> BS"
  by (auto simp: plain_def UNQUOTED_META_def)

lemma reject_plain: "list_all plain w \<Longrightarrow>
    reject_unquoted_metacharacters None (w @ s) = reject_unquoted_metacharacters None s"
  by (induction w) (auto simp: plain_def)

lemma reject_in_quotes: "DQ \<notin> set v \<Longrightarrow>
    reject_unquoted_metacharacters (Some DQ) (v @ DQ # s) = reject_unquoted_metacharacters None s"
  by (induction v) auto

lemma shlex_word_plain: "list_all plain w \<Longrightarrow>
    shlex Lex_word token quoted (w @ s) = shlex Lex_word (token @ w) quoted s"
  by (induction w arbitrary: token) (auto dest!: plainD)

lemma shlex_space_plain: "list_all plain w \<Longrightarrow> w \<noteq> [] \<Longrightarrow>
    shlex Lex_space [] False (w @ s) = shlex Lex_word w False s"
  by (cases w) (auto simp: shlex_word_plain dest!: plainD)

lemma shlex_quoted: "list_all quotable v \<Longrightarrow>
    shlex (Lex_quote DQ) token quoted (v @ DQ # s) = shlex Lex_word (token @ v) True s"
  by (induction v arbitrary: token quoted) (auto simp: quotable_def)

definition lexes :: "string \<Rightarrow> string \<Rightarrow> bool" where
  \<comment> \<open>the part \<open>p\<close> passes the check and is read as the single token \<open>t\<close>\<close>
  "lexes p t \<longleftrightarrow>
     (\<forall>s. reject_unquoted_metacharacters None (p @ s) = reject_unquoted_metacharacters None s)
     \<and> (\<forall>s. shlex Lex_space [] False (p @ CHR '' '' # s)
            = map_sum id (\<lambda>ts. t # ts) (shlex Lex_space [] False s))
     \<and> shlex Lex_space [] False p = Inr [t]"

lemma space_lex: "CHR '' '' \<in> set lex_whitespace"
  by (simp add: lex_whitespace_def)

lemma space_reject:
  "reject_unquoted_metacharacters None (CHR '' '' # s) = reject_unquoted_metacharacters None s"
  by (simp add: UNQUOTED_META_def char_defs)

lemma lexes_plain: "list_all plain w \<Longrightarrow> w \<noteq> [] \<Longrightarrow> lexes w w"
  using shlex_space_plain [of w "[]"]
  by (auto simp: lexes_def reject_plain shlex_space_plain space_lex emit_def)

lemma lexes_quoted:
  assumes "list_all plain w" and "w \<noteq> []" and "list_all quotable v"
  shows "lexes (w @ [DQ] @ v @ [DQ]) (w @ v)"
proof -
  have v: "DQ \<notin> set v" using assms(3) by (auto simp: quotable_def list_all_iff)
  have dq: "DQ \<notin> set lex_whitespace" by (simp add: lex_whitespace_def char_defs)
  have r: "reject_unquoted_metacharacters None (w @ DQ # v @ DQ # s)
      = reject_unquoted_metacharacters None s" for s
    using v by (simp add: reject_plain [OF assms(1)] reject_in_quotes)
  have l: "shlex Lex_space [] False (w @ DQ # v @ DQ # s) = shlex Lex_word (w @ v) True s" for s
    by (simp add: shlex_space_plain [OF assms(1,2)] dq shlex_quoted [OF assms(3)])
  show ?thesis
    using r l by (simp add: lexes_def space_lex emit_def)
qed

lemma lexes_join:
  "list_all2 lexes ps ts \<Longrightarrow> reject_unquoted_metacharacters None (join_space ps) = None
     \<and> shlex Lex_space [] False (join_space ps) = Inr ts"
proof (induction ps arbitrary: ts rule: induct_list012)
  case 1
  then show ?case by (simp add: emit_def)
next
  case (2 p)
  then obtain t where "ts = [t]" and "lexes p t" by (auto simp: list_all2_Cons1)
  then show ?case
    by (metis append_Nil2 join_with.simps(2) lexes_def reject_unquoted_metacharacters.simps(1))
next
  case (3 p q ps)
  then obtain t ts' where "ts = t # ts'" "lexes p t" "list_all2 lexes (q # ps) ts'"
    by (auto simp: list_all2_Cons1)
  with 3 have "reject_unquoted_metacharacters None (join_space (q # ps)) = None"
    and "shlex Lex_space [] False (join_space (q # ps)) = Inr ts'" by blast+
  then show ?case
    using \<open>lexes p t\<close> \<open>ts = t # ts'\<close>
    by (simp add: lexes_def space_reject del: reject_unquoted_metacharacters.simps)
qed

section \<open>Synthesised commands\<close>

definition spider_name :: "string \<Rightarrow> bool" where
  "spider_name s = (case s of [] \<Rightarrow> False
     | c # cs \<Rightarrow> is_alnum c \<and> list_all (\<lambda>c. is_alnum c \<or> c \<in> set ''._-'') cs)"

definition key_name :: "string \<Rightarrow> bool" where
  "key_name s = (case s of [] \<Rightarrow> False
     | c # cs \<Rightarrow> (is_letter c \<or> c = CHR ''_'') \<and> list_all (\<lambda>c. is_alnum c \<or> c \<in> set ''_.-'') cs)"

definition safe_value :: "string \<Rightarrow> bool" where
  "safe_value = list_all (\<lambda>c. c \<noteq> DQ \<and> c \<noteq> SQ \<and> c \<noteq> BS \<and> \<not> is_control c)"

definition safe_pairs :: "(string \<times> string) list \<Rightarrow> bool" where
  \<comment> \<open>a dictionary with valid keys and safe values\<close>
  "safe_pairs kvs = (distinct (map fst kvs) \<and> list_all (\<lambda>(k, v). key_name k \<and> safe_value v) kvs)"

lemma alnum_plain: "is_alnum c \<Longrightarrow> plain c"
  by (auto simp: is_alnum_def plain_def UNQUOTED_META_def lex_whitespace_def char_defs ord_of_def)

lemma letter_alnum: "is_letter c \<Longrightarrow> is_alnum c"
  by (auto simp: is_letter_def is_alnum_def)

lemma punct_plain: "c \<in> set ''._-='' \<Longrightarrow> plain c"
  by (auto simp: plain_def UNQUOTED_META_def lex_whitespace_def char_defs)

lemma spider_plain: "spider_name s \<Longrightarrow> list_all plain s \<and> s \<noteq> []"
  by (auto simp: spider_name_def list_all_iff alnum_plain punct_plain split: list.splits)

lemma key_plain: "key_name s \<Longrightarrow> list_all plain s \<and> s \<noteq> []"
  by (auto simp: key_name_def list_all_iff alnum_plain letter_alnum punct_plain split: list.splits)

lemma key_no_eq: "key_name k \<Longrightarrow> CHR ''='' \<notin> set k"
  by (auto simp: key_name_def is_letter_def is_alnum_def ord_of_def list_all_iff split: list.splits)

lemma unquoted_plain:
  assumes "safe_value v" and "\<not> list_ex (\<lambda>c. py_isspace c \<or> c \<in> set UNQUOTED_META) v"
  shows "list_all plain v"
proof -
  have "c \<in> set lex_whitespace \<Longrightarrow> py_isspace c" for c
    by (auto simp: lex_whitespace_def py_isspace_def char_defs ord_of_def)
  with assms show ?thesis
    by (auto simp: safe_value_def list_all_iff list_ex_iff plain_def)
qed

lemma quote_value_safe: "safe_value v \<Longrightarrow> quote_value v =
    (if v = [] \<or> list_ex (\<lambda>c. py_isspace c \<or> c \<in> set UNQUOTED_META) v then [DQ] @ v @ [DQ] else v)"
proof -
  assume "safe_value v"
  then have "concat (map (\<lambda>c. if c = DQ then [BS, DQ] else [c]) v) = v"
    by (induction v) (auto simp: safe_value_def)
  then show ?thesis by (simp add: quote_value_def)
qed

lemma lexes_pair:
  assumes "key_name k" and "safe_value v"
  shows "lexes (k @ ''='' @ quote_value v) (k @ ''='' @ v)"
proof -
  have k: "list_all plain (k @ ''='')" using key_plain [OF assms(1)] punct_plain [of "CHR ''=''"] by simp
  have q: "list_all quotable v" using assms(2) by (simp add: safe_value_def list_all_iff quotable_def)
  show ?thesis
    using lexes_quoted [OF k _ q] lexes_plain [of "(k @ ''='') @ v"] unquoted_plain [OF assms(2)] k
    by (auto simp: quote_value_safe [OF assms(2)])
qed

definition pair_tokens :: "string \<Rightarrow> (string \<times> string) list \<Rightarrow> string list" where
  "pair_tokens flag kvs = concat (map (\<lambda>(k, v). [flag, k @ ''='' @ v]) kvs)"

lemma lexes_flags:
  assumes "flag \<in> {''-a'', ''-s''}" and "list_all (\<lambda>(k, v). key_name k \<and> safe_value v) kvs"
  shows "list_all2 lexes (flag_parts flag kvs) (pair_tokens flag kvs)"
proof -
  have "lexes flag flag"
    using assms(1) by (intro lexes_plain) (auto simp: alnum_plain punct_plain is_alnum_def ord_of_def)
  with assms(2) show ?thesis
    by (induction kvs) (auto simp: flag_parts_def pair_tokens_def lexes_pair [simplified])
qed

lemma partition_eq_pair: "CHR ''='' \<notin> set k \<Longrightarrow> partition_eq (k @ ''='' @ v) = (k, v)"
  by (induction k) (auto simp: partition_eq_def)

lemma key_name_RE: "key_name k \<Longrightarrow> KEY_RE k"
  by (simp add: key_name_def KEY_RE_def matches_dollar_def)

lemma safe_no_control: "safe_value v \<Longrightarrow> \<not> list_ex is_control v"
  by (auto simp: safe_value_def list_all_iff list_ex_iff)

lemma parse_pairs_tokens:
  assumes "list_all (\<lambda>(k, v). key_name k \<and> safe_value v) kvs"
  shows "parse_pairs (pair_tokens ''-a'' kvs @ rest) args settings
       = parse_pairs rest (fold (\<lambda>(k, v). AList.update k v) kvs args) settings"
    and "parse_pairs (pair_tokens ''-s'' kvs @ rest) args settings
       = parse_pairs rest args (fold (\<lambda>(k, v). AList.update k v) kvs settings)"
  using assms
  by (induction kvs arbitrary: args settings)
    (auto simp: pair_tokens_def key_no_eq key_name_RE safe_no_control key_plain
      partition_eq_pair [simplified])

lemma update_append: "k \<notin> fst ` set xs \<Longrightarrow> AList.update k v xs = xs @ [(k, v)]"
  by (induction xs) auto

lemma fold_update_distinct:
  "distinct (map fst (acc @ kvs)) \<Longrightarrow> fold (\<lambda>(k, v). AList.update k v) kvs acc = acc @ kvs"
  by (induction kvs arbitrary: acc) (auto simp: update_append)

section \<open>Properties\<close>

text \<open>C10. \<open>parse_scrapy_command\<close> inverts \<open>build_scrapy_command\<close> for every valid spider name and
  every argument and setting dictionary with valid keys whose values hold no quote character,
  backslash or control character (spaces, shell metacharacters, \<open>=\<close> and the empty value included).
\<close>

theorem parse_build_roundtrip:
  assumes "spider_name spider" and "safe_pairs args" and "safe_pairs settings"
  shows "parse_scrapy_command (Some (build_scrapy_command spider args settings))
    = Inr \<lparr>pc_spider = spider, pc_args = args, pc_settings = settings\<rparr>"
proof -
  let ?ts = "[''scrapy'', ''crawl'', spider] @ pair_tokens ''-a'' args @ pair_tokens ''-s'' settings"
  let ?s = "build_scrapy_command spider args settings"
  have words: "lexes ''scrapy'' ''scrapy''" "lexes ''crawl'' ''crawl''" "lexes spider spider"
    using spider_plain [OF assms(1)]
    by (auto intro!: lexes_plain simp: alnum_plain is_alnum_def ord_of_def)
  have "list_all2 lexes ([''scrapy'', ''crawl'', spider] @ flag_parts ''-a'' args @ flag_parts ''-s'' settings) ?ts"
    using words assms(2,3) by (auto simp: safe_pairs_def intro!: list_all2_appendI lexes_flags)
  from lexes_join [OF this] have tok: "tokenize ?s = Inr ?ts"
    by (simp add: tokenize_def build_scrapy_command_def)
  have strip: "py_strip ?s \<noteq> []"
    by (rule strip_nonempty [of "CHR ''s''"])
      (simp_all add: build_scrapy_command_def py_isspace_def ord_of_def)
  have spider: "take 1 spider \<noteq> ''-''" "SPIDER_RE spider"
    using assms(1)
    by (auto simp: spider_name_def SPIDER_RE_def matches_dollar_def is_alnum_def ord_of_def split: list.splits)
  have "parse_pairs (pair_tokens ''-a'' args @ pair_tokens ''-s'' settings @ []) [] [] = Inr (args, settings)"
    using assms(2,3) fold_update_distinct [of "[]" args] fold_update_distinct [of "[]" settings]
    by (simp only: safe_pairs_def parse_pairs_tokens) simp
  then show ?thesis
    using tok strip spider by (simp add: parse_scrapy_command_def)
qed

theorem parse_build_roundtrip_witness:
  "parse_scrapy_command (Some (build_scrapy_command ''quotes.v2''
     [(''query'', ''a&b; c''), (''empty'', [])] [(''LOG_LEVEL'', ''INFO=1'')]))
   = Inr \<lparr>pc_spider = ''quotes.v2'', pc_args = [(''query'', ''a&b; c''), (''empty'', [])],
       pc_settings = [(''LOG_LEVEL'', ''INFO=1'')]\<rparr>"
  by (rule parse_build_roundtrip)
    (simp_all add: spider_name_def safe_pairs_def key_name_def safe_value_def is_alnum_def
      is_letter_def ord_of_def is_control_def char_defs)

lemma parse_pairs_step:
  assumes "parse_pairs (flag # pair # rest) args settings = Inr r"
  shows "\<exists>k v. KEY_RE k \<and> \<not> list_ex is_control v
    \<and> (parse_pairs rest (AList.update k v args) settings = Inr r
       \<or> parse_pairs rest args (AList.update k v settings) = Inr r)"
proof -
  obtain k v where kv: "partition_eq pair = (k, v)" by fastforce
  show ?thesis
    using assms kv by (intro exI [of _ k] exI [of _ v]) (auto split: if_splits)
qed

definition pairs_ok :: "(string \<times> string) list \<Rightarrow> bool" where
  "pairs_ok kvs = list_all (\<lambda>(k, v). KEY_RE k \<and> \<not> list_ex is_control v) kvs"

lemma pairs_ok_update: "pairs_ok kvs \<Longrightarrow> KEY_RE k \<Longrightarrow> \<not> list_ex is_control v \<Longrightarrow> pairs_ok (AList.update k v kvs)"
  unfolding pairs_ok_def by (induction kvs) auto

lemma parse_pairs_sound:
  "parse_pairs ts args settings = Inr (args', settings') \<Longrightarrow> pairs_ok args \<Longrightarrow> pairs_ok settings
    \<Longrightarrow> pairs_ok args' \<and> pairs_ok settings'"
proof (induction ts arbitrary: args settings rule: induct_list012)
  case (3 flag pair rest)
  obtain k v where "KEY_RE k" "\<not> list_ex is_control v"
    and "parse_pairs rest (AList.update k v args) settings = Inr (args', settings')
       \<or> parse_pairs rest args (AList.update k v settings) = Inr (args', settings')"
    using parse_pairs_step [OF "3.prems"(1)] by blast
  then show ?case using 3 by (blast intro: pairs_ok_update)
qed (auto split: if_splits)

text \<open>What the parser accepts is well formed: a spider name and keys matching their patterns and
  values without control characters, whatever the input text.
\<close>

theorem parse_sound:
  assumes "parse_scrapy_command command = Inr p"
  shows "SPIDER_RE (pc_spider p)
    \<and> (\<forall>(k, v) \<in> set (pc_args p) \<union> set (pc_settings p). KEY_RE k \<and> \<not> list_ex is_control v)"
proof -
  obtain ts where "parse_pairs ts [] [] = Inr (pc_args p, pc_settings p)" and "SPIDER_RE (pc_spider p)"
    using assms
    by (auto simp: parse_scrapy_command_def Let_def split: option.splits if_splits sum.splits)
  with parse_pairs_sound [OF this(1)] show ?thesis
    by (auto simp: pairs_ok_def list_all_iff)
qed

theorem parse_sound_witness:
  "\<exists>p. parse_scrapy_command (Some ''scrapy crawl s1 -a k=v'') = Inr p \<and> SPIDER_RE (pc_spider p)"
proof -
  have p: "parse_scrapy_command (Some ''scrapy crawl s1 -a k=v'')
      = Inr \<lparr>pc_spider = ''s1'', pc_args = [(''k'', ''v'')], pc_settings = []\<rparr>"
    by code_simp
  from parse_sound [OF this] p show ?thesis by blast
qed

text \<open>Where the code departs from its documentation: \<open>build_scrapy_command\<close> is not the inverse
  of the parser on a value holding a double quote or an apostrophe (the synthesised command is
  rejected), and the patterns' \<open>$\<close> admits a quoted spider name that ends in a newline.
\<close>

theorem grammar_divergences:
  "parse_scrapy_command (Some (build_scrapy_command ''s'' [(''q'', ''a'' @ [DQ] @ '' b'')] []))
     = Inl (''unbalanced_quote'', [])
   \<and> parse_scrapy_command (Some (build_scrapy_command ''s'' [(''q'', ''it'' @ [SQ] @ ''s'')] []))
     = Inl (''unbalanced_quote'', [])
   \<and> parse_scrapy_command (Some (''scrapy crawl '' @ [DQ] @ ''s'' @ [NL, DQ]))
     = Inr \<lparr>pc_spider = ''s'' @ [NL], pc_args = [], pc_settings = []\<rparr>"
  by (intro conjI; code_simp)

end
