(* ===== verification/Settings.thy ===== *)
theory Settings
  imports Prelude
begin

text \<open>
  The server's configuration (\<^verbatim>\<open>apps/server/dopilot_server/config/settings.py\<close>): the fields
  the modelled code reads, one record per section, with the declared defaults. The only range
  check at load time is the one of the circuit breaker (\<^verbatim>\<open>config/loader.py\<close>).
\<close>

record redis_settings =
  stream_maxlen_commands :: int
  stream_maxlen_events :: int
  stream_maxlen_logs :: int
  stream_max_bytes_logs :: int
  log_retention_seconds :: int
  sent_reconcile_interval_seconds :: int
  sent_reconcile_min_age_seconds :: int
  sent_reconcile_batch_limit :: int

record agents_settings =
  heartbeat_timeout_seconds :: int
  stalled_attempt_seconds :: int
  lost_after_stalled_seconds :: int
  no_progress_stall_seconds :: int
  no_progress_sample_max_age_seconds :: int
  auto_stop_on_no_progress :: bool

record scheduler_settings =
  auto_disable_after_errors :: int
  breaker_backoff_base_seconds :: int
  breaker_backoff_max_seconds :: int
  breaker_escalate_after_seconds :: int
  lost_outcome_grace_seconds :: int

record logs_settings =
  root_dir :: string
  log_drain_timeout_seconds :: int
  retention_days :: int
  max_file_bytes :: int
  max_total_bytes :: int

record maintenance_settings =
  sweep_enabled :: bool
  sweep_interval_seconds :: int
  event_audit_retention_days :: int
  event_audit_delete_batch :: int
  outbox_retention_days :: int
  outbox_delete_batch :: int
  stale_command_stream_days :: int
  notification_retention_days :: int
  notification_unread_max_days :: int
  notification_max_rows :: int

record artifacts_settings =
  artifacts_root_dir :: string
  artifacts_max_upload_bytes :: int
  artifacts_max_total_bytes :: int

record settings =
  cfg_redis :: redis_settings
  cfg_agents :: agents_settings
  cfg_scheduler :: scheduler_settings
  cfg_logs :: logs_settings
  cfg_maintenance :: maintenance_settings
  cfg_artifacts :: artifacts_settings

definition default_redis :: redis_settings where
  "default_redis = \<lparr>stream_maxlen_commands = 100000, stream_maxlen_events = 100000,
     stream_maxlen_logs = 100000, stream_max_bytes_logs = 268435456, log_retention_seconds = 86400,
     sent_reconcile_interval_seconds = 300, sent_reconcile_min_age_seconds = 60,
     sent_reconcile_batch_limit = 500\<rparr>"

definition default_agents :: agents_settings where
  "default_agents = \<lparr>heartbeat_timeout_seconds = 30, stalled_attempt_seconds = 300,
     lost_after_stalled_seconds = 3600, no_progress_stall_seconds = 1800,
     no_progress_sample_max_age_seconds = 300, auto_stop_on_no_progress = False\<rparr>"

definition default_scheduler :: scheduler_settings where
  "default_scheduler = \<lparr>auto_disable_after_errors = 5, breaker_backoff_base_seconds = 900,
     breaker_backoff_max_seconds = 7200, breaker_escalate_after_seconds = 86400,
     lost_outcome_grace_seconds = 86400\<rparr>"

definition default_logs :: logs_settings where
  "default_logs = \<lparr>root_dir = ''/server-data/logs'', log_drain_timeout_seconds = 30,
     retention_days = 30, max_file_bytes = 33554432, max_total_bytes = 21474836480\<rparr>"

definition default_maintenance :: maintenance_settings where
  "default_maintenance = \<lparr>sweep_enabled = True, sweep_interval_seconds = 3600,
     event_audit_retention_days = 30, event_audit_delete_batch = 5000, outbox_retention_days = 7,
     outbox_delete_batch = 5000, stale_command_stream_days = 7,
     notification_retention_days = 30, notification_unread_max_days = 90,
     notification_max_rows = 2000\<rparr>"

definition default_artifacts :: artifacts_settings where
  "default_artifacts = \<lparr>artifacts_root_dir = ''/server-data/artifacts'',
     artifacts_max_upload_bytes = 209715200, artifacts_max_total_bytes = 21474836480\<rparr>"

definition default_settings :: settings where
  "default_settings = \<lparr>cfg_redis = default_redis, cfg_agents = default_agents,
     cfg_scheduler = default_scheduler, cfg_logs = default_logs,
     cfg_maintenance = default_maintenance, cfg_artifacts = default_artifacts\<rparr>"

definition validate_breaker :: "scheduler_settings \<Rightarrow> string option" where
  \<comment> \<open>the \<open>ConfigError\<close> that loading raises, by the key it names\<close>
  "validate_breaker sched =
     (if breaker_backoff_base_seconds sched < 1 then Some ''breaker_backoff_base_seconds''
      else if breaker_backoff_max_seconds sched < breaker_backoff_base_seconds sched
        then Some ''breaker_backoff_max_seconds''
      else if breaker_escalate_after_seconds sched < 0 then Some ''breaker_escalate_after_seconds''
      else None)"

definition days :: "int \<Rightarrow> int" where
  \<comment> \<open>\<open>timedelta(days=n)\<close>\<close>
  "days n = secs (86400 * n)"

end
