(* ===== verification/Executions.thy ===== *)
theory Executions
  imports Nodes ScrapyCommand Settings
begin

text \<open>
  Task and execution orchestration (\<^verbatim>\<open>apps/server/dopilot_server/services/executions.py\<close>):
  parameter validation, creation of tasks, executions and log-file rows, the queries, and the
  JSON views. \<open>ORDER BY created_at\<close> is a stable sort on the column; rows that tie keep their
  insertion order, which the database leaves open.
\<close>

section \<open>Run requests\<close>

record run_request =
  rq_artifact_type :: string
  rq_target :: string
  rq_node_strategy :: string
  rq_node_ids :: "string list"
  rq_params :: obj

record task_origin =
  og_source :: task_source
  og_execution_template_id :: "string option"
  og_schedule_id :: "string option"
  og_template_snapshot :: obj
  og_schedule_generation :: "int option"

record scrapy_params =
  sp_command :: string
  sp_project :: string
  sp_spider :: string
  sp_version :: "string option"
  sp_artifact :: obj

definition json_str :: "json \<Rightarrow> string option" where
  \<comment> \<open>a JSON value where a string is expected (the code fails on any other non-empty value)\<close>
  "json_str v = (case v of JStr s \<Rightarrow> Some s | _ \<Rightarrow> None)"

definition command_api_error :: "command_error \<Rightarrow> api_error" where
  "command_api_error e =
     ApiError 400 ''command.invalid'' ''errors.invalidCommand'' ((''reason'', JStr (fst e)) # snd e)"

definition missing_param :: "string \<Rightarrow> api_error" where
  "missing_param name =
     ApiError 400 ''execution.invalid_params'' ''errors.invalidParams''
       [(''missing'', JList [JStr name])]"

definition parse_scrapy_params :: "run_request \<Rightarrow> api_error + scrapy_params" where
  "parse_scrapy_params request =
     (let params = rq_params request;
          artifact = (case as_dict (obj_get params ''artifact'') of None \<Rightarrow> [] | Some a \<Rightarrow> a);
          command = obj_get params ''command'';
          project = (if truthy (obj_get params ''project'') then obj_get params ''project''
                     else obj_get artifact ''project'')
      in case parse_scrapy_command (json_str command) of
           Inl e \<Rightarrow> Inl (command_api_error e)
         | Inr parsed \<Rightarrow>
             if \<not> truthy project then Inl (missing_param ''project'')
             else Inr \<lparr>sp_command = py_str command, sp_project = py_str project,
               sp_spider = pc_spider parsed,
               sp_version = (if truthy (obj_get params ''version'')
                   then Some (py_str (obj_get params ''version''))
                 else if truthy (obj_get artifact ''version'')
                   then Some (py_str (obj_get artifact ''version'')) else None),
               sp_artifact = artifact\<rparr>)"

record wheel_params =
  wp_shell_command :: string
  wp_artifact :: obj
  wp_env :: "(string \<times> string) list"
  wp_working_dir :: "string option"

definition parse_wheel_params :: "run_request \<Rightarrow> api_error + wheel_params" where
  "parse_wheel_params request =
     (let params = rq_params request;
          artifact = as_dict (obj_get params ''artifact'');
          raw = (if truthy (obj_get params ''shell_command'') then obj_get params ''shell_command''
                 else if truthy (obj_get params ''command'') then obj_get params ''command''
                 else JStr []);
          shell_command = py_strip (py_str raw);
          env = (case as_dict (obj_get params ''env'') of None \<Rightarrow> [] | Some e \<Rightarrow> e);
          working_dir = obj_get params ''working_dir''
      in if shell_command = [] then Inl (missing_param ''shell_command'')
         else case artifact of
             None \<Rightarrow> Inl (missing_param ''artifact'')
           | Some a \<Rightarrow>
               if a = [] \<or> \<not> truthy (obj_get a ''fetch_path'') then Inl (missing_param ''artifact'')
               else Inr \<lparr>wp_shell_command = shell_command, wp_artifact = a,
                 wp_env = map (\<lambda>(k, v). (k, py_str v)) env,
                 wp_working_dir = (if truthy working_dir then Some (py_str working_dir) else None)\<rparr>)"

section \<open>Creation\<close>

definition create_task :: "db \<Rightarrow> run_request \<Rightarrow> task_origin \<Rightarrow> instant \<Rightarrow> db \<times> task" where
  "create_task d request origin now =
     (let spider = obj_get (rq_params request) ''spider'';
          (k, d) = new_id d;
          t = \<lparr>t_id = k, t_artifact_type = rq_artifact_type request, t_target = rq_target request,
               t_node_strategy = (if rq_node_strategy request = [] then ''all'' else rq_node_strategy request),
               t_spider = (if truthy spider then Some (py_str spider) else None),
               t_params = rq_params request, t_source = og_source origin,
               t_execution_template_id = og_execution_template_id origin,
               t_schedule_id = og_schedule_id origin,
               t_template_snapshot = JObj (og_template_snapshot origin),
               t_status = TASK_QUEUED, t_status_reason = None, t_status_detail = [],
               t_schedule_generation = og_schedule_generation origin,
               t_outcome_recorded_at = None, t_outcome_erroneous = None, t_created_at = now,
               t_started_at = None, t_finished_at = None, t_updated_at = now\<rparr>
      in (d\<lparr>db_tasks := db_tasks d @ [t]\<rparr>, t))"

definition mark_no_target :: "task \<Rightarrow> string \<Rightarrow> string list \<Rightarrow> nat \<Rightarrow> instant \<Rightarrow> task" where
  "mark_no_target t strategy node_ids healthy_count now =
     t\<lparr>t_status := TASK_NO_TARGET, t_status_reason := Some (task_status_value TASK_NO_TARGET),
       t_status_detail := [(''node_strategy'', JStr strategy), (''node_ids'', JList (map JStr node_ids)),
         (''healthy_count'', JInt (int healthy_count))],
       t_started_at := first_some (t_started_at t) (Some now), t_finished_at := Some now\<rparr>"

definition converge_task :: "task \<Rightarrow> execution list \<Rightarrow> instant \<Rightarrow> task \<times> bool" where
  "converge_task t executions now =
     (if t_status t \<noteq> TASK_QUEUED then (t, False)
      else (let started = filter (\<lambda>e. x_status e \<noteq> EXEC_PENDING) executions in
        if started = [] then (t, False)
        else (let t = t\<lparr>t_status := TASK_RUNNING\<rparr> in
          (if t_started_at t = None
             then t\<lparr>t_started_at := first_some (min_option (List.map_filter x_started_at started)) (Some now)\<rparr>
             else t, True))))"

definition create_execution :: "db \<Rightarrow> task \<Rightarrow> node \<Rightarrow> instant \<Rightarrow> db \<times> execution" where
  "create_execution d t n now =
     (let (k, d) = new_id d;
          x = \<lparr>x_id = k, x_task_id = t_id t, x_agent_id = nd_agent_id n, x_node_id = Some (nd_id n),
               x_endpoint = Some (nd_endpoint n), x_remote_job_id = None, x_status = EXEC_PENDING,
               x_started_at = None, x_finished_at = None, x_exit_code = None, x_error_code = None,
               x_error_detail = [], x_error_count = None, x_finish_reason = None,
               x_log_bytes = None, x_outcome_class = None, x_reconciled_from = None,
               x_lost_reason = None, x_last_event_at = None, x_stalled_at = None,
               x_last_progress_at = None, x_last_progress_sample_at = None,
               x_no_progress_at = None, x_created_at = now\<rparr>
      in (d\<lparr>db_executions := db_executions d @ [x]\<rparr>, x))"

definition runtime_context_for :: "task \<Rightarrow> execution \<Rightarrow> string \<Rightarrow> string \<Rightarrow> obj" where
  "runtime_context_for t x artifact_type task_type =
     [(''task_id'', JStr (t_id t)), (''execution_id'', JStr (x_id x)),
      (''agent_id'', JStr (or_default (x_agent_id x) [])), (''artifact_type'', JStr artifact_type),
      (''task_type'', JStr task_type), (''source'', JStr (task_source_value (t_source t))),
      (''execution_template_id'', jstr (t_execution_template_id t)),
      (''schedule_id'', jstr (t_schedule_id t))]"

fun log_stream_value :: "log_stream \<Rightarrow> string" where
  "log_stream_value Stream_log = ''log''"
| "log_stream_value Stream_stdout = ''stdout''"
| "log_stream_value Stream_stderr = ''stderr''"
| "log_stream_value Stream_system = ''system''"

definition log_path :: "string \<Rightarrow> instant \<Rightarrow> string \<Rightarrow> string \<Rightarrow> log_stream \<Rightarrow> string" where
  "log_path root at task_id execution_id stream =
     (let name = (if stream = Stream_log then execution_id @ ''.log''
                  else execution_id @ ''.'' @ log_stream_value stream @ ''.log'')
      in join_with ''/'' [root, pad 4 (year_of at), pad 2 (month_of at), task_id, name])"

definition create_log_file :: "db \<Rightarrow> settings \<Rightarrow> task \<Rightarrow> execution \<Rightarrow> log_stream \<Rightarrow> instant \<Rightarrow> db \<times> log_file" where
  "create_log_file d cfg t x stream now =
     (let path = log_path (root_dir (cfg_logs cfg)) now (t_id t) (x_id x) stream;
          lf = \<lparr>lf_task_id = t_id t, lf_execution_id = x_id x, lf_stream = stream,
                lf_storage_path = path, lf_size_bytes = 0, lf_last_pulled_offset = 0,
                lf_final_offset = None, lf_status = LOG_ACTIVE,
                lf_log_integrity = INTEGRITY_COMPLETE, lf_truncation_reason = None,
                lf_gap_count = 0, lf_first_gap_expected_offset = None,
                lf_first_gap_actual_offset = None, lf_started_at = Some now,
                lf_finished_at = None, lf_retained_until = None\<rparr>
      in (d\<lparr>db_log_files := db_log_files d @ [lf]\<rparr>, lf))"

section \<open>Queries\<close>

definition list_executions :: "db \<Rightarrow> string \<Rightarrow> execution list" where
  "list_executions d task_id =
     sort_key x_created_at (filter (\<lambda>x. x_task_id x = task_id) (db_executions d))"

definition newest_tasks :: "task list \<Rightarrow> task list" where
  \<comment> \<open>\<open>ORDER BY created_at DESC\<close>\<close>
  "newest_tasks ts = rev (sort_key t_created_at ts)"

definition list_tasks :: "db \<Rightarrow> nat \<Rightarrow> task list" where
  "list_tasks d limit = take limit (newest_tasks (db_tasks d))"

definition get_task_or_404 :: "db \<Rightarrow> string \<Rightarrow> api_error + task" where
  "get_task_or_404 d task_id =
     (case find_task d task_id of Some t \<Rightarrow> Inr t
      | None \<Rightarrow> Inl (ApiError 404 ''task.not_found'' ''errors.taskNotFound''
          [(''task_id'', JStr task_id)]))"

definition like_contains :: "string \<Rightarrow> string" where
  \<comment> \<open>the three successive \<open>replace\<close> calls act on one character at a time\<close>
  "like_contains value =
     ''%'' @ concat (map (\<lambda>c. if c \<in> {BS, CHR ''%'', CHR ''_''} then [BS, c] else [c]) value) @ ''%''"

fun sql_like :: "string \<Rightarrow> string \<Rightarrow> bool" where
  \<comment> \<open>SQL \<open>s LIKE p\<close> with the backslash as escape character; the pattern comes first\<close>
  "sql_like [] s = (s = [])"
| "sql_like (p # ps) s =
     (if p = CHR ''%'' then list_ex (\<lambda>n. sql_like ps (drop n s)) [0..<Suc (length s)]
      else case s of [] \<Rightarrow> False
        | c # cs \<Rightarrow>
          if p = CHR 0x5C then (case ps of [] \<Rightarrow> False | q # qs \<Rightarrow> q = c \<and> sql_like qs cs)
          else (p = CHR ''_'' \<or> p = c) \<and> sql_like ps cs)"

definition ilike :: "string \<Rightarrow> string \<Rightarrow> bool" where
  "ilike s p = sql_like (lower p) (lower s)"

definition task_build_artifact_id :: "task \<Rightarrow> string option" where
  \<comment> \<open>the SQL expression \<open>template_snapshot['build_artifact']['id']\<close> as text\<close>
  "task_build_artifact_id t =
     (case as_dict (t_template_snapshot t) of None \<Rightarrow> None
      | Some snap \<Rightarrow> (case as_dict (obj_get snap ''build_artifact'') of None \<Rightarrow> None
          | Some a \<Rightarrow> json_str (obj_get a ''id'')))"

record task_filter =
  f_spider :: "string option"
  f_build_artifact_id :: "string option"
  f_status :: "string option"
  f_schedule_id :: "string option"
  f_target_query :: "string option"

definition task_matches :: "task_filter \<Rightarrow> task \<Rightarrow> bool" where
  "task_matches f t =
     (let target_query = py_strip (or_default (f_target_query f) []) in
      (truthy_str (f_build_artifact_id f) \<longrightarrow> task_build_artifact_id t = f_build_artifact_id f)
      \<and> (truthy_str (f_spider f) \<longrightarrow> t_spider t = f_spider f)
      \<and> (truthy_str (f_status f) \<longrightarrow> Some (task_status_value (t_status t)) = f_status f)
      \<and> (truthy_str (f_schedule_id f) \<longrightarrow> t_schedule_id t = f_schedule_id f)
      \<and> (target_query \<noteq> [] \<longrightarrow> ilike (t_target t) (like_contains target_query)))"

definition list_tasks_page :: "db \<Rightarrow> nat \<Rightarrow> nat \<Rightarrow> task_filter \<Rightarrow> task list \<times> nat" where
  "list_tasks_page d page page_size f =
     (let base = filter (task_matches f) (db_tasks d)
      in (take page_size (drop ((page - 1) * page_size) (newest_tasks base)), length base))"

definition child_execution_counts :: "db \<Rightarrow> string list \<Rightarrow> (string \<times> nat) list" where
  "child_execution_counts d task_ids =
     fold (\<lambda>tid. AList.update tid (length (filter (\<lambda>x. x_task_id x = tid) (db_executions d))))
       task_ids []"

definition list_task_spiders :: "db \<Rightarrow> string list" where
  "list_task_spiders d =
     sort (remdups (filter (\<lambda>s. s \<noteq> []) (List.map_filter t_spider (db_tasks d))))"

definition get_log_file :: "db \<Rightarrow> string \<Rightarrow> string \<Rightarrow> log_stream \<Rightarrow> log_file option" where
  "get_log_file d task_id execution_id stream = find_log d (task_id, execution_id, stream)"

definition primary_execution :: "execution list \<Rightarrow> execution option" where
  "primary_execution executions = (case executions of [] \<Rightarrow> None | x # _ \<Rightarrow> Some x)"

definition resolve_execution :: "db \<Rightarrow> string \<Rightarrow> string option \<Rightarrow> api_error + execution" where
  "resolve_execution d task_id execution_id =
     (let executions = list_executions d task_id;
          not_found = (\<lambda>detail. Inl (ApiError 404 ''task.execution_not_found''
            ''errors.executionNotFound'' detail))
      in if truthy_str execution_id then
           (case find (\<lambda>e. Some (x_id e) = execution_id) executions of
              Some e \<Rightarrow> Inr e
            | None \<Rightarrow> not_found [(''task_id'', JStr task_id), (''execution_id'', jstr execution_id)])
         else (case primary_execution executions of
              Some e \<Rightarrow> Inr e
            | None \<Rightarrow> not_found [(''task_id'', JStr task_id)]))"

section \<open>Build-artifact descriptors and views\<close>

definition first_truthy :: "json list \<Rightarrow> json" where
  \<comment> \<open>\<open>a or b or .. or z\<close>\<close>
  "first_truthy vs = (case find truthy vs of Some v \<Rightarrow> v | None \<Rightarrow> (if vs = [] then JNull else last vs))"

definition build_artifact_label :: "json \<Rightarrow> json \<Rightarrow> json \<Rightarrow> json \<Rightarrow> string \<Rightarrow> string" where
  "build_artifact_label name version distribution project artifact_id =
     (let base = first_truthy [name, distribution, project, JStr artifact_id]
      in if truthy version then py_str base @ '' ('' @ py_str version @ '')'' else py_str base)"

definition build_artifact_option :: "string \<Rightarrow> json \<Rightarrow> json \<Rightarrow> json \<Rightarrow> json \<Rightarrow> json \<Rightarrow> obj" where
  "build_artifact_option artifact_id name artifact_type version distribution project =
     [(''id'', JStr artifact_id), (''name'', name), (''artifact_type'', artifact_type),
      (''version'', version), (''distribution'', distribution), (''project'', project),
      (''label'', JStr (build_artifact_label name version distribution project artifact_id))]"

definition snapshot_artifact :: "task \<Rightarrow> obj" where
  \<comment> \<open>\<open>(task.template_snapshot or {}).get("build_artifact") or {}\<close>\<close>
  "snapshot_artifact t =
     (case as_dict (t_template_snapshot t) of None \<Rightarrow> []
      | Some snap \<Rightarrow> (case as_dict (obj_get snap ''build_artifact'') of None \<Rightarrow> [] | Some a \<Rightarrow> a))"

definition task_build_artifact :: "task \<Rightarrow> obj option" where
  "task_build_artifact t =
     (let ba = snapshot_artifact t; artifact_id = obj_get ba ''id''
      in if \<not> truthy artifact_id then None
         else Some (build_artifact_option (py_str artifact_id) (obj_get ba ''name'')
           (obj_get ba ''artifact_type'') (obj_get ba ''version'') (obj_get ba ''distribution'')
           (obj_get ba ''project'')))"

definition execution_view :: "execution \<Rightarrow> obj" where
  "execution_view x =
     [(''id'', JStr (x_id x)), (''task_id'', JStr (x_task_id x)), (''agent_id'', jstr (x_agent_id x)),
      (''node_id'', jstr (x_node_id x)), (''endpoint'', jstr (x_endpoint x)),
      (''remote_job_id'', jstr (x_remote_job_id x)),
      (''status'', JStr (exec_status_value (x_status x))), (''started_at'', iso (x_started_at x)),
      (''finished_at'', iso (x_finished_at x)), (''exit_code'', jint (x_exit_code x)),
      (''error_code'', jstr (x_error_code x)), (''error_detail'', JObj (x_error_detail x))]"

definition task_view :: "task \<Rightarrow> execution list \<Rightarrow> obj" where
  "task_view t executions =
     [(''id'', JStr (t_id t)), (''artifact_type'', JStr (t_artifact_type t)),
      (''target'', JStr (t_target t)), (''status'', JStr (task_status_value (t_status t))),
      (''status_reason'', jstr (t_status_reason t)), (''status_detail'', JObj (t_status_detail t)),
      (''node_strategy'', JStr (t_node_strategy t)), (''params'', JObj (t_params t)),
      (''build_artifact'', JObj (snapshot_artifact t)),
      (''source'', JStr (task_source_value (t_source t))),
      (''execution_template_id'', jstr (t_execution_template_id t)),
      (''schedule_id'', jstr (t_schedule_id t)), (''created_at'', iso (Some (t_created_at t))),
      (''started_at'', iso (t_started_at t)), (''finished_at'', iso (t_finished_at t)),
      (''executions'', JList (map (\<lambda>e. JObj (execution_view e)) executions))]"

definition task_summary :: "task \<Rightarrow> nat \<Rightarrow> obj" where
  "task_summary t execution_count =
     [(''id'', JStr (t_id t)), (''artifact_type'', JStr (t_artifact_type t)),
      (''target'', JStr (t_target t)), (''spider'', jstr (t_spider t)),
      (''build_artifact'', (case task_build_artifact t of None \<Rightarrow> JNull | Some a \<Rightarrow> JObj a)),
      (''status'', JStr (task_status_value (t_status t))), (''status_reason'', jstr (t_status_reason t)),
      (''node_strategy'', JStr (t_node_strategy t)), (''source'', JStr (task_source_value (t_source t))),
      (''execution_template_id'', jstr (t_execution_template_id t)),
      (''schedule_id'', jstr (t_schedule_id t)), (''created_at'', iso (Some (t_created_at t))),
      (''started_at'', iso (t_started_at t)), (''finished_at'', iso (t_finished_at t)),
      (''execution_count'', JInt (int execution_count))]"

section \<open>How operations may change executions and tasks\<close>

text \<open>
  Every writer of the server has to move executions and tasks along their state machines. For
  executions the allowed moves are already transitive; for tasks the order is the reflexive
  transitive closure, because one operation may take two edges (queued, running, complete).
\<close>

definition task_order :: "task_status \<Rightarrow> task_status \<Rightarrow> bool" where
  "task_order = is_valid_task_transition\<^sup>*\<^sup>*"

definition exec_order :: "execution \<Rightarrow> execution \<Rightarrow> bool" where
  "exec_order x x' \<longleftrightarrow> is_valid_execution_transition (x_status x) (x_status x')
     \<and> x_task_id x' = x_task_id x"

definition moves :: "db \<Rightarrow> db \<Rightarrow> bool" where
  "moves d d' \<longleftrightarrow>
     (\<forall>k x. find_execution d k = Some x \<longrightarrow>
        (\<exists>x'. find_execution d' k = Some x' \<and> exec_order x x'))
     \<and> (\<forall>k t. find_task d k = Some t \<longrightarrow>
        (\<exists>t'. find_task d' k = Some t' \<and> task_order (t_status t) (t_status t')
           \<and> t_schedule_id t' = t_schedule_id t))"

lemma exec_transition_trans:
  "is_valid_execution_transition a b \<Longrightarrow> is_valid_execution_transition b c
    \<Longrightarrow> is_valid_execution_transition a c"
  by (cases a; cases b; cases c)
    (simp_all add: is_valid_execution_transition_def EXEC_TERMINAL_def)

lemma task_order_refl [simp]: "task_order a a"
  by (simp add: task_order_def)

lemma task_order_valid: "is_valid_task_transition a b \<Longrightarrow> task_order a b"
  by (simp add: task_order_def r_into_rtranclp)

lemma task_order_trans: "task_order a b \<Longrightarrow> task_order b c \<Longrightarrow> task_order a c"
  unfolding task_order_def by (rule rtranclp_trans)

lemma task_order_hard: "task_order a b \<Longrightarrow> task_hard a \<Longrightarrow> b = a"
  unfolding task_order_def by (rule task_sm.hard_chain)

lemma valid_never_leaves_terminal:
  "is_valid_task_transition a b \<Longrightarrow> a \<in> TASK_TERMINAL \<Longrightarrow> b \<in> TASK_TERMINAL"
  by (cases a; cases b) (simp_all add: is_valid_task_transition_def TASK_TERMINAL_def)

lemma task_order_terminal: "task_order a b \<Longrightarrow> a \<in> TASK_TERMINAL \<Longrightarrow> b \<in> TASK_TERMINAL"
  unfolding task_order_def
  by (induction rule: rtranclp_induct) (auto intro: valid_never_leaves_terminal)

lemma task_active_order: "a \<in> TASK_ACTIVE \<Longrightarrow> b \<in> {TASK_FAILED, TASK_CANCELED, TASK_LOST} \<Longrightarrow> task_order a b"
  by (rule task_order_valid)
    (cases a; auto simp: is_valid_task_transition_def TASK_ACTIVE_def TASK_TERMINAL_def)

lemma exec_order_refl [simp]: "exec_order x x"
  by (simp add: exec_order_def exec_sm.valid_refl)

lemma exec_order_trans: "exec_order x y \<Longrightarrow> exec_order y z \<Longrightarrow> exec_order x z"
  by (auto simp: exec_order_def intro: exec_transition_trans)

lemma moves_executionD:
  "moves d d' \<Longrightarrow> find_execution d k = Some x \<Longrightarrow> \<exists>x'. find_execution d' k = Some x' \<and> exec_order x x'"
  by (simp add: moves_def)

lemma moves_taskD:
  "moves d d' \<Longrightarrow> find_task d k = Some t
    \<Longrightarrow> \<exists>t'. find_task d' k = Some t' \<and> task_order (t_status t) (t_status t') \<and> t_schedule_id t' = t_schedule_id t"
  by (simp add: moves_def)

lemma moves_refl [simp]: "moves d d"
  by (simp add: moves_def)

lemma moves_trans:
  assumes "moves d e" and "moves e f"
  shows "moves d f"
proof -
  have "\<exists>x''. find_execution f k = Some x'' \<and> exec_order x x''" if f: "find_execution d k = Some x" for k x
    using moves_executionD [OF assms(1) f] moves_executionD [OF assms(2)] by (blast intro: exec_order_trans)
  moreover have "\<exists>t''. find_task f k = Some t'' \<and> task_order (t_status t) (t_status t'') \<and> t_schedule_id t'' = t_schedule_id t"
    if f: "find_task d k = Some t" for k t
  proof -
    obtain u where u: "find_task e k = Some u" "task_order (t_status t) (t_status u)" "t_schedule_id u = t_schedule_id t"
      using moves_taskD [OF assms(1) f] by blast
    with moves_taskD [OF assms(2) u(1)] show ?thesis by (auto intro: task_order_trans)
  qed
  ultimately show ?thesis unfolding moves_def [of d f] by blast
qed

lemma moves_same_tables:
  "db_tasks d' = db_tasks d \<Longrightarrow> db_executions d' = db_executions d \<Longrightarrow> moves d d'"
  by (simp add: moves_def find_task_def find_execution_def)

lemma moves_save_execution:
  assumes "find_execution d (x_id x) = Some x0" and "exec_order x0 x"
  shows "moves d (save_execution d x)"
  using assms by (simp add: moves_def executions.lookup_update)

lemma moves_save_task:
  assumes "find_task d (t_id t) = Some t0" and "task_order (t_status t0) (t_status t)"
    and "t_schedule_id t = t_schedule_id t0"
  shows "moves d (save_task d t)"
  using assms by (simp add: moves_def tasks.lookup_update)

lemma moves_append:
  "db_tasks d' = db_tasks d @ ts \<Longrightarrow> db_executions d' = db_executions d @ xs \<Longrightarrow> moves d d'"
  by (simp add: moves_def find_task_def find_execution_def find_row_append)

lemma moves_fold:
  "(\<And>a d. a \<in> set as \<Longrightarrow> moves d (f a d)) \<Longrightarrow> moves d (fold f as d)"
proof (induction as arbitrary: d)
  case (Cons a as)
  have "moves d (f a d)" by (rule Cons.prems) simp
  moreover have "moves (f a d) (fold f as (f a d))" by (rule Cons.IH) (rule Cons.prems, simp)
  ultimately show ?case by (simp add: moves_trans)
qed simp

section \<open>Facts about orchestration\<close>

lemma converge_task_frame [simp]: "t_id (fst (converge_task t xs now)) = t_id t"
  by (simp add: converge_task_def Let_def)

lemma converge_task_order: "task_order (t_status t) (t_status (fst (converge_task t xs now)))"
  by (auto simp: converge_task_def Let_def is_valid_task_transition_def TASK_TERMINAL_def
      intro!: task_order_valid)

lemma converge_task_status:
  "t_status (fst (converge_task t xs now)) =
     (if t_status t = TASK_QUEUED \<and> (\<exists>x \<in> set xs. x_status x \<noteq> EXEC_PENDING) then TASK_RUNNING
      else t_status t)"
  by (auto simp: converge_task_def Let_def filter_empty_conv)

lemma converge_task_other [simp]:
  "t_outcome_recorded_at (fst (converge_task t xs now)) = t_outcome_recorded_at t"
  "t_finished_at (fst (converge_task t xs now)) = t_finished_at t"
  "t_schedule_id (fst (converge_task t xs now)) = t_schedule_id t"
  by (simp_all add: converge_task_def Let_def)

text \<open>After convergence any roll-up is an edge of the state machine.\<close>

lemma converged_rollup_valid:
  assumes "rollup_task_status (map x_status xs) = Some s"
    and "t_status t \<in> TASK_ACTIVE"
  shows "is_valid_task_transition (t_status (fst (converge_task t xs now))) s"
proof -
  have "\<forall>x \<in> set xs. x_status x \<in> EXEC_TERMINAL" "xs \<noteq> []"
    using assms(1) by (auto simp: rollup_task_status_def list_all_iff split: if_splits)
  then have "\<exists>x \<in> set xs. x_status x \<noteq> EXEC_PENDING"
    by (cases xs) (auto simp: EXEC_TERMINAL_def)
  with assms(2) have "t_status (fst (converge_task t xs now)) \<in> {TASK_RUNNING, TASK_FINALIZING}"
    by (auto simp: converge_task_status TASK_ACTIVE_def)
  then show ?thesis by (intro rollup_valid_from [OF assms(1)]) auto
qed

lemma list_executions_mem:
  "x \<in> set (list_executions d k) \<longleftrightarrow> x \<in> set (db_executions d) \<and> x_task_id x = k"
  by (auto simp: list_executions_def)

lemma list_executions_find:
  "keys_unique d \<Longrightarrow> x \<in> set (list_executions d k) \<longleftrightarrow>
     find_execution d (x_id x) = Some x \<and> x_task_id x = k"
  by (auto simp: list_executions_mem find_execution_def keys_unique_def
      intro: find_row_distinct dest: find_row_mem)

lemma list_executions_frame [simp]:
  "list_executions (save_task d t) k = list_executions d k"
  "list_executions (save_log d l) k = list_executions d k"
  by (simp_all add: list_executions_def)

section \<open>The target search\<close>

definition like_special :: "char \<Rightarrow> bool" where
  "like_special c = (c = BS \<or> c = CHR ''%'' \<or> c = CHR ''_'')"

definition like_escape :: "string \<Rightarrow> string" where
  "like_escape q = concat (map (\<lambda>c. if like_special c then [BS, c] else [c]) q)"

lemma lower_char_special: "like_special (lower_char c) = like_special c"
  and lower_char_fixes: "like_special c \<Longrightarrow> lower_char c = c"
proof -
  have "\<not> like_special (char_of (ord_of c + 32))" "\<not> like_special c"
    if "65 \<le> ord_of c" "ord_of c \<le> 90"
  proof -
    have "ord_of c \<in> set [65..<91]" using that by (simp only: set_upt atLeastLessThan_iff) simp
    moreover have "\<forall>n \<in> set [65..<91]. \<not> like_special (char_of (n + 32)) \<and> \<not> like_special (char_of n)"
      by code_simp
    moreover have "char_of (ord_of c) = c" by (simp add: ord_of_def)
    ultimately show "\<not> like_special (char_of (ord_of c + 32))" "\<not> like_special c" by metis+
  qed
  then show "like_special (lower_char c) = like_special c" and "like_special c \<Longrightarrow> lower_char c = c"
    by (auto simp: lower_char_def)
qed

lemma lower_like_contains: "lower (like_contains q) = ''%'' @ like_escape (lower q) @ ''%''"
proof -
  have "lower (concat (map (\<lambda>c. if like_special c then [BS, c] else [c]) q)) = like_escape (lower q)"
  proof (induction q)
    case (Cons c q)
    then show ?case
      by (auto simp: lower_def like_escape_def lower_char_special lower_char_fixes)
        (simp add: lower_char_fixes like_special_def)
  qed (simp add: lower_def like_escape_def)
  moreover have "lower ''%'' = ''%''" by code_simp
  ultimately show ?thesis
    by (simp add: like_contains_def like_special_def lower_def)
qed

lemma sql_like_escape: "sql_like (like_escape q @ ''%'') s \<longleftrightarrow> (\<exists>b. s = q @ b)"
proof (induction q arbitrary: s)
  case Nil
  have "list_ex (\<lambda>n. sql_like [] (drop n s)) [0..<Suc (length s)]"
    by (auto simp: list_ex_iff intro!: bexI [of _ "length s"])
  then show ?case by (simp add: like_escape_def)
next
  case (Cons c q)
  show ?case
  proof (cases s)
    case Nil
    then show ?thesis
      by (cases "like_special c") (auto simp: like_escape_def like_special_def BS_def)
  next
    case (Cons c' cs)
    with Cons.IH [of cs] show ?thesis
      by (cases "like_special c")
        (auto simp: like_escape_def like_special_def BS_def)
  qed
qed

text \<open>The target filter is a literal, case-insensitive substring search: the wildcards and the
  escape character of the query lose their meaning.
\<close>

theorem target_search_is_substring:
  "ilike s (like_contains q) \<longleftrightarrow> (\<exists>a b. lower s = a @ lower q @ b)"
proof -
  have "ilike s (like_contains q) \<longleftrightarrow>
      (\<exists>n \<in> set [0..<Suc (length (lower s))]. \<exists>b. drop n (lower s) = lower q @ b)"
    by (simp add: ilike_def lower_like_contains list_ex_iff sql_like_escape del: upt_Suc)
  also have "\<dots> \<longleftrightarrow> (\<exists>a b. lower s = a @ lower q @ b)"
  proof
    assume "\<exists>n \<in> set [0..<Suc (length (lower s))]. \<exists>b. drop n (lower s) = lower q @ b"
    then show "\<exists>a b. lower s = a @ lower q @ b" by (metis append_take_drop_id)
  next
    assume "\<exists>a b. lower s = a @ lower q @ b"
    then obtain a b where "lower s = a @ lower q @ b" by blast
    then show "\<exists>n \<in> set [0..<Suc (length (lower s))]. \<exists>b. drop n (lower s) = lower q @ b"
      by (intro bexI [of _ "length a"] exI [of _ b]) simp_all
  qed
  finally show ?thesis .
qed

text \<open>Convergence: a queued task with an execution past \<open>pending\<close> becomes running, with the
  earliest known start of those executions as \<open>started_at\<close>; every other task is untouched, and
  then each roll-up of its executions is an edge of the task state machine.
\<close>

theorem converge_enables_rollup:
  "(t_status t \<noteq> TASK_QUEUED \<or> (\<forall>x \<in> set xs. x_status x = EXEC_PENDING) \<longrightarrow>
      converge_task t xs now = (t, False))
   \<and> (t_status t = TASK_QUEUED \<and> (\<exists>x \<in> set xs. x_status x \<noteq> EXEC_PENDING) \<longrightarrow>
      t_status (fst (converge_task t xs now)) = TASK_RUNNING \<and> snd (converge_task t xs now)
      \<and> (t_started_at t = None \<longrightarrow> (\<forall>x \<in> set xs. \<forall>u. x_status x \<noteq> EXEC_PENDING \<and> x_started_at x = Some u
          \<longrightarrow> (\<exists>v. t_started_at (fst (converge_task t xs now)) = Some v \<and> v \<le> u))))
   \<and> (t_status t \<in> TASK_ACTIVE \<longrightarrow>
      (\<forall>s. rollup_task_status (map x_status xs) = Some s \<longrightarrow>
         is_valid_task_transition (t_status (fst (converge_task t xs now))) s))"
proof (intro conjI impI)
  assume "t_status t = TASK_QUEUED \<and> (\<exists>x \<in> set xs. x_status x \<noteq> EXEC_PENDING)"
  then show "t_status (fst (converge_task t xs now)) = TASK_RUNNING"
    and "snd (converge_task t xs now)"
    by (auto simp: converge_task_def Let_def filter_empty_conv)
next
  assume q: "t_status t = TASK_QUEUED \<and> (\<exists>x \<in> set xs. x_status x \<noteq> EXEC_PENDING)"
    and n: "t_started_at t = None"
  show "\<forall>x \<in> set xs. \<forall>u. x_status x \<noteq> EXEC_PENDING \<and> x_started_at x = Some u
      \<longrightarrow> (\<exists>v. t_started_at (fst (converge_task t xs now)) = Some v \<and> v \<le> u)"
  proof (intro ballI allI impI)
    fix x u assume x: "x \<in> set xs" "x_status x \<noteq> EXEC_PENDING \<and> x_started_at x = Some u"
    let ?known = "List.map_filter x_started_at (filter (\<lambda>e. x_status e \<noteq> EXEC_PENDING) xs)"
    have "u \<in> set ?known" using x by (force simp: map_filter_def)
    then have "min_option ?known = Some (Min (set ?known))" "Min (set ?known) \<le> u"
      by (auto simp: min_option_def)
    with q n show "\<exists>v. t_started_at (fst (converge_task t xs now)) = Some v \<and> v \<le> u"
      by (auto simp: converge_task_def Let_def filter_empty_conv)
  qed
next
  assume "t_status t \<in> TASK_ACTIVE"
  then show "\<forall>s. rollup_task_status (map x_status xs) = Some s \<longrightarrow>
      is_valid_task_transition (t_status (fst (converge_task t xs now))) s"
    by (blast intro: converged_rollup_valid)
qed (auto simp: converge_task_def Let_def filter_empty_conv)

theorem converge_enables_rollup_witness:
  "converge_task sample_task [sample_execution] 7 = (sample_task, False)
   \<and> is_valid_task_transition (t_status (fst (converge_task sample_task
        [sample_execution\<lparr>x_status := EXEC_FINISHED\<rparr>] 7))) TASK_COMPLETE"
  using converge_enables_rollup [of sample_task "[sample_execution]" 7]
    converge_enables_rollup [of sample_task "[sample_execution\<lparr>x_status := EXEC_FINISHED\<rparr>]" 7]
  by (simp add: TASK_ACTIVE_def rollup_task_status_def EXEC_TERMINAL_def
      is_valid_task_transition_def TASK_TERMINAL_def)

end
