(* ===== verification/LogFiles.thy ===== *)
theory LogFiles
  imports Executions
begin

text \<open>
  The server's log bodies on disk (\<^verbatim>\<open>apps/server/dopilot_server/logs/files.py\<close>), the byte gauge
  of their directory (\<^verbatim>\<open>logs/dir_gauge.py\<close>) and the fan-out to open log windows
  (\<^verbatim>\<open>logs/sse.py\<close>).

  A body store maps paths to bytes. The async wrappers only move a call to a thread; a call is one step, so
  the two looks of \<open>tail_screen\<close> at a file (its size, then its bytes) see the same file. A text is
  the bytes that encode it.
\<close>

section \<open>Body files\<close>

type_synonym bodies = "(string \<times> string) list"

definition body :: "bodies \<Rightarrow> string \<Rightarrow> string" where
  "body fs path = or_default (map_of fs path) []"

definition body_size :: "bodies \<Rightarrow> string \<Rightarrow> int" where
  \<comment> \<open>\<open>size\<close>: 0 for a missing file\<close>
  "body_size fs path = int (length (body fs path))"

definition append_bytes :: "bodies \<Rightarrow> string \<Rightarrow> string \<Rightarrow> bodies" where
  "append_bytes fs path data = (if data = [] then fs else AList.update path (body fs path @ data) fs)"

definition append_body :: "bodies \<Rightarrow> string \<Rightarrow> string \<Rightarrow> bodies \<times> int" where
  "append_body fs path data =
     (if data = [] then (fs, body_size fs path)
      else (let fs = append_bytes fs path data in (fs, body_size fs path)))"

definition write_increment :: "bodies \<Rightarrow> string \<Rightarrow> int \<Rightarrow> string \<Rightarrow> (bodies \<times> int) option" where
  \<comment> \<open>\<open>None\<close>: \<open>LogGapError\<close>\<close>
  "write_increment fs path start_offset data =
     (if data = [] then Some (fs, body_size fs path)
      else (let cur = body_size fs path; end = start_offset + int (length data)
        in if cur \<ge> end then Some (fs, cur)
           else if cur < start_offset then None
           else Some (append_bytes fs path (drop (nat (cur - start_offset)) data), end)))"

definition remove_body :: "bodies \<Rightarrow> string \<Rightarrow> bodies \<times> bool" where
  "remove_body fs path = (AList.delete path fs, map_of fs path \<noteq> None)"

subsection \<open>Decoding for display\<close>

definition utf8_lead :: "nat \<Rightarrow> (nat \<times> nat \<times> nat) option" where
  \<comment> \<open>how many bytes continue a leading byte, and the range of the first of them\<close>
  "utf8_lead b =
     (if b < 0x80 then Some (0, 0x80, 0xBF)
      else if 0xC2 \<le> b \<and> b \<le> 0xDF then Some (1, 0x80, 0xBF)
      else if b = 0xE0 then Some (2, 0xA0, 0xBF)
      else if b = 0xED then Some (2, 0x80, 0x9F)
      else if 0xE1 \<le> b \<and> b \<le> 0xEF then Some (2, 0x80, 0xBF)
      else if b = 0xF0 then Some (3, 0x90, 0xBF)
      else if 0xF1 \<le> b \<and> b \<le> 0xF3 then Some (3, 0x80, 0xBF)
      else if b = 0xF4 then Some (3, 0x80, 0x8F)
      else None)"

fun continuation :: "nat \<Rightarrow> nat \<Rightarrow> nat \<Rightarrow> string \<Rightarrow> nat" where
  \<comment> \<open>how many of the \<open>n\<close> bytes wanted are there\<close>
  "continuation (Suc n) lo hi (b # bs) =
     (if lo \<le> of_char b \<and> of_char b \<le> hi then Suc (continuation n 0x80 0xBF bs) else 0)"
| "continuation n lo hi bs = 0"

definition REPLACEMENT :: string where
  \<comment> \<open>U+FFFD\<close>
  "REPLACEMENT = [CHR 0xEF, CHR 0xBF, CHR 0xBD]"

function decode_replace :: "string \<Rightarrow> string" where
  \<comment> \<open>\<open>decode("utf-8", errors="replace")\<close>\<close>
  "decode_replace [] = []"
| "decode_replace (b # bs) =
     (case utf8_lead (of_char b) of
        None \<Rightarrow> REPLACEMENT @ decode_replace bs
      | Some (n, lo, hi) \<Rightarrow>
         (let k = continuation n lo hi bs
          in (if k = n then b # take k bs else REPLACEMENT) @ decode_replace (drop k bs)))"
  by pat_completeness auto
termination
  by (relation "measure length") auto

declare decode_replace.simps(2) [simp del]

definition slice_bytes :: "bodies \<Rightarrow> string \<Rightarrow> int \<Rightarrow> int \<Rightarrow> int \<times> int \<times> string" where
  \<comment> \<open>\<open>read_slice\<close> before the decoding\<close>
  "slice_bytes fs path offset max_bytes =
     (case map_of fs path of None \<Rightarrow> (offset, offset, [])
      | Some c \<Rightarrow>
         (let start = min (max offset 0) (int (length c));
              chunk = take (nat (max 0 max_bytes)) (drop (nat start) c)
          in (start, start + int (length chunk), chunk)))"

definition read_slice :: "bodies \<Rightarrow> string \<Rightarrow> int \<Rightarrow> int \<Rightarrow> int \<times> int \<times> string" where
  "read_slice fs path offset max_bytes =
     (case slice_bytes fs path offset max_bytes of (s, e, chunk) \<Rightarrow> (s, e, decode_replace chunk))"

fun split_nl :: "string \<Rightarrow> string list" where
  \<comment> \<open>\<open>chunk.split(b"\n")\<close>: never empty\<close>
  "split_nl [] = [[]]"
| "split_nl (c # s) = (if c = CHR 0x0A then [] # split_nl s
     else (case split_nl s of [] \<Rightarrow> [[c]] | l # ls \<Rightarrow> (c # l) # ls))"

definition tail_bytes :: "bodies \<Rightarrow> string \<Rightarrow> int \<Rightarrow> int \<Rightarrow> int \<times> int \<times> string" where
  \<comment> \<open>\<open>tail_screen\<close> before the decoding\<close>
  "tail_bytes fs path max_lines max_bytes =
     (let fsize = body_size fs path in
      if fsize = 0 then (0, 0, [])
      else (let byte_start = max 0 (fsize - max 0 max_bytes);
                chunk = drop (nat byte_start) (body fs path);
                lines = split_nl chunk;
                trailing_nl = (last lines = []);
                rows = (if trailing_nl then butlast lines else lines)
        in if max_lines > 0 \<and> int (length rows) > max_lines
           then (let trimmed = join_with [CHR 0x0A] (drop (length rows - nat max_lines) rows)
                       @ (if trailing_nl then [CHR 0x0A] else [])
             in (fsize - int (length trimmed), fsize, trimmed))
           else (byte_start, fsize, chunk)))"

definition tail_screen :: "bodies \<Rightarrow> string \<Rightarrow> int \<Rightarrow> int \<Rightarrow> int \<times> int \<times> string" where
  "tail_screen fs path max_lines max_bytes =
     (case tail_bytes fs path max_lines max_bytes of (s, e, chunk) \<Rightarrow> (s, e, decode_replace chunk))"

definition append_increment :: "bodies \<Rightarrow> string \<Rightarrow> string \<Rightarrow> string \<Rightarrow> bodies \<times> int \<times> int" where
  "append_increment fs path marker raw =
     (let physical_start = body_size fs path
      in (append_bytes fs path (marker @ raw), physical_start,
          physical_start + int (length marker) + int (length raw)))"

definition append_increment_capped ::
    "bodies \<Rightarrow> string \<Rightarrow> string \<Rightarrow> string \<Rightarrow> int \<Rightarrow> string \<Rightarrow> bodies \<times> int \<times> int \<times> bool" where
  "append_increment_capped fs path marker raw max_bytes trunc_marker =
     (let physical_start = body_size fs path; payload = marker @ raw; room = max_bytes - physical_start
      in if max_bytes \<le> 0 \<or> int (length payload) \<le> room
         then (append_bytes fs path payload, physical_start, physical_start + int (length payload), False)
         else (let to_write = take (nat (max 0 room)) payload @ trunc_marker
           in (append_bytes fs path to_write, physical_start, physical_start + int (length to_write), True)))"

section \<open>The directory gauge\<close>

record gauge =
  ga_budget :: int
  ga_value :: int
  ga_calibrated :: bool
  ga_calibrated_at :: "int option"

definition new_gauge :: "int \<Rightarrow> gauge" where
  "new_gauge budget =
     \<lparr>ga_budget = max 0 budget, ga_value = 0, ga_calibrated = False, ga_calibrated_at = None\<rparr>"

definition walk_size :: "bodies \<Rightarrow> int" where
  "walk_size fs = sum_list (map (\<lambda>(path, c). int (length c)) fs)"

definition gauge_fits :: "gauge \<Rightarrow> int \<Rightarrow> bool" where
  "gauge_fits g planned \<longleftrightarrow> ga_budget g \<le> 0 \<or> ga_value g + planned \<le> ga_budget g"

definition gauge_add :: "gauge \<Rightarrow> int \<Rightarrow> gauge" where
  "gauge_add g delta = g\<lparr>ga_value := max 0 (ga_value g + delta)\<rparr>"

definition gauge_sub :: "gauge \<Rightarrow> int \<Rightarrow> gauge" where
  "gauge_sub g released = gauge_add g (- released)"

definition gauge_calibrate :: "gauge \<Rightarrow> bodies \<Rightarrow> int option \<Rightarrow> gauge \<times> int" where
  "gauge_calibrate g fs now =
     (g\<lparr>ga_value := walk_size fs, ga_calibrated := True, ga_calibrated_at := now\<rparr>, walk_size fs)"

section \<open>Open log windows\<close>

datatype sse_item =
    Sse_log int int string
  | Sse_complete task_status \<comment> \<open>nothing in the program publishes one; \<open>stream_logs\<close> would forward it\<close>
  | CLOSE

record sse =
  ss_queues :: "(nat \<times> sse_item list) list" \<comment> \<open>every queue ever handed out\<close>
  ss_subs :: "(string \<times> nat list) list"
  ss_maxsize :: int

definition DEFAULT_QUEUE_MAXSIZE :: int where
  "DEFAULT_QUEUE_MAXSIZE = 1000"

definition new_sse :: "int \<Rightarrow> sse" where
  "new_sse queue_maxsize = \<lparr>ss_queues = [], ss_subs = [], ss_maxsize = queue_maxsize\<rparr>"

definition subs_of :: "sse \<Rightarrow> string \<Rightarrow> nat list" where
  "subs_of m execution_id = or_default (map_of (ss_subs m) execution_id) []"

definition queue_items :: "sse \<Rightarrow> nat \<Rightarrow> sse_item list" where
  "queue_items m q = or_default (map_of (ss_queues m) q) []"

definition set_queue :: "nat \<Rightarrow> sse_item list \<Rightarrow> sse \<Rightarrow> sse" where
  "set_queue q items m = m\<lparr>ss_queues := AList.update q items (ss_queues m)\<rparr>"

definition sse_subscribe :: "sse \<Rightarrow> string \<Rightarrow> sse \<times> nat" where
  "sse_subscribe m execution_id =
     (let q = length (ss_queues m)
      in ((set_queue q [] m)\<lparr>ss_subs := AList.update execution_id (subs_of m execution_id @ [q]) (ss_subs m)\<rparr>, q))"

definition sse_unsubscribe :: "string \<Rightarrow> nat \<Rightarrow> sse \<Rightarrow> sse" where
  "sse_unsubscribe execution_id q m =
     (let rest = removeAll q (subs_of m execution_id)
      in m\<lparr>ss_subs := (if rest = [] then AList.delete execution_id (ss_subs m)
           else AList.update execution_id rest (ss_subs m))\<rparr>)"

definition subscriber_count :: "sse \<Rightarrow> string \<Rightarrow> nat" where
  "subscriber_count m execution_id = length (subs_of m execution_id)"

definition hot_execution_ids :: "sse \<Rightarrow> string list" where
  "hot_execution_ids m = map fst (filter (\<lambda>(x, qs). qs \<noteq> []) (ss_subs m))"

definition queue_full :: "sse \<Rightarrow> nat \<Rightarrow> bool" where
  \<comment> \<open>a \<open>maxsize\<close> that is not positive means no bound\<close>
  "queue_full m q \<longleftrightarrow> ss_maxsize m > 0 \<and> int (length (queue_items m q)) \<ge> ss_maxsize m"

definition push_close :: "nat \<Rightarrow> sse \<Rightarrow> sse" where
  "push_close q m = set_queue q [CLOSE] m"

definition sse_overflow :: "string \<Rightarrow> nat \<Rightarrow> sse \<Rightarrow> sse" where
  "sse_overflow execution_id q m = sse_unsubscribe execution_id q (push_close q m)"

definition sse_put :: "string \<Rightarrow> sse_item \<Rightarrow> nat \<Rightarrow> sse \<Rightarrow> sse" where
  "sse_put execution_id ev q m =
     (if queue_full m q then sse_overflow execution_id q m else set_queue q (queue_items m q @ [ev]) m)"

definition sse_publish :: "string \<Rightarrow> sse_item \<Rightarrow> sse \<Rightarrow> sse" where
  "sse_publish execution_id ev m = fold (sse_put execution_id ev) (subs_of m execution_id) m"

definition sse_close :: "string \<Rightarrow> sse \<Rightarrow> sse" where
  "sse_close execution_id m = fold push_close (subs_of m execution_id) m"

section \<open>Facts\<close>

lemma decode_replace_empty [simp]: "decode_replace bs = [] \<longleftrightarrow> bs = []"
  by (cases bs) (auto simp: decode_replace.simps(2) REPLACEMENT_def Let_def split: option.split)

text \<open>A text that is all ASCII is shown as it is.\<close>

lemma decode_replace_ascii: "\<forall>b \<in> set bs. of_char b < (0x80 :: nat) \<Longrightarrow> decode_replace bs = bs"
proof (induction bs)
  case (Cons b bs)
  then show ?case by (simp add: decode_replace.simps(2) utf8_lead_def)
qed simp

lemma body_append [simp]:
  "body (append_bytes fs path data) p = (if p = path then body fs path @ data else body fs p)"
  by (simp add: append_bytes_def body_def or_default_def update_conv split: option.split)

lemma body_size_append [simp]:
  "body_size (append_bytes fs path data) p = body_size fs p + (if p = path then int (length data) else 0)"
  by (simp add: body_size_def)

lemma append_bytes_Nil [simp]: "append_bytes fs path [] = fs"
  by (simp add: append_bytes_def)

lemma body_size_nonneg [simp]: "0 \<le> body_size fs path"
  by (simp add: body_size_def)

lemma walk_size_update:
  "walk_size (AList.update path c fs) = walk_size fs - body_size fs path + int (length c)"
  by (induction fs) (auto simp: walk_size_def body_size_def body_def)

lemma walk_size_append [simp]: "walk_size (append_bytes fs path data) = walk_size fs + int (length data)"
  by (auto simp: append_bytes_def walk_size_update body_size_def)

lemma walk_size_nonneg [simp]: "0 \<le> walk_size fs"
  by (induction fs) (auto simp: walk_size_def)

lemma body_size_le_walk: "body_size fs path \<le> walk_size fs"
proof (induction fs)
  case (Cons f fs)
  then show ?case using walk_size_nonneg [of fs] by (cases f) (auto simp: walk_size_def body_size_def body_def)
qed (simp add: walk_size_def body_size_def body_def)

lemma fst_append_bytes: "distinct (map fst fs) \<Longrightarrow> distinct (map fst (append_bytes fs path data))"
  by (simp add: append_bytes_def distinct_update)

end
