(* ===== verification/Notifications.thy ===== *)
theory Notifications
  imports Outbox Settings
begin

text \<open>
  The notification centre (\<^verbatim>\<open>apps/server/dopilot_server/services/notifications.py\<close>,
  \<^verbatim>\<open>models/notification.py\<close>). The upsert is atomic in the code (\<open>INSERT .. ON CONFLICT\<close> on the
  partial unique index of unread rows); here it is one function on the table. The lemmas show
  that it keeps one unread row per \<open>(type, dedupe_key)\<close>, never lowers a severity and never
  resets a sticky flag, and that pruning bounds the table.
\<close>

fun severity_rank :: "severity \<Rightarrow> nat" where
  "severity_rank SEVERITY_INFO = 0"
| "severity_rank SEVERITY_WARNING = 1"
| "severity_rank SEVERITY_ERROR = 2"

definition STICKY_FLAGS :: "string list" where
  "STICKY_FLAGS = [''cleared'']"

definition merge_payload :: "obj \<Rightarrow> obj \<Rightarrow> obj" where
  \<comment> \<open>the fold into an existing unread row: the new payload, sticky flags kept\<close>
  "merge_payload old new =
     (let sticky = filter (\<lambda>k. obj_get old k = JBool True) STICKY_FLAGS
      in fold (\<lambda>k m. obj_set m k (JBool True)) sticky (obj_update old new))"

definition unread_with :: "string \<Rightarrow> string \<Rightarrow> notification \<Rightarrow> bool" where
  \<comment> \<open>the partial unique index \<open>(type, dedupe_key) WHERE read_at IS NULL\<close>\<close>
  "unread_with typ key n = (n_type n = typ \<and> n_dedupe_key n = Some key \<and> n_read_at n = None)"

definition bump_notification :: "instant \<Rightarrow> severity \<Rightarrow> obj \<Rightarrow> notification \<Rightarrow> notification" where
  \<comment> \<open>\<open>ON CONFLICT DO UPDATE\<close>, then the payload merge\<close>
  "bump_notification now sev payload n = n\<lparr>
     n_count := n_count n + 1, n_last_seen_at := now,
     n_severity := (if severity_rank (n_severity n) < severity_rank sev then sev else n_severity n),
     n_payload := merge_payload (n_payload n) payload\<rparr>"

definition notify ::
    "db \<Rightarrow> instant \<Rightarrow> string \<Rightarrow> severity \<Rightarrow> obj \<Rightarrow> string option \<Rightarrow> db \<times> string" where
  "notify d now typ sev payload dedupe_key =
     (let (new, d) = new_id d;
          row = \<lparr>n_id = new, n_type = typ, n_severity = sev, n_payload = payload,
                 n_dedupe_key = dedupe_key, n_count = 1, n_read_at = None, n_created_at = now,
                 n_last_seen_at = now\<rparr>;
          insert = (d\<lparr>db_notifications := db_notifications d @ [row]\<rparr>, new)
      in case dedupe_key of
           None \<Rightarrow> insert
         | Some key \<Rightarrow> (case find (unread_with typ key) (db_notifications d) of
             None \<Rightarrow> insert
           | Some old \<Rightarrow> (d\<lparr>db_notifications := map (\<lambda>n. if unread_with typ key n
                 then bump_notification now sev payload n else n) (db_notifications d)\<rparr>, n_id old)))"

definition newest_first :: "notification list \<Rightarrow> notification list" where
  \<comment> \<open>\<open>ORDER BY created_at DESC, id DESC\<close>\<close>
  "newest_first ns = rev (sort_key (\<lambda>n. (n_created_at n, n_id n)) ns)"

definition list_notifications :: "db \<Rightarrow> bool \<Rightarrow> nat \<Rightarrow> instant option \<Rightarrow> notification list" where
  "list_notifications d unread_only limit before =
     (let ns = db_notifications d;
          ns = (if unread_only then filter (\<lambda>n. n_read_at n = None) ns else ns);
          ns = (case before of None \<Rightarrow> ns | Some b \<Rightarrow> filter (\<lambda>n. n_created_at n < b) ns)
      in take limit (newest_first ns))"

definition unread_count :: "db \<Rightarrow> nat" where
  "unread_count d = length (filter (\<lambda>n. n_read_at n = None) (db_notifications d))"

definition read_where :: "db \<Rightarrow> instant \<Rightarrow> (notification \<Rightarrow> bool) \<Rightarrow> db \<times> nat" where
  \<comment> \<open>the \<open>UPDATE .. SET read_at = now WHERE .. AND read_at IS NULL\<close> of the two operations below\<close>
  "read_where d now p =
     (let hit = (\<lambda>n. p n \<and> n_read_at n = None)
      in (d\<lparr>db_notifications := map (\<lambda>n. if hit n then n\<lparr>n_read_at := Some now\<rparr> else n)
            (db_notifications d)\<rparr>, length (filter hit (db_notifications d))))"

definition mark_read :: "db \<Rightarrow> instant \<Rightarrow> string list \<Rightarrow> db \<times> nat" where
  "mark_read d now ids =
     (if ids = [] then (d, 0) else read_where d now (\<lambda>n. n_id n \<in> set ids))"

definition mark_all_read :: "db \<Rightarrow> instant \<Rightarrow> db \<times> nat" where
  "mark_all_read d now = read_where d now (\<lambda>_. True)"

definition delete_where :: "(notification \<Rightarrow> bool) \<Rightarrow> notification list \<Rightarrow> notification list \<times> nat" where
  "delete_where p ns = (filter (\<lambda>n. \<not> p n) ns, length (filter p ns))"

definition over_cap :: "int \<Rightarrow> notification list \<Rightarrow> notification list \<times> nat" where
  \<comment> \<open>step 3 of the prune: the excess over \<open>max_rows\<close>, read rows first, oldest first\<close>
  "over_cap max_rows ns =
     (let excess = int (length ns) - max_rows
      in if excess \<le> 0 then (ns, 0)
         else (let victims = take (nat excess)
                   (map n_id (sort_key (\<lambda>n. (n_read_at n = None, n_created_at n, n_id n)) ns))
               in delete_where (\<lambda>n. n_id n \<in> set victims) ns))"

definition prune_notifications :: "db \<Rightarrow> maintenance_settings \<Rightarrow> instant \<Rightarrow> db \<times> nat \<times> nat \<times> nat" where
  \<comment> \<open>returns the counts \<open>read_expired\<close>, \<open>unread_expired\<close>, \<open>over_cap\<close>\<close>
  "prune_notifications d m now =
     (let ns = db_notifications d;
          (ns, a) = (if notification_retention_days m > 0
            then delete_where (\<lambda>n. n_read_at n \<noteq> None
                   \<and> n_created_at n < now - days (notification_retention_days m)) ns else (ns, 0));
          (ns, b) = (if notification_unread_max_days m > 0
            then delete_where (\<lambda>n. n_read_at n = None
                   \<and> n_created_at n < now - days (notification_unread_max_days m)) ns else (ns, 0));
          (ns, c) = (if notification_max_rows m > 0 then over_cap (notification_max_rows m) ns else (ns, 0))
      in (d\<lparr>db_notifications := ns\<rparr>, a, b, c))"

section \<open>Facts\<close>

lemma new_id_frame [simp]:
  "db_notifications (snd (new_id d)) = db_notifications d"
  by (simp add: new_id_def)

lemma notify_frame [simp]:
  "db_tasks (fst (notify d now typ sev p k)) = db_tasks d"
  "db_executions (fst (notify d now typ sev p k)) = db_executions d"
  "db_log_files (fst (notify d now typ sev p k)) = db_log_files d"
  "db_outbox (fst (notify d now typ sev p k)) = db_outbox d"
  "db_audit (fst (notify d now typ sev p k)) = db_audit d"
  "db_schedules (fst (notify d now typ sev p k)) = db_schedules d"
  "db_ledger (fst (notify d now typ sev p k)) = db_ledger d"
  "db_nodes (fst (notify d now typ sev p k)) = db_nodes d"
  "db_templates (fst (notify d now typ sev p k)) = db_templates d"
  by (simp_all add: notify_def new_id_def Let_def split: option.splits)

lemma notify_find [simp]:
  "find_task (fst (notify d now typ sev p k)) i = find_task d i"
  "find_execution (fst (notify d now typ sev p k)) i = find_execution d i"
  "find_log (fst (notify d now typ sev p k)) lk = find_log d lk"
  "find_schedule (fst (notify d now typ sev p k)) i = find_schedule d i"
  "find_command (fst (notify d now typ sev p k)) i = find_command d i"
  by (simp_all add: find_task_def find_execution_def find_log_def find_schedule_def
      find_command_def)

definition unread_unique :: "db \<Rightarrow> bool" where
  \<comment> \<open>what the partial unique index enforces\<close>
  "unread_unique d \<longleftrightarrow>
     (\<forall>typ key. length (filter (unread_with typ key) (db_notifications d)) \<le> 1)"

lemma unread_with_bump [simp]: "unread_with typ key (bump_notification now sev p n) = unread_with typ key n"
  by (simp add: unread_with_def bump_notification_def)

lemma filter_bump:
  "filter (unread_with typ key) (map (\<lambda>n. if q n then bump_notification now sev p n else n) ns)
   = map (\<lambda>n. if q n then bump_notification now sev p n else n) (filter (unread_with typ key) ns)"
  by (induction ns) auto

lemma unread_with_key: "unread_with t k n \<Longrightarrow> unread_with t' k' n \<longleftrightarrow> t' = t \<and> k' = k"
  by (auto simp: unread_with_def)

lemma sticky_kept:
  "obj_get old ''cleared'' = JBool True \<Longrightarrow> obj_get (merge_payload old new) ''cleared'' = JBool True"
  by (simp add: merge_payload_def STICKY_FLAGS_def)

lemma find_None_filter: "find p ns = None \<longleftrightarrow> filter p ns = []"
  by (induction ns) auto

lemma find_Some_filter: "find p ns = Some n \<Longrightarrow> \<exists>ms. filter p ns = n # ms"
  by (induction ns) (auto split: if_splits)

lemma distinct_filter_length:
  assumes "distinct (map f xs)" and "set vs \<subseteq> f ` set xs" and "distinct vs"
  shows "length (filter (\<lambda>x. f x \<notin> set vs) xs) + length vs = length xs"
proof -
  have "length (filter (\<lambda>x. f x \<in> set vs) xs) = length vs"
  proof -
    have d: "distinct (filter (\<lambda>k. k \<in> set vs) (map f xs))" using assms(1) by simp
    have "set (filter (\<lambda>k. k \<in> set vs) (map f xs)) = set vs" using assms(2) by auto
    with d assms(3) have "length (filter (\<lambda>k. k \<in> set vs) (map f xs)) = length vs"
      by (metis distinct_card)
    then show ?thesis by (simp add: filter_map o_def)
  qed
  then show ?thesis
    using sum_length_filter_compl [of "\<lambda>x. f x \<in> set vs" xs] by simp
qed

lemma over_cap_length:
  assumes "distinct (map n_id ns)" and "max_rows \<ge> 0"
  shows "int (length (fst (over_cap max_rows ns))) \<le> max_rows"
proof (cases "int (length ns) - max_rows \<le> 0")
  case True
  then show ?thesis by (simp add: over_cap_def)
next
  case False
  let ?vs = "take (nat (int (length ns) - max_rows))
       (map n_id (sort_key (\<lambda>n. (n_read_at n = None, n_created_at n, n_id n)) ns))"
  have "length (filter (\<lambda>n. n_id n \<notin> set ?vs) ns) + length ?vs = length ns"
  proof (rule distinct_filter_length)
    show "distinct ?vs"
      using assms(1) by (intro distinct_take) (simp add: distinct_map)
    show "set ?vs \<subseteq> n_id ` set ns"
      using set_take_subset by fastforce
  qed (rule assms(1))
  moreover have "int (length ?vs) = int (length ns) - max_rows"
    using False assms(2) by simp
  ultimately show ?thesis
    using False by (simp add: over_cap_def delete_where_def Let_def)
qed

lemma distinct_delete_where: "distinct (map f ns) \<Longrightarrow> distinct (map f (fst (delete_where p ns)))"
  by (simp add: delete_where_def distinct_map_filter)

section \<open>Properties\<close>

text \<open>The notification upsert: it keeps at most one unread row per \<open>(type, dedupe_key)\<close>; if
  one exists, that row is bumped (count + 1), its severity only raised and a \<open>cleared\<close> flag
  kept; otherwise a row with count 1 appears.
\<close>

theorem notify_upsert:
  assumes "unread_unique d" and "notify d now typ sev payload (Some key) = (d', k)"
  shows "unread_unique d'
    \<and> (\<exists>n. filter (unread_with typ key) (db_notifications d') = [n] \<and> n_id n = k
        \<and> severity_rank sev \<le> severity_rank (n_severity n)
        \<and> (case filter (unread_with typ key) (db_notifications d) of
             [] \<Rightarrow> n_count n = 1 \<and> n_severity n = sev \<and> n_payload n = payload
           | old # _ \<Rightarrow> n_id n = n_id old \<and> n_count n = n_count old + 1
               \<and> severity_rank (n_severity old) \<le> severity_rank (n_severity n)
               \<and> (obj_get (n_payload old) ''cleared'' = JBool True
                   \<longrightarrow> obj_get (n_payload n) ''cleared'' = JBool True)))"
proof (cases "find (unread_with typ key) (db_notifications d)")
  case None
  then have "filter (unread_with typ key) (db_notifications d) = []" by (simp add: find_None_filter)
  with None assms show ?thesis
    by (auto simp: notify_def new_id_def unread_unique_def unread_with_def)
next
  case (Some old)
  from find_Some_filter [OF this] obtain ms
    where ms: "filter (unread_with typ key) (db_notifications d) = old # ms" by blast
  moreover have "length (filter (unread_with typ key) (db_notifications d)) \<le> 1"
    using assms(1) by (simp add: unread_unique_def)
  ultimately have one: "filter (unread_with typ key) (db_notifications d) = [old]" by simp
  then have old: "unread_with typ key old"
    by (metis filter_eq_ConsD)
  have d': "db_notifications d' = map (\<lambda>n. if unread_with typ key n
       then bump_notification now sev payload n else n) (db_notifications d)" and k: "k = n_id old"
    using assms(2) Some by (auto simp: notify_def new_id_def)
  have "unread_unique d'"
    using assms(1) by (simp add: unread_unique_def d' filter_bump)
  with one old k show ?thesis
    by (auto simp: d' filter_bump bump_notification_def sticky_kept)
qed

theorem notify_upsert_witness:
  "\<exists>d' k. notify (fst (notify empty_db 1 ''log_flood'' SEVERITY_ERROR [] (Some ''x1'')))
      2 ''log_flood'' SEVERITY_WARNING [] (Some ''x1'') = (d', k) \<and> unread_unique d'"
proof -
  let ?d = "fst (notify empty_db 1 ''log_flood'' SEVERITY_ERROR [] (Some ''x1''))"
  obtain d' k where n: "notify ?d 2 ''log_flood'' SEVERITY_WARNING [] (Some ''x1'') = (d', k)"
    by fastforce
  have "unread_unique ?d"
    by (simp add: notify_def new_id_def empty_db_def unread_unique_def unread_with_def)
  from notify_upsert [OF this n] n show ?thesis by blast
qed

text \<open>Pruning bounds the notification table: with a positive \<open>notification_max_rows\<close> at most
  that many rows remain, whatever the ages, and no row is invented.
\<close>

theorem prune_bounds_table:
  assumes "distinct (map n_id (db_notifications d))" and "notification_max_rows m > 0"
    and "prune_notifications d m now = (d', counts)"
  shows "int (length (db_notifications d')) \<le> notification_max_rows m
    \<and> set (db_notifications d') \<subseteq> set (db_notifications d)"
proof -
  define n1 where "n1 = (if notification_retention_days m > 0 then fst (delete_where (\<lambda>n. n_read_at n \<noteq> None
      \<and> n_created_at n < now - days (notification_retention_days m)) (db_notifications d)) else db_notifications d)"
  define n2 where "n2 = (if notification_unread_max_days m > 0 then fst (delete_where (\<lambda>n. n_read_at n = None
      \<and> n_created_at n < now - days (notification_unread_max_days m)) n1) else n1)"
  have "distinct (map n_id n2)"
    using assms(1) by (simp add: n1_def n2_def distinct_delete_where)
  moreover have "db_notifications d' = fst (over_cap (notification_max_rows m) n2)"
    using assms(2,3) by (auto simp: prune_notifications_def n1_def n2_def split: prod.splits if_splits)
  moreover have "set n2 \<subseteq> set (db_notifications d)"
    by (auto simp: n1_def n2_def delete_where_def split: if_splits)
  ultimately show ?thesis
    using over_cap_length [of n2 "notification_max_rows m"] assms(2)
    by (auto simp: over_cap_def delete_where_def Let_def split: if_splits)
qed

theorem prune_bounds_table_witness:
  "length (db_notifications (fst (prune_notifications
     (fst (notify (fst (notify empty_db 1 ''log_flood'' SEVERITY_ERROR [] None))
        2 ''log_flood'' SEVERITY_INFO [] None))
     (default_maintenance\<lparr>notification_retention_days := 0, notification_unread_max_days := 0, notification_max_rows := 1\<rparr>) 9))) \<le> 1"
proof -
  let ?d = "fst (notify (fst (notify empty_db 1 ''log_flood'' SEVERITY_ERROR [] None))
        2 ''log_flood'' SEVERITY_INFO [] None)"
  let ?m = "(default_maintenance\<lparr>notification_retention_days := 0, notification_unread_max_days := 0, notification_max_rows := 1\<rparr>)"
  obtain d' c where p: "prune_notifications ?d ?m 9 = (d', c)" by (meson surj_pair)
  have "distinct (map n_id (db_notifications ?d))"
    by (simp add: notify_def new_id_def empty_db_def)
  from prune_bounds_table [OF this _ p] show ?thesis by (simp add: p)
qed

end
