(* ===== verification/ServerLogs.thy ===== *)
theory ServerLogs
  imports LogFiles Notifications Outbox
begin

text \<open>
  The application of one log increment on the server
  (\<^verbatim>\<open>apps/server/dopilot_server/services/logs.py\<close>) and the log consumer around it
  (\<^verbatim>\<open>redis/consumers.py\<close>).

  The disk is a parameter \<open>landed\<close>: \<open>None\<close> when a write succeeds, \<open>Some n\<close> when it raises after
  \<open>n\<close> bytes. An exception rolls the database session back and leaves the message unacknowledged;
  the bytes that landed and the gauge stay. The row lock and the directory lock make one
  application one step.
\<close>

datatype log_outcome =
    LOG_APPENDED
  | LOG_DROPPED_DUP
  | LOG_GAP_PARTIAL
  | LOG_EOF
  | LOG_NO_LOG_FILE
  | LOG_TRUNCATED
  | LOG_TRUNCATED_DROPPED
  | LOG_SEALED

definition WRITABLE_LOG_STATUSES :: "log_status set" where
  "WRITABLE_LOG_STATUSES = {LOG_ACTIVE, LOG_FINALIZING}"

definition TYPE_LOG_TRUNCATED :: string where
  "TYPE_LOG_TRUNCATED = ''log_truncated''"

fun truncation_value :: "truncation_reason \<Rightarrow> string" where
  "truncation_value TRUNCATION_SIZE_CAP = ''size-cap''"
| "truncation_value TRUNCATION_DIR_BUDGET = ''dir-budget''"
| "truncation_value TRUNCATION_MAINTENANCE = ''maintenance''"

definition gap_marker :: "int \<Rightarrow> int \<Rightarrow> string" where
  "gap_marker expected actual = [CHR 0x0A] @ ''[dopilot:log-gap expected_offset='' @ show_int expected
     @ '' actual_offset='' @ show_int actual @ '']'' @ [CHR 0x0A]"

definition truncation_marker :: "int \<Rightarrow> truncation_reason \<Rightarrow> string" where
  "truncation_marker max_bytes reason = [CHR 0x0A] @ ''[dopilot:log-truncated max_bytes='' @ show_int max_bytes
     @ '' reason='' @ truncation_value reason @ '']'' @ [CHR 0x0A]"

section \<open>Planning and performing a write\<close>

definition plan_cap :: "int \<Rightarrow> string \<Rightarrow> int \<Rightarrow> string \<times> bool \<times> truncation_reason option" where
  \<comment> \<open>the per-file half of \<open>_plan_write\<close>\<close>
  "plan_cap physical_start payload cap =
     (let room = cap - physical_start in
      if cap > 0 \<and> int (length payload) > room
      then (take (nat (max 0 room)) payload @ truncation_marker cap TRUNCATION_SIZE_CAP, True,
        Some TRUNCATION_SIZE_CAP)
      else (payload, False, None))"

definition plan_write ::
    "int \<Rightarrow> string \<Rightarrow> int \<Rightarrow> gauge option \<Rightarrow> string \<times> bool \<times> truncation_reason option" where
  "plan_write physical_start payload cap gauge =
     (let (to_write, truncated_now, reason) = plan_cap physical_start payload cap in
      case gauge of None \<Rightarrow> (to_write, truncated_now, reason)
      | Some g \<Rightarrow>
          if ga_budget g > 0 \<and> \<not> gauge_fits g (int (length to_write))
          then (let marker = truncation_marker (ga_budget g) TRUNCATION_DIR_BUDGET
            in (if gauge_fits g (int (length marker)) then marker else [], True, Some TRUNCATION_DIR_BUDGET))
          else (to_write, truncated_now, reason))"

definition write_settled ::
    "nat option \<Rightarrow> string \<Rightarrow> string \<Rightarrow> bodies \<times> gauge option \<Rightarrow> (bodies \<times> gauge option) \<times> bool" where
  \<comment> \<open>the gauge learns what the two \<open>stat\<close>s measured; \<open>False\<close> when the write raised\<close>
  "write_settled landed path data s =
     (case s of (fs, gauge) \<Rightarrow>
      let ok = (data = [] \<or> landed = None);
          fs' = append_bytes fs path (case landed of None \<Rightarrow> data | Some n \<Rightarrow> take n data)
      in ((fs', map_option (\<lambda>g. gauge_add g (body_size fs' path - body_size fs path)) gauge), ok))"

section \<open>One increment\<close>

record log_store =
  lt_db :: db
  lt_bodies :: bodies
  lt_gauge :: "gauge option"
  lt_sse :: sse

definition on_truncated ::
    "settings \<Rightarrow> instant \<Rightarrow> agent_log_event \<Rightarrow> truncation_reason \<Rightarrow> int \<Rightarrow> db \<Rightarrow> db" where
  "on_truncated cfg now event reason physical_end d =
     fst (notify (fst (create_stop_logs_outbox d now (le_task_id event) (le_execution_id event) (le_agent_id event)))
       now TYPE_LOG_TRUNCATED SEVERITY_WARNING
       [(''task_id'', JStr (le_task_id event)), (''execution_id'', JStr (le_execution_id event)),
        (''agent_id'', JStr (le_agent_id event)), (''reason'', JStr (truncation_value reason)),
        (''cap'', JInt (if reason = TRUNCATION_SIZE_CAP then max_file_bytes (cfg_logs cfg)
           else max_total_bytes (cfg_logs cfg))),
        (''size_bytes'', JInt physical_end)]
       (Some (le_execution_id event)))"

definition mark_gap :: "agent_log_event \<Rightarrow> log_file \<Rightarrow> log_file" where
  \<comment> \<open>the row under \<open>event.offset > log_file.last_pulled_offset\<close>\<close>
  "mark_gap event lf = lf\<lparr>lf_log_integrity := INTEGRITY_PARTIAL, lf_gap_count := lf_gap_count lf + 1,
     lf_first_gap_expected_offset := first_some (lf_first_gap_expected_offset lf) (Some (lf_last_pulled_offset lf)),
     lf_first_gap_actual_offset := (if lf_first_gap_expected_offset lf = None then Some (le_offset event)
       else lf_first_gap_actual_offset lf)\<rparr>"

definition write_event ::
    "settings \<Rightarrow> instant \<Rightarrow> nat option \<Rightarrow> agent_log_event \<Rightarrow> log_file \<Rightarrow> log_store
      \<Rightarrow> log_store \<times> log_outcome option" where
  \<comment> \<open>from the gap test to the end; \<open>None\<close> when the write raised\<close>
  "write_event cfg now landed event lf s =
     (let gap = (le_offset event > lf_last_pulled_offset lf);
          marker = (if gap then gap_marker (lf_last_pulled_offset lf) (le_offset event) else []);
          lf1 = (if gap then mark_gap event lf else lf);
          path = lf_storage_path lf;
          physical_start = body_size (lt_bodies s) path;
          (to_write, truncated_now, reason) = plan_write physical_start (marker @ le_content event)
            (max_file_bytes (cfg_logs cfg)) (lt_gauge s);
          ((fs, g), ok) = write_settled landed path to_write (lt_bodies s, lt_gauge s);
          s = s\<lparr>lt_bodies := fs, lt_gauge := g\<rparr>
      in if \<not> ok then (s, None)
         else (let physical_end = body_size fs path;
                   lf2 = lf1\<lparr>lf_last_pulled_offset := le_offset event + le_size_bytes event,
                     lf_size_bytes := physical_end, lf_final_offset := Some physical_end\<rparr>;
                   lf3 = (if truncated_now then lf2\<lparr>lf_log_integrity := INTEGRITY_TRUNCATED,
                     lf_truncation_reason := reason\<rparr> else lf2);
                   d = save_log (lt_db s) lf3;
                   d = (if truncated_now
                     then on_truncated cfg now event (or_default reason TRUNCATION_SIZE_CAP) physical_end d else d);
                   m = (if to_write = [] then lt_sse s
                     else sse_publish (le_execution_id event) (Sse_log physical_start physical_end (decode_replace to_write)) (lt_sse s))
           in (s\<lparr>lt_db := d, lt_sse := m\<rparr>,
               Some (if truncated_now then LOG_TRUNCATED else if gap then LOG_GAP_PARTIAL else LOG_APPENDED))))"

definition apply_log_event ::
    "settings \<Rightarrow> instant \<Rightarrow> nat option \<Rightarrow> agent_log_event \<Rightarrow> log_store \<Rightarrow> log_store \<times> log_outcome option" where
  "apply_log_event cfg now landed event s =
     (case get_log_file (lt_db s) (le_task_id event) (le_execution_id event) (le_stream event) of
        None \<Rightarrow> (s, Some LOG_NO_LOG_FILE)
      | Some lf \<Rightarrow>
          if le_eof event \<and> le_size_bytes event = 0 then (s, Some LOG_EOF)
          else if le_content event = [] then (s, Some (if le_eof event then LOG_EOF else LOG_DROPPED_DUP))
          else if lf_status lf \<notin> WRITABLE_LOG_STATUSES then (s, Some LOG_SEALED)
          else if le_offset event < lf_last_pulled_offset lf then (s, Some LOG_DROPPED_DUP)
          else if lf_log_integrity lf = INTEGRITY_TRUNCATED
              \<and> (max_file_bytes (cfg_logs cfg) > 0 \<or> lt_gauge s \<noteq> None)
          then (s\<lparr>lt_db := save_log (lt_db s)
                 (lf\<lparr>lf_last_pulled_offset := le_offset event + le_size_bytes event\<rparr>)\<rparr>,
               Some LOG_TRUNCATED_DROPPED)
          else write_event cfg now landed event lf s)"

section \<open>The log consumer\<close>

datatype log_entry = Log_entry string "agent_log_event option" "nat option"
  \<comment> \<open>message id, the decoded event, and what the disk does to its write\<close>

definition log_apply_one ::
    "settings \<Rightarrow> instant \<Rightarrow> log_entry \<Rightarrow> log_store \<Rightarrow> log_store \<times> string list \<times> bool" where
  \<comment> \<open>acknowledged ids, and whether an exception left \<open>_apply_one\<close>\<close>
  "log_apply_one cfg now entry s =
     (case entry of
        Log_entry msg_id None landed \<Rightarrow> (s, [], True)
      | Log_entry msg_id (Some event) landed \<Rightarrow>
         (case apply_log_event cfg now landed event s of
            (s, None) \<Rightarrow> (s, [], True)
          | (s, Some outcome) \<Rightarrow> (s, [msg_id], False)))"

primrec log_drain ::
    "settings \<Rightarrow> instant \<Rightarrow> log_entry list \<Rightarrow> log_store \<Rightarrow> log_store \<times> string list \<times> bool" where
  \<comment> \<open>the loop over one batch, whichever entries Redis handed out, of \<open>_claim_pending\<close> or of \<open>drain_once\<close>;
    an exception ends the whole pass\<close>
  "log_drain cfg now [] s = (s, [], False)"
| "log_drain cfg now (e # es) s =
     (case log_apply_one cfg now e s of
        (s, ids, True) \<Rightarrow> (s, ids, True)
      | (s, ids, False) \<Rightarrow> (case log_drain cfg now es s of (s, ids', raised) \<Rightarrow> (s, ids @ ids', raised)))"

section \<open>Facts\<close>

lemma write_settled_size:
  "fst (fst (write_settled landed path data (fs, g))) =
     append_bytes fs path (case landed of None \<Rightarrow> data | Some n \<Rightarrow> take n data)"
  by (simp add: write_settled_def Let_def)

lemma on_truncated_frame [simp]:
  "find_log (on_truncated cfg now event reason n d) k = find_log d k"
  by (simp add: on_truncated_def create_stop_logs_outbox_def new_command_def Let_def windows_def
      new_id_def add_command_def find_log_def)

section \<open>A store for the witnesses\<close>

definition sample_log_store :: "log_store" where
  "sample_log_store =
     \<lparr>lt_db = empty_db\<lparr>db_log_files := [\<lparr>lf_task_id = ''t1'', lf_execution_id = ''e1'', lf_stream = Stream_log,
        lf_storage_path = ''/s/e1.log'', lf_size_bytes = 0, lf_last_pulled_offset = 0, lf_final_offset = None,
        lf_status = LOG_ACTIVE, lf_log_integrity = INTEGRITY_COMPLETE, lf_truncation_reason = None,
        lf_gap_count = 0, lf_first_gap_expected_offset = None, lf_first_gap_actual_offset = None,
        lf_started_at = None, lf_finished_at = None, lf_retained_until = None\<rparr>]\<rparr>,
      lt_bodies = [], lt_gauge = Some (new_gauge 0), lt_sse = new_sse 10\<rparr>"

end
