(* ===== verification/ServerEvents.thy ===== *)
theory ServerEvents
  imports Executions Notifications
begin

text \<open>
  Application of one agent event to its execution and task
  (\<^verbatim>\<open>apps/server/dopilot_server/services/events.py\<close>). \<open>apply_event\<close> runs under the row locks
  task, execution; the database it gets is the one it sees under them. The lemmas show the four
  guarantees the module documents: dedupe, terminal-not-regressed, the lost override, and that
  the task is converged and rolled up with its executions.
\<close>

section \<open>Definitions\<close>

definition OUTCOME_CLASS_MAX_CHARS :: nat where
  "OUTCOME_CLASS_MAX_CHARS = 64"

fun event_to_exec :: "agent_event_type \<Rightarrow> exec_status option" where
  "event_to_exec Ev_accepted = Some EXEC_PENDING"
| "event_to_exec Ev_running = Some EXEC_RUNNING"
| "event_to_exec Ev_finished = Some EXEC_FINISHED"
| "event_to_exec Ev_failed = Some EXEC_FAILED"
| "event_to_exec Ev_canceled = Some EXEC_CANCELED"
| "event_to_exec Ev_lost = Some EXEC_LOST"
| "event_to_exec Ev_heartbeat = None"

definition keep :: "'a option \<Rightarrow> 'a option \<Rightarrow> 'a option" where
  \<comment> \<open>\<open>if new is not None: field = new\<close>\<close>
  "keep new old = (case new of None \<Rightarrow> old | Some v \<Rightarrow> Some v)"

definition apply_status :: "execution \<Rightarrow> agent_event \<Rightarrow> exec_status \<Rightarrow> instant \<Rightarrow> execution" where
  "apply_status x event new_status now =
     (let x = x\<lparr>x_status := new_status\<rparr> in
      if new_status = EXEC_RUNNING then
        (let x = (if x_started_at x = None then x\<lparr>x_started_at := Some now\<rparr> else x)
         in if truthy_str (ev_remote_job_id event) then x\<lparr>x_remote_job_id := ev_remote_job_id event\<rparr> else x)
      else if new_status \<in> EXEC_TERMINAL then
        (let x = (if x_started_at x = None then x\<lparr>x_started_at := Some now\<rparr> else x);
             x = x\<lparr>x_finished_at := Some now, x_exit_code := keep (ev_exit_code event) (x_exit_code x)\<rparr>;
             x = (if truthy_str (ev_error_code event) then x\<lparr>x_error_code := ev_error_code event\<rparr> else x);
             x = (if ev_error_detail event \<noteq> [] then x\<lparr>x_error_detail := ev_error_detail event\<rparr> else x);
             x = (if new_status = EXEC_LOST then
                    x\<lparr>x_lost_reason := keep (map_option lost_value (ev_lost_reason event)) (x_lost_reason x)\<rparr>
                  else x)
         in x\<lparr>x_error_count := keep (ev_error_count event) (x_error_count x),
              x_finish_reason := keep (ev_finish_reason event) (x_finish_reason x),
              x_log_bytes := keep (ev_log_bytes event) (x_log_bytes x),
              x_outcome_class := keep (map_option (take OUTCOME_CLASS_MAX_CHARS) (ev_outcome_class event))
                (x_outcome_class x)\<rparr>)
      else x)"

definition mark_progress :: "execution \<Rightarrow> instant \<Rightarrow> execution" where
  "mark_progress x now = x\<lparr>x_last_progress_at := Some now, x_no_progress_at := None\<rparr>"

definition maybe_update_lost_reason :: "execution \<Rightarrow> agent_event \<Rightarrow> execution" where
  "maybe_update_lost_reason x event =
     (case ev_lost_reason event of None \<Rightarrow> x
      | Some r \<Rightarrow> if lost_from_agent r \<or> x_lost_reason x = None
          then x\<lparr>x_lost_reason := Some (lost_value r)\<rparr> else x)"

definition has_unresolved_reclaim :: "db \<Rightarrow> string \<Rightarrow> bool" where
  "has_unresolved_reclaim d execution_id =
     list_ex (\<lambda>r. o_execution_id r = execution_id \<and> o_type r = Cmd_stop
       \<and> o_intent r = Some Intent_reclaim \<and> o_status r \<in> OUTBOX_UNRESOLVED) (db_outbox d)"

definition stop_for :: "db \<Rightarrow> execution \<Rightarrow> stop_intent \<Rightarrow> instant \<Rightarrow> db" where
  \<comment> \<open>the call \<open>create_stop_outbox(session, task_id=execution.task_id, ..)\<close>\<close>
  "stop_for d x intent now =
     fst (create_stop_outbox d now (x_task_id x) (x_id x) (or_default (x_agent_id x) []) intent)"

definition request_reclaim :: "db \<Rightarrow> execution \<Rightarrow> instant \<Rightarrow> db" where
  "request_reclaim d x now =
     (if has_unresolved_reclaim d (x_id x) then d else stop_for d x Intent_reclaim now)"

definition rolled_task :: "task \<Rightarrow> execution list \<Rightarrow> instant \<Rightarrow> task" where
  \<comment> \<open>the part of \<open>_update_task\<close> below the two queries: convergence, then the roll-up\<close>
  "rolled_task t executions now =
     (let t = fst (converge_task t executions now);
          rerollable = (t_status t \<notin> TASK_TERMINAL \<or> t_status t = TASK_LOST)
      in case rollup_task_status (map x_status executions) of
           None \<Rightarrow> t
         | Some rolled \<Rightarrow>
             if rolled \<noteq> t_status t \<and> rerollable \<and> is_valid_task_transition (t_status t) rolled then
               (let was_lost = (t_status t = TASK_LOST);
                    t = t\<lparr>t_status := rolled, t_finished_at := Some now\<rparr>
                in if was_lost \<and> t_outcome_recorded_at t \<noteq> None
                   then t\<lparr>t_outcome_recorded_at := None, t_outcome_erroneous := None\<rparr> else t)
             else t)"

definition update_task :: "db \<Rightarrow> execution \<Rightarrow> instant \<Rightarrow> db" where
  "update_task d x now =
     (case find_task d (x_task_id x) of None \<Rightarrow> d
      | Some t \<Rightarrow> save_task d (rolled_task t (list_executions d (t_id t)) now))"

definition audit :: "instant \<Rightarrow> db \<Rightarrow> agent_event \<Rightarrow> string \<Rightarrow> audit_outcome \<Rightarrow> db" where
  "audit now d event redis_msg_id outcome = d\<lparr>db_audit := db_audit d @
     [\<lparr>a_redis_msg_id = redis_msg_id, a_event_id = ev_event_id event,
       a_execution_id = ev_execution_id event, a_event_type = ev_type event, a_outcome = outcome,
       a_processed_at = now\<rparr>]\<rparr>"

definition TYPE_LOG_FLOOD :: string where
  "TYPE_LOG_FLOOD = ''log_flood''"

definition notify_log_flood :: "db \<Rightarrow> agent_event \<Rightarrow> instant \<Rightarrow> db" where
  "notify_log_flood d event now =
     (let detail = ev_error_detail event
      in fst (notify d now TYPE_LOG_FLOOD SEVERITY_WARNING
        [(''task_id'', JStr (ev_task_id event)), (''execution_id'', JStr (ev_execution_id event)),
         (''agent_id'', JStr (ev_agent_id event)),
         (''log_bytes'', (case ev_log_bytes event of None \<Rightarrow> obj_get detail ''log_bytes'' | Some n \<Rightarrow> JInt n)),
         (''cap'', obj_get detail ''cap''), (''kill_escalation'', obj_get detail ''kill_escalation'')]
        (Some (ev_execution_id event))))"

definition heartbeat_row :: "execution \<Rightarrow> agent_event \<Rightarrow> instant \<Rightarrow> execution" where
  \<comment> \<open>what a heartbeat writes to the row: the liveness clock, and progress when the log grew\<close>
  "heartbeat_row x event now =
     (let x = x\<lparr>x_last_event_at := Some now, x_stalled_at := None\<rparr>
      in case ev_log_bytes event of None \<Rightarrow> x
         | Some n \<Rightarrow>
            (let x = x\<lparr>x_last_progress_sample_at := Some now\<rparr>
             in if n > or_default (x_log_bytes x) 0 then
                  x\<lparr>x_log_bytes := Some n, x_last_progress_at := Some now, x_no_progress_at := None\<rparr>
                else x))"

definition apply_heartbeat_event :: "db \<Rightarrow> agent_event \<Rightarrow> string \<Rightarrow> instant \<Rightarrow> db \<times> audit_outcome" where
  \<comment> \<open>the heartbeat branch of \<open>apply_event\<close>\<close>
  "apply_heartbeat_event d event redis_msg_id now =
     (case find_execution d (ev_execution_id event) of
        None \<Rightarrow> (d, OUTCOME_SKIPPED_NO_ATTEMPT)
      | Some x \<Rightarrow>
         (let x = heartbeat_row x event now; d = save_execution d x
          in if x_status x = EXEC_LOST then
               (if \<not> reclaim_ever_issued d (x_id x)
                then audit now (stop_for d x Intent_reclaim now) event redis_msg_id OUTCOME_RECLAIM_REQUESTED
                else d, OUTCOME_RECLAIM_REQUESTED)
             else (d, OUTCOME_HEARTBEAT)))"

definition transition ::
    "db \<Rightarrow> execution \<Rightarrow> agent_event \<Rightarrow> exec_status \<Rightarrow> instant \<Rightarrow> db \<times> execution \<times> audit_outcome" where
  \<comment> \<open>the if-chain of \<open>apply_event\<close> on the current and the new status\<close>
  "transition d x event new_status now =
     (let current = x_status x in
      if current = new_status then
        (d, if current = EXEC_LOST then maybe_update_lost_reason x event else x, OUTCOME_APPLIED)
      else if current = EXEC_LOST \<and> is_authoritative_terminal (ev_type event) then
        (d, apply_status (x\<lparr>x_reconciled_from := Some ''lost''\<rparr>) event new_status now, OUTCOME_OVERRIDE_LOST)
      else if current = EXEC_LOST \<and> \<not> is_terminal (ev_type event) then
        (request_reclaim d x now, x, OUTCOME_RECLAIM_REQUESTED)
      else if current \<in> EXEC_TERMINAL then (d, x, OUTCOME_SKIPPED_TERMINAL)
      else if is_valid_execution_transition current new_status then
        (d, apply_status x event new_status now, OUTCOME_APPLIED)
      else (d, x, OUTCOME_SKIPPED_TERMINAL))"

definition apply_event :: "db \<Rightarrow> agent_event \<Rightarrow> string \<Rightarrow> instant \<Rightarrow> db \<times> audit_outcome" where
  "apply_event d event redis_msg_id now =
     (case event_to_exec (ev_type event) of
        None \<Rightarrow> apply_heartbeat_event d event redis_msg_id now
      | Some new_status \<Rightarrow>
         if list_ex (\<lambda>a. a_redis_msg_id a = redis_msg_id) (db_audit d) then (d, OUTCOME_SKIPPED_DUP)
         else (case find_execution d (ev_execution_id event) of
             None \<Rightarrow> (audit now d event redis_msg_id OUTCOME_SKIPPED_NO_ATTEMPT, OUTCOME_SKIPPED_NO_ATTEMPT)
           | Some x \<Rightarrow>
              (let (d, x, outcome) = transition d x event new_status now;
                   x = mark_progress (x\<lparr>x_last_event_at := Some now, x_stalled_at := None\<rparr>) now;
                   d = update_task (save_execution d x) x now;
                   d = (if outcome \<in> {OUTCOME_APPLIED, OUTCOME_OVERRIDE_LOST}
                          \<and> is_terminal (ev_type event)
                          \<and> ev_error_code event = Some LOG_FLOOD_ERROR_CODE
                        then notify_log_flood d event now else d)
               in (audit now d event redis_msg_id outcome, outcome))))"

section \<open>Frames\<close>

lemma new_command_frame [simp]:
  "db_tasks (fst (new_command d now m t x a ty i p)) = db_tasks d"
  "db_executions (fst (new_command d now m t x a ty i p)) = db_executions d"
  "db_log_files (fst (new_command d now m t x a ty i p)) = db_log_files d"
  "db_audit (fst (new_command d now m t x a ty i p)) = db_audit d"
  "db_schedules (fst (new_command d now m t x a ty i p)) = db_schedules d"
  "db_ledger (fst (new_command d now m t x a ty i p)) = db_ledger d"
  "db_nodes (fst (new_command d now m t x a ty i p)) = db_nodes d"
  "db_templates (fst (new_command d now m t x a ty i p)) = db_templates d"
  "db_notifications (fst (new_command d now m t x a ty i p)) = db_notifications d"
  by (simp_all add: new_command_def windows_def new_id_def add_command_def Let_def)

lemma new_command_outbox:
  "\<exists>r. db_outbox (fst (new_command d now m t x a ty i p)) = db_outbox d @ [r]
     \<and> o_task_id r = t \<and> o_execution_id r = x \<and> o_agent_id r = a \<and> o_type r = ty
     \<and> o_intent r = i \<and> o_payload r = p \<and> o_status r = OUTBOX_PENDING"
  by (simp add: new_command_def windows_def new_id_def add_command_def Let_def)

lemma stop_for_frame [simp]:
  "db_tasks (stop_for d x i now) = db_tasks d" "db_executions (stop_for d x i now) = db_executions d"
  "db_log_files (stop_for d x i now) = db_log_files d" "db_audit (stop_for d x i now) = db_audit d"
  "db_schedules (stop_for d x i now) = db_schedules d" "db_ledger (stop_for d x i now) = db_ledger d"
  "db_nodes (stop_for d x i now) = db_nodes d" "db_templates (stop_for d x i now) = db_templates d"
  "db_notifications (stop_for d x i now) = db_notifications d"
  by (simp_all add: stop_for_def create_stop_outbox_def)

lemma stop_for_outbox:
  "\<exists>r. db_outbox (stop_for d x i now) = db_outbox d @ [r] \<and> o_execution_id r = x_id x
     \<and> o_task_id r = x_task_id x \<and> o_type r = Cmd_stop \<and> o_intent r = Some i \<and> o_status r = OUTBOX_PENDING"
  using new_command_outbox [of d now False "x_task_id x" "x_id x" "or_default (x_agent_id x) []" Cmd_stop "Some i" "[]"]
  by (auto simp: stop_for_def create_stop_outbox_def)

lemma request_reclaim_frame [simp]:
  "db_tasks (request_reclaim d x now) = db_tasks d"
  "db_executions (request_reclaim d x now) = db_executions d"
  "db_log_files (request_reclaim d x now) = db_log_files d"
  "db_audit (request_reclaim d x now) = db_audit d"
  by (simp_all add: request_reclaim_def)

lemma audit_frame [simp]:
  "db_tasks (audit now d e m oc) = db_tasks d" "db_executions (audit now d e m oc) = db_executions d"
  "db_outbox (audit now d e m oc) = db_outbox d" "db_log_files (audit now d e m oc) = db_log_files d"
  by (simp_all add: audit_def)

lemma find_audit [simp]:
  "find_task (audit now d e m oc) k = find_task d k"
  "find_execution (audit now d e m oc) k = find_execution d k"
  by (simp_all add: find_task_def find_execution_def)

lemma find_stop_for [simp]:
  "find_task (stop_for d x i now) k = find_task d k"
  "find_execution (stop_for d x i now) k = find_execution d k"
  by (simp_all add: find_task_def find_execution_def)

lemma find_request_reclaim [simp]:
  "find_task (request_reclaim d x now) k = find_task d k"
  "find_execution (request_reclaim d x now) k = find_execution d k"
  by (simp_all add: find_task_def find_execution_def)

lemma notify_log_flood_frame [simp]:
  "db_tasks (notify_log_flood d e now) = db_tasks d"
  "db_executions (notify_log_flood d e now) = db_executions d"
  "db_outbox (notify_log_flood d e now) = db_outbox d" "db_audit (notify_log_flood d e now) = db_audit d"
  "find_task (notify_log_flood d e now) k = find_task d k"
  "find_execution (notify_log_flood d e now) k = find_execution d k"
  by (simp_all add: notify_log_flood_def Let_def)

lemma apply_status_frame [simp]:
  "x_id (apply_status x e s now) = x_id x" "x_task_id (apply_status x e s now) = x_task_id x"
  "x_status (apply_status x e s now) = s"
  "x_reconciled_from (apply_status x e s now) = x_reconciled_from x"
  by (simp_all add: apply_status_def Let_def)

lemma mark_progress_frame [simp]:
  "x_id (mark_progress x now) = x_id x" "x_task_id (mark_progress x now) = x_task_id x"
  "x_status (mark_progress x now) = x_status x"
  "x_reconciled_from (mark_progress x now) = x_reconciled_from x"
  "x_lost_reason (mark_progress x now) = x_lost_reason x"
  by (simp_all add: mark_progress_def)

lemma maybe_update_lost_reason_frame [simp]:
  "x_id (maybe_update_lost_reason x e) = x_id x"
  "x_task_id (maybe_update_lost_reason x e) = x_task_id x"
  "x_status (maybe_update_lost_reason x e) = x_status x"
  by (simp_all add: maybe_update_lost_reason_def split: option.splits)

section \<open>The transition of one execution\<close>

definition hard_event :: "agent_event_type \<Rightarrow> bool" where
  "hard_event t = is_authoritative_terminal t"

lemma event_to_exec_terminal:
  "event_to_exec t = Some s \<Longrightarrow> s \<in> EXEC_TERMINAL \<longleftrightarrow> is_terminal t"
  by (cases t) (auto simp: EXEC_TERMINAL_def is_terminal_def)

lemma event_to_exec_hard:
  "event_to_exec t = Some s \<Longrightarrow> exec_hard s \<longleftrightarrow> is_authoritative_terminal t"
  by (cases t) (auto simp: exec_hard_def is_authoritative_terminal_def)

lemma event_to_exec_lost: "event_to_exec t = Some EXEC_LOST \<longleftrightarrow> t = Ev_lost"
  by (cases t) auto

lemma transition_frame:
  assumes "transition d x e s now = (d', x', oc)"
  shows "db_tasks d' = db_tasks d \<and> db_executions d' = db_executions d
    \<and> db_audit d' = db_audit d \<and> x_id x' = x_id x \<and> x_task_id x' = x_task_id x"
  using assms by (auto simp: transition_def Let_def split: if_splits)

lemma transition_status:
  assumes "transition d x e s now = (d', x', oc)" and "event_to_exec (ev_type e) = Some s"
  shows "x_status x' =
    (if exec_hard (x_status x) then x_status x
     else if x_status x = EXEC_LOST then (if exec_hard s then s else EXEC_LOST)
     else if x_status x = EXEC_RUNNING \<and> s = EXEC_PENDING then EXEC_RUNNING else s)"
proof -
  have h: "exec_hard s \<longleftrightarrow> is_authoritative_terminal (ev_type e)"
    and t: "s \<in> EXEC_TERMINAL \<longleftrightarrow> is_terminal (ev_type e)"
    using assms(2) by (simp_all add: event_to_exec_hard event_to_exec_terminal)
  show ?thesis
    using assms(1)
    by (cases "x_status x"; cases s)
      (auto simp: transition_def Let_def h [symmetric] t [symmetric] exec_hard_def EXEC_TERMINAL_def
        is_valid_execution_transition_def)
qed

lemma transition_order:
  assumes "transition d x e s now = (d', x', oc)" and "event_to_exec (ev_type e) = Some s"
  shows "is_valid_execution_transition (x_status x) (x_status x')"
  unfolding transition_status [OF assms]
  by (cases "x_status x"; cases s)
    (simp_all add: is_valid_execution_transition_def exec_hard_def EXEC_TERMINAL_def)

section \<open>The task follows its executions\<close>

lemma rolled_task_id [simp]: "t_id (rolled_task t xs now) = t_id t"
  by (simp add: rolled_task_def Let_def split: option.splits)

lemma rolled_task_schedule [simp]: "t_schedule_id (rolled_task t xs now) = t_schedule_id t"
  by (simp add: rolled_task_def Let_def split: option.splits)

lemma rolled_task_order: "task_order (t_status t) (t_status (rolled_task t xs now))"
proof -
  let ?c = "fst (converge_task t xs now)"
  have "task_order (t_status t) (t_status ?c)" by (rule converge_task_order)
  moreover have "task_order (t_status ?c) (t_status (rolled_task t xs now))"
    by (auto simp: rolled_task_def Let_def task_order_valid split: option.splits)
  ultimately show ?thesis by (rule task_order_trans)
qed

lemma rolled_task_status:
  assumes "rollup_task_status (map x_status xs) = Some s" and "\<not> task_hard (t_status t)"
  shows "t_status (rolled_task t xs now) = s"
proof -
  let ?c = "fst (converge_task t xs now)"
  have v: "is_valid_task_transition (t_status ?c) s"
  proof (cases "t_status t \<in> TASK_ACTIVE")
    case True
    then show ?thesis by (rule converged_rollup_valid [OF assms(1)])
  next
    case False
    then have "t_status t = TASK_LOST"
      using assms(2) by (cases "t_status t") (auto simp: TASK_ACTIVE_def task_hard_def)
    then have "t_status ?c = TASK_LOST" by (simp add: converge_task_def)
    with rollup_valid_from [OF assms(1), of TASK_LOST] show ?thesis by simp
  qed
  have "t_status ?c \<notin> TASK_TERMINAL \<or> t_status ?c = TASK_LOST"
    using assms(2) by (cases "t_status t")
      (auto simp: converge_task_status TASK_TERMINAL_def task_hard_def)
  with v assms(1) show ?thesis by (auto simp: rolled_task_def Let_def)
qed

lemma rolled_task_hard: "task_hard (t_status t) \<Longrightarrow> t_status (rolled_task t xs now) = t_status t"
  using rolled_task_order task_order_hard by blast

lemma update_task_frame [simp]:
  "db_executions (update_task d x now) = db_executions d"
  "db_audit (update_task d x now) = db_audit d" "db_outbox (update_task d x now) = db_outbox d"
  "find_execution (update_task d x now) k = find_execution d k"
  "list_executions (update_task d x now) k = list_executions d k"
  by (simp_all add: update_task_def find_execution_def list_executions_def split: option.splits)

lemma find_task_key: "find_task d k = Some t \<Longrightarrow> t_id t = k"
  by (rule tasks.lookup_key)

lemma find_execution_key: "find_execution d k = Some x \<Longrightarrow> x_id x = k"
  by (rule executions.lookup_key)

lemma find_update_task:
  "find_task (update_task d x now) k =
    (if k = x_task_id x
     then map_option (\<lambda>t. rolled_task t (list_executions d k) now) (find_task d k)
     else find_task d k)"
  by (auto simp: update_task_def tasks.lookup_update split: option.splits dest: find_task_key)

lemma moves_update_task: "moves d (update_task d x now)"
proof (cases "find_task d (x_task_id x)")
  case (Some t)
  then have "find_task d (t_id (rolled_task t (list_executions d (t_id t)) now)) = Some t"
    by (simp add: find_task_key)
  from moves_save_task [OF this rolled_task_order rolled_task_schedule] show ?thesis
    using Some by (simp add: update_task_def)
qed (simp add: update_task_def)

section \<open>Applying an event\<close>

lemma moves_audit: "moves d (audit now d e m oc)"
  by (rule moves_same_tables) simp_all

lemma heartbeat_row_frame [simp]:
  "x_id (heartbeat_row x e now) = x_id x" "x_status (heartbeat_row x e now) = x_status x"
  "x_task_id (heartbeat_row x e now) = x_task_id x"
  by (simp_all add: heartbeat_row_def Let_def split: option.splits)

lemma heartbeat_row_order [simp]: "exec_order x (heartbeat_row x e now)"
  by (simp add: exec_order_def exec_sm.valid_refl)

lemma moves_heartbeat: "moves d (fst (apply_heartbeat_event d e m now))"
proof (cases "find_execution d (ev_execution_id e)")
  case (Some x)
  let ?y = "heartbeat_row x e now"
  have "moves d (save_execution d ?y)"
    by (rule moves_save_execution [of d ?y x]) (simp_all add: Some find_execution_key [OF Some])
  moreover have "moves (save_execution d ?y) (fst (apply_heartbeat_event d e m now))"
    using Some by (intro moves_same_tables)
      (auto simp: apply_heartbeat_event_def Let_def)
  ultimately show ?thesis by (rule moves_trans)
qed (simp add: apply_heartbeat_event_def)

lemma apply_event_cases:
  assumes "event_to_exec (ev_type e) = Some s"
    and "\<not> list_ex (\<lambda>a. a_redis_msg_id a = m) (db_audit d)"
    and "find_execution d (ev_execution_id e) = Some x"
  obtains d1 x1 d2 oc where "transition d x e s now = (d1, x1, oc)"
    and "d2 = update_task (save_execution d1
           (mark_progress (x1\<lparr>x_last_event_at := Some now, x_stalled_at := None\<rparr>) now))
           (mark_progress (x1\<lparr>x_last_event_at := Some now, x_stalled_at := None\<rparr>) now) now"
    and "apply_event d e m now =
      (audit now (if oc \<in> {OUTCOME_APPLIED, OUTCOME_OVERRIDE_LOST} \<and> is_terminal (ev_type e)
                \<and> ev_error_code e = Some LOG_FLOOD_ERROR_CODE
              then notify_log_flood d2 e now else d2) e m oc, oc)"
  using assms by (cases "transition d x e s now") (simp add: apply_event_def Let_def)

lemma apply_event_moves: "moves d (fst (apply_event d e m now))"
proof (cases "event_to_exec (ev_type e)")
  case None
  then show ?thesis by (simp add: apply_event_def moves_heartbeat)
next
  case (Some s)
  show ?thesis
  proof (cases "list_ex (\<lambda>a. a_redis_msg_id a = m) (db_audit d) \<or> find_execution d (ev_execution_id e) = None")
    case True
    with Some show ?thesis
      by (auto simp: apply_event_def moves_audit)
  next
    case False
    then obtain x where new: "\<not> list_ex (\<lambda>a. a_redis_msg_id a = m) (db_audit d)"
      and x: "find_execution d (ev_execution_id e) = Some x" by auto
    obtain d1 x1 d2 oc where t: "transition d x e s now = (d1, x1, oc)"
      and d2: "d2 = update_task (save_execution d1
           (mark_progress (x1\<lparr>x_last_event_at := Some now, x_stalled_at := None\<rparr>) now))
           (mark_progress (x1\<lparr>x_last_event_at := Some now, x_stalled_at := None\<rparr>) now) now"
      and a: "apply_event d e m now =
        (audit now (if oc \<in> {OUTCOME_APPLIED, OUTCOME_OVERRIDE_LOST} \<and> is_terminal (ev_type e)
                \<and> ev_error_code e = Some LOG_FLOOD_ERROR_CODE
              then notify_log_flood d2 e now else d2) e m oc, oc)"
      by (rule apply_event_cases [OF Some new x])
    let ?y = "mark_progress (x1\<lparr>x_last_event_at := Some now, x_stalled_at := None\<rparr>) now"
    note fr = transition_frame [OF t]
    have "moves d d1" using fr by (intro moves_same_tables) simp_all
    moreover have "moves d1 (save_execution d1 ?y)"
    proof (rule moves_save_execution [of d1 ?y x])
      show "find_execution d1 (x_id ?y) = Some x"
        using fr x by (simp add: find_execution_def) (metis find_execution_def find_execution_key)
      show "exec_order x ?y"
        using fr transition_order [OF t Some] by (simp add: exec_order_def)
    qed
    moreover have "moves (save_execution d1 ?y) d2" by (simp add: d2 moves_update_task)
    moreover have "moves d2 (fst (apply_event d e m now))"
      unfolding a by (intro moves_same_tables) simp_all
    ultimately show ?thesis by (meson moves_trans)
  qed
qed

lemma apply_event_execution:
  assumes "event_to_exec (ev_type e) = Some s"
    and "\<not> list_ex (\<lambda>a. a_redis_msg_id a = m) (db_audit d)"
    and "find_execution d (ev_execution_id e) = Some x"
    and "transition d x e s now = (d1, x1, oc)"
  shows "find_execution (fst (apply_event d e m now)) (ev_execution_id e) =
      Some (mark_progress (x1\<lparr>x_last_event_at := Some now, x_stalled_at := None\<rparr>) now)"
    and "snd (apply_event d e m now) = oc"
  using assms transition_frame [OF assms(4)] find_execution_key [OF assms(3)]
  by (auto simp: apply_event_def Let_def executions.lookup_update)
    (simp_all add: find_execution_def)

section \<open>Heartbeats and reclaims\<close>

definition reclaims :: "db \<Rightarrow> string \<Rightarrow> nat" where
  "reclaims d k = length (filter (\<lambda>r. o_execution_id r = k \<and> o_type r = Cmd_stop
     \<and> o_intent r = Some Intent_reclaim) (db_outbox d))"

lemma reclaims_issued: "reclaim_ever_issued d k \<longleftrightarrow> reclaims d k \<noteq> 0"
  by (auto simp: reclaim_ever_issued_def reclaims_def list_ex_iff filter_empty_conv)

lemma reclaims_stop_for:
  "reclaims (stop_for d x i now) k =
     reclaims d k + (if k = x_id x \<and> i = Intent_reclaim then 1 else 0)"
  using stop_for_outbox [of d x i now] by (auto simp: reclaims_def)

lemma reclaims_frame [simp]:
  "reclaims (save_execution d x) k = reclaims d k" "reclaims (audit now d e m oc) k = reclaims d k"
  by (simp_all add: reclaims_def)

lemma heartbeat_reclaims:
  "reclaims (fst (apply_heartbeat_event d e m now)) k \<le> max 1 (reclaims d k)"
  by (auto simp: apply_heartbeat_event_def Let_def reclaims_stop_for reclaims_issued
      split: option.splits)

lemma heartbeat_status:
  "map_option x_status (find_execution (fst (apply_heartbeat_event d e m now)) k)
     = map_option x_status (find_execution d k)"
proof (cases "find_execution d (ev_execution_id e)")
  case (Some x)
  then have "x_id x = ev_execution_id e" by (rule find_execution_key)
  with Some show ?thesis
    by (simp add: apply_heartbeat_event_def Let_def executions.lookup_update)
qed (simp add: apply_heartbeat_event_def)

lemma heartbeat_tasks: "find_task (fst (apply_heartbeat_event d e m now)) k = find_task d k"
  by (auto simp: apply_heartbeat_event_def Let_def split: option.splits)

section \<open>Properties\<close>

definition sample_event :: "agent_event_type \<Rightarrow> agent_event" where
  "sample_event t = \<lparr>ev_event_id = ''e1'', ev_agent_id = ''a1'', ev_task_id = ''t1'',
     ev_execution_id = ''x1'', ev_type = t, ev_remote_job_id = None, ev_exit_code = None,
     ev_error_code = None, ev_error_detail = [], ev_lost_reason = None, ev_error_count = None,
     ev_finish_reason = None, ev_log_bytes = None, ev_outcome_class = None\<rparr>"

definition event_db :: "exec_status \<Rightarrow> db" where
  \<comment> \<open>one queued task with one execution of the given status\<close>
  "event_db s = empty_db\<lparr>db_tasks := [sample_task],
     db_executions := [sample_execution\<lparr>x_status := s\<rparr>]\<rparr>"

lemma event_db_simps [simp]:
  "find_execution (event_db s) ''x1'' = Some (sample_execution\<lparr>x_status := s\<rparr>)"
  "find_task (event_db s) ''t1'' = Some sample_task" "db_audit (event_db s) = []"
  "db_outbox (event_db s) = []"
  "ev_type (sample_event t) = t" "ev_execution_id (sample_event t) = ''x1''"
  by (simp_all add: event_db_def find_execution_def find_task_def sample_event_def empty_db_def)

text \<open>Dedupe: once a lifecycle event was applied, any lifecycle event carried by the same stream
  entry is skipped and leaves the whole database unchanged.
\<close>

theorem event_redelivery_is_noop:
  assumes "ev_type e \<noteq> Ev_heartbeat" and "ev_type e' \<noteq> Ev_heartbeat"
  shows "apply_event (fst (apply_event d e m now)) e' m now'
    = (fst (apply_event d e m now), OUTCOME_SKIPPED_DUP)"
proof -
  obtain s where s: "event_to_exec (ev_type e) = Some s" using assms(1) by (cases "ev_type e") auto
  obtain s' where s': "event_to_exec (ev_type e') = Some s'" using assms(2) by (cases "ev_type e'") auto
  have "list_ex (\<lambda>a. a_redis_msg_id a = m) (db_audit (fst (apply_event d e m now)))"
    using s by (auto simp: apply_event_def Let_def audit_def split: option.splits prod.splits)
  then show ?thesis by (simp add: apply_event_def [of _ e'] s')
qed

theorem event_redelivery_is_noop_witness:
  "snd (apply_event (fst (apply_event (event_db EXEC_PENDING) (sample_event Ev_running) ''1-0'' 5))
      (sample_event Ev_finished) ''1-0'' 6) = OUTCOME_SKIPPED_DUP"
  using event_redelivery_is_noop [of "sample_event Ev_running" "sample_event Ev_finished"
      "event_db EXEC_PENDING" "''1-0''" 5 6]
  by simp

text \<open>C1. What one lifecycle event does to its execution: a hard terminal is never overwritten, a
  server-side \<open>lost\<close> yields only to an agent-authoritative terminal (and then records
  \<open>reconciled_from = lost\<close>), \<open>running\<close> never falls back to \<open>pending\<close>, and every other event is
  taken over; the execution's event clock is advanced and its stall mark cleared.
\<close>

theorem event_moves_execution:
  assumes "event_to_exec (ev_type e) = Some s"
    and "\<not> list_ex (\<lambda>a. a_redis_msg_id a = m) (db_audit d)"
    and "find_execution d (ev_execution_id e) = Some x"
  shows "\<exists>x'. find_execution (fst (apply_event d e m now)) (ev_execution_id e) = Some x'
    \<and> x_status x' =
        (if exec_hard (x_status x) then x_status x
         else if x_status x = EXEC_LOST then (if exec_hard s then s else EXEC_LOST)
         else if x_status x = EXEC_RUNNING \<and> s = EXEC_PENDING then EXEC_RUNNING else s)
    \<and> (x_status x = EXEC_LOST \<and> exec_hard s \<longrightarrow>
        x_reconciled_from x' = Some ''lost'' \<and> snd (apply_event d e m now) = OUTCOME_OVERRIDE_LOST)
    \<and> x_last_event_at x' = Some now \<and> x_stalled_at x' = None \<and> x_no_progress_at x' = None"
proof -
  obtain d1 x1 oc where t: "transition d x e s now = (d1, x1, oc)" by (metis surj_pair)
  have "x_status x = EXEC_LOST \<and> exec_hard s \<longrightarrow> x_reconciled_from x1 = Some ''lost'' \<and> oc = OUTCOME_OVERRIDE_LOST"
    using t event_to_exec_hard [OF assms(1)]
    by (auto simp: transition_def Let_def exec_hard_def split: if_splits)
  then show ?thesis
    using apply_event_execution [OF assms t] transition_status [OF t assms(1)]
    by (simp add: mark_progress_def)
qed

theorem event_moves_execution_witness:
  "\<exists>x'. find_execution (fst (apply_event (event_db EXEC_LOST) (sample_event Ev_finished) ''1-0'' 5)) ''x1''
      = Some x' \<and> x_status x' = EXEC_FINISHED \<and> x_reconciled_from x' = Some ''lost''"
  using event_moves_execution [of "sample_event Ev_finished" EXEC_FINISHED "''1-0''" "event_db EXEC_LOST"
      "sample_execution\<lparr>x_status := EXEC_LOST\<rparr>" 5]
  by (auto simp: exec_hard_def)

text \<open>C2. The task follows: after a lifecycle event on a known execution, a task that was not hard
  terminal carries exactly the roll-up of its executions once they are all terminal (so it
  cannot stay \<open>queued\<close> behind a lost \<open>running\<close> event), and a hard terminal task is untouched.
\<close>

theorem event_rolls_up_task:
  assumes "event_to_exec (ev_type e) = Some s"
    and "\<not> list_ex (\<lambda>a. a_redis_msg_id a = m) (db_audit d)"
    and "find_execution d (ev_execution_id e) = Some x" and "find_task d (x_task_id x) = Some t"
    and "apply_event d e m now = (d', oc)"
  shows "\<exists>t'. find_task d' (x_task_id x) = Some t'
    \<and> (task_hard (t_status t) \<longrightarrow> t_status t' = t_status t)
    \<and> (\<forall>r. rollup_task_status (map x_status (list_executions d' (x_task_id x))) = Some r
         \<and> \<not> task_hard (t_status t) \<longrightarrow> t_status t' = r)"
proof -
  obtain d1 x1 d2 where tr: "transition d x e s now = (d1, x1, oc)"
    and d2: "d2 = update_task (save_execution d1
           (mark_progress (x1\<lparr>x_last_event_at := Some now, x_stalled_at := None\<rparr>) now))
           (mark_progress (x1\<lparr>x_last_event_at := Some now, x_stalled_at := None\<rparr>) now) now"
    and a: "d' = audit now (if oc \<in> {OUTCOME_APPLIED, OUTCOME_OVERRIDE_LOST} \<and> is_terminal (ev_type e)
                \<and> ev_error_code e = Some LOG_FLOOD_ERROR_CODE
              then notify_log_flood d2 e now else d2) e m oc"
    using assms(5) by (metis apply_event_cases [OF assms(1-3)] fst_conv snd_conv)
  let ?y = "mark_progress (x1\<lparr>x_last_event_at := Some now, x_stalled_at := None\<rparr>) now"
  note fr = transition_frame [OF tr]
  have tasks: "find_task d' k = find_task d2 k" and execs: "list_executions d' k = list_executions d2 k" for k
    by (simp_all add: a list_executions_def)
  have "find_task (save_execution d1 ?y) (x_task_id x) = Some t"
    using assms(4) fr by (simp add: find_task_def)
  then have "find_task d2 (x_task_id x)
      = Some (rolled_task t (list_executions (save_execution d1 ?y) (x_task_id x)) now)"
    using fr by (simp add: d2 find_update_task)
  then show ?thesis
    by (auto simp: tasks execs d2 rolled_task_hard rolled_task_status)
qed

theorem event_rolls_up_task_witness:
  "\<exists>t'. find_task (fst (apply_event (event_db EXEC_PENDING) (sample_event Ev_finished) ''1-0'' 5)) ''t1''
      = Some t' \<and> t_status t' = TASK_COMPLETE"
proof -
  let ?d = "event_db EXEC_PENDING" and ?e = "sample_event Ev_finished"
  obtain d' oc where a: "apply_event ?d ?e ''1-0'' 5 = (d', oc)" by (meson surj_pair)
  have fin: "x_status x = EXEC_FINISHED" if "x \<in> set (list_executions d' ''t1'')" for x
    using that a
    by (auto simp: apply_event_def transition_def Let_def list_executions_def event_db_def
        save_execution_def set_row_def find_execution_def update_task_def empty_db_def
        sample_event_def is_valid_execution_transition_def exec_hard_def EXEC_TERMINAL_def
        split: if_splits option.splits)
  have "list_executions d' ''t1'' \<noteq> []"
    using a
    by (auto simp: apply_event_def transition_def Let_def list_executions_def event_db_def
        save_execution_def set_row_def find_execution_def update_task_def empty_db_def
        sample_event_def is_valid_execution_transition_def exec_hard_def EXEC_TERMINAL_def
        simp flip: set_empty split: if_splits option.splits)
  then have "rollup_task_status (map x_status (list_executions d' ''t1'')) = Some TASK_COMPLETE"
    using fin by (auto simp: rollup_task_status_def list_all_iff list_ex_iff EXEC_TERMINAL_def)
  with event_rolls_up_task [of ?e EXEC_FINISHED "''1-0''" ?d _ sample_task 5 d' oc] a show ?thesis
    by (auto simp: task_hard_def)
qed

text \<open>Heartbeats are liveness only: any number of them leaves every status and every task alone,
  and issues at most one reclaim per execution over the execution's whole life.
\<close>

theorem heartbeats_reclaim_at_most_once:
  assumes "\<forall>(e, m, now) \<in> set hs. ev_type e = Ev_heartbeat"
    and "d' = fold (\<lambda>(e, m, now) d. fst (apply_event d e m now)) hs d"
  shows "reclaims d' k \<le> max 1 (reclaims d k)
    \<and> map_option x_status (find_execution d' k) = map_option x_status (find_execution d k)
    \<and> find_task d' i = find_task d i"
  using assms
proof (induction hs arbitrary: d)
  case (Cons h hs)
  obtain e m now where h: "h = (e, m, now)" by (cases h)
  have hb: "apply_event d e m now = apply_heartbeat_event d e m now"
    using Cons.prems(1) by (simp add: h apply_event_def)
  from Cons.IH [of "fst (apply_heartbeat_event d e m now)"] Cons.prems
  have "reclaims d' k \<le> max 1 (reclaims (fst (apply_heartbeat_event d e m now)) k)"
    "map_option x_status (find_execution d' k)
      = map_option x_status (find_execution (fst (apply_heartbeat_event d e m now)) k)"
    "find_task d' i = find_task (fst (apply_heartbeat_event d e m now)) i"
    by (simp_all add: h hb)
  then show ?case
    using heartbeat_reclaims [of d e m now k] by (simp add: heartbeat_status heartbeat_tasks)
qed simp

theorem heartbeats_reclaim_at_most_once_witness:
  "reclaims (fold (\<lambda>(e, m, now) d. fst (apply_event d e m now))
     [(sample_event Ev_heartbeat, ''1-0'', 5), (sample_event Ev_heartbeat, ''2-0'', 6)]
     (event_db EXEC_LOST)) ''x1'' \<le> 1"
  using heartbeats_reclaim_at_most_once
    [of "[(sample_event Ev_heartbeat, ''1-0'', 5), (sample_event Ev_heartbeat, ''2-0'', 6)]"
      _ "event_db EXEC_LOST" "''x1''"]
  by (simp add: reclaims_def)

end
