(* ===== verification/Reconcile.thy ===== *)
theory Reconcile
  imports ServerEvents
begin

text \<open>
  The reconcile pass (\<^verbatim>\<open>apps/server/dopilot_server/redis/reconcile.py\<close>): declaring executions
  lost on a heartbeat timeout or an event stall, the one-shot no-progress alert, the repair of
  orphaned tasks, and the bounded drain of logs. An assignment to an attribute of a row selected
  earlier in the pass is an \<open>UPDATE\<close> of that column of the row as it is now
  (\<open>modify_execution\<close>, \<open>modify_log\<close>), so a pass is correct also when the row moved meanwhile;
  \<open>mark_lost\<close> takes the possibly stale copy and re-reads the row, as the code does.

  The lemmas show that \<open>mark_lost\<close> never overwrites a terminal, that one pass enqueues at most one
  stop per execution, that the repair leaves no orphan, and when logs are cleaned up.
\<close>

section \<open>Column updates\<close>

definition modify_execution :: "db \<Rightarrow> string \<Rightarrow> (execution \<Rightarrow> execution) \<Rightarrow> db" where
  "modify_execution d k f =
     (case find_execution d k of None \<Rightarrow> d | Some x \<Rightarrow> save_execution d (f x))"

definition modify_log :: "db \<Rightarrow> string \<times> string \<times> log_stream \<Rightarrow> (log_file \<Rightarrow> log_file) \<Rightarrow> db" where
  "modify_log d k f = (case find_log d k of None \<Rightarrow> d | Some lf \<Rightarrow> save_log d (f lf))"

section \<open>Declaring an execution lost\<close>

record reconcile_report =
  rp_heartbeat_lost :: nat
  rp_event_stall_lost :: nat
  rp_stalled :: nat
  rp_no_progress :: nat
  rp_reclaim_stops :: nat
  rp_lost_execution_ids :: "string list"
  rp_orphan_rolled_up :: nat
  rp_orphan_lost :: nat
  rp_repaired_task_ids :: "string list"

definition empty_report :: reconcile_report where
  "empty_report = \<lparr>rp_heartbeat_lost = 0, rp_event_stall_lost = 0, rp_stalled = 0,
     rp_no_progress = 0, rp_reclaim_stops = 0, rp_lost_execution_ids = [],
     rp_orphan_rolled_up = 0, rp_orphan_lost = 0, rp_repaired_task_ids = []\<rparr>"

definition rollup :: "db \<Rightarrow> string \<Rightarrow> instant \<Rightarrow> db" where
  "rollup d task_id now =
     (case find_task d task_id of None \<Rightarrow> d
      | Some t \<Rightarrow>
          if t_status t \<in> TASK_TERMINAL then d
          else (case rollup_task_status (map x_status (list_executions d task_id)) of
              None \<Rightarrow> d
            | Some rolled \<Rightarrow>
                if is_valid_task_transition (t_status t) rolled
                then save_task d (t\<lparr>t_status := rolled, t_finished_at := Some now\<rparr>) else d))"

definition mark_lost :: "db \<Rightarrow> execution \<Rightarrow> string \<Rightarrow> instant \<Rightarrow> db \<times> bool" where
  "mark_lost d stale reason now =
     (if x_status stale \<in> EXEC_TERMINAL then (d, False)
      else (case find_execution d (x_id stale) of
          None \<Rightarrow> (d, False)
        | Some x \<Rightarrow>
            if x_status x \<in> EXEC_TERMINAL then (d, False)
            else (let d = save_execution d (x\<lparr>x_status := EXEC_LOST, x_lost_reason := Some reason,
                    x_finished_at := Some now, x_error_code := Some ''agent.lost'',
                    x_error_detail := [(''reason'', JStr reason)]\<rparr>);
                  d = (case get_log_file d (x_task_id x) (x_id x) Stream_log of None \<Rightarrow> d
                    | Some lf \<Rightarrow> if lf_status lf = LOG_ACTIVE
                        then save_log d (lf\<lparr>lf_status := LOG_FINALIZING\<rparr>) else d)
                in (rollup d (x_task_id x) now, True))))"

definition node_for :: "db \<Rightarrow> string \<Rightarrow> node option" where
  \<comment> \<open>\<open>_nodes_by_agent(..).get(agent)\<close>: the last row wins, an empty agent id is no key\<close>
  "node_for d agent =
     (if agent = [] then None else find (\<lambda>n. nd_agent_id n = Some agent) (rev (db_nodes d)))"

definition first_instant :: "instant option list \<Rightarrow> instant option" where
  \<comment> \<open>\<open>a or b or c\<close>\<close>
  "first_instant ts = foldr first_some ts None"

section \<open>No progress\<close>

definition TYPE_ATTEMPT_NO_PROGRESS :: string where
  "TYPE_ATTEMPT_NO_PROGRESS = ''attempt_no_progress''"

definition check_no_progress ::
    "db \<Rightarrow> execution \<Rightarrow> instant \<Rightarrow> int \<Rightarrow> int \<Rightarrow> bool \<Rightarrow> reconcile_report \<Rightarrow> db \<times> reconcile_report" where
  "check_no_progress d x now stall_after sample_max_age auto_stop report =
     (if stall_after \<le> 0 \<or> x_no_progress_at x \<noteq> None then (d, report)
      else if x_status x \<notin> EXEC_ACTIVE then (d, report)
      else (case x_last_progress_sample_at x of None \<Rightarrow> (d, report)
        | Some sampled_at \<Rightarrow>
           if now - sampled_at > secs sample_max_age then (d, report)
           else (case first_instant [x_last_progress_at x, x_started_at x, Some (x_created_at x)] of
               None \<Rightarrow> (d, report)
             | Some baseline \<Rightarrow>
                 let idle = now - baseline in
                 if idle < secs stall_after then (d, report)
                 else (let d = modify_execution d (x_id x) (\<lambda>r. r\<lparr>x_no_progress_at := Some now\<rparr>);
                       report = report\<lparr>rp_no_progress := rp_no_progress report + 1\<rparr>;
                       d = (if auto_stop then stop_for d x Intent_cancel now else d);
                       d = fst (notify d now TYPE_ATTEMPT_NO_PROGRESS SEVERITY_WARNING
                         [(''task_id'', JStr (x_task_id x)), (''execution_id'', JStr (x_id x)),
                          (''agent_id'', JStr (or_default (x_agent_id x) [])),
                          (''log_bytes'', jint (x_log_bytes x)), (''idle_seconds'', JInt (idle div 1000000)),
                          (''threshold'', JInt stall_after), (''auto_stopped'', JBool auto_stop)]
                         (Some (''no_progress:'' @ x_id x)))
                     in (d, report)))))"

section \<open>The repair of orphaned tasks\<close>

definition ORPHAN_NO_EXECUTION :: string where
  "ORPHAN_NO_EXECUTION = ''no_execution''"

definition REPAIR_KEY :: string where
  "REPAIR_KEY = ''reconcile_repair''"

datatype repair = Rolled_up task | Forced_lost task

definition repair_audit :: "task \<Rightarrow> task \<Rightarrow> nat \<Rightarrow> instant \<Rightarrow> task" where
  "repair_audit before t n now =
     t\<lparr>t_status_detail := obj_set (t_status_detail t) REPAIR_KEY (JObj
        [(''from'', JStr (task_status_value (t_status before))),
         (''to'', JStr (task_status_value (t_status t))), (''reason'', JStr ''no_active_execution''),
         (''executions'', JInt (int n)), (''repaired_at'', JStr (isoformat now))])\<rparr>"

definition repaired :: "task \<Rightarrow> execution list \<Rightarrow> int \<Rightarrow> instant \<Rightarrow> repair option" where
  \<comment> \<open>the body of the loop on one re-read task, \<open>None\<close> for each \<open>continue\<close>\<close>
  "repaired t executions lost_after now =
     (if t_status t \<notin> TASK_ACTIVE then None
      else if list_ex (\<lambda>x. x_status x \<in> EXEC_ACTIVE) executions then None
      else if executions \<noteq> [] then
        (let c = fst (converge_task t executions now)
         in case rollup_task_status (map x_status executions) of
              None \<Rightarrow> None
            | Some rolled \<Rightarrow>
                if \<not> is_valid_task_transition (t_status c) rolled then None
                else Some (Rolled_up (repair_audit t (c\<lparr>t_status := rolled,
                   t_finished_at := first_some (max_option (List.map_filter x_finished_at executions)) (Some now)\<rparr>)
                   (length executions) now)))
      else if now - t_created_at t < secs lost_after then None
      else Some (Forced_lost (repair_audit t (t\<lparr>t_status := TASK_LOST,
             t_status_reason := Some ORPHAN_NO_EXECUTION, t_finished_at := Some now\<rparr>) 0 now)))"

definition repair_task :: "settings \<Rightarrow> instant \<Rightarrow> string \<Rightarrow> db \<times> reconcile_report \<Rightarrow> db \<times> reconcile_report" where
  "repair_task cfg now task_id = (\<lambda>(d, report).
     case find_task d task_id of None \<Rightarrow> (d, report)
     | Some t \<Rightarrow>
        (case repaired t (list_executions d task_id) (lost_after_stalled_seconds (cfg_agents cfg)) now of
           None \<Rightarrow> (d, report)
         | Some (Rolled_up t') \<Rightarrow> (save_task d t',
             report\<lparr>rp_orphan_rolled_up := rp_orphan_rolled_up report + 1,
               rp_repaired_task_ids := rp_repaired_task_ids report @ [task_id]\<rparr>)
         | Some (Forced_lost t') \<Rightarrow> (save_task d t',
             report\<lparr>rp_orphan_lost := rp_orphan_lost report + 1,
               rp_repaired_task_ids := rp_repaired_task_ids report @ [task_id]\<rparr>)))"

definition orphan_candidates :: "db \<Rightarrow> string list" where
  "orphan_candidates d =
     map t_id (sort_key t_created_at (filter (\<lambda>t. t_status t \<in> TASK_ACTIVE
       \<and> \<not> list_ex (\<lambda>x. x_task_id x = t_id t \<and> x_status x \<in> EXEC_ACTIVE) (db_executions d))
       (db_tasks d)))"

definition repair_orphaned_tasks ::
    "db \<Rightarrow> settings \<Rightarrow> instant \<Rightarrow> reconcile_report \<Rightarrow> db \<times> reconcile_report" where
  "repair_orphaned_tasks d cfg now report =
     fold (repair_task cfg now) (orphan_candidates d) (d, report)"

section \<open>The pass\<close>

definition reconcile_execution ::
    "settings \<Rightarrow> instant \<Rightarrow> (string \<Rightarrow> node option) \<Rightarrow> execution \<Rightarrow> db \<times> reconcile_report
      \<Rightarrow> db \<times> reconcile_report" where
  \<comment> \<open>the loop body of \<open>reconcile_once\<close> for one selected execution\<close>
  "reconcile_execution cfg now nodes x = (\<lambda>(d, report).
     let ag = cfg_agents cfg;
         last_seen = (case nodes (or_default (x_agent_id x) []) of None \<Rightarrow> None
           | Some n \<Rightarrow> nd_last_seen_at n);
         stale_agent = (case last_seen of None \<Rightarrow> True
           | Some seen \<Rightarrow> now - seen > secs (heartbeat_timeout_seconds ag))
     in if stale_agent then
          (let (d, ok) = mark_lost d x (lost_value Lost_heartbeat_timeout) now
           in (d, if ok then report\<lparr>rp_heartbeat_lost := rp_heartbeat_lost report + 1,
                   rp_lost_execution_ids := rp_lost_execution_ids report @ [x_id x]\<rparr> else report))
        else
          (let idle = (case first_instant [x_last_event_at x, x_started_at x, Some (x_created_at x)] of
                 None \<Rightarrow> 0 | Some baseline \<Rightarrow> now - baseline)
           in if idle \<ge> secs (lost_after_stalled_seconds ag) then
                (let (d, ok) = mark_lost d x (lost_value Lost_event_stall) now
                 in if ok then (stop_for d x Intent_reclaim now,
                       report\<lparr>rp_event_stall_lost := rp_event_stall_lost report + 1,
                         rp_lost_execution_ids := rp_lost_execution_ids report @ [x_id x],
                         rp_reclaim_stops := rp_reclaim_stops report + 1\<rparr>)
                    else (d, report))
              else
                (let hit = (idle \<ge> secs (stalled_attempt_seconds ag) \<and> x_stalled_at x = None);
                     d = (if hit then modify_execution d (x_id x) (\<lambda>r. r\<lparr>x_stalled_at := Some now\<rparr>) else d);
                     report = (if hit then report\<lparr>rp_stalled := rp_stalled report + 1\<rparr> else report)
                 in check_no_progress d x now (no_progress_stall_seconds ag)
                      (no_progress_sample_max_age_seconds ag) (auto_stop_on_no_progress ag) report)))"

definition active_executions :: "db \<Rightarrow> execution list" where
  \<comment> \<open>active executions of active tasks\<close>
  "active_executions d =
     filter (\<lambda>x. x_status x \<in> EXEC_ACTIVE
       \<and> list_ex (\<lambda>t. t_id t = x_task_id x \<and> t_status t \<in> TASK_ACTIVE) (db_tasks d)) (db_executions d)"

definition reconcile_once :: "db \<Rightarrow> settings \<Rightarrow> instant \<Rightarrow> db \<times> reconcile_report" where
  "reconcile_once d cfg now =
     (let (d, report) = fold (reconcile_execution cfg now (node_for d)) (active_executions d)
            (d, empty_report)
      in repair_orphaned_tasks d cfg now report)"

section \<open>The bounded drain\<close>

definition CLEANUP_TERMINALS :: "exec_status set" where
  "CLEANUP_TERMINALS = {EXEC_FINISHED, EXEC_FAILED, EXEC_CANCELED}"

definition drain_row :: "settings \<Rightarrow> instant \<Rightarrow> log_file \<times> execution \<Rightarrow> db \<times> nat \<Rightarrow> db \<times> nat" where
  "drain_row cfg now = (\<lambda>(lf, x) (d, n).
     case x_finished_at x of None \<Rightarrow> (d, n)
     | Some finished \<Rightarrow>
        if now - finished < secs (log_drain_timeout_seconds (cfg_logs cfg)) then (d, n)
        else if x_status x = EXEC_LOST \<and> \<not> reclaim_ever_issued d (x_id x) then (d, n)
        else (let retention = retention_days (cfg_logs cfg);
                  d = modify_log d (log_key lf) (\<lambda>f.
                    let f = f\<lparr>lf_status := LOG_COMPLETE, lf_final_offset := Some (lf_size_bytes f),
                              lf_finished_at := Some now\<rparr>
                    in if retention > 0 then f\<lparr>lf_retained_until := Some (now + days retention)\<rparr> else f);
                  d = fst (create_cleanup_outbox d now (lf_task_id lf) (lf_execution_id lf)
                    (or_default (x_agent_id x) []))
              in (d, n + 1)))"

definition drain_candidates :: "db \<Rightarrow> (log_file \<times> execution) list" where
  "drain_candidates d =
     concat (map (\<lambda>lf. map (\<lambda>x. (lf, x)) (filter (\<lambda>x. x_id x = lf_execution_id lf
         \<and> x_status x \<in> CLEANUP_TERMINALS \<union> {EXEC_LOST}) (db_executions d)))
       (filter (\<lambda>lf. lf_status lf \<in> {LOG_ACTIVE, LOG_FINALIZING}) (db_log_files d)))"

definition finalize_drained_logs :: "db \<Rightarrow> settings \<Rightarrow> instant \<Rightarrow> db \<times> nat" where
  "finalize_drained_logs d cfg now = fold (drain_row cfg now) (drain_candidates d) (d, 0)"

section \<open>Facts: column updates\<close>

lemma modify_execution_frame [simp]:
  "db_tasks (modify_execution d k f) = db_tasks d" "db_outbox (modify_execution d k f) = db_outbox d"
  "find_task (modify_execution d k f) i = find_task d i"
  "db_log_files (modify_execution d k f) = db_log_files d"
  by (simp_all add: modify_execution_def split: option.splits)

lemma modify_log_frame [simp]:
  "db_tasks (modify_log d k f) = db_tasks d" "db_executions (modify_log d k f) = db_executions d"
  "db_outbox (modify_log d k f) = db_outbox d"
  by (simp_all add: modify_log_def split: option.splits)

lemma moves_modify_execution:
  assumes "\<And>x. exec_order x (f x)" and "\<And>x. x_id (f x) = x_id x"
  shows "moves d (modify_execution d k f)"
proof (cases "find_execution d k")
  case (Some x)
  then have "find_execution d (x_id (f x)) = Some x"
    using assms(2) find_execution_key by fastforce
  from moves_save_execution [OF this assms(1)] Some show ?thesis
    by (simp add: modify_execution_def)
qed (simp add: modify_execution_def)

lemma keys_unique_frame [simp]:
  "keys_unique (stop_for d x i now) = keys_unique d"
  "keys_unique (fst (notify d now ty sv p k)) = keys_unique d"
  "keys_unique (modify_execution d k2 f) = keys_unique d"
  "keys_unique (modify_log d k3 g) = keys_unique d"
  by (simp_all add: keys_unique_def modify_execution_def modify_log_def save_execution_def
      save_log_def split: option.splits)

section \<open>Facts: \<open>mark_lost\<close>\<close>

lemma rollup_frame [simp]:
  "db_executions (rollup d k now) = db_executions d" "db_outbox (rollup d k now) = db_outbox d"
  "db_log_files (rollup d k now) = db_log_files d"
  "find_execution (rollup d k now) i = find_execution d i"
  "keys_unique (rollup d k now) = keys_unique d"
  by (simp_all add: rollup_def find_execution_def split: option.splits)

lemma moves_save_valid:
  "find_task d k = Some t \<Longrightarrow> t_id t' = t_id t \<Longrightarrow> is_valid_task_transition (t_status t) (t_status t')
    \<Longrightarrow> t_schedule_id t' = t_schedule_id t \<Longrightarrow> moves d (save_task d t')"
  by (rule moves_save_task [of d t' t]) (simp_all add: find_task_key task_order_valid)

lemma moves_rollup: "moves d (rollup d k now)"
  by (auto simp: rollup_def split: option.splits intro: moves_save_valid)

definition lost_row :: "execution \<Rightarrow> string \<Rightarrow> instant \<Rightarrow> execution" where
  "lost_row x reason now = x\<lparr>x_status := EXEC_LOST, x_lost_reason := Some reason,
     x_finished_at := Some now, x_error_code := Some ''agent.lost'',
     x_error_detail := [(''reason'', JStr reason)]\<rparr>"

lemma lost_row_simps [simp]:
  "x_id (lost_row x r now) = x_id x" "x_status (lost_row x r now) = EXEC_LOST"
  "x_task_id (lost_row x r now) = x_task_id x" "x_lost_reason (lost_row x r now) = Some r"
  by (simp_all add: lost_row_def)

lemma mark_lost_cases:
  obtains "mark_lost d y reason now = (d, False)"
      and "x_status y \<in> EXEC_TERMINAL \<or> find_execution d (x_id y) = None
        \<or> (\<exists>x. find_execution d (x_id y) = Some x \<and> x_status x \<in> EXEC_TERMINAL)"
  | x d1 where "x_status y \<in> EXEC_ACTIVE" "find_execution d (x_id y) = Some x" "x_status x \<in> EXEC_ACTIVE"
      "mark_lost d y reason now = (rollup d1 (x_task_id x) now, True)"
      "db_tasks d1 = db_tasks d" "db_executions d1 = db_executions (save_execution d (lost_row x reason now))"
      "db_outbox d1 = db_outbox d" "keys_unique d1 = keys_unique d"
proof (cases "x_status y \<in> EXEC_TERMINAL \<or> find_execution d (x_id y) = None
        \<or> (\<exists>x. find_execution d (x_id y) = Some x \<and> x_status x \<in> EXEC_TERMINAL)")
  case True
  moreover from True have "mark_lost d y reason now = (d, False)"
    by (auto simp: mark_lost_def)
  ultimately show thesis by (rule that(1) [rotated])
next
  case False
  then obtain x where x: "find_execution d (x_id y) = Some x" "x_status x \<notin> EXEC_TERMINAL" by auto
  define d1 where "d1 = (let d = save_execution d (lost_row x reason now)
     in case get_log_file d (x_task_id x) (x_id x) Stream_log of None \<Rightarrow> d
        | Some lf \<Rightarrow> if lf_status lf = LOG_ACTIVE then save_log d (lf\<lparr>lf_status := LOG_FINALIZING\<rparr>) else d)"
  have "mark_lost d y reason now = (rollup d1 (x_task_id x) now, True)"
    using False x by (simp add: mark_lost_def d1_def lost_row_def Let_def)
  moreover have "db_tasks d1 = db_tasks d" "db_outbox d1 = db_outbox d" "keys_unique d1 = keys_unique d"
    "db_executions d1 = db_executions (save_execution d (lost_row x reason now))"
    by (simp_all add: d1_def Let_def split: option.splits)
  ultimately show thesis
    using False x by (intro that(2) [of x d1]) (simp_all add: exec_active_or_terminal)
qed

lemma moves_mark_lost: "moves d (fst (mark_lost d y reason now))"
proof (cases rule: mark_lost_cases [of d y reason now])
  case (2 x d1)
  have "moves d (save_execution d (lost_row x reason now))"
    using 2 by (intro moves_save_execution [of d "lost_row x reason now" x])
      (auto simp: exec_order_def EXEC_TERMINAL_def find_execution_key intro: active_to_terminal_valid)
  moreover have "moves (save_execution d (lost_row x reason now)) d1"
    using 2 by (intro moves_same_tables) simp_all
  ultimately show ?thesis
    using moves_rollup [of d1 "x_task_id x" now] 2 by (simp, meson moves_trans)
qed simp

lemma mark_lost_outbox [simp]: "db_outbox (fst (mark_lost d y r now)) = db_outbox d"
  by (cases rule: mark_lost_cases [of d y r now]) simp_all

lemma mark_lost_keys [simp]: "keys_unique (fst (mark_lost d y r now)) = keys_unique d"
  by (cases rule: mark_lost_cases [of d y r now]) simp_all

lemma mark_lost_execution:
  "find_execution (fst (mark_lost d y r now)) k =
     (if snd (mark_lost d y r now) \<and> k = x_id y
      then map_option (\<lambda>x. lost_row x r now) (find_execution d k) else find_execution d k)"
proof (cases rule: mark_lost_cases [of d y r now])
  case (2 x d1)
  then have "x_id x = x_id y" by (simp add: find_execution_key)
  moreover have "find_execution d1 k = find_execution (save_execution d (lost_row x r now)) k"
    using 2 by (simp add: find_execution_def)
  ultimately show ?thesis using 2 by (simp add: executions.lookup_update)
qed simp

section \<open>Facts: the pass\<close>

lemma check_no_progress_outbox:
  "\<exists>rs. db_outbox (fst (check_no_progress d x now a b c rep)) = db_outbox d @ rs
     \<and> length rs \<le> 1 \<and> (\<forall>r \<in> set rs. o_type r = Cmd_stop \<and> o_intent r = Some Intent_cancel
          \<and> o_execution_id r = x_id x)"
proof -
  have "\<exists>rs. db_outbox (if c then stop_for d x Intent_cancel now else d) = db_outbox d @ rs
     \<and> length rs \<le> 1 \<and> (\<forall>r \<in> set rs. o_type r = Cmd_stop \<and> o_intent r = Some Intent_cancel
          \<and> o_execution_id r = x_id x)" for d
    using stop_for_outbox [of d x Intent_cancel now] by (cases c) auto
  then show ?thesis
    by (simp add: check_no_progress_def Let_def split: option.splits) (metis modify_execution_frame(2))
qed

lemma moves_stop_for: "moves d (stop_for d x i now)"
  by (rule moves_same_tables) simp_all

lemma moves_notify: "moves d (fst (notify d now ty sv p k))"
  by (rule moves_same_tables) simp_all

lemma moves_notify_stop:
  "moves d e \<Longrightarrow> moves d (fst (notify e now ty sv p k))"
  "moves d e \<Longrightarrow> moves d (fst (notify (stop_for e x i now) now ty sv p k))"
  by (meson moves_trans moves_notify moves_stop_for)+

lemma moves_check_no_progress: "moves d (fst (check_no_progress d x now a b c rep))"
proof -
  have "moves d (modify_execution d (x_id x) (\<lambda>r. r\<lparr>x_no_progress_at := Some now\<rparr>))"
    by (rule moves_modify_execution) (simp_all add: exec_order_def exec_sm.valid_refl)
  then show ?thesis
    by (auto simp: check_no_progress_def Let_def split: option.splits
        intro: moves_notify_stop)
qed

lemma keys_check_no_progress [simp]:
  "keys_unique (fst (check_no_progress d x now a b c rep)) = keys_unique d"
  by (simp add: check_no_progress_def Let_def split: option.splits)

lemma reconcile_execution_cases:
  obtains reason where "fst (reconcile_execution cfg now nodes x (d, rep)) = fst (mark_lost d x reason now)"
  | reason where "snd (mark_lost d x reason now)"
      "fst (reconcile_execution cfg now nodes x (d, rep))
        = stop_for (fst (mark_lost d x reason now)) x Intent_reclaim now"
  | d1 rep1 where "d1 = d \<or> d1 = modify_execution d (x_id x) (\<lambda>r. r\<lparr>x_stalled_at := Some now\<rparr>)"
      "reconcile_execution cfg now nodes x (d, rep)
        = check_no_progress d1 x now (no_progress_stall_seconds (cfg_agents cfg))
            (no_progress_sample_max_age_seconds (cfg_agents cfg))
            (auto_stop_on_no_progress (cfg_agents cfg)) rep1"
proof -
  have "(\<exists>reason. fst (reconcile_execution cfg now nodes x (d, rep)) = fst (mark_lost d x reason now))
    \<or> (\<exists>reason. snd (mark_lost d x reason now) \<and> fst (reconcile_execution cfg now nodes x (d, rep))
        = stop_for (fst (mark_lost d x reason now)) x Intent_reclaim now)
    \<or> (\<exists>d1 rep1. (d1 = d \<or> d1 = modify_execution d (x_id x) (\<lambda>r. r\<lparr>x_stalled_at := Some now\<rparr>))
      \<and> reconcile_execution cfg now nodes x (d, rep)
        = check_no_progress d1 x now (no_progress_stall_seconds (cfg_agents cfg))
            (no_progress_sample_max_age_seconds (cfg_agents cfg))
            (auto_stop_on_no_progress (cfg_agents cfg)) rep1)"
    unfolding reconcile_execution_def prod.case Let_def split_beta
    by (auto split: if_splits)
  then show thesis using that by blast
qed

lemma reconcile_execution_outbox:
  "\<exists>rs. db_outbox (fst (reconcile_execution cfg now nodes x (d, rep))) = db_outbox d @ rs
     \<and> length rs \<le> 1 \<and> (\<forall>r \<in> set rs. o_type r = Cmd_stop \<and> o_execution_id r = x_id x)"
proof (cases rule: reconcile_execution_cases [of cfg now nodes x d rep])
  case (2 reason)
  then show ?thesis
    using stop_for_outbox [of "fst (mark_lost d x reason now)" x Intent_reclaim now] by auto
next
  case (3 d1 rep1)
  then show ?thesis
    using check_no_progress_outbox [of d1 x now] by (metis modify_execution_frame(2))
qed simp

lemma moves_reconcile_execution: "moves d (fst (reconcile_execution cfg now nodes x (d, rep)))"
proof (cases rule: reconcile_execution_cases [of cfg now nodes x d rep])
  case (1 reason)
  then show ?thesis by (simp add: moves_mark_lost)
next
  case (2 reason)
  then show ?thesis by (metis moves_mark_lost moves_stop_for moves_trans)
next
  case (3 d1 rep1)
  have "moves d (modify_execution d (x_id x) (\<lambda>r. r\<lparr>x_stalled_at := Some now\<rparr>))"
    by (rule moves_modify_execution) (simp_all add: exec_order_def exec_sm.valid_refl)
  then have "moves d d1" using 3 by auto
  then show ?thesis unfolding 3(2) by (rule moves_trans) (rule moves_check_no_progress)
qed

lemma keys_reconcile_execution [simp]:
  "keys_unique (fst (reconcile_execution cfg now nodes x (d, rep))) = keys_unique d"
  by (cases rule: reconcile_execution_cases [of cfg now nodes x d rep]) auto

lemma reconcile_fold:
  assumes "distinct (map x_id xs)"
  shows "moves d (fst (fold (reconcile_execution cfg now nodes) xs (d, rep)))
    \<and> keys_unique (fst (fold (reconcile_execution cfg now nodes) xs (d, rep))) = keys_unique d
    \<and> (\<exists>rs. db_outbox (fst (fold (reconcile_execution cfg now nodes) xs (d, rep))) = db_outbox d @ rs
        \<and> (\<forall>r \<in> set rs. o_type r = Cmd_stop \<and> o_execution_id r \<in> x_id ` set xs)
        \<and> distinct (map o_execution_id rs))"
  using assms
proof (induction xs arbitrary: d rep)
  case Nil
  show ?case by (auto intro: exI [of _ "[]"])
next
  case (Cons x xs)
  obtain d1 rep1 where s: "reconcile_execution cfg now nodes x (d, rep) = (d1, rep1)" by fastforce
  obtain r1 where r1: "db_outbox d1 = db_outbox d @ r1" "length r1 \<le> 1"
    "\<forall>r \<in> set r1. o_type r = Cmd_stop \<and> o_execution_id r = x_id x"
    using reconcile_execution_outbox [of cfg now nodes x d rep] s by auto
  have m: "moves d d1" "keys_unique d1 = keys_unique d"
    using moves_reconcile_execution [of d cfg now nodes x rep] keys_reconcile_execution [of cfg now nodes x d rep] s
    by simp_all
  have d: "distinct (map x_id xs)" and nx: "x_id x \<notin> x_id ` set xs" using Cons.prems by simp_all
  from Cons.IH [OF d, of d1 rep1] obtain rs where
    "moves d1 (fst (fold (reconcile_execution cfg now nodes) xs (d1, rep1)))"
    "keys_unique (fst (fold (reconcile_execution cfg now nodes) xs (d1, rep1))) = keys_unique d1"
    "db_outbox (fst (fold (reconcile_execution cfg now nodes) xs (d1, rep1))) = db_outbox d1 @ rs"
    "\<forall>r \<in> set rs. o_type r = Cmd_stop \<and> o_execution_id r \<in> x_id ` set xs"
    "distinct (map o_execution_id rs)" by blast
  moreover have "distinct (map o_execution_id (r1 @ rs))"
    using r1 nx calculation by (cases r1) auto
  ultimately show ?case
    using r1 m by (auto simp: s intro!: exI [of _ "r1 @ rs"] intro: moves_trans)
qed

section \<open>Facts: the repair\<close>

lemma repaired_None:
  assumes "repaired t xs w now = None" and "t_status t \<in> TASK_ACTIVE"
    and "\<forall>x \<in> set xs. x_status x \<notin> EXEC_ACTIVE"
  shows "xs = [] \<and> now - t_created_at t < secs w"
proof (cases "xs = []")
  case True
  with assms show ?thesis by (simp add: repaired_def split: if_splits)
next
  case False
  with assms(3) obtain s where s: "rollup_task_status (map x_status xs) = Some s"
    by (cases "rollup_task_status (map x_status xs)") (auto simp: rollup_None_iff)
  from converged_rollup_valid [OF s assms(2), of now] assms False s show ?thesis
    by (auto simp: repaired_def Let_def list_ex_iff)
qed

definition repair_result :: "repair \<Rightarrow> task" where
  "repair_result r = (case r of Rolled_up t \<Rightarrow> t | Forced_lost t \<Rightarrow> t)"

lemma repair_audit_simps [simp]:
  "t_schedule_id (repair_audit b t n now) = t_schedule_id t" "t_id (repair_audit b t n now) = t_id t" "t_status (repair_audit b t n now) = t_status t"
  by (simp_all add: repair_audit_def)

lemma repaired_Some:
  assumes "repaired t xs w now = Some r"
  shows "t_id (repair_result r) = t_id t \<and> t_status (repair_result r) \<in> TASK_TERMINAL
    \<and> t_status t \<in> TASK_ACTIVE \<and> task_order (t_status t) (t_status (repair_result r))
    \<and> (\<forall>s. rollup_task_status (map x_status xs) = Some s \<longrightarrow> t_status (repair_result r) = s)
    \<and> (xs = [] \<longrightarrow> t_status (repair_result r) = TASK_LOST \<and> now - t_created_at t \<ge> secs w)"
proof -
  have a: "t_status t \<in> TASK_ACTIVE" using assms by (auto simp: repaired_def split: if_splits)
  show ?thesis
  proof (cases "xs = []")
    case True
    then show ?thesis using assms a
      by (auto simp: repaired_def repair_result_def TASK_TERMINAL_def rollup_task_status_def
          intro: task_active_order split: if_splits)
  next
    case False
    then obtain s where s: "rollup_task_status (map x_status xs) = Some s"
      and v: "is_valid_task_transition (t_status (fst (converge_task t xs now))) s"
      and r: "t_id (repair_result r) = t_id t" "t_status (repair_result r) = s"
      using assms
      by (auto simp: repaired_def repair_result_def Let_def split: if_splits option.splits)
    then show ?thesis
      using a False rollup_is_terminal [OF s] converge_task_order task_order_valid [OF v]
      by (auto intro: task_order_trans)
  qed
qed

lemma repaired_schedule: "repaired t xs w now = Some r \<Longrightarrow> t_schedule_id (repair_result r) = t_schedule_id t"
  by (auto simp: repaired_def repair_result_def Let_def split: if_splits option.splits)

lemma repair_task_simps:
  "fst (repair_task cfg now k (d, rep)) =
    (case find_task d k of None \<Rightarrow> d
     | Some t \<Rightarrow> (case repaired t (list_executions d k) (lost_after_stalled_seconds (cfg_agents cfg)) now of
         None \<Rightarrow> d | Some r \<Rightarrow> save_task d (repair_result r)))"
  by (auto simp: repair_task_def repair_result_def split: option.splits repair.splits)

lemma moves_repair_task: "moves d (fst (repair_task cfg now k (d, rep)))"
  unfolding repair_task_simps
  by (auto simp: find_task_key repaired_schedule split: option.splits dest: repaired_Some intro!: moves_save_task)

lemma repair_task_frame [simp]:
  "list_executions (fst (repair_task cfg now k (d, rep))) i = list_executions d i"
  "db_executions (fst (repair_task cfg now k (d, rep))) = db_executions d"
  "db_outbox (fst (repair_task cfg now k (d, rep))) = db_outbox d"
  by (simp_all add: repair_task_simps split: option.splits)

lemma repair_task_find:
  "find_task (fst (repair_task cfg now k (d, rep))) i =
    (if i \<noteq> k then find_task d i
     else map_option (\<lambda>t. case repaired t (list_executions d k) (lost_after_stalled_seconds (cfg_agents cfg)) now
            of None \<Rightarrow> t | Some r \<Rightarrow> repair_result r) (find_task d k))"
  unfolding repair_task_simps
  by (auto simp: tasks.lookup_update find_task_key split: option.splits dest!: repaired_Some)

lemma repair_fold:
  assumes "distinct ks"
  shows "moves d (fst (fold (repair_task cfg now) ks (d, rep)))
    \<and> db_executions (fst (fold (repair_task cfg now) ks (d, rep))) = db_executions d
    \<and> db_outbox (fst (fold (repair_task cfg now) ks (d, rep))) = db_outbox d
    \<and> find_task (fst (fold (repair_task cfg now) ks (d, rep))) i =
      (if i \<in> set ks
       then map_option (\<lambda>t. case repaired t (list_executions d i) (lost_after_stalled_seconds (cfg_agents cfg)) now
            of None \<Rightarrow> t | Some r \<Rightarrow> repair_result r) (find_task d i)
       else find_task d i)"
  using assms
proof (induction ks arbitrary: d rep)
  case (Cons k ks)
  obtain d1 rep1 where s: "repair_task cfg now k (d, rep) = (d1, rep1)" by fastforce
  have m: "moves d d1" "list_executions d1 = list_executions d" "db_executions d1 = db_executions d"
    "db_outbox d1 = db_outbox d"
    using moves_repair_task [of d cfg now k rep] repair_task_frame [of cfg now k d rep] s
    by (auto simp: fun_eq_iff)
  have f: "find_task d1 i = (if i \<noteq> k then find_task d i
     else map_option (\<lambda>t. case repaired t (list_executions d k) (lost_after_stalled_seconds (cfg_agents cfg)) now
            of None \<Rightarrow> t | Some r \<Rightarrow> repair_result r) (find_task d k))" for i
    using repair_task_find [of cfg now k d rep i] s by simp
  have d: "distinct ks" "k \<notin> set ks" using Cons.prems by simp_all
  note ih = Cons.IH [OF d(1), of d1 rep1]
  from ih m d(2) show ?case
    by (auto simp: s f intro: moves_trans)
qed simp

lemma distinct_orphan_candidates: "keys_unique d \<Longrightarrow> distinct (orphan_candidates d)"
  by (simp add: orphan_candidates_def keys_unique_def distinct_map_filter distinct_map)
    (auto simp: inj_on_def)

lemma active_not_candidate:
  assumes "keys_unique d" and "find_task d k = Some t" and "t_status t \<in> TASK_ACTIVE"
    and "k \<notin> set (orphan_candidates d)"
  shows "\<exists>x \<in> set (list_executions d k). x_status x \<in> EXEC_ACTIVE"
proof -
  have "t \<in> set (db_tasks d)" "t_id t = k"
    using assms(2) by (auto simp: find_task_def dest: find_row_mem find_row_key)
  with assms(3,4) have "\<exists>x \<in> set (db_executions d). x_task_id x = k \<and> x_status x \<in> EXEC_ACTIVE"
    by (auto simp: orphan_candidates_def list_ex_iff image_iff)
  then show ?thesis by (auto simp: Bex_def list_executions_mem)
qed

section \<open>Facts: the drain\<close>

lemma drain_row_outbox:
  "\<exists>rs. db_outbox (fst (drain_row cfg now (lf, x) (d, n))) = db_outbox d @ rs
     \<and> (\<forall>r \<in> set rs. o_type r = Cmd_cleanup_logs \<and> o_execution_id r = lf_execution_id lf
          \<and> (x_status x = EXEC_LOST \<longrightarrow> reclaim_ever_issued d (x_id x))
          \<and> (\<exists>f. x_finished_at x = Some f \<and> now - f \<ge> secs (log_drain_timeout_seconds (cfg_logs cfg))))"
proof -
  let ?retain = "\<lambda>f. let f = f\<lparr>lf_status := LOG_COMPLETE, lf_final_offset := Some (lf_size_bytes f),
                              lf_finished_at := Some now\<rparr>
                    in if retention_days (cfg_logs cfg) > 0
                       then f\<lparr>lf_retained_until := Some (now + days (retention_days (cfg_logs cfg)))\<rparr> else f"
  let ?d = "fst (create_cleanup_outbox (modify_log d (log_key lf) ?retain) now (lf_task_id lf)
      (lf_execution_id lf) (or_default (x_agent_id x) []))"
  obtain r where r: "db_outbox ?d = db_outbox d @ [r]" "o_type r = Cmd_cleanup_logs"
    "o_execution_id r = lf_execution_id lf"
    using new_command_outbox [of "modify_log d (log_key lf) ?retain" now False "lf_task_id lf"
        "lf_execution_id lf" "or_default (x_agent_id x) []" Cmd_cleanup_logs None "[]"]
    by (auto simp: create_cleanup_outbox_def)
  have "drain_row cfg now (lf, x) (d, n) = (d, n) \<or>
      (drain_row cfg now (lf, x) (d, n) = (?d, n + 1)
       \<and> (x_status x = EXEC_LOST \<longrightarrow> reclaim_ever_issued d (x_id x))
       \<and> (\<exists>f. x_finished_at x = Some f \<and> now - f \<ge> secs (log_drain_timeout_seconds (cfg_logs cfg))))"
    by (simp add: drain_row_def Let_def split: option.splits)
  then show ?thesis
  proof
    assume "drain_row cfg now (lf, x) (d, n) = (d, n)"
    then show ?thesis by (intro exI [of _ "[]"]) simp
  next
    assume "drain_row cfg now (lf, x) (d, n) = (?d, n + 1)
       \<and> (x_status x = EXEC_LOST \<longrightarrow> reclaim_ever_issued d (x_id x))
       \<and> (\<exists>f. x_finished_at x = Some f \<and> now - f \<ge> secs (log_drain_timeout_seconds (cfg_logs cfg)))"
    with r show ?thesis by (intro exI [of _ "[r]"]) (simp del: secs_mono)
  qed
qed

lemma drain_row_reclaims: "reclaim_ever_issued (fst (drain_row cfg now (lf, x) (d, n))) k = reclaim_ever_issued d k"
  using drain_row_outbox [of cfg now lf x d n] by (auto simp: reclaim_ever_issued_def list_ex_iff)

lemma drain_row_tables [simp]:
  "db_tasks (fst (drain_row cfg now p (d, n))) = db_tasks d"
  "db_executions (fst (drain_row cfg now p (d, n))) = db_executions d"
  by (auto simp: drain_row_def Let_def create_cleanup_outbox_def split: prod.splits option.splits)

lemma drain_fold:
  "db_tasks (fst (fold (drain_row cfg now) ps (d, n))) = db_tasks d
   \<and> db_executions (fst (fold (drain_row cfg now) ps (d, n))) = db_executions d
   \<and> (\<exists>rs. db_outbox (fst (fold (drain_row cfg now) ps (d, n))) = db_outbox d @ rs
     \<and> (\<forall>r \<in> set rs. o_type r = Cmd_cleanup_logs \<and> (\<exists>(lf, x) \<in> set ps. o_execution_id r = lf_execution_id lf
          \<and> (x_status x = EXEC_LOST \<longrightarrow> reclaim_ever_issued d (x_id x))
          \<and> (\<exists>f. x_finished_at x = Some f \<and> now - f \<ge> secs (log_drain_timeout_seconds (cfg_logs cfg))))))"
proof (induction ps arbitrary: d n)
  case (Cons p ps)
  obtain lf x where p: "p = (lf, x)" by fastforce
  obtain d1 n1 where s: "drain_row cfg now (lf, x) (d, n) = (d1, n1)" by fastforce
  obtain r1 where r1: "db_outbox d1 = db_outbox d @ r1"
    "\<forall>r \<in> set r1. o_type r = Cmd_cleanup_logs \<and> o_execution_id r = lf_execution_id lf
          \<and> (x_status x = EXEC_LOST \<longrightarrow> reclaim_ever_issued d (x_id x))
          \<and> (\<exists>f. x_finished_at x = Some f \<and> now - f \<ge> secs (log_drain_timeout_seconds (cfg_logs cfg)))"
    using drain_row_outbox [of cfg now lf x d n] s by auto
  have same: "reclaim_ever_issued d1 k = reclaim_ever_issued d k" for k
    using drain_row_reclaims [of cfg now lf x d n k] s by simp
  have t: "db_tasks d1 = db_tasks d" "db_executions d1 = db_executions d"
    using drain_row_tables [of cfg now "(lf, x)" d n] s by simp_all
  from Cons.IH [of d1 n1] obtain rs where rs:
    "db_outbox (fst (fold (drain_row cfg now) ps (d1, n1))) = db_outbox d1 @ rs"
    "\<forall>r \<in> set rs. o_type r = Cmd_cleanup_logs \<and> (\<exists>(lf, x) \<in> set ps. o_execution_id r = lf_execution_id lf
          \<and> (x_status x = EXEC_LOST \<longrightarrow> reclaim_ever_issued d (x_id x))
          \<and> (\<exists>f. x_finished_at x = Some f \<and> now - f \<ge> secs (log_drain_timeout_seconds (cfg_logs cfg))))"
    by (auto simp: same)
  show ?case
    using Cons.IH [of d1 n1] rs r1 t
    by (intro conjI exI [of _ "r1 @ rs"]) (auto simp: p s)
qed simp

lemma moves_finalize: "moves d (fst (finalize_drained_logs d cfg now))"
  by (rule moves_same_tables) (simp_all add: finalize_drained_logs_def drain_fold)

lemma moves_repair: "keys_unique d \<Longrightarrow> moves d (fst (repair_orphaned_tasks d cfg now rep))"
  by (simp add: repair_orphaned_tasks_def repair_fold distinct_orphan_candidates)

lemma distinct_active: "keys_unique d \<Longrightarrow> distinct (map x_id (active_executions d))"
  by (simp add: active_executions_def keys_unique_def distinct_map_filter)

lemma moves_reconcile_once: "keys_unique d \<Longrightarrow> moves d (fst (reconcile_once d cfg now))"
proof -
  assume k: "keys_unique d"
  obtain d1 rep1 where s: "fold (reconcile_execution cfg now (node_for d)) (active_executions d)
      (d, empty_report) = (d1, rep1)" by fastforce
  from reconcile_fold [OF distinct_active [OF k], of d cfg now "node_for d" empty_report] s k
  have "moves d d1" "keys_unique d1" by simp_all
  then show ?thesis
    by (simp add: reconcile_once_def s) (meson moves_repair moves_trans)
qed

section \<open>Properties\<close>

text \<open>\<open>mark_lost\<close> on a possibly stale copy: it succeeds exactly when both the copy and the row
  re-read under the lock are active, then the row is \<open>lost\<close> with the given reason; otherwise it
  changes nothing, so a terminal committed meanwhile wins.
\<close>

theorem mark_lost_respects_terminals:
  assumes "mark_lost d stale reason now = (d', ok)"
  shows "(ok \<longleftrightarrow> x_status stale \<in> EXEC_ACTIVE
        \<and> (\<exists>x. find_execution d (x_id stale) = Some x \<and> x_status x \<in> EXEC_ACTIVE))
    \<and> (\<not> ok \<longrightarrow> d' = d)
    \<and> (ok \<longrightarrow> (\<exists>x. find_execution d' (x_id stale) = Some x \<and> x_status x = EXEC_LOST
        \<and> x_lost_reason x = Some reason))
    \<and> (\<forall>k. k \<noteq> x_id stale \<longrightarrow> find_execution d' k = find_execution d k)"
proof (cases rule: mark_lost_cases [of d stale reason now])
  case 1
  with assms show ?thesis by (auto simp: exec_active_or_terminal)
next
  case (2 x d1)
  with assms mark_lost_execution [of d stale reason now] show ?thesis by auto
qed

theorem mark_lost_respects_terminals_witness:
  "mark_lost (event_db EXEC_FINISHED) sample_execution ''heartbeat_timeout'' 9 = (event_db EXEC_FINISHED, False)
   \<and> snd (mark_lost (event_db EXEC_RUNNING) sample_execution ''heartbeat_timeout'' 9)"
proof -
  obtain d1 ok1 where 1: "mark_lost (event_db EXEC_FINISHED) sample_execution ''heartbeat_timeout'' 9 = (d1, ok1)"
    by fastforce
  obtain d2 ok2 where 2: "mark_lost (event_db EXEC_RUNNING) sample_execution ''heartbeat_timeout'' 9 = (d2, ok2)"
    by fastforce
  from mark_lost_respects_terminals [OF 1] mark_lost_respects_terminals [OF 2] show ?thesis
    by (simp add: 1 2 EXEC_ACTIVE_def)
qed

text \<open>One reconcile pass enqueues only stop commands, and at most one per execution: no
  execution is both reclaimed (as lost) and cancelled (for lack of progress) in the same pass.
\<close>

theorem one_stop_per_execution_and_pass:
  assumes "keys_unique d" and "reconcile_once d cfg now = (d', report)"
  shows "\<exists>new. db_outbox d' = db_outbox d @ new \<and> (\<forall>r \<in> set new. o_type r = Cmd_stop)
    \<and> distinct (map o_execution_id new)"
proof -
  obtain d1 rep1 where s: "fold (reconcile_execution cfg now (node_for d)) (active_executions d)
      (d, empty_report) = (d1, rep1)" by fastforce
  from reconcile_fold [OF distinct_active [OF assms(1)], of d cfg now "node_for d" empty_report] s assms(1)
  obtain rs where k: "keys_unique d1" and rs: "db_outbox d1 = db_outbox d @ rs"
    "\<forall>r \<in> set rs. o_type r = Cmd_stop" "distinct (map o_execution_id rs)" by auto
  have "db_outbox d' = db_outbox d1"
    using assms(2) repair_fold [OF distinct_orphan_candidates [OF k], of d1 cfg now rep1]
    by (simp add: reconcile_once_def s repair_orphaned_tasks_def)
  with rs show ?thesis by auto
qed

theorem one_stop_per_execution_and_pass_witness:
  "\<exists>d' report new. reconcile_once (event_db EXEC_RUNNING) default_settings (secs 99999) = (d', report)
     \<and> db_outbox d' = new \<and> distinct (map o_execution_id new)"
proof -
  obtain d' report where r: "reconcile_once (event_db EXEC_RUNNING) default_settings (secs 99999) = (d', report)"
    by fastforce
  have "keys_unique (event_db EXEC_RUNNING)"
    by (simp add: keys_unique_def event_db_def empty_db_def)
  from one_stop_per_execution_and_pass [OF this r] r show ?thesis by auto
qed

text \<open>The repair leaves no orphan: afterwards every active task has an active execution, or has
  no execution at all and is younger than the observation window; and every repaired task
  carries the roll-up of its executions.
\<close>

theorem repair_leaves_no_orphan:
  assumes "keys_unique d" and "repair_orphaned_tasks d cfg now report = (d', report')"
    and "find_task d' k = Some t'"
  shows "(t_status t' \<in> TASK_ACTIVE \<longrightarrow>
        (\<exists>x \<in> set (list_executions d' k). x_status x \<in> EXEC_ACTIVE)
        \<or> (list_executions d' k = []
           \<and> now - t_created_at t' < secs (lost_after_stalled_seconds (cfg_agents cfg))))
    \<and> (\<forall>t r. find_task d k = Some t \<and> t_status t' \<noteq> t_status t
        \<and> rollup_task_status (map x_status (list_executions d' k)) = Some r \<longrightarrow> t_status t' = r)"
proof -
  let ?w = "lost_after_stalled_seconds (cfg_agents cfg)"
  have ex: "list_executions d' k = list_executions d k"
    and f: "find_task d' k = (if k \<in> set (orphan_candidates d)
       then map_option (\<lambda>t. case repaired t (list_executions d k) ?w now
            of None \<Rightarrow> t | Some r \<Rightarrow> repair_result r) (find_task d k)
       else find_task d k)"
    using repair_fold [OF distinct_orphan_candidates [OF assms(1)], of d cfg now report k] assms(2)
    by (simp_all add: repair_orphaned_tasks_def list_executions_def)
  obtain t where t: "find_task d k = Some t"
    using f assms(3) by (cases "find_task d k") (auto split: if_splits)
  show ?thesis
  proof (cases "k \<in> set (orphan_candidates d)")
    case True
    show ?thesis
    proof (cases "repaired t (list_executions d k) ?w now")
      case None
      with True f t assms(3) have "t' = t" by simp
      then show ?thesis
        using repaired_None [OF None] t by (auto simp: ex)
    next
      case (Some r)
      with True f t assms(3) have "t' = repair_result r" by simp
      then show ?thesis
        using repaired_Some [OF Some] t by (auto simp: ex task_active_or_terminal)
    qed
  next
    case False
    with f t assms(3) have "t' = t" by simp
    then show ?thesis
      using active_not_candidate [OF assms(1) t _ False] t by (auto simp: ex)
  qed
qed

theorem repair_leaves_no_orphan_witness:
  "\<exists>d' report' t'. repair_orphaned_tasks (event_db EXEC_FINISHED) default_settings 9 empty_report
      = (d', report') \<and> find_task d' ''t1'' = Some t' \<and> t_status t' \<notin> TASK_ACTIVE"
proof -
  let ?d = "event_db EXEC_FINISHED"
  obtain d' report' where r: "repair_orphaned_tasks ?d default_settings 9 empty_report = (d', report')"
    by fastforce
  have k: "keys_unique ?d" by (simp add: keys_unique_def event_db_def empty_db_def)
  have "moves ?d d'" using moves_repair [OF k, of default_settings 9 empty_report] r by simp
  from moves_taskD [OF this, of "''t1''"] obtain t' where t': "find_task d' ''t1'' = Some t'" by auto
  have "list_executions d' ''t1'' = [sample_execution\<lparr>x_status := EXEC_FINISHED\<rparr>]"
    using repair_fold [OF distinct_orphan_candidates [OF k], of ?d default_settings 9 empty_report] r
    by (simp add: repair_orphaned_tasks_def list_executions_def event_db_def)
  with repair_leaves_no_orphan [OF k r t'] r t' show ?thesis by (auto simp: EXEC_ACTIVE_def)
qed

text \<open>Log cleanup is gated: the bounded drain enqueues a \<open>cleanup_logs\<close> only for an execution
  whose terminal is older than the drain window and is either agent-authoritative or a \<open>lost\<close>
  for which a reclaim was issued; tasks and executions stay as they are.
\<close>

theorem cleanup_only_when_done:
  assumes "finalize_drained_logs d cfg now = (d', n)"
  shows "db_tasks d' = db_tasks d \<and> db_executions d' = db_executions d
    \<and> (\<exists>new. db_outbox d' = db_outbox d @ new
        \<and> (\<forall>r \<in> set new. o_type r = Cmd_cleanup_logs
             \<and> (\<exists>x \<in> set (db_executions d). x_id x = o_execution_id r
                  \<and> (exec_hard (x_status x)
                     \<or> (x_status x = EXEC_LOST \<and> reclaim_ever_issued d (x_id x)))
                  \<and> (\<exists>f. x_finished_at x = Some f
                       \<and> now - f \<ge> secs (log_drain_timeout_seconds (cfg_logs cfg))))))"
proof -
  note df = drain_fold [of cfg now "drain_candidates d" d 0]
  obtain rs where rs: "db_outbox d' = db_outbox d @ rs"
    "\<forall>r \<in> set rs. o_type r = Cmd_cleanup_logs \<and> (\<exists>(lf, x) \<in> set (drain_candidates d).
        o_execution_id r = lf_execution_id lf
        \<and> (x_status x = EXEC_LOST \<longrightarrow> reclaim_ever_issued d (x_id x))
        \<and> (\<exists>f. x_finished_at x = Some f \<and> now - f \<ge> secs (log_drain_timeout_seconds (cfg_logs cfg))))"
    using df assms by (auto simp: finalize_drained_logs_def)
  have c: "x \<in> set (db_executions d) \<and> x_id x = lf_execution_id lf
      \<and> (exec_hard (x_status x) \<or> x_status x = EXEC_LOST)"
    if "(lf, x) \<in> set (drain_candidates d)" for lf x
    using that by (auto simp: drain_candidates_def CLEANUP_TERMINALS_def exec_hard_def)
  have "\<forall>r \<in> set rs. o_type r = Cmd_cleanup_logs \<and> (\<exists>x \<in> set (db_executions d). x_id x = o_execution_id r
      \<and> (exec_hard (x_status x) \<or> (x_status x = EXEC_LOST \<and> reclaim_ever_issued d (x_id x)))
      \<and> (\<exists>f. x_finished_at x = Some f \<and> now - f \<ge> secs (log_drain_timeout_seconds (cfg_logs cfg))))"
    using rs(2) c by (fastforce simp del: secs_mono)
  then show ?thesis
    using df assms rs(1) by (auto simp: finalize_drained_logs_def)
qed

theorem cleanup_only_when_done_witness:
  "\<exists>d' n. finalize_drained_logs (event_db EXEC_LOST) default_settings 9 = (d', n)
     \<and> db_executions d' = db_executions (event_db EXEC_LOST)"
proof -
  obtain d' n where f: "finalize_drained_logs (event_db EXEC_LOST) default_settings 9 = (d', n)" by fastforce
  from cleanup_only_when_done [OF f] f show ?thesis by blast
qed

end
