(* ===== verification/Maintenance.thy ===== *)
theory Maintenance
  imports ServerLogs Reconcile "HOL-Library.Option_ord"
begin

text \<open>
  Cleanup and retention on the server (\<^verbatim>\<open>apps/server/dopilot_server/services/maintenance.py\<close>,
  \<^verbatim>\<open>retention.py\<close>): the two-phase deletion of old terminal tasks, the truncation of oversized logs,
  the eviction that keeps the log directory within its budget, the batched prunes of the audit and
  outbox tables, the deletion of stale command streams, and the manual \<open>lost\<close>.

  The state is the \<open>log_store\<close> of the log consumer: database, bodies on disk, gauge. The disk is a
  parameter \<open>stuck\<close>: the paths whose \<open>os.remove\<close> raises.
\<close>

definition MANUAL_LOST_REASON :: string where
  "MANUAL_LOST_REASON = ''manual_cleanup''"

definition UNSEALED_LOG_STATUSES :: "log_status set" where
  "UNSEALED_LOG_STATUSES = {LOG_ACTIVE, LOG_FINALIZING}"

definition SWEEP_COUNTED_SOURCES :: "task_source set" where
  "SWEEP_COUNTED_SOURCES = {TASK_SOURCE_TIMER, TASK_SOURCE_TRIGGER_NOW}"

definition OUTBOX_RESOLVED :: "outbox_status set" where
  "OUTBOX_RESOLVED = {OUTBOX_SENT, OUTBOX_FAILED, OUTBOX_CANCELED}"

section \<open>Which tasks may go\<close>

definition terminal_before :: "instant \<Rightarrow> task \<Rightarrow> bool" where
  "terminal_before cutoff t \<longleftrightarrow> t_status t \<in> TASK_TERMINAL
     \<and> (case t_finished_at t of Some f \<Rightarrow> f < cutoff | None \<Rightarrow> t_created_at t < cutoff)"

definition unrecorded_schedule_task :: "task \<Rightarrow> bool" where
  "unrecorded_schedule_task t \<longleftrightarrow>
     t_schedule_id t \<noteq> None \<and> t_source t \<in> SWEEP_COUNTED_SOURCES \<and> t_outcome_recorded_at t = None"

definition sealed :: "db \<Rightarrow> string \<Rightarrow> bool" where
  \<comment> \<open>\<open>Task.id.not_in(open_tasks)\<close>\<close>
  "sealed d task_id \<longleftrightarrow>
     list_all (\<lambda>lf. lf_task_id lf = task_id \<longrightarrow> lf_status lf \<notin> UNSEALED_LOG_STATUSES) (db_log_files d)"

definition eligible :: "db \<Rightarrow> instant option \<Rightarrow> string list option \<Rightarrow> string list \<Rightarrow> task \<Rightarrow> bool" where
  "eligible d cutoff only exclude t \<longleftrightarrow>
     t_status t \<in> TASK_TERMINAL \<and> sealed d (t_id t) \<and> \<not> unrecorded_schedule_task t
     \<and> t_id t \<notin> set exclude
     \<and> (case cutoff of None \<Rightarrow> True | Some c \<Rightarrow> terminal_before c t)
     \<and> (case only of None \<Rightarrow> True | Some ids \<Rightarrow> ids = [] \<or> t_id t \<in> set ids)"

definition sealed_terminal_task_ids ::
    "db \<Rightarrow> instant option \<Rightarrow> nat option \<Rightarrow> string list option \<Rightarrow> string list \<Rightarrow> string list" where
  "sealed_terminal_task_ids d cutoff limit only exclude =
     (let ids = map t_id (sort_key (\<lambda>t. (t_finished_at t, t_created_at t, t_id t))
                  (filter (eligible d cutoff only exclude) (db_tasks d)))
      in case limit of None \<Rightarrow> ids | Some n \<Rightarrow> if n = 0 then ids else take n ids)"

section \<open>Deleting terminal data\<close>

record cleanup_summary =
  cl_dry_run :: bool
  cl_cutoff :: instant
  cl_tasks :: nat
  cl_executions :: nat
  cl_log_files :: nat
  cl_log_files_removed :: nat
  cl_log_bytes :: int
  cl_command_outbox :: nat

definition log_files_of :: "db \<Rightarrow> string list \<Rightarrow> log_file list" where
  "log_files_of d ids = filter (\<lambda>lf. lf_task_id lf \<in> set ids) (db_log_files d)"

definition mark_expired :: "string list \<Rightarrow> db \<Rightarrow> db" where
  \<comment> \<open>step 1\<close>
  "mark_expired ids d = d\<lparr>db_log_files := map (\<lambda>lf. if lf_task_id lf \<in> set ids
     then lf\<lparr>lf_status := LOG_EXPIRED, lf_log_integrity := INTEGRITY_EXPIRED\<rparr> else lf) (db_log_files d)\<rparr>"

definition aremove_settled :: "(string \<Rightarrow> bool) \<Rightarrow> string \<Rightarrow> log_store \<Rightarrow> log_store \<times> bool" where
  "aremove_settled stuck path s =
     (let before = body_size (lt_bodies s) path;
          (fs, removed) = (if stuck path then (lt_bodies s, False) else remove_body (lt_bodies s) path)
      in (s\<lparr>lt_bodies := fs, lt_gauge := map_option (\<lambda>g. gauge_sub g (before - body_size fs path)) (lt_gauge s)\<rparr>,
          removed))"

definition aexists :: "bodies \<Rightarrow> string \<Rightarrow> bool" where
  "aexists fs path \<longleftrightarrow> map_of fs path \<noteq> None"

primrec unlink_bodies ::
    "(string \<Rightarrow> bool) \<Rightarrow> log_file list \<Rightarrow> log_store \<Rightarrow> log_store \<times> nat \<times> string list" where
  \<comment> \<open>step 2: how many bodies were removed, and the tasks with one that could not be\<close>
  "unlink_bodies stuck [] s = (s, 0, [])"
| "unlink_bodies stuck (lf # lfs) s =
     (case aremove_settled stuck (lf_storage_path lf) s of (s, removed) \<Rightarrow>
        (let still = (\<not> removed \<and> aexists (lt_bodies s) (lf_storage_path lf)) in
         case unlink_bodies stuck lfs s of (s, n, failed) \<Rightarrow>
           (s, (if removed then Suc n else n), (if still then lf_task_id lf # failed else failed))))"

definition delete_tasks :: "string list \<Rightarrow> db \<Rightarrow> db" where
  \<comment> \<open>step 3: log files, executions, commands, tasks, in the order of the foreign keys\<close>
  "delete_tasks ids d =
     (let d = d\<lparr>db_log_files := filter (\<lambda>lf. lf_task_id lf \<notin> set ids) (db_log_files d)\<rparr>;
          d = d\<lparr>db_executions := filter (\<lambda>x. x_task_id x \<notin> set ids) (db_executions d)\<rparr>;
          d = d\<lparr>db_outbox := filter (\<lambda>r. o_task_id r \<notin> set ids) (db_outbox d)\<rparr>
      in d\<lparr>db_tasks := filter (\<lambda>t. t_id t \<notin> set ids) (db_tasks d)\<rparr>)"

definition cleanup_counts :: "db \<Rightarrow> string list \<Rightarrow> instant \<Rightarrow> bool \<Rightarrow> cleanup_summary" where
  "cleanup_counts d ids cutoff dry_run =
     \<lparr>cl_dry_run = dry_run, cl_cutoff = cutoff, cl_tasks = length ids,
      cl_executions = length (filter (\<lambda>x. x_task_id x \<in> set ids) (db_executions d)),
      cl_log_files = length (log_files_of d ids), cl_log_files_removed = 0,
      cl_log_bytes = sum_list (map lf_size_bytes (log_files_of d ids)),
      cl_command_outbox = length (filter (\<lambda>r. o_task_id r \<in> set ids) (db_outbox d))\<rparr>"

definition cleanup_terminal_data ::
    "(string \<Rightarrow> bool) \<Rightarrow> instant \<Rightarrow> bool \<Rightarrow> string list option \<Rightarrow> log_store \<Rightarrow> log_store \<times> cleanup_summary" where
  "cleanup_terminal_data stuck cutoff dry_run only s =
     (let ids = sealed_terminal_task_ids (lt_db s) (Some cutoff) None only [];
          summary = cleanup_counts (lt_db s) ids cutoff dry_run
      in if ids = [] \<or> dry_run then (s, summary)
         else (let lfs = log_files_of (lt_db s) ids;
                   s = s\<lparr>lt_db := mark_expired ids (lt_db s)\<rparr>;
                   (s, n, failed) = unlink_bodies stuck lfs s;
                   deletable = filter (\<lambda>k. k \<notin> set failed) ids
           in (s\<lparr>lt_db := delete_tasks deletable (lt_db s)\<rparr>,
               summary\<lparr>cl_log_files_removed := n, cl_tasks := length deletable\<rparr>)))"

section \<open>Cutting oversized logs\<close>

definition maintenance_marker :: "int \<Rightarrow> string" where
  "maintenance_marker cap = [CHR 0x0A] @ ''[dopilot:log-truncated max_bytes='' @ show_int cap
     @ '' reason=maintenance]'' @ [CHR 0x0A]"

definition marker_after :: "string \<Rightarrow> string \<Rightarrow> bool" where
  \<comment> \<open>the head, then anything without newline and \<open>]\<close>, then \<open>]\<close> and the final newline\<close>
  "marker_after prefx s \<longleftrightarrow> length s \<ge> length prefx + 2 \<and> take (length prefx) s = prefx
     \<and> drop (length s - 2) s = '']'' @ [CHR 0x0A]
     \<and> list_all (\<lambda>c. c \<noteq> CHR 0x0A \<and> c \<noteq> CHR '']'') (drop (length prefx) (take (length s - 2) s))"

definition any_cap_marker :: "string \<Rightarrow> bool" where
  \<comment> \<open>\<open>_ANY_CAP_MARKER\<close> on the whole of \<open>tail\<close>\<close>
  "any_cap_marker s \<longleftrightarrow> marker_after ([CHR 0x0A] @ ''[dopilot:log-truncated '') s
     \<or> marker_after ([CHR 0x0A] @ ''[dopilot:job-log-truncated '') s"

definition MAX_MARKER_LEN :: int where
  "MAX_MARKER_LEN = 160"

definition already_capped :: "string \<Rightarrow> int \<Rightarrow> bool" where
  \<comment> \<open>on the bytes of the file\<close>
  "already_capped c cap \<longleftrightarrow>
     (let sz = int (length c) in
      \<not> (sz \<le> cap \<or> sz - cap > MAX_MARKER_LEN) \<and> any_cap_marker (drop (nat cap) c))"

definition truncate_file :: "bodies \<Rightarrow> string \<Rightarrow> int \<Rightarrow> string \<Rightarrow> bodies \<times> int \<times> int" where
  "truncate_file fs path cap marker =
     (let before = body_size fs path in
      if before \<le> cap \<or> already_capped (body fs path) cap then (fs, before, before)
      else (let fs = AList.update path (take (nat cap) (body fs path) @ marker) fs
        in (fs, before, body_size fs path)))"

definition oversized :: "int \<Rightarrow> string \<Rightarrow> log_file \<Rightarrow> bool" where
  "oversized cap marker lf \<longleftrightarrow> lf_size_bytes lf > cap
     \<and> (lf_log_integrity lf \<noteq> INTEGRITY_TRUNCATED \<or> lf_size_bytes lf > cap + int (length marker))
     \<and> lf_status lf = LOG_COMPLETE \<and> lf_final_offset lf \<noteq> None"

definition cut_log :: "int \<Rightarrow> string \<Rightarrow> string \<times> string \<times> log_stream \<Rightarrow> log_store \<times> nat \<Rightarrow> log_store \<times> nat" where
  \<comment> \<open>the body of the loop over the candidates\<close>
  "cut_log cap marker key sn =
     (case sn of (s, n) \<Rightarrow>
      (case find_log (lt_db s) key of None \<Rightarrow> (s, n)
       | Some lf \<Rightarrow>
          if lf_status lf \<noteq> LOG_COMPLETE \<or> lf_final_offset lf = None then (s, n)
          else (let (fs, before, after) = truncate_file (lt_bodies s) (lf_storage_path lf) cap marker;
                    s = s\<lparr>lt_bodies := fs, lt_gauge := map_option (\<lambda>g. gauge_sub g (before - after)) (lt_gauge s)\<rparr>
            in if after = before then (s, n)
               else (s\<lparr>lt_db := save_log (lt_db s) (lf\<lparr>lf_size_bytes := after, lf_final_offset := Some after,
                       lf_log_integrity := INTEGRITY_TRUNCATED,
                       lf_truncation_reason := Some TRUNCATION_MAINTENANCE\<rparr>)\<rparr>, Suc n))))"

definition truncate_oversized_log_files :: "settings \<Rightarrow> nat \<Rightarrow> log_store \<Rightarrow> log_store \<times> nat" where
  "truncate_oversized_log_files cfg limit s =
     (let cap = max_file_bytes (cfg_logs cfg); marker = maintenance_marker cap in
      if cap \<le> 0 then (s, 0)
      else fold (cut_log cap marker)
        (take limit (map log_key (filter (oversized cap marker) (db_log_files (lt_db s))))) (s, 0))"

end
