(* ===== verification/Retention.thy ===== *)
theory Retention
  imports Maintenance
begin

text \<open>
  The second half of \<^verbatim>\<open>apps/server/dopilot_server/services/maintenance.py\<close>: eviction to the
  directory budget, stale command streams, the batched prunes, the time trim of the streams and the
  manual \<open>lost\<close>; and the sweep of \<^verbatim>\<open>retention.py\<close> that runs them.

  Redis is a record of functions over a world \<open>'r\<close>, with \<open>None\<close> or \<open>Inl\<close> for an exception.
  Time stamps in milliseconds are the microseconds of an instant divided by 1000.
\<close>

section \<open>Eviction to the budget\<close>

definition TYPE_LOGS_DIR_OVER_BUDGET :: string where
  "TYPE_LOGS_DIR_OVER_BUDGET = ''logs_dir_over_budget''"

record evict_result =
  er_evicted :: nat
  er_recovered :: bool
  er_bytes :: int
  er_skipped :: nat

definition gauge_value :: "log_store \<Rightarrow> int" where
  "gauge_value s = (case lt_gauge s of None \<Rightarrow> 0 | Some g \<Rightarrow> ga_value g)"

primrec evict_loop ::
    "(string \<Rightarrow> bool) \<Rightarrow> instant \<Rightarrow> int \<Rightarrow> nat \<Rightarrow> string list \<Rightarrow> evict_result \<Rightarrow> log_store
      \<Rightarrow> log_store \<times> evict_result" where
  \<comment> \<open>the loop, with the attempts that are left\<close>
  "evict_loop stuck now budget 0 skipped r s =
     (s, r\<lparr>er_recovered := \<not> gauge_value s > budget, er_skipped := length skipped\<rparr>)"
| "evict_loop stuck now budget (Suc n) skipped r s =
     (if \<not> gauge_value s > budget then (s, r\<lparr>er_skipped := length skipped\<rparr>)
      else (case sealed_terminal_task_ids (lt_db s) None (Some 1) None skipped of
          [] \<Rightarrow> (s, r\<lparr>er_recovered := False, er_skipped := length skipped\<rparr>)
        | victim # _ \<Rightarrow>
           (case cleanup_terminal_data stuck now False (Some [victim]) s of (s, summary) \<Rightarrow>
              if cl_tasks summary = 0 then evict_loop stuck now budget n (victim # skipped) r s
              else evict_loop stuck now budget n skipped
                (r\<lparr>er_evicted := er_evicted r + cl_tasks summary, er_bytes := gauge_value s\<rparr>) s)))"

definition calibrated :: "instant \<Rightarrow> log_store \<Rightarrow> log_store" where
  "calibrated now s = s\<lparr>lt_gauge := map_option (\<lambda>g. fst (gauge_calibrate g (lt_bodies s) (Some now))) (lt_gauge s)\<rparr>"

definition evict_logs_dir_to_budget ::
    "(string \<Rightarrow> bool) \<Rightarrow> bool \<Rightarrow> settings \<Rightarrow> instant \<Rightarrow> nat \<Rightarrow> log_store \<Rightarrow> log_store \<times> evict_result" where
  \<comment> \<open>\<open>notified\<close>: the notification and its commit succeed; a failure of either is only logged\<close>
  "evict_logs_dir_to_budget stuck notified cfg now max_victims s =
     (let budget = max_total_bytes (cfg_logs cfg);
          r = \<lparr>er_evicted = 0, er_recovered = True, er_bytes = 0, er_skipped = 0\<rparr>
      in if budget \<le> 0 \<or> lt_gauge s = None then (s, r)
         else (let s = calibrated now s;
                   (s, r) = evict_loop stuck now budget max_victims [] (r\<lparr>er_bytes := gauge_value s\<rparr>) s
           in if er_recovered r \<or> \<not> notified then (s, r)
              else (s\<lparr>lt_db := fst (notify (lt_db s) now TYPE_LOGS_DIR_OVER_BUDGET SEVERITY_ERROR
                       [(''bytes'', JInt (gauge_value s)), (''budget'', JInt budget),
                        (''evicted'', JInt (int (er_evicted r)))]
                       (Some (iso_date now)))\<rparr>, r)))"

section \<open>Stale command streams\<close>

record 'r retention_redis =
  rr_scan :: "'r \<Rightarrow> string list option"
  rr_info :: "'r \<Rightarrow> string \<Rightarrow> obj option"
  rr_delete :: "'r \<Rightarrow> string \<Rightarrow> 'r option"
  rr_xtrim :: "'r \<Rightarrow> string \<Rightarrow> int \<Rightarrow> 'r \<times> (string + int)"

definition TYPE_STALE_COMMAND_STREAMS_DELETED :: string where
  "TYPE_STALE_COMMAND_STREAMS_DELETED = ''stale_command_streams_deleted''"

definition stream_agent :: "string \<Rightarrow> string option" where
  \<comment> \<open>\<open>parts = key.split(":")\<close>\<close>
  "stream_agent key =
     (case split_at (\<lambda>c. c = CHR '':'') [] key of
        [p, a, agent_id, _] \<Rightarrow> if p = ''dopilot'' \<and> a = ''agent'' then Some agent_id else None
      | _ \<Rightarrow> None)"

definition retired :: "db \<Rightarrow> string \<Rightarrow> instant \<Rightarrow> bool" where
  "retired d agent_id cutoff =
     (case node_for d agent_id of None \<Rightarrow> True
      | Some n \<Rightarrow> nd_deleted_at n \<noteq> None
          \<or> (case nd_last_seen_at n of None \<Rightarrow> True | Some seen \<Rightarrow> seen < cutoff))"

definition stream_last_ms :: "obj \<Rightarrow> int" where
  \<comment> \<open>0 when there is no usable last id\<close>
  "stream_last_ms info =
     (let last = (if truthy (obj_get info ''last-generated-id'') then obj_get info ''last-generated-id''
                  else obj_get info ''last-entry'');
          last = (case last of JList (x # _) \<Rightarrow> x | _ \<Rightarrow> last)
      in if truthy last
         then or_default (py_int (hd (split_at (\<lambda>c. c = CHR ''-'') [] (py_str last)))) 0 else 0)"

definition agent_busy :: "db \<Rightarrow> string \<Rightarrow> bool" where
  \<comment> \<open>the agent has an active execution, or a command that is unresolved or sent\<close>
  "agent_busy d agent_id \<longleftrightarrow>
     list_ex (\<lambda>x. x_agent_id x = Some agent_id \<and> x_status x \<in> EXEC_ACTIVE) (db_executions d)
     \<or> list_ex (\<lambda>r. o_agent_id r = agent_id \<and> o_status r \<in> OUTBOX_UNRESOLVED \<union> {OUTBOX_SENT}) (db_outbox d)"

definition stream_is_stale :: "'r retention_redis \<Rightarrow> db \<Rightarrow> instant \<Rightarrow> 'r \<Rightarrow> string \<Rightarrow> string \<Rightarrow> bool option" where
  \<comment> \<open>\<open>None\<close>: Redis raised\<close>
  "stream_is_stale rr d cutoff redis key agent_id =
     (if \<not> retired d agent_id cutoff then Some False
      else (case rr_info rr redis key of None \<Rightarrow> None
        | Some info \<Rightarrow>
           (let last_ms = stream_last_ms info in
            if last_ms \<noteq> 0 \<and> last_ms \<ge> cutoff div 1000 then Some False
            else Some (\<not> agent_busy d agent_id))))"

primrec delete_stale_loop ::
    "'r retention_redis \<Rightarrow> db \<Rightarrow> instant \<Rightarrow> string list \<Rightarrow> 'r \<Rightarrow> 'r \<times> string list option" where
  \<comment> \<open>the deleted agents; \<open>None\<close> when Redis raised in between\<close>
  "delete_stale_loop rr d cutoff [] redis = (redis, Some [])"
| "delete_stale_loop rr d cutoff (key # keys) redis =
     (case stream_agent key of None \<Rightarrow> delete_stale_loop rr d cutoff keys redis
      | Some agent_id \<Rightarrow>
         (case stream_is_stale rr d cutoff redis key agent_id of None \<Rightarrow> (redis, None)
          | Some False \<Rightarrow> delete_stale_loop rr d cutoff keys redis
          | Some True \<Rightarrow>
             (case rr_delete rr redis key of None \<Rightarrow> (redis, None)
              | Some redis \<Rightarrow>
                 (case delete_stale_loop rr d cutoff keys redis of (redis, deleted) \<Rightarrow>
                    (redis, map_option (\<lambda>ids. agent_id # ids) deleted)))))"

definition delete_stale_command_streams ::
    "'r retention_redis option \<Rightarrow> settings \<Rightarrow> instant \<Rightarrow> db \<times> 'r \<Rightarrow> (db \<times> 'r) \<times> string list option" where
  "delete_stale_command_streams redis_client cfg now s =
     (let window = stale_command_stream_days (cfg_maintenance cfg) in
      case redis_client of None \<Rightarrow> (s, Some [])
      | Some rr \<Rightarrow>
         if window \<le> 0 then (s, Some [])
         else (case s of (d, redis) \<Rightarrow>
           (case rr_scan rr redis of None \<Rightarrow> (s, None)
            | Some keys \<Rightarrow>
               (case delete_stale_loop rr d (now - days window) keys redis of
                  (redis, None) \<Rightarrow> ((d, redis), None)
                | (redis, Some deleted) \<Rightarrow>
                   ((if deleted = [] then d
                     else fst (notify d now TYPE_STALE_COMMAND_STREAMS_DELETED SEVERITY_INFO
                       [(''agent_ids'', JList (map JStr deleted)), (''count'', JInt (int (length deleted)))]
                       (Some (iso_date now))), redis), Some deleted)))))"

section \<open>Batched prunes\<close>

lemma prune_shrinks:
  assumes "ids = map key (take batch (filter p rows))" and "ids \<noteq> []"
  shows "length (filter p (filter (\<lambda>r. key r \<notin> set ids) rows)) < length (filter p rows)"
proof -
  obtain r where r: "r \<in> set (take batch (filter p rows))" using assms by (cases "take batch (filter p rows)") auto
  then have "r \<in> set rows" "p r" using in_set_takeD by fastforce+
  moreover have "key r \<in> set ids" using r assms(1) by simp
  ultimately have "{q \<in> set rows. p q \<and> key q \<notin> set ids} \<subset> {q \<in> set rows. p q}" by auto
  have "filter p (filter (\<lambda>r. key r \<notin> set ids) rows) = filter (\<lambda>r. key r \<notin> set ids) (filter p rows)"
    by (simp add: conj_commute)
  moreover have "r \<in> set (filter p rows)" using \<open>r \<in> set rows\<close> \<open>p r\<close> by simp
  ultimately show ?thesis using \<open>key r \<in> set ids\<close> length_filter_less [of r "filter p rows" "\<lambda>r. key r \<notin> set ids"] by simp
qed

function prune_loop :: "('r \<Rightarrow> string) \<Rightarrow> ('r \<Rightarrow> bool) \<Rightarrow> nat \<Rightarrow> 'r list \<Rightarrow> nat \<Rightarrow> 'r list \<times> nat" where
  \<comment> \<open>the \<open>while True\<close> of both prunes: rows and how many were deleted\<close>
  "prune_loop key p batch rows n =
     (let ids = map key (take batch (filter p rows)) in
      if ids = [] then (rows, n)
      else (let rows' = filter (\<lambda>r. key r \<notin> set ids) rows; n = n + length ids
        in if length ids < batch then (rows', n) else prune_loop key p batch rows' n))"
  by pat_completeness auto

termination prune_loop
proof (relation "measure (\<lambda>(key, p, batch, rows, n). length (filter p rows))")
  show "wf (measure (\<lambda>(key :: 'r \<Rightarrow> string, p, batch :: nat, rows, n :: nat). length (filter p rows)))"
    by (rule wf_measure)
qed (simp only: in_measure case_prod_conv, rule prune_shrinks [OF refl], blast)

declare prune_loop.simps [simp del]

definition prune_event_audit :: "settings \<Rightarrow> instant \<Rightarrow> db \<Rightarrow> db \<times> nat" where
  "prune_event_audit cfg now d =
     (let window = event_audit_retention_days (cfg_maintenance cfg) in
      if window \<le> 0 then (d, 0)
      else (case prune_loop a_redis_msg_id (\<lambda>a. a_processed_at a < now - days window)
              (nat (max 1 (event_audit_delete_batch (cfg_maintenance cfg)))) (db_audit d) 0 of
          (rows, n) \<Rightarrow> (d\<lparr>db_audit := rows\<rparr>, n)))"

definition outbox_prunable :: "db \<Rightarrow> instant \<Rightarrow> command_outbox \<Rightarrow> bool" where
  "outbox_prunable d cutoff r \<longleftrightarrow>
     o_status r \<in> OUTBOX_RESOLVED \<and> o_updated_at r < cutoff
     \<and> \<not> (o_type r = Cmd_stop \<and> o_intent r = Some Intent_reclaim)
     \<and> \<not> list_ex (\<lambda>t. t_id t = o_task_id r \<and> t_status t \<in> TASK_ACTIVE \<union> {TASK_LOST}) (db_tasks d)"

definition prune_resolved_outbox :: "settings \<Rightarrow> instant \<Rightarrow> db \<Rightarrow> db \<times> nat" where
  "prune_resolved_outbox cfg now d =
     (let window = outbox_retention_days (cfg_maintenance cfg) in
      if window \<le> 0 then (d, 0)
      else (case prune_loop o_command_id (outbox_prunable d (now - days window))
              (nat (max 1 (outbox_delete_batch (cfg_maintenance cfg)))) (db_outbox d) 0 of
          (rows, n) \<Rightarrow> (d\<lparr>db_outbox := rows\<rparr>, n)))"

section \<open>The time trim of the streams\<close>

definition trim_log_streams ::
    "'r retention_redis option \<Rightarrow> settings \<Rightarrow> instant \<Rightarrow> 'r \<Rightarrow> 'r \<times> (string \<times> (string + int)) list" where
  \<comment> \<open>per stream the number of trimmed entries, or the error\<close>
  "trim_log_streams redis_client cfg now redis =
     (let window = log_retention_seconds (cfg_redis cfg); minid = (now - secs window) div 1000 in
      case redis_client of None \<Rightarrow> (redis, [])
      | Some rr \<Rightarrow>
         if window \<le> 0 \<or> minid \<le> 0 then (redis, [])
         else fold (\<lambda>stream (redis, results).
             (case rr_xtrim rr redis stream minid of (redis, r) \<Rightarrow> (redis, results @ [(stream, r)])))
           [LOG_STREAM, EVENT_STREAM] (redis, []))"

section \<open>Marking a stuck task lost\<close>

record mark_lost_summary =
  ml_task_id :: string
  ml_task_status :: task_status
  ml_executions_marked :: nat
  ml_already_terminal :: "string list"

definition task_not_active :: "task \<Rightarrow> api_error" where
  "task_not_active t = ApiError 409 ''task.not_active'' ''errors.taskNotActive''
     [(''task_id'', JStr (t_id t)), (''status'', JStr (task_status_value (t_status t)))]"

primrec mark_executions_lost ::
    "execution list \<Rightarrow> instant \<Rightarrow> db \<Rightarrow> db \<times> nat \<times> string list" where
  "mark_executions_lost [] now d = (d, 0, [])"
| "mark_executions_lost (x # xs) now d =
     (if x_status x \<in> EXEC_TERMINAL
      then (case mark_executions_lost xs now d of (d, n, already) \<Rightarrow> (d, n, x_id x # already))
      else (case mark_lost d x MANUAL_LOST_REASON now of (d, marked) \<Rightarrow>
        (case mark_executions_lost xs now d of (d, n, already) \<Rightarrow> (d, if marked then Suc n else n, already))))"

definition force_lost :: "nat \<Rightarrow> instant \<Rightarrow> task \<Rightarrow> task" where
  \<comment> \<open>the two \<open>if\<close>s on the task after the executions\<close>
  "force_lost marked now t =
     (let t = (if t_status t \<in> TASK_ACTIVE \<and> is_valid_task_transition (t_status t) TASK_LOST
               then t\<lparr>t_status := TASK_LOST, t_finished_at := Some now\<rparr> else t)
      in if t_status t = TASK_LOST then t\<lparr>t_status_reason := Some MANUAL_LOST_REASON,
           t_status_detail := [(''reason'', JStr MANUAL_LOST_REASON),
             (''executions_marked'', JInt (int marked)), (''marked_at'', JStr (isoformat now))]\<rparr>
         else t)"

definition mark_task_lost :: "db \<Rightarrow> task \<Rightarrow> instant \<Rightarrow> api_error + db \<times> mark_lost_summary" where
  \<comment> \<open>\<open>task\<close> is the copy the request read; the row is locked and read again\<close>
  "mark_task_lost d task now =
     (if t_status task \<notin> TASK_ACTIVE then Inl (task_not_active task)
      else (let t = or_default (find_task d (t_id task)) task in
        if t_status t \<notin> TASK_ACTIVE then Inl (task_not_active t)
        else (case mark_executions_lost (list_executions d (t_id t)) now d of (d, marked, already) \<Rightarrow>
          (let t' = force_lost marked now (or_default (find_task d (t_id t)) t)
           in Inr (save_task d t', \<lparr>ml_task_id = t_id t, ml_task_status = t_status t',
                ml_executions_marked = marked, ml_already_terminal = already\<rparr>)))))"

section \<open>The sweep\<close>

definition on_db :: "(db \<Rightarrow> db) \<Rightarrow> log_store \<Rightarrow> log_store" where
  "on_db f s = s\<lparr>lt_db := f (lt_db s)\<rparr>"

definition sweep_once ::
    "'r retention_redis option \<Rightarrow> (string \<Rightarrow> bool) \<Rightarrow> bool \<Rightarrow> settings \<Rightarrow> instant \<Rightarrow> log_store \<times> 'r
      \<Rightarrow> log_store \<times> 'r" where
  \<comment> \<open>\<open>RetentionSweepLoop.sweep_once\<close>: a step that raises is rolled back and the next one runs\<close>
  "sweep_once redis_client stuck notified cfg now sr =
     (case sr of (s, redis) \<Rightarrow>
      (let retention = retention_days (cfg_logs cfg);
           s = (if retention > 0 then fst (cleanup_terminal_data stuck (now - days retention) False None s) else s);
           s = on_db (\<lambda>d. fst (prune_event_audit cfg now d)) s;
           s = on_db (\<lambda>d. fst (prune_resolved_outbox cfg now d)) s;
           (redis, trimmed) = trim_log_streams redis_client cfg now redis;
           s = fst (truncate_oversized_log_files cfg 500 s);
           s = fst (evict_logs_dir_to_budget stuck notified cfg now 500 s);
           ((d, redis), deleted) = delete_stale_command_streams redis_client cfg now (lt_db s, redis);
           s = s\<lparr>lt_db := d\<rparr>
       in (on_db (\<lambda>d. fst (prune_notifications d (cfg_maintenance cfg) now)) s, redis)))"

end
