(* ===== verification/RetentionProofs.thy ===== *)
theory RetentionProofs
  imports Retention
begin

text \<open>
  What cleanup and retention promise: the prunes delete exactly what they may, an interrupted
  cleanup never leaves a live row without its body or a body without its row and is completed by
  the next one, cuts and evictions keep their bounds, and the manual \<open>lost\<close> settles a task.
\<close>

section \<open>Prunes\<close>

lemma filter_key_take:
  assumes "distinct (map key rows)" and "xs = filter p rows"
  shows "filter (\<lambda>r. key r \<notin> set (map key (take n xs))) xs = drop n xs"
proof -
  have d: "distinct (map key (take n xs @ drop n xs))" using assms by (simp add: distinct_map_filter)
  have "filter (\<lambda>r. key r \<notin> key ` set (take n xs)) (take n xs @ drop n xs) = drop n xs"
    using d unfolding filter_append map_append distinct_append
    by (auto simp: filter_empty_conv filter_id_conv simp del: append_take_drop_id)
  then show ?thesis by simp
qed

lemma prune_loop_filter:
  assumes "distinct (map key rows)" and "batch > 0"
  shows "prune_loop key p batch rows n = (filter (\<lambda>r. \<not> p r) rows, n + length (filter p rows))"
  using assms
proof (induction key p batch rows n rule: prune_loop.induct)
  case (1 key p batch rows n)
  let ?xs = "filter p rows"
  let ?ids = "map key (take batch ?xs)"
  let ?rows = "filter (\<lambda>r. key r \<notin> set ?ids) rows"
  have inj: "key r \<in> set ?ids \<longleftrightarrow> r \<in> set (take batch ?xs)" if "r \<in> set rows" for r
  proof -
    have "inj_on key (set rows)" using 1(2) by (simp add: distinct_map)
    moreover have "set (take batch ?xs) \<subseteq> set rows" by (auto dest: in_set_takeD)
    ultimately show ?thesis using that unfolding set_map by (intro inj_on_image_mem_iff)
  qed
  have "set (take batch ?xs) \<subseteq> {r. p r}" by (auto dest: in_set_takeD)
  then have keep: "filter (\<lambda>r. \<not> p r) ?rows = filter (\<lambda>r. \<not> p r) rows"
    using inj by (auto intro!: filter_cong simp del: set_map)
  have "filter p ?rows = filter (\<lambda>r. key r \<notin> set ?ids) ?xs" by (simp add: conj_commute)
  also have "\<dots> = drop batch ?xs" by (rule filter_key_take [OF 1(2) refl])
  finally have rest: "filter p ?rows = drop batch ?xs" .
  consider "?ids = []" | "?ids \<noteq> []" "length ?ids < batch" | "?ids \<noteq> []" "\<not> length ?ids < batch" by blast
  then show ?case
  proof cases
    case 1
    then have "?xs = []" using \<open>batch > 0\<close> by simp
    with 1 show ?thesis by (simp add: prune_loop.simps [of key p batch rows n] filter_empty_conv filter_id_conv)
  next
    case 2
    then have "drop batch ?xs = []" by auto
    then have "\<forall>r \<in> set ?rows. \<not> p r" using rest by (simp only: filter_empty_conv)
    then have "filter (\<lambda>r. \<not> p r) ?rows = ?rows" by (simp only: filter_id_conv)
    then have rows: "?rows = filter (\<lambda>r. \<not> p r) rows" using keep by (rule trans [OF sym])
    have "length ?ids = length ?xs" using 2(2) by simp
    then show ?thesis
      using 2 unfolding prune_loop.simps [of key p batch rows n] Let_def rows by (simp only: if_False if_True)
  next
    case 3
    have "distinct (map key ?rows)" using "1.prems"(1) by (rule distinct_map_filter)
    from "1.IH" [OF refl 3(1) refl refl 3(2) this \<open>batch > 0\<close>]
    have "prune_loop key p batch ?rows (n + length ?ids)
        = (filter (\<lambda>r. \<not> p r) rows, n + length ?ids + length (drop batch ?xs))"
      unfolding keep rest .
    moreover have "length ?ids + length (drop batch ?xs) = length ?xs" by simp
    ultimately show ?thesis
      using 3 unfolding prune_loop.simps [of key p batch rows n] Let_def by (simp only: if_False add.assoc)
  qed
qed

text \<open>The outbox prune equals one \<open>DELETE\<close> of the resolved old rows, however small its batches, and
  loses no fact: an execution for which a reclaim was issued still has one, an unresolved command and
  every command of an active or lost task is still there.
\<close>

theorem outbox_prune_keeps_facts:
  assumes "distinct (map o_command_id (db_outbox d))" and "prune_resolved_outbox cfg now d = (d', n)"
    and w_def: "w = outbox_retention_days (cfg_maintenance cfg)"
  shows "db_outbox d' = (if w > 0 then filter (\<lambda>r. \<not> outbox_prunable d (now - days w) r) (db_outbox d) else db_outbox d)
    \<and> length (db_outbox d') + n = length (db_outbox d)
    \<and> reclaim_ever_issued d' x = reclaim_ever_issued d x
    \<and> (\<forall>r \<in> set (db_outbox d). o_status r \<in> OUTBOX_UNRESOLVED
        \<or> (\<exists>t \<in> set (db_tasks d). t_id t = o_task_id r \<and> t_status t \<in> TASK_ACTIVE \<union> {TASK_LOST})
        \<longrightarrow> r \<in> set (db_outbox d'))"
proof (cases "w > 0")
  case False
  then show ?thesis using assms(2) w_def by (simp add: prune_resolved_outbox_def)
next
  case True
  let ?p = "outbox_prunable d (now - days w)"
  have pl: "prune_loop o_command_id ?p (nat (max 1 (outbox_delete_batch (cfg_maintenance cfg)))) (db_outbox d) 0
      = (filter (\<lambda>r. \<not> ?p r) (db_outbox d), 0 + length (filter ?p (db_outbox d)))"
    by (rule prune_loop_filter [OF assms(1)]) simp
  have d': "db_outbox d' = filter (\<lambda>r. \<not> ?p r) (db_outbox d)" "n = length (filter ?p (db_outbox d))"
    using assms(2) True pl w_def by (auto simp: prune_resolved_outbox_def)
  have "length (db_outbox d') + n = length (db_outbox d)"
    unfolding d' using sum_length_filter_compl [of ?p "db_outbox d"] by simp
  moreover have "reclaim_ever_issued d' x = reclaim_ever_issued d x"
    unfolding reclaim_ever_issued_def d' by (auto simp: list_ex_iff outbox_prunable_def)
  moreover have "o_status r \<notin> OUTBOX_RESOLVED" if "o_status r \<in> OUTBOX_UNRESOLVED" for r
    using that by (auto simp: OUTBOX_RESOLVED_def OUTBOX_UNRESOLVED_def)
  ultimately show ?thesis using True d'(1) by (auto simp: outbox_prunable_def list_ex_iff)
qed

lemma outbox_prune_keeps_facts_witness:
  "let r = (\<lambda>k i u. \<lparr>o_command_id = k, o_agent_id = ''a1'', o_task_id = ''gone'', o_execution_id = ''x1'',
         o_type = Cmd_stop, o_intent = Some i, o_payload = [], o_status = OUTBOX_SENT, o_retry_count = 0,
         o_max_retry = 5, o_last_error = None, o_redis_msg_id = None, o_expire_at = None, o_give_up_at = None,
         o_created_at = 0, o_updated_at = u\<rparr>);
       cfg = default_settings\<lparr>cfg_maintenance := default_maintenance\<lparr>outbox_delete_batch := 1\<rparr>\<rparr>;
       d = empty_db\<lparr>db_outbox := [r ''c1'' Intent_cancel 0, r ''c2'' Intent_reclaim 0, r ''c3'' Intent_cancel 0]\<rparr>
   in prune_resolved_outbox cfg (days 8) d = (d\<lparr>db_outbox := [r ''c2'' Intent_reclaim 0]\<rparr>, 2)
     \<and> reclaim_ever_issued (d\<lparr>db_outbox := [r ''c2'' Intent_reclaim 0]\<rparr>) ''x1'' = reclaim_ever_issued d ''x1''"
proof -
  let ?r = "\<lambda>k i u. \<lparr>o_command_id = k, o_agent_id = ''a1'', o_task_id = ''gone'', o_execution_id = ''x1'',
         o_type = Cmd_stop, o_intent = Some i, o_payload = [], o_status = OUTBOX_SENT, o_retry_count = 0,
         o_max_retry = 5, o_last_error = None, o_redis_msg_id = None, o_expire_at = None, o_give_up_at = None,
         o_created_at = 0, o_updated_at = u\<rparr>"
  let ?cfg = "default_settings\<lparr>cfg_maintenance := default_maintenance\<lparr>outbox_delete_batch := 1\<rparr>\<rparr>"
  let ?d = "empty_db\<lparr>db_outbox := [?r ''c1'' Intent_cancel 0, ?r ''c2'' Intent_reclaim 0, ?r ''c3'' Intent_cancel 0]\<rparr>"
  have p: "prune_resolved_outbox ?cfg (days 8) ?d = (?d\<lparr>db_outbox := [?r ''c2'' Intent_reclaim 0]\<rparr>, 2)"
    by code_simp
  have "distinct (map o_command_id (db_outbox ?d))" by simp
  from outbox_prune_keeps_facts [OF this p refl] p show ?thesis unfolding Let_def by blast
qed

section \<open>An interrupted cleanup\<close>

text \<open>The states of the disk and the committed database in the course of one cleanup.\<close>

definition cleanup_stages ::
    "(string \<Rightarrow> bool) \<Rightarrow> instant \<Rightarrow> string list option \<Rightarrow> log_store \<Rightarrow> log_store list" where
  "cleanup_stages stuck cutoff only s =
     (let ids = sealed_terminal_task_ids (lt_db s) (Some cutoff) None only [];
          lfs = log_files_of (lt_db s) ids; m = s\<lparr>lt_db := mark_expired ids (lt_db s)\<rparr>
      in s # map (\<lambda>k. fst (unlink_bodies stuck (take k lfs) m)) [0..<Suc (length lfs)]
         @ [fst (cleanup_terminal_data stuck cutoff False only s)])"

definition unlinked :: "(string \<Rightarrow> bool) \<Rightarrow> log_file list \<Rightarrow> string set" where
  "unlinked stuck lfs = {lf_storage_path lf |lf. lf \<in> set lfs \<and> \<not> stuck (lf_storage_path lf)}"

lemma map_of_remove: "map_of (fst (remove_body fs path)) p = (if p = path then None else map_of fs p)"
  by (simp add: remove_body_def delete_conv)

lemma aremove_settled_frame:
  assumes "aremove_settled stuck path s = (t, removed)"
  shows "lt_db t = lt_db s"
    and "map_of (lt_bodies t) p = (if p = path \<and> \<not> stuck path then None else map_of (lt_bodies s) p)"
    and "removed \<longleftrightarrow> \<not> stuck path \<and> map_of (lt_bodies s) path \<noteq> None"
  using assms map_of_remove [of "lt_bodies s" path p]
  by (auto simp: aremove_settled_def Let_def remove_body_def split: if_splits)

lemma unlink_bodies_effect:
  assumes "unlink_bodies stuck lfs s = (t, n, failed)"
  shows "lt_db t = lt_db s \<and> map_of (lt_bodies t) p = (if p \<in> unlinked stuck lfs then None else map_of (lt_bodies s) p)
    \<and> set failed = {lf_task_id lf |lf. lf \<in> set lfs \<and> stuck (lf_storage_path lf) \<and> map_of (lt_bodies s) (lf_storage_path lf) \<noteq> None}"
  using assms
proof (induction lfs arbitrary: s t n failed)
  case Nil
  then show ?case by (simp add: unlinked_def)
next
  case (Cons lf lfs)
  let ?p = "lf_storage_path lf"
  obtain u removed where u: "aremove_settled stuck ?p s = (u, removed)" by force
  obtain v m f where v: "unlink_bodies stuck lfs u = (v, m, f)" by (metis surj_pair)
  note a = aremove_settled_frame [OF u]
  have t: "t = v" "failed = (if \<not> removed \<and> aexists (lt_bodies u) ?p then lf_task_id lf # f else f)"
    using Cons.prems u v by (auto simp: Let_def)
  have still: "(\<not> removed \<and> aexists (lt_bodies u) ?p) \<longleftrightarrow> stuck ?p \<and> map_of (lt_bodies s) ?p \<noteq> None"
    using a(2) [of ?p] a(3) by (auto simp: aexists_def)
  have set: "unlinked stuck (lf # lfs) = (if stuck ?p then {} else {?p}) \<union> unlinked stuck lfs"
    by (auto simp: unlinked_def)
  have failed: "stuck q \<Longrightarrow> map_of (lt_bodies u) q = map_of (lt_bodies s) q" for q using a(2) [of q] by auto
  show ?case
    using Cons.IH [OF v] a(1) a(2) [of p] failed unfolding t still set by (auto split: if_splits)
qed

lemma sealed_ids_set:
  "set (sealed_terminal_task_ids d c None only ex) = t_id ` {t \<in> set (db_tasks d). eligible d c only ex t}"
  by (auto simp: sealed_terminal_task_ids_def)

lemma mark_expired_frame [simp]:
  "db_tasks (mark_expired ids d) = db_tasks d" "db_executions (mark_expired ids d) = db_executions d"
  "db_outbox (mark_expired ids d) = db_outbox d"
  by (simp_all add: mark_expired_def)

lemma delete_tasks_frame [simp]:
  "db_tasks (delete_tasks ids d) = filter (\<lambda>t. t_id t \<notin> set ids) (db_tasks d)"
  "db_log_files (delete_tasks ids d) = filter (\<lambda>lf. lf_task_id lf \<notin> set ids) (db_log_files d)"
  by (simp_all add: delete_tasks_def)

lemma delete_marked:
  assumes "set ids \<subseteq> set js" shows "delete_tasks js (mark_expired ids d) = delete_tasks js d"
proof -
  have f: "filter (\<lambda>lf. lf_task_id lf \<notin> set js) (map (\<lambda>lf. if lf_task_id lf \<in> set ids
      then lf\<lparr>lf_status := LOG_EXPIRED, lf_log_integrity := INTEGRITY_EXPIRED\<rparr> else lf) lfs)
    = filter (\<lambda>lf. lf_task_id lf \<notin> set js) lfs" for lfs
    using assms by (induction lfs) auto
  show ?thesis using f [of "db_log_files d"] by (simp add: delete_tasks_def mark_expired_def)
qed

lemma delete_delete: "set ids = set is \<union> set js \<Longrightarrow> delete_tasks is (delete_tasks js d) = delete_tasks ids d"
  by (simp add: delete_tasks_def conj_commute)

lemma sealed_marked:
  assumes "\<And>k. k \<in> set ids \<Longrightarrow> sealed d k" shows "sealed (mark_expired ids d) k = sealed d k"
proof (cases "k \<in> set ids")
  case True
  then have "sealed (mark_expired ids d) k"
    by (auto simp: sealed_def mark_expired_def list_all_iff UNSEALED_LOG_STATUSES_def)
  with assms True show ?thesis by simp
qed (auto simp: sealed_def mark_expired_def list_all_iff)

text \<open>The database a cleanup with nothing stuck commits.\<close>

lemma cleanup_unstuck:
  "lt_db (fst (cleanup_terminal_data (\<lambda>_. False) cutoff False only s))
     = delete_tasks (sealed_terminal_task_ids (lt_db s) (Some cutoff) None only []) (lt_db s)"
proof -
  let ?ids = "sealed_terminal_task_ids (lt_db s) (Some cutoff) None only []"
  let ?m = "s\<lparr>lt_db := mark_expired ?ids (lt_db s)\<rparr>"
  obtain t n f where t: "unlink_bodies (\<lambda>_. False) (log_files_of (lt_db s) ?ids) ?m = (t, n, f)" by (metis surj_pair)
  have "lt_db t = mark_expired ?ids (lt_db s)" "f = []" using unlink_bodies_effect [OF t] by auto
  moreover have "?ids = [] \<Longrightarrow> delete_tasks ?ids (lt_db s) = lt_db s" by (simp add: delete_tasks_def)
  ultimately show ?thesis
    using t delete_marked [of ?ids ?ids "lt_db s"] by (simp add: cleanup_terminal_data_def Let_def)
qed

definition bodies_intact :: "log_store \<Rightarrow> log_store \<Rightarrow> bool" where
  \<comment> \<open>a row that is not marked expired still has the body it had\<close>
  "bodies_intact s t \<longleftrightarrow> (\<forall>lf \<in> set (db_log_files (lt_db t)). lf_status lf \<noteq> LOG_EXPIRED
     \<longrightarrow> map_of (lt_bodies t) (lf_storage_path lf) = map_of (lt_bodies s) (lf_storage_path lf))"

definition no_orphan_body :: "log_store \<Rightarrow> log_store \<Rightarrow> bool" where
  \<comment> \<open>a body that is still there still has its row\<close>
  "no_orphan_body s t \<longleftrightarrow> (\<forall>lf \<in> set (db_log_files (lt_db s)). map_of (lt_bodies t) (lf_storage_path lf) \<noteq> None
     \<longrightarrow> (\<exists>lf' \<in> set (db_log_files (lt_db t)). log_key lf' = log_key lf \<and> lf_storage_path lf' = lf_storage_path lf))"

definition only_eligible_gone :: "instant \<Rightarrow> string list option \<Rightarrow> log_store \<Rightarrow> log_store \<Rightarrow> bool" where
  "only_eligible_gone cutoff only s t \<longleftrightarrow> set (db_tasks (lt_db t)) \<subseteq> set (db_tasks (lt_db s))
     \<and> (\<forall>k \<in> set (db_tasks (lt_db s)). k \<notin> set (db_tasks (lt_db t)) \<longrightarrow> eligible (lt_db s) (Some cutoff) only [] k)"

lemma unlinked_intact:
  assumes "distinct (map lf_storage_path (db_log_files d))" and "lf \<in> set (db_log_files d)"
    and "lf_task_id lf \<notin> set ids"
  shows "lf_storage_path lf \<notin> unlinked stuck (take k (log_files_of d ids))"
proof
  assume "lf_storage_path lf \<in> unlinked stuck (take k (log_files_of d ids))"
  then obtain l where "l \<in> set (log_files_of d ids)" "lf_storage_path l = lf_storage_path lf"
    by (auto simp: unlinked_def dest: in_set_takeD)
  then have "l = lf" using assms(1,2) by (auto simp: log_files_of_def distinct_map inj_on_def)
  with \<open>l \<in> set (log_files_of d ids)\<close> assms(3) show False by (simp add: log_files_of_def)
qed

lemma stage_mid:
  assumes "distinct (map lf_storage_path (db_log_files (lt_db s)))"
    and "unlink_bodies stuck (take k (log_files_of (lt_db s) ids)) (s\<lparr>lt_db := mark_expired ids (lt_db s)\<rparr>) = (t, n, f)"
  shows "lt_db t = mark_expired ids (lt_db s)" and "bodies_intact s t" and "no_orphan_body s t"
proof -
  note e = unlink_bodies_effect [OF assms(2)]
  show db: "lt_db t = mark_expired ids (lt_db s)" using e by simp
  show "bodies_intact s t"
    unfolding bodies_intact_def db using e unlinked_intact [OF assms(1), of _ ids]
    by (auto simp: mark_expired_def split: if_splits)
  show "no_orphan_body s t"
    unfolding no_orphan_body_def
  proof (intro ballI impI)
    fix lf assume lf: "lf \<in> set (db_log_files (lt_db s))"
    let ?lf = "if lf_task_id lf \<in> set ids
      then lf\<lparr>lf_status := LOG_EXPIRED, lf_log_integrity := INTEGRITY_EXPIRED\<rparr> else lf"
    have "?lf \<in> set (db_log_files (lt_db t))" using lf by (auto simp: db mark_expired_def)
    moreover have "log_key ?lf = log_key lf \<and> lf_storage_path ?lf = lf_storage_path lf" by (simp add: log_key_def)
    ultimately show "\<exists>lf' \<in> set (db_log_files (lt_db t)). log_key lf' = log_key lf \<and> lf_storage_path lf' = lf_storage_path lf"
      by blast
  qed
qed

lemma sealed_deleted: "k \<notin> set ids \<Longrightarrow> sealed (delete_tasks ids d) k = sealed d k"
  by (auto simp: sealed_def list_all_iff)

lemma eligible_stage:
  assumes "\<And>k. k \<in> set ids \<Longrightarrow> sealed d k" and "t_id t \<notin> set js"
  shows "eligible (delete_tasks js (mark_expired ids d)) c only ex t = eligible d c only ex t"
  using assms by (simp add: eligible_def sealed_deleted sealed_marked)

text \<open>A stage of the database: the rows of the tasks \<open>ids\<close> are marked, those of \<open>js\<close> are deleted.
  The next cleanup then commits what an undisturbed one would have.\<close>

lemma restart_completes:
  assumes ids: "ids = sealed_terminal_task_ids d (Some cutoff) None only []" and js: "set js \<subseteq> set ids"
    and db: "lt_db t = delete_tasks js (mark_expired ids d)"
  shows "lt_db (fst (cleanup_terminal_data (\<lambda>_. False) cutoff False only t)) = delete_tasks ids d"
proof -
  have sealed: "\<And>k. k \<in> set ids \<Longrightarrow> sealed d k" unfolding ids sealed_ids_set by (auto simp: eligible_def)
  let ?is = "sealed_terminal_task_ids (lt_db t) (Some cutoff) None only []"
  have "set ?is = set ids - set js"
  proof -
    have "eligible (lt_db t) (Some cutoff) only [] k = eligible d (Some cutoff) only [] k" if "t_id k \<notin> set js" for k
      unfolding db using sealed that by (rule eligible_stage)
    then show ?thesis unfolding sealed_ids_set unfolding ids sealed_ids_set by (auto simp: db)
  qed
  then have "delete_tasks ?is (delete_tasks js (mark_expired ids d)) = delete_tasks ids (mark_expired ids d)"
    using js by (intro delete_delete) auto
  then show ?thesis unfolding cleanup_unstuck by (simp add: db delete_marked)
qed

text \<open>C35. A cleanup may be interrupted anywhere. Whatever bodies cannot be unlinked and wherever it stops
  (before it began, after the commit of the marks, between any two unlinks, at the end), a log row
  that is not marked expired still has its body, a body that is still there still has its row, only
  eligible tasks are gone, and the next cleanup commits exactly what an undisturbed one would have.
\<close>

theorem cleanup_crash_safe:
  assumes "distinct (map lf_storage_path (db_log_files (lt_db s)))" and "distinct (map t_id (db_tasks (lt_db s)))"
    and "t \<in> set (cleanup_stages stuck cutoff only s)"
  shows "bodies_intact s t \<and> no_orphan_body s t \<and> only_eligible_gone cutoff only s t
    \<and> lt_db (fst (cleanup_terminal_data (\<lambda>_. False) cutoff False only t))
      = lt_db (fst (cleanup_terminal_data (\<lambda>_. False) cutoff False only s))"
proof -
  define d where "d = lt_db s"
  define ids where "ids = sealed_terminal_task_ids d (Some cutoff) None only []"
  define lfs where "lfs = log_files_of d ids"
  define m where "m = s\<lparr>lt_db := mark_expired ids d\<rparr>"
  have whole: "lt_db (fst (cleanup_terminal_data (\<lambda>_. False) cutoff False only s)) = delete_tasks ids d"
    by (simp add: cleanup_unstuck ids_def d_def)
  have eligible: "eligible d (Some cutoff) only [] k" if "k \<in> set (db_tasks d)" "t_id k \<in> set ids" for k
    using that assms(2) unfolding ids_def sealed_ids_set d_def by (auto simp: distinct_map inj_on_def)
  consider "t = s" | k where "t = fst (unlink_bodies stuck (take k lfs) m)"
    | "t = fst (cleanup_terminal_data stuck cutoff False only s)" "ids \<noteq> []"
  proof -
    assume c: "t = s \<Longrightarrow> thesis" "\<And>k. t = fst (unlink_bodies stuck (take k lfs) m) \<Longrightarrow> thesis"
      "t = fst (cleanup_terminal_data stuck cutoff False only s) \<Longrightarrow> ids \<noteq> [] \<Longrightarrow> thesis"
    have "t = s \<or> (\<exists>k. t = fst (unlink_bodies stuck (take k lfs) m))
        \<or> t = fst (cleanup_terminal_data stuck cutoff False only s)"
      using assms(3) unfolding cleanup_stages_def Let_def ids_def lfs_def m_def d_def by (auto simp del: upt_Suc)
    moreover have "ids = [] \<Longrightarrow> fst (cleanup_terminal_data stuck cutoff False only s) = s"
      by (simp add: cleanup_terminal_data_def Let_def ids_def d_def)
    ultimately show thesis using c by blast
  qed
  then show ?thesis
  proof cases
    case 1
    then show ?thesis by (auto simp: bodies_intact_def no_orphan_body_def only_eligible_gone_def)
  next
    case (2 k)
    obtain n f where u: "unlink_bodies stuck (take k (log_files_of (lt_db s) ids)) (s\<lparr>lt_db := mark_expired ids (lt_db s)\<rparr>) = (t, n, f)"
      using 2 by (metis prod.collapse lfs_def m_def d_def)
    note mid = stage_mid [OF assms(1) u]
    have "lt_db t = delete_tasks [] (mark_expired ids d)" using mid(1) by (simp add: d_def delete_tasks_def)
    from restart_completes [OF ids_def _ this] mid whole show ?thesis
      by (simp add: only_eligible_gone_def d_def)
  next
    case 3
    obtain u n f where u: "unlink_bodies stuck (take (length lfs) (log_files_of (lt_db s) ids)) (s\<lparr>lt_db := mark_expired ids (lt_db s)\<rparr>) = (u, n, f)"
      by (metis surj_pair)
    define js where "js = filter (\<lambda>k. k \<notin> set f) ids"
    note mid = stage_mid [OF assms(1) u]
    have "unlink_bodies stuck (log_files_of (lt_db s) ids) (s\<lparr>lt_db := mark_expired ids (lt_db s)\<rparr>) = (u, n, f)"
      using u by (simp add: lfs_def d_def)
    note e = unlink_bodies_effect [OF this]
    have t: "t = u\<lparr>lt_db := delete_tasks js (lt_db u)\<rparr>"
      using 3 u by (simp add: cleanup_terminal_data_def Let_def ids_def d_def lfs_def js_def)
    then have db: "lt_db t = delete_tasks js (mark_expired ids d)" using mid(1) by (simp add: d_def)
    have sub: "set js \<subseteq> set ids" by (auto simp: js_def)
    have "bodies_intact s t" using mid(2) t by (auto simp: bodies_intact_def)
    moreover have "no_orphan_body s t"
      unfolding no_orphan_body_def
    proof (intro ballI impI)
      fix lf assume lf: "lf \<in> set (db_log_files (lt_db s))" "map_of (lt_bodies t) (lf_storage_path lf) \<noteq> None"
      then obtain l where l: "l \<in> set (db_log_files (lt_db u))" "log_key l = log_key lf" "lf_storage_path l = lf_storage_path lf"
        using mid(3) t by (auto simp: no_orphan_body_def)
      have "lf_task_id lf \<notin> set js"
      proof
        assume j: "lf_task_id lf \<in> set js"
        then have "lf \<in> set (log_files_of (lt_db s) ids)" using lf(1) sub by (auto simp: log_files_of_def)
        moreover have "lf_task_id lf \<notin> set f" using j by (simp add: js_def)
        ultimately have "map_of (lt_bodies u) (lf_storage_path lf) = None"
          using e by (auto simp: unlinked_def)
        with lf(2) t show False by simp
      qed
      then show "\<exists>lf' \<in> set (db_log_files (lt_db t)). log_key lf' = log_key lf \<and> lf_storage_path lf' = lf_storage_path lf"
        using l t by (auto simp: log_key_def)
    qed
    moreover have "only_eligible_gone cutoff only s t"
      using eligible sub unfolding only_eligible_gone_def db by (auto simp: d_def)
    ultimately show ?thesis using restart_completes [OF ids_def sub db] whole by simp
  qed
qed

lemma cleanup_crash_safe_witness:
  "let s = \<lparr>lt_db = empty_db\<lparr>db_tasks := [sample_task\<lparr>t_status := TASK_COMPLETE, t_source := TASK_SOURCE_MANUAL\<rparr>],
         db_log_files := map (\<lambda>(x, p). (hd (db_log_files (lt_db sample_log_store)))\<lparr>lf_execution_id := x,
           lf_storage_path := p, lf_status := LOG_COMPLETE\<rparr>) [(''x1'', ''/1''), (''x2'', ''/2'')]\<rparr>,
         lt_bodies = [(''/1'', ''one''), (''/2'', ''two'')], lt_gauge = None, lt_sse = new_sse 10\<rparr>;
       t = fst (unlink_bodies (\<lambda>_. False) (take 1 (log_files_of (lt_db s) [''t1'']))
         (s\<lparr>lt_db := mark_expired [''t1''] (lt_db s)\<rparr>))
   in lt_bodies t = [(''/2'', ''two'')] \<and> bodies_intact s t \<and> no_orphan_body s t
     \<and> lt_db (fst (cleanup_terminal_data (\<lambda>_. False) 5 False None t)) = empty_db"
proof -
  let ?s = "\<lparr>lt_db = empty_db\<lparr>db_tasks := [sample_task\<lparr>t_status := TASK_COMPLETE, t_source := TASK_SOURCE_MANUAL\<rparr>],
         db_log_files := map (\<lambda>(x, p). (hd (db_log_files (lt_db sample_log_store)))\<lparr>lf_execution_id := x,
           lf_storage_path := p, lf_status := LOG_COMPLETE\<rparr>) [(''x1'', ''/1''), (''x2'', ''/2'')]\<rparr>,
         lt_bodies = [(''/1'', ''one''), (''/2'', ''two'')], lt_gauge = None, lt_sse = new_sse 10\<rparr>"
  let ?t = "fst (unlink_bodies (\<lambda>_. False) (take 1 (log_files_of (lt_db ?s) [''t1'']))
         (?s\<lparr>lt_db := mark_expired [''t1''] (lt_db ?s)\<rparr>))"
  have ids: "sealed_terminal_task_ids (lt_db ?s) (Some 5) None None [] = [''t1'']" by code_simp
  have b: "lt_bodies ?t = [(''/2'', ''two'')]" by code_simp
  have e: "lt_db (fst (cleanup_terminal_data (\<lambda>_. False) 5 False None ?s)) = empty_db" by code_simp
  have mem: "?t \<in> set (cleanup_stages (\<lambda>_. False) 5 None ?s)"
  proof -
    have "1 \<in> set [0..<Suc (length (log_files_of (lt_db ?s) [''t1'']))]" by code_simp
    then show ?thesis unfolding cleanup_stages_def Let_def ids set_append list.set(2) set_map by blast
  qed
  have d: "distinct (map lf_storage_path (db_log_files (lt_db ?s)))" "distinct (map t_id (db_tasks (lt_db ?s)))"
    by simp_all
  from cleanup_crash_safe [OF d mem] b e show ?thesis unfolding Let_def by metis
qed

section \<open>Cuts\<close>

lemma show_nat_digits: "c \<in> set (show_nat n) \<Longrightarrow> \<exists>d < 10. c = digit d"
proof (induction n rule: show_nat.induct)
  case (1 n)
  show ?case
  proof (cases "n < 10")
    case True
    then show ?thesis using 1(2) by (auto simp: show_nat.simps [of n])
  next
    case False
    then have "c \<in> set (show_nat (n div 10)) \<or> c = digit (n mod 10)"
      using 1(2) by (auto simp: show_nat.simps [of n])
    then show ?thesis using 1(1) [OF False] by (metis mod_less_divisor zero_less_numeral)
  qed
qed

lemma digit_plain: "d < 10 \<Longrightarrow> digit d \<noteq> CHR 0x0A \<and> digit d \<noteq> CHR '']''"
proof -
  assume "d < 10"
  then have "d \<in> {0, 1, 2, 3, 4, 5, 6, 7, 8, 9}" by auto
  then show ?thesis by (auto simp: digit_def char_of_def)
qed

lemma show_int_plain: "c \<in> set (show_int n) \<Longrightarrow> c \<noteq> CHR 0x0A \<and> c \<noteq> CHR '']''"
  using digit_plain by (auto simp: show_int_def split: if_splits dest!: show_nat_digits)

lemma marker_afterI:
  assumes "list_all (\<lambda>c. c \<noteq> CHR 0x0A \<and> c \<noteq> CHR '']'') b" and "e = '']'' @ [CHR 0x0A]"
  shows "marker_after h (h @ b @ e)"
proof -
  have "length e = 2" using assms(2) by simp
  then have n: "length (h @ b @ e) - 2 = length (h @ b)" "length h + 2 \<le> length (h @ b @ e)" by auto
  have t: "take (length (h @ b)) ((h @ b) @ e) = h @ b" "drop (length (h @ b)) ((h @ b) @ e) = e"
    "take (length h) (h @ b @ e) = h" "drop (length h) (h @ b) = b"
    by simp_all
  show ?thesis
    unfolding marker_after_def n(1) using n(2) t assms unfolding append_assoc by (simp only: simp_thms)
qed

lemma marker_is_cap_marker: "any_cap_marker (maintenance_marker cap)"
proof -
  have "maintenance_marker cap = ([CHR 0x0A] @ ''[dopilot:log-truncated '')
      @ (''max_bytes='' @ show_int cap @ '' reason=maintenance'') @ '']'' @ [CHR 0x0A]"
    by (simp add: maintenance_marker_def)
  moreover have "list_all (\<lambda>c. c \<noteq> CHR 0x0A \<and> c \<noteq> CHR '']'') (''max_bytes='' @ show_int cap @ '' reason=maintenance'')"
  proof -
    have "list_all (\<lambda>c. c \<noteq> CHR 0x0A \<and> c \<noteq> CHR '']'') (show_int cap)"
      unfolding list_all_iff using show_int_plain by blast
    then show ?thesis by simp
  qed
  ultimately show ?thesis unfolding any_cap_marker_def using marker_afterI [OF _ refl] by (simp only: simp_thms)
qed

lemma marked_cut_is_capped:
  assumes "0 < cap" and "cap < int (length c)" and "any_cap_marker m" and "int (length m) \<le> MAX_MARKER_LEN"
  shows "already_capped (take (nat cap) c @ m) cap"
proof -
  have "m \<noteq> []" using assms(3) by (auto simp: any_cap_marker_def marker_after_def)
  moreover have "drop (nat cap) (take (nat cap) c @ m) = m" using assms(1,2) by simp
  moreover have "int (length (take (nat cap) c @ m)) = cap + int (length m)" using assms(1,2) by simp
  ultimately show ?thesis using assms(1,3,4) unfolding already_capped_def Let_def by simp
qed

lemmas cut_is_capped = marked_cut_is_capped [OF _ _ marker_is_cap_marker]

text \<open>What the maintenance cut does to one sealed log: a body within the cap, or already cut, is left
  alone; any other is cut back to the cap and marked, which makes the next pass leave it alone; and
  the row records the cut, except that a body of exactly the length of the cut one is rewritten
  while its row keeps saying that the log is complete.
\<close>

theorem maintenance_cut:
  assumes "find_log (lt_db s) k = Some lf" and "lf_status lf = LOG_COMPLETE" and "lf_final_offset lf \<noteq> None"
    and "0 < cap" and marker: "int (length (maintenance_marker cap)) \<le> MAX_MARKER_LEN"
    and c_def: "c = body (lt_bodies s) (lf_storage_path lf)"
    and r: "cut_log cap (maintenance_marker cap) k (s, n) = (s', n')"
  shows "if int (length c) \<le> cap \<or> already_capped c cap
    then body (lt_bodies s') (lf_storage_path lf) = c \<and> lt_db s' = lt_db s \<and> n' = n
    else body (lt_bodies s') (lf_storage_path lf) = take (nat cap) c @ maintenance_marker cap
      \<and> already_capped (body (lt_bodies s') (lf_storage_path lf)) cap
      \<and> (if int (length c) = cap + int (length (maintenance_marker cap)) then lt_db s' = lt_db s \<and> n' = n
         else (\<exists>lf'. find_log (lt_db s') k = Some lf' \<and> lf_log_integrity lf' = INTEGRITY_TRUNCATED
           \<and> lf_truncation_reason lf' = Some TRUNCATION_MAINTENANCE
           \<and> lf_size_bytes lf' = cap + int (length (maintenance_marker cap))) \<and> n' = Suc n)"
proof (cases "int (length c) \<le> cap \<or> already_capped c cap")
  case True
  then have "truncate_file (lt_bodies s) (lf_storage_path lf) cap (maintenance_marker cap)
      = (lt_bodies s, int (length c), int (length c))"
    by (simp add: truncate_file_def body_size_def c_def Let_def)
  then show ?thesis using r assms(1-3) True by (auto simp: cut_log_def Let_def c_def)
next
  case False
  let ?new = "take (nat cap) c @ maintenance_marker cap"
  let ?fs = "AList.update (lf_storage_path lf) ?new (lt_bodies s)"
  have cap: "nat cap < length c" using False assms(4) by auto
  then have len: "int (length ?new) = cap + int (length (maintenance_marker cap))" using assms(4) by simp
  have b: "body ?fs (lf_storage_path lf) = ?new" by (simp add: body_def update_conv)
  have t: "truncate_file (lt_bodies s) (lf_storage_path lf) cap (maintenance_marker cap)
      = (?fs, int (length c), cap + int (length (maintenance_marker cap)))"
    using False len b by (simp add: truncate_file_def body_size_def c_def Let_def)
  have key: "log_key lf = k" using assms(1) by (rule logs.lookup_key)
  have capped: "already_capped ?new cap" using False assms(4) marker by (intro cut_is_capped) auto
  show ?thesis
  proof (cases "int (length c) = cap + int (length (maintenance_marker cap))")
    case same: True
    then have "s' = s\<lparr>lt_bodies := ?fs, lt_gauge := map_option (\<lambda>g. gauge_sub g 0) (lt_gauge s)\<rparr> \<and> n' = n"
      using r assms(1-3) t by (simp add: cut_log_def)
    then show ?thesis using False same b capped by simp
  next
    case other: False
    let ?lf = "lf\<lparr>lf_size_bytes := cap + int (length (maintenance_marker cap)),
      lf_final_offset := Some (cap + int (length (maintenance_marker cap))),
      lf_log_integrity := INTEGRITY_TRUNCATED, lf_truncation_reason := Some TRUNCATION_MAINTENANCE\<rparr>"
    have s': "lt_bodies s' = ?fs" "lt_db s' = save_log (lt_db s) ?lf" "n' = Suc n"
      using r assms(1-3) t other by (auto simp: cut_log_def)
    have "find_log (lt_db s') k = Some ?lf"
      using assms(1) key unfolding s'(2) by (simp add: logs.lookup_update log_key_def)
    then show ?thesis using False other b capped s' by simp
  qed
qed

lemma maintenance_cut_witness:
  "let c = replicate 97 CHR ''x''; cap = 40;
       lf = (hd (db_log_files (lt_db sample_log_store)))\<lparr>lf_status := LOG_COMPLETE, lf_final_offset := Some 97,
         lf_size_bytes := 97\<rparr>;
       s = sample_log_store\<lparr>lt_db := empty_db\<lparr>db_log_files := [lf]\<rparr>, lt_bodies := [(''/s/e1.log'', c)]\<rparr>
   in length (maintenance_marker cap) = 57
     \<and> body (lt_bodies (fst (cut_log cap (maintenance_marker cap) (''t1'', ''e1'', Stream_log) (s, 0)))) ''/s/e1.log''
       = take 40 c @ maintenance_marker cap
     \<and> lt_db (fst (cut_log cap (maintenance_marker cap) (''t1'', ''e1'', Stream_log) (s, 0))) = lt_db s"
proof -
  let ?c = "replicate 97 CHR ''x''" and ?cap = "40 :: int"
  let ?lf = "(hd (db_log_files (lt_db sample_log_store)))\<lparr>lf_status := LOG_COMPLETE, lf_final_offset := Some 97,
         lf_size_bytes := 97\<rparr>"
  let ?s = "sample_log_store\<lparr>lt_db := empty_db\<lparr>db_log_files := [?lf]\<rparr>, lt_bodies := [(''/s/e1.log'', ?c)]\<rparr>"
  obtain s' n' where r: "cut_log ?cap (maintenance_marker ?cap) (''t1'', ''e1'', Stream_log) (?s, 0) = (s', n')" by force
  have f: "find_log (lt_db ?s) (''t1'', ''e1'', Stream_log) = Some ?lf" "lf_storage_path ?lf = ''/s/e1.log''"
    by (simp_all add: find_log_def sample_log_store_def log_key_def)
  have m: "length (maintenance_marker ?cap) = 57" by code_simp
  have b: "body (lt_bodies ?s) ''/s/e1.log'' = ?c" "\<not> already_capped ?c ?cap" by code_simp+
  have l: "int (length (maintenance_marker ?cap)) \<le> MAX_MARKER_LEN" using m by (simp add: MAX_MARKER_LEN_def)
  from maintenance_cut [OF f(1) _ _ _ l refl r] f(2) b m
  have "body (lt_bodies s') ''/s/e1.log'' = take 40 ?c @ maintenance_marker ?cap" "lt_db s' = lt_db ?s"
    by (simp_all split: if_splits)
  then show ?thesis unfolding Let_def r fst_conv using m by simp
qed

section \<open>Eviction\<close>

definition settled :: "log_store \<Rightarrow> bool" where
  \<comment> \<open>the gauge is calibrated, and the directory lists a file once\<close>
  "settled s \<longleftrightarrow> (\<exists>g. lt_gauge s = Some g \<and> ga_value g = walk_size (lt_bodies s)) \<and> distinct (map fst (lt_bodies s))"

lemma walk_size_delete:
  "distinct (map fst fs) \<Longrightarrow> walk_size (AList.delete path fs) = walk_size fs - body_size fs path"
proof (induction fs)
  case (Cons f fs)
  obtain q c where f: "f = (q, c)" by force
  have "q = path \<Longrightarrow> AList.delete path fs = fs" using Cons.prems f by (simp add: delete_id)
  then show ?case using Cons f by (auto simp: walk_size_def body_size_def body_def)
qed (simp add: walk_size_def body_size_def body_def)

lemma settled_remove:
  assumes "settled s" and "aremove_settled stuck path s = (t, removed)"
  shows "settled t"
proof -
  obtain g where g: "lt_gauge s = Some g" "ga_value g = walk_size (lt_bodies s)" "distinct (map fst (lt_bodies s))"
    using assms(1) by (auto simp: settled_def)
  let ?fs = "if stuck path then lt_bodies s else AList.delete path (lt_bodies s)"
  have t: "lt_bodies t = ?fs" "lt_gauge t = Some (gauge_sub g (body_size (lt_bodies s) path - body_size ?fs path))"
    using assms(2) g(1) by (auto simp: aremove_settled_def remove_body_def Let_def)
  have "body_size (AList.delete path (lt_bodies s)) path = 0" by (simp add: body_size_def body_def delete_conv)
  then have "walk_size ?fs = walk_size (lt_bodies s) - (body_size (lt_bodies s) path - body_size ?fs path)"
    using walk_size_delete [OF g(3)] by simp
  moreover have "distinct (map fst ?fs)" using g(3) by (simp add: distinct_delete)
  moreover have "0 \<le> walk_size ?fs" by simp
  ultimately show ?thesis using t g(2) by (simp add: settled_def gauge_sub_def gauge_add_def del: walk_size_nonneg)
qed

lemma settled_unlink: "settled s \<Longrightarrow> unlink_bodies stuck lfs s = (t, n, f) \<Longrightarrow> settled t"
proof (induction lfs arbitrary: s t n f)
  case (Cons lf lfs)
  obtain u b where u: "aremove_settled stuck (lf_storage_path lf) s = (u, b)" by force
  obtain v m g where v: "unlink_bodies stuck lfs u = (v, m, g)" by (metis surj_pair)
  show ?case using Cons.IH [OF settled_remove [OF Cons.prems(1) u] v] Cons.prems(2) u v by (auto simp: Let_def)
qed simp

lemma settled_db [simp]: "settled (s\<lparr>lt_db := d\<rparr>) = settled s"
  by (simp add: settled_def)

lemma settled_cleanup: "settled s \<Longrightarrow> settled (fst (cleanup_terminal_data stuck cutoff dry only s))"
  by (auto simp: cleanup_terminal_data_def Let_def split: prod.splits intro: settled_unlink [of "s\<lparr>lt_db := d\<rparr>" for d])

lemma settled_value: "settled s \<Longrightarrow> gauge_value s = walk_size (lt_bodies s)"
  by (auto simp: settled_def gauge_value_def)

lemma evict_loop_outcome:
  assumes "settled s" and "er_recovered r" and "evict_loop stuck now budget n skipped r s = (s', r')"
  shows "settled s' \<and> (er_recovered r' \<longleftrightarrow> walk_size (lt_bodies s') \<le> budget)"
  using assms
proof (induction n arbitrary: s skipped r)
  case 0
  then show ?case by (auto simp: settled_value)
next
  case (Suc n)
  note val = settled_value [OF Suc.prems(1)]
  show ?case
  proof (cases "gauge_value s > budget \<and> sealed_terminal_task_ids (lt_db s) None (Some 1) None skipped \<noteq> []")
    case False
    then show ?thesis using Suc.prems val by (auto split: if_splits list.splits)
  next
    case True
    then obtain v vs where v: "sealed_terminal_task_ids (lt_db s) None (Some 1) None skipped = v # vs"
      by (cases "sealed_terminal_task_ids (lt_db s) None (Some 1) None skipped") auto
    obtain u m where u: "cleanup_terminal_data stuck now False (Some [v]) s = (u, m)" by force
    have "settled u" using settled_cleanup [OF Suc.prems(1), of stuck now False "Some [v]"] u by simp
    note step = Suc.IH [OF this, of r "v # skipped"]
      Suc.IH [OF this, of "r\<lparr>er_evicted := er_evicted r + cl_tasks m, er_bytes := gauge_value u\<rparr>" skipped]
    show ?thesis
      using step Suc.prems(2,3) True v u by (cases "cl_tasks m = 0") simp_all
  qed
qed

text \<open>With nothing stuck, a loop that ends over the budget has nothing left to evict or has evicted a
  task in each of its attempts.\<close>

lemma unstuck_victim:
  assumes "sealed_terminal_task_ids d None (Some 1) None [] = v # vs"
    and "\<forall>t \<in> set (db_tasks d). t_status t \<in> TASK_TERMINAL \<longrightarrow> terminal_before now t"
  shows "sealed_terminal_task_ids d (Some now) None (Some [v]) [] \<noteq> []"
proof -
  have "v \<in> set (sealed_terminal_task_ids d None None None [])"
    using assms(1) by (auto simp: sealed_terminal_task_ids_def Let_def dest!: arg_cong [where f = set] in_set_takeD)
  then obtain t where "t \<in> set (db_tasks d)" "eligible d None None [] t" "t_id t = v" by (auto simp: sealed_ids_set)
  then have "v \<in> set (sealed_terminal_task_ids d (Some now) None (Some [v]) [])"
    using assms(2) by (auto simp: sealed_ids_set eligible_def)
  then show ?thesis by auto
qed

lemma cleanup_unstuck_tasks:
  "cl_tasks (snd (cleanup_terminal_data (\<lambda>_. False) cutoff False only s))
     = length (sealed_terminal_task_ids (lt_db s) (Some cutoff) None only [])"
proof -
  let ?ids = "sealed_terminal_task_ids (lt_db s) (Some cutoff) None only []"
  obtain t n f where t: "unlink_bodies (\<lambda>_. False) (log_files_of (lt_db s) ?ids) (s\<lparr>lt_db := mark_expired ?ids (lt_db s)\<rparr>) = (t, n, f)"
    by (metis surj_pair)
  have "f = []" using unlink_bodies_effect [OF t] by auto
  then show ?thesis using t by (simp add: cleanup_terminal_data_def Let_def cleanup_counts_def)
qed

lemma evict_loop_exhausts:
  assumes "\<forall>t \<in> set (db_tasks (lt_db s)). t_status t \<in> TASK_TERMINAL \<longrightarrow> terminal_before now t"
    and "evict_loop (\<lambda>_. False) now budget n [] r s = (s', r')"
    and "gauge_value s' > budget"
  shows "sealed_terminal_task_ids (lt_db s') None None None [] = [] \<or> er_evicted r + n \<le> er_evicted r'"
  using assms
proof (induction n arbitrary: s r)
  case 0
  then show ?case by auto
next
  case (Suc n)
  show ?case
  proof (cases "gauge_value s > budget")
    case False
    then show ?thesis using Suc.prems(2,3) by simp
  next
    case over: True
    show ?thesis
    proof (cases "sealed_terminal_task_ids (lt_db s) None (Some 1) None []")
      case Nil
      then have "s' = s" using Suc.prems(2) over by simp
      moreover have "sealed_terminal_task_ids (lt_db s) None None None [] = []"
        using Nil by (simp add: sealed_terminal_task_ids_def Let_def)
      ultimately show ?thesis by simp
    next
      case (Cons v vs)
      let ?ids = "sealed_terminal_task_ids (lt_db s) (Some now) None (Some [v]) []"
      obtain u m where u: "cleanup_terminal_data (\<lambda>_. False) now False (Some [v]) s = (u, m)" by force
      have ids: "?ids \<noteq> []" by (rule unstuck_victim [OF Cons Suc.prems(1)])
      have m: "cl_tasks m > 0" using cleanup_unstuck_tasks [of now "Some [v]" s] u ids by simp
      have db: "lt_db u = delete_tasks ?ids (lt_db s)" using cleanup_unstuck [of now "Some [v]" s] u by simp
      have "\<forall>t \<in> set (db_tasks (lt_db u)). t_status t \<in> TASK_TERMINAL \<longrightarrow> terminal_before now t"
        using Suc.prems(1) by (simp add: db)
      then show ?thesis
        using Suc.IH [of u "r\<lparr>er_evicted := er_evicted r + cl_tasks m, er_bytes := gauge_value u\<rparr>"] Suc.prems(2,3) over Cons u m
        by auto
    qed
  qed
qed

lemma notify_error_unread:
  "\<exists>n \<in> set (db_notifications (fst (notify d now ty SEVERITY_ERROR p (Some key)))).
     unread_with ty key n \<and> n_severity n = SEVERITY_ERROR"
proof (cases "find (unread_with ty key) (db_notifications d)")
  case None
  then show ?thesis by (simp add: notify_def Let_def new_id_def unread_with_def)
next
  case (Some n)
  then have n: "n \<in> set (db_notifications d)" "unread_with ty key n" by (auto simp: find_Some_iff)
  have "n_severity (bump_notification now SEVERITY_ERROR p n) = SEVERITY_ERROR"
    by (cases "n_severity n") (simp_all add: bump_notification_def)
  moreover have "unread_with ty key (bump_notification now SEVERITY_ERROR p n)"
    using n(2) by (simp add: unread_with_def bump_notification_def)
  moreover have "bump_notification now SEVERITY_ERROR p n \<in> set (map (\<lambda>n. if unread_with ty key n
      then bump_notification now SEVERITY_ERROR p n else n) (db_notifications d))"
    using n by force
  moreover have "db_notifications (fst (notify d now ty SEVERITY_ERROR p (Some key))) =
      map (\<lambda>n. if unread_with ty key n then bump_notification now SEVERITY_ERROR p n else n) (db_notifications d)"
    using Some by (simp add: notify_def Let_def new_id_def)
  ultimately show ?thesis by (simp only:) blast
qed

text \<open>C36. Eviction tells the truth: with any bodies stuck, the gauge ends equal to the bytes on disk, the
  result says recovered exactly when the directory is within its budget, and otherwise an unread
  error notification stands, if notifying does not fail itself. When no body is stuck and every terminal
  task lies in the past, the directory is over the budget afterwards only when no evictable task is left
  or as many tasks were evicted as one pass may (\<open>max_victims\<close>, 500).
\<close>

theorem eviction_outcome:
  assumes "budget = max_total_bytes (cfg_logs cfg)" and "budget > 0" and "lt_gauge s \<noteq> None"
    and "distinct (map fst (lt_bodies s))"
    and r: "evict_logs_dir_to_budget stuck notified cfg now max_victims s = (s', r)"
  shows "gauge_value s' = walk_size (lt_bodies s') \<and> (er_recovered r \<longleftrightarrow> walk_size (lt_bodies s') \<le> budget)
    \<and> (\<not> er_recovered r \<and> notified \<longrightarrow> (\<exists>n \<in> set (db_notifications (lt_db s')).
         unread_with TYPE_LOGS_DIR_OVER_BUDGET (iso_date now) n \<and> n_severity n = SEVERITY_ERROR))
    \<and> (stuck = (\<lambda>_. False) \<and> \<not> er_recovered r
       \<and> (\<forall>t \<in> set (db_tasks (lt_db s)). t_status t \<in> TASK_TERMINAL \<longrightarrow> terminal_before now t)
       \<longrightarrow> sealed_terminal_task_ids (lt_db s') None None None [] = [] \<or> max_victims \<le> er_evicted r)"
proof -
  let ?r = "\<lparr>er_evicted = 0, er_recovered = True, er_bytes = gauge_value (calibrated now s), er_skipped = 0\<rparr>"
  obtain u q where u: "evict_loop stuck now budget max_victims [] ?r (calibrated now s) = (u, q)" by force
  have start: "settled (calibrated now s)"
    using assms(3,4) by (auto simp: settled_def calibrated_def gauge_calibrate_def)
  have s': "r = q" "s' = (if er_recovered q \<or> \<not> notified then u else u\<lparr>lt_db := fst (notify (lt_db u) now TYPE_LOGS_DIR_OVER_BUDGET SEVERITY_ERROR
      [(''bytes'', JInt (gauge_value u)), (''budget'', JInt budget), (''evicted'', JInt (int (er_evicted q)))]
      (Some (iso_date now)))\<rparr>)"
    using r u assms(1-3) by (auto simp: evict_logs_dir_to_budget_def Let_def split: if_splits)
  note o = evict_loop_outcome [OF start _ u]
  have tasks: "db_tasks (lt_db (calibrated now s)) = db_tasks (lt_db s)" by (simp add: calibrated_def)
  have "sealed_terminal_task_ids (lt_db s') None None None [] = sealed_terminal_task_ids (lt_db u) None None None []"
    by (simp add: s' sealed_terminal_task_ids_def eligible_def [abs_def] sealed_def)
  moreover have "settled s'" "lt_bodies s' = lt_bodies u" using o by (simp_all add: s')
  ultimately show ?thesis
    using o u s'(1) settled_value [of s'] settled_value [of u] notify_error_unread [of "lt_db u" now TYPE_LOGS_DIR_OVER_BUDGET]
      evict_loop_exhausts [of "calibrated now s" now budget max_victims ?r u q] tasks
    by (auto simp: s'(2))
qed

lemma eviction_outcome_witness:
  "let s = sample_log_store\<lparr>lt_bodies := [(''/s/e1.log'', ''abcdef'')]\<rparr>;
       cfg = default_settings\<lparr>cfg_logs := default_logs\<lparr>max_total_bytes := 4\<rparr>\<rparr>
   in \<not> er_recovered (snd (evict_logs_dir_to_budget (\<lambda>_. False) True cfg 0 500 s))
     \<and> (\<exists>n \<in> set (db_notifications (lt_db (fst (evict_logs_dir_to_budget (\<lambda>_. False) True cfg 0 500 s)))).
         unread_with TYPE_LOGS_DIR_OVER_BUDGET (iso_date 0) n \<and> n_severity n = SEVERITY_ERROR)"
proof -
  let ?s = "sample_log_store\<lparr>lt_bodies := [(''/s/e1.log'', ''abcdef'')]\<rparr>"
  let ?cfg = "default_settings\<lparr>cfg_logs := default_logs\<lparr>max_total_bytes := 4\<rparr>\<rparr>"
  obtain s' r where r: "evict_logs_dir_to_budget (\<lambda>_. False) True ?cfg 0 500 ?s = (s', r)" by force
  have n: "\<not> er_recovered (snd (evict_logs_dir_to_budget (\<lambda>_. False) True ?cfg 0 500 ?s))" by code_simp
  have a: "4 = max_total_bytes (cfg_logs ?cfg)" "(4 :: int) > 0" "lt_gauge ?s \<noteq> None" "distinct (map fst (lt_bodies ?s))"
    by (simp_all add: sample_log_store_def)
  from eviction_outcome [OF a r] n r show ?thesis unfolding Let_def r fst_conv snd_conv by blast
qed

section \<open>The manual lost\<close>

lemma mark_executions_lost_spec:
  assumes "mark_executions_lost xs now d = (d', n, already)" and "distinct (map x_id xs)"
    and "\<And>x. x \<in> set xs \<Longrightarrow> find_execution d (x_id x) = Some x"
  shows "moves d d' \<and> keys_unique d' = keys_unique d
    \<and> find_execution d' k = (if \<exists>x \<in> set xs. x_id x = k \<and> x_status x \<in> EXEC_ACTIVE
        then map_option (\<lambda>x. lost_row x MANUAL_LOST_REASON now) (find_execution d k) else find_execution d k)
    \<and> n = length (filter (\<lambda>x. x_status x \<in> EXEC_ACTIVE) xs)"
  using assms
proof (induction xs arbitrary: d n already)
  case (Cons x xs)
  have fx: "find_execution d (x_id x) = Some x" by (rule Cons.prems(3)) simp
  show ?case
  proof (cases "x_status x \<in> EXEC_TERMINAL")
    case True
    obtain m l where r: "mark_executions_lost xs now d = (d', m, l)" "n = m"
      using Cons.prems(1) True by (auto split: prod.splits)
    have "moves d d' \<and> keys_unique d' = keys_unique d
      \<and> find_execution d' k = (if \<exists>x \<in> set xs. x_id x = k \<and> x_status x \<in> EXEC_ACTIVE
          then map_option (\<lambda>x. lost_row x MANUAL_LOST_REASON now) (find_execution d k) else find_execution d k)
      \<and> m = length (filter (\<lambda>x. x_status x \<in> EXEC_ACTIVE) xs)"
      by (rule Cons.IH [OF r(1)]) (use Cons.prems(2,3) in auto)
    then show ?thesis using True r(2) by (simp add: exec_active_or_terminal)
  next
    case False
    obtain e b where e: "mark_lost d x MANUAL_LOST_REASON now = (e, b)" by force
    obtain m l where r: "mark_executions_lost xs now e = (d', m, l)" "n = (if b then Suc m else m)"
      using Cons.prems(1) False e by (auto split: prod.splits)
    have b: b
      using e False fx by (cases rule: mark_lost_cases [of d x MANUAL_LOST_REASON now]) (auto simp: exec_active_or_terminal)
    have fe: "find_execution e k = (if k = x_id x then Some (lost_row x MANUAL_LOST_REASON now) else find_execution d k)" for k
      using mark_lost_execution [of d x MANUAL_LOST_REASON now k] e b fx by simp
    have "moves e d' \<and> keys_unique d' = keys_unique e
      \<and> find_execution d' k = (if \<exists>x \<in> set xs. x_id x = k \<and> x_status x \<in> EXEC_ACTIVE
          then map_option (\<lambda>x. lost_row x MANUAL_LOST_REASON now) (find_execution e k) else find_execution e k)
      \<and> m = length (filter (\<lambda>x. x_status x \<in> EXEC_ACTIVE) xs)"
    proof (rule Cons.IH [OF r(1)])
      show "distinct (map x_id xs)" using Cons.prems(2) by simp
      fix y assume y: "y \<in> set xs"
      then have "x_id y \<noteq> x_id x" using Cons.prems(2) by (metis distinct.simps(2) imageI list.set_map list.simps(9))
      then show "find_execution e (x_id y) = Some y" using Cons.prems(3) [of y] y by (simp add: fe)
    qed
    moreover have "moves d e" "keys_unique e = keys_unique d"
      using moves_mark_lost [of d x MANUAL_LOST_REASON now] mark_lost_keys [of d x MANUAL_LOST_REASON now] e by simp_all
    moreover have "\<not> (\<exists>y \<in> set xs. x_id y = x_id x)"
      using Cons.prems(2) by (metis distinct.simps(2) imageI list.set_map list.simps(9))
    ultimately show ?thesis using False r(2) b fx fe [of k] by (auto simp: exec_active_or_terminal intro: moves_trans)
  qed
qed simp

lemma active_can_be_lost: "t_status t \<in> TASK_ACTIVE \<Longrightarrow> is_valid_task_transition (t_status t) TASK_LOST"
  by (cases "t_status t") (simp_all add: TASK_ACTIVE_def is_valid_task_transition_def TASK_TERMINAL_def)

lemma force_lost_status:
  "t_id (force_lost n now t) = t_id t"
  "t_status (force_lost n now t) = (if t_status t \<in> TASK_ACTIVE then TASK_LOST else t_status t)"
  using active_can_be_lost [of t] by (simp_all add: force_lost_def Let_def)

lemma force_lost_schedule: "t_schedule_id (force_lost n now t) = t_schedule_id t"
  by (simp add: force_lost_def Let_def)

lemma force_lost_valid: "is_valid_task_transition (t_status t) (t_status (force_lost n now t))"
  using active_can_be_lost [of t] by (simp add: force_lost_status task_sm.valid_refl)

lemma mark_task_lost_effect:
  assumes "keys_unique d" and "find_task d (t_id t) = Some t0" and "mark_task_lost d t now = Inr (d', m)"
  shows "moves d d' \<and> keys_unique d' \<and> t_status t0 \<in> TASK_ACTIVE
    \<and> (\<forall>k x. find_execution d k = Some x \<longrightarrow>
        find_execution d' k = Some (if x_task_id x = t_id t \<and> x_status x \<in> EXEC_ACTIVE
          then lost_row x MANUAL_LOST_REASON now else x))
    \<and> (\<exists>t'. find_task d' (t_id t) = Some t' \<and> t_status t' \<notin> TASK_ACTIVE \<and> ml_task_status m = t_status t')
    \<and> ml_executions_marked m = length (filter (\<lambda>x. x_status x \<in> EXEC_ACTIVE) (list_executions d (t_id t)))"
proof -
  have k: "t_id t0 = t_id t" by (rule tasks.lookup_key [OF assms(2)])
  obtain e n al where e: "mark_executions_lost (list_executions d (t_id t)) now d = (e, n, al)" by (metis surj_pair)
  have act: "t_status t0 \<in> TASK_ACTIVE"
    using assms(2,3) by (auto simp: mark_task_lost_def Let_def split: if_splits)
  have "distinct (map x_id (list_executions d (t_id t)))"
    using assms(1) by (simp add: list_executions_def distinct_map_filter keys_unique_def distinct_map inj_on_def)
  moreover have "find_execution d (x_id x) = Some x" if "x \<in> set (list_executions d (t_id t))" for x
    using that assms(1) by (simp add: list_executions_find)
  ultimately have spec: "moves d e \<and> keys_unique e = keys_unique d
    \<and> find_execution e k = (if \<exists>x \<in> set (list_executions d (t_id t)). x_id x = k \<and> x_status x \<in> EXEC_ACTIVE
        then map_option (\<lambda>x. lost_row x MANUAL_LOST_REASON now) (find_execution d k) else find_execution d k)
    \<and> n = length (filter (\<lambda>x. x_status x \<in> EXEC_ACTIVE) (list_executions d (t_id t)))" for k
    by (rule mark_executions_lost_spec [OF e])
  obtain u where u: "find_task e (t_id t) = Some u" using spec assms(2) moves_taskD by blast
  let ?t = "force_lost n now u"
  have uk: "t_id u = t_id t" by (rule tasks.lookup_key [OF u])
  have d': "d' = save_task e ?t" "m = \<lparr>ml_task_id = t_id t, ml_task_status = t_status ?t,
      ml_executions_marked = n, ml_already_terminal = al\<rparr>"
    using assms(2,3) e u k act by (auto simp: mark_task_lost_def Let_def split: if_splits)
  have "moves e d'" unfolding d'(1) using u by (rule moves_save_valid) (simp_all only: force_lost_status(1) force_lost_valid force_lost_schedule)
  moreover have "find_task d' (t_id t) = Some ?t"
    unfolding d'(1) using u uk by (simp add: tasks.lookup_update force_lost_status)
  moreover have "find_execution d' k = Some (if x_task_id x = t_id t \<and> x_status x \<in> EXEC_ACTIVE
      then lost_row x MANUAL_LOST_REASON now else x)" if x: "find_execution d k = Some x" for k x
  proof -
    have "x_id x = k" by (rule find_execution_key [OF x])
    then have "(\<exists>y \<in> set (list_executions d (t_id t)). x_id y = k \<and> x_status y \<in> EXEC_ACTIVE)
        \<longleftrightarrow> x_task_id x = t_id t \<and> x_status x \<in> EXEC_ACTIVE"
      using x assms(1) by (auto simp: list_executions_find)
    then show ?thesis using spec [of k] x by (simp add: d'(1))
  qed
  moreover have "t_status ?t \<notin> TASK_ACTIVE" by (simp add: force_lost_status TASK_ACTIVE_def)
  ultimately show ?thesis
    using spec act assms(1) d' by (auto intro: moves_trans)
qed

text \<open>Marking a task lost settles it: every active execution of the task becomes lost with the manual
  reason, the finished ones and those of other tasks keep their rows, the task leaves the active
  statuses, and everything moves along the state machine; a task that is not active is refused.
\<close>

theorem manual_lost_settles:
  assumes "keys_unique d" and "find_task d (t_id t) = Some t0" and "mark_task_lost d t now = Inr (d', m)"
  shows "moves d d' \<and> keys_unique d' \<and> t_status t0 \<in> TASK_ACTIVE
    \<and> (\<forall>k x. find_execution d k = Some x \<longrightarrow>
        find_execution d' k = Some (if x_task_id x = t_id t \<and> x_status x \<in> EXEC_ACTIVE
          then lost_row x MANUAL_LOST_REASON now else x))
    \<and> (\<exists>t'. find_task d' (t_id t) = Some t' \<and> t_status t' \<notin> TASK_ACTIVE \<and> ml_task_status m = t_status t')
    \<and> ml_executions_marked m = length (filter (\<lambda>x. x_status x \<in> EXEC_ACTIVE) (list_executions d (t_id t)))"
  using assms by (rule mark_task_lost_effect)

lemma manual_lost_settles_witness:
  "\<exists>d' m. mark_task_lost (event_db EXEC_RUNNING) sample_task 7 = Inr (d', m)
     \<and> map_option x_status (find_execution d' ''x1'') = Some EXEC_LOST
     \<and> map_option t_status (find_task d' ''t1'') \<noteq> Some TASK_QUEUED"
proof -
  have k: "keys_unique (event_db EXEC_RUNNING)" by code_simp
  have t: "find_task (event_db EXEC_RUNNING) (t_id sample_task) = Some sample_task"
    by (simp add: find_task_def event_db_def)
  have x: "find_execution (event_db EXEC_RUNNING) ''x1'' = Some (sample_execution\<lparr>x_status := EXEC_RUNNING\<rparr>)"
    by (simp add: find_execution_def event_db_def)
  obtain d' m where r: "mark_task_lost (event_db EXEC_RUNNING) sample_task 7 = Inr (d', m)"
  proof -
    obtain e n al where "mark_executions_lost (list_executions (event_db EXEC_RUNNING) ''t1'') 7 (event_db EXEC_RUNNING) = (e, n, al)"
      by (metis surj_pair)
    then show thesis using that t by (simp add: mark_task_lost_def TASK_ACTIVE_def Let_def)
  qed
  from manual_lost_settles [OF k t r] x
  have "map_option x_status (find_execution d' ''x1'') = Some EXEC_LOST"
    "map_option t_status (find_task d' ''t1'') \<noteq> Some TASK_QUEUED"
    by (auto simp: EXEC_ACTIVE_def TASK_ACTIVE_def)
  with r show ?thesis by blast
qed

end
