(* ===== verification/Dispatcher.thy ===== *)
theory Dispatcher
  imports Reconcile
begin

text \<open>
  Delivery of the outbox to the agents' command streams
  (\<^verbatim>\<open>apps/server/dopilot_server/redis/dispatcher.py\<close>, \<^verbatim>\<open>redis/commands.py\<close>) and the
  cancel request (\<^verbatim>\<open>services/cancel.py\<close>).

  Redis is not under src/: a \<open>redis_client\<close> gives the two calls the dispatcher makes, over a
  state \<open>'r\<close> of Redis that is threaded through. \<open>xadd\<close> appends a command to a stream and
  returns its message id, or the text of the exception it raised; \<open>xrange\<close> tells whether a
  message is still in a stream, or raises. Nothing is assumed of either.

  \<open>session.refresh\<close> raises for a row that is gone, so \<open>try_dispatch\<close> returns \<open>None\<close> there.
\<close>

section \<open>Delivery of one row\<close>

record 'r redis_client =
  xadd :: "'r \<Rightarrow> string \<Rightarrow> agent_command \<Rightarrow> 'r \<times> (string + string)"
  xrange :: "'r \<Rightarrow> string \<Rightarrow> string \<Rightarrow> string + bool"

definition send :: "'r redis_client \<Rightarrow> 'r \<Rightarrow> agent_command \<Rightarrow> 'r \<times> (string + string)" where
  "send rc redis cmd = xadd rc redis (command_stream (cmd_agent_id cmd)) cmd"

definition DISPATCH_TIMEOUT :: string where
  "DISPATCH_TIMEOUT = ''dispatch_timeout''"

definition DISPATCH_UNAVAILABLE :: string where
  "DISPATCH_UNAVAILABLE = ''dispatch_unavailable''"

datatype dispatch_outcome = Sent | Skipped | Retry | Failed

record dispatch_result =
  dr_outcome :: dispatch_outcome
  dr_msg_id :: "string option"
  dr_error :: "string option"

definition build_command :: "command_outbox \<Rightarrow> agent_command" where
  "build_command row =
     \<lparr>cmd_command_id = o_command_id row, cmd_type = o_type row, cmd_agent_id = o_agent_id row,
      cmd_task_id = o_task_id row, cmd_execution_id = o_execution_id row,
      cmd_task_type = (case map_of (o_payload row) ''task_type'' of None \<Rightarrow> ''scrapy'' | Some v \<Rightarrow> py_str v),
      cmd_intent = o_intent row, cmd_payload = o_payload row\<rparr>"

definition not_dispatchable :: "db \<Rightarrow> command_outbox \<Rightarrow> bool" where
  \<comment> \<open>the run short-circuit\<close>
  "not_dispatchable d row \<longleftrightarrow> o_type row = Cmd_run
     \<and> (case find_task d (o_task_id row) of None \<Rightarrow> True | Some t \<Rightarrow> t_status t \<in> TASK_TERMINAL)"

definition past_give_up :: "command_outbox \<Rightarrow> instant \<Rightarrow> bool" where
  "past_give_up row now = (case o_give_up_at row of None \<Rightarrow> False | Some g \<Rightarrow> now \<ge> g)"

definition send_failed :: "command_outbox \<Rightarrow> bool \<Rightarrow> instant \<Rightarrow> string \<Rightarrow> command_outbox \<times> dispatch_result" where
  \<comment> \<open>the \<open>except\<close> branch around \<open>send\<close>\<close>
  "send_failed row give_up_on_fail now exc =
     (let row = row\<lparr>o_retry_count := o_retry_count row + 1, o_last_error := Some DISPATCH_UNAVAILABLE,
            o_updated_at := now\<rparr>
      in if give_up_on_fail \<or> o_retry_count row \<ge> o_max_retry row \<or> past_give_up row now
         then (row\<lparr>o_status := OUTBOX_FAILED\<rparr>,
           \<lparr>dr_outcome = Failed, dr_msg_id = None, dr_error = Some exc\<rparr>)
         else (row\<lparr>o_status := OUTBOX_FAILED_RETRYABLE\<rparr>,
           \<lparr>dr_outcome = Retry, dr_msg_id = None, dr_error = Some exc\<rparr>))"

definition try_dispatch ::
    "'r redis_client \<Rightarrow> db \<times> 'r \<Rightarrow> string \<Rightarrow> bool \<Rightarrow> instant
      \<Rightarrow> ((db \<times> 'r) \<times> dispatch_result) option" where
  "try_dispatch rc s command_id give_up_on_fail now =
     (case s of (d, redis) \<Rightarrow> case find_command d command_id of
        None \<Rightarrow> None
      | Some row \<Rightarrow> Some (
          if o_status row = OUTBOX_SENT
          then ((d, redis), \<lparr>dr_outcome = Sent, dr_msg_id = o_redis_msg_id row, dr_error = None\<rparr>)
          else if o_status row = OUTBOX_CANCELED
          then ((d, redis), \<lparr>dr_outcome = Skipped, dr_msg_id = None, dr_error = Some ''canceled''\<rparr>)
          else if not_dispatchable d row
          then ((save_command d (row\<lparr>o_status := OUTBOX_CANCELED,
                  o_last_error := Some ''execution_not_dispatchable'', o_updated_at := now\<rparr>), redis),
                \<lparr>dr_outcome = Skipped, dr_msg_id = None, dr_error = Some ''execution_not_dispatchable''\<rparr>)
          else (let row = row\<lparr>o_status := OUTBOX_DISPATCHING\<rparr> in
            case send rc redis (build_command row) of
              (redis, Inl exc) \<Rightarrow>
                (let (row, result) = send_failed row give_up_on_fail now exc
                 in ((save_command d row, redis), result))
            | (redis, Inr msg_id) \<Rightarrow>
                ((save_command d (row\<lparr>o_status := OUTBOX_SENT, o_redis_msg_id := Some msg_id,
                    o_updated_at := now\<rparr>), redis),
                 \<lparr>dr_outcome = Sent, dr_msg_id = Some msg_id, dr_error = None\<rparr>))))"

section \<open>Giving up\<close>

definition fail_execution_dispatch_timeout :: "db \<Rightarrow> command_outbox \<Rightarrow> instant \<Rightarrow> db" where
  "fail_execution_dispatch_timeout d row now =
     (let d = (case find_execution d (o_execution_id row) of
             None \<Rightarrow> d
           | Some x \<Rightarrow> if x_status x \<in> EXEC_ACTIVE
               then save_execution d (x\<lparr>x_status := EXEC_FAILED, x_error_code := Some DISPATCH_TIMEOUT,
                 x_finished_at := Some now\<rparr>) else d)
      in case find_task d (o_task_id row) of
           None \<Rightarrow> d
         | Some t \<Rightarrow> if t_status t \<in> TASK_ACTIVE
             then save_task d (t\<lparr>t_status := TASK_FAILED, t_finished_at := Some now, t_updated_at := now\<rparr>)
             else d)"

definition process_row ::
    "'r redis_client \<Rightarrow> string \<Rightarrow> instant \<Rightarrow> db \<times> 'r \<Rightarrow> (db \<times> 'r) option" where
  "process_row rc command_id now s =
     (case find_command (fst s) command_id of
        None \<Rightarrow> None
      | Some row \<Rightarrow>
          if past_give_up row now \<and> o_status row \<noteq> OUTBOX_SENT
          then (let d = save_command (fst s) (row\<lparr>o_status := OUTBOX_FAILED,
                    o_last_error := Some DISPATCH_TIMEOUT, o_updated_at := now\<rparr>)
            in Some (if o_type row = Cmd_run then fail_execution_dispatch_timeout d row now else d, snd s))
          else (case try_dispatch rc s command_id False now of
              None \<Rightarrow> None
            | Some ((d, redis), result) \<Rightarrow>
                Some (if dr_outcome result = Failed \<and> o_type row = Cmd_run
                  then fail_execution_dispatch_timeout d row now else d, redis)))"

section \<open>The sweep over delivered rows\<close>

type_synonym row_pos = "instant \<times> string"

record dispatcher =
  dp_settings :: "settings option"
  dp_batch_limit :: nat
  dp_last_sent_reconcile :: "instant option"
  dp_sent_reconcile_calls :: nat
  dp_cursor :: "row_pos option"
  dp_hwm :: "instant option"

definition new_dispatcher :: "settings option \<Rightarrow> int \<Rightarrow> dispatcher" where
  "new_dispatcher cfg dispatch_batch_limit =
     \<lparr>dp_settings = cfg, dp_batch_limit = nat (max 1 dispatch_batch_limit),
      dp_last_sent_reconcile = None, dp_sent_reconcile_calls = 0, dp_cursor = None, dp_hwm = None\<rparr>"

definition row_pos_of :: "command_outbox \<Rightarrow> row_pos" where
  "row_pos_of r = (o_updated_at r, o_command_id r)"

definition task_is_active :: "db \<Rightarrow> string \<Rightarrow> bool" where
  "task_is_active d k = (case find_task d k of None \<Rightarrow> False | Some t \<Rightarrow> t_status t \<in> TASK_ACTIVE)"

definition sent_eligible :: "db \<Rightarrow> row_pos option \<Rightarrow> instant \<Rightarrow> command_outbox \<Rightarrow> bool" where
  \<comment> \<open>the join and the \<open>where\<close> clauses of the page query\<close>
  "sent_eligible d cursor hwm r \<longleftrightarrow>
     o_status r = OUTBOX_SENT \<and> o_updated_at r < hwm \<and> task_is_active d (o_task_id r)
     \<and> (case cursor of None \<Rightarrow> True | Some c \<Rightarrow> c < row_pos_of r)"

definition sent_page :: "db \<Rightarrow> row_pos option \<Rightarrow> instant \<Rightarrow> nat \<Rightarrow> command_outbox list" where
  "sent_page d cursor hwm batch =
     take batch (sort_key row_pos_of (filter (sent_eligible d cursor hwm) (db_outbox d)))"

definition requeued_row :: "command_outbox \<Rightarrow> instant \<Rightarrow> command_outbox" where
  "requeued_row row now =
     (let deadline = now + secs SCHEDULED_GIVE_UP_SECONDS
      in row\<lparr>o_status := OUTBOX_PENDING, o_redis_msg_id := None,
           o_last_error := Some ''sent_message_missing'', o_give_up_at := Some deadline,
           o_expire_at := Some deadline, o_retry_count := 0, o_updated_at := now\<rparr>)"

definition message_vanished :: "'r redis_client \<Rightarrow> 'r \<Rightarrow> command_outbox \<Rightarrow> bool" where
  \<comment> \<open>the row has a message id and \<open>XRANGE\<close> answered that its stream no longer holds it\<close>
  "message_vanished rc redis row =
     (case o_redis_msg_id row of
        None \<Rightarrow> False
      | Some m \<Rightarrow> m \<noteq> [] \<and> xrange rc redis (command_stream (o_agent_id row)) m = Inr False)"

definition requeue_row ::
    "'r redis_client \<Rightarrow> 'r \<Rightarrow> instant \<Rightarrow> command_outbox \<Rightarrow> db \<times> string list \<Rightarrow> db \<times> string list" where
  "requeue_row rc redis now row acc =
     (case acc of (d, requeued) \<Rightarrow>
        case find_task d (o_task_id row) of
          None \<Rightarrow> (d, requeued)
        | Some t \<Rightarrow>
            if t_status t \<in> TASK_TERMINAL then (d, requeued)
            else if message_vanished rc redis row
            then (save_command d (requeued_row row now), requeued @ [o_command_id row])
            else (d, requeued))"

definition TYPE_SENT_COMMANDS_REQUEUED :: string where
  "TYPE_SENT_COMMANDS_REQUEUED = ''sent_commands_requeued''"

definition sweep_start :: "dispatcher \<Rightarrow> instant \<Rightarrow> row_pos option \<times> instant" where
  \<comment> \<open>where this call reads: the current sweep, or a new one with a freshly frozen boundary\<close>
  "sweep_start dp cutoff =
     (case (dp_cursor dp, dp_hwm dp) of
        (Some c, Some h) \<Rightarrow> (Some c, h)
      | _ \<Rightarrow> (None, cutoff))"

definition sweep_page :: "db \<Rightarrow> dispatcher \<Rightarrow> instant \<Rightarrow> nat \<Rightarrow> command_outbox list \<times> instant" where
  \<comment> \<open>the page of this call and its boundary, wrapping around once past the end of a sweep\<close>
  "sweep_page d dp cutoff batch =
     (let (cursor, hwm) = sweep_start dp cutoff;
          rows = sent_page d cursor hwm batch
      in if rows = [] \<and> cursor \<noteq> None then (sent_page d None cutoff batch, cutoff) else (rows, hwm))"

definition reconcile_sent_once ::
    "'r redis_client \<Rightarrow> 'r \<Rightarrow> instant \<Rightarrow> dispatcher \<times> db \<Rightarrow> dispatcher \<times> db \<times> string list" where
  "reconcile_sent_once rc redis now s =
     (case s of (dp, d) \<Rightarrow> case dp_settings dp of
        None \<Rightarrow> (dp, d, [])
      | Some cfg \<Rightarrow>
          (let cutoff = now - secs (max 0 (sent_reconcile_min_age_seconds (cfg_redis cfg)));
               batch = nat (max 1 (sent_reconcile_batch_limit (cfg_redis cfg)));
               (rows, hwm) = sweep_page d dp cutoff batch;
               page_end = (if length rows = batch then Some (row_pos_of (last rows)) else None);
               (d, requeued) = fold (requeue_row rc redis now) rows (d, []);
               d = (if requeued = [] then d
                    else fst (notify d now TYPE_SENT_COMMANDS_REQUEUED SEVERITY_INFO
                      [(''count'', JInt (int (length requeued))),
                       (''command_ids'', JList (map JStr (take 50 requeued)))]
                      (Some (iso_date now))))
           in (dp\<lparr>dp_sent_reconcile_calls := dp_sent_reconcile_calls dp + 1, dp_cursor := page_end,
                  dp_hwm := (if page_end = None then None else Some hwm)\<rparr>, d, requeued)))"

definition sent_reconcile_due :: "dispatcher \<Rightarrow> instant \<Rightarrow> bool" where
  "sent_reconcile_due dp clock =
     (case dp_settings dp of
        None \<Rightarrow> False
      | Some cfg \<Rightarrow>
          (let interval = sent_reconcile_interval_seconds (cfg_redis cfg)
           in interval > 0 \<and> (case dp_last_sent_reconcile dp of None \<Rightarrow> True
                | Some l \<Rightarrow> clock - l \<ge> secs interval)))"

section \<open>The periodic tick\<close>

definition dispatch_batch :: "db \<Rightarrow> nat \<Rightarrow> string list" where
  "dispatch_batch d limit =
     map o_command_id (take limit
       (sort_key o_created_at (filter (\<lambda>r. o_status r \<in> OUTBOX_DISPATCHABLE) (db_outbox d))))"

primrec process_rows ::
    "'r redis_client \<Rightarrow> string list \<Rightarrow> instant \<Rightarrow> db \<times> 'r \<Rightarrow> (db \<times> 'r) option" where
  "process_rows rc [] now s = Some s"
| "process_rows rc (k # ks) now s =
     (case process_row rc k now s of None \<Rightarrow> None | Some s \<Rightarrow> process_rows rc ks now s)"

definition tick ::
    "'r redis_client \<Rightarrow> instant \<Rightarrow> instant \<Rightarrow> dispatcher \<times> db \<times> 'r \<Rightarrow> (dispatcher \<times> db \<times> 'r) option" where
  "tick rc clock now s =
     (case s of (dp, d, redis) \<Rightarrow>
        (let (dp, d) =
               (if sent_reconcile_due dp clock
                then (let (dp, d, _) = reconcile_sent_once rc redis now
                        (dp\<lparr>dp_last_sent_reconcile := Some clock\<rparr>, d) in (dp, d))
                else (dp, d))
         in case process_rows rc (dispatch_batch d (dp_batch_limit dp)) now (d, redis) of
              None \<Rightarrow> None
            | Some (d, redis) \<Rightarrow> Some (dp, d, redis)))"

section \<open>Cancel\<close>

primrec create_stops :: "db \<Rightarrow> instant \<Rightarrow> string \<Rightarrow> execution list \<Rightarrow> db \<times> string list" where
  \<comment> \<open>the loop over the task's executions; returns the ids of the new rows\<close>
  "create_stops d now task_id [] = (d, [])"
| "create_stops d now task_id (x # xs) =
     (if x_status x \<in> EXEC_TERMINAL then create_stops d now task_id xs
      else (let (d, row) = create_stop_outbox d now task_id (x_id x)
                  (or_default (x_agent_id x) []) Intent_cancel;
                (d, ks) = create_stops d now task_id xs
            in (d, o_command_id row # ks)))"

primrec dispatch_all ::
    "'r redis_client \<Rightarrow> string list \<Rightarrow> bool \<Rightarrow> instant \<Rightarrow> db \<times> 'r \<Rightarrow> ((db \<times> 'r) \<times> dispatch_result list) option" where
  "dispatch_all rc [] give_up now s = Some (s, [])"
| "dispatch_all rc (k # ks) give_up now s =
     (case try_dispatch rc s k give_up now of
        None \<Rightarrow> None
      | Some (s, r) \<Rightarrow> (case dispatch_all rc ks give_up now s of
          None \<Rightarrow> None
        | Some (s, rs) \<Rightarrow> Some (s, r # rs)))"

definition request_cancel ::
    "'r redis_client \<Rightarrow> task \<Rightarrow> instant \<Rightarrow> db \<times> 'r \<Rightarrow> ((db \<times> 'r) \<times> nat) option" where
  "request_cancel rc t now s =
     (let d = fst (cancel_unsent_outbox (fst s) now (t_id t));
          (d, stops) = create_stops d now (t_id t) (list_executions d (t_id t))
      in case dispatch_all rc stops False now (d, snd s) of
           None \<Rightarrow> None
         | Some (s, _) \<Rightarrow> Some (s, length stops))"

section \<open>Facts about one delivery\<close>

lemma build_command_dispatching [simp]:
  "build_command (row\<lparr>o_status := st\<rparr>) = build_command row"
  by (simp add: build_command_def)

lemma find_command_key: "find_command d k = Some r \<Longrightarrow> o_command_id r = k"
  by (rule commands.lookup_key)

lemma save_command_others [simp]:
  "db_tasks (save_command d r) = db_tasks d" "db_executions (save_command d r) = db_executions d"
  "db_log_files (save_command d r) = db_log_files d" "db_audit (save_command d r) = db_audit d"
  "db_schedules (save_command d r) = db_schedules d" "db_ledger (save_command d r) = db_ledger d"
  "db_nodes (save_command d r) = db_nodes d" "db_templates (save_command d r) = db_templates d"
  "db_notifications (save_command d r) = db_notifications d" "db_next_id (save_command d r) = db_next_id d"
  by (simp_all add: save_command_def)

lemma save_command_keys [simp]:
  "map o_command_id (db_outbox (save_command d r)) = map o_command_id (db_outbox d)"
  by (simp add: save_command_def set_row_def comp_def)

lemma find_command_save:
  "find_command d (o_command_id r) = Some r0
    \<Longrightarrow> find_command (save_command d r) k = (if k = o_command_id r then Some r else find_command d k)"
  by (simp add: commands.lookup_update)

lemma find_same_tables:
  "db_tasks d' = db_tasks d \<Longrightarrow> find_task d' = find_task d"
  "db_executions d' = db_executions d \<Longrightarrow> find_execution d' = find_execution d"
  by (simp_all add: find_task_def [abs_def] find_execution_def [abs_def])

lemma send_failed_cases:
  obtains "send_failed row give_up now exc =
      (row\<lparr>o_retry_count := o_retry_count row + 1, o_last_error := Some DISPATCH_UNAVAILABLE,
           o_updated_at := now, o_status := OUTBOX_FAILED\<rparr>,
       \<lparr>dr_outcome = Failed, dr_msg_id = None, dr_error = Some exc\<rparr>)"
    "give_up \<or> o_retry_count row + 1 \<ge> o_max_retry row \<or> past_give_up row now"
  | "send_failed row give_up now exc =
      (row\<lparr>o_retry_count := o_retry_count row + 1, o_last_error := Some DISPATCH_UNAVAILABLE,
           o_updated_at := now, o_status := OUTBOX_FAILED_RETRYABLE\<rparr>,
       \<lparr>dr_outcome = Retry, dr_msg_id = None, dr_error = Some exc\<rparr>)"
    "\<not> give_up" "o_retry_count row + 1 < o_max_retry row" "\<not> past_give_up row now"
proof (cases "give_up \<or> o_retry_count row + 1 \<ge> o_max_retry row \<or> past_give_up row now")
  case True
  then show ?thesis by (intro that(1)) (simp_all add: send_failed_def past_give_up_def)
next
  case False
  then show ?thesis by (intro that(2)) (simp_all add: send_failed_def past_give_up_def)
qed

text \<open>The five ways one delivery can go.\<close>

lemma try_dispatch_cases [consumes 1, case_names sent canceled dead failed ok]:
  assumes "try_dispatch rc (d, redis) k give_up now = Some ((d', redis'), res)"
  obtains row where "find_command d k = Some row" "o_status row = OUTBOX_SENT" "d' = d" "redis' = redis"
      "dr_outcome res = Sent"
  | row where "find_command d k = Some row" "o_status row = OUTBOX_CANCELED" "d' = d" "redis' = redis"
      "dr_outcome res = Skipped"
  | row where "find_command d k = Some row" "o_status row \<noteq> OUTBOX_SENT" "o_status row \<noteq> OUTBOX_CANCELED"
      "not_dispatchable d row" "redis' = redis" "dr_outcome res = Skipped"
      "d' = save_command d (row\<lparr>o_status := OUTBOX_CANCELED,
         o_last_error := Some ''execution_not_dispatchable'', o_updated_at := now\<rparr>)"
  | row exc where "find_command d k = Some row" "o_status row \<noteq> OUTBOX_SENT" "o_status row \<noteq> OUTBOX_CANCELED"
      "\<not> not_dispatchable d row" "send rc redis (build_command row) = (redis', Inl exc)"
      "d' = save_command d (fst (send_failed (row\<lparr>o_status := OUTBOX_DISPATCHING\<rparr>) give_up now exc))"
      "res = snd (send_failed (row\<lparr>o_status := OUTBOX_DISPATCHING\<rparr>) give_up now exc)"
  | row m where "find_command d k = Some row" "o_status row \<noteq> OUTBOX_SENT" "o_status row \<noteq> OUTBOX_CANCELED"
      "\<not> not_dispatchable d row" "send rc redis (build_command row) = (redis', Inr m)"
      "d' = save_command d (row\<lparr>o_status := OUTBOX_SENT, o_redis_msg_id := Some m, o_updated_at := now\<rparr>)"
      "dr_outcome res = Sent"
proof (cases "find_command d k")
  case None
  with assms show ?thesis by (simp add: try_dispatch_def)
next
  case (Some row)
  consider (a) "o_status row = OUTBOX_SENT" | (b) "o_status row = OUTBOX_CANCELED"
    | (c) "o_status row \<noteq> OUTBOX_SENT" "o_status row \<noteq> OUTBOX_CANCELED" "not_dispatchable d row"
    | (e) "o_status row \<noteq> OUTBOX_SENT" "o_status row \<noteq> OUTBOX_CANCELED" "\<not> not_dispatchable d row"
    by blast
  then show ?thesis
  proof cases
    case a
    with Some assms show ?thesis by (intro that(1) [of row]) (auto simp: try_dispatch_def)
  next
    case b
    with Some assms show ?thesis by (intro that(2) [of row]) (auto simp: try_dispatch_def)
  next
    case c
    with Some assms show ?thesis by (intro that(3) [of row]) (auto simp: try_dispatch_def)
  next
    case e
    obtain r2 ans where s: "send rc redis (build_command row) = (r2, ans)" by (meson surj_pair)
    show ?thesis
    proof (cases ans)
      case (Inl exc)
      with e s Some assms show ?thesis
        by (intro that(4) [of row exc]) (auto simp: try_dispatch_def Let_def split: prod.splits)
    next
      case (Inr m)
      with e s Some assms show ?thesis
        by (intro that(5) [of row m]) (auto simp: try_dispatch_def Let_def)
    qed
  qed
qed

lemma try_dispatch_total: "find_command (fst s) k \<noteq> None \<Longrightarrow> try_dispatch rc s k give_up now \<noteq> None"
  by (cases s; cases "find_command (fst s) k") (simp_all add: try_dispatch_def del: not_None_eq)

lemma send_failed_frame [simp]:
  "o_command_id (fst (send_failed row g now exc)) = o_command_id row"
  "o_task_id (fst (send_failed row g now exc)) = o_task_id row"
  "o_execution_id (fst (send_failed row g now exc)) = o_execution_id row"
  "o_type (fst (send_failed row g now exc)) = o_type row"
  "o_status (fst (send_failed row g now exc)) \<in> {OUTBOX_FAILED, OUTBOX_FAILED_RETRYABLE}"
  by (simp_all add: send_failed_def Let_def)
lemma try_dispatch_frame:
  assumes "try_dispatch rc (d, redis) k give_up now = Some ((d', redis'), res)"
  shows "db_tasks d' = db_tasks d \<and> db_executions d' = db_executions d \<and> db_log_files d' = db_log_files d
    \<and> db_schedules d' = db_schedules d \<and> db_next_id d' = db_next_id d
    \<and> map o_command_id (db_outbox d') = map o_command_id (db_outbox d)
    \<and> (\<forall>k'. k' \<noteq> k \<longrightarrow> find_command d' k' = find_command d k')"
  using assms by (cases rule: try_dispatch_cases)
    (auto simp: commands.lookup_update dest: find_command_key)

text \<open>What one delivery makes of a row that was neither sent nor cancelled before.\<close>

lemma try_dispatch_row:
  assumes "try_dispatch rc (d, redis) k give_up now = Some ((d', redis'), res)"
    and "find_command d k = Some row" and "o_status row \<notin> {OUTBOX_SENT, OUTBOX_CANCELED}"
  obtains (dead) row' where "not_dispatchable d row" "redis' = redis" "find_command d' k = Some row'"
      "o_status row' = OUTBOX_CANCELED" "dr_outcome res = Skipped"
  | (ok) m row' where "\<not> not_dispatchable d row" "send rc redis (build_command row) = (redis', Inr m)"
      "find_command d' k = Some row'" "o_status row' = OUTBOX_SENT" "o_redis_msg_id row' = Some m"
      "dr_outcome res = Sent"
  | (failed) exc row' where "\<not> not_dispatchable d row"
      "send rc redis (build_command row) = (redis', Inl exc)"
      "find_command d' k = Some row'" "o_status row' = OUTBOX_FAILED" "dr_outcome res = Failed"
      "give_up \<or> o_retry_count row + 1 \<ge> o_max_retry row \<or> past_give_up row now"
  | (retry) exc row' where "\<not> not_dispatchable d row"
      "send rc redis (build_command row) = (redis', Inl exc)"
      "find_command d' k = Some row'" "o_status row' = OUTBOX_FAILED_RETRYABLE" "dr_outcome res = Retry"
      "\<not> give_up" "o_retry_count row' = o_retry_count row + 1" "o_max_retry row' = o_max_retry row"
      "o_retry_count row' < o_max_retry row'" "\<not> past_give_up row now"
proof -
  have k: "o_command_id row = k" using assms(2) by (rule find_command_key)
  from assms(1) show ?thesis
  proof (cases rule: try_dispatch_cases)
    case (failed r exc)
    then have r: "r = row" using assms(2) by simp
    have upd: "\<And>x. o_command_id x = k \<Longrightarrow> find_command (save_command d x) k = Some x"
      using assms(2) by (simp add: commands.lookup_update)
    show ?thesis
      by (rule send_failed_cases [of "row\<lparr>o_status := OUTBOX_DISPATCHING\<rparr>" give_up now exc])
        (use failed r k upd in \<open>auto simp: past_give_up_def intro: that(3) that(4)\<close>)
  qed (use assms(2,3) k in \<open>auto simp: commands.lookup_update intro: that\<close>)
qed

lemma process_row_total: "find_command (fst s) k \<noteq> None \<Longrightarrow> process_row rc k now s \<noteq> None"
  using try_dispatch_total [of s k rc False now]
  by (auto simp: process_row_def Let_def split: option.splits prod.splits if_splits)

section \<open>Facts about giving up\<close>

lemma fail_timeout_frame [simp]:
  "db_outbox (fail_execution_dispatch_timeout d row now) = db_outbox d"
  "db_log_files (fail_execution_dispatch_timeout d row now) = db_log_files d"
  "db_schedules (fail_execution_dispatch_timeout d row now) = db_schedules d"
  "db_next_id (fail_execution_dispatch_timeout d row now) = db_next_id d"
  "find_command (fail_execution_dispatch_timeout d row now) k = find_command d k"
  by (simp_all add: fail_execution_dispatch_timeout_def Let_def save_execution_def save_task_def
      find_command_def split: option.splits)

lemma fail_timeout_keys [simp]:
  "keys_unique (fail_execution_dispatch_timeout d row now) = keys_unique d"
  by (simp add: fail_execution_dispatch_timeout_def Let_def split: option.splits)

lemma moves_update:
  "find_execution d k = Some x \<Longrightarrow> x_id y = x_id x \<Longrightarrow> exec_order x y \<Longrightarrow> moves d (save_execution d y)"
  "find_task d k = Some t \<Longrightarrow> t_id u = t_id t \<Longrightarrow> task_order (t_status t) (t_status u) \<Longrightarrow> t_schedule_id u = t_schedule_id t
    \<Longrightarrow> moves d (save_task d u)"
  by (metis executions.lookup_key moves_save_execution) (metis tasks.lookup_key moves_save_task)

lemma moves_fail_task:
  "find_task d k = Some t \<Longrightarrow> t_status t \<in> TASK_ACTIVE
    \<Longrightarrow> moves d (save_task d (t\<lparr>t_status := TASK_FAILED, t_finished_at := f, t_updated_at := u\<rparr>))"
  by (erule moves_update) (simp_all add: task_active_order)

lemma moves_fail_execution:
  "find_execution d k = Some x \<Longrightarrow> x_status x \<in> EXEC_ACTIVE
    \<Longrightarrow> moves d (save_execution d (x\<lparr>x_status := EXEC_FAILED, x_error_code := c, x_finished_at := f\<rparr>))"
  by (erule moves_update) (simp_all add: exec_order_def active_to_terminal_valid EXEC_TERMINAL_def)

lemma moves_fail_timeout: "moves d (fail_execution_dispatch_timeout d row now)"
proof -
  let ?e = "case find_execution d (o_execution_id row) of None \<Rightarrow> d
    | Some x \<Rightarrow> if x_status x \<in> EXEC_ACTIVE
        then save_execution d (x\<lparr>x_status := EXEC_FAILED, x_error_code := Some DISPATCH_TIMEOUT,
          x_finished_at := Some now\<rparr>) else d"
  have "moves d ?e"
    by (auto split: option.splits intro: moves_fail_execution)
  moreover have "moves ?e (fail_execution_dispatch_timeout d row now)"
    unfolding fail_execution_dispatch_timeout_def Let_def
    by (auto split: option.splits intro: moves_fail_task)
  ultimately show ?thesis by (rule moves_trans)
qed

section \<open>Processing the batch of a tick\<close>

definition settled :: "outbox_status \<Rightarrow> bool" where
  "settled st \<longleftrightarrow> st \<in> {OUTBOX_SENT, OUTBOX_FAILED, OUTBOX_CANCELED}"

definition advanced :: "command_outbox \<Rightarrow> command_outbox \<Rightarrow> bool" where
  \<comment> \<open>the row is settled, or one more of its bounded number of retries is used up\<close>
  "advanced row row' \<longleftrightarrow> settled (o_status row')
     \<or> o_status row' = OUTBOX_FAILED_RETRYABLE \<and> o_retry_count row' = o_retry_count row + 1
       \<and> o_max_retry row' = o_max_retry row \<and> o_retry_count row' < o_max_retry row'"

lemma process_row_cases [consumes 1, case_names give_up dispatch]:
  assumes "process_row rc k now (d, redis) = Some (d', redis')"
  obtains row where "find_command d k = Some row" "past_give_up row now" "o_status row \<noteq> OUTBOX_SENT"
      "redis' = redis"
      "d' = (let e = save_command d (row\<lparr>o_status := OUTBOX_FAILED, o_last_error := Some DISPATCH_TIMEOUT,
          o_updated_at := now\<rparr>) in if o_type row = Cmd_run then fail_execution_dispatch_timeout e row now else e)"
  | row e result where "find_command d k = Some row"
      "try_dispatch rc (d, redis) k False now = Some ((e, redis'), result)"
      "d' = (if dr_outcome result = Failed \<and> o_type row = Cmd_run
         then fail_execution_dispatch_timeout e row now else e)"
  using assms by (auto simp: process_row_def Let_def split: option.splits prod.splits if_splits)

lemma process_row_frame:
  assumes "process_row rc k now (d, redis) = Some (d', redis')"
  shows "map o_command_id (db_outbox d') = map o_command_id (db_outbox d)
    \<and> (\<forall>k'. k' \<noteq> k \<longrightarrow> find_command d' k' = find_command d k')
    \<and> moves d d' \<and> db_schedules d' = db_schedules d \<and> db_log_files d' = db_log_files d"
  using assms
proof (cases rule: process_row_cases)
  case (give_up row)
  let ?e = "save_command d (row\<lparr>o_status := OUTBOX_FAILED, o_last_error := Some DISPATCH_TIMEOUT,
          o_updated_at := now\<rparr>)"
  have "moves d ?e" by (rule moves_same_tables) simp_all
  then have "moves d d'"
    using give_up(5) moves_trans [OF _ moves_fail_timeout] by (auto simp: Let_def)
  with give_up show ?thesis
    by (auto simp: Let_def commands.lookup_update dest: find_command_key)
next
  case (dispatch row e result)
  note f = try_dispatch_frame [OF dispatch(2)]
  then have "moves d e" by (intro moves_same_tables) simp_all
  then have "moves d d'" using dispatch(3) moves_trans [OF _ moves_fail_timeout] by auto
  with dispatch(3) f show ?thesis by auto
qed

lemma process_row_keys:
  assumes "process_row rc k now (d, redis) = Some (d', redis')"
  shows "keys_unique d' = keys_unique d"
  using assms
proof (cases rule: process_row_cases)
  case (dispatch row e result)
  have "keys_unique e = keys_unique d"
    using try_dispatch_frame [OF dispatch(2)] by (simp add: keys_unique_def)
  with dispatch(3) show ?thesis by simp
qed (simp add: Let_def)

lemma process_row_advances:
  assumes "process_row rc k now (d, redis) = Some (d', redis')" and "find_command d k = Some row"
    and "o_status row \<in> OUTBOX_DISPATCHABLE"
  obtains row' where "find_command d' k = Some row'" "advanced row row'"
  using assms(1)
proof (cases rule: process_row_cases)
  case (give_up r)
  then have "find_command d' k = Some (row\<lparr>o_status := OUTBOX_FAILED,
      o_last_error := Some DISPATCH_TIMEOUT, o_updated_at := now\<rparr>)"
    using assms(2) by (auto simp: Let_def commands.lookup_update dest: find_command_key)
  then show ?thesis by (rule that) (simp add: advanced_def settled_def)
next
  case (dispatch r e result)
  have st: "o_status row \<notin> {OUTBOX_SENT, OUTBOX_CANCELED}"
    using assms(3) by (auto simp: OUTBOX_DISPATCHABLE_def)
  obtain row' where "find_command e k = Some row'" "advanced row row'"
    using dispatch(2) assms(2) st
    by (cases rule: try_dispatch_row) (auto simp: advanced_def settled_def)
  with dispatch(3) show ?thesis by (intro that) auto
qed

lemma process_rows_frame:
  "process_rows rc ks now (d, redis) = Some (d', redis') \<Longrightarrow>
     map o_command_id (db_outbox d') = map o_command_id (db_outbox d)
     \<and> (\<forall>k. k \<notin> set ks \<longrightarrow> find_command d' k = find_command d k)
     \<and> moves d d' \<and> keys_unique d' = keys_unique d \<and> db_schedules d' = db_schedules d"
proof (induction ks arbitrary: d redis)
  case (Cons k ks)
  then obtain e r where s: "process_row rc k now (d, redis) = Some (e, r)"
      and rest: "process_rows rc ks now (e, r) = Some (d', redis')"
    by (auto split: option.splits)
  show ?case
    using Cons.IH [OF rest] process_row_frame [OF s] process_row_keys [OF s]
    by (auto intro: moves_trans)
qed simp

lemma find_command_ids: "find_command d k \<noteq> None \<longleftrightarrow> k \<in> set (map o_command_id (db_outbox d))"
  by (auto simp: find_command_def find_row_def find_None_iff)

lemma process_rows_total:
  "set ks \<subseteq> set (map o_command_id (db_outbox d)) \<Longrightarrow> process_rows rc ks now (d, redis) \<noteq> None"
proof (induction ks arbitrary: d redis)
  case (Cons k ks)
  then have "find_command d k \<noteq> None" unfolding find_command_ids by simp
  then obtain e r where s: "process_row rc k now (d, redis) = Some (e, r)"
    using process_row_total [of "(d, redis)" k rc now] by auto
  have "set (map o_command_id (db_outbox e)) = set (map o_command_id (db_outbox d))"
    using process_row_frame [OF s] by simp
  with Cons.prems Cons.IH [of e r] s show ?case by simp
qed simp

lemma process_rows_advances:
  assumes "process_rows rc ks now (d, redis) = Some (d', redis')" and "distinct ks" and "k \<in> set ks"
    and "find_command d k = Some row" and "o_status row \<in> OUTBOX_DISPATCHABLE"
  obtains row' where "find_command d' k = Some row'" "advanced row row'"
  using assms
proof (induction ks arbitrary: d redis thesis)
  case (Cons k' ks)
  obtain e r where s: "process_row rc k' now (d, redis) = Some (e, r)"
      and rest: "process_rows rc ks now (e, r) = Some (d', redis')"
    using Cons.prems(2) by (auto split: option.splits)
  show ?case
  proof (cases "k' = k")
    case True
    with s Cons.prems(5,6) obtain row' where "find_command e k = Some row'" "advanced row row'"
      by (auto elim: process_row_advances)
    moreover have "find_command d' k = find_command e k"
      using process_rows_frame [OF rest] True Cons.prems(3) by simp
    ultimately show ?thesis using Cons.prems(1) by simp
  next
    case False
    then have "find_command e k = Some row"
      using process_row_frame [OF s] Cons.prems(5) by auto
    with Cons.IH [OF Cons.prems(1) rest] Cons.prems(3,4,6) False show ?thesis by auto
  qed
qed simp
lemma dispatch_batch_ids: "set (dispatch_batch d n) \<subseteq> set (map o_command_id (db_outbox d))"
  by (auto simp: dispatch_batch_def dest: in_set_takeD)

lemma dispatch_batch_distinct:
  assumes "distinct (map o_command_id (db_outbox d))"
  shows "distinct (dispatch_batch d n)"
proof -
  let ?rs = "filter (\<lambda>r. o_status r \<in> OUTBOX_DISPATCHABLE) (db_outbox d)"
  have "distinct (map o_command_id ?rs)" using assms by (rule distinct_map_filter)
  then have "distinct (map o_command_id (sort_key o_created_at ?rs))"
    by (simp add: distinct_map)
  then show ?thesis by (simp add: dispatch_batch_def take_map [symmetric])
qed

lemma dispatch_batch_status:
  assumes "distinct (map o_command_id (db_outbox d))" and "k \<in> set (dispatch_batch d n)"
  obtains row where "find_command d k = Some row" "o_status row \<in> OUTBOX_DISPATCHABLE"
proof -
  obtain r where "o_command_id r = k" and
      "r \<in> set (take n (sort_key o_created_at (filter (\<lambda>r. o_status r \<in> OUTBOX_DISPATCHABLE) (db_outbox d))))"
    using assms(2) by (auto simp: dispatch_batch_def)
  moreover from this(2) have "r \<in> set (db_outbox d)" "o_status r \<in> OUTBOX_DISPATCHABLE"
    by (auto dest: in_set_takeD)
  ultimately have "r \<in> set (db_outbox d)" "o_command_id r = k" "o_status r \<in> OUTBOX_DISPATCHABLE" by blast+
  with assms(1) show ?thesis
    by (intro that) (auto simp: find_command_def intro: find_row_distinct)
qed

section \<open>Correctness of the delivery\<close>

definition demo_redis :: "(bool \<times> agent_command list) redis_client" where
  \<comment> \<open>a stream store that may be down, for the witnesses\<close>
  "demo_redis =
     \<lparr>xadd = (\<lambda>(up, log) stream c. if up then ((up, log @ [c]), Inr (cmd_command_id c))
         else ((up, log), Inl ''down'')),
      xrange = (\<lambda>(up, log) stream m. if up then Inr (list_ex (\<lambda>c. cmd_command_id c = m) log) else Inl ''down'')\<rparr>"

definition demo_row :: "outbox_status \<Rightarrow> command_outbox" where
  "demo_row st =
     \<lparr>o_command_id = ''c1'', o_agent_id = ''a1'', o_task_id = ''t1'', o_execution_id = ''x1'', o_type = Cmd_run,
      o_intent = None, o_payload = [], o_status = st, o_retry_count = 0, o_max_retry = 10,
      o_last_error = None, o_redis_msg_id = Some ''c1'', o_expire_at = Some (secs 900),
      o_give_up_at = Some (secs 900), o_created_at = 0, o_updated_at = 0\<rparr>"

definition demo_db :: "outbox_status \<Rightarrow> task_status \<Rightarrow> exec_status \<Rightarrow> db" where
  "demo_db st ts xs = empty_db\<lparr>db_tasks := [sample_task\<lparr>t_id := ''t1'', t_status := ts\<rparr>],
     db_executions := [sample_execution\<lparr>x_id := ''x1'', x_task_id := ''t1'', x_status := xs\<rparr>],
     db_outbox := [demo_row st]\<rparr>"

lemma demo_db_simps [simp]:
  "db_outbox (demo_db st ts xs) = [demo_row st]"
  "find_command (demo_db st ts xs) k = (if k = ''c1'' then Some (demo_row st) else None)"
  "find_task (demo_db st ts xs) k = (if k = ''t1'' then Some (sample_task\<lparr>t_id := ''t1'', t_status := ts\<rparr>) else None)"
  "find_execution (demo_db st ts xs) k = (if k = ''x1''
     then Some (sample_execution\<lparr>x_id := ''x1'', x_task_id := ''t1'', x_status := xs\<rparr>) else None)"
  "db_tasks (demo_db st ts xs) = [sample_task\<lparr>t_id := ''t1'', t_status := ts\<rparr>]"
  "db_executions (demo_db st ts xs) = [sample_execution\<lparr>x_id := ''x1'', x_task_id := ''t1'', x_status := xs\<rparr>]"
  by (simp_all add: demo_db_def demo_row_def find_command_def find_task_def find_execution_def)

lemma demo_row_simps [simp]:
  "o_command_id (demo_row st) = ''c1''" "o_type (demo_row st) = Cmd_run" "o_status (demo_row st) = st"
  "o_task_id (demo_row st) = ''t1''" "o_execution_id (demo_row st) = ''x1''" "o_created_at (demo_row st) = 0"
  "o_give_up_at (demo_row st) = Some (secs 900)" "o_retry_count (demo_row st) = 0" "o_max_retry (demo_row st) = 10"
  "o_redis_msg_id (demo_row st) = Some ''c1''" "o_updated_at (demo_row st) = 0" "o_agent_id (demo_row st) = ''a1''"
  by (simp_all add: demo_row_def)

text \<open>C3. What one delivery may do. A sent or cancelled row is never sent again; the \<open>run\<close> of a
  task that is gone or terminal is cancelled without touching Redis; any other row causes
  exactly one \<open>XADD\<close>, of the row's own command on its agent's stream, and is \<open>sent\<close> - with
  the returned message id - exactly when that succeeded. Nothing else of the database moves.
\<close>

theorem dispatch_gate:
  assumes "try_dispatch rc (d, redis) k give_up now = Some ((d', redis'), res)"
    and "find_command d k = Some row"
  shows "(o_status row \<in> {OUTBOX_SENT, OUTBOX_CANCELED} \<longrightarrow> d' = d \<and> redis' = redis)
    \<and> (o_status row \<notin> {OUTBOX_SENT, OUTBOX_CANCELED} \<and> not_dispatchable d row \<longrightarrow>
         redis' = redis \<and> map_option o_status (find_command d' k) = Some OUTBOX_CANCELED)
    \<and> (o_status row \<notin> {OUTBOX_SENT, OUTBOX_CANCELED} \<and> \<not> not_dispatchable d row \<longrightarrow>
         redis' = fst (xadd rc redis (command_stream (o_agent_id row)) (build_command row))
         \<and> (\<exists>row'. find_command d' k = Some row'
             \<and> (case snd (xadd rc redis (command_stream (o_agent_id row)) (build_command row)) of
                  Inr m \<Rightarrow> o_status row' = OUTBOX_SENT \<and> o_redis_msg_id row' = Some m
                | Inl _ \<Rightarrow> o_status row' \<in> {OUTBOX_FAILED, OUTBOX_FAILED_RETRYABLE})))
    \<and> (\<forall>k'. k' \<noteq> k \<longrightarrow> find_command d' k' = find_command d k')
    \<and> db_tasks d' = db_tasks d \<and> db_executions d' = db_executions d"
proof -
  have s: "send rc redis (build_command row)
      = xadd rc redis (command_stream (o_agent_id row)) (build_command row)"
    by (simp add: send_def build_command_def)
  note f = try_dispatch_frame [OF assms(1)]
  show ?thesis
  proof (cases "o_status row \<in> {OUTBOX_SENT, OUTBOX_CANCELED}")
    case True
    with assms have "d' = d \<and> redis' = redis" by (cases rule: try_dispatch_cases) auto
    with True show ?thesis by simp
  next
    case False
    with assms(1,2) show ?thesis
      by (cases rule: try_dispatch_row) (use f s False in auto)
  qed
qed

lemma dispatch_gate_witness:
  "\<exists>d' res. try_dispatch demo_redis (demo_db OUTBOX_PENDING TASK_QUEUED EXEC_PENDING, (True, [])) ''c1'' False 0
      = Some ((d', (True, [build_command (demo_row OUTBOX_PENDING)])), res)
    \<and> map_option o_status (find_command d' ''c1'') = Some OUTBOX_SENT"
proof -
  let ?d = "demo_db OUTBOX_PENDING TASK_QUEUED EXEC_PENDING"
  have "try_dispatch demo_redis (?d, (True, [])) ''c1'' False 0 \<noteq> None"
    by (rule try_dispatch_total) simp
  then obtain d' r' res where t: "try_dispatch demo_redis (?d, (True, [])) ''c1'' False 0 = Some ((d', r'), res)"
    by auto
  have "\<not> not_dispatchable ?d (demo_row OUTBOX_PENDING)"
    by (simp add: not_dispatchable_def TASK_TERMINAL_def)
  with dispatch_gate [OF t, of "demo_row OUTBOX_PENDING"] t show ?thesis
    by (auto simp: demo_redis_def)
qed

text \<open>No row is retried forever and no tick gets stuck. A tick always returns, whatever Redis
  does; and if no sweep is due, every row of its batch is afterwards sent, failed or
  cancelled, or has used up one more of its \<open>max_retry\<close> attempts and has some left.
\<close>

theorem tick_progress:
  assumes "distinct (map o_command_id (db_outbox d))" and "\<not> sent_reconcile_due dp clock"
  shows "\<exists>dp' d' redis'. tick rc clock now (dp, d, redis) = Some (dp', d', redis')
    \<and> (\<forall>k \<in> set (dispatch_batch d (dp_batch_limit dp)). \<exists>row row'.
         find_command d k = Some row \<and> find_command d' k = Some row'
         \<and> (o_status row' \<in> {OUTBOX_SENT, OUTBOX_FAILED, OUTBOX_CANCELED}
            \<or> o_status row' = OUTBOX_FAILED_RETRYABLE
              \<and> o_retry_count row' = o_retry_count row + 1
              \<and> o_max_retry row' = o_max_retry row \<and> o_retry_count row' < o_max_retry row'))"
proof -
  let ?b = "dispatch_batch d (dp_batch_limit dp)"
  obtain d' redis' where p: "process_rows rc ?b now (d, redis) = Some (d', redis')"
    using process_rows_total [OF dispatch_batch_ids] by fastforce
  then have t: "tick rc clock now (dp, d, redis) = Some (dp, d', redis')"
    using assms(2) by (simp add: tick_def)
  have "\<exists>row row'. find_command d k = Some row \<and> find_command d' k = Some row' \<and> advanced row row'"
    if "k \<in> set ?b" for k
    using dispatch_batch_status [OF assms(1) that] p that
    by (metis process_rows_advances dispatch_batch_distinct assms(1))
  with t show ?thesis unfolding advanced_def settled_def by blast
qed

lemma tick_progress_witness:
  "\<exists>dp' d' redis' row'. tick demo_redis 0 0 (new_dispatcher None 1000, demo_db OUTBOX_PENDING TASK_QUEUED EXEC_PENDING, (False, []))
      = Some (dp', d', redis') \<and> find_command d' ''c1'' = Some row'"
proof -
  let ?d = "demo_db OUTBOX_PENDING TASK_QUEUED EXEC_PENDING" and ?p = "new_dispatcher None 1000"
  have "distinct (map o_command_id (db_outbox ?d))" "\<not> sent_reconcile_due ?p 0"
    by (simp_all add: sent_reconcile_due_def new_dispatcher_def)
  moreover have "''c1'' \<in> set (dispatch_batch ?d (dp_batch_limit ?p))"
    by (simp add: dispatch_batch_def new_dispatcher_def OUTBOX_DISPATCHABLE_def)
  ultimately show ?thesis
    using tick_progress [of ?d ?p 0 demo_redis 0 "(False, [])"] by blast
qed

section \<open>The sweep over delivered rows misses nothing\<close>

lemma take_sort_key_rest:
  fixes f :: "'a \<Rightarrow> 'b :: linorder"
  assumes "r \<in> set xs" and "r \<notin> set (take n (sort_key f xs))" and "inj_on f (set xs)" and "0 < n"
  shows "length (take n (sort_key f xs)) = n" "f (last (take n (sort_key f xs))) < f r"
    "length (filter (\<lambda>x. f (last (take n (sort_key f xs))) < f x) xs) + n \<le> length xs"
proof -
  let ?ys = "sort_key f xs"
  have r: "r \<in> set (drop n ?ys)"
    using assms(1,2) by (metis append_take_drop_id set_append set_sort Un_iff)
  then have n: "n < length ?ys" by (metis drop_all empty_iff empty_set not_le)
  then show len: "length (take n ?ys) = n" by simp
  have last: "last (take n ?ys) = ?ys ! (n - 1)"
  proof -
    have "take n ?ys \<noteq> []" using n assms(4) by (metis len length_0_conv less_numeral_extra(3))
    then show ?thesis using n assms(4) len by (simp add: last_conv_nth)
  qed
  obtain j where j: "n \<le> j" "j < length ?ys" "?ys ! j = r"
  proof -
    obtain i where "i < length (drop n ?ys)" "drop n ?ys ! i = r" using r by (meson in_set_conv_nth)
    then show ?thesis using n by (intro that [of "n + i"]) simp_all
  qed
  have srt: "sorted (map f ?ys)" by simp
  have le: "f (?ys ! i) \<le> f (?ys ! k)" if "i \<le> k" "k < length ?ys" for i k
    using sorted_nth_mono [OF srt, of i k] that by simp
  have mem: "last (take n ?ys) \<in> set (take n ?ys)"
    using len assms(4) by (metis last_in_set list.size(3) less_numeral_extra(3))
  have "f (last (take n ?ys)) \<le> f r" using le [of "n - 1" j] j last by simp
  moreover have "f (last (take n ?ys)) \<noteq> f r"
    using mem assms(1,2,3) by (metis in_set_takeD inj_onD set_sort)
  ultimately show "f (last (take n ?ys)) < f r" by simp
  let ?P = "\<lambda>x. f (last (take n ?ys)) < f x"
  have "\<not> ?P x" if x: "x \<in> set (take n ?ys)" for x
  proof -
    obtain i where i: "i < n" "x = ?ys ! i"
      using x n by (auto simp: in_set_conv_nth)
    have "i \<le> n - 1" "n - 1 < length ?ys" using i(1) n by simp_all
    with le i(2) last show ?thesis by (simp add: not_less)
  qed
  then have "filter ?P (take n ?ys) = []" by (simp add: filter_empty_conv)
  then have "filter ?P ?ys = filter ?P (drop n ?ys)"
    by (metis append_Nil append_take_drop_id filter_append)
  then have "length (filter ?P ?ys) \<le> length ?ys - n"
    by (metis length_drop length_filter_le)
  moreover have "length (filter ?P ?ys) = length (filter ?P xs)"
    by (simp add: filter_sort)
  ultimately show "length (filter ?P xs) + n \<le> length xs" using n by simp
qed

lemma requeued_row_frame [simp]:
  "o_command_id (requeued_row r now) = o_command_id r" "o_status (requeued_row r now) = OUTBOX_PENDING"
  "o_task_id (requeued_row r now) = o_task_id r" "o_retry_count (requeued_row r now) = 0"
  "o_give_up_at (requeued_row r now) = Some (now + secs SCHEDULED_GIVE_UP_SECONDS)"
  by (simp_all add: requeued_row_def Let_def)

definition requeueable :: "'r redis_client \<Rightarrow> 'r \<Rightarrow> db \<Rightarrow> command_outbox \<Rightarrow> bool" where
  "requeueable rc redis d r \<longleftrightarrow>
     (case find_task d (o_task_id r) of None \<Rightarrow> False | Some t \<Rightarrow> t_status t \<notin> TASK_TERMINAL)
     \<and> message_vanished rc redis r"

lemma requeue_row_eq:
  "requeue_row rc redis now r (d, ks) =
     (if requeueable rc redis d r then (save_command d (requeued_row r now), ks @ [o_command_id r]) else (d, ks))"
  by (simp add: requeue_row_def requeueable_def split: option.splits)

lemma requeueable_cong: "db_tasks d' = db_tasks d \<Longrightarrow> requeueable rc redis d' r = requeueable rc redis d r"
  by (simp add: requeueable_def find_task_def)

text \<open>The effect of the loop over a page, row by row.\<close>

lemma requeue_fold:
  assumes "distinct (map o_command_id (db_outbox d))" and "set rows \<subseteq> set (db_outbox d)"
    and "distinct (map o_command_id rows)"
    and "fold (requeue_row rc redis now) rows (d, acc) = (d', ks)"
  shows "db_outbox d' = map (\<lambda>r. if r \<in> set rows \<and> requeueable rc redis d r then requeued_row r now else r) (db_outbox d)
    \<and> ks = acc @ map o_command_id (filter (requeueable rc redis d) rows)
    \<and> db_tasks d' = db_tasks d \<and> db_executions d' = db_executions d"
  using assms
proof (induction rows arbitrary: d acc)
  case (Cons r rows)
  let ?e = "if requeueable rc redis d r then save_command d (requeued_row r now) else d"
  have tab: "db_tasks ?e = db_tasks d" "db_executions ?e = db_executions d" by simp_all
  have only: "r' = r" if "r' \<in> set (db_outbox d)" "o_command_id r' = o_command_id r" for r'
    using Cons.prems(1,2) that by (auto simp: distinct_map inj_on_def)
  have out: "db_outbox ?e = map (\<lambda>r'. if r' = r \<and> requeueable rc redis d r then requeued_row r now else r') (db_outbox d)"
    using only by (auto simp: save_command_def set_row_def)
  have ids: "map o_command_id (db_outbox ?e) = map o_command_id (db_outbox d)" by simp
  have sub: "set rows \<subseteq> set (db_outbox ?e)"
    unfolding out using Cons.prems(2,3) by (auto simp: image_iff)
  have nr: "r \<notin> set rows" using Cons.prems(3) by auto
  have not_again: "requeued_row r now \<notin> set rows"
    using Cons.prems(3) by (metis distinct.simps(2) image_eqI list.set_map list.simps(9) requeued_row_frame(1))
  have "fold (requeue_row rc redis now) rows (?e, acc @ (if requeueable rc redis d r then [o_command_id r] else []))
      = (d', ks)"
    using Cons.prems(4) by (simp add: requeue_row_eq split: if_splits)
  note step = Cons.IH [OF _ sub _ this]
  have q: "requeueable rc redis ?e = requeueable rc redis d"
    by (rule ext) (rule requeueable_cong [OF tab(1)])
  from step Cons.prems(1,3) have ih: "db_outbox d' = map (\<lambda>r. if r \<in> set rows \<and> requeueable rc redis d r then requeued_row r now else r) (db_outbox ?e)"
      "ks = acc @ (if requeueable rc redis d r then [o_command_id r] else [])
        @ map o_command_id (filter (requeueable rc redis d) rows)"
      "db_tasks d' = db_tasks d" "db_executions d' = db_executions d"
    unfolding q ids tab by simp_all
  show ?case
    using ih nr not_again unfolding out by (auto simp: comp_def)
qed simp

lemma notify_next [simp]: "db_outbox (fst (notify d now ty sv p k)) = db_outbox d"
  by simp

lemma sent_page_mem: "r \<in> set (sent_page d cur hwm n) \<Longrightarrow> r \<in> set (db_outbox d) \<and> sent_eligible d cur hwm r"
  by (auto simp: sent_page_def dest: in_set_takeD)

lemma sent_page_distinct:
  assumes "distinct (map o_command_id (db_outbox d))"
  shows "distinct (map o_command_id (sent_page d cur hwm n))"
proof -
  let ?rs = "filter (sent_eligible d cur hwm) (db_outbox d)"
  have "distinct (map o_command_id ?rs)" using assms by (rule distinct_map_filter)
  then have "distinct (map o_command_id (sort_key row_pos_of ?rs))" by (simp add: distinct_map)
  then show ?thesis by (simp add: sent_page_def take_map [symmetric])
qed

lemma sweep_page_cases:
  assumes "sweep_page d dp cutoff batch = (rows, hwm)"
  obtains cur where "sweep_start dp cutoff = (cur, hwm)" "rows = sent_page d cur hwm batch"
      "rows \<noteq> [] \<or> cur = None"
  | cur h where "sweep_start dp cutoff = (cur, h)" "sent_page d cur h batch = []" "hwm = cutoff"
      "rows = sent_page d None cutoff batch"
proof -
  obtain cur h where st: "sweep_start dp cutoff = (cur, h)" by (meson surj_pair)
  show ?thesis
  proof (cases "sent_page d cur h batch = [] \<and> cur \<noteq> None")
    case True
    with assms st show ?thesis by (intro that(2) [of cur h]) (auto simp: sweep_page_def)
  next
    case False
    then have e: "rows = sent_page d cur h batch" "hwm = h"
      using assms st by (auto simp: sweep_page_def simp del: not_None_eq split: if_splits)
    have "rows \<noteq> [] \<or> cur = None" unfolding e using False by blast
    then show ?thesis using that(1) st unfolding e by blast
  qed
qed

lemma reconcile_sent_cases:
  assumes "reconcile_sent_once rc redis now (dp, d) = (dp', d', ks)" and "dp_settings dp = Some cfg"
    and "distinct (map o_command_id (db_outbox d))"
    and "cutoff = now - secs (max 0 (sent_reconcile_min_age_seconds (cfg_redis cfg)))"
    and "batch = nat (max 1 (sent_reconcile_batch_limit (cfg_redis cfg)))"
  obtains rows hwm where "sweep_page d dp cutoff batch = (rows, hwm)"
    "set rows \<subseteq> set (db_outbox d)" "distinct (map o_command_id rows)"
    "\<And>r. r \<in> set rows \<Longrightarrow> o_status r = OUTBOX_SENT \<and> task_is_active d (o_task_id r)"
    "db_outbox d' = map (\<lambda>r. if r \<in> set rows \<and> requeueable rc redis d r then requeued_row r now else r) (db_outbox d)"
    "ks = map o_command_id (filter (requeueable rc redis d) rows)"
    "db_tasks d' = db_tasks d" "db_executions d' = db_executions d"
    "dp_settings dp' = dp_settings dp" "dp_batch_limit dp' = dp_batch_limit dp"
    "dp_cursor dp' = (if length rows = batch then Some (row_pos_of (last rows)) else None)"
    "dp_hwm dp' = (if length rows = batch then Some hwm else None)"
proof -
  obtain rows hwm where p: "sweep_page d dp cutoff batch = (rows, hwm)" by (meson surj_pair)
  then have r: "set rows \<subseteq> set (db_outbox d)" "distinct (map o_command_id rows)"
      "\<And>r. r \<in> set rows \<Longrightarrow> o_status r = OUTBOX_SENT \<and> task_is_active d (o_task_id r)"
    by (auto elim!: sweep_page_cases simp: sent_page_distinct [OF assms(3)] sent_eligible_def dest: sent_page_mem)
  obtain e ks0 where f: "fold (requeue_row rc redis now) rows (d, []) = (e, ks0)" by (meson surj_pair)
  note g = requeue_fold [OF assms(3) r(1,2) f]
  have "d' = (if ks0 = [] then e else fst (notify e now TYPE_SENT_COMMANDS_REQUEUED SEVERITY_INFO
      [(''count'', JInt (int (length ks0))), (''command_ids'', JList (map JStr (take 50 ks0)))] (Some (iso_date now))))"
    "ks = ks0" "dp' = dp\<lparr>dp_sent_reconcile_calls := dp_sent_reconcile_calls dp + 1,
      dp_cursor := (if length rows = batch then Some (row_pos_of (last rows)) else None),
      dp_hwm := (if (if length rows = batch then Some (row_pos_of (last rows)) else None) = None then None else Some hwm)\<rparr>"
    using assms(1,2,4,5) p f by (auto simp: reconcile_sent_once_def Let_def split: if_splits)
  with p r g show ?thesis by (intro that) auto
qed

lemma task_is_active_not_terminal:
  "task_is_active d k \<Longrightarrow> (case find_task d k of None \<Rightarrow> False | Some t \<Rightarrow> t_status t \<notin> TASK_TERMINAL)"
  by (auto simp: task_is_active_def TASK_ACTIVE_def TASK_TERMINAL_def split: option.splits)

lemma find_command_map:
  assumes "db_outbox d' = map f (db_outbox d)" and "\<And>r. o_command_id (f r) = o_command_id r"
  shows "find_command d' k = map_option f (find_command d k)"
proof -
  have "find_row o_command_id (map f rs) k = map_option f (find_row o_command_id rs k)" for rs
    by (induction rs) (simp_all add: assms(2))
  then show ?thesis by (simp add: find_command_def assms(1))
qed

lemma find_command_mem: "distinct (map o_command_id (db_outbox d)) \<Longrightarrow> r \<in> set (db_outbox d)
    \<Longrightarrow> find_command d (o_command_id r) = Some r"
  by (auto simp: find_command_def intro: find_row_distinct)

text \<open>What the sweep may requeue: only a delivered row of an active task whose message Redis
  reports gone. It is pending again with a fresh give-up window and its whole retry budget, so
  the next tick dispatches it and does not fail it; every other row, and every task and
  execution, is untouched. (A row whose \<open>XRANGE\<close> failed is not touched either.)
\<close>

theorem requeue_only_vanished:
  assumes "distinct (map o_command_id (db_outbox d))"
    and "reconcile_sent_once rc redis now (dp, d) = (dp', d', ks)"
  shows "(\<forall>k. k \<notin> set ks \<longrightarrow> find_command d' k = find_command d k)
    \<and> (\<forall>k \<in> set ks. \<exists>row m row'. find_command d k = Some row \<and> find_command d' k = Some row'
         \<and> o_status row = OUTBOX_SENT \<and> task_is_active d (o_task_id row)
         \<and> o_redis_msg_id row = Some m
         \<and> xrange rc redis (command_stream (o_agent_id row)) m = Inr False
         \<and> o_status row' = OUTBOX_PENDING \<and> o_retry_count row' = 0
         \<and> (\<forall>later < now + secs 900. \<not> past_give_up row' later))
    \<and> db_tasks d' = db_tasks d \<and> db_executions d' = db_executions d"
proof (cases "dp_settings dp")
  case None
  with assms(2) show ?thesis by (simp add: reconcile_sent_once_def)
next
  case (Some cfg)
  obtain rows hwm where
    r: "set rows \<subseteq> set (db_outbox d)" "distinct (map o_command_id rows)"
      "\<And>r. r \<in> set rows \<Longrightarrow> o_status r = OUTBOX_SENT \<and> task_is_active d (o_task_id r)"
    and out: "db_outbox d' = map (\<lambda>r. if r \<in> set rows \<and> requeueable rc redis d r then requeued_row r now else r) (db_outbox d)"
    and ks: "ks = map o_command_id (filter (requeueable rc redis d) rows)"
    and tab: "db_tasks d' = db_tasks d" "db_executions d' = db_executions d"
    by (rule reconcile_sent_cases [OF assms(2) Some assms(1) refl refl]) blast
  have fd: "find_command d' k = map_option (\<lambda>r. if r \<in> set rows \<and> requeueable rc redis d r
      then requeued_row r now else r) (find_command d k)" for k
    by (rule find_command_map [OF out]) simp
  have other: "find_command d' k = find_command d k" if "k \<notin> set ks" for k
    using that by (cases "find_command d k") (auto simp: fd ks dest: find_command_key)
  have hit: "\<exists>row m row'. find_command d k = Some row \<and> find_command d' k = Some row'
         \<and> o_status row = OUTBOX_SENT \<and> task_is_active d (o_task_id row)
         \<and> o_redis_msg_id row = Some m
         \<and> xrange rc redis (command_stream (o_agent_id row)) m = Inr False
         \<and> o_status row' = OUTBOX_PENDING \<and> o_retry_count row' = 0
         \<and> (\<forall>later < now + secs 900. \<not> past_give_up row' later)"
    if k: "k \<in> set ks" for k
  proof -
    obtain row where row: "row \<in> set rows" "requeueable rc redis d row" "k = o_command_id row"
      using k by (auto simp: ks)
    then have "find_command d k = Some row" using r(1) assms(1) by (auto intro: find_command_mem)
    moreover from this row have "find_command d' k = Some (requeued_row row now)" by (simp add: fd)
    moreover obtain m where "o_redis_msg_id row = Some m"
        "xrange rc redis (command_stream (o_agent_id row)) m = Inr False"
      using row(2) by (auto simp: requeueable_def message_vanished_def split: option.splits)
    ultimately show ?thesis
      using r(3) [OF row(1)] by (auto simp: past_give_up_def SCHEDULED_GIVE_UP_SECONDS_def)
  qed
  from other hit tab show ?thesis by blast
qed

lemma requeue_only_vanished_witness:
  "find_command (fst (snd (reconcile_sent_once demo_redis (True, []) (secs 7200)
      (new_dispatcher (Some default_settings) 1000, demo_db OUTBOX_SENT TASK_QUEUED EXEC_PENDING)))) ''c2''
   = None"
proof -
  let ?d = "demo_db OUTBOX_SENT TASK_QUEUED EXEC_PENDING" and ?p = "new_dispatcher (Some default_settings) 1000"
  obtain dp' d' ks where s: "reconcile_sent_once demo_redis (True, []) (secs 7200) (?p, ?d) = (dp', d', ks)"
    by (metis surj_pair)
  have "distinct (map o_command_id (db_outbox ?d))" by simp
  note t = requeue_only_vanished [OF this s]
  then have "''c2'' \<notin> set ks" by (auto split: if_splits)
  with t have "find_command d' ''c2'' = None" by simp
  with s show ?thesis by simp
qed

definition eligible_rows :: "db \<Rightarrow> row_pos option \<Rightarrow> instant \<Rightarrow> nat" where
  "eligible_rows d cur hwm = length (filter (sent_eligible d cur hwm) (db_outbox d))"

lemma row_pos_inj:
  assumes "distinct (map o_command_id (db_outbox d))"
  shows "inj_on row_pos_of (set (filter P (db_outbox d)))"
  using assms by (auto simp: row_pos_of_def inj_on_def distinct_map)

lemma length_filter_mono: "(\<And>x. x \<in> set xs \<Longrightarrow> P x \<Longrightarrow> Q x) \<Longrightarrow> length (filter P xs) \<le> length (filter Q xs)"
  by (induction xs) (auto intro: le_SucI)

lemma eligible_rows_requeue:
  assumes "db_outbox d' = map (\<lambda>r. if P r then requeued_row r now else r) (db_outbox d)"
    and "db_tasks d' = db_tasks d"
  shows "eligible_rows d' cur hwm \<le> eligible_rows d cur hwm"
proof -
  have "sent_eligible d' cur hwm (if P r then requeued_row r now else r) \<Longrightarrow> sent_eligible d cur hwm r" for r
    using assms(2) by (auto simp: sent_eligible_def task_is_active_def find_task_def split: if_splits)
  then show ?thesis
    by (auto simp: eligible_rows_def assms(1) filter_map comp_def intro!: length_filter_mono)
qed

text \<open>One call: a lost row of the current sweep is requeued, or the sweep goes on with the row
  still ahead of the cursor and a whole batch of other rows behind it.\<close>

lemma sweep_step:
  assumes "reconcile_sent_once rc redis now (dp, d) = (dp', d', ks)" and "dp_settings dp = Some cfg"
    and ids: "distinct (map o_command_id (db_outbox d))"
    and "cutoff = now - secs (max 0 (sent_reconcile_min_age_seconds (cfg_redis cfg)))"
    and "batch = nat (max 1 (sent_reconcile_batch_limit (cfg_redis cfg)))"
    and st: "sweep_start dp cutoff = (cur, hwm)" and r: "r \<in> set (db_outbox d)" "sent_eligible d cur hwm r"
    and van: "message_vanished rc redis r" and new: "o_command_id r \<notin> set ks"
  shows "\<exists>c. dp_cursor dp' = Some c \<and> dp_hwm dp' = Some hwm \<and> r \<in> set (db_outbox d')
    \<and> sent_eligible d' (Some c) hwm r \<and> eligible_rows d' (Some c) hwm + batch \<le> eligible_rows d cur hwm"
    and "dp_settings dp' = dp_settings dp \<and> map o_command_id (db_outbox d') = map o_command_id (db_outbox d)"
proof -
  obtain rows h where p: "sweep_page d dp cutoff batch = (rows, h)"
    and sub: "set rows \<subseteq> set (db_outbox d)"
    and out: "db_outbox d' = map (\<lambda>r. if r \<in> set rows \<and> requeueable rc redis d r then requeued_row r now else r) (db_outbox d)"
    and ks: "ks = map o_command_id (filter (requeueable rc redis d) rows)"
    and tab: "db_tasks d' = db_tasks d" and set: "dp_settings dp' = dp_settings dp"
    and cur: "dp_cursor dp' = (if length rows = batch then Some (row_pos_of (last rows)) else None)"
      "dp_hwm dp' = (if length rows = batch then Some h else None)"
    by (rule reconcile_sent_cases [OF assms(1,2) ids assms(4,5)]) blast
  show "dp_settings dp' = dp_settings dp \<and> map o_command_id (db_outbox d') = map o_command_id (db_outbox d)"
    unfolding set out by (simp add: comp_def)
  let ?xs = "filter (sent_eligible d cur hwm) (db_outbox d)"
  have b: "0 < batch" using assms(5) by simp
  have mem: "r \<in> set ?xs" using r by simp
  have "sent_page d cur hwm batch \<noteq> []"
    using mem b by (metis gr_implies_not0 length_pos_if_in_set length_sort sent_page_def take_eq_Nil list.size(3))
  with p st have rows: "rows = sent_page d cur hwm batch" "h = hwm"
    by (auto simp: sweep_page_def)
  have "requeueable rc redis d r"
    using r(2) van task_is_active_not_terminal [of d "o_task_id r"] by (simp add: requeueable_def sent_eligible_def)
  with new have notin: "r \<notin> set rows" by (auto simp: ks)
  note rest = take_sort_key_rest [OF mem _ row_pos_inj [OF ids] b, folded sent_page_def]
  let ?c = "row_pos_of (last rows)"
  have len: "length rows = batch" and lt: "?c < row_pos_of r"
    and cnt: "length (filter (\<lambda>x. ?c < row_pos_of x) ?xs) + batch \<le> length ?xs"
    using rest notin by (simp_all add: rows sent_page_def)
  have "last rows \<in> set rows" using len b by (metis last_in_set less_numeral_extra(3) list.size(3))
  then have "sent_eligible d cur hwm (last rows)" unfolding rows by (rule sent_page_mem [THEN conjunct2])
  then have adv: "sent_eligible d (Some ?c) hwm x \<longleftrightarrow> sent_eligible d cur hwm x \<and> ?c < row_pos_of x" for x
    by (auto simp: sent_eligible_def split: option.splits dest: less_trans)
  have "eligible_rows d (Some ?c) hwm + batch \<le> eligible_rows d cur hwm"
    using cnt by (simp add: eligible_rows_def ext [OF adv])
  then have "eligible_rows d' (Some ?c) hwm + batch \<le> eligible_rows d cur hwm"
    using eligible_rows_requeue [OF out tab, of "Some ?c" hwm] by simp
  moreover have "r \<in> set (db_outbox d')" using r(1) notin unfolding out by (auto simp: image_iff)
  moreover have "sent_eligible d' (Some ?c) hwm r"
    using adv [of r] r(2) lt tab by (simp add: sent_eligible_def task_is_active_def find_task_def)
  ultimately show "\<exists>c. dp_cursor dp' = Some c \<and> dp_hwm dp' = Some hwm \<and> r \<in> set (db_outbox d')
    \<and> sent_eligible d' (Some c) hwm r \<and> eligible_rows d' (Some c) hwm + batch \<le> eligible_rows d cur hwm"
    using cur len rows by auto
qed

primrec sweeps ::
    "'r redis_client \<Rightarrow> (instant \<times> 'r) list \<Rightarrow> dispatcher \<times> db \<Rightarrow> string list" where
  \<comment> \<open>the command ids requeued by successive calls, each with its instant and the Redis it meets\<close>
  "sweeps rc [] s = []"
| "sweeps rc (call # calls) s =
     (let (dp, d, ks) = reconcile_sent_once rc (snd call) (fst call) s in ks @ sweeps rc calls (dp, d))"

definition min_age :: "settings \<Rightarrow> instant" where
  "min_age cfg = secs (max 0 (sent_reconcile_min_age_seconds (cfg_redis cfg)))"

definition page_rows :: "settings \<Rightarrow> nat" where
  "page_rows cfg = nat (max 1 (sent_reconcile_batch_limit (cfg_redis cfg)))"

definition loses :: "'r redis_client \<Rightarrow> settings \<Rightarrow> (instant \<times> 'r) list \<Rightarrow> command_outbox \<Rightarrow> bool" where
  \<comment> \<open>at each call the row is old enough and Redis reports its message gone\<close>
  "loses rc cfg calls r \<longleftrightarrow>
     (\<forall>(now, redis) \<in> set calls. o_updated_at r < now - min_age cfg \<and> message_vanished rc redis r)"

lemma sweeps_find:
  assumes "dp_settings dp = Some cfg" and "distinct (map o_command_id (db_outbox d))"
    and "\<And>now redis cs. calls = (now, redis) # cs \<Longrightarrow> sweep_start dp (now - min_age cfg) = (cur, hwm)"
    and "r \<in> set (db_outbox d)" and "sent_eligible d cur hwm r" and "loses rc cfg calls r"
    and "eligible_rows d cur hwm < page_rows cfg * length calls"
  shows "o_command_id r \<in> set (sweeps rc calls (dp, d))"
  using assms
proof (induction calls arbitrary: dp d cur)
  case (Cons call calls)
  obtain now redis where call: "call = (now, redis)" by force
  obtain dp' d' ks where s: "reconcile_sent_once rc redis now (dp, d) = (dp', d', ks)" by (metis surj_pair)
  show ?case
  proof (cases "o_command_id r \<in> set ks")
    case False
    have st: "sweep_start dp (now - secs (max 0 (sent_reconcile_min_age_seconds (cfg_redis cfg)))) = (cur, hwm)"
      using Cons.prems(3) call by (simp add: min_age_def)
    have van: "message_vanished rc redis r" "loses rc cfg calls r"
      using Cons.prems(6) call by (simp_all add: loses_def)
    note step = sweep_step [OF s Cons.prems(1,2) refl page_rows_def st Cons.prems(4,5) van(1) False]
    then obtain c where c: "dp_cursor dp' = Some c" "dp_hwm dp' = Some hwm" "r \<in> set (db_outbox d')"
        "sent_eligible d' (Some c) hwm r" "eligible_rows d' (Some c) hwm + page_rows cfg \<le> eligible_rows d cur hwm"
      by blast
    have "o_command_id r \<in> set (sweeps rc calls (dp', d'))"
    proof (rule Cons.IH)
      show "eligible_rows d' (Some c) hwm < page_rows cfg * length calls" using c(5) Cons.prems(7) by simp
    qed (use step(2) c Cons.prems van in \<open>auto simp: sweep_start_def\<close>)
    then show ?thesis by (simp add: s call)
  qed (simp add: s call)
qed simp

text \<open>A row that is not in the rest of the sweep under way: a call either ends that sweep, so that the
  row is ahead in the next one, or takes a full page off it. An empty page wraps around in the same
  call.\<close>

lemma wrap_around:
  assumes "dp_settings dp = Some cfg" and "dp_cursor dp = Some c" and "dp_hwm dp = Some h"
    and "sent_page d (Some c) h (page_rows cfg) = []"
  shows "reconcile_sent_once rc redis now (dp, d)
    = reconcile_sent_once rc redis now (dp\<lparr>dp_cursor := None, dp_hwm := None\<rparr>, d)"
  using assms
  by (simp add: reconcile_sent_once_def sweep_page_def sweep_start_def page_rows_def Let_def split: prod.splits)

lemma full_page_advances:
  assumes "rows = sent_page d cur h batch" and "length rows = batch" and "0 < batch"
  shows "eligible_rows d (Some (row_pos_of (last rows))) h + batch \<le> eligible_rows d cur h"
proof -
  let ?xs = "sort_key row_pos_of (filter (sent_eligible d cur h) (db_outbox d))"
  let ?c = "row_pos_of (last rows)"
  have rows: "rows = take batch ?xs" using assms(1) by (simp add: sent_page_def)
  have "last rows = rows ! (batch - 1)" using assms(2,3) by (metis last_conv_nth length_0_conv neq0_conv)
  then have low: "row_pos_of x \<le> ?c" if "x \<in> set rows" for x
    using that assms(2,3) sorted_sort_key [of row_pos_of "filter (sent_eligible d cur h) (db_outbox d)"]
    unfolding rows by (auto simp: in_set_conv_nth sorted_iff_nth_mono)
  have "last rows \<in> set rows" using assms(2,3) by (metis last_in_set length_0_conv neq0_conv)
  then have "sent_eligible d cur h (last rows)" unfolding assms(1) by (rule sent_page_mem [THEN conjunct2])
  then have adv: "sent_eligible d (Some ?c) h x \<longleftrightarrow> ?c < row_pos_of x \<and> sent_eligible d cur h x" for x
    by (auto simp: sent_eligible_def split: option.splits dest: less_trans)
  have "eligible_rows d (Some ?c) h = length (filter (\<lambda>x. ?c < row_pos_of x) (filter (sent_eligible d cur h) (db_outbox d)))"
    by (simp add: eligible_rows_def ext [OF adv] conj_commute)
  also have "\<dots> = length (filter (\<lambda>x. ?c < row_pos_of x) (rows @ drop batch ?xs))"
    unfolding rows append_take_drop_id by (simp add: filter_sort)
  also have "\<dots> = length (filter (\<lambda>x. ?c < row_pos_of x) (drop batch ?xs))"
    using low by (auto simp: filter_empty_conv not_less)
  also have "\<dots> \<le> length ?xs - batch" by (metis length_drop length_filter_le)
  also have "\<dots> + batch = eligible_rows d cur h"
    using assms(2) by (simp add: rows eligible_rows_def)
  finally show ?thesis by simp
qed

lemma eligible_rows_bound: "eligible_rows d cur h \<le> length (db_outbox d)"
  by (simp add: eligible_rows_def)

lemma sweeps_find_behind:
  assumes "dp_settings dp = Some cfg" and "distinct (map o_command_id (db_outbox d))"
    and "dp_cursor dp = Some c" and "dp_hwm dp = Some h"
    and "r \<in> set (db_outbox d)" and "o_status r = OUTBOX_SENT" and "task_is_active d (o_task_id r)"
    and "loses rc cfg calls r" and "eligible_rows d (Some c) h < page_rows cfg * k"
    and "length (db_outbox d) < page_rows cfg * m" and "k + m \<le> length calls"
  shows "o_command_id r \<in> set (sweeps rc calls (dp, d))"
  using assms
proof (induction calls arbitrary: dp d c k)
  case Nil
  then show ?case by simp
next
  case (Cons call calls)
  obtain now redis where call: "call = (now, redis)" by force
  let ?batch = "page_rows cfg"
  have batch: "0 < ?batch" by (simp add: page_rows_def)
  have old: "o_updated_at r < now - min_age cfg" and rest: "loses rc cfg calls r"
    using Cons.prems(8) call by (simp_all add: loses_def)
  have N: "eligible_rows d cur' h' < ?batch * length (call # calls)" for cur' h'
  proof -
    have "?batch * m \<le> ?batch * length (call # calls)" using Cons.prems(11) by (intro mult_le_mono2) simp
    with eligible_rows_bound [of d cur' h'] Cons.prems(10) show ?thesis by simp
  qed
  show ?case
  proof (cases "sent_eligible d (Some c) h r")
    case True
    show ?thesis
      by (rule sweeps_find [OF Cons.prems(1,2) _ Cons.prems(5) True Cons.prems(8) N])
        (use Cons.prems in \<open>simp add: sweep_start_def\<close>)
  next
    case behind: False
    show ?thesis
    proof (cases "sent_page d (Some c) h ?batch = []")
      case True
      let ?dp = "dp\<lparr>dp_cursor := None, dp_hwm := None\<rparr>"
      have "sweeps rc (call # calls) (dp, d) = sweeps rc (call # calls) (?dp, d)"
        by (simp only: sweeps.simps wrap_around [OF Cons.prems(1,3,4) True])
      moreover have "o_command_id r \<in> set (sweeps rc (call # calls) (?dp, d))"
        by (rule sweeps_find [OF _ Cons.prems(2) _ Cons.prems(5) _ Cons.prems(8) N,
              where cur = None and hwm = "now - min_age cfg"])
          (use Cons.prems old call in \<open>auto simp: sweep_start_def sent_eligible_def\<close>)
      ultimately show ?thesis by simp
    next
      case False
      obtain dp' d' ks where s: "reconcile_sent_once rc redis now (dp, d) = (dp', d', ks)" by (metis surj_pair)
      obtain rows h' where p: "sweep_page d dp (now - min_age cfg) ?batch = (rows, h')"
        and out: "db_outbox d' = map (\<lambda>r. if r \<in> set rows \<and> requeueable rc redis d r then requeued_row r now else r) (db_outbox d)"
        and tab: "db_tasks d' = db_tasks d" and set: "dp_settings dp' = dp_settings dp"
        and cur: "dp_cursor dp' = (if length rows = ?batch then Some (row_pos_of (last rows)) else None)"
          "dp_hwm dp' = (if length rows = ?batch then Some h' else None)"
        by (rule reconcile_sent_cases [OF s Cons.prems(1,2) refl refl, folded min_age_def page_rows_def]) blast
      have rows: "rows = sent_page d (Some c) h ?batch" "h' = h"
        using p False Cons.prems(3,4) by (auto simp: sweep_page_def sweep_start_def)
      have notin: "r \<notin> set rows" using behind by (auto simp: rows dest: sent_page_mem)
      have ids: "map o_command_id (db_outbox d') = map o_command_id (db_outbox d)"
        by (simp add: out comp_def if_distrib [of o_command_id] cong: if_cong)
      have keep: "r \<in> set (db_outbox d')" "distinct (map o_command_id (db_outbox d'))"
          "task_is_active d' (o_task_id r)" "length (db_outbox d') = length (db_outbox d)"
      proof -
        show "r \<in> set (db_outbox d')" using Cons.prems(5) notin by (auto simp: out image_iff)
        show "distinct (map o_command_id (db_outbox d'))" unfolding ids by (rule Cons.prems(2))
        show "task_is_active d' (o_task_id r)" using Cons.prems(7) tab by (simp add: task_is_active_def find_task_def)
        show "length (db_outbox d') = length (db_outbox d)" by (simp add: out)
      qed
      have "o_command_id r \<in> set (sweeps rc calls (dp', d'))"
      proof (cases "length rows = ?batch")
        case True
        let ?c = "row_pos_of (last rows)"
        have e: "eligible_rows d' (Some ?c) h + ?batch \<le> eligible_rows d (Some c) h"
          using full_page_advances [OF rows(1) True batch] eligible_rows_requeue [OF out tab, of "Some ?c" h] by simp
        then obtain k' where k: "k = Suc k'" using Cons.prems(9) by (cases k) simp_all
        show ?thesis
        proof (rule Cons.IH [where c = ?c and k = k'])
          show "eligible_rows d' (Some ?c) h < ?batch * k'" using e Cons.prems(9) k by simp
        qed (use Cons.prems keep rest cur True set k rows in simp_all)
      next
        case short: False
        show ?thesis
        proof (cases calls)
          case Nil
          then have False using Cons.prems(9-11) by (cases k; cases m) simp_all
          then show ?thesis ..
        next
          case calls: (Cons call' calls')
          obtain now' redis' where call': "call' = (now', redis')" by force
          have "o_updated_at r < now' - min_age cfg" using rest calls call' by (simp add: loses_def)
          moreover have "?batch * m \<le> ?batch * length calls"
            using Cons.prems(9,11) by (intro mult_le_mono2) (cases k, simp_all)
          then have "eligible_rows d' None (now' - min_age cfg) < ?batch * length calls"
            using eligible_rows_bound [of d' None "now' - min_age cfg"] keep(4) Cons.prems(10) by linarith
          ultimately show ?thesis
            by (intro sweeps_find [where cur = None and hwm = "now' - min_age cfg" and cfg = cfg])
              (use Cons.prems keep rest cur short set calls call' in \<open>auto simp: sweep_start_def sent_eligible_def\<close>)
        qed
      qed
      then show ?thesis by (simp add: s call)
    qed
  qed
qed

text \<open>C4. No lost message stays lost. Take any state of the dispatcher, in the middle of a sweep or not,
  and a delivered row of an active task, ahead of the cursor or behind it, whose message Redis reports gone at
  every call. Then successive calls of the sweep requeue the row, as long as nothing else writes
  the database in between: twice as many calls as the outbox has pages are enough, one round to
  finish the sweep under way and one for the next, which starts at the oldest row again.
\<close>

theorem lost_message_is_found:
  assumes "dp_settings dp = Some cfg" and "distinct (map o_command_id (db_outbox d))"
    and "r \<in> set (db_outbox d)" and "o_status r = OUTBOX_SENT" and "task_is_active d (o_task_id r)"
    and "\<forall>(now, redis) \<in> set calls. message_vanished rc redis r
      \<and> o_updated_at r < now - secs (max 0 (sent_reconcile_min_age_seconds (cfg_redis cfg)))"
    and "2 * (length (db_outbox d) div nat (max 1 (sent_reconcile_batch_limit (cfg_redis cfg))) + 1) \<le> length calls"
  shows "o_command_id r \<in> set (sweeps rc calls (dp, d))"
proof -
  let ?n = "length (db_outbox d)" and ?k = "length (db_outbox d) div page_rows cfg + 1"
  have los: "loses rc cfg calls r" using assms(6) by (auto simp: loses_def min_age_def)
  have "?n mod page_rows cfg < page_rows cfg" by (simp add: page_rows_def)
  then have n: "?n < page_rows cfg * ?k"
    using mult_div_mod_eq [of "page_rows cfg" ?n] by (simp only: distrib_left mult_1_right)
  have len: "?k + ?k \<le> length calls" using assms(7) by (simp add: page_rows_def)
  then have big: "?n < page_rows cfg * length calls"
    using n mult_le_mono2 [of ?k "length calls" "page_rows cfg"] by linarith
  show ?thesis
  proof (cases "dp_cursor dp = None \<or> dp_hwm dp = None")
    case True
    obtain now redis cs where calls: "calls = (now, redis) # cs" using len by (cases calls) auto
    show ?thesis
    proof (rule sweeps_find [OF assms(1,2) _ assms(3) _ los])
      show "eligible_rows d None (now - min_age cfg) < page_rows cfg * length calls"
        using eligible_rows_bound [of d None "now - min_age cfg"] big by linarith
    qed (use True calls assms(4,5) los in \<open>auto simp: sweep_start_def sent_eligible_def loses_def split: option.splits\<close>)
  next
    case False
    then obtain c h where ch: "dp_cursor dp = Some c" "dp_hwm dp = Some h" by auto
    show ?thesis
      by (rule sweeps_find_behind [OF assms(1,2) ch assms(3,4,5) los le_less_trans [OF eligible_rows_bound n] n len])
  qed
qed

lemma lost_message_is_found_witness:
  "o_command_id (demo_row OUTBOX_SENT) \<in> set (sweeps demo_redis [(secs 7200, (True, [])), (secs 7500, (True, []))]
     ((new_dispatcher (Some default_settings) 1000)\<lparr>dp_cursor := Some (secs 7000, ''zz''), dp_hwm := Some (secs 7100)\<rparr>,
      demo_db OUTBOX_SENT TASK_QUEUED EXEC_PENDING))"
proof -
  let ?d = "demo_db OUTBOX_SENT TASK_QUEUED EXEC_PENDING" and ?calls = "[(secs 7200, (True, [])), (secs 7500, (True, []))]"
  let ?p = "(new_dispatcher (Some default_settings) 1000)\<lparr>dp_cursor := Some (secs 7000, ''zz''), dp_hwm := Some (secs 7100)\<rparr>"
  have a: "dp_settings ?p = Some default_settings" by (simp add: new_dispatcher_def)
  have b: "distinct (map o_command_id (db_outbox ?d))" "demo_row OUTBOX_SENT \<in> set (db_outbox ?d)"
      "o_status (demo_row OUTBOX_SENT) = OUTBOX_SENT" by simp_all
  have c: "task_is_active ?d (o_task_id (demo_row OUTBOX_SENT))"
    by (simp add: task_is_active_def TASK_ACTIVE_def)
  have e: "\<forall>(now, redis) \<in> set ?calls. message_vanished demo_redis redis (demo_row OUTBOX_SENT)
      \<and> o_updated_at (demo_row OUTBOX_SENT) < now - secs (max 0 (sent_reconcile_min_age_seconds (cfg_redis default_settings)))"
    by (simp add: message_vanished_def demo_redis_def default_settings_def default_redis_def secs_def)
  have f: "2 * (length (db_outbox ?d) div nat (max 1 (sent_reconcile_batch_limit (cfg_redis default_settings))) + 1)
      \<le> length ?calls"
    by (simp add: default_settings_def default_redis_def)
  show ?thesis by (rule lost_message_is_found [OF a b c e f])
qed

section \<open>Giving up respects terminals\<close>

lemma fail_timeout_rows:
  "find_execution (fail_execution_dispatch_timeout d row now) i =
     (case find_execution d i of None \<Rightarrow> None
      | Some x \<Rightarrow> Some (if i = o_execution_id row \<and> x_status x \<in> EXEC_ACTIVE
          then x\<lparr>x_status := EXEC_FAILED, x_error_code := Some DISPATCH_TIMEOUT, x_finished_at := Some now\<rparr>
          else x))"
  "find_task (fail_execution_dispatch_timeout d row now) j =
     (case find_task d j of None \<Rightarrow> None
      | Some t \<Rightarrow> Some (if j = o_task_id row \<and> t_status t \<in> TASK_ACTIVE
          then t\<lparr>t_status := TASK_FAILED, t_finished_at := Some now, t_updated_at := now\<rparr> else t))"
  by (auto simp: fail_execution_dispatch_timeout_def Let_def executions.lookup_update tasks.lookup_update
      dest: executions.lookup_key tasks.lookup_key split: option.splits)

lemma fail_timeout_execution:
  assumes "find_execution e = find_execution d" and "find_task e = find_task d"
    and "o_type row = Cmd_run" and "map_option o_status (find_command e k) = Some OUTBOX_FAILED"
  shows "find_execution d i = Some x \<longrightarrow> find_execution (fail_execution_dispatch_timeout e row now) i = Some x
      \<or> i = o_execution_id row \<and> o_type row = Cmd_run \<and> x_status x \<in> EXEC_ACTIVE
        \<and> find_execution (fail_execution_dispatch_timeout e row now) i
          = Some (x\<lparr>x_status := EXEC_FAILED, x_error_code := Some DISPATCH_TIMEOUT, x_finished_at := Some now\<rparr>)
        \<and> map_option o_status (find_command (fail_execution_dispatch_timeout e row now) k) = Some OUTBOX_FAILED"
  by (cases "i = o_execution_id row \<and> x_status x \<in> EXEC_ACTIVE")
    (use assms(3,4) in \<open>simp_all add: fail_timeout_rows assms(1)\<close>)

lemma fail_timeout_task:
  assumes "find_execution e = find_execution d" and "find_task e = find_task d"
    and "o_type row = Cmd_run" and "map_option o_status (find_command e k) = Some OUTBOX_FAILED"
  shows "find_task d j = Some t \<longrightarrow> find_task (fail_execution_dispatch_timeout e row now) j = Some t
      \<or> j = o_task_id row \<and> o_type row = Cmd_run \<and> t_status t \<in> TASK_ACTIVE
        \<and> find_task (fail_execution_dispatch_timeout e row now) j
          = Some (t\<lparr>t_status := TASK_FAILED, t_finished_at := Some now, t_updated_at := now\<rparr>)
        \<and> map_option o_status (find_command (fail_execution_dispatch_timeout e row now) k) = Some OUTBOX_FAILED"
  by (cases "j = o_task_id row \<and> t_status t \<in> TASK_ACTIVE")
    (use assms(3,4) in \<open>simp_all add: fail_timeout_rows assms(2)\<close>)

lemmas fail_timeout_effect = fail_timeout_execution fail_timeout_task

text \<open>Giving up never overwrites an outcome. Processing a row changes at most the row's own
  execution and task, only for a \<open>run\<close> row that is thereby failed, only while they are active,
  and then to \<open>failed\<close>, the execution with \<open>dispatch_timeout\<close>.
\<close>

theorem give_up_respects_terminals:
  assumes "process_row rc k now (d, redis) = Some (d', redis')" and "find_command d k = Some row"
  shows "(\<forall>i x. find_execution d i = Some x \<longrightarrow> find_execution d' i = Some x
      \<or> i = o_execution_id row \<and> o_type row = Cmd_run \<and> x_status x \<in> EXEC_ACTIVE
        \<and> find_execution d' i = Some (x\<lparr>x_status := EXEC_FAILED, x_error_code := Some DISPATCH_TIMEOUT,
            x_finished_at := Some now\<rparr>)
        \<and> map_option o_status (find_command d' k) = Some OUTBOX_FAILED)
    \<and> (\<forall>j t. find_task d j = Some t \<longrightarrow> find_task d' j = Some t
      \<or> j = o_task_id row \<and> o_type row = Cmd_run \<and> t_status t \<in> TASK_ACTIVE
        \<and> find_task d' j = Some (t\<lparr>t_status := TASK_FAILED, t_finished_at := Some now, t_updated_at := now\<rparr>)
        \<and> map_option o_status (find_command d' k) = Some OUTBOX_FAILED)"
  using assms(1)
proof (cases rule: process_row_cases)
  case (give_up r)
  let ?e = "save_command d (row\<lparr>o_status := OUTBOX_FAILED, o_last_error := Some DISPATCH_TIMEOUT,
      o_updated_at := now\<rparr>)"
  have r: "r = row" using give_up(1) assms(2) by simp
  have e: "find_execution ?e = find_execution d" "find_task ?e = find_task d"
    by (rule find_same_tables, simp)+
  have c: "map_option o_status (find_command ?e k) = Some OUTBOX_FAILED"
    using assms(2) find_command_key [OF assms(2)] by (simp add: commands.lookup_update)
  show ?thesis
  proof (cases "o_type row = Cmd_run")
    case True
    then have "d' = fail_execution_dispatch_timeout ?e row now" using give_up(5) r by (simp add: Let_def)
    then show ?thesis using fail_timeout_effect [OF e True c] by blast
  next
    case False
    with give_up(5) r e show ?thesis by (simp add: Let_def)
  qed
next
  case (dispatch r e result)
  have r: "r = row" using dispatch(1) assms(2) by simp
  have e: "find_execution e = find_execution d" "find_task e = find_task d"
    using try_dispatch_frame [OF dispatch(2)] by (blast intro: find_same_tables)+
  show ?thesis
  proof (cases "dr_outcome result = Failed \<and> o_type row = Cmd_run")
    case True
    then have "map_option o_status (find_command e k) = Some OUTBOX_FAILED"
    proof (cases "o_status row \<in> {OUTBOX_SENT, OUTBOX_CANCELED}")
      case sent: True
      with dispatch(2) assms(2) have "dr_outcome result \<noteq> Failed"
        by (cases rule: try_dispatch_cases) auto
      with True show ?thesis by simp
    next
      case False
      from dispatch(2) assms(2) False True show ?thesis by (cases rule: try_dispatch_row) auto
    qed
    moreover have "d' = fail_execution_dispatch_timeout e row now" using dispatch(3) r True by simp
    ultimately show ?thesis using fail_timeout_effect [OF e _ _] True by blast
  next
    case False
    with dispatch(3) r e show ?thesis by auto
  qed
qed

lemma give_up_respects_terminals_witness:
  "\<exists>d' redis'. process_row demo_redis ''c1'' (secs 900) (demo_db OUTBOX_PENDING TASK_RUNNING EXEC_FINISHED, (True, []))
      = Some (d', redis')
    \<and> map_option x_status (find_execution d' ''x1'') = Some EXEC_FINISHED"
proof -
  let ?d = "demo_db OUTBOX_PENDING TASK_RUNNING EXEC_FINISHED"
  have "process_row demo_redis ''c1'' (secs 900) (?d, (True, [])) \<noteq> None"
    by (rule process_row_total) simp
  then obtain d' redis' where p: "process_row demo_redis ''c1'' (secs 900) (?d, (True, [])) = Some (d', redis')"
    by auto
  have *: "find_execution ?d ''x1'' = Some (sample_execution\<lparr>x_id := ''x1'', x_task_id := ''t1'', x_status := EXEC_FINISHED\<rparr>)"
    by simp
  have "find_command ?d ''c1'' = Some (demo_row OUTBOX_PENDING)" by simp
  note t = give_up_respects_terminals [OF p this]
  have "find_execution d' ''x1'' = Some (sample_execution\<lparr>x_id := ''x1'', x_task_id := ''t1'', x_status := EXEC_FINISHED\<rparr>)"
  proof -
    have "x_status (sample_execution\<lparr>x_id := ''x1'', x_task_id := ''t1'', x_status := EXEC_FINISHED\<rparr>) \<notin> EXEC_ACTIVE"
      by (simp add: EXEC_ACTIVE_def)
    with * t show ?thesis by blast
  qed
  with p show ?thesis by simp
qed

text \<open>C9. A give-up takes the whole task down. The task is failed although a sibling execution is
  still active, and from then on the reconcile pass, which reads the executions of active
  tasks only, never looks at that sibling again: if its node dies, it is never marked lost.
\<close>

theorem give_up_strands_siblings:
  assumes "keys_unique d" and "find_task d (o_task_id row) = Some t" and "t_status t \<in> TASK_ACTIVE"
    and "find_execution d y = Some sibling" and "y \<noteq> o_execution_id row"
    and "x_task_id sibling = o_task_id row" and "x_status sibling \<in> EXEC_ACTIVE"
  shows "find_execution (fail_execution_dispatch_timeout d row now) y = Some sibling
    \<and> map_option t_status (find_task (fail_execution_dispatch_timeout d row now) (o_task_id row)) = Some TASK_FAILED
    \<and> sibling \<notin> set (active_executions (fail_execution_dispatch_timeout d row now))"
proof -
  let ?d = "fail_execution_dispatch_timeout d row now"
  have t: "find_task ?d (o_task_id row)
      = Some (t\<lparr>t_status := TASK_FAILED, t_finished_at := Some now, t_updated_at := now\<rparr>)"
    using assms(2,3) by (simp add: fail_timeout_rows)
  have "t' = t\<lparr>t_status := TASK_FAILED, t_finished_at := Some now, t_updated_at := now\<rparr>"
    if "t' \<in> set (db_tasks ?d)" "t_id t' = o_task_id row" for t'
  proof -
    have "distinct (map t_id (db_tasks ?d))" using assms(1) fail_timeout_keys [of d row now]
      by (simp add: keys_unique_def)
    then have "find_task ?d (t_id t') = Some t'"
      using that(1) unfolding find_task_def by (rule find_row_distinct)
    with t that(2) show ?thesis by simp
  qed
  then have "t_status t' = TASK_FAILED" if "t' \<in> set (db_tasks ?d)" "t_id t' = o_task_id row" for t'
    using that by fastforce
  then have "\<not> list_ex (\<lambda>t'. t_id t' = x_task_id sibling \<and> t_status t' \<in> TASK_ACTIVE) (db_tasks ?d)"
    using assms(6) by (fastforce simp: list_ex_iff TASK_ACTIVE_def)
  then have "sibling \<notin> set (active_executions ?d)" by (simp add: active_executions_def)
  with t assms(4,5) show ?thesis by (simp add: fail_timeout_rows)
qed

lemma give_up_strands_siblings_witness:
  "\<exists>d. x_status (the (find_execution (fail_execution_dispatch_timeout d (demo_row OUTBOX_FAILED) 0) ''x2'')) = EXEC_RUNNING
     \<and> map_option t_status (find_task (fail_execution_dispatch_timeout d (demo_row OUTBOX_FAILED) 0) ''t1'') = Some TASK_FAILED"
proof -
  let ?s = "sample_execution\<lparr>x_id := ''x2'', x_task_id := ''t1'', x_status := EXEC_RUNNING\<rparr>"
  let ?d = "(demo_db OUTBOX_FAILED TASK_RUNNING EXEC_PENDING)\<lparr>db_executions := [?s]\<rparr>"
  have "keys_unique ?d" "find_task ?d ''t1'' = Some (sample_task\<lparr>t_id := ''t1'', t_status := TASK_RUNNING\<rparr>)"
    "find_execution ?d ''x2'' = Some ?s"
    by (simp_all add: demo_db_def keys_unique_def find_task_def find_execution_def empty_db_def)
  with give_up_strands_siblings [of ?d "demo_row OUTBOX_FAILED" _ "''x2''" ?s 0] show ?thesis
    by (intro exI [of _ ?d]) (simp add: TASK_ACTIVE_def EXEC_ACTIVE_def)
qed

section \<open>Cancel\<close>

text \<open>The commands that a piece of work may have written to Redis.\<close>

inductive sends :: "'r redis_client \<Rightarrow> (agent_command \<Rightarrow> bool) \<Rightarrow> 'r \<Rightarrow> 'r \<Rightarrow> bool"
  for rc :: "'r redis_client" and P :: "agent_command \<Rightarrow> bool" where
  sends_none: "sends rc P r r"
| sends_more: "sends rc P r r' \<Longrightarrow> P c \<Longrightarrow> sends rc P r (fst (send rc r' c))"

lemma sends_trans: "sends rc P b c \<Longrightarrow> sends rc P a b \<Longrightarrow> sends rc P a c"
  by (induction rule: sends.induct) (auto intro: sends.intros)

lemma sends_one: "send rc r c = (r', ans) \<Longrightarrow> P c \<Longrightarrow> sends rc P r r'"
  using sends_more [OF sends_none, of P c rc r] by simp

lemma try_dispatch_sends:
  assumes "try_dispatch rc (d, redis) k give_up now = Some ((d', redis'), res)"
    and "\<And>row. find_command d k = Some row \<Longrightarrow> P (build_command row)"
  shows "sends rc P redis redis'"
  using assms(1)
proof (cases rule: try_dispatch_cases)
  case (failed row exc)
  then show ?thesis using assms(2) by (intro sends_one)
next
  case (ok row m)
  then show ?thesis using assms(2) by (intro sends_one)
qed (auto intro: sends_none)

text \<open>The primary key of the outbox, with the identifiers still to be drawn unused.\<close>

definition command_ids_ok :: "db \<Rightarrow> bool" where
  "command_ids_ok d \<longleftrightarrow> distinct (map o_command_id (db_outbox d))
     \<and> (\<forall>n \<ge> db_next_id d. fresh_id n \<notin> set (map o_command_id (db_outbox d)))"

lemma new_command_row:
  obtains r where "snd (new_command d now m t x a ty i p) = r"
    "db_outbox (fst (new_command d now m t x a ty i p)) = db_outbox d @ [r]"
    "db_next_id (fst (new_command d now m t x a ty i p)) = Suc (db_next_id d)"
    "o_command_id r = fresh_id (db_next_id d)" "o_task_id r = t" "o_execution_id r = x" "o_agent_id r = a"
    "o_type r = ty" "o_intent r = i" "o_payload r = p" "o_status r = OUTBOX_PENDING"
  by (rule that [OF refl]) (simp_all add: new_command_def windows_def new_id_def add_command_def Let_def)

lemma command_ids_ok_new:
  "command_ids_ok d \<Longrightarrow> command_ids_ok (fst (new_command d now m t x a ty i p))"
  by (rule new_command_row [of d now m t x a ty i p]) (auto simp: command_ids_ok_def)

lemma create_stops_spec:
  assumes "create_stops d now tid xs = (d', ks)"
  shows "\<exists>rs. db_outbox d' = db_outbox d @ rs \<and> map o_command_id rs = ks
      \<and> map o_execution_id rs = map x_id (filter (\<lambda>x. x_status x \<notin> EXEC_TERMINAL) xs)
      \<and> (\<forall>r \<in> set rs. o_type r = Cmd_stop \<and> o_intent r = Some Intent_cancel \<and> o_task_id r = tid
           \<and> o_status r = OUTBOX_PENDING)
      \<and> db_tasks d' = db_tasks d \<and> db_executions d' = db_executions d
      \<and> (command_ids_ok d \<longrightarrow> command_ids_ok d')"
  using assms
proof (induction xs arbitrary: d d' ks)
  case (Cons x xs)
  show ?case
  proof (cases "x_status x \<in> EXEC_TERMINAL")
    case True
    with Cons show ?thesis by simp
  next
    case False
    let ?n = "new_command d now False tid (x_id x) (or_default (x_agent_id x) []) Cmd_stop (Some Intent_cancel) []"
    obtain r where r: "snd ?n = r" "db_outbox (fst ?n) = db_outbox d @ [r]" "o_task_id r = tid"
        "o_execution_id r = x_id x" "o_type r = Cmd_stop" "o_intent r = Some Intent_cancel" "o_status r = OUTBOX_PENDING"
      by (rule new_command_row [of d now False tid "x_id x" "or_default (x_agent_id x) []" Cmd_stop
            "Some Intent_cancel" "[]"])
    obtain d2 ks2 where rest: "create_stops (fst ?n) now tid xs = (d2, ks2)" by (meson surj_pair)
    with False Cons.prems r(1) have "d' = d2" "ks = o_command_id r # ks2"
      by (auto simp: create_stop_outbox_def split: prod.splits)
    moreover obtain rs where "db_outbox d2 = db_outbox (fst ?n) @ rs" "map o_command_id rs = ks2"
        "map o_execution_id rs = map x_id (filter (\<lambda>x. x_status x \<notin> EXEC_TERMINAL) xs)"
        "\<forall>r \<in> set rs. o_type r = Cmd_stop \<and> o_intent r = Some Intent_cancel \<and> o_task_id r = tid
           \<and> o_status r = OUTBOX_PENDING"
        "db_tasks d2 = db_tasks d" "db_executions d2 = db_executions d"
        "command_ids_ok (fst ?n) \<longrightarrow> command_ids_ok d2"
      using Cons.IH [OF rest] by auto
    ultimately show ?thesis
      using r False command_ids_ok_new by (intro exI [of _ "r # rs"]) auto
  qed
qed simp

lemma dispatch_all_spec:
  assumes "dispatch_all rc ks give_up now (d, redis) = Some ((d', redis'), res)" and "distinct ks"
    and "\<And>k row. k \<in> set ks \<Longrightarrow> find_command d k = Some row \<Longrightarrow> P (build_command row)"
  shows "db_tasks d' = db_tasks d \<and> db_executions d' = db_executions d \<and> db_log_files d' = db_log_files d
    \<and> db_schedules d' = db_schedules d \<and> db_next_id d' = db_next_id d
    \<and> map o_command_id (db_outbox d') = map o_command_id (db_outbox d)
    \<and> (\<forall>k. k \<notin> set ks \<longrightarrow> find_command d' k = find_command d k)
    \<and> sends rc P redis redis' \<and> length res = length ks"
  using assms
proof (induction ks arbitrary: d redis res)
  case Nil
  then show ?case by (simp add: sends_none)
next
  case (Cons k ks)
  obtain e r one where s: "try_dispatch rc (d, redis) k give_up now = Some ((e, r), one)"
    using Cons.prems(1) by (auto split: option.splits)
  obtain rs where rest: "dispatch_all rc ks give_up now (e, r) = Some ((d', redis'), rs)" "res = one # rs"
    using Cons.prems(1) s by (auto split: option.splits)
  note f = try_dispatch_frame [OF s]
  have p: "P (build_command row)" if "k' \<in> set ks" "find_command e k' = Some row" for k' row
  proof -
    have "find_command d k' = Some row" using f that Cons.prems(2) by (metis distinct.simps(2))
    with that(1) show ?thesis by (auto intro: Cons.prems(3))
  qed
  have "sends rc P redis r" using s by (rule try_dispatch_sends) (auto intro: Cons.prems(3))
  moreover have "distinct ks" "k \<notin> set ks" using Cons.prems(2) by simp_all
  moreover note Cons.IH [OF rest(1) this(1)]
  ultimately show ?case using p f rest(2) by (auto intro: sends_trans)
qed

lemma dispatch_all_total:
  "set ks \<subseteq> set (map o_command_id (db_outbox d)) \<Longrightarrow> dispatch_all rc ks give_up now (d, redis) \<noteq> None"
proof (induction ks arbitrary: d redis)
  case (Cons k ks)
  then have "find_command d k \<noteq> None" unfolding find_command_ids by simp
  then obtain e r one where s: "try_dispatch rc (d, redis) k give_up now = Some ((e, r), one)"
    using try_dispatch_total [of "(d, redis)" k rc give_up now] by auto
  have "set (map o_command_id (db_outbox e)) = set (map o_command_id (db_outbox d))"
    using try_dispatch_frame [OF s] by (metis)
  with Cons.prems have "set ks \<subseteq> set (map o_command_id (db_outbox e))" by simp
  then have "dispatch_all rc ks give_up now (e, r) \<noteq> None" by (rule Cons.IH)
  with s show ?case by (auto split: option.splits)
qed simp

lemma cancel_unsent_frame [simp]:
  "db_tasks (fst (cancel_unsent_outbox d now k)) = db_tasks d"
  "db_executions (fst (cancel_unsent_outbox d now k)) = db_executions d"
  "db_next_id (fst (cancel_unsent_outbox d now k)) = db_next_id d"
  "map o_command_id (db_outbox (fst (cancel_unsent_outbox d now k))) = map o_command_id (db_outbox d)"
  "list_executions (fst (cancel_unsent_outbox d now k)) j = list_executions d j"
  by (simp_all add: cancel_unsent_outbox_def Let_def comp_def list_executions_def)

lemma cancel_unsent_find:
  "find_command (fst (cancel_unsent_outbox d now tid)) k =
     map_option (\<lambda>r. if o_task_id r = tid \<and> o_status r \<in> OUTBOX_UNRESOLVED
       then r\<lparr>o_status := OUTBOX_CANCELED, o_updated_at := now\<rparr> else r) (find_command d k)"
  by (rule find_command_map) (simp_all add: cancel_unsent_outbox_def Let_def)

lemma find_command_append:
  "db_outbox d' = db_outbox d @ rs \<Longrightarrow> find_command d k = Some r \<Longrightarrow> find_command d' k = Some r"
  by (simp add: find_command_def find_row_append)

text \<open>What a cancel request does. It always returns; no task or execution changes here (the
  agent's answer converges them); every command of the task that had not left the server is
  cancelled, so it can never be dispatched; exactly one new stop is enqueued per execution
  that is not terminal, and stops of this task with the cancel intent are all that is sent.
\<close>

theorem cancel_request:
  assumes "command_ids_ok d"
  shows "\<exists>d' redis' n (rs :: command_outbox list). request_cancel rc t now (d, redis) = Some ((d', redis'), n)
    \<and> db_tasks d' = db_tasks d \<and> db_executions d' = db_executions d
    \<and> (\<forall>k row. find_command d k = Some row \<longrightarrow> find_command d' k =
         Some (if o_task_id row = t_id t \<and> o_status row \<in> OUTBOX_UNRESOLVED
           then row\<lparr>o_status := OUTBOX_CANCELED, o_updated_at := now\<rparr> else row))
    \<and> map o_command_id (db_outbox d') = map o_command_id (db_outbox d) @ map o_command_id rs
    \<and> map o_execution_id rs = map x_id (filter (\<lambda>x. x_status x \<notin> EXEC_TERMINAL) (list_executions d (t_id t)))
    \<and> n = length rs
    \<and> sends rc (\<lambda>c. cmd_type c = Cmd_stop \<and> cmd_intent c = Some Intent_cancel \<and> cmd_task_id c = t_id t)
        redis redis'"
proof -
  let ?P = "\<lambda>c. cmd_type c = Cmd_stop \<and> cmd_intent c = Some Intent_cancel \<and> cmd_task_id c = t_id t"
  let ?c = "fst (cancel_unsent_outbox d now (t_id t))"
  have ok: "command_ids_ok ?c" using assms unfolding command_ids_ok_def cancel_unsent_frame .
  obtain e ks where st: "create_stops ?c now (t_id t) (list_executions d (t_id t)) = (e, ks)" by (meson surj_pair)
  then obtain rs where rs: "db_outbox e = db_outbox ?c @ rs" "map o_command_id rs = ks"
      "map o_execution_id rs = map x_id (filter (\<lambda>x. x_status x \<notin> EXEC_TERMINAL) (list_executions d (t_id t)))"
      "\<forall>r \<in> set rs. o_type r = Cmd_stop \<and> o_intent r = Some Intent_cancel \<and> o_task_id r = t_id t"
      "db_tasks e = db_tasks d" "db_executions e = db_executions d" "command_ids_ok e"
    using create_stops_spec [OF st] ok by auto
  have ids: "map o_command_id (db_outbox e) = map o_command_id (db_outbox d) @ ks"
    unfolding rs(1) map_append rs(2) cancel_unsent_frame ..
  have dist: "distinct (map o_command_id (db_outbox d) @ ks)"
    using rs(7) unfolding command_ids_ok_def ids by blast
  have "dispatch_all rc ks False now (e, redis) \<noteq> None"
    by (rule dispatch_all_total) (unfold ids, simp)
  then obtain d' redis' res where da: "dispatch_all rc ks False now (e, redis) = Some ((d', redis'), res)" by auto
  have P: "?P (build_command row)" if "k \<in> set ks" "find_command e k = Some row" for k row
  proof -
    have "row \<in> set (db_outbox e)" "o_command_id row = k"
      using that(2) by (auto simp: find_command_def dest: find_row_mem find_row_key)
    moreover have "o_command_id r \<noteq> k" if "r \<in> set (db_outbox ?c)" for r
    proof -
      have "o_command_id r \<in> set (map o_command_id (db_outbox ?c))"
        unfolding set_map using that by (rule imageI)
      then show ?thesis using dist \<open>k \<in> set ks\<close> unfolding cancel_unsent_frame by auto
    qed
    ultimately have "row \<in> set rs" by (auto simp: rs(1))
    with rs(4) show ?thesis by (simp add: build_command_def)
  qed
  have f: "db_tasks d' = db_tasks e \<and> db_executions d' = db_executions e \<and> db_log_files d' = db_log_files e
    \<and> db_schedules d' = db_schedules e \<and> db_next_id d' = db_next_id e
    \<and> map o_command_id (db_outbox d') = map o_command_id (db_outbox e)
    \<and> (\<forall>k. k \<notin> set ks \<longrightarrow> find_command d' k = find_command e k)
    \<and> sends rc ?P redis redis' \<and> length res = length ks"
    by (rule dispatch_all_spec [where P = ?P, OF da]) (use dist P in auto)
  have old: "find_command d' k = Some (if o_task_id row = t_id t \<and> o_status row \<in> OUTBOX_UNRESOLVED
           then row\<lparr>o_status := OUTBOX_CANCELED, o_updated_at := now\<rparr> else row)"
    if "find_command d k = Some row" for k row
  proof -
    have "k \<in> set (map o_command_id (db_outbox d))" using that find_command_ids [of d k] by auto
    then have "k \<notin> set ks" using dist by auto
    moreover have "find_command e k = Some (if o_task_id row = t_id t \<and> o_status row \<in> OUTBOX_UNRESOLVED
           then row\<lparr>o_status := OUTBOX_CANCELED, o_updated_at := now\<rparr> else row)"
      by (rule find_command_append [OF rs(1)]) (simp add: cancel_unsent_find that)
    ultimately show ?thesis using f by simp
  qed
  have "request_cancel rc t now (d, redis) = Some ((d', redis'), length rs)"
    using st da rs(2) by (auto simp: request_cancel_def Let_def)
  moreover have "map o_command_id (db_outbox d') = map o_command_id (db_outbox d) @ map o_command_id rs"
    using f unfolding ids rs(2) by simp
  moreover have "db_tasks d' = db_tasks d" "db_executions d' = db_executions d" "sends rc ?P redis redis'"
    using f rs(5,6) by simp_all
  ultimately show ?thesis using rs(3)
    by (intro exI [of _ d'] exI [of _ redis'] exI [of _ "length rs"] exI [of _ rs] conjI allI impI old refl)
qed

lemma cancel_request_witness:
  "\<exists>d' redis' n. request_cancel demo_redis (sample_task\<lparr>t_id := ''t1''\<rparr>) 0
      (demo_db OUTBOX_PENDING TASK_QUEUED EXEC_PENDING, (True, [])) = Some ((d', redis'), n)
    \<and> map_option o_status (find_command d' ''c1'') = Some OUTBOX_CANCELED"
proof -
  have "command_ids_ok (demo_db OUTBOX_PENDING TASK_QUEUED EXEC_PENDING)"
    by (simp add: command_ids_ok_def fresh_id_def)
  from cancel_request [OF this, of demo_redis "sample_task\<lparr>t_id := ''t1''\<rparr>" 0 "(True, [])"]
  obtain d' redis' n where r: "request_cancel demo_redis (sample_task\<lparr>t_id := ''t1''\<rparr>) 0
      (demo_db OUTBOX_PENDING TASK_QUEUED EXEC_PENDING, (True, [])) = Some ((d', redis'), n)"
    and c: "\<forall>k row. find_command (demo_db OUTBOX_PENDING TASK_QUEUED EXEC_PENDING) k = Some row \<longrightarrow>
         find_command d' k = Some (if o_task_id row = ''t1'' \<and> o_status row \<in> OUTBOX_UNRESOLVED
           then row\<lparr>o_status := OUTBOX_CANCELED, o_updated_at := 0\<rparr> else row)"
    by auto
  from c have "find_command d' ''c1'' = Some ((demo_row OUTBOX_PENDING)\<lparr>o_status := OUTBOX_CANCELED, o_updated_at := 0\<rparr>)"
    by (simp add: OUTBOX_UNRESOLVED_def)
  with r show ?thesis by auto
qed

end
