(* ===== verification/Executors.thy ===== *)
theory Executors
  imports Dispatcher
begin

text \<open>
  The executors (\<^verbatim>\<open>apps/server/dopilot_server/executors/scrapyd.py\<close>,
  \<^verbatim>\<open>python_wheel.py\<close>, \<^verbatim>\<open>registry.py\<close>): a run request becomes a task, one execution with
  its \<open>run\<close> command and log file per selected node, and a first delivery of each command.

  The two classes differ in the parameters they parse and the payload they build, so one
  definition takes the kind of run. \<open>choice\<close> is the random node choice and \<open>commit_ok\<close> tells
  whether the final commit, after the commands left for Redis, succeeded.
\<close>

section \<open>The two kinds of run\<close>

datatype run_kind = Run_scrapy | Run_wheel

definition get_executor :: "string \<Rightarrow> api_error + run_kind" where
  "get_executor artifact_type =
     (if artifact_type = ''scrapy'' then Inr Run_scrapy
      else if artifact_type = ''python_wheel'' then Inr Run_wheel
      else Inl (ApiError 400 ''execution.unknown_artifact_type'' ''errors.unknownArtifactType''
        [(''artifact_type'', JStr artifact_type)]))"

fun artifact_type_of :: "run_kind \<Rightarrow> string" where
  "artifact_type_of Run_scrapy = ''scrapy''"
| "artifact_type_of Run_wheel = ''python_wheel''"

fun ARTIFACT_CAPABILITY :: "run_kind \<Rightarrow> string" where
  "ARTIFACT_CAPABILITY Run_scrapy = ''scrapy''"
| "ARTIFACT_CAPABILITY Run_wheel = ''script''"

datatype run_params = Scrapy scrapy_params | Wheel wheel_params

definition parse_params :: "run_kind \<Rightarrow> run_request \<Rightarrow> api_error + run_params" where
  "parse_params kind request =
     (case kind of
        Run_scrapy \<Rightarrow> (case parse_scrapy_params request of Inl e \<Rightarrow> Inl e | Inr p \<Rightarrow> Inr (Scrapy p))
      | Run_wheel \<Rightarrow> (case parse_wheel_params request of Inl e \<Rightarrow> Inl e | Inr p \<Rightarrow> Inr (Wheel p)))"

fun run_payload :: "run_params \<Rightarrow> task \<Rightarrow> execution \<Rightarrow> obj" where
  \<comment> \<open>\<open>ScrapyRunPayload(...).model_dump()\<close>, \<open>PythonWheelRunPayload(...).model_dump()\<close>\<close>
  "run_payload (Scrapy p) t x =
     [(''command'', JStr (sp_command p)), (''artifact'', JObj (sp_artifact p)),
      (''runtime_context'', JObj (runtime_context_for t x ''scrapy'' ''scrapy'')),
      (''task_type'', JStr ''scrapy'')]"
| "run_payload (Wheel p) t x =
     [(''shell_command'', JStr (wp_shell_command p)), (''artifact'', JObj (wp_artifact p)),
      (''env'', JObj (map (\<lambda>(k, v). (k, JStr v)) (wp_env p))), (''working_dir'', jstr (wp_working_dir p)),
      (''runtime_context'', JObj (runtime_context_for t x ''python_wheel'' ''python_wheel'')),
      (''task_type'', JStr ''python_wheel'')]"

section \<open>Running a request\<close>

primrec launch :: "settings \<Rightarrow> instant \<Rightarrow> run_params \<Rightarrow> task \<Rightarrow> node list \<Rightarrow> db \<Rightarrow> db \<times> string list" where
  \<comment> \<open>the loop over the selected nodes; returns the ids of the \<open>run\<close> rows\<close>
  "launch cfg now params t [] d = (d, [])"
| "launch cfg now params t (n # ns) d =
     (let (d, x) = create_execution d t n now;
          (d, row) = create_run_outbox d now (t_id t) (x_id x) (or_default (nd_agent_id n) [])
              (run_payload params t x) True;
          (d, _) = create_log_file d cfg t x Stream_log now;
          (d, ks) = launch cfg now params t ns d
      in (d, o_command_id row # ks))"

definition fail_dispatch_unavailable :: "db \<Rightarrow> string \<Rightarrow> instant \<Rightarrow> db" where
  "fail_dispatch_unavailable d task_id now =
     (let d = (case find_task d task_id of None \<Rightarrow> d
            | Some t \<Rightarrow> save_task d (t\<lparr>t_status := TASK_FAILED,
                t_started_at := first_some (t_started_at t) (Some now), t_finished_at := Some now,
                t_updated_at := now\<rparr>))
      in fold (\<lambda>x d. if x_status x \<in> EXEC_ACTIVE
           then save_execution d (x\<lparr>x_status := EXEC_FAILED, x_error_code := Some DISPATCH_UNAVAILABLE,
             x_finished_at := Some now\<rparr>) else d)
         (list_executions d task_id) d)"

datatype run_end =
    Run_response string task_status
  | Run_error api_error
  | Run_dispatch_unknown string

definition dispatch_unavailable :: "string \<Rightarrow> api_error" where
  "dispatch_unavailable task_id =
     ApiError 503 ''execution.dispatch_unavailable'' ''errors.dispatchUnavailable''
       [(''task_id'', JStr task_id), (''reason'', JStr DISPATCH_UNAVAILABLE)]"

definition executor_run ::
    "run_kind \<Rightarrow> 'r redis_client \<Rightarrow> (node list \<Rightarrow> node) \<Rightarrow> bool \<Rightarrow> settings \<Rightarrow> instant
      \<Rightarrow> run_request \<Rightarrow> task_origin \<Rightarrow> db \<times> 'r \<Rightarrow> ((db \<times> 'r) \<times> run_end) option" where
  "executor_run kind rc choice commit_ok cfg now request origin s =
     (case parse_params kind request of
        Inl e \<Rightarrow> Some (s, Run_error e)
      | Inr params \<Rightarrow>
          (let (d, t) = create_task (fst s) request origin now
           in case resolve_target_nodes choice d (rq_node_strategy request) (rq_node_ids request)
                  (ARTIFACT_CAPABILITY kind) (heartbeat_timeout_seconds (cfg_agents cfg)) now of
                Inl e \<Rightarrow> Some (s, Run_error e)
              | Inr (nodes, healthy_count) \<Rightarrow>
                  if nodes = []
                  then (let t = mark_no_target t (rq_node_strategy request) (rq_node_ids request) healthy_count now
                    in Some ((save_task d t, snd s), Run_response (t_id t) (t_status t)))
                  else (let (d, ks) = launch cfg now params t nodes d
                    in case dispatch_all rc ks True now (d, snd s) of
                         None \<Rightarrow> None
                       | Some ((d', redis'), results) \<Rightarrow>
                           if \<not> list_ex (\<lambda>r. dr_outcome r = Sent) results
                           then Some ((fail_dispatch_unavailable d' (t_id t) now, redis'),
                             Run_error (dispatch_unavailable (t_id t)))
                           else if commit_ok
                           then Some ((d', redis'), Run_response (t_id t) (t_status t))
                           else Some ((d, redis'), Run_dispatch_unknown (t_id t)))))"

definition scrapyd_run ::
    "'r redis_client \<Rightarrow> (node list \<Rightarrow> node) \<Rightarrow> bool \<Rightarrow> settings \<Rightarrow> instant
      \<Rightarrow> run_request \<Rightarrow> task_origin \<Rightarrow> db \<times> 'r \<Rightarrow> ((db \<times> 'r) \<times> run_end) option" where
  \<comment> \<open>\<open>ScrapydExecutor.run\<close>\<close>
  "scrapyd_run = executor_run Run_scrapy"

definition python_wheel_run ::
    "'r redis_client \<Rightarrow> (node list \<Rightarrow> node) \<Rightarrow> bool \<Rightarrow> settings \<Rightarrow> instant
      \<Rightarrow> run_request \<Rightarrow> task_origin \<Rightarrow> db \<times> 'r \<Rightarrow> ((db \<times> 'r) \<times> run_end) option" where
  \<comment> \<open>\<open>PythonWheelExecutor.run\<close>\<close>
  "python_wheel_run = executor_run Run_wheel"

section \<open>The launched graph\<close>

text \<open>Identifiers still to be drawn do not occur in the rows that refer to them.\<close>

definition ids_fresh :: "db \<Rightarrow> bool" where
  "ids_fresh d \<longleftrightarrow> (\<forall>n \<ge> db_next_id d.
     fresh_id n \<notin> t_id ` set (db_tasks d) \<and> fresh_id n \<notin> x_id ` set (db_executions d)
     \<and> fresh_id n \<notin> x_task_id ` set (db_executions d) \<and> fresh_id n \<notin> o_command_id ` set (db_outbox d)
     \<and> fresh_id n \<notin> o_task_id ` set (db_outbox d))"

definition drawn :: "db \<Rightarrow> db \<Rightarrow> string \<Rightarrow> bool" where
  "drawn d d' k \<longleftrightarrow> (\<exists>n. db_next_id d \<le> n \<and> n < db_next_id d' \<and> k = fresh_id n)"

record launched =
  la_executions :: "execution list"
  la_rows :: "command_outbox list"

definition launched_ok :: "db \<Rightarrow> task \<Rightarrow> node list \<Rightarrow> db \<Rightarrow> string list \<Rightarrow> launched \<Rightarrow> bool" where
  "launched_ok d t ns d' ks la \<longleftrightarrow>
     db_tasks d' = db_tasks d \<and> db_next_id d \<le> db_next_id d'
     \<and> db_executions d' = db_executions d @ la_executions la \<and> db_outbox d' = db_outbox d @ la_rows la
     \<and> map x_node_id (la_executions la) = map (Some \<circ> nd_id) ns
     \<and> (\<forall>x \<in> set (la_executions la). x_task_id x = t_id t \<and> x_status x = EXEC_PENDING \<and> drawn d d' (x_id x))
     \<and> distinct (map x_id (la_executions la))
     \<and> map o_command_id (la_rows la) = ks \<and> distinct ks
     \<and> map o_execution_id (la_rows la) = map x_id (la_executions la)
     \<and> (\<forall>r \<in> set (la_rows la). o_type r = Cmd_run \<and> o_task_id r = t_id t \<and> o_status r = OUTBOX_PENDING
          \<and> drawn d d' (o_command_id r))"

lemma launch_first:
  assumes "d1 = fst (create_log_file (fst (create_run_outbox (fst (create_execution d t n now)) now (t_id t)
      (x_id (snd (create_execution d t n now))) (or_default (nd_agent_id n) [])
      (run_payload params t (snd (create_execution d t n now))) True)) cfg t (snd (create_execution d t n now)) Stream_log now)"
  obtains x r where "launch cfg now params t (n # ns) d =
      (fst (launch cfg now params t ns d1), o_command_id r # snd (launch cfg now params t ns d1))"
    "db_tasks d1 = db_tasks d" "db_executions d1 = db_executions d @ [x]" "db_outbox d1 = db_outbox d @ [r]"
    "db_next_id d1 = Suc (Suc (db_next_id d))"
    "x_node_id x = Some (nd_id n)" "x_task_id x = t_id t" "x_status x = EXEC_PENDING"
    "x_id x = fresh_id (db_next_id d)"
    "o_command_id r = fresh_id (Suc (db_next_id d))" "o_execution_id r = x_id x" "o_task_id r = t_id t"
    "o_type r = Cmd_run" "o_status r = OUTBOX_PENDING"
  by (rule that [where x = "snd (create_execution d t n now)"
        and r = "snd (create_run_outbox (fst (create_execution d t n now)) now (t_id t)
      (x_id (snd (create_execution d t n now))) (or_default (nd_agent_id n) [])
      (run_payload params t (snd (create_execution d t n now))) True)"])
    (simp_all add: assms create_execution_def create_run_outbox_def new_command_def windows_def new_id_def
      add_command_def create_log_file_def Let_def split: prod.splits)

lemma launch_spec: "\<exists>la. launched_ok d t ns (fst (launch cfg now params t ns d)) (snd (launch cfg now params t ns d)) la"
proof (induction ns arbitrary: d)
  case Nil
  show ?case
    by (rule exI [of _ "\<lparr>la_executions = [], la_rows = []\<rparr>"]) (simp add: launched_ok_def)
next
  case (Cons n ns)
  obtain d1 x r where l: "launch cfg now params t (n # ns) d =
      (fst (launch cfg now params t ns d1), o_command_id r # snd (launch cfg now params t ns d1))"
    and d1: "db_tasks d1 = db_tasks d" "db_executions d1 = db_executions d @ [x]" "db_outbox d1 = db_outbox d @ [r]"
      "db_next_id d1 = Suc (Suc (db_next_id d))"
    and x: "x_node_id x = Some (nd_id n)" "x_task_id x = t_id t" "x_status x = EXEC_PENDING"
      "x_id x = fresh_id (db_next_id d)"
    and r: "o_command_id r = fresh_id (Suc (db_next_id d))" "o_execution_id r = x_id x" "o_task_id r = t_id t"
      "o_type r = Cmd_run" "o_status r = OUTBOX_PENDING"
    by (rule launch_first [OF refl]) blast
  obtain la where la: "launched_ok d1 t ns (fst (launch cfg now params t ns d1)) (snd (launch cfg now params t ns d1)) la"
    using Cons.IH by blast
  let ?e = "fst (launch cfg now params t ns d1)"
  have le: "db_next_id d1 \<le> db_next_id ?e" using la by (simp add: launched_ok_def)
  have up: "drawn d ?e k" if "drawn d1 ?e k" for k
    using that d1(4) by (auto simp: drawn_def)
  have new: "drawn d ?e (x_id x)" "drawn d ?e (o_command_id r)"
    using le d1(4) x(4) r(1) by (auto simp: drawn_def)
  have old: "x_id x \<noteq> k" "o_command_id r \<noteq> k" if "drawn d1 ?e k" for k
    using that d1(4) x(4) r(1) by (auto simp: drawn_def)
  have "x_id x \<notin> x_id ` set (la_executions la)"
    using la old(1) by (fastforce simp: launched_ok_def)
  moreover have "o_command_id r \<notin> set (snd (launch cfg now params t ns d1))"
  proof -
    have "snd (launch cfg now params t ns d1) = map o_command_id (la_rows la)"
      "\<forall>r \<in> set (la_rows la). drawn d1 ?e (o_command_id r)"
      using la by (simp_all add: launched_ok_def)
    then show ?thesis using old(2) by fastforce
  qed
  ultimately have "launched_ok d t (n # ns) ?e (o_command_id r # snd (launch cfg now params t ns d1))
      \<lparr>la_executions = x # la_executions la, la_rows = r # la_rows la\<rparr>"
    using la d1 x(1-3) r(2-5) new up le unfolding launched_ok_def by auto
  then show ?case unfolding l by auto
qed

section \<open>The delivery of a batch of pending rows\<close>

lemma dispatch_all_status:
  assumes "dispatch_all rc ks give_up now (d, redis) = Some ((d', redis'), res)" and "distinct ks"
    and "\<And>k. k \<in> set ks \<Longrightarrow> \<exists>row. find_command d k = Some row \<and> o_status row = OUTBOX_PENDING"
  shows "list_all2 (\<lambda>k r. \<exists>row. find_command d' k = Some row
      \<and> (dr_outcome r = Sent \<longleftrightarrow> o_status row = OUTBOX_SENT)) ks res"
  using assms
proof (induction ks arbitrary: d redis res)
  case (Cons k ks)
  obtain e r one where s: "try_dispatch rc (d, redis) k give_up now = Some ((e, r), one)"
    using Cons.prems(1) by (auto split: option.splits)
  obtain rs where rest: "dispatch_all rc ks give_up now (e, r) = Some ((d', redis'), rs)" "res = one # rs"
    using Cons.prems(1) s by (auto split: option.splits)
  have k: "k \<notin> set ks" "distinct ks" using Cons.prems(2) by simp_all
  obtain row where row: "find_command d k = Some row" "o_status row \<notin> {OUTBOX_SENT, OUTBOX_CANCELED}"
    using Cons.prems(3) [of k] by auto
  have "\<exists>row'. find_command e k = Some row' \<and> (dr_outcome one = Sent \<longleftrightarrow> o_status row' = OUTBOX_SENT)"
    using s row by (cases rule: try_dispatch_row) auto
  moreover have "find_command d' k = find_command e k"
    using dispatch_all_spec [where P = "\<lambda>_. True", OF rest(1) k(2)] k(1) by blast
  moreover have "list_all2 (\<lambda>k r. \<exists>row. find_command d' k = Some row
      \<and> (dr_outcome r = Sent \<longleftrightarrow> o_status row = OUTBOX_SENT)) ks rs"
  proof (rule Cons.IH [OF rest(1) k(2)])
    fix k' assume "k' \<in> set ks"
    then show "\<exists>row. find_command e k' = Some row \<and> o_status row = OUTBOX_PENDING"
      using Cons.prems(3) [of k'] k(1) try_dispatch_frame [OF s] by auto
  qed
  ultimately show ?case using rest(2) by simp
qed simp

section \<open>Failing the whole run\<close>

definition unavailable_execution :: "execution \<Rightarrow> instant \<Rightarrow> execution" where
  "unavailable_execution x now = x\<lparr>x_status := EXEC_FAILED, x_error_code := Some DISPATCH_UNAVAILABLE,
     x_finished_at := Some now\<rparr>"

lemma fail_executions_fold:
  assumes "distinct (map x_id (db_executions d))" and "set xs \<subseteq> set (db_executions d)" and "distinct (map x_id xs)"
    and "d' = fold (\<lambda>x d. if x_status x \<in> EXEC_ACTIVE then save_execution d (unavailable_execution x now) else d) xs d"
  shows "db_executions d' = map (\<lambda>x. if x \<in> set xs \<and> x_status x \<in> EXEC_ACTIVE
       then unavailable_execution x now else x) (db_executions d)
    \<and> db_tasks d' = db_tasks d \<and> db_outbox d' = db_outbox d"
  using assms
proof (induction xs arbitrary: d)
  case (Cons x xs)
  let ?e = "if x_status x \<in> EXEC_ACTIVE then save_execution d (unavailable_execution x now) else d"
  have id: "x_id (unavailable_execution x now) = x_id x" for x by (simp add: unavailable_execution_def)
  have only: "y = x" if "y \<in> set (db_executions d)" "x_id y = x_id x" for y
    using Cons.prems(1,2) that by (auto simp: distinct_map inj_on_def)
  have out: "db_executions ?e = map (\<lambda>y. if y = x \<and> x_status x \<in> EXEC_ACTIVE
      then unavailable_execution x now else y) (db_executions d)"
    using only by (auto simp: save_execution_def set_row_def id)
  have ids: "map x_id (db_executions ?e) = map x_id (db_executions d)"
    unfolding out by (auto simp: id)
  have sub: "set xs \<subseteq> set (db_executions ?e)"
    unfolding out using Cons.prems(2,3) by (auto simp: image_iff)
  have notin: "x \<notin> set xs" "unavailable_execution x now \<notin> set xs"
  proof -
    have "x_id x \<notin> x_id ` set xs" using Cons.prems(3) by simp
    then show "x \<notin> set xs" "unavailable_execution x now \<notin> set xs"
      by (blast, metis id imageI)
  qed
  have "distinct (map x_id (db_executions ?e))" "distinct (map x_id xs)"
    using Cons.prems(1,3) unfolding ids by simp_all
  note Cons.IH [OF this(1) sub this(2)]
  moreover have "db_tasks ?e = db_tasks d" "db_outbox ?e = db_outbox d" by simp_all
  ultimately have "db_executions d' = map (\<lambda>y. if y \<in> set xs \<and> x_status y \<in> EXEC_ACTIVE
       then unavailable_execution y now else y) (db_executions ?e)" "db_tasks d' = db_tasks d" "db_outbox d' = db_outbox d"
    using Cons.prems(4) by simp_all
  then show ?case using notin unfolding out by (auto simp: comp_def)
qed simp

lemma fail_dispatch_unavailable_effect:
  assumes "distinct (map x_id (db_executions d))" and "find_task d k = Some t"
  shows "map_option t_status (find_task (fail_dispatch_unavailable d k now) k) = Some TASK_FAILED
    \<and> db_outbox (fail_dispatch_unavailable d k now) = db_outbox d
    \<and> db_executions (fail_dispatch_unavailable d k now) =
        map (\<lambda>x. if x_task_id x = k \<and> x_status x \<in> EXEC_ACTIVE then unavailable_execution x now else x) (db_executions d)"
proof -
  let ?t = "t\<lparr>t_status := TASK_FAILED, t_started_at := first_some (t_started_at t) (Some now), t_finished_at := Some now,
      t_updated_at := now\<rparr>"
  let ?e = "save_task d ?t" and ?xs = "list_executions d k"
  have d: "distinct (map x_id (db_executions ?e))" using assms(1) by simp
  have sub: "set ?xs \<subseteq> set (db_executions ?e)" by (auto simp: list_executions_mem)
  have "distinct (map x_id ?xs)"
    using assms(1) by (simp add: list_executions_def distinct_map inj_on_def)
  note f = fail_executions_fold [OF d sub this refl, of now]
  have k: "t_id t = k" using assms(2) by (rule tasks.lookup_key)
  have eq: "fail_dispatch_unavailable d k now
      = fold (\<lambda>x d. if x_status x \<in> EXEC_ACTIVE then save_execution d (unavailable_execution x now) else d) ?xs ?e"
    unfolding fail_dispatch_unavailable_def assms(2) option.case Let_def unavailable_execution_def by simp
  have "find_task (fail_dispatch_unavailable d k now) k = find_task ?e k"
    using f unfolding eq find_task_def by simp
  also have "\<dots> = Some ?t" using assms(2) k by (simp add: tasks.lookup_update)
  finally show ?thesis using f unfolding eq by (auto simp: list_executions_mem)
qed

section \<open>What a run leaves behind\<close>

definition row_static :: "command_outbox \<Rightarrow> string \<times> string \<times> string \<times> agent_command_type" where
  "row_static r = (o_command_id r, o_task_id r, o_execution_id r, o_type r)"

lemma save_command_static:
  assumes "distinct (map o_command_id (db_outbox d))" and "find_command d k = Some r0"
    and "row_static r = row_static r0"
  shows "map row_static (db_outbox (save_command d r)) = map row_static (db_outbox d)"
proof -
  have "row_static r' = row_static r" if "r' \<in> set (db_outbox d)" "o_command_id r' = o_command_id r" for r'
  proof -
    have "o_command_id r = k" using assms(2,3) find_command_key by (simp add: row_static_def)
    then have "r' = r0" using find_command_mem [OF assms(1) that(1)] that(2) assms(2) by simp
    with assms(3) show ?thesis by simp
  qed
  then show ?thesis by (auto simp: save_command_def set_row_def)
qed

lemma send_failed_static [simp]:
  "row_static (fst (send_failed row g now exc)) = row_static row"
  by (simp add: send_failed_def Let_def row_static_def)

lemma try_dispatch_static:
  assumes "try_dispatch rc (d, redis) k g now = Some ((d', redis'), res)"
    and "distinct (map o_command_id (db_outbox d))"
  shows "map row_static (db_outbox d') = map row_static (db_outbox d)"
  using assms(1)
proof (cases rule: try_dispatch_cases)
  case (failed row exc)
  then show ?thesis using save_command_static [OF assms(2) failed(1)] by (simp add: row_static_def)
qed (use save_command_static [OF assms(2)] in \<open>simp_all add: row_static_def\<close>)

lemma dispatch_all_static:
  assumes "dispatch_all rc ks g now (d, redis) = Some ((d', redis'), res)"
    and "distinct (map o_command_id (db_outbox d))"
  shows "map row_static (db_outbox d') = map row_static (db_outbox d)"
  using assms
proof (induction ks arbitrary: d redis res)
  case (Cons k ks)
  obtain e r one where s: "try_dispatch rc (d, redis) k g now = Some ((e, r), one)"
    using Cons.prems(1) by (auto split: option.splits)
  then obtain rs where rest: "dispatch_all rc ks g now (e, r) = Some ((d', redis'), rs)"
    using Cons.prems(1) by (auto split: option.splits)
  have "map o_command_id (db_outbox e) = map o_command_id (db_outbox d)"
    using try_dispatch_frame [OF s] by blast
  with Cons.IH [OF rest] Cons.prems(2) try_dispatch_static [OF s Cons.prems(2)] show ?case by simp
qed simp

lemma create_task_facts:
  assumes "create_task d request origin now = (d0, t)"
  shows "t_id t = fresh_id (db_next_id d)" "t_status t = TASK_QUEUED" "db_tasks d0 = db_tasks d @ [t]"
    "db_executions d0 = db_executions d" "db_outbox d0 = db_outbox d" "db_next_id d0 = Suc (db_next_id d)"
  using assms by (auto simp: create_task_def new_id_def Let_def)

text \<open>The database between the launch and the delivery.\<close>

lemma launched_db:
  assumes fresh: "ids_fresh d" and "distinct (map x_id (db_executions d))" and "distinct (map o_command_id (db_outbox d))"
    and c: "create_task d request origin now = (d0, t)" and l: "launched_ok d0 t ns d1 ks la"
  shows "find_task d (t_id t) = None" "find_task d1 (t_id t) = Some t"
    "distinct (map x_id (db_executions d1))" "distinct (map o_command_id (db_outbox d1))"
    "\<And>x. x \<in> set (db_executions d1) \<Longrightarrow> x_task_id x = t_id t \<Longrightarrow> x \<in> set (la_executions la)"
    "\<And>r. r \<in> set (db_outbox d1) \<Longrightarrow> o_task_id r = t_id t \<Longrightarrow> r \<in> set (la_rows la)"
    "\<And>k. k \<in> set ks \<Longrightarrow> \<exists>row. find_command d1 k = Some row \<and> o_status row = OUTBOX_PENDING"
proof -
  note t = create_task_facts [OF c]
  have f: "fresh_id n \<notin> t_id ` set (db_tasks d)" "fresh_id n \<notin> x_id ` set (db_executions d)"
      "fresh_id n \<notin> x_task_id ` set (db_executions d)" "fresh_id n \<notin> o_command_id ` set (db_outbox d)"
      "fresh_id n \<notin> o_task_id ` set (db_outbox d)" if "db_next_id d \<le> n" for n
    using fresh that by (auto simp: ids_fresh_def)
  have nt: "t_id t' \<noteq> t_id t" if "t' \<in> set (db_tasks d)" for t'
    using f(1) [of "db_next_id d"] that t(1) by (auto simp: image_iff)
  then show none: "find_task d (t_id t) = None" by (auto simp: find_task_def find_row_def find_None_iff)
  have "db_tasks d1 = db_tasks d @ [t]" using l t(3) by (simp add: launched_ok_def)
  with none show "find_task d1 (t_id t) = Some t" by (simp add: find_task_def find_row_append)
  have x: "db_executions d1 = db_executions d @ la_executions la" "distinct (map x_id (la_executions la))"
      "\<forall>x \<in> set (la_executions la). drawn d0 d1 (x_id x) \<and> x_task_id x = t_id t"
    using l t(4) by (simp_all add: launched_ok_def)
  have o: "db_outbox d1 = db_outbox d @ la_rows la" "map o_command_id (la_rows la) = ks" "distinct ks"
      "\<forall>r \<in> set (la_rows la). drawn d0 d1 (o_command_id r) \<and> o_task_id r = t_id t \<and> o_status r = OUTBOX_PENDING"
    using l t(5) by (simp_all add: launched_ok_def)
  have dr: "k \<notin> x_id ` set (db_executions d)" "k \<notin> o_command_id ` set (db_outbox d)" if k: "drawn d0 d1 k" for k
  proof -
    obtain n where n: "db_next_id d \<le> n" "k = fresh_id n" using k t(6) by (auto simp: drawn_def)
    with f show "k \<notin> x_id ` set (db_executions d)" "k \<notin> o_command_id ` set (db_outbox d)" by auto
  qed
  show "distinct (map x_id (db_executions d1))"
  proof -
    have "x_id ` set (db_executions d) \<inter> x_id ` set (la_executions la) = {}" using x(3) dr(1) unfolding disjoint_iff by (metis imageE)
    then show ?thesis using assms(2) x(2) by (simp add: x(1))
  qed
  show dist: "distinct (map o_command_id (db_outbox d1))"
  proof -
    have "o_command_id ` set (db_outbox d) \<inter> o_command_id ` set (la_rows la) = {}" using o(4) dr(2) unfolding disjoint_iff by (metis imageE)
    moreover have "distinct (map o_command_id (la_rows la))" using o(2,3) by simp
    ultimately show ?thesis using assms(3) by (simp add: o(1))
  qed
  show "x \<in> set (la_executions la)" if "x \<in> set (db_executions d1)" "x_task_id x = t_id t" for x
    using that x(1) f(3) [of "db_next_id d"] t(1) by (metis Un_iff image_eqI order_refl set_append)
  show "r \<in> set (la_rows la)" if "r \<in> set (db_outbox d1)" "o_task_id r = t_id t" for r
    using that o(1) f(5) [of "db_next_id d"] t(1) by (metis Un_iff image_eqI order_refl set_append)
  show "\<exists>row. find_command d1 k = Some row \<and> o_status row = OUTBOX_PENDING" if k: "k \<in> set ks" for k
  proof -
    obtain r where r: "r \<in> set (la_rows la)" "o_command_id r = k" using k o(2) by auto
    then have "find_command d1 k = Some r" using find_command_mem [OF dist, of r] o(1) by auto
    with o(4) r(1) show ?thesis by auto
  qed
qed
text \<open>Delivered: the run command of some execution of the task reached Redis.\<close>

definition delivered :: "db \<Rightarrow> string \<Rightarrow> bool" where
  "delivered d k \<longleftrightarrow> list_ex (\<lambda>r. o_task_id r = k \<and> o_type r = Cmd_run \<and> o_status r = OUTBOX_SENT) (db_outbox d)"

definition has_run_command :: "db \<Rightarrow> execution \<Rightarrow> bool" where
  "has_run_command d x \<longleftrightarrow>
     list_ex (\<lambda>r. o_execution_id r = x_id x \<and> o_task_id r = x_task_id x \<and> o_type r = Cmd_run) (db_outbox d)"

lemma delivery_result:
  assumes dist: "distinct (map o_command_id (db_outbox d1))" and dk: "distinct ks"
    and rows: "map o_command_id (la_rows la) = ks" "\<And>r. r \<in> set (db_outbox d1) \<Longrightarrow> o_task_id r = k \<Longrightarrow> r \<in> set (la_rows la)"
      "\<And>r. r \<in> set (la_rows la) \<Longrightarrow> r \<in> set (db_outbox d1) \<and> o_task_id r = k \<and> o_type r = Cmd_run"
      "\<And>j. j \<in> set ks \<Longrightarrow> \<exists>row. find_command d1 j = Some row \<and> o_status row = OUTBOX_PENDING"
    and da: "dispatch_all rc ks True now (d1, redis) = Some ((d2, redis2), results)"
  shows "delivered d2 k \<longleftrightarrow> list_ex (\<lambda>r. dr_outcome r = Sent) results"
proof -
  have stat: "map row_static (db_outbox d2) = map row_static (db_outbox d1)"
    by (rule dispatch_all_static [OF da dist])
  have ids: "map o_command_id (db_outbox d2) = map o_command_id (db_outbox d1)"
    using dispatch_all_spec [where P = "\<lambda>_. True", OF da dk] by blast
  have res: "list_all2 (\<lambda>k r. \<exists>row. find_command d2 k = Some row
      \<and> (dr_outcome r = Sent \<longleftrightarrow> o_status row = OUTBOX_SENT)) ks results"
    by (rule dispatch_all_status [OF da dk rows(4)])
  have d2: "find_command d2 (o_command_id r) = Some r" if "r \<in> set (db_outbox d2)" for r
    using find_command_mem [of d2 r] dist ids that by simp
  have mine: "o_task_id r = k \<longleftrightarrow> o_command_id r \<in> set ks" "o_task_id r = k \<Longrightarrow> o_type r = Cmd_run"
    if "r \<in> set (db_outbox d2)" for r
  proof -
    have "row_static r \<in> set (map row_static (db_outbox d2))" using that by simp
    then obtain r0 where r0: "r0 \<in> set (db_outbox d1)" "row_static r0 = row_static r"
      unfolding stat by (metis imageE list.set_map)
    then have e: "o_command_id r0 = o_command_id r" "o_task_id r0 = o_task_id r" "o_type r0 = o_type r"
      by (simp_all add: row_static_def)
    show "o_task_id r = k \<Longrightarrow> o_type r = Cmd_run" using rows(2,3) r0(1) e by metis
    show "o_task_id r = k \<longleftrightarrow> o_command_id r \<in> set ks"
    proof
      assume "o_task_id r = k"
      then have "r0 \<in> set (la_rows la)" using rows(2) r0(1) e(2) by simp
      then show "o_command_id r \<in> set ks" using e(1) rows(1) by (metis image_eqI list.set_map)
    next
      assume "o_command_id r \<in> set ks"
      then obtain r1 where r1: "r1 \<in> set (la_rows la)" "o_command_id r1 = o_command_id r"
        using rows(1) by (metis imageE list.set_map)
      then have "r1 \<in> set (db_outbox d1)" "o_task_id r1 = k" using rows(3) by blast+
      moreover have "r1 = r0" using dist calculation(1) r0(1) r1(2) e(1) by (metis find_command_mem option.inject)
      ultimately show "o_task_id r = k" using e(2) by simp
    qed
  qed
  show ?thesis
  proof
    assume "delivered d2 k"
    then obtain r where r: "r \<in> set (db_outbox d2)" "o_task_id r = k" "o_status r = OUTBOX_SENT"
      by (auto simp: delivered_def list_ex_iff)
    then obtain i where "i < length ks" "ks ! i = o_command_id r"
      using mine(1) by (metis in_set_conv_nth)
    with res d2 [OF r(1)] r(3) have "i < length results" "dr_outcome (results ! i) = Sent"
      by (auto simp: list_all2_conv_all_nth)
    then show "list_ex (\<lambda>r. dr_outcome r = Sent) results" by (auto simp: list_ex_iff)
  next
    assume "list_ex (\<lambda>r. dr_outcome r = Sent) results"
    then obtain i where i: "i < length results" "dr_outcome (results ! i) = Sent"
      by (auto simp: list_ex_iff in_set_conv_nth)
    with res obtain row where row: "find_command d2 (ks ! i) = Some row" "o_status row = OUTBOX_SENT" "i < length ks"
      by (auto simp: list_all2_conv_all_nth)
    then have "row \<in> set (db_outbox d2)" "o_command_id row = ks ! i"
      by (auto simp: find_command_def dest: find_row_mem find_row_key)
    moreover from this row(3) have "o_task_id row = k" "o_type row = Cmd_run" using mine [of row] by auto
    ultimately show "delivered d2 k" using row(2) by (auto simp: delivered_def list_ex_iff)
  qed
qed

lemma executor_run_cases [consumes 1, case_names bad_params bad_strategy no_target unavailable ok unknown]:
  assumes "executor_run kind rc choice commit_ok cfg now request origin (d, redis) = Some ((d', redis'), fin)"
  obtains e where "d' = d" "redis' = redis" "fin = Run_error e" "parse_params kind request = Inl e"
  | e where "d' = d" "redis' = redis" "fin = Run_error e" "to_strategy (rq_node_strategy request) = Inl e"
  | d0 t n where "create_task d request origin now = (d0, t)" "redis' = redis"
      "d' = save_task d0 (mark_no_target t (rq_node_strategy request) (rq_node_ids request) n now)"
      "fin = Run_response (t_id t) TASK_NO_TARGET"
  | d0 t nodes params d1 ks d2 results where "create_task d request origin now = (d0, t)" "nodes \<noteq> []"
      "launch cfg now params t nodes d0 = (d1, ks)" "dispatch_all rc ks True now (d1, redis) = Some ((d2, redis'), results)"
      "\<not> list_ex (\<lambda>r. dr_outcome r = Sent) results" "d' = fail_dispatch_unavailable d2 (t_id t) now"
      "fin = Run_error (dispatch_unavailable (t_id t))"
  | d0 t nodes params d1 ks results where "create_task d request origin now = (d0, t)" "nodes \<noteq> []"
      "launch cfg now params t nodes d0 = (d1, ks)" "dispatch_all rc ks True now (d1, redis) = Some ((d', redis'), results)"
      "list_ex (\<lambda>r. dr_outcome r = Sent) results" "fin = Run_response (t_id t) (t_status t)" "commit_ok"
  | d0 t nodes params ks d2 results where "create_task d request origin now = (d0, t)" "nodes \<noteq> []"
      "launch cfg now params t nodes d0 = (d', ks)" "dispatch_all rc ks True now (d', redis) = Some ((d2, redis'), results)"
      "list_ex (\<lambda>r. dr_outcome r = Sent) results" "fin = Run_dispatch_unknown (t_id t)" "\<not> commit_ok"
proof (cases "parse_params kind request")
  case (Inl e)
  with assms show ?thesis by (intro that(1) [of e]) (auto simp: executor_run_def)
next
  case (Inr params)
  obtain d0 t where c: "create_task d request origin now = (d0, t)" by (meson surj_pair)
  show ?thesis
  proof (cases "resolve_target_nodes choice d0 (rq_node_strategy request) (rq_node_ids request)
      (ARTIFACT_CAPABILITY kind) (heartbeat_timeout_seconds (cfg_agents cfg)) now")
    case (Inl e)
    then have "to_strategy (rq_node_strategy request) = Inl e"
      by (auto simp: resolve_target_nodes_def Let_def split: sum.splits)
    with Inl Inr c assms show ?thesis by (intro that(2) [of e]) (auto simp: executor_run_def)
  next
    case res: (Inr p)
    obtain nodes n where p: "p = (nodes, n)" by (meson surj_pair)
    show ?thesis
    proof (cases "nodes = []")
      case True
      with res p Inr c assms show ?thesis
        by (intro that(3) [of d0 t n]) (auto simp: executor_run_def Let_def mark_no_target_def)
    next
      case False
      obtain d1 ks where l: "launch cfg now params t nodes d0 = (d1, ks)" by (meson surj_pair)
      show ?thesis
      proof (cases "dispatch_all rc ks True now (d1, redis)")
        case None
        with l False res p Inr c assms show ?thesis by (simp add: executor_run_def)
      next
        case (Some x)
        obtain d2 r2 results where x: "x = ((d2, r2), results)" by (metis surj_pair)
        note eqs = assms [unfolded executor_run_def, simplified Inr c res p l Some x, simplified]
        show ?thesis
        proof (cases "list_ex (\<lambda>r. dr_outcome r = Sent) results")
          case True
          show ?thesis
          proof (cases commit_ok)
            case commit: True
            with eqs True False l c res p Inr Some x show ?thesis
              by (intro that(5) [of d0 t nodes params d1 ks results]) (simp_all add: Let_def)
          next
            case commit: False
            with eqs True False l c res p Inr Some x show ?thesis
              by (intro that(6) [of d0 t nodes params ks d2 results]) (simp_all add: Let_def)
          qed
        next
          case unsent: False
          with eqs False l c res p Inr Some x show ?thesis
            by (intro that(4) [of d0 t nodes params d1 ks d2 results]) (simp_all add: Let_def)
        qed
      qed
    qed
  qed
qed

section \<open>The outcome of a run\<close>

lemma launched_executions:
  assumes "launched_ok d0 t ns d1 ks la" and "ns \<noteq> []"
    and "\<And>x. x \<in> set (db_executions d1) \<Longrightarrow> x_task_id x = t_id t \<Longrightarrow> x \<in> set (la_executions la)"
    and "map row_static (db_outbox d2) = map row_static (db_outbox d1)" and "db_executions d2 = db_executions d1"
  shows "list_executions d2 (t_id t) \<noteq> []"
    "\<forall>x \<in> set (list_executions d2 (t_id t)). x_status x = EXEC_PENDING \<and> has_run_command d2 x"
proof -
  have mem: "x \<in> set (list_executions d2 (t_id t)) \<longleftrightarrow> x \<in> set (la_executions la)" for x
    using assms(1,3,5) by (auto simp: list_executions_mem launched_ok_def)
  have "la_executions la \<noteq> []" using assms(1,2) by (auto simp: launched_ok_def)
  then obtain x where "x \<in> set (la_executions la)" by (cases "la_executions la") auto
  with mem [of x] show "list_executions d2 (t_id t) \<noteq> []" by auto
  show "\<forall>x \<in> set (list_executions d2 (t_id t)). x_status x = EXEC_PENDING \<and> has_run_command d2 x"
  proof
    fix x assume "x \<in> set (list_executions d2 (t_id t))"
    then have x: "x \<in> set (la_executions la)" by (simp add: mem)
    then have p: "x_status x = EXEC_PENDING" "x_task_id x = t_id t" using assms(1) by (simp_all add: launched_ok_def)
    have "x_id x \<in> set (map o_execution_id (la_rows la))" using assms(1) x by (simp add: launched_ok_def)
    then obtain r where r: "r \<in> set (la_rows la)" "o_execution_id r = x_id x" by auto
    then have "r \<in> set (db_outbox d1)" "o_type r = Cmd_run" "o_task_id r = t_id t"
      using assms(1) by (simp_all add: launched_ok_def)
    then have "row_static r \<in> set (map row_static (db_outbox d2))" unfolding assms(4) by simp
    then obtain r' where "r' \<in> set (db_outbox d2)" "row_static r' = row_static r" by auto
    with r(2) p(2) \<open>o_type r = Cmd_run\<close> \<open>o_task_id r = t_id t\<close>
    have "has_run_command d2 x" by (auto simp: has_run_command_def row_static_def list_ex_iff)
    with p show "x_status x = EXEC_PENDING \<and> has_run_command d2 x" by simp
  qed
qed

text \<open>What a run leaves behind, on every path. A request refused for its parameters or its
  strategy changes nothing. Otherwise the task is new, and: without a target it is terminal
  \<open>no_target\<close>, with no execution, no command and nothing sent; if no command reached Redis the
  answer is the 503, the task is failed and so is every one of its executions, and none of its
  commands is marked sent; if one did, the task stays queued, with at least one execution, all
  pending and each with its \<open>run\<close> command, and some command is marked sent; and when that
  mark's commit is lost, the answer is \<open>dispatch_unknown\<close>, never a refusal, and the rows stand
  as first committed.
\<close>

theorem run_outcomes:
  assumes "ids_fresh d" and "distinct (map x_id (db_executions d))" and "distinct (map o_command_id (db_outbox d))"
    and "executor_run kind rc choice commit_ok cfg now request origin (d, redis) = Some ((d', redis'), fin)"
  shows "case fin of
      Run_error e \<Rightarrow> d' = d \<and> redis' = redis
        \<or> (\<exists>k. e = dispatch_unavailable k \<and> find_task d k = None
            \<and> map_option t_status (find_task d' k) = Some TASK_FAILED \<and> \<not> delivered d' k
            \<and> (\<forall>x \<in> set (list_executions d' k). x_status x = EXEC_FAILED \<and> x_error_code x = Some DISPATCH_UNAVAILABLE))
    | Run_response k st \<Rightarrow> find_task d k = None \<and> map_option t_status (find_task d' k) = Some st
        \<and> (st = TASK_NO_TARGET \<and> db_executions d' = db_executions d \<and> db_outbox d' = db_outbox d \<and> redis' = redis
           \<or> st = TASK_QUEUED \<and> delivered d' k \<and> list_executions d' k \<noteq> []
             \<and> (\<forall>x \<in> set (list_executions d' k). x_status x = EXEC_PENDING \<and> has_run_command d' x))
    | Run_dispatch_unknown k \<Rightarrow> find_task d k = None \<and> map_option t_status (find_task d' k) = Some TASK_QUEUED
        \<and> list_executions d' k \<noteq> []
        \<and> (\<forall>x \<in> set (list_executions d' k). x_status x = EXEC_PENDING \<and> has_run_command d' x)"
  using assms(4)
proof (cases rule: executor_run_cases)
  case (no_target d0 t n)
  note f = create_task_facts [OF no_target(1)]
  have "fresh_id (db_next_id d) \<notin> t_id ` set (db_tasks d)" using assms(1) by (simp add: ids_fresh_def)
  then have "find_task d (t_id t) = None"
    using f(1) by (auto simp: find_task_def find_row_def find_None_iff image_iff)
  moreover from this have "find_task d0 (t_id t) = Some t"
    using f(3) by (simp add: find_task_def find_row_append)
  ultimately show ?thesis
    using no_target f by (simp add: tasks.lookup_update mark_no_target_def)
next
  case (unavailable d0 t nodes params d1 ks d2 results)
  obtain la where la: "launched_ok d0 t nodes d1 ks la" using launch_spec [of d0 t nodes cfg now params] unavailable(3) by auto
  note db = launched_db [OF assms(1-3) unavailable(1) la]
  have dk: "distinct ks" using la by (simp add: launched_ok_def)
  note f = dispatch_all_spec [where P = "\<lambda>_. True", OF unavailable(4) dk]
  have t: "find_task d2 (t_id t) = Some t" using db(2) f by (simp add: find_task_def)
  have ids: "distinct (map x_id (db_executions d2))" using db(3) f by simp
  note g = fail_dispatch_unavailable_effect [OF ids t, of now]
  have stat: "map row_static (db_outbox d2) = map row_static (db_outbox d1)"
    by (rule dispatch_all_static [OF unavailable(4) db(4)])
  have ex: "db_executions d2 = db_executions d1" using f by blast
  note lx = launched_executions [OF la unavailable(2) db(5) stat ex]
  have "delivered d2 (t_id t) \<longleftrightarrow> list_ex (\<lambda>r. dr_outcome r = Sent) results"
    by (rule delivery_result [where la = la, OF db(4) dk _ db(6) _ db(7) unavailable(4)])
      (use la in \<open>auto simp: launched_ok_def\<close>)
  then have "\<not> delivered d' (t_id t)" using unavailable(5,6) g by (simp add: delivered_def)
  moreover have "\<forall>x \<in> set (list_executions d' (t_id t)). x_status x = EXEC_FAILED \<and> x_error_code x = Some DISPATCH_UNAVAILABLE"
  proof
    fix x assume "x \<in> set (list_executions d' (t_id t))"
    then obtain y where y: "y \<in> set (db_executions d2)" "x_task_id x = t_id t"
        "x = (if x_task_id y = t_id t \<and> x_status y \<in> EXEC_ACTIVE then unavailable_execution y now else y)"
      using g unavailable(6) by (auto simp: list_executions_mem)
    then have own: "x_task_id y = t_id t" by (auto simp: unavailable_execution_def split: if_splits)
    with y(1) lx(2) have "x_status y \<in> EXEC_ACTIVE" by (simp add: list_executions_mem EXEC_ACTIVE_def)
    with y own show "x_status x = EXEC_FAILED \<and> x_error_code x = Some DISPATCH_UNAVAILABLE"
      by (simp add: unavailable_execution_def)
  qed
  ultimately show ?thesis using unavailable(6,7) db(1) g by auto
next
  case (ok d0 t nodes params d1 ks results)
  obtain la where la: "launched_ok d0 t nodes d1 ks la" using launch_spec [of d0 t nodes cfg now params] ok(3) by auto
  note db = launched_db [OF assms(1-3) ok(1) la]
  have dk: "distinct ks" using la by (simp add: launched_ok_def)
  note f = dispatch_all_spec [where P = "\<lambda>_. True", OF ok(4) dk]
  have t: "find_task d' (t_id t) = Some t" using db(2) f by (simp add: find_task_def)
  have stat: "map row_static (db_outbox d') = map row_static (db_outbox d1)"
    by (rule dispatch_all_static [OF ok(4) db(4)])
  have ex: "db_executions d' = db_executions d1" using f by blast
  have "delivered d' (t_id t) \<longleftrightarrow> list_ex (\<lambda>r. dr_outcome r = Sent) results"
    by (rule delivery_result [where la = la, OF db(4) dk _ db(6) _ db(7) ok(4)]) (use la in \<open>auto simp: launched_ok_def\<close>)
  with ok(5,6) t db(1) create_task_facts(2) [OF ok(1)] launched_executions [OF la ok(2) db(5) stat ex]
  show ?thesis by simp
next
  case (unknown d0 t nodes params ks d2 results)
  obtain la where la: "launched_ok d0 t nodes d' ks la" using launch_spec [of d0 t nodes cfg now params] unknown(3) by auto
  note db = launched_db [OF assms(1-3) unknown(1) la]
  with unknown(6) create_task_facts(2) [OF unknown(1)] launched_executions [OF la unknown(2) db(5) refl refl]
  show ?thesis by simp
qed (use assms in simp_all)
definition wheel_request :: run_request where
  "wheel_request = \<lparr>rq_artifact_type = ''python_wheel'', rq_target = ''w'', rq_node_strategy = ''all'',
     rq_node_ids = [], rq_params = [(''shell_command'', JStr ''python -m w''),
       (''artifact'', JObj [(''fetch_path'', JStr ''/w'')])]\<rparr>"

definition wheel_origin :: task_origin where
  "wheel_origin = \<lparr>og_source = TASK_SOURCE_TEMPLATE, og_execution_template_id = None, og_schedule_id = None,
     og_template_snapshot = [], og_schedule_generation = None\<rparr>"

lemma run_outcomes_witness:
  "\<exists>d' redis' k. executor_run Run_wheel demo_redis hd True default_settings 0 wheel_request wheel_origin (empty_db, (True, []))
      = Some ((d', redis'), Run_response k TASK_NO_TARGET) \<and> map_option t_status (find_task d' k) = Some TASK_NO_TARGET"
proof -
  have f: "ids_fresh empty_db" "distinct (map x_id (db_executions empty_db))" "distinct (map o_command_id (db_outbox empty_db))"
    by (simp_all add: ids_fresh_def empty_db_def)
  have n: "resolve_target_nodes hd (fst (create_task empty_db wheel_request wheel_origin 0)) ''all'' []
      ''script'' (heartbeat_timeout_seconds (cfg_agents default_settings)) 0 = Inr ([], 0)"
    by (simp add: resolve_target_nodes_def healthy_capable_nodes_def create_task_def new_id_def empty_db_def
        to_strategy_def reduce_nodes_def Let_def)
  have "\<not> isl (parse_params Run_wheel wheel_request)" by code_simp
  then have "\<exists>q. parse_params Run_wheel wheel_request = Inr q"
    by (cases "parse_params Run_wheel wheel_request") simp_all
  then obtain q where q: "parse_params Run_wheel wheel_request = Inr q" ..
  obtain d0 t where c: "create_task empty_db wheel_request wheel_origin 0 = (d0, t)" by (meson surj_pair)
  have "rq_node_strategy wheel_request = ''all''" "rq_node_ids wheel_request = []" by (simp_all add: wheel_request_def)
  with q c n have r: "executor_run Run_wheel demo_redis hd True default_settings 0 wheel_request wheel_origin (empty_db, (True, []))
      = Some ((save_task d0 (mark_no_target t ''all'' [] 0 0), (True, [])), Run_response (t_id t) TASK_NO_TARGET)"
    by (simp add: executor_run_def mark_no_target_def)
  from run_outcomes [OF f this] have "map_option t_status (find_task (save_task d0 (mark_no_target t ''all'' [] 0 0)) (t_id t)) = Some TASK_NO_TARGET" by simp
  with r show ?thesis by blast
qed

end
