(* ===== verification/Templates.thy ===== *)
theory Templates
  imports Executors
begin

text \<open>
  Build artifacts, execution templates and the resolution of a run
  (\<^verbatim>\<open>apps/server/dopilot_server/services/artifacts.py\<close>, \<^verbatim>\<open>templates.py\<close>, \<^verbatim>\<open>resolve.py\<close>,
  \<^verbatim>\<open>dispatch.py\<close>). A request body is the \<open>obj\<close> that \<open>model_dump\<close> gives, with values of the types of
  its schema (\<open>None\<close> where the schema allows it). The column \<open>updated_at\<close> is kept by the database; the
  views take it as an argument.
\<close>

section \<open>Build artifacts\<close>

definition ARTIFACT_SCRAPY :: string where "ARTIFACT_SCRAPY = ''scrapy''"
definition ARTIFACT_PYTHON_WHEEL :: string where "ARTIFACT_PYTHON_WHEEL = ''python_wheel''"
definition ARTIFACT_DOCKER_IMAGE :: string where "ARTIFACT_DOCKER_IMAGE = ''docker_image''"

definition RUNNABLE_ARTIFACT_TYPES :: "string set" where
  "RUNNABLE_ARTIFACT_TYPES = {ARTIFACT_SCRAPY, ARTIFACT_PYTHON_WHEEL}"

record scrapy_manifest =
  sm_project :: string
  sm_version :: string
  sm_spiders :: "string list"
  sm_sha256 :: string
  sm_filename :: string
  sm_size_bytes :: int

record wheel_manifest =
  wm_distribution :: string
  wm_version :: string
  wm_sha256 :: string
  wm_filename :: string
  wm_size_bytes :: int

definition stored_total_bytes :: "db \<Rightarrow> int" where
  "stored_total_bytes d = sum_list (map ba_size_bytes (db_artifacts d))"

definition scrapy_fetch_path :: "string \<Rightarrow> string" where
  "scrapy_fetch_path sha256 = ''/api/v1/artifacts/scrapy/'' @ sha256 @ ''/egg''"

definition wheel_fetch_path :: "string \<Rightarrow> string" where
  "wheel_fetch_path sha256 = ''/api/v1/artifacts/python_wheel/'' @ sha256 @ ''/wheel''"

definition scrapy_metadata :: "scrapy_manifest \<Rightarrow> obj" where
  "scrapy_metadata m = [(''project'', JStr (sm_project m)), (''version'', JStr (sm_version m)),
     (''spiders'', JList (map JStr (sm_spiders m))), (''fetch_path'', JStr (scrapy_fetch_path (sm_sha256 m)))]"

definition wheel_metadata :: "wheel_manifest \<Rightarrow> obj" where
  "wheel_metadata m = [(''distribution'', JStr (wm_distribution m)), (''version'', JStr (wm_version m)),
     (''fetch_path'', JStr (wheel_fetch_path (wm_sha256 m)))]"

definition get_by_type_hash :: "db \<Rightarrow> string \<Rightarrow> string \<Rightarrow> build_artifact option" where
  "get_by_type_hash d artifact_type content_hash =
     find (\<lambda>a. ba_artifact_type a = artifact_type \<and> ba_content_hash a = Some content_hash) (db_artifacts d)"

definition upsert_artifact ::
    "db \<Rightarrow> instant \<Rightarrow> string \<Rightarrow> string \<Rightarrow> string \<Rightarrow> string \<Rightarrow> string \<Rightarrow> int \<Rightarrow> obj \<Rightarrow> db \<times> build_artifact" where
  \<comment> \<open>what the two upserts share: type, package format, name, file name, hash, size, metadata\<close>
  "upsert_artifact d now ty fmt name filename sha256 size_bytes metadata =
     (case get_by_type_hash d ty sha256 of
        Some a \<Rightarrow> (let a = a\<lparr>ba_name := name, ba_filename := Some filename, ba_size_bytes := size_bytes,
            ba_artifact_metadata := metadata\<rparr> in (save_artifact d a, a))
      | None \<Rightarrow> (let (k, d) = new_id d;
            a = \<lparr>ba_id = k, ba_artifact_type = ty, ba_package_format = fmt, ba_name = name,
                 ba_filename = Some filename, ba_content_hash = Some sha256, ba_size_bytes = size_bytes,
                 ba_artifact_metadata = metadata, ba_archived_at = None, ba_created_at = now\<rparr>
          in (d\<lparr>db_artifacts := db_artifacts d @ [a]\<rparr>, a)))"

definition upsert_scrapy :: "db \<Rightarrow> instant \<Rightarrow> scrapy_manifest \<Rightarrow> db \<times> build_artifact" where
  "upsert_scrapy d now m = upsert_artifact d now ARTIFACT_SCRAPY ''egg''
     (if sm_project m \<noteq> [] then sm_project m else sm_filename m) (sm_filename m) (sm_sha256 m)
     (sm_size_bytes m) (scrapy_metadata m)"

definition upsert_wheel :: "db \<Rightarrow> instant \<Rightarrow> wheel_manifest \<Rightarrow> db \<times> build_artifact" where
  "upsert_wheel d now m = upsert_artifact d now ARTIFACT_PYTHON_WHEEL ''wheel''
     (if wm_distribution m \<noteq> [] then wm_distribution m else wm_filename m) (wm_filename m) (wm_sha256 m)
     (wm_size_bytes m) (wheel_metadata m)"

definition reconcile_scrapy_store :: "db \<Rightarrow> instant \<Rightarrow> scrapy_manifest list \<Rightarrow> db" where
  "reconcile_scrapy_store d now manifests =
     fold (\<lambda>m d. if get_by_type_hash d ARTIFACT_SCRAPY (sm_sha256 m) = None then fst (upsert_scrapy d now m) else d)
       manifests d"

definition reconcile_wheel_store :: "db \<Rightarrow> instant \<Rightarrow> wheel_manifest list \<Rightarrow> db" where
  "reconcile_wheel_store d now manifests =
     fold (\<lambda>m d. if get_by_type_hash d ARTIFACT_PYTHON_WHEEL (wm_sha256 m) = None then fst (upsert_wheel d now m) else d)
       manifests d"

definition list_build_artifacts :: "db \<Rightarrow> build_artifact list" where
  "list_build_artifacts d = sort_key (\<lambda>a. - ba_created_at a) (db_artifacts d)"

definition get_build_artifact_or_404 :: "db \<Rightarrow> string \<Rightarrow> api_error + build_artifact" where
  "get_build_artifact_or_404 d artifact_id =
     (case find_artifact d artifact_id of
        None \<Rightarrow> Inl (ApiError 404 ''artifact.not_found'' ''errors.artifactNotFound'' [(''artifact_id'', JStr artifact_id)])
      | Some a \<Rightarrow> Inr a)"

definition get_runnable_artifact_or_404 :: "db \<Rightarrow> string \<Rightarrow> api_error + build_artifact" where
  "get_runnable_artifact_or_404 d artifact_id =
     (case get_build_artifact_or_404 d artifact_id of Inl e \<Rightarrow> Inl e
      | Inr a \<Rightarrow> if ba_artifact_type a \<in> RUNNABLE_ARTIFACT_TYPES then Inr a
          else Inl (ApiError 400 ''artifact.not_runnable'' ''errors.artifactNotRunnable''
            [(''artifact_id'', JStr artifact_id), (''artifact_type'', JStr (ba_artifact_type a))]))"

definition get_bindable_artifact_or_404 :: "db \<Rightarrow> string \<Rightarrow> api_error + build_artifact" where
  "get_bindable_artifact_or_404 d artifact_id =
     (case get_runnable_artifact_or_404 d artifact_id of Inl e \<Rightarrow> Inl e
      | Inr a \<Rightarrow> if ba_archived_at a = None then Inr a
          else Inl (ApiError 400 ''artifact.archived'' ''errors.artifactArchived'' [(''artifact_id'', JStr artifact_id)]))"

definition archive_artifact :: "instant \<Rightarrow> build_artifact \<Rightarrow> build_artifact" where
  "archive_artifact now a = (if ba_archived_at a = None then a\<lparr>ba_archived_at := Some now\<rparr> else a)"

definition unarchive_artifact :: "build_artifact \<Rightarrow> build_artifact" where
  "unarchive_artifact a = a\<lparr>ba_archived_at := None\<rparr>"

definition json_list :: "json \<Rightarrow> json list" where
  \<comment> \<open>\<open>list(v or [])\<close> of a value that is a list or absent\<close>
  "json_list v = (case v of JList xs \<Rightarrow> xs | _ \<Rightarrow> [])"

definition artifact_snapshot :: "build_artifact \<Rightarrow> obj" where
  "artifact_snapshot a =
     (let meta = ba_artifact_metadata a in
      [(''id'', JStr (ba_id a)), (''artifact_type'', JStr (ba_artifact_type a)),
       (''package_format'', JStr (ba_package_format a)), (''name'', JStr (ba_name a)),
       (''filename'', jstr (ba_filename a)), (''content_hash'', jstr (ba_content_hash a)),
       (''size_bytes'', JInt (ba_size_bytes a)), (''project'', obj_get meta ''project''),
       (''version'', obj_get meta ''version''), (''distribution'', obj_get meta ''distribution''),
       (''spiders'', JList (json_list (obj_get meta ''spiders''))), (''fetch_path'', obj_get meta ''fetch_path'')])"

definition build_artifact_view :: "build_artifact \<Rightarrow> instant option \<Rightarrow> obj" where
  "build_artifact_view a updated_at = artifact_snapshot a @
     [(''runnable'', JBool (ba_artifact_type a \<in> RUNNABLE_ARTIFACT_TYPES)),
      (''archived'', JBool (ba_archived_at a \<noteq> None)), (''archived_at'', iso (ba_archived_at a)),
      (''created_at'', iso (Some (ba_created_at a))), (''updated_at'', iso updated_at)]"

section \<open>Commands and overrides\<close>

definition OVERRIDE_KEYS :: "string list" where
  "OVERRIDE_KEYS = [''command'', ''node_strategy'', ''node_ids'']"

definition str_of :: "json \<Rightarrow> string" where
  \<comment> \<open>\<open>str(v or "")\<close>\<close>
  "str_of v = (if truthy v then py_str v else [])"

definition get_or :: "obj \<Rightarrow> string \<Rightarrow> json \<Rightarrow> json" where
  \<comment> \<open>\<open>d.get(k, v)\<close>\<close>
  "get_or d k v = or_default (map_of d k) v"

definition validate_command :: "json \<Rightarrow> api_error + parsed_command" where
  "validate_command command =
     (case parse_scrapy_command (json_str command) of Inl e \<Rightarrow> Inl (command_api_error e) | Inr p \<Rightarrow> Inr p)"

definition invalid_params :: "string list \<Rightarrow> api_error" where
  "invalid_params missing = ApiError 400 ''template.invalid_params'' ''errors.invalidParams''
     [(''missing'', JList (map JStr missing))]"

definition validate_wheel_command :: "json \<Rightarrow> api_error + string" where
  "validate_wheel_command command =
     (let stripped = py_strip (str_of command) in
      if stripped = [] then Inl (invalid_params [''command'']) else Inr stripped)"

definition validate_command_by_type :: "json \<Rightarrow> string \<Rightarrow> api_error option" where
  "validate_command_by_type command artifact_type =
     (if artifact_type = ARTIFACT_SCRAPY
      then (case validate_command command of Inl e \<Rightarrow> Some e | Inr _ \<Rightarrow> None)
      else (case validate_wheel_command command of Inl e \<Rightarrow> Some e | Inr _ \<Rightarrow> None))"

definition ensure_spider_in_artifact :: "string \<Rightarrow> json \<Rightarrow> api_error option" where
  "ensure_spider_in_artifact spider spiders =
     (let allowed = map py_str (json_list spiders) in
      if allowed \<noteq> [] \<and> spider \<notin> set allowed
      then Some (ApiError 400 ''command.unknown_spider'' ''errors.unknownSpider''
        [(''spider'', JStr spider), (''spiders'', JList (map JStr allowed))])
      else None)"

definition validate_command_for_artifact :: "json \<Rightarrow> json \<Rightarrow> api_error option" where
  "validate_command_for_artifact command spiders =
     (case validate_command command of Inl e \<Rightarrow> Some e
      | Inr parsed \<Rightarrow> ensure_spider_in_artifact (pc_spider parsed) spiders)"

definition override_command :: "obj \<Rightarrow> string \<Rightarrow> api_error + obj" where
  \<comment> \<open>the \<open>command\<close> round of the loop over \<open>OVERRIDE_KEYS\<close>\<close>
  "override_command data artifact_type =
     (if obj_get data ''command'' = JNull then Inr []
      else (let command = py_strip (py_str (obj_get data ''command'')) in
        if command = [] then Inr []
        else (case validate_command_by_type (JStr command) artifact_type of
            Some e \<Rightarrow> Inl e | None \<Rightarrow> Inr [(''command'', JStr command)])))"

definition override_rest :: "obj \<Rightarrow> obj" where
  \<comment> \<open>the rounds \<open>node_strategy\<close> and \<open>node_ids\<close>\<close>
  "override_rest data =
     (if obj_get data ''node_strategy'' = JNull then []
      else [(''node_strategy'', JStr (py_str (obj_get data ''node_strategy'')))]) @
     (if obj_get data ''node_ids'' = JNull then []
      else [(''node_ids'', JList (map (\<lambda>n. JStr (py_str n)) (json_list (obj_get data ''node_ids''))))])"

definition sanitize_overrides :: "obj option \<Rightarrow> string \<Rightarrow> api_error + obj" where
  "sanitize_overrides data artifact_type =
     (let data = or_default data [] in
      if map_of data ''build_artifact_id'' \<noteq> None
      then Inl (ApiError 400 ''schedule.artifact_override_forbidden'' ''errors.artifactOverrideForbidden'' [])
      else (case override_command data artifact_type of Inl e \<Rightarrow> Inl e
        | Inr out \<Rightarrow> Inr (out @ override_rest data)))"

section \<open>Resolving a run\<close>

definition or_json :: "json \<Rightarrow> json \<Rightarrow> json" where
  \<comment> \<open>\<open>a or b\<close>\<close>
  "or_json a b = (if truthy a then a else b)"

definition resolve_run ::
    "build_artifact \<Rightarrow> obj \<Rightarrow> obj \<Rightarrow> string option \<Rightarrow> string option \<Rightarrow> api_error + run_request \<times> obj" where
  "resolve_run a defaults overrides name execution_template_id =
     (let snap = artifact_snapshot a;
          project = or_json (obj_get snap ''project'') (obj_get defaults ''project'');
          version = or_json (obj_get snap ''version'') (obj_get defaults ''version'');
          command = or_json (obj_get overrides ''command'') (obj_get defaults ''command'');
          node_strategy = py_str (or_json (or_json (obj_get overrides ''node_strategy'')
            (obj_get defaults ''node_strategy'')) (JStr ''all''));
          node_ids = map py_str (json_list (get_or overrides ''node_ids'' (obj_get defaults ''node_ids'')));
          descriptor = [(''sha256'', jstr (ba_content_hash a)), (''hash'', jstr (ba_content_hash a)),
            (''filename'', jstr (ba_filename a)), (''project'', project), (''version'', version),
            (''size_bytes'', JInt (ba_size_bytes a)), (''fetch_path'', obj_get snap ''fetch_path'')];
          tail_of = [(''node_strategy'', JStr node_strategy), (''node_ids'', JList (map JStr node_ids)),
            (''overrides'', JObj overrides)];
          head_of = [(''build_artifact'', JObj snap), (''execution_template_id'', jstr execution_template_id),
            (''name'', jstr name), (''artifact_type'', JStr (ba_artifact_type a))];
          request = (\<lambda>target params. \<lparr>rq_artifact_type = ba_artifact_type a, rq_target = target,
            rq_node_strategy = node_strategy, rq_node_ids = node_ids, rq_params = params\<rparr>)
      in if ba_artifact_type a = ARTIFACT_PYTHON_WHEEL then
           (case validate_wheel_command command of Inl e \<Rightarrow> Inl e
            | Inr shell_command \<Rightarrow>
               (let target = (if truthy_str name then the name
                    else if ba_name a \<noteq> [] then ba_name a else ''python_wheel'');
                    run = [(''command'', JStr shell_command), (''shell_command'', JStr shell_command)]
                in Inr (request target (run @
                     [(''artifact'', JObj (descriptor @ [(''distribution'', obj_get snap ''distribution'')])),
                      (''env'', JObj []), (''working_dir'', JNull), (''version'', version)]),
                   head_of @ [(''version'', version)] @ run @ [(''env'', JObj []), (''working_dir'', JNull)]
                     @ tail_of)))
         else
           (case validate_command command of Inl e \<Rightarrow> Inl e
            | Inr parsed \<Rightarrow>
               (case ensure_spider_in_artifact (pc_spider parsed) (obj_get snap ''spiders'') of Some e \<Rightarrow> Inl e
                | None \<Rightarrow>
                   (let spider = pc_spider parsed;
                        target = (if truthy_str name then the name else py_str project @ '':'' @ spider)
                    in Inr (request target [(''command'', command), (''project'', project),
                         (''version'', version), (''spider'', JStr spider), (''artifact'', JObj descriptor)],
                       head_of @ [(''project'', project), (''version'', version), (''command'', command),
                         (''spider'', JStr spider)] @ tail_of)))))"

section \<open>Templates\<close>

definition VALID_NODE_STRATEGIES :: "string set" where
  "VALID_NODE_STRATEGIES = {''all'', ''random'', ''selected''}"

definition validate_basics :: "obj \<Rightarrow> api_error option" where
  "validate_basics data =
     (let strategy = or_json (obj_get data ''node_strategy'') (JStr ''all'');
          missing = filter (\<lambda>k. py_strip (str_of (obj_get data k)) = []) [''name'', ''command'']
      in if strategy \<notin> JStr ` VALID_NODE_STRATEGIES
         then Some (ApiError 400 ''template.invalid_node_strategy'' ''errors.invalidNodeStrategy''
           [(''node_strategy'', strategy)])
         else if missing \<noteq> [] then Some (invalid_params missing) else None)"

definition ensure_unique_template_name :: "db \<Rightarrow> string \<Rightarrow> string option \<Rightarrow> api_error option" where
  \<comment> \<open>\<open>templates._ensure_unique_name\<close>\<close>
  "ensure_unique_template_name d name exclude_id =
     (if list_ex (\<lambda>t. et_name t = name \<and> (exclude_id = None \<or> Some (et_id t) \<noteq> exclude_id)) (db_templates d)
      then Some (ApiError 409 ''template.name_conflict'' ''errors.templateNameConflict'' [(''name'', JStr name)])
      else None)"

definition artifact_required :: api_error where
  "artifact_required = ApiError 400 ''template.build_artifact_required'' ''errors.buildArtifactRequired'' []"

definition require_artifact :: "db \<Rightarrow> string option \<Rightarrow> api_error + build_artifact" where
  "require_artifact d artifact_id =
     (let k = or_default artifact_id [] in
      if py_strip k = [] then Inl artifact_required else get_runnable_artifact_or_404 d k)"

definition require_bindable_artifact :: "db \<Rightarrow> string option \<Rightarrow> api_error + build_artifact" where
  "require_bindable_artifact d artifact_id =
     (let k = or_default artifact_id [] in
      if py_strip k = [] then Inl artifact_required else get_bindable_artifact_or_404 d k)"

definition validate_template_command :: "build_artifact \<Rightarrow> string \<Rightarrow> api_error option" where
  \<comment> \<open>\<open>templates._validate_command_for_artifact\<close>\<close>
  "validate_template_command a command =
     (if ba_artifact_type a = ARTIFACT_SCRAPY
      then validate_command_for_artifact (JStr command) (obj_get (ba_artifact_metadata a) ''spiders'')
      else (case validate_wheel_command (JStr command) of Inl e \<Rightarrow> Some e | Inr _ \<Rightarrow> None))"

definition create_template :: "db \<Rightarrow> obj \<Rightarrow> instant \<Rightarrow> api_error + db \<times> execution_template" where
  "create_template d data now =
     (case validate_basics data of Some e \<Rightarrow> Inl e
      | None \<Rightarrow>
         (let name = py_strip (py_str (obj_get data ''name''));
              command = py_strip (py_str (obj_get data ''command''))
          in case ensure_unique_template_name d name None of Some e \<Rightarrow> Inl e
          | None \<Rightarrow>
             (case require_bindable_artifact d (json_str (obj_get data ''build_artifact_id'')) of Inl e \<Rightarrow> Inl e
              | Inr a \<Rightarrow>
                 (case validate_template_command a command of Some e \<Rightarrow> Inl e
                  | None \<Rightarrow>
                     (let (k, d) = new_id d;
                          t = \<lparr>et_id = k, et_name = name, et_description = obj_get data ''description'',
                            et_build_artifact_id = Some (ba_id a),
                            et_project = obj_get (ba_artifact_metadata a) ''project'',
                            et_version = obj_get (ba_artifact_metadata a) ''version'',
                            et_command = Some command,
                            et_node_strategy = py_str (or_json (obj_get data ''node_strategy'') (JStr ''all'')),
                            et_node_ids = map py_str (json_list (obj_get data ''node_ids'')),
                            et_created_at = now\<rparr>
                      in Inr (d\<lparr>db_templates := db_templates d @ [t]\<rparr>, t))))))"

datatype write_error =
    Refused api_error
  | Not_null_violation string \<comment> \<open>the commit raises: the column is not nullable\<close>

definition update_template :: "db \<Rightarrow> execution_template \<Rightarrow> obj \<Rightarrow> write_error + db \<times> execution_template" where
  "update_template d t data =
     (let merged = [(''name'', get_or data ''name'' (JStr (et_name t))),
            (''command'', get_or data ''command'' (jstr (et_command t))),
            (''node_strategy'', get_or data ''node_strategy'' (JStr (et_node_strategy t)))];
          new_name = py_strip (py_str (obj_get merged ''name''));
          command = py_strip (py_str (obj_get merged ''command''));
          new_artifact_id = json_str (get_or data ''build_artifact_id'' (jstr (et_build_artifact_id t)));
          is_rebind = (py_strip (or_default new_artifact_id []) \<noteq> py_strip (or_default (et_build_artifact_id t) []))
      in case validate_basics merged of Some e \<Rightarrow> Inl (Refused e)
         | None \<Rightarrow>
            (case ensure_unique_template_name d new_name (Some (et_id t)) of Some e \<Rightarrow> Inl (Refused e)
             | None \<Rightarrow>
                (case (if is_rebind then require_bindable_artifact d new_artifact_id
                       else require_artifact d new_artifact_id) of Inl e \<Rightarrow> Inl (Refused e)
                 | Inr a \<Rightarrow>
                    (case validate_template_command a command of Some e \<Rightarrow> Inl (Refused e)
                     | None \<Rightarrow>
                        (let t' = t\<lparr>et_name := new_name, et_command := Some command,
                             et_build_artifact_id := Some (ba_id a),
                             et_project := obj_get (ba_artifact_metadata a) ''project'',
                             et_version := obj_get (ba_artifact_metadata a) ''version''\<rparr>;
                             t' = (if map_of data ''description'' = None then t'
                                   else t'\<lparr>et_description := obj_get data ''description''\<rparr>);
                             t' = (if map_of data ''node_ids'' = None then t'
                                   else t'\<lparr>et_node_ids := map py_str (json_list (obj_get data ''node_ids''))\<rparr>)
                         in case json_str (obj_get merged ''node_strategy'') of
                              None \<Rightarrow> Inl (Not_null_violation ''node_strategy'')
                            | Some s \<Rightarrow> (let t' = t'\<lparr>et_node_strategy := s\<rparr> in Inr (save_template d t', t')))))))"

definition get_template_or_404 :: "db \<Rightarrow> json \<Rightarrow> api_error + execution_template" where
  "get_template_or_404 d template_id =
     (case Option.bind (json_str template_id) (find_template d) of
        None \<Rightarrow> Inl (ApiError 404 ''template.not_found'' ''errors.templateNotFound''
          [(''execution_template_id'', template_id)])
      | Some t \<Rightarrow> Inr t)"

definition list_templates :: "db \<Rightarrow> nat \<Rightarrow> execution_template list" where
  "list_templates d limit = take limit (sort_key (\<lambda>t. - et_created_at t) (db_templates d))"

definition delete_template :: "db \<Rightarrow> execution_template \<Rightarrow> api_error + db" where
  "delete_template d t =
     (if list_ex (\<lambda>s. s_execution_template_id s = et_id t) (db_schedules d)
      then Inl (ApiError 409 ''template.in_use'' ''errors.templateInUse'' [(''execution_template_id'', JStr (et_id t))])
      else Inr (d\<lparr>db_templates := filter (\<lambda>u. et_id u \<noteq> et_id t) (db_templates d)\<rparr>))"

definition template_defaults :: "execution_template \<Rightarrow> obj" where
  "template_defaults t = [(''name'', JStr (et_name t)), (''project'', et_project t), (''version'', et_version t),
     (''command'', jstr (et_command t)), (''node_strategy'', JStr (et_node_strategy t)),
     (''node_ids'', JList (map JStr (et_node_ids t)))]"

definition build_run_request :: "db \<Rightarrow> execution_template \<Rightarrow> obj option \<Rightarrow> api_error + run_request \<times> obj" where
  "build_run_request d t overrides =
     (case require_artifact d (et_build_artifact_id t) of Inl e \<Rightarrow> Inl e
      | Inr a \<Rightarrow>
         (case sanitize_overrides overrides (ba_artifact_type a) of Inl e \<Rightarrow> Inl e
          | Inr ov \<Rightarrow> resolve_run a (template_defaults t) ov (Some (et_name t)) (Some (et_id t))))"

definition artifact_type_for_template :: "db \<Rightarrow> execution_template \<Rightarrow> string" where
  "artifact_type_for_template d t =
     (if \<not> truthy_str (et_build_artifact_id t) then ARTIFACT_SCRAPY
      else (case find_artifact d (the (et_build_artifact_id t)) of
          None \<Rightarrow> ARTIFACT_SCRAPY | Some a \<Rightarrow> ba_artifact_type a))"

record artifact_meta =
  am_artifact_type :: string
  am_archived_at :: "instant option"

definition artifact_meta_for_template :: "db \<Rightarrow> execution_template \<Rightarrow> artifact_meta" where
  "artifact_meta_for_template d t =
     (if \<not> truthy_str (et_build_artifact_id t) then \<lparr>am_artifact_type = ARTIFACT_SCRAPY, am_archived_at = None\<rparr>
      else (case find_artifact d (the (et_build_artifact_id t)) of
          None \<Rightarrow> \<lparr>am_artifact_type = ARTIFACT_SCRAPY, am_archived_at = None\<rparr>
        | Some a \<Rightarrow> \<lparr>am_artifact_type = ba_artifact_type a, am_archived_at = ba_archived_at a\<rparr>))"

definition artifact_meta_for_templates :: "db \<Rightarrow> execution_template list \<Rightarrow> (string \<times> artifact_meta) list" where
  "artifact_meta_for_templates d ts =
     (let ids = map the (filter truthy_str (map et_build_artifact_id ts)) in
      map (\<lambda>a. (ba_id a, \<lparr>am_artifact_type = ba_artifact_type a, am_archived_at = ba_archived_at a\<rparr>))
        (filter (\<lambda>a. ba_id a \<in> set ids) (db_artifacts d)))"

definition template_view :: "execution_template \<Rightarrow> artifact_meta option \<Rightarrow> instant option \<Rightarrow> obj" where
  "template_view t meta updated_at =
     (let meta = or_default meta \<lparr>am_artifact_type = ARTIFACT_SCRAPY, am_archived_at = None\<rparr> in
      [(''id'', JStr (et_id t)), (''name'', JStr (et_name t)), (''description'', et_description t),
       (''build_artifact_id'', jstr (et_build_artifact_id t)), (''artifact_type'', JStr (am_artifact_type meta)),
       (''project'', et_project t), (''version'', et_version t), (''command'', jstr (et_command t)),
       (''node_strategy'', JStr (et_node_strategy t)), (''node_ids'', JList (map JStr (et_node_ids t))),
       (''build_artifact_archived'', JBool (am_archived_at meta \<noteq> None)),
       (''build_artifact_archived_at'', iso (am_archived_at meta)),
       (''created_at'', iso (Some (et_created_at t))), (''updated_at'', iso updated_at)])"

section \<open>Dispatching a resolved run\<close>

definition dispatch_resolved ::
    "'r redis_client \<Rightarrow> (node list \<Rightarrow> node) \<Rightarrow> bool \<Rightarrow> settings \<Rightarrow> instant \<Rightarrow> run_request \<Rightarrow> obj
      \<Rightarrow> task_source \<Rightarrow> string option \<Rightarrow> string option \<Rightarrow> int option \<Rightarrow> db \<times> 'r \<Rightarrow> ((db \<times> 'r) \<times> run_end) option" where
  "dispatch_resolved rc choice commit_ok cfg now request snapshot source template_id schedule_id generation s =
     (let origin = \<lparr>og_source = source, og_execution_template_id = template_id, og_schedule_id = schedule_id,
            og_template_snapshot = snapshot, og_schedule_generation = generation\<rparr>
      in case get_executor (rq_artifact_type request) of Inl e \<Rightarrow> Some (s, Run_error e)
         | Inr kind \<Rightarrow> executor_run kind rc choice commit_ok cfg now request origin s)"

definition run_execution_template ::
    "'r redis_client \<Rightarrow> (node list \<Rightarrow> node) \<Rightarrow> bool \<Rightarrow> settings \<Rightarrow> instant \<Rightarrow> execution_template
      \<Rightarrow> task_source \<Rightarrow> string option \<Rightarrow> obj option \<Rightarrow> int option \<Rightarrow> db \<times> 'r \<Rightarrow> ((db \<times> 'r) \<times> run_end) option" where
  "run_execution_template rc choice commit_ok cfg now t source schedule_id overrides generation s =
     (case build_run_request (fst s) t overrides of Inl e \<Rightarrow> Some (s, Run_error e)
      | Inr (request, snapshot) \<Rightarrow>
          dispatch_resolved rc choice commit_ok cfg now request snapshot source (Some (et_id t)) schedule_id generation s)"

section \<open>Facts\<close>

lemma dropWhile_idem [simp]: "dropWhile P (dropWhile P xs) = dropWhile P xs"
  by (induction xs) auto

lemma py_strip_idem [simp]: "py_strip (py_strip s) = py_strip s"
proof -
  define u where "u = dropWhile py_isspace s"
  define v where "v = rev (dropWhile py_isspace (rev u))"
  have v: "py_strip s = v" by (simp add: py_strip_def u_def v_def)
  have "dropWhile py_isspace v = v"
  proof (cases "v = []")
    case False
    have "rev u = takeWhile py_isspace (rev u) @ rev v" by (simp add: v_def)
    then have "u = v @ rev (takeWhile py_isspace (rev u))" by (metis rev_append rev_rev_ident)
    then have "hd v = hd u" "u \<noteq> []" using False by (metis hd_append2, auto)
    moreover have "\<not> py_isspace (hd u)" using \<open>u \<noteq> []\<close> unfolding u_def by (rule hd_dropWhile)
    ultimately show ?thesis using False by (cases v) auto
  qed simp
  then show ?thesis unfolding v by (simp add: py_strip_def) (simp add: v_def)
qed

lemma jstr_simps [simp]: "json_str (jstr x) = x" "truthy (jstr x) = truthy_str x"
  by (auto simp: json_str_def jstr_def truthy_str_def split: option.splits)

lemma json_str_simps [simp]: "json_str (JStr s) = Some s" "json_str JNull = None"
  by (simp_all add: json_str_def)

lemma str_of_simps [simp]: "str_of (JStr s) = s" "str_of JNull = []"
  by (simp_all add: str_of_def)

lemma or_json_simps [simp]: "or_json JNull b = b" "truthy a \<Longrightarrow> or_json a b = a" "\<not> truthy a \<Longrightarrow> or_json a b = b"
  by (simp_all add: or_json_def)

lemma runnable_found:
  "get_runnable_artifact_or_404 d k = Inr a \<Longrightarrow> find_artifact d k = Some a \<and> ba_id a = k \<and> ba_artifact_type a \<in> RUNNABLE_ARTIFACT_TYPES"
  using artifacts.lookup_key
  by (auto simp: get_runnable_artifact_or_404_def get_build_artifact_or_404_def split: option.splits if_splits)

lemma bindable_found:
  "get_bindable_artifact_or_404 d k = Inr a \<Longrightarrow> get_runnable_artifact_or_404 d k = Inr a"
  by (auto simp: get_bindable_artifact_or_404_def split: sum.splits if_splits)

lemma bound_found:
  "require_artifact d k = Inr a \<or> require_bindable_artifact d k = Inr a \<Longrightarrow>
    find_artifact d (ba_id a) = Some a \<and> py_strip (ba_id a) \<noteq> [] \<and> ba_artifact_type a \<in> RUNNABLE_ARTIFACT_TYPES"
  by (auto simp: require_artifact_def require_bindable_artifact_def Let_def split: if_splits
      dest!: bindable_found dest: runnable_found)

definition bound_to :: "db \<Rightarrow> execution_template \<Rightarrow> build_artifact \<Rightarrow> string \<Rightarrow> bool" where
  "bound_to d t a command \<longleftrightarrow> find_artifact d (ba_id a) = Some a \<and> py_strip (ba_id a) \<noteq> []
     \<and> ba_artifact_type a \<in> RUNNABLE_ARTIFACT_TYPES \<and> et_build_artifact_id t = Some (ba_id a)
     \<and> et_command t = Some command \<and> command \<noteq> [] \<and> py_strip command = command
     \<and> validate_template_command a command = None"

lemma basics_ok:
  "validate_basics data = None \<Longrightarrow> py_strip (py_str (obj_get data ''name'')) \<noteq> []
    \<and> py_strip (py_str (obj_get data ''command'')) \<noteq> []"
proof -
  assume a: "validate_basics data = None"
  have e: "py_strip [] = []" by (simp add: py_strip_def)
  from a have "py_strip (str_of (obj_get data ''name'')) \<noteq> []" "py_strip (str_of (obj_get data ''command'')) \<noteq> []"
    by (auto simp: validate_basics_def Let_def split: if_splits)
  then show ?thesis using e by (auto simp: str_of_def split: if_splits)
qed

lemma accepted_bound:
  assumes "create_template d data now = Inr (d', t) \<or> update_template d t0 data = Inr (d', t)"
  shows "\<exists>a command. bound_to d t a command"
  using assms
proof
  assume c: "create_template d data now = Inr (d', t)"
  then obtain a where a: "validate_basics data = None"
      "require_bindable_artifact d (json_str (obj_get data ''build_artifact_id'')) = Inr a"
      "validate_template_command a (py_strip (py_str (obj_get data ''command''))) = None"
    and t: "et_build_artifact_id t = Some (ba_id a)" "et_command t = Some (py_strip (py_str (obj_get data ''command'')))"
    by (auto simp: create_template_def Let_def split: option.splits sum.splits prod.splits)
  show ?thesis
    using bound_found [OF disjI2, OF a(2)] basics_ok [OF a(1)] a(3) t by (auto simp: bound_to_def)
next
  assume u: "update_template d t0 data = Inr (d', t)"
  obtain merged where m: "merged = [(''name'', get_or data ''name'' (JStr (et_name t0))),
            (''command'', get_or data ''command'' (jstr (et_command t0))),
            (''node_strategy'', get_or data ''node_strategy'' (JStr (et_node_strategy t0)))]" by simp
  from u have basics: "validate_basics merged = None"
    unfolding update_template_def m [symmetric] Let_def by (auto split: option.splits)
  from u have "\<exists>a. (\<exists>k. require_artifact d k = Inr a \<or> require_bindable_artifact d k = Inr a)
      \<and> validate_template_command a (py_strip (py_str (obj_get merged ''command''))) = None
      \<and> et_build_artifact_id t = Some (ba_id a) \<and> et_command t = Some (py_strip (py_str (obj_get merged ''command'')))"
    unfolding update_template_def m [symmetric] Let_def
    by (auto split: option.splits sum.splits if_splits)
  then obtain a k where a: "require_artifact d k = Inr a \<or> require_bindable_artifact d k = Inr a"
      "validate_template_command a (py_strip (py_str (obj_get merged ''command''))) = None"
    and t: "et_build_artifact_id t = Some (ba_id a)" "et_command t = Some (py_strip (py_str (obj_get merged ''command'')))"
    by blast
  show ?thesis
    using bound_found [OF a(1)] basics_ok [OF basics] a(2) t by (auto simp: bound_to_def)
qed

definition run_ready :: "build_artifact \<Rightarrow> bool" where
  \<comment> \<open>what the uploads write into the metadata: a project for an egg, a download path for a wheel\<close>
  "run_ready a \<longleftrightarrow> (if ba_artifact_type a = ARTIFACT_SCRAPY
     then truthy (obj_get (ba_artifact_metadata a) ''project'')
     else truthy (obj_get (ba_artifact_metadata a) ''fetch_path''))"

fun run_command :: "run_params \<Rightarrow> string" where
  "run_command (Scrapy p) = sp_command p"
| "run_command (Wheel p) = wp_shell_command p"

lemma upserts_run_ready:
  "sm_project m \<noteq> [] \<Longrightarrow> run_ready (snd (upsert_scrapy d now m))"
  "run_ready (snd (upsert_wheel d now w))"
  by (auto simp: run_ready_def upsert_scrapy_def upsert_wheel_def upsert_artifact_def scrapy_metadata_def
      wheel_metadata_def obj_get_def wheel_fetch_path_def ARTIFACT_SCRAPY_def ARTIFACT_PYTHON_WHEEL_def
      get_by_type_hash_def Let_def new_id_def find_Some_iff split: option.splits)

lemma snapshot_get [simp]:
  "obj_get (artifact_snapshot a) ''project'' = obj_get (ba_artifact_metadata a) ''project''"
  "obj_get (artifact_snapshot a) ''version'' = obj_get (ba_artifact_metadata a) ''version''"
  "obj_get (artifact_snapshot a) ''distribution'' = obj_get (ba_artifact_metadata a) ''distribution''"
  "obj_get (artifact_snapshot a) ''fetch_path'' = obj_get (ba_artifact_metadata a) ''fetch_path''"
  "json_list (obj_get (artifact_snapshot a) ''spiders'') = json_list (obj_get (ba_artifact_metadata a) ''spiders'')"
  by (simp_all add: artifact_snapshot_def obj_get_def json_list_def Let_def)

lemma defaults_get [simp]:
  "obj_get (template_defaults t) ''command'' = jstr (et_command t)"
  "obj_get (template_defaults t) ''project'' = et_project t"
  "obj_get (template_defaults t) ''version'' = et_version t"
  "obj_get (template_defaults t) ''node_strategy'' = JStr (et_node_strategy t)"
  "obj_get (template_defaults t) ''node_ids'' = JList (map JStr (et_node_ids t))"
  by (simp_all add: template_defaults_def obj_get_def)

lemma require_bound:
  "find_artifact e k = Some a \<Longrightarrow> py_strip k \<noteq> [] \<Longrightarrow> ba_artifact_type a \<in> RUNNABLE_ARTIFACT_TYPES \<Longrightarrow>
    require_artifact e (Some k) = Inr a"
  by (simp add: require_artifact_def get_runnable_artifact_or_404_def get_build_artifact_or_404_def)

lemma no_overrides [simp]: "sanitize_overrides None ty = Inr []"
  by (simp add: sanitize_overrides_def override_command_def override_rest_def obj_get_def)

lemma obj_get_simps [simp]:
  "obj_get [] k = JNull" "obj_get ((j, v) # d) k = (if j = k then v else obj_get d k)"
  by (simp_all add: obj_get_def)

lemma resolve_scrapy:
  assumes "ba_artifact_type a \<noteq> ARTIFACT_PYTHON_WHEEL"
    and "command = or_json (obj_get ov ''command'') (obj_get defaults ''command'')"
    and "validate_command command = Inr p"
    and "ensure_spider_in_artifact (pc_spider p) (obj_get (ba_artifact_metadata a) ''spiders'') = None"
  shows "\<exists>request snapshot. resolve_run a defaults ov name template_id = Inr (request, snapshot)
    \<and> rq_artifact_type request = ba_artifact_type a \<and> obj_get (rq_params request) ''command'' = command
    \<and> obj_get (rq_params request) ''project'' = or_json (obj_get (ba_artifact_metadata a) ''project'') (obj_get defaults ''project'')"
proof -
  have "ensure_spider_in_artifact (pc_spider p) (obj_get (artifact_snapshot a) ''spiders'') = None"
    using assms(4) by (simp add: ensure_spider_in_artifact_def Let_def)
  then show ?thesis using assms(1,3) by (simp add: resolve_run_def Let_def assms(2) [symmetric])
qed

lemma resolve_wheel:
  assumes "ba_artifact_type a = ARTIFACT_PYTHON_WHEEL"
    and "validate_wheel_command (or_json (obj_get ov ''command'') (obj_get defaults ''command'')) = Inr c"
  shows "\<exists>request snapshot descriptor. resolve_run a defaults ov name template_id = Inr (request, snapshot)
    \<and> rq_artifact_type request = ba_artifact_type a \<and> obj_get (rq_params request) ''shell_command'' = JStr c
    \<and> obj_get (rq_params request) ''artifact'' = JObj descriptor
    \<and> obj_get descriptor ''fetch_path'' = obj_get (ba_artifact_metadata a) ''fetch_path''"
  using assms by (simp add: resolve_run_def Let_def)

lemma jstr_Some [simp]: "jstr (Some s) = JStr s"
  by (simp add: jstr_def)

text \<open>C7. A template that was accepted can be run: whatever the request that created or changed it, its
  bound artifact resolves, the command passes every later check (grammar, spider, and the executor's
  own validation) and reaches the payload unchanged; also after the artifact has been archived, which
  only forbids new bindings.
\<close>

theorem accepted_template_runs:
  assumes "create_template d data now = Inr (d', t) \<or> update_template d t0 data = Inr (d', t)"
    and "find_artifact d (or_default (et_build_artifact_id t) []) = Some a" and "run_ready a"
    and "find_artifact e (ba_id a) = Some (a\<lparr>ba_archived_at := archived\<rparr>)"
  shows "\<exists>request snapshot kind params. build_run_request e t None = Inr (request, snapshot)
    \<and> get_executor (rq_artifact_type request) = Inr kind \<and> parse_params kind request = Inr params
    \<and> Some (run_command params) = et_command t"
proof -
  from accepted_bound [OF assms(1)] obtain b command where b: "bound_to d t b command" by blast
  then have ab: "b = a" using assms(2) by (simp add: bound_to_def)
  let ?a = "a\<lparr>ba_archived_at := archived\<rparr>"
  note f = b [unfolded ab bound_to_def]
  have c: "command \<noteq> []" "et_command t = Some command" using f by auto
  have req: "require_artifact e (et_build_artifact_id t) = Inr ?a"
    using f assms(4) require_bound [of e "ba_id a" ?a] by simp
  have str: "truthy_str (Some command)" using c by (simp add: truthy_str_def)
  show ?thesis
  proof (cases "ba_artifact_type a = ARTIFACT_SCRAPY")
    case True
    obtain p where p: "parse_scrapy_command (Some command) = Inr p"
        and sp: "ensure_spider_in_artifact (pc_spider p) (obj_get (ba_artifact_metadata a) ''spiders'') = None"
      using f True by (auto simp: validate_template_command_def validate_command_for_artifact_def validate_command_def
          split: sum.splits)
    have pr: "truthy (obj_get (ba_artifact_metadata a) ''project'')" using assms(3) True by (simp add: run_ready_def)
    have nw: "ARTIFACT_SCRAPY \<noteq> ARTIFACT_PYTHON_WHEEL" by (simp add: ARTIFACT_SCRAPY_def ARTIFACT_PYTHON_WHEEL_def)
    have vc: "validate_command (JStr command) = Inr p" using p by (simp add: validate_command_def)
    have nt: "ba_artifact_type ?a \<noteq> ARTIFACT_PYTHON_WHEEL" using True nw by simp
    have cmd: "JStr command = or_json (obj_get [] ''command'') (obj_get (template_defaults t) ''command'')"
      using c by simp
    obtain request snapshot where r: "build_run_request e t None = Inr (request, snapshot)"
        "rq_artifact_type request = ''scrapy''" "obj_get (rq_params request) ''command'' = JStr command"
        "obj_get (rq_params request) ''project'' = obj_get (ba_artifact_metadata a) ''project''"
      using resolve_scrapy [OF nt cmd vc, of "Some (et_name t)" "Some (et_id t)"] sp req True pr
      by (auto simp: build_run_request_def ARTIFACT_SCRAPY_def)
    show ?thesis using r p pr c
      by (simp add: get_executor_def parse_params_def parse_scrapy_params_def Let_def)
  next
    case False
    then have w: "ba_artifact_type a = ARTIFACT_PYTHON_WHEEL" using f by (simp add: RUNNABLE_ARTIFACT_TYPES_def)
    have vc: "validate_wheel_command (JStr command) = Inr command"
      using c f by (simp add: validate_wheel_command_def)
    have fp: "truthy (obj_get (ba_artifact_metadata a) ''fetch_path'')" using assms(3) False by (simp add: run_ready_def)
    obtain request snapshot descriptor where r: "build_run_request e t None = Inr (request, snapshot)"
        "rq_artifact_type request = ''python_wheel''" "obj_get (rq_params request) ''shell_command'' = JStr command"
        "obj_get (rq_params request) ''artifact'' = JObj descriptor"
        "obj_get descriptor ''fetch_path'' = obj_get (ba_artifact_metadata a) ''fetch_path''"
      using resolve_wheel [of ?a "[]" "template_defaults t" command "Some (et_name t)" "Some (et_id t)"] vc req w c
      by (auto simp: build_run_request_def ARTIFACT_PYTHON_WHEEL_def)
    have "descriptor \<noteq> []" using r(5) fp by auto
    then show ?thesis using r fp c f
      by (simp add: get_executor_def parse_params_def parse_wheel_params_def Let_def)
  qed
qed

definition sample_manifest :: scrapy_manifest where
  "sample_manifest = \<lparr>sm_project = ''shop'', sm_version = ''1'', sm_spiders = [''prices''],
     sm_sha256 = ''ab'', sm_filename = ''shop.egg'', sm_size_bytes = 9\<rparr>"

definition sample_artifact :: build_artifact where
  "sample_artifact = snd (upsert_scrapy empty_db 1 sample_manifest)"

definition sample_body :: obj where
  "sample_body = [(''name'', JStr ''nightly''), (''description'', JNull), (''build_artifact_id'', JStr (ba_id sample_artifact)),
     (''command'', JStr '' scrapy crawl prices''), (''node_strategy'', JStr ''all''), (''node_ids'', JList [])]"

theorem accepted_template_runs_witness:
  "\<exists>d t request snapshot kind params. create_template (empty_db\<lparr>db_artifacts := [sample_artifact]\<rparr>) sample_body 2 = Inr (d, t)
     \<and> build_run_request (empty_db\<lparr>db_artifacts := [archive_artifact 3 sample_artifact]\<rparr>) t None = Inr (request, snapshot)
     \<and> parse_params kind request = Inr params \<and> run_command params = ''scrapy crawl prices''"
proof -
  let ?d = "empty_db\<lparr>db_artifacts := [sample_artifact]\<rparr>"
  let ?e = "empty_db\<lparr>db_artifacts := [archive_artifact 3 sample_artifact]\<rparr>"
  have ok: "case create_template ?d sample_body 2 of Inr (d, t) \<Rightarrow>
      et_build_artifact_id t = Some (ba_id sample_artifact) \<and> et_command t = Some ''scrapy crawl prices'' | Inl _ \<Rightarrow> False"
    by code_simp
  then obtain d t where c: "create_template ?d sample_body 2 = Inr (d, t)"
      and t: "et_build_artifact_id t = Some (ba_id sample_artifact)" "et_command t = Some ''scrapy crawl prices''"
    by (auto split: sum.splits)
  have f: "find_artifact ?d (or_default (et_build_artifact_id t) []) = Some sample_artifact"
    by (simp add: t find_artifact_def find_row_def)
  have r: "run_ready sample_artifact" by code_simp
  have e: "find_artifact ?e (ba_id sample_artifact) = Some (sample_artifact\<lparr>ba_archived_at := Some 3\<rparr>)"
    by code_simp
  from accepted_template_runs [OF disjI1 [OF c] f r e] c t show ?thesis by auto
qed

section \<open>Precedence\<close>

definition given_command :: "obj \<Rightarrow> string" where
  "given_command ov = (if obj_get ov ''command'' = JNull then [] else py_strip (py_str (obj_get ov ''command'')))"

definition given_strategy :: "obj \<Rightarrow> string" where
  "given_strategy ov = (if obj_get ov ''node_strategy'' = JNull then [] else py_str (obj_get ov ''node_strategy''))"

lemma map_of_obj_get: "map_of d k = None \<Longrightarrow> obj_get d k = JNull"
  by (simp add: obj_get_def)

lemma sanitized:
  assumes "sanitize_overrides (Some ov) ty = Inr out"
  shows "obj_get out ''command'' = (if given_command ov = [] then JNull else JStr (given_command ov))"
    and "obj_get out ''node_strategy'' = (if obj_get ov ''node_strategy'' = JNull then JNull else JStr (given_strategy ov))"
    and "map_of out ''node_ids'' = (if obj_get ov ''node_ids'' = JNull then None
      else Some (JList (map (\<lambda>n. JStr (py_str n)) (json_list (obj_get ov ''node_ids'')))))"
    and "map_of ov ''build_artifact_id'' = None"
  using assms
  by (auto simp: sanitize_overrides_def override_command_def override_rest_def given_command_def given_strategy_def
      Let_def split: if_splits sum.splits option.splits)

lemma resolved_command:
  assumes "resolve_run a defaults ov name template_id = Inr (request, snapshot)"
  shows "py_strip (str_of (obj_get (rq_params request) ''command''))
      = py_strip (str_of (or_json (obj_get ov ''command'') (obj_get defaults ''command'')))"
  using assms
  by (auto simp: resolve_run_def Let_def validate_wheel_command_def split: if_splits sum.splits option.splits)

lemma resolved_artifact:
  assumes "resolve_run a defaults ov name template_id = Inr (request, snapshot)"
  shows "rq_artifact_type request = ba_artifact_type a \<and> obj_get snapshot ''build_artifact'' = JObj (artifact_snapshot a)
    \<and> (\<exists>descriptor. obj_get (rq_params request) ''artifact'' = JObj descriptor
        \<and> obj_get descriptor ''sha256'' = jstr (ba_content_hash a)
        \<and> obj_get descriptor ''fetch_path'' = obj_get (ba_artifact_metadata a) ''fetch_path'')"
  using assms by (auto simp: resolve_run_def Let_def split: if_splits sum.splits option.splits)

lemma resolved_nodes:
  assumes "resolve_run a defaults ov name template_id = Inr (request, snapshot)"
  shows "rq_node_strategy request = py_str (or_json (or_json (obj_get ov ''node_strategy'')
      (obj_get defaults ''node_strategy'')) (JStr ''all''))
    \<and> rq_node_ids request = map py_str (json_list (get_or ov ''node_ids'' (obj_get defaults ''node_ids'')))"
  using assms by (auto simp: resolve_run_def Let_def split: if_splits sum.splits option.splits)

lemma map_py_str [simp]: "map py_str (map JStr xs) = xs" "map (py_str \<circ> (\<lambda>n. JStr (py_str n))) ys = map py_str ys"
  by (simp_all add: comp_def)

text \<open>Precedence of a run: an override's command replaces the template's as a whole, its strategy and
  its nodes replace the template's, a blank or missing one leaves them; what runs is always the
  artifact bound to the template, and a payload that tries to change it is refused.
\<close>

theorem override_precedence:
  assumes "build_run_request d t (Some ov) = Inr (request, snapshot)"
  shows "map_of ov ''build_artifact_id'' = None
    \<and> (\<exists>a descriptor. find_artifact d (or_default (et_build_artifact_id t) []) = Some a
        \<and> rq_artifact_type request = ba_artifact_type a
        \<and> obj_get snapshot ''build_artifact'' = JObj (artifact_snapshot a)
        \<and> obj_get (rq_params request) ''artifact'' = JObj descriptor
        \<and> obj_get descriptor ''sha256'' = jstr (ba_content_hash a))
    \<and> py_strip (str_of (obj_get (rq_params request) ''command''))
        = (if given_command ov \<noteq> [] then given_command ov else py_strip (or_default (et_command t) []))
    \<and> rq_node_strategy request = (if given_strategy ov \<noteq> [] then given_strategy ov
        else if et_node_strategy t \<noteq> [] then et_node_strategy t else ''all'')
    \<and> rq_node_ids request = (if obj_get ov ''node_ids'' = JNull then et_node_ids t
        else map py_str (json_list (obj_get ov ''node_ids'')))"
proof -
  obtain a out where a: "require_artifact d (et_build_artifact_id t) = Inr a"
      and out: "sanitize_overrides (Some ov) (ba_artifact_type a) = Inr out"
      and r: "resolve_run a (template_defaults t) out (Some (et_name t)) (Some (et_id t)) = Inr (request, snapshot)"
    using assms by (auto simp: build_run_request_def split: sum.splits)
  have found: "find_artifact d (or_default (et_build_artifact_id t) []) = Some a"
    using a by (auto simp: require_artifact_def Let_def split: if_splits dest: runnable_found)
  note s = sanitized [OF out]
  have "py_strip (str_of (obj_get (rq_params request) ''command''))
      = (if given_command ov \<noteq> [] then given_command ov else py_strip (or_default (et_command t) []))"
    unfolding resolved_command [OF r] s(1)
    by (cases "et_command t") (auto simp: given_command_def str_of_def jstr_def)
  moreover have "rq_node_strategy request = (if given_strategy ov \<noteq> [] then given_strategy ov
        else if et_node_strategy t \<noteq> [] then et_node_strategy t else ''all'')"
    using resolved_nodes [OF r] s(2) by (auto simp: given_strategy_def)
  moreover have "rq_node_ids request = (if obj_get ov ''node_ids'' = JNull then et_node_ids t
        else map py_str (json_list (obj_get ov ''node_ids'')))"
    using resolved_nodes [OF r] s(3) by (simp add: get_or_def json_list_def comp_def)
  ultimately show ?thesis using s(4) found resolved_artifact [OF r] by blast
qed

theorem override_precedence_witness:
  "\<exists>t request snapshot. build_run_request (empty_db\<lparr>db_artifacts := [sample_artifact]\<rparr>) t
       (Some [(''command'', JStr ''scrapy crawl prices -a k=v''), (''node_ids'', JList [JStr ''n1''])]) = Inr (request, snapshot)
     \<and> py_strip (str_of (obj_get (rq_params request) ''command'')) = ''scrapy crawl prices -a k=v''
     \<and> rq_node_ids request = [''n1''] \<and> rq_node_strategy request = ''random''"
proof -
  let ?d = "empty_db\<lparr>db_artifacts := [sample_artifact]\<rparr>"
  let ?t = "\<lparr>et_id = ''t'', et_name = ''nightly'', et_description = JNull, et_build_artifact_id = Some (ba_id sample_artifact),
    et_project = JNull, et_version = JNull, et_command = Some ''scrapy crawl prices'', et_node_strategy = ''random'',
    et_node_ids = [], et_created_at = 0\<rparr>"
  let ?ov = "[(''command'', JStr ''scrapy crawl prices -a k=v''), (''node_ids'', JList [JStr ''n1''])]"
  have "case build_run_request ?d ?t (Some ?ov) of Inr _ \<Rightarrow> True | Inl _ \<Rightarrow> False" by code_simp
  then obtain request snapshot where r: "build_run_request ?d ?t (Some ?ov) = Inr (request, snapshot)"
    by (auto split: sum.splits)
  have g: "given_command ?ov = ''scrapy crawl prices -a k=v''" "given_strategy ?ov = []" by code_simp+
  from override_precedence [OF r] g r show ?thesis
    by (intro exI [of _ ?t] exI [of _ request] exI [of _ snapshot]) (simp add: json_list_def)
qed

end
