(* ===== verification/Outcomes.thy ===== *)
theory Outcomes
  imports Reconcile
begin

text \<open>
  The outcome recorder and the schedule circuit breaker
  (\<^verbatim>\<open>apps/server/dopilot_server/services/outcomes.py\<close>). A terminal task is judged once, its log
  files are sealed, its row of the outcome ledger is upserted, and the schedule's breaker is
  driven by the recomputed run of erroneous outcomes. \<open>notify_safely\<close> is \<open>notify\<close>: its savepoint
  only contains a failing statement.

  \<open>breaker_max_level\<close> is a \<open>while\<close> loop that ends only for usable back-off settings. It is a
  partial function, and every operation that may call it returns an option, \<open>None\<close> when the
  call does not return; the lemmas show that validated settings always give \<open>Some\<close>.
\<close>

section \<open>Back-off\<close>

definition FALLBACK_GRACE_SECONDS :: int where
  "FALLBACK_GRACE_SECONDS = 60"

definition COUNTED_SOURCES :: "task_source set" where
  "COUNTED_SOURCES = {TASK_SOURCE_TIMER, TASK_SOURCE_TRIGGER_NOW}"

definition LEDGER_MIN_KEEP :: int where
  "LEDGER_MIN_KEEP = 100"

fun backoff_loop :: "nat \<Rightarrow> int \<Rightarrow> int \<Rightarrow> int" where
  "backoff_loop 0 delay cap = delay"
| "backoff_loop (Suc n) delay cap =
     (if delay \<ge> cap then delay else backoff_loop n (delay * 2) cap)"

definition breaker_backoff_seconds :: "scheduler_settings \<Rightarrow> int \<Rightarrow> int" where
  "breaker_backoff_seconds sched level =
     (let base = breaker_backoff_base_seconds sched; cap = breaker_backoff_max_seconds sched
      in min (backoff_loop (nat level) base cap) cap)"

partial_function (option) max_level_from :: "scheduler_settings \<Rightarrow> int \<Rightarrow> int option" where
  "max_level_from sched level =
     (if breaker_backoff_seconds sched level < breaker_backoff_max_seconds sched
      then max_level_from sched (level + 1) else Some level)"

definition breaker_max_level :: "scheduler_settings \<Rightarrow> int option" where
  "breaker_max_level sched = max_level_from sched 0"

section \<open>Breaker fields\<close>

definition clear_breaker :: "schedule \<Rightarrow> schedule" where
  "clear_breaker s = s\<lparr>s_breaker_state := BREAKER_CLOSED, s_breaker_level := 0,
     s_breaker_opened_at := None, s_breaker_retry_at := None, s_breaker_escalated_at := None,
     s_breaker_reason := None, s_breaker_artifact_id := None\<rparr>"

definition enter_half_open :: "schedule \<Rightarrow> scheduler_settings \<Rightarrow> instant \<Rightarrow> schedule" where
  "enter_half_open s sched now = s\<lparr>s_breaker_state := BREAKER_HALF_OPEN,
     s_outcome_generation := s_outcome_generation s + 1, s_consecutive_error_count := 0,
     s_breaker_retry_at := Some (now + secs (breaker_backoff_max_seconds sched))\<rparr>"

definition snapshot_artifact_id :: "task \<Rightarrow> string option" where
  "snapshot_artifact_id t =
     (case as_dict (t_template_snapshot t) of None \<Rightarrow> None
      | Some snap \<Rightarrow> (case as_dict (obj_get snap ''build_artifact'') of None \<Rightarrow> None
          | Some artifact \<Rightarrow> json_str (obj_get artifact ''id'')))"

definition row_class :: "ledger_row \<Rightarrow> outcome_class" where
  "row_class g = (case g_outcome_class g of Some c \<Rightarrow> c
     | None \<Rightarrow> if g_erroneous g then OUTCOME_BROKEN else OUTCOME_OK)"

section \<open>Readiness and sealing\<close>

definition candidates :: "db \<Rightarrow> nat \<Rightarrow> string list" where
  "candidates d limit = take limit (map t_id
     (sort_key (\<lambda>t. (t_finished_at t \<noteq> None, or_default (t_finished_at t) 0, t_id t))
       (filter (\<lambda>t. t_status t \<in> TASK_TERMINAL \<and> t_outcome_recorded_at t = None) (db_tasks d))))"

definition task_executions :: "db \<Rightarrow> string \<Rightarrow> execution list" where
  "task_executions d task_id =
     sort_key (\<lambda>x. (x_created_at x, x_id x)) (filter (\<lambda>x. x_task_id x = task_id) (db_executions d))"

definition task_log_files :: "db \<Rightarrow> string \<Rightarrow> log_file list" where
  \<comment> \<open>the locked log files; their order is not used\<close>
  "task_log_files d task_id = filter (\<lambda>lf. lf_task_id lf = task_id) (db_log_files d)"

definition by_exec :: "log_file list \<Rightarrow> string \<rightharpoonup> log_file" where
  \<comment> \<open>\<open>{lf.execution_id: lf for lf in log_files if lf.stream == "log"}\<close>: the last one wins\<close>
  "by_exec lfs k = find (\<lambda>lf. lf_stream lf = Stream_log \<and> lf_execution_id lf = k) (rev lfs)"

definition ready :: "db \<Rightarrow> settings \<Rightarrow> task \<Rightarrow> execution list \<Rightarrow> log_file list \<Rightarrow> instant \<Rightarrow> bool" where
  "ready d cfg t xs lfs now =
     (let finished_at = or_default (t_finished_at t) (t_updated_at t);
          age = now - finished_at;
          grace = lost_outcome_grace_seconds (cfg_scheduler cfg);
          drain = log_drain_timeout_seconds (cfg_logs cfg);
          reclaimed = list_all (\<lambda>x. x_status x = EXEC_LOST \<longrightarrow> reclaim_ever_issued d (x_id x)) xs
      in if t_status t = TASK_LOST \<and> \<not> (reclaimed \<and> age \<ge> secs drain)
            \<and> (grace \<le> 0 \<or> age < secs grace) then False
         else (let drain_fallback = drain + FALLBACK_GRACE_SECONDS;
                   still_open = list_ex (\<lambda>lf. lf_status lf \<in> {LOG_ACTIVE, LOG_FINALIZING}) lfs
               in \<not> (still_open \<and> age < secs drain_fallback)))"

definition seal_row :: "instant \<Rightarrow> log_file \<Rightarrow> log_file" where
  "seal_row now lf =
     (if lf_status lf \<in> {LOG_ACTIVE, LOG_FINALIZING} then
        lf\<lparr>lf_status := LOG_COMPLETE, lf_final_offset := Some (lf_size_bytes lf),
           lf_finished_at := first_some (lf_finished_at lf) (Some now)\<rparr>
      else lf)"

definition seal :: "db \<Rightarrow> string \<Rightarrow> instant \<Rightarrow> db" where
  "seal d task_id now = d\<lparr>db_log_files := map (\<lambda>lf. if lf_task_id lf = task_id
      then seal_row now lf else lf) (db_log_files d)\<rparr>"

section \<open>The ledger\<close>

fun count_consecutive :: "ledger_row list \<Rightarrow> nat" where
  "count_consecutive [] = 0"
| "count_consecutive (g # gs) = (if \<not> g_erroneous g then 0 else Suc (count_consecutive gs))"

definition newest_ledger :: "ledger_row list \<Rightarrow> ledger_row list" where
  \<comment> \<open>\<open>ORDER BY finished_at DESC, id DESC\<close>\<close>
  "newest_ledger gs = rev (sort_key (\<lambda>g. (g_finished_at g, g_id g)) gs)"

definition upsert_ledger ::
    "db \<Rightarrow> string \<Rightarrow> string \<Rightarrow> int \<Rightarrow> instant \<Rightarrow> bool \<Rightarrow> outcome_class \<Rightarrow> instant \<Rightarrow> db" where
  "upsert_ledger d schedule_id task_id generation finished_at erroneous cls now =
     (case find (\<lambda>g. g_task_id g = task_id) (db_ledger d) of
        None \<Rightarrow> (let (k, d) = new_id d in
          d\<lparr>db_ledger := db_ledger d @ [\<lparr>g_id = k, g_schedule_id = schedule_id, g_task_id = task_id,
              g_generation = generation, g_finished_at = finished_at, g_erroneous = erroneous,
              g_outcome_class = Some cls, g_recorded_at = now\<rparr>]\<rparr>)
      | Some _ \<Rightarrow> d\<lparr>db_ledger := map (\<lambda>g. if g_task_id g = task_id
            then g\<lparr>g_erroneous := erroneous, g_outcome_class := Some cls, g_finished_at := finished_at,
                   g_generation := generation, g_recorded_at := now\<rparr> else g) (db_ledger d)\<rparr>)"

definition ledger_of :: "db \<Rightarrow> string \<Rightarrow> ledger_row list" where
  "ledger_of d schedule_id = filter (\<lambda>g. g_schedule_id g = schedule_id) (db_ledger d)"

definition trim_ledger :: "db \<Rightarrow> string \<Rightarrow> int \<Rightarrow> db" where
  "trim_ledger d schedule_id keep_rows =
     (let ids = map g_id (drop (nat keep_rows) (newest_ledger (ledger_of d schedule_id)))
      in d\<lparr>db_ledger := filter (\<lambda>g. g_id g \<notin> set ids) (db_ledger d)\<rparr>)"

section \<open>Driving the breaker\<close>

definition TYPE_SCHEDULE_BREAKER_OPEN :: string where
  "TYPE_SCHEDULE_BREAKER_OPEN = ''schedule_breaker_open''"
definition TYPE_SCHEDULE_BREAKER_HELD :: string where
  "TYPE_SCHEDULE_BREAKER_HELD = ''schedule_breaker_held''"
definition TYPE_SCHEDULE_BREAKER_CLOSED :: string where
  "TYPE_SCHEDULE_BREAKER_CLOSED = ''schedule_breaker_closed''"

definition breaker_payload :: "schedule \<Rightarrow> nat \<Rightarrow> int \<Rightarrow> obj" where
  \<comment> \<open>the four fields the breaker notifications share\<close>
  "breaker_payload s consecutive threshold =
     [(''schedule_id'', JStr (s_id s)), (''schedule_name'', JStr (s_name s)),
      (''consecutive_errors'', JInt (int consecutive)), (''threshold'', JInt threshold)]"

definition enter_open ::
    "db \<Rightarrow> scheduler_settings \<Rightarrow> schedule \<Rightarrow> obj \<Rightarrow> nat \<Rightarrow> int \<Rightarrow> instant \<Rightarrow> db \<times> schedule" where
  "enter_open d sched s reason consecutive threshold now =
     (let s = s\<lparr>s_breaker_state := BREAKER_OPEN, s_breaker_reason := Some reason,
            s_breaker_artifact_id := None,
            s_breaker_retry_at := Some (now + secs (breaker_backoff_seconds sched (s_breaker_level s)))\<rparr>
      in (fst (notify d now TYPE_SCHEDULE_BREAKER_OPEN SEVERITY_WARNING
            (breaker_payload s consecutive threshold
             @ [(''retry_at'', iso (s_breaker_retry_at s)), (''escalated'', JBool False)])
            (Some (s_id s))), s))"

definition enter_held ::
    "db \<Rightarrow> schedule \<Rightarrow> task \<Rightarrow> obj \<Rightarrow> nat \<Rightarrow> int \<Rightarrow> instant \<Rightarrow> db \<times> schedule" where
  "enter_held d s t reason consecutive threshold now =
     (let s = s\<lparr>s_breaker_state := BREAKER_HELD, s_breaker_reason := Some reason,
            s_breaker_retry_at := None, s_breaker_artifact_id := snapshot_artifact_id t\<rparr>
      in (fst (notify d now TYPE_SCHEDULE_BREAKER_HELD SEVERITY_ERROR
            (breaker_payload s consecutive threshold) (Some (s_id s))), s))"

definition close_breaker :: "db \<Rightarrow> schedule \<Rightarrow> instant \<Rightarrow> db \<times> schedule" where
  "close_breaker d s now =
     (let opened_at = s_breaker_opened_at s; s = clear_breaker s
      in (fst (notify d now TYPE_SCHEDULE_BREAKER_CLOSED SEVERITY_INFO
            [(''schedule_id'', JStr (s_id s)), (''schedule_name'', JStr (s_name s)),
             (''opened_at'', iso opened_at)] (Some (s_id s))), s))"

definition maybe_escalate ::
    "db \<Rightarrow> scheduler_settings \<Rightarrow> schedule \<Rightarrow> nat \<Rightarrow> int \<Rightarrow> instant \<Rightarrow> db \<times> schedule" where
  "maybe_escalate d sched s consecutive threshold now =
     (let after = breaker_escalate_after_seconds sched
      in if after \<le> 0 \<or> s_breaker_escalated_at s \<noteq> None then (d, s)
         else (case s_breaker_opened_at s of None \<Rightarrow> (d, s)
           | Some opened_at \<Rightarrow>
               if now - opened_at < secs after then (d, s)
               else (let s = s\<lparr>s_breaker_escalated_at := Some now\<rparr>
                     in (fst (notify d now TYPE_SCHEDULE_BREAKER_OPEN SEVERITY_ERROR
                           (breaker_payload s consecutive threshold
                            @ [(''retry_at'', iso (s_breaker_retry_at s)), (''escalated'', JBool True)])
                           (Some (s_id s))), s))))"

definition last_error :: "task \<Rightarrow> outcome_class \<Rightarrow> instant \<Rightarrow> json" where
  "last_error t cls finished_at =
     JObj [(''task_id'', JStr (t_id t)), (''status'', JStr (task_status_value (t_status t))),
       (''outcome_class'', JStr (outcome_class_value cls)), (''finished_at'', JStr (isoformat finished_at))]"

definition drive_breaker ::
    "db \<Rightarrow> scheduler_settings \<Rightarrow> schedule \<Rightarrow> task \<Rightarrow> ledger_row list \<Rightarrow> nat \<Rightarrow> int \<Rightarrow> bool
      \<Rightarrow> outcome_class \<Rightarrow> instant \<Rightarrow> instant \<Rightarrow> (db \<times> schedule \<times> string option) option" where
  "drive_breaker d sched s t rows consecutive threshold is_current cls finished_at now =
     (if \<not> is_current then Some (d, s, None)
      else (case s_breaker_state s of
        BREAKER_CLOSED \<Rightarrow>
          if threshold > 0 \<and> int consecutive \<ge> threshold \<and> s_enabled s then
            (let streak = take consecutive rows;
                 all_broken = list_all (\<lambda>g. row_class g = OUTCOME_BROKEN) streak;
                 reason = [(''kind'', JStr (outcome_class_value
                              (if all_broken then OUTCOME_BROKEN else OUTCOME_TRANSIENT))),
                           (''trigger'', JStr ''threshold''),
                           (''consecutive_errors'', JInt (int consecutive)),
                           (''threshold'', JInt threshold),
                           (''task_ids'', JList (take (nat threshold) (map (\<lambda>g. JStr (g_task_id g)) streak))),
                           (''last_error'', last_error t cls finished_at)];
                 s = s\<lparr>s_breaker_opened_at := Some now, s_breaker_escalated_at := None\<rparr>;
                 (d, s) = (if all_broken then enter_held d s t reason consecutive threshold now
                   else enter_open d sched (s\<lparr>s_breaker_level := 0\<rparr>) reason consecutive threshold now)
             in Some (d, s, Some (s_id s)))
          else Some (d, s, None)
      | state \<Rightarrow>
          if cls = OUTCOME_OK then (let (d, s) = close_breaker d s now in Some (d, s, None))
          else if state \<noteq> BREAKER_HALF_OPEN then Some (d, s, None)
          else (let reason = [(''kind'', JStr (outcome_class_value cls)), (''trigger'', JStr ''probe''),
                     (''consecutive_errors'', JInt (int consecutive)), (''threshold'', JInt threshold),
                     (''last_error'', last_error t cls finished_at)]
            in if cls = OUTCOME_BROKEN then
                 (let (d, s) = enter_held d s t reason consecutive threshold now in Some (d, s, None))
               else if cls = OUTCOME_TRANSIENT then
                 (case breaker_max_level sched of None \<Rightarrow> None
                  | Some highest \<Rightarrow>
                    (let level = min (s_breaker_level s + 1) highest;
                         s = s\<lparr>s_breaker_level := level, s_breaker_state := BREAKER_OPEN,
                             s_breaker_reason := Some reason,
                             s_breaker_retry_at := Some (now + secs (breaker_backoff_seconds sched level))\<rparr>;
                         (d, s) = maybe_escalate d sched s consecutive threshold now
                     in Some (d, s, None)))
               else Some (d, s\<lparr>s_breaker_state := BREAKER_OPEN, s_breaker_retry_at := Some now\<rparr>, None))))"

section \<open>Recording\<close>

definition ledger_db ::
    "db \<Rightarrow> settings \<Rightarrow> schedule \<Rightarrow> task \<Rightarrow> bool \<Rightarrow> outcome_class \<Rightarrow> instant \<Rightarrow> db" where
  \<comment> \<open>the upsert and the self-trim of \<open>_record_ledger\<close>\<close>
  "ledger_db d cfg s t erroneous cls now =
     trim_ledger (upsert_ledger d (s_id s) (t_id t) (or_default (t_schedule_generation t) 0)
         (or_default (t_finished_at t) now) erroneous cls now) (s_id s)
       (max LEDGER_MIN_KEEP (2 * max 0 (auto_disable_after_errors (cfg_scheduler cfg))))"

definition current_run :: "db \<Rightarrow> schedule \<Rightarrow> ledger_row list" where
  \<comment> \<open>the ledger rows of the schedule's current generation, newest first\<close>
  "current_run d s =
     newest_ledger (filter (\<lambda>g. g_generation g = s_outcome_generation s) (ledger_of d (s_id s)))"

definition record_ledger ::
    "db \<Rightarrow> settings \<Rightarrow> task \<Rightarrow> bool \<Rightarrow> outcome_class \<Rightarrow> instant \<Rightarrow> (db \<times> string option) option" where
  "record_ledger d cfg t erroneous cls now =
     (case Option.bind (t_schedule_id t) (find_schedule d) of
        None \<Rightarrow> Some (d, None)
      | Some s \<Rightarrow>
         (let d = ledger_db d cfg s t erroneous cls now;
              rows = current_run d s;
              consecutive = count_consecutive rows
          in map_option (\<lambda>(d, s, tripped). (save_schedule d s, tripped))
               (drive_breaker d (cfg_scheduler cfg) (s\<lparr>s_consecutive_error_count := int consecutive\<rparr>) t
                  rows consecutive (auto_disable_after_errors (cfg_scheduler cfg))
                  (or_default (t_schedule_generation t) 0 = s_outcome_generation s) cls
                  (or_default (t_finished_at t) now) now)))"

definition stamp_outcome :: "task \<Rightarrow> bool \<Rightarrow> instant \<Rightarrow> task" where
  "stamp_outcome t erroneous now =
     t\<lparr>t_outcome_erroneous := Some erroneous, t_outcome_recorded_at := Some now\<rparr>"

definition record_one :: "settings \<Rightarrow> instant \<Rightarrow> string \<Rightarrow> db \<times> string list \<Rightarrow> (db \<times> string list) option" where
  \<comment> \<open>the loop body of \<open>record_task_outcomes\<close>\<close>
  "record_one cfg now task_id = (\<lambda>(d, tripped).
     case find_task d task_id of None \<Rightarrow> Some (d, tripped)
     | Some t \<Rightarrow>
        (let xs = task_executions d task_id in
         if t_status t \<notin> TASK_TERMINAL \<or> t_outcome_recorded_at t \<noteq> None
            \<or> \<not> ready d cfg t xs (task_log_files d task_id) now then Some (d, tripped)
         else (let d = seal d task_id now;
                   files = by_exec (task_log_files d task_id);
                   cap = max_file_bytes (cfg_logs cfg);
                   erroneous = task_is_erroneous t xs files cap;
                   t = stamp_outcome t erroneous now;
                   d = save_task d t
               in if truthy_str (t_schedule_id t) \<and> t_source t \<in> COUNTED_SOURCES then
                    map_option (\<lambda>(d, sid). (d, case sid of None \<Rightarrow> tripped | Some k \<Rightarrow> tripped @ [k]))
                      (record_ledger d cfg t erroneous (task_outcome_class t xs files cap) now)
                  else Some (d, tripped))))"

fun record_all :: "settings \<Rightarrow> instant \<Rightarrow> string list \<Rightarrow> db \<times> string list \<Rightarrow> (db \<times> string list) option" where
  "record_all cfg now [] st = Some st"
| "record_all cfg now (k # ks) st = Option.bind (record_one cfg now k st) (record_all cfg now ks)"

definition record_task_outcomes :: "db \<Rightarrow> settings \<Rightarrow> instant \<Rightarrow> nat \<Rightarrow> (db \<times> string list) option" where
  "record_task_outcomes d cfg now limit = record_all cfg now (candidates d limit) (d, [])"

definition current_template_artifact_id :: "db \<Rightarrow> schedule \<Rightarrow> string option" where
  "current_template_artifact_id d s =
     (case find (\<lambda>e. et_id e = s_execution_template_id s) (db_templates d) of
        None \<Rightarrow> None | Some e \<Rightarrow> et_build_artifact_id e)"

section \<open>Facts: back-off\<close>

definition usable :: "scheduler_settings \<Rightarrow> bool" where
  \<comment> \<open>what \<open>validate_breaker\<close> leaves\<close>
  "usable sched \<longleftrightarrow> breaker_backoff_base_seconds sched \<ge> 1
     \<and> breaker_backoff_max_seconds sched \<ge> breaker_backoff_base_seconds sched"

lemma validated_usable: "validate_breaker sched = None \<Longrightarrow> usable sched"
  by (simp add: validate_breaker_def usable_def split: if_splits)

lemma backoff_loop_min: "delay \<ge> 0 \<Longrightarrow> min (backoff_loop n delay cap) cap = min (delay * 2 ^ n) cap"
proof (induction n arbitrary: delay)
  case (Suc n)
  show ?case
  proof (cases "delay \<ge> cap")
    case True
    have "delay * 1 \<le> delay * 2 ^ Suc n" using Suc.prems by (intro mult_left_mono one_le_power) simp_all
    with True show ?thesis by simp
  next
    case False
    with Suc.IH [of "delay * 2"] Suc.prems show ?thesis by (simp add: mult.assoc)
  qed
qed simp

lemma backoff_closed:
  "usable sched \<Longrightarrow> breaker_backoff_seconds sched level =
     min (breaker_backoff_base_seconds sched * 2 ^ nat level) (breaker_backoff_max_seconds sched)"
  by (simp add: breaker_backoff_seconds_def usable_def backoff_loop_min)

lemma backoff_reaches_cap:
  assumes "usable sched"
  shows "breaker_backoff_seconds sched (breaker_backoff_max_seconds sched) = breaker_backoff_max_seconds sched"
proof -
  let ?b = "breaker_backoff_base_seconds sched" and ?c = "breaker_backoff_max_seconds sched"
  have b: "?b \<ge> 1" and c: "?c \<ge> 1" using assms by (auto simp: usable_def)
  have "int (nat ?c) \<le> int (2 ^ nat ?c)" by (simp only: zle_int less_imp_le [OF less_exp])
  then have "?c \<le> 1 * 2 ^ nat ?c" using c by simp
  also have "\<dots> \<le> ?b * 2 ^ nat ?c" using b by (intro mult_right_mono) simp_all
  finally show ?thesis using assms by (simp add: backoff_closed)
qed

lemma max_level_from_Some:
  assumes "usable sched" and "0 \<le> level" and "level \<le> breaker_backoff_max_seconds sched"
  shows "\<exists>l \<ge> level. max_level_from sched level = Some l
    \<and> breaker_backoff_seconds sched l = breaker_backoff_max_seconds sched
    \<and> (\<forall>k. level \<le> k \<and> k < l \<longrightarrow> breaker_backoff_seconds sched k < breaker_backoff_max_seconds sched)"
  using assms(2,3)
proof (induction "nat (breaker_backoff_max_seconds sched - level)" arbitrary: level)
  case 0
  then have "level = breaker_backoff_max_seconds sched" by simp
  with backoff_reaches_cap [OF assms(1)] show ?case
    by (intro exI [of _ level]) (simp add: max_level_from.simps)
next
  case (Suc n)
  have le: "breaker_backoff_seconds sched level \<le> breaker_backoff_max_seconds sched"
    by (simp add: breaker_backoff_seconds_def Let_def)
  show ?case
  proof (cases "breaker_backoff_seconds sched level < breaker_backoff_max_seconds sched")
    case True
    from Suc.hyps(2) have "n = nat (breaker_backoff_max_seconds sched - (level + 1))"
      and "level + 1 \<le> breaker_backoff_max_seconds sched" by simp_all
    with Suc.hyps(1) [of "level + 1"] Suc.prems obtain l where l: "l \<ge> level + 1"
      "max_level_from sched (level + 1) = Some l"
      "breaker_backoff_seconds sched l = breaker_backoff_max_seconds sched"
      "\<forall>k. level + 1 \<le> k \<and> k < l \<longrightarrow> breaker_backoff_seconds sched k < breaker_backoff_max_seconds sched"
      by auto
    have "\<forall>k. level \<le> k \<and> k < l \<longrightarrow> breaker_backoff_seconds sched k < breaker_backoff_max_seconds sched"
      using l(4) True by (metis le_less zless_imp_add1_zle)
    with l True show ?thesis
      by (intro exI [of _ l]) (simp add: max_level_from.simps [of sched level])
  next
    case False
    with le show ?thesis by (intro exI [of _ level]) (simp add: max_level_from.simps)
  qed
qed

lemma breaker_max_level_Some:
  assumes "usable sched"
  obtains l where "breaker_max_level sched = Some l" "l \<ge> 0"
    "breaker_backoff_seconds sched l = breaker_backoff_max_seconds sched"
    "\<And>k. 0 \<le> k \<Longrightarrow> k < l \<Longrightarrow> breaker_backoff_seconds sched k < breaker_backoff_max_seconds sched"
  using max_level_from_Some [OF assms, of 0] assms
  by (auto simp: breaker_max_level_def usable_def)

section \<open>Facts: the breaker writes only its own fields\<close>

definition breaker_only :: "schedule \<Rightarrow> schedule \<Rightarrow> bool" where
  \<comment> \<open>everything a person configures, and the generation, is the same\<close>
  "breaker_only s s' \<longleftrightarrow> s_id s' = s_id s \<and> s_name s' = s_name s \<and> s_enabled s' = s_enabled s
     \<and> s_max_concurrency s' = s_max_concurrency s
     \<and> s_execution_template_id s' = s_execution_template_id s
     \<and> s_outcome_generation s' = s_outcome_generation s
     \<and> s_consecutive_error_count s' = s_consecutive_error_count s"

lemmas breaker_defs = enter_open_def enter_held_def close_breaker_def maybe_escalate_def
  clear_breaker_def breaker_only_def Let_def

lemma drive_breaker_only:
  assumes "drive_breaker d sched s t rows n th cur cls fin now = Some (d', s', r)"
  shows "breaker_only s s'"
  using assms
  by (auto simp: drive_breaker_def breaker_defs split: if_splits breaker_state.splits option.splits)

lemma drive_breaker_frame:
  assumes "drive_breaker d sched s t rows n th cur cls fin now = Some (d', s', r)"
  shows "db_tasks d' = db_tasks d \<and> db_executions d' = db_executions d \<and> db_schedules d' = db_schedules d
    \<and> db_ledger d' = db_ledger d \<and> db_outbox d' = db_outbox d \<and> db_log_files d' = db_log_files d"
  using assms
  by (auto simp: drive_breaker_def breaker_defs split: if_splits breaker_state.splits option.splits)

lemma drive_breaker_returns:
  "usable sched \<Longrightarrow> drive_breaker d sched s t rows n th cur cls fin now \<noteq> None"
  by (erule breaker_max_level_Some)
    (auto simp: drive_breaker_def Let_def split: breaker_state.splits prod.splits)

section \<open>Facts: recording\<close>

lemma upsert_ledger_frame [simp]:
  "db_tasks (upsert_ledger d a b g f e c now) = db_tasks d"
  "db_executions (upsert_ledger d a b g f e c now) = db_executions d"
  "db_schedules (upsert_ledger d a b g f e c now) = db_schedules d"
  "db_outbox (upsert_ledger d a b g f e c now) = db_outbox d"
  "db_log_files (upsert_ledger d a b g f e c now) = db_log_files d"
  by (simp_all add: upsert_ledger_def new_id_def split: option.splits)

lemma trim_ledger_frame [simp]:
  "db_tasks (trim_ledger d k n) = db_tasks d" "db_executions (trim_ledger d k n) = db_executions d"
  "db_schedules (trim_ledger d k n) = db_schedules d" "db_outbox (trim_ledger d k n) = db_outbox d"
  "db_log_files (trim_ledger d k n) = db_log_files d"
  by (simp_all add: trim_ledger_def Let_def)

lemma seal_frame [simp]:
  "db_tasks (seal d k now) = db_tasks d" "db_executions (seal d k now) = db_executions d"
  "db_schedules (seal d k now) = db_schedules d" "db_outbox (seal d k now) = db_outbox d"
  by (simp_all add: seal_def)

definition only_counters :: "schedule \<Rightarrow> schedule \<Rightarrow> bool" where
  \<comment> \<open>as \<open>breaker_only\<close>, but the derived error count may change\<close>
  "only_counters s s' \<longleftrightarrow> s_id s' = s_id s \<and> s_name s' = s_name s \<and> s_enabled s' = s_enabled s
     \<and> s_max_concurrency s' = s_max_concurrency s
     \<and> s_execution_template_id s' = s_execution_template_id s
     \<and> s_outcome_generation s' = s_outcome_generation s"

lemma only_counters_refl [simp]: "only_counters s s"
  by (simp add: only_counters_def)

lemma only_counters_trans: "only_counters a b \<Longrightarrow> only_counters b c \<Longrightarrow> only_counters a c"
  by (simp add: only_counters_def)

definition keeps_schedules :: "db \<Rightarrow> db \<Rightarrow> bool" where
  "keeps_schedules d d' \<longleftrightarrow>
     (\<forall>k s. find_schedule d k = Some s \<longrightarrow> (\<exists>s'. find_schedule d' k = Some s' \<and> only_counters s s'))"

lemma keeps_schedules_same: "db_schedules d' = db_schedules d \<Longrightarrow> keeps_schedules d d'"
  by (simp add: keeps_schedules_def find_schedule_def)

lemma keeps_schedules_trans: "keeps_schedules d e \<Longrightarrow> keeps_schedules e f \<Longrightarrow> keeps_schedules d f"
  unfolding keeps_schedules_def by (meson only_counters_trans)

lemma ledger_db_frame [simp]:
  "db_tasks (ledger_db d cfg s t e c now) = db_tasks d"
  "db_executions (ledger_db d cfg s t e c now) = db_executions d"
  "db_schedules (ledger_db d cfg s t e c now) = db_schedules d"
  "db_outbox (ledger_db d cfg s t e c now) = db_outbox d"
  "db_log_files (ledger_db d cfg s t e c now) = db_log_files d"
  by (simp_all add: ledger_db_def)

lemma stamp_outcome_frame [simp]:
  "t_id (stamp_outcome t e now) = t_id t" "t_status (stamp_outcome t e now) = t_status t"
  "t_outcome_recorded_at (stamp_outcome t e now) = Some now"
  "t_schedule_id (stamp_outcome t e now) = t_schedule_id t"
  by (simp_all add: stamp_outcome_def)

lemma record_ledger_cases:
  assumes "record_ledger d cfg t e cls now = Some (d', r)"
  obtains "d' = d" "r = None"
  | k s d2 s2 where "t_schedule_id t = Some k" "find_schedule d k = Some s"
      "drive_breaker (ledger_db d cfg s t e cls now) (cfg_scheduler cfg)
         (s\<lparr>s_consecutive_error_count := int (count_consecutive (current_run (ledger_db d cfg s t e cls now) s))\<rparr>) t
         (current_run (ledger_db d cfg s t e cls now) s)
         (count_consecutive (current_run (ledger_db d cfg s t e cls now) s))
         (auto_disable_after_errors (cfg_scheduler cfg))
         (or_default (t_schedule_generation t) 0 = s_outcome_generation s) cls
         (or_default (t_finished_at t) now) now = Some (d2, s2, r)"
      "d' = save_schedule d2 s2"
proof (cases "Option.bind (t_schedule_id t) (find_schedule d)")
  case None
  with assms show thesis by (intro that(1)) (simp_all add: record_ledger_def)
next
  case (Some s)
  then obtain k where "t_schedule_id t = Some k" "find_schedule d k = Some s"
    by (auto simp: bind_eq_Some_conv)
  with assms Some show thesis
    by (auto simp: record_ledger_def Let_def intro: that(2))
qed

lemma record_ledger_effect:
  assumes "record_ledger d cfg t e cls now = Some (d', r)"
  shows "db_tasks d' = db_tasks d \<and> db_executions d' = db_executions d \<and> db_outbox d' = db_outbox d
    \<and> keeps_schedules d d'"
  using assms
proof (cases rule: record_ledger_cases)
  case 1
  then show ?thesis by (simp add: keeps_schedules_same)
next
  case (2 k s d2 s2)
  note fr = drive_breaker_frame [OF 2(3)]
  have "only_counters s s2"
    using drive_breaker_only [OF 2(3)] by (simp add: breaker_only_def only_counters_def)
  moreover have "s_id s = k" using 2(2) by (rule schedules.lookup_key)
  moreover have "find_schedule d2 i = find_schedule d i" for i
    using fr by (simp add: find_schedule_def)
  ultimately have "keeps_schedules d (save_schedule d2 s2)"
    using 2(2) by (auto simp: keeps_schedules_def schedules.lookup_update only_counters_def)
  with fr 2(4) show ?thesis by simp
qed

lemma record_one_cases:
  assumes "record_one cfg now k (d, tr) = Some (d', tr')"
  obtains "d' = d" "tr' = tr"
  | t e where "find_task d k = Some t" "t_status t \<in> TASK_TERMINAL" "t_outcome_recorded_at t = None"
      "d' = save_task (seal d k now) (stamp_outcome t e now)" "tr' = tr"
  | t e cls r where "find_task d k = Some t" "t_status t \<in> TASK_TERMINAL" "t_outcome_recorded_at t = None"
      "record_ledger (save_task (seal d k now) (stamp_outcome t e now)) cfg (stamp_outcome t e now) e cls now
        = Some (d', r)"
proof (cases "find_task d k")
  case None
  with assms show thesis by (intro that(1)) (simp_all add: record_one_def)
next
  case (Some t)
  show thesis
  proof (cases "t_status t \<notin> TASK_TERMINAL \<or> t_outcome_recorded_at t \<noteq> None
      \<or> \<not> ready d cfg t (task_executions d k) (task_log_files d k) now")
    case True
    with assms Some show thesis by (intro that(1)) (simp_all add: record_one_def)
  next
    case False
    with assms Some show thesis
      by (auto simp: record_one_def Let_def split: if_splits intro: that(2) that(3))
  qed
qed

lemma record_one_effect:
  assumes "record_one cfg now k (d, tr) = Some (d', tr')"
  shows "moves d d' \<and> db_executions d' = db_executions d \<and> db_outbox d' = db_outbox d
    \<and> keeps_schedules d d'
    \<and> map_option t_status (find_task d' i) = map_option t_status (find_task d i)"
proof -
  have stamped: "moves d d1 \<and> keeps_schedules d d1 \<and> db_executions d1 = db_executions d
      \<and> db_outbox d1 = db_outbox d \<and> map_option t_status (find_task d1 i) = map_option t_status (find_task d i)"
    if t: "find_task d k = Some t" and d1: "d1 = save_task (seal d k now) (stamp_outcome t e now)" for t e d1
  proof -
    have tk: "t_id t = k" using t by (rule find_task_key)
    have f: "find_task (seal d k now) i = find_task d i" for i by (simp add: find_task_def)
    have "moves d (seal d k now)" by (rule moves_same_tables) simp_all
    moreover have "moves (seal d k now) d1"
      unfolding d1 using t tk by (intro moves_save_task [where ?t0.0 = t]) (simp_all add: f)
    ultimately have "moves d d1" by (rule moves_trans)
    moreover have "keeps_schedules d d1" by (rule keeps_schedules_same) (simp add: d1)
    ultimately show ?thesis
      using t tk by (auto simp: d1 tasks.lookup_update f)
  qed
  from assms show ?thesis
  proof (cases rule: record_one_cases)
    case 1
    then show ?thesis by (simp add: keeps_schedules_same)
  next
    case (2 t e)
    from stamped [OF 2(1) 2(4)] show ?thesis by blast
  next
    case (3 t e cls r)
    note re = record_ledger_effect [OF 3(4)]
    then have "moves (save_task (seal d k now) (stamp_outcome t e now)) d'"
      by (intro moves_same_tables) simp_all
    with re stamped [OF 3(1) refl, of e] show ?thesis
      by (auto intro: moves_trans keeps_schedules_trans simp: find_task_def)
  qed
qed

lemma record_all_effect:
  "record_all cfg now ks (d, tr) = Some (d', tr') \<Longrightarrow>
    moves d d' \<and> db_executions d' = db_executions d \<and> db_outbox d' = db_outbox d \<and> keeps_schedules d d'
    \<and> map_option t_status (find_task d' i) = map_option t_status (find_task d i)"
proof (induction ks arbitrary: d tr)
  case Nil
  then show ?case by (simp add: keeps_schedules_same)
next
  case (Cons k ks)
  then obtain d1 tr1 where 1: "record_one cfg now k (d, tr) = Some (d1, tr1)"
    and 2: "record_all cfg now ks (d1, tr1) = Some (d', tr')"
    by (auto simp: bind_eq_Some_conv)
  from record_one_effect [OF 1, of i] Cons.IH [OF 2] show ?case
    by (auto intro: moves_trans keeps_schedules_trans)
qed

lemma record_ledger_returns:
  "usable (cfg_scheduler cfg) \<Longrightarrow> record_ledger d cfg t e cls now \<noteq> None"
  by (cases "Option.bind (t_schedule_id t) (find_schedule d)")
    (simp_all add: record_ledger_def Let_def drive_breaker_returns del: not_None_eq)

lemma record_one_returns:
  assumes "usable (cfg_scheduler cfg)"
  shows "record_one cfg now k (d, tr) \<noteq> None"
  using record_ledger_returns [OF assms]
  by (simp add: record_one_def Let_def option.case_eq_if del: not_None_eq)

lemma record_all_returns: "usable (cfg_scheduler cfg) \<Longrightarrow> record_all cfg now ks st \<noteq> None"
proof (induction ks arbitrary: st)
  case (Cons k ks)
  obtain st' where "record_one cfg now k st = Some st'"
    using record_one_returns [OF Cons.prems, of now k "fst st" "snd st"] by auto
  with Cons.IH [OF Cons.prems] show ?case by simp
qed simp

section \<open>Facts: the ledger\<close>

lemma distinct_subset_filter:
  assumes "distinct (map f xs)" and "set vs \<subseteq> f ` set xs" and "distinct vs"
  shows "length (filter (\<lambda>x. f x \<notin> set vs) xs) + length vs = length xs"
  using assms by (rule distinct_filter_length)

lemma newest_ledger_set [simp]: "set (newest_ledger gs) = set gs"
  and newest_ledger_length [simp]: "length (newest_ledger gs) = length gs"
  by (simp_all add: newest_ledger_def)

lemma trim_ledger_bound:
  assumes "distinct (map g_id (db_ledger d))" and "n \<ge> 0"
  shows "int (length (ledger_of (trim_ledger d k n) k)) \<le> n"
proof -
  let ?gs = "ledger_of d k"
  let ?vs = "map g_id (drop (nat n) (newest_ledger ?gs))"
  have d: "distinct (map g_id ?gs)"
    using assms(1) by (simp add: ledger_of_def distinct_map_filter)
  then have "distinct (map g_id (newest_ledger ?gs))"
    by (simp add: newest_ledger_def distinct_map)
  then have "distinct ?vs" by (metis distinct_drop drop_map)
  moreover have "set ?vs \<subseteq> g_id ` set ?gs"
    using set_drop_subset [of "nat n" "newest_ledger ?gs"] by auto
  ultimately have "length (filter (\<lambda>g. g_id g \<notin> set ?vs) ?gs) + length ?vs = length ?gs"
    by (intro distinct_subset_filter d)
  moreover have "ledger_of (trim_ledger d k n) k = filter (\<lambda>g. g_id g \<notin> set ?vs) ?gs"
    by (simp add: trim_ledger_def ledger_of_def Let_def conj_commute)
  moreover have "length ?vs = length ?gs - nat n" by simp
  ultimately have "length (ledger_of (trim_ledger d k n) k) + (length ?gs - nat n) = length ?gs"
    by simp
  then have "length (ledger_of (trim_ledger d k n) k) \<le> nat n" by arith
  then show ?thesis using assms(2) by (simp add: le_nat_iff)
qed

section \<open>Properties\<close>

text \<open>Back-off under validated settings: it is exactly \<open>min (base * 2^level) max\<close>, never below the
  base, and \<open>breaker_max_level\<close> terminates with the first level that reaches the maximum.
\<close>

theorem backoff_is_capped_exponential:
  assumes "validate_breaker sched = None"
  shows "(\<forall>level. breaker_backoff_seconds sched level
        = min (breaker_backoff_base_seconds sched * 2 ^ nat level) (breaker_backoff_max_seconds sched)
      \<and> breaker_backoff_base_seconds sched \<le> breaker_backoff_seconds sched level)
    \<and> (\<exists>l \<ge> 0. breaker_max_level sched = Some l
      \<and> breaker_backoff_seconds sched l = breaker_backoff_max_seconds sched
      \<and> (\<forall>k. 0 \<le> k \<and> k < l \<longrightarrow> breaker_backoff_seconds sched k < breaker_backoff_max_seconds sched))"
proof (intro conjI allI)
  fix level
  have u: "usable sched" using assms by (rule validated_usable)
  show f: "breaker_backoff_seconds sched level
        = min (breaker_backoff_base_seconds sched * 2 ^ nat level) (breaker_backoff_max_seconds sched)"
    by (rule backoff_closed [OF u])
  have "breaker_backoff_base_seconds sched * 1 \<le> breaker_backoff_base_seconds sched * 2 ^ nat level"
    using u by (intro mult_left_mono one_le_power) (simp_all add: usable_def)
  with u show "breaker_backoff_base_seconds sched \<le> breaker_backoff_seconds sched level"
    by (simp add: f usable_def)
next
  show "\<exists>l \<ge> 0. breaker_max_level sched = Some l
      \<and> breaker_backoff_seconds sched l = breaker_backoff_max_seconds sched
      \<and> (\<forall>k. 0 \<le> k \<and> k < l \<longrightarrow> breaker_backoff_seconds sched k < breaker_backoff_max_seconds sched)"
    by (rule breaker_max_level_Some [OF validated_usable [OF assms]]) blast
qed

theorem backoff_is_capped_exponential_witness:
  "breaker_backoff_seconds default_scheduler 2 = 3600 \<and> (\<exists>l. breaker_max_level default_scheduler = Some l)"
proof -
  have v: "validate_breaker default_scheduler = None"
    by (simp add: validate_breaker_def default_scheduler_def)
  from backoff_is_capped_exponential [OF v] show ?thesis
    by (auto simp: default_scheduler_def)
qed

text \<open>The recorder always returns under validated settings, and it only judges: no task or
  execution changes its status, nothing is enqueued, and of a schedule only the breaker fields
  and the derived error count change - never \<open>enabled\<close>, the concurrency limit or the generation.
\<close>

theorem recorder_only_judges:
  assumes "validate_breaker (cfg_scheduler cfg) = None"
  shows "\<exists>d' tripped. record_task_outcomes d cfg now limit = Some (d', tripped)
    \<and> db_executions d' = db_executions d \<and> db_outbox d' = db_outbox d
    \<and> (\<forall>k. map_option t_status (find_task d' k) = map_option t_status (find_task d k))
    \<and> (\<forall>k s. find_schedule d k = Some s \<longrightarrow> (\<exists>s'. find_schedule d' k = Some s'
        \<and> s_enabled s' = s_enabled s \<and> s_max_concurrency s' = s_max_concurrency s
        \<and> s_outcome_generation s' = s_outcome_generation s))"
proof -
  obtain d' tripped where r: "record_task_outcomes d cfg now limit = Some (d', tripped)"
    using record_all_returns [OF validated_usable [OF assms]] by (fastforce simp: record_task_outcomes_def)
  note effect = record_all_effect [OF r [unfolded record_task_outcomes_def]]
  then have "keeps_schedules d d'" by blast
  then have "\<forall>k s. find_schedule d k = Some s \<longrightarrow> (\<exists>s'. find_schedule d' k = Some s'
        \<and> s_enabled s' = s_enabled s \<and> s_max_concurrency s' = s_max_concurrency s
        \<and> s_outcome_generation s' = s_outcome_generation s)"
    by (fastforce simp: keeps_schedules_def only_counters_def)
  with effect r show ?thesis by blast
qed

theorem recorder_only_judges_witness:
  "\<exists>d' tripped. record_task_outcomes (event_db EXEC_FINISHED) default_settings 9 200 = Some (d', tripped)
     \<and> db_executions d' = db_executions (event_db EXEC_FINISHED)"
proof -
  have v: "validate_breaker (cfg_scheduler default_settings) = None"
    by (simp add: validate_breaker_def default_settings_def default_scheduler_def)
  from recorder_only_judges [OF v, of "event_db EXEC_FINISHED" 9 200] show ?thesis by auto
qed

text \<open>A breaker trips exactly when it is closed, the outcome is of the current generation, the
  threshold is on, the schedule is enabled and the newest run of erroneous outcomes reaches the
  threshold; it is then \<open>held\<close> if all of them are \<open>broken\<close>, and otherwise \<open>open\<close> at level 0 with the
  base back-off.
\<close>

theorem breaker_trip_condition:
  assumes "drive_breaker d sched s t rows n th is_current cls fin now = Some (d', s', tripped)"
    and "s_breaker_state s = BREAKER_CLOSED"
  shows "(tripped = Some (s_id s) \<longleftrightarrow> is_current \<and> th > 0 \<and> int n \<ge> th \<and> s_enabled s)
    \<and> (tripped = None \<longrightarrow> s' = s \<and> d' = d)
    \<and> (tripped \<noteq> None \<longrightarrow> s_breaker_opened_at s' = Some now \<and>
        (if \<forall>g \<in> set (take n rows). row_class g = OUTCOME_BROKEN
         then s_breaker_state s' = BREAKER_HELD \<and> s_breaker_retry_at s' = None
         else s_breaker_state s' = BREAKER_OPEN \<and> s_breaker_level s' = 0
           \<and> s_breaker_retry_at s' = Some (now + secs (breaker_backoff_seconds sched 0))))"
  using assms
  by (auto simp: drive_breaker_def breaker_defs list_all_iff split: if_splits)

definition sample_schedule :: schedule where
  "sample_schedule = \<lparr>s_id = ''s1'', s_name = ''nightly'', s_description = JNull, s_enabled = True,
     s_max_concurrency = 1, s_execution_template_id = ''tpl'', s_trigger_type = ''interval'',
     s_interval_seconds = Some 60, s_cron = None, s_overrides = [], s_consecutive_error_count = 0,
     s_auto_disabled_at = None, s_auto_disabled_reason = None, s_outcome_generation = 0,
     s_breaker_state = BREAKER_CLOSED, s_breaker_level = 0, s_breaker_opened_at = None,
     s_breaker_retry_at = None, s_breaker_escalated_at = None, s_breaker_reason = None,
     s_breaker_artifact_id = None, s_created_at = 0\<rparr>"

lemma sample_schedule_simps [simp]:
  "s_id sample_schedule = ''s1''" "s_enabled sample_schedule" "s_max_concurrency sample_schedule = 1"
  "s_breaker_state sample_schedule = BREAKER_CLOSED" "s_breaker_level sample_schedule = 0"
  "s_outcome_generation sample_schedule = 0" "s_breaker_escalated_at sample_schedule = None"
  "s_breaker_opened_at sample_schedule = None" "s_breaker_artifact_id sample_schedule = None"
  "s_breaker_retry_at sample_schedule = None" "s_execution_template_id sample_schedule = ''tpl''"
  by (simp_all add: sample_schedule_def)

theorem breaker_trip_condition_witness:
  "\<exists>d' s' tripped. drive_breaker empty_db default_scheduler sample_schedule sample_task [] 5 5 True
      OUTCOME_BROKEN 0 7 = Some (d', s', tripped) \<and> tripped = Some ''s1''"
proof -
  have u: "usable default_scheduler" by (simp add: usable_def default_scheduler_def)
  obtain d' s' tripped where r: "drive_breaker empty_db default_scheduler sample_schedule sample_task
      [] 5 5 True OUTCOME_BROKEN 0 7 = Some (d', s', tripped)"
    using drive_breaker_returns [OF u] by (metis option.exhaust prod_cases3)
  from breaker_trip_condition [OF r] r show ?thesis by simp
qed

text \<open>The state table of a tripped breaker. Outcomes of an older generation move nothing. A
  current \<open>ok\<close> closes it from any state; \<open>open\<close> and \<open>held\<close> ignore everything else; a half-open
  probe goes to \<open>held\<close> on \<open>broken\<close>, back to \<open>open\<close> one level higher (capped, with that level's
  back-off) on \<open>transient\<close>, and to \<open>open\<close> due at once on \<open>neutral\<close>.
\<close>

theorem breaker_state_table:
  assumes "drive_breaker d sched s t rows n th is_current cls fin now = Some (d', s', tripped)"
    and "s_breaker_state s \<noteq> BREAKER_CLOSED"
  shows "tripped = None
    \<and> (\<not> is_current \<longrightarrow> s' = s)
    \<and> (is_current \<and> cls = OUTCOME_OK \<longrightarrow> s' = clear_breaker s)
    \<and> (is_current \<and> cls \<noteq> OUTCOME_OK \<and> s_breaker_state s \<in> {BREAKER_OPEN, BREAKER_HELD} \<longrightarrow> s' = s)
    \<and> (is_current \<and> s_breaker_state s = BREAKER_HALF_OPEN \<and> cls = OUTCOME_BROKEN \<longrightarrow>
        s_breaker_state s' = BREAKER_HELD \<and> s_breaker_artifact_id s' = snapshot_artifact_id t)
    \<and> (is_current \<and> s_breaker_state s = BREAKER_HALF_OPEN \<and> cls = OUTCOME_TRANSIENT \<longrightarrow>
        s_breaker_state s' = BREAKER_OPEN
        \<and> (\<exists>highest. breaker_max_level sched = Some highest
            \<and> s_breaker_level s' = min (s_breaker_level s + 1) highest)
        \<and> s_breaker_retry_at s' = Some (now + secs (breaker_backoff_seconds sched (s_breaker_level s'))))
    \<and> (is_current \<and> s_breaker_state s = BREAKER_HALF_OPEN \<and> cls = OUTCOME_NEUTRAL \<longrightarrow>
        s_breaker_state s' = BREAKER_OPEN \<and> s_breaker_level s' = s_breaker_level s
        \<and> s_breaker_retry_at s' = Some now)"
  using assms
  by (cases cls; cases "s_breaker_state s")
    (auto simp: drive_breaker_def enter_held_def close_breaker_def maybe_escalate_def Let_def
      split: if_splits option.splits)

theorem breaker_state_table_witness:
  "\<exists>d' s' tripped. drive_breaker empty_db default_scheduler
      (sample_schedule\<lparr>s_breaker_state := BREAKER_HALF_OPEN\<rparr>) sample_task [] 1 5 True
      OUTCOME_TRANSIENT 0 7 = Some (d', s', tripped) \<and> s_breaker_state s' = BREAKER_OPEN"
proof -
  have u: "usable default_scheduler" by (simp add: usable_def default_scheduler_def)
  obtain d' s' tripped where r: "drive_breaker empty_db default_scheduler
      (sample_schedule\<lparr>s_breaker_state := BREAKER_HALF_OPEN\<rparr>) sample_task
      [] 1 5 True OUTCOME_TRANSIENT 0 7 = Some (d', s', tripped)"
    using drive_breaker_returns [OF u] by (metis option.exhaust prod_cases3)
  from breaker_state_table [OF r] r show ?thesis by simp
qed

text \<open>The ledger is self-trimming: after an outcome was recorded, the schedule has at most
  \<open>max 100 (2 * threshold)\<close> rows, whatever it had before.
\<close>

theorem ledger_is_bounded:
  assumes "distinct (map g_id (db_ledger (upsert_ledger d (s_id s) (t_id t)
         (or_default (t_schedule_generation t) 0) (or_default (t_finished_at t) now) erroneous cls now)))"
  shows "int (length (ledger_of (ledger_db d cfg s t erroneous cls now) (s_id s)))
    \<le> max 100 (2 * auto_disable_after_errors (cfg_scheduler cfg))"
proof -
  let ?keep = "max LEDGER_MIN_KEEP (2 * max 0 (auto_disable_after_errors (cfg_scheduler cfg)))"
  have "?keep \<ge> 0" by (simp add: LEDGER_MIN_KEEP_def)
  from trim_ledger_bound [OF assms this, of "s_id s"] show ?thesis
    by (simp add: ledger_db_def LEDGER_MIN_KEEP_def)
qed

theorem ledger_is_bounded_witness:
  "length (ledger_of (ledger_db empty_db default_settings sample_schedule sample_task True
      OUTCOME_BROKEN 7) ''s1'') \<le> 100"
proof -
  have "distinct (map g_id (db_ledger (upsert_ledger empty_db (s_id sample_schedule) (t_id sample_task)
     (or_default (t_schedule_generation sample_task) 0) (or_default (t_finished_at sample_task) 7)
     True OUTCOME_BROKEN 7)))"
    by (simp add: upsert_ledger_def empty_db_def new_id_def)
  from ledger_is_bounded [OF this, of default_settings] show ?thesis
    by (simp add: default_settings_def default_scheduler_def)
qed

end
