(* ===== verification/Schedules.thy ===== *)
theory Schedules
  imports Outcomes
begin

text \<open>
  The admission of schedule firings (\<^verbatim>\<open>apps/server/dopilot_server/services/schedules.py\<close>): the
  concurrency gate, the circuit breaker's timer gate, the manual reset, and the bulk operations
  on schedules. Every decision is taken on the schedule row as it is under its lock, which is
  the row of the database here. The lemmas show what an admission implies, that a refusal
  changes nothing, and how the breaker's probes are spaced.
\<close>

section \<open>Validation\<close>

definition MAX_CONCURRENCY_CEILING :: int where
  "MAX_CONCURRENCY_CEILING = 2147483647"

definition validate_max_concurrency :: "json \<Rightarrow> api_error + int" where
  "validate_max_concurrency value =
     (case value of
        JInt n \<Rightarrow>
          if n < 0 \<or> n > MAX_CONCURRENCY_CEILING then
            Inl (ApiError 400 ''schedule.invalid_max_concurrency'' ''errors.invalidMaxConcurrency''
              [(''max_concurrency'', value), (''max'', JInt MAX_CONCURRENCY_CEILING)])
          else Inr n
      | _ \<Rightarrow> Inl (ApiError 400 ''schedule.invalid_max_concurrency'' ''errors.invalidMaxConcurrency''
              [(''max_concurrency'', value)]))"

definition schedule_not_found :: "string \<Rightarrow> api_error" where
  "schedule_not_found schedule_id =
     ApiError 404 ''schedule.not_found'' ''errors.scheduleNotFound'' [(''schedule_id'', JStr schedule_id)]"

definition ensure_unique_name :: "db \<Rightarrow> string \<Rightarrow> string option \<Rightarrow> api_error option" where
  "ensure_unique_name d name exclude_id =
     (if list_ex (\<lambda>s. s_name s = name \<and> (exclude_id = None \<or> Some (s_id s) \<noteq> exclude_id)) (db_schedules d)
      then Some (ApiError 409 ''schedule.name_conflict'' ''errors.scheduleNameConflict''
        [(''name'', JStr name)])
      else None)"

section \<open>Queries and bulk operations\<close>

definition get_schedule_or_404 :: "db \<Rightarrow> string \<Rightarrow> api_error + schedule" where
  "get_schedule_or_404 d schedule_id =
     (case find_schedule d schedule_id of
        None \<Rightarrow> Inl (schedule_not_found schedule_id) | Some s \<Rightarrow> Inr s)"

definition disable_all_schedules :: "db \<Rightarrow> db \<times> nat" where
  "disable_all_schedules d =
     (d\<lparr>db_schedules := map (\<lambda>s. if s_enabled s then s\<lparr>s_enabled := False\<rparr> else s) (db_schedules d)\<rparr>,
      length (filter s_enabled (db_schedules d)))"

definition count_enabled_schedules :: "db \<Rightarrow> nat" where
  "count_enabled_schedules d = length (filter s_enabled (db_schedules d))"

definition delete_schedule :: "db \<Rightarrow> string \<Rightarrow> db" where
  \<comment> \<open>with the \<open>ON DELETE CASCADE\<close> of the outcome ledger\<close>
  "delete_schedule d k = d\<lparr>db_schedules := filter (\<lambda>s. s_id s \<noteq> k) (db_schedules d),
     db_ledger := filter (\<lambda>g. g_schedule_id g \<noteq> k) (db_ledger d)\<rparr>"

definition count_active_tasks_for_schedule :: "db \<Rightarrow> string \<Rightarrow> nat" where
  "count_active_tasks_for_schedule d schedule_id =
     length (filter (\<lambda>t. t_schedule_id t = Some schedule_id \<and> t_status t \<in> TASK_ACTIVE) (db_tasks d))"

section \<open>The admission gate\<close>

datatype skip_reason = SKIP_MISSING | SKIP_DISABLED | SKIP_BACKLOG | SKIP_CONCURRENCY | SKIP_BREAKER

datatype firing_slot =
    Granted schedule
  | Skipped skip_reason "(nat \<times> int) option" \<comment> \<open>\<open>active\<close> and \<open>limit\<close> of a concurrency skip\<close>

definition admit_breaker :: "db \<Rightarrow> schedule \<Rightarrow> scheduler_settings option \<Rightarrow> instant \<Rightarrow> db \<times> firing_slot" where
  "admit_breaker d s breaker now =
     (case breaker of None \<Rightarrow> (d, Granted s)
      | Some sched \<Rightarrow>
         (let due = (case s_breaker_retry_at s of None \<Rightarrow> True | Some retry_at \<Rightarrow> now \<ge> retry_at);
              skip = (d, Skipped SKIP_BREAKER None);
              grant = (\<lambda>s. (save_schedule d s, Granted s))
          in case s_breaker_state s of
               BREAKER_CLOSED \<Rightarrow> (d, Granted s)
             | BREAKER_OPEN \<Rightarrow> if \<not> due then skip else grant (enter_half_open s sched now)
             | BREAKER_HALF_OPEN \<Rightarrow>
                 if \<not> due then skip
                 else grant (s\<lparr>s_breaker_retry_at := Some (now + secs (breaker_backoff_max_seconds sched))\<rparr>)
             | BREAKER_HELD \<Rightarrow>
                 (case s_breaker_artifact_id s of None \<Rightarrow> skip
                  | Some judged \<Rightarrow>
                     (case current_template_artifact_id d s of None \<Rightarrow> skip
                      | Some current \<Rightarrow>
                          if current = judged then skip
                          else grant (enter_half_open (s\<lparr>s_breaker_level := 0\<rparr>) sched now)))))"

definition acquire_firing_slot ::
    "db \<Rightarrow> string \<Rightarrow> bool \<Rightarrow> bool \<Rightarrow> bool \<Rightarrow> scheduler_settings option \<Rightarrow> instant
      \<Rightarrow> api_error + db \<times> firing_slot" where
  "acquire_firing_slot d schedule_id raise_on_full require_enabled coalesce_backlog breaker now =
     (case find_schedule d schedule_id of
        None \<Rightarrow> if raise_on_full then Inl (schedule_not_found schedule_id)
                else Inr (d, Skipped SKIP_MISSING None)
      | Some s \<Rightarrow>
          if require_enabled \<and> \<not> s_enabled s then Inr (d, Skipped SKIP_DISABLED None)
          else if coalesce_backlog \<and> has_undispatched_backlog_for_schedule d schedule_id
            then Inr (d, Skipped SKIP_BACKLOG None)
          else (let limit = s_max_concurrency s in
            if limit = 0 then Inr (admit_breaker d s breaker now)
            else (let active = count_active_tasks_for_schedule d schedule_id in
              if int active \<ge> limit then
                (if raise_on_full then
                   Inl (ApiError 409 ''schedule.concurrency_limit'' ''errors.scheduleConcurrencyLimit''
                     [(''active'', JInt (int active)), (''limit'', JInt limit)])
                 else Inr (d, Skipped SKIP_CONCURRENCY (Some (active, limit))))
              else Inr (admit_breaker d s breaker now))))"

definition reset_schedule_breaker :: "db \<Rightarrow> string \<Rightarrow> api_error + db \<times> schedule" where
  "reset_schedule_breaker d schedule_id =
     (case find_schedule d schedule_id of None \<Rightarrow> Inl (schedule_not_found schedule_id)
      | Some s \<Rightarrow>
          if s_breaker_state s \<noteq> BREAKER_CLOSED then
            (let s = (clear_breaker s)\<lparr>s_outcome_generation := s_outcome_generation s + 1,
                     s_consecutive_error_count := 0\<rparr>
             in Inr (save_schedule d s, s))
          else Inr (d, s))"

definition set_enabled :: "schedule \<Rightarrow> bool \<Rightarrow> schedule" where
  \<comment> \<open>the \<open>"enabled" in data\<close> step of \<open>update_schedule\<close>\<close>
  "set_enabled s enabled =
     (let enabling = enabled \<and> \<not> s_enabled s; s = s\<lparr>s_enabled := enabled\<rparr>
      in if enabling then clear_breaker (s\<lparr>s_outcome_generation := s_outcome_generation s + 1,
           s_consecutive_error_count := 0, s_auto_disabled_at := None, s_auto_disabled_reason := None\<rparr>)
         else s)"

section \<open>Facts\<close>

lemma enter_half_open_frame [simp]:
  "s_id (enter_half_open s sched now) = s_id s" "s_enabled (enter_half_open s sched now) = s_enabled s"
  "s_max_concurrency (enter_half_open s sched now) = s_max_concurrency s"
  "s_breaker_state (enter_half_open s sched now) = BREAKER_HALF_OPEN"
  "s_outcome_generation (enter_half_open s sched now) = s_outcome_generation s + 1"
  "s_breaker_level (enter_half_open s sched now) = s_breaker_level s"
  by (simp_all add: enter_half_open_def)

lemma admit_breaker_frame:
  "admit_breaker d s breaker now = (d', slot) \<Longrightarrow>
    db_tasks d' = db_tasks d \<and> db_executions d' = db_executions d \<and> db_outbox d' = db_outbox d"
  by (auto simp: admit_breaker_def Let_def split: option.splits breaker_state.splits if_splits)

lemma admit_breaker_skip:
  "admit_breaker d s breaker now = (d', Skipped r i) \<Longrightarrow> d' = d \<and> r = SKIP_BREAKER \<and> i = None"
  by (auto simp: admit_breaker_def Let_def split: option.splits breaker_state.splits if_splits)

lemma admit_breaker_granted:
  "admit_breaker d s breaker now = (d', Granted s') \<Longrightarrow>
    s_id s' = s_id s \<and> s_enabled s' = s_enabled s \<and> s_max_concurrency s' = s_max_concurrency s"
  by (auto simp: admit_breaker_def Let_def split: option.splits breaker_state.splits if_splits)

lemma acquire_granted_cases:
  assumes "acquire_firing_slot d k rf re cb breaker now = Inr (d', Granted s')"
  obtains s where "find_schedule d k = Some s" "re \<longrightarrow> s_enabled s"
    "cb \<longrightarrow> \<not> has_undispatched_backlog_for_schedule d k"
    "s_max_concurrency s \<noteq> 0 \<longrightarrow> int (count_active_tasks_for_schedule d k) < s_max_concurrency s"
    "admit_breaker d s breaker now = (d', Granted s')"
  using assms
  by (auto simp: acquire_firing_slot_def Let_def split: option.splits if_splits)

section \<open>Properties\<close>

text \<open>The concurrency gate: when a firing is admitted and its task is then created for the
  schedule, the schedule has at most \<open>max_concurrency\<close> active tasks (0 switches the gate off); an
  admitted timer firing is one of an enabled schedule without undispatched backlog.
\<close>

theorem gate_bounds_concurrency:
  assumes "acquire_firing_slot d k raise_on_full require_enabled coalesce_backlog breaker now
      = Inr (d1, Granted s)"
    and "create_task d1 request origin now' = (d2, t)"
    and "s_max_concurrency s \<noteq> 0"
  shows "int (count_active_tasks_for_schedule d2 k) \<le> s_max_concurrency s
    \<and> (require_enabled \<longrightarrow> s_enabled s)
    \<and> (coalesce_backlog \<longrightarrow> \<not> has_undispatched_backlog_for_schedule d k)"
proof (rule acquire_granted_cases [OF assms(1)])
  fix s0 assume s0: "find_schedule d k = Some s0" "require_enabled \<longrightarrow> s_enabled s0"
    "coalesce_backlog \<longrightarrow> \<not> has_undispatched_backlog_for_schedule d k"
    "s_max_concurrency s0 \<noteq> 0 \<longrightarrow> int (count_active_tasks_for_schedule d k) < s_max_concurrency s0"
    "admit_breaker d s0 breaker now = (d1, Granted s)"
  have "db_tasks d1 = db_tasks d" using admit_breaker_frame [OF s0(5)] by simp
  moreover have "\<exists>t'. db_tasks d2 = db_tasks d1 @ [t']"
    using assms(2) by (auto simp: create_task_def new_id_def Let_def)
  ultimately have "count_active_tasks_for_schedule d2 k \<le> Suc (count_active_tasks_for_schedule d k)"
    by (auto simp: count_active_tasks_for_schedule_def)
  with s0 assms(3) admit_breaker_granted [OF s0(5)] show ?thesis by auto
qed

definition sample_request :: run_request where
  "sample_request = \<lparr>rq_artifact_type = ''scrapy'', rq_target = ''p:s'', rq_node_strategy = ''all'',
     rq_node_ids = [], rq_params = []\<rparr>"

definition sample_origin :: task_origin where
  "sample_origin = \<lparr>og_source = TASK_SOURCE_TIMER, og_execution_template_id = None,
     og_schedule_id = Some ''s1'', og_template_snapshot = [], og_schedule_generation = Some 0\<rparr>"

theorem gate_bounds_concurrency_witness:
  "\<exists>d1 s. acquire_firing_slot (empty_db\<lparr>db_schedules := [sample_schedule]\<rparr>) ''s1'' False True True
       (Some default_scheduler) 5 = Inr (d1, Granted s)
     \<and> count_active_tasks_for_schedule (fst (create_task d1 sample_request sample_origin 6)) ''s1'' \<le> 1"
proof -
  let ?d = "empty_db\<lparr>db_schedules := [sample_schedule]\<rparr>"
  have g: "acquire_firing_slot ?d ''s1'' False True True (Some default_scheduler) 5
      = Inr (?d, Granted sample_schedule)"
    by (simp add: acquire_firing_slot_def find_schedule_def empty_db_def admit_breaker_def
        has_undispatched_backlog_for_schedule_def count_active_tasks_for_schedule_def)
  obtain d2 t where c: "create_task ?d sample_request sample_origin 6 = (d2, t)" by fastforce
  from gate_bounds_concurrency [OF g c] g c show ?thesis by auto
qed

text \<open>A refused firing has no effect: neither a skip nor an error changes the database, so a
  skipped firing can feed neither the error count nor the breaker; and no admission changes
  \<open>enabled\<close>, tasks, executions or commands.
\<close>

theorem refusal_changes_nothing:
  assumes "acquire_firing_slot d k raise_on_full require_enabled coalesce_backlog breaker now = Inr (d', slot)"
  shows "(\<forall>r i. slot = Skipped r i \<longrightarrow> d' = d)
    \<and> db_tasks d' = db_tasks d \<and> db_executions d' = db_executions d \<and> db_outbox d' = db_outbox d
    \<and> (\<forall>s. slot = Granted s \<longrightarrow> (\<exists>s0. find_schedule d k = Some s0 \<and> s_enabled s = s_enabled s0))"
proof (cases slot)
  case (Granted s)
  then show ?thesis
    using assms by (auto elim!: acquire_granted_cases dest: admit_breaker_frame admit_breaker_granted)
next
  case (Skipped r i)
  then have "d' = d"
    using assms by (auto simp: acquire_firing_slot_def Let_def split: option.splits if_splits
        dest: admit_breaker_skip)
  with Skipped show ?thesis by simp
qed

theorem refusal_changes_nothing_witness:
  "acquire_firing_slot (empty_db\<lparr>db_schedules := [sample_schedule\<lparr>s_enabled := False\<rparr>]\<rparr>) ''s1''
      False True True None 5
    = Inr (empty_db\<lparr>db_schedules := [sample_schedule\<lparr>s_enabled := False\<rparr>]\<rparr>, Skipped SKIP_DISABLED None)"
proof -
  let ?d = "empty_db\<lparr>db_schedules := [sample_schedule\<lparr>s_enabled := False\<rparr>]\<rparr>"
  obtain d' where r: "acquire_firing_slot ?d ''s1'' False True True None 5
      = Inr (d', Skipped SKIP_DISABLED None)"
    by (simp add: acquire_firing_slot_def find_schedule_def)
  from refusal_changes_nothing [OF r] r show ?thesis by simp
qed

text \<open>The breaker's timer gate: an open or half-open breaker admits nothing before
  \<open>breaker_retry_at\<close>, a held one only when the template's artifact moved off the judged one; each
  probe pushes the deadline by the maximal back-off, after which it is given up.
\<close>

lemma breaker_gate:
  assumes "admit_breaker d s (Some sched) now = (d', Granted s')"
  shows "(s_breaker_state s = BREAKER_CLOSED \<longrightarrow> s' = s \<and> d' = d)
    \<and> (s_breaker_state s \<in> {BREAKER_OPEN, BREAKER_HALF_OPEN} \<longrightarrow>
        (\<forall>retry_at. s_breaker_retry_at s = Some retry_at \<longrightarrow> retry_at \<le> now))
    \<and> (s_breaker_state s = BREAKER_HELD \<longrightarrow>
        (\<exists>judged current. s_breaker_artifact_id s = Some judged
           \<and> current_template_artifact_id d s = Some current \<and> current \<noteq> judged) \<and> s_breaker_level s' = 0)
    \<and> (s_breaker_state s \<noteq> BREAKER_CLOSED \<longrightarrow>
        s_breaker_state s' = BREAKER_HALF_OPEN
        \<and> s_breaker_retry_at s' = Some (now + secs (breaker_backoff_max_seconds sched))
        \<and> s_outcome_generation s' = s_outcome_generation s
            + (if s_breaker_state s = BREAKER_HALF_OPEN then 0 else 1))"
  using assms
  by (auto simp: admit_breaker_def Let_def enter_half_open_def
      split: option.splits breaker_state.splits if_splits)

lemma breaker_gate_demo:
  "\<exists>d' s'. admit_breaker empty_db (sample_schedule\<lparr>s_breaker_state := BREAKER_OPEN,
        s_breaker_retry_at := Some 3\<rparr>) (Some default_scheduler) 5 = (d', Granted s')
     \<and> s_breaker_state s' = BREAKER_HALF_OPEN \<and> s_outcome_generation s' = 1"
proof -
  let ?s = "sample_schedule\<lparr>s_breaker_state := BREAKER_OPEN, s_breaker_retry_at := Some 3\<rparr>"
  obtain d' s' where a: "admit_breaker empty_db ?s (Some default_scheduler) 5 = (d', Granted s')"
    by (simp add: admit_breaker_def)
  from breaker_gate [OF a] a show ?thesis by auto
qed

text \<open>Generations isolate the past: after a reset of a tripped breaker, or after a manual
  re-enable, an outcome of a task created before leaves the breaker closed and every breaker
  field alone, whatever the outcome is.
\<close>

theorem old_generation_never_trips:
  assumes "s' = set_enabled s True \<and> \<not> s_enabled s
      \<or> reset_schedule_breaker d k = Inr (d', s') \<and> find_schedule d k = Some s
        \<and> s_breaker_state s \<noteq> BREAKER_CLOSED"
    and "t_schedule_generation t = Some g" and "g \<le> s_outcome_generation s"
    and "t_schedule_id t = Some k" and "find_schedule d2 k = Some s'"
    and "record_ledger d2 cfg t erroneous cls now = Some (d3, tripped)"
  shows "tripped = None \<and> s_breaker_state s' = BREAKER_CLOSED
    \<and> (\<exists>n. find_schedule d3 k = Some (s'\<lparr>s_consecutive_error_count := n\<rparr>))"
proof -
  have gen: "s_outcome_generation s' = s_outcome_generation s + 1" "s_breaker_state s' = BREAKER_CLOSED"
    using assms(1) by (auto simp: set_enabled_def reset_schedule_breaker_def clear_breaker_def Let_def)
  with assms(2,3) have old: "or_default (t_schedule_generation t) 0 \<noteq> s_outcome_generation s'" by simp
  have k: "s_id s' = k" using assms(5) by (rule schedules.lookup_key)
  from assms(6) show ?thesis
  proof (cases rule: record_ledger_cases)
    case 1
    with assms(5) gen show ?thesis
      by (auto intro: exI [of _ "s_consecutive_error_count s'"])
  next
    case (2 k' s1 d4 s4)
    with assms(4,5) have "s1 = s'" by simp
    with 2 old have "tripped = None" "d4 = ledger_db d2 cfg s' t erroneous cls now"
      "\<exists>n. s4 = s'\<lparr>s_consecutive_error_count := n\<rparr>"
      by (auto simp: drive_breaker_def)
    moreover have "find_schedule (ledger_db d2 cfg s' t erroneous cls now) k = Some s'"
      using assms(5) by (simp add: find_schedule_def)
    ultimately show ?thesis
      using 2(4) k gen by (auto simp: schedules.lookup_update)
  qed
qed

theorem old_generation_never_trips_witness:
  "\<exists>d3. record_ledger (empty_db\<lparr>db_schedules := [set_enabled (sample_schedule\<lparr>s_enabled := False\<rparr>) True]\<rparr>)
       default_settings sample_task True OUTCOME_BROKEN 9 = Some (d3, None)"
proof -
  let ?s = "sample_schedule\<lparr>s_enabled := False\<rparr>"
  let ?d = "empty_db\<lparr>db_schedules := [set_enabled ?s True]\<rparr>"
  have u: "usable (cfg_scheduler default_settings)"
    by (simp add: usable_def default_settings_def default_scheduler_def)
  obtain d3 r where rec: "record_ledger ?d default_settings sample_task True OUTCOME_BROKEN 9 = Some (d3, r)"
    using record_ledger_returns [OF u] by (metis option.exhaust surj_pair)
  have "find_schedule ?d ''s1'' = Some (set_enabled ?s True)"
    by (simp add: find_schedule_def set_enabled_def clear_breaker_def Let_def)
  from old_generation_never_trips [OF _ _ _ _ this rec, where s = ?s and g = 0] rec show ?thesis by auto
qed

lemma backoff_min_level:
  assumes "usable sched" and "breaker_max_level sched = Some highest" and "0 \<le> level"
  shows "breaker_backoff_seconds sched (min level highest) = breaker_backoff_seconds sched level"
proof (cases "level \<le> highest")
  case False
  let ?b = "breaker_backoff_base_seconds sched" and ?c = "breaker_backoff_max_seconds sched"
  obtain l where l: "highest = l" "breaker_backoff_seconds sched l = ?c"
    by (rule breaker_max_level_Some [OF assms(1)]) (use assms(2) in simp)
  have "(2 :: int) ^ nat highest \<le> 2 ^ nat level" using False by (intro power_increasing) simp_all
  then have "?b * 2 ^ nat highest \<le> ?b * 2 ^ nat level"
    using assms(1) by (intro mult_left_mono) (simp_all add: usable_def)
  with l have "breaker_backoff_seconds sched level = ?c"
    unfolding backoff_closed [OF assms(1)] by (metis min.absorb_iff2 order_trans)
  with False l show ?thesis by (simp add: min_def)
qed (simp add: min_def)

definition probe_verdict :: "scheduler_settings \<Rightarrow> schedule \<Rightarrow> task \<Rightarrow> outcome_class \<Rightarrow> instant \<Rightarrow> schedule \<Rightarrow> bool" where
  \<comment> \<open>what the judgement of the probe \<open>t\<close> at \<open>now\<close> makes of the half-open row \<open>s\<close>\<close>
  "probe_verdict sched s t cls now s' \<longleftrightarrow>
     (case cls of
        OUTCOME_OK \<Rightarrow> s_breaker_state s' = BREAKER_CLOSED \<and> s_breaker_level s' = 0
      | OUTCOME_BROKEN \<Rightarrow> s_breaker_state s' = BREAKER_HELD \<and> s_breaker_retry_at s' = None
          \<and> s_breaker_artifact_id s' = snapshot_artifact_id t
      | OUTCOME_TRANSIENT \<Rightarrow> s_breaker_state s' = BREAKER_OPEN
          \<and> (\<exists>highest. breaker_max_level sched = Some highest \<and> s_breaker_level s' = min (s_breaker_level s + 1) highest)
          \<and> s_breaker_retry_at s' = Some (now + secs (min (breaker_backoff_base_seconds sched * 2 ^ nat (s_breaker_level s + 1))
              (breaker_backoff_max_seconds sched)))
      | OUTCOME_NEUTRAL \<Rightarrow> s_breaker_state s' = BREAKER_OPEN \<and> s_breaker_retry_at s' = Some now
          \<and> s_breaker_level s' = s_breaker_level s)"

lemma drive_half_open:
  assumes "drive_breaker d sched s t rows n th True cls fin now = Some (d', s', r)"
    and "s_breaker_state s = BREAKER_HALF_OPEN" and "usable sched" and "0 \<le> s_breaker_level s"
  shows "probe_verdict sched s t cls now s'"
proof -
  obtain l where l: "breaker_max_level sched = Some l" by (rule breaker_max_level_Some [OF assms(3)])
  show ?thesis
    using assms l backoff_min_level [OF assms(3) l, of "s_breaker_level s + 1"]
    by (cases cls) (auto simp: drive_breaker_def probe_verdict_def breaker_defs backoff_closed split: if_splits option.splits)
qed

lemma record_ledger_current:
  assumes "record_ledger d cfg t e cls now = Some (d', r)"
    and "t_schedule_id t = Some k" and "find_schedule d k = Some s"
    and "t_schedule_generation t = Some (s_outcome_generation s)"
    and "s_breaker_state s = BREAKER_HALF_OPEN"
    and "usable (cfg_scheduler cfg)" and "0 \<le> s_breaker_level s"
  shows "\<exists>s'. find_schedule d' k = Some s' \<and> probe_verdict (cfg_scheduler cfg) s t cls now s'"
proof -
  let ?l = "ledger_db d cfg s t e cls now"
  let ?n = "count_consecutive (current_run ?l s)"
  let ?s = "s\<lparr>s_consecutive_error_count := int ?n\<rparr>"
  obtain d2 s2 where dr: "drive_breaker ?l (cfg_scheduler cfg) ?s t (current_run ?l s) ?n
      (auto_disable_after_errors (cfg_scheduler cfg)) True cls (or_default (t_finished_at t) now) now = Some (d2, s2, r)"
    and d': "d' = save_schedule d2 s2"
    using assms(1-4) by (auto simp: record_ledger_def Let_def)
  have "probe_verdict (cfg_scheduler cfg) ?s t cls now s2" by (rule drive_half_open [OF dr]) (use assms in simp_all)
  then have "probe_verdict (cfg_scheduler cfg) s t cls now s2" by (cases cls) (simp_all add: probe_verdict_def)
  moreover have "find_schedule d2 k = Some s"
    using drive_breaker_frame [OF dr] assms(3) by (simp add: find_schedule_def)
  moreover have "s_id s2 = k"
    using drive_breaker_only [OF dr] schedules.lookup_key [OF assms(3)] by (simp add: breaker_only_def)
  ultimately show ?thesis by (auto simp: d' schedules.lookup_update)
qed



end
