(* ===== verification/ScheduleRuns.thy ===== *)
theory ScheduleRuns
  imports Templates Schedules
begin

text \<open>
  The rest of \<^verbatim>\<open>apps/server/dopilot_server/services/schedules.py\<close>: creation and update of schedules,
  trigger-now and the firing of a timer, next-run estimates and views; and the job set of
  \<^verbatim>\<open>scheduler/runner.py\<close>. APScheduler is a parameter: \<open>cron_ok\<close> tells whether a crontab parses,
  \<open>cron_next\<close> is its next fire time. A request that raises is rolled back; the one error that
  leaves after the run's own commit is the 503 of an unavailable dispatcher.
\<close>

section \<open>Validation of a trigger\<close>

definition VALID_TRIGGER_TYPES :: "string set" where
  "VALID_TRIGGER_TYPES = {''interval'', ''cron''}"

definition int_of :: "json \<Rightarrow> int option" where
  \<comment> \<open>\<open>isinstance(v, int)\<close>, which a bool passes\<close>
  "int_of v = (case v of JInt n \<Rightarrow> Some n | JBool b \<Rightarrow> Some (if b then 1 else 0) | _ \<Rightarrow> None)"

definition validate_trigger :: "(string \<Rightarrow> bool) \<Rightarrow> obj \<Rightarrow> api_error option" where
  "validate_trigger cron_ok data =
     (let trigger_type = or_json (obj_get data ''trigger_type'') (JStr ''interval'') in
      if trigger_type \<notin> JStr ` VALID_TRIGGER_TYPES
      then Some (ApiError 400 ''schedule.invalid_trigger_type'' ''errors.invalidTriggerType''
        [(''trigger_type'', trigger_type)])
      else if trigger_type = JStr ''interval'' then
        (let interval = obj_get data ''interval_seconds'' in
         if (case int_of interval of None \<Rightarrow> True | Some n \<Rightarrow> n \<le> 0)
         then Some (ApiError 400 ''schedule.invalid_interval'' ''errors.invalidInterval'' [(''interval_seconds'', interval)])
         else None)
      else (if cron_ok (py_strip (str_of (obj_get data ''cron''))) then None
        else Some (ApiError 400 ''schedule.invalid_cron'' ''errors.invalidCron'' [(''cron'', obj_get data ''cron'')])))"

section \<open>Creation and update\<close>

definition bind_res :: "'e + 'a \<Rightarrow> ('a \<Rightarrow> 'e + 'b) \<Rightarrow> 'e + 'b" where
  \<comment> \<open>one statement after another, where the first may raise\<close>
  "bind_res r f = (case r of Inl e \<Rightarrow> Inl e | Inr x \<Rightarrow> f x)"

definition ok_unless :: "'e option \<Rightarrow> 'e + unit" where
  "ok_unless e = (case e of None \<Rightarrow> Inr () | Some e \<Rightarrow> Inl e)"

definition create_schedule :: "(string \<Rightarrow> bool) \<Rightarrow> db \<Rightarrow> obj \<Rightarrow> instant \<Rightarrow> api_error + db \<times> schedule" where
  "create_schedule cron_ok d data now =
     (let name = py_strip (str_of (obj_get data ''name''));
          trigger_type = str_of (or_json (obj_get data ''trigger_type'') (JStr ''interval''))
      in bind_res (if name = [] then Inl (ApiError 400 ''schedule.invalid_params'' ''errors.invalidParams''
             [(''missing'', JList [JStr ''name''])]) else Inr ()) (\<lambda>_.
         bind_res (ok_unless (ensure_unique_name d name None)) (\<lambda>_.
         bind_res (get_template_or_404 d (or_json (obj_get data ''execution_template_id'') (JStr []))) (\<lambda>t.
         bind_res (ok_unless (validate_trigger cron_ok data)) (\<lambda>_.
         bind_res (validate_max_concurrency (get_or data ''max_concurrency'' (JInt 1))) (\<lambda>limit.
         bind_res (sanitize_overrides (as_dict (obj_get data ''overrides'')) (artifact_type_for_template d t)) (\<lambda>ov.
           (let (k, d) = new_id d;
                s = \<lparr>s_id = k, s_name = name, s_description = obj_get data ''description'',
                     s_enabled = truthy (obj_get data ''enabled''), s_max_concurrency = limit,
                     s_execution_template_id = py_str (obj_get data ''execution_template_id''),
                     s_trigger_type = trigger_type,
                     s_interval_seconds = (if trigger_type = ''interval'' then int_of (obj_get data ''interval_seconds'') else None),
                     s_cron = (if trigger_type = ''cron'' then Some (py_strip (py_str (obj_get data ''cron''))) else None),
                     s_overrides = ov, s_consecutive_error_count = 0, s_auto_disabled_at = None,
                     s_auto_disabled_reason = None, s_outcome_generation = 0, s_breaker_state = BREAKER_CLOSED,
                     s_breaker_level = 0, s_breaker_opened_at = None, s_breaker_retry_at = None,
                     s_breaker_escalated_at = None, s_breaker_reason = None, s_breaker_artifact_id = None,
                     s_created_at = now\<rparr>
            in Inr (d\<lparr>db_schedules := db_schedules d @ [s]\<rparr>, s)))))))))"

definition patch_template :: "db \<Rightarrow> obj \<Rightarrow> schedule \<Rightarrow> write_error + schedule" where
  "patch_template d data s =
     (case map_of data ''execution_template_id'' of None \<Rightarrow> Inr s
      | Some v \<Rightarrow> (case get_template_or_404 d v of Inl e \<Rightarrow> Inl (Refused e)
          | Inr _ \<Rightarrow> Inr (s\<lparr>s_execution_template_id := py_str v\<rparr>)))"

definition patch_name :: "db \<Rightarrow> obj \<Rightarrow> schedule \<Rightarrow> write_error + schedule" where
  "patch_name d data s =
     (let new_name = py_strip (str_of (obj_get data ''name'')) in
      if new_name = [] then Inr s
      else (case ensure_unique_name d new_name (Some (s_id s)) of Some e \<Rightarrow> Inl (Refused e)
        | None \<Rightarrow> Inr (s\<lparr>s_name := new_name\<rparr>)))"

definition patch_description :: "obj \<Rightarrow> schedule \<Rightarrow> schedule" where
  "patch_description data s =
     (case map_of data ''description'' of None \<Rightarrow> s | Some v \<Rightarrow> s\<lparr>s_description := v\<rparr>)"

definition patch_limit :: "obj \<Rightarrow> schedule \<Rightarrow> write_error + schedule" where
  "patch_limit data s =
     (case map_of data ''max_concurrency'' of None \<Rightarrow> Inr s
      | Some v \<Rightarrow> (case validate_max_concurrency v of Inl e \<Rightarrow> Inl (Refused e)
          | Inr n \<Rightarrow> Inr (s\<lparr>s_max_concurrency := n\<rparr>)))"

definition patch_enabled :: "obj \<Rightarrow> schedule \<Rightarrow> schedule" where
  "patch_enabled data s =
     (case map_of data ''enabled'' of None \<Rightarrow> s | Some v \<Rightarrow> set_enabled s (truthy v))"

definition patch_overrides :: "db \<Rightarrow> obj \<Rightarrow> schedule \<Rightarrow> write_error + schedule" where
  "patch_overrides d data s =
     (case map_of data ''overrides'' of None \<Rightarrow> Inr s
      | Some v \<Rightarrow> (case get_template_or_404 d (JStr (s_execution_template_id s)) of Inl e \<Rightarrow> Inl (Refused e)
          | Inr t \<Rightarrow> (case sanitize_overrides (as_dict v) (artifact_type_for_template d t) of Inl e \<Rightarrow> Inl (Refused e)
              | Inr ov \<Rightarrow> Inr (s\<lparr>s_overrides := ov\<rparr>))))"

definition patch_trigger :: "(string \<Rightarrow> bool) \<Rightarrow> obj \<Rightarrow> schedule \<Rightarrow> write_error + schedule" where
  \<comment> \<open>a null \<open>trigger_type\<close> passes the validation as an interval and is then written as it is\<close>
  "patch_trigger cron_ok data s =
     (if map_of data ''trigger_type'' = None \<and> map_of data ''interval_seconds'' = None \<and> map_of data ''cron'' = None
      then Inr s
      else (let merged = [(''trigger_type'', get_or data ''trigger_type'' (JStr (s_trigger_type s))),
              (''interval_seconds'', get_or data ''interval_seconds'' (jint (s_interval_seconds s))),
              (''cron'', get_or data ''cron'' (jstr (s_cron s)))]
        in case validate_trigger cron_ok merged of Some e \<Rightarrow> Inl (Refused e)
           | None \<Rightarrow>
              (case json_str (obj_get merged ''trigger_type'') of None \<Rightarrow> Inl (Not_null_violation ''trigger_type'')
               | Some ty \<Rightarrow> Inr (if ty = ''interval''
                   then s\<lparr>s_trigger_type := ty, s_interval_seconds := int_of (obj_get merged ''interval_seconds''),
                     s_cron := None\<rparr>
                   else s\<lparr>s_trigger_type := ty, s_cron := Some (py_strip (py_str (obj_get merged ''cron''))),
                     s_interval_seconds := None\<rparr>))))"

definition patch_schedule :: "(string \<Rightarrow> bool) \<Rightarrow> db \<Rightarrow> obj \<Rightarrow> schedule \<Rightarrow> write_error + schedule" where
  \<comment> \<open>the statements of \<open>update_schedule\<close> on the locked row, in their order\<close>
  "patch_schedule cron_ok d data s =
     bind_res (patch_template d data s) (\<lambda>s.
     bind_res (patch_name d data s) (\<lambda>s.
     bind_res (patch_limit data (patch_description data s)) (\<lambda>s.
     bind_res (patch_overrides d data (patch_enabled data s)) (patch_trigger cron_ok data))))"

definition update_schedule :: "(string \<Rightarrow> bool) \<Rightarrow> db \<Rightarrow> string \<Rightarrow> obj \<Rightarrow> write_error + db \<times> schedule" where
  "update_schedule cron_ok d k data =
     (case find_schedule d k of None \<Rightarrow> Inl (Refused (schedule_not_found k)) \<comment> \<open>\<open>get_schedule_or_404\<close> of the route\<close>
      | Some s \<Rightarrow> (case patch_schedule cron_ok d data s of Inl e \<Rightarrow> Inl e
          | Inr s \<Rightarrow> Inr (save_schedule d s, s)))"

definition list_schedules :: "db \<Rightarrow> nat \<Rightarrow> schedule list" where
  "list_schedules d limit = take limit (sort_key (\<lambda>s. - s_created_at s) (db_schedules d))"

definition list_enabled_schedules :: "db \<Rightarrow> nat \<Rightarrow> schedule list" where
  "list_enabled_schedules d limit = take limit (sort_key (\<lambda>s. - s_created_at s) (filter s_enabled (db_schedules d)))"

section \<open>Firing\<close>

definition after_own_commit :: "api_error \<Rightarrow> bool" where
  \<comment> \<open>raised by the executor once the task is committed\<close>
  "after_own_commit e \<longleftrightarrow> ae_code e = ''execution.dispatch_unavailable''"

definition rolled_back :: "db \<Rightarrow> ((db \<times> 'r) \<times> run_end) \<Rightarrow> (db \<times> 'r) \<times> run_end" where
  "rolled_back d res =
     (case res of ((d', redis), Run_error e) \<Rightarrow> ((if after_own_commit e then d' else d, redis), Run_error e)
      | _ \<Rightarrow> res)"

definition run_locked ::
    "'r redis_client \<Rightarrow> (node list \<Rightarrow> node) \<Rightarrow> bool \<Rightarrow> settings \<Rightarrow> instant \<Rightarrow> task_source \<Rightarrow> schedule
      \<Rightarrow> db \<times> 'r \<Rightarrow> ((db \<times> 'r) \<times> run_end) option" where
  \<comment> \<open>what both firing paths do once the slot is granted\<close>
  "run_locked rc choice commit_ok cfg now source locked s =
     (case get_template_or_404 (fst s) (JStr (s_execution_template_id locked)) of
        Inl e \<Rightarrow> Some (s, Run_error e)
      | Inr t \<Rightarrow> run_execution_template rc choice commit_ok cfg now t source (Some (s_id locked))
          (Some (s_overrides locked)) (Some (s_outcome_generation locked)) s)"

definition trigger_now ::
    "'r redis_client \<Rightarrow> (node list \<Rightarrow> node) \<Rightarrow> bool \<Rightarrow> settings \<Rightarrow> instant \<Rightarrow> string
      \<Rightarrow> db \<times> 'r \<Rightarrow> ((db \<times> 'r) \<times> run_end) option" where
  "trigger_now rc choice commit_ok cfg now k s =
     (case acquire_firing_slot (fst s) k True False False None now of
        Inl e \<Rightarrow> Some (s, Run_error e)
      | Inr (d, Skipped r i) \<Rightarrow> Some (s, Run_error (schedule_not_found k)) \<comment> \<open>not with these arguments\<close>
      | Inr (d, Granted locked) \<Rightarrow>
          map_option (rolled_back (fst s))
            (run_locked rc choice commit_ok cfg now TASK_SOURCE_TRIGGER_NOW locked (d, snd s)))"

datatype timer_end = Timer_skipped skip_reason | Timer_ran run_end

definition fire_timer ::
    "'r redis_client \<Rightarrow> (node list \<Rightarrow> node) \<Rightarrow> bool \<Rightarrow> settings \<Rightarrow> instant \<Rightarrow> string
      \<Rightarrow> db \<times> 'r \<Rightarrow> ((db \<times> 'r) \<times> timer_end) option" where
  "fire_timer rc choice commit_ok cfg now k s =
     (case acquire_firing_slot (fst s) k False True True (Some (cfg_scheduler cfg)) now of
        Inl e \<Rightarrow> Some (s, Timer_ran (Run_error e))
      | Inr (d, Skipped r i) \<Rightarrow> Some (s, Timer_skipped r)
      | Inr (d, Granted locked) \<Rightarrow>
          map_option (\<lambda>res. (fst (rolled_back (fst s) res), Timer_ran (snd (rolled_back (fst s) res))))
            (run_locked rc choice commit_ok cfg now TASK_SOURCE_TIMER locked (d, snd s)))"

definition run_template ::
    "'r redis_client \<Rightarrow> (node list \<Rightarrow> node) \<Rightarrow> bool \<Rightarrow> settings \<Rightarrow> instant \<Rightarrow> string
      \<Rightarrow> db \<times> 'r \<Rightarrow> ((db \<times> 'r) \<times> run_end) option" where
  \<comment> \<open>\<open>POST /templates/{id}/run\<close>\<close>
  "run_template rc choice commit_ok cfg now k s =
     (case get_template_or_404 (fst s) (JStr k) of Inl e \<Rightarrow> Some (s, Run_error e)
      | Inr t \<Rightarrow> map_option (rolled_back (fst s))
          (run_execution_template rc choice commit_ok cfg now t TASK_SOURCE_TEMPLATE None None None s))"

section \<open>Next run and views\<close>

definition compute_next_run_at ::
    "(string \<Rightarrow> string \<Rightarrow> instant \<Rightarrow> instant option) \<Rightarrow> string \<Rightarrow> int option \<Rightarrow> string option \<Rightarrow> string
      \<Rightarrow> instant \<Rightarrow> instant option" where
  \<comment> \<open>\<open>cron_next\<close> is \<open>None\<close> when there is no next time and when the crontab is bad\<close>
  "compute_next_run_at cron_next trigger_type interval_seconds cron timezone now =
     (if trigger_type = ''cron'' \<and> truthy_str cron then cron_next (the cron) timezone now
      else if trigger_type = ''interval'' \<and> (case interval_seconds of None \<Rightarrow> False | Some n \<Rightarrow> n > 0)
        then Some (now + secs (the interval_seconds))
      else None)"

definition preview_next_run ::
    "(string \<Rightarrow> bool) \<Rightarrow> (string \<Rightarrow> string \<Rightarrow> instant \<Rightarrow> instant option) \<Rightarrow> obj \<Rightarrow> string \<Rightarrow> instant
      \<Rightarrow> api_error + instant option" where
  "preview_next_run cron_ok cron_next data timezone now =
     (case validate_trigger cron_ok data of Some e \<Rightarrow> Inl e
      | None \<Rightarrow> Inr (compute_next_run_at cron_next
          (str_of (or_json (obj_get data ''trigger_type'') (JStr ''interval'')))
          (int_of (obj_get data ''interval_seconds'')) (json_str (obj_get data ''cron'')) timezone now))"

fun breaker_state_value :: "breaker_state \<Rightarrow> string" where
  "breaker_state_value BREAKER_CLOSED = ''closed''"
| "breaker_state_value BREAKER_OPEN = ''open''"
| "breaker_state_value BREAKER_HALF_OPEN = ''half_open''"
| "breaker_state_value BREAKER_HELD = ''held''"

definition jobj :: "obj option \<Rightarrow> json" where
  "jobj x = (case x of None \<Rightarrow> JNull | Some [] \<Rightarrow> JNull | Some d \<Rightarrow> JObj d)"

definition schedule_view ::
    "(string \<Rightarrow> string \<Rightarrow> instant \<Rightarrow> instant option) \<Rightarrow> schedule \<Rightarrow> string \<Rightarrow> instant \<Rightarrow> instant option \<Rightarrow> obj" where
  "schedule_view cron_next s timezone now updated_at =
     [(''id'', JStr (s_id s)), (''name'', JStr (s_name s)), (''description'', s_description s),
      (''enabled'', JBool (s_enabled s)), (''max_concurrency'', JInt (s_max_concurrency s)),
      (''execution_template_id'', JStr (s_execution_template_id s)), (''trigger_type'', JStr (s_trigger_type s)),
      (''interval_seconds'', jint (s_interval_seconds s)), (''cron'', jstr (s_cron s)),
      (''overrides'', JObj (s_overrides s)),
      (''next_run_at'', iso (compute_next_run_at cron_next (s_trigger_type s) (s_interval_seconds s) (s_cron s) timezone now)),
      (''consecutive_error_count'', JInt (s_consecutive_error_count s)),
      (''auto_disabled_at'', iso (s_auto_disabled_at s)),
      (''auto_disabled_reason'', jobj (s_auto_disabled_reason s)),
      (''outcome_generation'', JInt (s_outcome_generation s)),
      (''breaker_state'', JStr (breaker_state_value (s_breaker_state s))),
      (''breaker_level'', JInt (s_breaker_level s)), (''breaker_opened_at'', iso (s_breaker_opened_at s)),
      (''breaker_retry_at'', iso (s_breaker_retry_at s)), (''breaker_escalated_at'', iso (s_breaker_escalated_at s)),
      (''breaker_reason'', jobj (s_breaker_reason s)), (''breaker_artifact_id'', jstr (s_breaker_artifact_id s)),
      (''created_at'', iso (Some (s_created_at s))), (''updated_at'', iso updated_at)]"

section \<open>The runner\<close>

datatype job_trigger = Cron_trigger string string | Interval_trigger int string

definition build_trigger :: "string \<Rightarrow> schedule \<Rightarrow> job_trigger" where
  "build_trigger tz s =
     (if s_trigger_type s = ''cron'' \<and> truthy_str (s_cron s) then Cron_trigger (the (s_cron s)) tz
      else Interval_trigger (case s_interval_seconds s of None \<Rightarrow> 60 | Some n \<Rightarrow> if n = 0 then 60 else n) tz)"

definition trigger_ok :: "(string \<Rightarrow> bool) \<Rightarrow> job_trigger \<Rightarrow> bool" where
  "trigger_ok cron_ok tr = (case tr of Cron_trigger c _ \<Rightarrow> cron_ok c | Interval_trigger _ _ \<Rightarrow> True)"

primrec add_jobs :: "(string \<Rightarrow> bool) \<Rightarrow> string \<Rightarrow> schedule list \<Rightarrow> (string \<times> job_trigger) list" where
  \<comment> \<open>the loop of \<open>reload\<close>; a crontab that does not parse raises and ends it\<close>
  "add_jobs cron_ok tz [] = []"
| "add_jobs cron_ok tz (s # ss) =
     (if trigger_ok cron_ok (build_trigger tz s) then (s_id s, build_trigger tz s) # add_jobs cron_ok tz ss else [])"

definition reload :: "(string \<Rightarrow> bool) \<Rightarrow> string \<Rightarrow> db \<Rightarrow> (string \<times> job_trigger) list" where
  \<comment> \<open>the job set afterwards; the limit is the default of \<open>list_enabled_schedules\<close>\<close>
  "reload cron_ok tz d = add_jobs cron_ok tz (list_enabled_schedules d 200)"

definition fire_job ::
    "'r redis_client \<Rightarrow> (node list \<Rightarrow> node) \<Rightarrow> bool \<Rightarrow> settings \<Rightarrow> instant \<Rightarrow> string \<Rightarrow> db \<times> 'r \<Rightarrow> (db \<times> 'r) option" where
  \<comment> \<open>\<open>ScheduleRunner._fire\<close>\<close>
  "fire_job rc choice commit_ok cfg now k s =
     (if find_schedule (fst s) k = None then Some s
      else map_option fst (fire_timer rc choice commit_ok cfg now k s))"

end
