(* ===== verification/ServerSteps.thy ===== *)
theory ServerSteps
  imports RetentionProofs ScheduleRuns
begin

text \<open>
  The writers of the server side by side. The event consumer, the reconcile pass, the drain, the
  outcome recorder, the command dispatcher, the run, cancel and lost requests, the timers, and the requests on
  templates and schedules all write the same
  tables, from concurrent tasks and processes; each takes row locks and re-reads what it changes,
  so a run of the server is a sequence of whole operations in any order. The theory proves what
  holds of every such sequence.
\<close>

section \<open>Identifiers stay unique and fresh\<close>

definition extends :: "db \<Rightarrow> db \<Rightarrow> bool" where
  \<comment> \<open>no row of the four keyed tables appears, disappears or changes its key\<close>
  "extends d d' \<longleftrightarrow> map t_id (db_tasks d') = map t_id (db_tasks d)
     \<and> map x_id (db_executions d') = map x_id (db_executions d)
     \<and> map log_key (db_log_files d') = map log_key (db_log_files d)
     \<and> map s_id (db_schedules d') = map s_id (db_schedules d) \<and> db_next_id d \<le> db_next_id d'"

definition grows :: "db \<Rightarrow> db \<Rightarrow> bool" where
  \<comment> \<open>and no schedule changes\<close>
  "grows d d' \<longleftrightarrow> map t_id (db_tasks d') = map t_id (db_tasks d)
     \<and> map x_id (db_executions d') = map x_id (db_executions d)
     \<and> map log_key (db_log_files d') = map log_key (db_log_files d)
     \<and> db_schedules d' = db_schedules d \<and> db_next_id d \<le> db_next_id d'"

definition wf_db :: "db \<Rightarrow> bool" where
  \<comment> \<open>primary keys are unique and the identifiers still to be drawn are not in use\<close>
  "wf_db d \<longleftrightarrow> keys_unique d \<and> (\<forall>n \<ge> db_next_id d. fresh_id n \<notin> set (map t_id (db_tasks d))
     \<and> fresh_id n \<notin> set (map x_id (db_executions d))
     \<and> fresh_id n \<notin> set (map (fst \<circ> snd) (map log_key (db_log_files d)))
     \<and> fresh_id n \<notin> set (map s_id (db_schedules d)))"

lemma grows_extends: "grows d d' \<Longrightarrow> extends d d'"
  by (simp add: grows_def extends_def)

lemma extends_trans: "extends d e \<Longrightarrow> extends e f \<Longrightarrow> extends d f"
  by (simp add: extends_def)

lemma extends_wf: "wf_db d \<Longrightarrow> extends d d' \<Longrightarrow> wf_db d'"
  by (simp add: wf_db_def extends_def keys_unique_def del: set_map)

lemma extends_save_schedule: "extends d (save_schedule d s)"
  by (simp add: extends_def save_schedule_def set_row_def comp_def if_distrib)

lemma grows_refl [simp]: "grows d d"
  by (simp add: grows_def)

lemma grows_trans: "grows d e \<Longrightarrow> grows e f \<Longrightarrow> grows d f"
  by (simp add: grows_def)

lemma grows_wf: "wf_db d \<Longrightarrow> grows d d' \<Longrightarrow> wf_db d'"
  using grows_extends extends_wf by blast

lemma grows_save:
  "grows d e \<Longrightarrow> grows d (save_task e t)" "grows d e \<Longrightarrow> grows d (save_execution e x)"
  "grows d e \<Longrightarrow> grows d (save_log e l)"
  "grows d e \<Longrightarrow> grows d (save_command e r)"
  by (simp_all add: grows_def save_task_def save_execution_def save_log_def
      save_command_def set_row_def comp_def if_distrib)

lemma grows_new_command: "grows d e \<Longrightarrow> grows d (fst (new_command e now m t x a ty i p))"
  by (simp add: grows_def new_command_def windows_def new_id_def add_command_def Let_def)

lemma grows_notify: "grows d e \<Longrightarrow> grows d (fst (notify e now ty sv p k))"
  by (simp add: grows_def notify_def new_id_def Let_def split: option.splits)

lemma grows_stop:
  "grows d e \<Longrightarrow> grows d (stop_for e x i now)" "grows d e \<Longrightarrow> grows d (request_reclaim e x now)"
  "grows d e \<Longrightarrow> grows d (fst (create_cleanup_outbox e now t k a))"
  by (simp_all add: stop_for_def request_reclaim_def create_stop_outbox_def create_cleanup_outbox_def
      grows_new_command)

lemma grows_audit: "grows d e \<Longrightarrow> grows d (audit now e ev m oc)"
  by (simp add: grows_def audit_def)

lemma grows_modify:
  "grows d e \<Longrightarrow> grows d (modify_execution e k f)" "grows d e \<Longrightarrow> grows d (modify_log e lk g)"
  by (auto simp: modify_execution_def modify_log_def intro: grows_save split: option.splits)

lemmas grows_ops = grows_refl grows_save grows_notify grows_stop grows_audit grows_modify

lemma grows_fold: "(\<And>a d. grows d (f a d)) \<Longrightarrow> grows d (fold f as d)"
proof (induction as arbitrary: d)
  case (Cons a as)
  then show ?case using grows_trans [of d "f a d"] by simp
qed simp

lemma grows_fold_pair: "(\<And>a d n. grows d (fst (f a (d, n)))) \<Longrightarrow> grows d (fst (fold f as (d, n)))"
proof (induction as arbitrary: d n)
  case (Cons a as)
  have "grows (fst (f a (d, n))) (fst (fold f as (f a (d, n))))"
    using Cons.IH [OF Cons.prems, of "fst (f a (d, n))" "snd (f a (d, n))"] by simp
  with Cons.prems [of d a n] show ?case by (auto intro: grows_trans)
qed simp

section \<open>Every writer keeps the keys\<close>

lemma grows_update_task: "grows d e \<Longrightarrow> grows d (update_task e x now)"
  by (auto simp: update_task_def intro: grows_ops split: option.splits)

lemma grows_apply_event: "grows d (fst (apply_event d e m now))"
proof (cases "event_to_exec (ev_type e)")
  case None
  then show ?thesis
    by (auto simp: apply_event_def apply_heartbeat_event_def Let_def intro!: grows_ops split: option.splits)
next
  case (Some st)
  have tr: "grows d (fst (transition d x e st now))" for x
    by (auto simp: transition_def Let_def intro!: grows_ops)
  have "grows d (fst (case transition d x e st now of (d1, x1, oc) \<Rightarrow>
      let x1 = mark_progress (x1\<lparr>x_last_event_at := Some now, x_stalled_at := None\<rparr>) now;
          d1 = update_task (save_execution d1 x1) x1 now;
          d1 = (if oc \<in> {OUTCOME_APPLIED, OUTCOME_OVERRIDE_LOST} \<and> is_terminal (ev_type e)
              \<and> ev_error_code e = Some LOG_FLOOD_ERROR_CODE then notify_log_flood d1 e now else d1)
      in (audit now d1 e m oc, oc)))" for x
    using tr [of x] by (cases "transition d x e st now")
      (auto simp: Let_def notify_log_flood_def intro!: grows_ops grows_update_task)
  with Some show ?thesis
    by (auto simp: apply_event_def Let_def intro!: grows_ops split: option.splits)
qed

lemma grows_rollup: "grows d e \<Longrightarrow> grows d (rollup e k now)"
  by (auto simp: rollup_def intro: grows_ops split: option.splits)

lemma grows_mark_lost: "grows d (fst (mark_lost d x r now))"
  by (auto simp: mark_lost_def Let_def intro!: grows_rollup grows_ops split: option.splits)

lemma grows_check_no_progress: "grows d e \<Longrightarrow> grows d (fst (check_no_progress e x now a b c rep))"
  by (auto simp: check_no_progress_def Let_def intro!: grows_ops split: option.splits)

lemma grows_reconcile_execution: "grows d (fst (reconcile_execution cfg now nodes x (d, rep)))"
  using grows_mark_lost [of d x _ now]
  by (auto simp: reconcile_execution_def Let_def intro!: grows_check_no_progress grows_ops
      dest: arg_cong [of _ _ fst] split: prod.splits) (metis fst_conv grows_stop(1))+

lemma grows_repair_task: "grows d (fst (repair_task cfg now k (d, rep)))"
  by (auto simp: repair_task_def intro!: grows_ops split: option.splits repair.splits)

lemma grows_reconcile_once: "grows d (fst (reconcile_once d cfg now))"
proof -
  obtain d1 rep where f: "fold (reconcile_execution cfg now (node_for d)) (active_executions d) (d, empty_report) = (d1, rep)"
    by (meson surj_pair)
  have "grows d d1"
    using grows_fold_pair [of "reconcile_execution cfg now (node_for d)" d "active_executions d" empty_report] f
    by (simp add: grows_reconcile_execution)
  moreover have "grows d1 (fst (repair_orphaned_tasks d1 cfg now rep))"
    unfolding repair_orphaned_tasks_def by (rule grows_fold_pair) (rule grows_repair_task)
  ultimately show ?thesis by (auto simp: reconcile_once_def f intro: grows_trans)
qed

lemma grows_drain_row: "grows d (fst (drain_row cfg now p (d, n)))"
  by (cases p) (auto simp: drain_row_def Let_def intro!: grows_ops split: option.splits)

lemma grows_finalize: "grows d (fst (finalize_drained_logs d cfg now))"
  unfolding finalize_drained_logs_def by (rule grows_fold_pair) (rule grows_drain_row)

lemma grows_seal: "grows d (seal d k now)"
  by (simp add: grows_def seal_def seal_row_def log_key_def comp_def if_distrib cong: map_cong)

lemma grows_ledger: "grows d (ledger_db d cfg s t e c now)"
  by (simp add: grows_def ledger_db_def upsert_ledger_def trim_ledger_def new_id_def Let_def split: option.splits)

lemma grows_drive_breaker:
  "drive_breaker d sched s t rows n th cur cls fin now = Some (d', s', r) \<Longrightarrow> grows d d'"
  by (auto simp: drive_breaker_def enter_open_def enter_held_def close_breaker_def maybe_escalate_def Let_def
      intro!: grows_ops split: breaker_state.splits if_splits option.splits)

lemma extends_record_ledger: "record_ledger d cfg t e cls now = Some (d', r) \<Longrightarrow> extends d d'"
proof (erule record_ledger_cases)
  fix k s d2 s2
  assume "drive_breaker (ledger_db d cfg s t e cls now) (cfg_scheduler cfg)
      (s\<lparr>s_consecutive_error_count := int (count_consecutive (current_run (ledger_db d cfg s t e cls now) s))\<rparr>) t
      (current_run (ledger_db d cfg s t e cls now) s) (count_consecutive (current_run (ledger_db d cfg s t e cls now) s))
      (auto_disable_after_errors (cfg_scheduler cfg)) (or_default (t_schedule_generation t) 0 = s_outcome_generation s)
      cls (or_default (t_finished_at t) now) now = Some (d2, s2, r)"
    and "d' = save_schedule d2 s2"
  then show "extends d d'"
    using grows_trans [OF grows_ledger grows_drive_breaker] extends_trans [OF grows_extends extends_save_schedule] by metis
qed (simp add: grows_extends)

lemma extends_record_one: "record_one cfg now k (d, tr) = Some (d', tr') \<Longrightarrow> extends d d'"
proof (erule record_one_cases)
  fix t e cls r
  assume "record_ledger (save_task (seal d k now) (stamp_outcome t e now)) cfg (stamp_outcome t e now) e cls now = Some (d', r)"
  then have "extends (save_task (seal d k now) (stamp_outcome t e now)) d'" by (rule extends_record_ledger)
  then show "extends d d'" using grows_extends [OF grows_save(1) [OF grows_seal]] extends_trans by blast
qed (auto intro: grows_extends [OF grows_save(1) [OF grows_seal]] grows_extends)

lemma extends_record_all: "record_all cfg now ks (d, tr) = Some (d', tr') \<Longrightarrow> extends d d'"
proof (induction ks arbitrary: d tr)
  case (Cons k ks)
  then obtain d1 tr1 where "record_one cfg now k (d, tr) = Some (d1, tr1)" "record_all cfg now ks (d1, tr1) = Some (d', tr')"
    by (auto simp: bind_eq_Some_conv)
  with Cons.IH show ?case by (blast intro: extends_trans extends_record_one)
qed (simp add: extends_def)

section \<open>The dispatcher and the cancel request\<close>

lemma grows_try_dispatch:
  "try_dispatch rc (d, redis) k g now = Some ((d', redis'), res) \<Longrightarrow> grows d d'"
  by (erule try_dispatch_cases) (auto intro: grows_ops)

lemma moves_try_dispatch:
  assumes "try_dispatch rc (d, redis) k g now = Some ((d', redis'), res)"
  shows "moves d d'"
  using try_dispatch_frame [OF assms] by (intro moves_same_tables) simp_all

lemma grows_fail_timeout: "grows d e \<Longrightarrow> grows d (fail_execution_dispatch_timeout e row now)"
  by (auto simp: fail_execution_dispatch_timeout_def Let_def intro!: grows_ops split: option.splits)

lemma grows_process_row: "process_row rc k now (d, redis) = Some (d', redis') \<Longrightarrow> grows d d'"
proof (erule process_row_cases)
  fix row e result
  assume "try_dispatch rc (d, redis) k False now = Some ((e, redis'), result)"
  then have "grows d e" by (rule grows_try_dispatch)
  moreover assume "d' = (if dr_outcome result = Failed \<and> o_type row = Cmd_run
      then fail_execution_dispatch_timeout e row now else e)"
  ultimately show ?thesis by (auto intro: grows_fail_timeout)
qed (auto simp: Let_def intro!: grows_fail_timeout grows_ops)

lemma safe_process_rows:
  "process_rows rc ks now (d, redis) = Some (d', redis') \<Longrightarrow> grows d d' \<and> moves d d'"
proof (induction ks arbitrary: d redis)
  case (Cons k ks)
  then obtain e r where s: "process_row rc k now (d, redis) = Some (e, r)"
      and rest: "process_rows rc ks now (e, r) = Some (d', redis')"
    by (auto split: option.splits)
  from Cons.IH [OF rest] grows_process_row [OF s] process_row_frame [OF s] show ?case
    by (blast intro: grows_trans moves_trans)
qed simp

definition safe :: "db \<Rightarrow> db \<Rightarrow> bool" where
  "safe d d' \<longleftrightarrow> grows d d' \<and> moves d d'"

lemma safe_refl [simp]: "safe d d"
  by (simp add: safe_def)

lemma safe_trans: "safe d e \<Longrightarrow> safe e f \<Longrightarrow> safe d f"
  unfolding safe_def by (blast intro: grows_trans moves_trans)

lemma safe_outbox_only:
  "db_tasks d' = db_tasks d \<Longrightarrow> db_executions d' = db_executions d \<Longrightarrow> db_log_files d' = db_log_files d
    \<Longrightarrow> db_schedules d' = db_schedules d \<Longrightarrow> db_next_id d \<le> db_next_id d' \<Longrightarrow> safe d d'"
  by (simp add: safe_def grows_def moves_same_tables)

lemma safe_requeue: "safe d (fst (requeue_row rc redis now r (d, ks)))"
  by (auto simp: requeue_row_eq intro: safe_outbox_only)

lemma safe_fold_pair: "(\<And>a d n. safe d (fst (f a (d, n)))) \<Longrightarrow> safe d (fst (fold f as (d, n)))"
proof (induction as arbitrary: d n)
  case (Cons a as)
  have "safe (fst (f a (d, n))) (fst (fold f as (f a (d, n))))"
    using Cons.IH [OF Cons.prems, of "fst (f a (d, n))" "snd (f a (d, n))"] by simp
  with Cons.prems [of d a n] show ?case by (auto intro: safe_trans)
qed simp

lemma safe_notify: "safe d (fst (notify d now ty sv p k))"
  by (simp add: safe_def grows_notify moves_notify)

lemma safe_reconcile_sent: "safe d (fst (snd (reconcile_sent_once rc redis now (dp, d))))"
proof (cases "dp_settings dp")
  case (Some cfg)
  let ?p = "sweep_page d dp (now - secs (max 0 (sent_reconcile_min_age_seconds (cfg_redis cfg))))
      (nat (max 1 (sent_reconcile_batch_limit (cfg_redis cfg))))"
  obtain e ks where f: "fold (requeue_row rc redis now) (fst ?p) (d, []) = (e, ks)" by (meson surj_pair)
  have "safe d (fst (fold (requeue_row rc redis now) (fst ?p) (d, [])))"
    by (rule safe_fold_pair) (rule safe_requeue)
  then have "safe d e" by (simp add: f)
  with Some f show ?thesis
    by (auto simp: reconcile_sent_once_def Let_def case_prod_beta intro: safe_trans safe_notify)
qed (simp add: reconcile_sent_once_def)

lemma safe_tick:
  assumes "tick rc clock now (dp, d, redis) = Some (dp', d', redis')"
  shows "safe d d'"
proof -
  obtain dp1 e ks where r: "reconcile_sent_once rc redis now (dp\<lparr>dp_last_sent_reconcile := Some clock\<rparr>, d) = (dp1, e, ks)"
    by (metis surj_pair)
  define e1 where "e1 = (if sent_reconcile_due dp clock then e else d)"
  have "safe d e1" using safe_reconcile_sent [of d rc redis now "dp\<lparr>dp_last_sent_reconcile := Some clock\<rparr>"] r by (simp add: e1_def)
  moreover have "\<exists>n. process_rows rc (dispatch_batch e1 n) now (e1, redis) = Some (d', redis')"
    using assms r by (auto simp: tick_def e1_def Let_def split: if_splits option.splits)
  then have "safe e1 d'" unfolding safe_def by (blast dest: safe_process_rows)
  ultimately show ?thesis by (rule safe_trans)
qed

lemma safe_cancel_unsent: "safe d (fst (cancel_unsent_outbox d now k))"
  by (rule safe_outbox_only) (simp_all add: cancel_unsent_outbox_def Let_def)

lemma safe_create_stops: "safe d (fst (create_stops d now k xs))"
proof (induction xs arbitrary: d)
  case (Cons x xs)
  let ?n = "create_stop_outbox d now k (x_id x) (or_default (x_agent_id x) []) Intent_cancel"
  have "safe d (fst ?n)"
    by (simp add: safe_def create_stop_outbox_def grows_new_command moves_same_tables)
  moreover have "safe (fst ?n) (fst (create_stops (fst ?n) now k xs))" by (rule Cons.IH)
  ultimately have "safe d (fst (create_stops (fst ?n) now k xs))" by (rule safe_trans)
  then show ?case using Cons.IH by (auto simp: case_prod_beta Let_def)
qed simp

lemma safe_dispatch_all:
  "dispatch_all rc ks g now (d, redis) = Some ((d', redis'), res) \<Longrightarrow> safe d d'"
proof (induction ks arbitrary: d redis res)
  case (Cons k ks)
  obtain e r one where s: "try_dispatch rc (d, redis) k g now = Some ((e, r), one)"
    using Cons.prems by (auto split: option.splits)
  then obtain rs where rest: "dispatch_all rc ks g now (e, r) = Some ((d', redis'), rs)"
    using Cons.prems by (auto split: option.splits)
  have "safe d e" using s by (simp add: safe_def grows_try_dispatch moves_try_dispatch)
  with Cons.IH [OF rest] show ?case by (blast intro: safe_trans)
qed simp

lemma safe_request_cancel:
  assumes "request_cancel rc t now (d, redis) = Some ((d', redis'), n)"
  shows "safe d d'"
proof -
  let ?c = "fst (cancel_unsent_outbox d now (t_id t))"
  obtain e ks where st: "create_stops ?c now (t_id t) (list_executions ?c (t_id t)) = (e, ks)" by (meson surj_pair)
  with assms obtain res where "dispatch_all rc ks False now (e, redis) = Some ((d', redis'), res)"
    by (auto simp: request_cancel_def Let_def split: option.splits)
  then have "safe e d'" by (rule safe_dispatch_all)
  moreover have "safe ?c e" using safe_create_stops [of ?c now "t_id t" "list_executions ?c (t_id t)"] st by simp
  ultimately show ?thesis by (blast intro: safe_trans safe_cancel_unsent)
qed

section \<open>A run\<close>

lemma wf_create_task:
  assumes "wf_db d" and "create_task d request origin now = (d0, t)"
  shows "wf_db d0 \<and> moves d d0"
proof -
  note f = create_task_facts [OF assms(2)]
  have "db_log_files d0 = db_log_files d" "db_schedules d0 = db_schedules d"
    using assms(2) by (auto simp: create_task_def new_id_def Let_def)
  with assms(1) f have "wf_db d0" by (auto simp: wf_db_def keys_unique_def)
  moreover have "moves d d0" by (rule moves_append) (use f in auto)
  ultimately show ?thesis ..
qed

lemma new_task_unknown:
  assumes "wf_db d" and "create_task d request origin now = (d0, t)"
  shows "find_task d (t_id t) = None" "find_task d0 (t_id t) = Some t"
proof -
  note f = create_task_facts [OF assms(2)]
  have "t_id t \<notin> set (map t_id (db_tasks d))" using assms(1) f(1) by (simp add: wf_db_def)
  then show n: "find_task d (t_id t) = None"
    unfolding find_task_def find_row_def find_None_iff by (metis image_eqI list.set_map)
  then show "find_task d0 (t_id t) = Some t" using f(3) by (simp add: find_task_def find_row_append)
qed

lemma wf_launch_one:
  assumes "wf_db d"
  shows "wf_db (fst (create_log_file (fst (create_run_outbox (fst (create_execution d t n now)) now k
      (x_id (snd (create_execution d t n now))) a p True)) cfg t (snd (create_execution d t n now)) Stream_log now))"
  using assms
  by (auto simp: create_execution_def create_run_outbox_def new_command_def windows_def new_id_def
      add_command_def create_log_file_def Let_def wf_db_def keys_unique_def log_key_def image_iff)

lemma launch_wf: "wf_db d \<Longrightarrow> wf_db (fst (launch cfg now params t ns d)) \<and> moves d (fst (launch cfg now params t ns d))"
proof -
  have "wf_db d \<Longrightarrow> wf_db (fst (launch cfg now params t ns d))"
  proof (induction ns arbitrary: d)
    case (Cons n ns)
    note one = wf_launch_one [OF Cons.prems, of t n now "t_id t" "or_default (nd_agent_id n) []"
        "run_payload params t (snd (create_execution d t n now))" cfg]
    show ?case using Cons.IH [OF one] by (simp add: case_prod_beta Let_def)
  qed simp
  moreover have "moves d (fst (launch cfg now params t ns d))"
    using launch_spec [of d t ns cfg now params]
    by (auto simp: launched_ok_def intro: moves_append [where ts = "[]"])
  ultimately show "wf_db d \<Longrightarrow> ?thesis" by blast
qed

lemma safe_fail_unavailable:
  assumes "find_task d k = Some t" and "t_status t \<in> TASK_ACTIVE" and "keys_unique d"
  shows "safe d (fail_dispatch_unavailable d k now)"
proof -
  let ?t = "t\<lparr>t_status := TASK_FAILED, t_started_at := first_some (t_started_at t) (Some now), t_finished_at := Some now,
      t_updated_at := now\<rparr>"
  have "task_order (t_status t) TASK_FAILED" using assms(2) by (rule task_active_order) simp
  with assms(1) have "moves d (save_task d ?t)" by (intro moves_update(2)) simp_all
  then have "safe d (save_task d ?t)" by (simp add: safe_def grows_save)
  moreover have f: "safe e (fold (\<lambda>x d. if x_status x \<in> EXEC_ACTIVE then save_execution d (unavailable_execution x now) else d)
      xs e)" if "\<forall>x \<in> set xs. find_execution e (x_id x) = Some x" "distinct (map x_id xs)" for xs e
    using that
  proof (induction xs arbitrary: e)
    case (Cons x xs)
    let ?e = "if x_status x \<in> EXEC_ACTIVE then save_execution e (unavailable_execution x now) else e"
    have "find_execution e (x_id x) = Some x" using Cons.prems(1) by simp
    then have "moves e ?e" by (simp add: unavailable_execution_def moves_fail_execution)
    then have "safe e ?e" by (simp add: safe_def grows_save)
    moreover have "\<forall>y \<in> set xs. find_execution ?e (x_id y) = Some y"
    proof
      fix y assume y: "y \<in> set xs"
      then have "x_id y \<noteq> x_id x" using Cons.prems(2) by (metis distinct.simps(2) image_eqI list.set_map list.simps(9))
      then have "find_execution ?e (x_id y) = find_execution e (x_id y)"
        by (simp add: executions.lookup_update unavailable_execution_def)
      with Cons.prems(1) y show "find_execution ?e (x_id y) = Some y" by simp
    qed
    then have r: "safe ?e (fold (\<lambda>x d. if x_status x \<in> EXEC_ACTIVE then save_execution d (unavailable_execution x now) else d)
      xs ?e)" using Cons.prems(2) by (intro Cons.IH) simp_all
    ultimately show ?case using safe_trans [OF _ r] by simp
  qed simp
  moreover have "\<forall>x \<in> set (list_executions d k). find_execution (save_task d ?t) (x_id x) = Some x"
    using list_executions_find [OF assms(3)] by simp
  moreover have "distinct (map x_id (list_executions d k))"
    using assms(3) by (simp add: list_executions_def distinct_map keys_unique_def inj_on_def)
  ultimately have "safe d (fold (\<lambda>x d. if x_status x \<in> EXEC_ACTIVE then save_execution d (unavailable_execution x now) else d)
      (list_executions d k) (save_task d ?t))"
    using safe_trans [OF _ f] by blast
  moreover have "fail_dispatch_unavailable d k now
      = fold (\<lambda>x d. if x_status x \<in> EXEC_ACTIVE then save_execution d (unavailable_execution x now) else d)
        (list_executions d k) (save_task d ?t)"
    unfolding fail_dispatch_unavailable_def assms(1) option.case Let_def unavailable_execution_def by simp
  ultimately show ?thesis by simp
qed

text \<open>What a run adds: at most one task, of the schedule its origin names.\<close>

lemma launch_schedules: "db_schedules (fst (launch cfg now params t ns d)) = db_schedules d"
  by (induction ns arbitrary: d)
    (simp_all add: create_execution_def create_run_outbox_def new_command_def windows_def new_id_def add_command_def
      create_log_file_def Let_def case_prod_beta)

definition adds_task :: "db \<Rightarrow> db \<Rightarrow> string option \<Rightarrow> bool" where
  "adds_task d d' schedule_id \<longleftrightarrow> map t_id (db_tasks d') = map t_id (db_tasks d)
     \<or> (\<exists>t. map t_id (db_tasks d') = map t_id (db_tasks d) @ [t_id t] \<and> find_task d' (t_id t) = Some t
          \<and> t_schedule_id t = schedule_id)"

lemma executor_run_adds:
  assumes wf: "wf_db d"
    and "executor_run kind rc choice commit_ok cfg now request origin (d, redis) = Some ((d', redis'), fin)"
  shows "wf_db d' \<and> moves d d' \<and> db_schedules d' = db_schedules d \<and> adds_task d d' (og_schedule_id origin)"
proof -
  have run: "?thesis" if c: "create_task d request origin now = (d0, t)" and m: "moves d0 d'" and w: "wf_db d'"
      and ids: "map t_id (db_tasks d') = map t_id (db_tasks d0)" and s: "db_schedules d' = db_schedules d0" for d0 t
  proof -
    note f = create_task_facts [OF c]
    have o: "t_schedule_id t = og_schedule_id origin" "db_schedules d0 = db_schedules d"
      using c by (auto simp: create_task_def new_id_def Let_def)
    obtain t' where t': "find_task d' (t_id t) = Some t'" "t_schedule_id t' = t_schedule_id t"
      using moves_taskD [OF m new_task_unknown(2) [OF wf c]] by blast
    then have "t_id t' = t_id t" using tasks.lookup_key by blast
    moreover have "moves d d'" using wf_create_task [OF wf c] m by (blast intro: moves_trans)
    ultimately show ?thesis using t' o ids s w f(3) unfolding adds_task_def by (intro conjI disjI2 exI [of _ t']) simp_all
  qed
  from assms(2) show ?thesis
  proof (cases rule: executor_run_cases)
    case (no_target d0 t n)
    note c = wf_create_task [OF wf no_target(1)] and f = create_task_facts [OF no_target(1)]
      and u = new_task_unknown [OF wf no_target(1)]
    have o: "t_schedule_id t = og_schedule_id origin" "db_schedules d0 = db_schedules d"
      using no_target(1) by (auto simp: create_task_def new_id_def Let_def)
    let ?t = "mark_no_target t (rq_node_strategy request) (rq_node_ids request) n now"
    have "t_id ?t = t_id t" "t_schedule_id ?t = t_schedule_id t" by (simp_all add: mark_no_target_def)
    moreover have "map t_id (db_tasks (save_task d0 ?t)) = map t_id (db_tasks d0)"
      using grows_save(1) [OF grows_refl, of d0 ?t] by (simp add: grows_def)
    moreover have "wf_db (save_task d0 ?t)" using c grows_wf grows_save(1) [OF grows_refl] by blast
    moreover have "moves d (save_task d0 ?t)"
    proof -
      have "t_id t' \<noteq> t_id t" if "t' \<in> set (db_tasks d)" for t'
        using that wf f(1) unfolding wf_db_def by (metis image_eqI list.set_map order_refl)
      then have "db_tasks (save_task d0 ?t) = db_tasks d @ [?t]"
        by (simp add: save_task_def set_row_def f(3) mark_no_target_def map_idI)
      then show ?thesis by (rule moves_append [where xs = "[]"]) (simp add: f(4))
    qed
    ultimately show ?thesis using no_target o f(3) u(2) unfolding adds_task_def
      by (intro conjI disjI2 exI [of _ ?t]) (simp_all add: tasks.lookup_update)
  next
    case (unavailable d0 t nodes params d1 ks d2 results)
    note c = wf_create_task [OF wf unavailable(1)]
    have l: "wf_db d1" "moves d0 d1" using launch_wf [of d0 cfg now params t nodes] c unavailable(3) by auto
    have s: "safe d1 d2" using unavailable(4) by (rule safe_dispatch_all)
    then have w2: "wf_db d2" using l(1) grows_wf by (auto simp: safe_def)
    obtain la where la: "launched_ok d0 t nodes d1 ks la"
      using launch_spec [of d0 t nodes cfg now params] unavailable(3) by auto
    have "find_task d1 (t_id t) = Some t"
      using new_task_unknown(2) [OF wf unavailable(1)] la by (simp add: launched_ok_def find_task_def)
    moreover have "db_tasks d2 = db_tasks d1"
      using dispatch_all_spec [where P = "\<lambda>_. True", OF unavailable(4)] la by (simp add: launched_ok_def)
    ultimately have t: "find_task d2 (t_id t) = Some t" by (simp add: find_task_def)
    have "safe d2 d'" unfolding unavailable(6)
      by (rule safe_fail_unavailable [OF t]) (use create_task_facts(2) [OF unavailable(1)] w2 in \<open>simp_all add: TASK_ACTIVE_def wf_db_def\<close>)
    moreover have "map t_id (db_tasks d1) = map t_id (db_tasks d0)" "db_schedules d1 = db_schedules d0"
      using la launch_schedules [of cfg now params t nodes d0] unavailable(3) by (simp_all add: launched_ok_def)
    moreover have "wf_db d'" using calculation(1) w2 grows_wf by (auto simp: safe_def)
    ultimately show ?thesis
      using run [OF unavailable(1)] s l(2) by (auto simp: safe_def grows_def intro: moves_trans)
  next
    case (ok d0 t nodes params d1 ks results)
    have l: "wf_db d1" "moves d0 d1"
      using launch_wf [of d0 cfg now params t nodes] wf_create_task [OF wf ok(1)] ok(3) by auto
    obtain la where la: "launched_ok d0 t nodes d1 ks la"
      using launch_spec [of d0 t nodes cfg now params] ok(3) by auto
    moreover have "db_schedules d1 = db_schedules d0" using launch_schedules [of cfg now params t nodes d0] ok(3) by simp
    moreover have "safe d1 d'" using ok(4) by (rule safe_dispatch_all)
    moreover from this have "wf_db d'" using grows_wf [OF l(1)] by (auto simp: safe_def)
    ultimately show ?thesis
      using run [OF ok(1)] l by (auto simp: safe_def grows_def launched_ok_def intro: moves_trans)
  next
    case (unknown d0 t nodes params ks d2 results)
    obtain la where "launched_ok d0 t nodes d' ks la"
      using launch_spec [of d0 t nodes cfg now params] unknown(3) by auto
    moreover have "wf_db d'" "moves d0 d'"
      using launch_wf [of d0 cfg now params t nodes] wf_create_task [OF wf unknown(1)] unknown(3) by auto
    moreover have "db_schedules d' = db_schedules d0" using launch_schedules [of cfg now params t nodes d0] unknown(3) by simp
    ultimately show ?thesis using run [OF unknown(1)] by (simp add: launched_ok_def)
  qed (use wf in \<open>simp_all add: adds_task_def\<close>)
qed

lemma run_template_adds:
  assumes wf: "wf_db d"
    and "run_execution_template rc choice ok cfg now t source schedule_id ov g (d, redis) = Some ((d', redis'), fin)"
  shows "wf_db d' \<and> moves d d' \<and> db_schedules d' = db_schedules d \<and> adds_task d d' schedule_id"
  using assms(2) wf
  by (auto simp: run_execution_template_def dispatch_resolved_def adds_task_def Let_def
      split: sum.splits prod.splits dest!: executor_run_adds [OF wf, unfolded adds_task_def])

lemma run_locked_adds:
  assumes wf: "wf_db d"
    and "run_locked rc choice ok cfg now source s (d, redis) = Some ((d', redis'), fin)"
  shows "wf_db d' \<and> moves d d' \<and> db_schedules d' = db_schedules d \<and> adds_task d d' (Some (s_id s))"
  using assms(2) wf
  by (auto simp: run_locked_def adds_task_def split: sum.splits
      dest!: run_template_adds [OF wf, unfolded adds_task_def])

lemma rolled_back_cases:
  "rolled_back d res = ((d', redis'), fin) \<Longrightarrow> (\<exists>f. res = ((d', redis'), f)) \<or> d' = d"
  by (auto simp: rolled_back_def split: prod.splits run_end.splits if_splits)

lemma admit_breaker_db:
  assumes "admit_breaker d s breaker now = (d', Granted s')" and "find_schedule d k = Some s"
  shows "s_id s' = k \<and> s_max_concurrency s' = s_max_concurrency s \<and> (d' = d \<or> d' = save_schedule d s')"
  using assms(1) schedules.lookup_key [OF assms(2)]
  by (auto simp: admit_breaker_def Let_def split: option.splits breaker_state.splits if_splits)

text \<open>One firing, by the timer or by hand: what it may change.\<close>

lemma fired_cases:
  assumes "wf_db d" and "fire_timer rc choice ok cfg now k (d, redis) = Some ((d', redis'), te)
      \<or> trigger_now rc choice ok cfg now k (d, redis) = Some ((d', redis'), fin)"
  obtains "d' = d" | s0 s d1 source rend where "find_schedule d k = Some s0" "s_id s = k"
    "s_max_concurrency s = s_max_concurrency s0" "d1 = d \<or> d1 = save_schedule d s"
    "s_max_concurrency s0 \<noteq> 0 \<longrightarrow> int (count_active_tasks_for_schedule d k) < s_max_concurrency s0"
    "run_locked rc choice ok cfg now source s (d1, redis) = Some ((d', redis'), rend)"
proof -
  note wanted = that
  have go: thesis if c: "acquire_firing_slot d k rf re cb breaker now = Inr (d1, Granted s)"
      and l: "run_locked rc choice ok cfg now source s (d1, redis) = Some ((d', redis'), rend)" for rf re cb breaker d1 s source rend
    using c
  proof (rule acquire_granted_cases)
    fix s0 assume a: "find_schedule d k = Some s0" "admit_breaker d s0 breaker now = (d1, Granted s)"
      "s_max_concurrency s0 \<noteq> 0 \<longrightarrow> int (count_active_tasks_for_schedule d k) < s_max_concurrency s0"
    from admit_breaker_db [OF a(2,1)] a(1,3) l show thesis by (intro wanted(2) [of s0 s d1]) simp_all
  qed
  from assms(2) show thesis
  proof
    assume "fire_timer rc choice ok cfg now k (d, redis) = Some ((d', redis'), te)"
    then have "d' = d \<or> (\<exists>d1 s res. acquire_firing_slot d k False True True (Some (cfg_scheduler cfg)) now = Inr (d1, Granted s)
        \<and> run_locked rc choice ok cfg now TASK_SOURCE_TIMER s (d1, redis) = Some res \<and> fst (rolled_back d res) = (d', redis'))"
      by (auto simp: fire_timer_def split: sum.splits prod.splits firing_slot.splits)
    then show thesis
    proof
      assume "d' = d"
      then show thesis by (rule that(1))
    next
      assume "\<exists>d1 s res. acquire_firing_slot d k False True True (Some (cfg_scheduler cfg)) now = Inr (d1, Granted s)
        \<and> run_locked rc choice ok cfg now TASK_SOURCE_TIMER s (d1, redis) = Some res \<and> fst (rolled_back d res) = (d', redis')"
      then obtain d1 s res fin' where a: "acquire_firing_slot d k False True True (Some (cfg_scheduler cfg)) now = Inr (d1, Granted s)"
          "run_locked rc choice ok cfg now TASK_SOURCE_TIMER s (d1, redis) = Some res" "rolled_back d res = ((d', redis'), fin')"
        by (metis prod.collapse)
      from rolled_back_cases [OF a(3)] show thesis using a(1,2) by (auto intro: that(1) go)
    qed
  next
    assume "trigger_now rc choice ok cfg now k (d, redis) = Some ((d', redis'), fin)"
    then have "d' = d \<or> (\<exists>d1 s res. acquire_firing_slot d k True False False None now = Inr (d1, Granted s)
        \<and> run_locked rc choice ok cfg now TASK_SOURCE_TRIGGER_NOW s (d1, redis) = Some res \<and> rolled_back d res = ((d', redis'), fin))"
      by (auto simp: trigger_now_def split: sum.splits prod.splits firing_slot.splits)
    then show thesis
    proof
      assume "\<exists>d1 s res. acquire_firing_slot d k True False False None now = Inr (d1, Granted s)
        \<and> run_locked rc choice ok cfg now TASK_SOURCE_TRIGGER_NOW s (d1, redis) = Some res \<and> rolled_back d res = ((d', redis'), fin)"
      then obtain d1 s res where a: "acquire_firing_slot d k True False False None now = Inr (d1, Granted s)"
          "run_locked rc choice ok cfg now TASK_SOURCE_TRIGGER_NOW s (d1, redis) = Some res" "rolled_back d res = ((d', redis'), fin)"
        by blast
      from rolled_back_cases [OF a(3)] show thesis using a(1,2) by (auto intro: that(1) go)
    qed (rule that(1))
  qed
qed

section \<open>Any interleaving of the writers\<close>

text \<open>
  One whole operation of one writer. Its parameters are what the environment contributes: the
  stream entry, the request, the clock readings, the commit's fate. An operation that raises
  leaves the tables as they were.
\<close>

datatype server_op =
    Consume_event agent_event string
  | Reconcile_pass
  | Drain_pass
  | Record_outcomes nat
  | Dispatcher_tick instant
  | Cancel_request string
  | Mark_lost_request string
  | Run_request run_kind run_request task_origin bool
  | Run_template_request string bool
  | Fire_job string bool
  | Trigger_now_request string bool
  | Create_template_request obj
  | Update_template_request string obj
  | Delete_template_request string
  | Create_schedule_request obj
  | Update_schedule_request string obj
  | Reset_breaker_request string
  | Disable_all_request

record 'r server =
  sv_db :: db
  sv_redis :: 'r
  sv_dispatcher :: dispatcher

record 'r server_env =
  se_redis :: "'r redis_client"
  se_choice :: "node list \<Rightarrow> node"
  se_settings :: settings
  se_cron_ok :: "string \<Rightarrow> bool"

definition ran :: "'r server \<Rightarrow> ((db \<times> 'r) \<times> 'e) option \<Rightarrow> 'r server" where
  "ran s res = (case res of None \<Rightarrow> s | Some ((d, r), _) \<Rightarrow> s\<lparr>sv_db := d, sv_redis := r\<rparr>)"

definition wrote :: "'r server \<Rightarrow> 'e + db \<times> 'x \<Rightarrow> 'r server" where
  \<comment> \<open>a request that raises is rolled back\<close>
  "wrote s res = (case res of Inl _ \<Rightarrow> s | Inr (d, _) \<Rightarrow> s\<lparr>sv_db := d\<rparr>)"

definition server_op_step :: "'r server_env \<Rightarrow> instant \<times> server_op \<Rightarrow> 'r server \<Rightarrow> 'r server" where
  "server_op_step env e s =
     (case e of (now, op) \<Rightarrow>
      let cfg = se_settings env; rc = se_redis env; d = sv_db s in
      case op of
        Consume_event ev m \<Rightarrow> s\<lparr>sv_db := fst (apply_event d ev m now)\<rparr>
      | Reconcile_pass \<Rightarrow> s\<lparr>sv_db := fst (reconcile_once d cfg now)\<rparr>
      | Drain_pass \<Rightarrow> s\<lparr>sv_db := fst (finalize_drained_logs d cfg now)\<rparr>
      | Record_outcomes limit \<Rightarrow>
          (case record_task_outcomes d cfg now limit of None \<Rightarrow> s | Some (d', _) \<Rightarrow> s\<lparr>sv_db := d'\<rparr>)
      | Dispatcher_tick clock \<Rightarrow>
          (case tick rc clock now (sv_dispatcher s, d, sv_redis s) of
             None \<Rightarrow> s
           | Some (dp, d', r) \<Rightarrow> s\<lparr>sv_db := d', sv_redis := r, sv_dispatcher := dp\<rparr>)
      | Cancel_request k \<Rightarrow>
          (case find_task d k of
             None \<Rightarrow> s
           | Some t \<Rightarrow> (case request_cancel rc t now (d, sv_redis s) of
               None \<Rightarrow> s
             | Some ((d', r), _) \<Rightarrow> s\<lparr>sv_db := d', sv_redis := r\<rparr>))
      | Mark_lost_request k \<Rightarrow>
          (case find_task d k of None \<Rightarrow> s
           | Some t \<Rightarrow> (case mark_task_lost d t now of Inl e \<Rightarrow> s | Inr (d', _) \<Rightarrow> s\<lparr>sv_db := d'\<rparr>))
      | Run_request kind request origin commit_ok \<Rightarrow>
          ran s (executor_run kind rc (se_choice env) commit_ok cfg now request origin (d, sv_redis s))
      | Run_template_request k ok \<Rightarrow> ran s (run_template rc (se_choice env) ok cfg now k (d, sv_redis s))
      | Fire_job k ok \<Rightarrow> ran s (map_option (\<lambda>dr. (dr, ())) (fire_job rc (se_choice env) ok cfg now k (d, sv_redis s)))
      | Trigger_now_request k ok \<Rightarrow> ran s (trigger_now rc (se_choice env) ok cfg now k (d, sv_redis s))
      | Create_template_request data \<Rightarrow> wrote s (create_template d data now)
      | Update_template_request k data \<Rightarrow>
          (case find_template d k of None \<Rightarrow> s | Some t \<Rightarrow> wrote s (update_template d t data))
      | Delete_template_request k \<Rightarrow>
          (case find_template d k of None \<Rightarrow> s
           | Some t \<Rightarrow> wrote s (map_sum id (\<lambda>d. (d, ())) (delete_template d t)))
      | Create_schedule_request data \<Rightarrow> wrote s (create_schedule (se_cron_ok env) d data now)
      | Update_schedule_request k data \<Rightarrow> wrote s (update_schedule (se_cron_ok env) d k data)
      | Reset_breaker_request k \<Rightarrow> wrote s (reset_schedule_breaker d k)
      | Disable_all_request \<Rightarrow> s\<lparr>sv_db := fst (disable_all_schedules d)\<rparr>)"

lemma step_safe:
  "safe d d' \<Longrightarrow> wf_db d \<Longrightarrow> wf_db d' \<and> moves d d'"
  by (auto simp: safe_def intro: grows_wf)

lemma safe_writers:
  "safe d (fst (apply_event d ev m now))" "safe d (fst (finalize_drained_logs d cfg now))"
  "keys_unique d \<Longrightarrow> safe d (fst (reconcile_once d cfg now))"
  by (simp_all add: safe_def grows_apply_event apply_event_moves grows_finalize moves_finalize
      grows_reconcile_once moves_reconcile_once)

lemma record_outcomes_step:
  "record_task_outcomes d cfg now limit = Some (d', tr) \<Longrightarrow> wf_db d \<Longrightarrow> wf_db d' \<and> moves d d' \<and> extends d d' \<and> keeps_schedules d d'"
  by (auto simp: record_task_outcomes_def dest: extends_record_all record_all_effect intro: extends_wf)

lemma grows_mark_executions_lost:
  "mark_executions_lost xs now d = (d', n, al) \<Longrightarrow> grows d d'"
proof (induction xs arbitrary: d n al)
  case (Cons x xs)
  have "grows d (fst (mark_lost d x MANUAL_LOST_REASON now))" by (rule grows_mark_lost)
  then show ?case
    using Cons by (auto split: if_splits prod.splits intro: grows_trans)
qed simp

lemma safe_mark_task_lost:
  assumes "wf_db d" and "find_task d k = Some t" and "mark_task_lost d t now = Inr (d', m)"
  shows "safe d d'"
proof -
  have k: "t_id t = k" by (rule tasks.lookup_key [OF assms(2)])
  have "moves d d'"
    using mark_task_lost_effect [of d t t now d' m] assms k by (simp add: wf_db_def)
  moreover have "grows d d'"
    using assms(3) by (auto simp: mark_task_lost_def Let_def split: if_splits prod.splits
        dest!: grows_mark_executions_lost intro: grows_save)
  ultimately show ?thesis by (simp add: safe_def)
qed

text \<open>The requests that write templates and schedules.\<close>

lemma bind_res_Inr: "bind_res r f = Inr y \<longleftrightarrow> (\<exists>x. r = Inr x \<and> f x = Inr y)"
  by (auto simp: bind_res_def split: sum.splits)

definition schedules_only :: "db \<Rightarrow> db \<Rightarrow> bool" where
  \<comment> \<open>no task, execution or log changes; schedules may, except for their limits\<close>
  "schedules_only d d' \<longleftrightarrow> db_tasks d' = db_tasks d \<and> db_executions d' = db_executions d
     \<and> db_log_files d' = db_log_files d"

lemma schedules_only_step:
  assumes "schedules_only d d'" and "wf_db d" and "db_next_id d \<le> db_next_id d'"
    and "map s_id (db_schedules d') = map s_id (db_schedules d) @ map fresh_id [db_next_id d ..< n]" and "n \<le> db_next_id d'"
  shows "wf_db d' \<and> moves d d'"
proof -
  have "moves d d'" using assms(1) by (intro moves_same_tables) (simp_all add: schedules_only_def)
  moreover have "distinct (map s_id (db_schedules d'))"
  proof -
    have "distinct (map s_id (db_schedules d))" using assms(2) by (simp add: wf_db_def keys_unique_def)
    moreover have "distinct (map fresh_id [db_next_id d ..< n])" by (simp add: distinct_map inj_on_def)
    moreover have "set (map s_id (db_schedules d)) \<inter> set (map fresh_id [db_next_id d ..< n]) = {}"
    proof -
      have "k \<notin> set (map s_id (db_schedules d))" if "k \<in> set (map fresh_id [db_next_id d ..< n])" for k
      proof -
        from that obtain m where "k = fresh_id m" "m \<ge> db_next_id d" by auto
        with assms(2) show ?thesis by (simp add: wf_db_def del: set_map)
      qed
      then show ?thesis by blast
    qed
    ultimately show ?thesis unfolding assms(4) distinct_append by blast
  qed
  moreover have "fresh_id m \<notin> set (map s_id (db_schedules d'))" if "m \<ge> db_next_id d'" for m
  proof -
    have "fresh_id m \<notin> set (map fresh_id [db_next_id d ..< n])" using that assms(5) by auto
    moreover have "m \<ge> db_next_id d" using that assms(3) by simp
    ultimately show ?thesis unfolding assms(4) set_append using assms(2) by (simp add: wf_db_def del: set_map)
  qed
  ultimately show ?thesis using assms(1-3) by (simp add: schedules_only_def wf_db_def keys_unique_def del: set_map)
qed

lemma template_writes:
  "create_template d data now = Inr (d', t) \<Longrightarrow> schedules_only d d' \<and> db_schedules d' = db_schedules d \<and> db_next_id d \<le> db_next_id d'"
  "update_template d u data = Inr (d', t) \<Longrightarrow> schedules_only d d' \<and> db_schedules d' = db_schedules d \<and> db_next_id d \<le> db_next_id d'"
  "delete_template d u = Inr d' \<Longrightarrow> schedules_only d d' \<and> db_schedules d' = db_schedules d \<and> db_next_id d \<le> db_next_id d'"
  by (auto simp: create_template_def update_template_def delete_template_def schedules_only_def Let_def new_id_def
      save_template_def split: option.splits sum.splits if_splits prod.splits)

lemma schedule_writes:
  "create_schedule cron_ok d data now = Inr (d', s) \<Longrightarrow> schedules_only d d' \<and> db_schedules d' = db_schedules d @ [s]
    \<and> s_id s = fresh_id (db_next_id d) \<and> db_next_id d' = Suc (db_next_id d)"
  "update_schedule cron_ok d k data = Inr (d', s) \<Longrightarrow> schedules_only d d' \<and> d' = save_schedule d s \<and> db_next_id d' = db_next_id d"
  "reset_schedule_breaker d k = Inr (d', s) \<Longrightarrow> schedules_only d d' \<and> (d' = d \<or> d' = save_schedule d s) \<and> db_next_id d' = db_next_id d"
  "schedules_only d (fst (disable_all_schedules d))"
  by (auto simp: create_schedule_def update_schedule_def reset_schedule_breaker_def disable_all_schedules_def
      schedules_only_def Let_def new_id_def save_schedule_def bind_res_Inr
      split: option.splits sum.splits if_splits)

lemma request_steps:
  assumes "wf_db d"
  shows "create_template d data now = Inr (d', t) \<Longrightarrow> wf_db d' \<and> moves d d'"
    and "update_template d u data = Inr (d', t) \<Longrightarrow> wf_db d' \<and> moves d d'"
    and "delete_template d u = Inr d' \<Longrightarrow> wf_db d' \<and> moves d d'"
    and "create_schedule cron_ok d data now = Inr (d', s) \<Longrightarrow> wf_db d' \<and> moves d d'"
    and "update_schedule cron_ok d k data = Inr (d', s) \<Longrightarrow> wf_db d' \<and> moves d d'"
    and "reset_schedule_breaker d k = Inr (d', s) \<Longrightarrow> wf_db d' \<and> moves d d'"
    and "wf_db (fst (disable_all_schedules d)) \<and> moves d (fst (disable_all_schedules d))"
proof -
  have same: "wf_db e \<and> moves d e" if "schedules_only d e" "map s_id (db_schedules e) = map s_id (db_schedules d)"
      "db_next_id d \<le> db_next_id e" for e
    using schedules_only_step [OF that(1) assms that(3), of 0] that by simp
  have saved: "wf_db e \<and> moves d e" if "schedules_only d e" "e = d \<or> e = save_schedule d s" for e
    using that extends_save_schedule [of d s] by (intro same) (auto simp: extends_def)
  show "create_template d data now = Inr (d', t) \<Longrightarrow> wf_db d' \<and> moves d d'"
    by (drule template_writes(1)) (simp add: same)
  show "update_template d u data = Inr (d', t) \<Longrightarrow> wf_db d' \<and> moves d d'"
    by (drule template_writes(2)) (simp add: same)
  show "delete_template d u = Inr d' \<Longrightarrow> wf_db d' \<and> moves d d'"
    by (drule template_writes(3)) (simp add: same)
  show "create_schedule cron_ok d data now = Inr (d', s) \<Longrightarrow> wf_db d' \<and> moves d d'"
    by (drule schedule_writes(1)) (rule schedules_only_step [OF _ assms, of _ "Suc (db_next_id d)"]; simp)
  show "update_schedule cron_ok d k data = Inr (d', s) \<Longrightarrow> wf_db d' \<and> moves d d'"
    using saved schedule_writes(2) by blast
  show "reset_schedule_breaker d k = Inr (d', s) \<Longrightarrow> wf_db d' \<and> moves d d'"
    using saved schedule_writes(3) by blast
  have "map s_id (db_schedules (fst (disable_all_schedules d))) = map s_id (db_schedules d)"
    by (simp add: disable_all_schedules_def comp_def if_distrib cong: if_cong)
  then show "wf_db (fst (disable_all_schedules d)) \<and> moves d (fst (disable_all_schedules d))"
    using schedule_writes(4) by (intro same) (simp_all add: disable_all_schedules_def)
qed

lemma saved_schedule_wf: "wf_db d \<Longrightarrow> wf_db (save_schedule d s) \<and> moves d (save_schedule d s)"
  using extends_wf extends_save_schedule moves_same_tables by simp

lemma firing_wf:
  assumes "wf_db d" and "fire_timer rc choice ok cfg now k (d, redis) = Some ((d', redis'), te)
      \<or> trigger_now rc choice ok cfg now k (d, redis) = Some ((d', redis'), fin)"
  shows "wf_db d' \<and> moves d d'"
  using assms
proof (rule fired_cases)
  fix s0 s d1 source rend
  assume d1: "d1 = d \<or> d1 = save_schedule d s"
    and r: "run_locked rc choice ok cfg now source s (d1, redis) = Some ((d', redis'), rend)"
  have "wf_db d1 \<and> moves d d1" using d1 assms(1) saved_schedule_wf by auto
  with run_locked_adds [OF _ r] show ?thesis by (blast intro: moves_trans)
qed (use assms(1) in simp)

lemma run_template_wf:
  "wf_db d \<Longrightarrow> run_template rc choice ok cfg now k (d, redis) = Some ((d', redis'), fin) \<Longrightarrow>
    wf_db d' \<and> moves d d' \<and> db_schedules d' = db_schedules d \<and> adds_task d d' None"
  by (auto simp: run_template_def adds_task_def split: sum.splits dest!: rolled_back_cases
      dest: run_template_adds [unfolded adds_task_def])

lemma server_op_step_wf:
  assumes "wf_db (sv_db s)"
  shows "wf_db (sv_db (server_op_step env e s)) \<and> moves (sv_db s) (sv_db (server_op_step env e s))"
proof -
  obtain now op where e: "e = (now, op)" by (meson surj_pair)
  have k: "keys_unique (sv_db s)" using assms by (simp add: wf_db_def)
  show ?thesis
  proof (cases op)
    case (Consume_event ev m)
    with step_safe [OF safe_writers(1) assms] show ?thesis by (simp add: server_op_step_def e Let_def)
  next
    case Reconcile_pass
    with step_safe [OF safe_writers(3) [OF k] assms] show ?thesis by (simp add: server_op_step_def e Let_def)
  next
    case Drain_pass
    with step_safe [OF safe_writers(2) assms] show ?thesis by (simp add: server_op_step_def e Let_def)
  next
    case (Record_outcomes n)
    with assms show ?thesis
      by (auto simp: server_op_step_def e Let_def split: option.splits dest!: record_outcomes_step [OF _ assms])
  next
    case (Dispatcher_tick clock)
    with assms show ?thesis
      by (auto simp: server_op_step_def e Let_def split: option.splits dest!: step_safe [OF safe_tick assms])
  next
    case (Cancel_request c)
    with assms show ?thesis
      by (auto simp: server_op_step_def e Let_def split: option.splits dest!: step_safe [OF safe_request_cancel assms])
  next
    case (Mark_lost_request c)
    with assms show ?thesis
      by (auto simp: server_op_step_def e Let_def split: option.splits sum.splits
          dest!: step_safe [OF safe_mark_task_lost [OF assms]])
  next
    case (Run_template_request k ok)
    with assms show ?thesis
      by (auto simp: server_op_step_def e Let_def ran_def split: option.splits dest!: run_template_wf [OF assms])
  next
    case (Fire_job k ok)
    with assms show ?thesis
      by (auto simp: server_op_step_def e Let_def ran_def fire_job_def split: option.splits if_splits
          dest!: firing_wf [OF assms disjI1])
  next
    case (Trigger_now_request k ok)
    with assms show ?thesis
      by (auto simp: server_op_step_def e Let_def ran_def split: option.splits dest!: firing_wf [OF assms disjI2])
  next
    case (Create_template_request data)
    with assms show ?thesis
      by (auto simp: server_op_step_def e Let_def wrote_def split: sum.splits dest!: request_steps(1) [OF assms])
  next
    case (Update_template_request k data)
    with assms show ?thesis
      by (auto simp: server_op_step_def e Let_def wrote_def split: sum.splits option.splits dest!: request_steps(2) [OF assms])
  next
    case (Delete_template_request k)
    with assms show ?thesis
      by (auto simp: server_op_step_def e Let_def wrote_def map_sum_def split: sum.splits option.splits
          dest!: request_steps(3) [OF assms])
  next
    case (Create_schedule_request data)
    with assms show ?thesis
      by (auto simp: server_op_step_def e Let_def wrote_def split: sum.splits dest!: request_steps(4) [OF assms])
  next
    case (Update_schedule_request k data)
    with assms show ?thesis
      by (auto simp: server_op_step_def e Let_def wrote_def split: sum.splits dest!: request_steps(5) [OF assms])
  next
    case (Reset_breaker_request k)
    with assms show ?thesis
      by (auto simp: server_op_step_def e Let_def wrote_def split: sum.splits dest!: request_steps(6) [OF assms])
  next
    case Disable_all_request
    with request_steps(7) [OF assms] show ?thesis by (simp add: server_op_step_def e Let_def)
  next
    case (Run_request kind request origin ok)
    with assms show ?thesis
      by (auto simp: server_op_step_def e Let_def ran_def split: option.splits dest!: executor_run_adds [OF assms])
  qed
qed

interpretation server: atomic_steps "server_op_step env" "\<lambda>s. wf_db (sv_db s)" "\<lambda>s t. moves (sv_db s) (sv_db t)"
  for env
  by unfold_locales (auto simp: server_op_step_wf intro: moves_trans)

text \<open>No interleaving revives the dead. Whatever the writers do, in whatever order and with
  whatever environment: identifiers stay unique; no execution or task disappears; an execution
  that is finished, failed or cancelled keeps that status for ever, a lost one can only be
  replaced by one of these; and a task that is terminal stays terminal - unchanged, unless it
  was lost.
\<close>

theorem interleaving_never_revives:
  assumes "wf_db (sv_db s)"
    and s'_def: "s' = fold (server_op_step env) ops s"
  shows "wf_db (sv_db s')
    \<and> (\<forall>k x. find_execution (sv_db s) k = Some x \<longrightarrow> (\<exists>x'. find_execution (sv_db s') k = Some x'
         \<and> x_task_id x' = x_task_id x
         \<and> (x_status x \<in> {EXEC_FINISHED, EXEC_FAILED, EXEC_CANCELED} \<longrightarrow> x_status x' = x_status x)
         \<and> (x_status x = EXEC_LOST \<longrightarrow> x_status x' \<in> {EXEC_LOST, EXEC_FINISHED, EXEC_FAILED, EXEC_CANCELED})))
    \<and> (\<forall>k t. find_task (sv_db s) k = Some t \<longrightarrow> (\<exists>t'. find_task (sv_db s') k = Some t'
         \<and> (t_status t \<in> TASK_TERMINAL \<longrightarrow> t_status t' \<in> TASK_TERMINAL
              \<and> (t_status t' = t_status t \<or> t_status t = TASK_LOST))))"
proof -
  have wf: "wf_db (sv_db s')" unfolding s'_def using assms(1) by (rule server.steps_inv)
  have m: "moves (sv_db s) (sv_db s')" unfolding s'_def using assms(1) by (rule server.steps_rel)
  have x: "\<exists>x'. find_execution (sv_db s') k = Some x' \<and> x_task_id x' = x_task_id x
         \<and> (x_status x \<in> {EXEC_FINISHED, EXEC_FAILED, EXEC_CANCELED} \<longrightarrow> x_status x' = x_status x)
         \<and> (x_status x = EXEC_LOST \<longrightarrow> x_status x' \<in> {EXEC_LOST, EXEC_FINISHED, EXEC_FAILED, EXEC_CANCELED})"
    if f: "find_execution (sv_db s) k = Some x" for k x
  proof -
    obtain x' where x': "find_execution (sv_db s') k = Some x'" "exec_order x x'"
      using moves_executionD [OF m f] by blast
    then have "is_valid_execution_transition (x_status x) (x_status x')" by (simp add: exec_order_def)
    then have "(x_status x \<in> {EXEC_FINISHED, EXEC_FAILED, EXEC_CANCELED} \<longrightarrow> x_status x' = x_status x)
         \<and> (x_status x = EXEC_LOST \<longrightarrow> x_status x' \<in> {EXEC_LOST, EXEC_FINISHED, EXEC_FAILED, EXEC_CANCELED})"
      by (cases "x_status x"; cases "x_status x'")
        (simp_all add: is_valid_execution_transition_def EXEC_TERMINAL_def)
    with x' show ?thesis by (auto simp: exec_order_def)
  qed
  have t: "\<exists>t'. find_task (sv_db s') k = Some t' \<and> (t_status t \<in> TASK_TERMINAL \<longrightarrow> t_status t' \<in> TASK_TERMINAL
              \<and> (t_status t' = t_status t \<or> t_status t = TASK_LOST))"
    if f: "find_task (sv_db s) k = Some t" for k t
  proof -
    obtain t' where t': "find_task (sv_db s') k = Some t'" "task_order (t_status t) (t_status t')"
      using moves_taskD [OF m f] by blast
    have "t_status t' = t_status t" if "t_status t \<in> TASK_TERMINAL" "t_status t \<noteq> TASK_LOST"
      using t'(2) by (rule task_order_hard) (use that in \<open>auto simp: task_hard_def TASK_TERMINAL_def\<close>)
    with t' task_order_terminal [OF t'(2)] show ?thesis by blast
  qed
  from wf x t show ?thesis by blast
qed

lemma interleaving_never_revives_witness:
  "\<exists>x'. find_execution (sv_db (fold (server_op_step \<lparr>se_redis = demo_redis, se_choice = hd, se_settings = default_settings,
       se_cron_ok = (\<lambda>_. True)\<rparr>)
       [(0, Consume_event (sample_event Ev_running) ''1-0''), (0, Reconcile_pass), (0, Dispatcher_tick 0)]
       \<lparr>sv_db = demo_db OUTBOX_PENDING TASK_RUNNING EXEC_FINISHED, sv_redis = (True, []),
         sv_dispatcher = new_dispatcher None 1\<rparr>)) ''x1'' = Some x' \<and> x_status x' = EXEC_FINISHED"
proof -
  let ?s = "\<lparr>sv_db = demo_db OUTBOX_PENDING TASK_RUNNING EXEC_FINISHED, sv_redis = (True, []),
         sv_dispatcher = new_dispatcher None 1\<rparr>"
  have "wf_db (sv_db ?s)"
    by (simp add: wf_db_def keys_unique_def demo_db_def empty_db_def fresh_id_def)
  moreover have "find_execution (sv_db ?s) ''x1''
      = Some (sample_execution\<lparr>x_id := ''x1'', x_task_id := ''t1'', x_status := EXEC_FINISHED\<rparr>)" by simp
  ultimately show ?thesis
    using interleaving_never_revives [OF _ refl, of ?s "\<lparr>se_redis = demo_redis, se_choice = hd, se_settings = default_settings,
       se_cron_ok = (\<lambda>_. True)\<rparr>"
      "[(0, Consume_event (sample_event Ev_running) ''1-0''), (0, Reconcile_pass), (0, Dispatcher_tick 0)]"]
    by fastforce
qed

end
