(* ===== verification/Firings.thy ===== *)
theory Firings
  imports ServerSteps
begin

text \<open>
  What schedules may count on, over every interleaving of the server's writers: the concurrency
  limit holds, and which schedules the runner of \<^verbatim>\<open>scheduler/runner.py\<close> really fires.
\<close>

section \<open>Counting active tasks across steps\<close>

lemma filter_length_mono:
  "list_all2 (\<lambda>a b. P b \<longrightarrow> P a) xs ys \<Longrightarrow> length (filter P ys) \<le> length (filter P xs)"
  by (induction rule: list_all2_induct) auto

definition holds_slot :: "string \<Rightarrow> task \<Rightarrow> bool" where
  "holds_slot k t \<longleftrightarrow> t_schedule_id t = Some k \<and> t_status t \<in> TASK_ACTIVE"

lemma count_holds_slot: "count_active_tasks_for_schedule d k = length (filter (holds_slot k) (db_tasks d))"
  by (simp add: count_active_tasks_for_schedule_def holds_slot_def [abs_def])

lemma active_or_terminal: "a \<in> TASK_ACTIVE \<longleftrightarrow> a \<notin> TASK_TERMINAL"
  by (cases a) (simp_all add: TASK_ACTIVE_def TASK_TERMINAL_def)

lemma slot_moved:
  "task_order (t_status t) (t_status t') \<Longrightarrow> t_schedule_id t' = t_schedule_id t \<Longrightarrow> holds_slot k t' \<Longrightarrow> holds_slot k t"
  using task_order_terminal unfolding holds_slot_def active_or_terminal by auto

lemma found_at: "wf_db d \<Longrightarrow> i < length (db_tasks d) \<Longrightarrow> find_task d (t_id (db_tasks d ! i)) = Some (db_tasks d ! i)"
  unfolding find_task_def by (rule find_row_distinct) (simp_all add: wf_db_def keys_unique_def)

lemma count_moved:
  assumes "wf_db d" and "wf_db d'" and "moves d d'"
    and ids: "map t_id (db_tasks d') = map t_id (db_tasks d) @ ns"
  shows "length (filter (holds_slot k) (take (length (db_tasks d)) (db_tasks d'))) \<le> count_active_tasks_for_schedule d k"
proof -
  let ?n = "length (db_tasks d)"
  have len: "length (db_tasks d') = ?n + length ns" using ids by (metis length_append length_map)
  have "list_all2 (\<lambda>t t'. holds_slot k t' \<longrightarrow> holds_slot k t) (db_tasks d) (take ?n (db_tasks d'))"
  proof (rule list_all2_all_nthI)
    fix i assume i: "i < ?n"
    let ?t = "db_tasks d ! i" and ?t' = "db_tasks d' ! i"
    have same: "t_id ?t' = t_id ?t"
      using ids i len by (metis add_lessD1 length_map nth_append nth_map trans_less_add1)
    have "find_task d (t_id ?t) = Some ?t" using assms(1) i by (rule found_at)
    moreover have "find_task d' (t_id ?t') = Some ?t'" using assms(2) by (rule found_at) (simp add: len i trans_less_add1)
    ultimately have "task_order (t_status ?t) (t_status ?t')" "t_schedule_id ?t' = t_schedule_id ?t"
      using moves_taskD [OF assms(3)] same by fastforce+
    then have "holds_slot k ?t' \<longrightarrow> holds_slot k ?t" by (blast intro: slot_moved)
    with i show "holds_slot k (take ?n (db_tasks d') ! i) \<longrightarrow> holds_slot k ?t" by simp
  qed (simp add: len)
  then show ?thesis unfolding count_holds_slot by (rule filter_length_mono)
qed

lemma count_adds:
  assumes "wf_db d" and "wf_db d'" and "moves d d'" and "adds_task d d' sid"
  shows "count_active_tasks_for_schedule d' k \<le> count_active_tasks_for_schedule d k + (if sid = Some k then 1 else 0)"
  using assms(4) unfolding adds_task_def
proof
  assume "map t_id (db_tasks d') = map t_id (db_tasks d)"
  then have "map t_id (db_tasks d') = map t_id (db_tasks d) @ []" and "length (db_tasks d') = length (db_tasks d)"
    by (simp, metis length_map)
  with count_moved [OF assms(1-3), of "[]" k] show ?thesis by (simp add: count_holds_slot)
next
  assume "\<exists>t. map t_id (db_tasks d') = map t_id (db_tasks d) @ [t_id t] \<and> find_task d' (t_id t) = Some t \<and> t_schedule_id t = sid"
  then obtain t where t: "map t_id (db_tasks d') = map t_id (db_tasks d) @ [t_id t]" "find_task d' (t_id t) = Some t"
      "t_schedule_id t = sid" by blast
  let ?n = "length (db_tasks d)"
  have len: "length (db_tasks d') = Suc ?n" using t(1) by (metis length_append_singleton length_map)
  have "take (Suc ?n) (db_tasks d') = take ?n (db_tasks d') @ [db_tasks d' ! ?n]"
    by (rule take_Suc_conv_app_nth) (simp add: len)
  moreover have "take (Suc ?n) (db_tasks d') = db_tasks d'" by (rule take_all) (simp add: len)
  ultimately have split: "db_tasks d' = take ?n (db_tasks d') @ [db_tasks d' ! ?n]" by (rule trans [OF sym, rotated])
  have i: "t_id (db_tasks d' ! ?n) = t_id t" using t(1) len by (metis length_map lessI nth_append_length nth_map)
  have "find_task d' (t_id (db_tasks d' ! ?n)) = Some (db_tasks d' ! ?n)"
    using assms(2) by (rule found_at) (simp add: len)
  then have "Some (db_tasks d' ! ?n) = Some t" unfolding i t(2) by (rule sym)
  then have "t_schedule_id (db_tasks d' ! ?n) = sid" using t(3) by (simp only: option.inject)
  then have "length (filter (holds_slot k) [db_tasks d' ! ?n]) \<le> (if sid = Some k then 1 else 0)"
    by (simp add: holds_slot_def)
  moreover have "filter (holds_slot k) (db_tasks d')
      = filter (holds_slot k) (take ?n (db_tasks d')) @ filter (holds_slot k) [db_tasks d' ! ?n]"
    using arg_cong [OF split, of "filter (holds_slot k)"] by (simp only: filter_append)
  ultimately show ?thesis
    using count_moved [OF assms(1-3) t(1), of k] unfolding count_holds_slot [of d'] by simp
qed

lemma count_extends:
  assumes "wf_db d" and "wf_db d'" and "moves d d'" and "map t_id (db_tasks d') = map t_id (db_tasks d)"
  shows "count_active_tasks_for_schedule d' k \<le> count_active_tasks_for_schedule d k"
  using count_adds [OF assms(1-3), of None k] assms(4) by (simp add: adds_task_def)

section \<open>The limit under every interleaving\<close>

definition limit_of :: "db \<Rightarrow> string \<Rightarrow> int option" where
  "limit_of d k = map_option s_max_concurrency (find_schedule d k)"

definition keeps_limit :: "string \<Rightarrow> server_op \<Rightarrow> bool" where
  \<comment> \<open>not a request that sets the limit of the schedule; and tasks of a schedule are created by its firings only\<close>
  "keeps_limit k op =
     (case op of
        Update_schedule_request j data \<Rightarrow> j = k \<longrightarrow> map_of data ''max_concurrency'' = None
      | Run_request kind request origin ok \<Rightarrow> og_schedule_id origin \<noteq> Some k
      | _ \<Rightarrow> True)"

definition within :: "string \<Rightarrow> int \<Rightarrow> db \<Rightarrow> db \<Rightarrow> bool" where
  "within k limit d d' \<longleftrightarrow> limit_of d' k = limit_of d k
     \<and> int (count_active_tasks_for_schedule d' k) \<le> max (int (count_active_tasks_for_schedule d k)) limit"

lemma within_refl [simp]: "within k limit d d"
  by (simp add: within_def)

lemma within_safe: "wf_db d \<Longrightarrow> safe d d' \<Longrightarrow> within k limit d d'"
  using count_extends [of d d' k] grows_wf [of d d']
  by (auto simp: within_def safe_def grows_def limit_of_def find_schedule_def)

lemma within_none:
  "wf_db d \<Longrightarrow> wf_db d' \<and> moves d d' \<and> db_schedules d' = db_schedules d \<and> adds_task d d' sid \<Longrightarrow> sid \<noteq> Some k \<Longrightarrow>
    within k limit d d'"
  using count_adds [of d d' sid k] by (auto simp: within_def limit_of_def find_schedule_def)

lemma within_schedules_only:
  "schedules_only d d' \<Longrightarrow> limit_of d' k = limit_of d k \<Longrightarrow> within k limit d d'"
  by (simp add: within_def schedules_only_def count_active_tasks_for_schedule_def)

lemma saved_limit:
  "find_schedule d j = Some s0 \<Longrightarrow> s_id s = j \<Longrightarrow> (j = k \<longrightarrow> s_max_concurrency s = s_max_concurrency s0) \<Longrightarrow>
    limit_of (save_schedule d s) k = limit_of d k"
  by (auto simp: limit_of_def schedules.lookup_update)

lemma within_fired:
  assumes "wf_db d" and "limit_of d k = Some limit" and "limit \<noteq> 0"
    and "fire_timer rc choice ok cfg now j (d, redis) = Some ((d', redis'), te)
      \<or> trigger_now rc choice ok cfg now j (d, redis) = Some ((d', redis'), fin)"
  shows "within k limit d d'"
  using assms(1,4)
proof (rule fired_cases)
  fix s0 s d1 source rend
  assume s0: "find_schedule d j = Some s0" "s_id s = j" "s_max_concurrency s = s_max_concurrency s0"
      "d1 = d \<or> d1 = save_schedule d s"
      "s_max_concurrency s0 \<noteq> 0 \<longrightarrow> int (count_active_tasks_for_schedule d j) < s_max_concurrency s0"
    and r: "run_locked rc choice ok cfg now source s (d1, redis) = Some ((d', redis'), rend)"
  have w: "wf_db d1" using s0(4) assms(1) saved_schedule_wf by auto
  note a = run_locked_adds [OF w r]
  have c: "count_active_tasks_for_schedule d1 k = count_active_tasks_for_schedule d k"
    using s0(4) by (auto simp: count_active_tasks_for_schedule_def)
  have l: "limit_of d1 k = limit_of d k" using s0 by (auto intro: saved_limit)
  have l': "limit_of d' k = limit_of d1 k" using a by (simp add: limit_of_def find_schedule_def)
  show ?thesis
  proof (cases "j = k")
    case True
    with s0(1,5) assms(2,3) have "int (count_active_tasks_for_schedule d k) < limit" by (auto simp: limit_of_def)
    with count_adds [OF w, of d' "Some j" k] a c l l' show ?thesis by (auto simp: within_def s0(2) split: if_splits)
  next
    case False
    with count_adds [OF w, of d' "Some j" k] a c l l' show ?thesis by (auto simp: within_def s0(2))
  qed
qed simp

lemma within_record:
  assumes "wf_db d" and "record_task_outcomes d cfg now n = Some (d', tr)"
  shows "within k limit d d'"
proof -
  note r = record_outcomes_step [OF assms(2,1)]
  have "count_active_tasks_for_schedule d' k \<le> count_active_tasks_for_schedule d k"
    using count_extends [OF assms(1)] r by (simp add: extends_def)
  moreover have "limit_of d' k = limit_of d k"
  proof (cases "find_schedule d k")
    case None
    moreover have "map s_id (db_schedules d') = map s_id (db_schedules d)" using r by (simp add: extends_def)
    moreover have "find_schedule e k = None \<longleftrightarrow> k \<notin> set (map s_id (db_schedules e))" for e
      by (auto simp: find_schedule_def find_row_def find_None_iff)
    ultimately have "find_schedule d' k = None" by (simp del: set_map)
    with None show ?thesis by (simp add: limit_of_def)
  next
    case (Some s)
    with r show ?thesis by (auto simp: keeps_schedules_def only_counters_def limit_of_def)
  qed
  ultimately show ?thesis by (simp add: within_def)
qed

lemma patch_keeps_limit:
  assumes "update_schedule cron_ok d j data = Inr (d', s)" and "j = k \<longrightarrow> map_of data ''max_concurrency'' = None"
  shows "limit_of d' k = limit_of d k"
proof -
  obtain s0 where s0: "find_schedule d j = Some s0" "patch_schedule cron_ok d data s0 = Inr s" "d' = save_schedule d s"
    using assms(1) by (auto simp: update_schedule_def split: option.splits sum.splits)
  have "s_id s = s_id s0 \<and> (map_of data ''max_concurrency'' = None \<longrightarrow> s_max_concurrency s = s_max_concurrency s0)"
  proof -
    note defs = patch_template_def patch_name_def patch_description_def patch_limit_def patch_enabled_def
      patch_overrides_def patch_trigger_def set_enabled_def clear_breaker_def Let_def
    have p: "patch_template d data a = Inr b \<Longrightarrow> s_id b = s_id a \<and> s_max_concurrency b = s_max_concurrency a"
      "patch_name d data a = Inr b \<Longrightarrow> s_id b = s_id a \<and> s_max_concurrency b = s_max_concurrency a"
      "patch_limit data a = Inr b \<Longrightarrow> s_id b = s_id a \<and> (map_of data ''max_concurrency'' = None \<longrightarrow> s_max_concurrency b = s_max_concurrency a)"
      "patch_overrides d data a = Inr b \<Longrightarrow> s_id b = s_id a \<and> s_max_concurrency b = s_max_concurrency a"
      "patch_trigger cron_ok data a = Inr b \<Longrightarrow> s_id b = s_id a \<and> s_max_concurrency b = s_max_concurrency a"
      "s_id (patch_description data a) = s_id a \<and> s_max_concurrency (patch_description data a) = s_max_concurrency a"
      "s_id (patch_enabled data a) = s_id a \<and> s_max_concurrency (patch_enabled data a) = s_max_concurrency a" for a b
      by (auto simp: defs split: option.splits sum.splits if_splits)
    from s0(2) show ?thesis
      by (auto simp: patch_schedule_def bind_res_Inr p(6,7) dest!: p(1-5))
  qed
  with s0 schedules.lookup_key [OF s0(1)] assms(2) show ?thesis by (auto intro: saved_limit)
qed

lemma within_step:
  assumes wf: "wf_db (sv_db s)" and lim: "limit_of (sv_db s) k = Some limit" "limit \<noteq> 0" and op: "keeps_limit k op"
  shows "within k limit (sv_db s) (sv_db (server_op_step env (now, op) s))"
proof -
  let ?d = "sv_db s"
  note sf = within_safe [OF wf]
  have ku: "keys_unique ?d" using wf by (simp add: wf_db_def)
  show ?thesis
  proof (cases op)
    case (Consume_event ev m)
    with sf [OF safe_writers(1)] show ?thesis by (simp add: server_op_step_def Let_def)
  next
    case Reconcile_pass
    with sf [OF safe_writers(3) [OF ku]] show ?thesis by (simp add: server_op_step_def Let_def)
  next
    case Drain_pass
    with sf [OF safe_writers(2)] show ?thesis by (simp add: server_op_step_def Let_def)
  next
    case (Record_outcomes n)
    then show ?thesis
      by (auto simp: server_op_step_def Let_def split: option.splits intro: within_record [OF wf])
  next
    case (Dispatcher_tick clock)
    then show ?thesis
      by (auto simp: server_op_step_def Let_def split: option.splits intro: sf safe_tick)
  next
    case (Cancel_request c)
    then show ?thesis
      by (auto simp: server_op_step_def Let_def split: option.splits intro: sf safe_request_cancel)
  next
    case (Mark_lost_request c)
    then show ?thesis
      by (auto simp: server_op_step_def Let_def split: option.splits sum.splits intro: sf safe_mark_task_lost [OF wf])
  next
    case (Run_request kind request origin ok)
    then show ?thesis using op
      by (auto simp: server_op_step_def Let_def ran_def keeps_limit_def split: option.splits
          intro: within_none [OF wf executor_run_adds [OF wf]])
  next
    case (Run_template_request c ok)
    then show ?thesis
      by (auto simp: server_op_step_def Let_def ran_def split: option.splits
          intro: within_none [OF wf run_template_wf [OF wf]])
  next
    case (Fire_job c ok)
    then show ?thesis
      by (auto simp: server_op_step_def Let_def ran_def fire_job_def split: option.splits if_splits
          intro: within_fired [OF wf lim disjI1])
  next
    case (Trigger_now_request c ok)
    then show ?thesis
      by (auto simp: server_op_step_def Let_def ran_def split: option.splits
          intro: within_fired [OF wf lim disjI2])
  next
    case (Create_template_request data)
    then show ?thesis
      by (auto simp: server_op_step_def Let_def wrote_def limit_of_def find_schedule_def split: sum.splits
          dest!: template_writes(1) intro!: within_schedules_only)
  next
    case (Update_template_request c data)
    then show ?thesis
      by (auto simp: server_op_step_def Let_def wrote_def limit_of_def find_schedule_def split: sum.splits option.splits
          dest!: template_writes(2) intro!: within_schedules_only)
  next
    case (Delete_template_request c)
    then show ?thesis
      by (auto simp: server_op_step_def Let_def wrote_def map_sum_def limit_of_def find_schedule_def split: sum.splits option.splits
          dest!: template_writes(3) intro!: within_schedules_only)
  next
    case (Create_schedule_request data)
    have "limit_of d' k = limit_of ?d k" if "db_schedules d' = db_schedules ?d @ [x]" for d' x
      using that lim(1) by (auto simp: limit_of_def find_schedule_def find_row_append)
    with Create_schedule_request show ?thesis
      by (auto simp: server_op_step_def Let_def wrote_def split: sum.splits
          dest!: schedule_writes(1) intro!: within_schedules_only)
  next
    case (Update_schedule_request c data)
    then have "map_of data ''max_concurrency'' = None" if "c = k" using op that by (simp add: keeps_limit_def)
    then have "within k limit ?d d'" if u: "update_schedule (se_cron_ok env) ?d c data = Inr (d', x)" for d' x
      using schedule_writes(2) [OF u] patch_keeps_limit [OF u, of k] by (intro within_schedules_only) blast+
    with Update_schedule_request show ?thesis
      by (auto simp: server_op_step_def Let_def wrote_def split: sum.splits)
  next
    case (Reset_breaker_request c)
    have "within k limit ?d d'" if u: "reset_schedule_breaker ?d c = Inr (d', x)" for d' x
    proof -
      have "limit_of d' k = limit_of ?d k"
        using u schedules.lookup_key [of ?d c]
        by (auto simp: reset_schedule_breaker_def Let_def clear_breaker_def split: option.splits if_splits intro!: saved_limit)
      with schedule_writes(3) [OF u] show ?thesis by (intro within_schedules_only) blast+
    qed
    with Reset_breaker_request show ?thesis
      by (auto simp: server_op_step_def Let_def wrote_def split: sum.splits)
  next
    case Disable_all_request
    have "map_option s_max_concurrency (find (\<lambda>s. s_id s = k) (map (\<lambda>s. if s_enabled s then s\<lparr>s_enabled := False\<rparr> else s) ss))
        = map_option s_max_concurrency (find (\<lambda>s. s_id s = k) ss)" for ss
      by (induction ss) auto
    then have "limit_of (fst (disable_all_schedules ?d)) k = limit_of ?d k"
      by (simp add: limit_of_def find_schedule_def find_row_def disable_all_schedules_def)
    with Disable_all_request show ?thesis
      by (simp add: server_op_step_def Let_def within_schedules_only schedule_writes(4))
  qed
qed

text \<open>The concurrency limit of a schedule holds over every interleaving: whatever timers fire, whoever
  triggers it by hand, and whatever the event consumer, the reconcile pass, the dispatcher and all
  other requests do in between, the schedule never has more active tasks than its limit (or than it
  had at the start, when the limit had been lowered below that), and the limit stays what it is
  unless it is changed by a request of its own.
\<close>

theorem limit_under_interleaving:
  assumes "wf_db (sv_db s)" and "limit_of (sv_db s) k = Some limit" and "limit \<noteq> 0"
    and "\<forall>(now, op) \<in> set ops. keeps_limit k op"
  shows "limit_of (sv_db (fold (server_op_step env) ops s)) k = Some limit
    \<and> int (count_active_tasks_for_schedule (sv_db (fold (server_op_step env) ops s)) k)
        \<le> max (int (count_active_tasks_for_schedule (sv_db s) k)) limit"
  using assms
proof (induction ops arbitrary: s)
  case (Cons e ops)
  obtain now op where e: "e = (now, op)" by (meson surj_pair)
  let ?t = "server_op_step env e s"
  have w: "within k limit (sv_db s) (sv_db ?t)"
    unfolding e using Cons.prems e by (intro within_step) auto
  have wf: "wf_db (sv_db ?t)" using server_op_step_wf [OF Cons.prems(1)] by blast
  have l: "limit_of (sv_db ?t) k = Some limit" using w Cons.prems(2) by (simp add: within_def)
  have "\<forall>(now, op) \<in> set ops. keeps_limit k op" using Cons.prems(4) by simp
  from Cons.IH [OF wf l Cons.prems(3) this] w show ?case by (auto simp: within_def)
qed simp

lemma limit_under_interleaving_witness:
  "int (count_active_tasks_for_schedule (sv_db (fold (server_op_step
       \<lparr>se_redis = demo_redis, se_choice = hd, se_settings = default_settings, se_cron_ok = (\<lambda>_. True)\<rparr>)
       [(0, Fire_job ''s1'' True), (1, Trigger_now_request ''s1'' True), (2, Reconcile_pass), (3, Fire_job ''s1'' False)]
       \<lparr>sv_db = empty_db\<lparr>db_schedules := [sample_schedule]\<rparr>, sv_redis = (True, []), sv_dispatcher = new_dispatcher None 1\<rparr>)) ''s1'') \<le> 1"
proof -
  let ?s = "\<lparr>sv_db = empty_db\<lparr>db_schedules := [sample_schedule]\<rparr>, sv_redis = (True, []), sv_dispatcher = new_dispatcher None 1\<rparr>"
  have wf: "wf_db (sv_db ?s)" by (simp add: wf_db_def keys_unique_def empty_db_def fresh_id_def)
  have l: "limit_of (sv_db ?s) ''s1'' = Some 1" by (simp add: limit_of_def find_schedule_def)
  have c: "count_active_tasks_for_schedule (sv_db ?s) ''s1'' = 0"
    by (simp add: count_active_tasks_for_schedule_def empty_db_def)
  have ops: "\<forall>(now, op) \<in> set [(0, Fire_job ''s1'' True), (1, Trigger_now_request ''s1'' True), (2, Reconcile_pass),
      (3 :: instant, Fire_job ''s1'' False)]. keeps_limit ''s1'' op" by (simp add: keeps_limit_def)
  let ?env = "\<lparr>se_redis = demo_redis, se_choice = hd, se_settings = default_settings, se_cron_ok = (\<lambda>_. True)\<rparr>"
  show ?thesis using limit_under_interleaving [OF wf l _ ops, of ?env, unfolded c] by (simp del: fold_simps)
qed

section \<open>Schedules are well formed\<close>

definition trigger_well_formed :: "(string \<Rightarrow> bool) \<Rightarrow> schedule \<Rightarrow> bool" where
  "trigger_well_formed cron_ok s \<longleftrightarrow>
     s_trigger_type s = ''interval'' \<and> (\<exists>n > 0. s_interval_seconds s = Some n) \<and> s_cron s = None
     \<or> s_trigger_type s = ''cron'' \<and> s_interval_seconds s = None \<and> (\<exists>c. s_cron s = Some c \<and> cron_ok c)"

definition well_typed_schedule :: "(string \<Rightarrow> bool) \<Rightarrow> schedule \<Rightarrow> bool" where
  "well_typed_schedule cron_ok s \<longleftrightarrow> s_name s \<noteq> [] \<and> 0 \<le> s_max_concurrency s \<and> s_max_concurrency s \<le> MAX_CONCURRENCY_CEILING
     \<and> trigger_well_formed cron_ok s \<and> fst ` set (s_overrides s) \<subseteq> set OVERRIDE_KEYS"

definition well_typed_schedules :: "(string \<Rightarrow> bool) \<Rightarrow> db \<Rightarrow> bool" where
  "well_typed_schedules cron_ok d \<longleftrightarrow> list_all (well_typed_schedule cron_ok) (db_schedules d)
     \<and> distinct (map s_name (db_schedules d))"

lemma sanitized_keys: "sanitize_overrides ov ty = Inr out \<Longrightarrow> fst ` set out \<subseteq> set OVERRIDE_KEYS"
  by (auto simp: sanitize_overrides_def override_command_def override_rest_def OVERRIDE_KEYS_def Let_def
      split: if_splits sum.splits option.splits)

lemma valid_limit: "validate_max_concurrency v = Inr n \<Longrightarrow> 0 \<le> n \<and> n \<le> MAX_CONCURRENCY_CEILING"
  by (auto simp: validate_max_concurrency_def split: json.splits if_splits)

lemma trigger_cases:
  assumes "validate_trigger cron_ok data = None" and "\<not> cron_ok []"
    and "v = or_json (obj_get data ''trigger_type'') (JStr ''interval'')"
  shows "v = JStr ''interval'' \<and> (\<exists>n > 0. int_of (obj_get data ''interval_seconds'') = Some n)
    \<or> v = JStr ''cron'' \<and> obj_get data ''trigger_type'' = JStr ''cron'' \<and> cron_ok (py_strip (py_str (obj_get data ''cron'')))"
proof -
  have e: "py_strip [] = []" by (simp add: py_strip_def)
  from assms(1) have "v \<in> JStr ` VALID_TRIGGER_TYPES"
    by (auto simp: validate_trigger_def assms(3) Let_def split: if_splits)
  then consider "v = JStr ''interval''" | "v = JStr ''cron''" by (auto simp: VALID_TRIGGER_TYPES_def)
  then show ?thesis
  proof cases
    case 1
    with assms(1,3) show ?thesis
      by (auto simp: validate_trigger_def Let_def not_le split: if_splits option.splits)
  next
    case 2
    then have "cron_ok (py_strip (str_of (obj_get data ''cron'')))"
      using assms(1,3) by (auto simp: validate_trigger_def Let_def split: if_splits)
    moreover from this have "truthy (obj_get data ''cron'')" using assms(2) e by (auto simp: str_of_def split: if_splits)
    moreover have "obj_get data ''trigger_type'' = JStr ''cron''"
      using 2 assms(3) by (cases "truthy (obj_get data ''trigger_type'')") auto
    ultimately show ?thesis using 2 by (simp add: str_of_def)
  qed
qed

lemma created_well_typed:
  assumes "create_schedule cron_ok d data now = Inr (d', s)" and "\<not> cron_ok []"
  shows "well_typed_schedule cron_ok s \<and> s_name s \<notin> s_name ` set (db_schedules d) \<and> db_schedules d' = db_schedules d @ [s]"
proof -
  from assms(1) obtain t limit ov where
    name: "s_name s = py_strip (str_of (obj_get data ''name''))" "s_name s \<noteq> []" "ensure_unique_name d (s_name s) None = None"
    and t: "validate_trigger cron_ok data = None"
    and l: "validate_max_concurrency (get_or data ''max_concurrency'' (JInt 1)) = Inr limit" "s_max_concurrency s = limit"
    and ov: "sanitize_overrides (as_dict (obj_get data ''overrides'')) (artifact_type_for_template d t) = Inr ov" "s_overrides s = ov"
    and tr: "s_trigger_type s = str_of (or_json (obj_get data ''trigger_type'') (JStr ''interval''))"
      "s_interval_seconds s = (if s_trigger_type s = ''interval'' then int_of (obj_get data ''interval_seconds'') else None)"
      "s_cron s = (if s_trigger_type s = ''cron'' then Some (py_strip (py_str (obj_get data ''cron''))) else None)"
    and d': "db_schedules d' = db_schedules d @ [s]"
    by (auto simp: create_schedule_def bind_res_Inr ok_unless_def Let_def new_id_def split: if_splits option.splits)
  have "trigger_well_formed cron_ok s"
    using trigger_cases [OF t assms(2) refl] tr by (auto simp: trigger_well_formed_def)
  moreover have "s_name s \<notin> s_name ` set (db_schedules d)"
    using name(3) by (auto simp: ensure_unique_name_def list_ex_iff split: if_splits)
  ultimately show ?thesis
    using name(2) valid_limit [OF l(1)] l(2) sanitized_keys [OF ov(1)] ov(2) d' by (simp add: well_typed_schedule_def)
qed

definition same_shape :: "schedule \<Rightarrow> schedule \<Rightarrow> bool" where
  "same_shape s s' \<longleftrightarrow> s_id s' = s_id s \<and> s_name s' = s_name s \<and> s_max_concurrency s' = s_max_concurrency s
     \<and> s_trigger_type s' = s_trigger_type s \<and> s_interval_seconds s' = s_interval_seconds s
     \<and> s_cron s' = s_cron s \<and> s_overrides s' = s_overrides s"

lemma patch_well_typed:
  "patch_template d data s = Inr s' \<Longrightarrow> same_shape s s'"
  "patch_name d data s = Inr s' \<Longrightarrow> same_shape (s\<lparr>s_name := s_name s'\<rparr>) s'
    \<and> (s_name s' = s_name s \<or> s_name s' \<noteq> [] \<and> ensure_unique_name d (s_name s') (Some (s_id s)) = None)"
  "same_shape s (patch_description data s)" "same_shape s (patch_enabled data s)"
  "patch_limit data s = Inr s' \<Longrightarrow> same_shape (s\<lparr>s_max_concurrency := s_max_concurrency s'\<rparr>) s'
    \<and> (s_max_concurrency s' = s_max_concurrency s \<or> 0 \<le> s_max_concurrency s' \<and> s_max_concurrency s' \<le> MAX_CONCURRENCY_CEILING)"
  "patch_overrides d data s = Inr s' \<Longrightarrow> same_shape (s\<lparr>s_overrides := s_overrides s'\<rparr>) s'"
  by (auto simp: patch_template_def patch_name_def patch_description_def patch_enabled_def patch_limit_def
      patch_overrides_def set_enabled_def clear_breaker_def same_shape_def Let_def
      dest: valid_limit split: option.splits sum.splits if_splits)

lemma patched_overrides:
  assumes "patch_overrides d data s = Inr s'"
  shows "s_overrides s' = s_overrides s \<or> fst ` set (s_overrides s') \<subseteq> set OVERRIDE_KEYS"
proof -
  from assms have "s' = s \<or> (\<exists>v t. sanitize_overrides v t = Inr (s_overrides s'))"
    by (auto simp: patch_overrides_def split: option.splits sum.splits)
  then show ?thesis using sanitized_keys by blast
qed

lemma patched_trigger:
  assumes "patch_trigger cron_ok data s = Inr s'" and "\<not> cron_ok []" and "trigger_well_formed cron_ok s"
    and typed: "map_of data ''trigger_type'' \<noteq> Some (JStr [])"
  shows "trigger_well_formed cron_ok s' \<and> s_id s' = s_id s \<and> s_name s' = s_name s
    \<and> s_max_concurrency s' = s_max_concurrency s \<and> s_overrides s' = s_overrides s"
proof -
  define merged where "merged = [(''trigger_type'', get_or data ''trigger_type'' (JStr (s_trigger_type s))),
              (''interval_seconds'', get_or data ''interval_seconds'' (jint (s_interval_seconds s))),
              (''cron'', get_or data ''cron'' (jstr (s_cron s)))]"
  note p = assms(1) [unfolded patch_trigger_def Let_def, folded merged_def]
  show ?thesis
  proof (cases "s' = s")
    case False
    then obtain ty where v: "validate_trigger cron_ok merged = None" and ty: "obj_get merged ''trigger_type'' = JStr ty"
      and s': "s' = (if ty = ''interval''
          then s\<lparr>s_trigger_type := ty, s_interval_seconds := int_of (obj_get merged ''interval_seconds''), s_cron := None\<rparr>
          else s\<lparr>s_trigger_type := ty, s_cron := Some (py_strip (py_str (obj_get merged ''cron''))), s_interval_seconds := None\<rparr>)"
      using p by (auto simp: json_str_def split: if_splits option.splits json.splits)
    from trigger_cases [OF v assms(2) refl] ty have "ty = ''interval'' \<and> (\<exists>n > 0. int_of (obj_get merged ''interval_seconds'') = Some n)
        \<or> ty = ''cron'' \<and> cron_ok (py_strip (py_str (obj_get merged ''cron'')))
        \<or> ty = [] \<and> (\<exists>n > 0. int_of (obj_get merged ''interval_seconds'') = Some n)"
      by (cases "ty = []") auto
    moreover have "ty \<noteq> []"
      using ty typed assms(3) by (auto simp: merged_def get_or_def or_default_def trigger_well_formed_def split: option.splits)
    ultimately show ?thesis using s' by (auto simp: trigger_well_formed_def)
  qed (use assms(3) in simp)
qed

lemma updated_well_typed:
  assumes u: "update_schedule cron_ok d k data = Inr (d', s)" and c: "\<not> cron_ok []"
    and typed: "map_of data ''trigger_type'' \<noteq> Some (JStr [])"
    and s0: "find_schedule d k = Some s0" "well_typed_schedule cron_ok s0"
  shows "well_typed_schedule cron_ok s \<and> s_id s = k \<and> d' = save_schedule d s
    \<and> (s_name s = s_name s0 \<or> ensure_unique_name d (s_name s) (Some k) = None)"
proof -
  have p: "patch_schedule cron_ok d data s0 = Inr s" "d' = save_schedule d s"
    using u s0(1) by (auto simp: update_schedule_def split: sum.splits)
  then obtain a b e f where st: "patch_template d data s0 = Inr a" "patch_name d data a = Inr b"
      "patch_limit data (patch_description data b) = Inr e" "patch_overrides d data (patch_enabled data e) = Inr f"
      "patch_trigger cron_ok data f = Inr s"
    by (auto simp: patch_schedule_def bind_res_Inr)
  have k: "s_id s0 = k" by (rule schedules.lookup_key [OF s0(1)])
  note sh = patch_well_typed(1) [OF st(1)] patch_well_typed(2) [OF st(2)] patch_well_typed(3) [of b data]
    patch_well_typed(5) [OF st(3)] patch_well_typed(4) [of e data] patch_well_typed(6) [OF st(4)]
  have f: "trigger_well_formed cron_ok f"
    using sh s0(2) by (simp add: same_shape_def well_typed_schedule_def trigger_well_formed_def)
  note t = patched_trigger [OF st(5) c f typed]
  have ids: "s_id a = k" "s_id s = k" using sh t k by (simp_all add: same_shape_def)
  have n: "s_name s = s_name b" "s_name a = s_name s0" using sh t by (simp_all add: same_shape_def)
  have nm: "s_name s = s_name s0 \<or> s_name s \<noteq> [] \<and> ensure_unique_name d (s_name s) (Some k) = None"
    using sh(2) n ids(1) by simp
  have ov: "fst ` set (s_overrides s) \<subseteq> set OVERRIDE_KEYS"
  proof -
    have "s_overrides s = s_overrides f" "s_overrides (patch_enabled data e) = s_overrides s0"
      using sh t by (simp_all add: same_shape_def)
    moreover have "fst ` set (s_overrides s0) \<subseteq> set OVERRIDE_KEYS" using s0(2) by (simp add: well_typed_schedule_def)
    ultimately show ?thesis using patched_overrides [OF st(4)] by metis
  qed
  have lim: "0 \<le> s_max_concurrency s \<and> s_max_concurrency s \<le> MAX_CONCURRENCY_CEILING"
  proof -
    have "s_max_concurrency b = s_max_concurrency s0" "s_max_concurrency (patch_description data b) = s_max_concurrency b"
      "s_max_concurrency s = s_max_concurrency e"
      using sh t by (simp_all add: same_shape_def)
    moreover have "0 \<le> s_max_concurrency s0" "s_max_concurrency s0 \<le> MAX_CONCURRENCY_CEILING"
      using s0(2) by (simp_all add: well_typed_schedule_def)
    ultimately show ?thesis using sh(4) by metis
  qed
  have "s_name s0 \<noteq> []" using s0(2) by (simp add: well_typed_schedule_def)
  with nm have "s_name s \<noteq> []" by metis
  with ov lim conjunct1 [OF t] have "well_typed_schedule cron_ok s" unfolding well_typed_schedule_def by (intro conjI) simp_all
  with nm ids(2) p(2) show ?thesis by (elim disjE) simp_all
qed

lemma distinct_names_update:
  assumes "distinct (map s_name ss)" and "distinct (map s_id ss)" and "s0 \<in> set ss" and "s_id s0 = s_id s"
    and "s_name s = s_name s0 \<or> (\<forall>x \<in> set ss. s_id x \<noteq> s_id s \<longrightarrow> s_name x \<noteq> s_name s)"
  shows "distinct (map s_name (set_row s_id ss s))"
proof -
  have other: "s_name x \<noteq> s_name s" if "x \<in> set ss" "s_id x \<noteq> s_id s" for x
    using assms(5)
  proof
    assume "s_name s = s_name s0"
    moreover have "s_name x \<noteq> s_name s0"
      using assms(1,3,4) that by (metis distinct_map inj_onD)
    ultimately show ?thesis by simp
  qed (use that in blast)
  have "inj_on s_name (set ss)" "inj_on s_id (set ss)" "distinct ss" using assms(1,2) by (simp_all add: distinct_map)
  then have "inj_on (\<lambda>x. s_name (if s_id x = s_id s then s else x)) (set ss)"
  proof (intro inj_onI)
    fix x y
    assume xy: "x \<in> set ss" "y \<in> set ss" "s_name (if s_id x = s_id s then s else x) = s_name (if s_id y = s_id s then s else y)"
    show "x = y"
    proof (cases "s_id x = s_id s")
      case True
      moreover from this have "s_id y = s_id s" using xy other by (auto split: if_splits)
      ultimately show ?thesis using \<open>inj_on s_id (set ss)\<close> xy(1,2) by (simp add: inj_on_def)
    next
      case False
      moreover from this have "s_id y \<noteq> s_id s" using xy other by (auto split: if_splits)
      ultimately show ?thesis using \<open>inj_on s_name (set ss)\<close> xy by (simp add: inj_on_def)
    qed
  qed
  then show ?thesis using \<open>distinct ss\<close> by (simp add: set_row_def comp_def distinct_map)
qed

text \<open>C5. Every schedule is well typed and stays so: creation and update accept only a limit in the range of
  its column, a trigger that is either a positive interval without a crontab or a parsing crontab
  without an interval, a name no other schedule has, and overrides of the three permitted keys. The
  one exception is an update whose \<open>trigger_type\<close> is the empty string.
\<close>

theorem schedules_stay_well_typed:
  assumes "well_typed_schedules cron_ok d" and "keys_unique d" and "\<not> cron_ok []"
    and "create_schedule cron_ok d data now = Inr (d', s)
      \<or> update_schedule cron_ok d k data = Inr (d', s) \<and> map_of data ''trigger_type'' \<noteq> Some (JStr [])"
  shows "well_typed_schedules cron_ok d' \<and> s \<in> set (db_schedules d')"
  using assms(4)
proof
  assume "create_schedule cron_ok d data now = Inr (d', s)"
  with created_well_typed [OF this assms(3)] assms(1) show ?thesis by (simp add: well_typed_schedules_def)
next
  assume u: "update_schedule cron_ok d k data = Inr (d', s) \<and> map_of data ''trigger_type'' \<noteq> Some (JStr [])"
  then obtain s0 where s0: "find_schedule d k = Some s0"
    by (auto simp: update_schedule_def split: option.splits)
  then have m: "s0 \<in> set (db_schedules d)" "s_id s0 = k"
    by (auto simp: find_schedule_def dest: find_row_mem find_row_key)
  with assms(1) have w: "well_typed_schedule cron_ok s0" by (simp add: well_typed_schedules_def list_all_iff)
  note r = updated_well_typed [OF conjunct1 [OF u] assms(3) conjunct2 [OF u] s0 w]
  have "distinct (map s_name (db_schedules d'))"
  proof -
    have "distinct (map s_name (set_row s_id (db_schedules d) s))"
    proof (rule distinct_names_update [OF _ _ m(1)])
      show "s_name s = s_name s0 \<or> (\<forall>x \<in> set (db_schedules d). s_id x \<noteq> s_id s \<longrightarrow> s_name x \<noteq> s_name s)"
        using r by (auto simp: ensure_unique_name_def list_ex_iff split: if_splits)
    qed (use assms(1,2) m r in \<open>simp_all add: well_typed_schedules_def keys_unique_def\<close>)
    with r show ?thesis by (simp add: save_schedule_def)
  qed
  moreover have "db_schedules d' = map (\<lambda>x. if s_id x = s_id s then s else x) (db_schedules d)"
    using r by (simp add: save_schedule_def set_row_def)
  ultimately show ?thesis
    using r assms(1) m by (auto simp: well_typed_schedules_def list_all_iff image_iff intro!: bexI [of _ s0])
qed

text \<open>C6. What that exception does: an update with an empty \<open>trigger_type\<close> is validated as an interval, so a
  schedule with a valid interval accepts it, but it is stored as a trigger of no type, without its
  interval and with the crontab \<open>None\<close>, and the runner then fires it every 60 seconds; with a null
  \<open>trigger_type\<close> the commit fails on the column instead of a refusal of the request.
\<close>

theorem empty_trigger_type_fires_every_minute:
  assumes "find_schedule d k = Some s" and "s_interval_seconds s = Some n" and "n > 0"
  shows "(\<exists>d' s'. update_schedule cron_ok d k [(''trigger_type'', JStr [])] = Inr (d', s')
      \<and> s_trigger_type s' = [] \<and> s_interval_seconds s' = None \<and> s_enabled s' = s_enabled s
      \<and> build_trigger tz s' = Interval_trigger 60 tz)
    \<and> update_schedule cron_ok d k [(''trigger_type'', JNull)] = Inl (Not_null_violation ''trigger_type'')"
proof -
  have e: "py_strip [] = []" by (simp add: py_strip_def)
  note defs = update_schedule_def patch_schedule_def bind_res_def patch_template_def patch_name_def patch_description_def
    patch_limit_def patch_enabled_def patch_overrides_def patch_trigger_def validate_trigger_def VALID_TRIGGER_TYPES_def
    get_or_def int_of_def jint_def Let_def
  show ?thesis using assms e by (simp add: defs build_trigger_def)
qed

lemma empty_trigger_type_fires_every_minute_witness:
  "\<exists>d' s'. update_schedule (\<lambda>_. False) (empty_db\<lparr>db_schedules := [sample_schedule\<lparr>s_interval_seconds := Some 86400\<rparr>]\<rparr>) ''s1''
      [(''trigger_type'', JStr [])] = Inr (d', s') \<and> build_trigger ''UTC'' s' = Interval_trigger 60 ''UTC''"
  using empty_trigger_type_fires_every_minute [of "empty_db\<lparr>db_schedules := [sample_schedule\<lparr>s_interval_seconds := Some 86400\<rparr>]\<rparr>"
      "''s1''" "sample_schedule\<lparr>s_interval_seconds := Some 86400\<rparr>" 86400 "\<lambda>_. False" "''UTC''"]
  by (simp add: find_schedule_def) blast

definition daily_body :: obj where
  "daily_body = [(''name'', JStr ''daily''), (''execution_template_id'', JStr ''e1''), (''trigger_type'', JStr ''interval''),
     (''interval_seconds'', JInt 86400), (''max_concurrency'', JInt 2)]"

definition sample_template :: execution_template where
  "sample_template = \<lparr>et_id = ''e1'', et_name = ''nightly'', et_description = JNull, et_build_artifact_id = None,
    et_project = JNull, et_version = JNull, et_command = Some ''scrapy crawl prices'', et_node_strategy = ''all'',
    et_node_ids = [], et_created_at = 0\<rparr>"

lemma schedules_stay_well_typed_witness:
  "\<exists>d' s. create_schedule (\<lambda>c. c = ''0 0 * * *'') (empty_db\<lparr>db_templates := [sample_template]\<rparr>) daily_body 5 = Inr (d', s)
     \<and> well_typed_schedules (\<lambda>c. c = ''0 0 * * *'') d' \<and> s \<in> set (db_schedules d')"
proof -
  let ?d = "empty_db\<lparr>db_templates := [sample_template]\<rparr>"
  have "case create_schedule (\<lambda>c. c = ''0 0 * * *'') ?d daily_body 5 of Inr _ \<Rightarrow> True | Inl _ \<Rightarrow> False" by code_simp
  then obtain d' s where c: "create_schedule (\<lambda>c. c = ''0 0 * * *'') ?d daily_body 5 = Inr (d', s)"
    by (auto split: sum.splits)
  have w: "well_typed_schedules (\<lambda>c. c = ''0 0 * * *'') ?d" by (simp add: well_typed_schedules_def empty_db_def)
  have k: "keys_unique ?d" by (simp add: keys_unique_def empty_db_def)
  from schedules_stay_well_typed [OF w k _ disjI1 [OF c]] c show ?thesis by blast
qed

section \<open>Which schedules the runner fires\<close>

lemma add_jobs_all:
  "\<forall>s \<in> set ss. trigger_ok cron_ok (build_trigger tz s) \<Longrightarrow> add_jobs cron_ok tz ss = map (\<lambda>s. (s_id s, build_trigger tz s)) ss"
  by (induction ss) auto

lemma well_formed_trigger_ok: "trigger_well_formed cron_ok s \<Longrightarrow> trigger_ok cron_ok (build_trigger tz s)"
  by (auto simp: trigger_well_formed_def trigger_ok_def build_trigger_def)

text \<open>The runner has a job for every enabled schedule as long as there are at most 200 of them, each
  with the trigger of its row; beyond that only the 200 newest have one, so some enabled schedule
  never fires.
\<close>

theorem runner_jobs:
  assumes "well_typed_schedules cron_ok d" and "keys_unique d"
    and n_def: "n = length (filter s_enabled (db_schedules d))"
  shows "set (reload cron_ok tz d) \<subseteq> {(s_id s, build_trigger tz s) | s. s \<in> set (db_schedules d) \<and> s_enabled s}
    \<and> (n \<le> 200 \<longrightarrow> set (reload cron_ok tz d) = {(s_id s, build_trigger tz s) | s. s \<in> set (db_schedules d) \<and> s_enabled s})
    \<and> (n > 200 \<longrightarrow> (\<exists>s \<in> set (db_schedules d). s_enabled s \<and> s_id s \<notin> fst ` set (reload cron_ok tz d)))"
proof -
  let ?es = "sort_key (\<lambda>s. - s_created_at s) (filter s_enabled (db_schedules d))"
  have es: "set ?es = {s \<in> set (db_schedules d). s_enabled s}" "length ?es = n" by (auto simp: n_def)
  have ok: "\<forall>s \<in> set (take 200 ?es). trigger_ok cron_ok (build_trigger tz s)"
    using assms(1) es(1) by (auto simp: well_typed_schedules_def list_all_iff well_typed_schedule_def
        dest!: in_set_takeD intro: well_formed_trigger_ok)
  have r: "reload cron_ok tz d = map (\<lambda>s. (s_id s, build_trigger tz s)) (take 200 ?es)"
    unfolding reload_def list_enabled_schedules_def using ok by (rule add_jobs_all)
  have sub: "set (take 200 ?es) \<subseteq> set ?es" by (rule set_take_subset)
  have "\<exists>s \<in> set (db_schedules d). s_enabled s \<and> s_id s \<notin> fst ` set (reload cron_ok tz d)" if "n > 200"
  proof -
    let ?s = "?es ! 200"
    have s: "?s \<in> set ?es" using that es(2) by (simp only: nth_mem)
    have "inj_on s_id (set ?es)"
      using assms(2) unfolding es(1) by (auto simp: keys_unique_def distinct_map intro: inj_on_subset)
    moreover have "distinct ?es" using assms(2) by (simp add: keys_unique_def distinct_map)
    ultimately have d: "distinct (map s_id ?es)" by (simp add: distinct_map)
    have "s_id ?s \<notin> s_id ` set (take 200 ?es)"
    proof
      assume "s_id ?s \<in> s_id ` set (take 200 ?es)"
      then obtain i where i: "i < 200" "i < length ?es" "s_id (?es ! i) = s_id ?s"
        by (auto simp: in_set_conv_nth)
      then have "i = 200" using nth_eq_iff_index_eq [OF d, of i 200] that es(2) by simp
      with i(1) show False by simp
    qed
    then show ?thesis using s es(1) by (intro bexI [of _ ?s]) (auto simp: r image_image)
  qed
  moreover have "take 200 ?es = ?es" if "n \<le> 200" using that es(2) by simp
  ultimately show ?thesis using sub es(1) unfolding r by auto
qed

lemma runner_jobs_witness:
  "set (reload (\<lambda>_. False) ''UTC'' (empty_db\<lparr>db_schedules := [sample_schedule\<lparr>s_interval_seconds := Some 60, s_trigger_type := ''interval'',
       s_cron := None, s_name := ''n'', s_overrides := []\<rparr>]\<rparr>)) = {(''s1'', Interval_trigger 60 ''UTC'')}"
proof -
  let ?s = "sample_schedule\<lparr>s_interval_seconds := Some 60, s_trigger_type := ''interval'', s_cron := None, s_name := ''n'',
    s_overrides := []\<rparr>"
  let ?d = "empty_db\<lparr>db_schedules := [?s]\<rparr>"
  have w: "well_typed_schedules (\<lambda>_. False) ?d"
    by (simp add: well_typed_schedules_def well_typed_schedule_def trigger_well_formed_def MAX_CONCURRENCY_CEILING_def)
  have k: "keys_unique ?d" by (simp add: keys_unique_def empty_db_def)
  from runner_jobs [OF w k refl, of "''UTC''"] show ?thesis by (simp add: build_trigger_def)
qed

end
