(* ===== verification/AgentStore.thy ===== *)
theory AgentStore
  imports Protocol PyLib
begin

text \<open>
  The agent's state files (\<^verbatim>\<open>apps/agent/dopilot_agent/state/store.py\<close>): one JSON file per
  execution under \<open>{workdir}/state/executions\<close>.

  \<^item> A \<open>state_dir\<close> is the directory: file stems with their contents, \<open>None\<close> for a file that
    does not decode (torn by a crash, or not an \<open>AttemptState\<close>). \<open>os.replace\<close> is atomic, so a
    \<open>write\<close> is one step.
  \<^item> The fields holding \<open>datetime.isoformat()\<close> text are a \<open>stamp\<close>: the text of an instant, or
    text that \<open>datetime.fromisoformat\<close> rejects.
  \<^item> \<open>updated_at\<close> and \<open>created_at\<close> are taken from the clock reading \<open>now\<close>.
\<close>

section \<open>One attempt\<close>

datatype stamp = Iso instant | Text string

fun fromisoformat :: "stamp \<Rightarrow> instant option" where
  \<comment> \<open>\<open>None\<close> where Python raises \<open>ValueError\<close>\<close>
  "fromisoformat (Iso t) = Some t"
| "fromisoformat (Text s) = None"

definition stamp_given :: "stamp option \<Rightarrow> bool" where
  \<comment> \<open>the truth test of a nullable stamp\<close>
  "stamp_given s = (s \<noteq> None \<and> s \<noteq> Some (Text []))"

datatype phase = Phase_reserved | Phase_started | Phase_done

record attempt_state =
  as_task_id :: string
  as_execution_id :: string
  as_scrapyd_job_id :: string
  as_project :: string
  as_version :: "string option"
  as_spider :: string
  as_log_path :: string
  as_phase :: phase
  as_result :: "string option"
  as_lost_reason :: "string option"
  as_error_code :: "string option"
  as_exit_code :: "int option"
  as_created_at :: instant
  as_updated_at :: instant
  as_canceled :: bool
  as_runner_type :: string
  as_pid :: "int option"
  as_pgid :: "int option"
  as_workspace_path :: string
  as_install_path :: string
  as_shell_command :: string
  as_log_flood :: bool
  as_log_flood_bytes :: int
  as_log_flood_requested_at :: "stamp option"
  as_log_flood_escalation :: "string option"
  as_log_capped :: bool
  as_error_count :: "int option"
  as_finish_reason :: "string option"
  as_log_bytes :: "int option"
  as_outcome_class :: "string option"
  as_stop_intent :: "stop_intent option"
  as_stop_requested_at :: "stamp option"
  as_stop_escalation :: "string option"
  as_cleanup_pending :: bool
  as_kill_pending :: bool
  as_kill_last_attempt_at :: "stamp option"
  as_terminal_pending :: bool

definition new_attempt :: "string \<Rightarrow> string \<Rightarrow> instant \<Rightarrow> attempt_state" where
  \<comment> \<open>\<open>AttemptState(task_id=..., execution_id=...)\<close>: every other field at its default\<close>
  "new_attempt task_id execution_id now =
     \<lparr>as_task_id = task_id, as_execution_id = execution_id, as_scrapyd_job_id = [], as_project = [],
      as_version = None, as_spider = [], as_log_path = [], as_phase = Phase_started,
      as_result = None, as_lost_reason = None, as_error_code = None, as_exit_code = None,
      as_created_at = now, as_updated_at = now, as_canceled = False, as_runner_type = ''scrapy'',
      as_pid = None, as_pgid = None, as_workspace_path = [], as_install_path = [],
      as_shell_command = [], as_log_flood = False, as_log_flood_bytes = 0,
      as_log_flood_requested_at = None, as_log_flood_escalation = None, as_log_capped = False,
      as_error_count = None, as_finish_reason = None, as_log_bytes = None, as_outcome_class = None,
      as_stop_intent = None, as_stop_requested_at = None, as_stop_escalation = None,
      as_cleanup_pending = False, as_kill_pending = False, as_kill_last_attempt_at = None,
      as_terminal_pending = False\<rparr>"

section \<open>The directory\<close>

type_synonym state_dir = "(string \<times> attempt_state option) list"

definition read_state :: "state_dir \<Rightarrow> string \<Rightarrow> attempt_state option" where
  \<comment> \<open>missing and unreadable files both read as \<open>None\<close>\<close>
  "read_state d execution_id = (case map_of d execution_id of None \<Rightarrow> None | Some c \<Rightarrow> c)"

definition put_file :: "state_dir \<Rightarrow> attempt_state \<Rightarrow> state_dir" where
  \<comment> \<open>the temporary file renamed onto \<open>{execution_id}.json\<close>\<close>
  "put_file d st = AList.update (as_execution_id st) (Some st) d"

definition write_state :: "state_dir \<Rightarrow> attempt_state \<Rightarrow> instant \<Rightarrow> state_dir \<times> attempt_state" where
  "write_state d st now =
     (let st = st\<lparr>as_updated_at := now\<rparr> in (put_file d st, st))"

definition create_reserved ::
    "state_dir \<Rightarrow> attempt_state \<Rightarrow> state_dir \<times> attempt_state option" where
  \<comment> \<open>\<open>O_CREAT | O_EXCL\<close>: fails when the file exists, readable or not\<close>
  "create_reserved d st =
     (if map_of d (as_execution_id st) \<noteq> None then (d, None)
      else (let st = st\<lparr>as_phase := Phase_reserved\<rparr>
            in (put_file d st, Some st)))"

definition delete_state :: "state_dir \<Rightarrow> string \<Rightarrow> state_dir \<times> bool" where
  "delete_state d execution_id =
     (AList.delete execution_id d, map_of d execution_id \<noteq> None)"

definition list_execution_ids :: "state_dir \<Rightarrow> string list" where
  "list_execution_ids d = sort (map fst d)"

definition update_state ::
    "state_dir \<Rightarrow> instant \<Rightarrow> string \<Rightarrow> (attempt_state \<Rightarrow> attempt_state)
      \<Rightarrow> state_dir \<times> attempt_state option" where
  \<comment> \<open>\<open>read\<close>, return \<open>None\<close> when there is none, assign some fields, \<open>write\<close>\<close>
  "update_state d now execution_id f =
     (case read_state d execution_id of None \<Rightarrow> (d, None)
      | Some st \<Rightarrow> (let (d, st) = write_state d (f st) now in (d, Some st)))"

section \<open>The updates\<close>

definition promote_started ::
    "state_dir \<Rightarrow> instant \<Rightarrow> string \<Rightarrow> string \<Rightarrow> string \<Rightarrow> state_dir \<times> attempt_state option" where
  "promote_started d now execution_id scrapyd_job_id log_path =
     update_state d now execution_id (\<lambda>st. st\<lparr>as_phase := Phase_started,
       as_scrapyd_job_id := scrapyd_job_id, as_log_path := log_path\<rparr>)"

definition promote_started_wheel ::
    "state_dir \<Rightarrow> instant \<Rightarrow> string \<Rightarrow> int \<Rightarrow> int \<Rightarrow> string \<Rightarrow> string \<Rightarrow> string
      \<Rightarrow> state_dir \<times> attempt_state option" where
  "promote_started_wheel d now execution_id pid pgid workspace_path install_path log_path =
     update_state d now execution_id (\<lambda>st. st\<lparr>as_phase := Phase_started, as_pid := Some pid,
       as_pgid := Some pgid, as_workspace_path := workspace_path, as_install_path := install_path,
       as_log_path := log_path\<rparr>)"

record terminal_mark =
  tm_result :: string
  tm_lost_reason :: "string option"
  tm_error_code :: "string option"
  tm_exit_code :: "int option"
  tm_kill_pending :: "bool option"
  tm_terminal_pending :: "bool option"

definition terminal_mark :: "string \<Rightarrow> terminal_mark" where
  \<comment> \<open>the keyword defaults of \<open>mark_done\<close>\<close>
  "terminal_mark result =
     \<lparr>tm_result = result, tm_lost_reason = None, tm_error_code = None, tm_exit_code = None,
      tm_kill_pending = None, tm_terminal_pending = None\<rparr>"

definition done_state :: "terminal_mark \<Rightarrow> attempt_state \<Rightarrow> attempt_state" where
  "done_state m st = st\<lparr>as_phase := Phase_done, as_result := Some (tm_result m),
     as_lost_reason := tm_lost_reason m, as_error_code := tm_error_code m,
     as_exit_code := tm_exit_code m,
     as_canceled := (as_canceled st \<or> tm_result m = ''canceled''),
     as_kill_pending := or_default (tm_kill_pending m) (as_kill_pending st),
     as_terminal_pending := or_default (tm_terminal_pending m) (as_terminal_pending st)\<rparr>"

definition mark_done ::
    "state_dir \<Rightarrow> instant \<Rightarrow> string \<Rightarrow> terminal_mark \<Rightarrow> state_dir \<times> attempt_state option" where
  "mark_done d now execution_id m = update_state d now execution_id (done_state m)"

definition mark_stop_requested ::
    "state_dir \<Rightarrow> instant \<Rightarrow> string \<Rightarrow> stop_intent \<Rightarrow> stamp \<Rightarrow> state_dir \<times> attempt_state option" where
  "mark_stop_requested d now execution_id intent requested_at =
     update_state d now execution_id (\<lambda>st. st\<lparr>as_stop_intent := Some intent,
       as_stop_requested_at := Some requested_at, as_stop_escalation := None\<rparr>)"

definition mark_stop_escalation ::
    "state_dir \<Rightarrow> instant \<Rightarrow> string \<Rightarrow> string \<Rightarrow> state_dir \<times> attempt_state option" where
  "mark_stop_escalation d now execution_id escalation =
     update_state d now execution_id (\<lambda>st. st\<lparr>as_stop_escalation := Some escalation\<rparr>)"

definition mark_cleanup_pending ::
    "state_dir \<Rightarrow> instant \<Rightarrow> string \<Rightarrow> state_dir \<times> attempt_state option" where
  "mark_cleanup_pending d now execution_id =
     update_state d now execution_id (\<lambda>st. st\<lparr>as_cleanup_pending := True\<rparr>)"

definition mark_kill_attempt ::
    "state_dir \<Rightarrow> instant \<Rightarrow> string \<Rightarrow> stamp \<Rightarrow> state_dir \<times> attempt_state option" where
  "mark_kill_attempt d now execution_id at =
     update_state d now execution_id (\<lambda>st. st\<lparr>as_kill_last_attempt_at := Some at\<rparr>)"

definition clear_kill_pending ::
    "state_dir \<Rightarrow> instant \<Rightarrow> string \<Rightarrow> state_dir \<times> attempt_state option" where
  "clear_kill_pending d now execution_id =
     update_state d now execution_id (\<lambda>st. st\<lparr>as_kill_pending := False\<rparr>)"

definition clear_terminal_pending ::
    "state_dir \<Rightarrow> instant \<Rightarrow> string \<Rightarrow> state_dir \<times> attempt_state option" where
  "clear_terminal_pending d now execution_id =
     update_state d now execution_id (\<lambda>st. st\<lparr>as_terminal_pending := False\<rparr>)"

definition mark_canceled ::
    "state_dir \<Rightarrow> instant \<Rightarrow> string \<Rightarrow> state_dir \<times> attempt_state option" where
  "mark_canceled d now execution_id =
     (case read_state d execution_id of None \<Rightarrow> (d, None)
      | Some st \<Rightarrow> if as_canceled st then (d, Some st)
          else update_state d now execution_id (\<lambda>st. st\<lparr>as_canceled := True\<rparr>))"

definition flood_state :: "int \<Rightarrow> stamp \<Rightarrow> string option \<Rightarrow> attempt_state \<Rightarrow> attempt_state" where
  "flood_state log_bytes requested_at escalation st = st\<lparr>as_log_flood := True,
     as_log_flood_bytes := max (as_log_flood_bytes st) log_bytes,
     as_log_flood_requested_at := first_some (as_log_flood_requested_at st) (Some requested_at),
     as_log_flood_escalation := first_some escalation (as_log_flood_escalation st)\<rparr>"

definition mark_log_flood ::
    "state_dir \<Rightarrow> instant \<Rightarrow> string \<Rightarrow> int \<Rightarrow> stamp \<Rightarrow> string option
      \<Rightarrow> state_dir \<times> attempt_state option" where
  "mark_log_flood d now execution_id log_bytes requested_at escalation =
     update_state d now execution_id (flood_state log_bytes requested_at escalation)"

definition mark_log_capped ::
    "state_dir \<Rightarrow> instant \<Rightarrow> string \<Rightarrow> state_dir \<times> attempt_state option" where
  "mark_log_capped d now execution_id =
     (case read_state d execution_id of None \<Rightarrow> (d, None)
      | Some st \<Rightarrow> if as_log_capped st then (d, Some st)
          else update_state d now execution_id (\<lambda>st. st\<lparr>as_log_capped := True\<rparr>))"

definition mark_stats ::
    "state_dir \<Rightarrow> instant \<Rightarrow> string \<Rightarrow> int option \<Rightarrow> string option \<Rightarrow> int option \<Rightarrow> string option
      \<Rightarrow> state_dir \<times> attempt_state option" where
  "mark_stats d now execution_id error_count finish_reason log_bytes outcome_class =
     update_state d now execution_id (\<lambda>st. st\<lparr>as_error_count := error_count,
       as_finish_reason := finish_reason, as_log_bytes := log_bytes,
       as_outcome_class := outcome_class\<rparr>)"

section \<open>The directory as a store of attempts\<close>

definition well_keyed :: "state_dir \<Rightarrow> bool" where
  "well_keyed d \<longleftrightarrow> distinct (map fst d)
     \<and> list_all (\<lambda>(k, c). case c of None \<Rightarrow> True | Some st \<Rightarrow> as_execution_id st = k) d"

lemma well_keyed_Nil [simp]: "well_keyed []"
  by (simp add: well_keyed_def)

lemma read_put_file [row_simps]:
  "read_state (put_file d st) k = (if k = as_execution_id st then Some st else read_state d k)"
  by (simp add: read_state_def put_file_def update_conv)

lemma read_delete [row_simps]:
  "read_state (fst (delete_state d k')) k = (if k = k' then None else read_state d k)"
  by (simp add: read_state_def delete_state_def delete_conv')

lemma well_keyed_read: "well_keyed d \<Longrightarrow> read_state d k = Some st \<Longrightarrow> as_execution_id st = k"
  by (auto simp: well_keyed_def read_state_def list_all_iff split: option.splits dest!: map_of_SomeD)

lemma well_keyed_put_file: "well_keyed d \<Longrightarrow> well_keyed (put_file d st)"
proof -
  assume wk: "well_keyed d"
  have "list_all (\<lambda>(k, c). case c of None \<Rightarrow> True | Some st \<Rightarrow> as_execution_id st = k)
      (AList.update (as_execution_id st) (Some st) d)"
    using wk unfolding well_keyed_def by (induction d) auto
  with wk show ?thesis by (simp add: well_keyed_def put_file_def distinct_update)
qed

lemma well_keyed_delete: "well_keyed d \<Longrightarrow> well_keyed (fst (delete_state d k))"
  using distinct_delete [of d k] by (auto simp: well_keyed_def delete_state_def list_all_iff AList.delete_eq)

interpretation states: keyed_store read_state as_execution_id put_file
    "\<lambda>d k. fst (delete_state d k)" well_keyed
  by unfold_locales (auto simp: row_simps well_keyed_put_file well_keyed_delete
      dest: well_keyed_read)

definition touched :: "instant \<Rightarrow> (attempt_state \<Rightarrow> attempt_state) \<Rightarrow> attempt_state \<Rightarrow> attempt_state" where
  "touched now f st = (f st)\<lparr>as_updated_at := now\<rparr>"

lemma update_state_eq:
  "update_state d now k f = (modify_row read_state put_file d k (touched now f),
     map_option (touched now f) (read_state d k))"
  by (simp add: update_state_def modify_row_def write_state_def touched_def Let_def split: option.split)

lemma read_update_state [row_simps]:
  assumes "well_keyed d" and "\<And>st. as_execution_id (f st) = as_execution_id st"
  shows "read_state (fst (update_state d now k f)) k' =
    (if k' = k then map_option (touched now f) (read_state d k) else read_state d k')"
  by (simp add: update_state_eq states.lookup_modify [OF assms(1)] touched_def assms(2))

lemma well_keyed_update_state: "well_keyed d \<Longrightarrow> well_keyed (fst (update_state d now k f))"
  by (simp add: update_state_eq states.inv_modify)

lemma list_ids_iff: "k \<in> set (list_execution_ids d) \<longleftrightarrow> map_of d k \<noteq> None"
  by (auto simp: list_execution_ids_def map_of_eq_None_iff simp del: not_None_eq)

lemma read_in_list: "read_state d k = Some st \<Longrightarrow> k \<in> set (list_execution_ids d)"
  by (auto simp: list_ids_iff read_state_def split: option.splits)

section \<open>Refinement: a map with atomic read-modify-write\<close>

datatype store_op =
    Op_write attempt_state
  | Op_reserve attempt_state
  | Op_promote_started string string
  | Op_promote_started_wheel int int string string string
  | Op_mark_done terminal_mark
  | Op_stop_requested stop_intent stamp
  | Op_stop_escalation string
  | Op_cleanup_pending
  | Op_kill_attempt stamp
  | Op_clear_kill_pending
  | Op_clear_terminal_pending
  | Op_mark_canceled
  | Op_log_flood int stamp "string option"
  | Op_log_capped
  | Op_stats "int option" "string option" "int option" "string option"
  | Op_delete
  | Op_delete_if_due \<comment> \<open>the guarded deletion at the end of a stop or a reclamation\<close>

definition cleanup_due :: "attempt_state \<Rightarrow> bool" where
  "cleanup_due st \<longleftrightarrow> as_cleanup_pending st \<and> \<not> as_kill_pending st \<and> \<not> as_terminal_pending st"

fun run_store_op :: "store_op \<Rightarrow> instant \<Rightarrow> string \<Rightarrow> state_dir \<Rightarrow> state_dir" where
  "run_store_op (Op_write st) now k d = fst (write_state d (st\<lparr>as_execution_id := k\<rparr>) now)"
| "run_store_op (Op_reserve st) now k d = fst (create_reserved d (st\<lparr>as_execution_id := k\<rparr>))"
| "run_store_op (Op_promote_started j l) now k d = fst (promote_started d now k j l)"
| "run_store_op (Op_promote_started_wheel p g w i l) now k d = fst (promote_started_wheel d now k p g w i l)"
| "run_store_op (Op_mark_done m) now k d = fst (mark_done d now k m)"
| "run_store_op (Op_stop_requested i t) now k d = fst (mark_stop_requested d now k i t)"
| "run_store_op (Op_stop_escalation e) now k d = fst (mark_stop_escalation d now k e)"
| "run_store_op Op_cleanup_pending now k d = fst (mark_cleanup_pending d now k)"
| "run_store_op (Op_kill_attempt t) now k d = fst (mark_kill_attempt d now k t)"
| "run_store_op Op_clear_kill_pending now k d = fst (clear_kill_pending d now k)"
| "run_store_op Op_clear_terminal_pending now k d = fst (clear_terminal_pending d now k)"
| "run_store_op Op_mark_canceled now k d = fst (mark_canceled d now k)"
| "run_store_op (Op_log_flood n t e) now k d = fst (mark_log_flood d now k n t e)"
| "run_store_op Op_log_capped now k d = fst (mark_log_capped d now k)"
| "run_store_op (Op_stats e f b c) now k d = fst (mark_stats d now k e f b c)"
| "run_store_op Op_delete now k d = fst (delete_state d k)"
| "run_store_op Op_delete_if_due now k d = (case read_state d k of None \<Rightarrow> d
     | Some st \<Rightarrow> if cleanup_due st then fst (delete_state d k) else d)"

fun abstract_op :: "store_op \<Rightarrow> instant \<Rightarrow> string \<Rightarrow> attempt_state option \<Rightarrow> attempt_state option" where
  \<comment> \<open>what each operation makes of the one value it is about\<close>
  "abstract_op (Op_write st) now k v = Some (st\<lparr>as_execution_id := k, as_updated_at := now\<rparr>)"
| "abstract_op (Op_reserve st) now k v =
     (case v of None \<Rightarrow> Some (st\<lparr>as_execution_id := k, as_phase := Phase_reserved\<rparr>) | Some w \<Rightarrow> Some w)"
| "abstract_op (Op_promote_started j l) now k v = map_option (\<lambda>st. st\<lparr>as_phase := Phase_started,
     as_scrapyd_job_id := j, as_log_path := l, as_updated_at := now\<rparr>) v"
| "abstract_op (Op_promote_started_wheel p g w i l) now k v = map_option (\<lambda>st. st\<lparr>as_phase := Phase_started,
     as_pid := Some p, as_pgid := Some g, as_workspace_path := w, as_install_path := i,
     as_log_path := l, as_updated_at := now\<rparr>) v"
| "abstract_op (Op_mark_done m) now k v = map_option (\<lambda>st. (done_state m st)\<lparr>as_updated_at := now\<rparr>) v"
| "abstract_op (Op_stop_requested i t) now k v = map_option (\<lambda>st. st\<lparr>as_stop_intent := Some i,
     as_stop_requested_at := Some t, as_stop_escalation := None, as_updated_at := now\<rparr>) v"
| "abstract_op (Op_stop_escalation e) now k v =
     map_option (\<lambda>st. st\<lparr>as_stop_escalation := Some e, as_updated_at := now\<rparr>) v"
| "abstract_op Op_cleanup_pending now k v =
     map_option (\<lambda>st. st\<lparr>as_cleanup_pending := True, as_updated_at := now\<rparr>) v"
| "abstract_op (Op_kill_attempt t) now k v =
     map_option (\<lambda>st. st\<lparr>as_kill_last_attempt_at := Some t, as_updated_at := now\<rparr>) v"
| "abstract_op Op_clear_kill_pending now k v =
     map_option (\<lambda>st. st\<lparr>as_kill_pending := False, as_updated_at := now\<rparr>) v"
| "abstract_op Op_clear_terminal_pending now k v =
     map_option (\<lambda>st. st\<lparr>as_terminal_pending := False, as_updated_at := now\<rparr>) v"
| "abstract_op Op_mark_canceled now k v =
     map_option (\<lambda>st. if as_canceled st then st else st\<lparr>as_canceled := True, as_updated_at := now\<rparr>) v"
| "abstract_op (Op_log_flood n t e) now k v =
     map_option (\<lambda>st. (flood_state n t e st)\<lparr>as_updated_at := now\<rparr>) v"
| "abstract_op Op_log_capped now k v =
     map_option (\<lambda>st. if as_log_capped st then st else st\<lparr>as_log_capped := True, as_updated_at := now\<rparr>) v"
| "abstract_op (Op_stats e f b c) now k v = map_option (\<lambda>st. st\<lparr>as_error_count := e,
     as_finish_reason := f, as_log_bytes := b, as_outcome_class := c, as_updated_at := now\<rparr>) v"
| "abstract_op Op_delete now k v = None"
| "abstract_op Op_delete_if_due now k v = (case v of None \<Rightarrow> None
     | Some st \<Rightarrow> if cleanup_due st then None else Some st)"

definition store_abs :: "state_dir \<Rightarrow> string \<Rightarrow> attempt_state option" where
  "store_abs d = (\<lambda>k. read_state d k)"

lemmas store_updates =
  promote_started_def promote_started_wheel_def mark_done_def mark_stop_requested_def
  mark_stop_escalation_def mark_cleanup_pending_def mark_kill_attempt_def clear_kill_pending_def
  clear_terminal_pending_def mark_log_flood_def mark_stats_def mark_canceled_def mark_log_capped_def

lemma done_state_id [simp]: "as_execution_id (done_state m st) = as_execution_id st"
  by (simp add: done_state_def)

lemma flood_state_id [simp]: "as_execution_id (flood_state n t e st) = as_execution_id st"
  by (simp add: flood_state_def)

lemma store_op_invariant: "well_keyed d \<Longrightarrow> well_keyed (run_store_op op now k d)"
  by (cases op) (auto simp: store_updates write_state_def create_reserved_def Let_def
      well_keyed_put_file well_keyed_delete well_keyed_update_state split: option.split)

lemma read_canceled_same:
  "read_state d k = Some st \<Longrightarrow> as_canceled st \<Longrightarrow> fst (mark_canceled d now k) = d"
  by (simp add: mark_canceled_def)

text \<open>The state files refine a map from execution ids to attempts: on a directory whose readable
  files carry their own id, and with no unreadable file of that id, every operation of the store
  acts on the map as one atomic read-modify-write of the value under its id, and leaves every
  other value and the invariant alone. An unreadable file only makes the reservation fail.
\<close>

theorem store_refines_map:
  assumes "well_keyed d"
  shows "well_keyed (run_store_op op now k d)
    \<and> (map_of d k \<noteq> Some None \<longrightarrow>
        store_abs (run_store_op op now k d) = (store_abs d)(k := abstract_op op now k (store_abs d k)))
    \<and> (map_of d k = Some None \<longrightarrow> fst (create_reserved d (st\<lparr>as_execution_id := k\<rparr>)) = d)"
proof (intro conjI impI)
  show "well_keyed (run_store_op op now k d)"
    using assms by (rule store_op_invariant)
  assume "map_of d k \<noteq> Some None"
  then have reserve: "map_of d k = None \<longleftrightarrow> read_state d k = None"
    by (auto simp: read_state_def split: option.splits)
  show "store_abs (run_store_op op now k d) = (store_abs d)(k := abstract_op op now k (store_abs d k))"
  proof
    fix k'
    show "store_abs (run_store_op op now k d) k'
        = ((store_abs d)(k := abstract_op op now k (store_abs d k))) k'"
      using assms reserve
      by (cases op; cases "read_state d k")
         (auto simp: store_abs_def store_updates write_state_def create_reserved_def Let_def
           row_simps touched_def)
  qed
qed (simp add: create_reserved_def)

lemma store_refines_map_witness:
  "store_abs (run_store_op (Op_mark_done (terminal_mark ''finished'')) 9 ''e''
      [(''e'', Some (new_attempt ''t'' ''e'' 1))]) ''e'' =
     Some ((done_state (terminal_mark ''finished'') (new_attempt ''t'' ''e'' 1))\<lparr>as_updated_at := 9\<rparr>)"
proof -
  let ?d = "[(''e'', Some (new_attempt ''t'' ''e'' 1))]"
  have "well_keyed ?d" by (simp add: well_keyed_def new_attempt_def)
  from store_refines_map [OF this, of "Op_mark_done (terminal_mark ''finished'')" 9 "''e''"]
  show ?thesis by (simp add: store_abs_def read_state_def)
qed

end
