(* ===== verification/AgentScrapyd.thy ===== *)
theory AgentScrapyd
  imports AgentStore
begin

text \<open>
  The agent's side of scrapyd: the HTTP client
  (\<^verbatim>\<open>apps/agent/dopilot_agent/scrapyd/client.py\<close>), the runner that resolves the status of
  a job from the state file and scrapyd's job lists (\<^verbatim>\<open>runners/scrapyd.py\<close>) and the parser
  of the statistics scrapy prints at the end of its log (\<^verbatim>\<open>scrapyd/stats.py\<close>).

  The HTTP library and scrapyd itself are not under src/: \<open>scrapyd_http\<close> gives the two calls
  over a world \<open>'w\<close> that they may change. Nothing is assumed of them.
\<close>

section \<open>The HTTP client\<close>

datatype http_reply =
    Http_failed string
  | Http_reply int "json option" \<comment> \<open>status code, and the body when it is JSON\<close>

record 'w scrapyd_http =
  http_post :: "'w \<Rightarrow> string \<Rightarrow> obj \<Rightarrow> 'w \<times> http_reply"
  http_get :: "'w \<Rightarrow> string \<Rightarrow> obj \<Rightarrow> 'w \<times> http_reply"

datatype scrapyd_error = ScrapydError (error_message: json) (error_details: obj)

definition parse_reply :: "string \<Rightarrow> http_reply \<Rightarrow> scrapyd_error + obj" where
  \<comment> \<open>the \<open>except httpx.HTTPError\<close> of \<open>_post\<close> and \<open>_get\<close>, and \<open>_parse\<close>\<close>
  "parse_reply path reply =
     (case reply of
        Http_failed exc \<Rightarrow>
          Inl (ScrapydError (JStr (''scrapyd request failed: '' @ exc)) [(''path'', JStr path)])
      | Http_reply status None \<Rightarrow>
          Inl (ScrapydError (JStr (''scrapyd returned non-JSON for '' @ path))
            [(''path'', JStr path), (''http_status'', JInt status)])
      | Http_reply status (Some (JObj body)) \<Rightarrow>
          if obj_get body ''status'' \<noteq> JStr ''ok''
          then Inl (ScrapydError
            (if map_of body ''message'' = None then JStr (''scrapyd status != ok for '' @ path)
             else obj_get body ''message'')
            [(''path'', JStr path), (''scrapyd'', JObj body)])
          else Inr body
      | Http_reply status (Some _) \<Rightarrow>
          Inl (ScrapydError (JStr (''scrapyd returned unexpected payload for '' @ path))
            [(''path'', JStr path)]))"

definition client_post ::
    "('w, 'z) scrapyd_http_scheme \<Rightarrow> 'w \<Rightarrow> string \<Rightarrow> obj \<Rightarrow> 'w \<times> (scrapyd_error + obj)" where
  "client_post env w path data = map_prod id (parse_reply path) (http_post env w path data)"

definition client_get ::
    "('w, 'z) scrapyd_http_scheme \<Rightarrow> 'w \<Rightarrow> string \<Rightarrow> obj \<Rightarrow> 'w \<times> (scrapyd_error + obj)" where
  "client_get env w path params = map_prod id (parse_reply path) (http_get env w path params)"

definition client_addversion ::
    "('w, 'z) scrapyd_http_scheme \<Rightarrow> 'w \<Rightarrow> string \<Rightarrow> string \<Rightarrow> string \<Rightarrow> 'w \<times> (scrapyd_error + obj)" where
  "client_addversion env w project version egg_bytes =
     client_post env w ''/addversion.json''
       [(''project'', JStr project), (''version'', JStr version), (''egg'', JStr egg_bytes)]"

definition schedule_form ::
    "string \<Rightarrow> string \<Rightarrow> string option \<Rightarrow> (string \<times> string) list \<Rightarrow> (string \<times> string) list \<Rightarrow> obj" where
  \<comment> \<open>the form fields: an argument named like a field replaces it\<close>
  "schedule_form project spider version settings args =
     (let data = [(''project'', JStr project), (''spider'', JStr spider)];
          data = (if truthy_str version then obj_set data ''_version'' (jstr version) else data);
          data = (if settings \<noteq> []
            then obj_set data ''setting'' (JList (map (\<lambda>(k, v). JStr (k @ ''='' @ v)) settings)) else data)
      in fold (\<lambda>(k, v) data. obj_set data k (JStr v)) args data)"

definition client_schedule ::
    "('w, 'z) scrapyd_http_scheme \<Rightarrow> 'w \<Rightarrow> string \<Rightarrow> string \<Rightarrow> string option \<Rightarrow> (string \<times> string) list
      \<Rightarrow> (string \<times> string) list \<Rightarrow> 'w \<times> (scrapyd_error + string)" where
  "client_schedule env w project spider version settings args =
     (case client_post env w ''/schedule.json'' (schedule_form project spider version settings args) of
        (w, Inl e) \<Rightarrow> (w, Inl e)
      | (w, Inr body) \<Rightarrow>
          if \<not> truthy (obj_get body ''jobid'')
          then (w, Inl (ScrapydError (JStr ''scrapyd schedule returned no jobid'') [(''scrapyd'', JObj body)]))
          else (w, Inr (py_str (obj_get body ''jobid''))))"

definition client_cancel ::
    "('w, 'z) scrapyd_http_scheme \<Rightarrow> 'w \<Rightarrow> string \<Rightarrow> string \<Rightarrow> string option \<Rightarrow> 'w \<times> (scrapyd_error + obj)" where
  "client_cancel env w project job signal =
     client_post env w ''/cancel.json''
       ([(''project'', JStr project), (''job'', JStr job)]
        @ (if truthy_str signal then [(''signal'', jstr signal)] else []))"

definition client_listjobs ::
    "('w, 'z) scrapyd_http_scheme \<Rightarrow> 'w \<Rightarrow> string \<Rightarrow> 'w \<times> (scrapyd_error + obj)" where
  "client_listjobs env w project = client_get env w ''/listjobs.json'' [(''project'', JStr project)]"

definition client_daemonstatus ::
    "('w, 'z) scrapyd_http_scheme \<Rightarrow> 'w \<Rightarrow> 'w \<times> (scrapyd_error + obj)" where
  "client_daemonstatus env w = client_get env w ''/daemonstatus.json'' []"

section \<open>Files\<close>

type_synonym files = "(string \<times> string) list"

definition log_size :: "files \<Rightarrow> string \<Rightarrow> int option" where
  "log_size fs path = map_option (\<lambda>c. int (length c)) (map_of fs path)"

definition TAIL_BYTES :: nat where
  "TAIL_BYTES = 65536"

definition read_log_tail :: "files \<Rightarrow> string \<Rightarrow> string" where
  "read_log_tail fs path =
     (case map_of fs path of None \<Rightarrow> []
      | Some c \<Rightarrow> if length c > TAIL_BYTES then drop (length c - TAIL_BYTES) c else c)"

section \<open>The statistics block\<close>

definition OUTCOME_CLASS_MAX_CHARS_agent :: nat where
  "OUTCOME_CLASS_MAX_CHARS_agent = 64"

definition STATS_BLOCK_MARKER :: string where
  "STATS_BLOCK_MARKER = ''Dumping Scrapy stats''"

record scrapy_stats =
  ss_error_count :: "int option"
  ss_finish_reason :: "string option"
  ss_outcome_class :: "string option"

fun starts_with :: "string \<Rightarrow> string \<Rightarrow> bool" where
  "starts_with [] s = True"
| "starts_with (c # p) [] = False"
| "starts_with (c # p) (d # s) = (c = d \<and> starts_with p s)"

fun after_last :: "string \<Rightarrow> string \<Rightarrow> string option" where
  \<comment> \<open>what follows the last occurrence, \<open>tail[tail.rfind(m):]\<close> without \<open>m\<close>\<close>
  "after_last m [] = None"
| "after_last m (c # s) =
     (case after_last m s of Some r \<Rightarrow> Some r
      | None \<Rightarrow> if starts_with m (c # s) then Some (drop (length m) (c # s)) else None)"

fun split_lines :: "bool \<Rightarrow> string \<Rightarrow> string \<Rightarrow> string list" where
  \<comment> \<open>\<open>bytes.splitlines\<close>: separators LF, CR and CR LF; the flag tells that a CR came just before\<close>
  "split_lines cr acc [] = (if acc = [] then [] else [rev acc])"
| "split_lines cr acc (c # s) =
     (if c = CHR 0x0A then (if cr then split_lines False [] s else rev acc # split_lines False [] s)
      else if c = CHR 0x0D then rev acc # split_lines True [] s
      else split_lines False (c # acc) s)"

definition re_space :: "char \<Rightarrow> bool" where
  \<comment> \<open>\<open>\s\<close> in a bytes pattern, and what \<open>bytes.strip\<close> removes\<close>
  "re_space c = (ord_of c = 32 \<or> (9 \<le> ord_of c \<and> ord_of c \<le> 13))"

definition dict_line :: "string \<Rightarrow> bool" where
  \<comment> \<open>\<open>_RE_DICT_LINE\<close>\<close>
  "dict_line l = (case dropWhile re_space l of [] \<Rightarrow> False | c # _ \<Rightarrow> c = CHR ''{'' \<or> c = CHR 0x27)"

definition closes_dict :: "string \<Rightarrow> bool" where
  "closes_dict l = (case dropWhile re_space (rev l) of [] \<Rightarrow> False | c # _ \<Rightarrow> c = CHR ''}'')"

fun take_dict :: "string list \<Rightarrow> string list \<times> bool" where
  \<comment> \<open>the loop over the lines after the marker line\<close>
  "take_dict [] = ([], False)"
| "take_dict (l # ls) =
     (if \<not> dict_line l then ([], False)
      else if closes_dict l then ([l], True)
      else (let (xs, closed) = take_dict ls in (l # xs, closed)))"

definition last_stats_dict :: "string \<Rightarrow> (string \<times> bool) option" where
  "last_stats_dict tail =
     (case after_last STATS_BLOCK_MARKER tail of None \<Rightarrow> None
      | Some r \<Rightarrow> (case dropWhile (\<lambda>c. c \<noteq> CHR 0x0A) r of
            [] \<Rightarrow> Some ([], False)
          | nl # rest \<Rightarrow> (let (ls, closed) = take_dict (split_lines False [] rest)
              in Some (join_with [CHR 0x0A] ls, closed))))"

fun find_after :: "string \<Rightarrow> (string \<Rightarrow> 'a option) \<Rightarrow> string \<Rightarrow> 'a option" where
  \<comment> \<open>\<open>re.search\<close> for a literal prefix followed by something: the first place where both match\<close>
  "find_after p f [] = None"
| "find_after p f (c # s) =
     (case (if starts_with p (c # s) then f (drop (length p) (c # s)) else None) of
        Some v \<Rightarrow> Some v
      | None \<Rightarrow> find_after p f s)"

definition match_count :: "string \<Rightarrow> int option" where
  \<comment> \<open>\<open>\s*(\d+)\<close>\<close>
  "match_count s = (let ds = takeWhile is_digit (dropWhile re_space s)
     in if ds = [] then None else Some (int (read_nat ds)))"

definition match_quoted :: "string \<Rightarrow> string option" where
  \<comment> \<open>\<open>\s*'([^']+)'\<close>\<close>
  "match_quoted s =
     (case dropWhile re_space s of [] \<Rightarrow> None
      | q # r \<Rightarrow>
          if q \<noteq> CHR 0x27 then None
          else (let v = takeWhile (\<lambda>c. c \<noteq> CHR 0x27) r
            in if v = [] \<or> length v = length r then None else Some v))"

definition quoted_key :: "string \<Rightarrow> string" where
  "quoted_key k = [CHR 0x27] @ k @ [CHR 0x27, CHR '':'']"

definition parse_scrapy_stats :: "string \<Rightarrow> scrapy_stats" where
  "parse_scrapy_stats tail =
     (case last_stats_dict tail of
        None \<Rightarrow> \<lparr>ss_error_count = None, ss_finish_reason = None, ss_outcome_class = None\<rparr>
      | Some (block, closed) \<Rightarrow>
          \<lparr>ss_error_count = (case find_after (quoted_key ''log_count/ERROR'') match_count block of
               Some n \<Rightarrow> Some n | None \<Rightarrow> if closed then Some 0 else None),
           ss_finish_reason = find_after (quoted_key ''finish_reason'') match_quoted block,
           ss_outcome_class = map_option (take OUTCOME_CLASS_MAX_CHARS_agent)
             (find_after (quoted_key ''outcome/class'') match_quoted block)\<rparr>)"

section \<open>The runner\<close>

record runner_config =
  rn_logs_dir :: string
  rn_max_job_log_bytes :: int

definition LOG_CAP_SETTING :: string where
  "LOG_CAP_SETTING = ''DOPILOT_JOB_LOG_CAP_BYTES''"

definition job_log_path :: "runner_config \<Rightarrow> string \<Rightarrow> string \<Rightarrow> string \<Rightarrow> string" where
  "job_log_path rn project spider job_id =
     rn_logs_dir rn @ ''/'' @ project @ ''/'' @ spider @ ''/'' @ job_id @ ''.log''"

record agent_run_request =
  rr_task_id :: string
  rr_execution_id :: string
  rr_project :: string
  rr_spider :: string
  rr_version :: "string option"
  rr_settings :: "(string \<times> string) list"
  rr_args :: "(string \<times> string) list"

definition runner_schedule ::
    "('w, 'z) scrapyd_http_scheme \<Rightarrow> runner_config \<Rightarrow> 'w \<Rightarrow> agent_run_request \<Rightarrow> 'w \<times> (obj + string)" where
  \<comment> \<open>\<open>Inl\<close> is the detail of the \<open>RunnerError\<close>\<close>
  "runner_schedule env rn w req =
     (let settings = (if rn_max_job_log_bytes rn > 0
          then AList.update LOG_CAP_SETTING (show_int (rn_max_job_log_bytes rn)) (rr_settings req)
          else rr_settings req)
      in case client_schedule env w (rr_project req) (rr_spider req) (rr_version req) settings (rr_args req) of
           (w, Inl e) \<Rightarrow> (w, Inl (obj_update
             [(''project'', JStr (rr_project req)), (''spider'', JStr (rr_spider req))] (error_details e)))
         | (w, Inr job_id) \<Rightarrow> (w, Inr job_id))"

definition in_list :: "json \<Rightarrow> string \<Rightarrow> bool" where
  "in_list jobs job_id =
     (case jobs of
        JList js \<Rightarrow> list_ex (\<lambda>j. case j of JObj d \<Rightarrow> obj_get d ''id'' = JStr job_id | _ \<Rightarrow> False) js
      | _ \<Rightarrow> False)"

definition job_status :: "files \<Rightarrow> attempt_state \<Rightarrow> (scrapyd_error + obj) \<Rightarrow> attempt_status" where
  \<comment> \<open>the verdict of \<open>_resolve_status\<close> on scrapyd's answer\<close>
  "job_status fs st answer =
     (case answer of
        Inl e \<Rightarrow> St_unknown
      | Inr jobs \<Rightarrow>
          if in_list (obj_get jobs ''running'') (as_scrapyd_job_id st) then St_running
          else if in_list (obj_get jobs ''pending'') (as_scrapyd_job_id st) then St_running
          else if in_list (obj_get jobs ''finished'') (as_scrapyd_job_id st)
            then (if as_canceled st then St_canceled else St_finished)
          else if map_of fs (as_log_path st) \<noteq> None
            then (if as_canceled st then St_canceled else St_finished)
          else St_unknown)"

definition resolve_status ::
    "('w, 'z) scrapyd_http_scheme \<Rightarrow> files \<Rightarrow> 'w \<Rightarrow> attempt_state \<Rightarrow> 'w \<times> attempt_status" where
  "resolve_status env fs w st = map_prod id (job_status fs st) (client_listjobs env w (as_project st))"

record stop_response =
  sr_status :: attempt_status
  sr_stopped :: bool
  sr_detail :: obj

definition runner_stop ::
    "('w, 'z) scrapyd_http_scheme \<Rightarrow> files \<Rightarrow> instant \<Rightarrow> state_dir \<times> 'w \<Rightarrow> string \<Rightarrow> string option
      \<Rightarrow> (state_dir \<times> 'w) \<times> stop_response" where
  "runner_stop env fs now s execution_id signal =
     (case s of (d, w) \<Rightarrow>
      case read_state d execution_id of
        None \<Rightarrow> ((d, w), \<lparr>sr_status = St_unknown, sr_stopped = False,
          sr_detail = [(''reason'', JStr ''no_state'')]\<rparr>)
      | Some st \<Rightarrow>
         (case client_cancel env w (as_project st) (as_scrapyd_job_id st) signal of
            (w, Inl e) \<Rightarrow>
              (let (w, status) = resolve_status env fs w st
               in ((d, w), \<lparr>sr_status = status, sr_stopped = False,
                    sr_detail = [(''reason'', JStr ''cancel_failed''), (''scrapyd'', JObj (error_details e))]\<rparr>))
          | (w, Inr body) \<Rightarrow>
              (let prevstate = obj_get body ''prevstate'' in
               if prevstate \<in> {JStr ''running'', JStr ''pending''}
               then ((fst (mark_canceled d now execution_id), w),
                 \<lparr>sr_status = St_canceled, sr_stopped = True, sr_detail = [(''prevstate'', prevstate)]\<rparr>)
               else (let (w, status) = resolve_status env fs w st
                 in ((d, w), \<lparr>sr_status = status, sr_stopped = False,
                   sr_detail = [(''prevstate'', prevstate)]\<rparr>)))))"

definition runner_status ::
    "('w, 'z) scrapyd_http_scheme \<Rightarrow> files \<Rightarrow> state_dir \<Rightarrow> 'w \<Rightarrow> string \<Rightarrow> 'w \<times> attempt_status" where
  \<comment> \<open>\<open>exit_code\<close> is always \<open>None\<close>: scrapyd does not expose exit codes\<close>
  "runner_status env fs d w execution_id =
     (case read_state d execution_id of None \<Rightarrow> (w, St_unknown)
      | Some st \<Rightarrow> resolve_status env fs w st)"

definition is_job_alive ::
    "('w, 'z) scrapyd_http_scheme \<Rightarrow> state_dir \<Rightarrow> 'w \<Rightarrow> string \<Rightarrow> 'w \<times> bool option" where
  "is_job_alive env d w execution_id =
     (case read_state d execution_id of None \<Rightarrow> (w, None)
      | Some st \<Rightarrow>
         (case client_listjobs env w (as_project st) of
            (w, Inl e) \<Rightarrow> (w, None)
          | (w, Inr jobs) \<Rightarrow>
              (w, Some (in_list (obj_get jobs ''running'') (as_scrapyd_job_id st)
                 \<or> in_list (obj_get jobs ''pending'') (as_scrapyd_job_id st)))))"

end
