(* ===== verification/AgentEvents.thy ===== *)
theory AgentEvents
  imports AgentScrapyd
begin

text \<open>
  The agent's event publisher (\<^verbatim>\<open>apps/agent/dopilot_agent/redis/events.py\<close>): events are first
  written to an outbox of files and removed from it once Redis took them, so that an outage only
  delays them; and the re-publication of an attempt's current event from its state file.

  Redis is a parameter: \<open>xadd_event\<close> is the \<open>XADD\<close> to \<open>dopilot:server:agent-events\<close> over the
  world \<open>'w\<close>, with \<open>False\<close> for an exception. The outbox directory is configured, as in every
  deployment (\<^verbatim>\<open>config/settings.py\<close>). \<open>uuid4().hex\<close> is \<open>fresh_id\<close> of a counter.
\<close>

section \<open>The agent\<close>

record 'w agent_env = "'w scrapyd_http" +
  xadd_event :: "'w \<Rightarrow> agent_event \<Rightarrow> 'w \<times> bool"

record agent_config =
  ac_agent_id :: string
  ac_max_outbox_files :: int
  ac_runner :: runner_config
  ac_heartbeat_interval :: int
  ac_log_cap :: int
  ac_flood_kill_after :: int
  ac_stop_kill_after :: int
  ac_stop_confirm_timeout :: int
  ac_kill_retry_interval :: int

record outbox_file =
  of_name :: string
  of_event :: "agent_event option" \<comment> \<open>\<open>None\<close>: a file that does not decode\<close>
  of_mtime :: int

record 'w agent =
  ag_store :: state_dir
  ag_files :: files
  ag_outbox :: "outbox_file list"
  ag_uuid :: nat
  ag_world :: 'w

section \<open>The durable outbox\<close>

definition enforce_outbox_cap :: "int \<Rightarrow> outbox_file list \<Rightarrow> outbox_file list" where
  "enforce_outbox_cap cap fs =
     (if cap \<le> 0 then fs
      else (let excess = int (length fs) - cap + 1 in
        if excess \<le> 0 then fs
        else (let gone = map of_name (take (nat excess) (sort_key of_mtime fs))
              in filter (\<lambda>f. of_name f \<notin> set gone) fs)))"

definition remove_outbox :: "string \<Rightarrow> outbox_file list \<Rightarrow> outbox_file list" where
  "remove_outbox name fs = filter (\<lambda>f. of_name f \<noteq> name) fs"

definition persist :: "agent_config \<Rightarrow> int \<Rightarrow> agent_event \<Rightarrow> outbox_file list \<Rightarrow> outbox_file list" where
  \<comment> \<open>a temporary file renamed to \<open>{event_id}.json\<close>\<close>
  "persist cfg mtime event fs =
     remove_outbox (ev_event_id event) (enforce_outbox_cap (ac_max_outbox_files cfg) fs)
       @ [\<lparr>of_name = ev_event_id event, of_event = Some event, of_mtime = mtime\<rparr>]"

definition emit_event ::
    "('w, 'z) agent_env_scheme \<Rightarrow> agent_config \<Rightarrow> int \<Rightarrow> agent_event \<Rightarrow> ('w, 'y) agent_scheme
      \<Rightarrow> ('w, 'y) agent_scheme" where
  "emit_event env cfg mtime event a =
     (let fs = persist cfg mtime event (ag_outbox a);
          (w, ok) = xadd_event env (ag_world a) event
      in a\<lparr>ag_world := w,
           ag_outbox := (if ok then remove_outbox (ev_event_id event) fs else fs)\<rparr>)"

primrec replay_files ::
    "('w, 'z) agent_env_scheme \<Rightarrow> outbox_file list \<Rightarrow> outbox_file list \<times> 'w \<Rightarrow> nat
      \<Rightarrow> (outbox_file list \<times> 'w) \<times> nat" where
  \<comment> \<open>the loop over the sorted files\<close>
  "replay_files env [] s n = (s, n)"
| "replay_files env (f # fs) s n =
     (case s of (outbox, w) \<Rightarrow>
      case of_event f of
        None \<Rightarrow> replay_files env fs (remove_outbox (of_name f) outbox, w) n
      | Some event \<Rightarrow>
         (case xadd_event env w event of
            (w, False) \<Rightarrow> ((outbox, w), n)
          | (w, True) \<Rightarrow> replay_files env fs (remove_outbox (of_name f) outbox, w) (n + 1)))"

definition replay_outbox ::
    "('w, 'z) agent_env_scheme \<Rightarrow> ('w, 'y) agent_scheme \<Rightarrow> ('w, 'y) agent_scheme \<times> nat" where
  "replay_outbox env a =
     (case replay_files env (sort_key of_name (ag_outbox a)) (ag_outbox a, ag_world a) 0 of
        ((outbox, w), n) \<Rightarrow> (a\<lparr>ag_outbox := outbox, ag_world := w\<rparr>, n))"

section \<open>Events\<close>

record event_info =
  ei_remote_job_id :: "string option"
  ei_exit_code :: "int option"
  ei_error_code :: "string option"
  ei_error_detail :: obj
  ei_lost_reason :: "lost_reason option"
  ei_error_count :: "int option"
  ei_finish_reason :: "string option"
  ei_log_bytes :: "int option"
  ei_outcome_class :: "string option"

definition no_info :: event_info where
  \<comment> \<open>the keyword defaults\<close>
  "no_info = \<lparr>ei_remote_job_id = None, ei_exit_code = None, ei_error_code = None, ei_error_detail = [],
     ei_lost_reason = None, ei_error_count = None, ei_finish_reason = None, ei_log_bytes = None,
     ei_outcome_class = None\<rparr>"

definition make_event ::
    "agent_config \<Rightarrow> nat \<Rightarrow> string \<Rightarrow> string \<Rightarrow> agent_event_type \<Rightarrow> event_info \<Rightarrow> agent_event" where
  "make_event cfg uuid task_id execution_id typ i =
     \<lparr>ev_event_id = fresh_id uuid, ev_agent_id = ac_agent_id cfg, ev_task_id = task_id,
      ev_execution_id = execution_id, ev_type = typ, ev_remote_job_id = ei_remote_job_id i,
      ev_exit_code = ei_exit_code i, ev_error_code = ei_error_code i, ev_error_detail = ei_error_detail i,
      ev_lost_reason = ei_lost_reason i, ev_error_count = ei_error_count i,
      ev_finish_reason = ei_finish_reason i, ev_log_bytes = ei_log_bytes i,
      ev_outcome_class = ei_outcome_class i\<rparr>"

definition emit_terminal ::
    "('w, 'z) agent_env_scheme \<Rightarrow> agent_config \<Rightarrow> instant \<Rightarrow> string \<Rightarrow> string \<Rightarrow> agent_event_type \<Rightarrow> event_info
      \<Rightarrow> ('w, 'y) agent_scheme \<Rightarrow> ('w, 'y) agent_scheme" where
  "emit_terminal env cfg now task_id execution_id typ i a =
     emit_event env cfg now (make_event cfg (ag_uuid a) task_id execution_id typ i)
       (a\<lparr>ag_uuid := ag_uuid a + 1\<rparr>)"

definition emit_accepted ::
    "('w, 'z) agent_env_scheme \<Rightarrow> agent_config \<Rightarrow> instant \<Rightarrow> string \<Rightarrow> string
      \<Rightarrow> ('w, 'y) agent_scheme \<Rightarrow> ('w, 'y) agent_scheme" where
  "emit_accepted env cfg now task_id execution_id a =
     emit_event env cfg now (make_event cfg (ag_uuid a) task_id execution_id Ev_accepted no_info)
       (a\<lparr>ag_uuid := ag_uuid a + 1\<rparr>)"

definition emit_running ::
    "('w, 'z) agent_env_scheme \<Rightarrow> agent_config \<Rightarrow> instant \<Rightarrow> string \<Rightarrow> string \<Rightarrow> string option
      \<Rightarrow> ('w, 'y) agent_scheme \<Rightarrow> ('w, 'y) agent_scheme" where
  "emit_running env cfg now task_id execution_id remote_job_id a =
     emit_event env cfg now (make_event cfg (ag_uuid a) task_id execution_id Ev_running
         (no_info\<lparr>ei_remote_job_id := remote_job_id\<rparr>))
       (a\<lparr>ag_uuid := ag_uuid a + 1\<rparr>)"

definition emit_heartbeat ::
    "('w, 'z) agent_env_scheme \<Rightarrow> agent_config \<Rightarrow> string \<Rightarrow> string \<Rightarrow> int option
      \<Rightarrow> ('w, 'y) agent_scheme \<Rightarrow> ('w, 'y) agent_scheme \<times> bool" where
  \<comment> \<open>not durable: a failed heartbeat is dropped\<close>
  "emit_heartbeat env cfg task_id execution_id log_bytes a =
     (let event = make_event cfg (ag_uuid a) task_id execution_id Ev_heartbeat
            (no_info\<lparr>ei_log_bytes := log_bytes\<rparr>);
          (w, ok) = xadd_event env (ag_world a) event
      in (a\<lparr>ag_uuid := ag_uuid a + 1, ag_world := w\<rparr>, ok))"

section \<open>Re-publication of the current event\<close>

fun status_to_terminal :: "attempt_status \<Rightarrow> agent_event_type option" where
  "status_to_terminal St_finished = Some Ev_finished"
| "status_to_terminal St_failed = Some Ev_failed"
| "status_to_terminal St_canceled = Some Ev_canceled"
| "status_to_terminal _ = None"

definition result_to_event :: "string option \<Rightarrow> agent_event_type option" where
  "result_to_event r =
     (if r = Some ''finished'' then Some Ev_finished
      else if r = Some ''failed'' then Some Ev_failed
      else if r = Some ''canceled'' then Some Ev_canceled
      else if r = Some ''lost'' then Some Ev_lost
      else None)"

definition republish_current ::
    "('w, 'z) agent_env_scheme \<Rightarrow> agent_config \<Rightarrow> instant \<Rightarrow> string \<Rightarrow> string
      \<Rightarrow> ('w, 'y) agent_scheme \<Rightarrow> ('w, 'y) agent_scheme" where
  "republish_current env cfg now task_id execution_id a =
     (case read_state (ag_store a) execution_id of
        None \<Rightarrow> emit_terminal env cfg now task_id execution_id Ev_lost
          (no_info\<lparr>ei_lost_reason := Some Lost_state_missing\<rparr>) a
      | Some st \<Rightarrow>
          if as_phase st = Phase_reserved
          then emit_terminal env cfg now task_id execution_id Ev_failed
            (no_info\<lparr>ei_error_code := Some ''spawn_aborted'', ei_lost_reason := Some Lost_spawn_aborted\<rparr>) a
          else if as_phase st = Phase_started \<and> stamp_given (as_stop_requested_at st) then a
          else if as_phase st = Phase_done \<and> result_to_event (as_result st) \<noteq> None
          then emit_terminal env cfg now task_id execution_id (the (result_to_event (as_result st)))
            (no_info\<lparr>ei_exit_code := as_exit_code st, ei_error_code := as_error_code st,
              ei_lost_reason := (case as_lost_reason st of None \<Rightarrow> None | Some r \<Rightarrow> lost_of_value r),
              ei_error_count := as_error_count st, ei_finish_reason := as_finish_reason st,
              ei_log_bytes := as_log_bytes st, ei_outcome_class := as_outcome_class st\<rparr>) a
          else if as_runner_type st = ''python_wheel''
          then emit_running env cfg now task_id execution_id None a
          else (case runner_status env (ag_files a) (ag_store a) (ag_world a) execution_id of
              (w, status) \<Rightarrow>
                (let a = a\<lparr>ag_world := w\<rparr> in
                 case status_to_terminal status of
                   Some t \<Rightarrow> emit_terminal env cfg now task_id execution_id t no_info a
                 | None \<Rightarrow> emit_running env cfg now task_id execution_id
                     (if as_scrapyd_job_id st = [] then None else Some (as_scrapyd_job_id st)) a)))"

end
