(* ===== verification/AgentWheel.thy ===== *)
theory AgentWheel
  imports AgentEvents
begin

text \<open>
  The runner of Python-wheel jobs
  (\<^verbatim>\<open>apps/agent/dopilot_agent/runners/python_wheel.py\<close>): the working directory check, the
  child environment, the size cap of the merged log, and the bookkeeping of the child processes.

  The operating system is a parameter \<open>wheel_os\<close> over the world \<open>'w\<close>. The polling loop of
  \<open>terminate\<close> sleeps 0.05 s at a time for at most the grace period; it is a recursion over the
  number of polls. The asyncio tasks that pump and reap a child are not modelled as tasks: the
  exit code they resolve is the one the operating system reports.
\<close>

section \<open>Paths\<close>

definition split_path :: "string \<Rightarrow> string list" where
  \<comment> \<open>\<open>Path(s).parts\<close> without the root\<close>
  "split_path s = filter (\<lambda>p. p \<noteq> [] \<and> p \<noteq> ''.'')
     (foldr (\<lambda>c ps. if c = CHR ''/'' then [] # ps
        else (case ps of [] \<Rightarrow> [[c]] | p # ps' \<Rightarrow> (c # p) # ps')) s [[]])"

definition is_absolute :: "string \<Rightarrow> bool" where
  "is_absolute s = (take 1 s = ''/'')"

definition join_path :: "string \<Rightarrow> string \<Rightarrow> string" where
  \<comment> \<open>\<open>Path(a) / b\<close>\<close>
  "join_path a b = (if is_absolute b then b else if b = [] then a else a @ ''/'' @ b)"

section \<open>The operating system\<close>

datatype signal = SIGTERM | SIGKILL

type_synonym environment = "(string \<times> string) list"

record proc_entry =
  pe_name :: string
  pe_cmdline :: "string option"
  pe_stat :: "string option"

record 'w wheel_os = "'w agent_env" +
  os_environ :: "'w \<Rightarrow> environment"
  os_resolve :: "'w \<Rightarrow> string \<Rightarrow> string list" \<comment> \<open>\<open>Path.resolve().parts\<close>\<close>
  os_spawn :: "'w \<Rightarrow> string \<Rightarrow> string \<Rightarrow> environment \<Rightarrow> 'w \<times> (string + int)"
  os_getpgid :: "'w \<Rightarrow> int \<Rightarrow> int option"
  os_killpg :: "'w \<Rightarrow> int \<Rightarrow> signal \<Rightarrow> 'w \<times> bool"
  os_kill :: "'w \<Rightarrow> int \<Rightarrow> 'w \<times> bool"
  os_returncode :: "'w \<Rightarrow> int \<Rightarrow> int option"
  os_sleep :: "'w \<Rightarrow> 'w"
  os_write_pgid :: "'w \<Rightarrow> string \<Rightarrow> int \<Rightarrow> 'w \<times> string option"
  os_proc :: "'w \<Rightarrow> proc_entry list option" \<comment> \<open>\<open>/proc\<close>, or \<open>None\<close> when it cannot be listed\<close>
  os_scrapyd_pid :: "'w \<Rightarrow> int option"

section \<open>The runner\<close>

record wheel_config =
  wc_root :: string
  wc_grace_polls :: nat
  wc_max_log_bytes :: int

record wheel_runner =
  wr_procs :: "(string \<times> int) list"
  wr_pgids :: "(string \<times> int) list"
  wr_canceled :: "string set"

type_synonym wheel_error = "string \<times> obj" \<comment> \<open>\<open>error_code\<close> and \<open>detail\<close> of \<open>WheelRunnerError\<close>\<close>

record started_wheel =
  sw_pid :: int
  sw_pgid :: int
  sw_log_path :: string
  sw_workspace_path :: string

record wheel_outcome =
  wo_exit_code :: int
  wo_canceled :: bool

definition workspace_for :: "wheel_config \<Rightarrow> string \<Rightarrow> string" where
  "workspace_for wc execution_id = join_path (wc_root wc) execution_id"

definition log_path_for :: "wheel_config \<Rightarrow> string \<Rightarrow> string" where
  "log_path_for wc execution_id = join_path (workspace_for wc execution_id) ''job.log''"

definition PGID_SIDECAR :: string where
  "PGID_SIDECAR = ''job.pgid''"

definition pgid_path_for :: "wheel_config \<Rightarrow> string \<Rightarrow> string" where
  "pgid_path_for wc execution_id = join_path (workspace_for wc execution_id) PGID_SIDECAR"

definition wheel_alive :: "('w, 'z) wheel_os_scheme \<Rightarrow> 'w \<Rightarrow> wheel_runner \<Rightarrow> string \<Rightarrow> bool" where
  \<comment> \<open>membership in \<open>active_execution_ids\<close>\<close>
  "wheel_alive env w wr execution_id =
     (case map_of (wr_procs wr) execution_id of None \<Rightarrow> False
      | Some pid \<Rightarrow> os_returncode env w pid = None)"

definition resolve_cwd ::
    "('w, 'z) wheel_os_scheme \<Rightarrow> 'w \<Rightarrow> string \<Rightarrow> string option \<Rightarrow> wheel_error + string" where
  "resolve_cwd env w workspace working_dir =
     (case working_dir of
        None \<Rightarrow> Inr workspace
      | Some dir \<Rightarrow>
          if dir = [] then Inr workspace
          else if is_absolute dir \<or> ''..'' \<in> set (split_path dir)
          then Inl (''working_dir_invalid'', [(''working_dir'', JStr dir)])
          else (let resolved = os_resolve env w (join_path workspace dir);
                    base = os_resolve env w workspace
            in if take (length base) resolved \<noteq> base
               then Inl (''working_dir_invalid'', [(''working_dir'', JStr dir)])
               else Inr (''/'' @ join_with ''/'' resolved)))"

definition child_env :: "environment \<Rightarrow> string \<Rightarrow> environment \<Rightarrow> environment \<Rightarrow> environment" where
  "child_env base site env runtime_context =
     (let existing = (case map_of base ''PYTHONPATH'' of None \<Rightarrow> [] | Some v \<Rightarrow> v);
          e = AList.update ''PYTHONPATH'' (site @ (if existing \<noteq> [] then '':'' @ existing else [])) base;
          e = AList.update ''PYTHONUNBUFFERED'' ''1'' e;
          e = fold (\<lambda>(k, v) e. AList.update k v e) env e
      in fold (\<lambda>(k, v) e. AList.update k v e) runtime_context e)"

definition wheel_start ::
    "('w, 'z) wheel_os_scheme \<Rightarrow> wheel_config \<Rightarrow> wheel_runner \<times> 'w \<Rightarrow> string \<Rightarrow> string \<Rightarrow> string
      \<Rightarrow> string option \<Rightarrow> environment \<Rightarrow> environment
      \<Rightarrow> (wheel_runner \<times> 'w) \<times> (wheel_error + started_wheel)" where
  "wheel_start env wc s execution_id shell_command install_path working_dir extra runtime_context =
     (case s of (wr, w) \<Rightarrow>
      let workspace = workspace_for wc execution_id in
      case resolve_cwd env w workspace working_dir of
        Inl e \<Rightarrow> ((wr, w), Inl e)
      | Inr cwd \<Rightarrow>
         (case os_spawn env w shell_command cwd
                 (child_env (os_environ env w) install_path extra runtime_context) of
            (w, Inl err) \<Rightarrow> ((wr, w), Inl (''wheel_spawn_error'', [(''error'', JStr err)]))
          | (w, Inr pid) \<Rightarrow>
             (let pgid = or_default (os_getpgid env w pid) pid in
              case os_write_pgid env w (pgid_path_for wc execution_id) pgid of
                (w, Some err) \<Rightarrow>
                  ((wr, fst (os_killpg env w pgid SIGKILL)),
                   Inl (''wheel_spawn_error'', [(''error'', JStr err)]))
              | (w, None) \<Rightarrow>
                  ((wr\<lparr>wr_procs := AList.update execution_id pid (wr_procs wr),
                       wr_pgids := AList.update execution_id pgid (wr_pgids wr)\<rparr>, w),
                   Inr \<lparr>sw_pid = pid, sw_pgid = pgid, sw_log_path = log_path_for wc execution_id,
                        sw_workspace_path = workspace\<rparr>))))"

definition job_log_truncation_marker :: "int \<Rightarrow> string" where
  "job_log_truncation_marker max_bytes =
     [CHR 0x0A] @ ''[dopilot:job-log-truncated max_bytes='' @ show_int max_bytes
       @ '' reason=size-cap]'' @ [CHR 0x0A]"

fun drain_chunks :: "int \<Rightarrow> int \<Rightarrow> bool \<Rightarrow> string list \<Rightarrow> string" where
  \<comment> \<open>what \<open>_drain\<close> appends to \<open>job.log\<close> for the chunks it reads from the pipe\<close>
  "drain_chunks cap written truncated [] = []"
| "drain_chunks cap written truncated (chunk # chunks) =
     (if chunk = [] then []
      else if truncated then drain_chunks cap written truncated chunks
      else if cap \<le> 0 then chunk @ drain_chunks cap written truncated chunks
      else (let room = cap - written in
        if int (length chunk) \<le> room
        then chunk @ drain_chunks cap (written + int (length chunk)) truncated chunks
        else take (nat (max 0 room)) chunk @ job_log_truncation_marker cap
          @ drain_chunks cap written True chunks))"

definition wheel_wait ::
    "('w, 'z) wheel_os_scheme \<Rightarrow> 'w \<Rightarrow> wheel_runner \<Rightarrow> string \<Rightarrow> wheel_outcome option" where
  \<comment> \<open>\<open>None\<close> while the child is running\<close>
  "wheel_wait env w wr execution_id =
     (case map_of (wr_procs wr) execution_id of
        None \<Rightarrow> Some \<lparr>wo_exit_code = -1, wo_canceled = (execution_id \<in> wr_canceled wr)\<rparr>
      | Some pid \<Rightarrow> map_option (\<lambda>rc. \<lparr>wo_exit_code = rc, wo_canceled = (execution_id \<in> wr_canceled wr)\<rparr>)
          (os_returncode env w pid))"

primrec poll_exit :: "('w, 'z) wheel_os_scheme \<Rightarrow> int \<Rightarrow> nat \<Rightarrow> 'w \<Rightarrow> 'w" where
  \<comment> \<open>\<open>while proc.returncode is None and loop.time() < deadline: await asyncio.sleep(0.05)\<close>\<close>
  "poll_exit env pid 0 w = w"
| "poll_exit env pid (Suc n) w =
     (if os_returncode env w pid \<noteq> None then w else poll_exit env pid n (os_sleep env w))"

definition wheel_terminate ::
    "('w, 'z) wheel_os_scheme \<Rightarrow> wheel_config \<Rightarrow> wheel_runner \<times> 'w \<Rightarrow> string \<Rightarrow> wheel_runner \<times> 'w" where
  "wheel_terminate env wc s execution_id =
     (case s of (wr, w) \<Rightarrow>
      let wr = wr\<lparr>wr_canceled := insert execution_id (wr_canceled wr)\<rparr>;
          pgid = map_of (wr_pgids wr) execution_id;
          proc = map_of (wr_procs wr) execution_id;
          w = (case pgid of None \<Rightarrow> w | Some g \<Rightarrow> fst (os_killpg env w g SIGTERM))
      in (wr, case proc of None \<Rightarrow> w
            | Some pid \<Rightarrow>
               (let w = poll_exit env pid (wc_grace_polls wc) w;
                    w = (case pgid of Some g \<Rightarrow>
                          if os_returncode env w pid = None then fst (os_killpg env w g SIGKILL) else w
                        | None \<Rightarrow> w)
                in poll_exit env pid (wc_grace_polls wc) w)))"

definition terminate_pgid :: "('w, 'z) wheel_os_scheme \<Rightarrow> 'w \<Rightarrow> int \<Rightarrow> 'w" where
  "terminate_pgid env w pgid =
     (case os_killpg env w pgid SIGTERM of
        (w, False) \<Rightarrow> w
      | (w, True) \<Rightarrow> fst (os_killpg env w pgid SIGKILL))"

definition wheel_forget :: "wheel_runner \<Rightarrow> string \<Rightarrow> wheel_runner" where
  "wheel_forget wr execution_id =
     wr\<lparr>wr_procs := AList.delete execution_id (wr_procs wr),
        wr_pgids := AList.delete execution_id (wr_pgids wr),
        wr_canceled := wr_canceled wr - {execution_id}\<rparr>"

primrec wheel_aclose ::
    "('w, 'z) wheel_os_scheme \<Rightarrow> wheel_config \<Rightarrow> (string \<times> int) list \<Rightarrow> wheel_runner \<times> 'w
      \<Rightarrow> wheel_runner \<times> 'w" where
  \<comment> \<open>the loop over the tracked children, then the bookkeeping is cleared\<close>
  "wheel_aclose env wc [] s = (\<lparr>wr_procs = [], wr_pgids = [], wr_canceled = {}\<rparr>, snd s)"
| "wheel_aclose env wc (p # ps) s =
     wheel_aclose env wc ps
       (if os_returncode env (snd s) (snd p) \<noteq> None then s else wheel_terminate env wc s (fst p))"

end
