(* ===== verification/AgentStops.thy ===== *)
theory AgentStops
  imports AgentWheel
begin

text \<open>
  The tick of the agent's command consumer
  (\<^verbatim>\<open>apps/agent/dopilot_agent/redis/commands.py\<close>): what it does, without any command, for
  every attempt it has a state file of. A started scrapy attempt is watched for a flooding log,
  driven through a stop in flight, or polled for its end; a finished one may still owe an event,
  a kill or a cleanup.

  One clock reading \<open>now\<close> serves a whole tick. The consumer is one asyncio task that runs ticks
  and command handlers one after the other; between two of them other tasks (the log publisher,
  the waiters of wheel children, the janitor) may run, and they are steps of their own.
\<close>

section \<open>The consumer\<close>

record consumer_config = agent_config +
  cc_wheel :: wheel_config
  cc_has_egg_cache :: bool
  cc_has_wheel_cache :: bool

record 'w consumer = "'w agent" +
  cs_inproc_wheel :: "string set"
  cs_last_heartbeat :: "(string \<times> int) list"
  cs_wheels :: wheel_runner
  cs_cursors :: "(string \<times> nat) list" \<comment> \<open>the log publisher's \<open>.logpos\<close> files\<close>
  cs_eof_sent :: "string set"

definition WHEEL_RUNNER_TYPE :: string where
  "WHEEL_RUNNER_TYPE = ''python_wheel''"

definition with_store :: "(state_dir \<Rightarrow> state_dir \<times> 'r) \<Rightarrow> ('w, 'y) agent_scheme \<Rightarrow> ('w, 'y) agent_scheme" where
  \<comment> \<open>a call of the store whose result is not used\<close>
  "with_store f a = a\<lparr>ag_store := fst (f (ag_store a))\<rparr>"

definition call_stop ::
    "('w, 'z) wheel_os_scheme \<Rightarrow> instant \<Rightarrow> string \<Rightarrow> string option \<Rightarrow> ('w, 'y) agent_scheme
      \<Rightarrow> ('w, 'y) agent_scheme \<times> stop_response" where
  \<comment> \<open>\<open>await self._runner.stop(...)\<close>\<close>
  "call_stop env now execution_id signal_name a =
     (case runner_stop env (ag_files a) now (ag_store a, ag_world a) execution_id signal_name of
        ((d, w), resp) \<Rightarrow> (a\<lparr>ag_store := d, ag_world := w\<rparr>, resp))"

section \<open>The log-flood watchdog\<close>

definition flood_marker :: "int \<Rightarrow> string" where
  "flood_marker cap = [CHR 0x0A] @ ''[dopilot:job-log-truncated max_bytes='' @ show_int cap
     @ '' reason=size-cap]'' @ [CHR 0x0A]"

definition truncate_local_log :: "int \<Rightarrow> string \<Rightarrow> bool \<Rightarrow> files \<Rightarrow> files option" where
  \<comment> \<open>\<open>opens\<close>: whether \<open>open(log_path, "r+b")\<close> succeeds; \<open>None\<close> is the \<open>OSError\<close> it raises otherwise\<close>
  "truncate_local_log cap log_path opens fs =
     (if cap \<le> 0 then Some fs
      else (case map_of fs log_path of None \<Rightarrow> Some fs
        | Some c \<Rightarrow>
            if int (length c) < cap then Some fs
            else if \<not> opens then None
            else if int (length c) = cap + int (length (flood_marker cap))
                \<and> drop (nat cap) c = flood_marker cap then Some fs
            else Some (AList.update log_path (take (nat cap) c @ flood_marker cap) fs)))"

definition truncate_now :: "('c) agent_config_scheme \<Rightarrow> string \<Rightarrow> ('w, 'y) agent_scheme \<Rightarrow> ('w, 'y) agent_scheme" where
  \<comment> \<open>the call of a tick whose log opens; otherwise the error ends the tick there, for all attempts\<close>
  "truncate_now cfg log_path a =
     a\<lparr>ag_files := or_default (truncate_local_log (ac_log_cap cfg) log_path True (ag_files a)) (ag_files a)\<rparr>"

lemma truncate_local_log_raises:
  "truncate_local_log cap log_path opens fs = None \<longleftrightarrow> cap > 0 \<and> \<not> opens
     \<and> (\<exists>c. map_of fs log_path = Some c \<and> cap \<le> int (length c))"
  by (auto simp: truncate_local_log_def split: option.splits)

definition sample_log_size :: "files \<Rightarrow> attempt_state \<Rightarrow> int option" where
  "sample_log_size fs st = (if as_log_path st = [] then None else log_size fs (as_log_path st))"

definition flood_elapsed :: "instant \<Rightarrow> attempt_state \<Rightarrow> int" where
  "flood_elapsed now st =
     (case as_log_flood_requested_at st of None \<Rightarrow> 0
      | Some s \<Rightarrow> (case fromisoformat s of None \<Rightarrow> 0 | Some t \<Rightarrow> max 0 (now - t)))"

definition flood_cancel ::
    "('w, 'z) wheel_os_scheme \<Rightarrow> instant \<Rightarrow> attempt_state \<Rightarrow> string option \<Rightarrow> ('w, 'y) agent_scheme
      \<Rightarrow> ('w, 'y) agent_scheme" where
  "flood_cancel env now st signal_name a = fst (call_stop env now (as_execution_id st) signal_name a)"

definition words :: "string \<Rightarrow> string list" where
  \<comment> \<open>\<open>str.split()\<close>\<close>
  "words s = filter (\<lambda>x. x \<noteq> []) (split_at py_isspace [] s)"

definition stat_ppid :: "string \<Rightarrow> int option" where
  \<comment> \<open>\<open>int(stat.rsplit(")", 1)[1].split()[1])\<close>\<close>
  "stat_ppid stat =
     (case after_last '')'' stat of None \<Rightarrow> None
      | Some r \<Rightarrow> (case words r of _ # p # _ \<Rightarrow> py_int p | _ \<Rightarrow> None))"

definition is_crawler :: "string \<Rightarrow> int \<Rightarrow> proc_entry \<Rightarrow> bool" where
  \<comment> \<open>the body of the loop over \<open>/proc\<close>\<close>
  "is_crawler job_id parent_pid e \<longleftrightarrow>
     pe_name e \<noteq> [] \<and> list_all is_digit (pe_name e)
     \<and> (case (pe_cmdline e, pe_stat e) of
          (Some cmdline, Some stat) \<Rightarrow>
            (let args = filter (\<lambda>x. x \<noteq> []) (split_at (\<lambda>c. ord_of c = 0) [] cmdline)
             in ''crawl'' \<in> set args \<and> (''_job='' @ job_id) \<in> set args \<and> stat_ppid stat = Some parent_pid)
        | _ \<Rightarrow> False)"

definition find_crawler_pids :: "proc_entry list option \<Rightarrow> string \<Rightarrow> int \<Rightarrow> int list" where
  "find_crawler_pids entries job_id parent_pid =
     (if job_id = [] then []
      else (case entries of None \<Rightarrow> []
        | Some es \<Rightarrow> map (\<lambda>e. int (read_nat (pe_name e))) (filter (is_crawler job_id parent_pid) es)))"

definition flood_pid_kill ::
    "('w, 'z) wheel_os_scheme \<Rightarrow> attempt_state \<Rightarrow> ('w, 'y) agent_scheme \<Rightarrow> ('w, 'y) agent_scheme \<times> bool" where
  "flood_pid_kill env st a =
     (case os_scrapyd_pid env (ag_world a) of
        None \<Rightarrow> (a, False)
      | Some parent \<Rightarrow>
         (case find_crawler_pids (os_proc env (ag_world a)) (as_scrapyd_job_id st) parent of
            [pid] \<Rightarrow> (let (w, ok) = os_kill env (ag_world a) pid in (a\<lparr>ag_world := w\<rparr>, ok))
          | _ \<Rightarrow> (a, False)))"

definition mark_flood ::
    "instant \<Rightarrow> attempt_state \<Rightarrow> int \<Rightarrow> stamp \<Rightarrow> string option \<Rightarrow> ('w, 'y) agent_scheme
      \<Rightarrow> ('w, 'y) agent_scheme \<times> attempt_state" where
  \<comment> \<open>\<open>state = self._store.mark_log_flood(...) or state\<close>\<close>
  "mark_flood now st log_bytes requested_at escalation a =
     (case mark_log_flood (ag_store a) now (as_execution_id st) log_bytes requested_at escalation of
        (d, st') \<Rightarrow> (a\<lparr>ag_store := d\<rparr>, or_default st' st))"

definition flood_escalate ::
    "('w, 'z) wheel_os_scheme \<Rightarrow> ('c) agent_config_scheme \<Rightarrow> instant \<Rightarrow> attempt_state \<Rightarrow> int
      \<Rightarrow> ('w, 'y) agent_scheme \<Rightarrow> ('w, 'y) agent_scheme \<times> attempt_state" where
  \<comment> \<open>the branch of \<open>_flood_watchdog\<close> for an attempt that is flooding already\<close>
  "flood_escalate env cfg now st sz a =
     (let a = truncate_now cfg (as_log_path st) a;
          (a, st) = (if sz > as_log_flood_bytes st
            then mark_flood now st sz (or_default
                (if stamp_given (as_log_flood_requested_at st) then as_log_flood_requested_at st else None)
                (Iso now)) None a
            else (a, st));
          elapsed = flood_elapsed now st;
          asked = or_default (as_log_flood_requested_at st) (Text [])
      in if elapsed \<ge> secs (2 * ac_flood_kill_after cfg) then
           (let (a, killed) = (if as_log_flood_escalation st \<noteq> Some ''pidkill''
                then flood_pid_kill env st a else (a, False))
            in if killed then mark_flood now st sz asked (Some ''pidkill'') a
               else (flood_cancel env now st (Some ''KILL'') a, st))
         else if elapsed \<ge> secs (ac_flood_kill_after cfg) then
           (let (a, st) = (if as_log_flood_escalation st \<noteq> Some ''kill''
                then mark_flood now st sz asked (Some ''kill'') a else (a, st))
            in (flood_cancel env now st (Some ''KILL'') a, st))
         else (flood_cancel env now st None a, st))"

definition flood_watchdog ::
    "('w, 'z) wheel_os_scheme \<Rightarrow> ('c) agent_config_scheme \<Rightarrow> instant \<Rightarrow> attempt_state \<Rightarrow> int option
      \<Rightarrow> ('w, 'y) agent_scheme \<Rightarrow> ('w, 'y) agent_scheme \<times> attempt_state option" where
  "flood_watchdog env cfg now st sz a =
     (if ac_log_cap cfg \<le> 0 \<or> as_log_path st = [] then (a, None)
      else (case sz of None \<Rightarrow> (a, None)
        | Some n \<Rightarrow>
            if \<not> as_log_flood st then
              (if n < ac_log_cap cfg then (a, None)
               else (let (a, st) = mark_flood now st n (Iso now) (Some ''term'') a;
                         a = truncate_now cfg (as_log_path st) a
                 in (flood_cancel env now st None a, Some st)))
            else (let (a, st) = flood_escalate env cfg now st n a in (a, Some st))))"

section \<open>The end of a scrapy attempt\<close>

definition finish_scrapy_attempt ::
    "('w, 'z) wheel_os_scheme \<Rightarrow> ('c) agent_config_scheme \<Rightarrow> instant \<Rightarrow> attempt_state \<Rightarrow> agent_event_type
      \<Rightarrow> int option \<Rightarrow> ('w, 'y) agent_scheme \<Rightarrow> ('w, 'y) agent_scheme" where
  "finish_scrapy_attempt env cfg now st terminal exit_code a =
     (let execution_id = as_execution_id st;
          stats = parse_scrapy_stats (read_log_tail (ag_files a) (as_log_path st));
          sz = log_size (ag_files a) (as_log_path st);
          log_bytes = (if as_log_flood st then Some (max (or_default sz 0) (as_log_flood_bytes st)) else sz);
          a = with_store (\<lambda>d. mark_stats d now execution_id (ss_error_count stats) (ss_finish_reason stats)
                log_bytes (ss_outcome_class stats)) a;
          (terminal, error_code, error_detail, a) =
            (if as_log_flood st
             then (Ev_failed, Some ''log_flood'',
               [(''log_bytes'', jint log_bytes), (''cap'', JInt (ac_log_cap cfg)),
                (''kill_escalation'', jstr (as_log_flood_escalation st))],
               truncate_now cfg (as_log_path st) a)
             else (terminal, None, [], a));
          a = with_store (\<lambda>d. mark_done d now execution_id ((terminal_mark (event_short terminal))
                \<lparr>tm_exit_code := exit_code, tm_error_code := error_code\<rparr>)) a
      in emit_terminal env (agent_config.truncate cfg) now (as_task_id st) execution_id terminal
           (no_info\<lparr>ei_exit_code := exit_code, ei_error_code := error_code, ei_error_detail := error_detail,
              ei_error_count := ss_error_count stats, ei_finish_reason := ss_finish_reason stats,
              ei_log_bytes := log_bytes, ei_outcome_class := ss_outcome_class stats\<rparr>) a)"

definition maybe_emit_heartbeat ::
    "('w, 'z) wheel_os_scheme \<Rightarrow> ('c) agent_config_scheme \<Rightarrow> int \<Rightarrow> string \<Rightarrow> string \<Rightarrow> int option
      \<Rightarrow> ('w, 'y) consumer_scheme \<Rightarrow> ('w, 'y) consumer_scheme" where
  \<comment> \<open>\<open>clock\<close> is \<open>time.monotonic()\<close>, in microseconds\<close>
  "maybe_emit_heartbeat env cfg clock task_id execution_id log_bytes a =
     (if ac_heartbeat_interval cfg \<le> 0 then a
      else if (case map_of (cs_last_heartbeat a) execution_id of None \<Rightarrow> False
          | Some t \<Rightarrow> clock - t < secs (ac_heartbeat_interval cfg)) then a
      else (let (a, ok) = emit_heartbeat env (agent_config.truncate cfg) task_id execution_id log_bytes a
        in if ok then a\<lparr>cs_last_heartbeat := AList.update execution_id clock (cs_last_heartbeat a)\<rparr> else a))"

definition drop_heartbeat :: "string \<Rightarrow> ('w, 'y) consumer_scheme \<Rightarrow> ('w, 'y) consumer_scheme" where
  \<comment> \<open>\<open>self._last_attempt_heartbeat.pop(execution_id, None)\<close>\<close>
  "drop_heartbeat execution_id a =
     a\<lparr>cs_last_heartbeat := AList.delete execution_id (cs_last_heartbeat a)\<rparr>"

section \<open>Cleanup\<close>

definition release_execution :: "string \<Rightarrow> ('w, 'y) consumer_scheme \<Rightarrow> ('w, 'y) consumer_scheme" where
  "release_execution execution_id a =
     (drop_heartbeat execution_id a)\<lparr>cs_inproc_wheel := cs_inproc_wheel a - {execution_id},
       cs_wheels := wheel_forget (cs_wheels a) execution_id,
       cs_cursors := AList.delete execution_id (cs_cursors a),
       cs_eof_sent := cs_eof_sent a - {execution_id}\<rparr>"

definition on_execution_eof :: "string \<Rightarrow> ('w, 'y) consumer_scheme \<Rightarrow> ('w, 'y) consumer_scheme" where
  "on_execution_eof execution_id a =
     a\<lparr>cs_inproc_wheel := cs_inproc_wheel a - {execution_id},
       cs_wheels := wheel_forget (cs_wheels a) execution_id\<rparr>"

definition do_cleanup :: "string \<Rightarrow> ('w, 'y) consumer_scheme \<Rightarrow> ('w, 'y) consumer_scheme" where
  "do_cleanup execution_id a =
     (let a = (case read_state (ag_store a) execution_id of None \<Rightarrow> a
            | Some st \<Rightarrow> a\<lparr>ag_files := filter (\<lambda>(path, c).
                 \<not> (as_log_path st \<noteq> [] \<and> path = as_log_path st)
                 \<and> \<not> (as_workspace_path st \<noteq> [] \<and> starts_with (as_workspace_path st @ ''/'') path))
               (ag_files a)\<rparr>);
          a = with_store (\<lambda>d. delete_state d execution_id) a
      in release_execution execution_id a)"

definition cleanup_must_wait :: "attempt_state \<Rightarrow> bool" where
  "cleanup_must_wait st \<longleftrightarrow> as_phase st = Phase_started \<and> stamp_given (as_stop_requested_at st)
     \<or> as_kill_pending st \<or> as_terminal_pending st"

definition run_deferred_cleanup :: "string \<Rightarrow> ('w, 'y) consumer_scheme \<Rightarrow> ('w, 'y) consumer_scheme" where
  "run_deferred_cleanup execution_id a =
     (case read_state (ag_store a) execution_id of None \<Rightarrow> a
      | Some st \<Rightarrow> if \<not> as_cleanup_pending st then a
          else if as_kill_pending st \<or> as_terminal_pending st then a
          else do_cleanup execution_id a)"

section \<open>The stop state machine\<close>

definition send_stop_signal ::
    "('w, 'z) wheel_os_scheme \<Rightarrow> instant \<Rightarrow> string \<Rightarrow> string option \<Rightarrow> string
      \<Rightarrow> ('w, 'y) agent_scheme \<Rightarrow> ('w, 'y) agent_scheme \<times> bool" where
  "send_stop_signal env now execution_id signal_name escalation a =
     (let (a, resp) = call_stop env now execution_id signal_name a
      in if obj_get (sr_detail resp) ''reason'' = JStr ''cancel_failed'' then (a, False)
         else (with_store (\<lambda>d. mark_stop_escalation d now execution_id escalation) a, True))"

definition begin_stop ::
    "('w, 'z) wheel_os_scheme \<Rightarrow> instant \<Rightarrow> attempt_state \<Rightarrow> stop_intent
      \<Rightarrow> ('w, 'y) consumer_scheme \<Rightarrow> ('w, 'y) consumer_scheme" where
  "begin_stop env now st intent a =
     (if stamp_given (as_stop_requested_at st) then a
      else (let execution_id = as_execution_id st;
                a = with_store (\<lambda>d. mark_stop_requested d now execution_id intent (Iso now)) a;
                a = drop_heartbeat execution_id a
        in fst (send_stop_signal env now execution_id None ''term'' a)))"

definition elapsed_since :: "instant \<Rightarrow> stamp option \<Rightarrow> int" where
  "elapsed_since now s =
     (case s of None \<Rightarrow> 0
      | Some v \<Rightarrow> (case fromisoformat v of None \<Rightarrow> 0 | Some t \<Rightarrow> now - t))"

definition finalize_stop ::
    "('w, 'z) wheel_os_scheme \<Rightarrow> ('c) agent_config_scheme \<Rightarrow> instant \<Rightarrow> attempt_state \<Rightarrow> bool
      \<Rightarrow> ('w, 'y) consumer_scheme \<Rightarrow> ('w, 'y) consumer_scheme" where
  "finalize_stop env cfg now st confirmed a =
     (let execution_id = as_execution_id st;
          a = (if as_stop_intent st = Some Intent_reclaim
            then with_store (\<lambda>d. mark_done d now execution_id ((terminal_mark ''lost'')
                   \<lparr>tm_kill_pending := Some (\<not> confirmed), tm_terminal_pending := Some False\<rparr>)) a
            else (let a = with_store (\<lambda>d. mark_done d now execution_id ((terminal_mark ''canceled'')
                        \<lparr>tm_kill_pending := Some (\<not> confirmed), tm_terminal_pending := Some True\<rparr>)) a;
                      a = emit_terminal env (agent_config.truncate cfg) now (as_task_id st) execution_id
                        Ev_canceled no_info a
              in with_store (\<lambda>d. clear_terminal_pending d now execution_id) a))
      in if confirmed then run_deferred_cleanup execution_id a else a)"

definition stop_watchdog ::
    "('w, 'z) wheel_os_scheme \<Rightarrow> ('c) agent_config_scheme \<Rightarrow> instant \<Rightarrow> attempt_state
      \<Rightarrow> ('w, 'y) consumer_scheme \<Rightarrow> ('w, 'y) consumer_scheme" where
  "stop_watchdog env cfg now st a =
     (let execution_id = as_execution_id st;
          elapsed = elapsed_since now (as_stop_requested_at st)
      in if ac_stop_confirm_timeout cfg > 0 \<and> elapsed \<ge> secs (ac_stop_confirm_timeout cfg)
         then finalize_stop env cfg now st False a
         else (case is_job_alive env (ag_store a) (ag_world a) execution_id of
             (w, Some False) \<Rightarrow> finalize_stop env cfg now st True (a\<lparr>ag_world := w\<rparr>)
           | (w, None) \<Rightarrow> a\<lparr>ag_world := w\<rparr>
           | (w, Some True) \<Rightarrow>
               (let a = a\<lparr>ag_world := w\<rparr> in
                if as_stop_escalation st = None
                then fst (send_stop_signal env now execution_id None ''term'' a)
                else if as_stop_escalation st = Some ''term'' \<and> elapsed \<ge> secs (ac_stop_kill_after cfg)
                then fst (send_stop_signal env now execution_id (Some ''KILL'') ''kill'' a)
                else a)))"

definition kill_retry_due :: "('c) agent_config_scheme \<Rightarrow> instant \<Rightarrow> attempt_state \<Rightarrow> bool" where
  "kill_retry_due cfg now st \<longleftrightarrow>
     ac_kill_retry_interval cfg \<le> 0 \<or> as_kill_last_attempt_at st = None
     \<or> elapsed_since now (as_kill_last_attempt_at st) \<ge> secs (ac_kill_retry_interval cfg)"

definition deliver_pending ::
    "('w, 'z) wheel_os_scheme \<Rightarrow> ('c) agent_config_scheme \<Rightarrow> instant \<Rightarrow> attempt_state
      \<Rightarrow> ('w, 'y) agent_scheme \<Rightarrow> ('w, 'y) agent_scheme \<times> attempt_state" where
  \<comment> \<open>the branch for a terminal that never reached \<open>emit\<close>\<close>
  "deliver_pending env cfg now st a =
     (if as_terminal_pending st then
       (let a = republish_current env (agent_config.truncate cfg) now (as_task_id st) (as_execution_id st) a;
            a = with_store (\<lambda>d. clear_terminal_pending d now (as_execution_id st)) a
        in (a, or_default (read_state (ag_store a) (as_execution_id st)) st))
      else (a, st))"

definition chase_process ::
    "('w, 'z) wheel_os_scheme \<Rightarrow> ('c) agent_config_scheme \<Rightarrow> instant \<Rightarrow> attempt_state
      \<Rightarrow> ('w, 'y) consumer_scheme \<Rightarrow> ('w, 'y) consumer_scheme" where
  \<comment> \<open>the branch for a process that outlived its stop deadline\<close>
  "chase_process env cfg now st a =
     (case is_job_alive env (ag_store a) (ag_world a) (as_execution_id st) of
        (w, alive) \<Rightarrow>
          if alive = Some False
          then run_deferred_cleanup (as_execution_id st)
            (with_store (\<lambda>d. clear_kill_pending d now (as_execution_id st)) (a\<lparr>ag_world := w\<rparr>))
          else if alive = Some True \<and> kill_retry_due cfg now st
          then with_store (\<lambda>d. mark_kill_attempt d now (as_execution_id st) (Iso now))
            (fst (send_stop_signal env now (as_execution_id st) (Some ''KILL'') ''kill'' (a\<lparr>ag_world := w\<rparr>)))
          else a\<lparr>ag_world := w\<rparr>)"

definition reclaim_watchdog ::
    "('w, 'z) wheel_os_scheme \<Rightarrow> ('c) agent_config_scheme \<Rightarrow> instant \<Rightarrow> attempt_state
      \<Rightarrow> ('w, 'y) consumer_scheme \<Rightarrow> ('w, 'y) consumer_scheme" where
  "reclaim_watchdog env cfg now st a =
     (let (a, st) = deliver_pending env cfg now st a
      in if as_kill_pending st then chase_process env cfg now st a
         else if as_cleanup_pending st then run_deferred_cleanup (as_execution_id st) a
         else a)"

section \<open>The tick\<close>

definition reconcile_scrapy ::
    "('w, 'z) wheel_os_scheme \<Rightarrow> ('c) agent_config_scheme \<Rightarrow> instant \<Rightarrow> int \<Rightarrow> attempt_state
      \<Rightarrow> ('w, 'y) consumer_scheme \<Rightarrow> ('w, 'y) consumer_scheme" where
  \<comment> \<open>the part of the loop body for a started scrapy attempt\<close>
  "reconcile_scrapy env cfg now clock st a =
     (let execution_id = as_execution_id st;
          sz = sample_log_size (ag_files a) st;
          (a, flooded) = flood_watchdog env cfg now st sz a;
          st = or_default flooded st
      in if stamp_given (as_stop_requested_at st) then stop_watchdog env cfg now st a
         else (case runner_status env (ag_files a) (ag_store a) (ag_world a) execution_id of
           (w, status) \<Rightarrow>
            (let a = a\<lparr>ag_world := w\<rparr> in
             case status_to_terminal status of
               None \<Rightarrow> if status = St_running
                 then maybe_emit_heartbeat env cfg clock (as_task_id st) execution_id sz a else a
             | Some terminal \<Rightarrow>
                 finish_scrapy_attempt env cfg now st terminal None (drop_heartbeat execution_id a))))"

definition reconcile_attempt ::
    "('w, 'z) wheel_os_scheme \<Rightarrow> ('c) agent_config_scheme \<Rightarrow> instant \<Rightarrow> int \<Rightarrow> string
      \<Rightarrow> ('w, 'y) consumer_scheme \<Rightarrow> ('w, 'y) consumer_scheme" where
  "reconcile_attempt env cfg now clock execution_id a =
     (case read_state (ag_store a) execution_id of None \<Rightarrow> a
      | Some st \<Rightarrow>
          if as_phase st \<noteq> Phase_started then reclaim_watchdog env cfg now st a
          else if as_runner_type st = WHEEL_RUNNER_TYPE then
            (if execution_id \<in> cs_inproc_wheel a \<and> wheel_alive env (ag_world a) (cs_wheels a) execution_id
             then maybe_emit_heartbeat env cfg clock (as_task_id st) execution_id None a else a)
          else reconcile_scrapy env cfg now clock st a)"

definition reconcile_started_attempts ::
    "('w, 'z) wheel_os_scheme \<Rightarrow> ('c) agent_config_scheme \<Rightarrow> instant \<Rightarrow> int
      \<Rightarrow> ('w, 'y) consumer_scheme \<Rightarrow> ('w, 'y) consumer_scheme" where
  "reconcile_started_attempts env cfg now clock a =
     fold (reconcile_attempt env cfg now clock) (list_execution_ids (ag_store a)) a"

end
