(* ===== verification/AgentCaches.thy ===== *)
theory AgentCaches
  imports AgentStops
begin

text \<open>
  The agent's artifact caches: eggs deployed to scrapyd
  (\<^verbatim>\<open>apps/agent/dopilot_agent/artifacts/cache.py\<close>) and wheels installed into a private
  directory (\<^verbatim>\<open>artifacts/wheel_cache.py\<close>). Each entry has a body, a ready marker and a lock
  file created with \<open>O_CREAT | O_EXCL\<close>.

  The server download, SHA-256, pip, and what other processes do to the directory while a caller
  sleeps are parameters. The wait for a held lock polls every 0.2 s up to a deadline; it is a
  recursion over the number of polls.
\<close>

record cache =
  ca_bodies :: "(string \<times> string) list" \<comment> \<open>file name to contents\<close>
  ca_ready :: "string set"
  ca_locks :: "string set"

record 'w cache_os = "'w wheel_os" +
  os_fetch :: "'w \<Rightarrow> string \<Rightarrow> (string \<times> string) list \<Rightarrow> 'w \<times> string option"
  os_sha256 :: "string \<Rightarrow> string"
  os_pip :: "'w \<Rightarrow> string \<Rightarrow> string \<Rightarrow> 'w \<times> (string \<times> obj) option"
  os_pause :: "'w \<Rightarrow> cache \<Rightarrow> 'w \<times> cache"

record cache_config =
  cf_root :: string
  cf_server_url :: string
  cf_token :: string
  cf_polls :: nat

type_synonym cache_error = "string \<times> obj" \<comment> \<open>message and detail\<close>

definition lstrip_slash :: "string \<Rightarrow> string" where
  "lstrip_slash = dropWhile (\<lambda>c. c = CHR ''/'')"

definition artifact_url :: "cache_config \<Rightarrow> string \<Rightarrow> string" where
  \<comment> \<open>\<open>urljoin(server_url + "/", path.lstrip("/"))\<close> for a path without scheme and dot segments\<close>
  "artifact_url cf fetch_path =
     rev (lstrip_slash (rev (cf_server_url cf))) @ ''/'' @ lstrip_slash fetch_path"

definition auth_headers :: "cache_config \<Rightarrow> (string \<times> string) list" where
  "auth_headers cf = (if cf_token cf = [] then [] else [(''Authorization'', ''Bearer '' @ cf_token cf)])"

definition str_or :: "json \<Rightarrow> string \<Rightarrow> string" where
  \<comment> \<open>\<open>str(v or default)\<close>\<close>
  "str_or v d = (if truthy v then py_str v else d)"

definition artifact_hash :: "obj \<Rightarrow> string" where
  \<comment> \<open>\<open>str(artifact.get("hash") or artifact.get("sha256") or "")\<close>\<close>
  "artifact_hash artifact =
     (if truthy (obj_get artifact ''hash'') then py_str (obj_get artifact ''hash'')
      else str_or (obj_get artifact ''sha256'') [])"

definition hash_detail :: "string \<Rightarrow> obj" where
  "hash_detail sha = [(''hash'', JStr sha)]"

definition fetch_body ::
    "('w, 'z) cache_os_scheme \<Rightarrow> cache_config \<Rightarrow> string \<Rightarrow> string \<Rightarrow> string \<Rightarrow> string
      \<Rightarrow> 'w \<times> cache \<Rightarrow> ('w \<times> cache) \<times> cache_error option" where
  \<comment> \<open>the first half of both \<open>_fetch_verify_\<close> functions: reuse a body that verifies, or
    download, verify and rename; \<open>what\<close> is \<open>"artifact"\<close> or \<open>"wheel artifact"\<close>\<close>
  "fetch_body env cf what sha fetch_path name s =
     (case s of (w, ca) \<Rightarrow>
      if map_option (os_sha256 env) (map_of (ca_bodies ca) name) = Some sha then ((w, ca), None)
      else (case os_fetch env w (artifact_url cf fetch_path) (auth_headers cf) of
          (w, None) \<Rightarrow> ((w, ca), Some (''failed to fetch '' @ what,
            hash_detail sha @ [(''url'', JStr (artifact_url cf fetch_path))]))
        | (w, Some body) \<Rightarrow>
            if os_sha256 env body \<noteq> sha then ((w, ca), Some (what @ '' sha256 mismatch'', hash_detail sha))
            else ((w, ca\<lparr>ca_bodies := AList.update name body (ca_bodies ca)\<rparr>), None)))"

definition egg_name :: "string \<Rightarrow> string" where
  "egg_name sha = sha @ ''.egg''"

definition fetch_verify_deploy ::
    "('w, 'z) cache_os_scheme \<Rightarrow> cache_config \<Rightarrow> string \<Rightarrow> string \<Rightarrow> string \<Rightarrow> string
      \<Rightarrow> 'w \<times> cache \<Rightarrow> ('w \<times> cache) \<times> cache_error option" where
  "fetch_verify_deploy env cf sha project version fetch_path s =
     (case fetch_body env cf ''artifact'' sha fetch_path (egg_name sha) s of
        (s, Some e) \<Rightarrow> (s, Some e)
      | ((w, ca), None) \<Rightarrow>
         (case client_addversion env w project version
                 (or_default (map_of (ca_bodies ca) (egg_name sha)) []) of
            (w, Inl e) \<Rightarrow> ((w, ca), Some (''failed to deploy artifact to scrapyd'',
              hash_detail sha @ [(''scrapyd'', JObj (error_details e))]))
          | (w, Inr body) \<Rightarrow> ((w, ca), None)))"

definition safe_wheel_name :: "string \<Rightarrow> string \<Rightarrow> string" where
  \<comment> \<open>\<open>os.path.basename\<close>, or the hash for a name that is not a wheel's\<close>
  "safe_wheel_name filename sha =
     (let base = rev (takeWhile (\<lambda>c. c \<noteq> CHR ''/'') (rev filename))
      in if drop (length base - 4) (lower base) = ''.whl'' then base else sha @ ''.whl'')"

definition fetch_verify_install ::
    "('w, 'z) cache_os_scheme \<Rightarrow> cache_config \<Rightarrow> string \<Rightarrow> string \<Rightarrow> string
      \<Rightarrow> 'w \<times> cache \<Rightarrow> ('w \<times> cache) \<times> cache_error option" where
  "fetch_verify_install env cf sha fetch_path filename s =
     (let name = sha @ ''/'' @ safe_wheel_name filename sha in
      case fetch_body env cf ''wheel artifact'' sha fetch_path name s of
        (s, Some e) \<Rightarrow> (s, Some e)
      | ((w, ca), None) \<Rightarrow>
         (case os_pip env w (join_path (cf_root cf) (sha @ ''/site'')) (join_path (cf_root cf) name) of
            (w, Some (msg, detail)) \<Rightarrow> ((w, ca), Some (msg, hash_detail sha @ detail))
          | (w, None) \<Rightarrow> ((w, ca), None)))"

definition ensure_try ::
    "string \<Rightarrow> ('w \<times> cache \<Rightarrow> ('w \<times> cache) \<times> cache_error option)
      \<Rightarrow> 'w \<times> cache \<Rightarrow> (('w \<times> cache) \<times> cache_error option) option" where
  \<comment> \<open>one round: ready, or \<open>work\<close> under the lock; \<open>None\<close> when the lock file exists\<close>
  "ensure_try sha work s =
     (if sha \<in> ca_ready (snd s) then Some (s, None)
      else if sha \<in> ca_locks (snd s) then None
      else (case work (fst s, (snd s)\<lparr>ca_locks := insert sha (ca_locks (snd s))\<rparr>) of
          ((w, ca), r) \<Rightarrow> Some ((w, ca\<lparr>ca_locks := ca_locks ca - {sha},
             ca_ready := (if r = None then insert sha (ca_ready ca) else ca_ready ca)\<rparr>), r)))"

primrec ensure_loop ::
    "('w, 'z) cache_os_scheme \<Rightarrow> string \<Rightarrow> string
      \<Rightarrow> ('w \<times> cache \<Rightarrow> ('w \<times> cache) \<times> cache_error option) \<Rightarrow> nat
      \<Rightarrow> 'w \<times> cache \<Rightarrow> ('w \<times> cache) \<times> cache_error option" where
  \<comment> \<open>the \<open>while True\<close> of both \<open>ensure\<close> functions with \<open>n\<close> polls left\<close>
  "ensure_loop env what sha work 0 s =
     (case ensure_try sha work s of Some r \<Rightarrow> r
      | None \<Rightarrow> (s, Some (''timed out waiting for '' @ what @ '' cache lock'', hash_detail sha)))"
| "ensure_loop env what sha work (Suc n) s =
     (case ensure_try sha work s of Some r \<Rightarrow> r
      | None \<Rightarrow> ensure_loop env what sha work n (os_pause env (fst s) (snd s)))"

definition egg_ensure ::
    "('w, 'z) cache_os_scheme \<Rightarrow> cache_config \<Rightarrow> obj \<Rightarrow> 'w \<times> cache
      \<Rightarrow> ('w \<times> cache) \<times> cache_error option" where
  "egg_ensure env cf artifact s =
     (let sha = artifact_hash artifact;
          project = str_or (obj_get artifact ''project'') [];
          version = str_or (obj_get artifact ''version'') [];
          fetch_path = str_or (obj_get artifact ''fetch_path'') (''/api/v1/artifacts/scrapy/'' @ sha @ ''/egg'')
      in if sha = [] then (s, Some (''artifact hash is required'', []))
         else if project = [] \<or> version = []
         then (s, Some (''artifact project/version is required'', hash_detail sha))
         else if sha \<in> ca_ready (snd s) then (s, None)
         else ensure_loop env ''artifact'' sha
           (fetch_verify_deploy env cf sha project version fetch_path) (cf_polls cf) s)"

definition wheel_ensure ::
    "('w, 'z) cache_os_scheme \<Rightarrow> cache_config \<Rightarrow> obj \<Rightarrow> 'w \<times> cache
      \<Rightarrow> ('w \<times> cache) \<times> (cache_error + string)" where
  "wheel_ensure env cf artifact s =
     (let sha = artifact_hash artifact;
          fetch_path = str_or (obj_get artifact ''fetch_path'')
            (''/api/v1/artifacts/python_wheel/'' @ sha @ ''/wheel'');
          filename = str_or (obj_get artifact ''filename'') [];
          site = join_path (cf_root cf) (sha @ ''/site'')
      in if sha = [] then (s, Inl (''artifact hash is required'', []))
         else if sha \<in> ca_ready (snd s) then (s, Inr site)
         else (case ensure_loop env ''wheel'' sha (fetch_verify_install env cf sha fetch_path filename)
                 (cf_polls cf) s of
             (s, Some e) \<Rightarrow> (s, Inl e)
           | (s, None) \<Rightarrow> (s, Inr site)))"

end
