(* ===== verification/AgentCommands.thy ===== *)
theory AgentCommands
  imports AgentCaches ScrapyCommand
begin

text \<open>
  The agent's command handlers and its boot recovery
  (\<^verbatim>\<open>apps/agent/dopilot_agent/redis/commands.py\<close>, and the runtime context of
  \<^verbatim>\<open>packages/protocol/dopilot_protocol/execution.py\<close>).

  A handler is a function on the consumer state. Where the code lets an exception escape (a
  runtime context that does not validate) \<open>_process\<close> logs it and acknowledges the command, so
  the handler's value is the state it had reached. The per-execution lock makes a handler one
  step with respect to the other tasks of its execution.
\<close>

section \<open>The runtime context\<close>

definition json_escape :: "char \<Rightarrow> string" where
  \<comment> \<open>one character of a \<open>json.dumps\<close> string\<close>
  "json_escape c =
     (if c = CHR 0x22 \<or> c = CHR 0x5C then [CHR 0x5C, c]
      else if c = CHR 0x0A then CHR 0x5C # ''n'' else if c = CHR 0x0D then CHR 0x5C # ''r''
      else if c = CHR 0x09 then CHR 0x5C # ''t'' else if c = CHR 0x08 then CHR 0x5C # ''b''
      else if c = CHR 0x0C then CHR 0x5C # ''f''
      else if ord_of c < 32 \<or> ord_of c > 126
        then CHR 0x5C # ''u00'' @ [hex_digit (ord_of c div 16), hex_digit (ord_of c mod 16)]
      else [c])"

definition json_text :: "string option \<Rightarrow> string" where
  "json_text v = (case v of None \<Rightarrow> ''null''
     | Some s \<Rightarrow> [CHR 0x22] @ concat (map json_escape s) @ [CHR 0x22])"

record runtime_context =
  rc_task_id :: string
  rc_execution_id :: string
  rc_agent_id :: string
  rc_artifact_type :: string
  rc_task_type :: string
  rc_source :: string
  rc_execution_template_id :: "string option"
  rc_schedule_id :: "string option"

definition need_str :: "obj \<Rightarrow> string \<Rightarrow> string option" where
  "need_str d k = (case obj_get d k of JStr s \<Rightarrow> Some s | _ \<Rightarrow> None)"

definition opt_str :: "obj \<Rightarrow> string \<Rightarrow> string option option" where
  "opt_str d k = (case obj_get d k of JStr s \<Rightarrow> Some (Some s) | JNull \<Rightarrow> Some None | _ \<Rightarrow> None)"

definition validate_context :: "json \<Rightarrow> runtime_context option" where
  \<comment> \<open>\<open>DopilotRuntimeContext.model_validate\<close>; \<open>None\<close> for a \<open>ValidationError\<close>\<close>
  "validate_context raw =
     (case raw of JObj d \<Rightarrow>
        (case (need_str d ''task_id'', need_str d ''execution_id'', need_str d ''agent_id'',
               need_str d ''artifact_type'', need_str d ''task_type'', need_str d ''source'',
               opt_str d ''execution_template_id'', opt_str d ''schedule_id'') of
           (Some t, Some x, Some a, Some y, Some k, Some s, Some e, Some c) \<Rightarrow>
             Some \<lparr>rc_task_id = t, rc_execution_id = x, rc_agent_id = a, rc_artifact_type = y,
               rc_task_type = k, rc_source = s, rc_execution_template_id = e, rc_schedule_id = c\<rparr>
         | _ \<Rightarrow> None)
      | _ \<Rightarrow> None)"

definition context_json :: "runtime_context \<Rightarrow> string" where
  \<comment> \<open>sorted keys, compact separators\<close>
  "context_json rc =
     ''{'' @ join_with '','' (map (\<lambda>(k, v). json_text (Some k) @ '':'' @ json_text v)
       [(''agent_id'', Some (rc_agent_id rc)), (''artifact_type'', Some (rc_artifact_type rc)),
        (''execution_id'', Some (rc_execution_id rc)),
        (''execution_template_id'', rc_execution_template_id rc),
        (''schedule_id'', rc_schedule_id rc), (''source'', Some (rc_source rc)),
        (''task_id'', Some (rc_task_id rc)), (''task_type'', Some (rc_task_type rc))]) @ ''}''"

definition to_env_map :: "runtime_context \<Rightarrow> environment" where
  "to_env_map rc =
     [(''DOPILOT_TASK_ID'', rc_task_id rc), (''DOPILOT_EXECUTION_ID'', rc_execution_id rc),
      (''DOPILOT_AGENT_ID'', rc_agent_id rc), (''DOPILOT_ARTIFACT_TYPE'', rc_artifact_type rc),
      (''DOPILOT_TASK_TYPE'', rc_task_type rc), (''DOPILOT_TASK_SOURCE'', rc_source rc),
      (''DOPILOT_EXECUTION_TEMPLATE_ID'', or_default (rc_execution_template_id rc) []),
      (''DOPILOT_SCHEDULE_ID'', or_default (rc_schedule_id rc) []),
      (''DOPILOT_RUNTIME_CONTEXT'', context_json rc)]"

definition runtime_context_env :: "obj \<Rightarrow> environment option" where
  \<comment> \<open>\<open>_runtime_context_env\<close> and \<open>_runtime_context_scrapy_settings\<close>\<close>
  "runtime_context_env payload =
     (case obj_get payload ''runtime_context'' of
        JNull \<Rightarrow> Some []
      | raw \<Rightarrow> map_option to_env_map (validate_context raw))"

section \<open>The daemon\<close>

record daemon_config = consumer_config +
  dc_eggs :: cache_config
  dc_wheels :: cache_config

record 'w daemon = "'w consumer" +
  da_eggs :: cache
  da_wheels :: cache

abbreviation ac :: "('c) agent_config_scheme \<Rightarrow> agent_config" where
  "ac cfg \<equiv> agent_config.truncate cfg"

definition fail_run ::
    "('w, 'z) cache_os_scheme \<Rightarrow> ('c) agent_config_scheme \<Rightarrow> instant \<Rightarrow> agent_command \<Rightarrow> string
      \<Rightarrow> lost_reason option \<Rightarrow> obj \<Rightarrow> ('w, 'y) agent_scheme \<Rightarrow> ('w, 'y) agent_scheme" where
  \<comment> \<open>\<open>mark_done(result="failed", ...)\<close> and \<open>emit_terminal(failed, ...)\<close>\<close>
  "fail_run env cfg now cmd error_code lost detail a =
     emit_terminal env (ac cfg) now (cmd_task_id cmd) (cmd_execution_id cmd) Ev_failed
       (no_info\<lparr>ei_error_code := Some error_code, ei_error_detail := detail, ei_lost_reason := lost\<rparr>)
       (with_store (\<lambda>d. mark_done d now (cmd_execution_id cmd) ((terminal_mark ''failed'')
          \<lparr>tm_error_code := Some error_code, tm_lost_reason := map_option lost_value lost\<rparr>)) a)"

definition republish ::
    "('w, 'z) cache_os_scheme \<Rightarrow> ('c) agent_config_scheme \<Rightarrow> instant \<Rightarrow> agent_command
      \<Rightarrow> ('w, 'y) agent_scheme \<Rightarrow> ('w, 'y) agent_scheme" where
  "republish env cfg now cmd a =
     republish_current env (ac cfg) now (cmd_task_id cmd) (cmd_execution_id cmd) a"

definition artifact_of :: "obj \<Rightarrow> obj" where
  \<comment> \<open>\<open>(artifact or {})\<close>\<close>
  "artifact_of payload = or_default (as_dict (obj_get payload ''artifact'')) []"

definition fetchable :: "obj \<Rightarrow> bool" where
  "fetchable artifact \<longleftrightarrow> truthy (obj_get artifact ''hash'') \<or> truthy (obj_get artifact ''sha256'')"

section \<open>Run: scrapy\<close>

definition start_scrapy ::
    "('w, 'z) cache_os_scheme \<Rightarrow> ('c) agent_config_scheme \<Rightarrow> instant \<Rightarrow> agent_command \<Rightarrow> agent_run_request
      \<Rightarrow> ('w, 'y) agent_scheme \<Rightarrow> ('w, 'y) agent_scheme" where
  \<comment> \<open>schedule, promote, announce\<close>
  "start_scrapy env cfg now cmd req a =
     (case runner_schedule env (ac_runner cfg) (ag_world a) req of
        (w, Inl detail) \<Rightarrow> fail_run env cfg now cmd ''scrapyd_error'' None detail (a\<lparr>ag_world := w\<rparr>)
      | (w, Inr job_id) \<Rightarrow>
         (let a = a\<lparr>ag_world := w\<rparr>;
              log_path = job_log_path (ac_runner cfg) (rr_project req) (rr_spider req) job_id;
              (d, promoted) = promote_started (ag_store a) now (cmd_execution_id cmd) job_id log_path;
              a = a\<lparr>ag_store := d\<rparr>
          in if promoted = None
             then fail_run env cfg now cmd ''spawn_aborted'' (Some Lost_spawn_aborted) [] a
             else emit_running env (ac cfg) now (cmd_task_id cmd) (cmd_execution_id cmd) (Some job_id) a))"

definition handle_run_scrapy ::
    "('w, 'z) cache_os_scheme \<Rightarrow> ('c) daemon_config_scheme \<Rightarrow> instant \<Rightarrow> agent_command
      \<Rightarrow> ('w, 'y) daemon_scheme \<Rightarrow> ('w, 'y) daemon_scheme" where
  "handle_run_scrapy env cfg now cmd a =
     (let payload = cmd_payload cmd;
          artifact = artifact_of payload;
          project = str_or (obj_get artifact ''project'') [];
          version = (if truthy (obj_get artifact ''version'') then Some (py_str (obj_get artifact ''version''))
            else None);
          parsed = parse_scrapy_command (case obj_get payload ''command'' of JStr s \<Rightarrow> Some s | _ \<Rightarrow> None);
          spider = (case parsed of Inl _ \<Rightarrow> [] | Inr p \<Rightarrow> pc_spider p);
          (d, reserved) = create_reserved (ag_store a) ((new_attempt (cmd_task_id cmd) (cmd_execution_id cmd) now)
            \<lparr>as_project := project, as_spider := spider, as_version := version\<rparr>);
          a = a\<lparr>ag_store := d\<rparr>
      in if reserved = None then republish env cfg now cmd a
         else (let a = emit_accepted env (ac cfg) now (cmd_task_id cmd) (cmd_execution_id cmd) a in
           case parsed of
             Inl (reason, extra) \<Rightarrow>
               (let detail = (''reason'', JStr reason) # extra in
                fail_run env cfg now cmd ''command_invalid'' None
                  (if project = [] then obj_update [(''reason'', JStr ''artifact_missing'')] detail else detail) a)
           | Inr p \<Rightarrow>
               if project = [] then
                 fail_run env cfg now cmd ''command_invalid'' None [(''reason'', JStr ''artifact_missing'')] a
               else if fetchable artifact \<and> \<not> cc_has_egg_cache cfg then
                 fail_run env cfg now cmd ''artifact_cache_unavailable'' None [] a
               else (let ((w, eggs), failure) = (if fetchable artifact
                      then egg_ensure env (dc_eggs cfg) artifact (ag_world a, da_eggs a)
                      else ((ag_world a, da_eggs a), None));
                      a = a\<lparr>ag_world := w, da_eggs := eggs\<rparr>
                 in case failure of
                      Some (msg, detail) \<Rightarrow> fail_run env cfg now cmd ''artifact_error'' None detail a
                    | None \<Rightarrow> (case runtime_context_env payload of
                          None \<Rightarrow> a
                        | Some context \<Rightarrow> start_scrapy env cfg now cmd
                            \<lparr>rr_task_id = cmd_task_id cmd, rr_execution_id = cmd_execution_id cmd,
                             rr_project = project, rr_spider = pc_spider p, rr_version = version,
                             rr_settings = fold (\<lambda>(k, v) e. AList.update k v e) context (pc_settings p),
                             rr_args = pc_args p\<rparr> a))))"

section \<open>Run: Python wheel\<close>

definition start_wheel ::
    "('w, 'z) cache_os_scheme \<Rightarrow> ('c) consumer_config_scheme \<Rightarrow> instant \<Rightarrow> agent_command \<Rightarrow> string \<Rightarrow> string
      \<Rightarrow> string option \<Rightarrow> environment \<Rightarrow> environment \<Rightarrow> ('w, 'y) consumer_scheme \<Rightarrow> ('w, 'y) consumer_scheme" where
  \<comment> \<open>spawn, promote, announce\<close>
  "start_wheel env cfg now cmd shell_command install_path working_dir extra context a =
     (case wheel_start env (cc_wheel cfg) (cs_wheels a, ag_world a) (cmd_execution_id cmd) shell_command
             install_path working_dir extra context of
        ((wr, w), Inl (error_code, detail)) \<Rightarrow>
          fail_run env cfg now cmd error_code None detail (a\<lparr>cs_wheels := wr, ag_world := w\<rparr>)
      | ((wr, w), Inr started) \<Rightarrow>
         (let (d, promoted) = promote_started_wheel (ag_store a) now (cmd_execution_id cmd) (sw_pid started)
                (sw_pgid started) (sw_workspace_path started) install_path (sw_log_path started);
              a = a\<lparr>cs_wheels := wr, ag_world := w, ag_store := d\<rparr>
          in if promoted = None then
               (let (wr, w) = wheel_terminate env (cc_wheel cfg) (cs_wheels a, ag_world a) (cmd_execution_id cmd)
                in fail_run env cfg now cmd ''spawn_aborted'' (Some Lost_spawn_aborted) []
                     (a\<lparr>cs_wheels := wr, ag_world := w\<rparr>))
             else emit_running env (ac cfg) now (cmd_task_id cmd) (cmd_execution_id cmd) None
               (a\<lparr>cs_inproc_wheel := insert (cmd_execution_id cmd) (cs_inproc_wheel a)\<rparr>)))"

definition handle_run_wheel ::
    "('w, 'z) cache_os_scheme \<Rightarrow> ('c) daemon_config_scheme \<Rightarrow> instant \<Rightarrow> agent_command
      \<Rightarrow> ('w, 'y) daemon_scheme \<Rightarrow> ('w, 'y) daemon_scheme" where
  "handle_run_wheel env cfg now cmd a =
     (let payload = cmd_payload cmd;
          artifact = artifact_of payload;
          shell_command = py_strip (str_or (obj_get payload ''shell_command'') []);
          working_dir = (case obj_get payload ''working_dir'' of JStr s \<Rightarrow> Some s | _ \<Rightarrow> None);
          extra = map (\<lambda>(k, v). (k, py_str v)) (or_default (as_dict (obj_get payload ''env'')) [])
      in case runtime_context_env payload of None \<Rightarrow> a
         | Some context \<Rightarrow>
           (let (d, reserved) = create_reserved (ag_store a)
                  ((new_attempt (cmd_task_id cmd) (cmd_execution_id cmd) now)
                    \<lparr>as_runner_type := WHEEL_RUNNER_TYPE, as_shell_command := shell_command\<rparr>);
                a = a\<lparr>ag_store := d\<rparr>
            in if reserved = None then republish env cfg now cmd a
               else (let a = emit_accepted env (ac cfg) now (cmd_task_id cmd) (cmd_execution_id cmd) a in
                 if shell_command = [] \<or> \<not> fetchable artifact then
                   fail_run env cfg now cmd ''command_invalid'' None
                     [(''missing'', JStr (if shell_command = [] then ''shell_command'' else ''artifact''))] a
                 else if \<not> cc_has_wheel_cache cfg then
                   fail_run env cfg now cmd ''wheel_runner_unavailable'' None [] a
                 else (case wheel_ensure env (dc_wheels cfg) artifact (ag_world a, da_wheels a) of
                     ((w, wheels), Inl (msg, detail)) \<Rightarrow>
                       fail_run env cfg now cmd ''wheel_install_error'' None detail
                         (a\<lparr>ag_world := w, da_wheels := wheels\<rparr>)
                   | ((w, wheels), Inr install_path) \<Rightarrow>
                       start_wheel env cfg now cmd shell_command install_path working_dir extra context
                         (a\<lparr>ag_world := w, da_wheels := wheels\<rparr>)))))"

definition handle_run ::
    "('w, 'z) cache_os_scheme \<Rightarrow> ('c) daemon_config_scheme \<Rightarrow> instant \<Rightarrow> agent_command
      \<Rightarrow> ('w, 'y) daemon_scheme \<Rightarrow> ('w, 'y) daemon_scheme" where
  "handle_run env cfg now cmd a =
     (if read_state (ag_store a) (cmd_execution_id cmd) \<noteq> None then republish env cfg now cmd a
      else if cmd_task_type cmd = WHEEL_RUNNER_TYPE then handle_run_wheel env cfg now cmd a
      else handle_run_scrapy env cfg now cmd a)"

definition await_wheel ::
    "('w, 'z) cache_os_scheme \<Rightarrow> ('c) consumer_config_scheme \<Rightarrow> instant \<Rightarrow> string \<Rightarrow> string
      \<Rightarrow> ('w, 'y) consumer_scheme \<Rightarrow> ('w, 'y) consumer_scheme" where
  \<comment> \<open>the background waiter of one wheel child, once \<open>wait\<close> has returned\<close>
  "await_wheel env cfg now task_id execution_id a =
     (case wheel_wait env (ag_world a) (cs_wheels a) execution_id of
        None \<Rightarrow> a
      | Some outcome \<Rightarrow>
         (let a = drop_heartbeat execution_id a in
          case read_state (ag_store a) execution_id of
            None \<Rightarrow> a
          | Some st \<Rightarrow>
              if as_phase st = Phase_done then a
              else if wo_canceled outcome then
                emit_terminal env (ac cfg) now task_id execution_id Ev_canceled no_info
                  (with_store (\<lambda>d. mark_done d now execution_id (terminal_mark ''canceled'')) a)
              else (let (result, event) = (if wo_exit_code outcome = 0 then (''finished'', Ev_finished)
                       else (''failed'', Ev_failed))
                in emit_terminal env (ac cfg) now task_id execution_id event
                  (no_info\<lparr>ei_exit_code := Some (wo_exit_code outcome)\<rparr>)
                  (with_store (\<lambda>d. mark_done d now execution_id ((terminal_mark result)
                     \<lparr>tm_exit_code := Some (wo_exit_code outcome)\<rparr>)) a))))"

section \<open>Stop\<close>

definition terminate_wheel ::
    "('w, 'z) cache_os_scheme \<Rightarrow> ('c) consumer_config_scheme \<Rightarrow> string
      \<Rightarrow> ('w, 'y) consumer_scheme \<Rightarrow> ('w, 'y) consumer_scheme" where
  "terminate_wheel env cfg execution_id a =
     (case wheel_terminate env (cc_wheel cfg) (cs_wheels a, ag_world a) execution_id of
        (wr, w) \<Rightarrow> a\<lparr>cs_wheels := wr, ag_world := w\<rparr>)"

definition cancel_now ::
    "('w, 'z) cache_os_scheme \<Rightarrow> ('c) agent_config_scheme \<Rightarrow> instant \<Rightarrow> agent_command
      \<Rightarrow> ('w, 'y) agent_scheme \<Rightarrow> ('w, 'y) agent_scheme" where
  "cancel_now env cfg now cmd a =
     emit_terminal env (ac cfg) now (cmd_task_id cmd) (cmd_execution_id cmd) Ev_canceled no_info
       (with_store (\<lambda>d. mark_done d now (cmd_execution_id cmd) (terminal_mark ''canceled'')) a)"

definition handle_reclaim ::
    "('w, 'z) cache_os_scheme \<Rightarrow> ('c) consumer_config_scheme \<Rightarrow> instant \<Rightarrow> agent_command
      \<Rightarrow> ('w, 'y) consumer_scheme \<Rightarrow> ('w, 'y) consumer_scheme" where
  \<comment> \<open>the part of \<open>_handle_stop\<close> for every intent but \<open>cancel\<close>\<close>
  "handle_reclaim env cfg now cmd a =
     (case read_state (ag_store a) (cmd_execution_id cmd) of
        None \<Rightarrow> a
      | Some st \<Rightarrow>
          if as_runner_type st = WHEEL_RUNNER_TYPE then
            with_store (\<lambda>d. mark_done d now (cmd_execution_id cmd) (terminal_mark ''lost''))
              (terminate_wheel env cfg (cmd_execution_id cmd) a)
          else if as_phase st \<noteq> Phase_started then
            (if truthy_str (as_result st) then republish env cfg now cmd a else a)
          else if stamp_given (as_stop_requested_at st) then a
          else (case runner_status env (ag_files a) (ag_store a) (ag_world a) (cmd_execution_id cmd) of
              (w, status) \<Rightarrow>
                (let a = a\<lparr>ag_world := w\<rparr> in
                 case status_to_terminal status of
                   Some terminal \<Rightarrow> finish_scrapy_attempt env cfg now st terminal None a
                 | None \<Rightarrow> begin_stop env now st Intent_reclaim a)))"

definition handle_stop ::
    "('w, 'z) cache_os_scheme \<Rightarrow> ('c) consumer_config_scheme \<Rightarrow> instant \<Rightarrow> agent_command
      \<Rightarrow> ('w, 'y) consumer_scheme \<Rightarrow> ('w, 'y) consumer_scheme" where
  "handle_stop env cfg now cmd a =
     (let a = drop_heartbeat (cmd_execution_id cmd) a in
      if cmd_intent cmd \<noteq> Some Intent_cancel then handle_reclaim env cfg now cmd a
      else (case read_state (ag_store a) (cmd_execution_id cmd) of
          None \<Rightarrow> cancel_now env cfg now cmd (fst (call_stop env now (cmd_execution_id cmd) None a))
        | Some st \<Rightarrow>
            if as_runner_type st = WHEEL_RUNNER_TYPE
            then cancel_now env cfg now cmd (terminate_wheel env cfg (cmd_execution_id cmd) a)
            else if as_phase st \<noteq> Phase_started
            then cancel_now env cfg now cmd (fst (call_stop env now (cmd_execution_id cmd) None a))
            else begin_stop env now st Intent_cancel a))"

section \<open>Cleanup and backpressure\<close>

definition handle_cleanup ::
    "instant \<Rightarrow> agent_command \<Rightarrow> ('w, 'y) consumer_scheme \<Rightarrow> ('w, 'y) consumer_scheme" where
  "handle_cleanup now cmd a =
     (case read_state (ag_store a) (cmd_execution_id cmd) of
        None \<Rightarrow> do_cleanup (cmd_execution_id cmd) a
      | Some st \<Rightarrow> if cleanup_must_wait st
          then with_store (\<lambda>d. mark_cleanup_pending d now (cmd_execution_id cmd)) a
          else do_cleanup (cmd_execution_id cmd) a)"

definition handle_stop_logs ::
    "instant \<Rightarrow> agent_command \<Rightarrow> ('w, 'y) agent_scheme \<Rightarrow> ('w, 'y) agent_scheme" where
  "handle_stop_logs now cmd a = with_store (\<lambda>d. mark_log_capped d now (cmd_execution_id cmd)) a"

section \<open>The command loop\<close>

definition handle_command ::
    "('w, 'z) cache_os_scheme \<Rightarrow> ('c) daemon_config_scheme \<Rightarrow> instant \<Rightarrow> agent_command
      \<Rightarrow> ('w, 'y) daemon_scheme \<Rightarrow> ('w, 'y) daemon_scheme" where
  "handle_command env cfg now cmd a =
     (case cmd_type cmd of
        Cmd_run \<Rightarrow> handle_run env cfg now cmd a
      | Cmd_stop \<Rightarrow> handle_stop env cfg now cmd a
      | Cmd_cleanup_logs \<Rightarrow> handle_cleanup now cmd a
      | Cmd_stop_logs \<Rightarrow> handle_stop_logs now cmd a)"

definition process ::
    "('w, 'z) cache_os_scheme \<Rightarrow> ('c) daemon_config_scheme \<Rightarrow> instant \<Rightarrow> string \<times> agent_command option
      \<Rightarrow> ('w, 'y) daemon_scheme \<times> string list \<Rightarrow> ('w, 'y) daemon_scheme \<times> string list" where
  \<comment> \<open>one stream entry; the list collects the acknowledged message ids\<close>
  "process env cfg now entry s =
     (case entry of (msg_id, decoded) \<Rightarrow>
      (case decoded of None \<Rightarrow> fst s | Some cmd \<Rightarrow> handle_command env cfg now cmd (fst s), snd s @ [msg_id]))"

definition drain ::
    "('w, 'z) cache_os_scheme \<Rightarrow> ('c) daemon_config_scheme \<Rightarrow> instant \<Rightarrow> (string \<times> agent_command option) list
      \<Rightarrow> ('w, 'y) daemon_scheme \<Rightarrow> ('w, 'y) daemon_scheme \<times> string list" where
  \<comment> \<open>the loops over claimed and over new entries\<close>
  "drain env cfg now entries a = fold (process env cfg now) entries (a, [])"

section \<open>Boot recovery\<close>

definition recover_reserved ::
    "('w, 'z) cache_os_scheme \<Rightarrow> ('c) agent_config_scheme \<Rightarrow> instant \<Rightarrow> string
      \<Rightarrow> ('w, 'y) agent_scheme \<Rightarrow> ('w, 'y) agent_scheme" where
  "recover_reserved env cfg now execution_id a =
     (case read_state (ag_store a) execution_id of None \<Rightarrow> a
      | Some st \<Rightarrow> if as_phase st = Phase_reserved
          then with_store (\<lambda>d. mark_done d now execution_id ((terminal_mark ''failed'')
                 \<lparr>tm_error_code := Some ''spawn_aborted'', tm_lost_reason := Some ''spawn_aborted''\<rparr>))
               (emit_terminal env (ac cfg) now (as_task_id st) execution_id Ev_failed
                 (no_info\<lparr>ei_error_code := Some ''spawn_aborted'', ei_lost_reason := Some Lost_spawn_aborted\<rparr>) a)
          else a)"

definition recover_reserved_orphans ::
    "('w, 'z) cache_os_scheme \<Rightarrow> ('c) agent_config_scheme \<Rightarrow> instant
      \<Rightarrow> ('w, 'y) agent_scheme \<Rightarrow> ('w, 'y) agent_scheme" where
  "recover_reserved_orphans env cfg now a =
     fold (recover_reserved env cfg now) (list_execution_ids (ag_store a)) a"

definition recover_wheel ::
    "('w, 'z) cache_os_scheme \<Rightarrow> ('c) agent_config_scheme \<Rightarrow> instant \<Rightarrow> string
      \<Rightarrow> ('w, 'y) consumer_scheme \<Rightarrow> ('w, 'y) consumer_scheme" where
  "recover_wheel env cfg now execution_id a =
     (case read_state (ag_store a) execution_id of None \<Rightarrow> a
      | Some st \<Rightarrow>
          if as_runner_type st \<noteq> WHEEL_RUNNER_TYPE \<or> as_phase st \<noteq> Phase_started
             \<or> execution_id \<in> cs_inproc_wheel a then a
          else (let a = (case as_pgid st of None \<Rightarrow> a
                  | Some g \<Rightarrow> if g = 0 then a else a\<lparr>ag_world := terminate_pgid env (ag_world a) g\<rparr>);
                    a = with_store (\<lambda>d. mark_done d now execution_id ((terminal_mark ''lost'')
                      \<lparr>tm_lost_reason := Some (lost_value Lost_runner_recovered_unknown)\<rparr>)) a
            in emit_terminal env (ac cfg) now (as_task_id st) execution_id Ev_lost
                 (no_info\<lparr>ei_lost_reason := Some Lost_runner_recovered_unknown\<rparr>) a))"

definition recover_wheel_orphans ::
    "('w, 'z) cache_os_scheme \<Rightarrow> ('c) agent_config_scheme \<Rightarrow> instant
      \<Rightarrow> ('w, 'y) consumer_scheme \<Rightarrow> ('w, 'y) consumer_scheme" where
  "recover_wheel_orphans env cfg now a =
     fold (recover_wheel env cfg now) (list_execution_ids (ag_store a)) a"

definition recover ::
    "('w, 'z) cache_os_scheme \<Rightarrow> ('c) daemon_config_scheme \<Rightarrow> instant \<Rightarrow> (string \<times> agent_command option) list
      \<Rightarrow> ('w, 'y) daemon_scheme \<Rightarrow> ('w, 'y) daemon_scheme \<times> string list" where
  \<comment> \<open>outbox, reserved and wheel orphans, then the pending entries \<open>XAUTOCLAIM\<close> returns\<close>
  "recover env cfg now pending a =
     drain env cfg now pending
       (recover_wheel_orphans env cfg now (recover_reserved_orphans env cfg now (fst (replay_outbox env a))))"

definition loop_round ::
    "('w, 'z) cache_os_scheme \<Rightarrow> ('c) daemon_config_scheme \<Rightarrow> instant \<Rightarrow> int
      \<Rightarrow> (string \<times> agent_command option) list \<Rightarrow> ('w, 'y) daemon_scheme \<Rightarrow> ('w, 'y) daemon_scheme \<times> string list" where
  \<comment> \<open>one round of \<open>_run\<close>: replay, tick, then the entries \<open>XREADGROUP\<close> returns\<close>
  "loop_round env cfg now clock entries a =
     drain env cfg now entries (reconcile_started_attempts env cfg now clock (fst (replay_outbox env a)))"

section \<open>A sample agent\<close>

text \<open>An environment that lists every scrapyd job as running and records the paths posted.\<close>

definition sample_os :: "string list cache_os" where
  "sample_os =
     \<lparr>http_post = (\<lambda>w p d. (w @ [p], Http_reply 200 (Some (JObj [(''status'', JStr ''ok''),
        (''jobid'', JStr ''j1''), (''prevstate'', JStr ''running'')])))),
      http_get = (\<lambda>w p d. (w, Http_reply 200 (Some (JObj [(''status'', JStr ''ok''),
        (''running'', JList [JObj [(''id'', JStr ''j1'')]])])))),
      xadd_event = (\<lambda>w e. (w @ [event_value (ev_type e)], True)),
      os_environ = (\<lambda>w. []), os_resolve = (\<lambda>w p. split_path p), os_spawn = (\<lambda>w c d v. (w @ [c], Inr 7)),
      os_getpgid = (\<lambda>w p. Some p), os_killpg = (\<lambda>w g s. (w, True)), os_kill = (\<lambda>w p. (w, True)),
      os_returncode = (\<lambda>w p. None), os_sleep = (\<lambda>w. w), os_write_pgid = (\<lambda>w p g. (w, None)),
      os_proc = (\<lambda>w. None), os_scrapyd_pid = (\<lambda>w. None), os_fetch = (\<lambda>w u h. (w, Some ''egg'')),
      os_sha256 = (\<lambda>b. ''abc''), os_pip = (\<lambda>w s n. (w, None)), os_pause = (\<lambda>w c. (w, c))\<rparr>"

definition sample_cache_config :: cache_config where
  "sample_cache_config = \<lparr>cf_root = ''/a'', cf_server_url = ''http://s'', cf_token = [], cf_polls = 3\<rparr>"

definition sample_config :: daemon_config where
  "sample_config =
     \<lparr>ac_agent_id = ''a1'', ac_max_outbox_files = 100,
      ac_runner = \<lparr>rn_logs_dir = ''/l'', rn_max_job_log_bytes = 0\<rparr>, ac_heartbeat_interval = 60,
      ac_log_cap = 0, ac_flood_kill_after = 30, ac_stop_kill_after = 10, ac_stop_confirm_timeout = 120,
      ac_kill_retry_interval = 60,
      cc_wheel = \<lparr>wc_root = ''/w'', wc_grace_polls = 2, wc_max_log_bytes = 0\<rparr>, cc_has_egg_cache = True,
      cc_has_wheel_cache = True, dc_eggs = sample_cache_config, dc_wheels = sample_cache_config\<rparr>"

definition sample_daemon :: "attempt_state list \<Rightarrow> string list daemon" where
  "sample_daemon sts =
     \<lparr>ag_store = map (\<lambda>st. (as_execution_id st, Some st)) sts, ag_files = [], ag_outbox = [], ag_uuid = 0,
      ag_world = [], cs_inproc_wheel = {}, cs_last_heartbeat = [],
      cs_wheels = \<lparr>wr_procs = [], wr_pgids = [], wr_canceled = {}\<rparr>, cs_cursors = [], cs_eof_sent = {},
      da_eggs = \<lparr>ca_bodies = [], ca_ready = {}, ca_locks = {}\<rparr>,
      da_wheels = \<lparr>ca_bodies = [], ca_ready = {}, ca_locks = {}\<rparr>\<rparr>"

definition sample_attempt :: attempt_state where
  "sample_attempt = (new_attempt ''t1'' ''e1'' 0)\<lparr>as_scrapyd_job_id := ''j1'', as_project := ''p''\<rparr>"

definition sample_command :: "agent_command_type \<Rightarrow> agent_command" where
  "sample_command typ = \<lparr>cmd_command_id = ''c1'', cmd_type = typ, cmd_agent_id = ''a1'', cmd_task_id = ''t1'',
     cmd_execution_id = ''e1'', cmd_task_type = ''scrapy'', cmd_intent = None, cmd_payload = []\<rparr>"

lemma sample_daemon_keyed: "distinct (map as_execution_id sts) \<Longrightarrow> well_keyed (ag_store (sample_daemon sts))"
  by (auto simp: well_keyed_def sample_daemon_def list_all_iff comp_def)

lemma sample_daemon_read [simp]:
  "read_state (ag_store (sample_daemon [st])) x = (if x = as_execution_id st then Some st else None)"
  by (simp add: sample_daemon_def read_state_def)

end
