(* ===== verification/AgentEffects.thy ===== *)
theory AgentEffects
  imports AgentCommands
begin

text \<open>
  What the steps of the agent do, as effects: the operations they apply to the state file of one
  execution, and the calls they make to the outside. \<open>acts env now e P Q a b\<close> says that the step
  from \<open>a\<close> to \<open>b\<close> applies to the file of \<open>e\<close> only operations of \<open>P\<close> and makes only calls of \<open>Q\<close>.
\<close>

section \<open>Calls to the outside\<close>

datatype world_call =
    Call_event agent_event
  | Call_post string obj
  | Call_get string
  | Call_spawn string
  | Call_killpg int signal
  | Call_kill int
  | Call_fetch string
  | Call_pip string
  | Call_pgid string
  | Call_pause
  | Call_sleep

inductive world_run :: "('w, 'z) cache_os_scheme \<Rightarrow> 'w \<Rightarrow> world_call list \<Rightarrow> 'w \<Rightarrow> bool" for env where
  world_nil: "world_run env w [] w"
| world_event: "world_run env (fst (xadd_event env w e)) cs w' \<Longrightarrow> world_run env w (Call_event e # cs) w'"
| world_post: "world_run env (fst (http_post env w p d)) cs w' \<Longrightarrow> world_run env w (Call_post p d # cs) w'"
| world_get: "world_run env (fst (http_get env w p d)) cs w' \<Longrightarrow> world_run env w (Call_get p # cs) w'"
| world_spawn: "world_run env (fst (os_spawn env w c d v)) cs w' \<Longrightarrow> world_run env w (Call_spawn c # cs) w'"
| world_killpg: "world_run env (fst (os_killpg env w g s)) cs w' \<Longrightarrow> world_run env w (Call_killpg g s # cs) w'"
| world_kill: "world_run env (fst (os_kill env w p)) cs w' \<Longrightarrow> world_run env w (Call_kill p # cs) w'"
| world_fetch: "world_run env (fst (os_fetch env w u h)) cs w' \<Longrightarrow> world_run env w (Call_fetch u # cs) w'"
| world_pip: "world_run env (fst (os_pip env w s n)) cs w' \<Longrightarrow> world_run env w (Call_pip n # cs) w'"
| world_pgid: "world_run env (fst (os_write_pgid env w p g)) cs w' \<Longrightarrow> world_run env w (Call_pgid p # cs) w'"
| world_pause: "world_run env (fst (os_pause env w c)) cs w' \<Longrightarrow> world_run env w (Call_pause # cs) w'"
| world_sleep: "world_run env (os_sleep env w) cs w' \<Longrightarrow> world_run env w (Call_sleep # cs) w'"

lemma world_append: "world_run env w cs w1 \<Longrightarrow> world_run env w1 ds w2 \<Longrightarrow> world_run env w (cs @ ds) w2"
  by (induction rule: world_run.induct) (auto intro: world_run.intros)

definition calls :: "('w, 'z) cache_os_scheme \<Rightarrow> (world_call \<Rightarrow> bool) \<Rightarrow> 'w \<Rightarrow> 'w \<Rightarrow> bool" where
  "calls env Q w w' \<longleftrightarrow> (\<exists>cs. world_run env w cs w' \<and> list_all Q cs)"

lemma calls_refl [simp, intro]: "calls env Q w w"
  unfolding calls_def by (rule exI [of _ "[]"]) (simp add: world_nil)

lemma calls_trans: "calls env Q w w1 \<Longrightarrow> calls env Q w1 w2 \<Longrightarrow> calls env Q w w2"
  unfolding calls_def by (metis list_all_append world_append)

lemma calls_mono: "calls env Q w w' \<Longrightarrow> (\<And>c. Q c \<Longrightarrow> Q' c) \<Longrightarrow> calls env Q' w w'"
  unfolding calls_def using list.pred_mono_strong by blast

lemma calls_one:
  "Q (Call_event e) \<Longrightarrow> calls env Q w (fst (xadd_event env w e))"
  "Q (Call_post p d) \<Longrightarrow> calls env Q w (fst (http_post env w p d))"
  "Q (Call_get p) \<Longrightarrow> calls env Q w (fst (http_get env w p d))"
  "Q (Call_spawn c) \<Longrightarrow> calls env Q w (fst (os_spawn env w c cwd v))"
  "Q (Call_killpg g s) \<Longrightarrow> calls env Q w (fst (os_killpg env w g s))"
  "Q (Call_kill i) \<Longrightarrow> calls env Q w (fst (os_kill env w i))"
  "Q (Call_fetch u) \<Longrightarrow> calls env Q w (fst (os_fetch env w u h))"
  "Q (Call_pip n) \<Longrightarrow> calls env Q w (fst (os_pip env w m n))"
  "Q (Call_pgid p) \<Longrightarrow> calls env Q w (fst (os_write_pgid env w p g))"
  "Q Call_pause \<Longrightarrow> calls env Q w (fst (os_pause env w k))"
  "Q Call_sleep \<Longrightarrow> calls env Q w (os_sleep env w)"
  unfolding calls_def
  by (rule exI [of _ "[_]"], auto intro: world_run.intros)+

section \<open>Effects of a step\<close>

definition runs_ops :: "(store_op \<Rightarrow> bool) \<Rightarrow> instant \<Rightarrow> string \<Rightarrow> state_dir \<Rightarrow> state_dir \<Rightarrow> bool" where
  "runs_ops P now e d d' \<longleftrightarrow> (\<exists>ops. list_all P ops \<and> d' = fold (\<lambda>op. run_store_op op now e) ops d)"

definition acts ::
    "('w, 'z) cache_os_scheme \<Rightarrow> instant \<Rightarrow> string \<Rightarrow> (store_op \<Rightarrow> bool) \<Rightarrow> (world_call \<Rightarrow> bool)
      \<Rightarrow> ('w, 'y) agent_scheme \<Rightarrow> ('w, 'y) agent_scheme \<Rightarrow> bool" where
  "acts env now e P Q a b \<longleftrightarrow>
     runs_ops P now e (ag_store a) (ag_store b) \<and> calls env Q (ag_world a) (ag_world b)"

lemma runs_ops_refl [simp, intro]: "runs_ops P now e d d"
  unfolding runs_ops_def by (rule exI [of _ "[]"]) simp

lemma runs_ops_one: "P op \<Longrightarrow> runs_ops P now e d (run_store_op op now e d)"
  unfolding runs_ops_def by (rule exI [of _ "[op]"]) simp

lemma runs_ops_trans: "runs_ops P now e d d1 \<Longrightarrow> runs_ops P now e d1 d2 \<Longrightarrow> runs_ops P now e d d2"
  unfolding runs_ops_def by (metis fold_append comp_apply list_all_append)

lemma runs_ops_mono: "runs_ops P now e d d' \<Longrightarrow> (\<And>op. P op \<Longrightarrow> P' op) \<Longrightarrow> runs_ops P' now e d d'"
  unfolding runs_ops_def using list.pred_mono_strong by blast

lemma acts_refl [simp, intro]: "acts env now e P Q a a"
  by (simp add: acts_def)

lemma acts_trans: "acts env now e P Q a b \<Longrightarrow> acts env now e P Q b c \<Longrightarrow> acts env now e P Q a c"
  unfolding acts_def by (blast intro: runs_ops_trans calls_trans)

lemma acts_mono:
  "acts env now e P Q a b \<Longrightarrow> (\<And>op. P op \<Longrightarrow> P' op) \<Longrightarrow> (\<And>c. Q c \<Longrightarrow> Q' c) \<Longrightarrow> acts env now e P' Q' a b"
  unfolding acts_def by (blast intro: runs_ops_mono calls_mono)

lemma acts_same:
  "ag_store b = ag_store a \<Longrightarrow> ag_world b = ag_world a \<Longrightarrow> acts env now e P Q a b"
  by (simp add: acts_def)

lemma acts_same_left:
  "acts env now e P Q a' b \<Longrightarrow> ag_store a' = ag_store a \<Longrightarrow> ag_world a' = ag_world a
    \<Longrightarrow> acts env now e P Q a b"
  by (simp add: acts_def)

lemma acts_same_right:
  "acts env now e P Q a b' \<Longrightarrow> ag_store b = ag_store b' \<Longrightarrow> ag_world b = ag_world b'
    \<Longrightarrow> acts env now e P Q a b"
  by (simp add: acts_def)

lemma acts_store:
  "P op \<Longrightarrow> acts env now e P Q a (a\<lparr>ag_store := run_store_op op now e (ag_store a)\<rparr>)"
  by (simp add: acts_def runs_ops_one)

lemma acts_world: "calls env Q (ag_world a) w \<Longrightarrow> acts env now e P Q a (a\<lparr>ag_world := w\<rparr>)"
  by (simp add: acts_def)

text \<open>The store calls of the handlers are operations of the store.\<close>

lemma with_store_eq:
  assumes "\<And>d. fst (f d) = run_store_op op now e d"
  shows "with_store f a = a\<lparr>ag_store := run_store_op op now e (ag_store a)\<rparr>"
  by (simp add: with_store_def assms)

lemma acts_with_store:
  assumes "\<And>d. fst (f d) = run_store_op op now e d" and "P op"
  shows "acts env now e P Q a (with_store f a)"
  using acts_store [of P op env now e Q a] assms by (simp add: with_store_def)

lemma acts_mark_done: "P (Op_mark_done m) \<Longrightarrow> acts env now e P Q a (with_store (\<lambda>d. mark_done d now e m) a)"
  by (rule acts_with_store) auto

lemma acts_mark_stats:
  "P (Op_stats x f b c) \<Longrightarrow> acts env now e P Q a (with_store (\<lambda>d. mark_stats d now e x f b c) a)"
  by (rule acts_with_store) auto

lemma acts_stop_requested:
  "P (Op_stop_requested i t) \<Longrightarrow> acts env now e P Q a (with_store (\<lambda>d. mark_stop_requested d now e i t) a)"
  by (rule acts_with_store) auto

lemma acts_stop_escalation:
  "P (Op_stop_escalation x) \<Longrightarrow> acts env now e P Q a (with_store (\<lambda>d. mark_stop_escalation d now e x) a)"
  by (rule acts_with_store) auto

lemma acts_cleanup_pending:
  "P Op_cleanup_pending \<Longrightarrow> acts env now e P Q a (with_store (\<lambda>d. mark_cleanup_pending d now e) a)"
  by (rule acts_with_store) auto

lemma acts_kill_attempt:
  "P (Op_kill_attempt t) \<Longrightarrow> acts env now e P Q a (with_store (\<lambda>d. mark_kill_attempt d now e t) a)"
  by (rule acts_with_store) auto

lemma acts_clear_kill:
  "P Op_clear_kill_pending \<Longrightarrow> acts env now e P Q a (with_store (\<lambda>d. clear_kill_pending d now e) a)"
  by (rule acts_with_store) auto

lemma acts_clear_terminal:
  "P Op_clear_terminal_pending \<Longrightarrow> acts env now e P Q a (with_store (\<lambda>d. clear_terminal_pending d now e) a)"
  by (rule acts_with_store) auto

lemma acts_log_capped:
  "P Op_log_capped \<Longrightarrow> acts env now e P Q a (with_store (\<lambda>d. mark_log_capped d now e) a)"
  by (rule acts_with_store) auto

lemma acts_delete: "P Op_delete \<Longrightarrow> acts env now e P Q a (with_store (\<lambda>d. delete_state d e) a)"
  by (rule acts_with_store) auto

lemmas acts_stores = acts_mark_done acts_mark_stats acts_stop_requested acts_stop_escalation
  acts_cleanup_pending acts_kill_attempt acts_clear_kill acts_clear_terminal acts_log_capped acts_delete

section \<open>What follows from the effects\<close>

text \<open>A file outlives any operations but a deletion; files of other executions are untouched.\<close>

lemma run_store_op_file:
  "op \<noteq> Op_delete \<Longrightarrow> op \<noteq> Op_delete_if_due \<Longrightarrow> map_of d e \<noteq> None \<Longrightarrow> map_of (run_store_op op now e d) e \<noteq> None"
  by (cases op) (auto simp: store_updates update_state_def write_state_def create_reserved_def put_file_def
      Let_def update_conv split: option.splits)

lemma fold_ops_invariant:
  assumes "list_all P ops" and "\<And>op d. P op \<Longrightarrow> R d \<Longrightarrow> R (run_store_op op now e d)" and "R d"
  shows "R (fold (\<lambda>op. run_store_op op now e) ops d)"
  using assms(1,3) by (induction ops arbitrary: d) (auto intro: assms(2))

lemma runs_ops_invariant:
  assumes "runs_ops P now e d d'" and "\<And>op d. P op \<Longrightarrow> R d \<Longrightarrow> R (run_store_op op now e d)" and "R d"
  shows "R d'"
  using assms(1) unfolding runs_ops_def
  by (elim exE conjE) (simp add: fold_ops_invariant [of P, OF _ assms(2,3)])

lemma acts_invariant:
  assumes "acts env now e P Q a b" and "\<And>op d. P op \<Longrightarrow> R d \<Longrightarrow> R (run_store_op op now e d)"
    and "R (ag_store a)"
  shows "R (ag_store b)"
  using assms(1) runs_ops_invariant [OF _ assms(2,3)] unfolding acts_def by blast

lemma acts_well_keyed: "acts env now e P Q a b \<Longrightarrow> well_keyed (ag_store a) \<Longrightarrow> well_keyed (ag_store b)"
  by (erule acts_invariant) (auto intro: store_op_invariant)

lemma run_store_op_other:
  assumes "well_keyed d" and "e' \<noteq> e"
  shows "read_state (run_store_op op now e d) e' = read_state d e'"
    and "map_of (run_store_op op now e d) e' = map_of d e'"
proof -
  show "read_state (run_store_op op now e d) e' = read_state d e'"
    using assms by (cases op; cases "read_state d e")
      (auto simp: store_updates write_state_def create_reserved_def Let_def row_simps)
  show "map_of (run_store_op op now e d) e' = map_of d e'"
    using assms by (cases op; cases "read_state d e")
      (auto simp: store_updates update_state_def write_state_def create_reserved_def put_file_def
        delete_state_def Let_def update_conv delete_conv' dest!: well_keyed_read)
qed

lemma acts_other:
  assumes "acts env now e P Q a b" and "well_keyed (ag_store a)" and "e' \<noteq> e"
  shows "read_state (ag_store b) e' = read_state (ag_store a) e'"
    and "map_of (ag_store b) e' = map_of (ag_store a) e'"
proof -
  have "well_keyed (ag_store b) \<and> read_state (ag_store b) e' = read_state (ag_store a) e'
      \<and> map_of (ag_store b) e' = map_of (ag_store a) e'"
    using assms(1)
    by (rule acts_invariant) (use assms(2,3) in \<open>auto simp: run_store_op_other store_op_invariant\<close>)
  then show "read_state (ag_store b) e' = read_state (ag_store a) e'"
    and "map_of (ag_store b) e' = map_of (ag_store a) e'" by auto
qed

section \<open>Effects of the operations\<close>

lemma client_world [simp]:
  "fst (client_post env w p d) = fst (http_post env w p d)"
  "fst (client_get env w p d) = fst (http_get env w p d)"
  "fst (client_listjobs env w q) = fst (http_get env w ''/listjobs.json'' [(''project'', JStr q)])"
  "fst (resolve_status env fs w st) = fst (http_get env w ''/listjobs.json'' [(''project'', JStr (as_project st))])"
  by (simp_all add: client_post_def client_get_def client_listjobs_def resolve_status_def)

lemma calls_get: "Q (Call_get p) \<Longrightarrow> http_get env w p d = (w', r) \<Longrightarrow> calls env Q w w'"
  by (metis calls_one(3) fst_conv)

lemma calls_status:
  "Q (Call_get ''/listjobs.json'') \<Longrightarrow> calls env Q w (fst (runner_status env fs d w e))"
  by (auto simp: runner_status_def calls_one split: option.split)

lemma calls_alive:
  "Q (Call_get ''/listjobs.json'') \<Longrightarrow> calls env Q w (fst (is_job_alive env d w e))"
proof (cases "read_state d e")
  case None
  then show ?thesis by (simp add: is_job_alive_def)
next
  case (Some st)
  assume q: "Q (Call_get ''/listjobs.json'')"
  obtain w' r where l: "client_listjobs env w (as_project st) = (w', r)" by force
  from q have "calls env Q w (fst (client_listjobs env w (as_project st)))"
    by (simp add: calls_one)
  with l Some show ?thesis
    by (simp add: is_job_alive_def split: sum.split)
qed

lemma acts_emit_event:
  "Q (Call_event ev) \<Longrightarrow> acts env now e P Q a (emit_event env cfg t ev a)"
proof -
  assume "Q (Call_event ev)"
  then have "calls env Q (ag_world a) (fst (xadd_event env (ag_world a) ev))" by (rule calls_one)
  then show ?thesis
    by (cases "xadd_event env (ag_world a) ev") (simp add: acts_def emit_event_def Let_def)
qed

lemma acts_emit_terminal:
  assumes "\<And>ev. ev_type ev = typ \<Longrightarrow> ev_execution_id ev = x \<Longrightarrow> Q (Call_event ev)"
  shows "acts env now e P Q a (emit_terminal env cfg t k x typ i a)"
  unfolding emit_terminal_def
  by (rule acts_same_left [OF acts_emit_event]) (auto simp: make_event_def intro: assms)

lemma acts_emit_running:
  assumes "\<And>ev. ev_type ev = Ev_running \<Longrightarrow> ev_execution_id ev = x \<Longrightarrow> Q (Call_event ev)"
  shows "acts env now e P Q a (emit_running env cfg t k x j a)"
  unfolding emit_running_def
  by (rule acts_same_left [OF acts_emit_event]) (auto simp: make_event_def intro: assms)

lemma acts_emit_accepted:
  assumes "\<And>ev. ev_type ev = Ev_accepted \<Longrightarrow> ev_execution_id ev = x \<Longrightarrow> Q (Call_event ev)"
  shows "acts env now e P Q a (emit_accepted env cfg t k x a)"
  unfolding emit_accepted_def
  by (rule acts_same_left [OF acts_emit_event]) (auto simp: make_event_def intro: assms)

lemma acts_heartbeat:
  assumes "\<And>ev. ev_type ev = Ev_heartbeat \<Longrightarrow> ev_execution_id ev = x \<Longrightarrow> Q (Call_event ev)"
  shows "acts env now e P Q a (maybe_emit_heartbeat env cfg clock k x b a)"
proof -
  let ?ev = "make_event (agent_config.truncate cfg) (ag_uuid a) k x Ev_heartbeat (no_info\<lparr>ei_log_bytes := b\<rparr>)"
  have "calls env Q (ag_world a) (fst (xadd_event env (ag_world a) ?ev))"
    by (rule calls_one) (rule assms, simp_all add: make_event_def)
  then show ?thesis
    by (cases "xadd_event env (ag_world a) ?ev")
       (simp add: maybe_emit_heartbeat_def emit_heartbeat_def acts_def Let_def split: option.split)
qed

lemma acts_republish:
  assumes "\<And>ev. ev_execution_id ev = x \<Longrightarrow> Q (Call_event ev)" and "Q (Call_get ''/listjobs.json'')"
  shows "acts env now e P Q a (republish_current env cfg t k x a)"
proof -
  have live: "acts env now e P Q a (let b = a\<lparr>ag_world := w\<rparr> in case status_to_terminal status of
        Some y \<Rightarrow> emit_terminal env cfg t k x y no_info b
      | None \<Rightarrow> emit_running env cfg t k x j b)"
    if "runner_status env (ag_files a) (ag_store a) (ag_world a) x = (w, status)" for w status j
  proof -
    have "calls env Q (ag_world a) w"
      using calls_status [of Q env, OF assms(2)] that by (metis fst_conv)
    then have "acts env now e P Q a (a\<lparr>ag_world := w\<rparr>)" by (rule acts_world)
    then show ?thesis
      unfolding Let_def
      by (rule acts_trans) (auto intro: acts_emit_terminal acts_emit_running assms(1) split: option.split)
  qed
  show ?thesis
    unfolding republish_current_def
    using assms(1)
    by (auto intro: acts_emit_terminal acts_emit_running live split: option.split prod.split)
qed

lemma acts_call_stop:
  assumes "P Op_mark_canceled" and "\<And>d. Q (Call_post ''/cancel.json'' d)" and "Q (Call_get ''/listjobs.json'')"
  shows "acts env now e P Q a (fst (call_stop env now e sig a))"
proof (cases "read_state (ag_store a) e")
  case None
  then show ?thesis by (simp add: call_stop_def runner_stop_def acts_same)
next
  case (Some st)
  obtain w r where c: "client_cancel env (ag_world a) (as_project st) (as_scrapyd_job_id st) sig = (w, r)"
    by force
  have w: "calls env Q (ag_world a) w"
    using calls_one(2) [of Q "''/cancel.json''", OF assms(2)] c client_world(1)
    by (metis client_cancel_def fst_conv)
  obtain w2 s2 where rs: "resolve_status env (ag_files a) w st = (w2, s2)" by force
  have w2: "w2 = fst (http_get env w ''/listjobs.json'' [(''project'', JStr (as_project st))])"
    using rs client_world(4) [of env "ag_files a" w st] by simp
  have w': "calls env Q (ag_world a) w2"
    unfolding w2 by (rule calls_trans [OF w]) (simp add: calls_one assms)
  show ?thesis
    using w w' assms(1) Some c rs runs_ops_one [of P Op_mark_canceled now e "ag_store a"]
    by (auto simp: call_stop_def runner_stop_def acts_def Let_def split: sum.splits prod.splits)
qed

lemma acts_cleanup:
  "P Op_delete \<Longrightarrow> acts env now e P Q a (do_cleanup e a)"
proof -
  assume p: "P Op_delete"
  show ?thesis
    unfolding do_cleanup_def Let_def
    by (rule acts_same_right [OF acts_same_left [OF acts_delete [where P = P, OF p]]])
       (auto simp: release_execution_def drop_heartbeat_def with_store_def split: option.split)
qed

lemma deferred_cleanup_store:
  "ag_store (run_deferred_cleanup e a) = run_store_op Op_delete_if_due now e (ag_store a)"
  "ag_world (run_deferred_cleanup e a) = ag_world a"
  by (auto simp: run_deferred_cleanup_def do_cleanup_def release_execution_def drop_heartbeat_def
      with_store_def cleanup_due_def Let_def split: option.split)

lemma acts_deferred_cleanup:
  assumes "P Op_delete_if_due" shows "acts env now e P Q a (run_deferred_cleanup e a)"
  using acts_store [of P Op_delete_if_due env now e Q a, OF assms]
  by (simp add: acts_def deferred_cleanup_store(1) [where now = now] deferred_cleanup_store(2))

lemma emit_store [simp]:
  "ag_store (emit_terminal env cfg t k x typ i a) = ag_store a"
  "ag_store (emit_running env cfg t k x j a) = ag_store a"
  "ag_store (emit_accepted env cfg t k x a) = ag_store a"
  by (simp_all add: emit_terminal_def emit_running_def emit_accepted_def emit_event_def Let_def
      split: prod.split)

lemma acts_send_signal:
  assumes "P Op_mark_canceled" and "P (Op_stop_escalation esc)"
    and "\<And>d. Q (Call_post ''/cancel.json'' d)" and "Q (Call_get ''/listjobs.json'')"
  shows "acts env now e P Q a (fst (send_stop_signal env now e sig esc a))"
proof (cases "call_stop env now e sig a")
  case (Pair b resp)
  have "acts env now e P Q a b"
    using acts_call_stop [of P Q env now e a sig, OF assms(1,3,4)] Pair by simp
  moreover have "acts env now e P Q b (with_store (\<lambda>d. mark_stop_escalation d now e esc) b)"
    by (rule acts_stop_escalation) (rule assms)
  ultimately show ?thesis
    using Pair by (auto simp: send_stop_signal_def intro: acts_trans)
qed

lemma acts_begin_stop:
  assumes "as_execution_id st = e" and "P (Op_stop_requested i (Iso now))"
    and "P Op_mark_canceled" and "P (Op_stop_escalation ''term'')"
    and "\<And>d. Q (Call_post ''/cancel.json'' d)" and "Q (Call_get ''/listjobs.json'')"
  shows "acts env now e P Q a (begin_stop env now st i a)"
proof -
  let ?b = "drop_heartbeat e (with_store (\<lambda>d. mark_stop_requested d now e i (Iso now)) a)"
  have "acts env now e P Q a ?b"
    by (rule acts_same_right [OF acts_stop_requested [where P = P, OF assms(2)]]) (simp_all add: drop_heartbeat_def)
  moreover have "acts env now e P Q ?b (fst (send_stop_signal env now e None ''term'' ?b))"
    by (rule acts_send_signal) (rule assms)+
  ultimately show ?thesis
    using assms(1) by (auto simp: begin_stop_def Let_def intro: acts_trans)
qed

lemma acts_finalize:
  assumes "as_execution_id st = e" and "\<And>m. P (Op_mark_done m)" and "P Op_clear_terminal_pending"
    and "c \<Longrightarrow> P Op_delete_if_due"
    and "\<And>ev. as_stop_intent st \<noteq> Some Intent_reclaim \<Longrightarrow> ev_type ev = Ev_canceled
      \<Longrightarrow> ev_execution_id ev = e \<Longrightarrow> Q (Call_event ev)"
  shows "acts env now e P Q a (finalize_stop env cfg now st c a)"
proof -
  let ?lost = "with_store (\<lambda>d. mark_done d now e ((terminal_mark ''lost'')
      \<lparr>tm_kill_pending := Some (\<not> c), tm_terminal_pending := Some False\<rparr>)) a"
  let ?can = "with_store (\<lambda>d. mark_done d now e ((terminal_mark ''canceled'')
      \<lparr>tm_kill_pending := Some (\<not> c), tm_terminal_pending := Some True\<rparr>)) a"
  let ?sent = "emit_terminal env (agent_config.truncate cfg) now (as_task_id st) e Ev_canceled no_info ?can"
  let ?b = "if as_stop_intent st = Some Intent_reclaim then ?lost
    else with_store (\<lambda>d. clear_terminal_pending d now e) ?sent"
  have "acts env now e P Q a (with_store (\<lambda>d. clear_terminal_pending d now e) ?sent)"
    if "as_stop_intent st \<noteq> Some Intent_reclaim"
    by (rule acts_trans [OF acts_mark_done acts_trans [OF acts_emit_terminal acts_clear_terminal]])
       (use that assms in auto)
  then have "acts env now e P Q a ?b"
    using assms(2) by (auto intro: acts_mark_done)
  moreover have "acts env now e P Q ?b (if c then run_deferred_cleanup e ?b else ?b)"
    using assms(4) by (auto intro: acts_deferred_cleanup)
  ultimately have "acts env now e P Q a (if c then run_deferred_cleanup e ?b else ?b)"
    by (rule acts_trans)
  then show ?thesis
    using assms(1) unfolding finalize_stop_def Let_def
    by (cases c; cases "as_stop_intent st = Some Intent_reclaim") simp_all
qed

lemma acts_alive:
  assumes "Q (Call_get ''/listjobs.json'')" and "is_job_alive env (ag_store a) (ag_world a) x = (w, r)"
  shows "acts env now e P Q a (a\<lparr>ag_world := w\<rparr>)"
  using calls_alive [of Q env "ag_world a" "ag_store a" x, OF assms(1)] assms(2)
  by (simp add: acts_world)

lemma acts_stop_watchdog:
  fixes a :: "('w, 'y) consumer_scheme"
  assumes "as_execution_id st = e" and "\<And>m. P (Op_mark_done m)" and "P Op_clear_terminal_pending"
    and "P Op_delete_if_due" and "P Op_mark_canceled" and "\<And>x. P (Op_stop_escalation x)"
    and "\<And>ev. as_stop_intent st \<noteq> Some Intent_reclaim \<Longrightarrow> ev_type ev = Ev_canceled
      \<Longrightarrow> ev_execution_id ev = e \<Longrightarrow> Q (Call_event ev)"
    and "\<And>d. Q (Call_post ''/cancel.json'' d)" and "Q (Call_get ''/listjobs.json'')"
  shows "acts env now e P Q a (stop_watchdog env cfg now st a)"
proof -
  obtain w r where al: "is_job_alive env (ag_store a) (ag_world a) e = (w, r)" by force
  have b: "acts env now e P Q a (a\<lparr>ag_world := w\<rparr>)"
    by (rule acts_alive [where Q = Q, OF assms(9) al])
  have fin: "acts env now e P Q b (finalize_stop env cfg now st c b)" for b :: "('w, 'y) consumer_scheme" and c
    by (rule acts_finalize) (use assms in auto)
  have sig: "acts env now e P Q b (fst (send_stop_signal env now e sig esc b))"
    for b :: "('w, 'y) consumer_scheme" and sig esc
    by (rule acts_send_signal) (use assms in auto)
  show ?thesis
    using al assms(1) b fin acts_trans [OF b fin] acts_trans [OF b sig]
    by (auto simp: stop_watchdog_def Let_def split: option.split bool.split)
qed

lemma acts_deliver_pending:
  assumes "as_execution_id st = e" and "P Op_clear_terminal_pending"
    and "\<And>ev. as_terminal_pending st \<Longrightarrow> ev_execution_id ev = e \<Longrightarrow> Q (Call_event ev)"
    and "Q (Call_get ''/listjobs.json'')"
  shows "acts env now e P Q a (fst (deliver_pending env cfg now st a))"
proof (cases "as_terminal_pending st")
  case True
  have "acts env now e P Q a (with_store (\<lambda>d. clear_terminal_pending d now e)
      (republish_current env (agent_config.truncate cfg) now (as_task_id st) e a))"
    by (rule acts_trans [OF acts_republish acts_clear_terminal]) (use assms True in auto)
  with True assms(1) show ?thesis by (simp add: deliver_pending_def Let_def)
qed (simp add: deliver_pending_def)

lemma acts_chase_process:
  fixes a :: "('w, 'y) consumer_scheme"
  assumes "as_execution_id st = e" and "P Op_clear_kill_pending" and "P Op_delete_if_due"
    and "P Op_mark_canceled" and "P (Op_stop_escalation ''kill'')" and "P (Op_kill_attempt (Iso now))"
    and "\<And>d. Q (Call_post ''/cancel.json'' d)" and "Q (Call_get ''/listjobs.json'')"
  shows "acts env now e P Q a (chase_process env cfg now st a)"
proof -
  obtain w r where al: "is_job_alive env (ag_store a) (ag_world a) e = (w, r)" by force
  let ?b = "a\<lparr>ag_world := w\<rparr>"
  have b: "acts env now e P Q a ?b"
    by (rule acts_alive [where Q = Q, OF assms(8) al])
  have "acts env now e P Q ?b (with_store (\<lambda>d. mark_kill_attempt d now e (Iso now))
      (fst (send_stop_signal env now e (Some ''KILL'') ''kill'' ?b)))"
    by (rule acts_trans [OF acts_send_signal acts_kill_attempt]) (use assms in auto)
  moreover have "acts env now e P Q ?b
      (run_deferred_cleanup e (with_store (\<lambda>d. clear_kill_pending d now e) ?b))"
    by (rule acts_trans [OF acts_clear_kill acts_deferred_cleanup]) (use assms in auto)
  ultimately show ?thesis
    using al assms(1) b acts_trans [OF b] by (simp add: chase_process_def)
qed

lemma acts_reclaim_watchdog:
  fixes a :: "('w, 'y) consumer_scheme"
  assumes "as_execution_id st = e" and "P Op_clear_terminal_pending" and "P Op_clear_kill_pending"
    and "P Op_delete_if_due" and "P Op_mark_canceled" and "\<And>x. P (Op_stop_escalation x)" and "P (Op_kill_attempt (Iso now))"
    and "\<And>ev. as_terminal_pending st \<Longrightarrow> ev_execution_id ev = e \<Longrightarrow> Q (Call_event ev)"
    and "\<And>d. Q (Call_post ''/cancel.json'' d)" and "Q (Call_get ''/listjobs.json'')"
    and "well_keyed (ag_store a)"
  shows "acts env now e P Q a (reclaim_watchdog env cfg now st a)"
proof -
  obtain b st' where d: "deliver_pending env cfg now st a = (b, st')" by force
  have b: "acts env now e P Q a b"
    using acts_deliver_pending [of st e P Q env now a cfg] assms d by simp
  have "well_keyed (ag_store b)"
    using acts_well_keyed [OF b] assms(11) .
  then have st': "as_execution_id st' = e"
    using d assms(1) well_keyed_read [of "ag_store b" e]
    by (auto simp: deliver_pending_def Let_def or_default_def split: if_splits option.splits)
  have "acts env now e P Q b (chase_process env cfg now st' b)"
    by (rule acts_chase_process) (use assms st' in auto)
  moreover have "acts env now e P Q b (run_deferred_cleanup e b)"
    by (rule acts_deferred_cleanup) (rule assms)
  ultimately show ?thesis
    using b d st' acts_trans [OF b] by (simp add: reclaim_watchdog_def)
qed

lemma mark_flood_id:
  "as_execution_id st = e \<Longrightarrow> as_execution_id (snd (mark_flood now st n t x a)) = e \<or> \<not> well_keyed (ag_store a)"
  using well_keyed_read [of "ag_store a" e]
  by (auto simp: mark_flood_def mark_log_flood_def update_state_eq touched_def or_default_def
      split: option.split prod.split)

lemma acts_mark_flood:
  assumes "as_execution_id st = e" and "P (Op_log_flood n t x)"
  shows "acts env now e P Q a (fst (mark_flood now st n t x a))"
  using acts_store [of P "Op_log_flood n t x" env now e Q a, OF assms(2)] assms(1)
  by (cases "mark_log_flood (ag_store a) now e n t x") (simp add: mark_flood_def acts_def)

lemma acts_truncate: "acts env now e P Q a (truncate_now cfg l a)"
  by (rule acts_same) (simp_all add: truncate_now_def)

lemma acts_flood_cancel:
  assumes "as_execution_id st = e" and "P Op_mark_canceled"
    and "\<And>d. Q (Call_post ''/cancel.json'' d)" and "Q (Call_get ''/listjobs.json'')"
  shows "acts env now e P Q a (flood_cancel env now st sig a)"
  using acts_call_stop [of P Q env now e a sig] assms by (simp add: flood_cancel_def)

lemma acts_pid_kill:
  assumes "\<And>i. Q (Call_kill i)"
  shows "acts env now e P Q a (fst (flood_pid_kill env st a))"
proof -
  have "calls env Q w (fst (os_kill env w i))" for w i
    by (rule calls_one) (rule assms)
  then have "os_kill env w i = (w', ok) \<Longrightarrow> calls env Q w w'" for w i w' ok
    by (metis fst_conv)
  then show ?thesis
    by (auto simp: flood_pid_kill_def acts_def split: option.split list.split prod.split)
qed

lemma acts_flood_escalate:
  fixes a :: "('w, 'y) agent_scheme"
  assumes "as_execution_id st = e" and "well_keyed (ag_store a)"
    and "P Op_mark_canceled" and "\<And>n t x. P (Op_log_flood n t x)" and "\<And>i. Q (Call_kill i)"
    and "\<And>d. Q (Call_post ''/cancel.json'' d)" and "Q (Call_get ''/listjobs.json'')"
  shows "acts env now e P Q a (fst (flood_escalate env cfg now st n a))
    \<and> as_execution_id (snd (flood_escalate env cfg now st n a)) = e"
proof -
  note mf = acts_mark_flood [where P = P and Q = Q and env = env and now = now]
  define asked where "asked = or_default (if stamp_given (as_log_flood_requested_at st)
      then as_log_flood_requested_at st else None) (Iso now)"
  define b where "b = truncate_now cfg (as_log_path st) a"
  have b: "acts env now e P Q a b" unfolding b_def by (rule acts_truncate)
  have wb: "well_keyed (ag_store b)" using acts_well_keyed [OF b assms(2)] .
  define r where "r = (if n > as_log_flood_bytes st then mark_flood now st n asked None b else (b, st))"
  obtain c st1 where c: "r = (c, st1)" by force
  have ac: "acts env now e P Q a c" and wk: "well_keyed (ag_store c)" and id1: "as_execution_id st1 = e"
  proof -
    have bc: "acts env now e P Q b c"
      using c assms(1,4) mf [of st e n asked None b] by (auto simp: r_def split: if_splits)
    show "acts env now e P Q a c" by (rule acts_trans [OF b bc])
    show "well_keyed (ag_store c)" by (rule acts_well_keyed [OF bc wb])
    show "as_execution_id st1 = e"
      using c assms(1) wb mark_flood_id [of st e now n asked None b] by (auto simp: r_def split: if_splits)
  qed
  have can: "acts env now e P Q c' (flood_cancel env now st2 sig c')" if "as_execution_id st2 = e"
    for c' :: "('w, 'y) agent_scheme" and st2 sig
    by (rule acts_flood_cancel) (use that assms in auto)
  have kill: "acts env now e P Q c (fst (flood_pid_kill env st1 c))"
    by (rule acts_pid_kill) (rule assms)
  have wk': "well_keyed (ag_store (fst (flood_pid_kill env st1 c)))"
    by (rule acts_well_keyed [OF kill wk])
  have mf': "acts env now e P Q c' (fst (mark_flood now st1 m t x c'))
      \<and> (well_keyed (ag_store c') \<longrightarrow> as_execution_id (snd (mark_flood now st1 m t x c')) = e)"
    for c' :: "('w, 'y) agent_scheme" and m t x
    using mf [of st1 e m t x c'] mark_flood_id [of st1 e now m t x c'] id1 assms(4) by auto
  define el where "el = flood_elapsed now st1"
  define req where "req = or_default (as_log_flood_requested_at st1) (Text [])"
  define k where "k = (if as_log_flood_escalation st1 \<noteq> Some ''pidkill'' then flood_pid_kill env st1 c else (c, False))"
  define m where "m = (if as_log_flood_escalation st1 \<noteq> Some ''kill''
    then mark_flood now st1 n req (Some ''kill'') c else (c, st1))"
  have k: "acts env now e P Q a (fst k)" "well_keyed (ag_store (fst k))"
    using acts_trans [OF ac kill] wk' ac wk by (simp_all add: k_def)
  have m: "acts env now e P Q a (fst m)" "as_execution_id (snd m) = e"
    using acts_trans [OF ac] mf' wk ac id1 by (simp_all add: m_def)
  have eq: "flood_escalate env cfg now st n a =
    (if el \<ge> secs (2 * ac_flood_kill_after cfg) then
       (if snd k then mark_flood now st1 n req (Some ''pidkill'') (fst k)
        else (flood_cancel env now st1 (Some ''KILL'') (fst k), st1))
     else if el \<ge> secs (ac_flood_kill_after cfg) then
       (flood_cancel env now (snd m) (Some ''KILL'') (fst m), snd m)
     else (flood_cancel env now st1 None c, st1))"
    unfolding flood_escalate_def Let_def b_def [symmetric] asked_def [symmetric] r_def [symmetric] c
    by (simp only: case_prod_beta fst_conv snd_conv el_def [symmetric] req_def [symmetric]
        k_def [symmetric] m_def [symmetric] split: if_split)
  show ?thesis
    unfolding eq
    using acts_trans [OF k(1)] acts_trans [OF m(1)] acts_trans [OF ac] can mf' k m id1 by auto
qed

lemma acts_flood_watchdog:
  fixes a :: "('w, 'y) agent_scheme"
  assumes "as_execution_id st = e" and "well_keyed (ag_store a)"
    and "P Op_mark_canceled" and "\<And>n t x. P (Op_log_flood n t x)" and "\<And>i. Q (Call_kill i)"
    and "\<And>d. Q (Call_post ''/cancel.json'' d)" and "Q (Call_get ''/listjobs.json'')"
  shows "acts env now e P Q a (fst (flood_watchdog env cfg now st sz a))
    \<and> as_execution_id (or_default (snd (flood_watchdog env cfg now st sz a)) st) = e"
proof -
  have first: "acts env now e P Q a (flood_cancel env now st' None (truncate_now cfg l b))
      \<and> as_execution_id st' = e"
    if "mark_flood now st n (Iso now) (Some ''term'') a = (b, st')" for n b st' l
  proof -
    have b: "acts env now e P Q a b"
      using acts_mark_flood [of st e P n "Iso now" "Some ''term''" env now Q a] assms(1,4) that by simp
    have id: "as_execution_id st' = e"
      using mark_flood_id [of st e now n "Iso now" "Some ''term''" a] assms(1,2) that by simp
    have "acts env now e P Q (truncate_now cfg l b) (flood_cancel env now st' None (truncate_now cfg l b))"
      by (rule acts_flood_cancel) (use id assms in auto)
    with b id show ?thesis by (blast intro: acts_trans acts_truncate)
  qed
  have more: "acts env now e P Q a b \<and> as_execution_id st' = e"
    if "flood_escalate env cfg now st n a = (b, st')" for n b st'
    using acts_flood_escalate [where P = P and Q = Q and env = env and now = now and cfg = cfg and n = n, OF assms]
      that by simp
  show ?thesis
    using first more assms(1)
    by (auto simp: flood_watchdog_def Let_def split: option.split prod.split)
qed

lemma acts_finish:
  assumes "as_execution_id st = e" and "\<And>x f b c. P (Op_stats x f b c)" and "\<And>m. P (Op_mark_done m)"
    and "\<And>ev. ev_execution_id ev = e \<Longrightarrow> ev_type ev = typ \<or> as_log_flood st \<and> ev_type ev = Ev_failed
      \<Longrightarrow> Q (Call_event ev)"
  shows "acts env now e P Q a (finish_scrapy_attempt env cfg now st typ x a)"
proof -
  let ?stats = "parse_scrapy_stats (read_log_tail (ag_files a) (as_log_path st))"
  define bytes where "bytes = (if as_log_flood st
    then Some (max (or_default (log_size (ag_files a) (as_log_path st)) 0) (as_log_flood_bytes st))
    else log_size (ag_files a) (as_log_path st))"
  define b where "b = with_store (\<lambda>d. mark_stats d now e (ss_error_count ?stats) (ss_finish_reason ?stats)
      bytes (ss_outcome_class ?stats)) a"
  have b: "acts env now e P Q a b"
    unfolding b_def by (rule acts_mark_stats) (rule assms)
  define c where "c = (if as_log_flood st then truncate_now cfg (as_log_path st) b else b)"
  have c: "acts env now e P Q a c"
    using b acts_trans [OF b acts_truncate] by (auto simp: c_def)
  have "acts env now e P Q c (emit_terminal env cf t k e ty i (with_store (\<lambda>d. mark_done d now e m) c))"
    if "ty = typ \<or> as_log_flood st \<and> ty = Ev_failed" for cf t k ty i m
    by (rule acts_trans [OF acts_mark_done acts_emit_terminal]) (use that assms in auto)
  note fin = acts_trans [OF c this]
  show ?thesis
    unfolding finish_scrapy_attempt_def Let_def assms(1) bytes_def [symmetric] b_def [symmetric]
    using fin by (cases "as_log_flood st") (auto simp: c_def)
qed

definition tick_op :: "store_op \<Rightarrow> bool" where
  \<comment> \<open>what a tick may do to a state file\<close>
  "tick_op op \<longleftrightarrow> (case op of Op_mark_done m \<Rightarrow> True | Op_stats x f b c \<Rightarrow> True
     | Op_stop_escalation x \<Rightarrow> True | Op_clear_kill_pending \<Rightarrow> True | Op_clear_terminal_pending \<Rightarrow> True
     | Op_kill_attempt t \<Rightarrow> True | Op_mark_canceled \<Rightarrow> True | Op_log_flood n t x \<Rightarrow> True
     | Op_delete_if_due \<Rightarrow> True | _ \<Rightarrow> False)"

definition start_call :: "world_call \<Rightarrow> bool" where
  \<comment> \<open>a call that starts a process of the user\<close>
  "start_call c \<longleftrightarrow> (case c of Call_post p d \<Rightarrow> p = ''/schedule.json'' | Call_spawn x \<Rightarrow> True | _ \<Rightarrow> False)"

lemma tick_op_simps [simp]:
  "tick_op (Op_mark_done m)" "tick_op (Op_stats x f b c)" "tick_op (Op_stop_escalation s)"
  "tick_op Op_clear_kill_pending" "tick_op Op_clear_terminal_pending" "tick_op (Op_kill_attempt t)"
  "tick_op Op_mark_canceled" "tick_op (Op_log_flood n t z)" "tick_op Op_delete_if_due"
  "\<not> tick_op Op_delete" "\<not> tick_op (Op_write st)" "\<not> tick_op (Op_reserve st)"
  "\<not> tick_op (Op_promote_started j l)" "\<not> tick_op (Op_promote_started_wheel i g w y l)"
  "\<not> tick_op Op_cleanup_pending" "\<not> tick_op (Op_stop_requested k t)" "\<not> tick_op Op_log_capped"
  by (simp_all add: tick_op_def)

lemma start_call_simps [simp]:
  "\<not> start_call (Call_event ev)" "\<not> start_call (Call_post ''/cancel.json'' d)"
  "\<not> start_call (Call_post ''/addversion.json'' d)" "start_call (Call_post ''/schedule.json'' d)"
  "\<not> start_call (Call_get p)" "start_call (Call_spawn c)" "\<not> start_call (Call_killpg g s)"
  "\<not> start_call (Call_kill i)" "\<not> start_call (Call_fetch u)" "\<not> start_call (Call_pip n)"
  "\<not> start_call (Call_pgid p)" "\<not> start_call Call_pause" "\<not> start_call Call_sleep"
  by (simp_all add: start_call_def)

lemma acts_reconcile_scrapy:
  fixes a :: "('w, 'y) consumer_scheme"
  assumes "as_execution_id st = e" and "well_keyed (ag_store a)"
  shows "acts env now e tick_op (\<lambda>c. \<not> start_call c) a (reconcile_scrapy env cfg now clock st a)"
proof -
  let ?P = tick_op and ?Q = "\<lambda>c. \<not> start_call c"
  obtain b fl where f: "flood_watchdog env cfg now st (sample_log_size (ag_files a) st) a = (b, fl)" by force
  define st1 where "st1 = or_default fl st"
  have b: "acts env now e ?P ?Q a b" and id1: "as_execution_id st1 = e"
    using acts_flood_watchdog [of st e a ?P ?Q env now cfg "sample_log_size (ag_files a) st"] assms f
    by (simp_all add: st1_def)
  obtain w s where rs: "runner_status env (ag_files b) (ag_store b) (ag_world b) e = (w, s)" by force
  have "calls env ?Q (ag_world b) w"
    using calls_status [of ?Q env "ag_world b" "ag_files b" "ag_store b" e] rs by simp
  then have w: "acts env now e ?P ?Q a (b\<lparr>ag_world := w\<rparr>)"
    using acts_trans [OF b acts_world] by blast
  have hb: "acts env now e ?P ?Q c (maybe_emit_heartbeat env cfg clock k e n c)"
    for c :: "('w, 'y) consumer_scheme" and k n
    by (rule acts_heartbeat) simp
  have dh: "acts env now e ?P ?Q c (finish_scrapy_attempt env cfg now st1 ty None (drop_heartbeat e c))"
    for c :: "('w, 'y) consumer_scheme" and ty
    by (rule acts_same_left [OF acts_finish]) (use id1 in \<open>auto simp: drop_heartbeat_def\<close>)
  have sw: "acts env now e ?P ?Q b (stop_watchdog env cfg now st1 b)"
    by (rule acts_stop_watchdog) (use id1 in auto)
  show ?thesis
    unfolding reconcile_scrapy_def Let_def assms(1) f case_prod_conv st1_def [symmetric] rs
    using acts_trans [OF b sw] acts_trans [OF w hb] acts_trans [OF w dh] w
    by (auto split: option.split)
qed

lemma acts_reconcile_attempt:
  fixes a :: "('w, 'y) consumer_scheme"
  assumes "well_keyed (ag_store a)"
  shows "acts env now e tick_op (\<lambda>c. \<not> start_call c) a (reconcile_attempt env cfg now clock e a)"
proof (cases "read_state (ag_store a) e")
  case None
  then show ?thesis by (simp add: reconcile_attempt_def)
next
  case (Some st)
  have id: "as_execution_id st = e" using well_keyed_read [OF assms Some] .
  have "acts env now e tick_op (\<lambda>c. \<not> start_call c) a (reclaim_watchdog env cfg now st a)"
    by (rule acts_reclaim_watchdog) (use id assms in auto)
  moreover have "acts env now e tick_op (\<lambda>c. \<not> start_call c) a (reconcile_scrapy env cfg now clock st a)"
    using id assms by (rule acts_reconcile_scrapy)
  moreover have "acts env now e tick_op (\<lambda>c. \<not> start_call c) a
      (maybe_emit_heartbeat env cfg clock (as_task_id st) e None a)"
    by (rule acts_heartbeat) simp
  ultimately show ?thesis using Some by (simp add: reconcile_attempt_def)
qed

section \<open>Runs of many steps\<close>

inductive many :: "(string \<Rightarrow> store_op \<Rightarrow> bool) \<Rightarrow> state_dir \<Rightarrow> state_dir \<Rightarrow> bool" for P where
  many_refl: "many P d d"
| many_step: "runs_ops (P e) now e d d1 \<Longrightarrow> many P d1 d2 \<Longrightarrow> many P d d2"

lemma many_one: "runs_ops (P e) now e d d' \<Longrightarrow> many P d d'"
  by (rule many_step [OF _ many_refl])

lemma many_trans: "many P d d1 \<Longrightarrow> many P d1 d2 \<Longrightarrow> many P d d2"
  by (induction rule: many.induct) (auto intro: many.intros)

lemma acts_runs_ops: "acts env now e P Q a b \<Longrightarrow> runs_ops P now e (ag_store a) (ag_store b)"
  by (simp add: acts_def)

lemma acts_calls: "acts env now e P Q a b \<Longrightarrow> calls env Q (ag_world a) (ag_world b)"
  by (simp add: acts_def)

lemma runs_ops_well_keyed: "runs_ops P now e d d' \<Longrightarrow> well_keyed d \<Longrightarrow> well_keyed d'"
  by (erule runs_ops_invariant) (auto intro: store_op_invariant)

lemma runs_ops_other:
  assumes "runs_ops P now e d d'" and "well_keyed d" and "x \<noteq> e"
  shows "map_of d' x = map_of d x"
proof -
  have "well_keyed d' \<and> map_of d' x = map_of d x"
    using assms(1)
    by (rule runs_ops_invariant) (use assms(2,3) in \<open>auto simp: run_store_op_other store_op_invariant\<close>)
  then show ?thesis ..
qed

lemma many_well_keyed: "many P d d' \<Longrightarrow> well_keyed d \<Longrightarrow> well_keyed d'"
  by (induction rule: many.induct) (auto intro: runs_ops_well_keyed)

text \<open>An invariant of one file carries over a run when the operations allowed on that file keep it.\<close>

lemma many_file_invariant:
  assumes "many P d d'" and "well_keyed d" and "S (map_of d x)"
    and "\<And>now op d. P x op \<Longrightarrow> well_keyed d \<Longrightarrow> S (map_of d x) \<Longrightarrow> S (map_of (run_store_op op now x d) x)"
  shows "S (map_of d' x)"
  using assms(1-3)
proof (induction rule: many.induct)
  case (many_step e now d d1 d2)
  have "S (map_of d1 x)"
  proof (cases "e = x")
    case True
    have "well_keyed d1 \<and> S (map_of d1 x)"
      using many_step(1) unfolding True
      by (rule runs_ops_invariant) (use many_step(4,5) assms(4) store_op_invariant in auto)
    then show ?thesis ..
  next
    case False
    then show ?thesis using runs_ops_other [OF many_step(1,4), of x] many_step(5) by simp
  qed
  then show ?case using many_step runs_ops_well_keyed by blast
qed

lemma reconcile_effects:
  fixes a :: "('w, 'y) consumer_scheme"
  assumes "well_keyed (ag_store a)"
  shows "many (\<lambda>_. tick_op) (ag_store a) (ag_store (fold (reconcile_attempt env cfg now clock) ids a))
    \<and> calls env (\<lambda>c. \<not> start_call c) (ag_world a) (ag_world (fold (reconcile_attempt env cfg now clock) ids a))"
  using assms
proof (induction ids arbitrary: a)
  case Nil
  show ?case by (simp add: many_refl)
next
  case (Cons e ids)
  have step: "acts env now e tick_op (\<lambda>c. \<not> start_call c) a (reconcile_attempt env cfg now clock e a)"
    using Cons.prems by (rule acts_reconcile_attempt)
  show ?case
    using many_step [where P = "\<lambda>_. tick_op", OF acts_runs_ops [OF step]]
      calls_trans [OF acts_calls [OF step]] Cons.IH acts_well_keyed [OF step Cons.prems] by auto
qed

end
