(* ===== verification/AgentDaemon.thy ===== *)
theory AgentDaemon
  imports AgentEffects
begin

text \<open>
  The agent as a whole: every step its tasks take on the consumer state (commands, ticks, outbox
  replays, exits of wheel children, boot recovery), in any order, and what holds of all runs.
\<close>

section \<open>Effects of the handlers\<close>

lemma acts_reserve:
  assumes "P (Op_reserve st)" and "as_execution_id st = e" and "create_reserved (ag_store a) st = (d, r)"
  shows "acts env now e P Q a (a\<lparr>ag_store := d\<rparr>)"
proof -
  have "run_store_op (Op_reserve st) now e (ag_store a) = d"
    using assms(2,3) by auto
  with acts_store [of P "Op_reserve st" env now e Q a, OF assms(1)] show ?thesis by simp
qed

lemma reserve_existing: "map_of d (as_execution_id st) \<noteq> None \<Longrightarrow> create_reserved d st = (d, None)"
  by (simp add: create_reserved_def)

lemma calls_poll:
  "Q Call_sleep \<Longrightarrow> calls env Q w (poll_exit env pid n w)"
  by (induction n arbitrary: w) (auto intro: calls_trans calls_one)

lemma calls_terminate:
  assumes "Q Call_sleep" and "\<And>g s. Q (Call_killpg g s)"
  shows "calls env Q w (snd (wheel_terminate env wc (wr, w) e))"
proof -
  have k: "calls env Q v (fst (os_killpg env v g s))" for v g s
    by (rule calls_one) (rule assms)
  have p: "calls env Q v (poll_exit env i n v)" for v i n
    by (rule calls_poll) (rule assms)
  show ?thesis
    by (auto simp: wheel_terminate_def Let_def split: option.split intro: k p calls_trans [OF k]
        calls_trans [OF p] calls_trans [OF calls_trans [OF k p]]
        calls_trans [OF calls_trans [OF calls_trans [OF k p] k] p]
        calls_trans [OF calls_trans [OF k p] p] calls_trans [OF p p])
qed

lemma acts_terminate_wheel:
  assumes "Q Call_sleep" and "\<And>g s. Q (Call_killpg g s)"
  shows "acts env now e P Q a (terminate_wheel env cfg x a)"
  using calls_terminate [of Q env "ag_world a" "cc_wheel cfg" "cs_wheels a" x, OF assms]
  by (cases "wheel_terminate env (cc_wheel cfg) (cs_wheels a, ag_world a) x")
     (simp add: terminate_wheel_def acts_def)

lemma acts_fail_run:
  assumes "cmd_execution_id cmd = e" and "\<And>m. P (Op_mark_done m)"
    and "\<And>ev. ev_execution_id ev = e \<Longrightarrow> ev_type ev = Ev_failed \<Longrightarrow> Q (Call_event ev)"
  shows "acts env now e P Q a (fail_run env cfg now cmd code lost detail a)"
  unfolding fail_run_def assms(1)
  by (rule acts_trans [OF acts_mark_done acts_emit_terminal]) (use assms in auto)

lemma acts_republish_cmd:
  assumes "cmd_execution_id cmd = e" and "\<And>ev. ev_execution_id ev = e \<Longrightarrow> Q (Call_event ev)"
    and "Q (Call_get ''/listjobs.json'')"
  shows "acts env now e P Q a (republish env cfg now cmd a)"
  unfolding republish_def assms(1) by (rule acts_republish) (use assms in auto)

text \<open>A run of an execution that has a state file, readable or not, only publishes.\<close>

lemma handle_run_existing:
  assumes "map_of (ag_store a) (cmd_execution_id cmd) \<noteq> None"
  shows "handle_run env cfg now cmd a = republish env cfg now cmd a \<or> handle_run env cfg now cmd a = a"
proof (cases "read_state (ag_store a) (cmd_execution_id cmd)")
  case (Some st)
  then show ?thesis by (simp add: handle_run_def)
next
  case None
  have r: "create_reserved (ag_store a) st = (ag_store a, None)"
    if "as_execution_id st = cmd_execution_id cmd" for st
    using assms that by (simp add: reserve_existing)
  show ?thesis
    using None r [of "(new_attempt (cmd_task_id cmd) (cmd_execution_id cmd) now)
        \<lparr>as_runner_type := _, as_shell_command := _\<rparr>"]
      r [of "(new_attempt (cmd_task_id cmd) (cmd_execution_id cmd) now)
        \<lparr>as_project := _, as_spider := _, as_version := _\<rparr>"]
    by (auto simp: handle_run_def handle_run_wheel_def handle_run_scrapy_def Let_def new_attempt_def
        split: option.split)
qed

lemma acts_handle_run_existing:
  assumes "cmd_execution_id cmd = e" and "map_of (ag_store a) e \<noteq> None"
  shows "acts env now e P (\<lambda>c. \<not> start_call c) a (handle_run env cfg now cmd a)"
proof -
  have "acts env now e P (\<lambda>c. \<not> start_call c) a (republish env cfg now cmd a)"
    by (rule acts_republish_cmd) (use assms in auto)
  then show ?thesis using handle_run_existing [of a cmd env cfg now] assms by auto
qed

definition run_op :: "store_op \<Rightarrow> bool" where
  \<comment> \<open>what a run command may do to its state file\<close>
  "run_op op \<longleftrightarrow> (case op of Op_reserve st \<Rightarrow> True | Op_promote_started j l \<Rightarrow> True
     | Op_promote_started_wheel p g w i l \<Rightarrow> True | Op_mark_done m \<Rightarrow> True | _ \<Rightarrow> False)"

lemma run_op_simps [simp]:
  "run_op (Op_reserve st)" "run_op (Op_promote_started j l)" "run_op (Op_promote_started_wheel p g w i l)"
  "run_op (Op_mark_done m)"
  by (simp_all add: run_op_def)

lemma fail_run_store [simp]:
  "ag_store (fail_run env cfg now cmd code lost detail a) = run_store_op (Op_mark_done
     ((terminal_mark ''failed'')\<lparr>tm_error_code := Some code, tm_lost_reason := map_option lost_value lost\<rparr>))
     now (cmd_execution_id cmd) (ag_store a)"
  by (simp add: fail_run_def with_store_def)

lemma republish_store [simp]: "ag_store (republish env cfg now cmd a) = ag_store a"
proof -
  have "runs_ops (\<lambda>_. False) now (cmd_execution_id cmd) (ag_store a) (ag_store (republish env cfg now cmd a))"
    by (rule acts_runs_ops [OF acts_republish_cmd [where Q = "\<lambda>_. True" and env = env]]) auto
  then obtain ops where "list_all (\<lambda>_. False) ops"
    "ag_store (republish env cfg now cmd a) = fold (\<lambda>op. run_store_op op now (cmd_execution_id cmd)) ops (ag_store a)"
    unfolding runs_ops_def by blast
  then show ?thesis by (cases ops) auto
qed

lemma ops_then: "runs_ops P now e d d' \<Longrightarrow> P op \<Longrightarrow> runs_ops P now e d (run_store_op op now e d')"
  by (rule runs_ops_trans [OF _ runs_ops_one])

lemma ops_start_scrapy:
  assumes "cmd_execution_id cmd = e"
  shows "runs_ops run_op now e (ag_store a) (ag_store (start_scrapy env cfg now cmd req a))"
proof -
  have p: "runs_ops run_op now e d (fst (promote_started d now e j l))" for d j l
    using runs_ops_one [of run_op "Op_promote_started j l" now e d] by simp
  have f: "runs_ops run_op now e d (run_store_op (Op_mark_done m) now e d')" if "runs_ops run_op now e d d'" for d d' m
    using ops_then [OF that, of "Op_mark_done m"] by simp
  show ?thesis
    using assms p f [OF p] f [OF runs_ops_refl]
    by (auto simp: start_scrapy_def Let_def case_prod_beta simp del: run_store_op.simps split: sum.split)
qed

lemma ops_start_wheel:
  assumes "cmd_execution_id cmd = e"
  shows "runs_ops run_op now e (ag_store a) (ag_store (start_wheel env cfg now cmd sh ip wd extra ctx a))"
proof -
  have p: "runs_ops run_op now e d (fst (promote_started_wheel d now e i g w y l))" for d i g w y l
    using runs_ops_one [of run_op "Op_promote_started_wheel i g w y l" now e d] by simp
  have f: "runs_ops run_op now e d (run_store_op (Op_mark_done m) now e d')" if "runs_ops run_op now e d d'" for d d' m
    using ops_then [OF that, of "Op_mark_done m"] by simp
  show ?thesis
    using assms p f [OF p] f [OF runs_ops_refl]
    by (auto simp: start_wheel_def Let_def case_prod_beta simp del: run_store_op.simps split: sum.split)
qed

lemma ops_reserve:
  assumes "as_execution_id st = e"
  shows "runs_ops run_op now e d (fst (create_reserved d st))"
proof -
  have "run_store_op (Op_reserve st) now e d = fst (create_reserved d st)"
    using assms by (cases st) auto
  with runs_ops_one [of run_op "Op_reserve st" now e d] show ?thesis by simp
qed

lemma ops_handle_run:
  fixes a :: "('w, 'y) daemon_scheme"
  assumes "cmd_execution_id cmd = e"
  shows "runs_ops run_op now e (ag_store a) (ag_store (handle_run env cfg now cmd a))"
proof -
  have f: "runs_ops run_op now e d (run_store_op (Op_mark_done m) now e d')" if "runs_ops run_op now e d d'" for d d' m
    using ops_then [OF that, of "Op_mark_done m"] by simp
  have s: "runs_ops run_op now e (ag_store a) (ag_store (start_scrapy env cfg now cmd req b))"
    if "runs_ops run_op now e (ag_store a) (ag_store b)" for b :: "('w, 'y) daemon_scheme" and req
    by (rule runs_ops_trans [OF that ops_start_scrapy [OF assms]])
  have w: "runs_ops run_op now e (ag_store a) (ag_store (start_wheel env cfg now cmd sh ip wd extra ctx b))"
    if "runs_ops run_op now e (ag_store a) (ag_store b)"
    for b :: "('w, 'y) daemon_scheme" and sh ip wd extra ctx
    by (rule runs_ops_trans [OF that ops_start_wheel [OF assms]])
  have r: "runs_ops run_op now e (ag_store a) (fst (create_reserved (ag_store a) st))"
    if "as_execution_id st = e" for st
    using that by (rule ops_reserve)
  have r1: "runs_ops run_op now e (ag_store a) (fst (create_reserved (ag_store a)
      ((new_attempt (cmd_task_id cmd) e now)\<lparr>as_project := p, as_spider := sp, as_version := v\<rparr>)))" for p sp v
    by (rule r) (simp add: new_attempt_def)
  have r2: "runs_ops run_op now e (ag_store a) (fst (create_reserved (ag_store a)
      ((new_attempt (cmd_task_id cmd) e now)\<lparr>as_runner_type := p, as_shell_command := sp\<rparr>)))" for p sp
    by (rule r) (simp add: new_attempt_def)
  have scrapy: "runs_ops run_op now e (ag_store a) (ag_store (handle_run_scrapy env cfg now cmd a))"
    using assms r1 f [OF r1] s
    by (auto simp: handle_run_scrapy_def Let_def case_prod_beta simp del: run_store_op.simps
        split: sum.split option.split prod.split)
  have wheel: "runs_ops run_op now e (ag_store a) (ag_store (handle_run_wheel env cfg now cmd a))"
    using assms r2 f [OF r2] w
    by (auto simp: handle_run_wheel_def Let_def case_prod_beta simp del: run_store_op.simps
        split: sum.split option.split prod.split)
  show ?thesis using scrapy wheel by (simp add: handle_run_def)
qed

definition keep_op :: "store_op \<Rightarrow> bool" where
  \<comment> \<open>the operations of everything but runs and cleanups\<close>
  "keep_op op \<longleftrightarrow> tick_op op \<or> (case op of Op_stop_requested i t \<Rightarrow> True | Op_log_capped \<Rightarrow> True | _ \<Rightarrow> False)"

lemma keep_op_simps [simp]:
  "tick_op op \<Longrightarrow> keep_op op" "keep_op (Op_stop_requested i t)" "keep_op Op_log_capped"
  by (simp_all add: keep_op_def)

lemma acts_cancel_now:
  assumes "cmd_execution_id cmd = e"
  shows "acts env now e keep_op (\<lambda>c. \<not> start_call c) a (cancel_now env cfg now cmd a)"
  unfolding cancel_now_def assms
  by (rule acts_trans [OF acts_mark_done acts_emit_terminal]) auto

lemma acts_handle_stop:
  fixes a :: "('w, 'y) consumer_scheme"
  assumes "cmd_execution_id cmd = e" and "well_keyed (ag_store a)"
  shows "acts env now e keep_op (\<lambda>c. \<not> start_call c) a (handle_stop env cfg now cmd a)"
proof -
  let ?Q = "\<lambda>c. \<not> start_call c"
  let ?b = "drop_heartbeat e a"
  have dh: "ag_store ?b = ag_store a" "ag_world ?b = ag_world a"
    by (simp_all add: drop_heartbeat_def)
  have b: "acts env now e keep_op ?Q a ?b" by (rule acts_same) (simp_all add: dh)
  have can: "acts env now e keep_op ?Q c (cancel_now env cfg now cmd c)" for c :: "('w, 'y) consumer_scheme"
    using assms(1) by (rule acts_cancel_now)
  have stop: "acts env now e keep_op ?Q c (fst (call_stop env now e None c))" for c :: "('w, 'y) consumer_scheme"
    by (rule acts_call_stop) auto
  have trm: "acts env now e keep_op ?Q c (terminate_wheel env cfg e c)" for c :: "('w, 'y) consumer_scheme"
    by (rule acts_terminate_wheel) auto
  have lost: "acts env now e keep_op ?Q c (with_store (\<lambda>d. mark_done d now e m) c)"
    for c :: "('w, 'y) consumer_scheme" and m
    by (rule acts_mark_done) simp
  have rep: "acts env now e keep_op ?Q c (republish env cfg now cmd c)" for c :: "('w, 'y) consumer_scheme"
    by (rule acts_republish_cmd) (use assms in auto)
  have beg: "acts env now e keep_op ?Q c (begin_stop env now st i c)" if "as_execution_id st = e"
    for c :: "('w, 'y) consumer_scheme" and st i
    by (rule acts_begin_stop) (use that in auto)
  have fin: "acts env now e keep_op ?Q c (finish_scrapy_attempt env cfg now st ty None c)"
    if "as_execution_id st = e" for c :: "('w, 'y) consumer_scheme" and st ty
    by (rule acts_finish) (use that in auto)
  have id: "as_execution_id st = e" if "read_state (ag_store a) e = Some st" for st
    using that by (rule well_keyed_read [OF assms(2)])
  obtain w s where rs: "runner_status env (ag_files ?b) (ag_store a) (ag_world a) e = (w, s)" by force
  have "calls env ?Q (ag_world a) w"
    using calls_status [of ?Q env "ag_world a" "ag_files ?b" "ag_store a" e] rs by simp
  then have w: "acts env now e keep_op ?Q ?b (?b\<lparr>ag_world := w\<rparr>)"
    using acts_world [of env ?Q ?b] dh by simp
  have rec: "acts env now e keep_op ?Q ?b (handle_reclaim env cfg now cmd ?b)"
    using assms(1) id rep acts_trans [OF trm lost] acts_trans [OF w fin] acts_trans [OF w beg] rs
    by (auto simp: handle_reclaim_def dh Let_def split: option.split)
  have "acts env now e keep_op ?Q ?b (handle_stop env cfg now cmd a)"
    using assms(1) id rec acts_trans [OF stop can] acts_trans [OF trm can] beg
    by (auto simp: handle_stop_def dh Let_def split: option.split)
  then show ?thesis by (rule acts_trans [OF b])
qed

lemma acts_await_wheel:
  fixes a :: "('w, 'y) consumer_scheme"
  shows "acts env now e keep_op (\<lambda>c. \<not> start_call c) a (await_wheel env cfg now k e a)"
proof -
  have dh: "ag_store (drop_heartbeat e a) = ag_store a" "ag_world (drop_heartbeat e a) = ag_world a"
    by (simp_all add: drop_heartbeat_def)
  have "acts env now e keep_op (\<lambda>c. \<not> start_call c) b (emit_terminal env cf now k e ty i
      (with_store (\<lambda>d. mark_done d now e m) b))" for b :: "('w, 'y) consumer_scheme" and cf ty i m
    by (rule acts_trans [OF acts_mark_done acts_emit_terminal]) auto
  then have "acts env now e keep_op (\<lambda>c. \<not> start_call c) a (emit_terminal env cf now k e ty i
      (with_store (\<lambda>d. mark_done d now e m) (drop_heartbeat e a)))" for cf ty i m
    by (rule acts_same_left) (simp_all add: dh)
  then show ?thesis
    using dh by (auto simp: await_wheel_def Let_def acts_def split: option.split)
qed

lemma acts_recover_reserved:
  "acts env now e keep_op (\<lambda>c. \<not> start_call c) a (recover_reserved env cfg now e a)"
proof -
  have "acts env now e keep_op (\<lambda>c. \<not> start_call c) a (with_store (\<lambda>d. mark_done d now e m)
      (emit_terminal env cf now k e ty i a))" for cf k ty i m
    by (rule acts_trans [OF acts_emit_terminal acts_mark_done]) auto
  then show ?thesis by (simp add: recover_reserved_def split: option.split)
qed

lemma acts_recover_wheel:
  fixes a :: "('w, 'y) consumer_scheme"
  shows "acts env now e keep_op (\<lambda>c. \<not> start_call c) a (recover_wheel env cfg now e a)"
proof -
  let ?Q = "\<lambda>c. \<not> start_call c"
  have "calls env ?Q v (fst (os_killpg env v g s))" for v g s
    by (rule calls_one) simp
  then have k: "os_killpg env v g s = (v', r) \<Longrightarrow> calls env ?Q v v'" for v v' g s r
    by (metis fst_conv)
  then have kill: "calls env ?Q (ag_world a) (terminate_pgid env (ag_world a) g)" for g
    by (auto simp: terminate_pgid_def split: prod.split bool.split) (metis calls_trans fst_conv surj_pair)
  have b: "acts env now e keep_op ?Q a (case g of None \<Rightarrow> a
      | Some g \<Rightarrow> if g = 0 then a else a\<lparr>ag_world := terminate_pgid env (ag_world a) g\<rparr>)" for g
    using acts_world [OF kill] by (auto split: option.split)
  have "acts env now e keep_op ?Q b (emit_terminal env cf now k e ty i
      (with_store (\<lambda>d. mark_done d now e m) b))" for b :: "('w, 'y) consumer_scheme" and cf k ty i m
    by (rule acts_trans [OF acts_mark_done acts_emit_terminal]) auto
  from acts_trans [OF b this] show ?thesis
    by (simp add: recover_wheel_def Let_def split: option.split)
qed

section \<open>The steps of the daemon\<close>

datatype daemon_op =
    Do_command agent_command
  | Do_tick int
  | Do_replay
  | Do_wheel_exit string string
  | Do_recover_reserved
  | Do_recover_wheels
  | Do_cap_log string
  | Do_eof string
  | Do_forget string \<comment> \<open>the janitor's deletion of the state file with the workspace of an attempt\<close>

fun daemon_step ::
    "('w, 'z) cache_os_scheme \<Rightarrow> ('c) daemon_config_scheme \<Rightarrow> instant \<times> daemon_op
      \<Rightarrow> ('w, 'y) daemon_scheme \<Rightarrow> ('w, 'y) daemon_scheme" where
  "daemon_step env cfg (now, Do_command cmd) a = handle_command env cfg now cmd a"
| "daemon_step env cfg (now, Do_tick clock) a = reconcile_started_attempts env cfg now clock a"
| "daemon_step env cfg (now, Do_replay) a = fst (replay_outbox env a)"
| "daemon_step env cfg (now, Do_wheel_exit task_id execution_id) a = await_wheel env cfg now task_id execution_id a"
| "daemon_step env cfg (now, Do_recover_reserved) a = recover_reserved_orphans env cfg now a"
| "daemon_step env cfg (now, Do_recover_wheels) a = recover_wheel_orphans env cfg now a"
| "daemon_step env cfg (now, Do_cap_log execution_id) a = with_store (\<lambda>d. mark_log_capped d now execution_id) a"
| "daemon_step env cfg (now, Do_eof execution_id) a = on_execution_eof execution_id a"
| "daemon_step env cfg (now, Do_forget execution_id) a = with_store (\<lambda>d. delete_state d execution_id) a"

definition cleans_up :: "string \<Rightarrow> instant \<times> daemon_op \<Rightarrow> bool" where
  "cleans_up x s = (case snd s of Do_command cmd \<Rightarrow> cmd_type cmd = Cmd_cleanup_logs \<and> cmd_execution_id cmd = x
     | Do_forget e \<Rightarrow> e = x
     | _ \<Rightarrow> False)"

definition runs_new :: "('w, 'y) agent_scheme \<Rightarrow> instant \<times> daemon_op \<Rightarrow> bool" where
  \<comment> \<open>the run command of an execution that has no state file\<close>
  "runs_new a s = (case snd s of Do_command cmd \<Rightarrow> cmd_type cmd = Cmd_run
     \<and> map_of (ag_store a) (cmd_execution_id cmd) = None | _ \<Rightarrow> False)"

lemma replay_effects:
  "ag_store (fst (replay_outbox env a)) = ag_store a"
  "calls env (\<lambda>c. \<not> start_call c) (ag_world a) (ag_world (fst (replay_outbox env a)))"
proof -
  have files: "calls env (\<lambda>c. \<not> start_call c) w w'" if "replay_files env fs (o1, w) n = ((o2, w'), n')"
    for fs o1 w n o2 w' n'
    using that
  proof (induction fs arbitrary: o1 w n)
    case (Cons f fs)
    show ?case
    proof (cases "of_event f")
      case None
      with Cons show ?thesis by auto
    next
      case (Some ev)
      obtain v ok where x: "xadd_event env w ev = (v, ok)" by force
      have "calls env (\<lambda>c. \<not> start_call c) w v"
        using calls_one(1) [of "\<lambda>c. \<not> start_call c" ev env w] x by simp
      with Cons Some x show ?thesis by (cases ok) (auto intro: calls_trans)
    qed
  qed auto
  show "ag_store (fst (replay_outbox env a)) = ag_store a"
    by (simp add: replay_outbox_def split: prod.split)
  show "calls env (\<lambda>c. \<not> start_call c) (ag_world a) (ag_world (fst (replay_outbox env a)))"
    using files by (auto simp: replay_outbox_def split: prod.split)
qed

lemma fold_effects:
  assumes "\<And>e a. acts env now e keep_op Q a (f e a)"
  shows "many (\<lambda>_. keep_op) (ag_store a) (ag_store (fold f ids a))
    \<and> calls env Q (ag_world a) (ag_world (fold f ids a))"
proof (induction ids arbitrary: a)
  case Nil
  show ?case by (simp add: many_refl)
next
  case (Cons e ids)
  note step = assms [of e a] and rest = Cons.IH [of "f e a"]
  have "many (\<lambda>_. keep_op) (ag_store a) (ag_store (fold f ids (f e a)))"
    by (rule many_step [where P = "\<lambda>_. keep_op", OF acts_runs_ops [OF step] conjunct1 [OF rest]])
  moreover have "calls env Q (ag_world a) (ag_world (fold f ids (f e a)))"
    by (rule calls_trans [OF acts_calls [OF step] conjunct2 [OF rest]])
  ultimately show ?case by simp
qed

lemma many_keep:
  "many (\<lambda>_. tick_op) d d' \<Longrightarrow> many (\<lambda>_. keep_op) d d'"
proof (induction rule: many.induct)
  case (many_step e now d d1 d2)
  have "runs_ops keep_op now e d d1" by (rule runs_ops_mono [OF many_step(1)]) simp
  then show ?case using many_step by (blast intro: many.many_step)
qed (rule many_refl)

definition op_of_step :: "string \<Rightarrow> instant \<times> daemon_op \<Rightarrow> string \<Rightarrow> store_op \<Rightarrow> bool" where
  \<comment> \<open>what a step may do to the files, as seen from the execution \<open>x\<close> that has a file\<close>
  "op_of_step x s e op \<longleftrightarrow> (e = x \<and> \<not> cleans_up x s \<longrightarrow> keep_op op)"

lemma many_of_step:
  assumes "runs_ops P now e d d'" and "\<And>op. P op \<Longrightarrow> op_of_step x s e op"
  shows "many (op_of_step x s) d d'"
  by (rule many_one [OF runs_ops_mono [OF assms(1)]]) (rule assms(2))

lemma many_keep_step: "many (\<lambda>_. keep_op) d d' \<Longrightarrow> many (op_of_step x s) d d'"
proof (induction rule: many.induct)
  case (many_step e now d d1 d2)
  have "runs_ops (op_of_step x s e) now e d d1"
    by (rule runs_ops_mono [OF many_step(1)]) (simp add: op_of_step_def)
  then show ?case using many_step by (blast intro: many.many_step)
qed (rule many_refl)

lemma handle_cleanup_effects:
  fixes env :: "('w, 'z) cache_os_scheme"
  assumes "cmd_execution_id cmd = e"
  shows "acts env now e (\<lambda>_. True) Q a (handle_cleanup now cmd a)"
  using assms by (auto simp: handle_cleanup_def intro: acts_cleanup acts_cleanup_pending split: option.split)

lemma daemon_step_effects:
  fixes a :: "('w, 'y) daemon_scheme"
  assumes "well_keyed (ag_store a)" and "map_of (ag_store a) x \<noteq> None"
  shows "many (op_of_step x s) (ag_store a) (ag_store (daemon_step env cfg s a))
    \<and> (\<not> runs_new a s \<longrightarrow> calls env (\<lambda>c. \<not> start_call c) (ag_world a) (ag_world (daemon_step env cfg s a)))"
proof (cases s)
  case (Pair now op)
  let ?Q = "\<lambda>c. \<not> start_call c"
  have keep: "many (op_of_step x s) (ag_store a) (ag_store b) \<and> calls env ?Q (ag_world a) (ag_world b)"
    if "acts env now e keep_op ?Q a b" for e and b :: "('w, 'y) daemon_scheme"
    using many_of_step [OF acts_runs_ops [OF that]] acts_calls [OF that] by (simp add: op_of_step_def)
  show ?thesis
  proof (cases op)
    case (Do_command cmd)
    let ?e = "cmd_execution_id cmd"
    show ?thesis
    proof (cases "cmd_type cmd")
      case Cmd_run
      show ?thesis
      proof (cases "map_of (ag_store a) ?e = None")
        case True
        with assms(2) have "?e \<noteq> x" by auto
        then show ?thesis
          using many_of_step [OF ops_handle_run [of cmd ?e now a env cfg], of x s] Do_command Cmd_run Pair True
          by (simp add: op_of_step_def handle_command_def runs_new_def)
      next
        case False
        have "acts env now ?e keep_op ?Q a (handle_run env cfg now cmd a)"
          using False by (intro acts_handle_run_existing) auto
        from keep [OF this] show ?thesis
          using Do_command Cmd_run Pair by (simp add: handle_command_def)
      qed
    next
      case Cmd_stop
      have "acts env now ?e keep_op ?Q a (handle_stop env cfg now cmd a)"
        using assms(1) by (intro acts_handle_stop) auto
      from keep [OF this] show ?thesis
        using Do_command Cmd_stop Pair by (simp add: handle_command_def)
    next
      case Cmd_cleanup_logs
      have "acts env now ?e (\<lambda>_. True) ?Q a (handle_cleanup now cmd a)"
        by (rule handle_cleanup_effects) simp
      then show ?thesis
        using many_of_step [OF acts_runs_ops, of env now ?e "\<lambda>_. True" ?Q a "handle_cleanup now cmd a" x s]
          acts_calls [of env now ?e "\<lambda>_. True" ?Q a] Do_command Cmd_cleanup_logs Pair
        by (simp add: handle_command_def op_of_step_def cleans_up_def)
    next
      case Cmd_stop_logs
      have "acts env now ?e keep_op ?Q a (handle_stop_logs now cmd a)"
        unfolding handle_stop_logs_def by (rule acts_log_capped) simp
      from keep [OF this] show ?thesis
        using Do_command Cmd_stop_logs Pair by (simp add: handle_command_def)
    qed
  next
    case (Do_tick clock)
    show ?thesis
      using reconcile_effects [OF assms(1), of env cfg now clock "list_execution_ids (ag_store a)"]
        Do_tick Pair many_keep_step [OF many_keep]
      by (auto simp: reconcile_started_attempts_def)
  next
    case Do_replay
    show ?thesis using Do_replay Pair by (simp add: replay_effects many_refl)
  next
    case (Do_wheel_exit k e)
    have "acts env now e keep_op ?Q a (await_wheel env cfg now k e a)" by (rule acts_await_wheel)
    from keep [OF this] show ?thesis using Do_wheel_exit Pair by simp
  next
    case Do_recover_reserved
    show ?thesis
      using fold_effects [where f = "recover_reserved env cfg now" and a = a and Q = ?Q and env = env,
          OF acts_recover_reserved] many_keep_step Do_recover_reserved Pair
      by (simp add: recover_reserved_orphans_def)
  next
    case Do_recover_wheels
    show ?thesis
      using fold_effects [where f = "recover_wheel env cfg now" and a = a and Q = ?Q and env = env,
          OF acts_recover_wheel] many_keep_step Do_recover_wheels Pair
      by (simp add: recover_wheel_orphans_def)
  next
    case (Do_cap_log e)
    have "acts env now e keep_op ?Q a (with_store (\<lambda>d. mark_log_capped d now e) a)"
      by (rule acts_log_capped) simp
    from keep [OF this] show ?thesis using Do_cap_log Pair by simp
  next
    case (Do_eof e)
    show ?thesis using Do_eof Pair by (simp add: on_execution_eof_def many_refl)
  next
    case (Do_forget e)
    have d: "acts env now e (\<lambda>op. op = Op_delete) ?Q a (with_store (\<lambda>d. delete_state d e) a)"
      by (rule acts_delete) simp
    show ?thesis
      using many_of_step [OF acts_runs_ops [OF d], of x s] acts_calls [OF d] Do_forget Pair
      by (simp add: op_of_step_def cleans_up_def)
  qed
qed

section \<open>Runs of the daemon\<close>

definition live_file :: "attempt_state option option \<Rightarrow> bool" where
  \<comment> \<open>a file that no cleanup is due for\<close>
  "live_file v \<longleftrightarrow> v \<noteq> None \<and> (\<forall>st. v = Some (Some st) \<longrightarrow> \<not> as_cleanup_pending st)"

lemma map_of_read: "map_of d x = Some (Some st) \<longleftrightarrow> read_state d x = Some st"
  by (auto simp: read_state_def split: option.splits)

lemma keep_op_file:
  assumes "keep_op op" and "well_keyed d"
  shows "map_of (run_store_op op now x d) x = (case map_of d x of
      Some (Some st) \<Rightarrow> map_option Some (abstract_op op now x (Some st))
    | v \<Rightarrow> v)"
proof (cases "map_of d x")
  case None
  then have "read_state d x = None" by (simp add: read_state_def)
  with None assms(1) show ?thesis
    by (cases op) (auto simp: keep_op_def tick_op_def store_updates update_state_def)
next
  case (Some v)
  show ?thesis
  proof (cases v)
    case None
    then have "read_state d x = None" using Some by (simp add: read_state_def)
    with None Some assms(1) show ?thesis
      by (cases op) (auto simp: keep_op_def tick_op_def store_updates update_state_def)
  next
    case (Some st)
    then have st: "map_of d x = Some (Some st)" "read_state d x = Some st"
      using \<open>map_of d x = Some v\<close> by (simp_all add: read_state_def)
    then have "as_execution_id st = x" using assms(2) well_keyed_read by blast
    with st assms(1) show ?thesis
      by (cases op) (auto simp: keep_op_def tick_op_def store_updates update_state_def write_state_def
          put_file_def delete_state_def Let_def update_conv delete_conv')
  qed
qed

lemma keep_op_phase:
  assumes "keep_op op" and "\<not> as_cleanup_pending st"
  shows "\<exists>st'. abstract_op op now x (Some st) = Some st' \<and> \<not> as_cleanup_pending st'
    \<and> (as_phase st = Phase_done \<longrightarrow> as_phase st' = Phase_done)"
  using assms by (cases op) (auto simp: keep_op_def tick_op_def done_state_def flood_state_def cleanup_due_def)

lemma keep_op_live:
  assumes "keep_op op" and "well_keyed d" and "live_file (map_of d x)"
  shows "live_file (map_of (run_store_op op now x d) x)"
proof (cases "map_of d x")
  case None
  with assms(3) show ?thesis by (simp add: live_file_def)
next
  case (Some v)
  show ?thesis
  proof (cases v)
    case None
    with Some show ?thesis by (simp add: keep_op_file [OF assms(1,2)] live_file_def)
  next
    case (Some st)
    then have st: "map_of d x = Some (Some st)" using \<open>map_of d x = Some v\<close> by simp
    with assms(3) have "\<not> as_cleanup_pending st" by (simp add: live_file_def)
    then obtain st' where "abstract_op op now x (Some st) = Some st'" "\<not> as_cleanup_pending st'"
      using keep_op_phase [OF assms(1)] by blast
    then show ?thesis by (simp add: keep_op_file [OF assms(1,2)] st live_file_def)
  qed
qed

lemma keep_op_done:
  assumes "keep_op op" and "well_keyed d"
    and "\<exists>st. map_of d x = Some (Some st) \<and> as_phase st = Phase_done \<and> \<not> as_cleanup_pending st"
  shows "\<exists>st. map_of (run_store_op op now x d) x = Some (Some st) \<and> as_phase st = Phase_done
    \<and> \<not> as_cleanup_pending st"
  using assms(3) keep_op_phase [OF assms(1)]
  unfolding keep_op_file [OF assms(1,2)] by fastforce

lemma daemon_step_file:
  assumes "well_keyed (ag_store a)" and "map_of (ag_store a) x \<noteq> None" and "\<not> cleans_up x s"
    and "S (map_of (ag_store a) x)"
    and "\<And>now op d. keep_op op \<Longrightarrow> well_keyed d \<Longrightarrow> S (map_of d x) \<Longrightarrow> S (map_of (run_store_op op now x d) x)"
  shows "well_keyed (ag_store (daemon_step env cfg s a)) \<and> S (map_of (ag_store (daemon_step env cfg s a)) x)"
proof -
  have m: "many (op_of_step x s) (ag_store a) (ag_store (daemon_step env cfg s a))"
    using daemon_step_effects [OF assms(1,2)] by blast
  show ?thesis
    using many_well_keyed [OF m assms(1)]
      many_file_invariant [where S = S, OF m assms(1,4)] assms(3,5) by (auto simp: op_of_step_def)
qed

lemma daemon_run_file:
  assumes "well_keyed (ag_store a)" and "S (map_of (ag_store a) x)" and "\<forall>s \<in> set steps. \<not> cleans_up x s"
    and "\<And>v. S v \<Longrightarrow> v \<noteq> None"
    and "\<And>now op d. keep_op op \<Longrightarrow> well_keyed d \<Longrightarrow> S (map_of d x) \<Longrightarrow> S (map_of (run_store_op op now x d) x)"
  shows "well_keyed (ag_store (fold (daemon_step env cfg) steps a))
    \<and> S (map_of (ag_store (fold (daemon_step env cfg) steps a)) x)"
  using assms(1-3)
proof (induction steps arbitrary: a)
  case (Cons s steps)
  have "well_keyed (ag_store (daemon_step env cfg s a)) \<and> S (map_of (ag_store (daemon_step env cfg s a)) x)"
    using Cons.prems by (intro daemon_step_file [where S = S] assms(4,5)) auto
  with Cons show ?case by simp
qed simp

text \<open>C11. A delivered run is never started twice. Take any run of the agent's tasks (commands in any
  order and number, ticks, outbox replays, process exits, boot recoveries after a crash, the janitor's deletions) from a
  state in which the execution has a state file, readable or torn, that no cleanup is due for, and
  with no cleanup command for it and no deletion of its file by the janitor in the run. Then the file is still there afterwards, an attempt
  that was done is still done, and a run command for that execution only publishes events and
  polls: it leaves every state file as it is, schedules nothing on scrapyd and spawns nothing.
\<close>

theorem redelivered_run_never_restarts:
  assumes "well_keyed (ag_store a)" and "live_file (map_of (ag_store a) x)"
    and "\<forall>s \<in> set steps. \<not> cleans_up x s"
    and b_def: "b = fold (daemon_step env cfg) steps a"
    and "cmd_type cmd = Cmd_run" and "cmd_execution_id cmd = x"
  shows "map_of (ag_store b) x \<noteq> None
    \<and> ((\<exists>st. read_state (ag_store a) x = Some st \<and> as_phase st = Phase_done) \<longrightarrow>
        (\<exists>st. read_state (ag_store b) x = Some st \<and> as_phase st = Phase_done))
    \<and> ag_store (handle_command env cfg now cmd b) = ag_store b
    \<and> calls env (\<lambda>c. \<not> start_call c) (ag_world b) (ag_world (handle_command env cfg now cmd b))"
proof -
  have live: "well_keyed (ag_store b) \<and> live_file (map_of (ag_store b) x)"
    unfolding b_def using assms(1-3)
    by (intro daemon_run_file [where S = live_file] keep_op_live) (auto simp: live_file_def)
  then have there: "map_of (ag_store b) x \<noteq> None" by (simp add: live_file_def)
  moreover have "\<exists>st. read_state (ag_store b) x = Some st \<and> as_phase st = Phase_done"
    if "read_state (ag_store a) x = Some st" "as_phase st = Phase_done" for st
  proof -
    let ?S = "\<lambda>v. \<exists>st. v = Some (Some st) \<and> as_phase st = Phase_done \<and> \<not> as_cleanup_pending st"
    have "?S (map_of (ag_store a) x)"
      using that assms(2) map_of_read by (metis live_file_def)
    then have "?S (map_of (ag_store b) x)"
      using daemon_run_file [where S = ?S, OF assms(1) _ assms(3) _ keep_op_done] b_def by blast
    then show ?thesis using map_of_read by metis
  qed
  moreover have "ag_store (handle_command env cfg now cmd b) = ag_store b"
    using handle_run_existing [of b cmd env cfg now] there assms(5,6) by (auto simp: handle_command_def)
  moreover have "calls env (\<lambda>c. \<not> start_call c) (ag_world b) (ag_world (handle_command env cfg now cmd b))"
    using acts_calls [OF acts_handle_run_existing [of cmd x b]] there assms(5,6) by (simp add: handle_command_def)
  ultimately show ?thesis by blast
qed

lemma redelivered_run_never_restarts_witness:
  "ag_store (handle_command sample_os sample_config 9 (sample_command Cmd_run)
      (fold (daemon_step sample_os sample_config) [(5, Do_tick 0), (6, Do_replay)] (sample_daemon [sample_attempt])))
    = ag_store (fold (daemon_step sample_os sample_config) [(5, Do_tick 0), (6, Do_replay)] (sample_daemon [sample_attempt]))"
  using redelivered_run_never_restarts [of "sample_daemon [sample_attempt]" "''e1''"
      "[(5, Do_tick 0), (6, Do_replay)]" _ sample_os sample_config "sample_command Cmd_run" 9, OF _ _ _ refl]
    sample_daemon_keyed [of "[sample_attempt]"]
  by (simp add: live_file_def cleans_up_def sample_command_def map_of_read sample_attempt_def new_attempt_def
      sample_daemon_def)

end
