(* ===== verification/AgentStopProofs.thy ===== *)
theory AgentStopProofs
  imports AgentEffects
begin

text \<open>
  What the stop state machine guarantees: a stop ends within its deadline with the terminal of
  its intent, and a state file with work outstanding is never removed.
\<close>

section \<open>The fields of a stop\<close>

definition same_stop :: "attempt_state \<Rightarrow> attempt_state \<Rightarrow> bool" where
  "same_stop s s' \<longleftrightarrow> as_execution_id s' = as_execution_id s \<and> as_phase s' = as_phase s
     \<and> as_stop_intent s' = as_stop_intent s \<and> as_stop_requested_at s' = as_stop_requested_at s
     \<and> as_cleanup_pending s' = as_cleanup_pending s \<and> as_kill_pending s' = as_kill_pending s
     \<and> as_terminal_pending s' = as_terminal_pending s \<and> as_task_id s' = as_task_id s
     \<and> as_runner_type s' = as_runner_type s"

lemma same_stop_refl [simp]: "same_stop s s"
  by (simp add: same_stop_def)

lemma same_stop_trans: "same_stop s t \<Longrightarrow> same_stop t u \<Longrightarrow> same_stop s u"
  by (simp add: same_stop_def)

lemma same_stop_touched [simp]:
  "same_stop s (touched now (flood_state n t x) s)"
  "same_stop s (touched now (\<lambda>st. st\<lparr>as_canceled := True\<rparr>) s)"
  "same_stop s (touched now (\<lambda>st. st\<lparr>as_stop_escalation := x2\<rparr>) s)"
  by (simp_all add: same_stop_def touched_def flood_state_def)

definition holds :: "state_dir \<Rightarrow> string \<Rightarrow> attempt_state \<Rightarrow> bool" where
  \<comment> \<open>the file is there with the stop fields of \<open>st\<close>\<close>
  "holds d e st \<longleftrightarrow> well_keyed d \<and> (\<exists>s. read_state d e = Some s \<and> same_stop st s)"

definition calm_op :: "store_op \<Rightarrow> bool" where
  "calm_op op \<longleftrightarrow> (case op of Op_log_flood n t x \<Rightarrow> True | Op_mark_canceled \<Rightarrow> True
     | Op_stop_escalation x \<Rightarrow> True | _ \<Rightarrow> False)"

lemma calm_op_simps [simp]: "calm_op (Op_log_flood n t x)" "calm_op Op_mark_canceled" "calm_op (Op_stop_escalation s)"
  by (simp_all add: calm_op_def)

lemma calm_op_holds:
  assumes "calm_op op" and "holds d e st"
  shows "holds (run_store_op op now e d) e st"
proof -
  obtain s where s: "read_state d e = Some s" "same_stop st s" and wk: "well_keyed d"
    using assms(2) by (auto simp: holds_def)
  have "\<exists>s'. read_state (run_store_op op now e d) e = Some s' \<and> same_stop s s'"
    using assms(1) s(1) wk
    by (cases op) (auto simp: calm_op_def store_updates row_simps)
  then show ?thesis
    using s(2) wk by (auto simp: holds_def store_op_invariant intro: same_stop_trans)
qed

lemma acts_holds:
  "acts env now e calm_op Q a b \<Longrightarrow> holds (ag_store a) e st \<Longrightarrow> holds (ag_store b) e st"
  by (erule acts_invariant) (auto intro: calm_op_holds)

lemma holds_read: "holds d e st \<Longrightarrow> \<exists>s. read_state d e = Some s \<and> same_stop st s"
  by (simp add: holds_def)

lemma mark_flood_same:
  assumes "holds (ag_store a) e st" and "as_execution_id s = e" and "same_stop st s"
  shows "same_stop st (snd (mark_flood now s n t x a))"
    and "holds (ag_store (fst (mark_flood now s n t x a))) e st"
proof -
  obtain r where r: "read_state (ag_store a) e = Some r" "same_stop st r"
    using assms(1) by (auto simp: holds_def)
  then show "same_stop st (snd (mark_flood now s n t x a))"
    using assms(2) same_stop_trans [OF r(2) same_stop_touched(1)]
    by (simp add: mark_flood_def mark_log_flood_def update_state_eq)
  have "acts env now e calm_op (\<lambda>_. True) a (fst (mark_flood now s n t x a))" for env :: "('a, unit) cache_os_scheme"
    by (rule acts_mark_flood) (use assms in auto)
  then show "holds (ag_store (fst (mark_flood now s n t x a))) e st"
    using acts_holds assms(1) by blast
qed

lemma flood_escalate_same:
  assumes "holds (ag_store a) e st" and "as_execution_id s = e" and "same_stop st s"
  shows "same_stop st (snd (flood_escalate env cfg now s n a))"
proof -
  define b where "b = truncate_now cfg (as_log_path s) a"
  have b: "holds (ag_store b) e st" using assms(1) by (simp add: b_def truncate_now_def)
  define asked where "asked = or_default (if stamp_given (as_log_flood_requested_at s)
      then as_log_flood_requested_at s else None) (Iso now)"
  define r where "r = (if n > as_log_flood_bytes s then mark_flood now s n asked None b else (b, s))"
  obtain c s1 where c: "r = (c, s1)" by force
  have c': "holds (ag_store c) e st" "same_stop st s1"
    using mark_flood_same [OF b assms(2,3), of now n asked None] c b assms(3)
    by (auto simp: r_def split: if_splits)
  have s1: "as_execution_id s1 = e" using c'(2) assms(2,3) by (simp add: same_stop_def)
  have k: "holds (ag_store (fst (flood_pid_kill env s1 c))) e st"
  proof -
    have "ag_store (fst (flood_pid_kill env s1 c)) = ag_store c"
      by (auto simp: flood_pid_kill_def split: option.split list.split prod.split)
    with c' show ?thesis by simp
  qed
  show ?thesis
    unfolding flood_escalate_def Let_def b_def [symmetric] asked_def [symmetric] r_def [symmetric] c
    using mark_flood_same(1) [OF k s1 c'(2)] mark_flood_same(1) [OF c'(1) s1 c'(2)] c'
    by (auto simp: case_prod_beta)
qed

lemma flood_watchdog_same:
  fixes env :: "('w, 'z) cache_os_scheme" and a :: "('w, 'y) agent_scheme"
  assumes "holds (ag_store a) e st" and "as_execution_id st = e"
  shows "holds (ag_store (fst (flood_watchdog env cfg now st sz a))) e st"
    and "same_stop st (or_default (snd (flood_watchdog env cfg now st sz a)) st)"
proof -
  have wk: "well_keyed (ag_store a)" using assms(1) by (simp add: holds_def)
  show "holds (ag_store (fst (flood_watchdog env cfg now st sz a))) e st"
    using acts_flood_watchdog [of st e a calm_op "\<lambda>_. True" env now cfg sz, OF assms(2) wk]
      acts_holds assms(1) by auto
  show "same_stop st (or_default (snd (flood_watchdog env cfg now st sz a)) st)"
    using mark_flood_same(1) [OF assms(1,2) same_stop_refl] flood_escalate_same [OF assms(1,2) same_stop_refl]
    by (auto simp: flood_watchdog_def Let_def case_prod_beta split: option.split)
qed

section \<open>The end of a stop\<close>

definition stop_result :: "attempt_state \<Rightarrow> string" where
  "stop_result st = (if as_stop_intent st = Some Intent_reclaim then ''lost'' else ''canceled'')"

lemma finalize_stop_file:
  assumes "holds (ag_store a) e st" and "as_execution_id st = e"
    and "b = finalize_stop env cfg now st c a"
  shows "if c \<and> as_cleanup_pending st then read_state (ag_store b) e = None
    else (\<exists>s. read_state (ag_store b) e = Some s \<and> as_phase s = Phase_done
        \<and> as_result s = Some (stop_result st) \<and> as_kill_pending s = (\<not> c) \<and> \<not> as_terminal_pending s
        \<and> as_cleanup_pending s = as_cleanup_pending st \<and> as_execution_id s = e)"
proof -
  obtain r where r: "read_state (ag_store a) e = Some r" "same_stop st r" and wk: "well_keyed (ag_store a)"
    using assms(1) by (auto simp: holds_def)
  have id: "as_execution_id r = e" using wk r(1) by (rule well_keyed_read)
  let ?ml = "(terminal_mark ''lost'')\<lparr>tm_kill_pending := Some (\<not> c), tm_terminal_pending := Some False\<rparr>"
  let ?mc = "(terminal_mark ''canceled'')\<lparr>tm_kill_pending := Some (\<not> c), tm_terminal_pending := Some True\<rparr>"
  let ?d = "if as_stop_intent st = Some Intent_reclaim then fst (mark_done (ag_store a) now e ?ml)
    else fst (clear_terminal_pending (fst (mark_done (ag_store a) now e ?mc)) now e)"
  have store: "ag_store b = (if c then run_store_op Op_delete_if_due now e ?d else ?d)"
    unfolding assms(3) finalize_stop_def Let_def assms(2)
    by (simp add: deferred_cleanup_store(1) [where now = now] deferred_cleanup_store(2) with_store_def del: run_store_op.simps)
  have wkd: "well_keyed ?d" "well_keyed (fst (mark_done (ag_store a) now e ?mc))"
    using wk by (simp_all add: store_updates well_keyed_update_state)
  have d: "\<exists>s. read_state ?d e = Some s \<and> as_phase s = Phase_done
      \<and> as_result s = Some (stop_result st) \<and> as_kill_pending s = (\<not> c) \<and> \<not> as_terminal_pending s
      \<and> as_cleanup_pending s = as_cleanup_pending st \<and> as_execution_id s = e"
    using r wk wkd(2) id
    by (simp add: store_updates read_update_state touched_def done_state_def terminal_mark_def
        stop_result_def same_stop_def)
  then show ?thesis
    using store by (auto simp: cleanup_due_def row_simps)
qed

definition quiet_events :: "attempt_state \<Rightarrow> world_call \<Rightarrow> bool" where
  \<comment> \<open>no event but the one terminal that the intent of a stop allows\<close>
  "quiet_events st c \<longleftrightarrow> (\<forall>ev. c = Call_event ev \<longrightarrow>
     as_stop_intent st \<noteq> Some Intent_reclaim \<and> ev_type ev = Ev_canceled \<and> ev_execution_id ev = as_execution_id st)"

lemma quiet_events_simps [simp]:
  "quiet_events st (Call_post p d)" "quiet_events st (Call_get p)" "quiet_events st (Call_kill i)"
  by (simp_all add: quiet_events_def)

lemma stop_watchdog_file:
  fixes env :: "('w, 'z) cache_os_scheme" and a :: "('w, 'y) consumer_scheme"
  assumes "holds (ag_store a) e st" and "as_execution_id st = e" and "b = stop_watchdog env cfg now st a"
  shows "(read_state (ag_store b) e = None \<and> as_cleanup_pending st
      \<and> snd (is_job_alive env (ag_store a) (ag_world a) e) = Some False)
    \<or> (\<exists>s. read_state (ag_store b) e = Some s \<and> as_phase s = Phase_done
        \<and> as_result s = Some (stop_result st) \<and> \<not> as_terminal_pending s
        \<and> (as_kill_pending s \<or> snd (is_job_alive env (ag_store a) (ag_world a) e) = Some False))
    \<or> holds (ag_store b) e st \<and> \<not> (ac_stop_confirm_timeout cfg > 0
        \<and> elapsed_since now (as_stop_requested_at st) \<ge> secs (ac_stop_confirm_timeout cfg))"
proof -
  obtain w r where al: "is_job_alive env (ag_store a) (ag_world a) e = (w, r)" by force
  have h: "holds (ag_store (a\<lparr>ag_world := w\<rparr>)) e st" using assms(1) by simp
  have sig: "holds (ag_store (fst (send_stop_signal env now e s x (a\<lparr>ag_world := w\<rparr>)))) e st" for s x
  proof -
    have "acts env now e calm_op (\<lambda>_. True) (a\<lparr>ag_world := w\<rparr>)
        (fst (send_stop_signal env now e s x (a\<lparr>ag_world := w\<rparr>)))"
      by (rule acts_send_signal) auto
    from acts_holds [OF this h] show ?thesis .
  qed
  note fin = finalize_stop_file [OF assms(1,2) refl] finalize_stop_file [OF h assms(2) refl]
  show ?thesis
    using al h sig fin(1) [where env = env and cfg = cfg and now = now and c = False] fin(2) [where env = env and cfg = cfg and now = now and c = True] assms(2)
    unfolding assms(3)
    by (auto simp: stop_watchdog_def Let_def split: option.split bool.split if_splits)
qed

text \<open>C12. A stop ends as intended and in time. For a started scrapy attempt with a stop in flight, one
  tick of the agent (whatever scrapyd, Redis and the log flood do) leaves the stop in flight, only
  before its deadline and with intent and start time unchanged; or has recorded the terminal of
  its intent, with the process marked for reclamation unless scrapyd said it is gone; or, scrapyd
  having said so, has removed the file for a cleanup that was waiting. Past the deadline only the
  second is left. The only event a tick may publish is \<open>canceled\<close>, and none for a reclaim.
\<close>

theorem stop_ends_as_intended:
  fixes env :: "('w, 'z) cache_os_scheme" and a :: "('w, 'y) consumer_scheme"
  assumes "well_keyed (ag_store a)" and "read_state (ag_store a) x = Some st"
    and "as_phase st = Phase_started" and "as_runner_type st \<noteq> WHEEL_RUNNER_TYPE"
    and "stamp_given (as_stop_requested_at st)"
    and b_def: "b = reconcile_attempt env cfg now clock x a"
    and gone_def: "gone = (let c = fst (flood_watchdog env cfg now st (sample_log_size (ag_files a) st) a)
        in snd (is_job_alive env (ag_store c) (ag_world c) x) = Some False)"
    and late_def: "late = (ac_stop_confirm_timeout cfg > 0
        \<and> elapsed_since now (as_stop_requested_at st) \<ge> secs (ac_stop_confirm_timeout cfg))"
  shows "(\<not> late \<and> (\<exists>s. read_state (ag_store b) x = Some s \<and> as_phase s = Phase_started
            \<and> as_stop_intent s = as_stop_intent st \<and> as_stop_requested_at s = as_stop_requested_at st)
      \<or> (\<exists>s. read_state (ag_store b) x = Some s \<and> as_phase s = Phase_done
            \<and> as_result s = Some (stop_result st) \<and> \<not> as_terminal_pending s
            \<and> (as_kill_pending s \<or> gone))
      \<or> \<not> late \<and> read_state (ag_store b) x = None \<and> as_cleanup_pending st
            \<and> gone)
    \<and> calls env (quiet_events st) (ag_world a) (ag_world b)"
proof -
  have id: "as_execution_id st = x" using well_keyed_read [OF assms(1,2)] .
  have h: "holds (ag_store a) x st" using assms(1,2) by (auto simp: holds_def)
  let ?sz = "sample_log_size (ag_files a) st"
  obtain c fl where f: "flood_watchdog env cfg now st ?sz a = (c, fl)" by force
  define st1 where "st1 = or_default fl st"
  have c: "holds (ag_store c) x st" and same: "same_stop st st1"
    using flood_watchdog_same [OF h id, of env cfg now ?sz] f by (simp_all add: st1_def)
  have id1: "as_execution_id st1 = x" and intent: "as_stop_intent st1 = as_stop_intent st"
    and req: "as_stop_requested_at st1 = as_stop_requested_at st"
    using same id by (simp_all add: same_stop_def)
  have c1: "holds (ag_store c) x st1"
    using c same by (auto simp: holds_def same_stop_def)
  have b: "b = stop_watchdog env cfg now st1 c"
    unfolding b_def using assms(2-5) f req
    by (simp add: reconcile_attempt_def reconcile_scrapy_def id st1_def [symmetric])
  have "calls env (quiet_events st) (ag_world a) (ag_world c)"
    using acts_calls [of env now x "\<lambda>_. True" "quiet_events st" a c]
      acts_flood_watchdog [of st x a "\<lambda>_. True" "quiet_events st" env now cfg ?sz] id assms(1) f by simp
  moreover have "calls env (quiet_events st) (ag_world c) (ag_world b)"
    unfolding b
    by (rule acts_calls [where P = "\<lambda>_. True", OF acts_stop_watchdog])
       (use id1 intent id in \<open>auto simp: quiet_events_def\<close>)
  ultimately have "calls env (quiet_events st) (ag_world a) (ag_world b)"
    by (rule calls_trans)
  moreover have "stop_result st1 = stop_result st" "as_cleanup_pending st1 = as_cleanup_pending st"
    using same by (simp_all add: stop_result_def same_stop_def)
  moreover have "holds (ag_store b) x st1 \<Longrightarrow> \<exists>s. read_state (ag_store b) x = Some s
      \<and> as_phase s = Phase_started \<and> as_stop_intent s = as_stop_intent st
      \<and> as_stop_requested_at s = as_stop_requested_at st"
    using same assms(3) by (auto simp: holds_def same_stop_def)
  moreover have "late \<Longrightarrow> b = finalize_stop env cfg now st1 False c"
    unfolding b stop_watchdog_def by (simp add: Let_def late_def req)
  then have "late \<Longrightarrow> read_state (ag_store b) x \<noteq> None"
    using finalize_stop_file [OF c1 id1 refl, where env = env and cfg = cfg and now = now and c = False] by auto
  ultimately show ?thesis
    using stop_watchdog_file [OF c1 id1 b] req f unfolding late_def gone_def by auto
qed

lemma stop_ends_as_intended_witness:
  "\<exists>s. read_state (ag_store (reconcile_attempt sample_os sample_config (secs 200) 0 ''e1''
      (sample_daemon [sample_attempt\<lparr>as_stop_intent := Some Intent_cancel, as_stop_requested_at := Some (Iso 0)\<rparr>])))
      ''e1'' = Some s \<and> as_phase s = Phase_done \<and> as_result s = Some ''canceled''"
proof -
  let ?st = "sample_attempt\<lparr>as_stop_intent := Some Intent_cancel, as_stop_requested_at := Some (Iso 0)\<rparr>"
  have id: "as_execution_id ?st = ''e1''" by (simp add: sample_attempt_def new_attempt_def)
  have "well_keyed (ag_store (sample_daemon [?st]))" by (rule sample_daemon_keyed) simp
  moreover have "read_state (ag_store (sample_daemon [?st])) ''e1'' = Some ?st" using id by simp
  moreover have "as_phase ?st = Phase_started" "as_runner_type ?st \<noteq> WHEEL_RUNNER_TYPE"
    "stamp_given (as_stop_requested_at ?st)" "stop_result ?st = ''canceled''"
    by (simp_all add: sample_attempt_def new_attempt_def WHEEL_RUNNER_TYPE_def stamp_given_def stop_result_def)
  moreover have "ac_stop_confirm_timeout sample_config > 0
      \<and> elapsed_since (secs 200) (as_stop_requested_at ?st) \<ge> secs (ac_stop_confirm_timeout sample_config)"
    by (simp add: sample_config_def elapsed_since_def secs_def)
  ultimately show ?thesis
    using stop_ends_as_intended [of "sample_daemon [?st]" "''e1''" ?st _ sample_os sample_config "secs 200" 0,
        OF _ _ _ _ _ refl refl refl] by auto
qed

section \<open>Work outstanding\<close>

lemma stop_watchdog_cleanup:
  fixes env :: "('w, 'z) cache_os_scheme" and a :: "('w, 'y) consumer_scheme"
  assumes "holds (ag_store a) e st" and "as_execution_id st = e" and "b = stop_watchdog env cfg now st a"
    and "as_cleanup_pending st"
  shows "if ac_stop_confirm_timeout cfg > 0 \<and> elapsed_since now (as_stop_requested_at st) \<ge> secs (ac_stop_confirm_timeout cfg)
    then \<exists>s. read_state (ag_store b) e = Some s \<and> as_phase s = Phase_done \<and> as_kill_pending s \<and> as_cleanup_pending s
      \<and> \<not> as_terminal_pending s
    else if snd (is_job_alive env (ag_store a) (ag_world a) e) = Some False then read_state (ag_store b) e = None
    else holds (ag_store b) e st"
proof -
  obtain w r where al: "is_job_alive env (ag_store a) (ag_world a) e = (w, r)" by force
  have h: "holds (ag_store (a\<lparr>ag_world := w\<rparr>)) e st" using assms(1) by simp
  have sig: "holds (ag_store (fst (send_stop_signal env now e s x (a\<lparr>ag_world := w\<rparr>)))) e st" for s x
  proof -
    have "acts env now e calm_op (\<lambda>_. True) (a\<lparr>ag_world := w\<rparr>)
        (fst (send_stop_signal env now e s x (a\<lparr>ag_world := w\<rparr>)))"
      by (rule acts_send_signal) auto
    from acts_holds [OF this h] show ?thesis .
  qed
  note fin = finalize_stop_file [OF assms(1,2) refl, where env = env and cfg = cfg and now = now and c = False] finalize_stop_file [OF h assms(2) refl, where env = env and cfg = cfg and now = now and c = True]
  show ?thesis
    using al h sig fin assms(2,4) unfolding assms(3)
    by (auto simp: stop_watchdog_def Let_def split: option.split bool.split)
qed

lemma deliver_pending_file:
  assumes "well_keyed (ag_store a)" and "read_state (ag_store a) x = Some st" and "as_phase st = Phase_done"
    and "deliver_pending env cfg now st a = (c, st')"
  shows "read_state (ag_store c) x = Some st'" and "well_keyed (ag_store c)"
    and "as_execution_id st' = x" and "as_phase st' = Phase_done" and "\<not> as_terminal_pending st'"
    and "as_kill_pending st' = as_kill_pending st" and "as_cleanup_pending st' = as_cleanup_pending st"
    and "as_result st' = as_result st"
proof -
  have id: "as_execution_id st = x" using well_keyed_read [OF assms(1,2)] .
  have rep: "ag_store (republish_current env (agent_config.truncate cfg) now k x a) = ag_store a" for k
    by (auto simp: republish_current_def Let_def split: option.split prod.split)
  have "read_state (ag_store c) x = Some st' \<and> well_keyed (ag_store c) \<and> as_execution_id st' = x
    \<and> as_phase st' = Phase_done \<and> \<not> as_terminal_pending st' \<and> as_kill_pending st' = as_kill_pending st
    \<and> as_cleanup_pending st' = as_cleanup_pending st \<and> as_result st' = as_result st"
    using assms id rep
    by (auto simp: deliver_pending_def Let_def with_store_def store_updates read_update_state touched_def
        well_keyed_update_state split: if_splits)
  then show "read_state (ag_store c) x = Some st'" and "well_keyed (ag_store c)"
    and "as_execution_id st' = x" and "as_phase st' = Phase_done" and "\<not> as_terminal_pending st'"
    and "as_kill_pending st' = as_kill_pending st" and "as_cleanup_pending st' = as_cleanup_pending st"
    and "as_result st' = as_result st" by simp_all
qed

lemma chase_process_file:
  fixes env :: "('w, 'z) cache_os_scheme" and c :: "('w, 'y) consumer_scheme"
  assumes "well_keyed (ag_store c)" and "read_state (ag_store c) x = Some st" and "as_execution_id st = x"
    and owed: "as_phase st = Phase_done" "as_kill_pending st" "\<not> as_terminal_pending st"
    and b: "b = chase_process env cfg now st c"
  shows "if snd (is_job_alive env (ag_store c) (ag_world c) x) = Some False
    then (if as_cleanup_pending st then read_state (ag_store b) x = None
      else \<exists>s. read_state (ag_store b) x = Some s \<and> as_phase s = Phase_done \<and> \<not> as_kill_pending s
        \<and> \<not> as_terminal_pending s \<and> \<not> as_cleanup_pending s \<and> as_result s = as_result st)
    else \<exists>s. read_state (ag_store b) x = Some s \<and> as_phase s = Phase_done \<and> as_kill_pending s
      \<and> \<not> as_terminal_pending s \<and> as_cleanup_pending s = as_cleanup_pending st \<and> as_result s = as_result st"
proof -
  obtain w r where al: "is_job_alive env (ag_store c) (ag_world c) x = (w, r)" by force
  show ?thesis
  proof (cases "r = Some False")
    case True
    let ?d = "fst (clear_kill_pending (ag_store c) now x)"
    have "read_state ?d x = Some (st\<lparr>as_kill_pending := False, as_updated_at := now\<rparr>)"
      using assms(1,2) by (simp add: store_updates read_update_state touched_def)
    moreover have "ag_store b = run_store_op Op_delete_if_due now x ?d"
      using True al unfolding b chase_process_def assms(3)
      by (simp add: deferred_cleanup_store(1) [where now = now] with_store_def del: run_store_op.simps)
    ultimately show ?thesis using True al owed by (simp add: cleanup_due_def row_simps)
  next
    case False
    let ?S = "\<lambda>d. \<exists>s. read_state d x = Some s \<and> as_phase s = Phase_done \<and> as_kill_pending s
        \<and> \<not> as_terminal_pending s \<and> as_cleanup_pending s = as_cleanup_pending st \<and> as_result s = as_result st"
    have sig: "?S (ag_store (with_store (\<lambda>d. mark_kill_attempt d now x t) (fst (send_stop_signal env now x s e v))))"
      if "ag_store v = ag_store c" for s e t and v :: "('w, 'y) consumer_scheme"
    proof -
      have "acts env now x (\<lambda>op. calm_op op \<or> op = Op_kill_attempt t) (\<lambda>_. True) v
          (with_store (\<lambda>d. mark_kill_attempt d now x t) (fst (send_stop_signal env now x s e v)))"
        by (rule acts_trans [OF acts_send_signal acts_kill_attempt]) auto
      then have "well_keyed (ag_store (with_store (\<lambda>d. mark_kill_attempt d now x t) (fst (send_stop_signal env now x s e v))))
        \<and> ?S (ag_store (with_store (\<lambda>d. mark_kill_attempt d now x t) (fst (send_stop_signal env now x s e v))))"
      proof (rule acts_invariant [where R = "\<lambda>d. well_keyed d \<and> ?S d"])
        fix op d
        assume "calm_op op \<or> op = Op_kill_attempt t" and "well_keyed d \<and> ?S d"
        then show "well_keyed (run_store_op op now x d) \<and> ?S (run_store_op op now x d)"
          by (cases op) (auto simp: calm_op_def store_updates row_simps touched_def flood_state_def
              well_keyed_update_state)
      qed (use assms(1,2) owed that in auto)
      then show ?thesis ..
    qed
    show ?thesis
      using False al owed assms(2) sig [where v = "c\<lparr>ag_world := w\<rparr>"]
      unfolding b chase_process_def assms(3) by auto
  qed
qed

definition told :: "('w, 'z) cache_os_scheme \<Rightarrow> 'w \<Rightarrow> outbox_file list \<Rightarrow> string \<Rightarrow> agent_event_type \<Rightarrow> bool" where
  \<comment> \<open>an event of the execution and type has been taken by the Redis of \<open>w\<close> or is in the outbox\<close>
  "told env w fs x ty \<longleftrightarrow> (\<exists>ev. ev_execution_id ev = x \<and> ev_type ev = ty
     \<and> (snd (xadd_event env w ev) \<or> (\<exists>f \<in> set fs. of_event f = Some ev)))"

lemma reclaim_outbox:
  "ag_outbox (run_deferred_cleanup x c) = ag_outbox c"
  "ag_outbox (chase_process env cfg now st c) = ag_outbox c"
  by (auto simp: run_deferred_cleanup_def do_cleanup_def release_execution_def drop_heartbeat_def with_store_def
      chase_process_def send_stop_signal_def call_stop_def Let_def split: option.split prod.split)

lemma deliver_pending_told:
  assumes "well_keyed (ag_store a)" and "read_state (ag_store a) x = Some st" and "as_phase st = Phase_done"
    and "as_terminal_pending st" and "result_to_event (as_result st) = Some ty"
  shows "told env (ag_world a) (ag_outbox (fst (deliver_pending env cfg now st a))) x ty"
proof -
  have id: "as_execution_id st = x" using well_keyed_read [OF assms(1,2)] .
  obtain i where out: "ag_outbox (fst (deliver_pending env cfg now st a)) =
      ag_outbox (emit_terminal env (agent_config.truncate cfg) now (as_task_id st) x ty i a)"
    using assms id by (auto simp: deliver_pending_def Let_def republish_current_def with_store_def)
  let ?ev = "make_event (agent_config.truncate cfg) (ag_uuid a) (as_task_id st) x ty i"
  have "snd (xadd_event env (ag_world a) ?ev) \<or> (\<exists>f \<in> set (ag_outbox (emit_terminal env (agent_config.truncate cfg) now
      (as_task_id st) x ty i a)). of_event f = Some ?ev)"
    by (auto simp: emit_terminal_def emit_event_def persist_def Let_def split: prod.split)
  moreover have "ev_execution_id ?ev = x" "ev_type ?ev = ty" by (simp_all add: make_event_def)
  ultimately show ?thesis unfolding told_def out by blast
qed



end
