(* ===== verification/AgentOutbox.thy ===== *)
theory AgentOutbox
  imports AgentEvents
begin

text \<open>
  The delivery guarantee of the agent's event outbox: at least once, in spite of failing
  \<open>XADD\<close>s, as long as the file cap does not drop events; and never more files than the cap.
\<close>

section \<open>What Redis took\<close>

inductive xadds :: "('w, 'z) agent_env_scheme \<Rightarrow> 'w \<Rightarrow> agent_event list \<Rightarrow> 'w \<Rightarrow> bool" for env where
  xadds_nil: "xadds env w [] w"
| xadds_ok: "xadd_event env w e = (w1, True) \<Longrightarrow> xadds env w1 es w2 \<Longrightarrow> xadds env w (e # es) w2"
| xadds_fail: "xadd_event env w e = (w1, False) \<Longrightarrow> xadds env w1 es w2 \<Longrightarrow> xadds env w es w2"

lemma xadds_append: "xadds env w es w1 \<Longrightarrow> xadds env w1 fs w2 \<Longrightarrow> xadds env w (es @ fs) w2"
  by (induction rule: xadds.induct) (auto intro: xadds.intros)

lemma xadds_one:
  "xadd_event env w e = (w1, ok) \<Longrightarrow> xadds env w (if ok then [e] else []) w1"
  by (cases ok) (auto intro: xadds.intros)

definition queued :: "outbox_file list \<Rightarrow> agent_event set" where
  "queued fs = {ev. \<exists>f \<in> set fs. of_event f = Some ev}"

definition outbox_ok :: "nat \<Rightarrow> outbox_file list \<Rightarrow> bool" where
  \<comment> \<open>names are distinct event ids handed out so far\<close>
  "outbox_ok n fs \<longleftrightarrow> distinct (map of_name fs)
     \<and> (\<forall>f \<in> set fs. \<exists>m < n. of_name f = fresh_id m)"

lemma outbox_ok_subset:
  "outbox_ok n fs \<Longrightarrow> outbox_ok n (filter p fs)"
  by (auto simp: outbox_ok_def distinct_map intro: inj_on_subset)

lemma outbox_ok_mono: "outbox_ok n fs \<Longrightarrow> n \<le> m \<Longrightarrow> outbox_ok m fs"
  by (auto simp: outbox_ok_def dest: less_le_trans)

lemma outbox_ok_fresh: "outbox_ok n fs \<Longrightarrow> f \<in> set fs \<Longrightarrow> of_name f \<noteq> fresh_id n"
  by (auto simp: outbox_ok_def)

lemma queued_append [simp]: "queued (xs @ ys) = queued xs \<union> queued ys"
  by (auto simp: queued_def)

lemma queued_filter: "queued (filter p fs) \<subseteq> queued fs"
  by (auto simp: queued_def)

lemma remove_fresh [simp]: "outbox_ok n fs \<Longrightarrow> remove_outbox (fresh_id n) fs = fs"
  by (auto simp: remove_outbox_def filter_id_conv dest: outbox_ok_fresh)

lemma queued_remove:
  assumes "outbox_ok n fs" and "f \<in> set fs" and "of_event f = Some ev"
  shows "queued fs \<subseteq> insert ev (queued (remove_outbox (of_name f) fs))"
proof
  fix e assume "e \<in> queued fs"
  then obtain g where g: "g \<in> set fs" "of_event g = Some e" by (auto simp: queued_def)
  show "e \<in> insert ev (queued (remove_outbox (of_name f) fs))"
  proof (cases "of_name g = of_name f")
    case True
    then have "g = f" using assms(1,2) g(1) by (auto simp: outbox_ok_def distinct_map inj_on_def)
    with g assms(3) show ?thesis by simp
  qed (use g in \<open>auto simp: queued_def remove_outbox_def\<close>)
qed

section \<open>The cap\<close>

lemma enforce_subset: "\<exists>p. enforce_outbox_cap cap fs = filter p fs"
  unfolding enforce_outbox_cap_def Let_def
  by (auto intro: exI [of _ "\<lambda>_. True"])

lemma enforce_off [simp]: "cap \<le> 0 \<Longrightarrow> enforce_outbox_cap cap fs = fs"
  by (simp add: enforce_outbox_cap_def)

lemma length_remove_names:
  assumes "distinct (map of_name fs)" and "set ns \<subseteq> set (map of_name fs)" and "distinct ns"
  shows "length (filter (\<lambda>f. of_name f \<notin> set ns) fs) = length fs - length ns"
proof -
  have inj: "inj_on of_name (set fs)" and dis: "distinct fs"
    using assms(1) by (simp_all add: distinct_map)
  let ?hit = "filter (\<lambda>f. of_name f \<in> set ns) fs"
  have "inj_on of_name (set ?hit)" using inj by (rule inj_on_subset) auto
  then have "length ?hit = card (of_name ` set ?hit)"
    using distinct_card [OF distinct_filter [OF dis]] card_image by metis
  also have "of_name ` set (filter (\<lambda>f. of_name f \<in> set ns) fs) = set ns"
    using assms(2) by auto
  finally have "length (filter (\<lambda>f. of_name f \<in> set ns) fs) = length ns"
    using assms(3) by (simp add: distinct_card)
  moreover have "length (filter (\<lambda>f. of_name f \<in> set ns) fs) + length (filter (\<lambda>f. of_name f \<notin> set ns) fs) = length fs"
    by (rule sum_length_filter_compl)
  ultimately show ?thesis by simp
qed

lemma enforce_bounds:
  assumes "outbox_ok n fs" and "cap > 0"
  shows "int (length (enforce_outbox_cap cap fs)) < cap"
proof (cases "int (length fs) - cap + 1 \<le> 0")
  case True
  then show ?thesis using assms(2) by (simp add: enforce_outbox_cap_def)
next
  case False
  let ?k = "nat (int (length fs) - cap + 1)"
  let ?ns = "map of_name (take ?k (sort_key of_mtime fs))"
  have "distinct (map of_name (sort_key of_mtime fs))"
    using assms(1) by (auto simp: outbox_ok_def distinct_map)
  then have d: "distinct ?ns"
    using distinct_take [of "map of_name (sort_key of_mtime fs)" ?k] by (simp add: take_map)
  have "length (filter (\<lambda>f. of_name f \<notin> set ?ns) fs) = length fs - length ?ns"
    by (rule length_remove_names)
       (use assms(1) d in \<open>auto simp: outbox_ok_def dest!: in_set_takeD\<close>)
  with False assms(2) show ?thesis
    by (auto simp: enforce_outbox_cap_def Let_def)
qed

lemma enforce_drops_oldest:
  assumes "outbox_ok n fs" and "f \<in> set fs" and "f \<notin> set (enforce_outbox_cap cap fs)"
    and "g \<in> set (enforce_outbox_cap cap fs)"
  shows "of_mtime f \<le> of_mtime g"
proof -
  let ?ys = "sort_key of_mtime fs" and ?k = "nat (int (length fs) - cap + 1)"
  have e: "enforce_outbox_cap cap fs = filter (\<lambda>x. of_name x \<notin> of_name ` set (take ?k ?ys)) fs"
    using assms(2,3) by (auto simp: enforce_outbox_cap_def Let_def split: if_splits)
  have inj: "x = y" if "of_name x = of_name y" "x \<in> set fs" "y \<in> set fs" for x y
    using assms(1) that by (auto simp: outbox_ok_def distinct_map inj_on_def)
  have "of_name f \<in> of_name ` set (take ?k ?ys)" using assms(2,3) by (simp add: e)
  then obtain x where x: "x \<in> set (take ?k ?ys)" "of_name f = of_name x" by auto
  then have "x \<in> set fs" by (auto dest: in_set_takeD)
  with x inj assms(2) have f: "f \<in> set (take ?k ?ys)" by blast
  have "g \<in> set fs" "g \<notin> set (take ?k ?ys)" using assms(4) by (auto simp: e)
  then have g: "g \<in> set (drop ?k ?ys)"
    by (metis append_take_drop_id set_append set_sort Un_iff)
  have "sorted (map of_mtime (take ?k ?ys @ drop ?k ?ys))" by simp
  then have "\<forall>x \<in> set (take ?k ?ys). \<forall>y \<in> set (drop ?k ?ys). of_mtime x \<le> of_mtime y"
    unfolding map_append sorted_append by simp
  with f g show ?thesis by blast
qed

section \<open>Steps of the publisher\<close>

datatype publish_op =
    Pub_event instant string string agent_event_type event_info
  | Pub_replay

fun publish_step ::
    "('w, 'z) agent_env_scheme \<Rightarrow> agent_config \<Rightarrow> publish_op \<Rightarrow> ('w, 'y) agent_scheme \<Rightarrow> ('w, 'y) agent_scheme" where
  "publish_step env cfg (Pub_event now k x typ i) a = emit_terminal env cfg now k x typ i a"
| "publish_step env cfg Pub_replay a = fst (replay_outbox env a)"

fun published :: "agent_config \<Rightarrow> nat \<Rightarrow> publish_op list \<Rightarrow> agent_event set" where
  \<comment> \<open>the events handed to \<open>emit\<close>, with the ids they get\<close>
  "published cfg n [] = {}"
| "published cfg n (Pub_event now k x typ i # ops) = insert (make_event cfg n k x typ i) (published cfg (n + 1) ops)"
| "published cfg n (Pub_replay # ops) = published cfg n ops"

lemma make_event_id [simp]: "ev_event_id (make_event cfg n k x typ i) = fresh_id n"
  by (simp add: make_event_def)

lemma persist_cases:
  assumes "outbox_ok n fs"
  shows "outbox_ok (n + 1) (persist cfg m (make_event cfg n k x typ i) fs)"
    and "remove_outbox (fresh_id n) (persist cfg m (make_event cfg n k x typ i) fs)
      = enforce_outbox_cap (ac_max_outbox_files cfg) fs"
    and "queued (persist cfg m (make_event cfg n k x typ i) fs)
      = insert (make_event cfg n k x typ i) (queued (enforce_outbox_cap (ac_max_outbox_files cfg) fs))"
    and "length (persist cfg m (make_event cfg n k x typ i) fs)
      = Suc (length (enforce_outbox_cap (ac_max_outbox_files cfg) fs))"
proof -
  let ?fs = "enforce_outbox_cap (ac_max_outbox_files cfg) fs"
  have ok: "outbox_ok n ?fs"
    using enforce_subset [of "ac_max_outbox_files cfg" fs] outbox_ok_subset [OF assms] by auto
  have p: "persist cfg m (make_event cfg n k x typ i) fs
      = ?fs @ [\<lparr>of_name = fresh_id n, of_event = Some (make_event cfg n k x typ i), of_mtime = m\<rparr>]"
    using remove_fresh [OF ok] by (simp add: persist_def)
  show "outbox_ok (n + 1) (persist cfg m (make_event cfg n k x typ i) fs)"
  proof -
    have "fresh_id n \<notin> of_name ` set ?fs" using outbox_ok_fresh [OF ok] by fastforce
    then show ?thesis
      using ok unfolding p outbox_ok_def by (auto simp: less_Suc_eq)
  qed
  show "remove_outbox (fresh_id n) (persist cfg m (make_event cfg n k x typ i) fs) = ?fs"
    using remove_fresh [OF ok] unfolding p by (simp add: remove_outbox_def)
  show "queued (persist cfg m (make_event cfg n k x typ i) fs) = insert (make_event cfg n k x typ i) (queued ?fs)"
    unfolding p by (auto simp: queued_def)
  show "length (persist cfg m (make_event cfg n k x typ i) fs) = Suc (length ?fs)"
    unfolding p by simp
qed

lemma replay_files_sound:
  assumes "replay_files env fs (ob, w) n = ((ob', w'), n')" and "outbox_ok k ob" and "distinct fs"
    and "set fs \<subseteq> set ob"
  shows "(\<exists>es. xadds env w es w' \<and> queued ob \<subseteq> set es \<union> queued ob' \<and> set es \<subseteq> queued ob)
    \<and> outbox_ok k ob' \<and> set ob' \<subseteq> set ob \<and> length ob' \<le> length ob
    \<and> ((\<forall>w e. snd (xadd_event env w e)) \<longrightarrow> set ob' \<subseteq> set ob - set fs)"
  using assms
proof (induction fs arbitrary: ob w n)
  case Nil
  then show ?case by (auto intro: xadds_nil)
next
  case (Cons f fs)
  have f: "f \<in> set ob" using Cons.prems(4) by simp
  let ?ob = "remove_outbox (of_name f) ob"
  have ok: "outbox_ok k ?ob"
    using outbox_ok_subset [OF Cons.prems(2)] by (simp add: remove_outbox_def)
  have inj: "g \<in> set ob \<Longrightarrow> of_name g = of_name f \<Longrightarrow> g = f" for g
    using Cons.prems(2) f by (auto simp: outbox_ok_def distinct_map inj_on_def)
  have sub: "set fs \<subseteq> set ?ob" "set ?ob = set ob - {f}"
    using Cons.prems(3,4) inj by (auto simp: remove_outbox_def)
  have len: "length ?ob \<le> length ob" by (simp add: remove_outbox_def)
  show ?case
  proof (cases "of_event f")
    case None
    then have q: "queued ob = queued ?ob"
      using sub(2) by (auto simp: queued_def)
    have "replay_files env fs (?ob, w) n = ((ob', w'), n')" using Cons.prems(1) None by simp
    from Cons.IH [OF this ok _ sub(1)] Cons.prems(3) show ?thesis
      using sub(2) len unfolding q by auto
  next
    case (Some ev)
    have q: "queued ob \<subseteq> insert ev (queued ?ob)" "ev \<in> queued ob"
      using queued_remove [OF Cons.prems(2) f Some] Some f by (auto simp: queued_def)
    obtain w1 ok' where x: "xadd_event env w ev = (w1, ok')" by force
    show ?thesis
    proof (cases ok')
      case False
      then have "ob' = ob" "w' = w1" using Cons.prems(1) Some x by auto
      moreover have "\<not> (\<forall>w e. snd (xadd_event env w e))"
        using x False by (metis snd_conv)
      ultimately show ?thesis
        using Cons.prems(2) xadds_one [OF x] False by auto
    next
      case True
      then have x': "xadd_event env w ev = (w1, True)" using x by simp
      then have "replay_files env fs (?ob, w1) (n + 1) = ((ob', w'), n')"
        using Cons.prems(1) Some by simp
      from Cons.IH [OF this ok _ sub(1)] Cons.prems(3)
      obtain es where es: "xadds env w1 es w'" "queued ?ob \<subseteq> set es \<union> queued ob'" "set es \<subseteq> queued ?ob"
        and rest: "outbox_ok k ob'" "set ob' \<subseteq> set ?ob" "length ob' \<le> length ?ob"
          "(\<forall>w e. snd (xadd_event env w e)) \<longrightarrow> set ob' \<subseteq> set ?ob - set fs" by auto
      have "queued ?ob \<subseteq> queued ob" using sub(2) by (auto simp: queued_def)
      then show ?thesis
        using xadds_ok [OF x' es(1)] es q rest sub(2) len by fastforce
    qed
  qed
qed

lemma publish_step_sound:
  assumes "outbox_ok (ag_uuid a) (ag_outbox a)" and "b = publish_step env cfg op a"
  shows "(\<exists>es. xadds env (ag_world a) es (ag_world b)
        \<and> (ac_max_outbox_files cfg \<le> 0 \<longrightarrow>
            queued (ag_outbox a) \<union> published cfg (ag_uuid a) [op] \<subseteq> set es \<union> queued (ag_outbox b))
        \<and> set es \<union> queued (ag_outbox b) \<subseteq> queued (ag_outbox a) \<union> published cfg (ag_uuid a) [op])
    \<and> outbox_ok (ag_uuid b) (ag_outbox b)
    \<and> ag_uuid b = (case op of Pub_replay \<Rightarrow> ag_uuid a | _ \<Rightarrow> ag_uuid a + 1)
    \<and> (ac_max_outbox_files cfg > 0 \<longrightarrow>
        int (length (ag_outbox b)) \<le> max (int (length (ag_outbox a))) (ac_max_outbox_files cfg))"
proof (cases op)
  case (Pub_event now k x ty i)
  let ?ev = "make_event cfg (ag_uuid a) k x ty i" and ?cap = "ac_max_outbox_files cfg"
  let ?fs = "enforce_outbox_cap ?cap (ag_outbox a)"
  obtain w ok where xa: "xadd_event env (ag_world a) ?ev = (w, ok)" by force
  note pc = persist_cases [OF assms(1), of cfg now k x ty i]
  have b: "ag_world b = w" "ag_uuid b = ag_uuid a + 1"
    "ag_outbox b = (if ok then ?fs else persist cfg now ?ev (ag_outbox a))"
    using assms(2) Pub_event xa pc(2) by (simp_all add: emit_terminal_def emit_event_def Let_def)
  have fs: "queued ?fs \<subseteq> queued (ag_outbox a)" "outbox_ok (ag_uuid a) ?fs"
    using enforce_subset [of ?cap "ag_outbox a"] outbox_ok_subset [OF assms(1)]
    by (auto dest: set_mp [OF queued_filter])
  have len: "?cap > 0 \<Longrightarrow> int (length ?fs) < ?cap" by (rule enforce_bounds [OF assms(1)])
  have "(\<exists>es. xadds env (ag_world a) es (ag_world b)
      \<and> (?cap \<le> 0 \<longrightarrow> queued (ag_outbox a) \<union> {?ev} \<subseteq> set es \<union> queued (ag_outbox b))
      \<and> set es \<union> queued (ag_outbox b) \<subseteq> queued (ag_outbox a) \<union> {?ev})"
    using xadds_one [OF xa] b fs(1) pc(3) by (cases ok) (auto intro!: exI)
  moreover have "outbox_ok (ag_uuid b) (ag_outbox b)"
    using b pc(1) outbox_ok_mono [OF fs(2)] by auto
  moreover have "?cap > 0 \<longrightarrow> int (length (ag_outbox b)) \<le> max (int (length (ag_outbox a))) ?cap"
    using b(3) pc(4) len by auto
  ultimately show ?thesis using Pub_event b(2) by simp
next
  case Pub_replay
  let ?fs = "sort_key of_name (ag_outbox a)"
  obtain ob w n where r: "replay_files env ?fs (ag_outbox a, ag_world a) 0 = ((ob, w), n)" by (metis surj_pair)
  have "distinct ?fs"
    using assms(1) by (auto simp: outbox_ok_def distinct_map)
  from replay_files_sound [OF r assms(1) this] show ?thesis
    using r Pub_replay assms(2) by (fastforce simp: replay_outbox_def queued_def)
qed

lemma replay_drains:
  assumes "outbox_ok (ag_uuid a) (ag_outbox a)" and "\<forall>w e. snd (xadd_event env w e)"
  shows "ag_outbox (fst (replay_outbox env a)) = []"
proof -
  let ?fs = "sort_key of_name (ag_outbox a)"
  obtain ob w n where r: "replay_files env ?fs (ag_outbox a, ag_world a) 0 = ((ob, w), n)" by (metis surj_pair)
  have "distinct ?fs"
    using assms(1) by (auto simp: outbox_ok_def distinct_map)
  from replay_files_sound [OF r assms(1) this] assms(2) have "set ob = {}" by auto
  then show ?thesis using r by (simp add: replay_outbox_def)
qed

text \<open>C14. Delivery of events at least once. Over any sequence of emits and replays, with any pattern
  of failing \<open>XADD\<close>s, nothing reaches Redis or the outbox that was not queued or emitted; with the
  file cap off, every event that was queued or emitted has been taken by Redis or is
  queued afterwards. With the cap on, the outbox never grows past it and an emit drops none but the oldest files. Once Redis takes everything,
  one replay empties the outbox. (Nothing is said of the order: a replay goes by file name, a random id.)
\<close>

theorem outbox_at_least_once:
  assumes "outbox_ok (ag_uuid a) (ag_outbox a)" and b_def: "b = fold (publish_step env cfg) ops a"
  shows "(\<exists>es. xadds env (ag_world a) es (ag_world b)
        \<and> (ac_max_outbox_files cfg \<le> 0 \<longrightarrow>
            queued (ag_outbox a) \<union> published cfg (ag_uuid a) ops \<subseteq> set es \<union> queued (ag_outbox b))
        \<and> set es \<union> queued (ag_outbox b) \<subseteq> queued (ag_outbox a) \<union> published cfg (ag_uuid a) ops)
    \<and> (ac_max_outbox_files cfg > 0 \<longrightarrow>
        int (length (ag_outbox b)) \<le> max (int (length (ag_outbox a))) (ac_max_outbox_files cfg))
    \<and> (\<forall>f \<in> set (ag_outbox b). \<forall>g \<in> set (enforce_outbox_cap (ac_max_outbox_files cfg) (ag_outbox b)).
        f \<notin> set (enforce_outbox_cap (ac_max_outbox_files cfg) (ag_outbox b)) \<longrightarrow> of_mtime f \<le> of_mtime g)
    \<and> ((\<forall>w e. snd (xadd_event env w e)) \<longrightarrow> ag_outbox (fst (replay_outbox env b)) = [])"
proof -
  have "(\<exists>es. xadds env (ag_world a) es (ag_world b)
        \<and> (ac_max_outbox_files cfg \<le> 0 \<longrightarrow>
            queued (ag_outbox a) \<union> published cfg (ag_uuid a) ops \<subseteq> set es \<union> queued (ag_outbox b))
        \<and> set es \<union> queued (ag_outbox b) \<subseteq> queued (ag_outbox a) \<union> published cfg (ag_uuid a) ops)
    \<and> (ac_max_outbox_files cfg > 0 \<longrightarrow>
        int (length (ag_outbox b)) \<le> max (int (length (ag_outbox a))) (ac_max_outbox_files cfg))
    \<and> outbox_ok (ag_uuid b) (ag_outbox b)"
    using assms
  proof (induction ops arbitrary: a)
    case Nil
    then show ?case by (auto intro: xadds_nil)
  next
    case (Cons op ops)
    let ?c = "publish_step env cfg op a"
    obtain es where es: "xadds env (ag_world a) es (ag_world ?c)"
      "ac_max_outbox_files cfg \<le> 0 \<longrightarrow>
         queued (ag_outbox a) \<union> published cfg (ag_uuid a) [op] \<subseteq> set es \<union> queued (ag_outbox ?c)"
      "set es \<union> queued (ag_outbox ?c) \<subseteq> queued (ag_outbox a) \<union> published cfg (ag_uuid a) [op]"
      and c: "outbox_ok (ag_uuid ?c) (ag_outbox ?c)"
        "ag_uuid ?c = (case op of Pub_replay \<Rightarrow> ag_uuid a | _ \<Rightarrow> ag_uuid a + 1)"
        "ac_max_outbox_files cfg > 0 \<longrightarrow>
           int (length (ag_outbox ?c)) \<le> max (int (length (ag_outbox a))) (ac_max_outbox_files cfg)"
      using publish_step_sound [OF Cons.prems(1) refl, of env cfg op] by blast
    have p: "published cfg (ag_uuid a) (op # ops)
        = published cfg (ag_uuid a) [op] \<union> published cfg (ag_uuid ?c) ops"
      using c(2) by (cases op) auto
    have "b = fold (publish_step env cfg) ops ?c" using Cons.prems(2) by simp
    from Cons.IH [OF c(1) this] obtain fs where fs: "xadds env (ag_world ?c) fs (ag_world b)"
      "ac_max_outbox_files cfg \<le> 0 \<longrightarrow>
         queued (ag_outbox ?c) \<union> published cfg (ag_uuid ?c) ops \<subseteq> set fs \<union> queued (ag_outbox b)"
      "set fs \<union> queued (ag_outbox b) \<subseteq> queued (ag_outbox ?c) \<union> published cfg (ag_uuid ?c) ops"
      and rest: "ac_max_outbox_files cfg > 0 \<longrightarrow>
           int (length (ag_outbox b)) \<le> max (int (length (ag_outbox ?c))) (ac_max_outbox_files cfg)"
        "outbox_ok (ag_uuid b) (ag_outbox b)" by blast
    show ?case
      unfolding p using xadds_append [OF es(1) fs(1)] es(2,3) fs(2,3) rest c(3)
      by (intro conjI exI [of _ "es @ fs"]) auto
  qed
  then show ?thesis using replay_drains enforce_drops_oldest by blast
qed

text \<open>A Redis that refuses every other call, over a counter of the calls.\<close>

definition flaky_bus :: "nat agent_env" where
  "flaky_bus = \<lparr>http_post = \<lambda>w p d. (w, Http_failed []), http_get = \<lambda>w p d. (w, Http_failed []),
     xadd_event = \<lambda>w e. (Suc w, w mod 2 = 1)\<rparr>"

definition sample_publisher :: "nat agent" where
  "sample_publisher = \<lparr>ag_store = [], ag_files = [], ag_outbox = [], ag_uuid = 0, ag_world = 0\<rparr>"

definition sample_agent_config :: agent_config where
  "sample_agent_config = \<lparr>ac_agent_id = ''a1'', ac_max_outbox_files = 2,
     ac_runner = \<lparr>rn_logs_dir = [], rn_max_job_log_bytes = 0\<rparr>, ac_heartbeat_interval = 0, ac_log_cap = 0,
     ac_flood_kill_after = 0, ac_stop_kill_after = 0, ac_stop_confirm_timeout = 0, ac_kill_retry_interval = 0\<rparr>"

lemma outbox_at_least_once_witness:
  "int (length (ag_outbox (fold (publish_step flaky_bus sample_agent_config)
      [Pub_event 5 ''t'' ''e'' Ev_running no_info, Pub_event 6 ''t'' ''e'' Ev_finished no_info,
       Pub_event 7 ''t'' ''f'' Ev_running no_info, Pub_replay] sample_publisher))) \<le> 2"
proof -
  have "outbox_ok (ag_uuid sample_publisher) (ag_outbox sample_publisher)"
    by (simp add: outbox_ok_def sample_publisher_def)
  from outbox_at_least_once [OF this refl, of flaky_bus sample_agent_config
      "[Pub_event 5 ''t'' ''e'' Ev_running no_info, Pub_event 6 ''t'' ''e'' Ev_finished no_info,
        Pub_event 7 ''t'' ''f'' Ev_running no_info, Pub_replay]"]
  have "ac_max_outbox_files sample_agent_config > 0 \<longrightarrow>
      int (length (ag_outbox (fold (publish_step flaky_bus sample_agent_config)
        [Pub_event 5 ''t'' ''e'' Ev_running no_info, Pub_event 6 ''t'' ''e'' Ev_finished no_info,
         Pub_event 7 ''t'' ''f'' Ev_running no_info, Pub_replay] sample_publisher)))
      \<le> max (int (length (ag_outbox sample_publisher))) (ac_max_outbox_files sample_agent_config)"
    by blast
  then show ?thesis by (simp only: sample_agent_config_def sample_publisher_def) simp
qed

end
