(* ===== verification/AgentLogs.thy ===== *)
theory AgentLogs
  imports AgentCommands "HOL-Library.Sublist"
begin

text \<open>
  The agent's log publisher (\<^verbatim>\<open>apps/agent/dopilot_agent/redis/logs.py\<close>): it tails the local
  \<open>job.log\<close> of every attempt from a persisted byte cursor and publishes the increments, bounded by
  a byte cap per execution and by a token bucket for the whole agent.

  \<^item> The \<open>XADD\<close> to the log stream is a parameter over the world \<open>'w\<close>, with \<open>False\<close> for an
    exception. Base64 is the identity: an event carries the bytes.
  \<^item> The bucket counts tokens in millionths of a byte and time in microseconds, where the code has
    floats; \<open>int(self._tokens)\<close> is the division.
  \<^item> The \<open>while True\<close> of \<open>publish_attempt\<close> reads one snapshot of the log. It ends because each round
    that goes on has read at least one byte before the end of the file.
\<close>

section \<open>The publisher\<close>

record 'w log_os = "'w cache_os" +
  xadd_log :: "'w \<Rightarrow> agent_log_event \<Rightarrow> 'w \<times> bool"

record log_config = daemon_config +
  lc_max_bytes :: int
  lc_rate :: int

record 'w log_agent = "'w daemon" +
  lp_tokens :: int
  lp_last_refill :: int
  lp_rotate_from :: nat

definition read_cursor :: "('w, 'y) consumer_scheme \<Rightarrow> string \<Rightarrow> nat" where
  "read_cursor a execution_id = or_default (map_of (cs_cursors a) execution_id) 0"

definition write_cursor :: "string \<Rightarrow> nat \<Rightarrow> ('w, 'y) consumer_scheme \<Rightarrow> ('w, 'y) consumer_scheme" where
  "write_cursor execution_id offset a = a\<lparr>cs_cursors := AList.update execution_id offset (cs_cursors a)\<rparr>"

definition read_raw :: "files \<Rightarrow> string \<Rightarrow> nat \<Rightarrow> int \<Rightarrow> string" where
  \<comment> \<open>\<open>fh.seek(offset); fh.read(max_bytes)\<close>, or nothing for a missing file\<close>
  "read_raw fs path offset max_bytes =
     (case map_of fs path of None \<Rightarrow> [] | Some c \<Rightarrow> take (nat max_bytes) (drop offset c))"

section \<open>The token bucket\<close>

definition bucket_capacity :: "('c) log_config_scheme \<Rightarrow> int" where
  "bucket_capacity lc = 1000000 * (lc_rate lc * 2)"

definition refill :: "('c) log_config_scheme \<Rightarrow> int \<Rightarrow> ('w, 'y) log_agent_scheme \<Rightarrow> ('w, 'y) log_agent_scheme" where
  "refill lc clock a =
     (if lc_rate lc \<le> 0 then a
      else a\<lparr>lp_last_refill := clock,
             lp_tokens := min (bucket_capacity lc) (lp_tokens a + max 0 (clock - lp_last_refill a) * lc_rate lc)\<rparr>)"

definition allowance :: "('c) log_config_scheme \<Rightarrow> ('w, 'y) log_agent_scheme \<Rightarrow> int" where
  "allowance lc a = (if lc_rate lc \<le> 0 then lc_max_bytes lc else lp_tokens a div 1000000)"

definition spend :: "('c) log_config_scheme \<Rightarrow> nat \<Rightarrow> ('w, 'y) log_agent_scheme \<Rightarrow> ('w, 'y) log_agent_scheme" where
  "spend lc n a = (if lc_rate lc > 0 then a\<lparr>lp_tokens := max 0 (lp_tokens a - 1000000 * int n)\<rparr> else a)"

section \<open>The cap of one execution\<close>

definition log_marker :: "('c) agent_config_scheme \<Rightarrow> string" where
  "log_marker lc = [CHR 0x0A] @ ''[dopilot:log-truncated max_bytes='' @ show_int (ac_log_cap lc)
     @ '' reason=size-cap]'' @ [CHR 0x0A]"

definition content_cap :: "('c) agent_config_scheme \<Rightarrow> int" where
  "content_cap lc = max 0 (ac_log_cap lc - int (length (log_marker lc)))"

definition marker_allowed :: "('c) log_config_scheme \<Rightarrow> int \<Rightarrow> bool" where
  "marker_allowed lc n \<longleftrightarrow> lc_rate lc \<le> 0 \<or> n \<ge> int (length (log_marker lc))"

definition cap_execution :: "instant \<Rightarrow> string \<Rightarrow> ('w, 'y) agent_scheme \<Rightarrow> ('w, 'y) agent_scheme" where
  \<comment> \<open>\<open>LogPublisher.cap\<close>\<close>
  "cap_execution now execution_id a = with_store (\<lambda>d. mark_log_capped d now execution_id) a"

definition log_event ::
    "('c) agent_config_scheme \<Rightarrow> attempt_state \<Rightarrow> string \<Rightarrow> nat \<Rightarrow> string \<Rightarrow> bool \<Rightarrow> agent_log_event" where
  "log_event lc st execution_id offset content eof =
     \<lparr>le_agent_id = ac_agent_id lc, le_task_id = as_task_id st, le_execution_id = execution_id,
      le_stream = Stream_log, le_offset = int offset, le_content = content,
      le_size_bytes = int (length content), le_eof = eof\<rparr>"

definition publish_marker ::
    "('w, 'z) log_os_scheme \<Rightarrow> ('c) log_config_scheme \<Rightarrow> attempt_state \<Rightarrow> string \<Rightarrow> nat
      \<Rightarrow> ('w, 'y) log_agent_scheme \<Rightarrow> ('w, 'y) log_agent_scheme \<times> bool" where
  "publish_marker env lc st execution_id cursor a =
     (case xadd_log env (ag_world a) (log_event lc st execution_id cursor (log_marker lc) False) of
        (w, ok) \<Rightarrow> (a\<lparr>ag_world := w\<rparr>, ok))"

section \<open>Publishing one execution\<close>

definition cap_reached ::
    "('w, 'z) log_os_scheme \<Rightarrow> ('c) log_config_scheme \<Rightarrow> instant \<Rightarrow> attempt_state \<Rightarrow> string \<Rightarrow> nat \<Rightarrow> nat
      \<Rightarrow> ('w, 'y) log_agent_scheme \<Rightarrow> ('w, 'y) log_agent_scheme \<times> attempt_state \<times> nat" where
  \<comment> \<open>the branch that publishes the truncation marker\<close>
  "cap_reached env lc now st execution_id cursor sent a =
     (if \<not> marker_allowed lc (allowance lc a) then (a, st, sent)
      else (case publish_marker env lc st execution_id cursor a of
          (a, False) \<Rightarrow> (a, st, sent)
        | (a, True) \<Rightarrow>
           (case mark_log_capped (ag_store a) now execution_id of
              (d, st') \<Rightarrow> (spend lc (length (log_marker lc)) (a\<lparr>ag_store := d\<rparr>),
                or_default st' st, sent + length (log_marker lc)))))"

definition want :: "('c) log_config_scheme \<Rightarrow> int \<Rightarrow> nat \<Rightarrow> int" where
  \<comment> \<open>how many bytes the next read asks for\<close>
  "want lc allowed cursor =
     (let n = min (lc_max_bytes lc) allowed
      in if ac_log_cap lc > 0 then min n (content_cap lc - int cursor) else n)"

lemma spend_frame [simp]:
  "ag_files (spend lc n a) = ag_files a" "ag_store (spend lc n a) = ag_store a"
  "ag_world (spend lc n a) = ag_world a" "cs_cursors (spend lc n a) = cs_cursors a"
  "cs_eof_sent (spend lc n a) = cs_eof_sent a"
  by (simp_all add: spend_def)

lemma write_cursor_frame [simp]:
  "ag_files (write_cursor x n a) = ag_files a" "ag_store (write_cursor x n a) = ag_store a"
  "ag_world (write_cursor x n a) = ag_world a" "cs_eof_sent (write_cursor x n a) = cs_eof_sent a"
  by (simp_all add: write_cursor_def)

lemma read_raw_advances:
  "read_raw fs path offset n \<noteq> [] \<Longrightarrow>
     length (or_default (map_of fs path) []) - (offset + length (read_raw fs path offset n))
       < length (or_default (map_of fs path) []) - offset"
  by (auto simp: read_raw_def split: option.splits)

function publish_loop ::
    "('w, 'z) log_os_scheme \<Rightarrow> ('c) log_config_scheme \<Rightarrow> instant \<Rightarrow> attempt_state \<Rightarrow> string \<Rightarrow> nat \<Rightarrow> nat
      \<Rightarrow> ('w, 'y) log_agent_scheme \<Rightarrow> ('w, 'y) log_agent_scheme \<times> attempt_state \<times> nat \<times> nat \<times> bool" where
  \<comment> \<open>agent, state, cursor and total after the loop; \<open>False\<close> when a failed \<open>XADD\<close> returns at once\<close>
  "publish_loop env lc now st execution_id cursor sent a =
     (let allowed = allowance lc a in
      if allowed \<le> 0 then (a, st, cursor, sent, True)
      else if ac_log_cap lc > 0 \<and> int cursor \<ge> content_cap lc then
        (case cap_reached env lc now st execution_id cursor sent a of
           (a, st, sent) \<Rightarrow> (a, st, cursor, sent, True))
      else (let raw = read_raw (ag_files a) (as_log_path st) cursor (want lc allowed cursor) in
        if raw = [] then (a, st, cursor, sent, True)
        else (case xadd_log env (ag_world a) (log_event lc st execution_id cursor raw False) of
            (w, False) \<Rightarrow> (a\<lparr>ag_world := w\<rparr>, st, cursor, sent, False)
          | (w, True) \<Rightarrow>
             (let a' = spend lc (length raw) (write_cursor execution_id (cursor + length raw) (a\<lparr>ag_world := w\<rparr>))
              in if int (length raw) < want lc allowed cursor
                 then (a', st, cursor + length raw, sent + length raw, True)
                 else publish_loop env lc now st execution_id (cursor + length raw) (sent + length raw) a'))))"
  by pat_completeness auto

termination publish_loop
  by (relation "measure (\<lambda>(env, lc, now, st, x, cursor, sent, a).
        length (or_default (map_of (ag_files a) (as_log_path st)) []) - cursor)")
     (use read_raw_advances in force)+

declare publish_loop.simps [simp del]

text \<open>The proof rule of the loop: an invariant that every round that goes on keeps, and what each of
  the ways out establishes from it: nothing allowed or nothing left to read, the cap, a refusal.\<close>

lemma publish_loop_rule:
  assumes "Inv cursor n a"
    and step: "\<And>c n a raw w. Inv c n a \<Longrightarrow> allowance lc a > 0 \<Longrightarrow> \<not> (ac_log_cap lc > 0 \<and> int c \<ge> content_cap lc)
      \<Longrightarrow> raw = read_raw (ag_files a) (as_log_path st) c (want lc (allowance lc a) c) \<Longrightarrow> raw \<noteq> []
      \<Longrightarrow> xadd_log env (ag_world a) (log_event lc st y c raw False) = (w, True)
      \<Longrightarrow> Inv (c + length raw) (n + length raw)
            (spend lc (length raw) (write_cursor y (c + length raw) (a\<lparr>ag_world := w\<rparr>)))"
    and stop: "\<And>c n a. Inv c n a \<Longrightarrow> allowance lc a \<le> 0 \<or> \<not> (ac_log_cap lc > 0 \<and> int c \<ge> content_cap lc)
        \<and> (lc_max_bytes lc \<le> 0 \<or> length (or_default (map_of (ag_files a) (as_log_path st)) []) \<le> c)
      \<Longrightarrow> Post (a, st, c, n, True)"
    and capped: "\<And>c n a b s m. Inv c n a \<Longrightarrow> ac_log_cap lc > 0 \<Longrightarrow> int c \<ge> content_cap lc \<Longrightarrow> allowance lc a > 0
      \<Longrightarrow> cap_reached env lc now st y c n a = (b, s, m) \<Longrightarrow> Post (b, s, c, m, True)"
    and refused: "\<And>c n a raw w. Inv c n a \<Longrightarrow> raw = read_raw (ag_files a) (as_log_path st) c (want lc (allowance lc a) c)
      \<Longrightarrow> raw \<noteq> [] \<Longrightarrow> xadd_log env (ag_world a) (log_event lc st y c raw False) = (w, False)
      \<Longrightarrow> Post (a\<lparr>ag_world := w\<rparr>, st, c, n, False)"
  shows "Post (publish_loop env lc now st y cursor n a)"
  using assms
proof (induction env lc now st y cursor n a rule: publish_loop.induct)
  case (1 env lc now st y c n a)
  note inv = "1.prems"(1) and step = "1.prems"(2) and stop = "1.prems"(3) and capped = "1.prems"(4)
    and refused = "1.prems"(5)
  define al where "al = allowance lc a"
  define raw where "raw = read_raw (ag_files a) (as_log_path st) c (want lc al c)"
  let ?file = "or_default (map_of (ag_files a) (as_log_path st)) []"
  have raw_file: "raw = take (nat (want lc al c)) (drop c ?file)"
    by (simp add: raw_def read_raw_def split: option.split)
  have want_pos: "want lc al c > 0"
    if w: "al > 0" "lc_max_bytes lc > 0" "\<not> (ac_log_cap lc > 0 \<and> int c \<ge> content_cap lc)"
    using w by (auto simp: want_def Let_def)
  show ?case
  proof (cases "al \<le> 0 \<or> (ac_log_cap lc > 0 \<and> int c \<ge> content_cap lc) \<or> raw = []")
    case True
    obtain b s m where "cap_reached env lc now st y c n a = (b, s, m)" by (metis surj_pair)
    moreover have "lc_max_bytes lc \<le> 0 \<or> length ?file \<le> c"
      if e: "al > 0" "\<not> (ac_log_cap lc > 0 \<and> int c \<ge> content_cap lc)" "raw = []"
      using want_pos e raw_file by fastforce
    ultimately show ?thesis
      using True stop [OF inv] capped [OF inv]
      by (auto simp: publish_loop.simps [of env lc now st y c n a] Let_def al_def raw_def split: if_splits)
  next
    case False
    obtain w ok where x: "xadd_log env (ag_world a) (log_event lc st y c raw False) = (w, ok)" by force
    let ?b = "spend lc (length raw) (write_cursor y (c + length raw) (a\<lparr>ag_world := w\<rparr>))"
    show ?thesis
    proof (cases ok)
      case f: False
      then show ?thesis
        using refused [OF inv, of raw w] False x
        by (auto simp: publish_loop.simps [of env lc now st y c n a] Let_def al_def raw_def)
    next
      case t: True
      have i: "Inv (c + length raw) (n + length raw) ?b"
        using step [OF inv, of raw w] False x t by (auto simp: al_def raw_def)
      show ?thesis
      proof (cases "int (length raw) < want lc al c")
        case True
        then have "length ?file \<le> c + length raw" using raw_file by auto
        moreover have "\<not> (ac_log_cap lc > 0 \<and> int (c + length raw) \<ge> content_cap lc)"
          using True by (auto simp: want_def Let_def)
        ultimately show ?thesis
          using stop [OF i] False x t True
          by (auto simp: publish_loop.simps [of env lc now st y c n a] Let_def al_def raw_def)
      next
        case go: False
        have "Post (publish_loop env lc now st y (c + length raw) (n + length raw) ?b)"
        proof (rule "1.IH" [of al raw w True])
          show "Inv (c + length raw) (n + length raw) ?b" by (rule i)
        qed ((use False x t go in \<open>simp add: al_def raw_def; fail\<close>)
            | (rule step stop capped refused, assumption+))+
        then show ?thesis
          using False x t go
          by (auto simp: publish_loop.simps [of env lc now st y c n a] Let_def al_def raw_def)
      qed
    qed
  qed
qed

definition publish_eof ::
    "('w, 'z) log_os_scheme \<Rightarrow> ('c) log_config_scheme \<Rightarrow> attempt_state \<Rightarrow> string \<Rightarrow> nat
      \<Rightarrow> ('w, 'y) log_agent_scheme \<Rightarrow> ('w, 'y) log_agent_scheme" where
  "publish_eof env lc st execution_id cursor a =
     (if as_phase st = Phase_done \<and> execution_id \<notin> cs_eof_sent a then
        (case xadd_log env (ag_world a) (log_event lc st execution_id cursor [] True) of
           (w, False) \<Rightarrow> a\<lparr>ag_world := w\<rparr>
         | (w, True) \<Rightarrow> on_execution_eof execution_id
             (a\<lparr>ag_world := w, cs_eof_sent := insert execution_id (cs_eof_sent a)\<rparr>))
      else a)"

definition publish_attempt ::
    "('w, 'z) log_os_scheme \<Rightarrow> ('c) log_config_scheme \<Rightarrow> instant \<Rightarrow> string
      \<Rightarrow> ('w, 'y) log_agent_scheme \<Rightarrow> ('w, 'y) log_agent_scheme \<times> nat" where
  "publish_attempt env lc now execution_id a =
     (case read_state (ag_store a) execution_id of
        None \<Rightarrow> (a, 0)
      | Some st \<Rightarrow>
         if as_log_path st = [] then (a, 0)
         else (case (if as_log_capped st then (a, st, read_cursor a execution_id, 0, True)
                     else publish_loop env lc now st execution_id (read_cursor a execution_id) 0 a) of
             (a, st, cursor, sent, went_on) \<Rightarrow>
               (if went_on then publish_eof env lc st execution_id cursor a else a, sent)))"

section \<open>The tick\<close>

primrec publish_scan ::
    "('w, 'z) log_os_scheme \<Rightarrow> ('c) log_config_scheme \<Rightarrow> instant \<Rightarrow> nat \<Rightarrow> nat \<Rightarrow> string list
      \<Rightarrow> ('w, 'y) log_agent_scheme \<Rightarrow> ('w, 'y) log_agent_scheme \<times> nat" where
  \<comment> \<open>the loop over the rotated ids, \<open>pos\<close> the position of the first of them, with its \<open>else\<close>\<close>
  "publish_scan env lc now count pos [] a = (a\<lparr>lp_rotate_from := 0\<rparr>, 0)"
| "publish_scan env lc now count pos (x # xs) a =
     (if allowance lc a \<le> 0 then (a\<lparr>lp_rotate_from := pos mod count\<rparr>, 0)
      else (let (a, n) = publish_attempt env lc now x a;
                (a, m) = publish_scan env lc now count (Suc pos) xs a
        in (a, n + m)))"

definition publish_once ::
    "('w, 'z) log_os_scheme \<Rightarrow> ('c) log_config_scheme \<Rightarrow> instant \<Rightarrow> int
      \<Rightarrow> ('w, 'y) log_agent_scheme \<Rightarrow> ('w, 'y) log_agent_scheme \<times> nat" where
  "publish_once env lc now clock a =
     (let a = refill lc clock a;
          ids = list_execution_ids (ag_store a)
      in if ids = [] then (a, 0)
         else (let start = lp_rotate_from a mod length ids
           in publish_scan env lc now (length ids) start (drop start ids @ take start ids) a))"

end
