(* ===== verification/LogBus.thy ===== *)
theory LogBus
  imports AgentLogs
begin

text \<open>
  The agent's half of the log pipeline: what reaches the log stream is, per execution, the
  contiguous prefix of the log file up to the persisted cursor, with at most one truncation marker
  at the end.

  The stream is a list and Redis answers by a script: it took the entry, it refused it, or it took
  it and the reply was lost.
\<close>

section \<open>A scripted stream\<close>

datatype xadd_reply = Reply_ok | Reply_refused | Reply_lost

record bus =
  bu_stream :: "agent_log_event list"
  bu_script :: "xadd_reply list"

definition bus_xadd :: "bus \<Rightarrow> agent_log_event \<Rightarrow> bus \<times> bool" where
  "bus_xadd b e =
     (case bu_script b of
        [] \<Rightarrow> (b\<lparr>bu_stream := bu_stream b @ [e]\<rparr>, True)
      | r # rs \<Rightarrow> (b\<lparr>bu_stream := bu_stream b @ (if r = Reply_refused then [] else [e]), bu_script := rs\<rparr>,
          r = Reply_ok))"

definition definite :: "bus \<Rightarrow> bool" where
  \<comment> \<open>no reply is lost: an exception means that Redis did not take the entry\<close>
  "definite b \<longleftrightarrow> Reply_lost \<notin> set (bu_script b)"

lemma bus_xadd_cases:
  assumes "bus_xadd b e = (b', ok)" and "definite b"
  obtains "ok" "bu_stream b' = bu_stream b @ [e]" "definite b'"
    | "\<not> ok" "bu_stream b' = bu_stream b" "definite b'"
proof (cases "bu_script b")
  case (Cons r rs)
  then show ?thesis
    using assms that by (cases r) (auto simp: bus_xadd_def definite_def)
qed (use assms that in \<open>auto simp: bus_xadd_def definite_def\<close>)

lemma bus_xadd_stream:
  assumes "bus_xadd b e = (b', ok)"
  obtains es where "bu_stream b' = bu_stream b @ es" "set es \<subseteq> {e}"
  using assms by (auto simp: bus_xadd_def split: list.splits if_splits)

lemma bus_xadd_definite: "bus_xadd b e = (b', ok) \<Longrightarrow> definite b \<Longrightarrow> definite b'"
  by (auto simp: bus_xadd_def definite_def split: list.splits)

section \<open>Contiguous entries\<close>

definition data_of :: "string \<Rightarrow> agent_log_event list \<Rightarrow> agent_log_event list" where
  "data_of x es = filter (\<lambda>e. le_execution_id e = x \<and> \<not> le_eof e) es"

definition bytes_of :: "agent_log_event list \<Rightarrow> string" where
  "bytes_of es = concat (map le_content es)"

fun contiguous :: "string \<Rightarrow> int \<Rightarrow> agent_log_event list \<Rightarrow> bool" where
  "contiguous task n [] = True"
| "contiguous task n (e # es) \<longleftrightarrow> le_offset e = n \<and> le_content e \<noteq> []
     \<and> le_size_bytes e = int (length (le_content e)) \<and> le_task_id e = task \<and> le_stream e = Stream_log
     \<and> contiguous task (n + le_size_bytes e) es"

lemma bytes_of_simps [simp]:
  "bytes_of [] = []" "bytes_of (e # es) = le_content e @ bytes_of es"
  "bytes_of (es @ fs) = bytes_of es @ bytes_of fs"
  by (simp_all add: bytes_of_def)

lemma data_of_simps [simp]:
  "data_of x [] = []" "data_of x (es @ fs) = data_of x es @ data_of x fs"
  "data_of x (e # es) = (if le_execution_id e = x \<and> \<not> le_eof e then e # data_of x es else data_of x es)"
  by (simp_all add: data_of_def)

lemma data_of_other: "(\<And>e. e \<in> set es \<Longrightarrow> le_execution_id e \<noteq> x \<or> le_eof e) \<Longrightarrow> data_of x es = []"
  by (auto simp: data_of_def filter_empty_conv)

lemma contiguous_append:
  "contiguous task n (es @ fs) \<longleftrightarrow>
     contiguous task n es \<and> contiguous task (n + int (length (bytes_of es))) fs"
  by (induction es arbitrary: n) (auto simp: algebra_simps)

section \<open>What a publisher step leaves alone\<close>

definition publishes ::
    "string \<Rightarrow> (bus, 'y) consumer_scheme \<Rightarrow> (bus, 'y) consumer_scheme \<Rightarrow> bool" where
  \<comment> \<open>only entries, cursor and state file of \<open>y\<close> change\<close>
  "publishes y a b \<longleftrightarrow> ag_files b = ag_files a
     \<and> (well_keyed (ag_store a) \<longrightarrow> well_keyed (ag_store b)
         \<and> (\<forall>k. k \<noteq> y \<longrightarrow> read_state (ag_store b) k = read_state (ag_store a) k))
     \<and> (\<forall>k. k \<noteq> y \<longrightarrow> read_cursor b k = read_cursor a k)
     \<and> (\<exists>es. bu_stream (ag_world b) = bu_stream (ag_world a) @ es
         \<and> (\<forall>e \<in> set es. le_execution_id e = y \<and> (le_eof e \<longrightarrow> le_size_bytes e = 0)))
     \<and> (definite (ag_world a) \<longrightarrow> definite (ag_world b))"

lemma publishes_refl [simp]: "publishes y a a"
  by (simp add: publishes_def)

lemma publishes_trans: "publishes y a b \<Longrightarrow> publishes y b c \<Longrightarrow> publishes y a c"
  unfolding publishes_def by (elim conjE exE, intro conjI) (simp_all, blast)

lemma read_write_cursor [simp]:
  "read_cursor (write_cursor y n a) k = (if k = y then n else read_cursor a k)"
  by (simp add: read_cursor_def write_cursor_def update_conv)

lemma read_cursor_cong [simp]:
  "read_cursor (a\<lparr>ag_world := w\<rparr>) k = read_cursor a k"
  "read_cursor (a\<lparr>ag_store := d\<rparr>) k = read_cursor a k"
  "read_cursor (spend lc n b) k = read_cursor b k"
  "read_cursor (on_execution_eof x a) k = read_cursor a k"
  "read_cursor (a\<lparr>cs_eof_sent := E\<rparr>) k = read_cursor a k"
  by (simp_all add: read_cursor_def spend_def on_execution_eof_def)

lemma on_execution_eof_frame [simp]:
  "ag_files (on_execution_eof x a) = ag_files a" "ag_store (on_execution_eof x a) = ag_store a"
  "ag_world (on_execution_eof x a) = ag_world a"
  by (simp_all add: on_execution_eof_def)

lemma publishes_spend: "publishes y a (spend lc n a)"
  by (simp add: publishes_def)

lemma publishes_xadd:
  assumes "bus_xadd (ag_world a) e = (w, ok)" and "le_execution_id e = y" and "le_eof e \<longrightarrow> le_size_bytes e = 0"
  shows "publishes y a (a\<lparr>ag_world := w\<rparr>)"
proof -
  obtain es where "bu_stream w = bu_stream (ag_world a) @ es" "set es \<subseteq> {e}"
    using bus_xadd_stream [OF assms(1)] .
  then have "\<exists>es. bu_stream w = bu_stream (ag_world a) @ es
      \<and> (\<forall>e \<in> set es. le_execution_id e = y \<and> (le_eof e \<longrightarrow> le_size_bytes e = 0))"
    using assms(2,3) by blast
  then show ?thesis using bus_xadd_definite [OF assms(1)] by (simp add: publishes_def)
qed

lemma publishes_cursor: "publishes y a (write_cursor y n a)"
  by (simp add: publishes_def)

lemma mark_log_capped_store:
  assumes "well_keyed d"
  shows "well_keyed (fst (mark_log_capped d now y))"
    and "read_state (fst (mark_log_capped d now y)) k =
      (if k = y then map_option (\<lambda>st. if as_log_capped st then st
         else touched now (\<lambda>st. st\<lparr>as_log_capped := True\<rparr>) st) (read_state d y) else read_state d k)"
  using assms by (auto simp: mark_log_capped_def row_simps well_keyed_update_state split: option.split)

lemma publishes_capped: "publishes y a (a\<lparr>ag_store := fst (mark_log_capped (ag_store a) now y)\<rparr>)"
  by (auto simp: publishes_def mark_log_capped_store)

lemma log_event_fields [simp]:
  "le_execution_id (log_event lc st x n c e) = x" "le_eof (log_event lc st x n c e) = e"
  "le_content (log_event lc st x n c e) = c" "le_offset (log_event lc st x n c e) = int n"
  "le_size_bytes (log_event lc st x n c e) = int (length c)" "le_task_id (log_event lc st x n c e) = as_task_id st"
  "le_stream (log_event lc st x n c e) = Stream_log"
  by (simp_all add: log_event_def)

lemma publishes_cap_reached:
  assumes "xadd_log env = bus_xadd" and "cap_reached env lc now st y cursor n a = (b, st', n')"
  shows "publishes y a b"
proof (cases "marker_allowed lc (allowance lc a)")
  case True
  obtain w ok where x: "bus_xadd (ag_world a) (log_event lc st y cursor (log_marker lc) False) = (w, ok)"
    by force
  have p: "publishes y a (a\<lparr>ag_world := w\<rparr>)" by (rule publishes_xadd [OF x]) simp_all
  obtain d s where d: "mark_log_capped (ag_store a) now y = (d, s)" by force
  let ?c = "(a\<lparr>ag_world := w\<rparr>)\<lparr>ag_store := fst (mark_log_capped (ag_store (a\<lparr>ag_world := w\<rparr>)) now y)\<rparr>"
  have "publishes y (a\<lparr>ag_world := w\<rparr>) (spend lc (length (log_marker lc)) ?c)"
    by (rule publishes_trans [OF publishes_capped publishes_spend])
  then have q: "publishes y a (spend lc (length (log_marker lc)) (a\<lparr>ag_world := w, ag_store := d\<rparr>))"
    using p publishes_trans d by fastforce
  show ?thesis
    using True assms x d p q by (cases ok) (auto simp: cap_reached_def publish_marker_def)
qed (use assms in \<open>auto simp: cap_reached_def\<close>)

lemma publishes_loop:
  assumes "xadd_log env = bus_xadd"
  shows "publishes y a (fst (publish_loop env lc now st y cursor n a))"
proof (rule publish_loop_rule [where Inv = "\<lambda>_ _. publishes y a" and Post = "\<lambda>r. publishes y a (fst r)"])
  fix c n b raw w
  assume b: "publishes y a b" and x: "xadd_log env (ag_world b) (log_event lc st y c raw False) = (w, True)"
  have "publishes y b (b\<lparr>ag_world := w\<rparr>)"
    by (rule publishes_xadd [of b "log_event lc st y c raw False" w True]) (use x assms in simp_all)
  from publishes_trans [OF publishes_trans [OF b this] publishes_trans [OF publishes_cursor publishes_spend]]
  show "publishes y a (spend lc (length raw) (write_cursor y (c + length raw) (b\<lparr>ag_world := w\<rparr>)))" .
next
  fix c n b raw w
  assume b: "publishes y a b" and x: "xadd_log env (ag_world b) (log_event lc st y c raw False) = (w, False)"
  have "publishes y b (b\<lparr>ag_world := w\<rparr>)"
    by (rule publishes_xadd [of b "log_event lc st y c raw False" w False]) (use x assms in simp_all)
  with b show "publishes y a (fst (b\<lparr>ag_world := w\<rparr>, st, c, n, False))" by (auto intro: publishes_trans)
next
  fix c n b b' s m
  assume "publishes y a b" and "cap_reached env lc now st y c n b = (b', s, m)"
  then show "publishes y a (fst (b', s, c, m, True))"
    using publishes_trans [OF _ publishes_cap_reached [OF assms]] by simp
qed simp_all

lemma publishes_eof:
  assumes "xadd_log env = bus_xadd"
  shows "publishes y a (publish_eof env lc st y cursor a)"
proof -
  obtain w ok where x: "bus_xadd (ag_world a) (log_event lc st y cursor [] True) = (w, ok)" by force
  have "publishes y a (a\<lparr>ag_world := w\<rparr>)" by (rule publishes_xadd [OF x]) simp_all
  then show ?thesis
    using assms x by (cases ok) (auto simp: publish_eof_def publishes_def)
qed

lemma publishes_attempt:
  assumes "xadd_log env = bus_xadd"
  shows "publishes y a (fst (publish_attempt env lc now y a))"
proof (cases "read_state (ag_store a) y")
  case (Some st)
  obtain b st' c n went where l: "publish_loop env lc now st y (read_cursor a y) 0 a = (b, st', c, n, went)"
    by (metis surj_pair)
  have b: "publishes y a b" using publishes_loop [OF assms, of y a lc now st "read_cursor a y" 0] l by simp
  then have "publishes y a (publish_eof env lc st' y c b)"
    using publishes_eof [OF assms] by (rule publishes_trans)
  then show ?thesis
    using Some l b publishes_eof [OF assms, of y a lc st] by (simp add: publish_attempt_def)
qed (simp add: publish_attempt_def)

section \<open>The prefix that has been published\<close>

definition visible :: "('c) agent_config_scheme \<Rightarrow> string \<Rightarrow> string" where
  \<comment> \<open>the part of a log that may be published at all\<close>
  "visible lc c = (if ac_log_cap lc > 0 then take (nat (content_cap lc)) c else c)"

definition log_of :: "('w, 'y) agent_scheme \<Rightarrow> attempt_state \<Rightarrow> string" where
  "log_of a st = or_default (map_of (ag_files a) (as_log_path st)) []"

definition log_data :: "string \<Rightarrow> (bus, 'y) agent_scheme \<Rightarrow> agent_log_event list" where
  "log_data x a = data_of x (bu_stream (ag_world a))"

definition tailed ::
    "('c) agent_config_scheme \<Rightarrow> string \<Rightarrow> string \<Rightarrow> string \<Rightarrow> attempt_state \<Rightarrow> (bus, 'y) consumer_scheme \<Rightarrow> bool" where
  \<comment> \<open>the entries of \<open>x\<close> are its log up to the cursor, and then \<open>m\<close>\<close>
  "tailed lc task m x st a \<longleftrightarrow> well_keyed (ag_store a) \<and> definite (ag_world a) \<and> read_state (ag_store a) x = Some st
     \<and> as_task_id st = task \<and> contiguous task 0 (log_data x a)
     \<and> read_cursor a x \<le> length (visible lc (log_of a st))
     \<and> bytes_of (log_data x a) = take (read_cursor a x) (visible lc (log_of a st)) @ m"

definition published_prefix :: "('c) agent_config_scheme \<Rightarrow> string \<Rightarrow> string \<Rightarrow> (bus, 'y) consumer_scheme \<Rightarrow> bool" where
  "published_prefix lc task x a \<longleftrightarrow> (\<exists>st m. tailed lc task m x st a
     \<and> (m = [] \<or> m = log_marker lc \<and> ac_log_cap lc > 0 \<and> as_log_capped st))"

lemma content_cap_nonneg [simp]: "0 \<le> content_cap lc"
  by (simp add: content_cap_def)

lemma log_marker_nonempty [simp]: "log_marker lc \<noteq> []"
  by (simp add: log_marker_def)

lemma log_of_cong [simp]:
  "log_of (a\<lparr>ag_world := w\<rparr>) st = log_of a st" "log_of (a\<lparr>ag_store := d\<rparr>) st = log_of a st"
  "log_of (spend lc n b) st = log_of b st" "log_of (write_cursor x k c) st = log_of c st"
  "log_of (on_execution_eof x e) st = log_of e st"
  by (simp_all add: log_of_def)

lemma log_data_cong [simp]:
  "log_data x (a\<lparr>ag_store := d\<rparr>) = log_data x a" "log_data x (spend lc n b) = log_data x b"
  "log_data x (write_cursor y k c) = log_data x c" "log_data x (on_execution_eof y e) = log_data x e"
  by (simp_all add: log_data_def)

text \<open>The next slice of the log continues what has been published.\<close>

lemma read_raw_visible:
  assumes "raw = read_raw (ag_files a) (as_log_path st) c (want lc n c)"
    and "\<not> (ac_log_cap lc > 0 \<and> int c \<ge> content_cap lc)" and "c \<le> length (visible lc (log_of a st))"
  shows "c + length raw \<le> length (visible lc (log_of a st))"
    and "take (c + length raw) (visible lc (log_of a st)) = take c (visible lc (log_of a st)) @ raw"
proof -
  let ?f = "log_of a st"
  have raw: "raw = take (nat (want lc n c)) (drop c ?f)"
    using assms(1) by (auto simp: read_raw_def log_of_def split: option.split)
  have "raw = take (length raw) (drop c (visible lc ?f)) \<and> length raw \<le> length (visible lc ?f) - c"
  proof (cases "ac_log_cap lc > 0")
    case True
    have "want lc n c \<le> content_cap lc - int c" using True by (simp add: want_def Let_def)
    then have "nat (want lc n c) + c \<le> nat (content_cap lc)" using assms(2) True by linarith
    then show ?thesis
      using True unfolding raw visible_def by (auto simp: drop_take min_def)
  next
    case False
    then show ?thesis by (auto simp: raw visible_def min_def)
  qed
  then show "c + length raw \<le> length (visible lc ?f)"
    and "take (c + length raw) (visible lc ?f) = take c (visible lc ?f) @ raw"
    using assms(3) by (auto simp: take_add)
qed

lemma tailed_append:
  assumes "tailed lc task [] x st a" and "ag_files b = ag_files a" and "well_keyed (ag_store b)"
    and "definite (ag_world b)" and "read_state (ag_store b) x = Some st'" and "as_log_path st' = as_log_path st"
    and "as_task_id st' = as_task_id st" and "log_data x b = log_data x a @ es"
    and "contiguous task (int (length (bytes_of (log_data x a)))) es"
    and "read_cursor b x \<le> length (visible lc (log_of a st))"
    and "take (read_cursor a x) (visible lc (log_of a st)) @ bytes_of es
      = take (read_cursor b x) (visible lc (log_of a st)) @ m"
  shows "tailed lc task m x st' b"
  using assms by (auto simp: tailed_def contiguous_append log_of_def)

text \<open>One round of the loop, and the end of it.\<close>

lemma tailed_round:
  assumes t: "tailed lc task [] x st a" and c: "c = read_cursor a x"
    and below: "\<not> (ac_log_cap lc > 0 \<and> int c \<ge> content_cap lc)"
    and raw: "raw = read_raw (ag_files a) (as_log_path st) c (want lc n c)" "raw \<noteq> []"
    and x: "bus_xadd (ag_world a) (log_event lc st x c raw False) = (w, True)"
  shows "tailed lc task [] x st (spend lc k (write_cursor x (c + length raw) (a\<lparr>ag_world := w\<rparr>)))"
proof -
  have d: "definite (ag_world a)" and len: "c \<le> length (visible lc (log_of a st))"
    using t c by (simp_all add: tailed_def)
  have w: "bu_stream w = bu_stream (ag_world a) @ [log_event lc st x c raw False]" "definite w"
    using bus_xadd_cases [OF x d] by auto
  note vis = read_raw_visible [OF raw(1) below len]
  have pos: "length (bytes_of (log_data x a)) = c" using t c by (simp add: tailed_def)
  show ?thesis
    by (rule tailed_append [OF t, where es = "[log_event lc st x c raw False]"])
       (use t w raw(2) vis c pos in \<open>auto simp: tailed_def log_data_def\<close>)
qed

lemma tailed_refused:
  assumes "tailed lc task m x st a" and "bus_xadd (ag_world a) e = (w, False)"
  shows "tailed lc task m x st (a\<lparr>ag_world := w\<rparr>)"
proof -
  have "definite (ag_world a)" using assms(1) by (simp add: tailed_def)
  then have "bu_stream w = bu_stream (ag_world a) \<and> definite w"
    using bus_xadd_cases [OF assms(2)] by auto
  then show ?thesis using assms(1) by (simp add: tailed_def log_data_def)
qed

lemma tailed_capped:
  assumes "tailed lc task m x st a" and "mark_log_capped (ag_store a) now x = (d, s)"
  shows "tailed lc task m x (or_default s st) (a\<lparr>ag_store := d\<rparr>)" and "as_log_capped (or_default s st)"
    and "as_log_path (or_default s st) = as_log_path st"
proof -
  have wk: "well_keyed (ag_store a)" and r: "read_state (ag_store a) x = Some st"
    using assms(1) by (simp_all add: tailed_def)
  have d: "d = fst (mark_log_capped (ag_store a) now x)" using assms(2) by simp
  have s: "or_default s st = (if as_log_capped st then st else touched now (\<lambda>st. st\<lparr>as_log_capped := True\<rparr>) st)"
    using assms(2) unfolding mark_log_capped_def r by (auto simp: update_state_eq r split: if_splits)
  have "as_log_path (or_default s st) = as_log_path st \<and> as_task_id (or_default s st) = as_task_id st"
    using s by (simp add: touched_def)
  then show "tailed lc task m x (or_default s st) (a\<lparr>ag_store := d\<rparr>)" and "as_log_path (or_default s st) = as_log_path st"
    using assms(1) mark_log_capped_store [OF wk, of now x] r s d by (auto simp: tailed_def log_of_def)
  show "as_log_capped (or_default s st)" by (simp add: s touched_def)
qed

text \<open>The published prefix under one publication of the execution itself.\<close>

lemma tailed_marker:
  assumes t: "tailed lc task [] x st a" and c: "c = read_cursor a x"
    and x: "bus_xadd (ag_world a) (log_event lc st x c (log_marker lc) False) = (w, True)"
  shows "tailed lc task (log_marker lc) x st (a\<lparr>ag_world := w\<rparr>)"
proof -
  have d: "definite (ag_world a)" using t by (simp add: tailed_def)
  have w: "bu_stream w = bu_stream (ag_world a) @ [log_event lc st x c (log_marker lc) False]" "definite w"
    using bus_xadd_cases [OF x d] by auto
  have pos: "length (bytes_of (log_data x a)) = c" using t c by (simp add: tailed_def)
  show ?thesis
    by (rule tailed_append [OF t, where es = "[log_event lc st x c (log_marker lc) False]"])
       (use t w c pos in \<open>auto simp: tailed_def log_data_def\<close>)
qed

lemma tailed_spend: "tailed lc task m x st a \<Longrightarrow> tailed lc task m x st (spend lc' n a)"
  by (simp add: tailed_def)

definition loop_post ::
    "('c) agent_config_scheme \<Rightarrow> string \<Rightarrow> string \<Rightarrow> (bus, 'y) consumer_scheme \<times> attempt_state \<times> nat \<times> nat \<times> bool \<Rightarrow> bool" where
  "loop_post lc task x r = (case r of (b, st, c, n, went) \<Rightarrow> \<exists>m. tailed lc task m x st b \<and> c = read_cursor b x
     \<and> (m = [] \<or> m = log_marker lc \<and> ac_log_cap lc > 0 \<and> as_log_capped st))"

lemma tailed_cap_reached:
  assumes env: "xadd_log env = bus_xadd" and t: "tailed lc task [] x st a" and c: "c = read_cursor a x"
    and cap: "ac_log_cap lc > 0" and r: "cap_reached env lc now st x c n a = (b, s, k)"
  shows "loop_post lc task x (b, s, c, k, True)"
proof (cases "marker_allowed lc (allowance lc a)")
  case True
  obtain w ok where w: "bus_xadd (ag_world a) (log_event lc st x c (log_marker lc) False) = (w, ok)" by force
  show ?thesis
  proof (cases ok)
    case True
    have m: "tailed lc task (log_marker lc) x st (a\<lparr>ag_world := w\<rparr>)"
      using tailed_marker [OF t c] w True by simp
    obtain d s' where d: "mark_log_capped (ag_store (a\<lparr>ag_world := w\<rparr>)) now x = (d, s')" by force
    note capped = tailed_capped [OF m d]
    show ?thesis
      using r w True d env \<open>marker_allowed lc (allowance lc a)\<close> capped(2) tailed_spend [OF capped(1)] cap c
      by (auto simp: loop_post_def cap_reached_def publish_marker_def intro!: exI [of _ "log_marker lc"])
  next
    case False
    then have "tailed lc task [] x st (a\<lparr>ag_world := w\<rparr>)" using tailed_refused [OF t] w by simp
    with False show ?thesis
      using r w env \<open>marker_allowed lc (allowance lc a)\<close> c
      by (auto simp: loop_post_def cap_reached_def publish_marker_def)
  qed
qed (use r t c in \<open>auto simp: loop_post_def cap_reached_def\<close>)

lemma tailed_loop:
  assumes env: "xadd_log env = bus_xadd" and t: "tailed lc task [] x st a"
  shows "loop_post lc task x (publish_loop env lc now st x (read_cursor a x) n a)"
proof (rule publish_loop_rule [where Inv = "\<lambda>c n b. tailed lc task [] x st b \<and> c = read_cursor b x"])
  fix c n b raw w
  assume "tailed lc task [] x st b \<and> c = read_cursor b x"
    and "\<not> (ac_log_cap lc > 0 \<and> int c \<ge> content_cap lc)"
    and "raw = read_raw (ag_files b) (as_log_path st) c (want lc (allowance lc b) c)" "raw \<noteq> []"
    and "xadd_log env (ag_world b) (log_event lc st x c raw False) = (w, True)"
  then have "tailed lc task [] x st (spend lc (length raw) (write_cursor x (c + length raw) (b\<lparr>ag_world := w\<rparr>)))"
    unfolding env by (intro tailed_round [where n = "allowance lc b"]) blast+
  then show "tailed lc task [] x st (spend lc (length raw) (write_cursor x (c + length raw) (b\<lparr>ag_world := w\<rparr>)))
      \<and> c + length raw = read_cursor (spend lc (length raw) (write_cursor x (c + length raw) (b\<lparr>ag_world := w\<rparr>))) x"
    by simp
next
  fix c n b b' s k
  assume "tailed lc task [] x st b \<and> c = read_cursor b x" "ac_log_cap lc > 0"
    and "cap_reached env lc now st x c n b = (b', s, k)"
  then show "loop_post lc task x (b', s, c, k, True)" using tailed_cap_reached [OF env] by blast
next
  fix c n b raw w
  assume "tailed lc task [] x st b \<and> c = read_cursor b x"
    and "xadd_log env (ag_world b) (log_event lc st x c raw False) = (w, False)"
  then show "loop_post lc task x (b\<lparr>ag_world := w\<rparr>, st, c, n, False)"
    using tailed_refused [of lc task "[]" x st b _ w] env by (auto simp: loop_post_def)
qed (use t in \<open>auto simp: loop_post_def\<close>)

lemma tailed_eof:
  assumes env: "xadd_log env = bus_xadd" and t: "tailed lc task m x st a"
  shows "tailed lc task m x st (publish_eof env lc' st' x c a)"
proof -
  have d: "definite (ag_world a)" using t by (simp add: tailed_def)
  obtain w ok where w: "bus_xadd (ag_world a) (log_event lc' st' x c [] True) = (w, ok)" by force
  have "data_of x (bu_stream w) = data_of x (bu_stream (ag_world a)) \<and> definite w"
    by (rule bus_xadd_cases [OF w d]) simp_all
  then have q: "tailed lc task m x st (a\<lparr>ag_world := w\<rparr>)" "tailed lc task m x st (a\<lparr>ag_world := w, cs_eof_sent := E\<rparr>)" for E
    using t by (simp_all add: tailed_def log_data_def log_of_def read_cursor_def)
  then have "tailed lc task m x st (on_execution_eof y (a\<lparr>ag_world := w, cs_eof_sent := E\<rparr>))" for y E
    by (simp add: tailed_def)
  with q t w env show ?thesis by (cases ok) (simp_all add: publish_eof_def)
qed

lemma published_prefix_attempt:
  assumes env: "xadd_log env = bus_xadd" and p: "published_prefix lc task x a"
  shows "published_prefix lc task x (fst (publish_attempt env lc now x a))"
proof -
  obtain st m where t: "tailed lc task m x st a" and m: "m = [] \<or> m = log_marker lc \<and> ac_log_cap lc > 0 \<and> as_log_capped st"
    using p by (auto simp: published_prefix_def)
  have r: "read_state (ag_store a) x = Some st" using t by (simp add: tailed_def)
  obtain b s c n went where l: "publish_loop env lc now st x (read_cursor a x) 0 a = (b, s, c, n, went)"
    by (metis surj_pair)
  have "\<exists>k. tailed lc task k x s b \<and> (k = [] \<or> k = log_marker lc \<and> ac_log_cap lc > 0 \<and> as_log_capped s)"
    if "\<not> as_log_capped st"
    using tailed_loop [OF env, of lc task x st a now 0] t m that l by (auto simp: loop_post_def)
  then show ?thesis
    using r l t m tailed_eof [OF env] by (auto simp: publish_attempt_def published_prefix_def) blast+
qed

text \<open>Publications of other executions, and everything else the agent does.\<close>

lemma published_prefix_other:
  assumes p: "published_prefix lc task x a" and o: "publishes y a b" and "x \<noteq> y"
  shows "published_prefix lc task x b"
proof -
  obtain es where es: "bu_stream (ag_world b) = bu_stream (ag_world a) @ es" "\<forall>e \<in> set es. le_execution_id e = y"
    using o by (auto simp: publishes_def)
  then have "log_data x b = log_data x a"
    using assms(3) data_of_other [of es x] by (auto simp: log_data_def)
  then show ?thesis
    using p o assms(3) unfolding published_prefix_def tailed_def publishes_def log_of_def by auto
qed

lemma published_prefix_once:
  assumes env: "xadd_log env = bus_xadd" and p: "published_prefix lc task x a"
  shows "published_prefix lc task x (fst (publish_once env lc now clock a))"
proof -
  have scan: "published_prefix lc task x b \<Longrightarrow> published_prefix lc task x (fst (publish_scan env lc now k pos xs b))"
    for k pos xs b
  proof (induction xs arbitrary: pos b)
    case Nil
    then show ?case by (simp add: published_prefix_def tailed_def log_data_def log_of_def read_cursor_def)
  next
    case (Cons y ys)
    have stop: "published_prefix lc task x (b\<lparr>lp_rotate_from := q\<rparr>)" for q
      using Cons.prems by (simp add: published_prefix_def tailed_def log_data_def log_of_def read_cursor_def)
    have "published_prefix lc task x (fst (publish_attempt env lc now y b))"
      using published_prefix_attempt [OF env Cons.prems]
        published_prefix_other [OF Cons.prems publishes_attempt [OF env]] by (cases "x = y") auto
    with Cons.IH stop show ?case by (auto simp: Let_def split: prod.split) (metis fst_conv)
  qed
  have "published_prefix lc task x (refill lc clock a)"
    using p by (simp add: refill_def published_prefix_def tailed_def log_data_def log_of_def read_cursor_def)
  with scan show ?thesis by (auto simp: publish_once_def Let_def)
qed

lemma publish_once_stream:
  assumes env: "xadd_log env = bus_xadd"
  obtains es where "bu_stream (ag_world (fst (publish_once env lc now clock a))) = bu_stream (ag_world a) @ es"
    and "\<forall>e \<in> set es. le_eof e \<longrightarrow> le_size_bytes e = 0"
proof -
  let ?ext = "\<lambda>b c. \<exists>es. bu_stream (ag_world c) = bu_stream (ag_world b) @ es
      \<and> (\<forall>e \<in> set es. le_eof e \<longrightarrow> le_size_bytes e = 0)"
  have scan: "?ext b (fst (publish_scan env lc now k pos xs b))" for k pos xs b
  proof (induction xs arbitrary: pos b)
    case (Cons y ys)
    obtain c n where c: "publish_attempt env lc now y b = (c, n)" by force
    have "?ext b c" using publishes_attempt [OF env, of y b lc now] c by (auto simp: publishes_def)
    then show ?case
      using Cons.IH [of "Suc pos" c] c by (auto simp: Let_def split: prod.split)
  qed simp
  have "ag_world (refill lc clock a) = ag_world a" by (simp add: refill_def)
  then have "?ext a (fst (publish_once env lc now clock a))"
    using scan [of _ _ _ "refill lc clock a"] by (auto simp: publish_once_def Let_def)
  then show ?thesis using that by blast
qed

section \<open>A sample publisher\<close>

definition sample_log_os :: "bus log_os" where
  "sample_log_os =
     \<lparr>http_post = (\<lambda>w p d. (w, Http_failed ''down'')), http_get = (\<lambda>w p d. (w, Http_failed ''down'')),
      xadd_event = (\<lambda>w e. (w, True)), os_environ = (\<lambda>w. []), os_resolve = (\<lambda>w p. []),
      os_spawn = (\<lambda>w c d v. (w, Inr 7)), os_getpgid = (\<lambda>w p. Some p), os_killpg = (\<lambda>w g s. (w, True)),
      os_kill = (\<lambda>w p. (w, True)), os_returncode = (\<lambda>w p. None), os_sleep = (\<lambda>w. w),
      os_write_pgid = (\<lambda>w p g. (w, None)), os_proc = (\<lambda>w. None), os_scrapyd_pid = (\<lambda>w. None),
      os_fetch = (\<lambda>w u h. (w, None)), os_sha256 = (\<lambda>b. b), os_pip = (\<lambda>w s n. (w, None)),
      os_pause = (\<lambda>w c. (w, c)), xadd_log = bus_xadd\<rparr>"

definition sample_log_config :: "int \<Rightarrow> log_config" where
  "sample_log_config rate = daemon_config.extend sample_config (log_config.fields 4 rate)"

definition sample_tail :: "string \<Rightarrow> bus log_agent" where
  \<comment> \<open>one started attempt with this log, nothing published yet\<close>
  "sample_tail content =
     \<lparr>ag_store = [(''e1'', Some (sample_attempt\<lparr>as_log_path := ''/l/e1.log''\<rparr>))],
      ag_files = [(''/l/e1.log'', content)], ag_outbox = [], ag_uuid = 0,
      ag_world = \<lparr>bu_stream = [], bu_script = []\<rparr>, cs_inproc_wheel = {}, cs_last_heartbeat = [],
      cs_wheels = \<lparr>wr_procs = [], wr_pgids = [], wr_canceled = {}\<rparr>, cs_cursors = [], cs_eof_sent = {},
      da_eggs = \<lparr>ca_bodies = [], ca_ready = {}, ca_locks = {}\<rparr>,
      da_wheels = \<lparr>ca_bodies = [], ca_ready = {}, ca_locks = {}\<rparr>,
      lp_tokens = 0, lp_last_refill = 0, lp_rotate_from = 0\<rparr>"

lemma sample_log_config_fields [simp]:
  "lc_rate (sample_log_config rate) = rate" "lc_max_bytes (sample_log_config rate) = 4"
  "ac_log_cap (sample_log_config rate) = 0"
  by (simp_all add: sample_log_config_def sample_config_def daemon_config.extend_def log_config.fields_def)

lemma sample_tail_fresh: "published_prefix (sample_log_config rate) ''t1'' ''e1'' (sample_tail content)"
  by (auto simp: published_prefix_def tailed_def sample_tail_def well_keyed_def definite_def read_state_def
      log_data_def read_cursor_def sample_attempt_def new_attempt_def)

section \<open>The rate limit\<close>

definition lost_replies :: "bus \<Rightarrow> nat" where
  \<comment> \<open>how often Redis is still to take an entry without its reply arriving\<close>
  "lost_replies b = length (filter (\<lambda>r. r = Reply_lost) (bu_script b))"

definition largest_entry :: "('c) log_config_scheme \<Rightarrow> int" where
  "largest_entry lc = max (lc_max_bytes lc) (int (length (log_marker lc)))"

definition metered :: "('c) log_config_scheme \<Rightarrow> (bus, 'y) log_agent_scheme \<Rightarrow> (bus, 'y) log_agent_scheme \<Rightarrow> bool" where
  \<comment> \<open>every byte that reached the stream was paid for with a token, but for one entry per lost reply\<close>
  "metered lc a b \<longleftrightarrow> 0 \<le> lp_tokens b \<and> lp_last_refill b = lp_last_refill a
     \<and> (\<exists>es. bu_stream (ag_world b) = bu_stream (ag_world a) @ es
         \<and> 1000000 * int (length (bytes_of es)) + lp_tokens b
             + 1000000 * (largest_entry lc * int (lost_replies (ag_world b)))
           \<le> lp_tokens a + 1000000 * (largest_entry lc * int (lost_replies (ag_world a))))"

lemma metered_refl: "0 \<le> lp_tokens a \<Longrightarrow> metered lc a a"
  by (simp add: metered_def)

lemma metered_trans:
  assumes "metered lc a b" and "metered lc b c"
  shows "metered lc a c"
proof -
  obtain es where es: "bu_stream (ag_world b) = bu_stream (ag_world a) @ es"
    "1000000 * int (length (bytes_of es)) + lp_tokens b + 1000000 * (largest_entry lc * int (lost_replies (ag_world b)))
      \<le> lp_tokens a + 1000000 * (largest_entry lc * int (lost_replies (ag_world a)))"
    using assms(1) unfolding metered_def by blast
  obtain fs where fs: "bu_stream (ag_world c) = bu_stream (ag_world b) @ fs"
    "1000000 * int (length (bytes_of fs)) + lp_tokens c + 1000000 * (largest_entry lc * int (lost_replies (ag_world c)))
      \<le> lp_tokens b + 1000000 * (largest_entry lc * int (lost_replies (ag_world b)))"
    using assms(2) unfolding metered_def by blast
  show ?thesis unfolding metered_def
    using assms es fs by (intro conjI exI [of _ "es @ fs"]) (simp_all add: metered_def)
qed

lemma lost_replies_xadd:
  assumes "bus_xadd b e = (w, ok)"
  obtains "ok" "bu_stream w = bu_stream b @ [e]" "lost_replies w = lost_replies b"
    | "\<not> ok" "bu_stream w = bu_stream b" "lost_replies w = lost_replies b"
    | "\<not> ok" "bu_stream w = bu_stream b @ [e]" "Suc (lost_replies w) = lost_replies b"
proof (cases "bu_script b")
  case Nil
  then show thesis using assms that(1) by (auto simp: bus_xadd_def lost_replies_def)
next
  case (Cons r rs)
  then show thesis using assms that by (cases r) (auto simp: bus_xadd_def lost_replies_def)
qed

lemma metered_xadd:
  assumes "metered lc a b" and "bus_xadd (ag_world b) e = (w, ok)" and "lc_rate lc > 0"
    and "1000000 * int (length (le_content e)) \<le> lp_tokens b" and "int (length (le_content e)) \<le> largest_entry lc"
  shows "ok \<Longrightarrow> metered lc a (spend lc (length (le_content e)) (b\<lparr>ag_world := w\<rparr>))"
    and "\<not> ok \<Longrightarrow> metered lc a (b\<lparr>ag_world := w\<rparr>)"
proof -
  have tokens: "0 \<le> lp_tokens b" using assms(1) by (simp add: metered_def)
  show "metered lc a (spend lc (length (le_content e)) (b\<lparr>ag_world := w\<rparr>))" if ok
  proof (rule metered_trans [OF assms(1)])
    show "metered lc b (spend lc (length (le_content e)) (b\<lparr>ag_world := w\<rparr>))"
      by (rule lost_replies_xadd [OF assms(2)]) (use that assms(3,4) in \<open>auto simp: metered_def spend_def\<close>)
  qed
  show "metered lc a (b\<lparr>ag_world := w\<rparr>)" if "\<not> ok"
  proof (rule metered_trans [OF assms(1)])
    show "metered lc b (b\<lparr>ag_world := w\<rparr>)"
    proof (rule lost_replies_xadd [OF assms(2)])
      assume "bu_stream w = bu_stream (ag_world b) @ [e]" and l: "Suc (lost_replies w) = lost_replies (ag_world b)"
      moreover have "largest_entry lc * int (lost_replies (ag_world b))
          = largest_entry lc + largest_entry lc * int (lost_replies w)"
        unfolding l [symmetric] by (simp add: algebra_simps)
      ultimately show ?thesis using assms(5) tokens by (simp add: metered_def)
    qed (use that tokens in \<open>auto simp: metered_def\<close>)
  qed
qed

lemma allowance_tokens: "lc_rate lc > 0 \<Longrightarrow> int n \<le> allowance lc b \<Longrightarrow> 1000000 * int n \<le> lp_tokens b"
  by (auto simp: allowance_def)

lemma metered_cursor: "metered lc a (spend lc n b) \<Longrightarrow> metered lc a (spend lc n (write_cursor x k b))"
  by (auto simp: metered_def spend_def write_cursor_def split: if_splits)

lemma raw_affordable:
  assumes "raw = read_raw fs path c (want lc (allowance lc b) c)" and "raw \<noteq> []" and "lc_rate lc > 0"
  shows "1000000 * int (length raw) \<le> lp_tokens b" and "int (length raw) \<le> largest_entry lc"
proof -
  have "int (length raw) \<le> max 0 (want lc (allowance lc b) c)"
    by (auto simp: assms(1) read_raw_def split: option.split)
  moreover have "0 < int (length raw)" using assms(2) by simp
  moreover have "want lc (allowance lc b) c \<le> allowance lc b" "want lc (allowance lc b) c \<le> lc_max_bytes lc"
    by (auto simp: want_def Let_def)
  ultimately have "int (length raw) \<le> allowance lc b" "int (length raw) \<le> lc_max_bytes lc" by linarith+
  then show "1000000 * int (length raw) \<le> lp_tokens b" and "int (length raw) \<le> largest_entry lc"
    using allowance_tokens [OF assms(3)] by (auto simp: largest_entry_def)
qed

lemma metered_loop:
  assumes env: "xadd_log env = bus_xadd" and rate: "lc_rate lc > 0" and a: "metered lc a b"
  shows "metered lc a (fst (publish_loop env lc now st x c n b))"
proof (rule publish_loop_rule [where Inv = "\<lambda>_ _. metered lc a" and Post = "\<lambda>r. metered lc a (fst r)"])
  fix c n b raw w
  assume b: "metered lc a b" and raw: "raw = read_raw (ag_files b) (as_log_path st) c (want lc (allowance lc b) c)" "raw \<noteq> []"
    and x: "xadd_log env (ag_world b) (log_event lc st x c raw False) = (w, True)"
  have "metered lc a (spend lc (length raw) (b\<lparr>ag_world := w\<rparr>))"
    using metered_xadd(1) [OF b _ rate, of "log_event lc st x c raw False" w True] x env raw_affordable [OF raw rate] by simp
  from metered_cursor [OF this, of x "c + length raw"]
  show "metered lc a (spend lc (length raw) (write_cursor x (c + length raw) (b\<lparr>ag_world := w\<rparr>)))"
    by (simp add: write_cursor_def)
next
  fix c n b b' s m
  assume b: "metered lc a b" and r: "cap_reached env lc now st x c n b = (b', s, m)"
  show "metered lc a (fst (b', s, c, m, True))"
  proof (cases "marker_allowed lc (allowance lc b)")
    case True
    then have t: "1000000 * int (length (log_marker lc)) \<le> lp_tokens b"
      using rate by (intro allowance_tokens) (auto simp: marker_allowed_def)
    have l: "int (length (log_marker lc)) \<le> largest_entry lc" by (simp add: largest_entry_def)
    obtain w ok where w: "bus_xadd (ag_world b) (log_event lc st x c (log_marker lc) False) = (w, ok)" by force
    obtain d s' where d: "mark_log_capped (ag_store b) now x = (d, s')" by force
    have "ok \<Longrightarrow> metered lc a (spend lc (length (log_marker lc)) (b\<lparr>ag_world := w, ag_store := d\<rparr>))"
      using metered_xadd(1) [OF b w rate] t l rate by (simp add: metered_def spend_def)
    then show ?thesis
      using metered_xadd(2) [OF b w rate] t l r w d env True
      by (cases ok) (auto simp: cap_reached_def publish_marker_def)
  qed (use b r in \<open>auto simp: cap_reached_def\<close>)
next
  fix c n b raw w
  assume b: "metered lc a b" and raw: "raw = read_raw (ag_files b) (as_log_path st) c (want lc (allowance lc b) c)" "raw \<noteq> []"
    and x: "xadd_log env (ag_world b) (log_event lc st x c raw False) = (w, False)"
  show "metered lc a (fst (b\<lparr>ag_world := w\<rparr>, st, c, n, False))"
    using metered_xadd(2) [OF b _ rate, of "log_event lc st x c raw False" w False] x env raw_affordable [OF raw rate] by simp
qed (use a in auto)

lemma metered_eof:
  assumes "xadd_log env = bus_xadd" and "lc_rate lc > 0" and "metered lc a b"
  shows "metered lc a (publish_eof env lc st x c b)"
proof -
  obtain w ok where w: "bus_xadd (ag_world b) (log_event lc st x c [] True) = (w, ok)" by force
  have small: "(0 :: int) \<le> largest_entry lc" by (simp add: largest_entry_def)
  have tokens: "0 \<le> lp_tokens b" using assms(3) by (simp add: metered_def)
  have "metered lc a (b\<lparr>ag_world := w\<rparr>)"
    using metered_xadd [OF assms(3) w assms(2)] assms(2) small tokens by (cases ok) (auto simp: metered_def spend_def)
  then show ?thesis
    using assms w by (cases ok) (auto simp: publish_eof_def metered_def on_execution_eof_def)
qed

lemma metered_attempt:
  assumes env: "xadd_log env = bus_xadd" "lc_rate lc > 0" and a: "metered lc a b"
  shows "metered lc a (fst (publish_attempt env lc now x b))"
proof (cases "read_state (ag_store b) x")
  case (Some st)
  obtain c s k n went where l: "publish_loop env lc now st x (read_cursor b x) 0 b = (c, s, k, n, went)"
    by (metis surj_pair)
  have "metered lc a c" using metered_loop [OF env a, of now st x "read_cursor b x" 0] l by simp
  then have "metered lc a (publish_eof env lc s x k c)" "metered lc a (publish_eof env lc st x j b)" for j
    using a by (auto intro: metered_eof [OF env])
  with Some l a \<open>metered lc a c\<close> show ?thesis by (simp add: publish_attempt_def)
qed (simp add: publish_attempt_def a)

lemma metered_scan:
  assumes env: "xadd_log env = bus_xadd" "lc_rate lc > 0" and a: "metered lc a b"
  shows "metered lc a (fst (publish_scan env lc now k pos xs b))"
  using a
proof (induction xs arbitrary: pos b)
  case (Cons y ys)
  obtain c n where c: "publish_attempt env lc now y b = (c, n)" by force
  have "metered lc a c" using metered_attempt [OF env Cons.prems, of now y] c by simp
  from Cons.IH [OF this, of "Suc pos"] Cons.prems c show ?case
    by (auto simp: Let_def metered_def split: prod.split)
qed (simp add: metered_def)

definition between_ticks :: "((bus, 'y) log_agent_scheme \<Rightarrow> (bus, 'y) log_agent_scheme) \<Rightarrow> bool" where
  \<comment> \<open>what the rest of the agent may do between two ticks: anything (logs grow, attempts come and go)
    that leaves the bucket and the log stream to the publisher\<close>
  "between_ticks g \<longleftrightarrow> (\<forall>a. ag_world (g a) = ag_world a \<and> lp_tokens (g a) = lp_tokens a
     \<and> lp_last_refill (g a) = lp_last_refill a)"

definition quota_tick ::
    "(bus, 'z) log_os_scheme \<Rightarrow> ('c) log_config_scheme
      \<Rightarrow> ((bus, 'y) log_agent_scheme \<Rightarrow> (bus, 'y) log_agent_scheme) \<times> instant \<times> int
      \<Rightarrow> (bus, 'y) log_agent_scheme \<Rightarrow> (bus, 'y) log_agent_scheme" where
  "quota_tick env lc t a = (case t of (g, now, clock) \<Rightarrow> fst (publish_once env lc now clock (g a)))"

lemma metered_tick:
  assumes "xadd_log env = bus_xadd" "lc_rate lc > 0" "0 \<le> lp_tokens a" "between_ticks g"
    and "lp_last_refill a \<le> clock"
  shows "\<exists>es. bu_stream (ag_world (quota_tick env lc (g, now, clock) a)) = bu_stream (ag_world a) @ es
      \<and> (\<forall>bound. bound = lp_tokens a + lc_rate lc * (clock - lp_last_refill a) \<or> bound = bucket_capacity lc \<longrightarrow>
         1000000 * int (length (bytes_of es)) + lp_tokens (quota_tick env lc (g, now, clock) a)
           + 1000000 * (largest_entry lc * int (lost_replies (ag_world (quota_tick env lc (g, now, clock) a))))
         \<le> bound + 1000000 * (largest_entry lc * int (lost_replies (ag_world a))))"
    and "0 \<le> lp_tokens (quota_tick env lc (g, now, clock) a)"
    and "lp_last_refill (quota_tick env lc (g, now, clock) a) = clock"
proof -
  let ?r = "refill lc clock (g a)" and ?b = "quota_tick env lc (g, now, clock) a"
  have g: "ag_world (g a) = ag_world a" "lp_tokens (g a) = lp_tokens a" "lp_last_refill (g a) = lp_last_refill a"
    using assms(4) by (simp_all add: between_ticks_def)
  obtain gain where gain: "gain = lc_rate lc * (clock - lp_last_refill a)" "0 \<le> gain" using assms(2,5) by simp
  have r: "lp_last_refill ?r = clock" "ag_world ?r = ag_world a" "0 \<le> lp_tokens ?r"
    "lp_tokens ?r \<le> lp_tokens a + gain" "lp_tokens ?r \<le> bucket_capacity lc"
    using assms(2,3,5) g gain by (auto simp: refill_def bucket_capacity_def mult.commute)
  have m: "metered lc ?r ?b"
    using metered_scan [OF assms(1,2) metered_refl [OF r(3)]] metered_refl [OF r(3), of lc]
    by (simp add: quota_tick_def publish_once_def Let_def)
  then show "0 \<le> lp_tokens ?b" and "lp_last_refill ?b = clock" using r(1) by (simp_all add: metered_def)
  from m obtain es where es: "bu_stream (ag_world ?b) = bu_stream (ag_world a) @ es"
      "1000000 * int (length (bytes_of es)) + lp_tokens ?b + 1000000 * (largest_entry lc * int (lost_replies (ag_world ?b)))
        \<le> lp_tokens ?r + 1000000 * (largest_entry lc * int (lost_replies (ag_world a)))"
    unfolding metered_def r(2) by blast
  show "\<exists>es. bu_stream (ag_world ?b) = bu_stream (ag_world a) @ es
      \<and> (\<forall>bound. bound = lp_tokens a + lc_rate lc * (clock - lp_last_refill a) \<or> bound = bucket_capacity lc \<longrightarrow>
         1000000 * int (length (bytes_of es)) + lp_tokens ?b
           + 1000000 * (largest_entry lc * int (lost_replies (ag_world ?b)))
         \<le> bound + 1000000 * (largest_entry lc * int (lost_replies (ag_world a))))"
    using es r(4,5) unfolding gain(1) by (intro exI [of _ es]) auto
qed

text \<open>C18. The agent-wide token bucket: over any run of ticks whose clock never runs backwards, with logs
  growing and attempts coming and going between them, however many executions are talkative, whatever
  entries Redis refuses and however many replies are lost, the bytes that reach the stream (content and truncation
  markers alike) are at most the tokens there were at the start plus the rate times the time that has
  passed, and in one tick at most two seconds of quota; on top of either comes one largest entry for each \<open>XADD\<close> that Redis
  took without its reply arriving.
\<close>

theorem publish_within_quota:
  assumes env: "xadd_log env = bus_xadd" and rate: "lc_rate lc > 0" and "0 \<le> lp_tokens a"
    and "\<forall>(g, now, clock) \<in> set ticks. between_ticks g"
    and "sorted (lp_last_refill a # map (snd \<circ> snd) ticks)"
    and b_def: "b = fold (quota_tick env lc) ticks a"
    and lost_def: "lost = int (lost_replies (ag_world a)) - int (lost_replies (ag_world b))"
  shows "\<exists>es. bu_stream (ag_world b) = bu_stream (ag_world a) @ es
    \<and> 1000000 * int (length (bytes_of es)) \<le> lp_tokens a + lc_rate lc * (lp_last_refill b - lp_last_refill a)
        + 1000000 * (max (lc_max_bytes lc) (int (length (log_marker lc))) * lost)
    \<and> (length ticks = 1 \<longrightarrow> int (length (bytes_of es))
        \<le> 2 * lc_rate lc + max (lc_max_bytes lc) (int (length (log_marker lc))) * lost)"
proof -
  let ?L = "\<lambda>a. 1000000 * (largest_entry lc * int (lost_replies (ag_world a)))"
  have run: "(\<exists>es. bu_stream (ag_world b) = bu_stream (ag_world a) @ es
      \<and> 1000000 * int (length (bytes_of es)) + lp_tokens b + ?L b
          \<le> lp_tokens a + lc_rate lc * (lp_last_refill b - lp_last_refill a) + ?L a)
    \<and> 0 \<le> lp_tokens b"
    using assms(3-6)
  proof (induction ticks arbitrary: a)
    case (Cons t ticks)
    obtain g now clock where t: "t = (g, now, clock)" by (metis surj_pair)
    let ?c = "quota_tick env lc (g, now, clock) a"
    have pre: "between_ticks g" "lp_last_refill a \<le> clock" using Cons.prems(2,3) t by auto
    note tick = metered_tick [OF env rate Cons.prems(1) pre, of now]
    obtain es where es: "bu_stream (ag_world ?c) = bu_stream (ag_world a) @ es"
      "1000000 * int (length (bytes_of es)) + lp_tokens ?c + ?L ?c
        \<le> lp_tokens a + lc_rate lc * (clock - lp_last_refill a) + ?L a"
      using tick(1) by blast
    have rest: "\<forall>(g, now, clock) \<in> set ticks. between_ticks g"
      "sorted (lp_last_refill ?c # map (snd \<circ> snd) ticks)" "b = fold (quota_tick env lc) ticks ?c"
      using Cons.prems(2,3,4) tick(3) t by (auto simp: comp_def)
    obtain fs where fs: "bu_stream (ag_world b) = bu_stream (ag_world ?c) @ fs" "0 \<le> lp_tokens b"
      "1000000 * int (length (bytes_of fs)) + lp_tokens b + ?L b
        \<le> lp_tokens ?c + lc_rate lc * (lp_last_refill b - clock) + ?L ?c"
      using Cons.IH [OF tick(2) rest] tick(3) by auto
    have "1000000 * int (length (bytes_of (es @ fs))) + lp_tokens b + ?L b
        \<le> lp_tokens a + lc_rate lc * (lp_last_refill b - lp_last_refill a) + ?L a"
      using es(2) fs(3) by (simp add: algebra_simps)
    then show ?case using es(1) fs(1,2) by (intro conjI exI [of _ "es @ fs"]) auto
  qed simp
  then obtain es where es: "bu_stream (ag_world b) = bu_stream (ag_world a) @ es"
      "1000000 * int (length (bytes_of es)) + lp_tokens b + ?L b
        \<le> lp_tokens a + lc_rate lc * (lp_last_refill b - lp_last_refill a) + ?L a" "0 \<le> lp_tokens b" by blast
  have single: "1000000 * int (length (bytes_of es)) + ?L b \<le> bucket_capacity lc + ?L a" if one: "length ticks = 1"
  proof -
    obtain only where "ticks = [only]" using one by (cases ticks) auto
    then obtain g now clock where t: "ticks = [(g, now, clock)]" by (cases only) auto
    have pre: "between_ticks g" "lp_last_refill a \<le> clock" using assms(4,5) t by auto
    note tick = metered_tick [OF env rate assms(3) pre, of now]
    have b: "b = quota_tick env lc (g, now, clock) a" using b_def t by simp
    obtain fs where fs: "bu_stream (ag_world b) = bu_stream (ag_world a) @ fs"
        "1000000 * int (length (bytes_of fs)) + lp_tokens b + ?L b \<le> bucket_capacity lc + ?L a"
      using tick(1) unfolding b by blast
    have "fs = es" using fs(1) es(1) by simp
    with fs(2) es(3) show ?thesis by simp
  qed
  have lost: "1000000 * (largest_entry lc * lost) = ?L a - ?L b" by (simp add: lost_def algebra_simps)
  show ?thesis
    using es single lost unfolding largest_entry_def [symmetric] bucket_capacity_def
    by (intro exI [of _ es] conjI impI) linarith+
qed

lemma publish_within_quota_witness:
  "\<exists>es. bu_stream (ag_world (quota_tick sample_log_os (sample_log_config 200)
        (\<lambda>a. a\<lparr>ag_files := [(''/l/e1.log'', ''abcdef'')]\<rparr>, 0, secs 1) (sample_tail ''abc''))) = es
    \<and> int (length (bytes_of es)) \<le> 400"
proof -
  let ?g = "\<lambda>a. a\<lparr>ag_files := [(''/l/e1.log'', ''abcdef'')]\<rparr>"
  let ?b = "quota_tick sample_log_os (sample_log_config 200) (?g, 0, secs 1) (sample_tail ''abc'')"
  have "lost_replies (ag_world ?b) = 0"
    by code_simp
  then show ?thesis
    using publish_within_quota [of sample_log_os "sample_log_config 200" "sample_tail ''abc''" "[(?g, 0, secs 1)]", OF _ _ _ _ _ refl refl]
    by (simp add: sample_log_os_def sample_tail_def secs_def between_ticks_def lost_replies_def)
qed

section \<open>Catching up\<close>

lemma bus_xadd_idle: "bu_script b = [] \<Longrightarrow> bus_xadd b e = (b\<lparr>bu_stream := bu_stream b @ [e]\<rparr>, True)"
  by (simp add: bus_xadd_def)

definition caught_up ::
    "('c) agent_config_scheme \<Rightarrow> bool \<Rightarrow> string \<Rightarrow> string \<Rightarrow> string
      \<Rightarrow> (bus, 'y) consumer_scheme \<times> attempt_state \<times> nat \<times> nat \<times> bool \<Rightarrow> bool" where
  "caught_up lc full task x out r = (case r of (b, st, c, n, went) \<Rightarrow> went \<and> bu_script (ag_world b) = []
     \<and> c = length out \<and> as_task_id st = task
     \<and> bytes_of (log_data x b) = out @ (if full then log_marker lc else []))"

lemma visible_length: "length (visible lc c) \<le> length c" "ac_log_cap lc > 0 \<Longrightarrow> int (length (visible lc c)) \<le> content_cap lc"
  using content_cap_nonneg [of lc] by (auto simp: visible_def min_def le_nat_iff)

lemma mark_log_capped_keeps:
  assumes "mark_log_capped d now x = (d', s')" and "read_state d x = Some st"
  shows "as_task_id (or_default s' st) = as_task_id st" and "as_phase (or_default s' st) = as_phase st"
  using assms(1) by (cases "as_log_capped st"; force simp: mark_log_capped_def update_state_eq touched_def assms(2))+

lemma cap_reached_keeps:
  assumes "cap_reached env lc now st x c n b = (b', s, m)" and "read_state (ag_store b) x = Some st"
  shows "as_phase s = as_phase st" and "cs_eof_sent b' = cs_eof_sent b"
proof -
  obtain w ok where w: "publish_marker env lc st x c b = (b\<lparr>ag_world := w\<rparr>, ok)"
    by (cases "xadd_log env (ag_world b) (log_event lc st x c (log_marker lc) False)") (simp add: publish_marker_def)
  obtain d s' where d: "mark_log_capped (ag_store b) now x = (d, s')" by force
  show "as_phase s = as_phase st" and "cs_eof_sent b' = cs_eof_sent b"
    using assms(1) w d mark_log_capped_keeps(2) [OF d assms(2)]
    by (cases ok; auto simp: cap_reached_def spend_def split: if_splits)+
qed

lemma loop_catches_up:
  assumes env: "xadd_log env = bus_xadd" and idle: "bu_script (ag_world a) = []" and rate: "lc_rate lc \<le> 0"
    and chunk: "lc_max_bytes lc > 0" and t: "tailed lc task [] x st a"
  shows "caught_up lc (ac_log_cap lc > 0 \<and> int (length (log_of a st)) \<ge> content_cap lc) task x (visible lc (log_of a st))
    (publish_loop env lc now st x (read_cursor a x) n a)"
    (is "caught_up lc ?full task x ?out _")
proof (rule publish_loop_rule [where Inv = "\<lambda>c n b. tailed lc task [] x st b \<and> c = read_cursor b x
    \<and> ag_files b = ag_files a \<and> bu_script (ag_world b) = []"])
  fix c n b raw w
  assume i: "tailed lc task [] x st b \<and> c = read_cursor b x \<and> ag_files b = ag_files a \<and> bu_script (ag_world b) = []"
    and r: "\<not> (ac_log_cap lc > 0 \<and> int c \<ge> content_cap lc)"
      "raw = read_raw (ag_files b) (as_log_path st) c (want lc (allowance lc b) c)" "raw \<noteq> []"
      "xadd_log env (ag_world b) (log_event lc st x c raw False) = (w, True)"
  have x: "bus_xadd (ag_world b) (log_event lc st x c raw False) = (w, True)" using r(4) env by simp
  have "bu_script w = []" using i x by (auto simp: bus_xadd_idle)
  then show "tailed lc task [] x st (spend lc (length raw) (write_cursor x (c + length raw) (b\<lparr>ag_world := w\<rparr>)))
      \<and> c + length raw = read_cursor (spend lc (length raw) (write_cursor x (c + length raw) (b\<lparr>ag_world := w\<rparr>))) x
      \<and> ag_files (spend lc (length raw) (write_cursor x (c + length raw) (b\<lparr>ag_world := w\<rparr>))) = ag_files a
      \<and> bu_script (ag_world (spend lc (length raw) (write_cursor x (c + length raw) (b\<lparr>ag_world := w\<rparr>)))) = []"
    using tailed_round [OF _ _ r(1,2,3) x] i by simp
next
  fix c n b
  assume i: "tailed lc task [] x st b \<and> c = read_cursor b x \<and> ag_files b = ag_files a \<and> bu_script (ag_world b) = []"
    and stop: "allowance lc b \<le> 0 \<or> \<not> (ac_log_cap lc > 0 \<and> int c \<ge> content_cap lc)
        \<and> (lc_max_bytes lc \<le> 0 \<or> length (or_default (map_of (ag_files b) (as_log_path st)) []) \<le> c)"
  have le: "length (log_of a st) \<le> c" and nocap: "\<not> (ac_log_cap lc > 0 \<and> int c \<ge> content_cap lc)"
    using stop i rate chunk by (auto simp: allowance_def log_of_def)
  have all: "c = length (log_of a st)" "c = length ?out"
    using i le visible_length(1) [of lc "log_of a st"] by (auto simp: tailed_def log_of_def)
  have "\<not> ?full" using nocap all(1) by auto
  then show "caught_up lc ?full task x ?out (b, st, c, n, True)"
    using i all by (auto simp: caught_up_def tailed_def log_of_def)
next
  fix c n b b' s m
  assume i: "tailed lc task [] x st b \<and> c = read_cursor b x \<and> ag_files b = ag_files a \<and> bu_script (ag_world b) = []"
    and cap: "ac_log_cap lc > 0" "int c \<ge> content_cap lc"
    and r: "cap_reached env lc now st x c n b = (b', s, m)"
  have all: "c = length ?out" "int c = content_cap lc"
    using i cap visible_length(2) [OF cap(1), of "log_of a st"] by (auto simp: tailed_def log_of_def)
  have full: ?full using cap all visible_length(1) [of lc "log_of a st"] by auto
  obtain d s' where d: "mark_log_capped (ag_store b) now x = (d, s')" by force
  have st: "read_state (ag_store b) x = Some st" "as_task_id st = task" using i by (simp_all add: tailed_def)
  have "as_task_id (or_default s' st) = task" using mark_log_capped_keeps(1) [OF d st(1)] st(2) by simp
  moreover have "log_data x b = data_of x (bu_stream (ag_world b))" by (simp add: log_data_def)
  ultimately show "caught_up lc ?full task x ?out (b', s, c, m, True)"
    using i r env rate all cap d st full
    by (auto simp: caught_up_def cap_reached_def marker_allowed_def publish_marker_def bus_xadd_idle tailed_def
        log_data_def log_of_def)
next
  fix c n b raw w
  assume "tailed lc task [] x st b \<and> c = read_cursor b x \<and> ag_files b = ag_files a \<and> bu_script (ag_world b) = []"
    and "xadd_log env (ag_world b) (log_event lc st x c raw False) = (w, False)"
  then show "caught_up lc ?full task x ?out (b\<lparr>ag_world := w\<rparr>, st, c, n, False)"
    using env by (simp add: bus_xadd_idle)
qed (use t idle in simp)



end
