(* ===== verification/LogPipeline.thy ===== *)
theory LogPipeline
  imports LogBus ServerLogs
begin

text \<open>
  The log pipeline end to end: a job appends to its log, the agent publishes slices of it, the
  server applies entries of the stream, and in between both sides do everything else they do.

  The stream of the model keeps every entry it ever took. Which of them the server gets to see, in which
  order and how often, is left open: the log consumer reads on past an entry whose application
  failed and claims it later, and Redis trims entries the server has not read.
\<close>

section \<open>The server's half\<close>

definition log_row :: "log_store \<Rightarrow> string \<Rightarrow> string \<Rightarrow> log_file option" where
  "log_row s task x = find_log (lt_db s) (task, x, Stream_log)"

definition paths_apart :: "db \<Rightarrow> bool" where
  \<comment> \<open>no two log rows share a body file\<close>
  "paths_apart d \<longleftrightarrow> (\<forall>k k' lf lf'. find_log d k = Some lf \<longrightarrow> find_log d k' = Some lf'
     \<longrightarrow> lf_storage_path lf = lf_storage_path lf' \<longrightarrow> k = k')"

definition cut_marker :: "string \<Rightarrow> bool" where
  "cut_marker m \<longleftrightarrow> m = [] \<or> (\<exists>n r. m = truncation_marker n r)"

inductive pieces :: "string \<Rightarrow> string \<Rightarrow> nat \<Rightarrow> nat \<Rightarrow> bool" for D where
  \<comment> \<open>what \<open>D\<close> up to an offset has become: slices of it in order, and a gap marker for every stretch that was
    left out; the last argument counts these\<close>
  nothing: "pieces D [] 0 0"
| piece: "pieces D b n g \<Longrightarrow> n \<le> k \<Longrightarrow> k + j \<le> length D
    \<Longrightarrow> pieces D (b @ (if n < k then gap_marker (int n) (int k) else []) @ take j (drop k D)) (k + j)
          (g + (if n < k then 1 else 0))"

lemma pieces_grow: "pieces D b n g \<Longrightarrow> pieces (D @ E) b n g"
proof (induction rule: pieces.induct)
  case (piece b n g k j)
  from pieces.piece [OF piece.IH piece.hyps(2), of j] piece.hyps(3) show ?case by simp
qed (rule pieces.nothing)

lemma pieces_le: "pieces D b n g \<Longrightarrow> n \<le> length D"
  by (induction rule: pieces.induct) simp_all

lemma pieces_whole: "pieces D b n g \<Longrightarrow> g = 0 \<Longrightarrow> b = take n D"
proof (induction rule: pieces.induct)
  case (piece b n g k j)
  then show ?case by (cases "n < k") (simp_all add: take_add)
qed simp

definition made_of :: "string \<Rightarrow> log_file \<Rightarrow> string \<Rightarrow> string \<Rightarrow> nat \<Rightarrow> nat \<Rightarrow> bool" where
  \<comment> \<open>the body \<open>c\<close> is the pieces \<open>b\<close>, cut once if the log is truncated\<close>
  "made_of D lf c b n g \<longleftrightarrow> pieces D b n g \<and> lf_gap_count lf = int g
     \<and> (if lf_log_integrity lf = INTEGRITY_TRUNCATED then \<exists>k m. c = take k b @ m \<and> cut_marker m
        else lf_log_integrity lf = (if g = 0 then INTEGRITY_COMPLETE else INTEGRITY_PARTIAL)
          \<and> c = b \<and> lf_last_pulled_offset lf = int n)"

definition kept :: "string \<Rightarrow> log_file \<Rightarrow> string \<Rightarrow> bool" where
  \<comment> \<open>a row and its body \<open>c\<close> when \<open>D\<close> is what was published\<close>
  "kept D lf c \<longleftrightarrow> lf_log_integrity lf = INTEGRITY_EXPIRED \<and> lf_status lf \<notin> WRITABLE_LOG_STATUSES
     \<or> 0 \<le> lf_last_pulled_offset lf \<and> lf_last_pulled_offset lf \<le> int (length D) \<and> (\<exists>b n g. made_of D lf c b n g)"

lemma keptI:
  "0 \<le> lf_last_pulled_offset lf \<Longrightarrow> lf_last_pulled_offset lf \<le> int (length D) \<Longrightarrow> made_of D lf c b n g \<Longrightarrow> kept D lf c"
  unfolding kept_def by blast

lemma keptE:
  assumes "kept D lf c" and "\<not> (lf_log_integrity lf = INTEGRITY_EXPIRED \<and> lf_status lf \<notin> WRITABLE_LOG_STATUSES)"
  obtains b n g where "0 \<le> lf_last_pulled_offset lf" and "lf_last_pulled_offset lf \<le> int (length D)" and "made_of D lf c b n g"
  using assms unfolding kept_def by blast

lemma kept_fresh:
  "lf_log_integrity lf = INTEGRITY_COMPLETE \<Longrightarrow> lf_gap_count lf = 0 \<Longrightarrow> lf_last_pulled_offset lf = 0 \<Longrightarrow> kept [] lf []"
  by (rule keptI [where b = "[]" and n = 0 and g = 0]) (simp_all add: made_of_def pieces.nothing)

lemma made_of_cong:
  "lf_log_integrity lf' = lf_log_integrity lf \<Longrightarrow> lf_gap_count lf' = lf_gap_count lf
    \<Longrightarrow> lf_last_pulled_offset lf' = lf_last_pulled_offset lf \<Longrightarrow> made_of D lf' c b n g = made_of D lf c b n g"
  by (simp add: made_of_def)

definition stored :: "string \<Rightarrow> string \<Rightarrow> string \<Rightarrow> log_store \<Rightarrow> bool" where
  "stored task x D s \<longleftrightarrow> lt_gauge s \<noteq> None \<and> paths_apart (lt_db s)
     \<and> (\<forall>lf. log_row s task x = Some lf \<longrightarrow> kept D lf (body (lt_bodies s) (lf_storage_path lf)))"

lemma kept_grow: "kept D lf c \<Longrightarrow> kept (D @ E) lf c"
proof (cases "lf_log_integrity lf = INTEGRITY_EXPIRED \<and> lf_status lf \<notin> WRITABLE_LOG_STATUSES")
  case False
  assume "kept D lf c"
  then obtain b n g where k: "0 \<le> lf_last_pulled_offset lf" "lf_last_pulled_offset lf \<le> int (length D)" "made_of D lf c b n g"
    using False by (rule keptE)
  have "made_of (D @ E) lf c b n g" using k(3) pieces_grow [of D b n g E] unfolding made_of_def by blast
  from keptI [OF k(1) _ this] k(2) show ?thesis by simp
qed (simp add: kept_def)

lemma stored_grow: "stored task x D s \<Longrightarrow> stored task x (D @ E) s"
  by (simp add: stored_def kept_grow)

lemma find_save_log:
  "find_log d k = Some lf \<Longrightarrow> log_key lf' = k \<Longrightarrow>
     find_log (save_log d lf') k' = (if k' = k then Some lf' else find_log d k')"
  by (auto simp: logs.lookup_update)

lemma paths_apart_save:
  assumes "paths_apart d" and "find_log d k = Some lf" and "log_key lf' = k"
    and "lf_storage_path lf' = lf_storage_path lf"
  shows "paths_apart (save_log d lf')"
  unfolding paths_apart_def find_save_log [OF assms(2,3)]
proof (intro allI impI)
  fix k1 k2 l1 l2
  assume "(if k1 = k then Some lf' else find_log d k1) = Some l1"
    and "(if k2 = k then Some lf' else find_log d k2) = Some l2" and "lf_storage_path l1 = lf_storage_path l2"
  then show "k1 = k2"
    using assms(1,2,4) unfolding paths_apart_def by (metis option.inject)
qed

lemma paths_apart_on_truncated [simp]:
  "paths_apart (on_truncated cfg now e r n d) = paths_apart d"
  by (simp add: paths_apart_def)

text \<open>What \<open>write_event\<close> does, in terms of the bytes it decided to write.\<close>

lemma write_event_cases:
  assumes w: "write_event cfg now landed e lf s = (s', r)" and k: "find_log (lt_db s) k = Some lf"
    and g: "lt_gauge s \<noteq> None" and apart: "paths_apart (lt_db s)" and l: "\<And>n. landed \<noteq> Some (Suc n)"
    and gap: "gap = (le_offset e > lf_last_pulled_offset lf)"
    and pl: "plan_write (body_size (lt_bodies s) (lf_storage_path lf))
      ((if gap then gap_marker (lf_last_pulled_offset lf) (le_offset e) else []) @ le_content e)
      (max_file_bytes (cfg_logs cfg)) (lt_gauge s) = (to_write, trunc, reason)"
  shows "lt_gauge s' \<noteq> None \<and> paths_apart (lt_db s') \<and> (landed = None \<longrightarrow> r \<noteq> None)
    \<and> (r = None \<longrightarrow> lt_db s' = lt_db s \<and> lt_bodies s' = lt_bodies s)
    \<and> (\<forall>o'. r = Some o' \<longrightarrow> lt_bodies s' = append_bytes (lt_bodies s) (lf_storage_path lf) to_write
        \<and> (\<exists>lf'. (\<forall>k'. find_log (lt_db s') k' = (if k' = k then Some lf' else find_log (lt_db s) k'))
          \<and> lf_storage_path lf' = lf_storage_path lf \<and> lf_status lf' = lf_status lf
          \<and> lf_last_pulled_offset lf' = le_offset e + le_size_bytes e
          \<and> lf_gap_count lf' = lf_gap_count lf + (if gap then 1 else 0)
          \<and> lf_log_integrity lf' = (if trunc then INTEGRITY_TRUNCATED
              else if gap then INTEGRITY_PARTIAL else lf_log_integrity lf)))"
proof -
  have key: "log_key lf = k" using k logs.lookup_key by blast
  define lf' where "lf' = (let lf1 = (if gap then mark_gap e lf else lf);
      n = body_size (append_bytes (lt_bodies s) (lf_storage_path lf) to_write) (lf_storage_path lf);
      lf2 = lf1\<lparr>lf_last_pulled_offset := le_offset e + le_size_bytes e, lf_size_bytes := n,
        lf_final_offset := Some n\<rparr>
    in if trunc then lf2\<lparr>lf_log_integrity := INTEGRITY_TRUNCATED, lf_truncation_reason := reason\<rparr> else lf2)"
  have key': "log_key lf' = k" and path': "lf_storage_path lf' = lf_storage_path lf"
    and "lf_status lf' = lf_status lf" "lf_last_pulled_offset lf' = le_offset e + le_size_bytes e"
    and "lf_gap_count lf' = lf_gap_count lf + (if gap then 1 else 0)"
    and "lf_log_integrity lf' = (if trunc then INTEGRITY_TRUNCATED
              else if gap then INTEGRITY_PARTIAL else lf_log_integrity lf)"
    using key by (auto simp: lf'_def log_key_def Let_def mark_gap_def)
  note row = this
  have data: "(case landed of None \<Rightarrow> to_write | Some n \<Rightarrow> take n to_write) = (if landed = None then to_write else [])"
    using l by (cases landed) (auto, metis list.size(3) not0_implies_Suc take0)
  show ?thesis
  proof (cases "to_write = [] \<or> landed = None")
    case True
    have "lt_db s' = (if trunc then on_truncated cfg now e (or_default reason TRUNCATION_SIZE_CAP)
          (body_size (append_bytes (lt_bodies s) (lf_storage_path lf) to_write) (lf_storage_path lf))
          (save_log (lt_db s) lf') else save_log (lt_db s) lf')"
      and "lt_bodies s' = append_bytes (lt_bodies s) (lf_storage_path lf) to_write" and "lt_gauge s' \<noteq> None"
      and "r \<noteq> None"
      using w True g data pl gap
      by (auto simp: write_event_def write_settled_def Let_def lf'_def split: if_splits)
    then show ?thesis
      using row paths_apart_save [OF apart k key' path'] find_save_log [OF k key'] by auto
  next
    case False
    then have "lt_db s' = lt_db s \<and> lt_bodies s' = lt_bodies s \<and> lt_gauge s' \<noteq> None \<and> r = None"
      using w g data pl gap by (auto simp: write_event_def write_settled_def Let_def)
    then show ?thesis using apart False by simp
  qed
qed

text \<open>An entry of another log leaves the row and the body alone.\<close>

lemma apply_other:
  assumes a: "apply_log_event cfg now landed e s = (s', r)"
    and st: "stored task x D s" and l: "\<And>n. landed \<noteq> Some (Suc n)"
    and other: "(le_task_id e, le_execution_id e, le_stream e) \<noteq> (task, x, Stream_log) \<or> le_eof e \<and> le_size_bytes e = 0"
  shows "stored task x D s'"
proof (cases "get_log_file (lt_db s) (le_task_id e) (le_execution_id e) (le_stream e)")
  case None
  then show ?thesis using a st by (auto simp: apply_log_event_def)
next
  case (Some lf)
  let ?k = "(le_task_id e, le_execution_id e, le_stream e)"
  have k: "find_log (lt_db s) ?k = Some lf" using Some by (simp add: get_log_file_def)
  have key: "log_key lf = ?k" using k logs.lookup_key by blast
  have g: "lt_gauge s \<noteq> None" and apart: "paths_apart (lt_db s)" using st by (simp_all add: stored_def)
  have keep: "stored task x D t"
    if "?k \<noteq> (task, x, Stream_log)" "lt_gauge t \<noteq> None" "paths_apart (lt_db t)"
      "find_log (lt_db t) (task, x, Stream_log) = find_log (lt_db s) (task, x, Stream_log)"
      "\<And>row. log_row s task x = Some row \<Longrightarrow>
        body (lt_bodies t) (lf_storage_path row) = body (lt_bodies s) (lf_storage_path row)" for t
    using st that by (auto simp: stored_def log_row_def)
  show ?thesis
  proof (cases "s' = s")
    case False
    then have ne: "?k \<noteq> (task, x, Stream_log)" using a other by (auto simp: apply_log_event_def Some)
    show ?thesis
    proof (cases "s' = s\<lparr>lt_db := save_log (lt_db s) (lf\<lparr>lf_last_pulled_offset := le_offset e + le_size_bytes e\<rparr>)\<rparr>")
      case True
      let ?lf = "lf\<lparr>lf_last_pulled_offset := le_offset e + le_size_bytes e\<rparr>"
      have "log_key ?lf = ?k" using key by (simp add: log_key_def)
      then show ?thesis
        using True g apart paths_apart_save [OF apart k, of ?lf] ne find_save_log [OF k, of ?lf "(task, x, Stream_log)"]
        by (intro keep) auto
    next
      case 2: False
      then have w: "write_event cfg now landed e lf s = (s', r)"
        using a False Some by (auto simp: apply_log_event_def split: if_splits)
      obtain tw c re where "plan_write (body_size (lt_bodies s) (lf_storage_path lf))
          ((if le_offset e > lf_last_pulled_offset lf then gap_marker (lf_last_pulled_offset lf) (le_offset e) else [])
            @ le_content e) (max_file_bytes (cfg_logs cfg)) (lt_gauge s) = (tw, c, re)" by (metis surj_pair)
      note we = write_event_cases [OF w k g apart l refl this]
      have "lf_storage_path row \<noteq> lf_storage_path lf" if "log_row s task x = Some row" for row
        using apart k that ne unfolding paths_apart_def log_row_def by metis
      then show ?thesis
        using we ne by (intro keep) (cases r; auto)+
    qed
  qed (use st in simp)
qed

text \<open>An entry of the log.\<close>

lemma plan_uncut:
  assumes "plan_write n payload cap g = (tw, trunc, r)"
  shows "\<not> trunc \<Longrightarrow> tw = payload" and "trunc \<Longrightarrow> \<exists>k m. tw = take k payload @ m \<and> cut_marker m"
proof -
  have cap: "plan_cap n payload cap = (t, c, q) \<Longrightarrow>
      (\<not> c \<longrightarrow> t = payload) \<and> (c \<longrightarrow> (\<exists>k m. t = take k payload @ m \<and> cut_marker m))" for t c q
    by (auto simp: plan_cap_def Let_def cut_marker_def split: if_splits)
  have dir: "cut_marker m \<Longrightarrow> \<exists>k m'. m = take k payload @ m' \<and> cut_marker m'" for m
    by (rule exI [of _ 0]) simp
  have "cut_marker (truncation_marker b TRUNCATION_DIR_BUDGET)" "cut_marker []" for b
    by (auto simp: cut_marker_def)
  note dir = dir [OF this(1)] dir [OF this(2)]
  obtain t c q where pc: "plan_cap n payload cap = (t, c, q)" by (metis surj_pair)
  show "\<not> trunc \<Longrightarrow> tw = payload" and "trunc \<Longrightarrow> \<exists>k m. tw = take k payload @ m \<and> cut_marker m"
    using assms cap [OF pc] dir unfolding plan_write_def pc
    by (auto simp: Let_def split: option.splits if_splits)
qed

definition slice_of :: "string \<Rightarrow> agent_log_event \<Rightarrow> bool" where
  "slice_of D e \<longleftrightarrow> le_content e \<noteq> [] \<and> le_size_bytes e = int (length (le_content e)) \<and> (\<exists>k. le_offset e = int k
     \<and> k + length (le_content e) \<le> length D \<and> le_content e = take (length (le_content e)) (drop k D))"

lemma slice_piece:
  assumes "slice_of D e" and "pieces D b n g" and "int n \<le> le_offset e"
  shows "pieces D (b @ (if le_offset e > int n then gap_marker (int n) (le_offset e) else []) @ le_content e)
    (nat (le_offset e + le_size_bytes e)) (g + (if le_offset e > int n then 1 else 0))"
proof -
  obtain k where k: "le_offset e = int k" "k + length (le_content e) \<le> length D"
      "le_content e = take (length (le_content e)) (drop k D)" and z: "le_size_bytes e = int (length (le_content e))"
    using assms(1) by (auto simp: slice_of_def)
  have n: "n \<le> k" using assms(3) k(1) by simp
  have e: "nat (le_offset e + le_size_bytes e) = k + length (le_content e)" using k(1) z by (simp add: nat_int_add)
  have "pieces D (b @ (if n < k then gap_marker (int n) (int k) else []) @ le_content e) (k + length (le_content e))
      (g + (if n < k then 1 else 0))"
    using pieces.piece [OF assms(2) n k(2)] k(3) by metis
  then show ?thesis unfolding e unfolding k(1) by (cases "n < k") simp_all
qed

text \<open>What an application does to the row of an entry that goes to the disk.\<close>

lemma apply_written:
  assumes w: "write_event cfg now landed e lf s = (s', r)" and st: "stored task x D s"
    and l: "\<And>n. landed \<noteq> Some (Suc n)" and lf: "log_row s task x = Some lf"
    and sl: "slice_of D e" and off: "lf_last_pulled_offset lf \<le> le_offset e"
    and wr: "lf_status lf \<in> WRITABLE_LOG_STATUSES" and int: "lf_log_integrity lf \<noteq> INTEGRITY_TRUNCATED"
  shows "stored task x D s'"
    and "landed = None \<Longrightarrow> r \<noteq> None \<and> (\<exists>lf'. log_row s' task x = Some lf' \<and> lf_status lf' = lf_status lf
      \<and> lf_last_pulled_offset lf' = le_offset e + le_size_bytes e
      \<and> (lf_log_integrity lf' = INTEGRITY_TRUNCATED \<or> lf_log_integrity lf' = (if le_offset e > lf_last_pulled_offset lf
            then INTEGRITY_PARTIAL else lf_log_integrity lf)
          \<and> body (lt_bodies s') (lf_storage_path lf') = body (lt_bodies s) (lf_storage_path lf)
              @ (if le_offset e > lf_last_pulled_offset lf then gap_marker (lf_last_pulled_offset lf) (le_offset e) else [])
              @ le_content e))"
proof -
  let ?k = "(task, x, Stream_log)" and ?c = "body (lt_bodies s) (lf_storage_path lf)"
  have k: "find_log (lt_db s) ?k = Some lf" using lf by (simp add: log_row_def)
  have g: "lt_gauge s \<noteq> None" and apart: "paths_apart (lt_db s)" using st by (simp_all add: stored_def)
  obtain n g' where pc: "pieces D ?c n g'" "lf_gap_count lf = int g'" "lf_last_pulled_offset lf = int n"
      "lf_log_integrity lf = (if g' = 0 then INTEGRITY_COMPLETE else INTEGRITY_PARTIAL)"
    using st lf wr int by (auto simp: stored_def kept_def made_of_def)
  let ?gap = "le_offset e > lf_last_pulled_offset lf"
  let ?marker = "if ?gap then gap_marker (lf_last_pulled_offset lf) (le_offset e) else []"
  obtain tw trunc re where pl: "plan_write (body_size (lt_bodies s) (lf_storage_path lf)) (?marker @ le_content e)
      (max_file_bytes (cfg_logs cfg)) (lt_gauge s) = (tw, trunc, re)" by (metis surj_pair)
  note wc = write_event_cases [OF w k g apart l refl pl]
  have grown: "pieces D (?c @ ?marker @ le_content e) (nat (le_offset e + le_size_bytes e)) (g' + (if ?gap then 1 else 0))"
    using slice_piece [OF sl pc(1)] off pc(3) by (cases ?gap) simp_all
  have range: "0 \<le> le_offset e + le_size_bytes e" "le_offset e + le_size_bytes e \<le> int (length D)"
    using sl by (auto simp: slice_of_def)
  have row: "\<exists>lf'. log_row s' task x = Some lf' \<and> lf_storage_path lf' = lf_storage_path lf
      \<and> lf_status lf' = lf_status lf \<and> lf_last_pulled_offset lf' = le_offset e + le_size_bytes e
      \<and> lf_gap_count lf' = int (g' + (if ?gap then 1 else 0))
      \<and> lf_log_integrity lf' = (if trunc then INTEGRITY_TRUNCATED else if ?gap then INTEGRITY_PARTIAL else lf_log_integrity lf)
      \<and> body (lt_bodies s') (lf_storage_path lf) = ?c @ tw" if some: "r = Some o'" for o'
  proof -
    have "lt_bodies s' = append_bytes (lt_bodies s) (lf_storage_path lf) tw" using wc some by blast
    then have b: "body (lt_bodies s') (lf_storage_path lf) = ?c @ tw" by simp
    obtain lf' where lf': "\<And>k'. find_log (lt_db s') k' = (if k' = ?k then Some lf' else find_log (lt_db s) k')"
        "lf_storage_path lf' = lf_storage_path lf" "lf_status lf' = lf_status lf"
        "lf_last_pulled_offset lf' = le_offset e + le_size_bytes e"
        "lf_gap_count lf' = lf_gap_count lf + (if ?gap then 1 else 0)"
        "lf_log_integrity lf' = (if trunc then INTEGRITY_TRUNCATED else if ?gap then INTEGRITY_PARTIAL else lf_log_integrity lf)"
      using wc some by blast
    have "log_row s' task x = Some lf'" by (simp add: log_row_def lf'(1))
    moreover have "lf_gap_count lf' = int (g' + (if ?gap then 1 else 0))" using lf'(5) pc(2) by simp
    ultimately show ?thesis using lf'(2-4,6) b by blast
  qed
  have cutb: "\<exists>i m. ?c @ tw = take i (?c @ ?marker @ le_content e) @ m \<and> cut_marker m" if cut: trunc
  proof -
    obtain i m where "tw = take i (?marker @ le_content e) @ m" "cut_marker m" using plan_uncut(2) [OF pl cut] by blast
    then show ?thesis by (intro exI [of _ "length ?c + i"] exI [of _ m]) simp
  qed
  have unc: "\<not> trunc \<Longrightarrow> tw = ?marker @ le_content e" using plan_uncut(1) [OF pl] by simp
  show "stored task x D s'"
  proof (cases r)
    case None
    then have "lt_db s' = lt_db s" "lt_bodies s' = lt_bodies s" "lt_gauge s' \<noteq> None" using wc by auto
    then show ?thesis using st by (simp add: stored_def log_row_def)
  next
    case (Some o')
    obtain lf' where lf': "log_row s' task x = Some lf'" "lf_storage_path lf' = lf_storage_path lf"
        "lf_last_pulled_offset lf' = le_offset e + le_size_bytes e"
        "lf_gap_count lf' = int (g' + (if ?gap then 1 else 0))"
        "lf_log_integrity lf' = (if trunc then INTEGRITY_TRUNCATED else if ?gap then INTEGRITY_PARTIAL else lf_log_integrity lf)"
        "body (lt_bodies s') (lf_storage_path lf) = ?c @ tw"
      using row [OF Some] by blast
    have "made_of D lf' (?c @ tw) (?c @ ?marker @ le_content e) (nat (le_offset e + le_size_bytes e))
        (g' + (if ?gap then 1 else 0))"
    proof (cases trunc)
      case True
      then show ?thesis unfolding made_of_def using lf'(4,5) grown cutb by simp
    next
      case False
      have "lf_log_integrity lf' = (if g' + (if ?gap then 1 else 0) = 0 then INTEGRITY_COMPLETE else INTEGRITY_PARTIAL)"
        using lf'(5) False pc(4) by (cases ?gap) simp_all
      moreover have "lf_log_integrity lf' \<noteq> INTEGRITY_TRUNCATED" using calculation by simp
      ultimately show ?thesis unfolding made_of_def using lf'(3,4) range(1) grown unc [OF False] by simp
    qed
    from keptI [OF _ _ this] have "kept D lf' (?c @ tw)" using lf'(3) range by simp
    then show ?thesis using wc lf'(1,2,6) by (auto simp: stored_def)
  qed
  show "r \<noteq> None \<and> (\<exists>lf'. log_row s' task x = Some lf' \<and> lf_status lf' = lf_status lf
      \<and> lf_last_pulled_offset lf' = le_offset e + le_size_bytes e
      \<and> (lf_log_integrity lf' = INTEGRITY_TRUNCATED \<or> lf_log_integrity lf' = (if ?gap
            then INTEGRITY_PARTIAL else lf_log_integrity lf)
          \<and> body (lt_bodies s') (lf_storage_path lf') = ?c @ ?marker @ le_content e))" if written: "landed = None"
  proof -
    have "landed = None \<longrightarrow> r \<noteq> None" using wc by (elim conjE)
    then obtain o' where o': "r = Some o'" using written by auto
    from row [OF o'] unc show ?thesis using o' by (cases trunc) auto
  qed
qed

text \<open>Any entry of the log, next in order or not, delivered before or not.\<close>

lemma apply_slice:
  assumes a: "apply_log_event cfg now landed e s = (s', r)" and st: "stored task x D s"
    and l: "\<And>n. landed \<noteq> Some (Suc n)"
    and e: "le_task_id e = task" "le_execution_id e = x" "le_stream e = Stream_log" "\<not> le_eof e" and sl: "slice_of D e"
  shows "stored task x D s'"
proof (cases "log_row s task x")
  case None
  then have "s' = s" using a e by (simp add: apply_log_event_def get_log_file_def log_row_def)
  then show ?thesis using st by simp
next
  case (Some lf)
  let ?k = "(task, x, Stream_log)" and ?lf = "lf\<lparr>lf_last_pulled_offset := le_offset e + le_size_bytes e\<rparr>"
  have k: "find_log (lt_db s) ?k = Some lf" using Some by (simp add: log_row_def)
  have key: "log_key lf = ?k" using k logs.lookup_key by blast
  have g: "lt_gauge s \<noteq> None" and apart: "paths_apart (lt_db s)" using st by (simp_all add: stored_def)
  have ne: "le_content e \<noteq> []" using sl by (simp add: slice_of_def)
  have "s' = s \<or> lf_status lf \<in> WRITABLE_LOG_STATUSES \<and> lf_last_pulled_offset lf \<le> le_offset e
      \<and> (if lf_log_integrity lf = INTEGRITY_TRUNCATED then s' = s\<lparr>lt_db := save_log (lt_db s) ?lf\<rparr>
         else write_event cfg now landed e lf s = (s', r))"
    using a e ne g by (auto simp: apply_log_event_def get_log_file_def k split: if_splits)
  then show ?thesis
  proof (elim disjE conjE)
    assume wr: "lf_status lf \<in> WRITABLE_LOG_STATUSES" and off: "lf_last_pulled_offset lf \<le> le_offset e"
      and s': "if lf_log_integrity lf = INTEGRITY_TRUNCATED then s' = s\<lparr>lt_db := save_log (lt_db s) ?lf\<rparr>
         else write_event cfg now landed e lf s = (s', r)"
    show ?thesis
    proof (cases "lf_log_integrity lf = INTEGRITY_TRUNCATED")
      case False
      then show ?thesis using apply_written(1) [OF _ st l Some sl off wr False] s' by simp
    next
      case True
      have "log_key ?lf = ?k" using key by (simp add: log_key_def)
      moreover have "kept D ?lf (body (lt_bodies s) (lf_storage_path lf))"
        using st Some wr True sl by (auto simp: stored_def kept_def made_of_def slice_of_def)
      ultimately show ?thesis
        using s' True g paths_apart_save [OF apart k, of ?lf] find_save_log [OF k, of ?lf ?k]
        by (simp add: stored_def log_row_def)
    qed
  qed (use st in simp)
qed

section \<open>The pipeline\<close>

record pipeline =
  pl_agent :: "bus log_agent"
  pl_server :: log_store

definition agent_keeps :: "('c) agent_config_scheme \<Rightarrow> string \<Rightarrow> (bus, 'y) consumer_scheme \<Rightarrow> (bus, 'y) consumer_scheme \<Rightarrow> bool" where
  \<comment> \<open>any other step of the agent, its jobs included: the log may grow, and above the publish cap
    it may be rewritten, the state file may change, but the attempt stays and stays capped\<close>
  "agent_keeps lc x a b \<longleftrightarrow> well_keyed (ag_store b) \<and> definite (ag_world b)
     \<and> bu_stream (ag_world b) = bu_stream (ag_world a) \<and> read_cursor b x = read_cursor a x
     \<and> (\<forall>st. read_state (ag_store a) x = Some st \<longrightarrow>
          (\<exists>st'. read_state (ag_store b) x = Some st' \<and> as_log_path st' = as_log_path st
            \<and> as_task_id st' = as_task_id st \<and> (as_log_capped st \<longrightarrow> as_log_capped st')
            \<and> prefix (visible lc (log_of a st)) (visible lc (log_of b st'))))"

definition server_keeps :: "string \<Rightarrow> string \<Rightarrow> log_store \<Rightarrow> log_store \<Rightarrow> bool" where
  \<comment> \<open>any other step of the server: the log may be sealed, a sealed log that is not truncated may be cut, the log may expire,
    and its row may go\<close>
  "server_keeps task x s t \<longleftrightarrow> lt_gauge t \<noteq> None \<and> paths_apart (lt_db t)
     \<and> (\<forall>lf'. log_row t task x = Some lf' \<longrightarrow>
          lf_log_integrity lf' = INTEGRITY_EXPIRED \<and> lf_status lf' \<notin> WRITABLE_LOG_STATUSES
        \<or> (\<exists>lf. log_row s task x = Some lf \<and> lf_storage_path lf' = lf_storage_path lf
            \<and> lf_last_pulled_offset lf' = lf_last_pulled_offset lf \<and> lf_gap_count lf' = lf_gap_count lf
            \<and> (lf_status lf' \<in> WRITABLE_LOG_STATUSES \<longrightarrow> lf_status lf \<in> WRITABLE_LOG_STATUSES)
            \<and> (lf_log_integrity lf' = lf_log_integrity lf
                \<and> body (lt_bodies t) (lf_storage_path lf) = body (lt_bodies s) (lf_storage_path lf)
              \<or> lf_log_integrity lf \<notin> {INTEGRITY_TRUNCATED, INTEGRITY_EXPIRED} \<and> lf_log_integrity lf' = INTEGRITY_TRUNCATED
                \<and> (\<exists>cap. body (lt_bodies t) (lf_storage_path lf)
                      = take cap (body (lt_bodies s) (lf_storage_path lf)) @ truncation_marker (int cap) TRUNCATION_MAINTENANCE))))"

inductive pipe_step ::
    "(bus, 'z) log_os_scheme \<Rightarrow> ('c) log_config_scheme \<Rightarrow> settings \<Rightarrow> string \<Rightarrow> string \<Rightarrow> pipeline \<Rightarrow> pipeline \<Rightarrow> bool"
  for env lc cfg task x where
  pipe_publish: "pipe_step env lc cfg task x p (p\<lparr>pl_agent := fst (publish_once env lc now clock (pl_agent p))\<rparr>)"
| pipe_agent: "agent_keeps lc x (pl_agent p) b \<Longrightarrow> pipe_step env lc cfg task x p (p\<lparr>pl_agent := b\<rparr>)"
| pipe_apply: "e \<in> set (bu_stream (ag_world (pl_agent p))) \<Longrightarrow> (\<And>n. landed \<noteq> Some (Suc n))
    \<Longrightarrow> log_apply_one cfg now (Log_entry i (Some e) landed) (pl_server p) = (s, ids, raised)
    \<Longrightarrow> pipe_step env lc cfg task x p (p\<lparr>pl_server := s\<rparr>)"
| pipe_server: "server_keeps task x (pl_server p) s \<Longrightarrow> pipe_step env lc cfg task x p (p\<lparr>pl_server := s\<rparr>)"

definition pipe_inv :: "('c) agent_config_scheme \<Rightarrow> string \<Rightarrow> string \<Rightarrow> pipeline \<Rightarrow> bool" where
  "pipe_inv lc task x p \<longleftrightarrow> published_prefix lc task x (pl_agent p)
     \<and> (\<forall>e \<in> set (bu_stream (ag_world (pl_agent p))). le_eof e \<longrightarrow> le_size_bytes e = 0)
     \<and> stored task x (bytes_of (log_data x (pl_agent p))) (pl_server p)"

lemma published_prefix_keeps:
  assumes p: "published_prefix lc task x a" and k: "agent_keeps lc x a b"
  shows "published_prefix lc task x b"
proof -
  obtain st m where t: "tailed lc task m x st a"
    and m: "m = [] \<or> m = log_marker lc \<and> ac_log_cap lc > 0 \<and> as_log_capped st"
    using p by (auto simp: published_prefix_def)
  obtain st' where s: "read_state (ag_store b) x = Some st'" "as_task_id st' = as_task_id st"
      "as_log_capped st \<longrightarrow> as_log_capped st'" "prefix (visible lc (log_of a st)) (visible lc (log_of b st'))"
    using t k by (auto simp: tailed_def agent_keeps_def)
  obtain r where r: "visible lc (log_of b st') = visible lc (log_of a st) @ r" using s(4) by (rule prefixE)
  have "tailed lc task m x st' b"
    using t k s r by (auto simp: tailed_def agent_keeps_def log_data_def)
  then show ?thesis using m s(3) by (auto simp: published_prefix_def)
qed

lemma contiguous_slice:
  assumes "contiguous task 0 es" and "e \<in> set es"
  shows "le_task_id e = task \<and> le_stream e = Stream_log \<and> slice_of (bytes_of es) e"
proof -
  obtain us vs where es: "es = us @ e # vs" using assms(2) by (meson split_list)
  then have "le_offset e = int (length (bytes_of us))" "le_content e \<noteq> []" "le_task_id e = task" "le_stream e = Stream_log"
      "le_size_bytes e = int (length (le_content e))"
    using assms(1) by (simp_all add: contiguous_append)
  then show ?thesis by (simp add: slice_of_def es)
qed

lemma server_keeps_stored:
  assumes "server_keeps task x s t" and "stored task x D s"
  shows "stored task x D t"
  unfolding stored_def
proof (intro conjI allI impI)
  fix lf' assume row: "log_row t task x = Some lf'"
  let ?c = "body (lt_bodies t) (lf_storage_path lf')"
  show "kept D lf' ?c"
  proof (cases "lf_log_integrity lf' = INTEGRITY_EXPIRED \<and> lf_status lf' \<notin> WRITABLE_LOG_STATUSES")
    case False
    then obtain lf where lf: "log_row s task x = Some lf" "lf_storage_path lf' = lf_storage_path lf"
        "lf_last_pulled_offset lf' = lf_last_pulled_offset lf" "lf_gap_count lf' = lf_gap_count lf"
        "lf_status lf' \<in> WRITABLE_LOG_STATUSES \<longrightarrow> lf_status lf \<in> WRITABLE_LOG_STATUSES"
      and how: "lf_log_integrity lf' = lf_log_integrity lf \<and> ?c = body (lt_bodies s) (lf_storage_path lf)
        \<or> lf_log_integrity lf \<notin> {INTEGRITY_TRUNCATED, INTEGRITY_EXPIRED} \<and> lf_log_integrity lf' = INTEGRITY_TRUNCATED
          \<and> (\<exists>cap. ?c = take cap (body (lt_bodies s) (lf_storage_path lf)) @ truncation_marker (int cap) TRUNCATION_MAINTENANCE)"
      using assms(1) row unfolding server_keeps_def by fastforce
    have old: "kept D lf (body (lt_bodies s) (lf_storage_path lf))" using assms(2) lf(1) by (simp add: stored_def)
    from how show ?thesis
    proof (elim disjE conjE exE)
      assume same: "lf_log_integrity lf' = lf_log_integrity lf" and c: "?c = body (lt_bodies s) (lf_storage_path lf)"
      have live: "\<not> (lf_log_integrity lf = INTEGRITY_EXPIRED \<and> lf_status lf \<notin> WRITABLE_LOG_STATUSES)"
        using False same lf(5) by auto
      show ?thesis using made_of_cong [OF same lf(4,3)] c lf(3) by (rule_tac keptE [OF old live]) (auto intro: keptI)
    next
      fix cap
      assume cut: "lf_log_integrity lf' = INTEGRITY_TRUNCATED" "lf_log_integrity lf \<notin> {INTEGRITY_TRUNCATED, INTEGRITY_EXPIRED}"
        and c: "?c = take cap (body (lt_bodies s) (lf_storage_path lf)) @ truncation_marker (int cap) TRUNCATION_MAINTENANCE"
      have m: "cut_marker (truncation_marker (int cap) TRUNCATION_MAINTENANCE)" unfolding cut_marker_def by blast
      obtain b n g where o: "0 \<le> lf_last_pulled_offset lf" "lf_last_pulled_offset lf \<le> int (length D)"
          "made_of D lf (body (lt_bodies s) (lf_storage_path lf)) b n g"
        using keptE [OF old] cut(2) by blast
      have "pieces D b n g" "lf_gap_count lf' = int g" "?c = take cap b @ truncation_marker (int cap) TRUNCATION_MAINTENANCE"
        using o(3) cut(2) c lf(4) by (auto simp: made_of_def)
      then have "made_of D lf' ?c b n g" using cut(1) m unfolding made_of_def by auto
      then show ?thesis using o(1,2) lf(3) by (intro keptI) simp_all
    qed
  qed (simp add: kept_def)
qed (use assms(1) in \<open>simp_all add: server_keeps_def\<close>)

lemma pipe_inv_step:
  assumes env: "xadd_log env = bus_xadd" and inv: "pipe_inv lc task x p" and step: "pipe_step env lc cfg task x p q"
  shows "pipe_inv lc task x q"
proof -
  let ?es = "bu_stream (ag_world (pl_agent p))"
  have pub: "published_prefix lc task x (pl_agent p)" and st: "stored task x (bytes_of (log_data x (pl_agent p))) (pl_server p)"
    and eof: "\<And>e. e \<in> set ?es \<Longrightarrow> le_eof e \<longrightarrow> le_size_bytes e = 0"
    using inv by (simp_all add: pipe_inv_def)
  have c: "contiguous task 0 (data_of x ?es)"
    using inv by (auto simp: pipe_inv_def published_prefix_def tailed_def log_data_def)
  show ?thesis
    using step
  proof (cases rule: pipe_step.cases)
    case (pipe_publish now clock)
    let ?b = "fst (publish_once env lc now clock (pl_agent p))"
    obtain new where new: "bu_stream (ag_world ?b) = ?es @ new" "\<forall>e \<in> set new. le_eof e \<longrightarrow> le_size_bytes e = 0"
      using publish_once_stream [OF env] .
    have "published_prefix lc task x ?b" by (rule published_prefix_once [OF env pub])
    then show ?thesis
      using pipe_publish new eof stored_grow [OF st, of "bytes_of (data_of x new)"] by (auto simp: pipe_inv_def log_data_def)
  next
    case (pipe_agent b)
    then show ?thesis
      using published_prefix_keeps [OF pub, of b] st eof by (auto simp: pipe_inv_def agent_keeps_def log_data_def)
  next
    case (pipe_apply e landed now i s ids raised)
    obtain s' r where a: "apply_log_event cfg now landed e (pl_server p) = (s', r)" by force
    have "s = s'" using pipe_apply(4) a by (auto simp: log_apply_one_def split: option.splits)
    moreover have "stored task x (bytes_of (log_data x (pl_agent p))) s'"
    proof (cases "le_execution_id e = x \<and> \<not> le_eof e")
      case True
      then have "e \<in> set (data_of x ?es)" using pipe_apply(2) by (simp add: data_of_def)
      from contiguous_slice [OF c this] show ?thesis
        using apply_slice [OF a st pipe_apply(3)] True by (simp add: log_data_def)
    next
      case False
      then show ?thesis using eof [OF pipe_apply(2)] by (intro apply_other [OF a st pipe_apply(3)]) auto
    qed
    ultimately show ?thesis using pipe_apply(1) pub eof by (auto simp: pipe_inv_def)
  next
    case (pipe_server s)
    then show ?thesis using server_keeps_stored [OF pipe_server(2) st] pub eof by (auto simp: pipe_inv_def)
  qed
qed

definition pipe_start :: "string \<Rightarrow> string \<Rightarrow> pipeline \<Rightarrow> bool" where
  \<comment> \<open>the attempt has just started and its log row has just been created\<close>
  "pipe_start task x p \<longleftrightarrow> well_keyed (ag_store (pl_agent p)) \<and> definite (ag_world (pl_agent p))
     \<and> (\<exists>st. read_state (ag_store (pl_agent p)) x = Some st \<and> as_task_id st = task)
     \<and> bu_stream (ag_world (pl_agent p)) = [] \<and> read_cursor (pl_agent p) x = 0
     \<and> stored task x [] (pl_server p)"

lemma pipe_start_inv: "pipe_start task x p \<Longrightarrow> pipe_inv lc task x p"
  by (auto simp: pipe_start_def pipe_inv_def published_prefix_def tailed_def log_data_def)

lemma pipe_inv_steps:
  assumes "(pipe_step env lc cfg task x)\<^sup>*\<^sup>* p q" and "xadd_log env = bus_xadd" and "pipe_inv lc task x p"
  shows "pipe_inv lc task x q"
  using assms by (induction rule: rtranclp_induct) (auto intro: pipe_inv_step)

lemma kept_verdict:
  assumes "kept D lf c"
  shows "case lf_log_integrity lf of
      INTEGRITY_COMPLETE \<Rightarrow> lf_gap_count lf = 0 \<and> prefix c D \<and> lf_last_pulled_offset lf = int (length c)
    | INTEGRITY_PARTIAL \<Rightarrow> lf_gap_count lf > 0 \<and> pieces D c (nat (lf_last_pulled_offset lf)) (nat (lf_gap_count lf))
    | INTEGRITY_TRUNCATED \<Rightarrow> \<exists>b n k m. pieces D b n (nat (lf_gap_count lf)) \<and> c = take k b @ m \<and> cut_marker m
    | INTEGRITY_EXPIRED \<Rightarrow> lf_status lf \<notin> WRITABLE_LOG_STATUSES
    | INTEGRITY_MISSING \<Rightarrow> False"
proof (cases "lf_log_integrity lf = INTEGRITY_EXPIRED")
  case True
  then show ?thesis using assms by (auto simp: kept_def made_of_def split: if_splits)
next
  case False
  then obtain b n g where p: "pieces D b n g" "lf_gap_count lf = int g"
    and how: "if lf_log_integrity lf = INTEGRITY_TRUNCATED then \<exists>k m. c = take k b @ m \<and> cut_marker m
      else lf_log_integrity lf = (if g = 0 then INTEGRITY_COMPLETE else INTEGRITY_PARTIAL)
        \<and> c = b \<and> lf_last_pulled_offset lf = int n"
    using assms by (auto simp: kept_def made_of_def)
  show ?thesis
  proof (cases "lf_log_integrity lf = INTEGRITY_TRUNCATED")
    case True
    then obtain k m where "c = take k b @ m" "cut_marker m" using how by auto
    then have "\<exists>b n k m. pieces D b n (nat (lf_gap_count lf)) \<and> c = take k b @ m \<and> cut_marker m"
      using p by (intro exI [of _ b] exI [of _ n] exI [of _ k] exI [of _ m]) simp
    then show ?thesis using True by simp
  next
    case False
    then have h: "lf_log_integrity lf = (if g = 0 then INTEGRITY_COMPLETE else INTEGRITY_PARTIAL)"
        "c = b" "lf_last_pulled_offset lf = int n" using how by simp_all
    show ?thesis
    proof (cases "g = 0")
      case True
      then have "c = take n D" using pieces_whole [OF p(1)] h(2) by simp
      then show ?thesis using True h(1,3) p pieces_le [OF p(1)] by (simp add: take_is_prefix)
    qed (use h p in simp)
  qed
qed

text \<open>C15. The log pipeline never lies about a log. A job appends to its log while the agent publishes, restarts
  and truncates a flooding log, and Redis refuses entries without taking them; the server applies entries of the stream in any
  order, any number of times or never (a batch that failed is read past, a trim loses entries), with writes
  that fail before anything is written, and seals, cuts and expires logs. At every moment the published bytes are a
  prefix of the log within the cap (then one marker). A log the server calls complete is exactly the bytes up to its offset;
  a partial one is slices of the published bytes in order, with a gap marker for every stretch that is missing;
  a truncated one is such a body cut once. And applying the entry that continues a complete open log appends it,
  unless a cap cuts the log.
\<close>

theorem log_pipeline_faithful:
  assumes env: "xadd_log env = bus_xadd" and start: "pipe_start task x p"
    and steps: "(pipe_step env lc cfg task x)\<^sup>*\<^sup>* p q"
    and sent_def: "sent = bytes_of (log_data x (pl_agent q))"
  shows "(\<exists>st. read_state (ag_store (pl_agent q)) x = Some st
        \<and> (prefix sent (log_of (pl_agent q) st)
          \<or> as_log_capped st \<and> (\<exists>out. prefix out (log_of (pl_agent q) st) \<and> sent = out @ log_marker lc)))
    \<and> (ac_log_cap lc > int (length (log_marker lc)) \<longrightarrow> int (length sent) \<le> ac_log_cap lc)
    \<and> (\<forall>lf. log_row (pl_server q) task x = Some lf \<longrightarrow>
        (let c = body (lt_bodies (pl_server q)) (lf_storage_path lf) in
         case lf_log_integrity lf of
          INTEGRITY_COMPLETE \<Rightarrow> lf_gap_count lf = 0 \<and> prefix c sent \<and> lf_last_pulled_offset lf = int (length c)
        | INTEGRITY_PARTIAL \<Rightarrow> lf_gap_count lf > 0
            \<and> pieces sent c (nat (lf_last_pulled_offset lf)) (nat (lf_gap_count lf))
        | INTEGRITY_TRUNCATED \<Rightarrow> \<exists>b n k m. pieces sent b n (nat (lf_gap_count lf)) \<and> c = take k b @ m \<and> cut_marker m
        | INTEGRITY_EXPIRED \<Rightarrow> lf_status lf \<notin> WRITABLE_LOG_STATUSES
        | INTEGRITY_MISSING \<Rightarrow> False))
    \<and> (\<forall>lf e s r. log_row (pl_server q) task x = Some lf \<and> lf_status lf \<in> WRITABLE_LOG_STATUSES
        \<and> lf_log_integrity lf = INTEGRITY_COMPLETE \<and> e \<in> set (log_data x (pl_agent q))
        \<and> le_offset e = lf_last_pulled_offset lf \<and> apply_log_event cfg now None e (pl_server q) = (s, r) \<longrightarrow>
        (\<exists>lf'. log_row s task x = Some lf' \<and> lf_last_pulled_offset lf' = le_offset e + int (length (le_content e))
          \<and> (lf_log_integrity lf' = INTEGRITY_TRUNCATED
            \<or> lf_log_integrity lf' = INTEGRITY_COMPLETE \<and> body (lt_bodies s) (lf_storage_path lf')
                = body (lt_bodies (pl_server q)) (lf_storage_path lf) @ le_content e)))"
proof -
  have inv: "pipe_inv lc task x q" using pipe_inv_steps [OF steps env pipe_start_inv [OF start]] .
  obtain st m where t: "tailed lc task m x st (pl_agent q)"
    and m: "m = [] \<or> m = log_marker lc \<and> ac_log_cap lc > 0 \<and> as_log_capped st"
    using inv by (auto simp: pipe_inv_def published_prefix_def)
  let ?log = "log_of (pl_agent q) st"
  define out where "out = take (read_cursor (pl_agent q) x) (visible lc ?log)"
  have sent: "sent = out @ m" using t by (simp add: tailed_def out_def sent_def)
  have out: "prefix out ?log" "ac_log_cap lc > 0 \<Longrightarrow> int (length out) \<le> content_cap lc"
    using visible_length(2) [of lc ?log]
    by (auto simp: out_def visible_def take_is_prefix intro: prefix_order.trans)
  have st: "stored task x sent (pl_server q)" using inv by (simp add: pipe_inv_def sent_def)
  have "read_state (ag_store (pl_agent q)) x = Some st"
    and "prefix sent ?log \<or> as_log_capped st \<and> (\<exists>out. prefix out ?log \<and> sent = out @ log_marker lc)"
    using t m out(1) sent by (auto simp: tailed_def)
  then have agent: "\<exists>st. read_state (ag_store (pl_agent q)) x = Some st
      \<and> (prefix sent (log_of (pl_agent q) st)
        \<or> as_log_capped st \<and> (\<exists>out. prefix out (log_of (pl_agent q) st) \<and> sent = out @ log_marker lc))" by blast
  have cap: "int (length sent) \<le> ac_log_cap lc" if "ac_log_cap lc > int (length (log_marker lc))"
    using m out(2) sent that by (auto simp: content_cap_def)
  have row: "case lf_log_integrity lf of
          INTEGRITY_COMPLETE \<Rightarrow> lf_gap_count lf = 0 \<and> prefix c sent \<and> lf_last_pulled_offset lf = int (length c)
        | INTEGRITY_PARTIAL \<Rightarrow> lf_gap_count lf > 0
            \<and> pieces sent c (nat (lf_last_pulled_offset lf)) (nat (lf_gap_count lf))
        | INTEGRITY_TRUNCATED \<Rightarrow> \<exists>b n k m. pieces sent b n (nat (lf_gap_count lf)) \<and> c = take k b @ m \<and> cut_marker m
        | INTEGRITY_EXPIRED \<Rightarrow> lf_status lf \<notin> WRITABLE_LOG_STATUSES
        | INTEGRITY_MISSING \<Rightarrow> False"
    if "log_row (pl_server q) task x = Some lf" "c = body (lt_bodies (pl_server q)) (lf_storage_path lf)" for lf c
  proof -
    have "kept sent lf c" using st that by (simp add: stored_def)
    then show ?thesis by (rule kept_verdict)
  qed
  have on: "\<exists>lf'. log_row s task x = Some lf' \<and> lf_last_pulled_offset lf' = le_offset e + int (length (le_content e))
      \<and> (lf_log_integrity lf' = INTEGRITY_TRUNCATED
        \<or> lf_log_integrity lf' = INTEGRITY_COMPLETE \<and> body (lt_bodies s) (lf_storage_path lf')
            = body (lt_bodies (pl_server q)) (lf_storage_path lf) @ le_content e)"
    if lf: "log_row (pl_server q) task x = Some lf" "lf_status lf \<in> WRITABLE_LOG_STATUSES" "lf_log_integrity lf = INTEGRITY_COMPLETE"
      and e: "e \<in> set (log_data x (pl_agent q))" "le_offset e = lf_last_pulled_offset lf"
      and a: "apply_log_event cfg now None e (pl_server q) = (s, r)" for lf e s r
  proof -
    have "contiguous task 0 (log_data x (pl_agent q))" using t by (simp add: tailed_def)
    from contiguous_slice [OF this e(1)] have sl: "le_task_id e = task" "le_stream e = Stream_log" "slice_of sent e"
      by (simp_all add: sent_def)
    have x: "le_execution_id e = x" "\<not> le_eof e" using e(1) by (simp_all add: log_data_def data_of_def)
    have "write_event cfg now None e lf (pl_server q) = (s, r)"
      using a lf e(2) sl x by (auto simp: apply_log_event_def get_log_file_def log_row_def slice_of_def)
    from apply_written(2) [OF this st _ lf(1) sl(3) _ lf(2)] lf(3) e(2) sl(3) show ?thesis
      by (auto simp: slice_of_def)
  qed
  show ?thesis
    by (intro conjI, rule agent, rule impI, erule cap, unfold Let_def, intro allI impI, erule row, rule refl,
      intro allI impI, elim conjE, rule on, assumption+)
qed

text \<open>The flood watchdog's truncation is one of the agent's steps that keep the pipeline's contract.\<close>

lemma truncation_keeps:
  assumes "well_keyed (ag_store a)" and "definite (ag_world a)"
    and "\<And>st. read_state (ag_store a) x = Some st \<Longrightarrow> as_log_path st = path \<and> path \<noteq> []"
  shows "agent_keeps lc x a (truncate_now lc path a)"
proof -
  have "prefix (visible lc c) (visible lc (take (nat (ac_log_cap lc)) c @ flood_marker (ac_log_cap lc)))"
    if "ac_log_cap lc > 0" "\<not> int (length c) < ac_log_cap lc" for c
  proof -
    have "nat (content_cap lc) \<le> nat (ac_log_cap lc)" using that(1) by (auto simp: content_cap_def)
    then have "take (nat (content_cap lc)) (take (nat (ac_log_cap lc)) c @ r) = take (nat (content_cap lc)) c" for r
      using that(2) by (auto simp: min_def)
    then show ?thesis using that(1) by (simp add: visible_def)
  qed
  then show ?thesis
    using assms
    by (auto simp: agent_keeps_def truncate_now_def truncate_local_log_def log_of_def read_cursor_def update_conv
        split: option.split)
qed

definition sample_published :: "bus log_agent" where
  "sample_published = fst (publish_once sample_log_os (sample_log_config 0) 0 0 (sample_tail ''abcdef''))"

lemma log_pipeline_faithful_witness:
  "\<exists>s lf. apply_log_event default_settings 0 None (hd (bu_stream (ag_world sample_published))) sample_log_store = (s, Some LOG_APPENDED)
    \<and> log_row s ''t1'' ''e1'' = Some lf \<and> lf_log_integrity lf = INTEGRITY_COMPLETE
    \<and> prefix (body (lt_bodies s) ''/s/e1.log'') ''abcdef'' \<and> lf_last_pulled_offset lf = 4"
proof -
  let ?p = "\<lparr>pl_agent = sample_tail ''abcdef'', pl_server = sample_log_store\<rparr>"
  let ?step = "pipe_step sample_log_os (sample_log_config 0) default_settings ''t1'' ''e1''"
  let ?e = "hd (bu_stream (ag_world sample_published))"
  have env: "xadd_log sample_log_os = bus_xadd" by (simp add: sample_log_os_def)
  have start: "pipe_start ''t1'' ''e1'' ?p"
  proof -
    have "stored ''t1'' ''e1'' [] sample_log_store"
      unfolding stored_def
    proof (intro conjI allI impI)
      fix lf assume "log_row sample_log_store ''t1'' ''e1'' = Some lf"
      then show "kept [] lf (body (lt_bodies sample_log_store) (lf_storage_path lf))"
        by (auto simp: sample_log_store_def log_row_def find_log_def body_def or_default_def intro: kept_fresh split: if_splits)
    qed (auto simp: sample_log_store_def paths_apart_def find_log_def log_key_def split: if_splits)
    then show ?thesis
      by (simp add: pipe_start_def sample_tail_def well_keyed_def definite_def read_state_def
          read_cursor_def sample_attempt_def new_attempt_def)
  qed
  obtain s r where a: "apply_log_event default_settings 0 None ?e sample_log_store = (s, r)" by force
  have run: "bu_stream (ag_world sample_published) \<noteq> [] \<and> bytes_of (log_data ''e1'' sample_published) = ''abcdef''"
    by code_simp
  have out: "(case apply_log_event default_settings 0 None ?e sample_log_store of (s, r) \<Rightarrow> r = Some LOG_APPENDED
      \<and> (case db_log_files (lt_db s) of [lf] \<Rightarrow> lf_log_integrity lf = INTEGRITY_COMPLETE \<and> log_key lf = (''t1'', ''e1'', Stream_log)
          \<and> lf_storage_path lf = ''/s/e1.log'' \<and> lf_last_pulled_offset lf = 4 | _ \<Rightarrow> False))"
    by code_simp
  then obtain lf where lf: "r = Some LOG_APPENDED" "log_row s ''t1'' ''e1'' = Some lf" "lf_log_integrity lf = INTEGRITY_COMPLETE"
      "lf_storage_path lf = ''/s/e1.log''" "lf_last_pulled_offset lf = 4"
    using a by (auto simp: log_row_def find_log_def split: list.splits)
  have "?step\<^sup>*\<^sup>* ?p (?p\<lparr>pl_agent := sample_published\<rparr>)"
    unfolding sample_published_def by (rule r_into_rtranclp) (metis pipe_publish pipeline.select_convs(1))
  moreover have "?step (?p\<lparr>pl_agent := sample_published\<rparr>) (?p\<lparr>pl_agent := sample_published, pl_server := s\<rparr>)"
    using pipe_apply [of ?e "?p\<lparr>pl_agent := sample_published\<rparr>" None default_settings 0 "''m1''" s "[''m1'']" False] run a lf(1)
    by (simp add: log_apply_one_def)
  ultimately have "?step\<^sup>*\<^sup>* ?p (?p\<lparr>pl_agent := sample_published, pl_server := s\<rparr>)" by (rule rtranclp.rtrancl_into_rtrancl)
  from log_pipeline_faithful [OF env start this refl] lf run a show ?thesis by (auto simp: Let_def)
qed

section \<open>A lost reply\<close>

text \<open>What the publisher sends when the reply to its first entry is lost and the log has grown.\<close>

lemma lost_reply_republishes:
  "map (\<lambda>e. (le_offset e, le_content e)) (bu_stream (ag_world (fst (publish_once sample_log_os (sample_log_config 0) 0 0
     ((fst (publish_once sample_log_os (sample_log_config 0) 0 0
        ((sample_tail ''ab'')\<lparr>ag_world := \<lparr>bu_stream = [], bu_script = [Reply_lost]\<rparr>\<rparr>)))
      \<lparr>ag_files := [(''/l/e1.log'', ''abcd'')]\<rparr>)))))
   = [(0, ''ab''), (0, ''abcd'')]"
  by code_simp

definition uncapped :: "settings \<Rightarrow> log_store \<Rightarrow> bool" where
  "uncapped cfg s \<longleftrightarrow> max_file_bytes (cfg_logs cfg) = 0 \<and> (\<exists>g. lt_gauge s = Some g \<and> ga_budget g = 0)"

lemma plan_uncapped: "uncapped cfg s \<Longrightarrow> plan_write n payload (max_file_bytes (cfg_logs cfg)) (lt_gauge s) = (payload, False, None)"
  by (auto simp: uncapped_def plan_write_def plan_cap_def)

lemma apply_uncapped:
  assumes u: "uncapped cfg s" and row: "log_row s task x = Some lf" "lf_status lf \<in> WRITABLE_LOG_STATUSES"
    "lf_log_integrity lf \<noteq> INTEGRITY_TRUNCATED"
    and e: "le_task_id e = task" "le_execution_id e = x" "le_stream e = Stream_log" "le_content e \<noteq> []" "\<not> le_eof e"
    and off: "le_offset e \<ge> lf_last_pulled_offset lf"
  obtains s' o' lf' where "apply_log_event cfg now None e s = (s', Some o')" "uncapped cfg s'"
    "log_row s' task x = Some lf'" "lf_status lf' = lf_status lf" "lf_storage_path lf' = lf_storage_path lf"
    "lf_last_pulled_offset lf' = le_offset e + le_size_bytes e"
    "lf_log_integrity lf' = (if le_offset e > lf_last_pulled_offset lf then INTEGRITY_PARTIAL else lf_log_integrity lf)"
    "lf_gap_count lf' = lf_gap_count lf + (if le_offset e > lf_last_pulled_offset lf then 1 else 0)"
    "body (lt_bodies s') (lf_storage_path lf) = body (lt_bodies s) (lf_storage_path lf)
       @ (if le_offset e > lf_last_pulled_offset lf then gap_marker (lf_last_pulled_offset lf) (le_offset e) else [])
       @ le_content e"
proof -
  have k: "find_log (lt_db s) (task, x, Stream_log) = Some lf" using row(1) by (simp add: log_row_def)
  have key: "log_key lf = (task, x, Stream_log)" using k logs.lookup_key by blast
  have a: "apply_log_event cfg now None e s = write_event cfg now None e lf s"
    using row e off by (auto simp: apply_log_event_def get_log_file_def k)
  obtain s' r where w: "write_event cfg now None e lf s = (s', r)" by force
  let ?lf = "(if le_offset e > lf_last_pulled_offset lf then mark_gap e lf else lf)\<lparr>
      lf_last_pulled_offset := le_offset e + le_size_bytes e,
      lf_size_bytes := body_size (lt_bodies s') (lf_storage_path lf),
      lf_final_offset := Some (body_size (lt_bodies s') (lf_storage_path lf))\<rparr>"
  have "log_key ?lf = (task, x, Stream_log)" using key by (simp add: log_key_def mark_gap_def)
  from find_save_log [OF k this]
  have r: "log_row s' task x = Some ?lf" and s': "r \<noteq> None" "uncapped cfg s'"
    "lt_bodies s' = append_bytes (lt_bodies s) (lf_storage_path lf)
       ((if le_offset e > lf_last_pulled_offset lf then gap_marker (lf_last_pulled_offset lf) (le_offset e) else [])
         @ le_content e)"
    using w u by (auto simp: write_event_def write_settled_def plan_uncapped [OF u] Let_def log_row_def uncapped_def
        gauge_add_def split: if_splits)
  show ?thesis
    using s' a w by (intro that [of s' "the r" ?lf]) (auto simp: r mark_gap_def)
qed

text \<open>C17. Where the pipeline loses bytes: when Redis takes a slice but the reply is lost, the agent
  publishes again from the same cursor, and by then the log may have grown. The server drops the
  second, longer slice whole as a duplicate, so the bytes \<open>v\<close> that only it carried never reach the
  disk, and the next slice \<open>t\<close> opens a gap and makes the log \<open>partial\<close> for good.
\<close>

theorem lost_reply_loses_bytes:
  assumes row: "log_row s task x = Some lf" "lf_status lf \<in> WRITABLE_LOG_STATUSES"
    "lf_log_integrity lf = INTEGRITY_COMPLETE" "lf_last_pulled_offset lf = n"
    and room: "uncapped cfg s" and bytes: "u \<noteq> []" "v \<noteq> []" "t \<noteq> []"
    and ev: "ev = (\<lambda>offset c. \<lparr>le_agent_id = agent, le_task_id = task, le_execution_id = x, le_stream = Stream_log,
      le_offset = offset, le_content = c, le_size_bytes = int (length c), le_eof = False\<rparr>)"
    and run: "log_drain cfg now [Log_entry i (Some (ev n u)) None, Log_entry j (Some (ev n (u @ v))) None,
        Log_entry k (Some (ev (n + int (length (u @ v))) t)) None] s = (s', ids, raised)"
  shows "ids = [i, j, k] \<and> body (lt_bodies s') (lf_storage_path lf)
      = body (lt_bodies s) (lf_storage_path lf) @ u
          @ gap_marker (n + int (length u)) (n + int (length (u @ v))) @ t
    \<and> (\<exists>lf'. log_row s' task x = Some lf' \<and> lf_log_integrity lf' = INTEGRITY_PARTIAL
        \<and> lf_gap_count lf' = lf_gap_count lf + 1)"
proof -
  obtain s1 o1 l1 where a1: "apply_log_event cfg now None (ev n u) s = (s1, Some o1)" "uncapped cfg s1"
    "log_row s1 task x = Some l1" "lf_status l1 = lf_status lf" "lf_storage_path l1 = lf_storage_path lf"
    "lf_last_pulled_offset l1 = n + int (length u)" "lf_log_integrity l1 = INTEGRITY_COMPLETE"
    "lf_gap_count l1 = lf_gap_count lf"
    "body (lt_bodies s1) (lf_storage_path lf) = body (lt_bodies s) (lf_storage_path lf) @ u"
    by (rule apply_uncapped [OF room row(1,2), of "ev n u" now]) (use row bytes ev in auto)
  have a2: "apply_log_event cfg now None (ev n (u @ v)) s1 = (s1, Some LOG_DROPPED_DUP)"
    using a1 row bytes ev by (auto simp: apply_log_event_def log_row_def get_log_file_def)
  obtain s2 o2 l2 where a3: "apply_log_event cfg now None (ev (n + int (length (u @ v))) t) s1 = (s2, Some o2)"
    "log_row s2 task x = Some l2" "lf_log_integrity l2 = INTEGRITY_PARTIAL" "lf_gap_count l2 = lf_gap_count lf + 1"
    "body (lt_bodies s2) (lf_storage_path lf) = body (lt_bodies s1) (lf_storage_path lf)
       @ gap_marker (n + int (length u)) (n + int (length (u @ v))) @ t"
    by (rule apply_uncapped [OF a1(2,3), of "ev (n + int (length (u @ v))) t" now]) (use a1 row bytes ev in auto)
  have "s' = s2 \<and> ids = [i, j, k]" using run a1(1) a2 a3(1) by (simp add: log_apply_one_def)
  then show ?thesis using a1(9) a3 by auto
qed

lemma lost_reply_loses_bytes_witness:
  "\<exists>s'. fst (let ev = (\<lambda>offset c. \<lparr>le_agent_id = ''a'', le_task_id = ''t1'', le_execution_id = ''e1'',
           le_stream = Stream_log, le_offset = offset, le_content = c, le_size_bytes = int (length c), le_eof = False\<rparr>)
        in log_drain (default_settings\<lparr>cfg_logs := default_logs\<lparr>max_file_bytes := 0\<rparr>\<rparr>) 0
          [Log_entry ''m1'' (Some (ev 0 ''ab'')) None, Log_entry ''m2'' (Some (ev 0 (''ab'' @ ''cd''))) None,
           Log_entry ''m3'' (Some (ev (0 + int (length (''ab'' @ ''cd''))) ''ef'')) None] sample_log_store) = s'
      \<and> body (lt_bodies s') ''/s/e1.log'' = ''ab'' @ gap_marker 2 4 @ ''ef''"
proof -
  let ?cfg = "default_settings\<lparr>cfg_logs := default_logs\<lparr>max_file_bytes := 0\<rparr>\<rparr>"
  let ?lf = "hd (db_log_files (lt_db sample_log_store))"
  let ?ev = "\<lambda>offset c. \<lparr>le_agent_id = ''a'', le_task_id = ''t1'', le_execution_id = ''e1'',
    le_stream = Stream_log, le_offset = offset, le_content = c, le_size_bytes = int (length c), le_eof = False\<rparr>"
  have r: "log_row sample_log_store ''t1'' ''e1'' = Some ?lf"
    by (simp add: log_row_def find_log_def sample_log_store_def log_key_def)
  have f: "lf_status ?lf \<in> WRITABLE_LOG_STATUSES" "lf_log_integrity ?lf = INTEGRITY_COMPLETE"
    "lf_last_pulled_offset ?lf = 0" "lf_storage_path ?lf = ''/s/e1.log''" "lt_bodies sample_log_store = []"
    by (simp_all add: sample_log_store_def WRITABLE_LOG_STATUSES_def)
  have u: "uncapped ?cfg sample_log_store"
    by (simp add: uncapped_def default_settings_def sample_log_store_def new_gauge_def)
  obtain s' ids raised where d: "log_drain ?cfg 0 [Log_entry ''m1'' (Some (?ev 0 ''ab'')) None,
      Log_entry ''m2'' (Some (?ev 0 (''ab'' @ ''cd''))) None,
      Log_entry ''m3'' (Some (?ev (0 + int (length (''ab'' @ ''cd''))) ''ef'')) None] sample_log_store = (s', ids, raised)"
    by (metis surj_pair)
  have "body (lt_bodies s') ''/s/e1.log'' = ''ab'' @ gap_marker 2 4 @ ''ef''"
    using lost_reply_loses_bytes [OF r f(1-3) u _ _ _ refl d] f by (simp add: body_def)
  then show ?thesis using d by (simp only: Let_def fst_conv ex_simps simp_thms)
qed

section \<open>A write that fails half way\<close>

text \<open>C16. Bytes stored twice: a write that fails after some of its bytes have reached the disk leaves them there, the
  database keeps the offset from before, and the entry is applied again from its first byte. The body then
  has the first bytes of the entry twice, and the log is still called complete, without a gap.
\<close>

theorem failed_write_repeats_bytes:
  assumes row: "log_row s task x = Some lf" "lf_status lf \<in> WRITABLE_LOG_STATUSES"
    "lf_log_integrity lf = INTEGRITY_COMPLETE" "lf_last_pulled_offset lf = le_offset e"
    and room: "uncapped cfg s"
    and e: "le_task_id e = task" "le_execution_id e = x" "le_stream e = Stream_log" "\<not> le_eof e"
    and n: "0 < n" "n \<le> length (le_content e)"
    and fails: "log_drain cfg now [Log_entry i (Some e) (Some n)] s = (t, ids, raised)"
    and retry: "log_drain cfg now' [Log_entry i (Some e) None] t = (u, ids', raised')"
  shows "raised \<and> ids = [] \<and> \<not> raised' \<and> ids' = [i]
    \<and> body (lt_bodies u) (lf_storage_path lf) = body (lt_bodies s) (lf_storage_path lf) @ take n (le_content e) @ le_content e
    \<and> (\<exists>lf'. log_row u task x = Some lf' \<and> lf_storage_path lf' = lf_storage_path lf
        \<and> lf_log_integrity lf' = INTEGRITY_COMPLETE \<and> lf_gap_count lf' = lf_gap_count lf
        \<and> lf_last_pulled_offset lf' = le_offset e + le_size_bytes e)"
proof -
  have k: "find_log (lt_db s) (task, x, Stream_log) = Some lf" using row(1) by (simp add: log_row_def)
  have ne: "le_content e \<noteq> []" using n by auto
  obtain t1 r where a: "apply_log_event cfg now (Some n) e s = (t1, r)" by force
  have w: "write_event cfg now (Some n) e lf s = (t1, r)"
    using a row e ne by (auto simp: apply_log_event_def get_log_file_def k)
  have t1: "r = None" "lt_db t1 = lt_db s"
      "lt_bodies t1 = append_bytes (lt_bodies s) (lf_storage_path lf) (take n (le_content e))" "uncapped cfg t1"
    using w row(4) ne room
    by (auto simp: write_event_def write_settled_def plan_uncapped [OF room] Let_def uncapped_def gauge_add_def)
  have t: "t = t1" "raised" "ids = []" using fails a t1(1) by (simp_all add: log_apply_one_def)
  have "log_row t task x = Some lf" using row(1) t(1) t1(2) by (simp add: log_row_def)
  then obtain v o' lf' where v: "apply_log_event cfg now' None e t = (v, Some o')" "log_row v task x = Some lf'"
      "lf_storage_path lf' = lf_storage_path lf" "lf_last_pulled_offset lf' = le_offset e + le_size_bytes e"
      "lf_log_integrity lf' = INTEGRITY_COMPLETE" "lf_gap_count lf' = lf_gap_count lf"
      "body (lt_bodies v) (lf_storage_path lf) = body (lt_bodies t) (lf_storage_path lf) @ le_content e"
    by (rule apply_uncapped [of cfg t task x lf e now', rotated]) (use row e ne t(1) t1(4) in auto)
  have "u = v" "\<not> raised'" "ids' = [i]" using retry v(1) by (simp_all add: log_apply_one_def)
  then show ?thesis using v t t1(3) by simp
qed

lemma failed_write_repeats_bytes_witness:
  "\<exists>u. body (lt_bodies u) ''/s/e1.log'' = ''ababcd'' \<and> (\<exists>lf. log_row u ''t1'' ''e1'' = Some lf
    \<and> lf_log_integrity lf = INTEGRITY_COMPLETE)"
proof -
  let ?cfg = "default_settings\<lparr>cfg_logs := default_logs\<lparr>max_file_bytes := 0\<rparr>\<rparr>"
  let ?lf = "hd (db_log_files (lt_db sample_log_store))"
  let ?e = "\<lparr>le_agent_id = ''a'', le_task_id = ''t1'', le_execution_id = ''e1'',
    le_stream = Stream_log, le_offset = 0, le_content = ''abcd'', le_size_bytes = 4, le_eof = False\<rparr>"
  have r: "log_row sample_log_store ''t1'' ''e1'' = Some ?lf"
    by (simp add: log_row_def find_log_def sample_log_store_def log_key_def)
  have f: "lf_status ?lf \<in> WRITABLE_LOG_STATUSES" "lf_log_integrity ?lf = INTEGRITY_COMPLETE"
    "lf_last_pulled_offset ?lf = le_offset ?e" "lf_storage_path ?lf = ''/s/e1.log''" "lt_bodies sample_log_store = []"
    by (simp_all add: sample_log_store_def WRITABLE_LOG_STATUSES_def)
  have u: "uncapped ?cfg sample_log_store"
    by (simp add: uncapped_def default_settings_def sample_log_store_def new_gauge_def)
  obtain t ids raised where t: "log_drain ?cfg 0 [Log_entry ''m1'' (Some ?e) (Some 2)] sample_log_store = (t, ids, raised)"
    by (metis surj_pair)
  obtain v ids' raised' where v: "log_drain ?cfg 0 [Log_entry ''m1'' (Some ?e) None] t = (v, ids', raised')" by (metis surj_pair)
  from failed_write_repeats_bytes [OF r f(1-3) u _ _ _ _ _ _ t v] f(4,5) show ?thesis
    by (intro exI [of _ v]) (auto simp: body_def or_default_def)
qed

end
