(* ===== verification/LogGuards.thy ===== *)
theory LogGuards
  imports ServerLogs
begin

text \<open>
  The limits of the server's log side: the byte budget of the log directory, the tail a window
  opens with, the bounded queues of the open windows, and what an entry that cannot be decoded
  does to the consumer.
\<close>

section \<open>The directory budget\<close>

definition exact_gauge :: "gauge \<Rightarrow> bodies \<Rightarrow> bool" where
  "exact_gauge g fs \<longleftrightarrow> ga_value g = walk_size fs"

lemma plan_write_fits:
  assumes "plan_write n payload cap (Some g) = (tw, trunc, r)" and "ga_budget g > 0"
  shows "tw = [] \<or> ga_value g + int (length tw) \<le> ga_budget g"
  using assms by (auto simp: plan_write_def gauge_fits_def Let_def split: prod.splits if_splits)

lemma write_settled_exact:
  assumes "write_settled landed path data (fs, Some g) = ((fs', g'), ok)" and "exact_gauge g fs"
  obtains h where "g' = Some h" "exact_gauge h fs'" "ga_budget h = ga_budget g" "walk_size fs \<le> walk_size fs'"
    "walk_size fs' \<le> walk_size fs + int (length data)"
proof -
  let ?d = "case landed of None \<Rightarrow> data | Some n \<Rightarrow> take n data"
  have "fs' = append_bytes fs path ?d" "g' = Some (gauge_add g (int (length ?d)))"
    using assms(1) by (auto simp: write_settled_def Let_def split: option.splits)
  moreover have "length ?d \<le> length data" by (auto split: option.split)
  ultimately show ?thesis
    using assms(2) walk_size_nonneg [of fs]
    by (intro that [of "gauge_add g (int (length ?d))"]) (auto simp: exact_gauge_def gauge_add_def)
qed

lemma write_event_budget:
  assumes "write_event cfg now landed e lf s = (s', r)" and "lt_gauge s = Some g"
    and "exact_gauge g (lt_bodies s)" and "ga_budget g > 0"
  shows "\<exists>h. lt_gauge s' = Some h \<and> exact_gauge h (lt_bodies s') \<and> ga_budget h = ga_budget g
    \<and> walk_size (lt_bodies s') \<le> max (walk_size (lt_bodies s)) (ga_budget g)"
proof -
  let ?gap = "le_offset e > lf_last_pulled_offset lf"
  obtain tw trunc q where p: "plan_write (body_size (lt_bodies s) (lf_storage_path lf))
      ((if ?gap then gap_marker (lf_last_pulled_offset lf) (le_offset e) else []) @ le_content e)
      (max_file_bytes (cfg_logs cfg)) (lt_gauge s) = (tw, trunc, q)" by (metis surj_pair)
  obtain fs h ok where w: "write_settled landed (lf_storage_path lf) tw (lt_bodies s, Some g) = ((fs, h), ok)"
    by (metis surj_pair)
  obtain k where k: "h = Some k" "exact_gauge k fs" "ga_budget k = ga_budget g"
      "walk_size fs \<le> walk_size (lt_bodies s) + int (length tw)"
    using write_settled_exact [OF w assms(3)] by metis
  have "walk_size fs \<le> max (walk_size (lt_bodies s)) (ga_budget g)"
    using plan_write_fits [OF p [unfolded assms(2)] assms(4)] assms(3) k(4) by (auto simp: exact_gauge_def)
  moreover have "lt_gauge s' = h \<and> lt_bodies s' = fs"
    using assms(1,2) p w by (auto simp: write_event_def Let_def split: if_splits)
  ultimately show ?thesis using k by auto
qed

lemma apply_budget:
  assumes "apply_log_event cfg now landed e s = (s', r)" and "lt_gauge s = Some g"
    and "exact_gauge g (lt_bodies s)" and "ga_budget g > 0"
  shows "\<exists>h. lt_gauge s' = Some h \<and> exact_gauge h (lt_bodies s') \<and> ga_budget h = ga_budget g
    \<and> walk_size (lt_bodies s') \<le> max (walk_size (lt_bodies s)) (ga_budget g)"
proof (cases "\<exists>lf. write_event cfg now landed e lf s = (s', r)")
  case True
  then show ?thesis using write_event_budget assms(2-4) by blast
next
  case False
  then have "lt_gauge s' = lt_gauge s \<and> lt_bodies s' = lt_bodies s"
    using assms(1) by (auto simp: apply_log_event_def split: option.splits if_splits)
  then show ?thesis using assms by auto
qed

text \<open>C20. The log directory stays within its budget. With a calibrated gauge, whatever entries the
  consumer takes, with any writes failing half-way, the gauge stays equal to the bytes on disk and
  the consumer never grows the directory past the budget.
\<close>

theorem logs_directory_within_budget:
  assumes "lt_gauge s = Some g" and "ga_value g = walk_size (lt_bodies s)" and "ga_budget g > 0"
    and "log_drain cfg now entries s = (s', ids, raised)"
  shows "\<exists>h. lt_gauge s' = Some h \<and> ga_value h = walk_size (lt_bodies s') \<and> ga_budget h = ga_budget g
    \<and> walk_size (lt_bodies s') \<le> max (walk_size (lt_bodies s)) (ga_budget g)"
  using assms
proof (induction entries arbitrary: s g ids)
  case (Cons e es)
  obtain t js up where t: "log_apply_one cfg now e s = (t, js, up)" by (metis surj_pair)
  obtain i d l where e: "e = Log_entry i d l" by (cases e)
  have ex: "exact_gauge g (lt_bodies s)" using Cons.prems(2) by (simp add: exact_gauge_def)
  have "\<exists>h. lt_gauge t = Some h \<and> exact_gauge h (lt_bodies t) \<and> ga_budget h = ga_budget g
    \<and> walk_size (lt_bodies t) \<le> max (walk_size (lt_bodies s)) (ga_budget g)"
  proof (cases d)
    case None
    then show ?thesis using t e Cons.prems ex by (auto simp: log_apply_one_def)
  next
    case (Some ev)
    obtain s2 r where a: "apply_log_event cfg now l ev s = (s2, r)" by force
    have "t = s2" using t e Some a by (auto simp: log_apply_one_def split: option.splits)
    then show ?thesis using apply_budget [OF a Cons.prems(1) ex Cons.prems(3)] by simp
  qed
  then obtain h where h: "lt_gauge t = Some h" "ga_value h = walk_size (lt_bodies t)" "ga_budget h = ga_budget g"
    "walk_size (lt_bodies t) \<le> max (walk_size (lt_bodies s)) (ga_budget g)" by (auto simp: exact_gauge_def)
  show ?case
  proof (cases up)
    case True
    then show ?thesis using t Cons.prems(4) h by auto
  next
    case False
    obtain ids' where "log_drain cfg now es t = (s', ids', raised)"
      using t False Cons.prems(4) by (auto split: prod.splits)
    from Cons.IH [OF h(1,2) _ this] h(3,4) Cons.prems(3) show ?thesis by auto
  qed
qed auto

lemma logs_directory_within_budget_witness:
  "let s = sample_log_store\<lparr>lt_gauge := Some (new_gauge 100)\<rparr>;
       ev = \<lparr>le_agent_id = ''a'', le_task_id = ''t1'', le_execution_id = ''e1'', le_stream = Stream_log,
         le_offset = 0, le_content = ''abcdef'', le_size_bytes = 6, le_eof = False\<rparr>;
       s' = fst (log_drain default_settings 0 [Log_entry ''m1'' (Some ev) None] s)
   in \<exists>h. lt_gauge s' = Some h \<and> ga_value h = walk_size (lt_bodies s') \<and> walk_size (lt_bodies s') \<le> 100"
proof -
  let ?s = "sample_log_store\<lparr>lt_gauge := Some (new_gauge 100)\<rparr>"
  let ?es = "[Log_entry ''m1'' (Some \<lparr>le_agent_id = ''a'', le_task_id = ''t1'', le_execution_id = ''e1'',
    le_stream = Stream_log, le_offset = 0, le_content = ''abcdef'', le_size_bytes = 6, le_eof = False\<rparr>) None]"
  obtain s' ids raised where d: "log_drain default_settings 0 ?es ?s = (s', ids, raised)" by (metis surj_pair)
  have g: "lt_gauge ?s = Some (new_gauge 100)" "ga_value (new_gauge 100) = walk_size (lt_bodies ?s)"
    "ga_budget (new_gauge 100) > 0" "walk_size (lt_bodies ?s) = 0" "ga_budget (new_gauge 100) = 100"
    by (simp_all add: sample_log_store_def new_gauge_def walk_size_def)
  from logs_directory_within_budget [OF g(1-3) d] g(4,5) show ?thesis
    unfolding Let_def d fst_conv by auto
qed

section \<open>An entry that cannot be decoded\<close>

text \<open>An entry that cannot be decoded ends the pass over its batch: the entries before it are handled and
  acknowledged, those behind it are not looked at. It stays pending, and so do they.\<close>

lemma undecodable_entry_ends_pass:
  assumes "log_drain cfg now before s = (t, ids, False)"
  shows "log_drain cfg now (before @ Log_entry bad None landed # behind) s = (t, ids, True)"
  using assms
proof (induction before arbitrary: s ids)
  case (Cons e es)
  obtain u js up where u: "log_apply_one cfg now e s = (u, js, up)" by (metis surj_pair)
  then have "\<not> up" using Cons.prems by (cases up) auto
  then obtain ids' where "log_drain cfg now es u = (t, ids', False)" "ids = js @ ids'"
    using u Cons.prems by (auto split: prod.splits)
  then show ?case using Cons.IH u \<open>\<not> up\<close> by auto
qed (simp add: log_apply_one_def)

section \<open>The tail of a log\<close>

lemma split_nl_nonempty [simp]: "split_nl s \<noteq> []"
  by (cases s) (auto split: list.split)

lemma join_split_nl: "join_with [CHR 0x0A] (split_nl s) = s"
proof (induction s)
  case (Cons c s)
  then show ?case by (cases "split_nl s"; cases "tl (split_nl s)") auto
qed simp

lemma split_nl_no_newline: "l \<in> set (split_nl s) \<Longrightarrow> CHR 0x0A \<notin> set l"
proof (induction s arbitrary: l)
  case (Cons c s)
  then show ?case by (cases "split_nl s") (auto split: if_splits)
qed simp

lemma join_with_append:
  "xs \<noteq> [] \<Longrightarrow> ys \<noteq> [] \<Longrightarrow> join_with sep (xs @ ys) = join_with sep xs @ sep @ join_with sep ys"
proof (induction xs)
  case (Cons x xs)
  then show ?case by (cases xs; cases ys) auto
qed simp

lemma count_join:
  "(\<And>l. l \<in> set ls \<Longrightarrow> CHR 0x0A \<notin> set l) \<Longrightarrow> count_list (join_with [CHR 0x0A] ls) (CHR 0x0A) = length ls - 1"
proof (induction "[CHR 0x0A]" ls rule: join_with.induct)
  case (3 p q ps)
  have "count_list p (CHR 0x0A) = 0" using 3(2) by (simp add: count_list_0_iff)
  with 3 show ?case by simp
qed (simp_all add: count_list_0_iff)

text \<open>A log window opens on the end of the file: what \<open>tail_screen\<close> decodes and returns is the suffix of the
  body at the offset it reports, up to the file's size; it is never longer than the byte limit, and
  holds at most the given number of lines.
\<close>

theorem tail_bytes_is_suffix:
  assumes "tail_bytes fs path max_lines max_bytes = (start, stop, text)" and "max_lines > 0"
  shows "stop = body_size fs path \<and> 0 \<le> start \<and> text = drop (nat start) (body fs path)
    \<and> int (length text) = stop - start \<and> (int (length text) \<le> max 0 max_bytes)
    \<and> int (count_list text (CHR 0x0A)) \<le> max_lines"
proof (cases "body_size fs path = 0")
  case True
  then show ?thesis using assms by (auto simp: tail_bytes_def body_size_def)
next
  case False
  define b where "b = body fs path"
  define lo where "lo = max 0 (body_size fs path - max 0 max_bytes)"
  define chunk where "chunk = drop (nat lo) b"
  define ls where "ls = split_nl chunk"
  define nl where "nl = (last ls = [])"
  define rows where "rows = (if nl then butlast ls else ls)"
  have size: "body_size fs path = int (length b)" by (simp add: body_size_def b_def)
  have from0: "0 \<le> lo" "lo \<le> int (length b)" by (auto simp: lo_def size)
  have clen: "int (length chunk) = int (length b) - lo" using from0 by (simp add: chunk_def)
  have cmax: "int (length chunk) \<le> max 0 max_bytes" using clen by (auto simp: lo_def size)
  have no_nl: "\<And>l. l \<in> set ls \<Longrightarrow> CHR 0x0A \<notin> set l" unfolding ls_def by (rule split_nl_no_newline)
  have ls0: "ls \<noteq> []" by (simp add: ls_def)
  have lines: "ls = rows @ (if nl then [[]] else [])"
    using append_butlast_last_id [OF ls0] by (auto simp: rows_def nl_def)
  have chunk: "chunk = join_with [CHR 0x0A] ls" by (simp add: ls_def join_split_nl)
  show ?thesis
  proof (cases "int (length rows) > max_lines")
    case False
    have "tail_bytes fs path max_lines max_bytes = (lo, body_size fs path, chunk)"
      using False \<open>body_size fs path \<noteq> 0\<close>
      unfolding tail_bytes_def Let_def rows_def nl_def ls_def chunk_def lo_def b_def
      by (simp only: if_True if_False simp_thms)
    then have r: "start = lo" "stop = body_size fs path" "text = chunk" using assms(1) by simp_all
    have "count_list chunk (CHR 0x0A) = length ls - 1" unfolding chunk by (rule count_join) (rule no_nl)
    then have "int (count_list chunk (CHR 0x0A)) \<le> int (length rows)" using lines by (auto split: if_splits)
    then show ?thesis using r from0 clen cmax False size by (auto simp: chunk_def b_def)
  next
    case True
    define k where "k = length rows - nat max_lines"
    define trimmed where "trimmed = join_with [CHR 0x0A] (drop k rows) @ (if nl then [CHR 0x0A] else [])"
    have "tail_bytes fs path max_lines max_bytes = (body_size fs path - int (length trimmed), body_size fs path, trimmed)"
      using True assms(2) \<open>body_size fs path \<noteq> 0\<close>
      unfolding tail_bytes_def Let_def trimmed_def k_def rows_def nl_def ls_def chunk_def lo_def b_def
      by (simp only: if_True if_False simp_thms)
    then have r: "start = body_size fs path - int (length trimmed)" "stop = body_size fs path" "text = trimmed"
      using assms(1) by simp_all
    have k: "0 < k" "k < length rows" using True assms(2) by (auto simp: k_def)
    have suffix: "\<exists>pre. chunk = pre @ trimmed"
    proof -
      define ks where "ks = drop k rows @ (if nl then [[]] else [])"
      have "take k rows \<noteq> []" "ks \<noteq> []" using k by (auto simp: ks_def)
      then have "join_with [CHR 0x0A] (take k rows @ ks)
          = join_with [CHR 0x0A] (take k rows) @ [CHR 0x0A] @ join_with [CHR 0x0A] ks"
        by (rule join_with_append)
      moreover have "take k rows @ ks = ls" unfolding ks_def lines by (metis append.assoc append_take_drop_id)
      ultimately have "chunk = join_with [CHR 0x0A] (take k rows) @ [CHR 0x0A]
          @ join_with [CHR 0x0A] (drop k rows @ (if nl then [[]] else []))"
        unfolding chunk ks_def by metis
      moreover have "join_with [CHR 0x0A] (drop k rows @ (if nl then [[]] else [])) = trimmed"
        using k join_with_append [of "drop k rows" "[[]]" "[CHR 0x0A]"] by (auto simp: trimmed_def)
      ultimately show ?thesis by auto
    qed
    then obtain pre where pre: "chunk = pre @ trimmed" by blast
    have "b = take (nat lo) b @ pre @ trimmed" 
      using pre append_take_drop_id [of "nat lo" b] unfolding chunk_def by metis
    then have "trimmed = drop (length b - length trimmed) b" "length trimmed \<le> length b"
      by (metis append_eq_conv_conj append.assoc diff_add_inverse2 length_append, metis append.assoc length_append le_add2)
    moreover have "nat (body_size fs path - int (length trimmed)) = length b - length trimmed" by (simp add: size)
    moreover have "int (count_list trimmed (CHR 0x0A)) \<le> max_lines"
    proof -
      have "count_list (join_with [CHR 0x0A] (drop k rows)) (CHR 0x0A) = length (drop k rows) - 1"
        using no_nl lines by (intro count_join) (metis Un_iff in_set_dropD set_append)
      then show ?thesis using k True assms(2) by (auto simp: trimmed_def k_def)
    qed
    moreover have "int (length trimmed) \<le> max 0 max_bytes" using cmax pre by simp
    ultimately show ?thesis using r size by (auto simp: b_def)
  qed
qed

lemma tail_bytes_is_suffix_witness:
  "tail_bytes [(''/l'', ''ab'' @ [CHR 0x0A] @ ''cd'' @ [CHR 0x0A] @ ''ef'' @ [CHR 0x0A])] ''/l'' 2 100
     = (3, 9, ''cd'' @ [CHR 0x0A] @ ''ef'' @ [CHR 0x0A])
   \<and> 9 = body_size [(''/l'', ''ab'' @ [CHR 0x0A] @ ''cd'' @ [CHR 0x0A] @ ''ef'' @ [CHR 0x0A])] ''/l''"
proof -
  have t: "tail_bytes [(''/l'', ''ab'' @ [CHR 0x0A] @ ''cd'' @ [CHR 0x0A] @ ''ef'' @ [CHR 0x0A])] ''/l'' 2 100
     = (3, 9, ''cd'' @ [CHR 0x0A] @ ''ef'' @ [CHR 0x0A])" by code_simp
  from tail_bytes_is_suffix [OF this] t show ?thesis by simp
qed

end
