(* ===== verification/AgentJanitor.thy ===== *)
theory AgentJanitor
  imports AgentCommands Maintenance
begin

text \<open>
  The agent's disk janitor (\<^verbatim>\<open>apps/agent/dopilot_agent/janitor.py\<close>): removal of old workspaces,
  eviction from the artifact caches, the cut of oversized logs, and the disk sample.

  \<^item> A \<open>site\<close> is what the janitor reads and changes: the workspaces, the scrapyd logs, the state
    files, the log cursors, the two cache directories, and the ids in the active sets.
  \<^item> A directory is a list of relative paths with their files; \<open>None\<close> in place of a file is a path
    whose \<open>stat\<close> fails. Entries of a root that are not directories are left out: every scan skips
    them. The sidecar \<open>job.pgid\<close> holds a number in the range of \<open>pid_t\<close>.
  \<^item> The operating system and scrapyd are the fields of a \<open>janitor_os\<close>. \<open>jo_await\<close> is what the rest
    of the agent does while the janitor waits for a lock or a thread. The per-execution lock of the
    consumer is held from the second check to the end of a removal or a cut, so these are one step.
  \<^item> An exception that ends a sweep is the value \<open>False\<close> (or \<open>None\<close>) beside the state reached.
\<close>

section \<open>Files\<close>

record blob =
  bl_mtime :: instant
  bl_bytes :: string
  bl_readable :: bool
  bl_writable :: bool

record tree =
  tr_mtime :: "instant option" \<comment> \<open>of the directory itself\<close>
  tr_files :: "(string \<times> blob option) list"

record site =
  si_workspaces :: "(string \<times> tree) list option"
  si_scrapyd_logs :: "(string list \<times> blob option) list option" \<comment> \<open>by the parts of the relative path\<close>
  si_states :: state_dir
  si_cursors :: "string list"
  si_eggs :: "(string \<times> blob option) list option"
  si_wheels :: "(string \<times> tree) list option"
  si_active :: "string list" \<comment> \<open>\<open>_active_ids()\<close>: runner and consumer\<close>
  si_running :: "string list" \<comment> \<open>\<open>wheel_runner.active_execution_ids()\<close>\<close>
  si_released :: "string list" \<comment> \<open>calls of the \<open>release\<close> callback\<close>

datatype probe_result = Signalled | No_such_process | Not_permitted | Other_os_error

datatype cache_kind = Egg_cache | Wheel_cache

record cache_entry =
  ce_kind :: cache_kind
  ce_sha :: string
  ce_size :: int
  ce_mtime :: instant

record 'w janitor_os =
  jo_await :: "'w \<Rightarrow> site \<Rightarrow> 'w \<times> site"
  jo_probe :: "'w \<Rightarrow> int \<Rightarrow> probe_result" \<comment> \<open>\<open>os.killpg(pgid, 0)\<close>\<close>
  jo_listjobs :: "('w \<Rightarrow> string \<Rightarrow> 'w \<times> obj option) option" \<comment> \<open>the scrapyd client, if wired\<close>
  jo_rmtree :: "'w \<Rightarrow> tree \<Rightarrow> tree option" \<comment> \<open>what \<open>rmtree(ignore_errors=True)\<close> leaves\<close>
  jo_unlink :: "'w \<Rightarrow> string \<Rightarrow> bool"
  jo_lockable :: "'w \<Rightarrow> cache_entry \<Rightarrow> bool" \<comment> \<open>no error but \<open>EEXIST\<close> from the \<open>open\<close>\<close>
  jo_clock :: "'w \<Rightarrow> instant"

record janitor_config =
  jc_cwd :: string
  jc_workdir :: string
  jc_completed_log_ttl_days :: int
  jc_orphan_log_ttl_days :: int
  jc_max_job_log_bytes :: int
  jc_janitor_quiet_seconds :: int
  jc_janitor_interval_seconds :: int
  jc_artifact_cache_max_bytes :: int
  jc_event_outbox_dir :: string
  jc_event_outbox_max_files :: int

definition no_tree :: tree where
  "no_tree = \<lparr>tr_mtime = None, tr_files = []\<rparr>"

definition stat_of :: "('k \<times> blob option) list \<Rightarrow> 'k \<Rightarrow> blob option" where
  "stat_of fs path = or_default (map_of fs path) None"

definition blob_size :: "blob \<Rightarrow> int" where
  "blob_size b = int (length (bl_bytes b))"

definition pgid_alive :: "probe_result \<Rightarrow> bool" where
  "pgid_alive r = (r \<noteq> No_such_process)"

definition newest_mtime :: "tree \<Rightarrow> instant" where
  "newest_mtime t =
     (case tr_mtime t of None \<Rightarrow> 0
      | Some m \<Rightarrow> fold (\<lambda>(name, f) newest. case f of None \<Rightarrow> newest | Some b \<Rightarrow> max newest (bl_mtime b))
          (tr_files t) m)"

definition tree_size :: "tree \<Rightarrow> int" where
  "tree_size t = sum_list (map (\<lambda>(name, f). case f of None \<Rightarrow> 0 | Some b \<Rightarrow> blob_size b) (tr_files t))"

definition safe_size :: "blob option \<Rightarrow> int" where
  "safe_size f = (case f of None \<Rightarrow> 0 | Some b \<Rightarrow> blob_size b)"

definition safe_mtime :: "instant option \<Rightarrow> instant" where
  "safe_mtime m = or_default m 0"

section \<open>Old workspaces\<close>

definition read_pgid :: "tree \<Rightarrow> int option" where
  "read_pgid t =
     (case stat_of (tr_files t) PGID_SIDECAR of None \<Rightarrow> None
      | Some b \<Rightarrow> if bl_readable b then py_int (py_strip (bl_bytes b)) else None)"

definition workspace_ttl :: "janitor_config \<Rightarrow> attempt_state option \<Rightarrow> int" where
  "workspace_ttl jc st =
     (let terminal = (case st of None \<Rightarrow> False | Some st \<Rightarrow> as_phase st = Phase_done)
      in secs ((if terminal then jc_completed_log_ttl_days jc else jc_orphan_log_ttl_days jc) * 86400))"

definition is_removable ::
    "janitor_config \<Rightarrow> 'w janitor_os \<Rightarrow> instant \<Rightarrow> string list \<Rightarrow> 'w \<Rightarrow> site \<Rightarrow> tree \<Rightarrow> string \<Rightarrow> bool" where
  "is_removable jc env now active w s workspace execution_id =
     (if execution_id \<in> set active then False
      else if (case read_pgid workspace of None \<Rightarrow> False | Some g \<Rightarrow> pgid_alive (jo_probe env w g)) then False
      else now - newest_mtime workspace \<ge> workspace_ttl jc (read_state (si_states s) execution_id))"

definition workspace_at :: "site \<Rightarrow> string \<Rightarrow> tree" where
  \<comment> \<open>a directory that is not there reads as one whose every access fails\<close>
  "workspace_at s execution_id =
     or_default (map_of (or_default (si_workspaces s) []) execution_id) no_tree"

definition rmtree_in ::
    "'w janitor_os \<Rightarrow> 'w \<Rightarrow> string \<Rightarrow> (string \<times> tree) list \<Rightarrow> (string \<times> tree) list" where
  "rmtree_in env w name ts =
     (case map_of ts name of None \<Rightarrow> ts
      | Some t \<Rightarrow> (case jo_rmtree env w t of None \<Rightarrow> AList.delete name ts
          | Some rest \<Rightarrow> AList.update name rest ts))"

definition remove_files :: "'w janitor_os \<Rightarrow> 'w \<Rightarrow> string \<Rightarrow> site \<Rightarrow> site" where
  "remove_files env w execution_id s =
     s\<lparr>si_workspaces := map_option (rmtree_in env w execution_id) (si_workspaces s),
       si_states := fst (delete_state (si_states s) execution_id),
       si_cursors := (if jo_unlink env w (execution_id @ ''.logpos'')
         then filter (\<lambda>c. c \<noteq> execution_id) (si_cursors s) else si_cursors s)\<rparr>"

definition scan_candidates ::
    "janitor_config \<Rightarrow> 'w janitor_os \<Rightarrow> instant \<Rightarrow> string list \<Rightarrow> 'w \<Rightarrow> site \<Rightarrow> string list" where
  "scan_candidates jc env now active w s =
     map fst (filter (\<lambda>(name, entry). is_removable jc env now active w s entry name)
       (or_default (si_workspaces s) []))"

definition commit_removal ::
    "janitor_config \<Rightarrow> 'w janitor_os \<Rightarrow> instant \<Rightarrow> string \<Rightarrow> 'w \<times> site \<Rightarrow> 'w \<times> site" where
  "commit_removal jc env now execution_id ws =
     (let (w, s) = jo_await env (fst ws) (snd ws) \<comment> \<open>the lock\<close>
      in if \<not> is_removable jc env now (si_active s) w s (workspace_at s execution_id) execution_id
         then (w, s)
         else (let s = remove_files env w execution_id s
               in (w, s\<lparr>si_released := si_released s @ [execution_id]\<rparr>)))"

definition sweep_workspaces ::
    "janitor_config \<Rightarrow> 'w janitor_os \<Rightarrow> instant \<Rightarrow> 'w \<times> site \<Rightarrow> 'w \<times> site" where
  "sweep_workspaces jc env now ws =
     (if si_workspaces (snd ws) = None then ws
      else (let snapshot = si_active (snd ws);
                (w, s) = jo_await env (fst ws) (snd ws)
            in fold (commit_removal jc env now) (scan_candidates jc env now snapshot w s) (w, s)))"

section \<open>Oversized logs\<close>

datatype candidate =
    Scrapyd_candidate "string list" string string "string option" \<comment> \<open>parts, project, job id, execution\<close>
  | Wheel_candidate string \<comment> \<open>the execution, whose workspace holds the log\<close>

fun norm_parts :: "bool \<Rightarrow> string list \<Rightarrow> string list \<Rightarrow> string list" where
  \<comment> \<open>the loop of \<open>posixpath.normpath\<close>; the second argument is \<open>new_comps\<close> reversed\<close>
  "norm_parts rooted acc [] = rev acc"
| "norm_parts rooted acc (p # ps) =
     (if p = [] \<or> p = ''.'' then norm_parts rooted acc ps
      else if p \<noteq> ''..'' \<or> (\<not> rooted \<and> acc = []) \<or> (acc \<noteq> [] \<and> hd acc = ''..'')
      then norm_parts rooted (p # acc) ps
      else norm_parts rooted (tl acc) ps)"

definition leading_slashes :: "string \<Rightarrow> nat" where
  \<comment> \<open>POSIX keeps exactly two leading slashes\<close>
  "leading_slashes p =
     (let n = length (takeWhile (\<lambda>c. c = CHR ''/'') p) in if n = 0 then 0 else if n = 2 then 2 else 1)"

definition abspath :: "string \<Rightarrow> string \<Rightarrow> string" where
  "abspath cwd path =
     (let p = join_path cwd path; n = leading_slashes p;
          q = replicate n (CHR ''/'') @ join_with ''/'' (norm_parts (n > 0) [] (split_at (\<lambda>c. c = CHR ''/'') [] p))
      in if q = [] then ''.'' else q)"

definition scrapyd_log_path :: "janitor_config \<Rightarrow> string list \<Rightarrow> string" where
  "scrapyd_log_path jc parts = join_with ''/'' (jc_workdir jc # ''scrapyd'' # ''logs'' # parts)"

definition readable_states :: "state_dir \<Rightarrow> attempt_state list" where
  "readable_states d = List.map_filter (read_state d) (list_execution_ids d)"

definition states_by_log_path :: "janitor_config \<Rightarrow> state_dir \<Rightarrow> string \<Rightarrow> attempt_state option" where
  \<comment> \<open>the dict as filled by the loop: the last writer of a key wins\<close>
  "states_by_log_path jc d =
     map_of (rev (map (\<lambda>st. (abspath (jc_cwd jc) (as_log_path st), st))
       (filter (\<lambda>st. as_log_path st \<noteq> []) (readable_states d))))"

definition states_by_job :: "state_dir \<Rightarrow> string \<Rightarrow> attempt_state option" where
  "states_by_job d =
     map_of (rev (map (\<lambda>st. (as_scrapyd_job_id st, st))
       (filter (\<lambda>st. as_scrapyd_job_id st \<noteq> []) (readable_states d))))"

definition log_already_capped :: "blob \<Rightarrow> int \<Rightarrow> bool" where
  "log_already_capped b cap = (bl_readable b \<and> already_capped (bl_bytes b) cap)"

definition needs_cut :: "int \<Rightarrow> blob option \<Rightarrow> bool" where
  "needs_cut cap f =
     (case f of None \<Rightarrow> False | Some b \<Rightarrow> \<not> (blob_size b \<le> cap \<or> log_already_capped b cap))"

definition scrapyd_candidate :: "janitor_config \<Rightarrow> state_dir \<Rightarrow> string list \<Rightarrow> candidate" where
  "scrapyd_candidate jc d parts =
     (let project = (if length parts \<ge> 3 then hd parts else []);
          job_id = take (length (List.last parts) - 4) (List.last parts);
          st = first_some (states_by_log_path jc d (abspath (jc_cwd jc) (scrapyd_log_path jc parts)))
                 (states_by_job d job_id)
      in Scrapyd_candidate parts project job_id (map_option as_execution_id st))"

definition scan_oversized_logs :: "janitor_config \<Rightarrow> int \<Rightarrow> site \<Rightarrow> candidate list" where
  "scan_oversized_logs jc cap s =
     map (scrapyd_candidate jc (si_states s))
       (map fst (filter (\<lambda>(parts, f). parts \<noteq> [] \<and> ends_with ''.log'' (List.last parts) \<and> needs_cut cap f)
         (or_default (si_scrapyd_logs s) [])))
     @ map Wheel_candidate
       (map fst (filter (\<lambda>(name, t). needs_cut cap (stat_of (tr_files t) ''job.log''))
         (or_default (si_workspaces s) [])))"

type_synonym listing = "(string \<times> string list option) list" \<comment> \<open>\<open>None\<close>: scrapyd could not be asked\<close>

definition live_ids :: "obj \<Rightarrow> string list option" where
  \<comment> \<open>the ids listed as running or pending; \<open>None\<close> where the \<open>for\<close> raises on a value that is not
    iterable (a text or an object iterates over texts, which are skipped)\<close>
  "live_ids jobs =
     (let ids = (\<lambda>v. case v of
          JList js \<Rightarrow> Some (List.map_filter (\<lambda>j. case j of
            JObj kv \<Rightarrow> if truthy (obj_get kv ''id'') then Some (py_str (obj_get kv ''id'')) else None | _ \<Rightarrow> None) js)
        | JInt n \<Rightarrow> if n = 0 then Some [] else None
        | JBool b \<Rightarrow> if b then None else Some []
        | _ \<Rightarrow> Some [])
      in case (ids (obj_get jobs ''running''), ids (obj_get jobs ''pending'')) of
           (Some a, Some b) \<Rightarrow> Some (a @ b) | _ \<Rightarrow> None)"

definition scrapyd_lists_job ::
    "'w janitor_os \<Rightarrow> string \<Rightarrow> string \<Rightarrow> 'w \<times> listing \<Rightarrow> ('w \<times> listing) \<times> bool option option" where
  \<comment> \<open>\<open>Some None\<close> is the code's \<open>None\<close> (unknown), \<open>None\<close> an exception\<close>
  "scrapyd_lists_job env project job_id wl =
     (case jo_listjobs env of None \<Rightarrow> (wl, Some None)
      | Some list_jobs \<Rightarrow>
          if project = [] then (wl, Some None)
          else (case (case map_of (snd wl) project of
                  Some known \<Rightarrow> Some (wl, known)
                | None \<Rightarrow> (case list_jobs (fst wl) project of
                      (w, None) \<Rightarrow> Some ((w, (project, None) # snd wl), None)
                    | (w, Some jobs) \<Rightarrow> (case live_ids jobs of None \<Rightarrow> None
                        | Some live \<Rightarrow> Some ((w, (project, Some live) # snd wl), Some live)))) of
              None \<Rightarrow> (wl, None)
            | Some (wl, None) \<Rightarrow> (wl, Some None)
            | Some (wl, Some live) \<Rightarrow> (wl, Some (Some (job_id \<in> set live)))))"

fun candidate_id :: "candidate \<Rightarrow> string option" where
  "candidate_id (Scrapyd_candidate parts project job_id execution_id) = execution_id"
| "candidate_id (Wheel_candidate execution_id) = Some execution_id"

fun candidate_log :: "site \<Rightarrow> candidate \<Rightarrow> blob option" where
  "candidate_log s (Scrapyd_candidate parts project job_id execution_id) =
     stat_of (or_default (si_scrapyd_logs s) []) parts"
| "candidate_log s (Wheel_candidate execution_id) =
     stat_of (tr_files (workspace_at s execution_id)) ''job.log''"

fun put_candidate_log :: "blob \<Rightarrow> candidate \<Rightarrow> site \<Rightarrow> site" where
  "put_candidate_log b (Scrapyd_candidate parts project job_id execution_id) s =
     s\<lparr>si_scrapyd_logs := map_option (AList.update parts (Some b)) (si_scrapyd_logs s)\<rparr>"
| "put_candidate_log b (Wheel_candidate execution_id) s =
     s\<lparr>si_workspaces := map_option (AList.map_entry execution_id
        (\<lambda>t. t\<lparr>tr_files := AList.update ''job.log'' (Some b) (tr_files t)\<rparr>)) (si_workspaces s)\<rparr>"

definition truncation_allowed ::
    "janitor_config \<Rightarrow> 'w janitor_os \<Rightarrow> instant \<Rightarrow> candidate \<Rightarrow> site \<Rightarrow> 'w \<times> listing
      \<Rightarrow> ('w \<times> listing) \<times> bool option" where
  "truncation_allowed jc env now cand s wl =
     (if (case candidate_id cand of None \<Rightarrow> False | Some e \<Rightarrow> e \<in> set (si_active s)) then (wl, Some False)
      else (case (case candidate_id cand of None \<Rightarrow> None
                | Some e \<Rightarrow> if e = [] then None else read_state (si_states s) e) of
          Some st \<Rightarrow> (wl, Some (as_phase st = Phase_done))
        | None \<Rightarrow>
            (case candidate_log s cand of None \<Rightarrow> (wl, Some False)
             | Some b \<Rightarrow>
                 if now - bl_mtime b < secs (jc_janitor_quiet_seconds jc) then (wl, Some False)
                 else (case cand of
                     Scrapyd_candidate parts project job_id execution_id \<Rightarrow>
                       (case scrapyd_lists_job env project job_id wl of
                          (wl, r) \<Rightarrow> (wl, map_option (\<lambda>lists. lists = Some False) r))
                   | Wheel_candidate e \<Rightarrow>
                       (wl, Some (case read_pgid (workspace_at s e) of None \<Rightarrow> True
                          | Some g \<Rightarrow> \<not> pgid_alive (jo_probe env (fst wl) g)))))))"

definition truncate_log :: "'w janitor_os \<Rightarrow> 'w \<Rightarrow> int \<Rightarrow> candidate \<Rightarrow> site \<Rightarrow> site \<times> int option" where
  \<comment> \<open>\<open>None\<close> where \<open>open("r+b")\<close> raises; the number is the size after a cut, 0 for no cut\<close>
  "truncate_log env w cap cand s =
     (case candidate_log s cand of None \<Rightarrow> (s, Some 0)
      | Some b \<Rightarrow>
          if blob_size b \<le> cap \<or> log_already_capped b cap then (s, Some 0)
          else if \<not> bl_writable b then (s, None)
          else (put_candidate_log (b\<lparr>bl_bytes := take (nat cap) (bl_bytes b) @ flood_marker cap,
                    bl_mtime := jo_clock env w\<rparr>) cand s,
                Some (cap + int (length (flood_marker cap)))))"

type_synonym 'w log_sweep = "'w \<times> listing \<times> site"

definition commit_truncation ::
    "janitor_config \<Rightarrow> 'w janitor_os \<Rightarrow> instant \<Rightarrow> int \<Rightarrow> candidate \<Rightarrow> 'w log_sweep \<Rightarrow> 'w log_sweep \<times> bool" where
  "commit_truncation jc env now cap cand ls =
     (case ls of (w, listed, s) \<Rightarrow>
      (case truncation_allowed jc env now cand s (w, listed) of
         ((w, listed), None) \<Rightarrow> ((w, listed, s), False)
       | ((w, listed), Some False) \<Rightarrow> ((w, listed, s), True)
       | ((w, listed), Some True) \<Rightarrow>
          (let (w, s) = jo_await env w s \<comment> \<open>the lock\<close>
           in case truncation_allowed jc env now cand s (w, listed) of
                ((w, listed), None) \<Rightarrow> ((w, listed, s), False)
              | ((w, listed), Some False) \<Rightarrow> ((w, listed, s), True)
              | ((w, listed), Some True) \<Rightarrow>
                 (case truncate_log env w cap cand s of (s, r) \<Rightarrow> ((w, listed, s), r \<noteq> None)))))"

primrec commit_truncations ::
    "janitor_config \<Rightarrow> 'w janitor_os \<Rightarrow> instant \<Rightarrow> int \<Rightarrow> candidate list \<Rightarrow> 'w log_sweep \<Rightarrow> 'w log_sweep \<times> bool" where
  \<comment> \<open>the \<open>for\<close> over the candidates, ended by the first exception\<close>
  "commit_truncations jc env now cap [] ls = (ls, True)"
| "commit_truncations jc env now cap (cand # cands) ls =
     (case commit_truncation jc env now cap cand ls of
        (ls, True) \<Rightarrow> commit_truncations jc env now cap cands ls
      | (ls, False) \<Rightarrow> (ls, False))"

definition sweep_oversized_logs ::
    "janitor_config \<Rightarrow> 'w janitor_os \<Rightarrow> instant \<Rightarrow> 'w \<times> site \<Rightarrow> ('w \<times> site) \<times> bool" where
  "sweep_oversized_logs jc env now ws =
     (let cap = jc_max_job_log_bytes jc
      in if cap \<le> 0 then (ws, True)
         else (let cands = scan_oversized_logs jc cap (snd ws);
                   (w, s) = jo_await env (fst ws) (snd ws)
           in case commit_truncations jc env now cap cands (w, [], s) of
                ((w, listed, s), ok) \<Rightarrow> ((w, s), ok)))"

section \<open>The artifact caches\<close>

definition egg_file :: "string \<Rightarrow> string" where
  "egg_file sha = sha @ ''.egg''"

definition egg_ready :: "string \<Rightarrow> string" where
  "egg_ready sha = sha @ ''.egg.ready''"

definition egg_lock :: "string \<Rightarrow> string" where
  "egg_lock sha = sha @ ''.egg.lock''"

definition egg_stem :: "string \<Rightarrow> string" where
  \<comment> \<open>\<open>Path(name).stem\<close> of a name that ends with \<open>.egg\<close>\<close>
  "egg_stem name = (if length name > 4 then take (length name - 4) name else name)"

definition egg_entry :: "(string \<times> blob option) list \<Rightarrow> string \<Rightarrow> cache_entry" where
  "egg_entry fs name =
     (let sha = egg_stem name
      in \<lparr>ce_kind = Egg_cache, ce_sha = sha, ce_size = safe_size (stat_of fs name),
          ce_mtime = safe_mtime (map_option bl_mtime
            (first_some (stat_of fs (egg_ready sha)) (stat_of fs name)))\<rparr>)"

definition wheel_entry :: "string \<times> tree \<Rightarrow> cache_entry" where
  "wheel_entry d =
     (let t = snd d
      in \<lparr>ce_kind = Wheel_cache, ce_sha = fst d, ce_size = tree_size t,
          ce_mtime = safe_mtime (case stat_of (tr_files t) ''.ready'' of
            Some b \<Rightarrow> Some (bl_mtime b) | None \<Rightarrow> tr_mtime t)\<rparr>)"

definition cache_entries :: "site \<Rightarrow> cache_entry list" where
  "cache_entries s =
     (let fs = or_default (si_eggs s) []
      in map (egg_entry fs) (filter (ends_with ''.egg'') (map fst fs)))
     @ map wheel_entry (or_default (si_wheels s) [])"

definition parent_name :: "string \<Rightarrow> string" where
  \<comment> \<open>\<open>Path(p).parent.name\<close>\<close>
  "parent_name p =
     (let parts = path_parts p
      in if length parts < 2 then [] else parts ! (length parts - 2))"

definition referenced_wheel_shas :: "site \<Rightarrow> string list" where
  "referenced_wheel_shas s =
     map (parent_name \<circ> as_install_path \<circ> snd)
       (filter (\<lambda>(e, st). (as_phase st \<noteq> Phase_done \<or> e \<in> set (si_running s)) \<and> as_install_path st \<noteq> [])
         (List.map_filter (\<lambda>e. map_option (Pair e) (read_state (si_states s) e))
           (list_execution_ids (si_states s))))"

fun entry_lock_held :: "cache_kind \<Rightarrow> string \<Rightarrow> site \<Rightarrow> bool" where
  "entry_lock_held Egg_cache sha s = (egg_lock sha \<in> fst ` set (or_default (si_eggs s) []))"
| "entry_lock_held Wheel_cache sha s =
     (case map_of (or_default (si_wheels s) []) sha of None \<Rightarrow> False
      | Some t \<Rightarrow> ''.lock'' \<in> fst ` set (tr_files t))"

fun entry_dir_exists :: "cache_kind \<Rightarrow> string \<Rightarrow> site \<Rightarrow> bool" where
  \<comment> \<open>of the directory the lock file is created in\<close>
  "entry_dir_exists Egg_cache sha s = (si_eggs s \<noteq> None)"
| "entry_dir_exists Wheel_cache sha s = (map_of (or_default (si_wheels s) []) sha \<noteq> None)"

definition lock_file :: "instant \<Rightarrow> blob" where
  "lock_file now = \<lparr>bl_mtime = now, bl_bytes = [], bl_readable = True, bl_writable = True\<rparr>"

fun take_entry_lock :: "instant \<Rightarrow> cache_kind \<Rightarrow> string \<Rightarrow> site \<Rightarrow> site" where
  "take_entry_lock now Egg_cache sha s =
     s\<lparr>si_eggs := map_option (AList.update (egg_lock sha) (Some (lock_file now))) (si_eggs s)\<rparr>"
| "take_entry_lock now Wheel_cache sha s =
     s\<lparr>si_wheels := map_option (AList.map_entry sha
        (\<lambda>t. t\<lparr>tr_files := AList.update ''.lock'' (Some (lock_file now)) (tr_files t)\<rparr>)) (si_wheels s)\<rparr>"

definition unlink_in ::
    "'w janitor_os \<Rightarrow> 'w \<Rightarrow> string \<Rightarrow> (string \<times> blob option) list \<Rightarrow> (string \<times> blob option) list \<times> bool" where
  \<comment> \<open>\<open>unlink(missing_ok=True)\<close>; \<open>False\<close> where it raises \<open>OSError\<close>\<close>
  "unlink_in env w name fs =
     (if map_of fs name = None then (fs, True)
      else if jo_unlink env w name then (AList.delete name fs, True) else (fs, False))"

fun drop_entry_lock :: "'w janitor_os \<Rightarrow> 'w \<Rightarrow> cache_kind \<Rightarrow> string \<Rightarrow> site \<Rightarrow> site" where
  "drop_entry_lock env w Egg_cache sha s =
     s\<lparr>si_eggs := map_option (\<lambda>fs. fst (unlink_in env w (egg_lock sha) fs)) (si_eggs s)\<rparr>"
| "drop_entry_lock env w Wheel_cache sha s =
     s\<lparr>si_wheels := map_option (AList.map_entry sha
        (\<lambda>t. t\<lparr>tr_files := fst (unlink_in env w ''.lock'' (tr_files t))\<rparr>)) (si_wheels s)\<rparr>"

fun evict :: "'w janitor_os \<Rightarrow> 'w \<Rightarrow> cache_kind \<Rightarrow> string \<Rightarrow> site \<Rightarrow> site \<times> bool" where
  \<comment> \<open>\<open>_evict\<close> on the paths of the entry\<close>
  "evict env w Egg_cache sha s =
     (case unlink_in env w (egg_file sha) (or_default (si_eggs s) []) of (fs, a) \<Rightarrow>
      (case unlink_in env w (egg_ready sha) fs of (fs, b) \<Rightarrow>
        (s\<lparr>si_eggs := map_option (\<lambda>_. fs) (si_eggs s)\<rparr>, a \<or> b)))"
| "evict env w Wheel_cache sha s = (s\<lparr>si_wheels := map_option (rmtree_in env w sha) (si_wheels s)\<rparr>, True)"

definition evict_locked :: "'w janitor_os \<Rightarrow> cache_entry \<Rightarrow> 'w \<times> site \<Rightarrow> ('w \<times> site) \<times> bool" where
  "evict_locked env entry ws =
     (let (w, s) = jo_await env (fst ws) (snd ws); kind = ce_kind entry; sha = ce_sha entry
      in if entry_lock_held kind sha s \<or> \<not> entry_dir_exists kind sha s \<or> \<not> jo_lockable env w entry
         then ((w, s), False)
         else (let s = take_entry_lock (jo_clock env w) kind sha s;
                   (s, evicted) = (if sha \<in> set (referenced_wheel_shas s) then (s, False)
                     else evict env w kind sha s)
               in ((w, drop_entry_lock env w kind sha s), evicted)))"

primrec evict_down :: "'w janitor_os \<Rightarrow> int \<Rightarrow> cache_entry list \<Rightarrow> int \<Rightarrow> 'w \<times> site \<Rightarrow> ('w \<times> site) \<times> int" where
  \<comment> \<open>the \<open>for\<close> over the entries, least recently used first; the number is \<open>total\<close>\<close>
  "evict_down env cap [] in_use ws = (ws, in_use)"
| "evict_down env cap (entry # entries) in_use ws =
     (if in_use \<le> cap then (ws, in_use)
      else (case evict_locked env entry ws of (ws, evicted) \<Rightarrow>
        evict_down env cap entries (if evicted then in_use - ce_size entry else in_use) ws))"

definition evictable :: "site \<Rightarrow> cache_entry list" where
  "evictable s =
     sort_key ce_mtime (filter (\<lambda>e. ce_sha e \<notin> set (referenced_wheel_shas s)) (cache_entries s))"

definition sweep_cache :: "janitor_config \<Rightarrow> 'w janitor_os \<Rightarrow> 'w \<times> site \<Rightarrow> 'w \<times> site" where
  "sweep_cache jc env ws =
     (let in_use = sum_list (map ce_size (cache_entries (snd ws))); cap = jc_artifact_cache_max_bytes jc
      in if cap \<le> 0 \<or> in_use \<le> cap then ws
         else fst (evict_down env cap (evictable (snd ws)) in_use ws))"

section \<open>The disk sample\<close>

datatype 'a access = Absent | Refused | Found 'a \<comment> \<open>\<open>FileNotFoundError\<close>, any other \<open>OSError\<close>\<close>

type_synonym walk = "int access list access list" \<comment> \<open>the directories in the order visited: the sizes of their files\<close>

record walk_os =
  so_walk :: "string \<Rightarrow> walk"
  so_scandir :: "string \<Rightarrow> (string \<times> bool access) list access" \<comment> \<open>names and \<open>is_dir()\<close>\<close>
  so_disk_usage :: "string \<Rightarrow> (int \<times> int \<times> int) option"
  so_utcnow :: instant

fun files_bytes :: "int access list \<Rightarrow> int option" where
  \<comment> \<open>\<open>None\<close>: a \<open>stat\<close> raised something else than \<open>FileNotFoundError\<close>\<close>
  "files_bytes [] = Some 0"
| "files_bytes (Found n # fs) = map_option ((+) n) (files_bytes fs)"
| "files_bytes (Absent # fs) = files_bytes fs"
| "files_bytes (Refused # fs) = None"

fun walk_bytes :: "int \<Rightarrow> walk \<Rightarrow> int option" where
  \<comment> \<open>\<open>_dir_bytes\<close>: \<open>onerror\<close> re-raises, and the handler around the loop returns 0\<close>
  "walk_bytes acc [] = Some acc"
| "walk_bytes acc (Absent # ds) = Some 0"
| "walk_bytes acc (Refused # ds) = None"
| "walk_bytes acc (Found fs # ds) =
     (case files_bytes fs of None \<Rightarrow> None | Some n \<Rightarrow> walk_bytes (acc + n) ds)"

definition dir_bytes :: "walk_os \<Rightarrow> string \<Rightarrow> int option" where
  "dir_bytes so root = walk_bytes 0 (so_walk so root)"

definition count_dirs :: "walk_os \<Rightarrow> string \<Rightarrow> nat option" where
  "count_dirs so root =
     (case so_scandir so root of Absent \<Rightarrow> Some 0 | Refused \<Rightarrow> None
      | Found es \<Rightarrow> if Refused \<in> snd ` set es then None
          else Some (length (filter (\<lambda>e. snd e = Found True) es)))"

definition count_glob :: "walk_os \<Rightarrow> string \<Rightarrow> string \<Rightarrow> nat option" where
  \<comment> \<open>for the patterns used, a star and a suffix\<close>
  "count_glob so root suffix =
     (case so_scandir so root of Absent \<Rightarrow> Some 0 | Refused \<Rightarrow> None
      | Found es \<Rightarrow> Some (length (filter (\<lambda>e. ends_with suffix (fst e)) es)))"

record disk_sample =
  ds_sampled_at :: instant
  ds_interval_seconds :: int
  ds_workspaces :: "(nat \<times> int) option" \<comment> \<open>count, bytes\<close>
  ds_cache :: "(int \<times> int) option" \<comment> \<open>bytes, limit\<close>
  ds_scrapyd :: "int option"
  ds_outbox :: "(nat \<times> int \<times> int) option option" \<comment> \<open>files, bytes, limit; absent without an outbox\<close>
  ds_state :: "(nat \<times> nat) option" \<comment> \<open>executions, logpos\<close>
  ds_volume :: "(int \<times> int \<times> int) option"

definition both :: "'a option \<Rightarrow> 'b option \<Rightarrow> ('a \<times> 'b) option" where
  "both a b = (case (a, b) of (Some x, Some y) \<Rightarrow> Some (x, y) | _ \<Rightarrow> None)"

definition workspace_root :: "janitor_config \<Rightarrow> string" where
  "workspace_root jc = join_path (jc_workdir jc) ''python_wheel/workspaces''"

definition cursor_dir :: "janitor_config \<Rightarrow> string" where
  "cursor_dir jc = join_path (jc_workdir jc) ''state/executions/logpos''"

definition collect_disk_sample :: "janitor_config \<Rightarrow> walk_os \<Rightarrow> site \<Rightarrow> disk_sample" where
  "collect_disk_sample jc so s =
     \<lparr>ds_sampled_at = so_utcnow so,
      ds_interval_seconds = jc_janitor_interval_seconds jc,
      ds_workspaces = both (count_dirs so (workspace_root jc)) (dir_bytes so (workspace_root jc)),
      ds_cache = map_option (\<lambda>n. (n, jc_artifact_cache_max_bytes jc))
        (dir_bytes so (join_path (jc_workdir jc) ''artifacts'')),
      ds_scrapyd = dir_bytes so (join_path (jc_workdir jc) ''scrapyd''),
      ds_outbox = (if jc_event_outbox_dir jc = [] then None
        else Some (both (count_glob so (jc_event_outbox_dir jc) ''.json'')
          (map_option (\<lambda>n. (n, jc_event_outbox_max_files jc)) (dir_bytes so (jc_event_outbox_dir jc))))),
      ds_state = map_option (Pair (length (list_execution_ids (si_states s))))
        (count_glob so (cursor_dir jc) ''.logpos''),
      ds_volume = so_disk_usage so (jc_workdir jc)\<rparr>"

definition janitor_sweep ::
    "janitor_config \<Rightarrow> 'w janitor_os \<Rightarrow> ('w \<Rightarrow> walk_os) \<Rightarrow> instant \<Rightarrow> 'w \<times> site \<Rightarrow> ('w \<times> site) \<times> disk_sample" where
  \<comment> \<open>each step is guarded: what one raises never keeps the next from running\<close>
  "janitor_sweep jc env sample now ws =
     (let ws = sweep_workspaces jc env now ws;
          ws = sweep_cache jc env ws;
          ws = fst (sweep_oversized_logs jc env now ws)
      in (ws, collect_disk_sample jc (sample (fst ws)) (snd ws)))"

end
