(* ===== verification/JanitorProofs.thy ===== *)
theory JanitorProofs
  imports AgentJanitor RetentionProofs
begin

text \<open>
  What the janitor may remove, cut and evict, and what its disk sample says: the properties of
  \<^verbatim>\<open>janitor.py\<close>.
\<close>

section \<open>Workspaces\<close>

definition holdings :: "string \<Rightarrow> site \<Rightarrow> bool \<times> tree option \<times> attempt_state option \<times> bool" where
  \<comment> \<open>what the site has of one execution: active, workspace, state, cursor\<close>
  "holdings e s = (e \<in> set (si_active s), map_of (or_default (si_workspaces s) []) e,
     read_state (si_states s) e, e \<in> set (si_cursors s))"

lemma map_of_rmtree_in [simp]: "e' \<noteq> e \<Longrightarrow> map_of (rmtree_in env w e ts) e' = map_of ts e'"
  by (simp add: rmtree_in_def update_conv' delete_conv' split: option.splits)

lemma read_state_delete [simp]: "e' \<noteq> e \<Longrightarrow> read_state (AList.delete e d) e' = read_state d e'"
  by (simp add: read_state_def delete_conv')

lemma or_default_map_option [simp]:
  "or_default (map_option f x) d = (case x of None \<Rightarrow> d | Some y \<Rightarrow> f y)"
  by (simp add: or_default_def split: option.splits)

lemma remove_files_spares:
  assumes "e' \<noteq> e"
  shows "holdings e' (remove_files env w e s) = holdings e' s"
  using assms
  by (cases "si_workspaces s")
    (simp_all add: holdings_def remove_files_def delete_state_def or_default_def)

lemma commit_removal_preserves:
  assumes guard: "\<And>w s. Q w (holdings e s) \<Longrightarrow>
      \<not> is_removable jc env now (si_active s) w s (workspace_at s e) e"
    and agent: "\<And>w s. Q w (holdings e s) \<Longrightarrow>
      Q (fst (jo_await env w s)) (holdings e (snd (jo_await env w s)))"
    and holds: "Q (fst ws) (holdings e (snd ws))"
  shows "Q (fst (commit_removal jc env now e' ws)) (holdings e (snd (commit_removal jc env now e' ws)))"
proof -
  obtain w s where awaited: "jo_await env (fst ws) (snd ws) = (w, s)" by fastforce
  have q: "Q w (holdings e s)" using agent [OF holds] by (simp add: awaited)
  show ?thesis
  proof (cases "is_removable jc env now (si_active s) w s (workspace_at s e') e'")
    case False
    then show ?thesis using q by (simp add: commit_removal_def awaited)
  next
    case True
    with guard [OF q] have "e \<noteq> e'" by blast
    then have "holdings e ((remove_files env w e' s)\<lparr>si_released := rel\<rparr>) = holdings e s" for rel
      using remove_files_spares [of e e' env w s] by (simp add: holdings_def)
    then show ?thesis using True q by (simp add: commit_removal_def awaited Let_def)
  qed
qed

text \<open>A sweep keeps every condition about one execution that the rest of the agent keeps and under
  which a guard of the janitor holds (the execution is active, its process group answers, or its
  files changed within the TTL): its workspace, its state file and its log cursor change only by
  what the rest of the agent does while the janitor waits.
\<close>

theorem janitor_spares_guarded:
  assumes "\<And>w s. Q w (holdings e s) \<Longrightarrow>
      \<not> is_removable jc env now (si_active s) w s (workspace_at s e) e"
    and "\<And>w s. Q w (holdings e s) \<Longrightarrow>
      Q (fst (jo_await env w s)) (holdings e (snd (jo_await env w s)))"
    and "Q (fst ws) (holdings e (snd ws))"
  shows "Q (fst (sweep_workspaces jc env now ws)) (holdings e (snd (sweep_workspaces jc env now ws)))"
proof (cases "si_workspaces (snd ws) = None")
  case True
  then show ?thesis using assms(3) by (simp add: sweep_workspaces_def)
next
  case False
  obtain w s where awaited: "jo_await env (fst ws) (snd ws) = (w, s)" by fastforce
  have kept: "Q (fst (fold (commit_removal jc env now) es ws')) (holdings e (snd (fold (commit_removal jc env now) es ws')))"
    if "Q (fst ws') (holdings e (snd ws'))" for es ws'
    using that by (induction es arbitrary: ws') (simp_all add: commit_removal_preserves [of Q, OF assms(1,2)])
  have "Q w (holdings e s)" using assms(2) [OF assms(3)] by (simp add: awaited)
  then show ?thesis
    using False kept [of "(w, s)"] by (cases "si_workspaces (snd ws)") (simp_all add: sweep_workspaces_def awaited)
qed

text \<open>With the rest of the agent at rest and a file system that never refuses, the outcome is exact.\<close>

definition at_rest :: "'w janitor_os \<Rightarrow> bool" where
  "at_rest env = (\<forall>w s. jo_await env w s = (w, s))"

definition obeying :: "'w janitor_os \<Rightarrow> bool" where
  "obeying env = ((\<forall>w t. jo_rmtree env w t = None) \<and> (\<forall>w n. jo_unlink env w n) \<and> (\<forall>w e. jo_lockable env w e))"

definition without :: "string set \<Rightarrow> site \<Rightarrow> site" where
  "without G s =
     s\<lparr>si_workspaces := map_option (filter (\<lambda>f. fst f \<notin> G)) (si_workspaces s),
       si_states := filter (\<lambda>f. fst f \<notin> G) (si_states s),
       si_cursors := filter (\<lambda>c. c \<notin> G) (si_cursors s)\<rparr>"

lemma map_of_without: "map_of (filter (\<lambda>f. fst f \<notin> G) xs) e = (if e \<in> G then None else map_of xs e)"
  by (induction xs) auto

lemma delete_without:
  "AList.delete e (filter (\<lambda>f. fst f \<notin> G) xs) = filter (\<lambda>f. fst f \<notin> insert e G) xs"
  by (induction xs) auto

lemma rmtree_obeying: "obeying env \<Longrightarrow> rmtree_in env w e ts = AList.delete e ts"
  by (simp add: obeying_def rmtree_in_def delete_notin_dom map_of_eq_None_iff split: option.splits)

lemma remove_files_without:
  assumes "obeying env"
  shows "remove_files env w e ((without G s)\<lparr>si_released := r\<rparr>) = (without (insert e G) s)\<lparr>si_released := r\<rparr>"
  using assms
  by (cases "si_workspaces s")
    (auto simp: remove_files_def without_def rmtree_obeying delete_without delete_state_def obeying_def
      conj_commute intro: filter_cong)

lemma workspace_at_without [simp]: "e \<notin> G \<Longrightarrow> workspace_at ((without G s)\<lparr>si_released := r\<rparr>) e = workspace_at s e"
  by (cases "si_workspaces s") (simp_all add: workspace_at_def without_def map_of_without or_default_def)

lemma removable_without:
  "e \<notin> G \<Longrightarrow> is_removable jc env now active w ((without G s)\<lparr>si_released := r\<rparr>) t e
    = is_removable jc env now active w s t e"
  by (simp add: is_removable_def without_def read_state_def map_of_without)

lemma commit_removals:
  assumes rest: "at_rest env" and fs: "obeying env"
    and "distinct es" and "set es \<inter> G = {}"
    and "\<And>e. e \<in> set es \<Longrightarrow> is_removable jc env now (si_active s) w s (workspace_at s e) e"
  shows "fold (commit_removal jc env now) es (w, (without G s)\<lparr>si_released := r\<rparr>)
    = (w, (without (set es \<union> G) s)\<lparr>si_released := r @ es\<rparr>)"
  using assms(3-)
proof (induction es arbitrary: G r)
  case (Cons e es)
  have "commit_removal jc env now e (w, (without G s)\<lparr>si_released := r\<rparr>)
      = (w, (without (insert e G) s)\<lparr>si_released := r @ [e]\<rparr>)"
  proof -
    have "si_active ((without G s)\<lparr>si_released := r\<rparr>) = si_active s" by (simp add: without_def)
    then show ?thesis
      using Cons.prems rest
      by (simp add: commit_removal_def at_rest_def removable_without remove_files_without [OF fs] Let_def)
  qed
  then show ?case using Cons.IH [of "insert e G" "r @ [e]"] Cons.prems by simp
qed (simp add: without_def)

definition expired_workspaces :: "janitor_config \<Rightarrow> 'w janitor_os \<Rightarrow> instant \<Rightarrow> 'w \<Rightarrow> site \<Rightarrow> string list" where
  "expired_workspaces jc env now w s =
     filter (\<lambda>e. is_removable jc env now (si_active s) w s (workspace_at s e) e)
       (map fst (or_default (si_workspaces s) []))"

text \<open>With the agent at rest a sweep removes the workspace, the state file and the cursor of exactly
  the executions whose workspace no guard holds, releases each of them once, and changes nothing
  else.
\<close>

theorem workspaces_swept_exactly:
  assumes rest: "at_rest env" and fs: "obeying env"
    and dist: "distinct (map fst (or_default (si_workspaces s) []))"
  shows "snd (sweep_workspaces jc env now (w, s))
    = (without (set (expired_workspaces jc env now w s)) s)
        \<lparr>si_released := si_released s @ expired_workspaces jc env now w s\<rparr>"
proof -
  let ?es = "expired_workspaces jc env now w s"
  have same: "(without {} s)\<lparr>si_released := si_released s\<rparr> = s" by (cases s; cases "si_workspaces s") (simp_all add: without_def)
  have "scan_candidates jc env now (si_active s) w s = ?es"
  proof -
    have "workspace_at s name = entry" if "(name, entry) \<in> set (or_default (si_workspaces s) [])" for name entry
      using that dist by (simp add: workspace_at_def)
    then have "filter (\<lambda>(name, entry). is_removable jc env now (si_active s) w s entry name) (or_default (si_workspaces s) [])
        = filter (\<lambda>f. is_removable jc env now (si_active s) w s (workspace_at s (fst f)) (fst f)) (or_default (si_workspaces s) [])"
      by (intro filter_cong) auto
    then show ?thesis by (simp add: scan_candidates_def expired_workspaces_def filter_map comp_def)
  qed
  moreover have "distinct ?es" using dist by (simp add: expired_workspaces_def)
  moreover have "is_removable jc env now (si_active s) w s (workspace_at s e) e" if "e \<in> set ?es" for e
    using that by (simp add: expired_workspaces_def)
  ultimately have "fold (commit_removal jc env now) (scan_candidates jc env now (si_active s) w s) (w, s)
      = (w, (without (set ?es) s)\<lparr>si_released := si_released s @ ?es\<rparr>)"
    using commit_removals [OF rest fs, of ?es "{}" jc now s w "si_released s"] by (simp add: same)
  then show ?thesis
    using rest same by (cases "si_workspaces s")
      (simp_all add: sweep_workspaces_def at_rest_def expired_workspaces_def or_default_def)
qed

section \<open>Oversized logs\<close>

lemma flood_marker_is_cap_marker: "any_cap_marker (flood_marker cap)"
proof -
  have "flood_marker cap = ([CHR 0x0A] @ ''[dopilot:job-log-truncated '')
      @ (''max_bytes='' @ show_int cap @ '' reason=size-cap'') @ '']'' @ [CHR 0x0A]"
    by (simp add: flood_marker_def)
  moreover have "list_all (\<lambda>c. c \<noteq> CHR 0x0A \<and> c \<noteq> CHR '']'') (''max_bytes='' @ show_int cap @ '' reason=size-cap'')"
  proof -
    have "list_all (\<lambda>c. c \<noteq> CHR 0x0A \<and> c \<noteq> CHR '']'') (show_int cap)"
      unfolding list_all_iff using show_int_plain by blast
    then show ?thesis by simp
  qed
  ultimately show ?thesis unfolding any_cap_marker_def using marker_afterI [OF _ refl] by (simp only: simp_thms)
qed

lemmas flood_cut_is_capped = marked_cut_is_capped [OF _ _ flood_marker_is_cap_marker]

definition quiet_log :: "janitor_config \<Rightarrow> instant \<Rightarrow> candidate \<Rightarrow> site \<Rightarrow> bool" where
  "quiet_log jc now cand s =
     (case candidate_log s cand of None \<Rightarrow> False
      | Some b \<Rightarrow> secs (jc_janitor_quiet_seconds jc) \<le> now - bl_mtime b)"

inductive janitor_world :: "'w janitor_os \<Rightarrow> 'w \<Rightarrow> 'w \<Rightarrow> bool" for env where
  \<comment> \<open>the worlds a sweep meets: those after waiting and after asking scrapyd\<close>
  world_same: "janitor_world env w w"
| world_await: "janitor_world env w0 w \<Longrightarrow> janitor_world env w0 (fst (jo_await env w s))"
| world_asked: "janitor_world env w0 w \<Longrightarrow> jo_listjobs env = Some list_jobs
    \<Longrightarrow> janitor_world env w0 (fst (list_jobs w project))"

lemma world_trans: "janitor_world env w1 w2 \<Longrightarrow> janitor_world env w0 w1 \<Longrightarrow> janitor_world env w0 w2"
  by (induction rule: janitor_world.induct) (auto intro: janitor_world.intros)

definition names_job :: "obj \<Rightarrow> string \<Rightarrow> bool" where
  \<comment> \<open>the reply of \<open>listjobs.json\<close> has the job among the running or the pending\<close>
  "names_job jobs job_id \<longleftrightarrow>
     (\<exists>key \<in> {''running'', ''pending''}. \<exists>js kv. obj_get jobs key = JList js \<and> JObj kv \<in> set js
       \<and> truthy (obj_get kv ''id'') \<and> py_str (obj_get kv ''id'') = job_id)"

definition told_absent :: "'w janitor_os \<Rightarrow> 'w \<Rightarrow> 'w \<Rightarrow> string \<Rightarrow> string \<Rightarrow> bool" where
  \<comment> \<open>between \<open>w0\<close> and \<open>w\<close> scrapyd was asked for the project and answered without the job\<close>
  "told_absent env w0 w project job_id \<longleftrightarrow>
     (\<exists>list_jobs w1 w2 jobs. jo_listjobs env = Some list_jobs \<and> janitor_world env w0 w1
       \<and> list_jobs w1 project = (w2, Some jobs) \<and> janitor_world env w2 w \<and> \<not> names_job jobs job_id)"

fun no_process :: "'w janitor_os \<Rightarrow> 'w \<Rightarrow> 'w \<Rightarrow> candidate \<Rightarrow> site \<Rightarrow> bool" where
  \<comment> \<open>scrapyd said so since \<open>w0\<close>, or no process group answers in \<open>w\<close>\<close>
  "no_process env w0 w (Scrapyd_candidate parts project job_id execution_id) s
     \<longleftrightarrow> told_absent env w0 w project job_id"
| "no_process env w0 w (Wheel_candidate e) s
     \<longleftrightarrow> (\<forall>g. read_pgid (workspace_at s e) = Some g \<longrightarrow> \<not> pgid_alive (jo_probe env w g))"

definition state_of_candidate :: "site \<Rightarrow> candidate \<Rightarrow> attempt_state option" where
  "state_of_candidate s cand =
     (case candidate_id cand of None \<Rightarrow> None
      | Some e \<Rightarrow> if e = [] then None else read_state (si_states s) e)"

definition provably_stopped ::
    "janitor_config \<Rightarrow> 'w janitor_os \<Rightarrow> instant \<Rightarrow> 'w \<Rightarrow> 'w \<Rightarrow> candidate \<Rightarrow> site \<Rightarrow> bool" where
  "provably_stopped jc env now w0 w cand s \<longleftrightarrow>
     (\<forall>e. candidate_id cand = Some e \<longrightarrow> e \<notin> set (si_active s))
     \<and> (case state_of_candidate s cand of Some st \<Rightarrow> as_phase st = Phase_done
        | None \<Rightarrow> quiet_log jc now cand s \<and> no_process env w0 w cand s)"

text \<open>What the listing of a sweep holds was said by scrapyd during that sweep.\<close>

definition heard :: "'w janitor_os \<Rightarrow> 'w \<Rightarrow> 'w \<times> listing \<Rightarrow> bool" where
  "heard env w0 wl \<longleftrightarrow> janitor_world env w0 (fst wl)
     \<and> (\<forall>project live job_id. map_of (snd wl) project = Some (Some live) \<and> job_id \<notin> set live
          \<longrightarrow> told_absent env w0 (fst wl) project job_id)"

lemma map_filter_mem: "x \<in> set xs \<Longrightarrow> f x = Some y \<Longrightarrow> y \<in> set (List.map_filter f xs)"
  by (induction xs) (auto simp: List.map_filter_def)

lemma live_ids_names: "live_ids jobs = Some live \<Longrightarrow> names_job jobs job_id \<Longrightarrow> job_id \<in> set live"
  unfolding live_ids_def names_job_def Let_def
  by (auto split: option.splits intro!: map_filter_mem [where x = "JObj _"])

lemma told_later: "told_absent env w0 w p j \<Longrightarrow> janitor_world env w w' \<Longrightarrow> told_absent env w0 w' p j"
  unfolding told_absent_def by (meson world_trans)

lemma heard_await: "heard env w0 (w, listed) \<Longrightarrow> heard env w0 (fst (jo_await env w s), listed)"
  unfolding heard_def fst_conv snd_conv by (meson told_later world_await world_same)

lemma heard_lists:
  assumes "heard env w0 wl" and "scrapyd_lists_job env project job_id wl = (wl', r)"
  shows "heard env w0 wl' \<and> (r = Some (Some False) \<longrightarrow> told_absent env w0 (fst wl') project job_id)"
proof (cases "jo_listjobs env")
  case None
  with assms show ?thesis by (auto simp: scrapyd_lists_job_def)
next
  case (Some list_jobs)
  show ?thesis
  proof (cases "project = [] \<or> map_of (snd wl) project \<noteq> None")
    case True
    with assms Some show ?thesis
      by (auto simp: scrapyd_lists_job_def heard_def split: option.splits if_splits)
  next
    case False
    obtain w2 reply where ask: "list_jobs (fst wl) project = (w2, reply)" by force
    have world: "janitor_world env (fst wl) w2" "janitor_world env w0 w2"
      using world_asked [OF _ Some, of "fst wl" "fst wl" project] world_asked [OF _ Some, of w0 "fst wl" project]
        assms(1) ask by (auto simp: heard_def intro: world_same)
    have old: "told_absent env w0 w2 p j" if "map_of (snd wl) p = Some (Some live)" "j \<notin> set live" for p live j
      using assms(1) that told_later [OF _ world(1)] by (auto simp: heard_def)
    show ?thesis
    proof (cases reply)
      case None
      with assms(2) Some False ask world old show ?thesis
        by (auto simp: scrapyd_lists_job_def heard_def split: if_splits)
    next
      case jobs: (Some jobs)
      show ?thesis
      proof (cases "live_ids jobs")
        case None
        with assms Some False ask jobs show ?thesis by (auto simp: scrapyd_lists_job_def)
      next
        case live: (Some live)
        have new: "told_absent env w0 w2 project j" if "j \<notin> set live" for j
          unfolding told_absent_def
          using Some ask jobs live live_ids_names that assms(1) world_same by (fastforce simp: heard_def)
        with assms(2) Some False ask jobs live world old show ?thesis
          by (auto simp: scrapyd_lists_job_def heard_def split: if_splits)
      qed
    qed
  qed
qed

lemma heard_allowed:
  assumes "heard env w0 wl" and "truncation_allowed jc env now cand s wl = (wl', r)"
  shows "heard env w0 wl' \<and> (r = Some True \<longrightarrow> provably_stopped jc env now w0 (fst wl') cand s)"
proof (cases "(\<exists>e. candidate_id cand = Some e \<and> e \<in> set (si_active s)) \<or> state_of_candidate s cand \<noteq> None
    \<or> \<not> quiet_log jc now cand s")
  case True
  with assms show ?thesis
    by (auto simp: truncation_allowed_def state_of_candidate_def provably_stopped_def quiet_log_def
        split: option.splits if_splits candidate.splits prod.splits)
next
  case False
  then have free: "\<forall>e. candidate_id cand = Some e \<longrightarrow> e \<notin> set (si_active s)" and quiet: "quiet_log jc now cand s"
    and none: "state_of_candidate s cand = None" by auto
  show ?thesis
  proof (cases cand)
    case (Scrapyd_candidate parts project job_id e)
    obtain r0 where l: "scrapyd_lists_job env project job_id wl = (wl', r0)"
        and r: "r = map_option (\<lambda>lists. lists = Some False) r0"
      using assms(2) free none quiet Scrapyd_candidate
      by (auto simp: truncation_allowed_def state_of_candidate_def quiet_log_def split: option.splits if_splits prod.splits)
    with heard_lists [OF assms(1) l] free none quiet Scrapyd_candidate show ?thesis
      by (auto simp: provably_stopped_def)
  next
    case (Wheel_candidate e)
    with assms free none quiet show ?thesis
      by (auto simp: truncation_allowed_def state_of_candidate_def provably_stopped_def quiet_log_def
          split: option.splits if_splits)
  qed
qed

text \<open>One candidate: nothing is changed, or its log is cut in the state found under the lock.\<close>

definition cut_of :: "'w janitor_os \<Rightarrow> janitor_config \<Rightarrow> instant \<Rightarrow> int \<Rightarrow> candidate \<Rightarrow> 'w \<Rightarrow> 'w \<Rightarrow> site \<Rightarrow> site \<Rightarrow> bool" where
  "cut_of env jc now cap cand w0 w s s' \<longleftrightarrow>
     (\<exists>b. provably_stopped jc env now w0 w cand s \<and> candidate_log s cand = Some b \<and> cap < blob_size b
        \<and> s' = put_candidate_log (b\<lparr>bl_bytes := take (nat cap) (bl_bytes b) @ flood_marker cap,
              bl_mtime := jo_clock env w\<rparr>) cand s
        \<and> already_capped (take (nat cap) (bl_bytes b) @ flood_marker cap) cap)"

lemma one_truncation:
  assumes run: "commit_truncation jc env now cap cand (w, listed, s) = ((w', listed', s'), ok)"
    and cap: "0 < cap" and marker: "int (length (flood_marker cap)) \<le> MAX_MARKER_LEN"
    and heard: "heard env w0 (w, listed)"
  shows "heard env w0 (w', listed')
    \<and> (s' = s \<or> (\<exists>w1 s1. s1 = snd (jo_await env w1 s) \<and> (s' = s1 \<or> cut_of env jc now cap cand w0 w' s1 s')))"
proof -
  obtain w2 listed2 r where first: "truncation_allowed jc env now cand s (w, listed) = ((w2, listed2), r)"
    by (metis surj_pair)
  have h2: "heard env w0 (w2, listed2)" using heard_allowed [OF heard first] by simp
  show ?thesis
  proof (cases "r = Some True")
    case False
    then show ?thesis using run first h2 by (cases r) (auto simp: commit_truncation_def)
  next
    case True
    obtain w1 s1 where locked: "jo_await env w2 s = (w1, s1)" by force
    obtain w3 listed3 r3 where second: "truncation_allowed jc env now cand s1 (w1, listed2) = ((w3, listed3), r3)"
      by (metis surj_pair)
    have h1: "heard env w0 (w1, listed2)" using heard_await [OF h2, of s] locked by simp
    have h3: "heard env w0 (w3, listed3)" "r3 = Some True \<Longrightarrow> provably_stopped jc env now w0 w3 cand s1"
      using heard_allowed [OF h1 second] by auto
    have s1: "s1 = snd (jo_await env w2 s)" using locked by simp
    show ?thesis
    proof (cases "r3 = Some True")
      case False
      then have "w' = w3 \<and> listed' = listed3 \<and> s' = s1"
        using run first second True locked by (cases r3) (auto simp: commit_truncation_def)
      then show ?thesis using h3 s1 by blast
    next
      case cut: True
      have out: "w' = w3" "listed' = listed3" "s' = fst (truncate_log env w3 cap cand s1)"
        using run first second True locked cut by (auto simp: commit_truncation_def split: prod.splits)
      have "s' = s1 \<or> cut_of env jc now cap cand w0 w' s1 s'"
      proof (cases "candidate_log s1 cand")
        case None
        then show ?thesis using out by (simp add: truncate_log_def)
      next
        case (Some b)
        show ?thesis
        proof (cases "blob_size b \<le> cap \<or> log_already_capped b cap \<or> \<not> bl_writable b")
          case True
          then show ?thesis using out Some by (auto simp: truncate_log_def)
        next
          case False
          then have "already_capped (take (nat cap) (bl_bytes b) @ flood_marker cap) cap"
            using flood_cut_is_capped [OF cap _ marker, of "bl_bytes b"] by (simp add: blob_size_def)
          then show ?thesis using h3(2) cut Some False out by (auto simp: cut_of_def truncate_log_def)
        qed
      qed
      then show ?thesis using h3(1) out(1,2) s1 by blast
    qed
  qed
qed

lemma truncations_heard:
  assumes "commit_truncations jc env now cap cands (w, listed, s) = ((w', listed', s'), ok)"
    and "0 < cap" and "int (length (flood_marker cap)) \<le> MAX_MARKER_LEN" and "heard env w0 (w, listed)"
  shows "heard env w0 (w', listed')"
  using assms(1,4)
proof (induction cands arbitrary: w listed s)
  case (Cons cand cands)
  obtain w1 listed1 s1 ok1 where step: "commit_truncation jc env now cap cand (w, listed, s) = ((w1, listed1, s1), ok1)"
    by (metis surj_pair)
  have "heard env w0 (w1, listed1)" using one_truncation [OF step assms(2,3) Cons.prems(2)] by simp
  then show ?case using Cons step by (cases ok1) auto
qed simp

text \<open>C22. Take a sweep over the oversized logs at any candidate it comes to. What this candidate ends in:
  either nothing is changed by the janitor, or, in the state found under the lock, its execution was not active and its
  attempt was done, or without a readable state its log was quiet and no process of it was left: no
  process group answers, or scrapyd was asked for the project during this sweep and answered with
  neither a running nor a pending job of that id (a failed request never counts as such an answer). Then its log, over the cap
  and not cut before, is exactly its first \<open>cap\<close> bytes and the marker, and no later sweep cuts it again.
\<close>

theorem cut_only_stopped_logs:
  assumes before: "commit_truncations jc env now cap earlier (w0, [], s0) = ((w, listed, s), True)"
    and run: "commit_truncation jc env now cap cand (w, listed, s) = ((w', listed', s'), ok)"
    and cap: "0 < cap" and marker: "int (length (flood_marker cap)) \<le> MAX_MARKER_LEN"
  shows "s' = s \<or> (\<exists>w1 s1. s1 = snd (jo_await env w1 s) \<and> (s' = s1
    \<or> (\<exists>b. provably_stopped jc env now w0 w' cand s1 \<and> candidate_log s1 cand = Some b \<and> cap < blob_size b
        \<and> s' = put_candidate_log (b\<lparr>bl_bytes := take (nat cap) (bl_bytes b) @ flood_marker cap,
              bl_mtime := jo_clock env w'\<rparr>) cand s1
        \<and> already_capped (take (nat cap) (bl_bytes b) @ flood_marker cap) cap)))"
proof -
  have "heard env w0 (w0, [])" by (simp add: heard_def world_same)
  from truncations_heard [OF before cap marker this] one_truncation [OF run cap marker] show ?thesis
    unfolding cut_of_def by blast
qed

text \<open>A candidate whose log may be cut but not opened for writing ends the sweep, every time: with the
  agent at rest no log behind it is cut, whatever its size.
\<close>

theorem unwritable_log_ends_sweep:
  assumes rest: "at_rest env" and cap: "0 < jc_max_job_log_bytes jc"
    and cands: "scan_oversized_logs jc (jc_max_job_log_bytes jc) s = cand # cands"
    and log: "candidate_log s cand = Some b" "\<not> bl_writable b"
    and over: "needs_cut (jc_max_job_log_bytes jc) (Some b)"
    and done_attempt: "candidate_id cand = Some e" "e \<noteq> []" "e \<notin> set (si_active s)"
      "read_state (si_states s) e = Some st" "as_phase st = Phase_done"
  shows "sweep_oversized_logs jc env now (w, s) = ((w, s), False)"
proof -
  have "truncation_allowed jc env now cand s wl = (wl, Some True)" for wl
    using done_attempt by (simp add: truncation_allowed_def)
  moreover have "truncate_log env w (jc_max_job_log_bytes jc) cand s = (s, None)"
    using log over by (simp add: truncate_log_def needs_cut_def)
  ultimately have "commit_truncation jc env now (jc_max_job_log_bytes jc) cand (w, [], s) = ((w, [], s), False)"
    using rest by (simp add: commit_truncation_def at_rest_def)
  then show ?thesis using rest cap cands by (simp add: sweep_oversized_logs_def at_rest_def)
qed

text \<open>
  The answer of scrapyd that allows a cut is asked for once per project and sweep: under the lock the
  second check reads the listing of the first.
\<close>

lemma listing_is_asked_once:
  assumes "scrapyd_lists_job env project job_id (w, listed) = ((w1, listed1), Some (Some b))"
  shows "scrapyd_lists_job env project job_id (w2, listed1) = ((w2, listed1), Some (Some b))"
  using assms by (auto simp: scrapyd_lists_job_def split: option.splits if_splits prod.splits)

section \<open>The artifact caches\<close>

lemma evict_never_referenced:
  assumes "ce_sha entry \<in> set (referenced_wheel_shas (snd (jo_await env w s)))"
    and "evict_locked env entry (w, s) = (ws, evicted)"
  shows "\<not> evicted"
proof -
  obtain w1 s1 where awaited: "jo_await env w s = (w1, s1)" by fastforce
  have "referenced_wheel_shas (take_entry_lock now kind sha s1) = referenced_wheel_shas s1" for now kind sha
    by (cases kind) (simp_all add: referenced_wheel_shas_def)
  then show ?thesis using assms awaited
    by (auto simp: evict_locked_def Let_def split: if_splits prod.splits)
qed

definition tidy_cache :: "site \<Rightarrow> bool" where
  \<comment> \<open>names are unique, no lock file is left, and no egg has an empty name\<close>
  "tidy_cache s \<longleftrightarrow>
     (let fs = or_default (si_eggs s) []; ts = or_default (si_wheels s) []
      in distinct (map fst fs) \<and> distinct (map fst ts) \<and> ''.egg'' \<notin> fst ` set fs
       \<and> (\<forall>n \<in> fst ` set fs. \<not> ends_with ''.egg.lock'' n)
       \<and> (\<forall>t \<in> snd ` set ts. ''.lock'' \<notin> fst ` set (tr_files t)))"

definition entry_key :: "cache_entry \<Rightarrow> cache_kind \<times> string" where
  "entry_key e = (ce_kind e, ce_sha e)"

fun drop_entry :: "cache_kind \<Rightarrow> string \<Rightarrow> site \<Rightarrow> site" where
  "drop_entry Egg_cache sha s =
     s\<lparr>si_eggs := map_option (filter (\<lambda>f. fst f \<noteq> egg_file sha \<and> fst f \<noteq> egg_ready sha)) (si_eggs s)\<rparr>"
| "drop_entry Wheel_cache sha s = s\<lparr>si_wheels := map_option (filter (\<lambda>f. fst f \<noteq> sha)) (si_wheels s)\<rparr>"

lemma delete_filter: "AList.delete k xs = filter (\<lambda>f. fst f \<noteq> k) xs"
  by (induction xs) auto

lemma update_filter:
  "\<not> P k \<Longrightarrow> filter (\<lambda>f. P (fst f)) (AList.update k v xs) = filter (\<lambda>f. P (fst f)) xs"
  by (induction xs) auto

lemma unlink_in_obeying: "obeying env \<Longrightarrow> unlink_in env w n fs = (filter (\<lambda>f. fst f \<noteq> n) fs, True)"
proof -
  assume "obeying env"
  moreover have "filter (\<lambda>f. fst f \<noteq> n) fs = fs" if "map_of fs n = None"
    using that by (auto simp: map_of_eq_None_iff intro!: filter_True)
  ultimately show ?thesis by (auto simp: unlink_in_def obeying_def delete_filter)
qed

lemma egg_names_differ [simp]:
  "egg_lock sha \<noteq> egg_file sha" "egg_lock sha \<noteq> egg_ready sha" "egg_file sha \<noteq> egg_ready sha"
  by (simp_all add: egg_lock_def egg_file_def egg_ready_def)

lemma egg_lock_ends [simp]: "ends_with ''.egg.lock'' (egg_lock sha)"
  by (simp add: ends_with_def egg_lock_def)

lemma wheel_round_trip: "AList.delete sha (AList.map_entry sha f ts) = filter (\<lambda>f. fst f \<noteq> sha) ts"
  by (induction ts) (auto simp: delete_filter)

lemma tidy_no_egg_lock: "tidy_cache s \<Longrightarrow> si_eggs s = Some files \<Longrightarrow> egg_lock sha \<notin> fst ` set files"
  using egg_lock_ends [of sha] unfolding tidy_cache_def Let_def or_default_def by (metis option.simps(5))

lemma wheel_sha: "ce_sha (wheel_entry f) = fst f"
  by (simp add: wheel_entry_def Let_def)

lemma evict_locked_drops:
  assumes rest: "at_rest env" and fs: "obeying env" and tidy: "tidy_cache s"
    and entry: "entry \<in> set (cache_entries s)" "ce_sha entry \<notin> set (referenced_wheel_shas s)"
  shows "evict_locked env entry (w, s) = ((w, drop_entry (ce_kind entry) (ce_sha entry) s), True)"
proof (cases "ce_kind entry")
  case Egg_cache
  then obtain files where files: "si_eggs s = Some files"
    using entry(1) by (cases "si_eggs s") (auto simp: cache_entries_def wheel_entry_def Let_def or_default_def)
  let ?lk = "egg_lock (ce_sha entry)"
  have free: "?lk \<notin> fst ` set files"
    using tidy_no_egg_lock [OF tidy files] .
  have "filter (\<lambda>f. fst f \<noteq> ?lk) files = files"
    using free by (force simp: filter_id_conv)
  then have "filter (\<lambda>f. fst f \<noteq> ?lk) (filter (\<lambda>f. fst f \<noteq> egg_ready sha)
      (filter (\<lambda>f. fst f \<noteq> egg_file sha) (AList.update ?lk v files)))
    = filter (\<lambda>f. fst f \<noteq> egg_file sha \<and> fst f \<noteq> egg_ready sha) files" for sha v
    using update_filter [of "\<lambda>n. n \<noteq> ?lk \<and> n \<noteq> egg_ready sha \<and> n \<noteq> egg_file sha" ?lk v files]
    by (metis (mono_tags, lifting) filter_cong filter_filter)
  moreover have "referenced_wheel_shas (take_entry_lock now Egg_cache sha s) = referenced_wheel_shas s" for now sha
    by (simp add: referenced_wheel_shas_def)
  ultimately show ?thesis
    using Egg_cache rest fs free files entry(2)
    by (simp add: evict_locked_def at_rest_def unlink_in_obeying or_default_def Let_def) (simp add: obeying_def)
next
  case Wheel_cache
  then have named: "entry \<in> wheel_entry ` set (or_default (si_wheels s) [])"
    using entry(1) by (auto simp: cache_entries_def egg_entry_def Let_def)
  then obtain ts where ts: "si_wheels s = Some ts" by (cases "si_wheels s") (auto simp: or_default_def)
  have named: "ce_sha entry \<in> fst ` set ts"
    using named ts by (force simp: or_default_def wheel_sha)
  obtain t where t: "map_of ts (ce_sha entry) = Some t" using named by (metis map_of_eq_None_iff not_None_eq)
  then have free: "''.lock'' \<notin> fst ` set (tr_files t)"
    using tidy ts map_of_SomeD [OF t] by (force simp: tidy_cache_def Let_def or_default_def)
  have "referenced_wheel_shas (take_entry_lock now Wheel_cache sha s) = referenced_wheel_shas s" for now sha
    by (simp add: referenced_wheel_shas_def)
  moreover have absent: "AList.map_entry (ce_sha entry) g (filter (\<lambda>f. fst f \<noteq> ce_sha entry) ts)
      = filter (\<lambda>f. fst f \<noteq> ce_sha entry) ts" for g
    by (induction ts) auto
  ultimately show ?thesis
    using Wheel_cache rest fs free t ts entry(2)
    by (simp add: evict_locked_def at_rest_def rmtree_obeying or_default_def Let_def wheel_round_trip absent)
      (simp add: obeying_def)
qed

lemma egg_file_stem:
  assumes "ends_with ''.egg'' n" and "n \<noteq> ''.egg''"
  shows "egg_file (egg_stem n) = n"
proof -
  obtain x where n: "n = x @ ''.egg''"
    using assms(1) unfolding ends_with_def by (metis append_take_drop_id)
  with assms(2) have "x \<noteq> []" by auto
  with n show ?thesis by (simp add: egg_file_def egg_stem_def)
qed

lemma egg_names_of_shas [simp]:
  "egg_file a = egg_file b \<longleftrightarrow> a = b" "egg_ready a = egg_ready b \<longleftrightarrow> a = b" "egg_ready a \<noteq> egg_file b"
proof -
  have "List.last (egg_ready a) \<noteq> List.last (egg_file b)" by (simp add: egg_ready_def egg_file_def)
  then show "egg_ready a \<noteq> egg_file b" by metis
qed (simp_all add: egg_file_def egg_ready_def)

lemma egg_ready_no_egg [simp]: "\<not> ends_with ''.egg'' (egg_ready sha)"
proof
  assume "ends_with ''.egg'' (egg_ready sha)"
  then obtain x where "egg_ready sha = x @ ''.egg''" unfolding ends_with_def by (metis append_take_drop_id)
  then have "List.last (egg_ready sha) = CHR ''g''" by simp
  then show False by (simp add: egg_ready_def)
qed

lemma stat_of_filter: "P n \<Longrightarrow> stat_of (filter (\<lambda>f. P (fst f)) fs) n = stat_of fs n"
  by (induction fs) (auto simp: stat_of_def)

lemma egg_entries_drop:
  assumes "''.egg'' \<notin> fst ` set fs" and fs': "fs' = filter (\<lambda>f. fst f \<noteq> egg_file sha \<and> fst f \<noteq> egg_ready sha) fs"
  shows "map (egg_entry fs') (filter (ends_with ''.egg'') (map fst fs'))
    = filter (\<lambda>e. entry_key e \<noteq> (Egg_cache, sha)) (map (egg_entry fs) (filter (ends_with ''.egg'') (map fst fs)))"
proof -
  let ?keep = "\<lambda>n. n \<noteq> egg_file sha \<and> n \<noteq> egg_ready sha"
  have stem: "?keep n \<longleftrightarrow> egg_stem n \<noteq> sha" if "ends_with ''.egg'' n" "n \<noteq> ''.egg''" for n
    using egg_file_stem [OF that] that(1) by (metis egg_names_of_shas(1) egg_ready_no_egg)
  have same: "egg_entry fs' n = egg_entry fs n" if "ends_with ''.egg'' n" "n \<noteq> ''.egg''" "?keep n" for n
  proof -
    have "egg_stem n \<noteq> sha" using stem that by blast
    then have "?keep (egg_ready (egg_stem n))" by simp
    then have "stat_of fs' (egg_ready (egg_stem n)) = stat_of fs (egg_ready (egg_stem n))"
      unfolding fs' by (rule stat_of_filter)
    moreover have "stat_of fs' n = stat_of fs n" unfolding fs' using that(3) by (rule stat_of_filter)
    ultimately show ?thesis by (simp add: egg_entry_def)
  qed
  have "map (egg_entry fs') (filter (ends_with ''.egg'') (map fst fs'))
      = map (egg_entry fs) (filter (\<lambda>n. ends_with ''.egg'' n \<and> ?keep n) (map fst fs))"
  proof -
    have "map fst fs' = filter ?keep (map fst fs)" by (simp add: fs' filter_map comp_def)
    then have names: "filter (ends_with ''.egg'') (map fst fs') = filter (\<lambda>n. ends_with ''.egg'' n \<and> ?keep n) (map fst fs)"
      by (simp add: conj_commute)
    have "egg_entry fs' n = egg_entry fs n"
      if "n \<in> set (filter (\<lambda>n. ends_with ''.egg'' n \<and> ?keep n) (map fst fs))" for n
    proof -
      have "n \<in> fst ` set fs" "ends_with ''.egg'' n" "?keep n" using that by simp_all
      moreover from this assms(1) have "n \<noteq> ''.egg''" by blast
      ultimately show ?thesis using same by blast
    qed
    then show ?thesis unfolding names by (rule map_cong [OF refl])
  qed
  also have "filter (\<lambda>n. ends_with ''.egg'' n \<and> ?keep n) (map fst fs)
      = filter (\<lambda>n. entry_key (egg_entry fs n) \<noteq> (Egg_cache, sha)) (filter (ends_with ''.egg'') (map fst fs))"
  proof -
    have "(ends_with ''.egg'' n \<and> ?keep n) = (entry_key (egg_entry fs n) \<noteq> (Egg_cache, sha) \<and> ends_with ''.egg'' n)"
      if "n \<in> set (map fst fs)" for n
    proof -
      have "n \<noteq> ''.egg''" using that assms(1) by fastforce
      then show ?thesis using stem [of n] by (auto simp: entry_key_def egg_entry_def Let_def)
    qed
    then show ?thesis unfolding filter_filter by (intro filter_cong) auto
  qed
  finally show ?thesis by (simp add: filter_map comp_def)
qed

lemma wheel_key [simp]: "entry_key (wheel_entry f) = (Wheel_cache, fst f)"
  by (simp add: entry_key_def wheel_entry_def Let_def)

lemma egg_kind [simp]: "entry_key (egg_entry fs n) = (Egg_cache, egg_stem n)"
  by (simp add: entry_key_def egg_entry_def Let_def)

lemma cache_entries_drop:
  assumes "tidy_cache s"
  shows "cache_entries (drop_entry kind sha s) = filter (\<lambda>e. entry_key e \<noteq> (kind, sha)) (cache_entries s)"
proof (cases kind)
  case Wheel_cache
  then show ?thesis
    by (cases "si_wheels s") (simp_all add: cache_entries_def Let_def or_default_def filter_map comp_def)
next
  case Egg_cache
  show ?thesis
  proof (cases "si_eggs s")
    case None
    then show ?thesis using Egg_cache
      by (simp add: cache_entries_def Let_def or_default_def filter_map comp_def)
  next
    case (Some fs)
    have "''.egg'' \<notin> fst ` set fs" using assms Some by (simp add: tidy_cache_def Let_def or_default_def)
    from egg_entries_drop [OF this refl, of sha] show ?thesis using Egg_cache Some
      by (simp add: cache_entries_def Let_def or_default_def filter_map comp_def)
  qed
qed

lemma tidy_drop: "tidy_cache s \<Longrightarrow> tidy_cache (drop_entry kind sha s)"
proof (cases kind)
  case Egg_cache
  assume "tidy_cache s"
  then show ?thesis using Egg_cache
    by (cases "si_eggs s") (auto simp: tidy_cache_def Let_def or_default_def distinct_map_filter)
next
  case Wheel_cache
  assume "tidy_cache s"
  then show ?thesis using Wheel_cache
    by (cases "si_wheels s") (auto simp: tidy_cache_def Let_def or_default_def distinct_map_filter)
qed

lemma referenced_drop [simp]: "referenced_wheel_shas (drop_entry kind sha s) = referenced_wheel_shas s"
  by (cases kind) (simp_all add: referenced_wheel_shas_def)

lemma entry_keys_distinct:
  assumes "tidy_cache s"
  shows "distinct (map entry_key (cache_entries s))"
proof -
  let ?fs = "or_default (si_eggs s) []" and ?ts = "or_default (si_wheels s) []"
  have d: "distinct (map fst ?fs)" "distinct (map fst ?ts)" "''.egg'' \<notin> fst ` set ?fs"
    using assms by (simp_all add: tidy_cache_def Let_def)
  have "inj_on egg_stem (set (filter (ends_with ''.egg'') (map fst ?fs)))"
  proof (rule inj_onI)
    fix m n assume "m \<in> set (filter (ends_with ''.egg'') (map fst ?fs))"
      "n \<in> set (filter (ends_with ''.egg'') (map fst ?fs))" and eq: "egg_stem m = egg_stem n"
    then have "ends_with ''.egg'' m" "m \<noteq> ''.egg''" "ends_with ''.egg'' n" "n \<noteq> ''.egg''"
      using d(3) by (auto simp: image_def)
    then show "m = n" using egg_file_stem eq by metis
  qed
  then have "distinct (map egg_stem (filter (ends_with ''.egg'') (map fst ?fs)))"
    using d(1) by (simp add: distinct_map)
  then show ?thesis using d(2)
    by (auto simp: cache_entries_def Let_def comp_def distinct_map inj_on_def)
qed

definition entry_bytes :: "cache_entry list \<Rightarrow> int" where
  "entry_bytes es = sum_list (map ce_size es)"

lemma entry_bytes_drop:
  assumes "distinct (map entry_key es)" and "e \<in> set es"
  shows "entry_bytes (filter (\<lambda>x. entry_key x \<noteq> entry_key e) es) = entry_bytes es - ce_size e"
  using assms
proof (induction es)
  case (Cons x xs)
  show ?case
  proof (cases "x = e")
    case True
    then have "filter (\<lambda>y. entry_key y \<noteq> entry_key e) xs = xs"
      using Cons.prems(1) by (auto simp: filter_id_conv image_def)
    then show ?thesis using True by (simp add: entry_bytes_def)
  next
    case False
    then have "e \<in> set xs" using Cons.prems(2) by simp
    moreover from this have "entry_key x \<noteq> entry_key e" using Cons.prems(1) by force
    ultimately show ?thesis using Cons by (simp add: entry_bytes_def)
  qed
qed simp

definition lru_prefix :: "int \<Rightarrow> cache_entry list \<Rightarrow> cache_entry list \<Rightarrow> nat \<Rightarrow> site \<Rightarrow> bool" where
  \<comment> \<open>the first \<open>k\<close> of \<open>order\<close> are gone from \<open>entries\<close>, no more than needed, and enough if there were\<close>
  "lru_prefix cap entries order k s \<longleftrightarrow>
     k \<le> length order
     \<and> cache_entries s = filter (\<lambda>e. e \<notin> set (take k order)) entries
     \<and> (entry_bytes (cache_entries s) \<le> cap \<or> k = length order)
     \<and> (\<forall>j < k. cap < entry_bytes (filter (\<lambda>e. e \<notin> set (take j order)) entries))"

lemma evict_down_prefix:
  assumes rest: "at_rest env" and fs: "obeying env" and tidy: "tidy_cache s"
    and order: "set order \<subseteq> set (cache_entries s)" "distinct order"
    and free: "\<And>e. e \<in> set order \<Longrightarrow> ce_sha e \<notin> set (referenced_wheel_shas s)"
  shows "\<exists>k. lru_prefix cap (cache_entries s) order k
      (snd (fst (evict_down env cap order (entry_bytes (cache_entries s)) (w, s))))"
  using tidy order free
proof (induction order arbitrary: s)
  case Nil
  then show ?case by (simp add: lru_prefix_def)
next
  case (Cons e order)
  let ?es = "cache_entries s"
  show ?case
  proof (cases "entry_bytes ?es \<le> cap")
    case True
    then have "lru_prefix cap ?es (e # order) 0 s" by (simp add: lru_prefix_def)
    then show ?thesis using True by auto
  next
    case False
    define s1 where "s1 = drop_entry (ce_kind e) (ce_sha e) s"
    have e: "e \<in> set ?es" using Cons.prems(2) by simp
    have keys: "distinct (map entry_key ?es)" using entry_keys_distinct Cons.prems(1) by blast
    have es1: "cache_entries s1 = filter (\<lambda>x. entry_key x \<noteq> entry_key e) ?es"
      using cache_entries_drop [OF Cons.prems(1)] by (simp add: s1_def entry_key_def)
    have es1': "cache_entries s1 = filter (\<lambda>x. x \<noteq> e) ?es"
      unfolding es1 using keys e by (intro filter_cong refl) (auto simp: distinct_map inj_on_def)
    have step: "evict_locked env e (w, s) = ((w, s1), True)"
      using evict_locked_drops [OF rest fs Cons.prems(1) e] Cons.prems(4) by (simp add: s1_def)
    have in_use: "entry_bytes ?es - ce_size e = entry_bytes (cache_entries s1)"
      using entry_bytes_drop [OF keys e] es1 by simp
    have "\<exists>k. lru_prefix cap (cache_entries s1) order k
        (snd (fst (evict_down env cap order (entry_bytes (cache_entries s1)) (w, s1))))"
    proof (rule Cons.IH)
      show "tidy_cache s1" using tidy_drop Cons.prems(1) s1_def by blast
      show "set order \<subseteq> set (cache_entries s1)" using Cons.prems(2,3) es1' by auto
      show "distinct order" using Cons.prems(3) by simp
      show "ce_sha x \<notin> set (referenced_wheel_shas s1)" if "x \<in> set order" for x
        using Cons.prems(4) that by (simp add: s1_def)
    qed
    then obtain k where k: "lru_prefix cap (cache_entries s1) order k
        (snd (fst (evict_down env cap order (entry_bytes (cache_entries s1)) (w, s1))))" by blast
    have gone: "filter (\<lambda>x. x \<notin> set (take j order)) (cache_entries s1)
        = filter (\<lambda>x. x \<notin> set (take (Suc j) (e # order))) ?es" for j
      unfolding es1' filter_filter by (intro filter_cong refl) auto
    have "lru_prefix cap ?es (e # order) (Suc k)
        (snd (fst (evict_down env cap order (entry_bytes (cache_entries s1)) (w, s1))))"
      unfolding lru_prefix_def
    proof (intro conjI)
      show "\<forall>j < Suc k. cap < entry_bytes (filter (\<lambda>x. x \<notin> set (take j (e # order))) ?es)"
      proof (intro allI impI)
        fix j assume "j < Suc k"
        then show "cap < entry_bytes (filter (\<lambda>x. x \<notin> set (take j (e # order))) ?es)"
        proof (cases j)
          case 0
          then show ?thesis using False by simp
        next
          case (Suc i)
          then have "cap < entry_bytes (filter (\<lambda>x. x \<notin> set (take i order)) (cache_entries s1))"
            using k \<open>j < Suc k\<close> unfolding lru_prefix_def by simp
          then show ?thesis unfolding gone [of i] Suc .
        qed
      qed
    qed (use k gone [of k] in \<open>auto simp: lru_prefix_def\<close>)
    then show ?thesis using False step in_use by auto
  qed
qed

lemma sweep_evicts_prefix:
  assumes rest: "at_rest env" and fs: "obeying env" and tidy: "tidy_cache s"
    and cap: "0 < jc_artifact_cache_max_bytes jc"
  shows "\<exists>k. lru_prefix (jc_artifact_cache_max_bytes jc) (cache_entries s) (evictable s) k
    (snd (sweep_cache jc env (w, s)))"
proof (cases "entry_bytes (cache_entries s) \<le> jc_artifact_cache_max_bytes jc")
  case True
  then have "lru_prefix (jc_artifact_cache_max_bytes jc) (cache_entries s) (evictable s) 0 s"
    by (simp add: lru_prefix_def)
  then show ?thesis using True by (auto simp: sweep_cache_def entry_bytes_def)
next
  case False
  have "set (evictable s) \<subseteq> set (cache_entries s)" and "distinct (evictable s)"
    using entry_keys_distinct [OF tidy] by (auto simp: evictable_def distinct_map)
  moreover have "ce_sha e \<notin> set (referenced_wheel_shas s)" if "e \<in> set (evictable s)" for e
    using that by (simp add: evictable_def)
  ultimately have "\<exists>k. lru_prefix (jc_artifact_cache_max_bytes jc) (cache_entries s) (evictable s) k
      (snd (fst (evict_down env (jc_artifact_cache_max_bytes jc) (evictable s) (entry_bytes (cache_entries s)) (w, s))))"
    by (rule evict_down_prefix [OF rest fs tidy])
  then show ?thesis using False cap by (simp add: sweep_cache_def entry_bytes_def Let_def)
qed

text \<open>C23. With the agent at rest, no unlink or lock failing and no lock file left in the cache, a sweep evicts least recently used entries first and
  no more than it must. What is left are entries of before, unchanged, among them every referenced one. Every
  entry evicted is unreferenced and was used no later than any unreferenced one that stays. The cache is
  within its cap afterwards, or no unreferenced entry is left; and with the last one evicted still there it
  would have been over the cap.
\<close>

theorem lru_eviction_outcome:
  assumes rest: "at_rest env" and fs: "obeying env" and tidy: "tidy_cache s"
    and cap: "0 < jc_artifact_cache_max_bytes jc"
    and kept: "kept = cache_entries (snd (sweep_cache jc env (w, s)))"
    and evicted: "evicted = set (cache_entries s) - set kept"
    and referenced: "referenced = (\<lambda>e. ce_sha e \<in> set (referenced_wheel_shas s))"
  shows "set kept \<subseteq> set (cache_entries s) \<and> (\<forall>e \<in> evicted. \<not> referenced e)
    \<and> (\<forall>e \<in> evicted. \<forall>e' \<in> set kept. \<not> referenced e' \<longrightarrow> ce_mtime e \<le> ce_mtime e')
    \<and> (sum_list (map ce_size kept) \<le> jc_artifact_cache_max_bytes jc \<or> (\<forall>e \<in> set kept. referenced e))
    \<and> (evicted \<noteq> {} \<longrightarrow> (\<exists>e \<in> evicted. (\<forall>e' \<in> evicted. ce_mtime e' \<le> ce_mtime e)
         \<and> jc_artifact_cache_max_bytes jc < sum_list (map ce_size kept) + ce_size e))"
proof -
  let ?all = "cache_entries s" and ?order = "evictable s" and ?cap = "jc_artifact_cache_max_bytes jc"
  obtain k where k: "k \<le> length ?order" "kept = filter (\<lambda>e. e \<notin> set (take k ?order)) ?all"
      "entry_bytes kept \<le> ?cap \<or> k = length ?order"
      "\<And>j. j < k \<Longrightarrow> ?cap < entry_bytes (filter (\<lambda>e. e \<notin> set (take j ?order)) ?all)"
    using sweep_evicts_prefix [OF rest fs tidy cap, of w] kept by (auto simp: lru_prefix_def)
  have order: "set ?order = {e \<in> set ?all. \<not> referenced e}" "distinct ?order"
    using entry_keys_distinct [OF tidy] by (auto simp: evictable_def referenced distinct_map)
  have gone: "evicted = set (take k ?order)"
    using order(1) set_take_subset [of k ?order] by (auto simp: evicted k(2))
  have "sorted (map ce_mtime (take k ?order @ drop k ?order))" by (simp add: evictable_def)
  then have lru: "\<forall>x \<in> set (take k ?order). \<forall>y \<in> set (drop k ?order). ce_mtime x \<le> ce_mtime y"
    and sorted: "sorted (map ce_mtime (take k ?order))"
    unfolding map_append sorted_append by simp_all
  have left: "e \<in> set (drop k ?order)" if "e \<in> set kept" "\<not> referenced e" for e
  proof -
    have "e \<in> set ?order" "e \<notin> set (take k ?order)" using that order(1) by (auto simp: k(2))
    then show ?thesis by (metis append_take_drop_id set_append Un_iff)
  qed
  have enough: "sum_list (map ce_size kept) \<le> ?cap \<or> (\<forall>e \<in> set kept. referenced e)"
  proof (cases "k = length ?order")
    case True
    then have "referenced e" if "e \<in> set kept" for e using left [OF that] by auto
    then show ?thesis by blast
  next
    case False
    with k(3) show ?thesis by (simp add: entry_bytes_def)
  qed
  have minimal: "\<exists>e \<in> evicted. (\<forall>e' \<in> evicted. ce_mtime e' \<le> ce_mtime e) \<and> ?cap < sum_list (map ce_size kept) + ce_size e"
    if "evicted \<noteq> {}"
  proof -
    have pos: "0 < k" using that by (cases k) (auto simp: gone)
    define e where "e = ?order ! (k - 1)"
    have take: "take k ?order = take (k - 1) ?order @ [e]"
      using pos k(1) take_Suc_conv_app_nth [of "k - 1" ?order] by (simp add: e_def)
    have e: "e \<in> evicted" by (simp add: gone take)
    let ?es = "filter (\<lambda>x. x \<notin> set (take (k - 1) ?order)) ?all"
    have "distinct (take k ?order)" using order(2) by simp
    then have new: "e \<notin> set (take (k - 1) ?order)" by (simp add: take)
    then have mem: "e \<in> set ?es" using e by (auto simp: evicted)
    have keys: "distinct (map entry_key ?es)"
      using entry_keys_distinct [OF tidy] by (simp add: distinct_map_filter)
    have "filter (\<lambda>x. entry_key x \<noteq> entry_key e) ?es = filter (\<lambda>x. x \<noteq> e) ?es"
      using keys mem by (intro filter_cong refl) (auto simp: distinct_map inj_on_def)
    also have "\<dots> = kept" unfolding k(2) take filter_filter by (intro filter_cong refl) auto
    finally have "entry_bytes kept = entry_bytes ?es - ce_size e" using entry_bytes_drop [OF keys mem] by simp
    moreover have "?cap < entry_bytes ?es" using k(4) [of "k - 1"] pos by simp
    moreover have "\<forall>e' \<in> evicted. ce_mtime e' \<le> ce_mtime e"
      using sorted unfolding gone take by (auto simp: sorted_append)
    ultimately show ?thesis using e by (intro bexI [of _ e]) (simp_all add: entry_bytes_def)
  qed
  show ?thesis using gone order(1) lru left enough minimal set_take_subset [of k ?order] by (auto simp: k(2))
qed

section \<open>The disk sample\<close>

definition walk_readable :: "walk \<Rightarrow> bool" where
  "walk_readable ds = (Refused \<notin> set ds \<and> (\<forall>fs. Found fs \<in> set ds \<longrightarrow> Refused \<notin> set fs))"

definition walk_sum :: "walk \<Rightarrow> int" where
  "walk_sum ds = (\<Sum>d\<leftarrow>ds. case d of Found fs \<Rightarrow> (\<Sum>f\<leftarrow>fs. case f of Found n \<Rightarrow> n | _ \<Rightarrow> 0) | _ \<Rightarrow> 0)"

lemma files_bytes_sum:
  "files_bytes fs = (if Refused \<in> set fs then None else Some (\<Sum>f\<leftarrow>fs. case f of Found n \<Rightarrow> n | _ \<Rightarrow> 0))"
  by (induction fs rule: files_bytes.induct) auto

lemma walk_bytes_cases:
  "walk_bytes acc ds = (let seen = takeWhile (\<lambda>d. d \<noteq> Absent) ds
     in if \<not> walk_readable seen then None else if Absent \<in> set ds then Some 0 else Some (acc + walk_sum seen))"
  by (induction acc ds rule: walk_bytes.induct)
    (auto simp: walk_readable_def walk_sum_def files_bytes_sum Let_def)

text \<open>The size of a tree in the sample is missing exactly when something in it could not be read,
  and otherwise the sum over its files, but for one case: a directory that vanishes during the walk,
  however many bytes were counted before it and whatever follows it, makes the sample say zero.
\<close>

theorem vanished_directory_reads_as_zero:
  "dir_bytes so root = (let walk = so_walk so root; seen = takeWhile (\<lambda>d. d \<noteq> Absent) walk
     in if \<not> walk_readable seen then None
        else if Absent \<in> set walk then Some 0 else Some (walk_sum walk))"
proof (cases "Absent \<in> set (so_walk so root)")
  case True
  then show ?thesis by (simp add: dir_bytes_def walk_bytes_cases Let_def)
next
  case False
  then have same: "takeWhile (\<lambda>d. d \<noteq> Absent) (so_walk so root) = so_walk so root"
    unfolding takeWhile_eq_all_conv by blast
  show ?thesis unfolding dir_bytes_def walk_bytes_cases Let_def same using False by simp
qed

section \<open>A whole sweep\<close>

lemma eviction_spares:
  "holdings e (take_entry_lock now kind sha s) = holdings e s"
  "holdings e (drop_entry_lock env w kind sha s) = holdings e s"
  "holdings e (fst (evict env w kind sha s)) = holdings e s"
  by (cases kind; simp add: holdings_def split: prod.splits)+

lemma cut_spares: "cand \<noteq> Wheel_candidate e \<Longrightarrow> holdings e (put_candidate_log b cand s) = holdings e s"
  by (cases cand; cases "si_workspaces s")
    (auto simp: holdings_def or_default_def map_of_map_entry)

lemma truncate_log_spares:
  "cand \<noteq> Wheel_candidate e \<Longrightarrow> holdings e (fst (truncate_log env w cap cand s)) = holdings e s"
  by (auto simp: truncate_log_def cut_spares split: option.splits)

lemma active_never_allowed:
  "candidate_id cand = Some e \<Longrightarrow> e \<in> set (si_active s) \<Longrightarrow>
    truncation_allowed jc env now cand s wl = (wl, Some False)"
  by (simp add: truncation_allowed_def)

text \<open>C21. A whole sweep (workspaces, caches, logs) leaves an active execution alone: any condition on its
  workspace with the log in it, its state file and its cursor that implies that it is active and
  that the rest of the agent keeps while the janitor waits, holds when the sweep is through.
\<close>

theorem active_execution_untouched:
  assumes active: "\<And>w s. Q (holdings e s) \<Longrightarrow> e \<in> set (si_active s)"
    and agent: "\<And>w s. Q (holdings e s) \<Longrightarrow> Q (holdings e (snd (jo_await env w s)))"
    and holds: "Q (holdings e s)"
  shows "Q (holdings e (snd (fst (janitor_sweep jc env sample now (w, s)))))"
proof -
  have workspaces: "Q (holdings e (snd (sweep_workspaces jc env now (w, s))))"
    by (rule janitor_spares_guarded [of "\<lambda>w. Q"])
      (use active agent holds in \<open>auto simp: is_removable_def\<close>)
  have evicted: "Q (holdings e (snd (fst (evict_locked env entry ws))))" if "Q (holdings e (snd ws))" for entry ws
  proof -
    obtain w1 s1 where awaited: "jo_await env (fst ws) (snd ws) = (w1, s1)" by fastforce
    have q: "Q (holdings e s1)" using agent [OF that, of "fst ws"] awaited by simp
    have "holdings e (snd (fst (evict_locked env entry ws))) = holdings e s1"
      by (simp add: evict_locked_def awaited Let_def case_prod_beta eviction_spares)
    with q show ?thesis by simp
  qed
  have "Q (holdings e (snd (fst (evict_down env cap es n ws))))" if "Q (holdings e (snd ws))" for cap es n ws
    using that
  proof (induction es arbitrary: n ws)
    case (Cons entry es)
    obtain ws' b where step: "evict_locked env entry ws = (ws', b)" by fastforce
    with evicted [OF Cons.prems, of entry] have "Q (holdings e (snd ws'))" by simp
    then show ?case using Cons step by (simp add: Cons.IH)
  qed simp
  then have caches: "Q (holdings e (snd (sweep_cache jc env ws)))" if "Q (holdings e (snd ws))" for ws
    using that by (simp add: sweep_cache_def Let_def)
  have cut: "Q (holdings e (snd (snd (fst (commit_truncation jc env now cap cand (w, listed, s))))))"
    if q: "Q (holdings e s)" for cap cand w listed s
  proof (cases "cand = Wheel_candidate e")
    case True
    then have "truncation_allowed jc env now cand s (w, listed) = ((w, listed), Some False)"
      using active [OF q] by (simp add: active_never_allowed)
    then show ?thesis using q by (simp add: commit_truncation_def)
  next
    case False
    obtain w1 listed1 r1 where first: "truncation_allowed jc env now cand s (w, listed) = ((w1, listed1), r1)"
      by (metis surj_pair)
    obtain w2 s2 where awaited: "jo_await env w1 s = (w2, s2)" by fastforce
    obtain w3 listed3 r3 where second: "truncation_allowed jc env now cand s2 (w2, listed1) = ((w3, listed3), r3)"
      by (metis surj_pair)
    have "Q (holdings e s2)" using agent [OF q, of w1] awaited by simp
    then show ?thesis
      using q truncate_log_spares [OF False, of env w3 cap s2]
      by (auto simp: commit_truncation_def first awaited second split: prod.splits option.splits bool.splits)
  qed
  have cuts: "Q (holdings e (snd (snd (fst (commit_truncations jc env now cap cands ls)))))"
    if "Q (holdings e (snd (snd ls)))" for cap cands ls
    using that
  proof (induction cands arbitrary: ls)
    case (Cons cand cands)
    obtain w1 listed1 s1 where ls: "ls = (w1, listed1, s1)" by (metis surj_pair)
    obtain ls' ok where step: "commit_truncation jc env now cap cand ls = (ls', ok)" by fastforce
    have "Q (holdings e (snd (snd ls')))" using cut [of s1 cap cand w1 listed1] Cons.prems step ls by simp
    then show ?case using Cons.IH step by (simp split: bool.split)
  qed simp
  have logs: "Q (holdings e (snd (fst (sweep_oversized_logs jc env now ws))))" if "Q (holdings e (snd ws))" for ws
  proof -
    obtain w1 s1 where awaited: "jo_await env (fst ws) (snd ws) = (w1, s1)" by fastforce
    then have "Q (holdings e s1)" using agent [OF that, of "fst ws"] by simp
    then show ?thesis
      using cuts [of "(w1, [], s1)" "jc_max_job_log_bytes jc" "scan_oversized_logs jc (jc_max_job_log_bytes jc) (snd ws)"] that awaited
      by (auto simp: sweep_oversized_logs_def Let_def split: prod.splits)
  qed
  show ?thesis using logs caches workspaces by (simp add: janitor_sweep_def Let_def)
qed

section \<open>Witnesses\<close>

definition calm_os :: "unit janitor_os" where
  "calm_os = \<lparr>jo_await = (\<lambda>w s. (w, s)), jo_probe = (\<lambda>w g. No_such_process), jo_listjobs = None,
     jo_rmtree = (\<lambda>w t. None), jo_unlink = (\<lambda>w n. True), jo_lockable = (\<lambda>w e. True), jo_clock = (\<lambda>w. 0)\<rparr>"

definition janitor_sample :: janitor_config where
  "janitor_sample = \<lparr>jc_cwd = ''/'', jc_workdir = ''/w'', jc_completed_log_ttl_days = 3,
     jc_orphan_log_ttl_days = 7, jc_max_job_log_bytes = 2, jc_janitor_quiet_seconds = 3600,
     jc_janitor_interval_seconds = 600, jc_artifact_cache_max_bytes = 3,
     jc_event_outbox_dir = [], jc_event_outbox_max_files = 0\<rparr>"

definition text_file :: "instant \<Rightarrow> string \<Rightarrow> bool \<Rightarrow> blob option" where
  "text_file m c writable = Some \<lparr>bl_mtime = m, bl_bytes = c, bl_readable = True, bl_writable = writable\<rparr>"

definition sample_site :: "bool \<Rightarrow> site" where
  \<comment> \<open>two finished executions, one of them active, with a log over the cap; three cached eggs\<close>
  "sample_site writable =
     \<lparr>si_workspaces = Some [(''e1'', \<lparr>tr_mtime = Some 0, tr_files = [(''job.log'', text_file 0 ''abc'' writable)]\<rparr>),
         (''e2'', \<lparr>tr_mtime = Some 0, tr_files = []\<rparr>)],
       si_scrapyd_logs = None,
       si_states = [(''e1'', Some ((new_attempt ''t'' ''e1'' 0)\<lparr>as_phase := Phase_done\<rparr>)),
         (''e2'', Some ((new_attempt ''t'' ''e2'' 0)\<lparr>as_phase := Phase_done\<rparr>))],
       si_cursors = [''e1'', ''e2''],
       si_eggs = Some [(''x.egg'', text_file 5 ''abc'' True), (''y.egg'', text_file 1 ''ab'' True)],
       si_wheels = None, si_active = [''e2''], si_running = [], si_released = []\<rparr>"

lemma calm [simp]: "at_rest calm_os" "obeying calm_os"
  by (simp_all add: at_rest_def obeying_def calm_os_def)

lemma active_execution_untouched_witness:
  "holdings ''e2'' (snd (fst (janitor_sweep janitor_sample calm_os (\<lambda>w.
      \<lparr>so_walk = (\<lambda>p. []), so_scandir = (\<lambda>p. Absent), so_disk_usage = (\<lambda>p. None), so_utcnow = 0\<rparr>)
      (secs 1000000) ((), sample_site True))))
    = holdings ''e2'' (sample_site True)"
  by (rule active_execution_untouched [of "\<lambda>h. h = holdings ''e2'' (sample_site True)" "''e2''"])
    (simp_all add: calm_os_def, simp add: holdings_def sample_site_def)

lemma workspaces_swept_exactly_witness:
  "si_released (snd (sweep_workspaces janitor_sample calm_os (secs 1000000) ((), sample_site True))) = [''e1'']"
proof -
  have "distinct (map fst (or_default (si_workspaces (sample_site True)) []))"
    by (simp add: sample_site_def or_default_def)
  moreover have "expired_workspaces janitor_sample calm_os (secs 1000000) () (sample_site True) = [''e1'']"
    by code_simp
  moreover have "si_released (sample_site True) = []" by (simp add: sample_site_def)
  ultimately show ?thesis
    using workspaces_swept_exactly [OF calm, of "sample_site True" janitor_sample "secs 1000000" "()"] by simp
qed

lemma unwritable_log_ends_sweep_witness:
  "sweep_oversized_logs janitor_sample calm_os 0 ((), sample_site False) = (((), sample_site False), False)"
  by (rule unwritable_log_ends_sweep [OF calm(1), where cand = "Wheel_candidate ''e1''" and cands = "[]" and e = "''e1''"
        and st = "(new_attempt ''t'' ''e1'' 0)\<lparr>as_phase := Phase_done\<rparr>"
        and b = "\<lparr>bl_mtime = 0, bl_bytes = ''abc'', bl_readable = True, bl_writable = False\<rparr>"]) code_simp+

lemma lru_eviction_outcome_witness:
  "\<exists>e. e \<in> set (cache_entries (sample_site True))
     \<and> e \<notin> set (cache_entries (snd (sweep_cache janitor_sample calm_os ((), sample_site True))))
     \<and> (\<forall>e' \<in> set (cache_entries (snd (sweep_cache janitor_sample calm_os ((), sample_site True)))).
          ce_mtime e \<le> ce_mtime e')"
proof -
  let ?kept = "cache_entries (snd (sweep_cache janitor_sample calm_os ((), sample_site True)))"
  have t: "tidy_cache (sample_site True)" by code_simp
  have c: "0 < jc_artifact_cache_max_bytes janitor_sample" by (simp add: janitor_sample_def)
  have none: "referenced_wheel_shas (sample_site True) = []" by code_simp
  have "length ?kept < length (cache_entries (sample_site True))" "distinct (cache_entries (sample_site True))" "distinct ?kept"
    by code_simp+
  then have "\<not> set (cache_entries (sample_site True)) \<subseteq> set ?kept"
    by (metis card_mono distinct_card finite_set linorder_not_le)
  then obtain e where "e \<in> set (cache_entries (sample_site True)) - set ?kept" by auto
  with lru_eviction_outcome [OF calm t c refl refl refl, of "()"] none show ?thesis by auto
qed

lemma cut_only_stopped_logs_witness:
  "\<exists>b. candidate_log (sample_site True) (Wheel_candidate ''e1'') = Some b
     \<and> snd (snd (fst (commit_truncation janitor_sample calm_os 0 2 (Wheel_candidate ''e1'') ((), [], sample_site True))))
       = put_candidate_log (b\<lparr>bl_bytes := ''ab'' @ flood_marker 2, bl_mtime := 0\<rparr>) (Wheel_candidate ''e1'') (sample_site True)"
proof -
  let ?s = "sample_site True" and ?c = "Wheel_candidate ''e1''"
  let ?r = "commit_truncation janitor_sample calm_os 0 2 ?c ((), [], ?s)"
  obtain w' listed' s' ok where r: "?r = ((w', listed', s'), ok)" by (metis surj_pair)
  have m: "int (length (flood_marker 2)) \<le> MAX_MARKER_LEN" by code_simp
  have before: "commit_truncations janitor_sample calm_os 0 2 [] ((), [], ?s) = (((), [], ?s), True)" by simp
  have p: "0 < (2 :: int)" by simp
  have "s' = ?s \<or> (\<exists>w1 s1. s1 = snd (jo_await calm_os w1 ?s) \<and> (s' = s1
    \<or> (\<exists>b. provably_stopped janitor_sample calm_os 0 () w' ?c s1
        \<and> candidate_log s1 ?c = Some b \<and> 2 < blob_size b
        \<and> s' = put_candidate_log (b\<lparr>bl_bytes := take (nat 2) (bl_bytes b) @ flood_marker 2,
              bl_mtime := jo_clock calm_os w'\<rparr>) ?c s1
        \<and> already_capped (take (nat 2) (bl_bytes b) @ flood_marker 2) 2)))"
    by (rule cut_only_stopped_logs [OF before r p m])
  moreover have "map_option bl_bytes (candidate_log (snd (snd (fst ?r))) ?c) \<noteq> map_option bl_bytes (candidate_log ?s ?c)"
    by code_simp
  moreover have "map_option bl_bytes (candidate_log ?s ?c) = Some ''abc''" by code_simp
  ultimately show ?thesis using r by (auto simp: calm_os_def)
qed

end
