(* ===== verification/CacheLocks.thy ===== *)
theory CacheLocks
  imports JanitorProofs
begin

text \<open>
  The race for one cache entry between the caches' \<open>ensure\<close> (\<^verbatim>\<open>artifacts/cache.py\<close>,
  \<^verbatim>\<open>artifacts/wheel_cache.py\<close>) and the janitor's \<open>_evict_locked\<close> (\<^verbatim>\<open>janitor.py\<close>), which runs in a
  thread of its own. Both create the same lock file with \<open>O_CREAT | O_EXCL\<close> and unlink it when they
  are through.

  \<^item> The state is the set of paths below the cache directory and the place each party is at. Every
    system call is one step; several fetchers run \<open>ensure\<close> for the same hash.
  \<^item> An egg's lock lies beside its body, a wheel's inside the directory the eviction removes.
\<close>

section \<open>Paths\<close>

fun lock_path :: "cache_kind \<Rightarrow> string \<Rightarrow> string" where
  "lock_path Egg_cache sha = egg_lock sha"
| "lock_path Wheel_cache sha = sha @ ''/.lock''"

fun ready_path :: "cache_kind \<Rightarrow> string \<Rightarrow> string" where
  "ready_path Egg_cache sha = egg_ready sha"
| "ready_path Wheel_cache sha = sha @ ''/.ready''"

fun evicted_path :: "cache_kind \<Rightarrow> string \<Rightarrow> string \<Rightarrow> bool" where
  \<comment> \<open>the paths \<open>_evict\<close> removes: the egg and its marker, or the tree of the wheel\<close>
  "evicted_path Egg_cache sha p = (p = egg_file sha \<or> p = egg_ready sha)"
| "evicted_path Wheel_cache sha p = (take (Suc (length sha)) p = sha @ ''/'')"

section \<open>Steps\<close>

datatype janitor_place = Sweeping | Evicting | Evicted
datatype fetcher_place = Away | Missing | Working | Installed \<comment> \<open>\<open>Missing\<close>: saw no marker\<close>

record race =
  ra_files :: "string set"
  ra_janitor :: janitor_place
  ra_fetchers :: "nat \<Rightarrow> fetcher_place"

inductive race_step :: "cache_kind \<Rightarrow> string \<Rightarrow> race \<Rightarrow> race \<Rightarrow> bool" for kind sha where
  fetch_check: "ready_path kind sha \<notin> ra_files r \<Longrightarrow> ra_fetchers r n = Away
    \<Longrightarrow> race_step kind sha r (r\<lparr>ra_fetchers := (ra_fetchers r)(n := Missing)\<rparr>)"
| fetch_retry: "ra_fetchers r n = Missing \<comment> \<open>the lock exists: sleep and look again, or give up\<close>
    \<Longrightarrow> race_step kind sha r (r\<lparr>ra_fetchers := (ra_fetchers r)(n := Away)\<rparr>)"
| fetch_lock: "lock_path kind sha \<notin> ra_files r \<Longrightarrow> ra_fetchers r n = Missing
    \<Longrightarrow> race_step kind sha r (r\<lparr>ra_files := insert (lock_path kind sha) (ra_files r),
          ra_fetchers := (ra_fetchers r)(n := Working)\<rparr>)"
| fetch_body: "ra_fetchers r n = Working \<Longrightarrow> p \<noteq> lock_path kind sha \<Longrightarrow> p \<noteq> ready_path kind sha
    \<Longrightarrow> race_step kind sha r (r\<lparr>ra_files := insert p (ra_files r)\<rparr>)"
| fetch_ready: "ra_fetchers r n = Working
    \<Longrightarrow> race_step kind sha r (r\<lparr>ra_files := insert (ready_path kind sha) (ra_files r),
          ra_fetchers := (ra_fetchers r)(n := Installed)\<rparr>)"
| fetch_unlock: "ra_fetchers r n \<in> {Working, Installed} \<comment> \<open>the \<open>finally\<close>, also after a failure\<close>
    \<Longrightarrow> race_step kind sha r (r\<lparr>ra_files := ra_files r - {lock_path kind sha},
          ra_fetchers := (ra_fetchers r)(n := Away)\<rparr>)"
| evict_lock: "ra_janitor r = Sweeping \<Longrightarrow> lock_path kind sha \<notin> ra_files r
    \<Longrightarrow> race_step kind sha r (r\<lparr>ra_files := insert (lock_path kind sha) (ra_files r), ra_janitor := Evicting\<rparr>)"
| evict_paths: "ra_janitor r = Evicting
    \<Longrightarrow> race_step kind sha r (r\<lparr>ra_files := {p \<in> ra_files r. \<not> evicted_path kind sha p}, ra_janitor := Evicted\<rparr>)"
| evict_unlock: "ra_janitor r \<noteq> Sweeping \<comment> \<open>also when the entry turned out to be referenced\<close>
    \<Longrightarrow> race_step kind sha r (r\<lparr>ra_files := ra_files r - {lock_path kind sha}, ra_janitor := Sweeping\<rparr>)"

inductive race_reachable :: "cache_kind \<Rightarrow> string \<Rightarrow> race \<Rightarrow> bool" for kind sha where
  start: "ra_janitor r = Sweeping \<Longrightarrow> (\<And>n. ra_fetchers r n = Away) \<Longrightarrow> lock_path kind sha \<notin> ra_files r
    \<Longrightarrow> race_reachable kind sha r"
| run: "race_reachable kind sha r \<Longrightarrow> race_step kind sha r r' \<Longrightarrow> race_reachable kind sha r'"

datatype party = The_janitor | Fetcher nat

fun in_section :: "race \<Rightarrow> party \<Rightarrow> bool" where
  \<comment> \<open>between the creation of the lock file and its unlink\<close>
  "in_section r The_janitor = (ra_janitor r \<noteq> Sweeping)"
| "in_section r (Fetcher n) = (ra_fetchers r n \<in> {Working, Installed})"

section \<open>The lock of an egg\<close>

lemma egg_lock_stays: "\<not> evicted_path Egg_cache sha (lock_path Egg_cache sha)"
  by (simp add: egg_lock_def egg_file_def egg_ready_def)

lemma ready_not_lock [simp]: "ready_path kind sha \<noteq> lock_path kind sha" "lock_path kind sha \<noteq> ready_path kind sha"
  by (cases kind; simp add: egg_lock_def egg_ready_def)+

definition lock_is_held :: "string \<Rightarrow> race \<Rightarrow> bool" where
  \<comment> \<open>the file is there exactly while one party is between its two calls\<close>
  "lock_is_held sha r \<longleftrightarrow>
     (lock_path Egg_cache sha \<in> ra_files r \<longleftrightarrow> (\<exists>p. in_section r p))
     \<and> (\<forall>p q. in_section r p \<longrightarrow> in_section r q \<longrightarrow> p = q)"

lemma lock_is_held_step:
  assumes "race_step Egg_cache sha r r'" and held: "lock_is_held sha r"
  shows "lock_is_held sha r'"
proof -
  let ?lock = "lock_path Egg_cache sha"
  have unique: "p = q" if "in_section r p" "in_section r q" for p q
    using held that by (simp add: lock_is_held_def)
  have enter: "lock_is_held sha r'"
    if "?lock \<notin> ra_files r" "?lock \<in> ra_files r'" "\<And>q. in_section r' q \<longleftrightarrow> q = p \<or> in_section r q" for p
  proof -
    have "\<not> in_section r q" for q using held that(1) by (auto simp: lock_is_held_def)
    then have "in_section r' q \<longleftrightarrow> q = p" for q using that(3) by blast
    then show ?thesis using that(2) by (simp add: lock_is_held_def)
  qed
  have leave: "lock_is_held sha r'"
    if "in_section r p" "?lock \<notin> ra_files r'" "\<And>q. in_section r' q \<longleftrightarrow> q \<noteq> p \<and> in_section r q" for p
  proof -
    have "\<not> in_section r' q" for q using unique that(1,3) by blast
    then show ?thesis using that(2) by (simp add: lock_is_held_def)
  qed
  have stay: "lock_is_held sha r'"
    if "?lock \<in> ra_files r' \<longleftrightarrow> ?lock \<in> ra_files r" "\<And>q. in_section r' q \<longleftrightarrow> in_section r q"
    using held that by (simp add: lock_is_held_def)
  from assms(1) show ?thesis
  proof cases
    case (fetch_check n)
    then have "in_section r' q \<longleftrightarrow> in_section r q" for q by (cases q) auto
    with fetch_check show ?thesis by (intro stay) simp_all
  next
    case (fetch_retry n)
    then have "in_section r' q \<longleftrightarrow> in_section r q" for q by (cases q) auto
    with fetch_retry show ?thesis by (intro stay) simp_all
  next
    case (fetch_lock n)
    then show ?thesis by (intro enter [of "Fetcher n"]) (auto elim: in_section.elims split: if_splits)
  next
    case (fetch_body n p)
    then show ?thesis by (intro stay) (auto elim: in_section.elims)
  next
    case (fetch_ready n)
    then show ?thesis by (intro stay) (auto simp: egg_lock_def egg_ready_def elim: in_section.elims split: if_splits)
  next
    case (fetch_unlock n)
    then show ?thesis by (intro leave [of "Fetcher n"]) (auto elim: in_section.elims split: if_splits)
  next
    case evict_lock
    then show ?thesis by (intro enter [of The_janitor]) (auto elim: in_section.elims)
  next
    case evict_paths
    then show ?thesis using egg_lock_stays by (intro stay) (auto elim: in_section.elims)
  next
    case evict_unlock
    then show ?thesis by (intro leave [of The_janitor]) (auto elim: in_section.elims)
  qed
qed

lemma lock_is_held_reachable: "race_reachable Egg_cache sha r \<Longrightarrow> lock_is_held sha r"
proof (induction rule: race_reachable.induct)
  case (start r)
  then have "\<not> in_section r p" for p by (cases p) simp_all
  with start(3) show ?case by (simp add: lock_is_held_def)
qed (rule lock_is_held_step)

text \<open>C24. For an egg the lock works: in every reachable state of the race at most one party, a fetcher or
  the janitor, is between the creation of the lock file and its removal.
\<close>

theorem egg_lock_excludes:
  assumes "race_reachable Egg_cache sha r" and "in_section r p" and "in_section r q"
  shows "p = q"
  using lock_is_held_reachable [OF assms(1)] assms(2,3) by (simp add: lock_is_held_def)

section \<open>The lock of a wheel\<close>

text \<open>On the directories of the site: what the eviction does to the lock it holds.\<close>

lemma evict_and_lock:
  assumes "obeying env" and "si_eggs s \<noteq> None"
  shows "entry_lock_held kind sha (fst (evict env w kind sha (take_entry_lock now kind sha s))) \<longleftrightarrow> kind = Egg_cache"
proof (cases kind)
  case Egg_cache
  obtain fs where "si_eggs s = Some fs" using assms(2) by blast
  moreover have "\<exists>b. (egg_lock sha, b) \<in> set (AList.update (egg_lock sha) v fs)" for v
  proof -
    have "egg_lock sha \<in> fst ` set (AList.update (egg_lock sha) v fs)" by (simp add: dom_update)
    then show ?thesis by force
  qed
  ultimately show ?thesis using Egg_cache assms(1)
    by (auto simp: unlink_in_obeying or_default_def image_def)
next
  case Wheel_cache
  then show ?thesis using assms(1)
    by (cases "si_wheels s") (simp_all add: rmtree_obeying or_default_def delete_conv')
qed

definition race_start :: "string \<Rightarrow> race" where
  \<comment> \<open>a wheel installed before, nobody at work\<close>
  "race_start sha = \<lparr>ra_files = {ready_path Wheel_cache sha}, ra_janitor = Sweeping, ra_fetchers = (\<lambda>n. Away)\<rparr>"

text \<open>C25. For a wheel it does not: the eviction removes its own lock file with the directory, a fetcher
  can take the lock before the janitor is through, the janitor then unlinks the fetcher's lock, and
  a second fetcher installs into the same directory at the same time.
\<close>

theorem wheel_lock_is_shared:
  "\<exists>r. (race_step Wheel_cache sha)\<^sup>*\<^sup>* (race_start sha) r
     \<and> ra_fetchers r 0 = Working \<and> ra_fetchers r 1 = Working"
proof -
  let ?ready = "ready_path Wheel_cache sha" and ?lock = "lock_path Wheel_cache sha"
  let ?step = "race_step Wheel_cache sha"
  let ?none = "\<lambda>n :: nat. Away"
  define r1 where "r1 = \<lparr>ra_files = {?lock, ?ready}, ra_janitor = Evicting, ra_fetchers = ?none\<rparr>"
  define r2 where "r2 = \<lparr>ra_files = {}, ra_janitor = Evicted, ra_fetchers = ?none\<rparr>"
  define r3 where "r3 = \<lparr>ra_files = {?lock}, ra_janitor = Evicted, ra_fetchers = ?none(0 := Working)\<rparr>"
  define r4 where "r4 = \<lparr>ra_files = {}, ra_janitor = Sweeping, ra_fetchers = ?none(0 := Working)\<rparr>"
  define r5 where "r5 = \<lparr>ra_files = {?lock}, ra_janitor = Sweeping, ra_fetchers = ?none(0 := Working, 1 := Working)\<rparr>"
  have "?step (race_start sha) r1"
    using race_step.evict_lock [of "race_start sha" Wheel_cache sha] by (simp add: race_start_def r1_def)
  moreover have "?step r1 r2"
  proof -
    have "r2 = r1\<lparr>ra_files := {p \<in> ra_files r1. \<not> evicted_path Wheel_cache sha p}, ra_janitor := Evicted\<rparr>"
      by (auto simp: r1_def r2_def)
    moreover have "ra_janitor r1 = Evicting" by (simp add: r1_def)
    ultimately show ?thesis by (metis race_step.evict_paths)
  qed
  moreover have "?step r2 (r2\<lparr>ra_fetchers := ?none(0 := Missing)\<rparr>)"
    using race_step.fetch_check [of Wheel_cache sha r2 0] by (simp add: r2_def)
  moreover have "?step (r2\<lparr>ra_fetchers := ?none(0 := Missing)\<rparr>) r3"
    using race_step.fetch_lock [of Wheel_cache sha "r2\<lparr>ra_fetchers := ?none(0 := Missing)\<rparr>" 0] by (simp add: r2_def r3_def)
  moreover have "?step r3 r4"
    using race_step.evict_unlock [of r3 Wheel_cache sha] by (simp add: r3_def r4_def)
  moreover have "?step r4 (r4\<lparr>ra_fetchers := ?none(0 := Working, 1 := Missing)\<rparr>)"
    using race_step.fetch_check [of Wheel_cache sha r4 1] by (simp add: r4_def)
  moreover have "?step (r4\<lparr>ra_fetchers := ?none(0 := Working, 1 := Missing)\<rparr>) r5"
    using race_step.fetch_lock [of Wheel_cache sha "r4\<lparr>ra_fetchers := ?none(0 := Working, 1 := Missing)\<rparr>" 1]
    by (simp add: r4_def r5_def)
  ultimately have "?step\<^sup>*\<^sup>* (race_start sha) r5" by (meson rtranclp.rtrancl_into_rtrancl rtranclp.rtrancl_refl)
  then show ?thesis by (auto simp: r5_def)
qed

lemma egg_lock_excludes_witness:
  "\<exists>r. race_reachable Egg_cache ''x'' r \<and> in_section r The_janitor \<and> \<not> in_section r (Fetcher 0)"
proof -
  define r0 where "r0 = \<lparr>ra_files = {}, ra_janitor = Sweeping, ra_fetchers = (\<lambda>n :: nat. Away)\<rparr>"
  define r1 where "r1 = r0\<lparr>ra_files := insert (lock_path Egg_cache ''x'') (ra_files r0), ra_janitor := Evicting\<rparr>"
  have "race_reachable Egg_cache ''x'' r0" by (rule race_reachable.start) (simp_all add: r0_def)
  moreover have "race_step Egg_cache ''x'' r0 r1" unfolding r1_def by (rule race_step.evict_lock) (simp_all add: r0_def)
  ultimately have r: "race_reachable Egg_cache ''x'' r1" by (rule race_reachable.run)
  moreover have j: "in_section r1 The_janitor" by (simp add: r1_def)
  moreover have "\<not> in_section r1 (Fetcher 0)"
    using egg_lock_excludes [OF r j] by (metis party.distinct(1))
  ultimately show ?thesis by blast
qed

end
