(* ===== verification/StreamGuard.thy ===== *)
theory StreamGuard
  imports ServerEvents Settings
begin

text \<open>
  The server's side of the Redis streams: the byte budget of the log stream
  (\<^verbatim>\<open>redis/stream_guard.py\<close>) and the consumer of agent events (\<open>EventConsumer\<close> in
  \<^verbatim>\<open>redis/consumers.py\<close>).

  \<^item> Redis is a record of functions over a world \<open>'w\<close>; \<open>None\<close> is a call that raises, which ends the
    pass.
  \<^item> The two float factors of the guard are written as the fractions 4/5 and 1/20; the code's floats
    differ from them by rounding only.
\<close>

section \<open>The stream guard\<close>

record 'w stream_redis =
  sr_memory_usage :: "'w \<Rightarrow> 'w \<times> int option option" \<comment> \<open>\<open>Some None\<close>: no such key\<close>
  sr_xlen :: "'w \<Rightarrow> 'w \<times> nat option"
  sr_xtrim :: "'w \<Rightarrow> nat \<Rightarrow> 'w \<times> nat option" \<comment> \<open>\<open>XTRIM MAXLEN = n\<close>, the entries removed\<close>

record guard_result =
  gr_trimmed :: nat
  gr_iterations :: nat
  gr_cleared :: bool
  gr_final_bytes :: int
  gr_initial_bytes :: int
  gr_budget :: int

definition MAX_ROUNDS :: nat where
  "MAX_ROUNDS = 8"

definition TYPE_REDIS_STREAM_OVER_BUDGET :: string where
  "TYPE_REDIS_STREAM_OVER_BUDGET = ''redis_stream_over_budget''"

definition guard_budget :: "settings \<Rightarrow> int" where
  "guard_budget cfg = max 0 (stream_max_bytes_logs (cfg_redis cfg))"

definition measure_stream :: "'w stream_redis \<Rightarrow> 'w \<Rightarrow> 'w \<times> (int \<times> nat) option" where
  "measure_stream env w =
     (case sr_memory_usage env w of (w, None) \<Rightarrow> (w, None)
      | (w, Some usage) \<Rightarrow> (case sr_xlen env w of (w, None) \<Rightarrow> (w, None)
          | (w, Some n) \<Rightarrow> (w, Some (or_default usage 0, n))))"

definition trim_target :: "int \<Rightarrow> int \<Rightarrow> nat \<Rightarrow> nat" where
  \<comment> \<open>\<open>floor(length * (budget / usage) * SHRINK_FACTOR)\<close>, at most \<open>length - 1\<close>\<close>
  "trim_target budget usage n = nat (min ((4 * int n * budget) div (5 * usage)) (int n - 1))"

type_synonym trim_state = "nat \<times> nat \<times> int \<times> nat \<times> bool" \<comment> \<open>trimmed, rounds, usage, length, cleared\<close>

primrec trim_rounds ::
    "'w stream_redis \<Rightarrow> int \<Rightarrow> nat \<Rightarrow> 'w \<Rightarrow> trim_state \<Rightarrow> 'w \<times> trim_state option" where
  \<comment> \<open>the \<open>while\<close> with that many rounds left\<close>
  "trim_rounds env budget 0 w st = (w, Some st)"
| "trim_rounds env budget (Suc left) w st =
     (case st of (trimmed, rounds, usage, n, cleared) \<Rightarrow>
      if \<not> usage > budget then (w, Some st)
      else (case sr_xtrim env w (trim_target budget usage n) of
          (w, None) \<Rightarrow> (w, None)
        | (w, Some removed) \<Rightarrow>
           (case measure_stream env w of (w, None) \<Rightarrow> (w, None)
            | (w, Some (new_usage, new_length)) \<Rightarrow>
               if new_length = 0 then (w, Some (trimmed + removed, Suc rounds, new_usage, 0, True))
               else if new_usage > budget \<and> 20 * (usage - new_usage) < usage
               then (w, Some (trimmed + removed, Suc rounds, new_usage, new_length, True))
               else trim_rounds env budget left w (trimmed + removed, Suc rounds, new_usage, new_length, cleared))))"

definition enforce_once :: "'w stream_redis \<Rightarrow> int \<Rightarrow> 'w \<Rightarrow> 'w \<times> guard_result option" where
  "enforce_once env budget w =
     (let nothing = \<lparr>gr_trimmed = 0, gr_iterations = 0, gr_cleared = False, gr_final_bytes = 0,
            gr_initial_bytes = 0, gr_budget = budget\<rparr>
      in if budget \<le> 0 then (w, Some nothing)
         else (case measure_stream env w of (w, None) \<Rightarrow> (w, None)
           | (w, Some (usage, n)) \<Rightarrow>
              (let result = nothing\<lparr>gr_initial_bytes := usage, gr_final_bytes := usage\<rparr>
               in if usage \<le> budget \<or> n = 0 then (w, Some result)
                  else (case trim_rounds env budget MAX_ROUNDS w (0, 0, usage, n, False) of
                      (w, None) \<Rightarrow> (w, None)
                    | (w, Some (trimmed, rounds, usage, n, cleared)) \<Rightarrow>
                       (let cleared = (if usage > budget \<and> \<not> cleared \<and> n > 0 then True else cleared);
                            finish = (\<lambda>trimmed usage. result\<lparr>gr_trimmed := trimmed, gr_iterations := rounds,
                              gr_cleared := cleared, gr_final_bytes := usage\<rparr>)
                        in if cleared \<and> n > 0
                           then (case sr_xtrim env w 0 of (w, None) \<Rightarrow> (w, None)
                             | (w, Some removed) \<Rightarrow> (case measure_stream env w of (w, None) \<Rightarrow> (w, None)
                                 | (w, Some (usage, n)) \<Rightarrow> (w, Some (finish (trimmed + removed) usage))))
                           else (w, Some (finish trimmed usage)))))))"

definition guard_notify :: "bool \<Rightarrow> string \<Rightarrow> instant \<Rightarrow> guard_result \<Rightarrow> db \<Rightarrow> db" where
  \<comment> \<open>\<open>up\<close>: the session commits; a failure is swallowed\<close>
  "guard_notify up stream now r d =
     (if (gr_trimmed r \<le> 0 \<and> \<not> gr_cleared r) \<or> \<not> up then d
      else (let hour = take 13 (isoformat now);
                (sev, key) = (if gr_cleared r then (SEVERITY_ERROR, ''cleared:'' @ hour)
                  else (SEVERITY_WARNING, ''trim:'' @ hour))
            in fst (notify d now TYPE_REDIS_STREAM_OVER_BUDGET sev
              [(''stream'', JStr stream), (''budget'', JInt (gr_budget r)),
               (''initial_bytes'', JInt (gr_initial_bytes r)), (''final_bytes'', JInt (gr_final_bytes r)),
               (''trimmed'', JInt (int (gr_trimmed r))), (''iterations'', JInt (int (gr_iterations r))),
               (''cleared'', JBool (gr_cleared r))] (Some key))))"

section \<open>The event consumer\<close>

datatype event_entry = Event_entry string "agent_event option" bool bool
  \<comment> \<open>message id, the decoded event, whether the session commits, whether the \<open>XACK\<close> arrives\<close>

definition event_apply_one :: "instant \<Rightarrow> event_entry \<Rightarrow> db \<Rightarrow> db \<times> string list \<times> bool" where
  \<comment> \<open>acknowledged ids, and whether an exception left \<open>_apply_one\<close>\<close>
  "event_apply_one now entry d =
     (case entry of Event_entry msg_id ev commits acks \<Rightarrow>
      (case ev of
         None \<Rightarrow> (d, if acks then [msg_id] else [], \<not> acks)
       | Some event \<Rightarrow>
           if \<not> commits then (d, [], True)
           else (fst (apply_event d event msg_id now), if acks then [msg_id] else [], \<not> acks)))"

primrec event_batch :: "instant \<Rightarrow> event_entry list \<Rightarrow> db \<Rightarrow> db \<times> string list \<times> bool" where
  \<comment> \<open>the \<open>for\<close> over the entries of one reply; an exception ends the whole pass\<close>
  "event_batch now [] d = (d, [], False)"
| "event_batch now (e # es) d =
     (case event_apply_one now e d of
        (d, ids, True) \<Rightarrow> (d, ids, True)
      | (d, ids, False) \<Rightarrow> (case event_batch now es d of (d, ids', raised) \<Rightarrow> (d, ids @ ids', raised)))"

primrec event_claim :: "instant \<Rightarrow> nat \<Rightarrow> (event_entry list \<times> string) list \<Rightarrow> db \<Rightarrow> db \<times> string list \<times> bool" where
  \<comment> \<open>\<open>_claim_pending\<close> over the replies of \<open>XAUTOCLAIM\<close>: entries and the next cursor\<close>
  "event_claim now 0 replies d = (d, [], False)"
| "event_claim now (Suc rounds) replies d =
     (case replies of [] \<Rightarrow> (d, [], True)
      | (claimed, cursor) # replies \<Rightarrow>
         (case event_batch now claimed d of
            (d, ids, True) \<Rightarrow> (d, ids, True)
          | (d, ids, False) \<Rightarrow>
              if claimed = [] \<or> cursor = ''0-0'' \<or> cursor = ''0'' then (d, ids, False)
              else (case event_claim now rounds replies d of (d, ids', raised) \<Rightarrow> (d, ids @ ids', raised))))"

definition event_drain ::
    "instant \<Rightarrow> (event_entry list \<times> string) list \<Rightarrow> event_entry list option \<Rightarrow> db \<Rightarrow> db \<times> string list \<times> bool" where
  \<comment> \<open>\<open>drain_once\<close>: the pending entries, then one read of new ones (\<open>None\<close>: the read raises)\<close>
  "event_drain now replies fresh d =
     (case event_claim now 1000 replies d of
        (d, ids, True) \<Rightarrow> (d, ids, True)
      | (d, ids, False) \<Rightarrow> (case fresh of None \<Rightarrow> (d, ids, True)
          | Some entries \<Rightarrow> (case event_batch now entries d of (d, ids', raised) \<Rightarrow> (d, ids @ ids', raised))))"

section \<open>The guard ends within its budget\<close>

definition quiet_stream :: "'w stream_redis \<Rightarrow> ('w \<Rightarrow> 'e list) \<Rightarrow> ('e list \<Rightarrow> int) \<Rightarrow> bool" where
  \<comment> \<open>Redis as documented, with nobody adding: the calls read the entries and their footprint, and an
    exact trim keeps the newest\<close>
  "quiet_stream env view foot \<longleftrightarrow>
     (\<forall>w. (\<exists>u. sr_memory_usage env w = (w, Some u) \<and> or_default u 0 = foot (view w))
        \<and> sr_xlen env w = (w, Some (length (view w)))
        \<and> (\<forall>n. \<exists>w'. sr_xtrim env w n = (w', Some (length (view w) - n))
             \<and> view w' = drop (length (view w) - n) (view w)))"

lemma quiet_measure:
  "quiet_stream env view foot \<Longrightarrow> measure_stream env w = (w, Some (foot (view w), length (view w)))"
  unfolding quiet_stream_def measure_stream_def by (metis (no_types, lifting) case_prod_conv option.simps(5))

lemma quiet_trim:
  assumes "quiet_stream env view foot"
  obtains w' where "sr_xtrim env w n = (w', Some (length (view w) - n))"
    and "view w' = drop (length (view w) - n) (view w)"
  using assms unfolding quiet_stream_def by blast

definition newest_kept :: "'e list \<Rightarrow> nat \<Rightarrow> 'e list \<Rightarrow> bool" where
  "newest_kept es trimmed left \<longleftrightarrow> trimmed = length es - length left \<and> left = drop trimmed es"

lemma newest_kept_trim:
  assumes "newest_kept es trimmed left"
  shows "newest_kept es (trimmed + (length left - n)) (drop (length left - n) left)"
proof -
  have kept: "trimmed = length es - length left" "left = drop trimmed es"
    using assms unfolding newest_kept_def by blast+
  have "length left \<le> length es" by (subst kept(2)) simp
  then have "trimmed + (length left - n) = length es - length (drop (length left - n) left)"
    unfolding length_drop kept(1) by arith
  moreover have "drop (length left - n) left = drop (trimmed + (length left - n)) es"
    by (subst (2) kept(2)) (simp only: drop_drop add.commute)
  ultimately show ?thesis unfolding newest_kept_def by blast
qed

lemma newest_kept_none: "newest_kept es 0 es"
  by (simp add: newest_kept_def)

lemma trim_rounds_spec:
  assumes quiet: "quiet_stream env view foot"
    and "newest_kept es trimmed (view w)"
  shows "\<exists>w' trimmed' rounds' cleared'.
      trim_rounds env budget left w (trimmed, rounds, foot (view w), length (view w), False)
        = (w', Some (trimmed', rounds', foot (view w'), length (view w'), cleared'))
      \<and> newest_kept es trimmed' (view w')
      \<and> rounds' \<le> rounds + left
      \<and> (view w' = [] \<and> view w \<noteq> [] \<longrightarrow> cleared') \<and> (cleared' \<and> view w' \<noteq> [] \<longrightarrow> budget < foot (view w'))"
  using assms(2-)
proof (induction left arbitrary: w trimmed rounds)
  case 0
  then show ?case by auto
next
  case (Suc left)
  show ?case
  proof (cases "foot (view w) > budget")
    case False
    then show ?thesis using Suc.prems by (intro exI [of _ w]) auto
  next
    case over: True
    let ?n = "trim_target budget (foot (view w)) (length (view w))"
    obtain w1 where trim: "sr_xtrim env w ?n = (w1, Some (length (view w) - ?n))"
      and view1: "view w1 = drop (length (view w) - ?n) (view w)"
      using quiet_trim [OF quiet] by metis
    have kept: "newest_kept es (trimmed + (length (view w) - ?n)) (view w1)"
      unfolding view1 using Suc.prems by (rule newest_kept_trim)
    note measured = quiet_measure [OF quiet, of w1]
    consider (gone) "view w1 = []" | (slow) "view w1 \<noteq> []"
        "foot (view w1) > budget" "20 * (foot (view w) - foot (view w1)) < foot (view w)"
      | (next_round) "view w1 \<noteq> []" "\<not> (foot (view w1) > budget \<and> 20 * (foot (view w) - foot (view w1)) < foot (view w))"
      by blast
    then show ?thesis
    proof cases
      case gone
      then show ?thesis using over trim measured kept
        by (intro exI [of _ w1]) auto
    next
      case slow
      then show ?thesis using over trim measured kept
        by (intro exI [of _ w1]) auto
    next
      case next_round
      have "trim_rounds env budget (Suc left) w (trimmed, rounds, foot (view w), length (view w), False)
          = trim_rounds env budget left w1 (trimmed + (length (view w) - ?n), Suc rounds, foot (view w1), length (view w1), False)"
        using over trim measured next_round by auto
      moreover note Suc.IH [OF kept, of "Suc rounds"]
      ultimately show ?thesis using next_round(1) by auto
    qed
  qed
qed

text \<open>C28. With nobody adding meanwhile, one pass of the guard returns and leaves the log stream within its
  budget or empty, after at most eight rounds. What it leaves are the newest entries, the result
  counts those trimmed and gives the final footprint, and it says cleared exactly when a stream over
  its budget was emptied.
\<close>

theorem guard_restores_budget:
  assumes quiet: "quiet_stream env view foot" and budget: "0 < budget"
  shows "\<exists>w' r. enforce_once env budget w = (w', Some r)
    \<and> (foot (view w') \<le> budget \<or> view w' = [])
    \<and> newest_kept (view w) (gr_trimmed r) (view w')
    \<and> gr_final_bytes r = foot (view w') \<and> gr_iterations r \<le> MAX_ROUNDS
    \<and> (gr_cleared r \<longleftrightarrow> view w' = [] \<and> view w \<noteq> [] \<and> budget < foot (view w))"
proof (cases "foot (view w) \<le> budget \<or> view w = []")
  case True
  then have "enforce_once env budget w = (w, Some \<lparr>gr_trimmed = 0, gr_iterations = 0, gr_cleared = False,
      gr_final_bytes = foot (view w), gr_initial_bytes = foot (view w), gr_budget = budget\<rparr>)"
    using budget quiet_measure [OF quiet, of w] by (auto simp: enforce_once_def Let_def)
  then show ?thesis using True newest_kept_none by auto
next
  case False
  then have start: "view w \<noteq> []" "budget < foot (view w)" by auto
  obtain w1 trimmed rounds cleared where
    rounds: "trim_rounds env budget MAX_ROUNDS w (0, 0, foot (view w), length (view w), False)
        = (w1, Some (trimmed, rounds, foot (view w1), length (view w1), cleared))"
    and kept: "newest_kept (view w) trimmed (view w1)"
    and few: "rounds \<le> MAX_ROUNDS"
    and gone: "view w1 = [] \<longrightarrow> cleared" "cleared \<and> view w1 \<noteq> [] \<longrightarrow> budget < foot (view w1)"
    using trim_rounds_spec [OF quiet newest_kept_none, where w = w and budget = budget and left = MAX_ROUNDS and rounds = 0] start
    unfolding add_0 by blast
  show ?thesis
  proof (cases "view w1 \<noteq> [] \<and> budget < foot (view w1)")
    case True
    obtain w2 where "sr_xtrim env w1 0 = (w2, Some (length (view w1)))" and empty: "view w2 = []"
      using quiet_trim [OF quiet, of w1 0] by auto
    then have "enforce_once env budget w = (w2, Some \<lparr>gr_trimmed = trimmed + length (view w1), gr_iterations = rounds,
        gr_cleared = True, gr_final_bytes = foot (view w2), gr_initial_bytes = foot (view w), gr_budget = budget\<rparr>)"
      using True budget start rounds quiet_measure [OF quiet, of w] quiet_measure [OF quiet, of w2]
      by (auto simp: enforce_once_def Let_def)
    moreover have "newest_kept (view w) (trimmed + length (view w1)) (view w2)"
      using newest_kept_trim [OF kept, of 0] empty by simp
    ultimately show ?thesis using few start empty by auto
  next
    case False
    then have cl: "cleared \<longleftrightarrow> view w1 = []" using gone start(1) by blast
    let ?r = "\<lparr>gr_trimmed = trimmed, gr_iterations = rounds, gr_cleared = cleared,
        gr_final_bytes = foot (view w1), gr_initial_bytes = foot (view w), gr_budget = budget\<rparr>"
    have first: "measure_stream env w = (w, Some (foot (view w), length (view w)))"
      using quiet_measure [OF quiet] .
    have "enforce_once env budget w = (w1, Some ?r)"
    proof (cases "view w1 = []")
      case True
      then have "length (view w1) = 0" cleared using cl by simp_all
      then show ?thesis using budget start by (simp add: enforce_once_def Let_def first rounds)
    next
      case over: False
      then have "\<not> budget < foot (view w1)" "\<not> cleared" using False cl by blast+
      then show ?thesis using budget start by (simp add: enforce_once_def Let_def first rounds)
    qed
    moreover have "foot (view w1) \<le> budget \<or> view w1 = []" using False by linarith
    ultimately show ?thesis using few start kept cl
      by (intro exI [of _ w1] exI [of _ ?r]) simp
  qed
qed

definition list_redis :: "int list stream_redis" where
  \<comment> \<open>a stream as the list of the sizes of its entries\<close>
  "list_redis = \<lparr>sr_memory_usage = (\<lambda>w. (w, Some (Some (sum_list w)))), sr_xlen = (\<lambda>w. (w, Some (length w))),
     sr_xtrim = (\<lambda>w n. (drop (length w - n) w, Some (length w - n)))\<rparr>"

lemma guard_restores_budget_witness:
  "\<exists>w' r. enforce_once list_redis 10 [1, 2, 3, 4, 5] = (w', Some r)
    \<and> (sum_list w' \<le> 10 \<or> w' = [])
    \<and> newest_kept [1, 2, 3, 4, 5] (gr_trimmed r) w'
    \<and> gr_final_bytes r = sum_list w' \<and> gr_iterations r \<le> MAX_ROUNDS
    \<and> (gr_cleared r \<longleftrightarrow> w' = [] \<and> [1, 2, 3, 4, 5] \<noteq> ([] :: int list) \<and> 10 < sum_list [1, 2, 3, 4, 5 :: int])"
proof -
  have "quiet_stream list_redis (\<lambda>w. w) sum_list"
    by (simp add: quiet_stream_def list_redis_def or_default_def)
  from guard_restores_budget [OF this, of 10 "[1, 2, 3, 4, 5]"] show ?thesis by simp
qed

section \<open>Poison entries and redelivery\<close>

fun poison :: "event_entry \<Rightarrow> bool" where
  \<comment> \<open>not decodable; its acknowledgement arrives\<close>
  "poison (Event_entry msg_id ev commits acks) \<longleftrightarrow> ev = None \<and> acks"

fun entry_id :: "event_entry \<Rightarrow> string" where
  "entry_id (Event_entry msg_id ev commits acks) = msg_id"

lemma poison_one: "poison e \<Longrightarrow> event_apply_one now e d = (d, [entry_id e], False)"
  by (cases e) (simp add: event_apply_one_def)

text \<open>C27. An entry that cannot be decoded never holds the events up: the batch leaves the database that
  the batch without such entries leaves and ends the same way, and all it acknowledges beyond that
  batch are such entries.
\<close>

theorem poison_events_are_skipped:
  "\<exists>ids. event_batch now (filter (\<lambda>e. \<not> poison e) es) d
       = (fst (event_batch now es d), ids, snd (snd (event_batch now es d)))
     \<and> set ids \<subseteq> set (fst (snd (event_batch now es d)))
     \<and> set (fst (snd (event_batch now es d))) \<subseteq> set ids \<union> entry_id ` {e \<in> set es. poison e}"
proof (induction es arbitrary: d)
  case (Cons e es)
  obtain d1 ids1 raised1 where one: "event_apply_one now e d = (d1, ids1, raised1)" by (metis surj_pair)
  obtain d2 ids2 raised2 where rest: "event_batch now es d1 = (d2, ids2, raised2)" by (metis surj_pair)
  from Cons [of d1] rest obtain ids where ih:
    "event_batch now (filter (\<lambda>e. \<not> poison e) es) d1 = (d2, ids, raised2)"
    "set ids \<subseteq> set ids2" "set ids2 \<subseteq> set ids \<union> entry_id ` {e \<in> set es. poison e}" by auto
  show ?case
  proof (cases "poison e")
    case True
    then have "d1 = d" "ids1 = [entry_id e]" "\<not> raised1" using one poison_one [of e now d] by auto
    then show ?thesis using True one rest ih by (intro exI [of _ ids]) (auto split: bool.splits)
  next
    case False
    then show ?thesis using one rest ih
      by (cases raised1) (auto intro: exI [of _ ids1] exI [of _ "ids1 @ ids"])
  qed
qed auto

lemma audit_grows:
  "set (db_audit d) \<subseteq> set (db_audit (fst (apply_event d e m now)))"
  by (auto simp: apply_event_def apply_heartbeat_event_def audit_def transition_def Let_def
      split: option.splits prod.splits if_splits)

lemma audit_has_id:
  assumes "ev_type e \<noteq> Ev_heartbeat"
  shows "m \<in> a_redis_msg_id ` set (db_audit (fst (apply_event d e m now)))"
proof -
  obtain s where "event_to_exec (ev_type e) = Some s" using assms by (cases "ev_type e") auto
  then show ?thesis
    by (auto simp: apply_event_def Let_def audit_def list_ex_iff split: option.splits prod.splits)
qed

lemma audited_is_skipped:
  assumes "ev_type e \<noteq> Ev_heartbeat" and "m \<in> a_redis_msg_id ` set (db_audit d)"
  shows "fst (apply_event d e m now) = d"
proof -
  obtain s where "event_to_exec (ev_type e) = Some s" using assms(1) by (cases "ev_type e") auto
  moreover have "list_ex (\<lambda>a. a_redis_msg_id a = m) (db_audit d)" using assms(2) by (auto simp: list_ex_iff)
  ultimately show ?thesis by (simp add: apply_event_def)
qed

fun lifecycle_entry :: "event_entry \<Rightarrow> bool" where
  "lifecycle_entry (Event_entry msg_id ev commits acks) \<longleftrightarrow>
     commits \<and> (case ev of None \<Rightarrow> False | Some event \<Rightarrow> ev_type event \<noteq> Ev_heartbeat)"

fun entry_acked :: "event_entry \<Rightarrow> bool" where
  "entry_acked (Event_entry msg_id ev commits acks) = acks"

primrec taken_ids :: "event_entry list \<Rightarrow> string list" where
  \<comment> \<open>the entries a batch gets to when every session commits: up to the first lost \<open>XACK\<close>\<close>
  "taken_ids [] = []"
| "taken_ids (e # es) = entry_id e # (if entry_acked e then taken_ids es else [])"

lemma lifecycle_one:
  assumes "lifecycle_entry e"
  shows "entry_id e \<in> a_redis_msg_id ` set (db_audit (fst (event_apply_one now e d)))"
    and "set (db_audit d) \<subseteq> set (db_audit (fst (event_apply_one now e d)))"
    and "snd (snd (event_apply_one now e d)) \<longleftrightarrow> \<not> entry_acked e"
proof -
  obtain m ev acks where e: "e = Event_entry m (Some ev) True acks" and t: "ev_type ev \<noteq> Ev_heartbeat"
    using assms by (cases e) (auto split: option.splits)
  show "entry_id e \<in> a_redis_msg_id ` set (db_audit (fst (event_apply_one now e d)))"
    using audit_has_id [OF t] by (simp add: e event_apply_one_def)
  show "set (db_audit d) \<subseteq> set (db_audit (fst (event_apply_one now e d)))"
    using audit_grows by (simp add: e event_apply_one_def)
  show "snd (snd (event_apply_one now e d)) \<longleftrightarrow> \<not> entry_acked e"
    by (simp add: e event_apply_one_def)
qed

lemma batch_audits:
  assumes "\<forall>e \<in> set es. lifecycle_entry e"
  shows "set (db_audit d) \<subseteq> set (db_audit (fst (event_batch now es d)))
    \<and> set (taken_ids es) \<subseteq> a_redis_msg_id ` set (db_audit (fst (event_batch now es d)))"
  using assms
proof (induction es arbitrary: d)
  case (Cons e es)
  obtain d1 ids1 raised1 where one: "event_apply_one now e d = (d1, ids1, raised1)" by (metis surj_pair)
  obtain d2 ids2 raised2 where rest: "event_batch now es d1 = (d2, ids2, raised2)" by (metis surj_pair)
  have e: "lifecycle_entry e" and es: "\<forall>e \<in> set es. lifecycle_entry e" using Cons.prems by auto
  note l = lifecycle_one [OF e, where now = now and d = d, unfolded one fst_conv snd_conv]
  show ?case
  proof (cases "entry_acked e")
    case True
    then have "fst (event_batch now (e # es) d) = d2" using l(3) one rest by simp
    moreover have "set (db_audit d1) \<subseteq> set (db_audit d2)" "set (taken_ids es) \<subseteq> a_redis_msg_id ` set (db_audit d2)"
      using Cons.IH [OF es, of d1] rest by auto
    ultimately show ?thesis using True l(1,2) by auto
  next
    case False
    then have "fst (event_batch now (e # es) d) = d1" using l(3) one by simp
    then show ?thesis using False l(1,2) by simp
  qed
qed simp

lemma audited_batch_is_noop:
  assumes "\<forall>f \<in> set fs. lifecycle_entry f \<and> entry_id f \<in> a_redis_msg_id ` set (db_audit d)"
  shows "fst (event_batch now fs d) = d"
  using assms
proof (induction fs)
  case (Cons f fs)
  obtain m ev acks where f: "f = Event_entry m (Some ev) True acks" and t: "ev_type ev \<noteq> Ev_heartbeat"
    using Cons.prems by (cases f) (auto split: option.splits)
  have "fst (apply_event d ev m now) = d" using audited_is_skipped [OF t] Cons.prems f by simp
  then have "fst (event_apply_one now f d) = d" by (simp add: f event_apply_one_def)
  then show ?case using Cons by (auto split: prod.splits bool.splits)
qed simp

text \<open>C26. Exactly once: a batch of lifecycle events is interrupted anywhere by a lost acknowledgement,
  and Redis hands any of the entries it got to over again, in any order and however often; the
  database stays as the interrupted batch left it.
\<close>

theorem redelivered_batch_is_noop:
  assumes "\<forall>e \<in> set es. lifecycle_entry e"
    and "\<forall>f \<in> set again. lifecycle_entry f \<and> entry_id f \<in> set (taken_ids es)"
  shows "fst (event_batch now' again (fst (event_batch now es d))) = fst (event_batch now es d)"
  using audited_batch_is_noop batch_audits [OF assms(1)] assms(2) by blast

lemma redelivered_batch_is_noop_witness:
  "fst (event_batch 6 [Event_entry ''1-0'' (Some (sample_event Ev_running)) True True]
      (fst (event_batch 5 [Event_entry ''1-0'' (Some (sample_event Ev_running)) True False] (event_db EXEC_PENDING))))
    = fst (event_batch 5 [Event_entry ''1-0'' (Some (sample_event Ev_running)) True False] (event_db EXEC_PENDING))"
  by (rule redelivered_batch_is_noop) simp_all

end
