(* ===== verification/ResourceStats.thy ===== *)
theory ResourceStats
  imports JanitorProofs Nodes
begin

text \<open>
  The resource sampler behind the maintenance dashboard (\<^verbatim>\<open>server/resource_stats.py\<close>), and the agent
  disk samples that reach it through the heartbeats.

  \<^item> A scope that raises is \<open>None\<close>; \<open>_safe\<close> turns it into an unavailable one. The three server scopes
    are guarded by it, the agent scopes are not.
  \<^item> Database, Redis and file system failures are fields of a \<open>stats_os\<close>, and so is
    \<open>datetime.fromisoformat\<close> on text. JSON numbers are integers here: a sample written by an agent
    has no others.
\<close>

section \<open>Entries and levels\<close>

datatype stat_kind = Kind_bytes | Kind_count | Kind_age
datatype verdict = Level_ok | Level_warn | Level_critical | Level_unknown
datatype scope_status = Scope_ok | Scope_stale | Scope_unavailable

record stat_item =
  se_key :: string
  se_kind :: stat_kind
  se_value :: "int option"
  se_limit :: "int option"
  se_level :: verdict

record stat_scope =
  sp_scope :: string
  sp_status :: scope_status
  sp_sampled_at :: "instant option"
  sp_last_seen_at :: "instant option"
  sp_entries :: "stat_item list"

record snapshot =
  sn_sampled_at :: instant
  sn_sweep_enabled :: bool
  sn_scopes :: "stat_scope list"

definition num :: "json \<Rightarrow> int option" where
  "num v = (case v of JInt n \<Rightarrow> if n \<ge> 0 then Some n else None | _ \<Rightarrow> None)"

definition positive :: "int option \<Rightarrow> int option" where
  \<comment> \<open>\<open>_limit\<close> on a number\<close>
  "positive v = (case v of Some n \<Rightarrow> if n > 0 then Some n else None | None \<Rightarrow> None)"

definition limit_of_json :: "json \<Rightarrow> int option" where
  "limit_of_json v = positive (num v)"

definition age_seconds :: "instant option \<Rightarrow> instant \<Rightarrow> int option" where
  "age_seconds t now = map_option (\<lambda>t. max 0 ((now - t) div secs 1)) t"

definition division_overflows :: "int \<Rightarrow> int \<Rightarrow> bool" where
  \<comment> \<open>\<open>OverflowError\<close> of \<open>int / int\<close>: the quotient rounds beyond the largest float\<close>
  "division_overflows a b = (a \<ge> (2 ^ 1024 - 2 ^ 970) * b)"

definition stat_level :: "stat_kind \<Rightarrow> int option \<Rightarrow> int option \<Rightarrow> int \<Rightarrow> verdict option" where
  \<comment> \<open>\<open>_level\<close>; the ratios 0.90 and 0.70 as fractions, \<open>None\<close> where the division raises\<close>
  "stat_level kind val limit grace =
     (case val of None \<Rightarrow> Some Level_unknown
      | Some v \<Rightarrow> (case limit of None \<Rightarrow> Some Level_ok
        | Some l \<Rightarrow>
            if kind = Kind_age then
              (if v > max (2 * l) (l + grace) then Some Level_critical
               else if v > l + grace then Some Level_warn else Some Level_ok)
            else if l \<le> 0 then Some Level_ok
            else if division_overflows v l then None
            else if 10 * v \<ge> 9 * l then Some Level_critical
            else if 10 * v \<ge> 7 * l then Some Level_warn
            else Some Level_ok))"

definition stat_entry :: "string \<Rightarrow> stat_kind \<Rightarrow> int option \<Rightarrow> int option \<Rightarrow> int \<Rightarrow> stat_item option" where
  "stat_entry key kind val limit grace =
     map_option (\<lambda>lv. \<lparr>se_key = key, se_kind = kind, se_value = val, se_limit = limit, se_level = lv\<rparr>)
       (stat_level kind val limit grace)"

primrec all_entries :: "stat_item option list \<Rightarrow> stat_item list option" where
  \<comment> \<open>the list built by the appends, unless one of them raised\<close>
  "all_entries [] = Some []"
| "all_entries (e # es) =
     (case e of None \<Rightarrow> None | Some x \<Rightarrow> map_option ((#) x) (all_entries es))"

definition unavailable :: "string \<Rightarrow> instant option \<Rightarrow> stat_scope" where
  "unavailable name seen =
     \<lparr>sp_scope = name, sp_status = Scope_unavailable, sp_sampled_at = None, sp_last_seen_at = seen, sp_entries = []\<rparr>"

section \<open>What is sampled\<close>

record stream_info =
  xi_length :: "int option"
  xi_first_id :: "string option"

record stats_os =
  st_walk :: "string \<Rightarrow> walk"
  st_dev :: "string \<Rightarrow> int option"
  st_usage :: "string \<Rightarrow> (int \<times> int \<times> int) option"
  st_fromisoformat :: "string \<Rightarrow> instant option"
  st_nodes_up :: bool \<comment> \<open>the node query succeeds\<close>
  st_max_up :: bool \<comment> \<open>the query for the largest log succeeds\<close>
  st_postgres_up :: bool
  st_relation_size :: "(string \<Rightarrow> json) option" \<comment> \<open>\<open>None\<close>: not PostgreSQL\<close>
  st_database_size :: json
  st_info :: "string \<Rightarrow> obj option"
  st_memory_usage :: "string \<Rightarrow> json"
  st_xinfo :: "string \<Rightarrow> stream_info option"

definition du :: "stats_os \<Rightarrow> string \<Rightarrow> int option" where
  \<comment> \<open>the same walk as the agent's \<open>_dir_bytes\<close>, an access failure answered by \<open>None\<close>\<close>
  "du so path = walk_bytes 0 (st_walk so path)"

fun distinct_volumes :: "stats_os \<Rightarrow> int list \<Rightarrow> string list \<Rightarrow> string list" where
  "distinct_volumes so seen [] = []"
| "distinct_volumes so seen (p # ps) =
     (case st_dev so p of None \<Rightarrow> distinct_volumes so seen ps
      | Some dev \<Rightarrow> if dev \<in> set seen then distinct_volumes so seen ps
          else p # distinct_volumes so (dev # seen) ps)"

lemma du_shares_fake_zero:
  assumes "walk_readable before" and "Absent \<notin> set before"
  shows "st_walk so path = before @ Absent # rest \<Longrightarrow> du so path = Some 0"
proof -
  have "\<forall>d \<in> set before. d \<noteq> Absent" using assms(2) by blast
  then have "takeWhile (\<lambda>d. d \<noteq> Absent) (before @ Absent # rest) = before" by (simp add: takeWhile_append2)
  then show "st_walk so path = before @ Absent # rest \<Longrightarrow> du so path = Some 0"
    using assms(1) by (simp only: du_def walk_bytes_cases Let_def) simp
qed

section \<open>The server scopes\<close>

definition volume_entries :: "stats_os \<Rightarrow> string list \<Rightarrow> stat_item option list" where
  "volume_entries so vs = List.map_filter (\<lambda>v. case st_usage so v of None \<Rightarrow> None
     | Some (all_bytes, in_use, free_bytes) \<Rightarrow>
         Some (stat_entry (''server.volume:'' @ v) Kind_bytes (Some in_use) (positive (Some all_bytes)) 0)) vs"

definition collect_server ::
    "stats_os \<Rightarrow> settings \<Rightarrow> string \<Rightarrow> instant \<Rightarrow> int option \<Rightarrow> db \<Rightarrow> stat_scope option" where
  "collect_server so cfg data_dir now gauge d =
     (let logs_root = root_dir (cfg_logs cfg); artifacts_root = artifacts_root_dir (cfg_artifacts cfg);
          logs_bytes = du so logs_root; artifacts_bytes = du so artifacts_root;
          max_bytes = (if st_max_up so then max_option (map lf_size_bytes (db_log_files d)) else None)
      in map_option (\<lambda>es. \<lparr>sp_scope = ''server'', sp_status = Scope_ok, sp_sampled_at = Some now,
             sp_last_seen_at = None, sp_entries = es\<rparr>)
           (all_entries
             ([stat_entry ''server.logs_bytes'' Kind_bytes logs_bytes None 0,
               stat_entry ''logs.dir_bytes'' Kind_bytes (case gauge of Some g \<Rightarrow> Some g | None \<Rightarrow> logs_bytes)
                 (positive (Some (max_total_bytes (cfg_logs cfg)))) 0,
               stat_entry ''server.artifacts_bytes'' Kind_bytes artifacts_bytes
                 (positive (Some (artifacts_max_total_bytes (cfg_artifacts cfg)))) 0,
               stat_entry ''server.max_log_file_bytes'' Kind_bytes (num (jint max_bytes))
                 (positive (Some (max_file_bytes (cfg_logs cfg)))) 0]
              @ volume_entries so (distinct_volumes so [] [data_dir, logs_root, artifacts_root]))))"

definition table_rows :: "db \<Rightarrow> (string \<times> nat) list" where
  "table_rows d = [(''tasks'', length (db_tasks d)), (''executions'', length (db_executions d)),
     (''execution_log_files'', length (db_log_files d)), (''command_outbox'', length (db_outbox d)),
     (''event_audit'', length (db_audit d))]"

definition oldest_terminal :: "db \<Rightarrow> instant option" where
  "oldest_terminal d =
     min_option (map (\<lambda>t. or_default (t_finished_at t) (t_created_at t))
       (filter (\<lambda>t. t_status t \<in> TASK_TERMINAL) (db_tasks d)))"

definition age_entry :: "string \<Rightarrow> int option \<Rightarrow> int option \<Rightarrow> int \<Rightarrow> stat_item option list" where
  \<comment> \<open>appended only when there is an age\<close>
  "age_entry key age limit grace = (if age = None then [] else [stat_entry key Kind_age age limit grace])"

definition collect_postgres :: "stats_os \<Rightarrow> settings \<Rightarrow> instant \<Rightarrow> db \<Rightarrow> stat_scope option" where
  "collect_postgres so cfg now d =
     (if \<not> st_postgres_up so then None
      else (let grace = 2 * sweep_interval_seconds (cfg_maintenance cfg);
                tables = concat (map (\<lambda>(name, n).
                  stat_entry (''postgres.'' @ name @ ''_rows'') Kind_count (Some (int n)) None 0
                  # (case st_relation_size so of None \<Rightarrow> [] | Some relation \<Rightarrow>
                      [stat_entry (''postgres.'' @ name @ ''_bytes'') Kind_bytes (num (relation name)) None 0]))
                  (table_rows d));
                database = (if st_relation_size so = None then []
                  else [stat_entry ''postgres.database_bytes'' Kind_bytes (num (st_database_size so)) None 0])
            in map_option (\<lambda>es. \<lparr>sp_scope = ''postgres'', sp_status = Scope_ok, sp_sampled_at = Some now,
                 sp_last_seen_at = None, sp_entries = es\<rparr>)
               (all_entries (tables @ database
                 @ age_entry ''postgres.oldest_terminal_task_age'' (age_seconds (oldest_terminal d) now)
                     (positive (Some (retention_days (cfg_logs cfg) * 86400))) grace
                 @ age_entry ''postgres.oldest_event_audit_age''
                     (age_seconds (min_option (map a_processed_at (db_audit d))) now)
                     (positive (Some (event_audit_retention_days (cfg_maintenance cfg) * 86400))) grace))))"

definition int_field :: "obj \<Rightarrow> string \<Rightarrow> int option" where
  \<comment> \<open>\<open>int(raw)\<close>, \<open>None\<close> where it raises\<close>
  "int_field info key =
     (case obj_get info key of JInt n \<Rightarrow> Some n | JBool b \<Rightarrow> Some (if b then 1 else 0)
      | JStr s \<Rightarrow> py_int (py_strip s) | _ \<Rightarrow> None)"

definition stream_first_entry_age :: "stream_info \<Rightarrow> instant \<Rightarrow> int option" where
  "stream_first_entry_age info now =
     (case xi_first_id info of None \<Rightarrow> None
      | Some entry_id \<Rightarrow>
          map_option (\<lambda>ms. max 0 ((now - ms * 1000) div secs 1))
            (py_int (py_strip (takeWhile (\<lambda>c. c \<noteq> CHR ''-'') entry_id))))"

definition stream_entries :: "stats_os \<Rightarrow> settings \<Rightarrow> instant \<Rightarrow> string \<times> string \<times> int \<Rightarrow> stat_item option list option" where
  "stream_entries so cfg now s =
     (case s of (stream, label, maxlen) \<Rightarrow>
      (case st_xinfo so stream of None \<Rightarrow> None
       | Some info \<Rightarrow>
          Some (stat_entry (''redis.stream_len:'' @ label) Kind_count (Some (or_default (xi_length info) 0))
                  (positive (Some maxlen)) 0
                # age_entry (''redis.stream_age:'' @ label) (stream_first_entry_age info now)
                    (positive (Some (log_retention_seconds (cfg_redis cfg))))
                    (2 * sweep_interval_seconds (cfg_maintenance cfg)))))"

definition command_entry :: "stats_os \<Rightarrow> settings \<Rightarrow> string \<Rightarrow> stat_item option" where
  "command_entry so cfg agent_id =
     (case st_xinfo so (command_stream agent_id) of None \<Rightarrow> None
      | Some info \<Rightarrow> stat_entry (''redis.command_stream_len:'' @ agent_id) Kind_count
          (Some (or_default (xi_length info) 0)) (positive (Some (stream_maxlen_commands (cfg_redis cfg)))) 0)"

definition collect_redis ::
    "stats_os \<Rightarrow> settings \<Rightarrow> bool \<Rightarrow> instant \<Rightarrow> string list \<Rightarrow> stat_scope option" where
  "collect_redis so cfg wired now agent_ids =
     (if \<not> wired then Some (unavailable ''redis'' None)
      else (case (st_info so ''memory'', st_info so ''persistence'',
               stream_entries so cfg now (LOG_STREAM, ''logs'', stream_maxlen_logs (cfg_redis cfg)),
               stream_entries so cfg now (EVENT_STREAM, ''events'', stream_maxlen_events (cfg_redis cfg))) of
          (Some memory, Some persistence, Some logs, Some events) \<Rightarrow>
            map_option (\<lambda>es. \<lparr>sp_scope = ''redis'', sp_status = Scope_ok, sp_sampled_at = Some now,
                sp_last_seen_at = None, sp_entries = es\<rparr>)
              (all_entries
                ([stat_entry ''redis.used_memory'' Kind_bytes (int_field memory ''used_memory'')
                    (positive (int_field memory ''maxmemory'')) 0,
                  stat_entry ''redis.aof_bytes'' Kind_bytes (int_field persistence ''aof_current_size'') None 0,
                  stat_entry ''redis.stream_bytes:logs'' Kind_bytes (num (st_memory_usage so LOG_STREAM))
                    (positive (Some (stream_max_bytes_logs (cfg_redis cfg)))) 0]
                 @ logs @ events @ map (command_entry so cfg) agent_ids))
        | _ \<Rightarrow> None))"

section \<open>The agent scopes\<close>

definition dict_of :: "json \<Rightarrow> obj" where
  "dict_of v = (case v of JObj kv \<Rightarrow> kv | _ \<Rightarrow> [])"

definition append_entry :: "string \<Rightarrow> stat_kind \<Rightarrow> int option \<Rightarrow> int option \<Rightarrow> stat_item option list" where
  "append_entry key kind val limit = (if val = None then [] else [stat_entry key kind val limit 0])"

definition agent_entries :: "obj \<Rightarrow> stat_item option list" where
  "agent_entries disk =
     (let ws = dict_of (obj_get disk ''workspaces''); cache = dict_of (obj_get disk ''cache'');
          scrapyd = dict_of (obj_get disk ''scrapyd''); outbox = dict_of (obj_get disk ''outbox'');
          state = dict_of (obj_get disk ''state''); volume = dict_of (obj_get disk ''volume'')
      in append_entry ''agent.workspaces_bytes'' Kind_bytes (num (obj_get ws ''bytes'')) None
       @ append_entry ''agent.workspaces_count'' Kind_count (num (obj_get ws ''count'')) None
       @ append_entry ''agent.cache_bytes'' Kind_bytes (num (obj_get cache ''bytes''))
           (limit_of_json (obj_get cache ''limit''))
       @ append_entry ''agent.scrapyd_bytes'' Kind_bytes (num (obj_get scrapyd ''bytes'')) None
       @ append_entry ''agent.outbox_files'' Kind_count (num (obj_get outbox ''files''))
           (limit_of_json (obj_get outbox ''limit''))
       @ append_entry ''agent.outbox_bytes'' Kind_bytes (num (obj_get outbox ''bytes'')) None
       @ append_entry ''agent.state_executions'' Kind_count (num (obj_get state ''executions'')) None
       @ append_entry ''agent.state_logpos'' Kind_count (num (obj_get state ''logpos'')) None
       @ append_entry ''agent.volume_used'' Kind_bytes (num (obj_get volume ''used''))
           (limit_of_json (obj_get volume ''total'')))"

definition agent_scope :: "stats_os \<Rightarrow> instant \<Rightarrow> int \<Rightarrow> node \<Rightarrow> stat_scope option" where
  "agent_scope so now timeout n =
     (let name = ''agent:'' @ or_default (nd_agent_id n) []; seen = nd_last_seen_at n
      in if aggregate_node_status n now timeout \<in> {''unhealthy'', ''unknown''}
         then Some (unavailable name seen)
         else (case obj_get (nd_health n) ''disk'' of
             JObj disk \<Rightarrow>
               (case (case obj_get disk ''sampled_at'' of JStr s \<Rightarrow> st_fromisoformat so s | _ \<Rightarrow> None,
                      positive (num (obj_get disk ''interval_seconds''))) of
                  (Some sampled, Some interval) \<Rightarrow>
                    map_option (\<lambda>es. \<lparr>sp_scope = name,
                        sp_status = (if now - sampled > secs (2 * interval) then Scope_stale else Scope_ok),
                        sp_sampled_at = Some sampled, sp_last_seen_at = seen, sp_entries = es\<rparr>)
                      (all_entries (agent_entries disk))
                | _ \<Rightarrow> Some (unavailable name seen))
           | _ \<Rightarrow> Some (unavailable name seen)))"

primrec all_scopes :: "stat_scope option list \<Rightarrow> stat_scope list option" where
  "all_scopes [] = Some []"
| "all_scopes (s # ss) = (case s of None \<Rightarrow> None | Some x \<Rightarrow> map_option ((#) x) (all_scopes ss))"

definition safe_scope :: "string \<Rightarrow> stat_scope option \<Rightarrow> stat_scope" where
  "safe_scope name s = or_default s (unavailable name None)"

definition collect_snapshot ::
    "stats_os \<Rightarrow> settings \<Rightarrow> string \<Rightarrow> bool \<Rightarrow> int option \<Rightarrow> instant \<Rightarrow> db \<Rightarrow> snapshot option" where
  "collect_snapshot so cfg data_dir wired gauge now d =
     (let nodes = (if st_nodes_up so then filter (\<lambda>n. truthy_str (nd_agent_id n)) (db_nodes d) else []);
          guarded = [safe_scope ''server'' (collect_server so cfg data_dir now gauge d),
            safe_scope ''postgres'' (collect_postgres so cfg now d),
            safe_scope ''redis'' (collect_redis so cfg wired now (map (\<lambda>n. the (nd_agent_id n)) nodes))];
          agents = (if st_nodes_up so
            then all_scopes (map (agent_scope so now (heartbeat_timeout_seconds (cfg_agents cfg))) nodes)
            else Some [unavailable ''agents'' None])
      in map_option (\<lambda>as. \<lparr>sn_sampled_at = now, sn_sweep_enabled = sweep_enabled (cfg_maintenance cfg),
           sn_scopes = guarded @ as\<rparr>) agents)"

definition sample_once ::
    "stats_os \<Rightarrow> settings \<Rightarrow> string \<Rightarrow> bool \<Rightarrow> int option \<Rightarrow> instant \<Rightarrow> db \<Rightarrow> snapshot option \<Rightarrow> snapshot option" where
  \<comment> \<open>what the endpoint serves after one tick; a tick that raises keeps the old snapshot\<close>
  "sample_once so cfg data_dir wired gauge now d held =
     (case collect_snapshot so cfg data_dir wired gauge now d of None \<Rightarrow> held | Some s \<Rightarrow> Some s)"

section \<open>From the agent's disk to the dashboard\<close>

definition opt_obj :: "'a option \<Rightarrow> ('a \<Rightarrow> obj) \<Rightarrow> json" where
  "opt_obj x f = (case x of None \<Rightarrow> JNull | Some v \<Rightarrow> JObj (f v))"

definition sample_json :: "disk_sample \<Rightarrow> obj" where
  \<comment> \<open>the dict that \<open>_collect_disk_sample\<close> builds and the heartbeat carries\<close>
  "sample_json ds =
     [(''sampled_at'', JStr (isoformat (ds_sampled_at ds))),
      (''interval_seconds'', JInt (ds_interval_seconds ds)),
      (''workspaces'', opt_obj (ds_workspaces ds) (\<lambda>(n, b). [(''count'', JInt (int n)), (''bytes'', JInt b)])),
      (''cache'', opt_obj (ds_cache ds) (\<lambda>(b, l). [(''bytes'', JInt b), (''limit'', JInt l)])),
      (''scrapyd'', opt_obj (ds_scrapyd ds) (\<lambda>b. [(''bytes'', JInt b)]))]
     @ (case ds_outbox ds of None \<Rightarrow> []
        | Some outbox \<Rightarrow> [(''outbox'', opt_obj outbox (\<lambda>(n, b, l).
            [(''files'', JInt (int n)), (''bytes'', JInt b), (''limit'', JInt l)]))])
     @ [(''state'', opt_obj (ds_state ds) (\<lambda>(n, k). [(''executions'', JInt (int n)), (''logpos'', JInt (int k))])),
        (''volume'', opt_obj (ds_volume ds) (\<lambda>(t, u, f). [(''total'', JInt t), (''used'', JInt u), (''free'', JInt f)]))]"

definition shown :: "disk_sample \<Rightarrow> stat_item option list" where
  \<comment> \<open>the dashboard entries of a sample, item by item\<close>
  "shown ds =
     (case ds_workspaces ds of None \<Rightarrow> []
      | Some (n, b) \<Rightarrow> [stat_entry ''agent.workspaces_bytes'' Kind_bytes (Some b) None 0,
          stat_entry ''agent.workspaces_count'' Kind_count (Some (int n)) None 0])
     @ (case ds_cache ds of None \<Rightarrow> []
        | Some (b, l) \<Rightarrow> [stat_entry ''agent.cache_bytes'' Kind_bytes (Some b) (positive (Some l)) 0])
     @ (case ds_scrapyd ds of None \<Rightarrow> []
        | Some b \<Rightarrow> [stat_entry ''agent.scrapyd_bytes'' Kind_bytes (Some b) None 0])
     @ (case ds_outbox ds of Some (Some (n, b, l)) \<Rightarrow>
          [stat_entry ''agent.outbox_files'' Kind_count (Some (int n)) (positive (Some l)) 0,
           stat_entry ''agent.outbox_bytes'' Kind_bytes (Some b) None 0]
        | _ \<Rightarrow> [])
     @ (case ds_state ds of None \<Rightarrow> []
        | Some (n, k) \<Rightarrow> [stat_entry ''agent.state_executions'' Kind_count (Some (int n)) None 0,
            stat_entry ''agent.state_logpos'' Kind_count (Some (int k)) None 0])
     @ (case ds_volume ds of None \<Rightarrow> []
        | Some (t, u, f) \<Rightarrow> [stat_entry ''agent.volume_used'' Kind_bytes (Some u) (positive (Some t)) 0])"

definition sizes_ok :: "disk_sample \<Rightarrow> bool" where
  \<comment> \<open>what a file system answers: no size is negative\<close>
  "sizes_ok ds \<longleftrightarrow>
     0 < ds_interval_seconds ds
     \<and> (case ds_workspaces ds of None \<Rightarrow> True | Some (n, b) \<Rightarrow> 0 \<le> b)
     \<and> (case ds_cache ds of None \<Rightarrow> True | Some (b, l) \<Rightarrow> 0 \<le> b)
     \<and> (case ds_scrapyd ds of None \<Rightarrow> True | Some b \<Rightarrow> 0 \<le> b)
     \<and> (case ds_outbox ds of Some (Some (n, b, l)) \<Rightarrow> 0 \<le> b | _ \<Rightarrow> True)
     \<and> (case ds_volume ds of None \<Rightarrow> True | Some (t, u, f) \<Rightarrow> 0 \<le> u)"

lemma num_int [simp]: "0 \<le> n \<Longrightarrow> num (JInt n) = Some n" "num JNull = None"
  by (simp_all add: num_def)

lemma limit_int [simp]: "limit_of_json (JInt l) = positive (Some l)"
  by (simp add: limit_of_json_def num_def positive_def)

lemma dict_of_opt [simp]: "dict_of (opt_obj x f) = (case x of None \<Rightarrow> [] | Some v \<Rightarrow> f v)"
  by (simp add: dict_of_def opt_obj_def split: option.splits)

lemma obj_get_list [simp]:
  "obj_get [] k = JNull" "obj_get ((k', v) # kv) k = (if k' = k then v else obj_get kv k)"
  by (simp_all add: obj_get_def)

lemma sample_fields:
  "obj_get (sample_json ds) ''sampled_at'' = JStr (isoformat (ds_sampled_at ds))"
  "obj_get (sample_json ds) ''interval_seconds'' = JInt (ds_interval_seconds ds)"
  "dict_of (obj_get (sample_json ds) ''workspaces'') =
     (case ds_workspaces ds of None \<Rightarrow> [] | Some (n, b) \<Rightarrow> [(''count'', JInt (int n)), (''bytes'', JInt b)])"
  "dict_of (obj_get (sample_json ds) ''cache'') =
     (case ds_cache ds of None \<Rightarrow> [] | Some (b, l) \<Rightarrow> [(''bytes'', JInt b), (''limit'', JInt l)])"
  "dict_of (obj_get (sample_json ds) ''scrapyd'') =
     (case ds_scrapyd ds of None \<Rightarrow> [] | Some b \<Rightarrow> [(''bytes'', JInt b)])"
  "dict_of (obj_get (sample_json ds) ''outbox'') =
     (case ds_outbox ds of Some (Some (n, b, l)) \<Rightarrow>
        [(''files'', JInt (int n)), (''bytes'', JInt b), (''limit'', JInt l)] | _ \<Rightarrow> [])"
  "dict_of (obj_get (sample_json ds) ''state'') =
     (case ds_state ds of None \<Rightarrow> [] | Some (n, k) \<Rightarrow> [(''executions'', JInt (int n)), (''logpos'', JInt (int k))])"
  "dict_of (obj_get (sample_json ds) ''volume'') =
     (case ds_volume ds of None \<Rightarrow> [] | Some (t, u, f) \<Rightarrow> [(''total'', JInt t), (''used'', JInt u), (''free'', JInt f)])"
  by (auto simp: sample_json_def dict_of_def opt_obj_def split: option.splits prod.splits)

lemma agent_entries_of_sample:
  assumes "sizes_ok ds"
  shows "agent_entries (sample_json ds) = shown ds"
proof -
  note ok = assms [unfolded sizes_ok_def]
  let ?f = "\<lambda>k. dict_of (obj_get (sample_json ds) k)"
  have ws: "append_entry ''agent.workspaces_bytes'' Kind_bytes (num (obj_get (?f ''workspaces'') ''bytes'')) None
      @ append_entry ''agent.workspaces_count'' Kind_count (num (obj_get (?f ''workspaces'') ''count'')) None
    = (case ds_workspaces ds of None \<Rightarrow> []
      | Some (n, b) \<Rightarrow> [stat_entry ''agent.workspaces_bytes'' Kind_bytes (Some b) None 0,
          stat_entry ''agent.workspaces_count'' Kind_count (Some (int n)) None 0])"
    using ok unfolding sample_fields by (cases "ds_workspaces ds") (auto simp: append_entry_def)
  have cache: "append_entry ''agent.cache_bytes'' Kind_bytes (num (obj_get (?f ''cache'') ''bytes''))
      (limit_of_json (obj_get (?f ''cache'') ''limit''))
    = (case ds_cache ds of None \<Rightarrow> []
        | Some (b, l) \<Rightarrow> [stat_entry ''agent.cache_bytes'' Kind_bytes (Some b) (positive (Some l)) 0])"
    using ok unfolding sample_fields by (cases "ds_cache ds") (auto simp: append_entry_def)
  have scrapyd: "append_entry ''agent.scrapyd_bytes'' Kind_bytes (num (obj_get (?f ''scrapyd'') ''bytes'')) None
    = (case ds_scrapyd ds of None \<Rightarrow> []
        | Some b \<Rightarrow> [stat_entry ''agent.scrapyd_bytes'' Kind_bytes (Some b) None 0])"
    using ok unfolding sample_fields by (cases "ds_scrapyd ds") (auto simp: append_entry_def)
  have outbox: "append_entry ''agent.outbox_files'' Kind_count (num (obj_get (?f ''outbox'') ''files''))
      (limit_of_json (obj_get (?f ''outbox'') ''limit''))
      @ append_entry ''agent.outbox_bytes'' Kind_bytes (num (obj_get (?f ''outbox'') ''bytes'')) None
    = (case ds_outbox ds of Some (Some (n, b, l)) \<Rightarrow>
          [stat_entry ''agent.outbox_files'' Kind_count (Some (int n)) (positive (Some l)) 0,
           stat_entry ''agent.outbox_bytes'' Kind_bytes (Some b) None 0]
        | _ \<Rightarrow> [])"
    using ok unfolding sample_fields by (auto simp: append_entry_def split: option.splits)
  have state: "append_entry ''agent.state_executions'' Kind_count (num (obj_get (?f ''state'') ''executions'')) None
      @ append_entry ''agent.state_logpos'' Kind_count (num (obj_get (?f ''state'') ''logpos'')) None
    = (case ds_state ds of None \<Rightarrow> []
        | Some (n, k) \<Rightarrow> [stat_entry ''agent.state_executions'' Kind_count (Some (int n)) None 0,
            stat_entry ''agent.state_logpos'' Kind_count (Some (int k)) None 0])"
    unfolding sample_fields by (cases "ds_state ds") (auto simp: append_entry_def)
  have volume: "append_entry ''agent.volume_used'' Kind_bytes (num (obj_get (?f ''volume'') ''used''))
      (limit_of_json (obj_get (?f ''volume'') ''total''))
    = (case ds_volume ds of None \<Rightarrow> []
        | Some (t, u, f) \<Rightarrow> [stat_entry ''agent.volume_used'' Kind_bytes (Some u) (positive (Some t)) 0])"
    using ok unfolding sample_fields by (cases "ds_volume ds") (auto simp: append_entry_def)
  show ?thesis
    unfolding agent_entries_def Let_def shown_def
    unfolding ws [symmetric] cache [symmetric] scrapyd [symmetric] outbox [symmetric] state [symmetric] volume [symmetric]
    by (simp only: append_assoc)
qed

text \<open>C29. What an agent measured is what the dashboard shows: the scope of a live node whose heartbeat
  carries a disk sample has exactly one group of entries per item of the sample that could be
  measured, with its number unchanged and nothing in place of an item that could not, and it is
  stale exactly when the sample is older than twice its interval.
\<close>

theorem disk_sample_reaches_dashboard:
  assumes "sizes_ok ds" and "st_fromisoformat so (isoformat (ds_sampled_at ds)) = Some (ds_sampled_at ds)"
    and "aggregate_node_status n now timeout \<notin> {''unhealthy'', ''unknown''}"
    and "obj_get (nd_health n) ''disk'' = JObj (sample_json ds)"
  shows "agent_scope so now timeout n = map_option (\<lambda>es.
      \<lparr>sp_scope = ''agent:'' @ or_default (nd_agent_id n) [],
       sp_status = (if now - ds_sampled_at ds > secs (2 * ds_interval_seconds ds) then Scope_stale else Scope_ok),
       sp_sampled_at = Some (ds_sampled_at ds), sp_last_seen_at = nd_last_seen_at n, sp_entries = es\<rparr>)
      (all_entries (shown ds))"
proof -
  have "positive (num (JInt (ds_interval_seconds ds))) = Some (ds_interval_seconds ds)"
    using assms(1) by (simp add: sizes_ok_def num_def positive_def)
  then show ?thesis
    using assms(2-) by (simp add: agent_scope_def Let_def sample_fields agent_entries_of_sample [OF assms(1)])
qed

section \<open>Failures\<close>

lemma all_scopes_some: "\<forall>s \<in> set ss. s \<noteq> None \<Longrightarrow> all_scopes ss = Some (map the ss)"
  by (induction ss) auto

lemma all_scopes_none: "None \<in> set ss \<Longrightarrow> all_scopes ss = None"
  by (induction ss) (auto split: option.splits)

lemma all_entries_none: "None \<in> set es \<Longrightarrow> all_entries es = None"
  by (induction es) (auto split: option.splits)

lemma agent_scope_name: "agent_scope so now timeout n = Some s \<Longrightarrow> sp_scope s = ''agent:'' @ or_default (nd_agent_id n) []"
  by (auto simp: agent_scope_def unavailable_def Let_def split: if_splits json.splits option.splits prod.splits)

text \<open>Failures stay in their scope: as long as no agent's numbers overflow, a snapshot is taken whatever
  database queries, Redis calls and directory walks fail, with the three server scopes, unavailable
  where they failed, and one scope per agent, or one that says that the agents could not be read.
\<close>

theorem snapshot_isolates_failures:
  assumes "\<forall>n \<in> set (db_nodes d). agent_scope so now (heartbeat_timeout_seconds (cfg_agents cfg)) n \<noteq> None"
  shows "\<exists>s. collect_snapshot so cfg data_dir wired gauge now d = Some s
    \<and> map sp_scope (sn_scopes s) = [''server'', ''postgres'', ''redis'']
      @ (if st_nodes_up so then map (\<lambda>n. ''agent:'' @ or_default (nd_agent_id n) [])
           (filter (\<lambda>n. truthy_str (nd_agent_id n)) (db_nodes d)) else [''agents''])"
proof -
  let ?timeout = "heartbeat_timeout_seconds (cfg_agents cfg)"
  let ?nodes = "filter (\<lambda>n. truthy_str (nd_agent_id n)) (db_nodes d)"
  have names: "sp_scope (safe_scope ''server'' (collect_server so cfg data_dir now gauge d)) = ''server''"
    "sp_scope (safe_scope ''postgres'' (collect_postgres so cfg now d)) = ''postgres''"
    "sp_scope (safe_scope ''redis'' (collect_redis so cfg wired now ids)) = ''redis''" for ids
    by (auto simp: safe_scope_def or_default_def unavailable_def collect_server_def collect_postgres_def
        collect_redis_def Let_def split: option.splits)
  have "all_scopes (map (agent_scope so now ?timeout) ?nodes) = Some (map (the \<circ> agent_scope so now ?timeout) ?nodes)"
    using assms by (subst all_scopes_some) auto
  moreover have "sp_scope (the (agent_scope so now ?timeout n)) = ''agent:'' @ or_default (nd_agent_id n) []"
    if "n \<in> set (db_nodes d)" for n
    using assms that agent_scope_name by fastforce
  ultimately show ?thesis
    by (cases "st_nodes_up so") (auto simp: collect_snapshot_def Let_def names unavailable_def)
qed

text \<open>One agent can blind the dashboard: a sample with a cache size so large that its quotient with the
  cap is no float ends every tick, so the endpoint serves the snapshot it had before (or none) for
  as long as that node is alive, for the server, the database, Redis and every other agent too.
\<close>

theorem one_sample_blinds_dashboard:
  assumes "st_nodes_up so" and "n \<in> set (db_nodes d)" and "truthy_str (nd_agent_id n)"
    and "aggregate_node_status n now (heartbeat_timeout_seconds (cfg_agents cfg)) \<notin> {''unhealthy'', ''unknown''}"
    and "obj_get (nd_health n) ''disk'' = JObj disk"
    and "obj_get disk ''sampled_at'' = JStr t" and "st_fromisoformat so t \<noteq> None"
    and "obj_get disk ''interval_seconds'' = JInt interval" and "0 < interval"
    and "obj_get disk ''cache'' = JObj cache" and "obj_get cache ''bytes'' = JInt v"
    and "obj_get cache ''limit'' = JInt l" and "0 < l" and "0 \<le> v" and "division_overflows v l"
  shows "sample_once so cfg data_dir wired gauge now d held = held"
proof -
  have "stat_entry ''agent.cache_bytes'' Kind_bytes (Some v) (Some l) 0 = None"
    using assms(13,15) by (simp add: stat_entry_def stat_level_def)
  then have "None \<in> set (agent_entries disk)"
    using assms(10-14) by (simp add: agent_entries_def Let_def append_entry_def dict_of_def positive_def)
  then have "agent_scope so now (heartbeat_timeout_seconds (cfg_agents cfg)) n = None"
    using assms(4-9) by (auto simp: agent_scope_def Let_def num_def positive_def all_entries_none)
  then have "all_scopes (map (agent_scope so now (heartbeat_timeout_seconds (cfg_agents cfg)))
      (filter (\<lambda>n. truthy_str (nd_agent_id n)) (db_nodes d))) = None"
    using assms(2,3) by (intro all_scopes_none) (auto simp: image_def)
  then show ?thesis using assms(1) by (simp add: sample_once_def collect_snapshot_def Let_def)
qed

section \<open>Witnesses\<close>

definition broken_stats :: stats_os where
  \<comment> \<open>no directory can be read, no query but that of the nodes succeeds, Redis is down\<close>
  "broken_stats = \<lparr>st_walk = (\<lambda>p. [Refused]), st_dev = (\<lambda>p. None), st_usage = (\<lambda>p. None),
     st_fromisoformat = (\<lambda>s. Some 0), st_nodes_up = True, st_max_up = False, st_postgres_up = False,
     st_relation_size = None, st_database_size = JNull, st_info = (\<lambda>s. None), st_memory_usage = (\<lambda>s. JNull),
     st_xinfo = (\<lambda>s. None)\<rparr>"

definition live_node :: "obj \<Rightarrow> node" where
  "live_node health = (new_node ''n1'' ''agent://a1'')\<lparr>nd_agent_id := Some ''a1'', nd_last_seen_at := Some 0,
     nd_health := health\<rparr>"

definition small_sample :: disk_sample where
  "small_sample = \<lparr>ds_sampled_at = 0, ds_interval_seconds = 600, ds_workspaces = Some (2, 30), ds_cache = Some (95, 100),
     ds_scrapyd = None, ds_outbox = None, ds_state = Some (2, 1), ds_volume = None\<rparr>"

lemma live_node_status [simp]:
  "aggregate_node_status (live_node health) 0 30 \<noteq> ''unhealthy''"
  "aggregate_node_status (live_node health) 0 30 \<noteq> ''unknown''"
  by (simp_all add: aggregate_node_status_def heartbeat_fresh_def live_node_def new_node_def)

lemma live_node_simps [simp]:
  "nd_health (live_node health) = health" "nd_agent_id (live_node health) = Some ''a1''"
  by (simp_all add: live_node_def)

lemma disk_sample_reaches_dashboard_witness:
  "map_option (map (\<lambda>e. (se_key e, se_value e, se_level e)) \<circ> sp_entries)
      (agent_scope broken_stats 0 30 (live_node [(''disk'', JObj (sample_json small_sample))]))
    = Some [(''agent.workspaces_bytes'', Some 30, Level_ok), (''agent.workspaces_count'', Some 2, Level_ok),
        (''agent.cache_bytes'', Some 95, Level_critical), (''agent.state_executions'', Some 2, Level_ok),
        (''agent.state_logpos'', Some 1, Level_ok)]"
proof -
  have sc: "agent_scope broken_stats 0 30 (live_node [(''disk'', JObj (sample_json small_sample))])
    = map_option (\<lambda>es.
      \<lparr>sp_scope = ''agent:'' @ or_default (nd_agent_id (live_node [(''disk'', JObj (sample_json small_sample))])) [],
       sp_status = (if 0 - ds_sampled_at small_sample > secs (2 * ds_interval_seconds small_sample) then Scope_stale else Scope_ok),
       sp_sampled_at = Some (ds_sampled_at small_sample),
       sp_last_seen_at = nd_last_seen_at (live_node [(''disk'', JObj (sample_json small_sample))]), sp_entries = es\<rparr>)
      (all_entries (shown small_sample))"
    by (rule disk_sample_reaches_dashboard)
      (simp_all add: sizes_ok_def small_sample_def broken_stats_def)
  have "map_option (map (\<lambda>e. (se_key e, se_value e, se_level e))) (all_entries (shown small_sample))
    = Some [(''agent.workspaces_bytes'', Some 30, Level_ok), (''agent.workspaces_count'', Some 2, Level_ok),
        (''agent.cache_bytes'', Some 95, Level_critical), (''agent.state_executions'', Some 2, Level_ok),
        (''agent.state_logpos'', Some 1, Level_ok)]"
    by code_simp
  then show ?thesis unfolding sc by (simp add: option.map_comp comp_def)
qed

lemma snapshot_isolates_failures_witness:
  "\<exists>s. collect_snapshot broken_stats default_settings ''/d'' True None 0
        (empty_db\<lparr>db_nodes := [live_node []]\<rparr>) = Some s
    \<and> map sp_scope (sn_scopes s) = [''server'', ''postgres'', ''redis'', ''agent:a1'']"
proof -
  let ?d = "empty_db\<lparr>db_nodes := [live_node []]\<rparr>"
  have "\<forall>n \<in> set (db_nodes ?d). agent_scope broken_stats 0 (heartbeat_timeout_seconds (cfg_agents default_settings)) n \<noteq> None"
    by (simp add: agent_scope_def Let_def)
  from snapshot_isolates_failures [OF this, of "''/d''" True None] show ?thesis
    by (simp add: broken_stats_def truthy_str_def or_default_def)
qed

lemma one_sample_blinds_dashboard_witness:
  "sample_once broken_stats default_settings ''/d'' True None 0
      (empty_db\<lparr>db_nodes := [live_node [(''disk'', JObj [(''sampled_at'', JStr ''t''), (''interval_seconds'', JInt 600),
        (''cache'', JObj [(''bytes'', JInt (2 ^ 1024)), (''limit'', JInt 1)])])]]\<rparr>) None = None"
proof -
  have "heartbeat_timeout_seconds (cfg_agents default_settings) = 30"
    by (simp add: default_settings_def default_agents_def)
  then show ?thesis
    by (intro one_sample_blinds_dashboard [where n = "live_node [(''disk'', JObj [(''sampled_at'', JStr ''t''), (''interval_seconds'', JInt 600),
        (''cache'', JObj [(''bytes'', JInt (2 ^ 1024)), (''limit'', JInt 1)])])]"
        and disk = "[(''sampled_at'', JStr ''t''), (''interval_seconds'', JInt 600),
          (''cache'', JObj [(''bytes'', JInt (2 ^ 1024)), (''limit'', JInt 1)])]"
        and cache = "[(''bytes'', JInt (2 ^ 1024)), (''limit'', JInt 1)]"
        and t = "''t''" and interval = 600 and v = "2 ^ 1024" and l = 1])
      (simp_all add: broken_stats_def truthy_str_def division_overflows_def)
qed

end
