(* ===== verification/Uploads.thy ===== *)
theory Uploads
  imports Templates
begin

text \<open>
  Upload of build artifacts: the two stores (\<^verbatim>\<open>artifacts/scrapy_store.py\<close>,
  \<^verbatim>\<open>artifacts/wheel_store.py\<close>), staging and quota (\<^verbatim>\<open>artifacts/upload.py\<close>), the upload routes
  (\<^verbatim>\<open>api/v1/artifacts.py\<close>), and the built-in artifacts (\<^verbatim>\<open>services/builtin_artifacts.py\<close>).

  \<^item> SHA-256 and the reading of a zip member (decoding, \<open>ast\<close>, the header parser) are parameters; which
    members are read is modelled.
  \<^item> A store is its bodies and manifests by hash; \<open>None\<close> is a manifest that does not decode.
\<close>

section \<open>Inspection\<close>

record zip_member =
  zm_name :: string
  zm_class_names :: "string list option" \<comment> \<open>what \<open>_parse_spider_names\<close> finds; \<open>None\<close>: unreadable\<close>
  zm_headers :: "(string option \<times> string option) option" \<comment> \<open>\<open>Name\<close> and \<open>Version\<close>\<close>

datatype zip_content = Not_zip | Bad_member string | Zip "zip_member list"

record upload_os =
  uo_sha256 :: "string \<Rightarrow> string"
  uo_zip :: "string \<Rightarrow> zip_content"

definition short_version :: "string \<Rightarrow> string" where
  "short_version sha256 = ''sha256-'' @ take 12 sha256"

definition forward_slashes :: "string \<Rightarrow> string" where
  "forward_slashes = map (\<lambda>c. if c = CHR 0x5C then CHR ''/'' else c)"

definition header_value :: "string option \<Rightarrow> string option" where
  \<comment> \<open>\<open>v.strip() if v else None\<close>\<close>
  "header_value v = (case v of None \<Rightarrow> None | Some s \<Rightarrow> if s = [] then None else Some (py_strip s))"

definition egg_metadata_name :: "zip_member list \<Rightarrow> string option" where
  "egg_metadata_name zf =
     (case find (\<lambda>m. ends_with ''EGG-INFO/PKG-INFO'' (zm_name m) \<or> ends_with ''.dist-info/METADATA'' (zm_name m)) zf of
        None \<Rightarrow> None
      | Some m \<Rightarrow> (case zm_headers m of None \<Rightarrow> None | Some (name, version) \<Rightarrow> header_value name))"

definition metadata_name_version :: "zip_member list \<Rightarrow> string option \<times> string option" where
  "metadata_name_version zf =
     (case find (\<lambda>m. ends_with ''.dist-info/METADATA'' (forward_slashes (zm_name m))) zf of
        None \<Rightarrow> (None, None)
      | Some m \<Rightarrow> (case zm_headers m of None \<Rightarrow> (None, None)
          | Some (name, version) \<Rightarrow> (header_value name, header_value version)))"

definition spider_module :: "string \<Rightarrow> bool" where
  "spider_module name =
     (let n = forward_slashes name
      in contains ''/spiders/'' n \<and> ends_with ''.py'' n \<and> \<not> ends_with ''/__init__.py'' n)"

definition discover_spiders :: "zip_member list \<Rightarrow> string list" where
  "discover_spiders zf =
     sort (remdups (concat (map (\<lambda>m. or_default (zm_class_names m) []) (filter (\<lambda>m. spider_module (zm_name m)) zf))))"

definition invalid_egg :: "obj \<Rightarrow> api_error" where
  "invalid_egg detail = ApiError 400 ''artifact.invalid_egg'' ''errors.invalidEgg'' detail"

definition invalid_wheel :: "obj \<Rightarrow> api_error" where
  "invalid_wheel detail = ApiError 400 ''artifact.invalid_wheel'' ''errors.invalidWheel'' detail"

definition or_text :: "string option \<Rightarrow> string \<Rightarrow> string" where
  \<comment> \<open>\<open>v or d\<close>\<close>
  "or_text v d = (if truthy_str v then the v else d)"

definition validate_egg_path ::
    "upload_os \<Rightarrow> string \<Rightarrow> string \<Rightarrow> string \<Rightarrow> int \<Rightarrow> string option \<Rightarrow> api_error + scrapy_manifest" where
  "validate_egg_path env filename content sha256 size_bytes project_hint =
     (case uo_zip env content of
        Not_zip \<Rightarrow> Inl (invalid_egg [(''reason'', JStr ''not_zip'')])
      | Bad_member m \<Rightarrow> Inl (invalid_egg [(''member'', JStr m)])
      | Zip zf \<Rightarrow>
         (let project = or_text project_hint (or_text (egg_metadata_name zf) (path_stem filename));
              spiders = discover_spiders zf
          in if spiders = [] then Inl (ApiError 400 ''artifact.no_spiders'' ''errors.noSpiders''
                 [(''filename'', JStr filename)])
             else Inr \<lparr>sm_project = project, sm_version = short_version sha256, sm_spiders = spiders,
                 sm_sha256 = sha256, sm_filename = filename, sm_size_bytes = size_bytes\<rparr>))"

definition validate_wheel_path ::
    "upload_os \<Rightarrow> string \<Rightarrow> string \<Rightarrow> string \<Rightarrow> int \<Rightarrow> api_error + wheel_manifest" where
  "validate_wheel_path env filename content sha256 size_bytes =
     (if \<not> ends_with ''.whl'' (lower filename)
      then Inl (invalid_wheel [(''reason'', JStr ''not_whl''), (''filename'', JStr filename)])
      else (case uo_zip env content of
          Not_zip \<Rightarrow> Inl (invalid_wheel [(''reason'', JStr ''not_zip'')])
        | Bad_member m \<Rightarrow> Inl (invalid_wheel [(''member'', JStr m)])
        | Zip zf \<Rightarrow>
           (let (dist, version) = metadata_name_version zf;
                stem = path_stem filename; parts = split_at (\<lambda>c. c = CHR ''-'') [] stem
            in Inr \<lparr>wm_distribution = or_text dist (if parts \<noteq> [] \<and> hd parts \<noteq> [] then hd parts else stem),
                 wm_version = or_text version (if length parts > 1 then parts ! 1 else short_version sha256),
                 wm_sha256 = sha256, wm_filename = filename, wm_size_bytes = size_bytes\<rparr>)))"

section \<open>The stores\<close>

record 'm store =
  sto_bodies :: "(string \<times> string) list"
  sto_manifests :: "(string \<times> ('m \<times> instant) option) list" \<comment> \<open>with \<open>uploaded_at\<close>\<close>

datatype publish_fault = No_fault | Body_fault | Manifest_fault
  \<comment> \<open>where the file system fails: nowhere, up to the rename of the body, at that of the manifest\<close>

datatype stored_part = Body_part | Manifest_part

definition remove_stored :: "stored_part set \<Rightarrow> string \<Rightarrow> 'm store \<Rightarrow> 'm store" where
  \<comment> \<open>\<open>stuck\<close>: the files whose \<open>unlink\<close> fails; the error is swallowed\<close>
  "remove_stored stuck sha256 st =
     st\<lparr>sto_bodies := (if Body_part \<in> stuck then sto_bodies st else AList.delete sha256 (sto_bodies st)),
       sto_manifests := (if Manifest_part \<in> stuck then sto_manifests st else AList.delete sha256 (sto_manifests st))\<rparr>"

definition publish ::
    "stored_part set \<Rightarrow> publish_fault \<Rightarrow> instant \<Rightarrow> string \<Rightarrow> string \<Rightarrow> 'm \<Rightarrow> 'm store \<Rightarrow> 'm store \<times> bool" where
  \<comment> \<open>what \<open>save_from_path\<close> of both stores does after the validation; \<open>False\<close> when it raises\<close>
  "publish stuck fault now sha256 content manifest st =
     (let pre_existed = map_of (sto_bodies st) sha256 \<noteq> None;
          st1 = st\<lparr>sto_bodies := AList.update sha256 content (sto_bodies st)\<rparr>
      in case fault of
           Body_fault \<Rightarrow> (st, False)
         | Manifest_fault \<Rightarrow> (if pre_existed then st1 else remove_stored stuck sha256 st1, False)
         | No_fault \<Rightarrow> (st1\<lparr>sto_manifests := AList.update sha256 (Some (manifest, now)) (sto_manifests st1)\<rparr>, True))"

definition list_manifests :: "'m store \<Rightarrow> 'm list" where
  \<comment> \<open>sorted by file name, then by \<open>uploaded_at\<close>, the newest first\<close>
  "list_manifests st =
     map fst (sort_key (\<lambda>m. - snd m)
       (List.map_filter snd (sort_key fst (sto_manifests st))))"

definition get_manifest :: "string \<Rightarrow> 'm store \<Rightarrow> api_error + ('m \<times> instant) option" where
  \<comment> \<open>\<open>Inr None\<close>: the manifest is there and does not decode\<close>
  "get_manifest sha256 st =
     (case map_of (sto_manifests st) sha256 of
        None \<Rightarrow> Inl (ApiError 404 ''artifact.not_found'' ''errors.artifactNotFound'' [(''sha256'', JStr sha256)])
      | Some m \<Rightarrow> Inr m)"

section \<open>Staging and quota\<close>

primrec staged :: "int \<Rightarrow> int \<Rightarrow> string list \<Rightarrow> api_error + string" where
  \<comment> \<open>the loop of \<open>stream_to_staging\<close> over the chunks read so far of that size: the staged bytes\<close>
  "staged max_upload_bytes n [] = Inr []"
| "staged max_upload_bytes n (chunk # chunks) =
     (if chunk = [] then Inr []
      else if max_upload_bytes > 0 \<and> n + int (length chunk) > max_upload_bytes
      then Inl (ApiError 413 ''artifact.too_large'' ''errors.artifactTooLarge''
        [(''max_upload_bytes'', JInt max_upload_bytes)])
      else map_sum (\<lambda>e. e) (\<lambda>rest. chunk @ rest) (staged max_upload_bytes (n + int (length chunk)) chunks))"

type_synonym reservations = "(nat \<times> int) list" \<comment> \<open>\<open>_in_flight\<close>\<close>

definition reserved_bytes :: "reservations \<Rightarrow> int" where
  "reserved_bytes rs = sum_list (map snd rs)"

definition needs_reservation :: "int \<Rightarrow> int \<Rightarrow> bool \<Rightarrow> bool" where
  "needs_reservation quota size_bytes already_stored =
     (\<not> (quota \<le> 0 \<or> already_stored \<or> size_bytes \<le> 0))"

definition admit :: "int \<Rightarrow> int \<Rightarrow> int \<Rightarrow> nat \<Rightarrow> reservations \<Rightarrow> api_error + reservations" where
  \<comment> \<open>the body of the quota lock once \<open>current\<close> was read; \<open>token\<close> is a fresh reservation id\<close>
  "admit quota size_bytes current token rs =
     (if current + reserved_bytes rs + size_bytes > quota
      then Inl (ApiError 507 ''artifact.quota_exceeded'' ''errors.artifactQuotaExceeded''
        [(''max_total_bytes'', JInt quota), (''stored_bytes'', JInt (current + reserved_bytes rs)),
         (''upload_bytes'', JInt size_bytes)])
      else Inr ((token, size_bytes) # rs))"

definition reserve_quota ::
    "db \<Rightarrow> int \<Rightarrow> int \<Rightarrow> bool \<Rightarrow> nat \<Rightarrow> reservations \<Rightarrow> api_error + reservations \<times> nat option" where
  "reserve_quota d size_bytes quota already_stored token rs =
     (if \<not> needs_reservation quota size_bytes already_stored then Inr (rs, None)
      else map_sum (\<lambda>e. e) (\<lambda>rs. (rs, Some token)) (admit quota size_bytes (stored_total_bytes d) token rs))"

definition release_quota :: "nat option \<Rightarrow> reservations \<Rightarrow> reservations" where
  "release_quota token rs = (case token of None \<Rightarrow> rs | Some t \<Rightarrow> AList.delete t rs)"

section \<open>The upload route\<close>

datatype upload_result =
    Uploaded build_artifact "string list"
  | Refused api_error
  | Upload_raised

definition upload_artifact ::
    "upload_os \<Rightarrow> (string \<Rightarrow> string \<Rightarrow> int \<Rightarrow> api_error + 'm) \<Rightarrow> (db \<Rightarrow> 'm \<Rightarrow> db \<times> build_artifact) \<Rightarrow> ('m \<Rightarrow> string list)
      \<Rightarrow> int \<Rightarrow> int \<Rightarrow> string list \<Rightarrow> stored_part set \<Rightarrow> publish_fault \<Rightarrow> bool \<Rightarrow> nat \<Rightarrow> instant
      \<Rightarrow> db \<times> 'm store \<times> reservations \<Rightarrow> (db \<times> 'm store \<times> reservations) \<times> upload_result" where
  \<comment> \<open>both routes: they differ in the validation, the upsert and the spiders of the answer; \<open>commits\<close> is
    whether upsert and commit succeed\<close>
  "upload_artifact env validate upsert spiders max_upload max_total chunks stuck fault commits token now s =
     (case s of (d, st, rs) \<Rightarrow>
      (case staged max_upload 0 chunks of
         Inl e \<Rightarrow> ((d, st, rs), Refused e)
       | Inr content \<Rightarrow>
          (let sha256 = uo_sha256 env content; size_bytes = int (length content);
               already_stored = map_of (sto_bodies st) sha256 \<noteq> None
           in case reserve_quota d size_bytes max_total already_stored token rs of
                Inl e \<Rightarrow> ((d, st, rs), Refused e)
              | Inr (rs, tok) \<Rightarrow>
                 (case validate content sha256 size_bytes of
                    Inl e \<Rightarrow> ((d, st, release_quota tok rs), Refused e)
                  | Inr manifest \<Rightarrow>
                     (case publish stuck fault now sha256 content manifest st of
                        (st, False) \<Rightarrow> ((d, st, release_quota tok rs), Upload_raised)
                      | (st, True) \<Rightarrow>
                          if \<not> commits
                          then ((d, if already_stored then st else remove_stored stuck sha256 st, release_quota tok rs), Upload_raised)
                          else (let (d, artifact) = upsert d manifest
                            in ((d, st, release_quota tok rs), Uploaded artifact (spiders manifest))))))))"

definition upload_scrapy_egg ::
    "upload_os \<Rightarrow> settings \<Rightarrow> string option \<Rightarrow> string option \<Rightarrow> string list \<Rightarrow> stored_part set \<Rightarrow> publish_fault \<Rightarrow> bool \<Rightarrow> nat \<Rightarrow> instant
      \<Rightarrow> db \<times> scrapy_manifest store \<times> reservations \<Rightarrow> (db \<times> scrapy_manifest store \<times> reservations) \<times> upload_result" where
  "upload_scrapy_egg env cfg filename project chunks stuck fault commits token now =
     upload_artifact env
       (\<lambda>content sha256 size_bytes. validate_egg_path env (or_text filename ''crawler.egg'') content sha256 size_bytes project)
       (\<lambda>d m. upsert_scrapy d now m) sm_spiders
       (artifacts_max_upload_bytes (cfg_artifacts cfg)) (artifacts_max_total_bytes (cfg_artifacts cfg))
       chunks stuck fault commits token now"

definition upload_python_wheel ::
    "upload_os \<Rightarrow> settings \<Rightarrow> string option \<Rightarrow> string list \<Rightarrow> stored_part set \<Rightarrow> publish_fault \<Rightarrow> bool \<Rightarrow> nat \<Rightarrow> instant
      \<Rightarrow> db \<times> wheel_manifest store \<times> reservations \<Rightarrow> (db \<times> wheel_manifest store \<times> reservations) \<times> upload_result" where
  "upload_python_wheel env cfg filename chunks stuck fault commits token now =
     upload_artifact env
       (\<lambda>content sha256 size_bytes. validate_wheel_path env (or_text filename ''package.whl'') content sha256 size_bytes)
       (\<lambda>d m. upsert_wheel d now m) (\<lambda>m. [])
       (artifacts_max_upload_bytes (cfg_artifacts cfg)) (artifacts_max_total_bytes (cfg_artifacts cfg))
       chunks stuck fault commits token now"

definition list_artifacts_route ::
    "instant \<Rightarrow> db \<times> scrapy_manifest store \<times> wheel_manifest store \<Rightarrow> db \<times> build_artifact list" where
  "list_artifacts_route now s =
     (case s of (d, eggs, wheels) \<Rightarrow>
      (let d = reconcile_scrapy_store d now (list_manifests eggs);
           d = reconcile_wheel_store d now (list_manifests wheels)
       in (d, list_build_artifacts d)))"

definition download_egg :: "string \<Rightarrow> scrapy_manifest store \<Rightarrow> api_error + string option" where
  \<comment> \<open>the body sent; \<open>Inr None\<close> where the route raises\<close>
  "download_egg sha256 st =
     (case get_manifest sha256 st of Inl e \<Rightarrow> Inl e
      | Inr None \<Rightarrow> Inr None
      | Inr (Some m) \<Rightarrow> Inr (map_of (sto_bodies st) sha256))"

section \<open>Built-in artifacts\<close>

definition validate_egg :: "upload_os \<Rightarrow> string \<Rightarrow> string \<Rightarrow> string option \<Rightarrow> api_error + scrapy_manifest" where
  "validate_egg env filename content project_hint =
     validate_egg_path env filename content (uo_sha256 env content) (int (length content)) project_hint"

definition validate_wheel :: "upload_os \<Rightarrow> string \<Rightarrow> string \<Rightarrow> api_error + wheel_manifest" where
  "validate_wheel env filename content =
     validate_wheel_path env filename content (uo_sha256 env content) (int (length content))"

definition save_content ::
    "publish_fault \<Rightarrow> instant \<Rightarrow> string \<Rightarrow> string \<Rightarrow> 'm \<Rightarrow> 'm store \<Rightarrow> 'm store \<times> bool" where
  \<comment> \<open>what \<open>save\<close> of both stores does after the validation: nothing is taken back\<close>
  "save_content fault now sha256 content manifest st =
     (let st1 = st\<lparr>sto_bodies := AList.update sha256 content (sto_bodies st)\<rparr>
      in case fault of
           Body_fault \<Rightarrow> (st, False)
         | Manifest_fault \<Rightarrow> (st1, False)
         | No_fault \<Rightarrow> (st1\<lparr>sto_manifests := AList.update sha256 (Some (manifest, now)) (sto_manifests st1)\<rparr>, True))"

definition seed_one ::
    "(string \<Rightarrow> string \<Rightarrow> api_error + 'm) \<Rightarrow> ('m \<Rightarrow> string) \<Rightarrow> string \<Rightarrow> (db \<Rightarrow> 'm \<Rightarrow> db \<times> build_artifact) \<Rightarrow> instant
      \<Rightarrow> string \<times> string \<times> publish_fault \<Rightarrow> db \<times> 'm store \<Rightarrow> (db \<times> 'm store) \<times> bool option" where
  \<comment> \<open>\<open>_seed_scrapy\<close> and \<open>_seed_wheel\<close>; \<open>None\<close> when it raises\<close>
  "seed_one validate sha_of ty upsert now built_in s =
     (case (s, built_in) of ((d, st), (name, content, fault)) \<Rightarrow>
      (case validate name content of
         Inl e \<Rightarrow> ((d, st), None)
       | Inr manifest \<Rightarrow>
          (let known = get_by_type_hash d ty (sha_of manifest) \<noteq> None;
               store_complete = map_of (sto_bodies st) (sha_of manifest) \<noteq> None
                 \<and> map_of (sto_manifests st) (sha_of manifest) \<noteq> None
           in if known \<and> store_complete then ((d, st), Some False)
              else (case (if store_complete then (st, True)
                          else save_content fault now (sha_of manifest) content manifest st) of
                  (st, False) \<Rightarrow> ((d, st), None)
                | (st, True) \<Rightarrow> if known then ((d, st), Some False)
                    else ((fst (upsert d manifest), st), Some True)))))"

primrec seed_all ::
    "(string \<times> string \<times> publish_fault \<Rightarrow> db \<times> 'm store \<Rightarrow> (db \<times> 'm store) \<times> bool option)
      \<Rightarrow> (string \<times> string \<times> publish_fault) list \<Rightarrow> bool \<Rightarrow> db \<times> 'm store \<Rightarrow> (db \<times> 'm store) \<times> bool option" where
  "seed_all seed [] changed s = (s, Some changed)"
| "seed_all seed (b # bs) changed s =
     (case seed b s of
        (s, None) \<Rightarrow> (s, None)
      | (s, Some c) \<Rightarrow> seed_all seed bs (c \<or> changed) s)"

definition seed_builtin_artifacts ::
    "upload_os \<Rightarrow> instant \<Rightarrow> (string \<times> string \<times> publish_fault) list \<Rightarrow> (string \<times> string \<times> publish_fault) list
      \<Rightarrow> db \<times> scrapy_manifest store \<times> wheel_manifest store \<Rightarrow> (db \<times> scrapy_manifest store \<times> wheel_manifest store) \<times> bool" where
  \<comment> \<open>the files of the two directories, sorted; rows are kept by the one commit at the end; \<open>False\<close> when it raises\<close>
  "seed_builtin_artifacts env now eggs wheels s =
     (case s of (d, st, wt) \<Rightarrow>
      (case seed_all (seed_one (\<lambda>name content. validate_egg env name content None) sm_sha256 ARTIFACT_SCRAPY
           (\<lambda>d m. upsert_scrapy d now m) now) eggs False (d, st) of
         ((d1, st), None) \<Rightarrow> ((d, st, wt), False)
       | ((d1, st), Some changed) \<Rightarrow>
          (case seed_all (seed_one (validate_wheel env) wm_sha256 ARTIFACT_PYTHON_WHEEL
               (\<lambda>d m. upsert_wheel d now m) now) wheels changed (d1, wt) of
             ((d2, wt), None) \<Rightarrow> ((d, st, wt), False)
           | ((d2, wt), Some changed) \<Rightarrow> ((if changed then d2 else d, st, wt), True))))"

section \<open>What an upload leaves\<close>

definition indexed :: "'m store \<Rightarrow> bool" where
  \<comment> \<open>a manifest has its body\<close>
  "indexed st = (\<forall>h. map_of (sto_manifests st) h \<noteq> None \<longrightarrow> map_of (sto_bodies st) h \<noteq> None)"

definition undone :: "stored_part set \<Rightarrow> 'm store \<Rightarrow> 'm store \<Rightarrow> bool" where
  \<comment> \<open>the files of every hash but one are as they were; of that one, what was stored stays (its manifest
    may be written again), and what was not is gone unless its removal failed\<close>
  "undone stuck st st' \<longleftrightarrow> (\<exists>sha. (\<forall>h. h \<noteq> sha \<longrightarrow> map_of (sto_bodies st') h = map_of (sto_bodies st) h
        \<and> map_of (sto_manifests st') h = map_of (sto_manifests st) h)
     \<and> (if map_of (sto_bodies st) sha \<noteq> None
        then map_of (sto_bodies st') sha \<noteq> None
          \<and> (map_of (sto_manifests st) sha \<noteq> None \<longrightarrow> map_of (sto_manifests st') sha \<noteq> None)
        else (map_of (sto_bodies st') sha \<noteq> None \<longrightarrow> Body_part \<in> stuck)
          \<and> (map_of (sto_manifests st') sha \<noteq> None \<longrightarrow> Manifest_part \<in> stuck)))"

lemma undone_refl: "indexed st \<Longrightarrow> undone stuck st st"
  unfolding undone_def indexed_def by (intro exI [of _ "[]"]) auto

lemma release_reserved:
  assumes "reserve_quota d n quota stored token rs = Inr (rs', tok)" and "token \<notin> fst ` set rs"
  shows "release_quota tok rs' = rs"
proof -
  have "AList.delete token rs = rs" using assms(2) by (induction rs) (auto simp: AList.delete_eq)
  then show ?thesis
    using assms(1) by (auto simp: reserve_quota_def admit_def release_quota_def split: if_splits)
qed

lemma no_body_no_manifest: "indexed st \<Longrightarrow> map_of (sto_bodies st) h = None \<Longrightarrow> map_of (sto_manifests st) h = None"
  by (auto simp: indexed_def)

lemma publish_outcome:
  assumes "publish stuck fault now sha256 content m st = (st', ok)"
  shows "ok \<Longrightarrow> map_of (sto_bodies st') sha256 = Some content \<and> map_of (sto_manifests st') sha256 = Some (Some (m, now))
      \<and> (\<forall>h. h \<noteq> sha256 \<longrightarrow> map_of (sto_bodies st') h = map_of (sto_bodies st) h
          \<and> map_of (sto_manifests st') h = map_of (sto_manifests st) h)"
    and "\<not> ok \<Longrightarrow> indexed st \<Longrightarrow> undone stuck st st'"
proof -
  show "\<not> ok \<Longrightarrow> indexed st \<Longrightarrow> undone stuck st st'"
    using assms no_body_no_manifest [of st sha256] unfolding undone_def
    by (intro exI [of _ sha256])
      (auto simp: publish_def Let_def remove_stored_def update_conv' delete_conv' split: publish_fault.splits if_splits)
qed (use assms in \<open>auto simp: publish_def Let_def remove_stored_def update_conv' delete_conv'
      split: publish_fault.splits if_splits\<close>)

lemma undo_publish:
  assumes "publish stuck fault now sha256 content m st = (st', True)"
  shows "undone stuck st (if map_of (sto_bodies st) sha256 \<noteq> None then st' else remove_stored stuck sha256 st')"
  using publish_outcome(1) [OF assms] unfolding undone_def
  by (intro exI [of _ sha256]) (simp add: remove_stored_def delete_conv')

lemma upload_outcome:
  assumes "upload_artifact env validate upsert spiders max_upload quota chunks stuck fault commits token now (d, st, rs)
      = ((d', st', rs'), result)"
    and "token \<notin> fst ` set rs" and "indexed st"
  shows "rs' = rs \<and> (case result of
      Uploaded a names \<Rightarrow> (\<exists>content m. staged max_upload 0 chunks = Inr content
        \<and> validate content (uo_sha256 env content) (int (length content)) = Inr m \<and> upsert d m = (d', a)
        \<and> names = spiders m
        \<and> map_of (sto_bodies st') (uo_sha256 env content) = Some content
        \<and> map_of (sto_manifests st') (uo_sha256 env content) = Some (Some (m, now)))
    | _ \<Rightarrow> d' = d \<and> undone stuck st st')"
proof (cases "staged max_upload 0 chunks")
  case (Inl e)
  then show ?thesis using assms(1,3) by (auto simp: upload_artifact_def intro: undone_refl)
next
  case (Inr content)
  let ?sha = "uo_sha256 env content"
  show ?thesis
  proof (cases "reserve_quota d (int (length content)) quota (map_of (sto_bodies st) ?sha \<noteq> None) token rs")
    case (Inl e)
    then show ?thesis using assms(1,3) Inr by (auto simp: upload_artifact_def intro: undone_refl)
  next
    case (Inr r)
    obtain rs1 tok where r: "r = (rs1, tok)" by (cases r)
    note released = release_reserved [OF Inr [unfolded r] assms(2)]
    show ?thesis
    proof (cases "validate content ?sha (int (length content))")
      case (Inl e)
      then show ?thesis using assms(1,3) \<open>staged max_upload 0 chunks = Inr content\<close> Inr r released
        by (auto simp: upload_artifact_def Let_def intro: undone_refl)
    next
      case valid: (Inr m)
      obtain st1 ok where p: "publish stuck fault now ?sha content m st = (st1, ok)" by (meson surj_pair)
      show ?thesis
      proof (cases "ok \<and> commits")
        case True
        then show ?thesis
          using assms(1) \<open>staged max_upload 0 chunks = Inr content\<close> Inr r released valid p publish_outcome(1) [OF p]
          by (auto simp: upload_artifact_def Let_def split: prod.splits)
      next
        case False
        then show ?thesis
          using assms(1,3) \<open>staged max_upload 0 chunks = Inr content\<close> Inr r released valid p
            publish_outcome(2) [OF p] undo_publish [of stuck fault now ?sha content m st st1]
          by (cases ok) (auto simp: upload_artifact_def Let_def)
      qed
    qed
  qed
qed

lemma staged_bounded: "staged max_upload n chunks = Inr content \<Longrightarrow> 0 < max_upload \<Longrightarrow> n \<le> max_upload
    \<Longrightarrow> n + int (length content) \<le> max_upload"
proof (induction chunks arbitrary: n content)
  case (Cons chunk chunks)
  show ?case
  proof (cases "chunk = []")
    case False
    then obtain rest where "staged max_upload (n + int (length chunk)) chunks = Inr rest" "content = chunk @ rest"
        "n + int (length chunk) \<le> max_upload"
      using Cons.prems by (cases "staged max_upload (n + int (length chunk)) chunks") (auto split: if_splits)
    then show ?thesis using Cons.IH [of "n + int (length chunk)" rest] Cons.prems(2) by simp
  qed (use Cons.prems in simp)
qed simp

lemma upsert_scrapy_row:
  assumes "upsert_scrapy d now m = (d', a)"
  shows "a \<in> set (db_artifacts d') \<and> ba_artifact_type a = ARTIFACT_SCRAPY \<and> ba_content_hash a = Some (sm_sha256 m)
    \<and> ba_size_bytes a = sm_size_bytes m"
proof (cases "get_by_type_hash d ARTIFACT_SCRAPY (sm_sha256 m)")
  case None
  then show ?thesis using assms by (auto simp: upsert_scrapy_def upsert_artifact_def Let_def new_id_def)
next
  case (Some old)
  then have "old \<in> set (db_artifacts d)" "ba_artifact_type old = ARTIFACT_SCRAPY" "ba_content_hash old = Some (sm_sha256 m)"
    by (auto simp: get_by_type_hash_def find_Some_iff)
  then show ?thesis using assms Some
    by (auto simp: upsert_scrapy_def upsert_artifact_def Let_def save_artifact_def set_row_def image_iff)
qed

lemma valid_egg: "validate_egg_path env filename content sha256 n hint = Inr m \<Longrightarrow> sm_sha256 m = sha256 \<and> sm_size_bytes m = n
    \<and> sm_spiders m \<noteq> []"
  by (auto simp: validate_egg_path_def Let_def split: zip_content.splits if_splits)

text \<open>C30. An egg upload is all or nothing: when it succeeds, the row names the hash and size of what was
  sent, within the cap on an upload, and that is what a download of the hash gives; however it fails (too large, over the quota, an
  invalid egg, a file system error at either rename, a failed commit) the rows are as before, every stored file is
  still there (the manifest of an egg stored before may have been written again), and a file of the new egg is there
  only when its removal failed too. Either way its reservation is given back.
\<close>

theorem egg_upload_all_or_nothing:
  assumes "upload_scrapy_egg env cfg filename project chunks stuck fault commits token now (d, st, rs) = ((d', st', rs'), result)"
    and "token \<notin> fst ` set rs" and "indexed st"
  shows "rs' = rs \<and> (case result of
      Uploaded a spiders \<Rightarrow> spiders \<noteq> [] \<and> a \<in> set (db_artifacts d') \<and> (\<exists>content.
        staged (artifacts_max_upload_bytes (cfg_artifacts cfg)) 0 chunks = Inr content
        \<and> (0 < artifacts_max_upload_bytes (cfg_artifacts cfg)
            \<longrightarrow> int (length content) \<le> artifacts_max_upload_bytes (cfg_artifacts cfg))
        \<and> ba_content_hash a = Some (uo_sha256 env content) \<and> ba_size_bytes a = int (length content)
        \<and> download_egg (uo_sha256 env content) st' = Inr (Some content))
    | _ \<Rightarrow> d' = d \<and> undone stuck st st')"
proof -
  note out = upload_outcome [OF assms(1) [unfolded upload_scrapy_egg_def] assms(2,3)]
  show ?thesis
  proof (cases result)
    case (Uploaded a spiders)
    then obtain content m where c: "staged (artifacts_max_upload_bytes (cfg_artifacts cfg)) 0 chunks = Inr content"
        "validate_egg_path env (or_text filename ''crawler.egg'') content (uo_sha256 env content) (int (length content)) project = Inr m"
        "upsert_scrapy d now m = (d', a)" "map_of (sto_bodies st') (uo_sha256 env content) = Some content"
        "map_of (sto_manifests st') (uo_sha256 env content) = Some (Some (m, now))" "spiders = sm_spiders m"
      using out by auto
    show ?thesis using out Uploaded c(1,4,5,6) upsert_scrapy_row [OF c(3)] valid_egg [OF c(2)] staged_bounded [OF c(1)]
      by (auto simp: download_egg_def get_manifest_def)
  qed (use out in simp_all)
qed

definition one_spider_os :: upload_os where
  "one_spider_os = \<lparr>uo_sha256 = (\<lambda>content. ''ab''), uo_zip = (\<lambda>content. Zip
     [\<lparr>zm_name = ''shop/spiders/prices.py'', zm_class_names = Some [''prices''], zm_headers = None\<rparr>])\<rparr>"

definition empty_store :: "'m store" where
  "empty_store = \<lparr>sto_bodies = [], sto_manifests = []\<rparr>"

theorem egg_upload_all_or_nothing_witness:
  "\<exists>d' st' a. upload_scrapy_egg one_spider_os default_settings None None [''PK'', []] {} No_fault True 0 5 (empty_db, empty_store, [])
      = ((d', st', []), Uploaded a [''prices'']) \<and> a \<in> set (db_artifacts d')
      \<and> download_egg ''ab'' st' = Inr (Some ''PK'')"
proof -
  let ?u = "upload_scrapy_egg one_spider_os default_settings None None [''PK'', []] {} No_fault True 0 5 (empty_db, empty_store, [])"
  obtain d' st' rs' result where u: "?u = ((d', st', rs'), result)" by (metis surj_pair)
  have "\<exists>a. result = Uploaded a [''prices'']"
    using u by (auto simp: upload_scrapy_egg_def upload_artifact_def one_spider_os_def empty_store_def default_settings_def
      default_artifacts_def reserve_quota_def needs_reservation_def admit_def stored_total_bytes_def reserved_bytes_def
      empty_db_def validate_egg_path_def discover_spiders_def spider_module_def forward_slashes_def contains_def ends_with_def
      publish_def Let_def split: prod.splits)
  then obtain a where a: "result = Uploaded a [''prices'']" by blast
  have sent: "staged (artifacts_max_upload_bytes (cfg_artifacts default_settings)) 0 [''PK'', []] = Inr ''PK''"
    by (simp add: default_settings_def default_artifacts_def)
  show ?thesis using egg_upload_all_or_nothing [OF u] sent u a
    by (auto simp: indexed_def empty_store_def one_spider_os_def)
qed

end
