(* ===== verification/UploadRaces.thy ===== *)
theory UploadRaces
  imports Uploads
begin

text \<open>
  Several egg uploads at once (\<^verbatim>\<open>api/v1/artifacts.py\<close>, \<^verbatim>\<open>artifacts/upload.py\<close>): the steps of
  \<open>upload_scrapy_egg\<close> between two awaits, under the publish lock of the hash, with the quota lock
  around reading the stored total and reserving. The list route, which inserts a row for every
  manifest on disk, takes neither lock. (The wheel routes differ in nothing that matters here.)

  \<^item> A place is where an upload is: after the lock and the check for stored bytes, with the total
    read, admitted, published, or on its way out with its reservation still held.
  \<^item> \<open>mf\<close> gives the manifest of a hash (two uploads of one hash may differ in file name and project;
    what is proved rests on hash and size alone). A commit or an insert of the list route is one step.
  \<^item> Taking back an egg or a manifest is best effort: any of the two files may stay. A publication that
    fails may have got as far as the egg.
  \<^item> The quota lock is held from the read of the stored total to the decision; commits and releases
    take no lock, and fall between the two.
  \<^item> The kind of a step says whose it is: an upload's, a restart of the server, or the list route's.
\<close>

section \<open>Steps\<close>

datatype upload_place =
    Idle
  | Locked string bool
  | Counting string int
  | Admitted string bool
  | Published string bool
  | Leaving

datatype step_kind = Own | Restart | Listing

record depot =
  dp_db :: db
  dp_bodies :: "string set" \<comment> \<open>hashes with an egg on disk\<close>
  dp_manifests :: "string set" \<comment> \<open>hashes with a manifest on disk\<close>
  dp_reserved :: reservations
  dp_uploads :: "nat \<Rightarrow> upload_place"

fun locked_hash :: "upload_place \<Rightarrow> string option" where
  "locked_hash (Locked sha stored) = Some sha"
| "locked_hash (Counting sha current) = Some sha"
| "locked_hash (Admitted sha stored) = Some sha"
| "locked_hash (Published sha stored) = Some sha"
| "locked_hash place = None"

definition quota_lock_free :: "depot \<Rightarrow> bool" where
  "quota_lock_free s = (\<forall>n sha current. dp_uploads s n \<noteq> Counting sha current)"

definition at_place :: "nat \<Rightarrow> upload_place \<Rightarrow> depot \<Rightarrow> depot" where
  "at_place n p s = s\<lparr>dp_uploads := (dp_uploads s)(n := p)\<rparr>"

inductive upload_step :: "int \<Rightarrow> (string \<Rightarrow> scrapy_manifest) \<Rightarrow> step_kind \<Rightarrow> depot \<Rightarrow> depot \<Rightarrow> bool" for quota mf where
  enter: "dp_uploads s n = Idle \<Longrightarrow> \<forall>m. locked_hash (dp_uploads s m) \<noteq> Some sha
    \<Longrightarrow> upload_step quota mf Own s (at_place n (Locked sha (sha \<in> dp_bodies s)) s)"
| no_quota: "dp_uploads s n = Locked sha stored \<Longrightarrow> \<not> needs_reservation quota (sm_size_bytes (mf sha)) stored
    \<Longrightarrow> upload_step quota mf Own s (at_place n (Admitted sha stored) s)"
| read_total: "dp_uploads s n = Locked sha stored \<Longrightarrow> needs_reservation quota (sm_size_bytes (mf sha)) stored
    \<Longrightarrow> quota_lock_free s
    \<Longrightarrow> upload_step quota mf Own s (at_place n (Counting sha (stored_total_bytes (dp_db s))) s)"
| decide_admit: "dp_uploads s n = Counting sha current
    \<Longrightarrow> admit quota (sm_size_bytes (mf sha)) current n (dp_reserved s) = Inr rs
    \<Longrightarrow> upload_step quota mf Own s (at_place n (Admitted sha False) (s\<lparr>dp_reserved := rs\<rparr>))"
| decide_refuse: "dp_uploads s n = Counting sha current
    \<Longrightarrow> admit quota (sm_size_bytes (mf sha)) current n (dp_reserved s) = Inl e
    \<Longrightarrow> upload_step quota mf Own s (at_place n Leaving s)"
| publish: "dp_uploads s n = Admitted sha stored
    \<Longrightarrow> upload_step quota mf Own s (at_place n (Published sha stored)
          (s\<lparr>dp_bodies := insert sha (dp_bodies s), dp_manifests := insert sha (dp_manifests s)\<rparr>))"
| publish_fails: "dp_uploads s n = Admitted sha stored \<Longrightarrow> egg_left \<subseteq> {sha} \<Longrightarrow> manifest_gone \<subseteq> (if stored then {} else {sha})
    \<Longrightarrow> upload_step quota mf Own s (at_place n Leaving
          (s\<lparr>dp_bodies := dp_bodies s \<union> egg_left, dp_manifests := dp_manifests s - manifest_gone\<rparr>))"
| commit: "dp_uploads s n = Published sha stored
    \<Longrightarrow> upload_step quota mf Own s
          (at_place n Leaving (s\<lparr>dp_db := fst (upsert_scrapy (dp_db s) now (mf sha))\<rparr>))"
| rollback: "dp_uploads s n = Published sha stored \<Longrightarrow> egg_gone \<union> manifest_gone \<subseteq> (if stored then {} else {sha})
    \<Longrightarrow> upload_step quota mf Own s (at_place n Leaving
          (s\<lparr>dp_bodies := dp_bodies s - egg_gone, dp_manifests := dp_manifests s - manifest_gone\<rparr>))"
| release: "dp_uploads s n = Leaving
    \<Longrightarrow> upload_step quota mf Own s (at_place n Idle (s\<lparr>dp_reserved := AList.delete n (dp_reserved s)\<rparr>))"
| restart: "upload_step quota mf Restart s (s\<lparr>dp_uploads := \<lambda>n. Idle, dp_reserved := []\<rparr>)"
| listing: "set shas \<subseteq> dp_manifests s
    \<Longrightarrow> upload_step quota mf Listing s (s\<lparr>dp_db := reconcile_scrapy_store (dp_db s) now (map mf shas)\<rparr>)"

inductive upload_run :: "int \<Rightarrow> (string \<Rightarrow> scrapy_manifest) \<Rightarrow> step_kind set \<Rightarrow> depot \<Rightarrow> depot \<Rightarrow> bool"
  for quota mf kinds s0 where
  stop: "upload_run quota mf kinds s0 s0"
| step: "upload_run quota mf kinds s0 s \<Longrightarrow> k \<in> kinds \<Longrightarrow> upload_step quota mf k s s'
    \<Longrightarrow> upload_run quota mf kinds s0 s'"

section \<open>Rows of eggs\<close>

definition egg_rows :: "db \<Rightarrow> string set" where
  "egg_rows d = {h. \<exists>a \<in> set (db_artifacts d). ba_artifact_type a = ARTIFACT_SCRAPY \<and> ba_content_hash a = Some h}"

definition names_hash :: "(string \<Rightarrow> scrapy_manifest) \<Rightarrow> bool" where
  "names_hash mf = (\<forall>sha. sm_sha256 (mf sha) = sha \<and> 0 \<le> sm_size_bytes (mf sha))"

definition artifacts_ok :: "(string \<Rightarrow> scrapy_manifest) \<Rightarrow> db \<Rightarrow> bool" where
  \<comment> \<open>keys are unique, fresh ids are unused, and a row has the size of its egg\<close>
  "artifacts_ok mf d \<longleftrightarrow> distinct (map ba_id (db_artifacts d))
     \<and> (\<forall>n \<ge> db_next_id d. fresh_id n \<notin> ba_id ` set (db_artifacts d))
     \<and> (\<forall>a \<in> set (db_artifacts d). ba_artifact_type a = ARTIFACT_SCRAPY \<longrightarrow>
          (\<forall>h. ba_content_hash a = Some h \<longrightarrow> ba_size_bytes a = sm_size_bytes (mf h)))"

lemma get_by_type_hash_none: "get_by_type_hash d ARTIFACT_SCRAPY sha = None \<longleftrightarrow> sha \<notin> egg_rows d"
  by (auto simp: get_by_type_hash_def egg_rows_def find_None_iff)

lemma get_by_type_hash_some:
  "get_by_type_hash d ARTIFACT_SCRAPY sha = Some a \<Longrightarrow>
    a \<in> set (db_artifacts d) \<and> ba_artifact_type a = ARTIFACT_SCRAPY \<and> ba_content_hash a = Some sha"
  by (auto simp: get_by_type_hash_def find_Some_iff)

lemma set_row_same:
  assumes "distinct (map key rows)" and "r \<in> set rows" and "key r' = key r" and "f r' = f r"
  shows "map f (set_row key rows r') = map f rows"
proof -
  have "f (if key x = key r' then r' else x) = f x" if "x \<in> set rows" for x
    using assms that by (auto simp: distinct_map dest: inj_onD)
  then show ?thesis by (simp add: set_row_def)
qed

lemma upsert_known:
  assumes "names_hash mf" and ok: "artifacts_ok mf d" and "sha \<in> egg_rows d"
  shows "artifacts_ok mf (fst (upsert_scrapy d now (mf sha)))
    \<and> egg_rows (fst (upsert_scrapy d now (mf sha))) = egg_rows d
    \<and> stored_total_bytes (fst (upsert_scrapy d now (mf sha))) = stored_total_bytes d"
proof -
  obtain a where get: "get_by_type_hash d ARTIFACT_SCRAPY sha = Some a"
    using assms(3) get_by_type_hash_none [of d sha] by blast
  note a = get_by_type_hash_some [OF get]
  obtain a' where up: "fst (upsert_scrapy d now (mf sha)) = save_artifact d a'"
    and a': "ba_id a' = ba_id a" "ba_artifact_type a' = ba_artifact_type a"
      "ba_content_hash a' = ba_content_hash a" "ba_size_bytes a' = sm_size_bytes (mf sha)"
    using get assms(1) by (simp add: upsert_scrapy_def upsert_artifact_def names_hash_def Let_def)
  have sz: "ba_size_bytes a' = ba_size_bytes a" using a'(4) a ok by (simp add: artifacts_ok_def)
  have dist: "distinct (map ba_id (db_artifacts d))" using ok by (simp add: artifacts_ok_def)
  have same: "map f (db_artifacts (save_artifact d a')) = map f (db_artifacts d)" if "f a' = f a" for f :: "build_artifact \<Rightarrow> 'x"
    using set_row_same [OF dist _ a'(1)] a that by (simp add: save_artifact_def)
  let ?f = "\<lambda>x. (ba_id x, ba_artifact_type x, ba_content_hash x, ba_size_bytes x)"
  have proj: "?f ` set (db_artifacts (save_artifact d a')) = ?f ` set (db_artifacts d)"
    using same [of ?f] a' sz by (metis (no_types, lifting) image_set)
  have ids: "map ba_id (db_artifacts (save_artifact d a')) = map ba_id (db_artifacts d)"
    by (rule same) (rule a'(1))
  have next_id: "db_next_id (save_artifact d a') = db_next_id d" by (simp add: save_artifact_def)
  have mem: "\<exists>y \<in> set (db_artifacts d). ?f y = ?f x" if "x \<in> set (db_artifacts (save_artifact d a'))" for x
    using proj that by (metis (no_types, lifting) image_iff)
  have mem': "\<exists>y \<in> set (db_artifacts (save_artifact d a')). ?f y = ?f x" if "x \<in> set (db_artifacts d)" for x
    using proj that by (metis (no_types, lifting) image_iff)
  have "artifacts_ok mf (save_artifact d a')"
  proof -
    have "ba_id ` set (db_artifacts (save_artifact d a')) = ba_id ` set (db_artifacts d)"
      using ids by (metis image_set)
    moreover have "ba_size_bytes x = sm_size_bytes (mf h)"
      if "x \<in> set (db_artifacts (save_artifact d a'))" "ba_artifact_type x = ARTIFACT_SCRAPY" "ba_content_hash x = Some h" for x h
      using mem [OF that(1)] that(2,3) ok unfolding artifacts_ok_def by (metis Pair_inject)
    ultimately show ?thesis using ok ids unfolding artifacts_ok_def next_id by simp
  qed
  moreover have "egg_rows (save_artifact d a') = egg_rows d"
    unfolding egg_rows_def using mem mem' by (metis (no_types, lifting) Pair_inject)
  moreover have "stored_total_bytes (save_artifact d a') = stored_total_bytes d"
    using same [of ba_size_bytes] sz by (simp add: stored_total_bytes_def)
  ultimately show ?thesis by (simp add: up)
qed

lemma upsert_new:
  assumes "names_hash mf" and ok: "artifacts_ok mf d" and "sha \<notin> egg_rows d"
  shows "artifacts_ok mf (fst (upsert_scrapy d now (mf sha)))
    \<and> egg_rows (fst (upsert_scrapy d now (mf sha))) = insert sha (egg_rows d)
    \<and> stored_total_bytes (fst (upsert_scrapy d now (mf sha))) = stored_total_bytes d + sm_size_bytes (mf sha)"
proof -
  have none: "get_by_type_hash d ARTIFACT_SCRAPY sha = None" using assms(3) get_by_type_hash_none by blast
  obtain a where up: "fst (upsert_scrapy d now (mf sha)) = d\<lparr>db_next_id := Suc (db_next_id d), db_artifacts := db_artifacts d @ [a]\<rparr>"
    and a: "ba_id a = fresh_id (db_next_id d)" "ba_artifact_type a = ARTIFACT_SCRAPY"
      "ba_content_hash a = Some sha" "ba_size_bytes a = sm_size_bytes (mf sha)"
    using none assms(1) by (simp add: upsert_scrapy_def upsert_artifact_def names_hash_def Let_def new_id_def)
  show ?thesis
    using ok a unfolding up by (auto simp: artifacts_ok_def egg_rows_def stored_total_bytes_def)
qed

section \<open>A row keeps its egg\<close>

fun place_ok :: "depot \<Rightarrow> upload_place \<Rightarrow> bool" where
  "place_ok s (Locked sha stored) \<longleftrightarrow> (stored \<longleftrightarrow> sha \<in> dp_bodies s)"
| "place_ok s (Counting sha current) \<longleftrightarrow> sha \<notin> dp_bodies s"
| "place_ok s (Admitted sha stored) \<longleftrightarrow> (stored \<longleftrightarrow> sha \<in> dp_bodies s)"
| "place_ok s (Published sha stored) \<longleftrightarrow> sha \<in> dp_bodies s \<and> (stored \<or> sha \<notin> egg_rows (dp_db s))"
| "place_ok s place \<longleftrightarrow> True"

definition depot_ok :: "(string \<Rightarrow> scrapy_manifest) \<Rightarrow> depot \<Rightarrow> bool" where
  "depot_ok mf s \<longleftrightarrow> artifacts_ok mf (dp_db s) \<and> egg_rows (dp_db s) \<subseteq> dp_bodies s
     \<and> (\<forall>n. place_ok s (dp_uploads s n))
     \<and> (\<forall>n m sha. locked_hash (dp_uploads s n) = Some sha \<longrightarrow> locked_hash (dp_uploads s m) = Some sha \<longrightarrow> n = m)"

lemma depot_okI:
  assumes "artifacts_ok mf (dp_db s)" and "egg_rows (dp_db s) \<subseteq> dp_bodies s"
    and "\<And>n. place_ok s (dp_uploads s n)"
    and "\<And>n m h. locked_hash (dp_uploads s n) = Some h \<Longrightarrow> locked_hash (dp_uploads s m) = Some h \<Longrightarrow> n = m"
  shows "depot_ok mf s"
  unfolding depot_ok_def using assms by (intro conjI allI impI)

lemma at_place_simps [simp]:
  "dp_db (at_place n p s) = dp_db s" "dp_bodies (at_place n p s) = dp_bodies s"
  "dp_manifests (at_place n p s) = dp_manifests s"
  "dp_reserved (at_place n p s) = dp_reserved s" "dp_uploads (at_place n p s) = (dp_uploads s)(n := p)"
  by (simp_all add: at_place_def)

lemma place_ok_cong:
  "dp_bodies s' = dp_bodies s \<Longrightarrow> dp_db s' = dp_db s \<Longrightarrow> place_ok s' p = place_ok s p"
  by (cases p) simp_all

lemma place_ok_other:
  assumes "place_ok s p" and "locked_hash p \<noteq> Some sha"
    and "\<And>h. h \<noteq> sha \<Longrightarrow> h \<in> dp_bodies s' \<longleftrightarrow> h \<in> dp_bodies s"
    and "\<And>h. h \<noteq> sha \<Longrightarrow> h \<in> egg_rows (dp_db s') \<longleftrightarrow> h \<in> egg_rows (dp_db s)"
  shows "place_ok s' p"
  using assms by (cases p) auto

lemma upsert_egg_rows:
  assumes "names_hash mf" and "artifacts_ok mf d"
  shows "artifacts_ok mf (fst (upsert_scrapy d now (mf sha)))"
    and "egg_rows (fst (upsert_scrapy d now (mf sha))) = insert sha (egg_rows d)"
  using upsert_known [OF assms, of sha now] upsert_new [OF assms, of sha now] by (cases "sha \<in> egg_rows d"; auto)+

lemma place_ok_at [simp]: "place_ok (at_place n p s) q = place_ok s q"
  by (rule place_ok_cong) simp_all

lemma depot_moves:
  assumes ok: "depot_ok mf s" and here: "locked_hash (dp_uploads s n) = Some sha"
    and there: "locked_hash p = Some sha \<or> locked_hash p = None" "dp_uploads t = dp_uploads s"
    and "artifacts_ok mf (dp_db t)" and "egg_rows (dp_db t) \<subseteq> dp_bodies t" and "place_ok t p"
    and bodies: "\<And>h. h \<noteq> sha \<Longrightarrow> h \<in> dp_bodies t \<longleftrightarrow> h \<in> dp_bodies s"
    and rows: "\<And>h. h \<noteq> sha \<Longrightarrow> h \<in> egg_rows (dp_db t) \<longleftrightarrow> h \<in> egg_rows (dp_db s)"
  shows "depot_ok mf (at_place n p t)" (is "depot_ok mf ?s'")
proof (rule depot_okI)
  have alone: "locked_hash (dp_uploads s m) \<noteq> Some sha" if "m \<noteq> n" for m
    using ok here that unfolding depot_ok_def by blast
  show "place_ok ?s' (dp_uploads ?s' m)" for m
  proof (cases "m = n")
    case False
    have "place_ok s (dp_uploads s m)" using ok by (simp add: depot_ok_def)
    then show ?thesis using place_ok_other [OF _ alone [OF False] bodies rows] False there(2) by simp
  qed (use assms(7) in simp)
  show "m = m'" if "locked_hash (dp_uploads ?s' m) = Some h" "locked_hash (dp_uploads ?s' m') = Some h" for m m' h
  proof -
    have old: "locked_hash (dp_uploads s k) = Some h" if "locked_hash (dp_uploads ?s' k) = Some h" for k
      using that there here by (cases "k = n") auto
    show ?thesis using ok old [OF that(1)] old [OF that(2)] by (auto simp: depot_ok_def)
  qed
qed (use assms(5,6) in simp_all)

lemma depot_enters:
  assumes ok: "depot_ok mf s" and "dp_uploads s n = Idle" and free: "\<forall>m. locked_hash (dp_uploads s m) \<noteq> Some sha"
  shows "depot_ok mf (at_place n (Locked sha (sha \<in> dp_bodies s)) s)" (is "depot_ok mf ?s'")
proof -
  have "place_ok ?s' (dp_uploads ?s' m)" for m
  proof -
    have "place_ok s (dp_uploads s m)" using ok by (simp add: depot_ok_def)
    then show ?thesis using place_ok_cong [of ?s' s] by (cases "m = n") simp_all
  qed
  moreover have "m = m'" if "locked_hash (dp_uploads ?s' m) = Some h" "locked_hash (dp_uploads ?s' m') = Some h" for m m' h
  proof (cases "h = sha")
    case True
    have "k = n" if "locked_hash (dp_uploads ?s' k) = Some h" for k
      using that spec [OF free, of k] True by (cases "k = n") simp_all
    from this [OF that(1)] this [OF that(2)] show ?thesis by simp
  next
    case False
    have "locked_hash (dp_uploads s k) = Some h" if "locked_hash (dp_uploads ?s' k) = Some h" for k
      using that False by (cases "k = n") simp_all
    from this [OF that(1)] this [OF that(2)] show ?thesis using ok by (auto simp: depot_ok_def)
  qed
  moreover have "artifacts_ok mf (dp_db ?s')" "egg_rows (dp_db ?s') \<subseteq> dp_bodies ?s'"
    using ok by (simp_all add: depot_ok_def)
  ultimately show ?thesis by (intro depot_okI)
qed

lemma depot_releases:
  assumes ok: "depot_ok mf s" and "dp_uploads s n = Leaving"
  shows "depot_ok mf (at_place n Idle (s\<lparr>dp_reserved := rs\<rparr>))" (is "depot_ok mf ?s'")
proof -
  have "place_ok ?s' (dp_uploads ?s' m)" for m
  proof -
    have "place_ok s (dp_uploads s m)" using ok by (simp add: depot_ok_def)
    then show ?thesis using place_ok_cong [of ?s' s] by (cases "m = n") simp_all
  qed
  moreover have "m = m'" if "locked_hash (dp_uploads ?s' m) = Some h" "locked_hash (dp_uploads ?s' m') = Some h" for m m' h
  proof -
    have "locked_hash (dp_uploads s k) = Some h" if "locked_hash (dp_uploads ?s' k) = Some h" for k
      using that by (cases "k = n") simp_all
    from this [OF that(1)] this [OF that(2)] show ?thesis using ok by (auto simp: depot_ok_def)
  qed
  moreover have "artifacts_ok mf (dp_db ?s')" "egg_rows (dp_db ?s') \<subseteq> dp_bodies ?s'"
    using ok by (simp_all add: depot_ok_def)
  ultimately show ?thesis by (intro depot_okI)
qed

lemma depot_ok_step:
  assumes mf: "names_hash mf" and ok: "depot_ok mf s" and "upload_step quota mf k s s'" and "k \<noteq> Listing"
  shows "depot_ok mf s'"
proof -
  have place: "place_ok s p" if "dp_uploads s m = p" for m p using ok that by (auto simp: depot_ok_def)
  have alone: "m = m'" if "locked_hash (dp_uploads s m) = Some h" "locked_hash (dp_uploads s m') = Some h" for m m' h
    using that ok by (auto simp: depot_ok_def)
  have rows: "artifacts_ok mf (dp_db s)" "egg_rows (dp_db s) \<subseteq> dp_bodies s" using ok by (simp_all add: depot_ok_def)
  from assms(3,4) show ?thesis
  proof cases
    case (enter n sha)
    show ?thesis unfolding enter(2) by (rule depot_enters [OF ok enter(3,4)])
  next
    case (no_quota n sha stored)
    show ?thesis unfolding no_quota(2) using place [OF no_quota(3)] no_quota(3) rows
      by (intro depot_moves [OF ok, of n sha]) simp_all
  next
    case (read_total n sha stored)
    show ?thesis unfolding read_total(2) using place [OF read_total(3)] read_total(3,4) rows
      by (intro depot_moves [OF ok, of n sha]) (simp_all add: needs_reservation_def)
  next
    case (decide_admit n sha current rs)
    show ?thesis unfolding decide_admit(2) using place [OF decide_admit(3)] decide_admit(3) rows
      by (intro depot_moves [OF ok, of n sha]) simp_all
  next
    case (decide_refuse n sha current e)
    show ?thesis unfolding decide_refuse(2) using decide_refuse(3) rows by (intro depot_moves [OF ok, of n sha]) simp_all
  next
    case (publish n sha stored)
    show ?thesis unfolding publish(2) using place [OF publish(3)] publish(3) rows
      by (intro depot_moves [OF ok, of n sha]) auto
  next
    case (publish_fails n sha stored egg_left manifest_gone)
    show ?thesis unfolding publish_fails(2) using publish_fails(3,4) rows by (intro depot_moves [OF ok, of n sha]) auto
  next
    case (commit n sha stored now)
    show ?thesis unfolding commit(2) using place [OF commit(3)] commit(3) rows upsert_egg_rows [OF mf rows(1)]
      by (intro depot_moves [OF ok, of n sha]) auto
  next
    case (rollback n sha stored egg_gone manifest_gone)
    show ?thesis unfolding rollback(2) using place [OF rollback(3)] rollback(3,4) rows
      by (intro depot_moves [OF ok, of n sha]) (auto split: if_splits)
  next
    case (release n)
    show ?thesis unfolding release(2) by (rule depot_releases [OF ok release(3)])
  next
    case restart
    show ?thesis unfolding restart(2) using rows by (intro depot_okI) simp_all
  qed simp
qed

lemma depot_ok_run:
  assumes "upload_run quota mf kinds s0 s" and "Listing \<notin> kinds" and "names_hash mf" and "depot_ok mf s0"
  shows "depot_ok mf s"
  using assms
proof (induction rule: upload_run.induct)
  case (step s k s')
  then show ?case using depot_ok_step by metis
qed simp

text \<open>C31. Without the list route, no interleaving of uploads, failed ones included, and no restart in
  between ever leaves an artifact row whose egg is not on disk.
\<close>

theorem committed_artifact_keeps_body:
  assumes "upload_run quota mf {Own, Restart} s0 s" and "names_hash mf"
    and "artifacts_ok mf (dp_db s0)" and "egg_rows (dp_db s0) \<subseteq> dp_bodies s0" and "\<And>n. dp_uploads s0 n = Idle"
  shows "egg_rows (dp_db s) \<subseteq> dp_bodies s"
proof -
  have "depot_ok mf s0" using assms(3-5) by (simp add: depot_ok_def)
  then have "depot_ok mf s" using depot_ok_run [OF assms(1)] assms(2) by simp
  then show ?thesis by (simp add: depot_ok_def)
qed

definition egg_of :: "string \<Rightarrow> scrapy_manifest" where
  "egg_of sha = \<lparr>sm_project = ''shop'', sm_version = ''1'', sm_spiders = [''prices''], sm_sha256 = sha,
     sm_filename = ''shop.egg'', sm_size_bytes = 60\<rparr>"

definition empty_depot :: depot where
  "empty_depot = \<lparr>dp_db = empty_db, dp_bodies = {}, dp_manifests = {}, dp_reserved = [], dp_uploads = (\<lambda>n. Idle)\<rparr>"

lemma empty_depot_simps [simp]:
  "names_hash egg_of" "artifacts_ok mf (dp_db empty_depot)" "egg_rows (dp_db empty_depot) = {}"
  "dp_bodies empty_depot = {}" "dp_reserved empty_depot = []" "dp_uploads empty_depot = (\<lambda>n. Idle)"
  "stored_total_bytes (dp_db empty_depot) = 0"
  by (simp_all add: names_hash_def egg_of_def artifacts_ok_def empty_depot_def empty_db_def egg_rows_def stored_total_bytes_def)

lemma same_reserved: "s\<lparr>dp_reserved := dp_reserved s\<rparr> = (s :: depot)" by (cases s) simp

lemma egg_of_size: "sm_size_bytes (egg_of sha) = 60" by (simp add: egg_of_def)

text \<open>An upload the quota admits, up to its publication.\<close>

lemma upload_publishes:
  assumes "dp_uploads s0 = (\<lambda>n. Idle)" and "dp_reserved s0 = []" and "sha \<notin> dp_bodies s0"
    and room: "quota \<le> 0 \<or> stored_total_bytes (dp_db s0) + sm_size_bytes (mf sha) \<le> quota" and "Own \<in> kinds"
  obtains s where "upload_run quota mf kinds s0 s" and "dp_uploads s = (\<lambda>n. Idle)(0 := Published sha False)"
    and "dp_bodies s = insert sha (dp_bodies s0)" and "sha \<in> dp_manifests s" and "dp_db s = dp_db s0"
    and "dp_reserved s = [] \<or> dp_reserved s = [(0, sm_size_bytes (mf sha))]"
proof -
  note go = upload_run.step [OF _ assms(5)]
  let ?s1 = "at_place 0 (Locked sha False) s0"
  have r1: "upload_run quota mf kinds s0 ?s1"
    using go [OF upload_run.stop upload_step.enter [of s0 0 sha quota mf]] assms(1,3) by simp
  obtain rs where r2: "upload_run quota mf kinds s0 (at_place 0 (Admitted sha False) (?s1\<lparr>dp_reserved := rs\<rparr>))"
    and rs: "rs = [] \<or> rs = [(0, sm_size_bytes (mf sha))]"
  proof (cases "needs_reservation quota (sm_size_bytes (mf sha)) False")
    case True
    have "admit quota (sm_size_bytes (mf sha)) (stored_total_bytes (dp_db ?s1)) 0 (dp_reserved ?s1)
        = Inr [(0, sm_size_bytes (mf sha))]"
      using room True assms(2) by (simp add: admit_def reserved_bytes_def needs_reservation_def)
    note admits = this
    let ?c = "at_place 0 (Counting sha (stored_total_bytes (dp_db s0))) ?s1"
    have "upload_step quota mf Own ?s1 ?c"
      using upload_step.read_total [of ?s1 0 sha False quota mf] True by (simp add: quota_lock_free_def assms(1))
    from go [OF r1 this] have c: "upload_run quota mf kinds s0 ?c" .
    have "upload_step quota mf Own ?c
        (at_place 0 (Admitted sha False) (?c\<lparr>dp_reserved := [(0, sm_size_bytes (mf sha))]\<rparr>))"
      by (rule upload_step.decide_admit [where current = "stored_total_bytes (dp_db s0)"]) (use admits in simp_all)
    moreover have "at_place 0 (Admitted sha False) (?c\<lparr>dp_reserved := rs\<rparr>)
        = at_place 0 (Admitted sha False) (?s1\<lparr>dp_reserved := rs\<rparr>)" for rs
      by (simp add: at_place_def)
    ultimately have "upload_step quota mf Own ?c
        (at_place 0 (Admitted sha False) (?s1\<lparr>dp_reserved := [(0, sm_size_bytes (mf sha))]\<rparr>))" by simp
    from go [OF c this] that show ?thesis by blast
  next
    case False
    have "upload_step quota mf Own ?s1 (at_place 0 (Admitted sha False) ?s1)"
      using upload_step.no_quota [of ?s1 0 sha False quota mf] False by simp
    from go [OF r1 this] that [of "dp_reserved ?s1"] assms(2) show ?thesis by (simp only: same_reserved) simp
  qed
  let ?s2 = "at_place 0 (Admitted sha False) (?s1\<lparr>dp_reserved := rs\<rparr>)"
  let ?s3 = "at_place 0 (Published sha False)
    (?s2\<lparr>dp_bodies := insert sha (dp_bodies ?s2), dp_manifests := insert sha (dp_manifests ?s2)\<rparr>)"
  have "upload_run quota mf kinds s0 ?s3" by (rule go [OF r2 upload_step.publish [where stored = False]]) simp
  then show ?thesis by (rule that) (use rs assms(1) in simp_all)
qed

text \<open>Its commit and release.\<close>

lemma upload_commits:
  assumes "names_hash mf" and "artifacts_ok mf (dp_db s)" and "sha \<notin> egg_rows (dp_db s)"
    and "dp_uploads s n = Published sha False" and run: "upload_run quota mf kinds s0 s" and "Own \<in> kinds"
  obtains s' where "upload_run quota mf kinds s0 s'" and "dp_uploads s' = (dp_uploads s)(n := Idle)"
    and "dp_bodies s' = dp_bodies s" and "artifacts_ok mf (dp_db s')"
    and "egg_rows (dp_db s') = insert sha (egg_rows (dp_db s))" and "dp_reserved s' = AList.delete n (dp_reserved s)"
    and "stored_total_bytes (dp_db s') = stored_total_bytes (dp_db s) + sm_size_bytes (mf sha)"
proof -
  note go = upload_run.step [OF _ assms(6)]
  let ?s4 = "at_place n Leaving (s\<lparr>dp_db := fst (upsert_scrapy (dp_db s) 0 (mf sha))\<rparr>)"
  let ?s5 = "at_place n Idle (?s4\<lparr>dp_reserved := AList.delete n (dp_reserved ?s4)\<rparr>)"
  have r4: "upload_run quota mf kinds s0 ?s4" by (rule go [OF run upload_step.commit]) (rule assms(4))
  have "upload_run quota mf kinds s0 ?s5" by (rule go [OF r4 upload_step.release]) simp
  then show ?thesis by (rule that) (use upsert_new [OF assms(1-3), of 0] in simp_all)
qed

theorem committed_artifact_keeps_body_witness:
  "\<exists>s. upload_run 100 egg_of {Own, Restart} empty_depot s \<and> egg_rows (dp_db s) = {''aa''}
    \<and> egg_rows (dp_db s) \<subseteq> dp_bodies s"
proof -
  let ?K = "{Own, Restart}"
  obtain s where s: "upload_run 100 egg_of ?K empty_depot s" "dp_uploads s = (\<lambda>n. Idle)(0 := Published ''aa'' False)"
      "dp_db s = dp_db empty_depot"
    by (rule upload_publishes [of empty_depot "''aa''" 100 egg_of ?K]) (simp_all add: egg_of_size)
  obtain s' where s': "upload_run 100 egg_of ?K empty_depot s'" "egg_rows (dp_db s') = {''aa''}"
    by (rule upload_commits [of egg_of s "''aa''" 0 100 ?K empty_depot]) (simp_all add: s)
  have "egg_rows (dp_db s') \<subseteq> dp_bodies s'" by (rule committed_artifact_keeps_body [OF s'(1)]) simp_all
  with s' show ?thesis by blast
qed

text \<open>C32. The list route breaks this: it inserts a row for a published egg whose upload then fails to
  commit and takes the bytes back. The row stays, and the egg cannot be downloaded.
\<close>

theorem listing_strands_row:
  assumes "names_hash mf" and "dp_uploads s0 = (\<lambda>n. Idle)" and "dp_reserved s0 = []"
    and "artifacts_ok mf (dp_db s0)" and "sha \<notin> egg_rows (dp_db s0)" and "sha \<notin> dp_bodies s0"
    and "quota \<le> 0 \<or> stored_total_bytes (dp_db s0) + sm_size_bytes (mf sha) \<le> quota"
  shows "\<exists>s. upload_run quota mf {Own, Listing} s0 s \<and> dp_uploads s = (\<lambda>n. Idle)
    \<and> sha \<in> egg_rows (dp_db s) \<and> sha \<notin> dp_bodies s"
proof -
  let ?K = "{Own, Listing}"
  obtain s where s: "upload_run quota mf ?K s0 s" "dp_uploads s = (\<lambda>n. Idle)(0 := Published sha False)"
      "sha \<in> dp_manifests s" "dp_db s = dp_db s0"
    by (rule upload_publishes [of s0 sha quota mf ?K]) (use assms(2,3,6,7) in simp_all)
  let ?s1 = "s\<lparr>dp_db := reconcile_scrapy_store (dp_db s) 0 (map mf [sha])\<rparr>"
  let ?s2 = "at_place 0 Leaving (?s1\<lparr>dp_bodies := dp_bodies ?s1 - {sha}, dp_manifests := dp_manifests ?s1 - {sha}\<rparr>)"
  let ?s3 = "at_place 0 Idle (?s2\<lparr>dp_reserved := AList.delete 0 (dp_reserved ?s2)\<rparr>)"
  have "upload_step quota mf Listing s ?s1" using s(3) by (intro upload_step.listing) simp
  from upload_run.step [OF s(1) _ this] have r1: "upload_run quota mf ?K s0 ?s1" by simp
  have "upload_step quota mf Own ?s1 ?s2"
    using upload_step.rollback [of ?s1 0 sha False "{sha}" "{sha}" quota mf] s(2) by simp
  from upload_run.step [OF r1 _ this] have r2: "upload_run quota mf ?K s0 ?s2" by simp
  have "upload_step quota mf Own ?s2 ?s3" by (rule upload_step.release) simp
  from upload_run.step [OF r2 _ this] have r3: "upload_run quota mf ?K s0 ?s3" by simp
  have "sm_sha256 (mf sha) = sha" using assms(1) by (simp add: names_hash_def)
  then have "dp_db ?s1 = fst (upsert_scrapy (dp_db s0) 0 (mf sha))"
    using assms(5) s(4) by (simp add: reconcile_scrapy_store_def get_by_type_hash_none)
  then have "sha \<in> egg_rows (dp_db ?s3)" using upsert_new [OF assms(1,4,5), of 0] by simp
  then show ?thesis using r3 s(2) by (intro exI [of _ ?s3]) (simp add: fun_eq_iff)
qed

theorem listing_strands_row_witness:
  "\<exists>s. upload_run 100 egg_of {Own, Listing} empty_depot s \<and> ''aa'' \<in> egg_rows (dp_db s) \<and> ''aa'' \<notin> dp_bodies s"
proof -
  have "\<exists>s. upload_run 100 egg_of {Own, Listing} empty_depot s \<and> dp_uploads s = (\<lambda>n. Idle)
    \<and> ''aa'' \<in> egg_rows (dp_db s) \<and> ''aa'' \<notin> dp_bodies s"
    by (rule listing_strands_row) (simp_all add: egg_of_size)
  then show ?thesis by blast
qed

section \<open>The quota\<close>

text \<open>C33. The quota does not bound what is stored: the lock makes the read of the stored total and the decision
  exclusive among uploads, yet a commit and the release of a reservation take no lock. A total read before another upload commits,
  and decided on after it has released, admits one too many.
\<close>

theorem quota_can_be_exceeded:
  assumes "names_hash mf" and "dp_uploads s0 = (\<lambda>n. Idle)" and "dp_reserved s0 = []"
    and "artifacts_ok mf (dp_db s0)" and "sha \<notin> egg_rows (dp_db s0)" and "sha \<notin> dp_bodies s0"
    and "sha' \<notin> egg_rows (dp_db s0)" and "sha' \<notin> dp_bodies s0" and "sha' \<noteq> sha" and "0 < quota"
    and "stored_total_bytes (dp_db s0) + sm_size_bytes (mf sha) \<le> quota"
    and "stored_total_bytes (dp_db s0) + sm_size_bytes (mf sha') \<le> quota" and "0 < sm_size_bytes (mf sha')"
  shows "\<exists>s. upload_run quota mf {Own} s0 s \<and> dp_uploads s = (\<lambda>n. Idle)
    \<and> stored_total_bytes (dp_db s) = stored_total_bytes (dp_db s0) + sm_size_bytes (mf sha) + sm_size_bytes (mf sha')"
proof -
  let ?K = "{Own}"
  let ?t0 = "stored_total_bytes (dp_db s0)"
  obtain s1 where s1: "upload_run quota mf ?K s0 s1" "dp_uploads s1 = (\<lambda>n. Idle)(0 := Published sha False)"
      "dp_bodies s1 = insert sha (dp_bodies s0)" "dp_db s1 = dp_db s0"
      "dp_reserved s1 = [] \<or> dp_reserved s1 = [(0, sm_size_bytes (mf sha))]"
    by (rule upload_publishes [of s0 sha quota mf ?K]) (use assms(2,3,6,11) in simp_all)
  let ?s2 = "at_place 1 (Locked sha' False) s1"
  have "upload_step quota mf Own s1 ?s2"
    using upload_step.enter [of s1 1 sha' quota mf] s1(2,3) assms(8,9) by simp
  from upload_run.step [OF s1(1) _ this] have r2: "upload_run quota mf ?K s0 ?s2" by simp
  let ?s3 = "at_place 1 (Counting sha' ?t0) ?s2"
  have "upload_step quota mf Own ?s2 ?s3"
    using upload_step.read_total [of ?s2 1 sha' False quota mf] s1(2,4) assms(10,13)
    by (simp add: needs_reservation_def quota_lock_free_def)
  from upload_run.step [OF r2 _ this] have r3: "upload_run quota mf ?K s0 ?s3" by simp
  obtain s4 where s4: "upload_run quota mf ?K s0 s4" "dp_uploads s4 = (dp_uploads ?s3)(0 := Idle)"
      "dp_bodies s4 = dp_bodies ?s3" "artifacts_ok mf (dp_db s4)" "egg_rows (dp_db s4) = insert sha (egg_rows (dp_db ?s3))"
      "dp_reserved s4 = AList.delete 0 (dp_reserved ?s3)"
      "stored_total_bytes (dp_db s4) = stored_total_bytes (dp_db ?s3) + sm_size_bytes (mf sha)"
    by (rule upload_commits [of mf ?s3 sha 0 quota ?K s0]) (use assms(1,4,5) s1(2,4) r3 in simp_all)
  have empty: "dp_reserved s4 = []" using s4(6) s1(5) by (auto simp: AList.delete_eq)
  let ?s5 = "at_place 1 (Admitted sha' False) (s4\<lparr>dp_reserved := [(1, sm_size_bytes (mf sha'))]\<rparr>)"
  have "upload_step quota mf Own s4 ?s5"
    using upload_step.decide_admit [of s4 1 sha' ?t0 quota mf "[(1, sm_size_bytes (mf sha'))]"] s4(2) s1(2) empty assms(12)
    by (simp add: admit_def reserved_bytes_def)
  from upload_run.step [OF s4(1) _ this] have r5: "upload_run quota mf ?K s0 ?s5" by simp
  let ?s6 = "at_place 1 (Published sha' False)
    (?s5\<lparr>dp_bodies := insert sha' (dp_bodies ?s5), dp_manifests := insert sha' (dp_manifests ?s5)\<rparr>)"
  have "upload_step quota mf Own ?s5 ?s6" by (rule upload_step.publish [where stored = False]) simp
  from upload_run.step [OF r5 _ this] have r6: "upload_run quota mf ?K s0 ?s6" by simp
  obtain s7 where s7: "upload_run quota mf ?K s0 s7" "dp_uploads s7 = (dp_uploads ?s6)(1 := Idle)"
      "stored_total_bytes (dp_db s7) = stored_total_bytes (dp_db ?s6) + sm_size_bytes (mf sha')"
    by (rule upload_commits [of mf ?s6 sha' 1 quota ?K s0]) (use assms(1,7,9) s4(4,5) s1(4) r6 in simp_all)
  have "dp_uploads s7 = (\<lambda>n. Idle)" using s7(2) s4(2) s1(2) by (simp add: fun_eq_iff)
  then show ?thesis using s7(1,3) s4(7) s1(4) by (intro exI [of _ s7]) simp
qed

theorem quota_can_be_exceeded_witness:
  "\<exists>s. upload_run 100 egg_of {Own} empty_depot s \<and> stored_total_bytes (dp_db s) = 120"
proof -
  have "\<exists>s. upload_run 100 egg_of {Own} empty_depot s \<and> dp_uploads s = (\<lambda>n. Idle)
    \<and> stored_total_bytes (dp_db s) = stored_total_bytes (dp_db empty_depot) + sm_size_bytes (egg_of ''aa'') + sm_size_bytes (egg_of ''bb'')"
    by (rule quota_can_be_exceeded) (simp_all add: egg_of_size)
  then show ?thesis by (auto simp: egg_of_size)
qed

end
