(* ===== verification/LogWindows.thy ===== *)
theory LogWindows
  imports LogGuards Retention Dispatcher
begin

text \<open>
  The task routes (\<^verbatim>\<open>api/v1/tasks.py\<close>), the connect tokens of log windows
  (\<^verbatim>\<open>logs/stream_token.py\<close>) and a log window: the generator of \<open>stream_logs\<close> beside the log
  consumer that appends to the body and announces what it appended, and beside other windows.

  \<^item> JSON, base64 and HMAC are parameters of the tokens.
  \<^item> A step of a window is what happens between two awaits. The consumer appends in one step and
    announces in a later one (\<open>_write_settled\<close> and \<open>manager.publish\<close> of \<^verbatim>\<open>services/logs.py\<close>).
  \<^item> An append that fails may leave some of its bytes on disk, or all of them; they are never announced.
  \<^item> The read of a first screen is one step: an append that lands between its look at the size and its
    read of the bytes is not modelled.
\<close>

section \<open>Routes\<close>

definition ALLOWED_PAGE_SIZES :: "nat list" where
  "ALLOWED_PAGE_SIZES = [5, 10, 20, 50, 100]"

definition MAX_TARGET_QUERY_LEN :: nat where
  "MAX_TARGET_QUERY_LEN = 100"

definition task_statuses :: "task_status list" where
  "task_statuses = [TASK_CANCELED, TASK_COMPLETE, TASK_FAILED, TASK_FINALIZING, TASK_LOST, TASK_NO_TARGET, TASK_QUEUED, TASK_RUNNING]"

definition blank_none :: "string option \<Rightarrow> string option" where
  \<comment> \<open>\<open>s or None\<close>\<close>
  "blank_none s = (if truthy_str s then s else None)"

definition list_tasks_route :: "db \<Rightarrow> nat \<Rightarrow> nat \<Rightarrow> task_filter \<Rightarrow> api_error + obj list \<times> nat" where
  \<comment> \<open>the page and the total; the filter options for build artifacts are left out\<close>
  "list_tasks_route d page page_size query =
     (if page_size \<notin> set ALLOWED_PAGE_SIZES
      then Inl (ApiError 400 ''task.invalid_page_size'' ''errors.invalidPageSize''
        [(''page_size'', JInt (int page_size)), (''allowed'', JList (map (\<lambda>n. JInt (int n)) ALLOWED_PAGE_SIZES))])
      else if truthy_str (f_status query) \<and> the (f_status query) \<notin> set (map task_status_value task_statuses)
      then Inl (ApiError 400 ''task.invalid_status'' ''errors.invalidStatus''
        [(''status'', jstr (f_status query)), (''allowed'', JList (map (\<lambda>s. JStr (task_status_value s)) task_statuses))])
      else (let target_query = py_strip (or_default (f_target_query query) []) in
        if length target_query > MAX_TARGET_QUERY_LEN
        then Inl (ApiError 400 ''task.invalid_query'' ''errors.invalidQuery''
          [(''max_length'', JInt (int MAX_TARGET_QUERY_LEN)), (''length'', JInt (int (length target_query)))])
        else (let (tasks, total) = list_tasks_page d page page_size
                \<lparr>f_spider = blank_none (f_spider query), f_build_artifact_id = blank_none (f_build_artifact_id query),
                  f_status = blank_none (f_status query), f_schedule_id = blank_none (f_schedule_id query),
                  f_target_query = blank_none (Some target_query)\<rparr>;
                counts = child_execution_counts d (map t_id tasks)
          in Inr (map (\<lambda>t. task_summary t (or_default (map_of counts (t_id t)) 0)) tasks, total))))"

definition get_task_route :: "db \<Rightarrow> string \<Rightarrow> api_error + obj" where
  "get_task_route d task_id =
     map_sum (\<lambda>e. e) (\<lambda>t. task_view t (list_executions d task_id)) (get_task_or_404 d task_id)"

definition cancel_task_route ::
    "'r redis_client \<Rightarrow> instant \<Rightarrow> string \<Rightarrow> db \<times> 'r \<Rightarrow> (db \<times> 'r) \<times> (api_error + obj) option" where
  \<comment> \<open>\<open>None\<close> when the cancel raises\<close>
  "cancel_task_route rc now task_id s =
     (case get_task_or_404 (fst s) task_id of
        Inl e \<Rightarrow> (s, Some (Inl e))
      | Inr t \<Rightarrow>
          if t_status t \<in> TASK_TERMINAL then (s, Some (get_task_route (fst s) task_id))
          else (case request_cancel rc t now s of
              None \<Rightarrow> (s, None)
            | Some (s, n) \<Rightarrow> (s, Some (get_task_route (fst s) task_id))))"

definition mark_task_lost_route :: "db \<Rightarrow> instant \<Rightarrow> string \<Rightarrow> db \<times> (api_error + mark_lost_summary)" where
  "mark_task_lost_route d now task_id =
     (case get_task_or_404 d task_id of
        Inl e \<Rightarrow> (d, Inl e)
      | Inr t \<Rightarrow> (case mark_task_lost d t now of
            Inl e \<Rightarrow> (d, Inl e)
          | Inr (d, summary) \<Rightarrow> (d, Inr summary)))"

section \<open>Connect tokens\<close>

record token_lib =
  tk_payload :: "string \<Rightarrow> int \<Rightarrow> string" \<comment> \<open>the compact JSON of \<open>e\<close> and \<open>exp\<close> in base64\<close>
  tk_read :: "string \<Rightarrow> (string option \<times> int) option" \<comment> \<open>back: \<open>e\<close>, and \<open>exp\<close> or 0; \<open>None\<close> when it does not decode\<close>
  tk_sign :: "string \<Rightarrow> string \<Rightarrow> string"

definition issue_stream_token :: "token_lib \<Rightarrow> string \<Rightarrow> string \<Rightarrow> int \<Rightarrow> int \<Rightarrow> string \<times> int" where
  "issue_stream_token lib secret task_id ttl_seconds issued =
     (let exp = issued + max 1 ttl_seconds; payload = tk_payload lib task_id exp
      in (payload @ ''.'' @ tk_sign lib secret payload, exp))"

definition split_token :: "string \<Rightarrow> (string \<times> string) option" where
  \<comment> \<open>\<open>token.split(".", 1)\<close> into two\<close>
  "split_token token =
     (let payload = takeWhile (\<lambda>c. c \<noteq> CHR ''.'') token; rest = dropWhile (\<lambda>c. c \<noteq> CHR ''.'') token
      in if rest = [] then None else Some (payload, tl rest))"

definition verify_stream_token :: "token_lib \<Rightarrow> string \<Rightarrow> string \<Rightarrow> string \<Rightarrow> instant \<Rightarrow> bool" where
  "verify_stream_token lib secret token task_id now =
     (case split_token token of None \<Rightarrow> False
      | Some (payload, sig) \<Rightarrow>
          if sig \<noteq> tk_sign lib secret payload then False
          else (case tk_read lib payload of None \<Rightarrow> False
            | Some (e, exp) \<Rightarrow> e = Some task_id \<and> exp > now))"

record window_settings =
  max_tail_bytes_per_pull :: int
  first_screen_max_lines :: int
  first_screen_max_bytes :: int
  auth_enabled :: bool
  token_secret :: string
  stream_token_ttl_seconds :: int

definition issue_log_stream_token :: "token_lib \<Rightarrow> window_settings \<Rightarrow> db \<Rightarrow> int \<Rightarrow> string \<Rightarrow> api_error + string \<times> int" where
  "issue_log_stream_token lib ws d now task_id =
     (if \<not> auth_enabled ws
      then Inl (ApiError 400 ''auth.stream_token_not_required'' ''errors.streamTokenNotRequired'' [])
      else map_sum (\<lambda>e. e) (\<lambda>t. issue_stream_token lib (token_secret ws) task_id (stream_token_ttl_seconds ws) now)
        (get_task_or_404 d task_id))"

section \<open>The log snapshot\<close>

record log_snapshot =
  sn_execution_id :: string
  sn_start_offset :: int
  sn_end_offset :: int
  sn_content :: string
  sn_status :: log_status
  sn_finished :: bool

definition get_logs ::
    "window_settings \<Rightarrow> db \<Rightarrow> bodies \<Rightarrow> string \<Rightarrow> string option \<Rightarrow> log_stream \<Rightarrow> int \<Rightarrow> int option \<Rightarrow> api_error + log_snapshot" where
  "get_logs ws d fs task_id execution_id stream offset max_bytes =
     (case get_task_or_404 d task_id of Inl e \<Rightarrow> Inl e | Inr t \<Rightarrow>
      (case resolve_execution d task_id execution_id of Inl e \<Rightarrow> Inl e | Inr x \<Rightarrow>
       (let finished = x_status x \<in> EXEC_TERMINAL
        in case get_log_file d task_id (x_id x) stream of
             None \<Rightarrow> Inr \<lparr>sn_execution_id = x_id x, sn_start_offset = offset, sn_end_offset = offset, sn_content = [],
               sn_status = LOG_MISSING, sn_finished = finished\<rparr>
           | Some lf \<Rightarrow>
              (case read_slice fs (lf_storage_path lf) offset (or_default max_bytes (max_tail_bytes_per_pull ws)) of
                 (start, stop, content) \<Rightarrow> Inr \<lparr>sn_execution_id = x_id x, sn_start_offset = start, sn_end_offset = stop,
                   sn_content = content, sn_status = lf_status lf, sn_finished = finished \<or> lf_status lf = LOG_COMPLETE\<rparr>))))"

section \<open>A log window\<close>

datatype sse_frame = Log_frame int int string | Complete_frame task_status | Keep_alive

definition stream_preflight ::
    "token_lib \<Rightarrow> window_settings \<Rightarrow> db \<Rightarrow> instant \<Rightarrow> string \<Rightarrow> string option \<Rightarrow> log_stream \<Rightarrow> string option
      \<Rightarrow> api_error + execution \<times> string option \<times> task_status option" where
  \<comment> \<open>execution, path of the body, and the status of a task that has ended\<close>
  "stream_preflight lib ws d now task_id execution_id stream stream_token =
     (if auth_enabled ws \<and> \<not> (truthy_str stream_token
         \<and> verify_stream_token lib (token_secret ws) (or_default stream_token []) task_id now)
      then Inl (ApiError 401 ''auth.stream_unauthorized'' ''errors.unauthorized'' [])
      else (case get_task_or_404 d task_id of Inl e \<Rightarrow> Inl e | Inr t \<Rightarrow>
        (case resolve_execution d task_id execution_id of Inl e \<Rightarrow> Inl e | Inr x \<Rightarrow>
          Inr (x, map_option lf_storage_path (get_log_file d task_id (x_id x) stream),
            if t_status t \<in> TASK_TERMINAL then Some (t_status t) else None))))"

definition resume_from :: "string option \<Rightarrow> int option" where
  \<comment> \<open>the \<open>Last-Event-ID\<close> of a browser that reconnects\<close>
  "resume_from last_event_id = (if truthy_str last_event_id then py_int (the last_event_id) else None)"

definition first_screen :: "window_settings \<Rightarrow> bodies \<Rightarrow> string \<Rightarrow> int option \<Rightarrow> sse_frame list \<times> int" where
  "first_screen ws fs path resume =
     (case resume of Some r \<Rightarrow> ([], r)
      | None \<Rightarrow> (case tail_screen fs path (first_screen_max_lines ws) (first_screen_max_bytes ws) of
            (s, e, text) \<Rightarrow> (if text = [] then [] else [Log_frame s e text], e)))"

definition backfill_slice :: "window_settings \<Rightarrow> bodies \<Rightarrow> string \<Rightarrow> int \<Rightarrow> (sse_frame \<times> int) option" where
  \<comment> \<open>\<open>None\<close>: the loop breaks\<close>
  "backfill_slice ws fs path cursor =
     (case read_slice fs path cursor (max_tail_bytes_per_pull ws) of
        (s, e, text) \<Rightarrow> if e \<le> cursor then None else Some (Log_frame s e text, e))"

fun forward_item :: "sse_item \<Rightarrow> int \<Rightarrow> sse_frame list \<times> int \<times> bool" where
  \<comment> \<open>the frames sent, the new cursor, and whether the stream ends\<close>
  "forward_item CLOSE cursor = ([], cursor, True)"
| "forward_item (Sse_complete status) cursor = ([Complete_frame status], cursor, True)"
| "forward_item (Sse_log s e text) cursor =
     (if e \<le> cursor then ([], cursor, False) else ([Log_frame s e text], e, False))"

datatype window_place = Subscribed | Screened | Catching_up int | Caught_up | Live | Ended

record log_view =
  vw_bodies :: bodies
  vw_sse :: sse
  vw_unpublished :: "(int \<times> int \<times> string) option" \<comment> \<open>appended by the consumer and not announced yet\<close>
  vw_place :: window_place
  vw_cursor :: int
  vw_sent :: "sse_frame list"

definition send_frames :: "sse_frame list \<Rightarrow> int \<Rightarrow> window_place \<Rightarrow> log_view \<Rightarrow> log_view" where
  "send_frames frames cursor place v = v\<lparr>vw_sent := vw_sent v @ frames, vw_cursor := cursor, vw_place := place\<rparr>"

definition end_window :: "string \<Rightarrow> nat \<Rightarrow> log_view \<Rightarrow> log_view" where
  \<comment> \<open>the \<open>finally\<close>\<close>
  "end_window x q v = v\<lparr>vw_place := Ended, vw_sse := sse_unsubscribe x q (vw_sse v)\<rparr>"

definition pop_item :: "nat \<Rightarrow> log_view \<Rightarrow> log_view" where
  "pop_item q v = v\<lparr>vw_sse := set_queue q (tl (queue_items (vw_sse v) q)) (vw_sse v)\<rparr>"

definition open_window :: "string \<Rightarrow> bodies \<Rightarrow> sse \<Rightarrow> (int \<times> int \<times> string) option \<Rightarrow> log_view \<times> nat" where
  "open_window x fs m unpublished =
     (let (m, q) = sse_subscribe m x
      in (\<lparr>vw_bodies = fs, vw_sse = m, vw_unpublished = unpublished, vw_place = Subscribed, vw_cursor = 0, vw_sent = []\<rparr>, q))"

inductive window_step ::
    "window_settings \<Rightarrow> string \<Rightarrow> string \<Rightarrow> nat \<Rightarrow> int option \<Rightarrow> task_status option \<Rightarrow> bool \<Rightarrow> log_view \<Rightarrow> log_view \<Rightarrow> bool"
  for ws path x q resume ended faults where
  append: "vw_unpublished v = None \<Longrightarrow> data \<noteq> [] \<Longrightarrow> n = body_size (vw_bodies v) path
    \<Longrightarrow> window_step ws path x q resume ended faults v
      (v\<lparr>vw_bodies := append_bytes (vw_bodies v) path data, vw_unpublished := Some (n, n + int (length data), decode_replace data)\<rparr>)"
| failed_append: "faults \<Longrightarrow> vw_unpublished v = None
    \<Longrightarrow> window_step ws path x q resume ended faults v (v\<lparr>vw_bodies := append_bytes (vw_bodies v) path data\<rparr>)"
| announce: "vw_unpublished v = Some (s, e, text)
    \<Longrightarrow> window_step ws path x q resume ended faults v
      (v\<lparr>vw_sse := sse_publish x (Sse_log s e text) (vw_sse v), vw_unpublished := None\<rparr>)"
| announce_end: "window_step ws path x q resume ended faults v (v\<lparr>vw_sse := sse_publish x (Sse_complete status) (vw_sse v)\<rparr>)"
| screen: "vw_place v = Subscribed \<Longrightarrow> first_screen ws (vw_bodies v) path resume = (frames, cursor)
    \<Longrightarrow> window_step ws path x q resume ended faults v (send_frames frames cursor Screened v)"
| measure: "vw_place v = Screened
    \<Longrightarrow> window_step ws path x q resume ended faults v (v\<lparr>vw_place := Catching_up (body_size (vw_bodies v) path)\<rparr>)"
| slice: "vw_place v = Catching_up size_now \<Longrightarrow> vw_cursor v < size_now
    \<Longrightarrow> backfill_slice ws (vw_bodies v) path (vw_cursor v) = Some (frame, cursor)
    \<Longrightarrow> window_step ws path x q resume ended faults v (send_frames [frame] cursor (Catching_up size_now) v)"
| slices_end: "vw_place v = Catching_up size_now
    \<Longrightarrow> \<not> vw_cursor v < size_now \<or> backfill_slice ws (vw_bodies v) path (vw_cursor v) = None
    \<Longrightarrow> window_step ws path x q resume ended faults v (v\<lparr>vw_place := Caught_up\<rparr>)"
| complete: "vw_place v = Caught_up \<Longrightarrow> ended = Some status \<Longrightarrow> vw_cursor v \<ge> body_size (vw_bodies v) path
    \<Longrightarrow> window_step ws path x q resume ended faults v
      (end_window x q (send_frames [Complete_frame status] (vw_cursor v) Caught_up v))"
| go_live: "vw_place v = Caught_up \<Longrightarrow> \<not> (ended \<noteq> None \<and> vw_cursor v \<ge> body_size (vw_bodies v) path)
    \<Longrightarrow> window_step ws path x q resume ended faults v (v\<lparr>vw_place := Live\<rparr>)"
| forward: "vw_place v = Live \<Longrightarrow> queue_items (vw_sse v) q = item # items \<Longrightarrow> forward_item item (vw_cursor v) = (frames, cursor, False)
    \<Longrightarrow> window_step ws path x q resume ended faults v (send_frames frames cursor Live (pop_item q v))"
| closed: "vw_place v = Live \<Longrightarrow> queue_items (vw_sse v) q = item # items \<Longrightarrow> forward_item item (vw_cursor v) = (frames, cursor, True)
    \<Longrightarrow> window_step ws path x q resume ended faults v (end_window x q (send_frames frames cursor Live (pop_item q v)))"
| heartbeat: "vw_place v = Live \<Longrightarrow> queue_items (vw_sse v) q = []
    \<Longrightarrow> window_step ws path x q resume ended faults v (send_frames [Keep_alive] (vw_cursor v) Live v)"
| leave: "vw_place v \<noteq> Ended \<comment> \<open>disconnected, at the end of its lifetime, or cancelled\<close>
    \<Longrightarrow> window_step ws path x q resume ended faults v (end_window x q v)"
| other_opens: "window_step ws path x q resume ended faults v (v\<lparr>vw_sse := fst (sse_subscribe (vw_sse v) y)\<rparr>)"
| other_reads: "q' \<noteq> q \<Longrightarrow> q' < length (ss_queues (vw_sse v))
    \<Longrightarrow> window_step ws path x q resume ended faults v (v\<lparr>vw_sse := set_queue q' (tl (queue_items (vw_sse v) q')) (vw_sse v)\<rparr>)"
| other_leaves: "q' \<noteq> q
    \<Longrightarrow> window_step ws path x q resume ended faults v (v\<lparr>vw_sse := sse_unsubscribe y q' (vw_sse v)\<rparr>)"
| other_log: "y \<noteq> x
    \<Longrightarrow> window_step ws path x q resume ended faults v (v\<lparr>vw_sse := sse_publish y ev (vw_sse v)\<rparr>)"

definition window_run ::
    "window_settings \<Rightarrow> string \<Rightarrow> string \<Rightarrow> nat \<Rightarrow> int option \<Rightarrow> task_status option \<Rightarrow> bool \<Rightarrow> log_view \<Rightarrow> log_view \<Rightarrow> bool" where
  "window_run ws path x q resume ended faults = (window_step ws path x q resume ended faults)\<^sup>*\<^sup>*"

section \<open>The fan-out and one queue\<close>

lemma queue_items_set [simp]: "queue_items (set_queue k items m) q = (if q = k then items else queue_items m q)"
  by (simp add: queue_items_def set_queue_def update_conv' or_default_def)

lemma subs_of_set_queue [simp]: "subs_of (set_queue k items m) y = subs_of m y"
  by (simp add: subs_of_def set_queue_def)

lemma subs_of_unsubscribe [simp]:
  "subs_of (sse_unsubscribe y k m) z = (if z = y then removeAll k (subs_of m y) else subs_of m z)"
  by (simp add: subs_of_def sse_unsubscribe_def Let_def update_conv' delete_conv' or_default_def)

lemma queue_items_unsubscribe [simp]: "queue_items (sse_unsubscribe y k m) q = queue_items m q"
  by (simp add: queue_items_def sse_unsubscribe_def Let_def)

lemma queue_keys_set:
  "k < length (ss_queues m) \<Longrightarrow> map fst (ss_queues m) = [0..<length (ss_queues m)]
    \<Longrightarrow> map fst (ss_queues (set_queue k items m)) = map fst (ss_queues m)
      \<and> length (ss_queues (set_queue k items m)) = length (ss_queues m)"
proof -
  assume "k < length (ss_queues m)" and keys: "map fst (ss_queues m) = [0..<length (ss_queues m)]"
  then have "k \<in> set (map fst (ss_queues m))" by simp
  then have same: "map fst (ss_queues (set_queue k items m)) = map fst (ss_queues m)"
    by (simp add: set_queue_def update_keys)
  then have "length (map fst (ss_queues (set_queue k items m))) = length (map fst (ss_queues m))" by (rule arg_cong)
  then have "length (ss_queues (set_queue k items m)) = length (ss_queues m)" by (simp only: length_map)
  with same show ?thesis by (rule conjI)
qed

lemma queues_unsubscribe [simp]: "ss_queues (sse_unsubscribe y k m) = ss_queues m"
  by (simp add: sse_unsubscribe_def Let_def)

lemma put_other:
  assumes "k \<noteq> q"
  shows "queue_items (sse_put y ev k m) q = queue_items m q"
    and "q \<in> set (subs_of (sse_put y ev k m) z) \<longleftrightarrow> q \<in> set (subs_of m z)"
  using assms by (auto simp: sse_put_def sse_overflow_def push_close_def)

lemma puts_other:
  assumes "q \<notin> set ks"
  shows "queue_items (fold (sse_put y ev) ks m) q = queue_items m q"
    and "q \<in> set (subs_of (fold (sse_put y ev) ks m) z) \<longleftrightarrow> q \<in> set (subs_of m z)"
  using assms by (induction ks arbitrary: m) (auto simp: put_other)

lemma publish_here:
  assumes "distinct (subs_of m x)" and "q \<in> set (subs_of m x)"
  shows "\<not> queue_full m q \<Longrightarrow> queue_items (sse_publish x ev m) q = queue_items m q @ [ev]
      \<and> q \<in> set (subs_of (sse_publish x ev m) x)"
    and "queue_full m q \<Longrightarrow> queue_items (sse_publish x ev m) q = [CLOSE] \<and> q \<notin> set (subs_of (sse_publish x ev m) x)"
proof -
  obtain ks ks' where k: "subs_of m x = ks @ q # ks'" "q \<notin> set ks" "q \<notin> set ks'"
    using assms by (metis distinct.simps(2) distinct_append disjoint_insert(1) list.simps(15) split_list)
  let ?m1 = "fold (sse_put x ev) ks m"
  have q: "queue_items ?m1 q = queue_items m q" "q \<in> set (subs_of ?m1 x)"
    using puts_other [OF k(2)] assms(2) by auto
  have maxsize: "ss_maxsize (fold (sse_put x ev) l m') = ss_maxsize m'" for l m'
    by (induction l arbitrary: m') (auto simp: sse_put_def sse_overflow_def push_close_def set_queue_def sse_unsubscribe_def Let_def)
  have full: "queue_full ?m1 q = queue_full m q" using q(1) maxsize by (simp add: queue_full_def)
  have p: "sse_publish x ev m = fold (sse_put x ev) ks' (sse_put x ev q ?m1)" using k(1) by (simp add: sse_publish_def)
  show "\<not> queue_full m q \<Longrightarrow> queue_items (sse_publish x ev m) q = queue_items m q @ [ev]
      \<and> q \<in> set (subs_of (sse_publish x ev m) x)"
    using puts_other [OF k(3)] q full unfolding p by (simp add: sse_put_def)
  show "queue_full m q \<Longrightarrow> queue_items (sse_publish x ev m) q = [CLOSE] \<and> q \<notin> set (subs_of (sse_publish x ev m) x)"
    using puts_other [OF k(3)] full unfolding p by (simp add: sse_put_def sse_overflow_def push_close_def)
qed

lemma publish_elsewhere:
  assumes "q \<notin> set (subs_of m y)"
  shows "queue_items (sse_publish y ev m) q = queue_items m q"
    and "q \<in> set (subs_of (sse_publish y ev m) z) \<longleftrightarrow> q \<in> set (subs_of m z)"
  using puts_other [OF assms] by (simp_all add: sse_publish_def)

definition fan_out_ok :: "string \<Rightarrow> nat \<Rightarrow> sse \<Rightarrow> bool" where
  \<comment> \<open>queues are numbered, and \<open>q\<close> is subscribed to \<open>x\<close> alone\<close>
  "fan_out_ok x q m \<longleftrightarrow> map fst (ss_queues m) = [0..<length (ss_queues m)] \<and> q < length (ss_queues m)
     \<and> (\<forall>y. y \<noteq> x \<longrightarrow> q \<notin> set (subs_of m y))
     \<and> (\<forall>y. distinct (subs_of m y) \<and> (\<forall>k \<in> set (subs_of m y). k < length (ss_queues m)))"

lemma fan_out_set_queue: "fan_out_ok x q m \<Longrightarrow> k < length (ss_queues m) \<Longrightarrow> fan_out_ok x q (set_queue k items m)"
  using queue_keys_set [of k m items] by (auto simp: fan_out_ok_def)

lemma fan_out_pop: "fan_out_ok x q m \<Longrightarrow> fan_out_ok x q (set_queue q items m)"
  by (rule fan_out_set_queue) (simp_all add: fan_out_ok_def)

lemma fan_out_unsubscribe: "fan_out_ok x q m \<Longrightarrow> fan_out_ok x q (sse_unsubscribe y k m)"
  by (auto simp: fan_out_ok_def distinct_removeAll)

lemma fan_out_put:
  assumes "fan_out_ok x q m" and "k < length (ss_queues m)"
  shows "fan_out_ok x q (sse_put y ev k m)" and "length (ss_queues (sse_put y ev k m)) = length (ss_queues m)"
proof -
  have keys: "map fst (ss_queues m) = [0..<length (ss_queues m)]" using assms(1) by (simp add: fan_out_ok_def)
  show "fan_out_ok x q (sse_put y ev k m)"
    using fan_out_set_queue [OF assms] by (simp add: sse_put_def sse_overflow_def push_close_def fan_out_unsubscribe)
  show "length (ss_queues (sse_put y ev k m)) = length (ss_queues m)"
    using queue_keys_set [OF assms(2) keys] by (simp add: sse_put_def sse_overflow_def push_close_def)
qed

lemma fan_out_publish:
  assumes "fan_out_ok x q m"
  shows "fan_out_ok x q (sse_publish y ev m)"
proof -
  have "fan_out_ok x q (fold (sse_put y ev) ks m)" if "fan_out_ok x q m" "\<forall>k \<in> set ks. k < length (ss_queues m)" for ks m
    using that by (induction ks arbitrary: m) (simp_all add: fan_out_put)
  moreover have "\<forall>k \<in> set (subs_of m y). k < length (ss_queues m)" using assms by (simp add: fan_out_ok_def)
  ultimately show ?thesis using assms by (simp add: sse_publish_def)
qed

lemma subscribes:
  assumes "map fst (ss_queues m) = [0..<length (ss_queues m)]"
  shows "subs_of (fst (sse_subscribe m y)) z = (if z = y then subs_of m y @ [length (ss_queues m)] else subs_of m z)"
    and "queue_items (fst (sse_subscribe m y)) k = (if k = length (ss_queues m) then [] else queue_items m k)"
    and "map fst (ss_queues (fst (sse_subscribe m y))) = [0..<Suc (length (ss_queues m))]"
    and "length (ss_queues (fst (sse_subscribe m y))) = Suc (length (ss_queues m))"
    and "snd (sse_subscribe m y) = length (ss_queues m)"
proof -
  let ?n = "length (ss_queues m)" and ?m = "fst (sse_subscribe m y)"
  show "subs_of ?m z = (if z = y then subs_of m y @ [?n] else subs_of m z)"
    by (simp add: sse_subscribe_def Let_def subs_of_def update_conv' or_default_def set_queue_def)
  show "queue_items ?m k = (if k = ?n then [] else queue_items m k)"
    by (simp add: sse_subscribe_def Let_def queue_items_def set_queue_def update_conv' or_default_def)
  have new: "?n \<notin> set (map fst (ss_queues m))" by (simp only: assms) simp
  show keys: "map fst (ss_queues ?m) = [0..<Suc ?n]"
    using new assms by (simp add: sse_subscribe_def Let_def set_queue_def update_keys)
  show "length (ss_queues ?m) = Suc ?n" using arg_cong [OF keys, of length] by simp
  show "snd (sse_subscribe m y) = ?n" by (simp add: sse_subscribe_def Let_def)
qed

lemma other_subscribes:
  assumes "fan_out_ok x q m"
  shows "fan_out_ok x q (fst (sse_subscribe m y))" and "queue_items (fst (sse_subscribe m y)) q = queue_items m q"
    and "q \<in> set (subs_of (fst (sse_subscribe m y)) z) \<longleftrightarrow> q \<in> set (subs_of m z)"
proof -
  have keys: "map fst (ss_queues m) = [0..<length (ss_queues m)]" and q: "q < length (ss_queues m)"
    using assms by (simp_all add: fan_out_ok_def)
  note s = subscribes [OF keys, of y]
  have old: "k < length (ss_queues m)" if "k \<in> set (subs_of m z)" for k z using assms that by (auto simp: fan_out_ok_def)
  show "fan_out_ok x q (fst (sse_subscribe m y))"
    using assms q old unfolding fan_out_ok_def s(1,3,4) by (auto simp: less_Suc_eq)
  show "queue_items (fst (sse_subscribe m y)) q = queue_items m q" using q s(2) by simp
  show "q \<in> set (subs_of (fst (sse_subscribe m y)) z) \<longleftrightarrow> q \<in> set (subs_of m z)" using q s(1) by simp
qed

section \<open>What a window shows\<close>

definition part :: "string \<Rightarrow> int \<Rightarrow> int \<Rightarrow> string" where
  \<comment> \<open>the bytes of the body from \<open>a\<close> to \<open>b\<close>\<close>
  "part c a b = take (nat (b - a)) (drop (nat a) c)"

fun chained :: "bool \<Rightarrow> string \<Rightarrow> int \<Rightarrow> sse_item list \<Rightarrow> int \<Rightarrow> bool" where
  \<comment> \<open>announcements in order, without a gap unless appends fail\<close>
  "chained faults c a [] b \<longleftrightarrow> a = b"
| "chained faults c a (CLOSE # items) b \<longleftrightarrow> False"
| "chained faults c a (Sse_complete status # items) b \<longleftrightarrow> chained faults c a items b"
| "chained faults c a (Sse_log s e text # items) b \<longleftrightarrow>
     (s = a \<or> faults \<and> a \<le> s) \<and> s < e \<and> e \<le> int (length c) \<and> text = decode_replace (part c s e) \<and> chained faults c e items b"

fun shows_log :: "bool \<Rightarrow> string \<Rightarrow> int \<Rightarrow> sse_frame list \<Rightarrow> int \<Rightarrow> bool" where
  \<comment> \<open>every frame is the text of the bytes it names and adds to what was shown so far; unless appends fail,
    it starts no later than that ends: all of the body from the first offset to the last one is shown\<close>
  "shows_log faults c a [] b \<longleftrightarrow> a = b"
| "shows_log faults c a (Log_frame s e text # frames) b \<longleftrightarrow>
     0 \<le> s \<and> s < e \<and> (s \<le> a \<or> faults) \<and> a < e \<and> e \<le> int (length c) \<and> text = decode_replace (part c s e) \<and> shows_log faults c e frames b"
| "shows_log faults c a (frame # frames) b \<longleftrightarrow> shows_log faults c a frames b"

lemma shows_append: "shows_log faults c a (fs @ gs) b \<longleftrightarrow> (\<exists>m. shows_log faults c a fs m \<and> shows_log faults c m gs b)"
proof (induction fs arbitrary: a)
  case (Cons f fs)
  then show ?case by (cases f) auto
qed simp

lemma chained_append: "chained faults c a (is @ js) b \<longleftrightarrow> (\<exists>m. chained faults c a is m \<and> chained faults c m js b)"
proof (induction "is" arbitrary: a)
  case (Cons i "is")
  then show ?case by (cases i) auto
qed simp

lemma part_grows: "0 \<le> a \<Longrightarrow> b \<le> int (length c) \<Longrightarrow> part (c @ data) a b = part c a b"
  by (cases "a \<le> b") (simp_all add: part_def nat_diff_distrib)

lemma chained_grows: "chained faults c a is b \<Longrightarrow> 0 \<le> a \<Longrightarrow> chained faults (c @ data) a is b"
proof (induction "is" arbitrary: a)
  case (Cons i "is")
  then show ?case by (cases i) (auto simp: part_grows)
qed simp

lemma shows_grows: "shows_log faults c a fs b \<Longrightarrow> shows_log faults (c @ data) a fs b"
proof (induction fs arbitrary: a)
  case (Cons f fs)
  then show ?case by (cases f) (auto simp: part_grows)
qed simp

lemma chained_le: "chained faults c a is b \<Longrightarrow> a \<le> b"
proof (induction "is" arbitrary: a)
  case (Cons i "is")
  then show ?case by (cases i) fastforce+
qed simp

lemma shows_le: "shows_log faults c a fs b \<Longrightarrow> a \<le> b"
proof (induction fs arbitrary: a)
  case (Cons f fs)
  then show ?case by (cases f) fastforce+
qed simp

lemma slice_of_body:
  assumes "read_slice fs path cursor n = (s, e, text)" and "0 \<le> cursor" and "cursor < e" and "cursor \<le> body_size fs path"
  shows "s = cursor \<and> e \<le> body_size fs path \<and> text = decode_replace (part (body fs path) s e)"
  using assms by (auto simp: read_slice_def slice_bytes_def body_def body_size_def or_default_def part_def min_def max_def split: option.splits if_splits)

lemma slice_exists:
  assumes "0 \<le> cursor" and "cursor < body_size fs path" and "0 < n"
  shows "\<exists>s e text. read_slice fs path cursor n = (s, e, text) \<and> cursor < e"
  using assms by (auto simp: read_slice_def slice_bytes_def body_def body_size_def or_default_def min_def max_def split: option.splits)

fun start_of :: "window_place \<Rightarrow> int \<Rightarrow> int \<Rightarrow> bool" where
  \<comment> \<open>where the first announcement in the queue may start\<close>
  "start_of (Catching_up size_now) cursor a \<longleftrightarrow> a \<le> size_now"
| "start_of Caught_up cursor a \<longleftrightarrow> a \<le> cursor"
| "start_of Live cursor a \<longleftrightarrow> a \<le> cursor"
| "start_of place cursor a \<longleftrightarrow> True"

definition announced_end :: "string \<Rightarrow> log_view \<Rightarrow> int" where
  "announced_end c v = (case vw_unpublished v of None \<Rightarrow> int (length c) | Some (s, e, text) \<Rightarrow> s)"

definition unpublished_ok :: "string \<Rightarrow> log_view \<Rightarrow> bool" where
  "unpublished_ok c v = (case vw_unpublished v of None \<Rightarrow> True
     | Some (s, e, text) \<Rightarrow> 0 \<le> s \<and> s < e \<and> e = int (length c) \<and> text = decode_replace (part c s e))"

definition queue_ok :: "bool \<Rightarrow> string \<Rightarrow> string \<Rightarrow> nat \<Rightarrow> log_view \<Rightarrow> bool" where
  "queue_ok faults c x q v \<longleftrightarrow> vw_place v = Ended
     \<or> (if q \<in> set (subs_of (vw_sse v) x)
        then \<exists>a \<ge> 0. \<exists>b. chained faults c a (queue_items (vw_sse v) q) b
          \<and> (b = announced_end c v \<or> faults \<and> b \<le> announced_end c v) \<and> start_of (vw_place v) (vw_cursor v) a
        else queue_items (vw_sse v) q = [CLOSE])"

lemma queue_okI:
  assumes "q \<in> set (subs_of (vw_sse v) x)" and "0 \<le> a" and "chained faults c a (queue_items (vw_sse v) q) b"
    and "b = announced_end c v \<or> faults \<and> b \<le> announced_end c v" and "start_of (vw_place v) (vw_cursor v) a"
  shows "queue_ok faults c x q v"
  using assms unfolding queue_ok_def by auto

definition sent_ok :: "bool \<Rightarrow> string \<Rightarrow> int option \<Rightarrow> log_view \<Rightarrow> bool" where
  "sent_ok faults c resume v \<longleftrightarrow> (if vw_place v = Subscribed then vw_sent v = [] \<and> vw_cursor v = 0
     else 0 \<le> vw_cursor v \<and> vw_cursor v \<le> int (length c)
       \<and> (\<exists>a. shows_log faults c a (vw_sent v) (vw_cursor v) \<and> (\<forall>r. resume = Some r \<longrightarrow> a = r \<or> vw_place v = Ended \<and> vw_sent v = [])))"

definition view_ok :: "bool \<Rightarrow> string \<Rightarrow> string \<Rightarrow> nat \<Rightarrow> int option \<Rightarrow> log_view \<Rightarrow> bool" where
  "view_ok faults path x q resume v \<longleftrightarrow> (let c = body (vw_bodies v) path in
     fan_out_ok x q (vw_sse v) \<and> unpublished_ok c v \<and> queue_ok faults c x q v \<and> sent_ok faults c resume v
     \<and> (\<forall>r. resume = Some r \<longrightarrow> 0 \<le> r \<and> r \<le> int (length c)))"

lemma unpublished_simps [simp]:
  "announced_end c (v\<lparr>vw_sse := m\<rparr>) = announced_end c v" "unpublished_ok c (v\<lparr>vw_sse := m\<rparr>) = unpublished_ok c v"
  "announced_end c (v\<lparr>vw_place := p\<rparr>) = announced_end c v" "unpublished_ok c (v\<lparr>vw_place := p\<rparr>) = unpublished_ok c v"
  "announced_end c (v\<lparr>vw_sent := fs\<rparr>) = announced_end c v" "unpublished_ok c (v\<lparr>vw_sent := fs\<rparr>) = unpublished_ok c v"
  "announced_end c (v\<lparr>vw_cursor := n\<rparr>) = announced_end c v" "unpublished_ok c (v\<lparr>vw_cursor := n\<rparr>) = unpublished_ok c v"
  by (simp_all add: announced_end_def unpublished_ok_def)

lemma view_okI:
  assumes "c = body (vw_bodies v) path" and "fan_out_ok x q (vw_sse v)" and "unpublished_ok c v" and "queue_ok faults c x q v"
    and "sent_ok faults c resume v" and "\<And>r. resume = Some r \<Longrightarrow> 0 \<le> r \<and> r \<le> int (length c)"
  shows "view_ok faults path x q resume v"
  using assms by (simp add: view_ok_def Let_def)

lemma sent_grows:
  assumes "sent_ok faults c resume v" and "vw_sent v' = vw_sent v" and "vw_cursor v' = vw_cursor v" and "vw_place v' = vw_place v"
  shows "sent_ok faults (c @ data) resume v'"
  using assms shows_grows [of faults c _ "vw_sent v" "vw_cursor v" data] unfolding sent_ok_def by (fastforce split: if_splits)

lemma queue_same:
  assumes "queue_ok faults c x q v" and "announced_end c' v' = announced_end c v" and "c' = c @ data"
    and "queue_items (vw_sse v') q = queue_items (vw_sse v) q"
    and "q \<in> set (subs_of (vw_sse v') x) \<longleftrightarrow> q \<in> set (subs_of (vw_sse v) x)"
    and "vw_place v' = vw_place v" and "vw_cursor v' = vw_cursor v"
  shows "queue_ok faults c' x q v'"
proof (cases "vw_place v = Ended \<or> q \<notin> set (subs_of (vw_sse v) x)")
  case True
  then show ?thesis using assms(1,4-6) by (cases "vw_place v = Ended") (simp_all add: queue_ok_def)
next
  case False
  then obtain a b where a: "0 \<le> a" "chained faults c a (queue_items (vw_sse v) q) b"
      "b = announced_end c v \<or> faults \<and> b \<le> announced_end c v" "start_of (vw_place v) (vw_cursor v) a"
    using assms(1) unfolding queue_ok_def by auto
  show ?thesis
    using chained_grows [OF a(2,1), of data] a assms False by (intro queue_okI [where a = a and b = b]) simp_all
qed

lemma append_step_ok:
  assumes ok: "view_ok faults path x q resume v" and "vw_unpublished v = None" and "data \<noteq> []" and n: "n = body_size (vw_bodies v) path"
  shows "view_ok faults path x q resume
    (v\<lparr>vw_bodies := append_bytes (vw_bodies v) path data, vw_unpublished := Some (n, n + int (length data), decode_replace data)\<rparr>)"
    (is "view_ok faults path x q resume ?v'")
proof -
  let ?c = "body (vw_bodies v) path"
  have len: "n = int (length ?c)" using n by (simp add: body_size_def)
  show ?thesis
  proof (rule view_okI [OF refl])
    show "fan_out_ok x q (vw_sse ?v')" using ok by (simp add: view_ok_def Let_def)
    show "unpublished_ok (body (vw_bodies ?v') path) ?v'" using assms(3) len by (simp add: unpublished_ok_def part_def)
    have "queue_ok faults ?c x q v" using ok by (simp add: view_ok_def Let_def)
    moreover have "announced_end (?c @ data) ?v' = announced_end ?c v" using assms(2) len by (simp add: announced_end_def)
    ultimately show "queue_ok faults (body (vw_bodies ?v') path) x q ?v'"
      by - (rule queue_same [where c = ?c and v = v and data = data], simp_all)
    have "sent_ok faults ?c resume v" using ok by (simp add: view_ok_def Let_def)
    then show "sent_ok faults (body (vw_bodies ?v') path) resume ?v'" by (simp add: sent_grows)
    show "0 \<le> r \<and> r \<le> int (length (body (vw_bodies ?v') path))" if "resume = Some r" for r
      using ok that by (simp add: view_ok_def Let_def)
  qed
qed

lemma announce_step_ok:
  assumes ok: "view_ok faults path x q resume v" and u: "vw_unpublished v = Some (s, e, text)"
  shows "view_ok faults path x q resume
    (v\<lparr>vw_sse := sse_publish x (Sse_log s e text) (vw_sse v), vw_unpublished := None\<rparr>)" (is "view_ok faults path x q resume ?v'")
proof -
  let ?c = "body (vw_bodies v) path"
  have fan: "fan_out_ok x q (vw_sse v)" and up: "0 \<le> s" "s < e" "e = int (length ?c)" "text = decode_replace (part ?c s e)"
    and qok: "queue_ok faults ?c x q v" and sent: "sent_ok faults ?c resume v"
    and r: "\<And>r. resume = Some r \<Longrightarrow> 0 \<le> r \<and> r \<le> int (length ?c)"
    using ok u by (simp_all add: view_ok_def Let_def unpublished_ok_def)
  have "queue_ok faults ?c x q ?v'"
  proof (cases "vw_place v = Ended")
    case False
    show ?thesis
    proof (cases "q \<in> set (subs_of (vw_sse v) x)")
      case True
      have dist: "distinct (subs_of (vw_sse v) x)" using fan by (simp add: fan_out_ok_def)
      from qok False True obtain a b where a: "0 \<le> a" "chained faults ?c a (queue_items (vw_sse v) q) b"
          "start_of (vw_place v) (vw_cursor v) a" "b = s \<or> faults \<and> b \<le> s"
        using u by (auto simp: queue_ok_def announced_end_def)
      show ?thesis
      proof (cases "queue_full (vw_sse v) q")
        case True
        then show ?thesis using publish_here(2) [OF dist \<open>q \<in> _\<close> True] by (simp add: queue_ok_def)
      next
        case False
        have "chained faults ?c a (queue_items (vw_sse v) q @ [Sse_log s e text]) e"
          using a(2,4) up by (auto simp: chained_append)
        then show ?thesis using publish_here(1) [OF dist \<open>q \<in> _\<close> False, of "Sse_log s e text"] a(1,3) up(3)
          by (intro queue_okI [where a = a and b = e]) (simp_all add: announced_end_def)
      qed
    next
      case not_sub: False
      then show ?thesis using qok False publish_elsewhere [OF not_sub] by (auto simp: queue_ok_def)
    qed
  qed (simp add: queue_ok_def)
  moreover have "sent_ok faults ?c resume ?v'" using sent by (simp add: sent_ok_def)
  moreover have "fan_out_ok x q (vw_sse ?v')" using fan_out_publish [OF fan] by simp
  ultimately show ?thesis using r by (intro view_okI [OF refl]) (simp_all add: unpublished_ok_def)
qed

lemma fan_step_ok:
  assumes "view_ok faults path x q resume v" and "fan_out_ok x q m" and "queue_items m q = queue_items (vw_sse v) q"
    and "q \<in> set (subs_of m x) \<longleftrightarrow> q \<in> set (subs_of (vw_sse v) x)"
  shows "view_ok faults path x q resume (v\<lparr>vw_sse := m\<rparr>)"
proof -
  let ?c = "body (vw_bodies v) path"
  have "queue_ok faults ?c x q v" "sent_ok faults ?c resume v" using assms(1) by (simp_all add: view_ok_def Let_def)
  then have "queue_ok faults ?c x q (v\<lparr>vw_sse := m\<rparr>)" "sent_ok faults ?c resume (v\<lparr>vw_sse := m\<rparr>)"
    using assms(3,4) by (cases "q \<in> set (subs_of (vw_sse v) x)"; simp add: queue_ok_def sent_ok_def)+
  then show ?thesis using assms(1,2) by (intro view_okI [OF refl]) (simp_all add: view_ok_def Let_def)
qed

lemma place_step_ok:
  assumes ok: "view_ok faults path x q resume v" and "vw_place v \<noteq> Subscribed" and "vw_place v \<noteq> Ended" and "p \<noteq> Subscribed"
    and start: "\<And>a. 0 \<le> a \<Longrightarrow> a \<le> int (length (body (vw_bodies v) path)) \<Longrightarrow> start_of (vw_place v) (vw_cursor v) a \<Longrightarrow> start_of p (vw_cursor v) a"
  shows "view_ok faults path x q resume (v\<lparr>vw_place := p\<rparr>)"
proof -
  let ?c = "body (vw_bodies v) path"
  have "announced_end ?c v \<le> int (length ?c)"
    using ok by (auto simp: view_ok_def Let_def announced_end_def unpublished_ok_def split: option.splits)
  then have begin_at: "start_of p (vw_cursor v) a" if "0 \<le> a" "chained faults ?c a (queue_items (vw_sse v) q) b"
      "b = announced_end ?c v \<or> faults \<and> b \<le> announced_end ?c v" "start_of (vw_place v) (vw_cursor v) a" for a b
    using start [OF that(1) _ that(4)] chained_le [OF that(2)] that(3) by linarith
  have qok: "queue_ok faults ?c x q v" using ok by (simp add: view_ok_def Let_def)
  have "queue_ok faults ?c x q (v\<lparr>vw_place := p\<rparr>)"
  proof (cases "q \<in> set (subs_of (vw_sse v) x)")
    case True
    with qok assms(3) obtain a b where a: "0 \<le> a" "chained faults ?c a (queue_items (vw_sse v) q) b"
        "b = announced_end ?c v \<or> faults \<and> b \<le> announced_end ?c v" "start_of (vw_place v) (vw_cursor v) a"
      unfolding queue_ok_def by auto
    from a begin_at [OF a] True show ?thesis by (intro queue_okI [where a = a and b = b]) simp_all
  qed (use qok assms(3) in \<open>simp add: queue_ok_def\<close>)
  moreover have "sent_ok faults ?c resume (v\<lparr>vw_place := p\<rparr>)"
    using ok assms(2-4) by (auto simp: view_ok_def Let_def sent_ok_def)
  ultimately show ?thesis using ok by (intro view_okI [OF refl]) (simp_all add: view_ok_def Let_def)
qed

lemma end_step_ok:
  assumes ok: "view_ok faults path x q resume v"
  shows "view_ok faults path x q resume (end_window x q v)"
proof -
  let ?c = "body (vw_bodies v) path"
  have "sent_ok faults ?c resume (end_window x q v)"
    using ok by (auto simp: view_ok_def Let_def sent_ok_def end_window_def split: if_splits)
  then show ?thesis using ok
    by (intro view_okI [OF refl])
      (simp_all add: view_ok_def Let_def queue_ok_def end_window_def fan_out_unsubscribe)
qed

lemma sent_frames_ok:
  assumes ok: "view_ok faults path x q resume v" and p: "vw_place v \<noteq> Subscribed" "vw_place v \<noteq> Ended" "p \<noteq> Subscribed" "p \<noteq> Ended"
    and frames: "shows_log faults (body (vw_bodies v) path) (vw_cursor v) frames cursor"
    and cursor: "0 \<le> cursor" "cursor \<le> body_size (vw_bodies v) path"
  shows "sent_ok faults (body (vw_bodies v) path) resume (send_frames frames cursor p v)"
proof -
  let ?c = "body (vw_bodies v) path"
  have "sent_ok faults ?c resume v" using ok by (simp add: view_ok_def Let_def)
  then obtain a where a: "shows_log faults ?c a (vw_sent v) (vw_cursor v)" "\<And>r. resume = Some r \<Longrightarrow> a = r"
    using p(1,2) by (auto simp: sent_ok_def)
  have "shows_log faults ?c a (vw_sent v @ frames) cursor" using a(1) frames by (auto simp: shows_append)
  then show ?thesis using p(3) a(2) cursor by (auto simp: sent_ok_def send_frames_def body_size_def)
qed

lemma send_step_ok:
  assumes ok: "view_ok faults path x q resume v" and "vw_place v \<noteq> Subscribed" "vw_place v \<noteq> Ended" "p \<noteq> Subscribed" "p \<noteq> Ended"
    and "shows_log faults (body (vw_bodies v) path) (vw_cursor v) frames cursor"
    and "0 \<le> cursor" "cursor \<le> body_size (vw_bodies v) path"
    and qok: "queue_ok faults (body (vw_bodies v) path) x q (send_frames frames cursor p v)"
  shows "view_ok faults path x q resume (send_frames frames cursor p v)"
  using sent_frames_ok [OF assms(1-8)] ok qok
  by (intro view_okI [OF refl]) (simp_all add: view_ok_def Let_def send_frames_def)

lemma screen_step_ok:
  assumes ok: "view_ok faults path x q resume v" and place: "vw_place v = Subscribed" and lines: "0 < first_screen_max_lines ws"
    and f: "first_screen ws (vw_bodies v) path resume = (frames, cursor)"
  shows "view_ok faults path x q resume (send_frames frames cursor Screened v)"
proof -
  let ?c = "body (vw_bodies v) path"
  have sent: "vw_sent v = []" and qok: "queue_ok faults ?c x q v" and r: "\<And>r. resume = Some r \<Longrightarrow> 0 \<le> r \<and> r \<le> int (length ?c)"
    using ok place by (simp_all add: view_ok_def Let_def sent_ok_def)
  have "\<exists>a. shows_log faults ?c a frames cursor \<and> 0 \<le> cursor \<and> cursor \<le> int (length ?c) \<and> (\<forall>r. resume = Some r \<longrightarrow> a = r)"
  proof (cases resume)
    case None
    obtain s e bytes where t: "tail_bytes (vw_bodies v) path (first_screen_max_lines ws) (first_screen_max_bytes ws) = (s, e, bytes)"
      by (metis prod_cases3)
    have fc: "frames = (if bytes = [] then [] else [Log_frame s e (decode_replace bytes)])" "cursor = e"
      using f None t by (auto simp: first_screen_def tail_screen_def)
    note tail_bytes_is_suffix [OF t lines]
    then have len: "e = int (length ?c)" "int (length bytes) = e - s" "0 \<le> s" and rest: "bytes = drop (nat s) ?c"
      unfolding body_size_def by blast+
    have content: "bytes = part ?c s e" unfolding part_def rest using len by (simp add: nat_diff_distrib)
    have "bytes = [] \<and> s = e \<or> bytes \<noteq> [] \<and> s < e" using len(2) by (cases bytes) auto
    then have "shows_log faults ?c s frames cursor" using fc len(1,3) content by (elim disjE conjE) simp_all
    then show ?thesis using fc(2) len(1) None by auto
  next
    case (Some r)
    then show ?thesis using f assms(1) \<open>\<And>r. resume = Some r \<Longrightarrow> _\<close> by (auto simp: first_screen_def)
  qed
  then have "sent_ok faults ?c resume (send_frames frames cursor Screened v)" using sent by (auto simp: sent_ok_def send_frames_def)
  moreover have "queue_ok faults ?c x q (send_frames frames cursor Screened v)"
    using qok place by (cases "q \<in> set (subs_of (vw_sse v) x)") (simp_all add: queue_ok_def send_frames_def)
  ultimately show ?thesis using ok by (intro view_okI [OF refl]) (simp_all add: view_ok_def Let_def send_frames_def)
qed

lemma slice_frame:
  assumes "backfill_slice ws fs path cursor = Some (frame, cursor')"
  obtains s e bytes where "read_slice fs path cursor (max_tail_bytes_per_pull ws) = (s, e, bytes)"
    and "cursor < e" and "frame = Log_frame s e bytes" and "cursor' = e"
proof -
  obtain s e bytes where r: "read_slice fs path cursor (max_tail_bytes_per_pull ws) = (s, e, bytes)" by (metis prod_cases3)
  have "cursor < e" "frame = Log_frame s e bytes" "cursor' = e"
    using assms by (auto simp: backfill_slice_def r split: if_splits)
  with r show ?thesis by (rule that)
qed

lemma slice_step_ok:
  assumes ok: "view_ok faults path x q resume v" and place: "vw_place v = Catching_up size_now" and "vw_cursor v < size_now"
    and sl: "backfill_slice ws (vw_bodies v) path (vw_cursor v) = Some (frame, cursor)"
  shows "view_ok faults path x q resume (send_frames [frame] cursor (Catching_up size_now) v)"
proof -
  let ?c = "body (vw_bodies v) path"
  obtain s e bytes where r: "read_slice (vw_bodies v) path (vw_cursor v) (max_tail_bytes_per_pull ws) = (s, e, bytes)"
      "vw_cursor v < e" "frame = Log_frame s e bytes" "cursor = e"
    by (rule slice_frame [OF sl])
  have range: "0 \<le> vw_cursor v" "vw_cursor v \<le> body_size (vw_bodies v) path" and qok: "queue_ok faults ?c x q v"
    using ok place by (simp_all add: view_ok_def Let_def sent_ok_def body_size_def)
  note whole = slice_of_body [OF r(1) range(1) r(2) range(2)]
  have "queue_ok faults ?c x q (send_frames [frame] cursor (Catching_up size_now) v)"
    using qok place by (cases "q \<in> set (subs_of (vw_sse v) x)") (simp_all add: queue_ok_def send_frames_def)
  then show ?thesis using whole range r place
    by (intro send_step_ok [OF ok]) (simp_all add: body_size_def)
qed

lemma forward_step_ok:
  assumes ok: "view_ok faults path x q resume v" and place: "vw_place v = Live" and items: "queue_items (vw_sse v) q = item # items"
    and f: "forward_item item (vw_cursor v) = (frames, cursor, False)"
  shows "view_ok faults path x q resume (send_frames frames cursor Live (pop_item q v))"
proof -
  let ?c = "body (vw_bodies v) path"
  obtain s e bytes where i: "item = Sse_log s e bytes"
      "(frames, cursor) = (if e \<le> vw_cursor v then ([], vw_cursor v) else ([Log_frame s e bytes], e))"
    using f by (cases item) (auto split: if_splits)
  have fan: "fan_out_ok x q (vw_sse v)" and qok: "queue_ok faults ?c x q v" and range: "0 \<le> vw_cursor v" "vw_cursor v \<le> int (length ?c)"
    using ok place by (simp_all add: view_ok_def Let_def sent_ok_def)
  have sub: "q \<in> set (subs_of (vw_sse v) x)" using qok place items i(1) by (auto simp: queue_ok_def split: if_splits)
  then obtain a b where a: "0 \<le> a" "a \<le> vw_cursor v" "chained faults ?c a (Sse_log s e bytes # items) b"
      and b: "b = announced_end ?c v \<or> faults \<and> b \<le> announced_end ?c v"
    using qok place items i(1) unfolding queue_ok_def by auto
  have chain: "s < e" "e \<le> int (length ?c)" "bytes = decode_replace (part ?c s e)" "s = a \<or> faults \<and> a \<le> s" "chained faults ?c e items b"
    using a(3) by simp_all
  have frames: "shows_log faults ?c (vw_cursor v) frames cursor" and cursor: "0 \<le> cursor" "cursor \<le> int (length ?c)" "e \<le> cursor"
    using i(2) a chain range by (auto split: if_splits)
  let ?v' = "send_frames frames cursor Live (pop_item q v)"
  have "sent_ok faults ?c resume (send_frames frames cursor Live v)"
    using frames cursor place by (intro sent_frames_ok [OF ok]) (simp_all add: body_size_def)
  then have "sent_ok faults ?c resume ?v'" by (simp add: sent_ok_def send_frames_def pop_item_def)
  moreover have "fan_out_ok x q (vw_sse ?v')"
    using fan by (simp add: send_frames_def pop_item_def fan_out_pop)
  moreover have "queue_ok faults ?c x q ?v'"
    using sub items chain(4,5) cursor a(1) chain(1) b
    by (intro queue_okI [where a = e and b = b]) (auto simp: send_frames_def pop_item_def announced_end_def)
  ultimately show ?thesis using ok
    by (intro view_okI [OF refl]) (simp_all add: view_ok_def Let_def send_frames_def pop_item_def)
qed

lemma closed_step_ok:
  assumes ok: "view_ok faults path x q resume v" and place: "vw_place v = Live"
    and f: "forward_item item (vw_cursor v) = (frames, cursor, True)"
  shows "view_ok faults path x q resume (end_window x q (send_frames frames cursor Live (pop_item q v)))"
proof -
  let ?c = "body (vw_bodies v) path" and ?v' = "end_window x q (send_frames frames cursor Live (pop_item q v))"
  have frames: "shows_log faults ?c (vw_cursor v) frames cursor" "cursor = vw_cursor v"
    using f by (cases item; auto split: if_splits)+
  have fan: "fan_out_ok x q (vw_sse v)" and range: "0 \<le> vw_cursor v" "vw_cursor v \<le> int (length ?c)"
    using ok place by (simp_all add: view_ok_def Let_def sent_ok_def)
  then have "fan_out_ok x q (vw_sse ?v')"
    by (simp add: end_window_def send_frames_def pop_item_def fan_out_unsubscribe fan_out_pop)
  moreover have "sent_ok faults ?c resume (send_frames frames cursor Live v)"
    using frames range place by (intro sent_frames_ok [OF ok]) (simp_all add: body_size_def)
  then have "sent_ok faults ?c resume ?v'" by (auto simp: sent_ok_def end_window_def send_frames_def pop_item_def)
  ultimately show ?thesis using ok
    by (intro view_okI [OF refl]) (simp_all add: view_ok_def Let_def queue_ok_def end_window_def send_frames_def pop_item_def)
qed

lemma failed_append_ok:
  assumes ok: "view_ok True path x q resume v" and none: "vw_unpublished v = None"
  shows "view_ok True path x q resume (v\<lparr>vw_bodies := append_bytes (vw_bodies v) path data\<rparr>)" (is "view_ok True path x q resume ?v'")
proof -
  let ?c = "body (vw_bodies v) path"
  have "queue_ok True ?c x q v" and sent: "sent_ok True ?c resume v" using ok by (simp_all add: view_ok_def Let_def)
  then have "queue_ok True (?c @ data) x q ?v'"
    using none chained_grows [of True ?c _ "queue_items (vw_sse v) q" _ data]
    by (cases "q \<in> set (subs_of (vw_sse v) x)") (fastforce simp: queue_ok_def announced_end_def)+
  moreover have "sent_ok True (?c @ data) resume ?v'" using sent by (simp add: sent_grows)
  ultimately show ?thesis using ok none
    by (intro view_okI [OF refl]) (auto simp: view_ok_def Let_def unpublished_ok_def)
qed

lemma announce_end_ok:
  assumes ok: "view_ok faults path x q resume v"
  shows "view_ok faults path x q resume (v\<lparr>vw_sse := sse_publish x (Sse_complete st) (vw_sse v)\<rparr>)" (is "view_ok faults path x q resume ?v'")
proof -
  let ?c = "body (vw_bodies v) path"
  have fan: "fan_out_ok x q (vw_sse v)" and qok: "queue_ok faults ?c x q v" and sent: "sent_ok faults ?c resume v"
    using ok by (simp_all add: view_ok_def Let_def)
  have "queue_ok faults ?c x q ?v'"
  proof (cases "vw_place v = Ended \<or> q \<notin> set (subs_of (vw_sse v) x)")
    case True
    then show ?thesis using qok publish_elsewhere [of q "vw_sse v" x] by (auto simp: queue_ok_def)
  next
    case False
    then have sub: "q \<in> set (subs_of (vw_sse v) x)" by simp
    have dist: "distinct (subs_of (vw_sse v) x)" using fan by (simp add: fan_out_ok_def)
    show ?thesis
    proof (cases "queue_full (vw_sse v) q")
      case True
      then show ?thesis using publish_here(2) [OF dist sub] by (simp add: queue_ok_def)
    next
      case room: False
      obtain a b where a: "0 \<le> a" "chained faults ?c a (queue_items (vw_sse v) q) b"
          "b = announced_end ?c v \<or> faults \<and> b \<le> announced_end ?c v" "start_of (vw_place v) (vw_cursor v) a"
        using qok False unfolding queue_ok_def by auto
      then have "chained faults ?c a (queue_items (vw_sse v) q @ [Sse_complete st]) b" by (simp add: chained_append)
      then show ?thesis using publish_here(1) [OF dist sub room, of "Sse_complete st"] a
        unfolding queue_ok_def by auto
    qed
  qed
  moreover have "sent_ok faults ?c resume ?v'" using sent by (simp add: sent_ok_def)
  ultimately show ?thesis using ok fan_out_publish [OF fan] by (intro view_okI [OF refl]) (simp_all add: view_ok_def Let_def)
qed

lemma complete_step_ok:
  assumes ok: "view_ok faults path x q resume v" and place: "vw_place v = Caught_up"
  shows "view_ok faults path x q resume (end_window x q (send_frames [Complete_frame st] (vw_cursor v) Caught_up v))"
proof (rule end_step_ok)
  have range: "0 \<le> vw_cursor v" "vw_cursor v \<le> body_size (vw_bodies v) path" and qok: "queue_ok faults (body (vw_bodies v) path) x q v"
    using ok place by (simp_all add: view_ok_def Let_def sent_ok_def body_size_def)
  have "queue_ok faults (body (vw_bodies v) path) x q (send_frames [Complete_frame st] (vw_cursor v) Caught_up v)"
    using qok place by (cases "q \<in> set (subs_of (vw_sse v) x)") (simp_all add: queue_ok_def send_frames_def)
  then show "view_ok faults path x q resume (send_frames [Complete_frame st] (vw_cursor v) Caught_up v)"
    using range place by (intro send_step_ok [OF ok]) simp_all
qed

lemma heartbeat_step_ok:
  assumes ok: "view_ok faults path x q resume v" and place: "vw_place v = Live"
  shows "view_ok faults path x q resume (send_frames [Keep_alive] (vw_cursor v) Live v)"
proof -
  have range: "0 \<le> vw_cursor v" "vw_cursor v \<le> body_size (vw_bodies v) path" and qok: "queue_ok faults (body (vw_bodies v) path) x q v"
    using ok place by (simp_all add: view_ok_def Let_def sent_ok_def body_size_def)
  have "queue_ok faults (body (vw_bodies v) path) x q (send_frames [Keep_alive] (vw_cursor v) Live v)"
    using qok place by (cases "q \<in> set (subs_of (vw_sse v) x)") (simp_all add: queue_ok_def send_frames_def)
  then show ?thesis using range place by (intro send_step_ok [OF ok]) simp_all
qed

lemma slices_end_ok:
  assumes ok: "view_ok faults path x q resume v" and place: "vw_place v = Catching_up size_now"
    and until: "size_now \<le> body_size (vw_bodies v) path" and cap: "0 < max_tail_bytes_per_pull ws"
    and stop: "\<not> vw_cursor v < size_now \<or> backfill_slice ws (vw_bodies v) path (vw_cursor v) = None"
  shows "view_ok faults path x q resume (v\<lparr>vw_place := Caught_up\<rparr>)"
proof (rule place_step_ok [OF ok])
  have "0 \<le> vw_cursor v" using ok place by (simp add: view_ok_def Let_def sent_ok_def)
  have "size_now \<le> vw_cursor v"
  proof (rule ccontr)
    assume "\<not> size_now \<le> vw_cursor v"
    then have "vw_cursor v < body_size (vw_bodies v) path" "vw_cursor v < size_now" using until by simp_all
    then show False
      using stop slice_exists [OF \<open>0 \<le> vw_cursor v\<close>, of "vw_bodies v" path "max_tail_bytes_per_pull ws"] cap
      by (auto simp: backfill_slice_def)
  qed
  then show "start_of Caught_up (vw_cursor v) a" if "start_of (vw_place v) (vw_cursor v) a" for a using that place by simp
qed (use place in simp_all)

definition measured :: "string \<Rightarrow> log_view \<Rightarrow> bool" where
  "measured path v = (\<forall>n. vw_place v = Catching_up n \<longrightarrow> n \<le> body_size (vw_bodies v) path)"

lemma window_step_ok:
  assumes step: "window_step ws path x q resume ended faults v v'"
    and ws: "0 < first_screen_max_lines ws" "0 < max_tail_bytes_per_pull ws"
    and ok: "view_ok faults path x q resume v" and m: "measured path v"
  shows "view_ok faults path x q resume v' \<and> measured path v'"
  using step
proof cases
  case (append data n)
  show ?thesis unfolding append(1) using append_step_ok [OF ok append(2-4)] m by (auto simp: measured_def)
next
  case (failed_append data)
  show ?thesis unfolding failed_append(1) using failed_append_ok [of path x q resume v] ok failed_append(2,3) m
    by (auto simp: measured_def)
next
  case (announce_end status)
  show ?thesis unfolding announce_end(1) using announce_end_ok [OF ok] m by (simp add: measured_def)
next
  case (announce s e t)
  show ?thesis unfolding announce(1) using announce_step_ok [OF ok announce(2)] m by (auto simp: measured_def)
next
  case (screen frames cursor)
  show ?thesis unfolding screen(1) using screen_step_ok [OF ok screen(2) ws(1) screen(3)]
    by (simp add: measured_def send_frames_def)
next
  case measure
  have "view_ok faults path x q resume (v\<lparr>vw_place := Catching_up (body_size (vw_bodies v) path)\<rparr>)"
    using measure(2) by (intro place_step_ok [OF ok]) (simp_all add: body_size_def)
  then show ?thesis unfolding measure(1) by (simp add: measured_def)
next
  case (slice size_now frame cursor)
  show ?thesis unfolding slice(1) using slice_step_ok [OF ok slice(2-4)] m slice(2)
    by (simp add: measured_def send_frames_def)
next
  case (slices_end size_now)
  show ?thesis unfolding slices_end(1) using slices_end_ok [OF ok slices_end(2) _ ws(2) slices_end(3)] m slices_end(2)
    by (simp add: measured_def)
next
  case (complete status)
  show ?thesis unfolding complete(1) using complete_step_ok [OF ok complete(2)] by (simp add: measured_def end_window_def)
next
  case go_live
  have "view_ok faults path x q resume (v\<lparr>vw_place := Live\<rparr>)"
    using go_live(2) by (intro place_step_ok [OF ok]) simp_all
  then show ?thesis unfolding go_live(1) by (simp add: measured_def)
next
  case (forward item items frames cursor)
  show ?thesis unfolding forward(1) using forward_step_ok [OF ok forward(2-4)] by (simp add: measured_def send_frames_def)
next
  case (closed item items frames cursor)
  show ?thesis unfolding closed(1) using closed_step_ok [OF ok closed(2,4)] by (simp add: measured_def end_window_def)
next
  case heartbeat
  show ?thesis unfolding heartbeat(1) using heartbeat_step_ok [OF ok heartbeat(2)] by (simp add: measured_def send_frames_def)
next
  case leave
  show ?thesis unfolding leave(1) using end_step_ok [OF ok] by (simp add: measured_def end_window_def)
next
  case (other_opens y)
  have "fan_out_ok x q (vw_sse v)" using ok by (simp add: view_ok_def Let_def)
  from fan_step_ok [OF ok other_subscribes [OF this]] show ?thesis unfolding other_opens(1) using m by (simp add: measured_def)
next
  case (other_reads q')
  have "fan_out_ok x q (vw_sse v)" using ok by (simp add: view_ok_def Let_def)
  from fan_step_ok [OF ok fan_out_set_queue [OF this other_reads(3)]] show ?thesis
    unfolding other_reads(1) using other_reads(2) m by (simp add: measured_def)
next
  case (other_leaves q' y)
  have "fan_out_ok x q (vw_sse v)" using ok by (simp add: view_ok_def Let_def)
  from fan_step_ok [OF ok fan_out_unsubscribe [OF this, of y q']] show ?thesis
    unfolding other_leaves(1) using other_leaves(2) m by (simp add: measured_def)
next
  case (other_log y ev)
  have fan: "fan_out_ok x q (vw_sse v)" using ok by (simp add: view_ok_def Let_def)
  then have "q \<notin> set (subs_of (vw_sse v) y)" using other_log(2) by (simp add: fan_out_ok_def)
  from fan_step_ok [OF ok fan_out_publish [OF fan] publish_elsewhere [OF this]] show ?thesis
    unfolding other_log(1) using m by (simp add: measured_def)
qed

definition manager_ok :: "sse \<Rightarrow> bool" where
  "manager_ok m \<longleftrightarrow> map fst (ss_queues m) = [0..<length (ss_queues m)]
     \<and> (\<forall>y. distinct (subs_of m y) \<and> (\<forall>k \<in> set (subs_of m y). k < length (ss_queues m)))"

lemma opened_ok:
  assumes o: "open_window x fs m u = (v, q)" and m: "manager_ok m"
    and u: "u = None \<or> (\<exists>s \<ge> 0. s < body_size fs path \<and> u = Some (s, body_size fs path, decode_replace (part (body fs path) s (body_size fs path))))"
    and r: "\<And>r. resume = Some r \<Longrightarrow> 0 \<le> r \<and> r \<le> body_size fs path"
  shows "view_ok faults path x q resume v \<and> measured path v"
proof -
  have keys: "map fst (ss_queues m) = [0..<length (ss_queues m)]" using m by (simp add: manager_ok_def)
  note s = subscribes [OF keys, of x]
  have v: "vw_bodies v = fs" "vw_sse v = fst (sse_subscribe m x)" "vw_unpublished v = u" "vw_place v = Subscribed"
      "vw_cursor v = 0" "vw_sent v = []" and q: "q = length (ss_queues m)"
    using o s(5) by (auto simp: open_window_def Let_def split: prod.splits)
  have old: "k < length (ss_queues m)" if "k \<in> set (subs_of m y)" for k y using m that by (auto simp: manager_ok_def)
  have dist: "distinct (subs_of m y)" for y using m by (simp add: manager_ok_def)
  have unpub: "unpublished_ok (body fs path) v" using u v(3) by (auto simp: unpublished_ok_def body_size_def)
  have "fan_out_ok x q (vw_sse v)"
    unfolding fan_out_ok_def v(2) q s(1,3,4) using old dist by (auto simp: less_SucI)
  moreover have "queue_ok faults (body fs path) x q v"
  proof -
    have "0 \<le> announced_end (body fs path) v" using unpub by (auto simp: announced_end_def unpublished_ok_def split: option.splits)
    then show ?thesis using s(1,2) v(2,4) q
      by (intro queue_okI [where a = "announced_end (body fs path) v" and b = "announced_end (body fs path) v"]) simp_all
  qed
  ultimately show ?thesis using unpub v r by (auto simp: view_ok_def Let_def sent_ok_def measured_def body_size_def)
qed

lemma window_run_ok:
  assumes "window_run ws path x q resume ended faults v v'"
    and ws: "0 < first_screen_max_lines ws" "0 < max_tail_bytes_per_pull ws"
    and ok: "view_ok faults path x q resume v \<and> measured path v"
  shows "view_ok faults path x q resume v' \<and> measured path v'"
  using assms(1) unfolding window_run_def
proof (induction rule: rtranclp_induct)
  case (step y z)
  then show ?case using window_step_ok [OF step.hyps(2) ws] by blast
qed (use ok in simp)


definition small_windows :: window_settings where
  "small_windows = \<lparr>max_tail_bytes_per_pull = 3, first_screen_max_lines = 2000, first_screen_max_bytes = 1048576,
     auth_enabled = False, token_secret = [], stream_token_ttl_seconds = 60\<rparr>"

text \<open>A window that reconnects at 0, while the consumer appends between its look at the size and its read.\<close>

lemma overlapping_run:
  "\<exists>v0 v. open_window ''x'' [(''p'', ''ab'')] (new_sse 1000) None = (v0, 0)
     \<and> window_run small_windows ''p'' ''x'' 0 (Some 0) None False v0 v
     \<and> vw_sent v = [Log_frame 0 3 ''abc'', Log_frame 2 5 ''cde''] \<and> vw_cursor v = 5 \<and> vw_place v = Live
     \<and> body_size (vw_bodies v) ''p'' = 5 \<and> body (vw_bodies v) ''p'' = ''abcde''"
proof -
  let ?step = "window_step small_windows ''p'' ''x'' 0 (Some 0) None False"
  define v0 where "v0 = fst (open_window ''x'' [(''p'', ''ab'')] (new_sse 1000) None)"
  have o: "open_window ''x'' [(''p'', ''ab'')] (new_sse 1000) None = (v0, 0)"
    by (simp add: v0_def open_window_def sse_subscribe_def new_sse_def Let_def)
  have v0: "vw_bodies v0 = [(''p'', ''ab'')]" "vw_unpublished v0 = None" "vw_place v0 = Subscribed" "vw_cursor v0 = 0" "vw_sent v0 = []"
      "queue_items (vw_sse v0) 0 = []" "subs_of (vw_sse v0) ''x'' = [0]" "ss_maxsize (vw_sse v0) = 1000"
    by (simp_all add: v0_def open_window_def sse_subscribe_def new_sse_def Let_def set_queue_def queue_items_def subs_of_def or_default_def)
  define v1 where "v1 = send_frames [] 0 Screened v0"
  define v2 where "v2 = v1\<lparr>vw_place := Catching_up (body_size (vw_bodies v1) ''p'')\<rparr>"
  define v3 where "v3 = v2\<lparr>vw_bodies := append_bytes (vw_bodies v2) ''p'' ''cde'', vw_unpublished := Some (2, 2 + int (length ''cde''), decode_replace ''cde'')\<rparr>"
  define v4 where "v4 = send_frames [Log_frame 0 3 ''abc''] 3 (Catching_up 2) v3"
  define v5 where "v5 = v4\<lparr>vw_place := Caught_up\<rparr>"
  define v6 where "v6 = v5\<lparr>vw_place := Live\<rparr>"
  define v7 where "v7 = v6\<lparr>vw_sse := sse_publish ''x'' (Sse_log 2 5 ''cde'') (vw_sse v6), vw_unpublished := None\<rparr>"
  define v8 where "v8 = send_frames [Log_frame 2 5 ''cde''] 5 Live (pop_item 0 v7)"
  note defs = v4_def v5_def v6_def send_frames_def
  have sizes: "body_size [(''p'', ''ab'')] ''p'' = 2" "body_size [(''p'', ''abcde'')] ''p'' = 5"
      "append_bytes [(''p'', ''ab'')] ''p'' ''cde'' = [(''p'', ''abcde'')]"
    by (simp_all add: body_size_def body_def or_default_def append_bytes_def)
  have cap: "max_tail_bytes_per_pull small_windows = 3" by (simp add: small_windows_def)
  have s1: "?step v0 v1" unfolding v1_def
    by (rule window_step.screen) (simp_all add: v0 first_screen_def)
  have s2: "?step v1 v2" unfolding v2_def by (rule window_step.measure) (simp add: v1_def send_frames_def)
  have b2: "vw_bodies v2 = [(''p'', ''ab'')]" "vw_place v2 = Catching_up 2" "vw_unpublished v2 = None"
    by (simp_all add: v2_def v1_def send_frames_def v0 sizes)
  have s3: "?step v2 v3" unfolding v3_def by (rule window_step.append) (simp_all add: b2 sizes)
  have b3: "vw_bodies v3 = [(''p'', ''abcde'')]" "vw_place v3 = Catching_up 2" "vw_unpublished v3 = Some (2, 5, ''cde'')"
      "vw_cursor v3 = 0" "vw_sent v3 = []" "vw_sse v3 = vw_sse v0"
    by (simp_all add: v3_def b2 sizes decode_replace_ascii del: decode_replace.simps(2)) (simp_all add: v2_def v1_def send_frames_def v0)
  have s4: "?step v3 v4" unfolding v4_def
    by (rule window_step.slice) (simp_all add: b3 backfill_slice_def read_slice_def slice_bytes_def cap decode_replace_ascii del: decode_replace.simps(2))
  have s5: "?step v4 v5" unfolding v5_def
    by (rule window_step.slices_end [where size_now = 2]) (simp_all add: v4_def send_frames_def)
  have s6: "?step v5 v6" unfolding v6_def by (rule window_step.go_live) (simp_all add: v5_def)
  have s7: "?step v6 v7" unfolding v7_def
    by (rule window_step.announce) (simp add: defs b3)
  have q6: "vw_sse v6 = vw_sse v0" by (simp add: defs b3)
  have q7: "queue_items (vw_sse v7) 0 = [Sse_log 2 5 ''cde'']"
    using v0(6-8) by (simp add: v7_def q6 sse_publish_def sse_put_def queue_full_def)
  have s8: "?step v7 v8" unfolding v8_def
    by (rule window_step.forward) (simp_all add: q7, simp_all add: v7_def defs b3)
  have "window_run small_windows ''p'' ''x'' 0 (Some 0) None False v0 v8"
    unfolding window_run_def using s1 s2 s3 s4 s5 s6 s7 s8 by (meson rtranclp.rtrancl_into_rtrancl rtranclp.rtrancl_refl)
  moreover have "vw_sent v8 = [Log_frame 0 3 ''abc'', Log_frame 2 5 ''cde'']" "vw_cursor v8 = 5" "vw_place v8 = Live"
      "vw_bodies v8 = [(''p'', ''abcde'')]"
    by (simp_all add: v8_def pop_item_def v7_def defs b3)
  moreover have "body [(''p'', ''abcde'')] ''p'' = ''abcde''" by (simp add: body_def or_default_def)
  ultimately show ?thesis using o sizes by auto
qed


fun frame_bytes :: "sse_frame \<Rightarrow> string" where
  "frame_bytes (Log_frame s e bytes) = bytes"
| "frame_bytes frame = []"

text \<open>A window may show bytes twice: a slice read while the log grows can end inside an increment, and
  its announcement, whose end is past the cursor, is forwarded whole.
\<close>

theorem window_repeats_bytes:
  "\<exists>v0 v. open_window ''x'' [(''p'', ''ab'')] (new_sse 1000) None = (v0, 0)
     \<and> window_run small_windows ''p'' ''x'' 0 (Some 0) None False v0 v
     \<and> concat (map frame_bytes (vw_sent v)) = ''abccde'' \<and> body (vw_bodies v) ''p'' = ''abcde''"
proof -
  from overlapping_run obtain v0 v where o: "open_window ''x'' [(''p'', ''ab'')] (new_sse 1000) None = (v0, 0)"
    and run: "window_run small_windows ''p'' ''x'' 0 (Some 0) None False v0 v"
    and v: "vw_sent v = [Log_frame 0 3 ''abc'', Log_frame 2 5 ''cde'']" "body (vw_bodies v) ''p'' = ''abcde''" by blast
  have "concat (map frame_bytes (vw_sent v)) = ''abccde''" using v(1) by simp
  with o run v(2) show ?thesis by blast
qed

section \<open>Tokens\<close>

text \<open>A connect token opens the log stream of the task it was issued for, until it expires, and no other.\<close>

theorem stream_token_roundtrip:
  assumes "\<And>e exp. tk_read lib (tk_payload lib e exp) = Some (Some e, exp)" and "\<And>e exp. CHR ''.'' \<notin> set (tk_payload lib e exp)"
  shows "verify_stream_token lib secret (fst (issue_stream_token lib secret task_id ttl issued)) task_id' now
    \<longleftrightarrow> task_id' = task_id \<and> now < issued + max 1 ttl"
proof -
  let ?p = "tk_payload lib task_id (issued + max 1 ttl)"
  have "split_token (?p @ ''.'' @ tk_sign lib secret ?p) = Some (?p, tk_sign lib secret ?p)"
    using assms(2) [of task_id "issued + max 1 ttl"]
    by (auto simp: split_token_def Let_def takeWhile_append dropWhile_append)
  then show ?thesis using assms(1) by (auto simp: verify_stream_token_def issue_stream_token_def Let_def)
qed

end
