(* ===== verification/Spec2Isabelle.thy ===== *)
theory Spec2Isabelle
  imports Firings AgentDaemon AgentStopProofs AgentOutbox LogPipeline LogGuards CacheLocks StreamGuard ResourceStats
    UploadRaces LogWindows
begin

text \<open>
  dopilot runs scrapy crawlers and python wheels on a fleet of nodes. A \<^emph>\<open>server\<close> (one asyncio
  process over PostgreSQL) owns tasks, executions, schedules and their logs; an \<^emph>\<open>agent\<close> on every
  node runs the jobs. They talk over Redis streams only: the server sends \<open>run\<close>, \<open>stop\<close>,
  \<open>cleanup_logs\<close> and \<open>stop_logs\<close> commands, the agent sends lifecycle events and increments of the
  job logs, and each side keeps an outbox of what it still has to send. This development is a
  model of both sides, translated from the Python sources, with the theorems that make them
  correct.

  \<^bold>\<open>The parts\<close>

  Shared
  \<^item> \<open>Prelude\<close>, \<open>PyLib\<close>: lists as tables (first match by key, update, sorting), options, the parts of
    Python's library the code uses (str, int and float parsing, ISO time stamps, JSON values).
  \<^item> \<open>Protocol\<close>: \<^verbatim>\<open>packages/protocol\<close>: commands, events, log events, run requests. The JSON codec is
    pydantic; a decoded message is a value, an undecodable one is \<open>None\<close>.
  \<^item> \<open>ScrapyCommand\<close>: \<^verbatim>\<open>scrapy_command.py\<close>, tokenizer, parser and synthesis of scrapy commands.

  Server (\<^verbatim>\<open>apps/server/dopilot_server\<close>)
  \<^item> \<open>Settings\<close>, \<open>ServerModels\<close>: the settings sections and one record per table; a database \<open>db\<close> is
    the tuple of its tables. A session that commits is the updated \<open>db\<close>, one that raises is the old.
  \<^item> \<open>States\<close> (\<^verbatim>\<open>services/states.py\<close>), \<open>Notifications\<close>, \<open>Outbox\<close>, \<open>Nodes\<close> (\<^verbatim>\<open>nodes/\<close>),
    \<open>Executions\<close>, \<open>Schedules\<close>, \<open>Outcomes\<close> (recorder and circuit breaker), \<open>Reconcile\<close> and
    \<open>Dispatcher\<close> (with \<^verbatim>\<open>services/cancel.py\<close>): the services of the same names.
  \<^item> \<open>Executors\<close>: \<^verbatim>\<open>executors/\<close>, what a run request writes.
  \<^item> \<open>ServerEvents\<close>: \<^verbatim>\<open>services/events.py\<close>, the application of an agent event.
  \<^item> \<open>LogFiles\<close>, \<open>ServerLogs\<close>: log bodies on disk, the directory gauge, open log windows, and the
    application of a log increment with its caps and markers.
  \<^item> \<open>Maintenance\<close>, \<open>Retention\<close>, \<open>RetentionProofs\<close>: \<^verbatim>\<open>services/maintenance.py\<close> and
    \<^verbatim>\<open>retention.py\<close>, the deletion of old terminal tasks with their bodies, the cut of oversized logs,
    the eviction to the directory budget, the prunes and the manual \<open>lost\<close>.
  \<^item> \<open>Templates\<close> (\<^verbatim>\<open>services/artifacts.py\<close>, \<^verbatim>\<open>templates.py\<close>, \<^verbatim>\<open>resolve.py\<close>, \<^verbatim>\<open>dispatch.py\<close>),
    \<open>ScheduleRuns\<close> (the rest of \<^verbatim>\<open>services/schedules.py\<close>, \<^verbatim>\<open>scheduler/runner.py\<close>): from an artifact and a
    template to a run, and the firing of schedules.
  \<^item> \<open>Uploads\<close>, \<open>UploadRaces\<close> (\<^verbatim>\<open>artifacts/\<close>, \<^verbatim>\<open>api/v1/artifacts.py\<close>, \<^verbatim>\<open>services/builtin_artifacts.py\<close>): the
    artifact stores, inspection of eggs and wheels, staging, quota and the upload routes, the built-in
    artifacts, and several uploads at once as a step relation with their locks.
  \<^item> \<open>LogWindows\<close> (\<^verbatim>\<open>api/v1/tasks.py\<close>, \<^verbatim>\<open>logs/stream_token.py\<close>): the task routes, and an open log window
    as a step relation beside the log consumer and all other windows.
  \<^item> \<open>StreamGuard\<close> (\<^verbatim>\<open>redis/stream_guard.py\<close>, the event consumer of \<^verbatim>\<open>redis/consumers.py\<close>),
    \<open>ResourceStats\<close> (\<^verbatim>\<open>resource_stats.py\<close>): the byte budget of the log stream, the consumption of agent
    events, and the sampler of the maintenance dashboard.
  \<^item> \<open>ServerSteps\<close>, \<open>Firings\<close>: all writers as one step relation on the database, and what schedules may
    count on in every interleaving.

  Agent (\<^verbatim>\<open>apps/agent/dopilot_agent\<close>)
  \<^item> \<open>AgentStore\<close> (\<^verbatim>\<open>state/store.py\<close>), \<open>AgentScrapyd\<close> (\<^verbatim>\<open>scrapyd/\<close>, \<^verbatim>\<open>runners/scrapyd.py\<close>),
    \<open>AgentWheel\<close> (\<^verbatim>\<open>runners/python_wheel.py\<close>), \<open>AgentEvents\<close> (\<^verbatim>\<open>redis/events.py\<close>),
    \<open>AgentCaches\<close> (\<^verbatim>\<open>artifacts/\<close>), \<open>AgentCommands\<close> (\<^verbatim>\<open>redis/commands.py\<close>): state files, the two
    kinds of runner, the durable event outbox, the artifact caches, the command consumer with its
    tick (flood watchdog, stop state machine) and boot recovery.
  \<^item> \<open>AgentLogs\<close> (\<^verbatim>\<open>redis/logs.py\<close>): the log publisher with cursor, cap and token bucket.
  \<^item> \<open>AgentJanitor\<close>, \<open>JanitorProofs\<close>, \<open>CacheLocks\<close> (\<^verbatim>\<open>janitor.py\<close>): removal of old workspaces, cut of
    oversized logs, eviction from the caches, the disk sample, and the race for a cache lock.
  \<^item> \<open>AgentEffects\<close>, \<open>AgentDaemon\<close>, \<open>AgentStops\<close>, \<open>AgentStopProofs\<close>, \<open>AgentOutbox\<close>: the agent as a
    sequence of operations, what each leaves alone, and the properties of runs, stops and events.

  Across both sides
  \<^item> \<open>LogBus\<close>, \<open>LogPipeline\<close>, \<open>LogGuards\<close>: the log stream between publisher and server, from the bytes
    of \<open>job.log\<close> to the body on the server.

  \<^bold>\<open>How code became definitions\<close>

  A handler is one function of the same name from the state to the new state and its result; early
  returns are branches, exceptions a sum, an option or a flag that says that the call raised. Rows and
  files are association lists read by key. What is not under \<^verbatim>\<open>src\<close> (Redis, scrapyd over HTTP, the
  operating system's processes, the disk's failures, pip, SHA-256) is a record of functions over a
  world \<open>'w\<close> that the definitions take as an argument; the theorems hold for every such record, or
  state as a hypothesis what they need of it. Python integers are \<open>int\<close>; seconds and float tokens are
  counted in integers of microseconds or millionths.

  \<^bold>\<open>What the theorems show\<close>

  \<^item> Status safety: no interleaving of the server's writers revives a settled task or execution; every
    terminal is written once; only an agent's terminal replaces a server-side \<open>lost\<close>.
  \<^item> Delivery: a command is sent at most once per delivery, given up after its window, and found again
    by the sweep when Redis lost it; events of the agent are in the stream or in its outbox.
  \<^item> Idempotence on the agent: a redelivered run never starts a second job; a stop always ends as
    its intent says; a cleanup never forgets an attempt that owes a kill or a terminal.
  \<^item> Schedules: the concurrency limit under every interleaving, well-typedness, the breaker's state table, trip condition and back-off.
  \<^item> Logs: the stored body is the job's log up to a marked cut; quotas, caps and the budget hold.
  \<^item> Uploads: one is all or nothing, no interleaving of them leaves a row without its bytes, and the quota
    holds if reading the total and deciding are one step. Windows: an open one shows the log without a gap.
  \<^item> Retention: a cleanup may crash anywhere and loses no body that a row still promises; the prunes
    keep the facts other services read; the eviction tells the truth about the budget.
  \<^item> Streams: a redelivered batch of events changes nothing, an undecodable one is skipped, and the guard
    brings the log stream back within its budget. The dashboard shows what was measured.
  \<^item> Disk of the agent: a sweep spares active executions, cuts only the logs of stopped jobs and evicts
    least recently used first; an egg's lock excludes, a wheel's does not.
  \<^item> Findings: the inputs where the code does not do what its comments promise.

  \<^bold>\<open>Bounds and fuel\<close>

  Loops over a snapshot are structural recursion over it. \<open>publish_loop\<close> and the parsers are
  \<open>function\<close>s with a measure (bytes left to read). The waits of the code have a deadline, so they are
  recursion over the polls that fit in it: \<open>cf_polls\<close> of the artifact caches counts the lock polls
  up to the time-out and \<open>wc_grace_polls\<close> of the wheel runner those of the termination grace; when
  they run out the code gives up as the model does.

  \<^bold>\<open>Not modelled\<close>

  Interleaving of coroutines inside one handler (a handler is one step; the database's row locks and
  the single consumer make it one), the asyncio tasks that repeat a pass, the runtime status object
  behind the health endpoint, the FastAPI routes that only call a service and the schemas, login and
  agent tokens (a JWT layer), Alembic scripts, disk errors outside the places where the code handles them, UTF-8 decoding
  for display. A \<open>working_dir\<close> of another type than string is treated as absent.
\<close>

end
